(* ===== verification/Prelude.thy ===== *)
theory Prelude
  imports Main "HOL-Library.Word"
begin

text \<open>
  Shared vocabulary of the development: the exceptions of the decaf runtime as values, the
  result type of an operation that may throw, the fixed-width reading of a C++ \<open>int\<close>, and
  the generic facts on lists, updates of functions and options that the components use.
\<close>

unbundle bit_operations_syntax

section \<open>Exceptions as values\<close>

text \<open>
  The exception classes of \<open>decaf/lang/exceptions\<close>, \<open>decaf/util\<close> and \<open>decaf/io\<close> that the
  modelled code throws, and those of \<open>activemq\<close> and \<open>cms\<close>
  that reach its callers.  \<open>UndefinedBehaviour\<close> stands for a read that the C++ standard leaves
  undefined (a dangling or null pointer, an index outside an array): the models return it
  explicitly, and the invariants show that it does not occur.  \<open>StillWaiting\<close> is the result of a call
  whose thread sleeps or waits longer than the run that is looked at, and \<open>StackOverflow\<close> that of a
  recursion that goes deeper than the run that is looked at.
\<close>

datatype decaf_exception =
    IndexOutOfBoundsException
  | NegativeArraySizeException
  | NoSuchElementException
  | IllegalStateException
  | IllegalArgumentException
  | ConcurrentModificationException
  | NullPointerException
  | UnsupportedOperationException
  | NumberFormatException
  | EOFException
  | IOException
  | UTFDataFormatException
  | ClassCastException
  | ActiveMQException
  | CMSException
  | CMSIllegalStateException
  | InvalidDestinationException
  | TransactionRolledBackException
  | StillWaiting
  | StackOverflow
  | UndefinedBehaviour

type_synonym 'a result = "decaf_exception + 'a"

named_theorems result_simps \<open>unfolding the result combinators\<close>

definition guard_result :: "bool \<Rightarrow> decaf_exception \<Rightarrow> 'a result \<Rightarrow> 'a result" where
  [result_simps]: "guard_result ok e r = (if ok then r else Inl e)"

fun bind_result :: "'a result \<Rightarrow> ('a \<Rightarrow> 'b result) \<Rightarrow> 'b result" where
  "bind_result (Inl e) k = Inl e"
| "bind_result (Inr x) k = k x"

fun of_option :: "decaf_exception \<Rightarrow> 'a option \<Rightarrow> 'a result" where
  "of_option e None = Inl e"
| "of_option e (Some x) = Inr x"

lemma bind_result_Inr_iff:
  "bind_result r k = Inr y \<longleftrightarrow> (\<exists>x. r = Inr x \<and> k x = Inr y)"
  by (cases r) auto

lemma of_option_Inr_iff [simp]: "of_option e r = Inr x \<longleftrightarrow> r = Some x"
  by (cases r) auto

lemma option_eqI: "(\<And>v. x = Some v \<longleftrightarrow> y = Some v) \<Longrightarrow> x = y"
  by (cases x; cases y) auto

section \<open>Fixed-width integers\<close>

text \<open>
  A C++ \<open>int\<close> is a mathematical integer kept in the signed 32-bit range; \<open>wrap32\<close> is the value
  that the two's complement hardware leaves behind when an intermediate result does not fit.
\<close>

definition wrap32 :: "int \<Rightarrow> int" where
  "wrap32 x = signed_take_bit 31 x"

definition INT_MAX :: int where
  "INT_MAX = 2147483647"

definition wrap64 :: "int \<Rightarrow> int" where
  "wrap64 x = signed_take_bit 63 x"

lemma wrap64_id: "- 9223372036854775808 \<le> x \<Longrightarrow> x \<le> 9223372036854775807 \<Longrightarrow> wrap64 x = x"
  by (simp add: wrap64_def signed_take_bit_int_eq_self)

lemma wrap32_id: "- 2147483648 \<le> x \<Longrightarrow> x \<le> 2147483647 \<Longrightarrow> wrap32 x = x"
  by (simp add: wrap32_def signed_take_bit_int_eq_self)

lemma wrap32_range: "- 2147483648 \<le> wrap32 x \<and> wrap32 x \<le> 2147483647"
  using signed_take_bit_int_greater_eq_minus_exp [of 31 x] signed_take_bit_int_less_exp [of 31 x]
  by (simp add: wrap32_def)

lemma wrap32_mod: "wrap32 x mod 4294967296 = x mod 4294967296"
proof -
  have "take_bit 32 (signed_take_bit 31 x) = take_bit 32 x"
    by (simp add: take_bit_signed_take_bit)
  then show ?thesis by (simp add: wrap32_def take_bit_eq_mod)
qed

section \<open>Lists\<close>

named_theorems list_simps \<open>rewrites for positions in lists\<close>

lemma nth_split_list:
  assumes "i < length xs"
  shows "xs = take i xs @ xs ! i # drop (Suc i) xs"
  using assms by (rule id_take_nth_drop)

lemma list_update_split [list_simps]:
  "length xs = i \<Longrightarrow> (xs @ y # ys)[i := z] = xs @ z # ys"
  by (auto simp: list_update_append)

lemma map_if_notin [simp, list_simps]:
  "p \<notin> set us \<Longrightarrow> map (\<lambda>x. if x = p then y else f x) us = map f us"
  by (induction us) auto

lemma nth_map_upt_default:
  "i < n \<Longrightarrow> map f [0..<n] ! i = f i"
  by simp

lemma filter_hd_split:
  assumes "filter P xs = y # ys"
  shows "\<exists>us vs. xs = us @ y # vs \<and> filter P us = [] \<and> P y \<and> ys = filter P vs"
  using assms
proof (induction xs)
  case Nil
  then show ?case by simp
next
  case (Cons a xs)
  show ?case
  proof (cases "P a")
    case True
    with Cons.prems have "a = y" and "ys = filter P xs" by simp_all
    with True show ?thesis by (intro exI [of _ "[]"] exI [of _ xs]) simp
  next
    case False
    with Cons.prems have "filter P xs = y # ys" by simp
    then obtain us vs where "xs = us @ y # vs" "filter P us = []" "P y" "ys = filter P vs"
      using Cons.IH by blast
    with False show ?thesis by (intro exI [of _ "a # us"] exI [of _ vs]) simp
  qed
qed

lemma map_filter_total:
  "(\<And>x. x \<in> set xs \<Longrightarrow> f x = Some (g x)) \<Longrightarrow> List.map_filter f xs = map g xs"
  by (induction xs) (simp_all add: List.map_filter_simps)

section \<open>Counted loops over arrays\<close>

text \<open>
  \<open>for (int k = i; k < n; k++) a[k] = f(k, a[k]);\<close> as a recursive function, and what it leaves at
  every position.
\<close>

function for_words :: "nat \<Rightarrow> nat \<Rightarrow> (nat \<Rightarrow> 'a \<Rightarrow> 'a) \<Rightarrow> 'a list \<Rightarrow> 'a list" where
  "for_words i n f xs = (if i < n then for_words (Suc i) n f (xs[i := f i (xs ! i)]) else xs)"
  by pat_completeness auto
termination
  by (relation "measure (\<lambda>(i, n, f, xs). n - i)") auto

declare for_words.simps [simp del]

lemma length_for_words [simp]: "length (for_words i n f xs) = length xs"
  by (induction i n f xs rule: for_words.induct) (subst for_words.simps, simp)

lemma nth_for_words:
  "k < length xs \<Longrightarrow> for_words i n f xs ! k = (if i \<le> k \<and> k < n then f k (xs ! k) else xs ! k)"
proof (induction i n f xs rule: for_words.induct)
  case (1 i n f xs)
  show ?case
  proof (cases "i < n")
    case True
    with 1 show ?thesis
      by (cases "k = i") (subst for_words.simps, simp add: nth_list_update)+
  next
    case False
    then show ?thesis by (subst for_words.simps) auto
  qed
qed

end
