(* ===== verification/Deque_Spec.thy ===== *)
theory Deque_Spec
  imports Prelude
begin

text \<open>
  The contract that the message channels rely on when they keep their messages in a
  \<open>decaf::util::LinkedList\<close>: what each double-ended-queue operation does to the represented
  sequence.  The clients' facts (first in first out order, re-queueing at the front, emptying)
  are proved once here and reach the code through the interpretation in theory LinkedList.
\<close>

text \<open>Calling a removing operation \<open>n\<close> times, as a consumer's receive loop does.\<close>

fun drain :: "('s \<Rightarrow> ('a \<times> 's) result) \<Rightarrow> nat \<Rightarrow> 's \<Rightarrow> ('a list \<times> 's) result" where
  "drain pop 0 s = Inr ([], s)"
| "drain pop (Suc n) s =
     bind_result (pop s) (\<lambda>(x, s1). bind_result (drain pop n s1) (\<lambda>(xs, s2). Inr (x # xs, s2)))"

locale deque =
  fixes rep :: "'s \<Rightarrow> 'a list \<Rightarrow> bool"
    and new :: "'s"
    and push_front :: "'a \<Rightarrow> 's \<Rightarrow> 's"
    and push_back :: "'a \<Rightarrow> 's \<Rightarrow> 's"
    and pop_front :: "'s \<Rightarrow> ('a \<times> 's) result"
    and front :: "'s \<Rightarrow> 'a result"
    and elements :: "'s \<Rightarrow> 'a list option"
    and clear_all :: "'s \<Rightarrow> 's option"
    and count :: "'s \<Rightarrow> int"
  assumes rep_new: "rep new []"
    and rep_push_front: "rep s xs \<Longrightarrow> rep (push_front v s) (v # xs)"
    and rep_push_back: "rep s xs \<Longrightarrow> rep (push_back v s) (xs @ [v])"
    and pop_front_Nil: "rep s [] \<Longrightarrow> pop_front s = Inl NoSuchElementException"
    and pop_front_Cons: "rep s (x # xs) \<Longrightarrow> \<exists>s'. pop_front s = Inr (x, s') \<and> rep s' xs"
    and front_Nil: "rep s [] \<Longrightarrow> front s = Inl NoSuchElementException"
    and front_Cons: "rep s (x # xs) \<Longrightarrow> front s = Inr x"
    and elements_rep: "rep s xs \<Longrightarrow> elements s = Some xs"
    and clear_all_rep: "rep s xs \<Longrightarrow> \<exists>s'. clear_all s = Some s' \<and> rep s' []"
    and count_rep: "rep s xs \<Longrightarrow> count s = int (length xs)"
begin

lemma rep_unique: "rep s xs \<Longrightarrow> rep s ys \<Longrightarrow> xs = ys"
  by (metis elements_rep option.inject)

lemma rep_push_all: "rep s xs \<Longrightarrow> rep (fold push_back ys s) (xs @ ys)"
proof (induction ys arbitrary: s xs)
  case Nil
  then show ?case by simp
next
  case (Cons y ys)
  then show ?case using Cons.IH [OF rep_push_back [OF Cons.prems]] by simp
qed

lemma rep_push_all_front: "rep s xs \<Longrightarrow> rep (foldr push_front ys s) (ys @ xs)"
  by (induction ys) (auto intro: rep_push_front)

lemma drain_rep: "rep s (ys @ xs) \<Longrightarrow> \<exists>s'. drain pop_front (length ys) s = Inr (ys, s') \<and> rep s' xs"
proof (induction ys arbitrary: s)
  case Nil
  then show ?case by simp
next
  case (Cons y ys)
  from pop_front_Cons [of s y "ys @ xs"] Cons.prems
  obtain s1 where s1: "pop_front s = Inr (y, s1)" "rep s1 (ys @ xs)" by auto
  from Cons.IH [OF s1(2)] obtain s2 where "drain pop_front (length ys) s1 = Inr (ys, s2)" "rep s2 xs"
    by blast
  with s1(1) show ?case by auto
qed

lemma fifo:
  "\<exists>s'. drain pop_front (length ys) (fold push_back ys new) = Inr (ys, s') \<and>
        pop_front s' = Inl NoSuchElementException"
  using drain_rep [of _ ys "[]"] rep_push_all [OF rep_new, of ys] pop_front_Nil by fastforce

lemma requeue_front: "rep s (x # xs) \<Longrightarrow> \<exists>s'. pop_front s = Inr (x, s') \<and> rep (push_front x s') (x # xs)"
  using pop_front_Cons rep_push_front by blast

end

end
