(* ===== verification/LinkedList.thy ===== *)
theory LinkedList
  imports Prelude Deque_Spec
begin

text \<open>
  The doubly linked list of \<open>decaf/util/LinkedList.h\<close>.  The object is modelled with its store:
  the \<open>prev\<close> and \<open>next\<close> fields of every node and of the two sentinels \<open>head\<close> and \<open>tail\<close> that the
  object embeds, and the value of every live node.  The operations perform the pointer writes of
  the source in its order; \<open>lrep\<close> relates a store to the sequence it represents, and every
  operation is shown to act on that sequence as the interface promises.
\<close>

section \<open>Nodes and the object\<close>

text \<open>
  \<open>HeadRef\<close> and \<open>TailRef\<close> are the addresses of the embedded sentinels, \<open>NodeRef\<close> the addresses
  that \<open>new ListNode\<close> returns.  A node that was deleted has no value.
\<close>

datatype ref = Null | HeadRef | TailRef | NodeRef nat

record 'e linked_list =
  listSize :: int
  modCount :: int
  prevOf :: "ref \<Rightarrow> ref"
  nextOf :: "ref \<Rightarrow> ref"
  valueOf :: "ref \<Rightarrow> 'e option"
  fresh :: nat

definition new_LinkedList :: "'e linked_list" where
  "new_LinkedList = \<lparr>listSize = 0, modCount = 0,
     prevOf = (\<lambda>_. Null)(TailRef := HeadRef),
     nextOf = (\<lambda>_. Null)(HeadRef := TailRef),
     valueOf = (\<lambda>_. None), fresh = 0\<rparr>"

definition ListNode :: "ref \<Rightarrow> ref \<Rightarrow> 'e \<Rightarrow> 'e linked_list \<Rightarrow> 'e linked_list \<times> ref" where
  "ListNode p nx v s =
     (let n = NodeRef (fresh s) in
      (s\<lparr>prevOf := (prevOf s)(n := p), nextOf := (nextOf s)(n := nx),
         valueOf := (valueOf s)(n := Some v), fresh := Suc (fresh s)\<rparr>, n))"

definition set_next :: "ref \<Rightarrow> ref \<Rightarrow> 'e linked_list \<Rightarrow> 'e linked_list" where
  "set_next r x s = s\<lparr>nextOf := (nextOf s)(r := x)\<rparr>"

definition set_prev :: "ref \<Rightarrow> ref \<Rightarrow> 'e linked_list \<Rightarrow> 'e linked_list" where
  "set_prev r x s = s\<lparr>prevOf := (prevOf s)(r := x)\<rparr>"

definition delete_node :: "ref \<Rightarrow> 'e linked_list \<Rightarrow> 'e linked_list" where
  "delete_node r s = s\<lparr>valueOf := (valueOf s)(r := None)\<rparr>"

definition resize :: "int \<Rightarrow> 'e linked_list \<Rightarrow> 'e linked_list" where
  "resize d s = s\<lparr>listSize := listSize s + d, modCount := modCount s + 1\<rparr>"

lemmas store_defs = ListNode_def set_next_def set_prev_def delete_node_def resize_def Let_def

text \<open>Following \<open>n\<close> times the \<open>next\<close> or the \<open>prev\<close> pointer: the counted loops of the source.\<close>

primrec walk_next :: "'e linked_list \<Rightarrow> nat \<Rightarrow> ref \<Rightarrow> ref" where
  "walk_next s 0 r = r"
| "walk_next s (Suc n) r = walk_next s n (nextOf s r)"

primrec walk_prev :: "'e linked_list \<Rightarrow> nat \<Rightarrow> ref \<Rightarrow> ref" where
  "walk_prev s 0 r = r"
| "walk_prev s (Suc n) r = walk_prev s n (prevOf s r)"

section \<open>Insertion and removal at the ends\<close>

definition addToFront :: "'e \<Rightarrow> 'e linked_list \<Rightarrow> 'e linked_list" where
  "addToFront v s =
     (let (s1, newHead) = ListNode HeadRef (nextOf s HeadRef) v s;
          s2 = set_prev (nextOf s1 HeadRef) newHead s1;
          s3 = set_next HeadRef newHead s2
      in resize 1 s3)"

definition addToEnd :: "'e \<Rightarrow> 'e linked_list \<Rightarrow> 'e linked_list" where
  "addToEnd v s =
     (let (s1, newTail) = ListNode (prevOf s TailRef) TailRef v s;
          s2 = set_next (prevOf s1 TailRef) newTail s1;
          s3 = set_prev TailRef newTail s2
      in resize 1 s3)"

definition removeAtFront :: "'e linked_list \<Rightarrow> ('e \<times> 'e linked_list) result" where
  "removeAtFront s =
     (if nextOf s HeadRef = TailRef then Inl NoSuchElementException
      else
        let oldNode = nextOf s HeadRef in
        bind_result (of_option UndefinedBehaviour (valueOf s oldNode)) (\<lambda>v.
          let s1 = set_next HeadRef (nextOf s oldNode) s;
              s2 = set_prev (nextOf s1 HeadRef) HeadRef s1;
              s3 = delete_node oldNode s2
          in Inr (v, resize (- 1) s3)))"

definition removeAtEnd :: "'e linked_list \<Rightarrow> ('e \<times> 'e linked_list) result" where
  "removeAtEnd s =
     (if nextOf s HeadRef = TailRef then Inl NoSuchElementException
      else
        let oldNode = prevOf s TailRef in
        bind_result (of_option UndefinedBehaviour (valueOf s oldNode)) (\<lambda>v.
          let s1 = set_prev TailRef (prevOf s oldNode) s;
              s2 = set_next (prevOf s1 TailRef) TailRef s1;
              s3 = delete_node oldNode s2
          in Inr (v, resize (- 1) s3)))"

definition offerFirst :: "'e \<Rightarrow> 'e linked_list \<Rightarrow> bool \<times> 'e linked_list" where
  "offerFirst v s = (True, addToFront v s)"

definition offerLast :: "'e \<Rightarrow> 'e linked_list \<Rightarrow> bool \<times> 'e linked_list" where
  "offerLast v s = (True, addToEnd v s)"

definition getFirst :: "'e linked_list \<Rightarrow> 'e result" where
  "getFirst s =
     (if listSize s = 0 then Inl NoSuchElementException
      else of_option UndefinedBehaviour (valueOf s (nextOf s HeadRef)))"

definition getLast :: "'e linked_list \<Rightarrow> 'e result" where
  "getLast s =
     (if listSize s = 0 then Inl NoSuchElementException
      else of_option UndefinedBehaviour (valueOf s (prevOf s TailRef)))"

definition pollFirst :: "'e linked_list \<Rightarrow> ('e option \<times> 'e linked_list) result" where
  "pollFirst s =
     (if listSize s = 0 then Inr (None, s)
      else bind_result (of_option UndefinedBehaviour (valueOf s (nextOf s HeadRef))) (\<lambda>v.
           bind_result (removeAtFront s) (\<lambda>(_, s'). Inr (Some v, s'))))"

definition pollLast :: "'e linked_list \<Rightarrow> ('e option \<times> 'e linked_list) result" where
  "pollLast s =
     (if listSize s = 0 then Inr (None, s)
      else bind_result (of_option UndefinedBehaviour (valueOf s (prevOf s TailRef))) (\<lambda>v.
           bind_result (removeAtEnd s) (\<lambda>(_, s'). Inr (Some v, s'))))"

definition peekFirst :: "'e linked_list \<Rightarrow> 'e option result" where
  "peekFirst s =
     (if listSize s = 0 then Inr None
      else map_sum id Some (of_option UndefinedBehaviour (valueOf s (nextOf s HeadRef))))"

definition peekLast :: "'e linked_list \<Rightarrow> 'e option result" where
  "peekLast s =
     (if listSize s = 0 then Inr None
      else map_sum id Some (of_option UndefinedBehaviour (valueOf s (prevOf s TailRef))))"

definition isEmpty_list :: "'e linked_list \<Rightarrow> bool" where
  "isEmpty_list s = (listSize s = 0)"

section \<open>Access by position\<close>

text \<open>
  \<open>get\<close> and \<open>set\<close> walk from the nearer end: forward from the head sentinel below the middle,
  backward from the tail sentinel otherwise.
\<close>

definition location_of :: "int \<Rightarrow> 'e linked_list \<Rightarrow> ref" where
  "location_of index s =
     (if index < listSize s div 2 then walk_next s (nat (index + 1)) HeadRef
      else walk_prev s (nat (listSize s - index)) TailRef)"

definition get_at :: "int \<Rightarrow> 'e linked_list \<Rightarrow> 'e result" where
  "get_at index s =
     (if index < 0 \<or> index \<ge> listSize s then Inl IndexOutOfBoundsException
      else of_option UndefinedBehaviour (valueOf s (location_of index s)))"

definition set_at :: "int \<Rightarrow> 'e \<Rightarrow> 'e linked_list \<Rightarrow> ('e \<times> 'e linked_list) result" where
  "set_at index element s =
     (if index < 0 \<or> index \<ge> listSize s then Inl IndexOutOfBoundsException
      else
        let location = location_of index s in
        bind_result (of_option UndefinedBehaviour (valueOf s location)) (\<lambda>oldValue.
          Inr (oldValue, s\<lparr>valueOf := (valueOf s)(location := Some element)\<rparr>)))"

definition addAtLocation :: "int \<Rightarrow> 'e \<Rightarrow> 'e linked_list \<Rightarrow> 'e linked_list" where
  "addAtLocation index v s =
     (let location = (if index \<le> listSize s div 2
                      then walk_next s (nat index) (nextOf s HeadRef)
                      else walk_prev s (nat (listSize s - index)) TailRef);
          (s1, newNode) = ListNode (prevOf s location) location v s;
          s2 = set_next (prevOf s1 location) newNode s1;
          s3 = set_prev location newNode s2
      in resize 1 s3)"

definition add_at :: "int \<Rightarrow> 'e \<Rightarrow> 'e linked_list \<Rightarrow> 'e linked_list result" where
  "add_at index v s =
     (if index < 0 \<or> index > listSize s then Inl IndexOutOfBoundsException
      else Inr (addAtLocation index v s))"

text \<open>
  \<open>addAllAtLocation\<close>: the loop links one new node after \<open>previous\<close> for each element that the
  collection's iterator yields (the list \<open>es\<close>; the source iterates a copy when the collection is
  the list itself).
\<close>

fun link_all :: "ref \<Rightarrow> 'e list \<Rightarrow> 'e linked_list \<Rightarrow> 'e linked_list" where
  "link_all previous [] s = s"
| "link_all previous (e # es) s =
     (let (s1, newNode) = ListNode previous (nextOf s previous) e s;
          s2 = set_prev (nextOf s1 previous) newNode s1;
          s3 = set_next previous newNode s2
      in link_all newNode es s3)"

definition addAllAtLocation :: "int \<Rightarrow> 'e list \<Rightarrow> 'e linked_list \<Rightarrow> (bool \<times> 'e linked_list) result" where
  "addAllAtLocation index es s =
     (if index < 0 \<or> index > listSize s then Inl IndexOutOfBoundsException
      else if es = [] then Inr (False, s)
      else
        let previous = (if index < listSize s div 2
                        then walk_next s (nat index) HeadRef
                        else walk_prev s (nat (listSize s - index + 1)) TailRef);
            s1 = link_all previous es s
        in Inr (True, resize (int (length es)) s1))"

section \<open>Whole-list traversals\<close>

text \<open>
  The traversals run until they meet the other sentinel.  They are partial functions: \<open>None\<close> is
  a traversal that never meets it or that reads a node without a value; the theorems show that
  on a represented list they return.
\<close>

partial_function (option) collect_from :: "'e linked_list \<Rightarrow> ref \<Rightarrow> 'e list \<Rightarrow> 'e list option" where
  "collect_from s current result =
     (if current = TailRef then Some result
      else case valueOf s current of None \<Rightarrow> None
           | Some v \<Rightarrow> collect_from s (nextOf s current) (result @ [v]))"

definition toArray :: "'e linked_list \<Rightarrow> 'e list option" where
  "toArray s = collect_from s (nextOf s HeadRef) []"

partial_function (option) purge_from :: "ref \<Rightarrow> 'e linked_list \<Rightarrow> 'e linked_list option" where
  "purge_from current s =
     (if current = TailRef then Some s
      else purge_from (nextOf s current) (delete_node current s))"

definition clear_list :: "'e linked_list \<Rightarrow> 'e linked_list option" where
  "clear_list s =
     (case purge_from (nextOf s HeadRef) s of None \<Rightarrow> None
      | Some s1 \<Rightarrow>
          let s2 = set_prev TailRef HeadRef (set_next HeadRef TailRef s1)
          in Some (s2\<lparr>listSize := 0, modCount := modCount s2 + 1\<rparr>))"

partial_function (option) index_from :: "'e linked_list \<Rightarrow> 'e \<Rightarrow> int \<Rightarrow> ref \<Rightarrow> int option" where
  "index_from s v i location =
     (if location = TailRef then Some (- 1)
      else if valueOf s location = Some v then Some i
      else index_from s v (i + 1) (nextOf s location))"

definition indexOf :: "'e \<Rightarrow> 'e linked_list \<Rightarrow> int option" where
  "indexOf v s = (if listSize s = 0 then Some (- 1) else index_from s v 0 (nextOf s HeadRef))"

partial_function (option) last_index_from :: "'e linked_list \<Rightarrow> 'e \<Rightarrow> int \<Rightarrow> ref \<Rightarrow> int option" where
  "last_index_from s v i location =
     (if location = HeadRef then Some (- 1)
      else if valueOf s location = Some v then Some i
      else last_index_from s v (i - 1) (prevOf s location))"

definition lastIndexOf :: "'e \<Rightarrow> 'e linked_list \<Rightarrow> int option" where
  "lastIndexOf v s =
     (if listSize s = 0 then Some (- 1)
      else last_index_from s v (listSize s - 1) (prevOf s TailRef))"

section \<open>Iterators\<close>

text \<open>
  \<open>LinkedListIterator\<close> (forward and backward, with insertion and removal) and
  \<open>ReverseIterator\<close>.  An iterator keeps the \<open>modCount\<close> it expects and refuses to work on a list
  that something else has changed.
\<close>

record list_iterator =
  current :: ref
  lastReturned :: ref
  iterIndex :: int
  expectedModCount :: int

definition listIterator :: "int \<Rightarrow> 'e linked_list \<Rightarrow> list_iterator result" where
  "listIterator i s =
     (if i < 0 \<or> i > listSize s then Inl IndexOutOfBoundsException
      else if i < listSize s div 2
      then Inr \<lparr>current = walk_next s (nat i) HeadRef, lastReturned = Null, iterIndex = i - 1,
                expectedModCount = modCount s\<rparr>
      else Inr \<lparr>current = walk_prev s (nat (listSize s - i + 1)) TailRef, lastReturned = Null,
                iterIndex = i - 1, expectedModCount = modCount s\<rparr>)"

definition iter_hasNext :: "'e linked_list \<Rightarrow> list_iterator \<Rightarrow> bool" where
  "iter_hasNext s it = (nextOf s (current it) \<noteq> TailRef)"

definition iter_next :: "'e linked_list \<Rightarrow> list_iterator \<Rightarrow> ('e \<times> list_iterator) result" where
  "iter_next s it =
     (if expectedModCount it \<noteq> modCount s then Inl ConcurrentModificationException
      else if nextOf s (current it) = TailRef then Inl NoSuchElementException
      else
        let c = nextOf s (current it) in
        bind_result (of_option UndefinedBehaviour (valueOf s c)) (\<lambda>v.
          Inr (v, it\<lparr>current := c, lastReturned := c, iterIndex := iterIndex it + 1\<rparr>)))"

definition iter_hasPrevious :: "'e linked_list \<Rightarrow> list_iterator \<Rightarrow> bool" where
  "iter_hasPrevious s it = (current it \<noteq> HeadRef)"

definition iter_previous :: "'e linked_list \<Rightarrow> list_iterator \<Rightarrow> ('e \<times> list_iterator) result" where
  "iter_previous s it =
     (if expectedModCount it \<noteq> modCount s then Inl ConcurrentModificationException
      else if current it = HeadRef then Inl IllegalStateException
      else
        let l = current it in
        bind_result (of_option UndefinedBehaviour (valueOf s l)) (\<lambda>v.
          Inr (v, it\<lparr>current := prevOf s l, lastReturned := l, iterIndex := iterIndex it - 1\<rparr>)))"

definition iter_remove ::
  "'e linked_list \<Rightarrow> list_iterator \<Rightarrow> ('e linked_list \<times> list_iterator) result" where
  "iter_remove s it =
     (if expectedModCount it \<noteq> modCount s then Inl ConcurrentModificationException
      else if lastReturned it = Null then Inl IllegalStateException
      else
        let nx = nextOf s (lastReturned it);
            previous = prevOf s (lastReturned it);
            s1 = set_prev nx previous s;
            s2 = set_next previous nx s1;
            i = (if current it = lastReturned it then iterIndex it - 1 else iterIndex it);
            s3 = delete_node (lastReturned it) s2
        in Inr (resize (- 1) s3,
                it\<lparr>current := previous, lastReturned := Null, iterIndex := i,
                   expectedModCount := expectedModCount it + 1\<rparr>))"

definition iter_add ::
  "'e \<Rightarrow> 'e linked_list \<Rightarrow> list_iterator \<Rightarrow> ('e linked_list \<times> list_iterator) result" where
  "iter_add e s it =
     (if expectedModCount it \<noteq> modCount s then Inl ConcurrentModificationException
      else
        let (s1, newNode) = ListNode (current it) (nextOf s (current it)) e s;
            s2 = set_prev (nextOf s1 (current it)) newNode s1;
            s3 = set_next (current it) newNode s2
        in Inr (resize 1 s3,
                it\<lparr>current := newNode, lastReturned := Null, iterIndex := iterIndex it + 1,
                   expectedModCount := expectedModCount it + 1\<rparr>))"

definition iter_set :: "'e \<Rightarrow> 'e linked_list \<Rightarrow> list_iterator \<Rightarrow> 'e linked_list result" where
  "iter_set e s it =
     (if expectedModCount it \<noteq> modCount s then Inl ConcurrentModificationException
      else if lastReturned it \<noteq> Null
      then Inr (s\<lparr>valueOf := (valueOf s)(lastReturned it := Some e)\<rparr>)
      else Inl IllegalStateException)"

record reverse_iterator =
  rcurrent :: ref
  rexpectedModCount :: int
  canRemove :: bool

definition descendingIterator :: "'e linked_list \<Rightarrow> reverse_iterator" where
  "descendingIterator s =
     \<lparr>rcurrent = TailRef, rexpectedModCount = modCount s, canRemove = False\<rparr>"

definition riter_hasNext :: "'e linked_list \<Rightarrow> reverse_iterator \<Rightarrow> bool" where
  "riter_hasNext s it = (prevOf s (rcurrent it) \<noteq> HeadRef)"

definition riter_next :: "'e linked_list \<Rightarrow> reverse_iterator \<Rightarrow> ('e \<times> reverse_iterator) result" where
  "riter_next s it =
     (if rexpectedModCount it \<noteq> modCount s then Inl ConcurrentModificationException
      else if prevOf s (rcurrent it) = HeadRef then Inl NoSuchElementException
      else
        let c = prevOf s (rcurrent it) in
        bind_result (of_option UndefinedBehaviour (valueOf s c)) (\<lambda>v.
          Inr (v, it\<lparr>rcurrent := c, canRemove := True\<rparr>)))"

definition riter_remove ::
  "'e linked_list \<Rightarrow> reverse_iterator \<Rightarrow> ('e linked_list \<times> reverse_iterator) result" where
  "riter_remove s it =
     (if rexpectedModCount it \<noteq> modCount s then Inl ConcurrentModificationException
      else if \<not> canRemove it then Inl IllegalStateException
      else
        let nx = prevOf s (rcurrent it);
            pv = nextOf s (rcurrent it);
            s1 = set_next nx pv s;
            s2 = set_prev pv nx s1;
            s3 = delete_node (rcurrent it) s2
        in Inr (resize (- 1) s3,
                \<lparr>rcurrent = pv, rexpectedModCount = rexpectedModCount it + 1,
                 canRemove = False\<rparr>))"

text \<open>
  \<open>removeFirstOccurrence\<close> and \<open>removeLastOccurrence\<close> drive an iterator until it yields the value.
\<close>

partial_function (option) remove_first_loop ::
  "'e \<Rightarrow> 'e linked_list \<Rightarrow> list_iterator \<Rightarrow> (bool \<times> 'e linked_list) result option" where
  "remove_first_loop v s it =
     (if iter_hasNext s it then
        case iter_next s it of
          Inl e \<Rightarrow> Some (Inl e)
        | Inr (x, it') \<Rightarrow>
            if x = v then Some (bind_result (iter_remove s it') (\<lambda>(s', _). Inr (True, s')))
            else remove_first_loop v s it'
      else Some (Inr (False, s)))"

definition removeFirstOccurrence ::
  "'e \<Rightarrow> 'e linked_list \<Rightarrow> (bool \<times> 'e linked_list) result option" where
  "removeFirstOccurrence v s =
     (case listIterator 0 s of Inl e \<Rightarrow> Some (Inl e) | Inr it \<Rightarrow> remove_first_loop v s it)"

partial_function (option) remove_last_loop ::
  "'e \<Rightarrow> 'e linked_list \<Rightarrow> reverse_iterator \<Rightarrow> (bool \<times> 'e linked_list) result option" where
  "remove_last_loop v s it =
     (if riter_hasNext s it then
        case riter_next s it of
          Inl e \<Rightarrow> Some (Inl e)
        | Inr (x, it') \<Rightarrow>
            if x = v then Some (bind_result (riter_remove s it') (\<lambda>(s', _). Inr (True, s')))
            else remove_last_loop v s it'
      else Some (Inr (False, s)))"

definition removeLastOccurrence ::
  "'e \<Rightarrow> 'e linked_list \<Rightarrow> (bool \<times> 'e linked_list) result option" where
  "removeLastOccurrence v s = remove_last_loop v s (descendingIterator s)"

section \<open>The represented sequence\<close>

text \<open>
  \<open>linked\<close>: consecutive addresses of a chain point at each other.  The next two lemmas say which
  writes leave a chain alone, the third and fourth are the two pointer rewirings that every
  operation of the list performs: splicing a node in and splicing one out.
\<close>

fun linked :: "(ref \<Rightarrow> ref) \<Rightarrow> (ref \<Rightarrow> ref) \<Rightarrow> ref list \<Rightarrow> bool" where
  "linked nx pv (a # b # rs) = (nx a = b \<and> pv b = a \<and> linked nx pv (b # rs))"
| "linked nx pv _ = True"

lemma linked_append:
  "linked nx pv (xs @ a # ys) \<longleftrightarrow> linked nx pv (xs @ [a]) \<and> linked nx pv (a # ys)"
proof (induction xs)
  case Nil
  then show ?case by simp
next
  case (Cons x xs)
  then show ?case by (cases xs) auto
qed

lemma linked_upd_next: "a \<notin> set (butlast qs) \<Longrightarrow> linked (nx(a := b)) pv qs = linked nx pv qs"
  by (induction nx pv qs rule: linked.induct) auto

lemma linked_upd_prev: "b \<notin> set (tl qs) \<Longrightarrow> linked nx (pv(b := a)) qs = linked nx pv qs"
proof (induction nx pv qs rule: linked.induct)
  case (1 nx pv x y rs)
  then show ?case by (cases rs) auto
qed auto

lemma linked_splice_in:
  assumes "linked nx pv (xs @ a # b # ys)" and "distinct (xs @ a # b # ys)"
    and "n \<notin> set (xs @ a # b # ys)"
  shows "linked (nx(n := b, a := n)) (pv(n := a, b := n)) (xs @ a # n # b # ys)"
proof -
  have pre: "linked nx pv (xs @ [a])" and suf: "linked nx pv (b # ys)"
    using assms(1) linked_append [of nx pv xs a "b # ys"] by simp_all
  have "linked (nx(n := b, a := n)) (pv(n := a, b := n)) (xs @ [a])"
    using pre assms(2,3) by (cases xs) (auto simp: linked_upd_next linked_upd_prev butlast_append)
  moreover have "linked (nx(n := b, a := n)) (pv(n := a, b := n)) (b # ys)"
  proof -
    have "a \<notin> set (butlast (b # ys))" "n \<notin> set (butlast (b # ys))"
      using assms(2,3) by (auto dest: in_set_butlastD)
    moreover have "b \<notin> set (tl (b # ys))" "n \<notin> set (tl (b # ys))"
      using assms(2,3) by auto
    ultimately show ?thesis using suf by (metis linked_upd_next linked_upd_prev)
  qed
  moreover have "linked (nx(n := b, a := n)) (pv(n := a, b := n)) (a # n # b # ys)"
    using calculation assms(2,3) by auto
  ultimately show ?thesis
    using linked_append [of "nx(n := b, a := n)" "pv(n := a, b := n)" xs a "n # b # ys"] by blast
qed

lemma linked_splice_out:
  assumes "linked nx pv (xs @ a # n # b # ys)" and "distinct (xs @ a # n # b # ys)"
  shows "linked (nx(a := b)) (pv(b := a)) (xs @ a # b # ys)"
proof -
  have pre: "linked nx pv (xs @ [a])" and suf: "linked nx pv (b # ys)"
    using assms(1) linked_append [of nx pv xs a "n # b # ys"] by simp_all
  have "linked (nx(a := b)) (pv(b := a)) (xs @ [a])"
    using pre assms(2) by (cases xs) (auto simp: linked_upd_next linked_upd_prev butlast_append)
  moreover have "linked (nx(a := b)) (pv(b := a)) (b # ys)"
  proof -
    have "a \<notin> set (butlast (b # ys))" "b \<notin> set (tl (b # ys))"
      using assms(2) by (auto dest: in_set_butlastD)
    then show ?thesis using suf by (metis linked_upd_next linked_upd_prev)
  qed
  ultimately show ?thesis
    using linked_append [of "nx(a := b)" "pv(b := a)" xs a "b # ys"] by simp
qed

text \<open>
  \<open>lrep s ps xs\<close>: the nodes at the addresses \<open>ps\<close>, between the sentinels, hold the elements
  \<open>xs\<close>; they are allocated, distinct, and counted by \<open>listSize\<close>.
\<close>

definition chain :: "nat list \<Rightarrow> ref list" where
  "chain ps = HeadRef # map NodeRef ps @ [TailRef]"

definition lrep :: "'e linked_list \<Rightarrow> nat list \<Rightarrow> 'e list \<Rightarrow> bool" where
  "lrep s ps xs \<longleftrightarrow>
     linked (nextOf s) (prevOf s) (chain ps) \<and> distinct ps \<and> (\<forall>p \<in> set ps. p < fresh s) \<and>
     map (\<lambda>p. valueOf s (NodeRef p)) ps = map Some xs \<and> listSize s = int (length xs)"

definition represents :: "'e linked_list \<Rightarrow> 'e list \<Rightarrow> bool" where
  "represents s xs \<longleftrightarrow> (\<exists>ps. lrep s ps xs)"

lemma distinct_chain: "distinct ps \<Longrightarrow> distinct (chain ps)"
  by (auto simp: chain_def distinct_map inj_on_def)

lemma chain_append: "chain (ps @ qs) = (HeadRef # map NodeRef ps) @ map NodeRef qs @ [TailRef]"
  by (simp add: chain_def)

lemma lrep_length: "lrep s ps xs \<Longrightarrow> length ps = length xs"
  unfolding lrep_def by (metis length_map)

lemma lrep_split:
  assumes "lrep s ps xs" and "i \<le> length xs"
  shows "\<exists>us vs. ps = us @ vs \<and> length us = i"
  using assms lrep_length [OF assms(1)]
  by (intro exI [of _ "take i ps"] exI [of _ "drop i ps"]) simp

text \<open>The address before and after a position of the chain.\<close>

definition before_of :: "nat list \<Rightarrow> ref" where
  "before_of us = last (HeadRef # map NodeRef us)"

definition after_of :: "nat list \<Rightarrow> ref" where
  "after_of vs = hd (map NodeRef vs @ [TailRef])"

lemma chain_cut:
  "chain (us @ vs) = butlast (HeadRef # map NodeRef us) @ before_of us # after_of vs
                       # tl (map NodeRef vs @ [TailRef])"
proof -
  have "HeadRef # map NodeRef us = butlast (HeadRef # map NodeRef us) @ [before_of us]"
    by (simp add: before_of_def append_butlast_last_id del: butlast.simps last.simps)
  moreover have "map NodeRef vs @ [TailRef] = after_of vs # tl (map NodeRef vs @ [TailRef])"
    by (cases vs) (auto simp: after_of_def)
  ultimately show ?thesis by (metis append.assoc append_Cons append_Nil chain_append)
qed

lemma lrep_neighbours:
  assumes "lrep s (us @ vs) xs"
  shows "nextOf s (before_of us) = after_of vs" and "prevOf s (after_of vs) = before_of us"
proof -
  have "linked (nextOf s) (prevOf s) (before_of us # after_of vs # tl (map NodeRef vs @ [TailRef]))"
    using assms unfolding lrep_def chain_cut by (metis linked_append)
  then show "nextOf s (before_of us) = after_of vs" "prevOf s (after_of vs) = before_of us"
    by simp_all
qed

lemma before_of_simps [simp]: "before_of [] = HeadRef" "before_of (us @ [p]) = NodeRef p"
  by (simp_all add: before_of_def)

lemma after_of_simps [simp]: "after_of [] = TailRef" "after_of (p # vs) = NodeRef p"
  by (simp_all add: after_of_def)

lemma lrep_insert:
  assumes "lrep s (us @ vs) (xs @ ys)" and "length us = length xs" and "n = NodeRef (fresh s)"
    and "nextOf s' = (nextOf s)(n := after_of vs, before_of us := n)"
    and "prevOf s' = (prevOf s)(n := before_of us, after_of vs := n)"
    and "valueOf s' = (valueOf s)(n := Some v)" and "fresh s' = Suc (fresh s)"
    and "listSize s' = listSize s + 1"
  shows "lrep s' (us @ fresh s # vs) (xs @ v # ys)"
proof -
  let ?A = "butlast (HeadRef # map NodeRef us)" and ?B = "tl (map NodeRef vs @ [TailRef])"
  have notin: "fresh s \<notin> set us" "fresh s \<notin> set vs"
    using assms(1) by (auto simp: lrep_def)
  have lk: "linked (nextOf s) (prevOf s) (?A @ before_of us # after_of vs # ?B)"
    and dist: "distinct (?A @ before_of us # after_of vs # ?B)"
    using assms(1) distinct_chain [of "us @ vs"] unfolding lrep_def chain_cut [of us vs] by blast+
  have out: "n \<notin> set (?A @ before_of us # after_of vs # ?B)"
    using notin assms(3) unfolding chain_cut [symmetric] by (auto simp: chain_def)
  have ch: "chain (us @ fresh s # vs) = ?A @ before_of us # n # after_of vs # ?B"
    using chain_cut [of us "fresh s # vs"] assms(3) by (cases vs) (auto simp: after_of_def)
  have "linked (nextOf s') (prevOf s') (chain (us @ fresh s # vs))"
    unfolding ch assms(4,5) by (rule linked_splice_in [OF lk dist out])
  moreover have "map (\<lambda>p. valueOf s (NodeRef p)) us = map Some xs"
    and "map (\<lambda>p. valueOf s (NodeRef p)) vs = map Some ys"
    using assms(1,2) by (auto simp: lrep_def)
  ultimately show ?thesis
    using assms notin by (auto simp: lrep_def less_Suc_eq)
qed

lemma lrep_remove:
  assumes "lrep s (us @ p # vs) (xs @ x # ys)" and "length us = length xs"
    and "nextOf s' = (nextOf s)(before_of us := after_of vs)"
    and "prevOf s' = (prevOf s)(after_of vs := before_of us)"
    and "valueOf s' = (valueOf s)(NodeRef p := None)" and "fresh s' = fresh s"
    and "listSize s' = listSize s - 1"
  shows "lrep s' (us @ vs) (xs @ ys)"
proof -
  let ?A = "butlast (HeadRef # map NodeRef us)" and ?B = "tl (map NodeRef vs @ [TailRef])"
  have ch: "chain (us @ p # vs) = ?A @ before_of us # NodeRef p # after_of vs # ?B"
    using chain_cut [of us "p # vs"] by (cases vs) (auto simp: after_of_def)
  have lk: "linked (nextOf s) (prevOf s) (?A @ before_of us # NodeRef p # after_of vs # ?B)"
    and dist: "distinct (?A @ before_of us # NodeRef p # after_of vs # ?B)"
    using assms(1) distinct_chain [of "us @ p # vs"] unfolding lrep_def ch by blast+
  have "linked (nextOf s') (prevOf s') (chain (us @ vs))"
    unfolding chain_cut assms(3,4) by (rule linked_splice_out [OF lk dist])
  moreover have "map (\<lambda>q. valueOf s (NodeRef q)) us = map Some xs"
    and "map (\<lambda>q. valueOf s (NodeRef q)) vs = map Some ys"
    and "p \<notin> set us" "p \<notin> set vs"
    using assms(1,2) by (auto simp: lrep_def)
  ultimately show ?thesis
    using assms by (auto simp: lrep_def)
qed

lemma lrep_value:
  assumes "lrep s (us @ p # vs) (xs @ x # ys)" and "length us = length xs"
  shows "valueOf s (NodeRef p) = Some x"
  using assms by (auto simp: lrep_def)

text \<open>Walking along a chain arrives at the counted position.\<close>

lemma linked_nth:
  "linked nx pv qs \<Longrightarrow> Suc i < length qs \<Longrightarrow> nx (qs ! i) = qs ! Suc i \<and> pv (qs ! Suc i) = qs ! i"
proof (induction nx pv qs arbitrary: i rule: linked.induct)
  case (1 nx pv a b rs)
  then show ?case by (cases i) auto
qed auto

lemma walk_next_nth:
  "linked (nextOf s) (prevOf s) qs \<Longrightarrow> i + k < length qs \<Longrightarrow> walk_next s k (qs ! i) = qs ! (i + k)"
proof (induction k arbitrary: i)
  case (Suc k)
  then show ?case using linked_nth [of "nextOf s" "prevOf s" qs i] by auto
qed simp

lemma walk_prev_nth:
  "linked (nextOf s) (prevOf s) qs \<Longrightarrow> i < length qs \<Longrightarrow> k \<le> i \<Longrightarrow>
   walk_prev s k (qs ! i) = qs ! (i - k)"
proof (induction k arbitrary: i)
  case (Suc k)
  then obtain j where "i = Suc j" by (cases i) auto
  with Suc show ?case using linked_nth [of "nextOf s" "prevOf s" qs j] by auto
qed simp

lemma chain_nth:
  "chain ps ! 0 = HeadRef" "chain ps ! Suc (length ps) = TailRef"
  "i < length ps \<Longrightarrow> chain ps ! Suc i = NodeRef (ps ! i)"
  "length (chain ps) = length ps + 2"
  by (auto simp: chain_def nth_append)

lemma chain_position:
  "chain (us @ vs) ! length us = before_of us" "chain (us @ vs) ! Suc (length us) = after_of vs"
proof -
  have "length (butlast (HeadRef # map NodeRef us)) = length us" by simp
  then show "chain (us @ vs) ! length us = before_of us"
    "chain (us @ vs) ! Suc (length us) = after_of vs"
    unfolding chain_cut by (simp_all add: nth_append)
qed

lemma walk_from_head:
  assumes "lrep s ps xs" and "k \<le> length xs + 1"
  shows "walk_next s k HeadRef = chain ps ! k"
  using walk_next_nth [of s "chain ps" 0 k] assms lrep_length [OF assms(1)]
  by (simp add: lrep_def chain_nth)

lemma walk_from_tail:
  assumes "lrep s ps xs" and "k \<le> length xs + 1"
  shows "walk_prev s k TailRef = chain ps ! (length xs + 1 - k)"
proof -
  have "chain ps ! Suc (length xs) = TailRef"
    using lrep_length [OF assms(1)] chain_nth(2) [of ps] by simp
  then show ?thesis
    using walk_prev_nth [of s "chain ps" "length xs + 1" k] assms lrep_length [OF assms(1)]
    by (simp add: lrep_def chain_nth)
qed

section \<open>Functional behaviour\<close>

lemma lrep_new: "lrep new_LinkedList [] []"
  by (simp add: lrep_def new_LinkedList_def chain_def)

lemma lrep_addToFront:
  assumes "lrep s ps xs"
  shows "lrep (addToFront v s) (fresh s # ps) (v # xs)"
proof -
  have "nextOf s HeadRef = after_of ps"
    using lrep_neighbours(1) [of s "[]" ps xs] assms by simp
  then show ?thesis
    using lrep_insert [of s "[]" ps "[]" xs "NodeRef (fresh s)" "addToFront v s" v] assms
    by (simp add: addToFront_def store_defs)
qed

lemma lrep_addToEnd:
  assumes "lrep s ps xs"
  shows "lrep (addToEnd v s) (ps @ [fresh s]) (xs @ [v])"
proof -
  have "prevOf s TailRef = before_of ps"
    using lrep_neighbours(2) [of s ps "[]" xs] assms by simp
  then show ?thesis
    using lrep_insert [of s ps "[]" xs "[]" "NodeRef (fresh s)" "addToEnd v s" v] assms
      lrep_length [OF assms]
    by (simp add: addToEnd_def store_defs)
qed

lemma after_neq_tail: "after_of vs = TailRef \<longleftrightarrow> vs = []"
  by (cases vs) auto

lemma removeAtFront_Nil:
  assumes "lrep s [] []"
  shows "removeAtFront s = Inl NoSuchElementException"
  using lrep_neighbours(1) [of s "[]" "[]" "[]"] assms by (simp add: removeAtFront_def)

lemma removeAtFront_Cons:
  assumes "lrep s (p # ps) (x # xs)"
  shows "\<exists>s'. removeAtFront s = Inr (x, s') \<and> lrep s' ps xs"
proof -
  have nb: "nextOf s HeadRef = NodeRef p" "nextOf s (NodeRef p) = after_of ps"
    using lrep_neighbours(1) [of s "[]" "p # ps"] lrep_neighbours(1) [of s "[p]" ps] assms
    by (auto simp: before_of_def)
  have v: "valueOf s (NodeRef p) = Some x"
    using lrep_value [of s "[]" p ps "[]" x xs] assms by simp
  let ?s' = "resize (- 1) (delete_node (NodeRef p)
     (set_prev (after_of ps) HeadRef (set_next HeadRef (after_of ps) s)))"
  have "removeAtFront s = Inr (x, ?s')"
    using nb v by (simp add: removeAtFront_def store_defs)
  moreover have "lrep ?s' ps xs"
    using lrep_remove [of s "[]" p ps "[]" x xs ?s'] assms by (simp add: store_defs)
  ultimately show ?thesis by blast
qed

lemma removeAtEnd_snoc:
  assumes "lrep s (ps @ [p]) (xs @ [x])"
  shows "\<exists>s'. removeAtEnd s = Inr (x, s') \<and> lrep s' ps xs"
proof -
  have len: "length ps = length xs" using lrep_length [OF assms] by simp
  have nb: "prevOf s TailRef = NodeRef p" "prevOf s (NodeRef p) = before_of ps"
    using lrep_neighbours(2) [of s "ps @ [p]" "[]"] lrep_neighbours(2) [of s ps "[p]"] assms by auto
  have ne: "nextOf s HeadRef \<noteq> TailRef"
    using lrep_neighbours(1) [of s "[]" "ps @ [p]"] assms by (cases ps) auto
  have v: "valueOf s (NodeRef p) = Some x"
    using lrep_value [of s ps p "[]" xs x "[]"] assms len by simp
  let ?s' = "resize (- 1) (delete_node (NodeRef p)
     (set_next (before_of ps) TailRef (set_prev TailRef (before_of ps) s)))"
  have "removeAtEnd s = Inr (x, ?s')"
    using nb v ne by (simp add: removeAtEnd_def store_defs)
  moreover have "lrep ?s' ps xs"
    using lrep_remove [of s ps p "[]" xs x "[]" ?s'] assms len by (simp add: store_defs)
  ultimately show ?thesis by blast
qed

lemma location_of_nth:
  assumes "lrep s ps xs" and "0 \<le> index" and "index < int (length xs)"
  shows "location_of index s = NodeRef (ps ! nat index)"
proof -
  have len: "length ps = length xs" by (rule lrep_length [OF assms(1)])
  have size: "listSize s = int (length xs)" using assms(1) by (simp add: lrep_def)
  have target: "chain ps ! Suc (nat index) = NodeRef (ps ! nat index)"
    using assms(2,3) len by (simp add: chain_nth)
  have "walk_next s (nat (index + 1)) HeadRef = chain ps ! Suc (nat index)"
    using walk_from_head [OF assms(1), of "nat (index + 1)"] assms(2,3) by (simp add: nat_add_distrib)
  moreover have "walk_prev s (nat (listSize s - index)) TailRef = chain ps ! Suc (nat index)"
  proof -
    have "length xs + 1 - nat (int (length xs) - index) = Suc (nat index)"
      using assms(2,3) by linarith
    then show ?thesis
      using walk_from_tail [OF assms(1), of "nat (int (length xs) - index)"] assms(2,3) size by simp
  qed
  ultimately show ?thesis using target by (simp add: location_of_def)
qed

lemma lrep_nth_value:
  assumes "lrep s ps xs" and "i < length xs"
  shows "valueOf s (NodeRef (ps ! i)) = Some (xs ! i)"
proof -
  have "map (\<lambda>p. valueOf s (NodeRef p)) ps ! i = map Some xs ! i"
    using assms(1) by (simp add: lrep_def)
  then show ?thesis using assms(2) lrep_length [OF assms(1)] by simp
qed

lemma get_at_spec:
  assumes "lrep s ps xs"
  shows "get_at index s = (if 0 \<le> index \<and> index < int (length xs) then Inr (xs ! nat index)
                           else Inl IndexOutOfBoundsException)"
  using assms lrep_nth_value [OF assms, of "nat index"] location_of_nth [OF assms, of index]
  by (auto simp: get_at_def lrep_def)

lemma set_at_spec:
  assumes "lrep s ps xs" and "0 \<le> index" and "index < int (length xs)"
  shows "\<exists>s'. set_at index e s = Inr (xs ! nat index, s') \<and> lrep s' ps (xs[nat index := e])"
proof -
  let ?s' = "s\<lparr>valueOf := (valueOf s)(NodeRef (ps ! nat index) := Some e)\<rparr>"
  have len: "length ps = length xs" by (rule lrep_length [OF assms(1)])
  have i: "nat index < length ps" using assms(2,3) len by linarith
  have "set_at index e s = Inr (xs ! nat index, ?s')"
    using location_of_nth [OF assms] lrep_nth_value [OF assms(1), of "nat index"] assms
    by (simp add: set_at_def lrep_def)
  moreover have "map (\<lambda>p. valueOf ?s' (NodeRef p)) ps = map Some (xs[nat index := e])"
  proof (rule nth_equalityI)
    fix j assume "j < length (map (\<lambda>p. valueOf ?s' (NodeRef p)) ps)"
    then show "map (\<lambda>p. valueOf ?s' (NodeRef p)) ps ! j = map Some (xs[nat index := e]) ! j"
      using assms(1) len i lrep_nth_value [OF assms(1), of j]
      by (auto simp: lrep_def nth_eq_iff_index_eq nth_list_update)
  qed (simp add: len)
  ultimately show ?thesis using assms(1) by (auto simp: lrep_def)
qed

lemma lrep_cut:
  assumes "lrep s ps xs" and "i \<le> length xs"
  shows "lrep s (take i ps @ drop i ps) (take i xs @ drop i xs)"
    and "length (take i ps) = length (take i xs)" and "length (take i ps) = i"
  using assms lrep_length [OF assms(1)] by simp_all

lemma walk_to_after:
  assumes "lrep s ps xs" and "i \<le> length xs"
  shows "walk_next s i (nextOf s HeadRef) = after_of (drop i ps)"
    and "walk_prev s (length xs - i) TailRef = after_of (drop i ps)"
proof -
  have pos: "chain ps ! Suc i = after_of (drop i ps)"
    using chain_position(2) [of "take i ps" "drop i ps"] lrep_cut(3) [OF assms] by simp
  show "walk_next s i (nextOf s HeadRef) = after_of (drop i ps)"
    using walk_from_head [OF assms(1), of "Suc i"] assms(2) pos by simp
  have "length xs + 1 - (length xs - i) = Suc i" using assms(2) by simp
  then show "walk_prev s (length xs - i) TailRef = after_of (drop i ps)"
    using walk_from_tail [OF assms(1), of "length xs - i"] pos by simp
qed

lemma walk_to_before:
  assumes "lrep s ps xs" and "i \<le> length xs"
  shows "walk_next s i HeadRef = before_of (take i ps)"
    and "walk_prev s (length xs - i + 1) TailRef = before_of (take i ps)"
proof -
  have pos: "chain ps ! i = before_of (take i ps)"
    using chain_position(1) [of "take i ps" "drop i ps"] lrep_cut(3) [OF assms] by simp
  show "walk_next s i HeadRef = before_of (take i ps)"
    using walk_from_head [OF assms(1), of i] assms(2) pos by simp
  have "length xs + 1 - (length xs - i + 1) = i" using assms(2) by simp
  then show "walk_prev s (length xs - i + 1) TailRef = before_of (take i ps)"
    using walk_from_tail [OF assms(1), of "length xs - i + 1"] assms(2) pos by simp
qed

lemma nodes_not_fresh:
  assumes "lrep s (us @ vs) xs"
  shows "before_of us \<noteq> NodeRef (fresh s)" and "after_of vs \<noteq> NodeRef (fresh s)"
proof -
  have "fresh s \<notin> set us" "fresh s \<notin> set vs" using assms by (auto simp: lrep_def)
  then show "before_of us \<noteq> NodeRef (fresh s)" and "after_of vs \<noteq> NodeRef (fresh s)"
    by (cases us rule: rev_cases; cases vs; auto)+
qed

lemma addAtLocation_spec:
  assumes "lrep s ps xs" and "0 \<le> i" and "i \<le> int (length xs)"
  shows "lrep (addAtLocation i v s) (take (nat i) ps @ fresh s # drop (nat i) ps)
           (take (nat i) xs @ v # drop (nat i) xs)"
proof -
  have size: "listSize s = int (length xs)" using assms(1) by (simp add: lrep_def)
  have le: "nat i \<le> length xs" using assms(2,3) by linarith
  note cut = lrep_cut [OF assms(1) le] and walk = walk_to_after [OF assms(1) le]
  have "nat (int (length xs) - i) = length xs - nat i" using assms(2,3) by linarith
  then have loc: "(if i \<le> listSize s div 2 then walk_next s (nat i) (nextOf s HeadRef)
      else walk_prev s (nat (listSize s - i)) TailRef) = after_of (drop (nat i) ps)"
    using walk size by simp
  have "prevOf s (after_of (drop (nat i) ps)) = before_of (take (nat i) ps)"
    by (rule lrep_neighbours(2) [OF cut(1)])
  then show ?thesis
    using nodes_not_fresh [OF cut(1)]
    by (intro lrep_insert [OF cut(1,2) refl, of "addAtLocation i v s" v])
      (simp_all add: addAtLocation_def loc store_defs)
qed

lemma link_all_spec:
  assumes "lrep (s\<lparr>listSize := int (length xs + length ys)\<rparr>) (us @ vs) (xs @ ys)"
    and "length us = length xs"
  shows "\<exists>ns. lrep ((link_all (before_of us) es s)\<lparr>listSize := int (length xs + length es + length ys)\<rparr>)
           (us @ ns @ vs) (xs @ es @ ys) \<and>
         listSize (link_all (before_of us) es s) = listSize s \<and>
         modCount (link_all (before_of us) es s) = modCount s"
  using assms
proof (induction es arbitrary: s us xs)
  case Nil
  then show ?case by (intro exI [of _ "[]"]) simp
next
  case (Cons e es)
  let ?n = "NodeRef (fresh s)"
  let ?s3 = "set_next (before_of us) ?n (set_prev (after_of vs) ?n
    (fst (ListNode (before_of us) (after_of vs) e s)))"
  have nb: "nextOf s (before_of us) = after_of vs"
    using lrep_neighbours(1) [OF Cons.prems(1)] by simp
  have nf: "before_of us \<noteq> ?n" using nodes_not_fresh(1) [OF Cons.prems(1)] by simp
  have step: "link_all (before_of us) (e # es) s = link_all ?n es ?s3"
    using nb nf by (simp add: store_defs)
  have "lrep (?s3\<lparr>listSize := int (length (xs @ [e]) + length ys)\<rparr>) ((us @ [fresh s]) @ vs) ((xs @ [e]) @ ys)"
    using lrep_insert [OF Cons.prems refl, of "?s3\<lparr>listSize := int (length (xs @ [e]) + length ys)\<rparr>" e]
    by (simp add: store_defs)
  from Cons.IH [OF this] Cons.prems(2) obtain ns where
    "lrep ((link_all ?n es ?s3)\<lparr>listSize := int (length (xs @ [e]) + length es + length ys)\<rparr>)
       ((us @ [fresh s]) @ ns @ vs) ((xs @ [e]) @ es @ ys)"
    "listSize (link_all ?n es ?s3) = listSize ?s3" "modCount (link_all ?n es ?s3) = modCount ?s3"
    by auto
  then show ?case
    unfolding step by (intro exI [of _ "fresh s # ns"]) (simp add: store_defs)
qed

lemma addAllAtLocation_spec:
  assumes "lrep s ps xs" and "0 \<le> i" and "i \<le> int (length xs)" and "es \<noteq> []"
  shows "\<exists>s' qs. addAllAtLocation i es s = Inr (True, s') \<and>
           lrep s' qs (take (nat i) xs @ es @ drop (nat i) xs)"
proof -
  have size: "listSize s = int (length xs)" using assms(1) by (simp add: lrep_def)
  have le: "nat i \<le> length xs" using assms(2,3) by linarith
  note cut = lrep_cut [OF assms(1) le] and walk = walk_to_before [OF assms(1) le]
  have "nat (int (length xs) - i + 1) = length xs - nat i + 1" using assms(2,3) by linarith
  then have prev: "(if i < listSize s div 2 then walk_next s (nat i) HeadRef
      else walk_prev s (nat (listSize s - i + 1)) TailRef) = before_of (take (nat i) ps)"
    using walk size by simp
  have "s\<lparr>listSize := int (length (take (nat i) xs) + length (drop (nat i) xs))\<rparr> = s"
    using size le by (cases s) simp
  then obtain ns where
    ns: "lrep ((link_all (before_of (take (nat i) ps)) es s)
           \<lparr>listSize := int (length (take (nat i) xs) + length es + length (drop (nat i) xs))\<rparr>)
         (take (nat i) ps @ ns @ drop (nat i) ps) (take (nat i) xs @ es @ drop (nat i) xs)"
    and "listSize (link_all (before_of (take (nat i) ps)) es s) = listSize s"
    using link_all_spec [where s = s and xs = "take (nat i) xs" and ys = "drop (nat i) xs"
        and us = "take (nat i) ps" and vs = "drop (nat i) ps" and es = es] cut by auto
  let ?s' = "resize (int (length es)) (link_all (before_of (take (nat i) ps)) es s)"
  have "addAllAtLocation i es s = Inr (True, ?s')"
    using assms(2,3,4) size prev by (simp add: addAllAtLocation_def Let_def)
  moreover have "lrep ?s' (take (nat i) ps @ ns @ drop (nat i) ps)
      (take (nat i) xs @ es @ drop (nat i) xs)"
    using ns \<open>listSize (link_all _ es s) = listSize s\<close> size le by (auto simp: lrep_def resize_def)
  ultimately show ?thesis by blast
qed

lemma collect_from_spec:
  "lrep s (us @ vs) (xs @ ys) \<Longrightarrow> length us = length xs \<Longrightarrow>
   collect_from s (after_of vs) acc = Some (acc @ ys)"
proof (induction vs arbitrary: us xs ys acc)
  case Nil
  then have "ys = []" using lrep_length [OF Nil.prems(1)] by simp
  then show ?case by (simp add: collect_from.simps)
next
  case (Cons p vs)
  obtain y zs where ys: "ys = y # zs"
    using Cons.prems lrep_length [OF Cons.prems(1)] by (cases ys) auto
  have v: "valueOf s (NodeRef p) = Some y"
    using Cons.prems lrep_value [of s us p vs xs y zs] ys by simp
  have "nextOf s (NodeRef p) = after_of vs"
    using lrep_neighbours(1) [of s "us @ [p]" vs] Cons.prems(1) by simp
  moreover have "collect_from s (after_of vs) (acc @ [y]) = Some ((acc @ [y]) @ zs)"
    using Cons.prems ys by (intro Cons.IH [of "us @ [p]" "xs @ [y]"]) simp_all
  ultimately show ?case using v ys by (subst collect_from.simps) simp
qed

lemma toArray_spec: "lrep s ps xs \<Longrightarrow> toArray s = Some xs"
  using collect_from_spec [of s "[]" ps "[]" xs "[]"] lrep_neighbours(1) [of s "[]" ps xs]
  by (simp add: toArray_def)

lemma purge_from_spec:
  "linked (nextOf s) (prevOf s) (map NodeRef vs @ [TailRef]) \<Longrightarrow>
   \<exists>s'. purge_from (after_of vs) s = Some s' \<and> nextOf s' = nextOf s \<and> prevOf s' = prevOf s \<and>
        modCount s' = modCount s \<and> fresh s' = fresh s"
proof (induction vs arbitrary: s)
  case Nil
  then show ?case by (simp add: purge_from.simps)
next
  case (Cons p vs)
  have "nextOf s (NodeRef p) = after_of vs" using Cons.prems by (cases vs) auto
  moreover have "linked (nextOf (delete_node (NodeRef p) s)) (prevOf (delete_node (NodeRef p) s))
      (map NodeRef vs @ [TailRef])"
    using Cons.prems by (cases vs) (auto simp: delete_node_def)
  note Cons.IH [OF this]
  ultimately show ?case by (subst purge_from.simps) (simp add: delete_node_def)
qed

lemma clear_list_spec:
  assumes "lrep s ps xs"
  shows "\<exists>s'. clear_list s = Some s' \<and> lrep s' [] []"
proof -
  have "linked (nextOf s) (prevOf s) (map NodeRef ps @ [TailRef])"
    using assms by (cases ps) (auto simp: lrep_def chain_def)
  from purge_from_spec [OF this] show ?thesis
    using lrep_neighbours(1) [of s "[]" ps xs] assms
    by (auto simp: clear_list_def set_prev_def set_next_def Let_def lrep_def chain_def)
qed

fun first_index :: "'e \<Rightarrow> 'e list \<Rightarrow> nat option" where
  "first_index v [] = None"
| "first_index v (x # xs) = (if x = v then Some 0 else map_option Suc (first_index v xs))"

lemma index_from_spec:
  "lrep s (us @ vs) (xs @ ys) \<Longrightarrow> length us = length xs \<Longrightarrow>
   index_from s v i (after_of vs) =
     Some (case first_index v ys of None \<Rightarrow> - 1 | Some j \<Rightarrow> i + int j)"
proof (induction vs arbitrary: us xs ys i)
  case Nil
  then have "ys = []" using lrep_length [OF Nil.prems(1)] by simp
  then show ?case by (simp add: index_from.simps)
next
  case (Cons p vs)
  obtain y zs where ys: "ys = y # zs"
    using Cons.prems lrep_length [OF Cons.prems(1)] by (cases ys) auto
  have val: "valueOf s (NodeRef p) = Some y"
    using Cons.prems lrep_value [of s us p vs xs y zs] ys by simp
  have nx: "nextOf s (NodeRef p) = after_of vs"
    using lrep_neighbours(1) [of s "us @ [p]" vs] Cons.prems(1) by simp
  have IH: "index_from s v (i + 1) (after_of vs) =
      Some (case first_index v zs of None \<Rightarrow> - 1 | Some j \<Rightarrow> i + 1 + int j)"
    using Cons.prems ys by (intro Cons.IH [of "us @ [p]" "xs @ [y]"]) simp_all
  then show ?case using val ys nx by (subst index_from.simps) (auto split: option.splits)
qed

lemma indexOf_spec:
  assumes "lrep s ps xs"
  shows "indexOf v s = Some (case first_index v xs of None \<Rightarrow> - 1 | Some j \<Rightarrow> int j)"
  using index_from_spec [of s "[]" ps "[]" xs v 0] lrep_neighbours(1) [of s "[]" ps xs] assms
  by (auto simp: indexOf_def lrep_def split: option.splits)

lemma first_index_Some:
  "first_index v xs = Some j \<longleftrightarrow> j < length xs \<and> xs ! j = v \<and> v \<notin> set (take j xs)"
proof (induction xs arbitrary: j)
  case (Cons x xs)
  then show ?case by (cases j) auto
qed simp

lemma first_index_None: "first_index v xs = None \<longleftrightarrow> v \<notin> set xs"
  by (induction xs) auto

text \<open>
  \<open>iter_at it us ps\<close>: the iterator stands between the nodes \<open>us\<close> and the rest of \<open>ps\<close>, and
  expects the list's current \<open>modCount\<close>.
\<close>

definition iter_at :: "'e linked_list \<Rightarrow> list_iterator \<Rightarrow> nat list \<Rightarrow> bool" where
  "iter_at s it us \<longleftrightarrow> current it = before_of us \<and> iterIndex it = int (length us) - 1 \<and>
     expectedModCount it = modCount s"

lemma listIterator_spec:
  assumes "lrep s ps xs" and "0 \<le> i" and "i \<le> int (length xs)"
  shows "\<exists>it. listIterator i s = Inr it \<and> iter_at s it (take (nat i) ps) \<and> lastReturned it = Null"
proof -
  have size: "listSize s = int (length xs)" using assms(1) by (simp add: lrep_def)
  have le: "nat i \<le> length xs" using assms(2,3) by linarith
  have "nat (int (length xs) - i + 1) = length xs - nat i + 1" using assms(2,3) by linarith
  then show ?thesis
    using walk_to_before [OF assms(1) le] assms lrep_length [OF assms(1)] size
    by (auto simp: listIterator_def iter_at_def)
qed

lemma iter_next_spec:
  assumes "lrep s (us @ p # vs) (xs @ y # ys)" and "length us = length xs" and "iter_at s it us"
  shows "\<exists>it'. iter_next s it = Inr (y, it') \<and> iter_at s it' (us @ [p]) \<and> lastReturned it' = NodeRef p"
proof -
  have "nextOf s (before_of us) = NodeRef p"
    using lrep_neighbours(1) [OF assms(1)] by simp
  then show ?thesis
    using assms(3) lrep_value [OF assms(1,2)] by (auto simp: iter_next_def iter_at_def Let_def)
qed

lemma iter_hasNext_spec:
  assumes "lrep s (us @ vs) xs" and "iter_at s it us"
  shows "iter_hasNext s it \<longleftrightarrow> vs \<noteq> []"
  using lrep_neighbours(1) [OF assms(1)] assms(2) after_neq_tail [of vs]
  by (simp add: iter_hasNext_def iter_at_def)

lemma iter_remove_after_next:
  assumes "lrep s (us @ p # vs) (xs @ y # ys)" and "length us = length xs"
    and "iter_at s it (us @ [p])" and "lastReturned it = NodeRef p"
  shows "\<exists>s' it'. iter_remove s it = Inr (s', it') \<and> lrep s' (us @ vs) (xs @ ys) \<and>
           iter_at s' it' us \<and> lastReturned it' = Null"
proof -
  have nb: "nextOf s (NodeRef p) = after_of vs" "prevOf s (NodeRef p) = before_of us"
    using lrep_neighbours(1) [of s "us @ [p]" vs] lrep_neighbours(2) [of s us "p # vs"] assms(1)
    by simp_all
  let ?s' = "resize (- 1) (delete_node (NodeRef p)
     (set_next (before_of us) (after_of vs) (set_prev (after_of vs) (before_of us) s)))"
  let ?it' = "it\<lparr>current := before_of us, lastReturned := Null, iterIndex := iterIndex it - 1,
     expectedModCount := expectedModCount it + 1\<rparr>"
  have "iter_remove s it = Inr (?s', ?it')"
    using assms(3,4) nb by (simp add: iter_remove_def iter_at_def Let_def)
  moreover have "lrep ?s' (us @ vs) (xs @ ys)"
    by (rule lrep_remove [OF assms(1,2)]) (simp_all add: store_defs)
  ultimately show ?thesis using assms(3) by (auto simp: iter_at_def store_defs)
qed

lemma iter_add_spec:
  assumes "lrep s (us @ vs) (xs @ ys)" and "length us = length xs" and "iter_at s it us"
  shows "\<exists>s' it'. iter_add e s it = Inr (s', it') \<and> lrep s' (us @ fresh s # vs) (xs @ e # ys) \<and>
           iter_at s' it' (us @ [fresh s]) \<and> lastReturned it' = Null"
proof -
  have nb: "nextOf s (before_of us) = after_of vs" by (rule lrep_neighbours(1) [OF assms(1)])
  note nf = nodes_not_fresh [OF assms(1)]
  let ?n = "NodeRef (fresh s)"
  let ?s' = "resize 1 (set_next (before_of us) ?n (set_prev (after_of vs) ?n
     (fst (ListNode (before_of us) (after_of vs) e s))))"
  let ?it' = "it\<lparr>current := ?n, lastReturned := Null, iterIndex := iterIndex it + 1,
     expectedModCount := expectedModCount it + 1\<rparr>"
  have "iter_add e s it = Inr (?s', ?it')"
    using assms(3) nb nf by (simp add: iter_add_def iter_at_def store_defs)
  moreover have "lrep ?s' (us @ fresh s # vs) (xs @ e # ys)"
    by (rule lrep_insert [OF assms(1,2) refl]) (simp_all add: store_defs)
  ultimately show ?thesis using assms(3) by (auto simp: iter_at_def store_defs)
qed

lemma iter_stale:
  assumes "expectedModCount it \<noteq> modCount s"
  shows "iter_next s it = Inl ConcurrentModificationException"
    and "iter_previous s it = Inl ConcurrentModificationException"
    and "iter_remove s it = Inl ConcurrentModificationException"
    and "iter_add e s it = Inl ConcurrentModificationException"
    and "iter_set e s it = Inl ConcurrentModificationException"
  using assms
  by (simp_all add: iter_next_def iter_previous_def iter_remove_def iter_add_def iter_set_def)

lemma remove_first_loop_spec:
  "lrep s (us @ vs) (xs @ ys) \<Longrightarrow> length us = length xs \<Longrightarrow> iter_at s it us \<Longrightarrow>
   \<exists>s' qs. remove_first_loop v s it = Some (Inr (v \<in> set ys, s')) \<and> lrep s' qs (xs @ remove1 v ys)"
proof (induction vs arbitrary: us xs ys it)
  case Nil
  then have "ys = []" using lrep_length [OF Nil.prems(1)] by simp
  then show ?case
    using Nil iter_hasNext_spec [OF Nil.prems(1,3)] by (subst remove_first_loop.simps) auto
next
  case (Cons p vs)
  obtain y zs where ys: "ys = y # zs"
    using Cons.prems lrep_length [OF Cons.prems(1)] by (cases ys) auto
  have hn: "iter_hasNext s it" using iter_hasNext_spec [OF Cons.prems(1,3)] by simp
  obtain it' where it': "iter_next s it = Inr (y, it')" "iter_at s it' (us @ [p])"
    "lastReturned it' = NodeRef p"
    using iter_next_spec [of s us p vs xs y zs it] Cons.prems ys by blast
  show ?case
  proof (cases "y = v")
    case True
    obtain s' it'' where "iter_remove s it' = Inr (s', it'')" "lrep s' (us @ vs) (xs @ zs)"
      using iter_remove_after_next [OF _ Cons.prems(2) it'(2,3)] Cons.prems(1) ys by blast
    then show ?thesis using True hn it' ys by (subst remove_first_loop.simps) auto
  next
    case False
    have "\<exists>s' qs. remove_first_loop v s it' = Some (Inr (v \<in> set zs, s')) \<and>
        lrep s' qs ((xs @ [y]) @ remove1 v zs)"
      using Cons.prems ys it' by (intro Cons.IH [of "us @ [p]"]) simp_all
    then show ?thesis using False hn it' ys by (subst remove_first_loop.simps) auto
  qed
qed

lemma lastIndex_from_spec:
  "lrep s (us @ vs) (xs @ ys) \<Longrightarrow> length us = length xs \<Longrightarrow>
   last_index_from s v (int (length xs) - 1) (before_of us) =
     Some (case first_index v (rev xs) of None \<Rightarrow> - 1 | Some j \<Rightarrow> int (length xs) - 1 - int j)"
proof (induction us arbitrary: vs xs ys rule: rev_induct)
  case Nil
  then show ?case by (simp add: last_index_from.simps)
next
  case (snoc p us)
  obtain ws w where xs: "xs = ws @ [w]"
    using snoc.prems(2) by (cases xs rule: rev_cases) auto
  have val: "valueOf s (NodeRef p) = Some w"
    using snoc.prems lrep_value [of s us p vs ws w ys] xs by simp
  have pv: "prevOf s (NodeRef p) = before_of us"
    using lrep_neighbours(2) [of s us "p # vs"] snoc.prems(1) by simp
  have IH: "last_index_from s v (int (length ws) - 1) (before_of us) =
      Some (case first_index v (rev ws) of None \<Rightarrow> - 1 | Some j \<Rightarrow> int (length ws) - 1 - int j)"
    using snoc.prems xs by (intro snoc.IH [of "p # vs" ws "w # ys"]) simp_all
  then show ?case using val pv xs by (subst last_index_from.simps) (auto split: option.splits)
qed

lemma lastIndexOf_spec:
  assumes "lrep s ps xs"
  shows "lastIndexOf v s =
    Some (case first_index v (rev xs) of None \<Rightarrow> - 1 | Some j \<Rightarrow> int (length xs) - 1 - int j)"
  using lastIndex_from_spec [of s ps "[]" xs "[]" v] lrep_neighbours(2) [of s ps "[]" xs]
    lrep_length [OF assms] assms
  by (auto simp: lastIndexOf_def lrep_def split: option.splits)

section \<open>The list as a double-ended queue\<close>

lemma representsI: "lrep s ps xs \<Longrightarrow> represents s xs"
  by (auto simp: represents_def)

lemma pop_front_represents:
  "represents s (x # xs) \<Longrightarrow> \<exists>s'. removeAtFront s = Inr (x, s') \<and> represents s' xs"
proof -
  assume "represents s (x # xs)"
  then obtain ps where ps: "lrep s ps (x # xs)" by (auto simp: represents_def)
  then obtain p qs where "ps = p # qs" using lrep_length [OF ps] by (cases ps) auto
  with ps have "lrep s (p # qs) (x # xs)" by simp
  from removeAtFront_Cons [OF this] show ?thesis by (blast intro: representsI)
qed

lemma front_represents:
  "represents s (x # xs) \<Longrightarrow> getFirst s = Inr x"
proof -
  assume "represents s (x # xs)"
  then obtain ps where ps: "lrep s ps (x # xs)" by (auto simp: represents_def)
  then obtain p qs where pq: "ps = p # qs" using lrep_length [OF ps] by (cases ps) auto
  have "nextOf s HeadRef = NodeRef p" using lrep_neighbours(1) [of s "[]" ps] ps pq by simp
  moreover have "valueOf s (NodeRef p) = Some x"
    using lrep_value [of s "[]" p qs "[]" x xs] ps pq by simp
  ultimately show ?thesis using ps by (simp add: getFirst_def lrep_def)
qed

interpretation ll: deque represents new_LinkedList addToFront addToEnd removeAtFront getFirst
  toArray clear_list listSize
proof unfold_locales
  show "represents new_LinkedList []" by (rule representsI [OF lrep_new])
next
  fix s :: "'a linked_list" and xs :: "'a list"
  assume "represents s xs"
  then obtain ps where ps: "lrep s ps xs" by (auto simp: represents_def)
  show "represents (addToFront v s) (v # xs)" for v by (rule representsI [OF lrep_addToFront [OF ps]])
  show "represents (addToEnd v s) (xs @ [v])" for v by (rule representsI [OF lrep_addToEnd [OF ps]])
  show "toArray s = Some xs" by (rule toArray_spec [OF ps])
  show "\<exists>s'. clear_list s = Some s' \<and> represents s' []"
    using clear_list_spec [OF ps] by (auto intro: representsI)
  show "listSize s = int (length xs)" using ps by (simp add: lrep_def)
next
  fix s :: "'a linked_list"
  assume "represents s []"
  then obtain ps where "lrep s ps []" by (auto simp: represents_def)
  then have ps: "lrep s [] []" using lrep_length by fastforce
  show "removeAtFront s = Inl NoSuchElementException" by (rule removeAtFront_Nil [OF ps])
  show "getFirst s = Inl NoSuchElementException" using ps by (simp add: getFirst_def lrep_def)
next
  fix s :: "'a linked_list" and x xs
  assume r: "represents s (x # xs)"
  show "\<exists>s'. removeAtFront s = Inr (x, s') \<and> represents s' xs" by (rule pop_front_represents [OF r])
  show "getFirst s = Inr x" by (rule front_represents [OF r])
qed

section \<open>Properties\<close>

text \<open>
  C23. First in, first out: appending any sequence of elements to a new list with \<open>addLast\<close> and
  then calling \<open>pop\<close> that many times returns exactly those elements, in that order, without a
  dangling or null read; one more \<open>pop\<close> throws \<open>NoSuchElementException\<close>.
\<close>

theorem linked_list_fifo:
  "\<exists>s. drain removeAtFront (length ys) (fold addToEnd ys new_LinkedList) = Inr (ys, s) \<and>
       removeAtFront s = Inl NoSuchElementException"
  by (rule ll.fifo)

text \<open>
  Insertion by position: on a list that represents \<open>xs\<close>, \<open>add(i, v)\<close> throws
  \<open>IndexOutOfBoundsException\<close> exactly when \<open>i\<close> is outside \<open>0..size\<close>, and otherwise yields a list
  that represents \<open>xs\<close> with \<open>v\<close> inserted before position \<open>i\<close>, whichever end the code walks from;
  \<open>get(i)\<close> then returns \<open>v\<close>.
\<close>

theorem linked_list_add_get:
  assumes "represents s xs"
  shows "if 0 \<le> i \<and> i \<le> int (length xs)
         then \<exists>s'. add_at i v s = Inr s' \<and>
                   represents s' (take (nat i) xs @ v # drop (nat i) xs) \<and> get_at i s' = Inr v
         else add_at i v s = Inl IndexOutOfBoundsException"
proof -
  obtain ps where ps: "lrep s ps xs" using assms by (auto simp: represents_def)
  have size: "listSize s = int (length xs)" using ps by (simp add: lrep_def)
  show ?thesis
  proof (cases "0 \<le> i \<and> i \<le> int (length xs)")
    case True
    note r = addAtLocation_spec [OF ps, of i v]
    from True have "nat i \<le> length xs" by linarith
    then have "get_at i (addAtLocation i v s) = Inr v"
      using True r get_at_spec [of "addAtLocation i v s"] by (auto simp: nth_append)
    with True r size show ?thesis by (auto simp: add_at_def intro: representsI)
  qed (auto simp: add_at_def size)
qed

theorem linked_list_add_get_witness:
  "\<exists>s'. add_at 1 (9::int) (addToEnd 2 (addToEnd 1 new_LinkedList)) = Inr s' \<and>
        represents s' [1, 9, 2] \<and> get_at 1 s' = Inr 9"
proof -
  have "represents (addToEnd (2::int) (addToEnd 1 new_LinkedList)) [1, 2]"
    using ll.rep_push_all [OF ll.rep_new, of "[1, 2::int]"] by simp
  from linked_list_add_get [OF this, of 1 9] show ?thesis by simp
qed

text \<open>
  \<open>removeFirstOccurrence\<close> always returns on a well-formed list; it reports whether the value
  occurred and removes exactly its first occurrence.
\<close>

theorem linked_list_remove_first:
  assumes "represents s xs"
  shows "\<exists>s'. removeFirstOccurrence v s = Some (Inr (v \<in> set xs, s')) \<and> represents s' (remove1 v xs)"
proof -
  obtain ps where ps: "lrep s ps xs" using assms by (auto simp: represents_def)
  obtain it where it: "listIterator 0 s = Inr it" "iter_at s it []"
    using listIterator_spec [OF ps, of 0] by auto
  obtain s' qs where "remove_first_loop v s it = Some (Inr (v \<in> set xs, s'))"
    "lrep s' qs (remove1 v xs)"
    using remove_first_loop_spec [of s "[]" ps "[]" xs it v] ps it by auto
  then show ?thesis using it by (auto simp: removeFirstOccurrence_def intro: representsI)
qed

theorem linked_list_remove_first_witness:
  "\<exists>s'. removeFirstOccurrence (7::int) (fold addToEnd [5, 7, 6, 7] new_LinkedList) =
          Some (Inr (True, s')) \<and> represents s' [5, 6, 7]"
proof -
  have "represents (fold addToEnd [5, 7, 6, 7::int] new_LinkedList) [5, 7, 6, 7]"
    using ll.rep_push_all [OF ll.rep_new, of "[5, 7, 6, 7::int]"] by simp
  from linked_list_remove_first [OF this, of 7] show ?thesis by simp
qed

end
