(* ===== verification/Commands.thy ===== *)
theory Commands
  imports Prelude
begin

text \<open>
  The OpenWire command objects that the client core passes between its parts, with the fields
  that the modelled code reads or writes (\<open>activemq/commands\<close>): producer and message identities,
  destinations, messages and message dispatches.  A null \<open>Pointer\<close> is \<open>None\<close>.
\<close>

record producer_id =
  connectionId :: string
  idValue :: int
  sessionId :: int

record message_id =
  textView :: string
  producerId :: "producer_id option"
  producerSequenceId :: int
  brokerSequenceId :: int
  key :: string

datatype destination_type = TOPIC | QUEUE | TEMPORARY_TOPIC | TEMPORARY_QUEUE

record destination =
  physicalName :: string
  destinationType :: destination_type

definition isTopic :: "destination \<Rightarrow> bool" where
  "isTopic d = (destinationType d = TOPIC \<or> destinationType d = TEMPORARY_TOPIC)"

definition isQueue :: "destination \<Rightarrow> bool" where
  "isQueue d = (\<not> isTopic d)"

text \<open>
  \<open>priority\<close> is an \<open>unsigned char\<close>.  \<open>messageIdRef\<close> and \<open>dispatchRef\<close> are the addresses of the
  \<open>MessageId\<close> and \<open>MessageDispatch\<close> objects: comparing two \<open>Pointer\<close>s compares addresses.
  \<open>hasRedeliveryDelay\<close> says whether the property \<open>redeliveryDelay\<close> is set, \<open>rollbackCause\<close> is the text of
  the exception stored by \<open>setRollbackCause\<close>.
\<close>

record message =
  messageId :: "message_id option"
  messageIdRef :: nat
  messageDestination :: "destination option"
  priority :: "8 word"
  expiration :: int
  messageRedeliveryCounter :: int
  hasRedeliveryDelay :: bool

record message_dispatch =
  dispatchRef :: nat
  dispatchConsumerId :: string
  dispatchDestination :: "destination option"
  dispatchMessage :: "message option"
  redeliveryCounter :: int
  rollbackCause :: string

definition newMessage :: message where
  "newMessage = \<lparr>messageId = None, messageIdRef = 0, messageDestination = None, priority = 4, expiration = 0,
     messageRedeliveryCounter = 0, hasRedeliveryDelay = False\<rparr>"

definition nullDispatch :: message_dispatch where
  "nullDispatch = \<lparr>dispatchRef = 0, dispatchConsumerId = [], dispatchDestination = None, dispatchMessage = None,
     redeliveryCounter = 0, rollbackCause = []\<rparr>"

text \<open>\<open>Message::isExpired\<close> at a given time.\<close>

definition isExpired :: "int \<Rightarrow> message \<Rightarrow> bool" where
  "isExpired now m = (expiration m > 0 \<and> now > expiration m)"

end
