(* ===== verification/Channel_Spec.thy ===== *)
theory Channel_Spec
  imports Deque_Spec "HOL-Library.Multiset"
begin

text \<open>
  The contract of \<open>activemq/core/MessageDispatchChannel.h\<close>, the interface that the session and
  the consumers use: a channel holds a sequence of pending messages; enqueueing places a message
  in it by the channel's discipline \<open>place\<close>, dequeueing takes the first one while the channel is
  running and open, and nothing leaves a stopped or closed channel.  The consequences that do not
  depend on the discipline are proved here once.
\<close>

text \<open>
  The calls that the transport thread, the session and the consumers make on a channel, in the
  order in which they get its monitor.  A run of calls hands out the messages that the
  dequeueing calls return.
\<close>

datatype 'm channel_call =
    Enqueue 'm | EnqueueFirst 'm | DequeueNoWait | Start | Stop | Close | RemoveAll

record ('m, 'c) channel_ops =
  op_enqueue :: "'m \<Rightarrow> 'c \<Rightarrow> 'c"
  op_enqueueFirst :: "'m \<Rightarrow> 'c \<Rightarrow> 'c"
  op_dequeueNoWait :: "'c \<Rightarrow> ('m option \<times> 'c) result"
  op_start :: "'c \<Rightarrow> 'c"
  op_stop :: "'c \<Rightarrow> 'c"
  op_close :: "'c \<Rightarrow> 'c"
  op_removeAll :: "'c \<Rightarrow> ('m list \<times> 'c) option"

fun channel_step :: "('m, 'c) channel_ops \<Rightarrow> 'm channel_call \<Rightarrow> 'c \<Rightarrow> ('m list \<times> 'c) result" where
  "channel_step ops (Enqueue m) c = Inr ([], op_enqueue ops m c)"
| "channel_step ops (EnqueueFirst m) c = Inr ([], op_enqueueFirst ops m c)"
| "channel_step ops DequeueNoWait c =
     bind_result (op_dequeueNoWait ops c) (\<lambda>(r, c'). Inr (case r of None \<Rightarrow> [] | Some m \<Rightarrow> [m], c'))"
| "channel_step ops Start c = Inr ([], op_start ops c)"
| "channel_step ops Stop c = Inr ([], op_stop ops c)"
| "channel_step ops Close c = Inr ([], op_close ops c)"
| "channel_step ops RemoveAll c =
     bind_result (of_option UndefinedBehaviour (op_removeAll ops c)) Inr"

fun channel_run :: "('m, 'c) channel_ops \<Rightarrow> 'm channel_call list \<Rightarrow> 'c \<Rightarrow> ('m list \<times> 'c) result" where
  "channel_run ops [] c = Inr ([], c)"
| "channel_run ops (a # as) c =
     bind_result (channel_step ops a c) (\<lambda>(ms, c1).
       bind_result (channel_run ops as c1) (\<lambda>(ms', c2). Inr (ms @ ms', c2)))"

fun enqueued_by :: "'m channel_call list \<Rightarrow> 'm list" where
  "enqueued_by [] = []"
| "enqueued_by (Enqueue m # as) = m # enqueued_by as"
| "enqueued_by (EnqueueFirst m # as) = m # enqueued_by as"
| "enqueued_by (_ # as) = enqueued_by as"

text \<open>
  The contract as a state of its own: the sequence of pending messages and the two flags.  The
  consumer is modelled on it; that both channels of the code behave as this one is the lemma
  \<open>run_refines\<close> below.
\<close>

record 'm list_channel =
  lc_closed :: bool
  lc_running :: bool
  pending :: "'m list"

definition new_lc :: "'m list_channel" where
  "new_lc = \<lparr>lc_closed = False, lc_running = False, pending = []\<rparr>"

definition lc_enqueue :: "('m \<Rightarrow> 'm list \<Rightarrow> 'm list) \<Rightarrow> 'm \<Rightarrow> 'm list_channel \<Rightarrow> 'm list_channel" where
  "lc_enqueue place m c = c\<lparr>pending := place m (pending c)\<rparr>"

definition lc_dequeueNoWait :: "'m list_channel \<Rightarrow> 'm option \<times> 'm list_channel" where
  "lc_dequeueNoWait c =
     (if lc_closed c \<or> \<not> lc_running c then (None, c)
      else case pending c of [] \<Rightarrow> (None, c) | m # ms \<Rightarrow> (Some m, c\<lparr>pending := ms\<rparr>))"

definition lc_start :: "'m list_channel \<Rightarrow> 'm list_channel" where
  "lc_start c = c\<lparr>lc_running := lc_running c \<or> \<not> lc_closed c\<rparr>"

definition lc_stop :: "'m list_channel \<Rightarrow> 'm list_channel" where
  "lc_stop c = c\<lparr>lc_running := False\<rparr>"

definition lc_close :: "'m list_channel \<Rightarrow> 'm list_channel" where
  "lc_close c = c\<lparr>lc_closed := True, lc_running := lc_running c \<and> lc_closed c\<rparr>"

definition lc_removeAll :: "'m list_channel \<Rightarrow> 'm list \<times> 'm list_channel" where
  "lc_removeAll c = (pending c, c\<lparr>pending := []\<rparr>)"

definition lc_ops ::
    "('m \<Rightarrow> 'm list \<Rightarrow> 'm list) \<Rightarrow> ('m \<Rightarrow> 'm list \<Rightarrow> 'm list) \<Rightarrow> ('m, 'm list_channel) channel_ops" where
  "lc_ops place place_first =
     \<lparr>op_enqueue = lc_enqueue place, op_enqueueFirst = lc_enqueue place_first,
      op_dequeueNoWait = (\<lambda>c. Inr (lc_dequeueNoWait c)), op_start = lc_start, op_stop = lc_stop,
      op_close = lc_close, op_removeAll = (\<lambda>c. Some (lc_removeAll c))\<rparr>"

lemmas lc_defs = lc_enqueue_def lc_dequeueNoWait_def lc_start_def lc_stop_def lc_close_def lc_removeAll_def

locale message_channel =
  fixes crep :: "'c \<Rightarrow> 'm list \<Rightarrow> bool"
    and place :: "'m \<Rightarrow> 'm list \<Rightarrow> 'm list"
    and place_first :: "'m \<Rightarrow> 'm list \<Rightarrow> 'm list"
    and new_channel :: 'c
    and enqueue :: "'m \<Rightarrow> 'c \<Rightarrow> 'c"
    and enqueue_first :: "'m \<Rightarrow> 'c \<Rightarrow> 'c"
    and dequeue_no_wait :: "'c \<Rightarrow> ('m option \<times> 'c) result"
    and peek :: "'c \<Rightarrow> 'm option result"
    and start :: "'c \<Rightarrow> 'c"
    and stop :: "'c \<Rightarrow> 'c"
    and close :: "'c \<Rightarrow> 'c"
    and remove_all :: "'c \<Rightarrow> ('m list \<times> 'c) option"
    and size_of :: "'c \<Rightarrow> int"
    and running :: "'c \<Rightarrow> bool"
    and closed :: "'c \<Rightarrow> bool"
  assumes new_rep: "crep new_channel []" "\<not> running new_channel" "\<not> closed new_channel"
    and enqueue_rep: "crep c xs \<Longrightarrow> crep (enqueue m c) (place m xs)"
    and enqueue_flags: "running (enqueue m c) = running c" "closed (enqueue m c) = closed c"
    and enqueue_first_flags: "running (enqueue_first m c) = running c"
        "closed (enqueue_first m c) = closed c"
    and enqueue_first_rep: "crep c xs \<Longrightarrow> crep (enqueue_first m c) (place_first m xs)"
    and dequeue_ready: "crep c (x # xs) \<Longrightarrow> running c \<Longrightarrow> \<not> closed c \<Longrightarrow>
        \<exists>c'. dequeue_no_wait c = Inr (Some x, c') \<and> crep c' xs \<and>
             running c' = running c \<and> closed c' = closed c"
    and dequeue_blocked: "crep c xs \<Longrightarrow> closed c \<or> \<not> running c \<or> xs = [] \<Longrightarrow>
        dequeue_no_wait c = Inr (None, c)"
    and peek_ready: "crep c (x # xs) \<Longrightarrow> running c \<Longrightarrow> \<not> closed c \<Longrightarrow> peek c = Inr (Some x)"
    and start_law: "crep c xs \<Longrightarrow> crep (start c) xs" "running (start c) = (running c \<or> \<not> closed c)"
        "closed (start c) = closed c"
    and stop_law: "crep c xs \<Longrightarrow> crep (stop c) xs" "\<not> running (stop c)" "closed (stop c) = closed c"
    and close_law: "crep c xs \<Longrightarrow> crep (close c) xs" "closed (close c)"
        "running (close c) = (running c \<and> closed c)"
    and remove_all_rep: "crep c xs \<Longrightarrow> \<exists>c'. remove_all c = Some (xs, c') \<and> crep c' [] \<and>
        running c' = running c \<and> closed c' = closed c"
    and size_rep: "crep c xs \<Longrightarrow> size_of c = int (length xs)"
    and mset_place: "mset (place m xs) = add_mset m (mset xs)"
    and mset_place_first: "mset (place_first m xs) = add_mset m (mset xs)"
begin

lemma enqueue_all:
  "crep c xs \<Longrightarrow> crep (fold enqueue ms c) (fold place ms xs) \<and>
     running (fold enqueue ms c) = running c \<and> closed (fold enqueue ms c) = closed c"
proof (induction ms arbitrary: c xs)
  case (Cons m ms)
  from Cons.IH [OF enqueue_rep [OF Cons.prems, of m]] show ?case by (simp add: enqueue_flags)
qed simp

text \<open>What \<open>n\<close> successive calls of \<open>dequeueNoWait\<close> hand out.\<close>

lemma dequeue_n:
  "crep c xs \<Longrightarrow> running c \<Longrightarrow> \<not> closed c \<Longrightarrow>
   \<exists>c'. drain dequeue_no_wait n c =
          Inr (map Some (take n xs) @ replicate (n - length xs) None, c') \<and>
        crep c' (drop n xs)"
proof (induction n arbitrary: c xs)
  case 0
  then show ?case by auto
next
  case (Suc n)
  show ?case
  proof (cases xs)
    case Nil
    have "dequeue_no_wait c = Inr (None, c)" using dequeue_blocked Suc.prems(1) Nil by blast
    then show ?thesis using Suc.IH [OF Suc.prems] Nil by auto
  next
    case (Cons y ys)
    then obtain c1 where "dequeue_no_wait c = Inr (Some y, c1)" "crep c1 ys" "running c1" "\<not> closed c1"
      using dequeue_ready Suc.prems by blast
    with Suc.IH [of c1 ys] Cons show ?thesis by auto
  qed
qed

text \<open>Started, filled and drained: the messages come out in the order of the discipline.\<close>

lemma delivery_order:
  "\<exists>c'. drain dequeue_no_wait (length (fold place ms [])) (fold enqueue ms (start new_channel)) =
          Inr (map Some (fold place ms []), c') \<and> crep c' []"
proof -
  let ?c = "start new_channel"
  have "crep ?c []" "running ?c" "\<not> closed ?c" using start_law new_rep by auto
  from enqueue_all [OF this(1), of ms] this(2,3)
  have "crep (fold enqueue ms ?c) (fold place ms [])" "running (fold enqueue ms ?c)"
    "\<not> closed (fold enqueue ms ?c)" by auto
  from dequeue_n [OF this, of "length (fold place ms [])"] show ?thesis by simp
qed

text \<open>No call sequence fails, loses a message or invents one.\<close>

lemma step_conserves:
  assumes "crep c xs" and "ops = \<lparr>op_enqueue = enqueue, op_enqueueFirst = enqueue_first,
    op_dequeueNoWait = dequeue_no_wait, op_start = start, op_stop = stop, op_close = close,
    op_removeAll = remove_all\<rparr>"
  shows "\<exists>ms c' xs'. channel_step ops a c = Inr (ms, c') \<and> crep c' xs' \<and>
           mset ms + mset xs' = mset xs + mset (enqueued_by [a])"
proof (cases a)
  case DequeueNoWait
  show ?thesis
  proof (cases "closed c \<or> \<not> running c \<or> xs = []")
    case True
    then show ?thesis
      using dequeue_blocked [OF assms(1)] DequeueNoWait assms by (intro exI) auto
  next
    case False
    then obtain y ys where ys: "xs = y # ys" by (cases xs) auto
    obtain c' where "dequeue_no_wait c = Inr (Some y, c')" "crep c' ys"
      using dequeue_ready [of c y ys] False assms(1) ys by blast
    with DequeueNoWait assms(2) ys show ?thesis
      by (intro exI [of _ "[y]"] exI [of _ c'] exI [of _ ys]) simp
  qed
next
  case RemoveAll
  obtain c' where "remove_all c = Some (xs, c')" "crep c' []" using remove_all_rep [OF assms(1)] by blast
  with RemoveAll assms(2) show ?thesis by (intro exI [of _ xs] exI [of _ c'] exI [of _ "[]"]) simp
qed (use assms enqueue_rep enqueue_first_rep start_law(1) stop_law(1) close_law(1)
      mset_place mset_place_first in \<open>auto intro!: exI\<close>)

lemma run_conserves:
  assumes "crep c xs" and "ops = \<lparr>op_enqueue = enqueue, op_enqueueFirst = enqueue_first,
    op_dequeueNoWait = dequeue_no_wait, op_start = start, op_stop = stop, op_close = close,
    op_removeAll = remove_all\<rparr>"
  shows "\<exists>ms c' xs'. channel_run ops as c = Inr (ms, c') \<and> crep c' xs' \<and>
           mset ms + mset xs' = mset xs + mset (enqueued_by as)"
  using assms(1)
proof (induction as arbitrary: c xs)
  case Nil
  then show ?case by auto
next
  case (Cons a as)
  from step_conserves [OF Cons.prems assms(2), of a] obtain ms c1 xs1 where
    1: "channel_step ops a c = Inr (ms, c1)" "crep c1 xs1"
      "mset ms + mset xs1 = mset xs + mset (enqueued_by [a])" by blast
  from Cons.IH [OF 1(2)] obtain ms' c2 xs2 where
    2: "channel_run ops as c1 = Inr (ms', c2)" "crep c2 xs2"
      "mset ms' + mset xs2 = mset xs1 + mset (enqueued_by as)" by blast
  have "mset (enqueued_by (a # as)) = mset (enqueued_by [a]) + mset (enqueued_by as)"
    by (cases a) auto
  then have "mset (ms @ ms') + mset xs2 = mset xs + mset (enqueued_by (a # as))"
    using 1(3) 2(3) by (metis add.assoc mset_append)
  with 1 2 show ?case by (intro exI [of _ "ms @ ms'"] exI [of _ c2] exI [of _ xs2]) auto
qed

text \<open>A channel and its list channel, step by step: the replies are the same.\<close>

definition sim :: "'c \<Rightarrow> 'm list_channel \<Rightarrow> bool" where
  "sim c l \<longleftrightarrow> crep c (pending l) \<and> running c = lc_running l \<and> closed c = lc_closed l"

lemma step_refines:
  assumes "sim c l" and "ops = \<lparr>op_enqueue = enqueue, op_enqueueFirst = enqueue_first,
    op_dequeueNoWait = dequeue_no_wait, op_start = start, op_stop = stop, op_close = close,
    op_removeAll = remove_all\<rparr>"
  shows "\<exists>ms c' l'. channel_step ops a c = Inr (ms, c') \<and>
           channel_step (lc_ops place place_first) a l = Inr (ms, l') \<and> sim c' l'"
proof (cases a)
  case DequeueNoWait
  show ?thesis
  proof (cases "closed c \<or> \<not> running c \<or> pending l = []")
    case True
    then show ?thesis
      using dequeue_blocked [of c "pending l"] DequeueNoWait assms
      by (auto simp: sim_def lc_ops_def lc_dequeueNoWait_def)
  next
    case False
    then obtain y ys where ys: "pending l = y # ys" by (cases "pending l") auto
    obtain c' where "dequeue_no_wait c = Inr (Some y, c')" "crep c' ys" "running c' = running c"
      "closed c' = closed c"
      using dequeue_ready [of c y ys] False assms(1) ys by (auto simp: sim_def)
    with DequeueNoWait assms ys False show ?thesis
      by (auto simp: sim_def lc_ops_def lc_dequeueNoWait_def)
  qed
next
  case RemoveAll
  obtain c' where "remove_all c = Some (pending l, c')" "crep c' []" "running c' = running c"
    "closed c' = closed c" using remove_all_rep [of c "pending l"] assms(1) by (auto simp: sim_def)
  with RemoveAll assms show ?thesis by (auto simp: sim_def lc_ops_def lc_removeAll_def)
qed (use assms enqueue_rep enqueue_first_rep enqueue_flags enqueue_first_flags start_law stop_law close_law
      in \<open>auto simp: sim_def lc_ops_def lc_defs\<close>)

lemma run_refines:
  assumes "sim c l" and "ops = \<lparr>op_enqueue = enqueue, op_enqueueFirst = enqueue_first,
    op_dequeueNoWait = dequeue_no_wait, op_start = start, op_stop = stop, op_close = close,
    op_removeAll = remove_all\<rparr>"
  shows "\<exists>ms c' l'. channel_run ops as c = Inr (ms, c') \<and>
           channel_run (lc_ops place place_first) as l = Inr (ms, l') \<and> sim c' l'"
  using assms(1)
proof (induction as arbitrary: c l)
  case (Cons a as)
  from step_refines [OF Cons.prems assms(2), of a] obtain ms c1 l1 where
    1: "channel_step ops a c = Inr (ms, c1)"
      "channel_step (lc_ops place place_first) a l = Inr (ms, l1)" "sim c1 l1" by blast
  from Cons.IH [OF 1(3)] 1(1,2) show ?case by auto
qed auto

lemma new_sim: "sim new_channel new_lc"
  using new_rep by (simp add: sim_def new_lc_def)

lemma closed_forever: "crep c xs \<Longrightarrow> dequeue_no_wait (start (close c)) = Inr (None, start (close c))"
  using close_law start_law dequeue_blocked by blast

lemma stopped_keeps: "crep c xs \<Longrightarrow> dequeue_no_wait (stop c) = Inr (None, stop c) \<and> crep (stop c) xs"
  using stop_law dequeue_blocked by blast

end

end
