(* ===== verification/DispatchChannel.thy ===== *)
theory DispatchChannel
  imports LinkedList Commands Channel_Spec
begin

text \<open>
  The two queues between the transport thread and the consumers:
  \<open>activemq/core/FifoMessageDispatchChannel.cpp\<close> and
  \<open>activemq/core/SimplePriorityMessageDispatchChannel.cpp\<close>.  Each method body runs under the
  channel's monitor, so it is one atomic step on the channel's state.  The only method that
  gives the monitor up is \<open>dequeue(timeout)\<close>: its calls of \<open>wait\<close> are modelled by the list of
  channel states that the thread finds each time it wakes up, and \<open>Waiting\<close> is a thread that has
  not been woken again.
\<close>

datatype 'r waiting = Waiting | Returned 'r

section \<open>The first-in first-out channel\<close>

record 'm fifo_channel =
  fifo_closed :: bool
  fifo_running :: bool
  channel :: "'m linked_list"

definition new_Fifo :: "'m fifo_channel" where
  "new_Fifo = \<lparr>fifo_closed = False, fifo_running = False, channel = new_LinkedList\<rparr>"

definition fifo_enqueue :: "'m \<Rightarrow> 'm fifo_channel \<Rightarrow> 'm fifo_channel" where
  "fifo_enqueue m c = c\<lparr>channel := addToEnd m (channel c)\<rparr>"

definition fifo_enqueueFirst :: "'m \<Rightarrow> 'm fifo_channel \<Rightarrow> 'm fifo_channel" where
  "fifo_enqueueFirst m c = c\<lparr>channel := addToFront m (channel c)\<rparr>"

definition fifo_isEmpty :: "'m fifo_channel \<Rightarrow> bool" where
  "fifo_isEmpty c = isEmpty_list (channel c)"

definition fifo_dequeueNoWait :: "'m fifo_channel \<Rightarrow> ('m option \<times> 'm fifo_channel) result" where
  "fifo_dequeueNoWait c =
     (if fifo_closed c \<or> \<not> fifo_running c \<or> isEmpty_list (channel c) then Inr (None, c)
      else bind_result (removeAtFront (channel c)) (\<lambda>(m, l). Inr (Some m, c\<lparr>channel := l\<rparr>)))"

fun fifo_await :: "int \<Rightarrow> 'm fifo_channel \<Rightarrow> 'm fifo_channel list \<Rightarrow> 'm fifo_channel waiting" where
  "fifo_await timeout c wakes =
     (if timeout \<noteq> 0 \<and> \<not> fifo_closed c \<and> (isEmpty_list (channel c) \<or> \<not> fifo_running c) then
        (case wakes of
           [] \<Rightarrow> Waiting
         | c' # wakes' \<Rightarrow> if timeout = - 1 then fifo_await timeout c' wakes' else Returned c')
      else Returned c)"

definition fifo_dequeue ::
  "int \<Rightarrow> 'm fifo_channel \<Rightarrow> 'm fifo_channel list \<Rightarrow> ('m option \<times> 'm fifo_channel) result waiting" where
  "fifo_dequeue timeout c wakes =
     (case fifo_await timeout c wakes of
        Waiting \<Rightarrow> Waiting
      | Returned c' \<Rightarrow> Returned
          (if fifo_closed c' \<or> \<not> fifo_running c' \<or> isEmpty_list (channel c') then Inr (None, c')
           else bind_result (removeAtFront (channel c')) (\<lambda>(m, l). Inr (Some m, c'\<lparr>channel := l\<rparr>))))"

definition fifo_peek :: "'m fifo_channel \<Rightarrow> 'm option result" where
  "fifo_peek c =
     (if fifo_closed c \<or> \<not> fifo_running c \<or> isEmpty_list (channel c) then Inr None
      else bind_result (getFirst (channel c)) (\<lambda>m. Inr (Some m)))"

definition fifo_start :: "'m fifo_channel \<Rightarrow> 'm fifo_channel" where
  "fifo_start c = (if \<not> fifo_closed c then c\<lparr>fifo_running := True\<rparr> else c)"

definition fifo_stop :: "'m fifo_channel \<Rightarrow> 'm fifo_channel" where
  "fifo_stop c = c\<lparr>fifo_running := False\<rparr>"

definition fifo_close :: "'m fifo_channel \<Rightarrow> 'm fifo_channel" where
  "fifo_close c = (if \<not> fifo_closed c then c\<lparr>fifo_running := False, fifo_closed := True\<rparr> else c)"

definition fifo_clear :: "'m fifo_channel \<Rightarrow> 'm fifo_channel option" where
  "fifo_clear c = map_option (\<lambda>l. c\<lparr>channel := l\<rparr>) (clear_list (channel c))"

definition fifo_size :: "'m fifo_channel \<Rightarrow> int" where
  "fifo_size c = listSize (channel c)"

definition fifo_removeAll :: "'m fifo_channel \<Rightarrow> ('m list \<times> 'm fifo_channel) option" where
  "fifo_removeAll c =
     (case toArray (channel c) of None \<Rightarrow> None
      | Some r \<Rightarrow> map_option (\<lambda>l. (r, c\<lparr>channel := l\<rparr>)) (clear_list (channel c)))"

section \<open>The priority channel\<close>

definition MAX_PRIORITIES :: nat where
  "MAX_PRIORITIES = 10"

definition DEFAULT_MSG_PRIORITY :: nat where
  "DEFAULT_MSG_PRIORITY = 4"

record prio_channel =
  prio_closed :: bool
  prio_running :: bool
  channels :: "message_dispatch linked_list list"
  enqueued :: int

definition new_Prio :: prio_channel where
  "new_Prio = \<lparr>prio_closed = False, prio_running = False,
     channels = replicate MAX_PRIORITIES new_LinkedList, enqueued = 0\<rparr>"

text \<open>
  \<open>getChannel\<close> as the index of the list it returns.  The result of the first call
  (\<open>Math::max(priority, 0)\<close>) is overwritten by the second; the priority is an unsigned byte, so
  nothing is lost.
\<close>

definition getChannel :: "message_dispatch \<Rightarrow> nat" where
  "getChannel d =
     (case dispatchMessage d of
        None \<Rightarrow> DEFAULT_MSG_PRIORITY
      | Some m \<Rightarrow> min (unat (priority m)) 9)"

definition prio_enqueue :: "message_dispatch \<Rightarrow> prio_channel \<Rightarrow> prio_channel" where
  "prio_enqueue m c =
     (let i = getChannel m in
      c\<lparr>channels := (channels c)[i := addToEnd m (channels c ! i)], enqueued := enqueued c + 1\<rparr>)"

definition prio_enqueueFirst :: "message_dispatch \<Rightarrow> prio_channel \<Rightarrow> prio_channel" where
  "prio_enqueueFirst m c =
     (let i = getChannel m in
      c\<lparr>channels := (channels c)[i := addToFront m (channels c ! i)], enqueued := enqueued c + 1\<rparr>)"

definition prio_isEmpty :: "prio_channel \<Rightarrow> bool" where
  "prio_isEmpty c = (enqueued c = 0)"

text \<open>The loop \<open>for (i = MAX_PRIORITIES - 1; i >= 0; i--)\<close>, with \<open>n\<close> levels left to look at.\<close>

fun prio_removeFirst_loop :: "nat \<Rightarrow> prio_channel \<Rightarrow> (message_dispatch option \<times> prio_channel) result" where
  "prio_removeFirst_loop 0 c = Inr (None, c)"
| "prio_removeFirst_loop (Suc i) c =
     (if \<not> isEmpty_list (channels c ! i) then
        bind_result (removeAtFront (channels c ! i)) (\<lambda>(m, l).
          Inr (Some m, c\<lparr>enqueued := enqueued c - 1, channels := (channels c)[i := l]\<rparr>))
      else prio_removeFirst_loop i c)"

definition prio_removeFirst :: "prio_channel \<Rightarrow> (message_dispatch option \<times> prio_channel) result" where
  "prio_removeFirst c =
     (if enqueued c > 0 then prio_removeFirst_loop MAX_PRIORITIES c else Inr (None, c))"

fun prio_getFirst_loop :: "nat \<Rightarrow> prio_channel \<Rightarrow> message_dispatch option result" where
  "prio_getFirst_loop 0 c = Inr None"
| "prio_getFirst_loop (Suc i) c =
     (if \<not> isEmpty_list (channels c ! i)
      then bind_result (getFirst (channels c ! i)) (\<lambda>m. Inr (Some m))
      else prio_getFirst_loop i c)"

definition prio_getFirst :: "prio_channel \<Rightarrow> message_dispatch option result" where
  "prio_getFirst c = (if enqueued c > 0 then prio_getFirst_loop MAX_PRIORITIES c else Inr None)"

definition prio_dequeueNoWait :: "prio_channel \<Rightarrow> (message_dispatch option \<times> prio_channel) result" where
  "prio_dequeueNoWait c =
     (if prio_closed c \<or> \<not> prio_running c \<or> prio_isEmpty c then Inr (None, c)
      else prio_removeFirst c)"

fun prio_await :: "int \<Rightarrow> prio_channel \<Rightarrow> prio_channel list \<Rightarrow> prio_channel waiting" where
  "prio_await timeout c wakes =
     (if timeout \<noteq> 0 \<and> \<not> prio_closed c \<and> (prio_isEmpty c \<or> \<not> prio_running c) then
        (case wakes of
           [] \<Rightarrow> Waiting
         | c' # wakes' \<Rightarrow> if timeout = - 1 then prio_await timeout c' wakes' else Returned c')
      else Returned c)"

definition prio_dequeue ::
  "int \<Rightarrow> prio_channel \<Rightarrow> prio_channel list \<Rightarrow>
   (message_dispatch option \<times> prio_channel) result waiting" where
  "prio_dequeue timeout c wakes =
     (case prio_await timeout c wakes of
        Waiting \<Rightarrow> Waiting
      | Returned c' \<Rightarrow> Returned
          (if prio_closed c' \<or> \<not> prio_running c' \<or> prio_isEmpty c' then Inr (None, c')
           else prio_removeFirst c'))"

definition prio_peek :: "prio_channel \<Rightarrow> message_dispatch option result" where
  "prio_peek c =
     (if prio_closed c \<or> \<not> prio_running c \<or> prio_isEmpty c then Inr None else prio_getFirst c)"

definition prio_start :: "prio_channel \<Rightarrow> prio_channel" where
  "prio_start c = (if \<not> prio_closed c then c\<lparr>prio_running := True\<rparr> else c)"

definition prio_stop :: "prio_channel \<Rightarrow> prio_channel" where
  "prio_stop c = c\<lparr>prio_running := False\<rparr>"

definition prio_close :: "prio_channel \<Rightarrow> prio_channel" where
  "prio_close c = (if \<not> prio_closed c then c\<lparr>prio_running := False, prio_closed := True\<rparr> else c)"

text \<open>
  \<open>clear\<close> empties the ten lists and leaves \<open>enqueued\<close> as it is, as the source does.
\<close>

fun prio_clear_loop :: "nat \<Rightarrow> nat \<Rightarrow> prio_channel \<Rightarrow> prio_channel option" where
  "prio_clear_loop 0 i c = Some c"
| "prio_clear_loop (Suc n) i c =
     (case clear_list (channels c ! i) of None \<Rightarrow> None
      | Some l \<Rightarrow> prio_clear_loop n (Suc i) (c\<lparr>channels := (channels c)[i := l]\<rparr>))"

definition prio_clear :: "prio_channel \<Rightarrow> prio_channel option" where
  "prio_clear c = prio_clear_loop MAX_PRIORITIES 0 c"

definition prio_size :: "prio_channel \<Rightarrow> int" where
  "prio_size c = enqueued c"

fun prio_removeAll_loop ::
  "nat \<Rightarrow> message_dispatch list \<Rightarrow> prio_channel \<Rightarrow> (message_dispatch list \<times> prio_channel) option" where
  "prio_removeAll_loop 0 acc c = Some (acc, c)"
| "prio_removeAll_loop (Suc i) acc c =
     (case toArray (channels c ! i) of None \<Rightarrow> None
      | Some temp \<Rightarrow>
          (case clear_list (channels c ! i) of None \<Rightarrow> None
           | Some l \<Rightarrow> prio_removeAll_loop i (acc @ temp)
               (c\<lparr>enqueued := enqueued c - int (length temp), channels := (channels c)[i := l]\<rparr>)))"

definition prio_removeAll :: "prio_channel \<Rightarrow> (message_dispatch list \<times> prio_channel) option" where
  "prio_removeAll c = prio_removeAll_loop MAX_PRIORITIES [] c"

declare fifo_await.simps [simp del] prio_await.simps [simp del]

section \<open>The FIFO channel meets the contract\<close>

definition fifo_rep :: "'m fifo_channel \<Rightarrow> 'm list \<Rightarrow> bool" where
  "fifo_rep c xs = represents (channel c) xs"

definition fifo_place :: "'m \<Rightarrow> 'm list \<Rightarrow> 'm list" where
  "fifo_place m xs = xs @ [m]"

lemmas fifo_defs = new_Fifo_def fifo_enqueue_def fifo_enqueueFirst_def fifo_isEmpty_def
  fifo_dequeueNoWait_def fifo_peek_def fifo_start_def fifo_stop_def fifo_close_def fifo_size_def

lemma isEmpty_represents: "represents l xs \<Longrightarrow> isEmpty_list l \<longleftrightarrow> xs = []"
  using ll.count_rep [of l xs] by (simp add: isEmpty_list_def)

lemma fifo_dequeueNoWait_ready:
  assumes "fifo_rep c (x # xs)" and "fifo_running c" and "\<not> fifo_closed c"
  shows "\<exists>c'. fifo_dequeueNoWait c = Inr (Some x, c') \<and> fifo_rep c' xs \<and>
             fifo_running c' = fifo_running c \<and> fifo_closed c' = fifo_closed c"
proof -
  obtain l where "removeAtFront (channel c) = Inr (x, l)" "represents l xs"
    using ll.pop_front_Cons [of "channel c" x xs] assms(1) by (auto simp: fifo_rep_def)
  then show ?thesis
    using assms isEmpty_represents [of "channel c"] by (auto simp: fifo_dequeueNoWait_def fifo_rep_def)
qed

lemma fifo_removeAll_rep:
  assumes "fifo_rep c xs"
  shows "\<exists>c'. fifo_removeAll c = Some (xs, c') \<and> fifo_rep c' [] \<and>
           fifo_running c' = fifo_running c \<and> fifo_closed c' = fifo_closed c"
  using ll.elements_rep [of "channel c" xs] ll.clear_all_rep [of "channel c" xs] assms
  by (auto simp: fifo_removeAll_def fifo_rep_def)

interpretation fifo: message_channel fifo_rep fifo_place Cons new_Fifo fifo_enqueue fifo_enqueueFirst
  fifo_dequeueNoWait fifo_peek fifo_start fifo_stop fifo_close fifo_removeAll fifo_size
  fifo_running fifo_closed
proof unfold_locales
  show "fifo_rep new_Fifo []" by (simp add: fifo_rep_def new_Fifo_def ll.rep_new)
  show "\<not> fifo_running new_Fifo" "\<not> fifo_closed new_Fifo" by (simp_all add: new_Fifo_def)
next
  fix c :: "'m fifo_channel" and xs m
  assume r: "fifo_rep c xs"
  show "fifo_rep (fifo_enqueue m c) (fifo_place m xs)"
    using r by (simp add: fifo_rep_def fifo_enqueue_def fifo_place_def ll.rep_push_back)
  show "fifo_rep (fifo_enqueueFirst m c) (m # xs)"
    using r by (simp add: fifo_rep_def fifo_enqueueFirst_def ll.rep_push_front)
  show "fifo_rep (fifo_start c) xs" "fifo_rep (fifo_stop c) xs" "fifo_rep (fifo_close c) xs"
    using r by (simp_all add: fifo_rep_def fifo_defs)
  show "\<exists>c'. fifo_removeAll c = Some (xs, c') \<and> fifo_rep c' [] \<and>
           fifo_running c' = fifo_running c \<and> fifo_closed c' = fifo_closed c" by (rule fifo_removeAll_rep [OF r])
  show "fifo_size c = int (length xs)" using r by (simp add: fifo_size_def fifo_rep_def ll.count_rep)
  show "fifo_closed c \<or> \<not> fifo_running c \<or> xs = [] \<Longrightarrow> fifo_dequeueNoWait c = Inr (None, c)"
    using r isEmpty_represents by (auto simp: fifo_rep_def fifo_dequeueNoWait_def)
next
  fix c :: "'m fifo_channel" and x xs
  assume r: "fifo_rep c (x # xs)" "fifo_running c" "\<not> fifo_closed c"
  show "\<exists>c'. fifo_dequeueNoWait c = Inr (Some x, c') \<and> fifo_rep c' xs \<and>
             fifo_running c' = fifo_running c \<and> fifo_closed c' = fifo_closed c"
    by (rule fifo_dequeueNoWait_ready [OF r])
  show "fifo_peek c = Inr (Some x)"
    using r isEmpty_represents [of "channel c"] ll.front_Cons [of "channel c" x xs]
    by (simp add: fifo_peek_def fifo_rep_def)
qed (simp_all add: fifo_defs fifo_place_def)

section \<open>The priority channel meets the contract\<close>

text \<open>
  The channel represents the concatenation of its lists, highest priority first; every message
  is in the list of its own level and \<open>enqueued\<close> counts them all.
\<close>

definition prio_lists :: "prio_channel \<Rightarrow> message_dispatch list list \<Rightarrow> bool" where
  "prio_lists c ls \<longleftrightarrow> length ls = MAX_PRIORITIES \<and> list_all2 represents (channels c) ls \<and>
     (\<forall>i < MAX_PRIORITIES. \<forall>m \<in> set (ls ! i). getChannel m = i)"

definition prio_rep :: "prio_channel \<Rightarrow> message_dispatch list \<Rightarrow> bool" where
  "prio_rep c xs \<longleftrightarrow> (\<exists>ls. prio_lists c ls \<and> xs = concat (rev ls) \<and> enqueued c = int (length xs))"

definition prio_place :: "message_dispatch \<Rightarrow> message_dispatch list \<Rightarrow> message_dispatch list" where
  "prio_place m xs =
     takeWhile (\<lambda>x. getChannel m \<le> getChannel x) xs @ m #
     dropWhile (\<lambda>x. getChannel m \<le> getChannel x) xs"

definition prio_place_first :: "message_dispatch \<Rightarrow> message_dispatch list \<Rightarrow> message_dispatch list" where
  "prio_place_first m xs =
     takeWhile (\<lambda>x. getChannel m < getChannel x) xs @ m #
     dropWhile (\<lambda>x. getChannel m < getChannel x) xs"

lemma mset_prio_place:
  "mset (prio_place m xs) = add_mset m (mset xs)"
  "mset (prio_place_first m xs) = add_mset m (mset xs)"
  unfolding prio_place_def prio_place_first_def
  by (metis mset_append mset.simps(2) takeWhile_dropWhile_id union_mset_add_mset_right)+

lemma getChannel_less: "getChannel m < MAX_PRIORITIES"
  by (auto simp: getChannel_def MAX_PRIORITIES_def DEFAULT_MSG_PRIORITY_def split: option.splits)

lemma prio_lists_nth:
  "prio_lists c ls \<Longrightarrow> i < MAX_PRIORITIES \<Longrightarrow> represents (channels c ! i) (ls ! i)"
  "prio_lists c ls \<Longrightarrow> length (channels c) = MAX_PRIORITIES"
  by (auto simp: prio_lists_def list_all2_conv_all_nth)

lemma prio_lists_update:
  assumes "prio_lists c ls" and "i < MAX_PRIORITIES" and "represents l xs"
    and "\<forall>m \<in> set xs. getChannel m = i" and "channels c' = (channels c)[i := l]"
  shows "prio_lists c' (ls[i := xs])"
  using assms by (auto simp: prio_lists_def nth_list_update intro: list_all2_update_cong)

lemma concat_rev_split:
  assumes "prio_lists c ls" and "i < MAX_PRIORITIES"
  shows "\<exists>hi lo. \<forall>l. concat (rev (ls[i := l])) = hi @ l @ lo \<and>
           (\<forall>m \<in> set hi. i < getChannel m) \<and> (\<forall>m \<in> set lo. getChannel m < i)"
proof -
  have len: "length ls = MAX_PRIORITIES" using assms(1) by (simp add: prio_lists_def)
  let ?hi = "concat (rev (drop (Suc i) ls))" and ?lo = "concat (rev (take i ls))"
  have "concat (rev (ls[i := l])) = ?hi @ l @ ?lo" for l
    using assms(2) len by (simp add: upd_conv_take_nth_drop)
  moreover have "\<forall>m \<in> set ?hi. i < getChannel m"
  proof
    fix m assume "m \<in> set ?hi"
    then obtain l where "l \<in> set (drop (Suc i) ls)" "m \<in> set l" by auto
    then obtain k where "k < length (drop (Suc i) ls)" "m \<in> set (drop (Suc i) ls ! k)"
      by (metis in_set_conv_nth)
    moreover from this have "Suc (i + k) < MAX_PRIORITIES" using len by simp
    ultimately have "getChannel m = Suc (i + k)" using assms(1) by (simp add: prio_lists_def)
    then show "i < getChannel m" by simp
  qed
  moreover have "\<forall>m \<in> set ?lo. getChannel m < i"
  proof
    fix m assume "m \<in> set ?lo"
    then obtain l where "l \<in> set (take i ls)" "m \<in> set l" by auto
    then obtain k where "k < length (take i ls)" "m \<in> set (take i ls ! k)"
      by (metis in_set_conv_nth)
    moreover from this have "k < i" "k < MAX_PRIORITIES" using assms(2) by auto
    ultimately show "getChannel m < i" using assms(1) by (simp add: prio_lists_def)
  qed
  ultimately show ?thesis by blast
qed

lemma place_cut:
  assumes "\<forall>x \<in> set us. P x" and "\<forall>x \<in> set vs. \<not> P x"
  shows "takeWhile P (us @ vs) @ m # dropWhile P (us @ vs) = us @ m # vs"
  using assms by (induction us) (cases vs; auto)+

lemma prio_enqueue_rep:
  assumes "prio_rep c xs"
  shows "prio_rep (prio_enqueue m c) (prio_place m xs)"
proof -
  obtain i where i: "getChannel m = i" "i < MAX_PRIORITIES" using getChannel_less by blast
  obtain ls where ls: "prio_lists c ls" "xs = concat (rev ls)" "enqueued c = int (length xs)"
    using assms by (auto simp: prio_rep_def)
  obtain hi lo where cut: "\<And>l. concat (rev (ls[i := l])) = hi @ l @ lo"
    "\<forall>x \<in> set hi. i < getChannel x" "\<forall>x \<in> set lo. getChannel x < i"
    using concat_rev_split [OF ls(1) i(2)] by blast
  have mid: "\<forall>x \<in> set (ls ! i). getChannel x = i"
    using ls(1) i(2) by (simp add: prio_lists_def)
  have xs: "xs = (hi @ ls ! i) @ lo" using ls(2) cut(1) [of "ls ! i"] by simp
  have pl: "prio_place m xs = (hi @ ls ! i) @ m # lo"
    unfolding prio_place_def xs i(1) by (rule place_cut) (use cut(2,3) mid in auto)
  let ?ls' = "ls[i := ls ! i @ [m]]"
  have "prio_lists (prio_enqueue m c) ?ls'"
  proof (rule prio_lists_update [OF ls(1) i(2)])
    show "represents (addToEnd m (channels c ! i)) (ls ! i @ [m])"
      by (rule ll.rep_push_back [OF prio_lists_nth(1) [OF ls(1) i(2)]])
    show "channels (prio_enqueue m c) = (channels c)[i := addToEnd m (channels c ! i)]"
      by (simp add: prio_enqueue_def Let_def i(1))
  qed (use mid i(1) in auto)
  moreover have "concat (rev ?ls') = prio_place m xs" using cut(1) pl by simp
  moreover have "enqueued (prio_enqueue m c) = int (length (prio_place m xs))"
    using ls(3) pl xs by (simp add: prio_enqueue_def Let_def)
  ultimately show ?thesis by (metis prio_rep_def)
qed

lemma prio_enqueueFirst_rep:
  assumes "prio_rep c xs"
  shows "prio_rep (prio_enqueueFirst m c) (prio_place_first m xs)"
proof -
  obtain i where i: "getChannel m = i" "i < MAX_PRIORITIES" using getChannel_less by blast
  obtain ls where ls: "prio_lists c ls" "xs = concat (rev ls)" "enqueued c = int (length xs)"
    using assms by (auto simp: prio_rep_def)
  obtain hi lo where cut: "\<And>l. concat (rev (ls[i := l])) = hi @ l @ lo"
    "\<forall>x \<in> set hi. i < getChannel x" "\<forall>x \<in> set lo. getChannel x < i"
    using concat_rev_split [OF ls(1) i(2)] by blast
  have mid: "\<forall>x \<in> set (ls ! i). getChannel x = i"
    using ls(1) i(2) by (simp add: prio_lists_def)
  have xs: "xs = hi @ ls ! i @ lo" using ls(2) cut(1) [of "ls ! i"] by simp
  have pl: "prio_place_first m xs = hi @ m # ls ! i @ lo"
    unfolding prio_place_first_def xs i(1) by (rule place_cut) (use cut(2,3) mid in auto)
  let ?ls' = "ls[i := m # ls ! i]"
  have "prio_lists (prio_enqueueFirst m c) ?ls'"
  proof (rule prio_lists_update [OF ls(1) i(2)])
    show "represents (addToFront m (channels c ! i)) (m # ls ! i)"
      by (rule ll.rep_push_front [OF prio_lists_nth(1) [OF ls(1) i(2)]])
    show "channels (prio_enqueueFirst m c) = (channels c)[i := addToFront m (channels c ! i)]"
      by (simp add: prio_enqueueFirst_def Let_def i(1))
  qed (use mid i(1) in auto)
  moreover have "concat (rev ?ls') = prio_place_first m xs" using cut(1) pl by simp
  moreover have "enqueued (prio_enqueueFirst m c) = int (length (prio_place_first m xs))"
    using ls(3) pl xs by (simp add: prio_enqueueFirst_def Let_def)
  ultimately show ?thesis by (metis prio_rep_def)
qed

lemma take_Suc_concat_rev:
  "n < length ls \<Longrightarrow> concat (rev (take (Suc n) ls)) = ls ! n @ concat (rev (take n ls))"
  by (simp add: take_Suc_conv_app_nth)

lemma prio_removeFirst_loop_rep:
  assumes "prio_lists c ls" and "n \<le> MAX_PRIORITIES" and "concat (rev (take n ls)) = x # xs"
  shows "\<exists>c' ls'. prio_removeFirst_loop n c = Inr (Some x, c') \<and> prio_lists c' ls' \<and>
           concat (rev (take n ls')) = xs \<and> drop n ls' = drop n ls \<and> enqueued c' = enqueued c - 1 \<and>
           prio_running c' = prio_running c \<and> prio_closed c' = prio_closed c"
  using assms(2,3)
proof (induction n)
  case 0
  then show ?case by simp
next
  case (Suc n)
  have n: "n < MAX_PRIORITIES" "n < length ls" "n < length (channels c)"
    using Suc.prems(1) assms(1) prio_lists_nth(2) [OF assms(1)] by (auto simp: prio_lists_def)
  note r = prio_lists_nth(1) [OF assms(1) n(1)]
  show ?case
  proof (cases "ls ! n")
    case Nil
    then have "concat (rev (take n ls)) = x # xs"
      using Suc.prems(2) take_Suc_concat_rev [OF n(2)] by simp
    with Suc.IH n obtain c' ls' where IH: "prio_removeFirst_loop n c = Inr (Some x, c')"
      "prio_lists c' ls'" "concat (rev (take n ls')) = xs" "drop n ls' = drop n ls"
      "enqueued c' = enqueued c - 1" "prio_running c' = prio_running c"
      "prio_closed c' = prio_closed c" by auto
    have n': "n < length ls'" using IH(2) n(1) by (simp add: prio_lists_def)
    have "ls' ! n = []" "drop (Suc n) ls' = drop (Suc n) ls"
      using IH(4) Nil n(2) n' by (metis hd_drop_conv_nth, metis drop_Suc tl_drop)
    moreover have "isEmpty_list (channels c ! n)" using isEmpty_represents [OF r] Nil by simp
    ultimately show ?thesis using IH take_Suc_concat_rev [OF n'] by auto
  next
    case (Cons y ys)
    then have "x = y" "xs = ys @ concat (rev (take n ls))"
      using Suc.prems(2) take_Suc_concat_rev [OF n(2)] by simp_all
    moreover obtain l where l: "removeAtFront (channels c ! n) = Inr (y, l)" "represents l ys"
      using ll.pop_front_Cons [of "channels c ! n" y ys] r Cons by auto
    moreover have "\<not> isEmpty_list (channels c ! n)" using isEmpty_represents [OF r] Cons by simp
    moreover have "prio_lists (c\<lparr>enqueued := enqueued c - 1, channels := (channels c)[n := l]\<rparr>)
        (ls[n := ys])"
      using assms(1) n(1) Cons l(2)
      by (intro prio_lists_update [OF assms(1) n(1) l(2)]) (auto simp: prio_lists_def)
    moreover have "concat (rev (take (Suc n) (ls[n := ys]))) = ys @ concat (rev (take n ls))"
      using take_Suc_concat_rev [of n "ls[n := ys]"] n(2) by simp
    moreover have "drop (Suc n) (ls[n := ys]) = drop (Suc n) ls" by simp
    ultimately show ?thesis by force
  qed
qed

lemma prio_getFirst_loop_rep:
  assumes "prio_lists c ls" and "n \<le> MAX_PRIORITIES" and "concat (rev (take n ls)) = x # xs"
  shows "prio_getFirst_loop n c = Inr (Some x)"
  using assms(2,3)
proof (induction n)
  case (Suc n)
  have n: "n < MAX_PRIORITIES" "n < length ls" using Suc.prems(1) assms(1) by (auto simp: prio_lists_def)
  note r = prio_lists_nth(1) [OF assms(1) n(1)]
  show ?case
    using Suc n take_Suc_concat_rev [OF n(2)] isEmpty_represents [OF r] r
    by (cases "ls ! n") (auto dest: ll.front_Cons)
qed simp

lemma prio_removeFirst_loop_empty:
  assumes "list_all isEmpty_list (take n (channels c))" and "n \<le> length (channels c)"
  shows "prio_removeFirst_loop n c = Inr (None, c)"
  using assms by (induction n) (auto simp: take_Suc_conv_app_nth)

lemma prio_dequeueNoWait_ready:
  assumes "prio_rep c (x # xs)" and "prio_running c" and "\<not> prio_closed c"
  shows "\<exists>c'. prio_dequeueNoWait c = Inr (Some x, c') \<and> prio_rep c' xs \<and>
             prio_running c' = prio_running c \<and> prio_closed c' = prio_closed c"
proof -
  obtain ls where ls: "prio_lists c ls" "x # xs = concat (rev ls)" "enqueued c = int (length (x # xs))"
    using assms(1) unfolding prio_rep_def by blast
  then have "concat (rev (take MAX_PRIORITIES ls)) = x # xs" by (simp add: prio_lists_def)
  from prio_removeFirst_loop_rep [OF ls(1) order.refl this] obtain c' ls' where
    "prio_removeFirst_loop MAX_PRIORITIES c = Inr (Some x, c')" "prio_lists c' ls'"
    "concat (rev (take MAX_PRIORITIES ls')) = xs" "enqueued c' = enqueued c - 1"
    "prio_running c' = prio_running c" "prio_closed c' = prio_closed c"
    by blast
  moreover from this have "prio_rep c' xs"
    using ls(3) by (auto simp: prio_rep_def prio_lists_def)
  moreover have "prio_dequeueNoWait c = prio_removeFirst_loop MAX_PRIORITIES c"
    using ls(3) assms(2,3)
    by (simp add: prio_dequeueNoWait_def prio_isEmpty_def prio_removeFirst_def)
  ultimately show ?thesis by simp
qed

lemma prio_removeAll_loop_rep:
  assumes "n \<le> MAX_PRIORITIES"
  shows "prio_lists c ls \<Longrightarrow>
    \<exists>c' ls'. prio_removeAll_loop n acc c = Some (acc @ concat (rev (take n ls)), c') \<and>
       prio_lists c' ls' \<and> concat (rev (take n ls')) = [] \<and> drop n ls' = drop n ls \<and>
       enqueued c' = enqueued c - int (length (concat (rev (take n ls)))) \<and>
       prio_running c' = prio_running c \<and> prio_closed c' = prio_closed c"
  using assms
proof (induction n arbitrary: c ls acc)
  case 0
  then show ?case by auto
next
  case (Suc n)
  have n: "n < MAX_PRIORITIES" "n < length ls" using Suc.prems by (auto simp: prio_lists_def)
  note r = prio_lists_nth(1) [OF Suc.prems(1) n(1)]
  obtain l where l: "clear_list (channels c ! n) = Some l" "represents l []"
    using ll.clear_all_rep [OF r] by blast
  let ?c1 = "c\<lparr>enqueued := enqueued c - int (length (ls ! n)), channels := (channels c)[n := l]\<rparr>"
  have "prio_lists ?c1 (ls[n := []])"
    by (rule prio_lists_update [OF Suc.prems(1) n(1) l(2)]) simp_all
  from Suc.IH [OF this, of "acc @ ls ! n"] n obtain c' ls' where IH:
    "prio_removeAll_loop n (acc @ ls ! n) ?c1 = Some ((acc @ ls ! n) @ concat (rev (take n ls)), c')"
    "prio_lists c' ls'" "concat (rev (take n ls')) = []" "drop n ls' = drop n (ls[n := []])"
    "enqueued c' = enqueued ?c1 - int (length (concat (rev (take n ls))))"
    "prio_running c' = prio_running ?c1" "prio_closed c' = prio_closed ?c1"
    by auto
  have n': "n < length ls'" using IH(2) n(1) by (simp add: prio_lists_def)
  have "ls' ! n = []"
    using IH(4) n(2) n' by (metis hd_drop_conv_nth length_list_update nth_list_update_eq)
  moreover have "drop (Suc n) ls' = drop (Suc n) (ls[n := []])"
    using IH(4) by (metis drop_Suc tl_drop)
  ultimately show ?case
    using IH l ll.elements_rep [OF r] take_Suc_concat_rev [OF n'] take_Suc_concat_rev [OF n(2)]
    by (intro exI [of _ c'] exI [of _ ls']) auto
qed

lemma prio_removeAll_rep:
  assumes "prio_rep c xs"
  shows "\<exists>c'. prio_removeAll c = Some (xs, c') \<and> prio_rep c' [] \<and>
           prio_running c' = prio_running c \<and> prio_closed c' = prio_closed c"
proof -
  obtain ls where ls: "prio_lists c ls" "xs = concat (rev ls)" "enqueued c = int (length xs)"
    using assms by (auto simp: prio_rep_def)
  from prio_removeAll_loop_rep [OF order.refl ls(1), of "[]"] obtain c' ls' where
    "prio_removeAll c = Some (concat (rev ls), c')" "prio_lists c' ls'" "concat (rev ls') = []"
    "enqueued c' = enqueued c - int (length (concat (rev ls)))"
    "prio_running c' = prio_running c" "prio_closed c' = prio_closed c"
    using ls(1) by (auto simp: prio_removeAll_def prio_lists_def)
  with ls show ?thesis by (auto simp: prio_rep_def)
qed

lemma prio_new_lists: "prio_lists new_Prio (replicate MAX_PRIORITIES [])"
  by (auto simp: prio_lists_def new_Prio_def list_all2_conv_all_nth ll.rep_new)

lemmas prio_flag_defs = prio_enqueue_def prio_enqueueFirst_def prio_start_def prio_stop_def
  prio_close_def Let_def

interpretation prio: message_channel prio_rep prio_place prio_place_first new_Prio prio_enqueue
  prio_enqueueFirst prio_dequeueNoWait prio_peek prio_start prio_stop prio_close prio_removeAll
  prio_size prio_running prio_closed
proof unfold_locales
  show "prio_rep new_Prio []"
    using prio_new_lists by (auto simp: prio_rep_def new_Prio_def intro!: exI)
  show "\<not> prio_running new_Prio" "\<not> prio_closed new_Prio" by (simp_all add: new_Prio_def)
next
  fix c xs m
  assume r: "prio_rep c xs"
  show "prio_rep (prio_enqueue m c) (prio_place m xs)" by (rule prio_enqueue_rep [OF r])
  show "prio_rep (prio_enqueueFirst m c) (prio_place_first m xs)" by (rule prio_enqueueFirst_rep [OF r])
  show "prio_rep (prio_start c) xs" "prio_rep (prio_stop c) xs" "prio_rep (prio_close c) xs"
    using r by (simp_all add: prio_rep_def prio_lists_def prio_flag_defs)
  show "\<exists>c'. prio_removeAll c = Some (xs, c') \<and> prio_rep c' [] \<and>
           prio_running c' = prio_running c \<and> prio_closed c' = prio_closed c" by (rule prio_removeAll_rep [OF r])
  show "prio_size c = int (length xs)" using r by (auto simp: prio_size_def prio_rep_def)
  show "prio_closed c \<or> \<not> prio_running c \<or> xs = [] \<Longrightarrow> prio_dequeueNoWait c = Inr (None, c)"
    using r by (auto simp: prio_rep_def prio_dequeueNoWait_def prio_isEmpty_def)
next
  fix c x xs
  assume r: "prio_rep c (x # xs)" "prio_running c" "\<not> prio_closed c"
  show "\<exists>c'. prio_dequeueNoWait c = Inr (Some x, c') \<and> prio_rep c' xs \<and>
             prio_running c' = prio_running c \<and> prio_closed c' = prio_closed c"
    by (rule prio_dequeueNoWait_ready [OF r])
  obtain ls where ls: "prio_lists c ls" "x # xs = concat (rev ls)" "enqueued c = int (length (x # xs))"
    using r(1) unfolding prio_rep_def by blast
  have "enqueued c > 0" using ls(3) by simp
  moreover from ls(1,2) have "prio_getFirst_loop MAX_PRIORITIES c = Inr (Some x)"
    by (intro prio_getFirst_loop_rep [of c ls _ x xs]) (simp_all add: prio_lists_def)
  ultimately show "prio_peek c = Inr (Some x)"
    using r(2,3) by (simp add: prio_peek_def prio_isEmpty_def prio_getFirst_def)
qed (simp_all add: prio_flag_defs mset_prio_place)

section \<open>Properties\<close>

definition fifo_ops :: "('m, 'm fifo_channel) channel_ops" where
  "fifo_ops = \<lparr>op_enqueue = fifo_enqueue, op_enqueueFirst = fifo_enqueueFirst,
     op_dequeueNoWait = fifo_dequeueNoWait, op_start = fifo_start, op_stop = fifo_stop,
     op_close = fifo_close, op_removeAll = fifo_removeAll\<rparr>"

definition prio_ops :: "(message_dispatch, prio_channel) channel_ops" where
  "prio_ops = \<lparr>op_enqueue = prio_enqueue, op_enqueueFirst = prio_enqueueFirst,
     op_dequeueNoWait = prio_dequeueNoWait, op_start = prio_start, op_stop = prio_stop,
     op_close = prio_close, op_removeAll = prio_removeAll\<rparr>"

text \<open>All messages level by level, first come first served within a level.\<close>

definition by_priority :: "message_dispatch list \<Rightarrow> message_dispatch list" where
  "by_priority ms = concat (map (\<lambda>i. filter (\<lambda>m. getChannel m = i) ms) (rev [0..<MAX_PRIORITIES]))"

lemma by_priority_snoc: "by_priority (ms @ [m]) = prio_place m (by_priority ms)"
proof -
  obtain i where i: "getChannel m = i" "i < MAX_PRIORITIES" using getChannel_less by blast
  let ?f = "\<lambda>ms i. filter (\<lambda>m. getChannel m = i) ms"
  let ?hi = "rev [Suc i..<MAX_PRIORITIES]" and ?lo = "rev [0..<i]"
  have idx: "rev [0..<MAX_PRIORITIES] = ?hi @ i # ?lo"
    using i(2) by (metis (no_types) append.assoc append_Cons append_Nil le0 less_imp_le_nat rev.simps
        rev_append upt_add_eq_append upt_conv_Cons le_add_diff_inverse)
  have hi: "concat (map (?f (ms @ [m])) ?hi) = concat (map (?f ms) ?hi)"
    and lo: "concat (map (?f (ms @ [m])) ?lo) = concat (map (?f ms) ?lo)"
    using i(1) by (auto intro!: arg_cong [where f = concat] map_cong)
  have "by_priority (ms @ [m]) =
      (concat (map (?f ms) ?hi) @ ?f ms i) @ m # concat (map (?f ms) ?lo)"
    unfolding by_priority_def idx using hi lo i(1) by simp
  also have "\<dots> = prio_place m ((concat (map (?f ms) ?hi) @ ?f ms i) @ concat (map (?f ms) ?lo))"
    unfolding prio_place_def i(1) by (rule place_cut [symmetric]) auto
  also have "(concat (map (?f ms) ?hi) @ ?f ms i) @ concat (map (?f ms) ?lo) = by_priority ms"
    unfolding by_priority_def idx by simp
  finally show ?thesis .
qed

lemma fold_prio_place: "fold prio_place ms [] = by_priority ms"
proof (induction ms rule: rev_induct)
  case Nil
  show ?case by (simp add: by_priority_def)
next
  case (snoc m ms)
  then show ?case by (simp add: by_priority_snoc)
qed

lemma length_by_priority: "length (by_priority ms) = length ms"
proof -
  have "mset (fold prio_place ms []) = mset ms" for ms
    by (induction ms rule: rev_induct) (simp_all add: mset_prio_place)
  then show ?thesis by (metis fold_prio_place size_mset)
qed

text \<open>
  The level that the standard gives a message: its priority, at most 9, or 4 for a dispatch without a
  message.
\<close>

definition standard_priority :: "message_dispatch \<Rightarrow> nat" where
  "standard_priority d = (case dispatchMessage d of
     None \<Rightarrow> 4 | Some m \<Rightarrow> if priority m < 10 then unat (priority m) else 9)"

lemma getChannel_standard: "getChannel d = standard_priority d"
proof (cases "dispatchMessage d")
  case (Some m)
  then show ?thesis by (auto simp: getChannel_def standard_priority_def word_less_nat_alt)
qed (simp add: getChannel_def standard_priority_def DEFAULT_MSG_PRIORITY_def)

lemma mset_by_priority: "mset (by_priority ms) = mset ms"
proof (induction ms rule: rev_induct)
  case (snoc m ms)
  then show ?case by (simp add: by_priority_snoc mset_prio_place)
qed (simp add: by_priority_def)

text \<open>A list in the order of the levels, highest first.\<close>

abbreviation in_priority_order :: "message_dispatch list \<Rightarrow> bool" where
  "in_priority_order \<equiv> sorted_wrt (\<lambda>a b. standard_priority b \<le> standard_priority a)"

lemma prio_place_first_order: "in_priority_order xs \<Longrightarrow> in_priority_order (prio_place_first m xs)"
proof (induction xs)
  case (Cons x xs)
  have "set (prio_place_first m xs) = insert m (set xs)"
    using mset_prio_place(2) [of m xs] by (metis set_mset_add_mset_insert set_mset_mset)
  then show ?case
    using Cons by (auto simp: prio_place_first_def getChannel_standard)
qed (simp add: prio_place_first_def)

lemma prio_place_first_level:
  "filter (\<lambda>x. standard_priority x = p) (prio_place_first m xs) =
    (if standard_priority m = p then [m] else []) @ filter (\<lambda>x. standard_priority x = p) xs"
  by (induction xs) (auto simp: prio_place_first_def getChannel_standard)

lemma prio_place_first_hd:
  "in_priority_order (m # xs) \<Longrightarrow> prio_place_first m xs = m # xs"
  by (cases xs) (auto simp: prio_place_first_def getChannel_standard)

lemma concat_levels:
  assumes "\<And>i m. m \<in> set (f i) \<Longrightarrow> level m = i"
  shows "sorted_wrt (\<lambda>a b. level b \<le> level a) (concat (map f (rev [0..<n])))"
    and "filter (\<lambda>m. level m = p) (concat (map f (rev [0..<n]))) = (if p < n then f p else [])"
proof (induction n)
  case (Suc n)
  case 1
  have "level b \<le> level a" if "a \<in> set (f n)" "b \<in> set (concat (map f (rev [0..<n])))" for a b
    using that assms by fastforce
  moreover have "sorted_wrt (\<lambda>a b. level b \<le> level a) (f n)"
    by (rule sorted_wrt_mono_rel [of _ "\<lambda>_ _. True"]) (auto simp: assms sorted_wrt_true)
  ultimately show ?case using Suc(1) by (simp add: sorted_wrt_append)
  case 2
  have "filter (\<lambda>m. level m = p) (f n) = (if p = n then f n else [])"
    using assms by (auto simp: filter_id_conv filter_empty_conv)
  then show ?case using Suc(2) by (auto simp: less_Suc_eq)
qed simp_all

lemma by_priority_stable:
  "sorted_wrt (\<lambda>a b. getChannel b \<le> getChannel a) (by_priority ms)"
  "filter (\<lambda>m. getChannel m = p) (by_priority ms) = filter (\<lambda>m. getChannel m = p) ms"
proof -
  let ?f = "\<lambda>i. filter (\<lambda>m. getChannel m = i) ms"
  show "sorted_wrt (\<lambda>a b. getChannel b \<le> getChannel a) (by_priority ms)"
    unfolding by_priority_def by (rule concat_levels(1)) simp
  have "filter (\<lambda>m. getChannel m = p) (concat (map ?f (rev [0..<MAX_PRIORITIES]))) = (if p < MAX_PRIORITIES then ?f p else [])"
    by (rule concat_levels(2)) simp
  moreover have "?f p = []" if "\<not> p < MAX_PRIORITIES"
    using that getChannel_less by (auto simp: filter_empty_conv)
  ultimately show "filter (\<lambda>m. getChannel m = p) (by_priority ms) = filter (\<lambda>m. getChannel m = p) ms"
    by (auto simp: by_priority_def)
qed

text \<open>
  C15. The priority channel delivers in priority order: when any messages are enqueued on a new, started
  channel and as many are dequeued without further calls, nothing fails, every message comes out once, one of a
  higher priority before all of a lower one, and those of one priority in the order of arrival. A
  priority above 9 counts as 9, and a dispatch without a message as one of priority 4.
\<close>

theorem prio_delivery_order:
  "\<exists>xs c. drain prio_dequeueNoWait (length ms) (fold prio_enqueue ms (prio_start new_Prio)) = Inr (map Some xs, c) \<and>
     prio_isEmpty c \<and> mset xs = mset ms \<and>
     sorted_wrt (\<lambda>a b. standard_priority b \<le> standard_priority a) xs \<and>
     (\<forall>p. filter (\<lambda>m. standard_priority m = p) xs = filter (\<lambda>m. standard_priority m = p) ms)"
proof -
  obtain c where "drain prio_dequeueNoWait (length ms) (fold prio_enqueue ms (prio_start new_Prio)) =
      Inr (map Some (by_priority ms), c)" "prio_rep c []"
    using prio.delivery_order [of ms] by (auto simp: fold_prio_place length_by_priority)
  moreover from this(2) have "prio_isEmpty c"
    using prio.size_rep [of c "[]"] by (auto simp: prio_isEmpty_def prio_size_def)
  ultimately show ?thesis
    using mset_by_priority by_priority_stable unfolding getChannel_standard by blast
qed

text \<open>
  C28. Nothing is lost or duplicated: whatever sequence of enqueue, enqueueFirst, dequeue, start,
  stop, close and removeAll calls is made on a new priority channel, no call fails, and the
  messages handed out together with those still pending are exactly the messages enqueued.
\<close>

theorem prio_conserves_messages:
  "\<exists>ms c xs. channel_run prio_ops calls new_Prio = Inr (ms, c) \<and> prio_rep c xs \<and>
     mset ms + mset xs = mset (enqueued_by calls)"
  using prio.run_conserves [OF prio.new_rep(1), of prio_ops calls] by (simp add: prio_ops_def)

text \<open>The same conservation law for the FIFO channel.\<close>

theorem fifo_conserves_messages:
  "\<exists>ms c xs. channel_run fifo_ops calls new_Fifo = Inr (ms, c) \<and> fifo_rep c xs \<and>
     mset ms + mset xs = mset (enqueued_by calls)"
  using fifo.run_conserves [OF fifo.new_rep(1), of fifo_ops calls] by (simp add: fifo_ops_def)

text \<open>
  C20. Both channels are interchangeable with the list channel on which the consumer is modelled: for
  every sequence of calls of enqueue, enqueueFirst, dequeueNoWait, start, stop, close and removeAll on a new channel,
  the real channel (linked lists in the store, one or ten of them) and the list channel with its discipline hand out
  the same messages, and neither fails. The calls clear, peek and the blocking dequeue are not among them.
\<close>

theorem channels_equal_list_channel:
  "(\<exists>ms c l. channel_run fifo_ops calls new_Fifo = Inr (ms, c) \<and>
      channel_run (lc_ops fifo_place Cons) calls new_lc = Inr (ms, l)) \<and>
   (\<exists>ms c l. channel_run prio_ops pcalls new_Prio = Inr (ms, c) \<and>
      channel_run (lc_ops prio_place prio_place_first) pcalls new_lc = Inr (ms, l))"
  using fifo.run_refines [OF fifo.new_sim, of fifo_ops calls]
    prio.run_refines [OF prio.new_sim, of prio_ops pcalls] by (auto simp: fifo_ops_def prio_ops_def)

text \<open>A channel state on which a blocked \<open>dequeue(-1)\<close> stops waiting.\<close>

definition prio_stop_waiting :: "prio_channel \<Rightarrow> bool" where
  "prio_stop_waiting c \<longleftrightarrow> prio_closed c \<or> (\<not> prio_isEmpty c \<and> prio_running c)"

lemma prio_await_spec:
  "prio_await (- 1) c wakes =
     (case filter prio_stop_waiting (c # wakes) of [] \<Rightarrow> Waiting | c' # _ \<Rightarrow> Returned c')"
proof (induction wakes arbitrary: c)
  case Nil
  then show ?case by (subst prio_await.simps) (auto simp: prio_stop_waiting_def)
next
  case (Cons w wakes)
  show ?case
    using Cons.IH [of w] by (subst prio_await.simps) (cases "prio_stop_waiting c"; auto simp: prio_stop_waiting_def [of c])
qed

text \<open>A state in which nothing can be handed out: open, and stopped or without messages.\<close>

definition prio_blocked :: "prio_channel \<Rightarrow> bool" where
  "prio_blocked c \<longleftrightarrow> \<not> prio_closed c \<and> (prio_running c \<longrightarrow> prio_rep c [])"

lemma prio_blocked_waits: "prio_rep c xs \<Longrightarrow> \<not> prio_stop_waiting c \<Longrightarrow> prio_blocked c"
  using prio.size_rep [of c xs] by (auto simp: prio_stop_waiting_def prio_blocked_def prio_isEmpty_def prio_size_def)

text \<open>
  C33. A consumer blocked in \<open>dequeue(-1)\<close> on a priority channel, for every sequence of states that it can
  find when it is woken, each with a correct count of messages (which every call but \<open>clear()\<close>
  keeps): it stays blocked as long as every state is open, and stopped or without messages. The first other state
  ends the wait: if it is closed, null is returned and the channel is left as it is; otherwise the channel is running,
  its first pending message is returned, and the rest stays. Nothing is thrown.
\<close>

theorem prio_dequeue_blocking:
  assumes "\<forall>c' \<in> set (c # wakes). \<exists>xs. prio_rep c' xs"
  shows "(case prio_dequeue (- 1) c wakes of
            Waiting \<Rightarrow> \<forall>c' \<in> set (c # wakes). prio_blocked c'
          | Returned (Inr (None, c')) \<Rightarrow>
              \<exists>before after. c # wakes = before @ c' # after \<and> (\<forall>b \<in> set before. prio_blocked b) \<and> prio_closed c'
          | Returned (Inr (Some m, c')) \<Rightarrow>
              \<exists>before c0 after xs. c # wakes = before @ c0 # after \<and> (\<forall>b \<in> set before. prio_blocked b) \<and>
                prio_running c0 \<and> \<not> prio_closed c0 \<and> prio_rep c0 (m # xs) \<and> prio_rep c' xs
          | Returned (Inl _) \<Rightarrow> False)"
proof (cases "filter prio_stop_waiting (c # wakes)")
  case Nil
  then have "\<forall>c' \<in> set (c # wakes). \<not> prio_stop_waiting c'"
    by (metis filter_empty_conv)
  then have "\<forall>c' \<in> set (c # wakes). prio_blocked c'"
    using assms prio_blocked_waits by blast
  with Nil show ?thesis by (simp add: prio_dequeue_def prio_await_spec)
next
  case (Cons c0 rest)
  then obtain before after where c0: "c # wakes = before @ c0 # after" "\<forall>b \<in> set before. \<not> prio_stop_waiting b" "prio_stop_waiting c0"
    by (metis filter_eq_ConsD)
  then have c0_in: "c0 \<in> set (c # wakes)" and "set before \<subseteq> set (c # wakes)" by (metis in_set_conv_decomp, metis Un_upper1 set_append)
  then have blocked: "\<forall>b \<in> set before. prio_blocked b"
    using assms c0(2) prio_blocked_waits by blast
  obtain ys where ys: "prio_rep c0 ys" using assms c0_in by blast
  have body: "prio_dequeue (- 1) c wakes = Returned (prio_dequeueNoWait c0)"
    using Cons by (simp add: prio_dequeue_def prio_await_spec prio_dequeueNoWait_def)
  show ?thesis
  proof (cases "prio_closed c0")
    case True
    then show ?thesis using prio.dequeue_blocked [OF ys] c0(1) blocked body by auto
  next
    case False
    then have "prio_running c0" "ys \<noteq> []"
      using c0(3) prio.size_rep [OF ys] by (auto simp: prio_stop_waiting_def prio_isEmpty_def prio_size_def)
    then obtain y zs where "ys = y # zs" by (cases ys) auto
    with prio.dequeue_ready [of c0 y zs] \<open>prio_running c0\<close> False ys obtain c' where
      "prio_dequeueNoWait c0 = Inr (Some y, c')" "prio_rep c' zs" by blast
    with body c0(1) blocked ys \<open>ys = y # zs\<close> \<open>prio_running c0\<close> False show ?thesis by auto
  qed
qed

theorem prio_dequeue_blocking_witness:
  "\<exists>c'. prio_dequeue (- 1) new_Prio [prio_start new_Prio, prio_enqueue nullDispatch (prio_start new_Prio)] =
     Returned (Inr (Some nullDispatch, c')) \<and> prio_rep c' []"
proof -
  let ?w = "[prio_start new_Prio, prio_enqueue nullDispatch (prio_start new_Prio)]"
  have one: "prio_rep (prio_enqueue nullDispatch (prio_start new_Prio)) [nullDispatch]"
    using prio.enqueue_rep [OF prio.start_law(1) [OF prio.new_rep(1)], of nullDispatch] by (simp add: prio_place_def)
  have reps: "\<forall>c' \<in> set (new_Prio # ?w). \<exists>xs. prio_rep c' xs"
    using prio.new_rep(1) prio.start_law(1) [OF prio.new_rep(1)] one by auto
  have flags: "prio_running (prio_enqueue nullDispatch (prio_start new_Prio))" "\<not> prio_closed (prio_enqueue nullDispatch (prio_start new_Prio))"
    by (simp_all add: prio_flag_defs new_Prio_def)
  have "prio_stop_waiting (prio_enqueue nullDispatch (prio_start new_Prio))" "\<not> prio_stop_waiting new_Prio" "\<not> prio_stop_waiting (prio_start new_Prio)"
    using flags prio.size_rep [OF one] by (auto simp: prio_stop_waiting_def prio_isEmpty_def prio_size_def prio_start_def new_Prio_def)
  then have "prio_dequeue (- 1) new_Prio ?w = Returned (prio_dequeueNoWait (prio_enqueue nullDispatch (prio_start new_Prio)))"
    by (simp add: prio_dequeue_def prio_await_spec prio_dequeueNoWait_def)
  with prio.dequeue_ready [OF one flags] obtain c' where
    c': "prio_dequeue (- 1) new_Prio ?w = Returned (Inr (Some nullDispatch, c'))" by auto
  with prio_dequeue_blocking [OF reps] obtain before c0 after xs where
    w: "new_Prio # ?w = before @ c0 # after" "prio_running c0" "prio_rep c0 (nullDispatch # xs)" "prio_rep c' xs" by auto
  have "length (nullDispatch # xs) \<le> 1"
    using w(1) prio.size_rep [OF w(3)] prio.size_rep [OF one]
      prio.size_rep [OF prio.new_rep(1)] prio.size_rep [OF prio.start_law(1) [OF prio.new_rep(1)]]
    by (auto simp: Cons_eq_append_conv)
  with c' w(4) show ?thesis by auto
qed

lemma prio_clear_loop_spec:
  assumes "length (channels c) = i + n" and "\<forall>l \<in> set (channels c). \<exists>xs. represents l xs"
    and "\<forall>k < i. represents (channels c ! k) []"
  shows "\<exists>c'. prio_clear_loop n i c = Some c' \<and> length (channels c') = i + n \<and>
     (\<forall>l \<in> set (channels c'). represents l []) \<and> enqueued c' = enqueued c \<and>
     prio_running c' = prio_running c \<and> prio_closed c' = prio_closed c"
  using assms
proof (induction n arbitrary: i c)
  case 0
  then show ?case by (auto simp: in_set_conv_nth)
next
  case (Suc n)
  have i: "i < length (channels c)" using Suc.prems(1) by simp
  then obtain xs where "represents (channels c ! i) xs" using Suc.prems(2) by (meson nth_mem)
  from ll.clear_all_rep [OF this] obtain l where
    l: "clear_list (channels c ! i) = Some l" "represents l []" by blast
  let ?c1 = "c\<lparr>channels := (channels c)[i := l]\<rparr>"
  have "\<exists>c'. prio_clear_loop n (Suc i) ?c1 = Some c' \<and> length (channels c') = Suc i + n \<and>
     (\<forall>l \<in> set (channels c'). represents l []) \<and> enqueued c' = enqueued ?c1 \<and>
     prio_running c' = prio_running ?c1 \<and> prio_closed c' = prio_closed ?c1"
  proof (rule Suc.IH)
    show "length (channels ?c1) = Suc i + n" using Suc.prems(1) by simp
    show "\<forall>l' \<in> set (channels ?c1). \<exists>xs. represents l' xs"
      using Suc.prems(2) l(2) set_update_subset_insert by fastforce
    show "\<forall>k < Suc i. represents (channels ?c1 ! k) []"
      using Suc.prems(3) l(2) i by (auto simp: nth_list_update less_Suc_eq)
  qed
  with l show ?case by auto
qed

text \<open>
  \<open>SimplePriorityMessageDispatchChannel::clear\<close> forgets to reset \<open>enqueued\<close>: after clearing a
  running, open channel that held messages, \<open>size\<close> still reports the old number, \<open>isEmpty\<close> is
  false, and a \<open>dequeue(-1)\<close>, which should block until a message arrives, returns null at once
  although the channel is not closed.
\<close>

theorem prio_clear_keeps_count:
  assumes "prio_rep c (x # xs)" and "prio_running c" and "\<not> prio_closed c"
  shows "\<exists>c'. prio_clear c = Some c' \<and> prio_size c' = int (length (x # xs)) \<and> \<not> prio_isEmpty c' \<and>
     prio_dequeue (- 1) c' wakes = Returned (Inr (None, c')) \<and> \<not> prio_closed c'"
proof -
  obtain ls where ls: "prio_lists c ls" "enqueued c = int (length (x # xs))"
    using assms(1) unfolding prio_rep_def by blast
  have "\<forall>l \<in> set (channels c). \<exists>xs. represents l xs"
    using ls(1) unfolding prio_lists_def by (metis list_all2_conv_all_nth in_set_conv_nth)
  then obtain c' where c': "prio_clear c = Some c'" "length (channels c') = MAX_PRIORITIES"
    "\<forall>l \<in> set (channels c'). represents l []" "enqueued c' = enqueued c"
    "prio_running c' = prio_running c" "prio_closed c' = prio_closed c"
    using prio_clear_loop_spec [of c 0 MAX_PRIORITIES] prio_lists_nth(2) [OF ls(1)]
    by (auto simp: prio_clear_def)
  have "list_all isEmpty_list (take MAX_PRIORITIES (channels c'))"
    using c'(2,3) isEmpty_represents by (auto simp: list_all_iff)
  from prio_removeFirst_loop_empty [OF this] have "prio_removeFirst c' = Inr (None, c')"
    using c'(2,4) ls(2) by (simp add: prio_removeFirst_def)
  then show ?thesis
    using c' ls(2) assms(2,3)
    by (auto simp: prio_size_def prio_isEmpty_def prio_dequeue_def prio_await.simps)
qed

theorem prio_clear_keeps_count_witness:
  "\<exists>c'. prio_clear (prio_enqueue nullDispatch (prio_start new_Prio))
          = Some c' \<and> prio_size c' = 1 \<and> \<not> prio_isEmpty c'"
proof -
  let ?m = nullDispatch and ?c = "prio_start new_Prio"
  have "prio_rep (prio_enqueue ?m ?c) (prio_place ?m [])"
    by (intro prio.enqueue_rep prio.start_law(1) prio.new_rep(1))
  then have r: "prio_rep (prio_enqueue ?m ?c) [?m]" by (simp add: prio_place_def)
  have "prio_running (prio_enqueue ?m ?c)" "\<not> prio_closed (prio_enqueue ?m ?c)"
    by (simp_all add: prio_flag_defs new_Prio_def)
  from prio_clear_keeps_count [OF r this, of "[]"] show ?thesis by auto
qed

end
