(* ===== verification/LongText.thy ===== *)
theory LongText
  imports Prelude "HOL-Library.Signed_Division"
begin

text \<open>
  Reading and printing 64-bit integers: \<open>Long::parseLong\<close>, \<open>Long::parse\<close> and \<open>Long::toString\<close> of
  \<open>decaf/lang/Long.cpp\<close> and \<open>Character::digit\<close> of \<open>decaf/lang/Character.cpp\<close>.  A \<open>long long\<close> is an
  integer in the signed 64-bit range; arithmetic that can leave it is wrapped explicitly.
  \<open>/\<close> and \<open>%\<close> truncate towards zero.
\<close>

section \<open>Definitions\<close>

definition LONG_MIN :: int where "LONG_MIN = - 9223372036854775808"
definition LONG_MAX :: int where "LONG_MAX = 9223372036854775807"
definition MIN_RADIX :: int where "MIN_RADIX = 2"
definition MAX_RADIX :: int where "MAX_RADIX = 36"

definition Character_digit :: "char \<Rightarrow> int \<Rightarrow> int" where
  "Character_digit c radix =
     (if radix \<ge> MIN_RADIX \<and> radix \<le> MAX_RADIX then
        let code = (of_char c :: int);
            r = (if 48 \<le> code \<and> code \<le> 57 then code - 48
                 else if 97 \<le> code \<and> code \<le> 122 then code - (97 - 10)
                 else if 65 \<le> code \<and> code \<le> 90 then code - (65 - 10)
                 else - 1)
        in if r < radix then r else - 1
      else - 1)"

fun parse_loop :: "int \<Rightarrow> int \<Rightarrow> string \<Rightarrow> int \<Rightarrow> int result" where
  "parse_loop lim radix [] res = Inr res"
| "parse_loop lim radix (c # cs) res =
     (let digit = Character_digit c radix in
      if digit = - 1 then Inl NumberFormatException
      else if lim > res then Inl NumberFormatException
      else
        let next = wrap64 (res * radix - digit) in
        if next > res then Inl NumberFormatException
        else parse_loop lim radix cs next)"

definition Long_parse :: "string \<Rightarrow> nat \<Rightarrow> int \<Rightarrow> bool \<Rightarrow> int result" where
  "Long_parse s offset radix negative =
     bind_result (parse_loop (LONG_MIN sdiv radix) radix (drop offset s) 0) (\<lambda>res.
       if \<not> negative then
         let res' = wrap64 (- res)
         in if res' < 0 then Inl NumberFormatException else Inr res'
       else Inr res)"

definition parseLong_radix :: "string \<Rightarrow> int \<Rightarrow> int result" where
  "parseLong_radix s radix =
     (if radix < MIN_RADIX \<or> radix > MAX_RADIX then Inl NumberFormatException
      else if length s = 0 then Inl NumberFormatException
      else
        let negative = (s ! 0 = CHR ''-''); i = (if negative then 1 else 0) in
        if negative \<and> i = length s then Inl NumberFormatException
        else Long_parse s i radix negative)"

definition parseLong :: "string \<Rightarrow> int result" where
  "parseLong s = parseLong_radix s 10"

lemma abs_sdiv: "0 < r \<Longrightarrow> \<bar>v sdiv r\<bar> = \<bar>v\<bar> div r" for v r :: int
  by (cases "v = 0") (simp_all add: signed_divide_int_def abs_mult abs_of_nonneg pos_imp_zdiv_nonneg_iff)

lemma abs_sdiv_less: "2 \<le> r \<Longrightarrow> v sdiv r \<noteq> 0 \<Longrightarrow> \<bar>v sdiv r\<bar> < \<bar>v\<bar>" for v r :: int
  by (cases "v = 0") (auto simp: abs_sdiv intro!: int_div_less_self)

text \<open>
  \<open>toString\<close>: the first loop counts the digits, the second writes them from the right into a
  buffer of that length.  The guard on the radix, which the code has normalised before, makes the
  loops total.
\<close>

function count_digits :: "int \<Rightarrow> int \<Rightarrow> nat \<Rightarrow> nat" where
  "count_digits v radix count =
     (if 2 \<le> radix \<and> v sdiv radix \<noteq> 0 then count_digits (v sdiv radix) radix (count + 1) else count)"
  by pat_completeness auto
termination
  by (relation "measure (\<lambda>(v, radix, count). nat \<bar>v\<bar>)") (auto dest: abs_sdiv_less)

declare count_digits.simps [simp del]

definition digit_char :: "int \<Rightarrow> char" where
  "digit_char ch = (if ch > 9 then char_of (ch - 10 + 97) else char_of (ch + 48))"

function fill_digits :: "string \<Rightarrow> nat \<Rightarrow> int \<Rightarrow> int \<Rightarrow> string" where
  "fill_digits buffer count j radix =
     (let buffer' = buffer[count - 1 := digit_char (0 - (j smod radix))]; j' = j sdiv radix
      in if 2 \<le> radix \<and> j' \<noteq> 0 then fill_digits buffer' (count - 1) j' radix else buffer')"
  by pat_completeness auto
termination
  by (relation "measure (\<lambda>(buffer, count, j, radix). nat \<bar>j\<bar>)") (auto dest: abs_sdiv_less)

declare fill_digits.simps [simp del]

definition Long_toString_radix :: "int \<Rightarrow> int \<Rightarrow> string" where
  "Long_toString_radix v radix0 =
     (let radix = (if radix0 < MIN_RADIX \<or> radix0 > MAX_RADIX then 10 else radix0) in
      if v = 0 then ''0''
      else
        let negative = v < 0;
            j = (if negative then v else - v);
            len = count_digits v radix (if negative then 2 else 1);
            buffer = fill_digits (replicate len (CHR 0x00)) len j radix
        in if negative then buffer[0 := CHR ''-''] else buffer)"

definition Long_toString :: "int \<Rightarrow> string" where
  "Long_toString v = Long_toString_radix v 10"

section \<open>Parsing computes the value exactly or fails\<close>

definition is_digits :: "int \<Rightarrow> string \<Rightarrow> bool" where
  "is_digits r cs \<longleftrightarrow> (\<forall>c\<in>set cs. Character_digit c r \<noteq> - 1)"

definition digits_value :: "int \<Rightarrow> int \<Rightarrow> string \<Rightarrow> int" where
  "digits_value r a cs = foldl (\<lambda>a c. a * r + Character_digit c r) a cs"

lemma digits_value_simps [simp]:
  "digits_value r a [] = a"
  "digits_value r a (c # cs) = digits_value r (a * r + Character_digit c r) cs"
  "digits_value r a (cs @ ds) = digits_value r (digits_value r a cs) ds"
  by (simp_all add: digits_value_def)

lemma Character_digit_range:
  "2 \<le> r \<Longrightarrow> r \<le> 36 \<Longrightarrow> Character_digit c r \<noteq> - 1 \<Longrightarrow> 0 \<le> Character_digit c r \<and> Character_digit c r < r"
  by (auto simp: Character_digit_def Let_def MIN_RADIX_def MAX_RADIX_def split: if_splits)

lemma digits_value_mono:
  "2 \<le> r \<Longrightarrow> r \<le> 36 \<Longrightarrow> is_digits r cs \<Longrightarrow> 0 \<le> a \<Longrightarrow> a \<le> digits_value r a cs"
proof (induction cs arbitrary: a)
  case (Cons c cs)
  have d: "0 \<le> Character_digit c r" using Cons.prems Character_digit_range by (simp add: is_digits_def)
  have "a * 1 \<le> a * r" using Cons.prems by (intro mult_left_mono) auto
  then have "a \<le> a * r + Character_digit c r" using d by simp
  moreover have "\<dots> \<le> digits_value r (a * r + Character_digit c r) cs"
    using Cons d by (intro Cons.IH) (auto simp: is_digits_def)
  ultimately show ?case by simp
qed simp

lemma LONG_MIN_sdiv: "2 \<le> r \<Longrightarrow> LONG_MIN sdiv r = - (9223372036854775808 div r)"
  by (simp add: LONG_MIN_def signed_divide_int_def)

lemma wrap64_below:
  assumes "9223372036854775808 < x" "x \<le> 9223372036854775808 + 36"
  shows "wrap64 (- x) > 0"
proof -
  have "wrap64 (- x) = wrap64 (18446744073709551616 - x)"
  proof -
    have "take_bit 64 (- x) = take_bit 64 (18446744073709551616 - x)"
      by (simp add: take_bit_eq_mod)
    then show ?thesis
      unfolding wrap64_def by (metis signed_take_bit_eq_iff_take_bit_eq Suc_numeral semiring_norm(2,5,8))
  qed
  also have "\<dots> = 18446744073709551616 - x" using assms by (intro wrap64_id) auto
  finally show ?thesis using assms by simp
qed

lemma parse_loop_exact:
  assumes r: "2 \<le> r" "r \<le> 36" and ds: "is_digits r cs" and a: "0 \<le> a" "a \<le> 9223372036854775808"
  shows "parse_loop (LONG_MIN sdiv r) r cs (- a) =
    (if digits_value r a cs \<le> 9223372036854775808 then Inr (- digits_value r a cs)
     else Inl NumberFormatException)"
  using ds a
proof (induction cs arbitrary: a)
  case (Cons c cs)
  let ?d = "Character_digit c r" and ?M = "9223372036854775808 :: int"
  let ?a = "a * r + ?d"
  have d: "?d \<noteq> - 1" "0 \<le> ?d" "?d < r"
    using Cons.prems(1) Character_digit_range [OF r] by (auto simp: is_digits_def)
  have cs: "is_digits r cs" using Cons.prems(1) by (simp add: is_digits_def)
  have nn: "0 \<le> ?a" using Cons.prems(2) r d by simp
  note mono = digits_value_mono [OF r cs nn]
  have M: "?M = ?M div r * r + ?M mod r" "?M mod r < r" "0 \<le> ?M mod r"
    using r by (simp_all only: div_mult_mod_eq pos_mod_bound pos_mod_sign)
  show ?case
  proof (cases "?M div r < a")
    case True
    have "?M < (?M div r + 1) * r" using M by (simp only: distrib_right mult_1)
    also have "\<dots> \<le> a * r" using True r by (intro mult_right_mono) auto
    finally have "?M < ?a" using d by simp
    then show ?thesis using True mono d LONG_MIN_sdiv [OF r(1)] by simp
  next
    case False
    then have "a * r \<le> ?M div r * r" using r by (intro mult_right_mono) auto
    also have "\<dots> \<le> ?M" using M by linarith
    finally have ar: "a * r \<le> ?M" .
    have next_eq: "- a * r - ?d = - ?a" by simp
    show ?thesis
    proof (cases "?a \<le> ?M")
      case True
      have "a * 1 \<le> a * r" using Cons.prems(2) r by (intro mult_left_mono) auto
      then have "a \<le> ?a" using d by simp
      moreover have "wrap64 (- ?a) = - ?a" using True nn by (intro wrap64_id) auto
      ultimately show ?thesis
        using False d Cons.IH [OF cs nn True] LONG_MIN_sdiv [OF r(1)] next_eq by simp
    next
      case False2: False
      then have "wrap64 (- ?a) > 0" using ar d r by (intro wrap64_below) auto
      then show ?thesis
        using False False2 d mono Cons.prems(2) LONG_MIN_sdiv [OF r(1)] next_eq by simp
    qed
  qed
qed simp

section \<open>Printing\<close>

text \<open>The reference: the digits of a non-negative number, most significant first.\<close>

function digit_str :: "int \<Rightarrow> int \<Rightarrow> string" where
  "digit_str r n =
     (if 2 \<le> r \<and> r \<le> n then digit_str r (n div r) @ [digit_char (n mod r)] else [digit_char n])"
  by pat_completeness auto
termination
  by (relation "measure (\<lambda>(r, n). nat n)") (auto intro!: int_div_less_self)

declare digit_str.simps [simp del]

lemma sdiv_nonneg: "0 < r \<Longrightarrow> 0 \<le> n \<Longrightarrow> n sdiv r = n div r" for n r :: int
  by (cases "n = 0") (simp_all add: signed_divide_int_def)

lemma smod_nonneg: "0 < r \<Longrightarrow> 0 \<le> n \<Longrightarrow> n smod r = n mod r" for n r :: int
  by (cases "n = 0") (simp_all add: signed_modulo_int_def sdiv_nonneg minus_div_mult_eq_mod)

lemma sdiv_zero_iff: "2 \<le> r \<Longrightarrow> (v sdiv r \<noteq> 0) = (r \<le> \<bar>v\<bar>)" for v r :: int
proof -
  assume "2 \<le> r"
  then have "(v sdiv r \<noteq> 0) = (\<bar>v\<bar> div r \<noteq> 0)" using abs_sdiv [of r v] by (metis abs_eq_0 less_le_trans zero_less_numeral)
  also have "\<dots> = (r \<le> \<bar>v\<bar>)" using \<open>2 \<le> r\<close> by (simp add: zdiv_eq_0_iff not_less)
  finally show ?thesis .
qed

lemma count_digits_length:
  "2 \<le> r \<Longrightarrow> count_digits v r c + 1 = c + length (digit_str r \<bar>v\<bar>)"
proof (induction v r c rule: count_digits.induct)
  case (1 v r c)
  show ?case
  proof (cases "r \<le> \<bar>v\<bar>")
    case True
    then have c: "2 \<le> r \<and> v sdiv r \<noteq> 0" using "1.prems" by (simp add: sdiv_zero_iff)
    have "\<bar>v sdiv r\<bar> = \<bar>v\<bar> div r" using "1.prems" by (simp add: abs_sdiv)
    with "1.IH" [OF c "1.prems"] c True "1.prems" show ?thesis
      by (subst count_digits.simps, subst digit_str.simps) simp
  next
    case False
    then show ?thesis
      using "1.prems" by (subst count_digits.simps, subst digit_str.simps) (simp add: sdiv_zero_iff)
  qed
qed

lemma fill_digits_str:
  assumes "2 \<le> r" "0 \<le> n" "length (digit_str r n) \<le> count" "count \<le> length buffer"
  shows "fill_digits buffer count (- n) r =
    take (count - length (digit_str r n)) buffer @ digit_str r n @ drop count buffer"
  using assms
proof (induction r n arbitrary: buffer count rule: digit_str.induct)
  case (1 r n)
  have count: "0 < count" using "1.prems"(3) by (subst (asm) digit_str.simps) (auto split: if_splits)
  let ?buf = "buffer[count - 1 := digit_char (n mod r)]"
  have step: "fill_digits buffer count (- n) r =
    (if r \<le> n then fill_digits ?buf (count - 1) (- (n div r)) r else ?buf)"
    using "1.prems" sdiv_zero_iff [of r "- n"]
    by (subst fill_digits.simps) (simp add: sdiv_nonneg smod_nonneg Let_def)
  have split: "drop (count - 1) ?buf = digit_char (n mod r) # drop count buffer"
    using count "1.prems"(4) by (simp add: Cons_nth_drop_Suc [symmetric])
  show ?case
  proof (cases "r \<le> n")
    case True
    let ?ds = "digit_str r (n div r)"
    have ds: "digit_str r n = ?ds @ [digit_char (n mod r)]" using True "1.prems" by (subst digit_str.simps) simp
    have "fill_digits ?buf (count - 1) (- (n div r)) r =
      take (count - 1 - length ?ds) ?buf @ ?ds @ drop (count - 1) ?buf"
      using True "1.prems" ds by (intro "1.IH") (auto simp: pos_imp_zdiv_nonneg_iff)
    then show ?thesis using step True split ds by simp
  next
    case False
    then have ds: "digit_str r n = [digit_char n]" and "n mod r = n"
      using "1.prems" by (subst digit_str.simps, simp_all)
    have "?buf = take (count - 1) ?buf @ drop (count - 1) ?buf" by (rule append_take_drop_id [symmetric])
    then show ?thesis using step False split ds \<open>n mod r = n\<close> by simp
  qed
qed

lemma toString_digits:
  assumes r: "2 \<le> r" "r \<le> 36"
  shows "Long_toString_radix v r = (if v < 0 then CHR ''-'' # digit_str r (- v) else digit_str r v)"
proof (cases "v = 0")
  case True
  then show ?thesis using r by (subst digit_str.simps) (simp add: Long_toString_radix_def digit_char_def char_of_def)
next
  case False
  have rad: "(if r < MIN_RADIX \<or> r > MAX_RADIX then 10 else r) = r"
    using r by (simp add: MIN_RADIX_def MAX_RADIX_def)
  let ?len = "count_digits v r (if v < 0 then 2 else 1)"
  have len: "?len = length (digit_str r \<bar>v\<bar>) + (if v < 0 then 1 else 0)"
    using count_digits_length [OF r(1), of v 2] count_digits_length [OF r(1), of v 1] by auto
  have "(if v < 0 then v else - v) = - \<bar>v\<bar>" by simp
  then have fill: "fill_digits (replicate ?len (CHR 0x00)) ?len (if v < 0 then v else - v) r =
    replicate (if v < 0 then 1 else 0) (CHR 0x00) @ digit_str r \<bar>v\<bar>"
    using fill_digits_str [OF r(1), of "\<bar>v\<bar>" ?len "replicate ?len (CHR 0x00)"] len by simp
  show ?thesis
    using False fill by (cases "v < 0") (simp_all add: Long_toString_radix_def rad Let_def)
qed

lemma digit_char_digit:
  assumes "2 \<le> r" "r \<le> 36" "0 \<le> d" "d < r"
  shows "Character_digit (digit_char d) r = d" "digit_char d \<noteq> CHR ''-''" "digit_char d \<noteq> CHR '':''"
proof -
  have code: "(of_char (digit_char d) :: int) = (if d > 9 then d - 10 + 97 else d + 48)"
  proof (cases "d > 9")
    case True
    have "(d - 10 + 97) mod 256 = d - 10 + 97" using assms by (intro mod_pos_pos_trivial) auto
    then show ?thesis using True by (simp add: digit_char_def of_char_of)
  next
    case False
    have "(d + 48) mod 256 = d + 48" using assms False by (intro mod_pos_pos_trivial) auto
    then show ?thesis using False by (simp add: digit_char_def of_char_of)
  qed
  then show "Character_digit (digit_char d) r = d"
    using assms by (simp add: Character_digit_def MIN_RADIX_def MAX_RADIX_def Let_def)
  have minus: "(of_char (CHR ''-'') :: int) = 45" and colon: "(of_char (CHR '':'') :: int) = 58" by simp_all
  show "digit_char d \<noteq> CHR ''-''" using code minus assms by (auto split: if_splits)
  show "digit_char d \<noteq> CHR '':''" using code colon assms by (auto split: if_splits)
qed

lemma digit_str_facts:
  assumes "2 \<le> r" "r \<le> 36" "0 \<le> n"
  shows "is_digits r (digit_str r n) \<and> digits_value r 0 (digit_str r n) = n \<and> digit_str r n \<noteq> [] \<and>
    CHR ''-'' \<notin> set (digit_str r n) \<and> CHR '':'' \<notin> set (digit_str r n)"
  using assms
proof (induction r n rule: digit_str.induct)
  case (1 r n)
  show ?case
  proof (cases "r \<le> n")
    case True
    have m: "0 \<le> n mod r" "n mod r < r" using "1.prems" by auto
    note d = digit_char_digit [OF "1.prems"(1,2) m]
    have IH: "is_digits r (digit_str r (n div r))" "digits_value r 0 (digit_str r (n div r)) = n div r"
      "CHR ''-'' \<notin> set (digit_str r (n div r))" "CHR '':'' \<notin> set (digit_str r (n div r))"
      using "1.IH" True "1.prems" by (auto simp: pos_imp_zdiv_nonneg_iff)
    have ds: "digit_str r n = digit_str r (n div r) @ [digit_char (n mod r)]"
      using True "1.prems" by (subst digit_str.simps) simp
    show ?thesis unfolding ds using IH d m by (auto simp: is_digits_def)
  next
    case False
    have ds: "digit_str r n = [digit_char n]" using False by (subst digit_str.simps) simp
    show ?thesis
      unfolding ds using digit_char_digit [OF "1.prems"(1,2,3)] "1.prems" False by (auto simp: is_digits_def)
  qed
qed

lemma parse_toString:
  assumes "LONG_MIN \<le> v" "v \<le> LONG_MAX" "2 \<le> r" "r \<le> 36"
  shows "parseLong_radix (Long_toString_radix v r) r = Inr v"
proof -
  let ?ds = "digit_str r \<bar>v\<bar>"
  have f: "is_digits r ?ds" "digits_value r 0 ?ds = \<bar>v\<bar>" "?ds \<noteq> []" "CHR ''-'' \<notin> set ?ds"
    using digit_str_facts [OF assms(3,4), of "\<bar>v\<bar>"] by simp_all
  have hd: "hd ?ds \<noteq> CHR ''-''" using f(3,4) hd_in_set by metis
  have loop: "parse_loop (LONG_MIN sdiv r) r ?ds 0 = Inr (- \<bar>v\<bar>)"
    using parse_loop_exact [OF assms(3,4) f(1), of 0] f(2) assms(1,2)
    by (simp add: LONG_MIN_def LONG_MAX_def abs_le_iff)
  have rad: "\<not> (r < MIN_RADIX \<or> r > MAX_RADIX)" using assms(3,4) by (simp add: MIN_RADIX_def MAX_RADIX_def)
  show ?thesis
  proof (cases "v < 0")
    case True
    then show ?thesis
      using loop rad f(3)
      by (simp add: toString_digits [OF assms(3,4)] parseLong_radix_def Long_parse_def)
  next
    case False
    then have "wrap64 v = v" using assms(1,2) by (intro wrap64_id) (simp_all add: LONG_MIN_def LONG_MAX_def)
    then show ?thesis
      using loop rad f(3) hd False
      by (simp add: toString_digits [OF assms(3,4)] parseLong_radix_def Long_parse_def hd_conv_nth)
  qed
qed

section \<open>Properties\<close>

text \<open>
  C32.  \<open>parseLong\<close> of a non-empty string of digits, with or without a minus sign, returns exactly its
  value when that value is a \<open>long long\<close> and throws \<open>NumberFormatException\<close> when it is not, in every
  radix: the checks on the running result catch every overflow.
\<close>

theorem parseLong_exact:
  assumes "2 \<le> r" "r \<le> 36" "is_digits r ds" "ds \<noteq> []" "hd ds \<noteq> CHR ''-''"
  defines "n \<equiv> digits_value r 0 ds"
  shows "parseLong_radix ds r = (if n \<le> LONG_MAX then Inr n else Inl NumberFormatException) \<and>
    parseLong_radix (CHR ''-'' # ds) r = (if LONG_MIN \<le> - n then Inr (- n) else Inl NumberFormatException)"
proof -
  have n: "0 \<le> n" unfolding n_def using digits_value_mono [OF assms(1-3), of 0] by simp
  have loop: "parse_loop (LONG_MIN sdiv r) r ds 0 =
    (if n \<le> 9223372036854775808 then Inr (- n) else Inl NumberFormatException)"
    using parse_loop_exact [OF assms(1-3), of 0] by (simp add: n_def)
  have rad: "\<not> (r < MIN_RADIX \<or> r > MAX_RADIX)" using assms(1,2) by (simp add: MIN_RADIX_def MAX_RADIX_def)
  have eq: "parseLong_radix ds r = Long_parse ds 0 r False"
    using rad assms(4,5) by (simp add: parseLong_radix_def hd_conv_nth)
  have fits: "wrap64 n = n" if "n \<le> LONG_MAX" using n that by (intro wrap64_id) (simp_all add: LONG_MAX_def)
  have edge: "wrap64 9223372036854775808 < 0" by (simp add: wrap64_def)
  consider "n \<le> LONG_MAX" | "n = 9223372036854775808" | "n > 9223372036854775808"
    unfolding LONG_MAX_def by linarith
  then have "parseLong_radix ds r = (if n \<le> LONG_MAX then Inr n else Inl NumberFormatException)"
    using eq loop n fits edge by cases (simp_all add: Long_parse_def LONG_MAX_def Let_def)
  moreover have "parseLong_radix (CHR ''-'' # ds) r = Long_parse (CHR ''-'' # ds) 1 r True"
    using rad assms(4) by (simp add: parseLong_radix_def)
  then have "parseLong_radix (CHR ''-'' # ds) r =
    (if LONG_MIN \<le> - n then Inr (- n) else Inl NumberFormatException)"
    using loop by (auto simp: Long_parse_def LONG_MIN_def)
  ultimately show ?thesis by blast
qed

theorem parseLong_exact_witness:
  "parseLong_radix ''9223372036854775807'' 10 = Inr 9223372036854775807 \<and>
   parseLong_radix ''-9223372036854775807'' 10 = Inr (- 9223372036854775807)"
proof -
  have digit: "Character_digit c 10 = (of_char c :: int) - 48" if "c \<in> set ''0123456789''" for c
    using that by (auto simp: Character_digit_def MIN_RADIX_def MAX_RADIX_def)
  have "is_digits 10 ''9223372036854775807''" by (simp add: is_digits_def digit)
  moreover have "digits_value 10 0 ''9223372036854775807'' = 9223372036854775807" by (simp add: digit)
  ultimately show ?thesis
    using parseLong_exact [of 10 "''9223372036854775807''"] by (simp add: LONG_MAX_def LONG_MIN_def)
qed

text \<open>
  Printing a \<open>long long\<close> and parsing the text gives the number back, for every value, the
  smallest one included, and every radix.
\<close>

theorem long_text_roundtrip:
  assumes "LONG_MIN \<le> v" "v \<le> LONG_MAX" "2 \<le> r" "r \<le> 36"
  shows "parseLong_radix (Long_toString_radix v r) r = Inr v"
  using assms by (rule parse_toString)

theorem long_text_roundtrip_witness:
  "parseLong_radix (Long_toString_radix (- 9223372036854775808) 16) 16 = Inr (- 9223372036854775808)"
  using long_text_roundtrip [of "- 9223372036854775808" 16] by (simp add: LONG_MIN_def LONG_MAX_def)

end
