(* ===== verification/Ids.thy ===== *)
theory Ids
  imports Commands LongText
begin

text \<open>
  Textual identities: \<open>ProducerId\<close> and \<open>MessageId\<close> parsing and printing
  (\<open>activemq/commands/ProducerId.cpp\<close>, \<open>MessageId.cpp\<close>) and the id generator of
  \<open>activemq/util/IdGenerator.cpp\<close>.  \<open>std::string::rfind\<close> and \<open>find_last_of\<close> of one character
  return the position of its last occurrence; writing a \<open>long long\<close> to a stream prints it in
  decimal.
\<close>

section \<open>Definitions\<close>

fun rfind :: "char \<Rightarrow> string \<Rightarrow> nat option" where
  "rfind c [] = None"
| "rfind c (x # xs) =
     (case rfind c xs of Some p \<Rightarrow> Some (Suc p) | None \<Rightarrow> if x = c then Some 0 else None)"

definition setProducerSessionKey :: "string \<Rightarrow> producer_id \<Rightarrow> producer_id result" where
  "setProducerSessionKey sessionKey pid =
     (case rfind (CHR '':'') sessionKey of
        None \<Rightarrow> Inr (pid\<lparr>connectionId := sessionKey\<rparr>)
      | Some p \<Rightarrow>
          bind_result (parseLong (drop (p + 1) sessionKey)) (\<lambda>s.
            Inr (pid\<lparr>sessionId := s, connectionId := take p sessionKey\<rparr>)))"

definition ProducerId_parse :: "string \<Rightarrow> producer_id result" where
  "ProducerId_parse producerKey =
     (let pid = \<lparr>connectionId = [], idValue = 0, sessionId = 0\<rparr> in
      case rfind (CHR '':'') producerKey of
        None \<Rightarrow> setProducerSessionKey producerKey pid
      | Some p \<Rightarrow>
          bind_result (parseLong (drop (p + 1) producerKey)) (\<lambda>v.
            setProducerSessionKey (take p producerKey) (pid\<lparr>idValue := v\<rparr>)))"

definition ProducerId_toString :: "producer_id \<Rightarrow> string" where
  "ProducerId_toString pid =
     connectionId pid @ '':'' @ Long_toString (sessionId pid) @ '':'' @ Long_toString (idValue pid)"

definition new_MessageId :: message_id where
  "new_MessageId = \<lparr>textView = [], producerId = None, producerSequenceId = 0, brokerSequenceId = 0, key = []\<rparr>"

definition MessageId_setValue :: "string \<Rightarrow> message_id \<Rightarrow> message_id result" where
  "MessageId_setValue k mid =
     (case rfind (CHR '':'') k of
        None \<Rightarrow>
          bind_result (ProducerId_parse k) (\<lambda>pid. Inr (mid\<lparr>producerId := Some pid, key := k\<rparr>))
      | Some p \<Rightarrow>
          bind_result (parseLong (drop (p + 1) k)) (\<lambda>s.
            bind_result (ProducerId_parse (take p k)) (\<lambda>pid.
              Inr (mid\<lparr>producerSequenceId := s, producerId := Some pid, key := take p k\<rparr>))))"

text \<open>\<open>toString\<close> caches its answer in \<open>key\<close>; a null producer id is dereferenced.\<close>

definition MessageId_toString :: "message_id \<Rightarrow> (string \<times> message_id) result" where
  "MessageId_toString mid =
     (if key mid = [] then
        if textView mid \<noteq> [] then
          let k = (if hd (textView mid) \<in> set ''ID:'' then textView mid else ''ID:'' @ textView mid)
          in Inr (k, mid\<lparr>key := k\<rparr>)
        else
          case producerId mid of
            None \<Rightarrow> Inl UndefinedBehaviour
          | Some pid \<Rightarrow>
              let k = ProducerId_toString pid @ '':'' @ Long_toString (producerSequenceId mid)
              in Inr (k, mid\<lparr>key := k\<rparr>)
      else Inr (key mid, mid))"

definition getSeedFromId :: "string \<Rightarrow> string" where
  "getSeedFromId s =
     (if s \<noteq> [] then
        case rfind (CHR '':'') s of
          Some i \<Rightarrow> if i + 1 < length s then take (i + 1) s else s
        | None \<Rightarrow> s
      else s)"

definition getSequenceFromId :: "string \<Rightarrow> int result" where
  "getSequenceFromId s =
     (if s \<noteq> [] then
        case rfind (CHR '':'') s of
          Some i \<Rightarrow> if i + 1 < length s then parseLong (drop (i + 1) s) else Inr (- 1)
        | None \<Rightarrow> Inr (- 1)
      else Inr (- 1))"

text \<open>
  The shared kernel of the generators (host name, stub and instance counter) and one generator.
\<close>

record id_kernel =
  hostname :: string
  UNIQUE_STUB :: string
  instanceCount :: int

record id_generator =
  idPrefix :: string
  idSeed :: string
  idSequence :: int

definition new_IdGenerator :: "string \<Rightarrow> id_generator" where
  "new_IdGenerator prefix = \<lparr>idPrefix = prefix, idSeed = [], idSequence = 0\<rparr>"

definition generateId :: "id_kernel \<Rightarrow> id_generator \<Rightarrow> string \<times> id_kernel \<times> id_generator" where
  "generateId k g =
     (let (k1, g1) =
        (if idSeed g = [] then
           (k\<lparr>instanceCount := wrap64 (instanceCount k + 1)\<rparr>,
            g\<lparr>idSeed :=
              (if idPrefix g = [] then ''ID:'' @ hostname k else idPrefix g) @ UNIQUE_STUB k @
              Long_toString (instanceCount k) @ '':''\<rparr>)
         else (k, g))
      in (idSeed g1 @ Long_toString (idSequence g1), k1,
          g1\<lparr>idSequence := wrap64 (idSequence g1 + 1)\<rparr>))"

fun generateIds :: "nat \<Rightarrow> id_kernel \<Rightarrow> id_generator \<Rightarrow> string list" where
  "generateIds 0 k g = []"
| "generateIds (Suc n) k g = (let (s, k', g') = generateId k g in s # generateIds n k' g')"

section \<open>Decimal text\<close>

definition is_long :: "int \<Rightarrow> bool" where
  "is_long v \<longleftrightarrow> LONG_MIN \<le> v \<and> v \<le> LONG_MAX"

lemma rfind_None: "rfind c xs = None \<longleftrightarrow> c \<notin> set xs"
  by (induction xs) (auto split: option.splits)

lemma rfind_split: "c \<notin> set ys \<Longrightarrow> rfind c (xs @ c # ys) = Some (length xs)"
  by (induction xs) (auto simp: rfind_None split: option.splits)

lemma Long_toString_facts:
  "CHR '':'' \<notin> set (Long_toString v)" "Long_toString v \<noteq> []"
  using digit_str_facts [of 10 "\<bar>v\<bar>"] by (auto simp: Long_toString_def toString_digits)

lemma Long_toString_roundtrip: "is_long v \<Longrightarrow> parseLong (Long_toString v) = Inr v"
  using parse_toString [of v 10] by (simp add: is_long_def parseLong_def Long_toString_def)

lemma Long_toString_inj: "is_long v \<Longrightarrow> is_long w \<Longrightarrow> Long_toString v = Long_toString w \<Longrightarrow> v = w"
  using Long_toString_roundtrip by (metis Inr_inject)

lemma producer_id_parse_print:
  assumes "is_long (sessionId pid)" "is_long (idValue pid)"
  shows "ProducerId_parse (ProducerId_toString pid) = Inr pid"
proof -
  let ?s = "Long_toString (sessionId pid)" and ?v = "Long_toString (idValue pid)"
  have "rfind (CHR '':'') (ProducerId_toString pid) = Some (length (connectionId pid @ '':'' @ ?s))"
    using rfind_split [OF Long_toString_facts(1), of "connectionId pid @ '':'' @ ?s" "idValue pid"]
    by (simp add: ProducerId_toString_def)
  moreover have "rfind (CHR '':'') (connectionId pid @ CHR '':'' # ?s) = Some (length (connectionId pid))"
    by (rule rfind_split [OF Long_toString_facts(1)])
  ultimately show ?thesis
    using assms
    by (simp add: ProducerId_parse_def setProducerSessionKey_def ProducerId_toString_def Long_toString_roundtrip)
qed

lemma producer_id_toString_inj:
  assumes "is_long (sessionId p)" "is_long (idValue p)" "is_long (sessionId q)" "is_long (idValue q)"
    "ProducerId_toString p = ProducerId_toString q"
  shows "p = q"
proof (rule Inr_inject)
  show "Inr p = (Inr q :: producer_id result)"
    using producer_id_parse_print [OF assms(1,2), unfolded assms(5)] producer_id_parse_print [OF assms(3,4)]
    by (rule trans [OF sym])
qed

lemma seed_and_sequence:
  assumes "is_long n" "seed = xs @ '':''"
  shows "getSeedFromId (seed @ Long_toString n) = seed"
    "getSequenceFromId (seed @ Long_toString n) = Inr n"
proof -
  have "rfind (CHR '':'') (seed @ Long_toString n) = Some (length xs)"
    using rfind_split [OF Long_toString_facts(1), of xs n] assms(2) by simp
  moreover have "0 < length (Long_toString n)" using Long_toString_facts(2) by simp
  ultimately show "getSeedFromId (seed @ Long_toString n) = seed"
    "getSequenceFromId (seed @ Long_toString n) = Inr n"
    using assms by (simp_all add: getSeedFromId_def getSequenceFromId_def Long_toString_roundtrip)
qed

lemma generateIds_seeded:
  "idSeed g \<noteq> [] \<Longrightarrow> 0 \<le> idSequence g \<Longrightarrow> idSequence g + int n \<le> LONG_MAX \<Longrightarrow>
    generateIds n k g = map (\<lambda>i. idSeed g @ Long_toString (idSequence g + int i)) [0..<n]"
proof (induction n arbitrary: k g)
  case (Suc n)
  obtain k' g' where gen: "generateId k g = (idSeed g @ Long_toString (idSequence g), k', g')"
    "idSeed g' = idSeed g" "idSequence g' = wrap64 (idSequence g + 1)"
    using Suc.prems(1) by (auto simp: generateId_def)
  have "wrap64 (idSequence g + 1) = idSequence g + 1"
    using Suc.prems by (intro wrap64_id) (simp_all add: LONG_MAX_def)
  then have "generateIds n k' g' =
    map (\<lambda>i. idSeed g @ Long_toString (idSequence g + 1 + int i)) [0..<n]"
    using Suc.IH [of g' k'] Suc.prems gen(2,3) by simp
  then show ?case
    using gen(1) by (simp add: upt_conv_Cons map_Suc_upt [symmetric] algebra_simps del: upt_Suc)
qed simp

section \<open>Properties\<close>

text \<open>
  A producer id survives printing and parsing, whatever its connection id is, colons included.
\<close>

theorem producer_id_roundtrip:
  assumes "is_long (sessionId pid)" "is_long (idValue pid)"
  shows "ProducerId_parse (ProducerId_toString pid) = Inr pid"
  using assms by (rule producer_id_parse_print)

theorem producer_id_roundtrip_witness:
  "ProducerId_parse (ProducerId_toString \<lparr>connectionId = ''ID:host:1'', idValue = 7, sessionId = - 1\<rparr>) =
    Inr \<lparr>connectionId = ''ID:host:1'', idValue = 7, sessionId = - 1\<rparr>"
  using producer_id_roundtrip [of "\<lparr>connectionId = ''ID:host:1'', idValue = 7, sessionId = - 1\<rparr>"]
  by (simp add: is_long_def LONG_MIN_def LONG_MAX_def)

text \<open>
  Setting a message id from its text finds the producer and the sequence number, but stores the
  text without the sequence number as the key: \<open>toString\<close> then returns the producer's text, the same
  for every message of the producer.
\<close>

theorem message_id_key_drops_sequence:
  assumes "is_long (sessionId pid)" "is_long (idValue pid)" "is_long n"
  shows "\<exists>mid. MessageId_setValue (ProducerId_toString pid @ '':'' @ Long_toString n) new_MessageId = Inr mid \<and>
    producerId mid = Some pid \<and> producerSequenceId mid = n \<and>
    MessageId_toString mid = Inr (ProducerId_toString pid, mid)"
proof -
  have "rfind (CHR '':'') (ProducerId_toString pid @ CHR '':'' # Long_toString n) =
    Some (length (ProducerId_toString pid))"
    by (rule rfind_split [OF Long_toString_facts(1)])
  moreover have "ProducerId_toString pid \<noteq> []" by (simp add: ProducerId_toString_def)
  ultimately show ?thesis
    using assms
    by (simp add: MessageId_setValue_def MessageId_toString_def Long_toString_roundtrip
        producer_id_parse_print new_MessageId_def)
qed

theorem message_id_key_drops_sequence_witness:
  "\<exists>mid. MessageId_setValue (ProducerId_toString \<lparr>connectionId = ''c'', idValue = 1, sessionId = 2\<rparr> @
      '':'' @ Long_toString 42) new_MessageId = Inr mid \<and> producerSequenceId mid = 42 \<and>
    MessageId_toString mid = Inr (ProducerId_toString \<lparr>connectionId = ''c'', idValue = 1, sessionId = 2\<rparr>, mid)"
  using message_id_key_drops_sequence [of "\<lparr>connectionId = ''c'', idValue = 1, sessionId = 2\<rparr>" 42]
  by (auto simp: is_long_def LONG_MIN_def LONG_MAX_def)

text \<open>
  A new generator produces pairwise distinct ids; all have the generator's seed, and the
  \<open>i\<close>-th has the sequence number \<open>i\<close>, as the audit code reads them back.
\<close>

theorem id_generator_sequence:
  fixes k :: id_kernel and prefix :: string
  assumes "int n \<le> LONG_MAX"
  defines "ids \<equiv> generateIds n k (new_IdGenerator prefix)"
  shows "distinct ids \<and> (\<exists>seed. \<forall>i<n. getSeedFromId (ids ! i) = seed \<and> getSequenceFromId (ids ! i) = Inr (int i))"
proof (cases n)
  case 0
  then show ?thesis by (simp add: ids_def)
next
  case (Suc m)
  let ?base = "(if prefix = [] then ''ID:'' @ hostname k else prefix) @ UNIQUE_STUB k @ Long_toString (instanceCount k)"
  let ?g = "(new_IdGenerator prefix)\<lparr>idSeed := ?base @ '':''\<rparr>"
  have "ids = generateIds n (k\<lparr>instanceCount := wrap64 (instanceCount k + 1)\<rparr>) ?g"
    by (simp add: ids_def Suc generateId_def new_IdGenerator_def)
  then have ids: "ids = map (\<lambda>i. (?base @ '':'') @ Long_toString (int i)) [0..<n]"
    using generateIds_seeded [of ?g n] assms(1) by (simp add: new_IdGenerator_def)
  have long: "is_long (int i)" if "i < n" for i
    using that assms(1) by (simp add: is_long_def LONG_MIN_def)
  have "inj_on (\<lambda>i. (?base @ '':'') @ Long_toString (int i)) (set [0..<n])"
    using Long_toString_inj long by (intro inj_onI) fastforce
  then have "distinct ids" unfolding ids by (simp add: distinct_map)
  moreover have "\<forall>i<n. getSeedFromId (ids ! i) = ?base @ '':'' \<and> getSequenceFromId (ids ! i) = Inr (int i)"
    unfolding ids using seed_and_sequence [OF long refl, of _ ?base] by simp
  ultimately show ?thesis by blast
qed

theorem id_generator_sequence_witness:
  "distinct (generateIds 3 \<lparr>hostname = ''h'', UNIQUE_STUB = ''-1-2-'', instanceCount = 0\<rparr> (new_IdGenerator []))"
  using id_generator_sequence [of 3] by (simp add: LONG_MAX_def)

end
