(* ===== verification/BitSet.thy ===== *)
theory BitSet
  imports Prelude
begin

text \<open>
  The growable bit set of \<open>decaf/util/BitSet.cpp\<close>: an array of 64-bit words, the field
  \<open>bitsSize\<close> that is meant to be its length, the number \<open>actualArrayLength\<close> of words that may be
  non-zero with the flag \<open>isLengthActual\<close> saying that it is exact, and the flag \<open>needClear\<close> that
  is false only while nothing was ever set.  The lengths are non-negative C++ ints, here naturals;
  bit indices are C++ ints and may be negative.  The abstract value is the set of members.
\<close>

unbundle bit_operations_syntax

section \<open>The object\<close>

type_synonym w64 = "64 word"

record bit_set =
  bits :: "w64 list"
  bitsSize :: nat
  needClear :: bool
  actualArrayLength :: nat
  isLengthActual :: bool

definition OFFSET :: nat where "OFFSET = 6"
definition ELM_SIZE :: nat where "ELM_SIZE = 64"
definition RIGHT_BITS :: int where "RIGHT_BITS = 63"

definition TWO_N_ARRAY :: "w64 list" where
  "TWO_N_ARRAY = [
     0x0000000000000001, 0x0000000000000002, 0x0000000000000004, 0x0000000000000008,
     0x0000000000000010, 0x0000000000000020, 0x0000000000000040, 0x0000000000000080,
     0x0000000000000100, 0x0000000000000200, 0x0000000000000400, 0x0000000000000800,
     0x0000000000001000, 0x0000000000002000, 0x0000000000004000, 0x0000000000008000,
     0x0000000000010000, 0x0000000000020000, 0x0000000000040000, 0x0000000000080000,
     0x0000000000100000, 0x0000000000200000, 0x0000000000400000, 0x0000000000800000,
     0x0000000001000000, 0x0000000002000000, 0x0000000004000000, 0x0000000008000000,
     0x0000000010000000, 0x0000000020000000, 0x0000000040000000, 0x0000000080000000,
     0x0000000100000000, 0x0000000200000000, 0x0000000400000000, 0x0000000800000000,
     0x0000001000000000, 0x0000002000000000, 0x0000004000000000, 0x0000008000000000,
     0x0000010000000000, 0x0000020000000000, 0x0000040000000000, 0x0000080000000000,
     0x0000100000000000, 0x0000200000000000, 0x0000400000000000, 0x0000800000000000,
     0x0001000000000000, 0x0002000000000000, 0x0004000000000000, 0x0008000000000000,
     0x0010000000000000, 0x0020000000000000, 0x0040000000000000, 0x0080000000000000,
     0x0100000000000000, 0x0200000000000000, 0x0400000000000000, 0x0800000000000000,
     0x1000000000000000, 0x2000000000000000, 0x4000000000000000, 0x8000000000000000]"

text \<open>\<open>index >> OFFSET\<close> and \<open>index & RIGHT_BITS\<close> of a non-negative index.\<close>

definition word_pos :: "int \<Rightarrow> nat" where
  "word_pos i = nat (drop_bit OFFSET i)"

definition bit_pos :: "int \<Rightarrow> nat" where
  "bit_pos i = nat (i AND RIGHT_BITS)"

definition new_BitSet :: bit_set where
  "new_BitSet = \<lparr>bits = [0], bitsSize = 1, needClear = False, actualArrayLength = 0,
     isLengthActual = True\<rparr>"

definition BitSet_of_count :: "int \<Rightarrow> bit_set result" where
  "BitSet_of_count bitCount =
     (if bitCount < 0 then Inl NegativeArraySizeException
      else
        let n = word_pos bitCount + (if bit_pos bitCount > 0 then 1 else 0)
        in Inr \<lparr>bits = replicate n 0, bitsSize = n, needClear = False, actualArrayLength = 0,
                isLengthActual = True\<rparr>)"

text \<open>
  \<open>ensureCapacity\<close> copies \<open>actualArrayLength\<close> words into the new array; copying more words than
  either array has is a write or read outside its bounds.
\<close>

definition ensureCapacity :: "nat \<Rightarrow> bit_set \<Rightarrow> bit_set result" where
  "ensureCapacity len b =
     (let newSize = max len (bitsSize b * 2) in
      if actualArrayLength b > newSize \<or> actualArrayLength b > length (bits b)
      then Inl UndefinedBehaviour
      else Inr (b\<lparr>bits := take (actualArrayLength b) (bits b) @
                            replicate (newSize - actualArrayLength b) 0,
                  bitsSize := newSize\<rparr>))"

definition grow :: "nat \<Rightarrow> bit_set \<Rightarrow> bit_set result" where
  "grow len b = (if len > bitsSize b then ensureCapacity len b else Inr b)"

fun trim_zero :: "w64 list \<Rightarrow> nat \<Rightarrow> nat" where
  "trim_zero ws 0 = 0"
| "trim_zero ws (Suc idx) = (if ws ! idx = 0 then trim_zero ws idx else Suc idx)"

definition getActualArrayLength :: "bit_set \<Rightarrow> nat \<times> bit_set" where
  "getActualArrayLength b =
     (if isLengthActual b then (actualArrayLength b, b)
      else
        let n = trim_zero (bits b) (actualArrayLength b)
        in (n, b\<lparr>actualArrayLength := n, isLengthActual := True\<rparr>))"

definition top_actual :: "bit_set \<Rightarrow> bool" where
  "top_actual b = (\<not> (actualArrayLength b > 0 \<and> bits b ! (actualArrayLength b - 1) = 0))"

section \<open>Single bits\<close>

definition bs_get :: "int \<Rightarrow> bit_set \<Rightarrow> bool result" where
  "bs_get index b =
     (if index < 0 then Inl IndexOutOfBoundsException
      else
        let arrayPos = word_pos index in
        if arrayPos < actualArrayLength b
        then Inr ((bits b ! arrayPos) AND (TWO_N_ARRAY ! bit_pos index) \<noteq> 0)
        else Inr False)"

definition bs_set :: "int \<Rightarrow> bit_set \<Rightarrow> bit_set result" where
  "bs_set index b =
     (if index < 0 then Inl IndexOutOfBoundsException
      else
        let len = word_pos index + 1 in
        bind_result (grow len b) (\<lambda>b1.
          let b2 = b1\<lparr>bits := (bits b1)[len - 1 := (bits b1 ! (len - 1)) OR (TWO_N_ARRAY ! bit_pos index)]\<rparr>;
              b3 = (if len > actualArrayLength b2
                    then b2\<lparr>actualArrayLength := len, isLengthActual := True\<rparr> else b2)
          in Inr (b3\<lparr>needClear := True\<rparr>)))"

definition bs_clear_at :: "int \<Rightarrow> bit_set \<Rightarrow> bit_set result" where
  "bs_clear_at index b =
     (if index < 0 then Inl IndexOutOfBoundsException
      else if \<not> needClear b then Inr b
      else
        let arrayPos = word_pos index in
        if arrayPos < actualArrayLength b
        then
          let b1 = b\<lparr>bits := (bits b)[arrayPos := (bits b ! arrayPos) AND NOT (TWO_N_ARRAY ! bit_pos index)]\<rparr>
          in Inr (if bits b1 ! (actualArrayLength b1 - 1) = 0
                  then b1\<lparr>isLengthActual := False\<rparr> else b1)
        else Inr b)"

definition bs_set_value :: "int \<Rightarrow> bool \<Rightarrow> bit_set \<Rightarrow> bit_set result" where
  "bs_set_value index v b = (if v then bs_set index b else bs_clear_at index b)"

definition bs_flip :: "int \<Rightarrow> bit_set \<Rightarrow> bit_set result" where
  "bs_flip index b =
     (if index < 0 then Inl IndexOutOfBoundsException
      else
        let len = word_pos index + 1 in
        bind_result (grow len b) (\<lambda>b1.
          let b2 = b1\<lparr>bits := (bits b1)[len - 1 := (bits b1 ! (len - 1)) XOR (TWO_N_ARRAY ! bit_pos index)]\<rparr>;
              b3 = (if len > actualArrayLength b2 then b2\<lparr>actualArrayLength := len\<rparr> else b2)
          in Inr (b3\<lparr>isLengthActual := top_actual b3, needClear := True\<rparr>)))"

definition bs_clear :: "bit_set \<Rightarrow> bit_set" where
  "bs_clear b =
     (if needClear b
      then b\<lparr>bits := for_words 0 (bitsSize b) (\<lambda>_ _. 0) (bits b), actualArrayLength := 0,
             isLengthActual := True, needClear := False\<rparr>
      else b)"

section \<open>Ranges of bits\<close>

text \<open>The masks of the first and the last word of a range, as every range operation computes them.\<close>

definition factor1 :: "int \<Rightarrow> w64" where
  "factor1 fromIndex = push_bit (bit_pos fromIndex) (NOT 0)"

definition factor2 :: "int \<Rightarrow> w64" where
  "factor2 toIndex =
     (let shift = ELM_SIZE - bit_pos toIndex
      in if shift < 64 then drop_bit shift (NOT 0) else NOT 0)"

definition bad_range :: "int \<Rightarrow> int \<Rightarrow> bool" where
  "bad_range fromIndex toIndex = (fromIndex < 0 \<or> toIndex < 0 \<or> toIndex < fromIndex)"

definition bs_set_range :: "int \<Rightarrow> int \<Rightarrow> bit_set \<Rightarrow> bit_set result" where
  "bs_set_range fromIndex toIndex b =
     (if bad_range fromIndex toIndex then Inl IndexOutOfBoundsException
      else if fromIndex = toIndex then Inr b
      else
        let len2 = word_pos (toIndex - 1) + 1 in
        bind_result (grow len2 b) (\<lambda>b1.
          let idx1 = word_pos fromIndex; idx2 = word_pos (toIndex - 1);
              f1 = factor1 fromIndex; f2 = factor2 toIndex;
              ws = bits b1;
              ws' = (if idx1 = idx2 then ws[idx1 := (ws ! idx1) OR (f1 AND f2)]
                     else
                       let ws1 = ws[idx1 := (ws ! idx1) OR f1];
                           ws2 = ws1[idx2 := (ws1 ! idx2) OR f2]
                       in for_words (idx1 + 1) idx2 (\<lambda>_ w. w OR NOT 0) ws2);
              b2 = b1\<lparr>bits := ws'\<rparr>;
              b3 = (if idx2 + 1 > actualArrayLength b2
                    then b2\<lparr>actualArrayLength := idx2 + 1, isLengthActual := True\<rparr> else b2)
          in Inr (b3\<lparr>needClear := True\<rparr>)))"

definition bs_flip_range :: "int \<Rightarrow> int \<Rightarrow> bit_set \<Rightarrow> bit_set result" where
  "bs_flip_range fromIndex toIndex b =
     (if bad_range fromIndex toIndex then Inl IndexOutOfBoundsException
      else if fromIndex = toIndex then Inr b
      else
        let len2 = word_pos (toIndex - 1) + 1 in
        bind_result (grow len2 b) (\<lambda>b1.
          let idx1 = word_pos fromIndex; idx2 = word_pos (toIndex - 1);
              f1 = factor1 fromIndex; f2 = factor2 toIndex;
              ws = bits b1;
              ws' = (if idx1 = idx2 then ws[idx1 := (ws ! idx1) XOR (f1 AND f2)]
                     else
                       let ws1 = ws[idx1 := (ws ! idx1) XOR f1];
                           ws2 = ws1[idx2 := (ws1 ! idx2) XOR f2]
                       in for_words (idx1 + 1) idx2 (\<lambda>_ w. w XOR NOT 0) ws2);
              b2 = b1\<lparr>bits := ws'\<rparr>;
              b3 = (if len2 > actualArrayLength b2 then b2\<lparr>actualArrayLength := len2\<rparr> else b2)
          in Inr (b3\<lparr>isLengthActual := top_actual b3, needClear := True\<rparr>)))"

definition bs_clear_range :: "int \<Rightarrow> int \<Rightarrow> bit_set \<Rightarrow> bit_set result" where
  "bs_clear_range fromIndex toIndex0 b =
     (if bad_range fromIndex toIndex0 then Inl IndexOutOfBoundsException
      else if \<not> needClear b then Inr b
      else
        let last = wrap32 (push_bit OFFSET (int (actualArrayLength b))) in
        if fromIndex \<ge> last \<or> fromIndex = toIndex0 then Inr b
        else
          let toIndex = (if toIndex0 > last then last else toIndex0);
              idx1 = word_pos fromIndex; idx2 = word_pos (toIndex - 1);
              f1 = factor1 fromIndex; f2 = factor2 toIndex;
              ws = bits b;
              ws' = (if idx1 = idx2 then ws[idx1 := (ws ! idx1) AND NOT (f1 AND f2)]
                     else
                       let ws1 = ws[idx1 := (ws ! idx1) AND NOT f1];
                           ws2 = ws1[idx2 := (ws1 ! idx2) AND NOT f2]
                       in for_words (idx1 + 1) idx2 (\<lambda>_ _. 0) ws2);
              b1 = b\<lparr>bits := ws'\<rparr>
          in Inr (if actualArrayLength b1 > 0 \<and> bits b1 ! (actualArrayLength b1 - 1) = 0
                  then b1\<lparr>isLengthActual := False\<rparr> else b1))"

definition bs_set_range_value :: "int \<Rightarrow> int \<Rightarrow> bool \<Rightarrow> bit_set \<Rightarrow> bit_set result" where
  "bs_set_range_value fromIndex toIndex v b =
     (if v then bs_set_range fromIndex toIndex b else bs_clear_range fromIndex toIndex b)"

section \<open>Set operations\<close>

definition bs_AND :: "bit_set \<Rightarrow> bit_set \<Rightarrow> bit_set" where
  "bs_AND other b =
     (if \<not> needClear b then b
      else
        let length1 = actualArrayLength b; length2 = actualArrayLength other;
            b1 = (if length1 \<le> length2
                  then b\<lparr>bits := for_words 0 length1 (\<lambda>i w. w AND (bits other ! i)) (bits b)\<rparr>
                  else b\<lparr>bits := for_words length2 length1 (\<lambda>_ _. 0)
                                   (for_words 0 length2 (\<lambda>i w. w AND (bits other ! i)) (bits b)),
                         actualArrayLength := length2\<rparr>)
        in b1\<lparr>isLengthActual := top_actual b1\<rparr>)"

definition bs_andNot :: "bit_set \<Rightarrow> bit_set \<Rightarrow> bit_set" where
  "bs_andNot other b =
     (if \<not> needClear b then b
      else
        let range = (if actualArrayLength b < actualArrayLength other
                     then actualArrayLength b else actualArrayLength other);
            b1 = b\<lparr>bits := for_words 0 range (\<lambda>i w. w AND NOT (bits other ! i)) (bits b)\<rparr>;
            b2 = (if actualArrayLength b1 < range then b1\<lparr>actualArrayLength := range\<rparr> else b1)
        in b2\<lparr>isLengthActual := top_actual b2\<rparr>)"

text \<open>
  \<open>OR\<close> and \<open>XOR\<close> also trim the other set's cached length; its words do not change.  When the other
  set is longer than \<open>bitsSize\<close>, the array is replaced and \<open>bitsSize\<close> keeps its old value.
\<close>

definition bs_OR :: "bit_set \<Rightarrow> bit_set \<Rightarrow> bit_set" where
  "bs_OR other b =
     (let (setActualLen, other') = getActualArrayLength other in
      if setActualLen > bitsSize b
      then b\<lparr>bits := for_words 0 (actualArrayLength b) (\<lambda>i w. w OR (bits b ! i))
                        (take setActualLen (bits other')),
             actualArrayLength := setActualLen, isLengthActual := True, needClear := True\<rparr>
      else
        let b1 = b\<lparr>bits := for_words 0 setActualLen (\<lambda>i w. w OR (bits other' ! i)) (bits b)\<rparr>;
            b2 = (if setActualLen > actualArrayLength b1
                  then b1\<lparr>actualArrayLength := setActualLen, isLengthActual := True\<rparr> else b1)
        in b2\<lparr>needClear := True\<rparr>)"

definition bs_XOR :: "bit_set \<Rightarrow> bit_set \<Rightarrow> bit_set" where
  "bs_XOR other b =
     (let (setActualLen, other') = getActualArrayLength other in
      if setActualLen > bitsSize b
      then
        let b1 = b\<lparr>bits := for_words 0 (actualArrayLength b) (\<lambda>i w. w XOR (bits b ! i))
                              (take setActualLen (bits other')),
                   actualArrayLength := setActualLen\<rparr>
        in b1\<lparr>isLengthActual := top_actual b1, needClear := True\<rparr>
      else
        let b1 = b\<lparr>bits := for_words 0 setActualLen (\<lambda>i w. w XOR (bits other' ! i)) (bits b)\<rparr>;
            b2 = (if setActualLen > actualArrayLength b1
                  then b1\<lparr>actualArrayLength := setActualLen, isLengthActual := True\<rparr> else b1)
        in b2\<lparr>needClear := True\<rparr>)"

section \<open>Queries\<close>

definition bs_isEmpty :: "bit_set \<Rightarrow> bool" where
  "bs_isEmpty b = (if \<not> needClear b then True else list_all (\<lambda>w. w = 0) (take (bitsSize b) (bits b)))"

definition bs_intersects :: "bit_set \<Rightarrow> bit_set \<Rightarrow> bool" where
  "bs_intersects other b =
     (if actualArrayLength b \<le> actualArrayLength other
      then list_ex (\<lambda>i. (bits b ! i) AND (bits other ! i) \<noteq> 0) [0..<actualArrayLength b]
      else list_ex (\<lambda>i. (bits b ! i) AND (bits other ! i) \<noteq> 0) [0..<actualArrayLength other])"

text \<open>\<open>equals\<close> for two different objects.\<close>

definition bs_equals :: "bit_set \<Rightarrow> bit_set \<Rightarrow> bool" where
  "bs_equals other b =
     (let length1 = actualArrayLength b; length2 = actualArrayLength other in
      if isLengthActual b \<and> isLengthActual other \<and> length1 \<noteq> length2 then False
      else if length1 \<le> length2
      then list_all (\<lambda>i. bits b ! i = bits other ! i) [0..<length1] \<and>
           list_all (\<lambda>i. bits other ! i = 0) [length1..<length2]
      else list_all (\<lambda>i. bits b ! i = bits other ! i) [0..<length2] \<and>
           list_all (\<lambda>i. bits b ! i = 0) [length2..<length1])"

fun top_bit :: "w64 \<Rightarrow> nat \<Rightarrow> nat" where
  "top_bit v 0 = 0"
| "top_bit v (Suc i) = (if v AND (TWO_N_ARRAY ! Suc i) = 0 then top_bit v i else Suc i)"

definition bs_length :: "bit_set \<Rightarrow> int \<times> bit_set" where
  "bs_length b =
     (let n = trim_zero (bits b) (actualArrayLength b);
          b1 = b\<lparr>actualArrayLength := n\<rparr>
      in if n = 0 then (0, b1)
         else let i = top_bit (bits b ! (n - 1)) (ELM_SIZE - 1)
              in (wrap32 (push_bit OFFSET (int (n - 1)) + int i + 1), b1))"

fun scan_word :: "(w64 \<Rightarrow> bool) \<Rightarrow> w64 \<Rightarrow> nat list \<Rightarrow> nat option" where
  "scan_word P w [] = None"
| "scan_word P w (j # js) = (if P (w AND (TWO_N_ARRAY ! j)) then Some j else scan_word P w js)"

fun skip_words :: "w64 \<Rightarrow> w64 list \<Rightarrow> nat list \<Rightarrow> nat option" where
  "skip_words v ws [] = None"
| "skip_words v ws (i # is) = (if ws ! i = v then skip_words v ws is else Some i)"

definition nextSetBit :: "int \<Rightarrow> bit_set \<Rightarrow> int result" where
  "nextSetBit index b =
     (if index < 0 then Inl IndexOutOfBoundsException
      else if index \<ge> wrap32 (push_bit OFFSET (int (actualArrayLength b))) then Inr (- 1)
      else
        let idx = word_pos index;
            first = (if bits b ! idx \<noteq> 0
                     then scan_word (\<lambda>w. w \<noteq> 0) (bits b ! idx) [bit_pos index..<ELM_SIZE] else None)
        in case first of
             Some j \<Rightarrow> Inr (wrap32 (push_bit OFFSET (int idx) + int j))
           | None \<Rightarrow>
               (case skip_words 0 (bits b) [idx + 1..<actualArrayLength b] of
                  None \<Rightarrow> Inr (- 1)
                | Some idx' \<Rightarrow>
                    (case scan_word (\<lambda>w. w \<noteq> 0) (bits b ! idx') [0..<ELM_SIZE] of
                       Some j \<Rightarrow> Inr (wrap32 (push_bit OFFSET (int idx') + int j))
                     | None \<Rightarrow> Inr (- 1))))"

definition nextClearBit :: "int \<Rightarrow> bit_set \<Rightarrow> int result" where
  "nextClearBit index b =
     (if index < 0 then Inl IndexOutOfBoundsException
      else
        let bssize = wrap32 (push_bit OFFSET (int (actualArrayLength b))) in
        if index \<ge> bssize then Inr index
        else
          let idx = word_pos index;
              first = (if bits b ! idx \<noteq> NOT 0
                       then scan_word (\<lambda>w. w = 0) (bits b ! idx) [nat (index mod int ELM_SIZE)..<ELM_SIZE]
                       else None)
          in case first of
               Some j \<Rightarrow> Inr (wrap32 (int idx * int ELM_SIZE + int j))
             | None \<Rightarrow>
                 (case skip_words (NOT 0) (bits b) [idx + 1..<actualArrayLength b] of
                    None \<Rightarrow> Inr bssize
                  | Some idx' \<Rightarrow>
                      (case scan_word (\<lambda>w. w = 0) (bits b ! idx') [0..<ELM_SIZE] of
                         Some j \<Rightarrow> Inr (wrap32 (push_bit OFFSET (int idx') + int j))
                       | None \<Rightarrow> Inr bssize)))"

definition bs_size :: "bit_set \<Rightarrow> int" where
  "bs_size b = wrap32 (push_bit OFFSET (int (bitsSize b)))"

section \<open>Sequences of calls\<close>

text \<open>The mutating calls on one object, as the callers issue them, and the same calls on sets.\<close>

datatype bs_call =
    CSet int
  | CClear int
  | CFlip int
  | CSetRange int int
  | CClearRange int int
  | CFlipRange int int
  | CClearAll
  | CLength

fun bs_step :: "bs_call \<Rightarrow> bit_set \<Rightarrow> bit_set result" where
  "bs_step (CSet i) b = bs_set i b"
| "bs_step (CClear i) b = bs_clear_at i b"
| "bs_step (CFlip i) b = bs_flip i b"
| "bs_step (CSetRange i j) b = bs_set_range i j b"
| "bs_step (CClearRange i j) b = bs_clear_range i j b"
| "bs_step (CFlipRange i j) b = bs_flip_range i j b"
| "bs_step CClearAll b = Inr (bs_clear b)"
| "bs_step CLength b = Inr (snd (bs_length b))"

fun bs_run :: "bs_call list \<Rightarrow> bit_set \<Rightarrow> bit_set result" where
  "bs_run [] b = Inr b"
| "bs_run (c # cs) b = bind_result (bs_step c b) (bs_run cs)"

fun set_step :: "bs_call \<Rightarrow> nat set \<Rightarrow> nat set" where
  "set_step (CSet i) S = insert (nat i) S"
| "set_step (CClear i) S = S - {nat i}"
| "set_step (CFlip i) S = (if nat i \<in> S then S - {nat i} else insert (nat i) S)"
| "set_step (CSetRange i j) S = S \<union> {nat i..<nat j}"
| "set_step (CClearRange i j) S = S - {nat i..<nat j}"
| "set_step (CFlipRange i j) S = (S - {nat i..<nat j}) \<union> ({nat i..<nat j} - S)"
| "set_step CClearAll S = {}"
| "set_step CLength S = S"

text \<open>
  The arguments the interface allows: non-negative indices and ordered ranges.  The last word of the
  index space is excluded: with a member there, \<open>actualArrayLength << OFFSET\<close> overflows.
\<close>

definition INDEX_END :: int where "INDEX_END = 2147483584"

fun valid_call :: "bs_call \<Rightarrow> bool" where
  "valid_call (CSet i) = (0 \<le> i \<and> i < INDEX_END)"
| "valid_call (CClear i) = (0 \<le> i \<and> i < INDEX_END)"
| "valid_call (CFlip i) = (0 \<le> i \<and> i < INDEX_END)"
| "valid_call (CSetRange i j) = (0 \<le> i \<and> i \<le> j \<and> j \<le> INDEX_END)"
| "valid_call (CClearRange i j) = (0 \<le> i \<and> i \<le> j \<and> j \<le> INDEX_END)"
| "valid_call (CFlipRange i j) = (0 \<le> i \<and> i \<le> j \<and> j \<le> INDEX_END)"
| "valid_call CClearAll = True"
| "valid_call CLength = True"

section \<open>Positions and masks\<close>

lemma TWO_N_all: "list_all (\<lambda>k. TWO_N_ARRAY ! k = push_bit k 1) [0..<64]"
  by code_simp

lemma TWO_N_nth: "k < 64 \<Longrightarrow> TWO_N_ARRAY ! k = push_bit k 1"
  using TWO_N_all by (simp add: list_all_iff)

lemma word_pos_eq: "0 \<le> i \<Longrightarrow> word_pos i = nat i div 64"
  by (simp add: word_pos_def OFFSET_def drop_bit_eq_div nat_div_distrib)

lemma bit_pos_eq: "0 \<le> i \<Longrightarrow> bit_pos i = nat i mod 64"
proof -
  assume "0 \<le> i"
  have "i AND 63 = take_bit 6 i" by (simp add: take_bit_eq_mask mask_eq_exp_minus_1)
  also have "\<dots> = i mod 64" by (simp add: take_bit_eq_mod)
  finally show ?thesis using \<open>0 \<le> i\<close> by (simp add: bit_pos_def RIGHT_BITS_def nat_mod_distrib)
qed

lemma bit_pos_less [simp]: "bit_pos i < 64"
proof -
  have "i AND 63 = take_bit 6 i" by (simp add: take_bit_eq_mask mask_eq_exp_minus_1)
  then have "i AND 63 = i mod 64" by (simp add: take_bit_eq_mod)
  then show ?thesis by (simp add: bit_pos_def RIGHT_BITS_def)
qed

lemma and_TWO_N: "k < 64 \<Longrightarrow> (w AND TWO_N_ARRAY ! k \<noteq> 0) = bit w k"
  by (simp add: TWO_N_nth bit_iff_and_push_bit_not_eq_0)

lemma bit_TWO_N: "k < 64 \<Longrightarrow> bit (TWO_N_ARRAY ! k) n = (n = k)"
  by (auto simp: TWO_N_nth bit_simps)

lemma bit_factor1: "n < 64 \<Longrightarrow> bit (factor1 i) n = (bit_pos i \<le> n)"
  by (auto simp: factor1_def bit_simps)

lemma bit_factor2: "n < 64 \<Longrightarrow> bit (factor2 i) n = (bit_pos i = 0 \<or> n < bit_pos i)"
  using bit_pos_less [of i]
  by (auto simp: factor2_def ELM_SIZE_def Let_def bit_simps)

section \<open>What the array represents\<close>

text \<open>
  \<open>bs_rep b f\<close>: the array of \<open>b\<close> holds the words \<open>f 0, f 1, ...\<close>, and the bookkeeping fields are
  consistent with them.  The members of the set are the positions of the one bits of \<open>f\<close>.
\<close>

definition bs_rep :: "bit_set \<Rightarrow> (nat \<Rightarrow> w64) \<Rightarrow> bool" where
  "bs_rep b f \<longleftrightarrow>
     length (bits b) = bitsSize b \<and> actualArrayLength b \<le> bitsSize b \<and>
     (\<forall>k<bitsSize b. bits b ! k = f k) \<and>
     (\<forall>k\<ge>actualArrayLength b. f k = 0) \<and>
     (needClear b \<or> actualArrayLength b = 0) \<and>
     (isLengthActual b \<and> 0 < actualArrayLength b \<longrightarrow> f (actualArrayLength b - 1) \<noteq> 0)"

definition members :: "(nat \<Rightarrow> w64) \<Rightarrow> nat set" where
  "members f = {i. bit (f (i div 64)) (i mod 64)}"

definition bs_fun :: "bit_set \<Rightarrow> nat \<Rightarrow> w64" where
  "bs_fun b k = (if k < length (bits b) then bits b ! k else 0)"

definition bs_members :: "bit_set \<Rightarrow> nat set" where
  "bs_members b = members (bs_fun b)"

definition bs_inv :: "bit_set \<Rightarrow> bool" where
  "bs_inv b = bs_rep b (bs_fun b)"

lemma bs_rep_unique: "bs_rep b f \<Longrightarrow> bs_fun b = f"
  by (rule ext) (auto simp: bs_rep_def bs_fun_def)

lemma bs_rep_inv: "bs_rep b f \<Longrightarrow> bs_inv b \<and> bs_members b = members f"
  by (simp add: bs_inv_def bs_members_def bs_rep_unique)

lemma members_mono_eq: "members f = members g \<longleftrightarrow> f = g"
proof
  assume eq: "members f = members g"
  show "f = g"
  proof (rule ext, rule bit_word_eqI)
    fix k n
    assume "n < LENGTH(64)"
    then have "(64 * k + n \<in> members h) = bit (h k) n" for h by (simp add: members_def)
    then show "bit (f k) n = bit (g k) n" using eq by metis
  qed
qed simp

lemma new_BitSet_rep: "bs_rep new_BitSet (\<lambda>_. 0)"
  by (simp add: bs_rep_def new_BitSet_def)

lemma BitSet_of_count_rep: "BitSet_of_count n = Inr b \<Longrightarrow> bs_rep b (\<lambda>_. 0)"
  by (auto simp: bs_rep_def BitSet_of_count_def Let_def nth_Cons' split: if_splits)

lemma grow_rep:
  assumes "bs_rep b f"
  obtains b1 where "grow len b = Inr b1" "bs_rep b1 f" "len \<le> bitsSize b1"
    "actualArrayLength b1 = actualArrayLength b" "isLengthActual b1 = isLengthActual b"
    "needClear b1 = needClear b"
proof (cases "len > bitsSize b")
  case False
  with assms that [of b] show ?thesis by (simp add: grow_def)
next
  case True
  let ?b = "b\<lparr>bits := take (actualArrayLength b) (bits b) @
               replicate (max len (bitsSize b * 2) - actualArrayLength b) 0,
              bitsSize := max len (bitsSize b * 2)\<rparr>"
  have "grow len b = Inr ?b"
    using assms True by (auto simp: grow_def ensureCapacity_def bs_rep_def Let_def)
  moreover have "bs_rep ?b f"
    using assms True by (auto simp: bs_rep_def nth_append)
  ultimately show ?thesis using that [of ?b] by simp
qed

section \<open>Single bits: behaviour\<close>

lemma bs_get_rep:
  assumes "bs_rep b f" "0 \<le> i"
  shows "bs_get i b = Inr (nat i \<in> members f)"
  using assms by (auto simp: bs_get_def Let_def and_TWO_N members_def bs_rep_def
      word_pos_eq [symmetric] bit_pos_eq [symmetric])

text \<open>
  How a write of whole words changes the representation: the words may only change below \<open>len\<close>,
  and the two ways the code recomputes the lengths.
\<close>

lemma rep_write_or:
  assumes rep: "bs_rep b f" and len: "0 < len" "len \<le> bitsSize b"
    and ws: "length ws = bitsSize b" "\<And>k. k < bitsSize b \<Longrightarrow> ws ! k = f k OR g k"
    and g: "\<And>k. len \<le> k \<Longrightarrow> g k = 0" "g (len - 1) \<noteq> 0"
  shows "bs_rep ((if len > actualArrayLength b
                  then b\<lparr>bits := ws, actualArrayLength := len, isLengthActual := True\<rparr>
                  else b\<lparr>bits := ws\<rparr>)\<lparr>needClear := True\<rparr>) (\<lambda>k. f k OR g k)"
  using assms by (auto simp: bs_rep_def or_eq_0_iff)

lemma rep_write_top:
  assumes rep: "bs_rep b f" and len: "len \<le> bitsSize b" "actualArrayLength b \<le> len"
    and ws: "length ws = bitsSize b" "\<And>k. k < bitsSize b \<Longrightarrow> ws ! k = g k"
    and g: "\<And>k. len \<le> k \<Longrightarrow> g k = 0"
  shows "bs_rep (b\<lparr>bits := ws, actualArrayLength := len,
                  isLengthActual := \<not> (len > 0 \<and> ws ! (len - 1) = 0), needClear := True\<rparr>) g"
  using assms by (auto simp: bs_rep_def)

definition one_at :: "nat \<Rightarrow> nat \<Rightarrow> w64" where
  "one_at i k = (if k = i div 64 then push_bit (i mod 64) 1 else 0)"

lemma bit_one_at: "bit (one_at i k) n \<longleftrightarrow> n < 64 \<and> 64 * k + n = i"
  by (auto simp: one_at_def bit_simps) presburger

lemma bs_set_rep:
  assumes rep: "bs_rep b f" and i: "0 \<le> i"
  shows "\<exists>b'. bs_set i b = Inr b' \<and> bs_rep b' (\<lambda>k. f k OR one_at (nat i) k)"
proof -
  obtain b1 where b1: "grow (word_pos i + 1) b = Inr b1" "bs_rep b1 f" "word_pos i + 1 \<le> bitsSize b1"
    using grow_rep [OF rep] by metis
  let ?ws = "(bits b1)[word_pos i := (bits b1 ! word_pos i) OR (TWO_N_ARRAY ! bit_pos i)]"
  have "bs_rep ((if word_pos i + 1 > actualArrayLength b1
                  then b1\<lparr>bits := ?ws, actualArrayLength := word_pos i + 1, isLengthActual := True\<rparr>
                  else b1\<lparr>bits := ?ws\<rparr>)\<lparr>needClear := True\<rparr>) (\<lambda>k. f k OR one_at (nat i) k)"
  proof (rule rep_write_or [OF b1(2) _ b1(3)])
    show "\<And>k. k < bitsSize b1 \<Longrightarrow> ?ws ! k = f k OR one_at (nat i) k"
      using b1 i by (auto simp: bs_rep_def nth_list_update one_at_def TWO_N_nth word_pos_eq bit_pos_eq)
  qed (use b1 i in \<open>auto simp: bs_rep_def one_at_def word_pos_eq push_bit_eq_0_iff bit_pos_eq\<close>)
  then show ?thesis using i b1(1)
    by (auto simp: bs_set_def Let_def split: if_splits)
qed

lemma bs_flip_rep:
  assumes rep: "bs_rep b f" and i: "0 \<le> i"
  shows "\<exists>b'. bs_flip i b = Inr b' \<and> bs_rep b' (\<lambda>k. f k XOR one_at (nat i) k)"
proof -
  obtain b1 where b1: "grow (word_pos i + 1) b = Inr b1" "bs_rep b1 f" "word_pos i + 1 \<le> bitsSize b1"
    using grow_rep [OF rep] by metis
  let ?ws = "(bits b1)[word_pos i := (bits b1 ! word_pos i) XOR (TWO_N_ARRAY ! bit_pos i)]"
  let ?len = "max (word_pos i + 1) (actualArrayLength b1)"
  have "bs_rep (b1\<lparr>bits := ?ws, actualArrayLength := ?len,
                  isLengthActual := \<not> (?len > 0 \<and> ?ws ! (?len - 1) = 0), needClear := True\<rparr>)
         (\<lambda>k. f k XOR one_at (nat i) k)"
  proof (rule rep_write_top [OF b1(2)])
    show "\<And>k. k < bitsSize b1 \<Longrightarrow> ?ws ! k = f k XOR one_at (nat i) k"
      using b1 i by (auto simp: bs_rep_def nth_list_update one_at_def TWO_N_nth word_pos_eq bit_pos_eq)
  qed (use b1 i in \<open>auto simp: bs_rep_def one_at_def word_pos_eq\<close>)
  then show ?thesis using i b1(1)
    by (intro exI conjI)
      (auto simp add: bs_flip_def Let_def top_actual_def max_def if_distrib not_less_eq_eq
        split: if_splits)
qed

lemma bs_clear_at_rep:
  assumes rep: "bs_rep b f" and i: "0 \<le> i"
  shows "\<exists>b'. bs_clear_at i b = Inr b' \<and> bs_rep b' (\<lambda>k. f k AND NOT (one_at (nat i) k))"
proof -
  consider "\<not> needClear b \<or> actualArrayLength b \<le> word_pos i" |
    "needClear b" "word_pos i < actualArrayLength b" by linarith
  then show ?thesis
  proof cases
    case 1
    have "f (word_pos i) = 0" using 1 rep by (auto simp: bs_rep_def)
    then have "(\<lambda>k. f k AND NOT (one_at (nat i) k)) = f"
      using i by (auto simp: one_at_def word_pos_eq)
    with 1 rep i show ?thesis by (auto simp: bs_clear_at_def)
  next
    case 2
    let ?ws = "(bits b)[word_pos i := (bits b ! word_pos i) AND NOT (TWO_N_ARRAY ! bit_pos i)]"
    have "?ws ! k = f k AND NOT (one_at (nat i) k)" if "k < bitsSize b" for k
      using that 2 rep i
      by (auto simp: bs_rep_def nth_list_update one_at_def TWO_N_nth word_pos_eq bit_pos_eq)
    with 2 rep i show ?thesis
      by (auto simp: bs_clear_at_def Let_def bs_rep_def)
  qed
qed

lemma bs_clear_rep: "bs_rep b f \<Longrightarrow> bs_rep (bs_clear b) (\<lambda>_. 0)"
  by (auto simp: bs_rep_def bs_clear_def nth_for_words)

lemma members_one_at:
  "members (\<lambda>k. f k OR one_at i k) = insert i (members f)"
  "members (\<lambda>k. f k AND NOT (one_at i k)) = members f - {i}"
  "members (\<lambda>k. f k XOR one_at i k) = (if i \<in> members f then members f - {i} else insert i (members f))"
proof -
  have [simp]: "64 * (j div 64) + j mod 64 = j" for j :: nat by simp
  show "members (\<lambda>k. f k OR one_at i k) = insert i (members f)"
    by (auto simp: members_def bit_simps bit_one_at)
  show "members (\<lambda>k. f k AND NOT (one_at i k)) = members f - {i}"
    by (auto simp: members_def bit_simps bit_one_at)
  show "members (\<lambda>k. f k XOR one_at i k) =
      (if i \<in> members f then members f - {i} else insert i (members f))"
    by (auto simp: members_def bit_simps bit_one_at)
qed

section \<open>Ranges: behaviour\<close>

text \<open>The mask a range operation applies to word \<open>k\<close>.\<close>

definition range_mask :: "int \<Rightarrow> int \<Rightarrow> nat \<Rightarrow> w64" where
  "range_mask fromIndex toIndex k =
     (let idx1 = word_pos fromIndex; idx2 = word_pos (toIndex - 1) in
      if idx1 = idx2 then (if k = idx1 then factor1 fromIndex AND factor2 toIndex else 0)
      else if k = idx1 then factor1 fromIndex
      else if k = idx2 then factor2 toIndex
      else if idx1 < k \<and> k < idx2 then NOT 0 else 0)"

lemma bit_range_mask:
  assumes "0 \<le> fromIndex" "fromIndex < toIndex" "n < 64"
  shows "bit (range_mask fromIndex toIndex k) n \<longleftrightarrow>
    nat fromIndex \<le> 64 * k + n \<and> 64 * k + n < nat toIndex"
proof -
  define a c where "a = nat fromIndex" and "c = nat toIndex"
  then have a: "fromIndex = int a" and c: "toIndex = int c" using assms by simp_all
  have ac: "a < c" using assms a c by simp
  have wp: "word_pos fromIndex = a div 64" "bit_pos fromIndex = a mod 64"
    "word_pos (toIndex - 1) = (c - 1) div 64" "bit_pos toIndex = c mod 64"
    using ac a c by (simp_all add: word_pos_eq bit_pos_eq nat_diff_distrib)
  have f: "bit (factor1 fromIndex) n = (a mod 64 \<le> n)"
    "bit (factor2 toIndex) n = (c mod 64 = 0 \<or> n < c mod 64)"
    using assms wp by (simp_all add: bit_factor1 bit_factor2)
  have "bit (range_mask fromIndex toIndex k) n =
    (if a div 64 = (c - 1) div 64
     then k = a div 64 \<and> a mod 64 \<le> n \<and> (c mod 64 = 0 \<or> n < c mod 64)
     else if k = a div 64 then a mod 64 \<le> n
     else if k = (c - 1) div 64 then c mod 64 = 0 \<or> n < c mod 64
     else a div 64 < k \<and> k < (c - 1) div 64)"
    using assms(3) by (simp add: range_mask_def Let_def wp f bit_simps)
  also have "\<dots> = (a \<le> 64 * k + n \<and> 64 * k + n < c)"
  proof -
    define qa ra qc rc where
      defs: "qa = a div 64" "ra = a mod 64" "qc = (c - 1) div 64" "rc = (c - 1) mod 64"
    have c1: "c = Suc (64 * qc + rc)" "rc < 64" and a1: "a = 64 * qa + ra" "ra < 64"
      using ac by (simp_all add: defs)
    then have "(c mod 64 = 0 \<or> n < c mod 64) = (n \<le> rc)"
      using assms(3) by (cases "rc = 63") (auto simp: mod_Suc)
    moreover have "qa \<le> qc" using ac by (simp add: defs div_le_mono)
    ultimately show ?thesis
      unfolding defs [symmetric]
      using a1 c1 assms(3) by (cases k qa rule: linorder_cases; cases k qc rule: linorder_cases) auto
  qed
  finally show ?thesis by (simp add: a c)
qed

lemma range_mask_beyond:
  "0 \<le> fromIndex \<Longrightarrow> fromIndex < toIndex \<Longrightarrow> word_pos (toIndex - 1) < k \<Longrightarrow>
    range_mask fromIndex toIndex k = 0"
  by (auto simp: range_mask_def Let_def word_pos_eq dest: div_le_mono [of "nat fromIndex" _ 64])

lemma word_pos_mono: "0 \<le> fromIndex \<Longrightarrow> fromIndex \<le> i \<Longrightarrow> word_pos fromIndex \<le> word_pos i"
  by (simp add: word_pos_eq div_le_mono nat_mono)

lemma range_write:
  assumes "word_pos fromIndex \<le> word_pos (toIndex - 1)" "word_pos (toIndex - 1) < length ws" "k < length ws"
    and h0: "\<And>w. h w 0 = w"
  shows "(let idx1 = word_pos fromIndex; idx2 = word_pos (toIndex - 1);
              f1 = factor1 fromIndex; f2 = factor2 toIndex
          in if idx1 = idx2 then ws[idx1 := h (ws ! idx1) (f1 AND f2)]
             else
               let ws1 = ws[idx1 := h (ws ! idx1) f1];
                   ws2 = ws1[idx2 := h (ws1 ! idx2) f2]
               in for_words (idx1 + 1) idx2 (\<lambda>_ w. h w (NOT 0)) ws2) ! k =
         h (ws ! k) (range_mask fromIndex toIndex k)"
  using assms by (auto simp: Let_def range_mask_def nth_list_update nth_for_words)

lemmas range_write_or = range_write [where h = "\<lambda>w m. w OR m", simplified]
lemmas range_write_xor = range_write [where h = "\<lambda>w m. w XOR m", simplified]

lemma members_range:
  assumes "0 \<le> fromIndex" "fromIndex < toIndex"
  defines "R \<equiv> {nat fromIndex..<nat toIndex}"
  shows "members (\<lambda>k. f k OR range_mask fromIndex toIndex k) = members f \<union> R"
    "members (\<lambda>k. f k AND NOT (range_mask fromIndex toIndex k)) = members f - R"
    "members (\<lambda>k. f k XOR range_mask fromIndex toIndex k) = (members f - R) \<union> (R - members f)"
proof -
  have [simp]: "bit (range_mask fromIndex toIndex (j div 64)) (j mod 64) = (j \<in> R)" for j
    using bit_range_mask [OF assms(1,2), of "j mod 64" "j div 64"] by (auto simp: R_def)
  show "members (\<lambda>k. f k OR range_mask fromIndex toIndex k) = members f \<union> R"
    "members (\<lambda>k. f k AND NOT (range_mask fromIndex toIndex k)) = members f - R"
    "members (\<lambda>k. f k XOR range_mask fromIndex toIndex k) = (members f - R) \<union> (R - members f)"
    by (auto simp: members_def bit_simps)
qed

lemma range_mask_top:
  assumes "0 \<le> i" "i < j"
  shows "range_mask i j (word_pos (j - 1)) \<noteq> 0"
proof -
  have "bit (range_mask i j (word_pos (j - 1))) (nat (j - 1) mod 64)"
    using assms by (subst bit_range_mask) (auto simp: word_pos_eq nat_diff_distrib)
  then show ?thesis by auto
qed

lemma bs_set_range_rep:
  assumes rep: "bs_rep b f" and ij: "0 \<le> i" "i < j"
  shows "\<exists>b'. bs_set_range i j b = Inr b' \<and> bs_rep b' (\<lambda>k. f k OR range_mask i j k)"
proof -
  obtain b1 where b1: "grow (word_pos (j - 1) + 1) b = Inr b1" "bs_rep b1 f"
    "word_pos (j - 1) + 1 \<le> bitsSize b1"
    using grow_rep [OF rep] by metis
  let ?ws = "(if word_pos i = word_pos (j - 1)
     then (bits b1)[word_pos i := (bits b1 ! word_pos i) OR (factor1 i AND factor2 j)]
     else
       let ws1 = (bits b1)[word_pos i := (bits b1 ! word_pos i) OR factor1 i];
           ws2 = ws1[word_pos (j - 1) := (ws1 ! word_pos (j - 1)) OR factor2 j]
       in for_words (word_pos i + 1) (word_pos (j - 1)) (\<lambda>_ w. w OR NOT 0) ws2)"
  have "bs_rep ((if word_pos (j - 1) + 1 > actualArrayLength b1
                 then b1\<lparr>bits := ?ws, actualArrayLength := word_pos (j - 1) + 1, isLengthActual := True\<rparr>
                 else b1\<lparr>bits := ?ws\<rparr>)\<lparr>needClear := True\<rparr>) (\<lambda>k. f k OR range_mask i j k)"
  proof (rule rep_write_or [OF b1(2) _ b1(3)])
    show "?ws ! k = f k OR range_mask i j k" if "k < bitsSize b1" for k
      using range_write_or [of i j "bits b1" k] that b1 ij word_pos_mono [of i "j - 1"]
      by (simp add: bs_rep_def Let_def)
  qed (use b1 ij range_mask_beyond [of i j] range_mask_top [of i j]
        in \<open>simp_all add: bs_rep_def Let_def\<close>)
  then show ?thesis using ij b1(1)
    by (auto simp: bs_set_range_def bad_range_def Let_def split: if_splits)
qed

lemma bs_flip_range_rep:
  assumes rep: "bs_rep b f" and ij: "0 \<le> i" "i < j"
  shows "\<exists>b'. bs_flip_range i j b = Inr b' \<and> bs_rep b' (\<lambda>k. f k XOR range_mask i j k)"
proof -
  obtain b1 where b1: "grow (word_pos (j - 1) + 1) b = Inr b1" "bs_rep b1 f"
    "word_pos (j - 1) + 1 \<le> bitsSize b1"
    using grow_rep [OF rep] by metis
  let ?ws = "(if word_pos i = word_pos (j - 1)
     then (bits b1)[word_pos i := (bits b1 ! word_pos i) XOR (factor1 i AND factor2 j)]
     else
       let ws1 = (bits b1)[word_pos i := (bits b1 ! word_pos i) XOR factor1 i];
           ws2 = ws1[word_pos (j - 1) := (ws1 ! word_pos (j - 1)) XOR factor2 j]
       in for_words (word_pos i + 1) (word_pos (j - 1)) (\<lambda>_ w. w XOR NOT 0) ws2)"
  let ?len = "max (word_pos (j - 1) + 1) (actualArrayLength b1)"
  have "bs_rep (b1\<lparr>bits := ?ws, actualArrayLength := ?len,
                  isLengthActual := \<not> (?len > 0 \<and> ?ws ! (?len - 1) = 0), needClear := True\<rparr>)
         (\<lambda>k. f k XOR range_mask i j k)"
  proof (rule rep_write_top [OF b1(2)])
    show "?ws ! k = f k XOR range_mask i j k" if "k < bitsSize b1" for k
      using range_write_xor [of i j "bits b1" k] that b1 ij word_pos_mono [of i "j - 1"]
      by (simp add: bs_rep_def Let_def)
  qed (use b1 ij range_mask_beyond [of i j] in \<open>auto simp: bs_rep_def Let_def\<close>)
  then show ?thesis using ij b1(1)
    by (auto simp: bs_flip_range_def bad_range_def Let_def top_actual_def max_def not_less_eq_eq
        split: if_splits)
qed

lemma bs_clear_range_rep:
  assumes rep: "bs_rep b f" and ij: "0 \<le> i" "i < j" "j \<le> 64 * int (actualArrayLength b)"
    and small: "actualArrayLength b < 2 ^ 25" and need: "needClear b"
  shows "\<exists>b'. bs_clear_range i j b = Inr b' \<and> bs_rep b' (\<lambda>k. f k AND NOT (range_mask i j k))"
proof -
  let ?ws = "(if word_pos i = word_pos (j - 1)
     then (bits b)[word_pos i := (bits b ! word_pos i) AND NOT (factor1 i AND factor2 j)]
     else
       let ws1 = (bits b)[word_pos i := (bits b ! word_pos i) AND NOT (factor1 i)];
           ws2 = ws1[word_pos (j - 1) := (ws1 ! word_pos (j - 1)) AND NOT (factor2 j)]
       in for_words (word_pos i + 1) (word_pos (j - 1)) (\<lambda>_ _. 0) ws2)"
  have last: "wrap32 (push_bit OFFSET (int (actualArrayLength b))) = 64 * int (actualArrayLength b)"
    using small by (simp add: OFFSET_def push_bit_eq_mult wrap32_id INT_MAX_def)
  have idx2: "word_pos (j - 1) < actualArrayLength b"
    using ij by (simp add: word_pos_eq)
  have "?ws ! k = f k AND NOT (range_mask i j k)" if "k < bitsSize b" for k
    using that rep ij idx2 word_pos_mono [of i "j - 1"]
    by (auto simp: bs_rep_def Let_def range_mask_def nth_list_update nth_for_words)
  moreover have "length ?ws = length (bits b)" by (simp add: Let_def)
  ultimately have "bs_rep (if actualArrayLength b > 0 \<and> ?ws ! (actualArrayLength b - 1) = 0
                  then b\<lparr>bits := ?ws, isLengthActual := False\<rparr> else b\<lparr>bits := ?ws\<rparr>)
     (\<lambda>k. f k AND NOT (range_mask i j k))"
    using rep by (auto simp: bs_rep_def)
  then show ?thesis using ij need last
    by (auto simp: bs_clear_range_def bad_range_def Let_def split: if_splits)
qed

lemma members_below: "bs_rep b f \<Longrightarrow> members f \<subseteq> {..<64 * actualArrayLength b}"
proof
  fix i assume rep: "bs_rep b f" and i: "i \<in> members f"
  then have "i div 64 < actualArrayLength b"
    by (metis (no_types, lifting) bs_rep_def members_def mem_Collect_eq bit_0_eq bot_apply bot_bool_def not_less)
  then show "i \<in> {..<64 * actualArrayLength b}" by simp
qed

lemma bs_clear_range_members:
  assumes rep: "bs_rep b f" and ij: "0 \<le> i" "i \<le> j" and small: "actualArrayLength b < 2 ^ 25"
  shows "\<exists>b' g. bs_clear_range i j b = Inr b' \<and> bs_rep b' g \<and> members g = members f - {nat i..<nat j} \<and>
    actualArrayLength b' = actualArrayLength b"
proof -
  let ?last = "64 * int (actualArrayLength b)"
  have last: "wrap32 (push_bit OFFSET (int (actualArrayLength b))) = ?last"
    using small by (simp add: OFFSET_def push_bit_eq_mult wrap32_id)
  have below: "m < nat ?last" if "m \<in> members f" for m
    using members_below [OF rep] that by auto
  consider "\<not> needClear b \<or> i \<ge> ?last \<or> i = j" | "needClear b" "i < ?last" "i < j" using ij by linarith
  then show ?thesis
  proof cases
    case 1
    then have "members f - {nat i..<nat j} = members f"
      using rep below by (fastforce simp: bs_rep_def)
    moreover have "bs_clear_range i j b = Inr b"
      using 1 ij last by (auto simp: bs_clear_range_def bad_range_def)
    ultimately show ?thesis using rep by auto
  next
    case 2
    define j' where "j' = (if j > ?last then ?last else j)"
    have j': "i < j'" "j' \<le> ?last" using 2 by (auto simp: j'_def)
    have eq: "bs_clear_range i j b = bs_clear_range i j' b"
      using 2 ij last j' by (simp add: bs_clear_range_def bad_range_def Let_def j'_def)
    obtain b' where b': "bs_clear_range i j' b = Inr b'"
      "bs_rep b' (\<lambda>k. f k AND NOT (range_mask i j' k))"
      using bs_clear_range_rep [OF rep ij(1) j' small 2(1)] by blast
    moreover have "actualArrayLength b' = actualArrayLength b"
      using b'(1) by (auto simp: bs_clear_range_def Let_def split: if_splits)
    moreover have "m < nat j' \<longleftrightarrow> m < nat j" if "m \<in> members f" for m
      using below [OF that] by (auto simp: j'_def)
    then have "members f - {nat i..<nat j'} = members f - {nat i..<nat j}" by auto
    ultimately show ?thesis using eq members_range(2) [OF ij(1) j'(1), of f] by auto
  qed
qed

section \<open>Set operations: behaviour\<close>

lemma rep_cut:
  assumes "bs_rep b f" "needClear b" "n \<le> bitsSize b" "length ws = bitsSize b"
    and ws: "\<And>k. k < bitsSize b \<Longrightarrow> ws ! k = g k" and g: "\<And>k. n \<le> k \<Longrightarrow> g k = 0"
    and top: "L = top_actual (b\<lparr>bits := ws, actualArrayLength := n\<rparr>)"
  shows "bs_rep (b\<lparr>bits := ws, actualArrayLength := n, isLengthActual := L\<rparr>) g"
  using assms(1-4) g ws [of "n - 1"] by (auto simp: bs_rep_def top_actual_def top ws)

lemma rep_nth: "bs_rep b f \<Longrightarrow> k < bitsSize b \<Longrightarrow> bits b ! k = f k"
  and rep_zero: "bs_rep b f \<Longrightarrow> actualArrayLength b \<le> k \<Longrightarrow> f k = 0"
  and rep_len: "bs_rep b f \<Longrightarrow> length (bits b) = bitsSize b"
  and rep_le: "bs_rep b f \<Longrightarrow> actualArrayLength b \<le> bitsSize b"
  by (simp_all add: bs_rep_def)

lemma bs_AND_rep:
  assumes b: "bs_rep b f" and o: "bs_rep other g"
  shows "bs_rep (bs_AND other b) (\<lambda>k. f k AND g k)"
proof (cases "needClear b")
  case False
  then have "actualArrayLength b = 0" using b by (simp add: bs_rep_def)
  then have "(\<lambda>k. f k AND g k) = f" by (auto simp: rep_zero [OF b])
  with False b show ?thesis by (simp add: bs_AND_def)
next
  case True
  let ?n1 = "actualArrayLength b" and ?n2 = "actualArrayLength other"
  let ?h = "\<lambda>i w. w AND bits other ! i"
  let ?ws = "if ?n1 \<le> ?n2 then for_words 0 ?n1 ?h (bits b)
             else for_words ?n2 ?n1 (\<lambda>_ _. 0) (for_words 0 ?n2 ?h (bits b))"
  let ?b = "b\<lparr>bits := ?ws, actualArrayLength := min ?n1 ?n2\<rparr>"
  have eq: "bs_AND other b = ?b\<lparr>isLengthActual := top_actual ?b\<rparr>"
    using True by (simp add: bs_AND_def Let_def min_def)
  have "?ws ! k = f k AND g k" if "k < bitsSize b" for k
    using that rep_nth [OF o, of k] rep_le [OF o] rep_zero [OF o, of k] rep_zero [OF b, of k]
    by (auto simp: nth_for_words rep_len [OF b] rep_nth [OF b])
  then show ?thesis
    unfolding eq using b True rep_le [OF b]
    by (intro rep_cut) (auto simp: rep_len [OF b] rep_zero [OF b] rep_zero [OF o] min_le_iff_disj)
qed

lemma bs_andNot_rep:
  assumes b: "bs_rep b f" and o: "bs_rep other g"
  shows "bs_rep (bs_andNot other b) (\<lambda>k. f k AND NOT (g k))"
proof (cases "needClear b")
  case False
  then have "actualArrayLength b = 0" using b by (simp add: bs_rep_def)
  then have "(\<lambda>k. f k AND NOT (g k)) = f" by (auto simp: rep_zero [OF b])
  with False b show ?thesis by (simp add: bs_andNot_def)
next
  case True
  let ?n1 = "actualArrayLength b" and ?n2 = "actualArrayLength other"
  let ?ws = "for_words 0 (min ?n1 ?n2) (\<lambda>i w. w AND NOT (bits other ! i)) (bits b)"
  let ?b = "b\<lparr>bits := ?ws, actualArrayLength := ?n1\<rparr>"
  have eq: "bs_andNot other b = ?b\<lparr>isLengthActual := top_actual ?b\<rparr>"
    using True by (simp add: bs_andNot_def Let_def min_def)
  have "?ws ! k = f k AND NOT (g k)" if "k < bitsSize b" for k
    using that rep_nth [OF o, of k] rep_le [OF o] rep_zero [OF o, of k] rep_zero [OF b, of k]
    by (auto simp: nth_for_words rep_len [OF b] rep_nth [OF b])
  then show ?thesis
    unfolding eq using b True rep_le [OF b]
    by (intro rep_cut) (auto simp: rep_len [OF b] rep_zero [OF b])
qed

lemma trim_zero_le: "trim_zero ws n \<le> n"
  by (induction n) auto

lemma trim_zero_zeros: "trim_zero ws n \<le> k \<Longrightarrow> k < n \<Longrightarrow> ws ! k = 0"
  by (induction n) (auto split: if_splits simp: less_Suc_eq)

lemma trim_zero_top: "trim_zero ws n = Suc m \<Longrightarrow> ws ! m \<noteq> 0"
  by (induction n) (auto split: if_splits)

lemma rep_trim:
  assumes b: "bs_rep b f"
  shows "bs_rep (b\<lparr>actualArrayLength := trim_zero (bits b) (actualArrayLength b), isLengthActual := L\<rparr>) f"
proof -
  let ?n = "trim_zero (bits b) (actualArrayLength b)"
  have zero: "f k = 0" if "?n \<le> k" for k
    using that rep_nth [OF b, of k] rep_zero [OF b, of k] rep_le [OF b]
      trim_zero_zeros [of "bits b" "actualArrayLength b" k] by (cases "k < actualArrayLength b") auto
  have top: "f (?n - 1) \<noteq> 0" if "?n > 0"
  proof -
    have "?n - 1 < bitsSize b"
      using that trim_zero_le [of "bits b" "actualArrayLength b"] rep_le [OF b] by linarith
    then show ?thesis
      using that trim_zero_top [of "bits b" "actualArrayLength b" "?n - 1"] rep_nth [OF b] by auto
  qed
  have "?n \<le> bitsSize b"
    using trim_zero_le rep_le [OF b] le_trans by blast
  moreover have "needClear b \<or> ?n = 0"
    using b trim_zero_le [of "bits b" "actualArrayLength b"] by (auto simp: bs_rep_def)
  ultimately show ?thesis using b zero top by (simp add: bs_rep_def)
qed

lemma getActualArrayLength_rep:
  assumes b: "bs_rep b f" and eq: "getActualArrayLength b = (n, b')"
  shows "bs_rep b' f" "n = actualArrayLength b'" "isLengthActual b'" "bits b' = bits b"
    "bitsSize b' = bitsSize b"
  using eq b rep_trim [OF b, of True]
  by (auto simp: getActualArrayLength_def Let_def split: if_splits)

text \<open>
  \<open>OR\<close> and \<open>XOR\<close> into an array that is large enough.  \<open>XOR\<close> keeps every clause of the invariant
  except the one on \<open>isLengthActual\<close>.
\<close>

lemma bs_OR_rep:
  assumes b: "bs_rep b f" and o: "bs_rep other g"
    and fits: "fst (getActualArrayLength other) \<le> bitsSize b"
  shows "bs_rep (bs_OR other b) (\<lambda>k. f k OR g k)"
proof -
  obtain n o' where eq: "getActualArrayLength other = (n, o')" by force
  note o' = getActualArrayLength_rep [OF o eq]
  let ?ws = "for_words 0 n (\<lambda>i w. w OR bits o' ! i) (bits b)"
  have ws: "?ws ! k = f k OR g k" if "k < bitsSize b" for k
    using that rep_nth [OF o'(1), of k] rep_le [OF o'(1)] rep_zero [OF o'(1), of k]
    by (auto simp: nth_for_words rep_len [OF b] rep_nth [OF b] o'(2))
  have OR: "bs_OR other b =
    (if n > actualArrayLength b
     then b\<lparr>bits := ?ws, actualArrayLength := n, isLengthActual := True, needClear := True\<rparr>
     else b\<lparr>bits := ?ws, needClear := True\<rparr>)"
    using fits by (simp add: bs_OR_def eq Let_def)
  show ?thesis
  proof (cases "n = 0")
    case True
    then have "g = (\<lambda>_. 0)" using rep_zero [OF o'(1)] o'(2) by auto
    moreover have "?ws = bits b" using True by (simp add: for_words.simps)
    ultimately show ?thesis using OR True b by (auto simp: bs_rep_def)
  next
    case False
    then have top: "g (n - 1) \<noteq> 0" using o'(1-3) by (simp add: bs_rep_def)
    from rep_write_or [OF b _ _ _ ws, of n]
    show ?thesis using OR top False fits eq rep_zero [OF o'(1)] o'(2)
      by (auto simp: rep_len [OF b] split: if_splits)
  qed
qed

lemma bs_XOR_fun:
  assumes b: "bs_rep b f" and o: "bs_rep other g"
    and fits: "fst (getActualArrayLength other) \<le> bitsSize b"
  shows "bs_fun (bs_XOR other b) = (\<lambda>k. f k XOR g k)"
proof
  fix k
  obtain n o' where eq: "getActualArrayLength other = (n, o')" by force
  note o' = getActualArrayLength_rep [OF o eq]
  let ?ws = "for_words 0 n (\<lambda>i w. w XOR bits o' ! i) (bits b)"
  have "bits (bs_XOR other b) = ?ws" using fits by (simp add: bs_XOR_def eq Let_def)
  then have "bs_fun (bs_XOR other b) k = (if k < bitsSize b then ?ws ! k else 0)"
    by (simp add: bs_fun_def rep_len [OF b])
  also have "\<dots> = f k XOR g k"
    using rep_nth [OF o'(1), of k] rep_le [OF o'(1)] rep_le [OF b] rep_zero [OF o'(1), of k]
      rep_zero [OF b, of k] fits eq
    by (auto simp: nth_for_words rep_len [OF b] rep_nth [OF b] o'(2))
  finally show "bs_fun (bs_XOR other b) k = f k XOR g k" .
qed

section \<open>Queries: behaviour\<close>

lemma members_empty: "members f = {} \<longleftrightarrow> f = (\<lambda>_. 0)"
  using members_mono_eq [of f "\<lambda>_. 0"] by (simp add: members_def)

lemma members_and: "members (\<lambda>k. f k AND g k) = members f \<inter> members g"
  and members_or: "members (\<lambda>k. f k OR g k) = members f \<union> members g"
  and members_xor: "members (\<lambda>k. f k XOR g k) = (members f - members g) \<union> (members g - members f)"
  and members_andNot: "members (\<lambda>k. f k AND NOT (g k)) = members f - members g"
  by (auto simp: members_def bit_simps)

lemma bs_isEmpty_rep:
  assumes b: "bs_rep b f"
  shows "bs_isEmpty b \<longleftrightarrow> members f = {}"
proof -
  have "list_all (\<lambda>w. w = 0) (take (bitsSize b) (bits b)) \<longleftrightarrow> (\<forall>k<bitsSize b. f k = 0)"
    using rep_nth [OF b] by (simp add: list_all_length rep_len [OF b])
  also have "\<dots> \<longleftrightarrow> f = (\<lambda>_. 0)"
    using rep_zero [OF b] rep_le [OF b] by (metis le_trans not_less)
  finally show ?thesis
    using b by (auto simp: bs_isEmpty_def members_empty bs_rep_def)
qed

lemma bs_intersects_rep:
  assumes b: "bs_rep b f" and o: "bs_rep other g"
  shows "bs_intersects other b \<longleftrightarrow> members f \<inter> members g \<noteq> {}"
proof -
  let ?n = "min (actualArrayLength b) (actualArrayLength other)"
  have "bs_intersects other b = list_ex (\<lambda>i. (bits b ! i) AND (bits other ! i) \<noteq> 0) [0..<?n]"
    by (simp add: bs_intersects_def min_def)
  also have "\<dots> = (\<exists>k<?n. f k AND g k \<noteq> 0)"
    using rep_nth [OF b] rep_le [OF b] rep_nth [OF o] rep_le [OF o] by (auto simp: list_ex_iff)
  also have "\<dots> = (\<exists>k. f k AND g k \<noteq> 0)"
    using rep_zero [OF b] rep_zero [OF o]
    by (metis and_zero_eq zero_and_eq min_less_iff_conj not_less)
  also have "\<dots> = (members (\<lambda>k. f k AND g k) \<noteq> {})"
    by (auto simp: members_empty fun_eq_iff)
  finally show ?thesis by (simp add: members_and)
qed

lemma bs_equals_rep:
  assumes b: "bs_rep b f" and o: "bs_rep other g"
  shows "bs_equals other b \<longleftrightarrow> members f = members g"
proof -
  let ?n1 = "actualArrayLength b" and ?n2 = "actualArrayLength other"
  have top: "?n1 = ?n2" if "f = g" "isLengthActual b" "isLengthActual other"
  proof (rule ccontr)
    assume "?n1 \<noteq> ?n2"
    then consider "?n1 < ?n2" | "?n2 < ?n1" by linarith
    then show False
      using that b o rep_zero [OF b, of "?n2 - 1"] rep_zero [OF o, of "?n1 - 1"]
      by cases (auto simp: bs_rep_def)
  qed
  have words: "(if ?n1 \<le> ?n2
      then list_all (\<lambda>i. bits b ! i = bits other ! i) [0..<?n1] \<and>
           list_all (\<lambda>i. bits other ! i = 0) [?n1..<?n2]
      else list_all (\<lambda>i. bits b ! i = bits other ! i) [0..<?n2] \<and>
           list_all (\<lambda>i. bits b ! i = 0) [?n2..<?n1]) \<longleftrightarrow> (\<forall>k. f k = g k)" (is "?L = ?R")
  proof
    assume L: ?L
    show ?R
    proof
      fix k
      show "f k = g k"
        using L rep_nth [OF b, of k] rep_le [OF b] rep_nth [OF o, of k] rep_le [OF o]
          rep_zero [OF b, of k] rep_zero [OF o, of k]
        by (cases "k < ?n1"; cases "k < ?n2") (auto simp: list_all_iff split: if_splits)
    qed
  next
    assume R: ?R
    then show ?L
      using rep_nth [OF b] rep_le [OF b] rep_nth [OF o] rep_le [OF o]
        rep_zero [OF b] rep_zero [OF o] by (auto simp: list_all_iff)
  qed
  have "bs_equals other b \<longleftrightarrow> \<not> (isLengthActual b \<and> isLengthActual other \<and> ?n1 \<noteq> ?n2) \<and> (\<forall>k. f k = g k)"
    using words by (simp add: bs_equals_def Let_def)
  also have "\<dots> \<longleftrightarrow> f = g" using top by auto
  finally show ?thesis by (simp add: members_mono_eq)
qed

lemma scan_word_find: "scan_word P w js = find (\<lambda>j. P (w AND (TWO_N_ARRAY ! j))) js"
  by (induction js) auto

lemma skip_words_find: "skip_words v ws is = find (\<lambda>i. ws ! i \<noteq> v) is"
  by (induction "is") auto

lemma find_upt_Some:
  "find P [a..<n] = Some k \<Longrightarrow> a \<le> k \<and> k < n \<and> P k \<and> (\<forall>m. a \<le> m \<and> m < k \<longrightarrow> \<not> P m)"
proof -
  assume "find P [a..<n] = Some k"
  then obtain i where i: "i < n - a" "P (a + i)" "k = a + i" "\<forall>j<i. \<not> P (a + j)"
    by (auto simp: find_Some_iff)
  have "\<not> P m" if "a \<le> m" "m < k" for m
    using i(4) [rule_format, of "m - a"] that i(3) by simp
  with i show ?thesis by simp
qed

lemma find_upt_None: "find P [a..<n] = None \<longleftrightarrow> (\<forall>m. a \<le> m \<and> m < n \<longrightarrow> \<not> P m)"
  by (auto simp: find_None_iff)

text \<open>
  Both searches look for the first position at or after \<open>i\<close> whose bit is \<open>v\<close>: through the rest of
  word \<open>q\<close>, then through the following words below \<open>n\<close>.
\<close>

definition search :: "bool \<Rightarrow> (nat \<Rightarrow> w64) \<Rightarrow> nat \<Rightarrow> nat \<Rightarrow> nat option" where
  "search v f n i =
     (let q = i div 64; same = (\<lambda>k. f k = (if v then 0 else NOT 0)) in
      case (if \<not> same q then find (\<lambda>j. bit (f q) j = v) [i mod 64..<64] else None) of
        Some j \<Rightarrow> Some (64 * q + j)
      | None \<Rightarrow>
         (case find (\<lambda>k. \<not> same k) [q + 1..<n] of
            None \<Rightarrow> None
          | Some k \<Rightarrow>
              (case find (\<lambda>j. bit (f k) j = v) [0..<64] of
                 Some j \<Rightarrow> Some (64 * k + j)
               | None \<Rightarrow> None)))"

lemma same_word_bits:
  "w = (if v then 0 else NOT 0) \<longleftrightarrow> (\<forall>j<64. bit w j \<noteq> v)" for w :: w64
proof
  assume "\<forall>j<64. bit w j \<noteq> v"
  then show "w = (if v then 0 else NOT 0)"
    by (intro bit_word_eqI) (auto simp: bit_simps)
qed (auto simp: bit_simps)

lemma mod_mono_same_div: "m div 64 = i div 64 \<Longrightarrow> i \<le> m \<Longrightarrow> i mod 64 \<le> m mod 64" for i m :: nat
proof -
  assume div: "m div 64 = i div 64" and le: "i \<le> m"
  have "64 * (i div 64) + i mod 64 \<le> 64 * (m div 64) + m mod 64"
    using le by (simp only: mult_div_mod_eq)
  then show ?thesis unfolding div by (rule add_le_imp_le_left)
qed

lemma search_Some:
  assumes "search v f n i = Some r" "i div 64 < n"
  shows "i \<le> r" "r < 64 * n" "bit (f (r div 64)) (r mod 64) = v"
    "\<And>m. i \<le> m \<Longrightarrow> m < r \<Longrightarrow> bit (f (m div 64)) (m mod 64) \<noteq> v"
proof -
  let ?q = "i div 64"
  let ?same = "\<lambda>k. f k = (if v then 0 else NOT 0)"
  note mq = mod_mono_same_div [of _ i]
  have "i \<le> r \<and> r < 64 * n \<and> bit (f (r div 64)) (r mod 64) = v \<and>
    (\<forall>m. i \<le> m \<and> m < r \<longrightarrow> bit (f (m div 64)) (m mod 64) \<noteq> v)"
  proof (cases "if \<not> ?same ?q then find (\<lambda>j. bit (f ?q) j = v) [i mod 64..<64] else None")
    case (Some j)
    then have "find (\<lambda>j. bit (f ?q) j = v) [i mod 64..<64] = Some j" by (simp split: if_splits)
    from find_upt_Some [OF this] have j: "i mod 64 \<le> j" "j < 64" "bit (f ?q) j = v"
      "\<forall>m. i mod 64 \<le> m \<and> m < j \<longrightarrow> bit (f ?q) m \<noteq> v" by auto
    have r: "r = 64 * ?q + j" using assms(1) Some by (simp add: search_def Let_def)
    have "bit (f (m div 64)) (m mod 64) \<noteq> v" if m: "i \<le> m" "m < r" for m
    proof -
      have "64 * ?q \<le> m" using m(1) times_div_less_eq_dividend [of 64 i] by linarith
      then have q: "m div 64 = ?q" using m(2) j(2) r by (intro div_nat_eqI) auto
      moreover have "64 * (m div 64) + m mod 64 < 64 * ?q + j" using m(2) r by simp
      ultimately have "m mod 64 < j" by simp
      with q show ?thesis using j(4) mq [OF q m(1)] by simp
    qed
    moreover have "i \<le> r" using j(1) r mult_div_mod_eq [of 64 i] by linarith
    ultimately show ?thesis using j r assms(2) by auto
  next
    case None
    then have q: "\<forall>j. i mod 64 \<le> j \<and> j < 64 \<longrightarrow> bit (f ?q) j \<noteq> v"
      using same_word_bits [of "f ?q" v] by (auto simp: find_upt_None split: if_splits)
    obtain k j where k: "find (\<lambda>k. \<not> ?same k) [?q + 1..<n] = Some k"
      and fj: "find (\<lambda>j. bit (f k) j = v) [0..<64] = Some j" and r: "r = 64 * k + j"
      using assms(1) None by (auto simp: search_def Let_def split: option.splits)
    from find_upt_Some [OF k] have k': "?q < k" "k < n" "\<forall>m. ?q < m \<and> m < k \<longrightarrow> ?same m" by auto
    from find_upt_Some [OF fj] have j: "j < 64" "bit (f k) j = v" "\<forall>m<j. bit (f k) m \<noteq> v" by auto
    have "bit (f (m div 64)) (m mod 64) \<noteq> v" if m: "i \<le> m" "m < r" for m
    proof -
      have "?q \<le> m div 64" using m(1) by (simp add: div_le_mono)
      moreover have "m div 64 \<le> k" using m(2) r j(1) by simp
      ultimately consider "m div 64 = ?q" | "?q < m div 64" "m div 64 < k" | "m div 64 = k" by linarith
      then show ?thesis
      proof cases
        case 1
        then show ?thesis using q mq [OF 1 m(1)] by simp
      next
        case 2
        then have "?same (m div 64)" using k'(3) by blast
        then show ?thesis using same_word_bits [of "f (m div 64)" v] by simp
      next
        case 3
        then have "64 * k + m mod 64 < 64 * k + j"
          using m(2) r mult_div_mod_eq [of 64 m] by simp
        then have "m mod 64 < j" by simp
        with 3 show ?thesis using j(3) by simp
      qed
    qed
    moreover have "i < 64 * k" using k'(1) by (simp add: div_less_iff_less_mult)
    then have "i \<le> r" using r by simp
    ultimately show ?thesis using j k'(2) r by auto
  qed
  then show "i \<le> r" "r < 64 * n" "bit (f (r div 64)) (r mod 64) = v"
    "\<And>m. i \<le> m \<Longrightarrow> m < r \<Longrightarrow> bit (f (m div 64)) (m mod 64) \<noteq> v" by blast+
qed

lemma search_None:
  assumes "search v f n i = None" "i \<le> m" "m < 64 * n"
  shows "bit (f (m div 64)) (m mod 64) \<noteq> v"
proof -
  let ?q = "i div 64"
  let ?same = "\<lambda>k. f k = (if v then 0 else NOT 0)"
  have q: "\<forall>j. i mod 64 \<le> j \<and> j < 64 \<longrightarrow> bit (f ?q) j \<noteq> v"
    using assms(1) same_word_bits [of "f ?q" v]
    by (auto simp: search_def Let_def find_upt_None split: if_splits option.splits)
  have rest: "?same k" if "?q < k" "k < n" for k
  proof (cases "find (\<lambda>k. \<not> ?same k) [?q + 1..<n]")
    case None
    with that show ?thesis by (auto simp: find_upt_None)
  next
    case (Some k')
    then have "find (\<lambda>j. bit (f k') j = v) [0..<64] = None"
      using assms(1) by (auto simp: search_def Let_def split: if_splits option.splits)
    then have "?same k'" by (subst same_word_bits) (simp add: find_upt_None)
    with find_upt_Some [OF Some] show ?thesis by simp
  qed
  have "?q \<le> m div 64" using assms(2) by (simp add: div_le_mono)
  then consider "m div 64 = ?q" | "?q < m div 64" by linarith
  then show ?thesis
  proof cases
    case 1
    then have "i mod 64 \<le> m mod 64" using assms(2) by (rule mod_mono_same_div)
    with 1 q show ?thesis by simp
  next
    case 2
    then have "?same (m div 64)" using rest assms(3) by simp
    then show ?thesis using same_word_bits [of "f (m div 64)" v] by simp
  qed
qed

lemma small_shift:
  "q < 2 ^ 25 \<Longrightarrow> j < 64 \<Longrightarrow> wrap32 (push_bit OFFSET (int q) + int j) = int (64 * q + j)"
  "q < 2 ^ 25 \<Longrightarrow> wrap32 (push_bit OFFSET (int q)) = int (64 * q)"
  "q < 2 ^ 25 \<Longrightarrow> j < 64 \<Longrightarrow> wrap32 (int q * int ELM_SIZE + int j) = int (64 * q + j)"
  by (simp_all add: OFFSET_def ELM_SIZE_def push_bit_eq_mult wrap32_id)

lemma find_cong_upt: "(\<And>k. a \<le> k \<Longrightarrow> k < n \<Longrightarrow> P k = Q k) \<Longrightarrow> find P [a..<n] = find Q [a..<n]"
  by (rule find_cong) auto

lemma nextSetBit_search:
  assumes b: "bs_rep b f" and small: "actualArrayLength b < 2 ^ 25"
    and i: "0 \<le> i" "nat i < 64 * actualArrayLength b"
  shows "nextSetBit i b = Inr (case search True f (actualArrayLength b) (nat i) of
    Some r \<Rightarrow> int r | None \<Rightarrow> - 1)"
proof -
  let ?n = "actualArrayLength b" and ?q = "nat i div 64"
  let ?first = "if f ?q \<noteq> 0 then find (bit (f ?q)) [nat i mod 64..<64] else None"
  let ?skip = "find (\<lambda>k. f k \<noteq> 0) [?q + 1..<?n]"
  have nth: "bits b ! k = f k" if "k < ?n" for k using that rep_nth [OF b] rep_le [OF b] by simp
  have q: "?q < ?n" using i by simp
  have scan: "scan_word (\<lambda>w. w \<noteq> 0) w [a..<64] = find (bit w) [a..<64]" for w a
    unfolding scan_word_find by (rule find_cong_upt) (simp add: and_TWO_N)
  have skip: "skip_words 0 (bits b) [?q + 1..<?n] = ?skip"
    unfolding skip_words_find by (rule find_cong_upt) (simp add: nth)
  have "\<not> i \<ge> wrap32 (push_bit OFFSET (int ?n))"
    using i small by (simp add: small_shift)
  then have N: "nextSetBit i b = (case ?first of Some j \<Rightarrow> Inr (wrap32 (push_bit OFFSET (int ?q) + int j))
     | None \<Rightarrow> (case ?skip of None \<Rightarrow> Inr (- 1)
         | Some k \<Rightarrow> (case find (bit (bits b ! k)) [0..<64] of
              Some j \<Rightarrow> Inr (wrap32 (push_bit OFFSET (int k) + int j)) | None \<Rightarrow> Inr (- 1))))"
    unfolding skip [symmetric] scan [symmetric] nextSetBit_def Let_def ELM_SIZE_def
      word_pos_eq [OF i(1)] bit_pos_eq [OF i(1)]
    using i nth [OF q] by simp
  show ?thesis
  proof (cases ?first)
    case (Some j)
    then have "find (bit (f ?q)) [nat i mod 64..<64] = Some j" by (simp split: if_splits)
    then have "j < 64" using find_upt_Some by blast
    with Some q small show ?thesis
      by (auto simp: N search_def Let_def small_shift split: if_splits)
  next
    case None
    note first = this
    show ?thesis
    proof (cases ?skip)
      case None
      with first show ?thesis by (auto simp: N search_def Let_def split: if_splits)
    next
      case (Some k)
      then have k: "k < ?n" using find_upt_Some by blast
      show ?thesis
      proof (cases "find (bit (f k)) [0..<64]")
        case (Some j)
        then have "j < 64" using find_upt_Some by blast
        with first Some \<open>?skip = Some k\<close> k small show ?thesis
          by (auto simp: N search_def Let_def small_shift nth split: if_splits)
      next
        case None
        with first Some k show ?thesis by (auto simp: N search_def Let_def nth split: if_splits)
      qed
    qed
  qed
qed

lemma nextSetBit_rep:
  assumes b: "bs_rep b f" and small: "actualArrayLength b < 2 ^ 25" and i: "0 \<le> i"
  shows "nextSetBit i b =
    Inr (if \<exists>m\<in>members f. nat i \<le> m then int (LEAST m. m \<in> members f \<and> nat i \<le> m) else - 1)"
proof (cases "nat i < 64 * actualArrayLength b")
  case False
  then have "\<not> (\<exists>m\<in>members f. nat i \<le> m)" using members_below [OF b] by fastforce
  moreover have "i \<ge> wrap32 (push_bit OFFSET (int (actualArrayLength b)))"
    using False small i by (simp add: small_shift)
  ultimately show ?thesis using i by (simp add: nextSetBit_def)
next
  case True
  show ?thesis
  proof (cases "search True f (actualArrayLength b) (nat i)")
    case None
    have "\<not> (\<exists>m\<in>members f. nat i \<le> m)"
      using search_None [OF None] members_below [OF b] by (fastforce simp: members_def)
    with None nextSetBit_search [OF b small i True] show ?thesis by simp
  next
    case (Some r)
    have "nat i div 64 < actualArrayLength b" using True by simp
    note r = search_Some [OF Some this]
    have rm: "r \<in> members f" using r(3) by (simp add: members_def)
    then have "(LEAST m. m \<in> members f \<and> nat i \<le> m) = r"
      using r(1,4) by (intro Least_equality) (auto simp: members_def not_less [symmetric])
    moreover have "\<exists>m\<in>members f. nat i \<le> m" using r(1) rm by blast
    ultimately show ?thesis using Some nextSetBit_search [OF b small i True] by simp
  qed
qed

lemma nextClearBit_search:
  assumes b: "bs_rep b f" and small: "actualArrayLength b < 2 ^ 25"
    and i: "0 \<le> i" "nat i < 64 * actualArrayLength b"
  shows "nextClearBit i b = Inr (case search False f (actualArrayLength b) (nat i) of
    Some r \<Rightarrow> int r | None \<Rightarrow> int (64 * actualArrayLength b))"
proof -
  let ?n = "actualArrayLength b" and ?q = "nat i div 64"
  let ?first = "if f ?q \<noteq> NOT 0 then find (\<lambda>j. \<not> bit (f ?q) j) [nat i mod 64..<64] else None"
  let ?skip = "find (\<lambda>k. f k \<noteq> NOT 0) [?q + 1..<?n]"
  have nth: "bits b ! k = f k" if "k < ?n" for k using that rep_nth [OF b] rep_le [OF b] by simp
  have q: "?q < ?n" using i by simp
  have scan: "scan_word (\<lambda>w. w = 0) w [a..<64] = find (\<lambda>j. \<not> bit w j) [a..<64]" for w a
    unfolding scan_word_find by (rule find_cong_upt) (simp add: and_TWO_N [symmetric])
  have skip: "skip_words (NOT 0) (bits b) [?q + 1..<?n] = ?skip"
    unfolding skip_words_find by (rule find_cong_upt) (simp add: nth)
  have "\<not> i \<ge> int (64 * ?n)" using i by simp
  moreover have "nat (i mod 64) = nat i mod 64" using i by (simp add: nat_mod_distrib)
  ultimately have N: "nextClearBit i b = (case ?first of Some j \<Rightarrow> Inr (wrap32 (int ?q * int ELM_SIZE + int j))
     | None \<Rightarrow> (case ?skip of None \<Rightarrow> Inr (int (64 * ?n))
         | Some k \<Rightarrow> (case find (\<lambda>j. \<not> bit (bits b ! k) j) [0..<64] of
              Some j \<Rightarrow> Inr (wrap32 (push_bit OFFSET (int k) + int j)) | None \<Rightarrow> Inr (int (64 * ?n)))))"
    unfolding skip [symmetric] scan [symmetric] nextClearBit_def Let_def small_shift(2) [OF small]
      word_pos_eq [OF i(1)] unfolding ELM_SIZE_def
    using i nth [OF q] by simp
  show ?thesis
  proof (cases ?first)
    case (Some j)
    then have "find (\<lambda>j. \<not> bit (f ?q) j) [nat i mod 64..<64] = Some j" by (simp split: if_splits)
    then have "j < 64" using find_upt_Some by blast
    with Some q small show ?thesis
      unfolding N by (auto simp: search_def Let_def small_shift split: if_splits)
  next
    case None
    note first = this
    show ?thesis
    proof (cases ?skip)
      case None
      with first show ?thesis unfolding N by (auto simp: search_def Let_def split: if_splits)
    next
      case (Some k)
      then have k: "k < ?n" using find_upt_Some by blast
      show ?thesis
      proof (cases "find (\<lambda>j. \<not> bit (f k) j) [0..<64]")
        case (Some j)
        then have "j < 64" using find_upt_Some by blast
        with first Some \<open>?skip = Some k\<close> k small show ?thesis
          unfolding N by (auto simp: search_def Let_def small_shift nth split: if_splits)
      next
        case None
        with first Some k show ?thesis
          unfolding N by (auto simp: search_def Let_def nth split: if_splits)
      qed
    qed
  qed
qed

lemma nextClearBit_rep:
  assumes b: "bs_rep b f" and small: "actualArrayLength b < 2 ^ 25" and i: "0 \<le> i"
  shows "nextClearBit i b = Inr (int (LEAST m. m \<notin> members f \<and> nat i \<le> m))"
proof (cases "nat i < 64 * actualArrayLength b")
  case False
  then have "nat i \<notin> members f" using members_below [OF b] by fastforce
  then have "(LEAST m. m \<notin> members f \<and> nat i \<le> m) = nat i" by (intro Least_equality) auto
  moreover have "i \<ge> wrap32 (push_bit OFFSET (int (actualArrayLength b)))"
    using False small i by (simp add: small_shift)
  ultimately show ?thesis using i by (simp add: nextClearBit_def Let_def)
next
  case True
  let ?bound = "64 * actualArrayLength b"
  show ?thesis
  proof (cases "search False f (actualArrayLength b) (nat i)")
    case None
    have "?bound \<notin> members f" using members_below [OF b] by fastforce
    then have "(LEAST m. m \<notin> members f \<and> nat i \<le> m) = ?bound"
      using search_None [OF None] True
      by (intro Least_equality) (auto simp: members_def not_less [symmetric])
    with None nextClearBit_search [OF b small i True] show ?thesis by simp
  next
    case (Some r)
    have "nat i div 64 < actualArrayLength b" using True by simp
    note r = search_Some [OF Some this]
    have rm: "r \<notin> members f" using r(3) by (simp add: members_def)
    then have "(LEAST m. m \<notin> members f \<and> nat i \<le> m) = r"
      using r(1,4) by (intro Least_equality) (auto simp: members_def not_less [symmetric])
    with Some nextClearBit_search [OF b small i True] show ?thesis by simp
  qed
qed

lemma top_bit_high: "top_bit v n < j \<Longrightarrow> j \<le> n \<Longrightarrow> n < 64 \<Longrightarrow> \<not> bit v j"
  by (induction n) (auto simp: and_TWO_N [symmetric] le_Suc_eq split: if_splits)

lemma top_bit_le: "top_bit v n \<le> n"
  by (induction n) auto

lemma top_bit_set: "0 < top_bit v n \<Longrightarrow> n < 64 \<Longrightarrow> bit v (top_bit v n)"
  by (induction n) (auto simp: and_TWO_N [symmetric] split: if_splits)

lemma top_bit_nonzero:
  assumes "v \<noteq> 0"
  shows "bit v (top_bit v 63)"
proof (cases "top_bit v 63")
  case 0
  have "bit v 0"
  proof (rule ccontr)
    assume "\<not> bit v 0"
    then have "\<not> bit v j" if "j < 64" for j
      using top_bit_high [of v 63 j] 0 that by (cases j) auto
    then have "v = 0" by (intro bit_word_eqI) auto
    with assms show False by simp
  qed
  with 0 show ?thesis by simp
next
  case (Suc n)
  then show ?thesis using top_bit_set [of v 63] by simp
qed

lemma bs_length_rep:
  assumes b: "bs_rep b f" and small: "actualArrayLength b < 2 ^ 25"
  shows "fst (bs_length b) = (if members f = {} then 0 else int (Max (members f)) + 1)"
    "bs_rep (snd (bs_length b)) f"
    "actualArrayLength (snd (bs_length b)) \<le> actualArrayLength b"
proof -
  let ?n = "trim_zero (bits b) (actualArrayLength b)"
  let ?b1 = "b\<lparr>actualArrayLength := ?n\<rparr>"
  have snd: "snd (bs_length b) = ?b1" by (simp add: bs_length_def Let_def)
  have rep: "bs_rep ?b1 f" using rep_trim [OF b, of "isLengthActual b"] by simp
  show "bs_rep (snd (bs_length b)) f" using rep snd by simp
  show "actualArrayLength (snd (bs_length b)) \<le> actualArrayLength b"
    by (simp add: snd trim_zero_le)
  have below: "members f \<subseteq> {..<64 * ?n}" using members_below [OF rep] by simp
  show "fst (bs_length b) = (if members f = {} then 0 else int (Max (members f)) + 1)"
  proof (cases "?n")
    case 0
    then show ?thesis using below by (auto simp: bs_length_def Let_def)
  next
    case (Suc q)
    have q: "q < actualArrayLength b" using trim_zero_le [of "bits b" "actualArrayLength b"] Suc by simp
    have fq: "bits b ! q = f q" using rep_nth [OF b] rep_le [OF b] q by simp
    have nz: "f q \<noteq> 0" using trim_zero_top [OF Suc] fq by simp
    let ?m = "64 * q + top_bit (f q) 63"
    have t: "top_bit (f q) 63 < 64" using top_bit_le [of "f q" 63] by simp
    have mem: "?m \<in> members f" using top_bit_nonzero [OF nz] t by (simp add: members_def)
    have max: "x \<le> ?m" if x: "x \<in> members f" for x
    proof -
      have le: "x div 64 \<le> q" using below x Suc by auto
      have "x mod 64 \<le> top_bit (f q) 63" if "x div 64 = q"
        using x that top_bit_high [of "f q" 63 "x mod 64"] by (force simp: members_def)
      with le show ?thesis
        using mult_div_mod_eq [of 64 x] mod_less_divisor [of 64 x]
        by (cases "x div 64 = q") linarith+
    qed
    have "Max (members f) = ?m"
      using mem max below by (intro Max_eqI) (auto intro: finite_subset)
    moreover have "fst (bs_length b) = int ?m + 1"
      using Suc fq q small t
      by (simp add: bs_length_def Let_def ELM_SIZE_def OFFSET_def push_bit_eq_mult wrap32_id)
    ultimately show ?thesis using mem by auto
  qed
qed

lemma actual_bounds:
  "bs_set i b = Inr b' \<Longrightarrow> actualArrayLength b' \<le> max (actualArrayLength b) (word_pos i + 1)"
  "bs_flip i b = Inr b' \<Longrightarrow> actualArrayLength b' \<le> max (actualArrayLength b) (word_pos i + 1)"
  "bs_clear_at i b = Inr b' \<Longrightarrow> actualArrayLength b' = actualArrayLength b"
  "bs_set_range i j b = Inr b' \<Longrightarrow> actualArrayLength b' \<le> max (actualArrayLength b) (word_pos (j - 1) + 1)"
  "bs_flip_range i j b = Inr b' \<Longrightarrow> actualArrayLength b' \<le> max (actualArrayLength b) (word_pos (j - 1) + 1)"
proof -
  have grow: "actualArrayLength b1 = actualArrayLength b" if "grow len b = Inr b1" for len b1
    using that by (auto simp: grow_def ensureCapacity_def Let_def split: if_splits)
  note defs = bs_set_def bs_flip_def bs_clear_at_def bs_set_range_def bs_flip_range_def
  show "bs_set i b = Inr b' \<Longrightarrow> actualArrayLength b' \<le> max (actualArrayLength b) (word_pos i + 1)"
    "bs_flip i b = Inr b' \<Longrightarrow> actualArrayLength b' \<le> max (actualArrayLength b) (word_pos i + 1)"
    "bs_clear_at i b = Inr b' \<Longrightarrow> actualArrayLength b' = actualArrayLength b"
    "bs_set_range i j b = Inr b' \<Longrightarrow> actualArrayLength b' \<le> max (actualArrayLength b) (word_pos (j - 1) + 1)"
    "bs_flip_range i j b = Inr b' \<Longrightarrow> actualArrayLength b' \<le> max (actualArrayLength b) (word_pos (j - 1) + 1)"
    by (auto simp: defs Let_def bind_result_Inr_iff dest!: grow split: if_splits)
qed

text \<open>One valid call keeps the representation and does on the members what its name says.\<close>

lemma word_pos_bound: "0 \<le> i \<Longrightarrow> i < INDEX_END \<Longrightarrow> word_pos i + 1 < 2 ^ 25"
  by (simp add: word_pos_eq INDEX_END_def)

lemma bs_step_refines:
  assumes b: "bs_rep b f" and small: "actualArrayLength b < 2 ^ 25" and ok: "valid_call c"
  obtains b' g where "bs_step c b = Inr b'" "bs_rep b' g" "members g = set_step c (members f)"
    "actualArrayLength b' < 2 ^ 25"
proof (cases c)
  case (CSet i)
  then obtain b' where b': "bs_set i b = Inr b'" "bs_rep b' (\<lambda>k. f k OR one_at (nat i) k)"
    using ok bs_set_rep [OF b] by auto
  then show ?thesis
    using that [OF _ b'(2)] ok small CSet actual_bounds(1) [OF b'(1)] word_pos_bound [of i]
    by (simp add: members_one_at)
next
  case (CClear i)
  then obtain b' where b': "bs_clear_at i b = Inr b'" "bs_rep b' (\<lambda>k. f k AND NOT (one_at (nat i) k))"
    using ok bs_clear_at_rep [OF b] by auto
  then show ?thesis
    using that [OF _ b'(2)] small CClear actual_bounds(3) [OF b'(1)] by (simp add: members_one_at)
next
  case (CFlip i)
  then obtain b' where b': "bs_flip i b = Inr b'" "bs_rep b' (\<lambda>k. f k XOR one_at (nat i) k)"
    using ok bs_flip_rep [OF b] by auto
  then show ?thesis
    using that [OF _ b'(2)] ok small CFlip actual_bounds(2) [OF b'(1)] word_pos_bound [of i]
    by (simp add: members_one_at)
next
  case (CSetRange i j)
  show ?thesis
  proof (cases "i = j")
    case True
    then show ?thesis using that [OF _ b] ok small CSetRange by (simp add: bs_set_range_def bad_range_def)
  next
    case False
    then have ij: "0 \<le> i" "i < j" using ok CSetRange by auto
    obtain b' where b': "bs_set_range i j b = Inr b'" "bs_rep b' (\<lambda>k. f k OR range_mask i j k)"
      using bs_set_range_rep [OF b ij] by blast
    then show ?thesis
      using that [OF _ b'(2)] ok small CSetRange actual_bounds(4) [OF b'(1)] word_pos_bound [of "j - 1"] ij
      by (simp add: members_range [OF ij])
  qed
next
  case (CClearRange i j)
  then obtain b' g where "bs_clear_range i j b = Inr b'" "bs_rep b' g"
    "members g = members f - {nat i..<nat j}" "actualArrayLength b' = actualArrayLength b"
    using ok bs_clear_range_members [OF b, of i j] small by auto
  then show ?thesis using that CClearRange small by simp
next
  case (CFlipRange i j)
  show ?thesis
  proof (cases "i = j")
    case True
    then show ?thesis using that [OF _ b] ok small CFlipRange by (simp add: bs_flip_range_def bad_range_def)
  next
    case False
    then have ij: "0 \<le> i" "i < j" using ok CFlipRange by auto
    obtain b' where b': "bs_flip_range i j b = Inr b'" "bs_rep b' (\<lambda>k. f k XOR range_mask i j k)"
      using bs_flip_range_rep [OF b ij] by blast
    then show ?thesis
      using that [OF _ b'(2)] ok small CFlipRange actual_bounds(5) [OF b'(1)] word_pos_bound [of "j - 1"] ij
      by (simp add: members_range [OF ij])
  qed
next
  case CClearAll
  have "actualArrayLength (bs_clear b) < 2 ^ 25" using small by (simp add: bs_clear_def)
  then show ?thesis using that [OF _ bs_clear_rep [OF b]] CClearAll by (simp add: members_def)
next
  case CLength
  then show ?thesis
    using that [OF _ bs_length_rep(2) [OF b small]] small bs_length_rep(3) [OF b small] by simp
qed

lemma bs_run_refines:
  "bs_rep b f \<Longrightarrow> actualArrayLength b < 2 ^ 25 \<Longrightarrow> list_all valid_call cs \<Longrightarrow>
    \<exists>b' g. bs_run cs b = Inr b' \<and> bs_rep b' g \<and> members g = fold set_step cs (members f) \<and>
      actualArrayLength b' < 2 ^ 25"
proof (induction cs arbitrary: b f)
  case (Cons c cs)
  have "valid_call c" using Cons.prems(3) by simp
  then obtain b1 f1 where b1: "bs_step c b = Inr b1" "bs_rep b1 f1"
    "members f1 = set_step c (members f)" "actualArrayLength b1 < 2 ^ 25"
    using bs_step_refines [OF Cons.prems(1,2)] by metis
  show ?case using Cons.IH [OF b1(2,4)] Cons.prems(3) b1(1,3) by simp
qed auto

section \<open>Properties of the bit set\<close>

text \<open>
  C24.  Any sequence of calls of \<open>set\<close>, \<open>clear\<close> and \<open>flip\<close>, with a valid index or range, of \<open>clear()\<close> and of \<open>length\<close>
  (\<open>and\<close>, \<open>or\<close>, \<open>xor\<close> and \<open>andNot\<close> are not among them), on a new bit set runs to completion (no exception and no
  access outside the array), keeps the invariant, and leaves exactly the members that the same calls
  leave in a mathematical set; \<open>get\<close> then answers membership for every non-negative index.
\<close>

theorem bitset_refines_set:
  assumes "list_all valid_call cs"
  shows "\<exists>b. bs_run cs new_BitSet = Inr b \<and> bs_inv b \<and> bs_members b = fold set_step cs {} \<and>
    (\<forall>i. bs_get i b = (if i < 0 then Inl IndexOutOfBoundsException
                       else Inr (nat i \<in> fold set_step cs {})))"
proof -
  have "members (\<lambda>_. 0) = {}" by (simp add: members_def)
  moreover have "actualArrayLength new_BitSet < 2 ^ 25" by (simp add: new_BitSet_def)
  ultimately obtain b g where b: "bs_run cs new_BitSet = Inr b" "bs_rep b g"
    "members g = fold set_step cs {}"
    using bs_run_refines [OF new_BitSet_rep _ assms] by auto
  then show ?thesis using bs_rep_inv [OF b(2)] bs_get_rep [OF b(2)] by (auto simp: bs_get_def)
qed

theorem bitset_refines_set_witness:
  "\<exists>b. bs_run [CSetRange 62 66, CClear 64, CFlip 5] new_BitSet = Inr b \<and>
       bs_members b = {5, 62, 63, 65}"
proof -
  have "{62..<66} - {64} = {62, 63, 65::nat}" by auto
  then show ?thesis
    using bitset_refines_set [of "[CSetRange 62 66, CClear 64, CFlip 5]"]
    by (auto simp: INDEX_END_def)
qed

text \<open>
  The searches and measures of a bit set built by valid calls are those of its set of members:
  \<open>nextSetBit\<close> returns the least member at or after the index, or -1; \<open>nextClearBit\<close> the least
  non-member; \<open>length\<close> is one more than the largest member, or 0; \<open>isEmpty\<close> tells emptiness.
\<close>

theorem bitset_queries:
  assumes "list_all valid_call cs" "bs_run cs new_BitSet = Inr b" "0 \<le> i"
  defines "S \<equiv> fold set_step cs {}"
  shows "nextSetBit i b = Inr (if \<exists>m\<in>S. nat i \<le> m then int (LEAST m. m \<in> S \<and> nat i \<le> m) else - 1) \<and>
    nextClearBit i b = Inr (int (LEAST m. m \<notin> S \<and> nat i \<le> m)) \<and>
    fst (bs_length b) = (if S = {} then 0 else int (Max S) + 1) \<and>
    bs_isEmpty b = (S = {})"
proof -
  have "members (\<lambda>_. 0) = {}" by (simp add: members_def)
  moreover have "actualArrayLength new_BitSet < 2 ^ 25" by (simp add: new_BitSet_def)
  ultimately obtain g where b: "bs_rep b g" "members g = S" "actualArrayLength b < 2 ^ 25"
    using bs_run_refines [OF new_BitSet_rep _ assms(1)] assms(2) by (auto simp: S_def)
  show ?thesis
    using nextSetBit_rep [OF b(1,3) assms(3)] nextClearBit_rep [OF b(1,3) assms(3)]
      bs_length_rep(1) [OF b(1,3)] bs_isEmpty_rep [OF b(1)] b(2) by simp
qed

theorem bitset_queries_witness:
  "\<exists>b. bs_run [CSet 3, CSet 200] new_BitSet = Inr b \<and> nextSetBit 4 b = Inr 200 \<and>
       nextClearBit 3 b = Inr 4 \<and> fst (bs_length b) = 201 \<and> \<not> bs_isEmpty b"
proof -
  obtain b where b: "bs_run [CSet 3, CSet 200] new_BitSet = Inr b"
    by (simp add: bs_set_def grow_def ensureCapacity_def new_BitSet_def word_pos_def OFFSET_def Let_def)
  have ok: "list_all valid_call [CSet 3, CSet 200]" by (simp add: INDEX_END_def)
  have S: "fold set_step [CSet 3, CSet 200] {} = {3, 200}" by auto
  have "(LEAST m. m \<in> {3, 200} \<and> 4 \<le> m) = (200::nat)" by (rule Least_equality) auto
  moreover have "(LEAST m. m \<notin> {3, 200} \<and> 3 \<le> m) = (4::nat)" by (rule Least_equality) auto
  ultimately show ?thesis
    using b bitset_queries [OF ok b, of 4] bitset_queries [OF ok b, of 3] unfolding S by auto
qed

text \<open>
  Two bit sets built by valid calls: \<open>AND\<close> and \<open>andNot\<close> compute intersection and difference,
  \<open>OR\<close> the union and \<open>XOR\<close> the symmetric difference as long as the target array is large enough,
  \<open>intersects\<close> and \<open>equals\<close> decide whether the sets meet and are equal.  All but \<open>XOR\<close> keep the
  invariant.
\<close>

theorem bitset_set_operations:
  assumes "list_all valid_call cs" "list_all valid_call ds"
    and "bs_run cs new_BitSet = Inr b" "bs_run ds new_BitSet = Inr other"
  defines "S \<equiv> fold set_step cs {}" and "T \<equiv> fold set_step ds {}"
  shows "bs_members (bs_AND other b) = S \<inter> T \<and> bs_inv (bs_AND other b) \<and>
    bs_members (bs_andNot other b) = S - T \<and> bs_inv (bs_andNot other b) \<and>
    (fst (getActualArrayLength other) \<le> bitsSize b \<longrightarrow>
       bs_members (bs_OR other b) = S \<union> T \<and> bs_inv (bs_OR other b) \<and>
       bs_members (bs_XOR other b) = (S - T) \<union> (T - S)) \<and>
    bs_intersects other b = (S \<inter> T \<noteq> {}) \<and>
    bs_equals other b = (S = T)"
proof -
  have empty: "members (\<lambda>_. 0) = {}" by (simp add: members_def)
  moreover have small: "actualArrayLength new_BitSet < 2 ^ 25" by (simp add: new_BitSet_def)
  ultimately obtain f where b: "bs_rep b f" "members f = S"
    using bs_run_refines [OF new_BitSet_rep _ assms(1)] assms(3) by (auto simp: S_def)
  obtain g where o: "bs_rep other g" "members g = T"
    using bs_run_refines [OF new_BitSet_rep small assms(2)] assms(4) empty by (auto simp: T_def)
  note sets = members_and members_or members_xor members_andNot b(2) o(2)
  have "bs_members (bs_XOR other b) = (S - T) \<union> (T - S)"
    if "fst (getActualArrayLength other) \<le> bitsSize b"
    using bs_XOR_fun [OF b(1) o(1) that] by (simp add: bs_members_def sets)
  moreover have "bs_inv (bs_OR other b) \<and> bs_members (bs_OR other b) = S \<union> T"
    if "fst (getActualArrayLength other) \<le> bitsSize b"
    using bs_rep_inv [OF bs_OR_rep [OF b(1) o(1) that]] by (simp add: sets)
  moreover have "bs_inv (bs_andNot other b) \<and> bs_members (bs_andNot other b) = S - T"
    using bs_rep_inv [OF bs_andNot_rep [OF b(1) o(1)]] 
    by (simp only: members_andNot b(2) o(2))
  ultimately show ?thesis
    using bs_rep_inv [OF bs_AND_rep [OF b(1) o(1)]]
      bs_intersects_rep [OF b(1) o(1)] bs_equals_rep [OF b(1) o(1)] by (simp add: sets)
qed

theorem bitset_set_operations_witness:
  "\<exists>b other. bs_run [CSet 1, CSet 2] new_BitSet = Inr b \<and> bs_run [CSet 2] new_BitSet = Inr other \<and>
     bs_members (bs_AND other b) = {2} \<and> bs_intersects other b \<and> \<not> bs_equals other b"
proof -
  obtain b where b: "bs_run [CSet 1, CSet 2] new_BitSet = Inr b"
    by (simp add: bs_set_def grow_def new_BitSet_def word_pos_def OFFSET_def Let_def)
  obtain other where o: "bs_run [CSet 2] new_BitSet = Inr other"
    by (simp add: bs_set_def grow_def new_BitSet_def word_pos_def OFFSET_def Let_def)
  have "list_all valid_call [CSet 1, CSet 2]" "list_all valid_call [CSet 2]"
    by (simp_all add: INDEX_END_def)
  from bitset_set_operations [OF this b o] show ?thesis using b o by auto
qed

text \<open>
  \<open>OR\<close> with a set that does not fit replaces the array but leaves \<open>bitsSize\<close> at its old value:
  for every member beyond the first word of the other set, the result has the member and yet reports
  itself empty, and setting a bit of the second word afterwards copies the words past the end of
  the new array as soon as the set has more than two words.
\<close>

theorem bitset_or_keeps_old_size:
  assumes "64 \<le> i"
  shows "\<exists>other. bs_set i new_BitSet = Inr other \<and>
    bs_get i (bs_OR other new_BitSet) = Inr True \<and> bs_isEmpty (bs_OR other new_BitSet) \<and>
    (128 \<le> i \<longrightarrow> bs_set 64 (bs_OR other new_BitSet) = Inl UndefinedBehaviour)"
proof -
  let ?q = "word_pos i" and ?w = "TWO_N_ARRAY ! bit_pos i"
  let ?ws = "(replicate (Suc ?q) 0)[?q := ?w]"
  have length_ws: "length ?ws = Suc ?q" by (simp del: replicate.simps)
  have q: "1 \<le> ?q" "128 \<le> i \<Longrightarrow> 2 \<le> ?q" using assms by (simp_all add: word_pos_eq)
  have w: "?w \<noteq> 0" by (metis TWO_N_nth bit_pos_less push_bit_eq_0_iff zero_neq_one and_TWO_N bit_0_eq
        bit_TWO_N bot_apply bot_bool_def)
  let ?o = "\<lparr>bits = ?ws, bitsSize = Suc ?q, needClear = True, actualArrayLength = Suc ?q, isLengthActual = True\<rparr>"
  have o: "bs_set i new_BitSet = Inr ?o"
    using assms q(1)
    by (simp add: bs_set_def grow_def ensureCapacity_def new_BitSet_def Let_def)
  let ?r = "\<lparr>bits = ?ws, bitsSize = 1, needClear = True, actualArrayLength = Suc ?q, isLengthActual = True\<rparr>"
  have r: "bs_OR ?o new_BitSet = ?r"
    using q(1) length_ws by (simp add: bs_OR_def getActualArrayLength_def new_BitSet_def for_words.simps
        del: replicate.simps)
  have "bs_get i ?r = Inr True"
    using assms w by (simp add: bs_get_def Let_def del: replicate.simps)
  moreover have "bs_isEmpty ?r" using q(1) by (simp add: bs_isEmpty_def list_all_length split: nat.splits)
  moreover have "bs_set 64 ?r = Inl UndefinedBehaviour" if "128 \<le> i"
    using q(2) [OF that]
    by (simp add: bs_set_def grow_def ensureCapacity_def Let_def word_pos_eq [of 64])
  ultimately show ?thesis using o r by metis
qed

theorem bitset_or_keeps_old_size_witness:
  "\<exists>other. bs_set 200 new_BitSet = Inr other \<and> bs_isEmpty (bs_OR other new_BitSet)"
  using bitset_or_keeps_old_size [of 200] by auto

end
