(* ===== verification/Map_Spec.thy ===== *)
theory Map_Spec
  imports Prelude
begin

text \<open>
  The contract of the \<open>decaf/util/Map.h\<close> implementations that the client relies on: a finite map
  with \<open>put\<close>, \<open>get\<close>, \<open>remove\<close>, \<open>size\<close> and \<open>clear\<close>.  \<open>room\<close> is the implementation's capacity
  condition for one more \<open>put\<close>.  Lookups are given by an abstraction function into partial
  functions, so that a client never sees buckets or chains.
\<close>

locale map_store =
  fixes inv :: "'m \<Rightarrow> bool"
    and room :: "'m \<Rightarrow> bool"
    and lookup :: "'m \<Rightarrow> 'k \<Rightarrow> 'v option"
    and empty_map :: 'm
    and put :: "'k \<Rightarrow> 'v \<Rightarrow> 'm \<Rightarrow> bool \<times> 'm"
    and get :: "'k \<Rightarrow> 'm \<Rightarrow> 'v result"
    and remove :: "'k \<Rightarrow> 'm \<Rightarrow> ('v \<times> 'm) result"
    and size_of :: "'m \<Rightarrow> int"
    and clear :: "'m \<Rightarrow> 'm"
  assumes empty_law: "inv empty_map" "lookup empty_map = (\<lambda>_. None)"
    and put_law: "inv m \<Longrightarrow> room m \<Longrightarrow> put k v m = (b, m') \<Longrightarrow>
      inv m' \<and> lookup m' = (lookup m)(k \<mapsto> v) \<and> b = (lookup m k \<noteq> None)"
    and get_law: "inv m \<Longrightarrow> get k m = of_option NoSuchElementException (lookup m k)"
    and remove_none_law: "inv m \<Longrightarrow> lookup m k = None \<Longrightarrow> remove k m = Inl NoSuchElementException"
    and remove_some_law: "inv m \<Longrightarrow> lookup m k = Some v \<Longrightarrow>
      \<exists>m'. remove k m = Inr (v, m') \<and> inv m' \<and> lookup m' = (lookup m)(k := None)"
    and size_law: "inv m \<Longrightarrow> size_of m = int (card (dom (lookup m))) \<and> finite (dom (lookup m))"
    and clear_law: "inv m \<Longrightarrow> inv (clear m) \<and> lookup (clear m) = (\<lambda>_. None)"
begin

lemma get_put:
  assumes "inv m" "room m" "put k v m = (b, m')"
  shows "get k m' = Inr v" "k' \<noteq> k \<Longrightarrow> get k' m' = get k' m"
  using put_law [OF assms] get_law assms(1) by simp_all

lemma remove_put:
  assumes "inv m" "room m" "put k v m = (b, m')"
  obtains m'' where "remove k m' = Inr (v, m'')" "inv m''" "lookup m'' = (lookup m)(k := None)"
  using put_law [OF assms] remove_some_law [of m' k v] by auto

lemma get_remove:
  assumes "inv m" "remove k m = Inr (v, m')"
  shows "get k m' = Inl NoSuchElementException" "k' \<noteq> k \<Longrightarrow> get k' m' = get k' m"
    "lookup m k = Some v"
proof -
  obtain v' where v: "lookup m k = Some v'" using assms remove_none_law by fastforce
  with remove_some_law [OF assms(1) v] assms(2)
  have "v' = v" "inv m'" "lookup m' = (lookup m)(k := None)" by auto
  with v show "get k m' = Inl NoSuchElementException" "k' \<noteq> k \<Longrightarrow> get k' m' = get k' m"
    "lookup m k = Some v" using get_law assms(1) by simp_all
qed

lemma put_size:
  assumes "inv m" "room m" "put k v m = (b, m')"
  shows "size_of m' = size_of m + (if b then 0 else 1)"
proof -
  note p = put_law [OF assms]
  have "card (insert k (dom (lookup m))) = card (dom (lookup m)) + (if k \<in> dom (lookup m) then 0 else 1)"
    using size_law [OF assms(1)] by (simp add: insert_absorb)
  with p size_law [OF assms(1)] size_law [of m'] show ?thesis by (simp add: domIff)
qed

lemma clear_size: "inv m \<Longrightarrow> size_of (clear m) = 0"
  using clear_law [of m] size_law [of "clear m"] by simp

end

end
