(* ===== verification/HashMap.thy ===== *)
theory HashMap
  imports Map_Spec "HOL-Library.Multiset"
begin

text \<open>
  The chained hash table of \<open>decaf/util/HashMap.h\<close>.  \<open>elementData\<close> is the array of buckets, each the
  list of its chained entries in \<open>next\<close> order.  The hash functor \<open>HASHCODE\<close> and the default value
  \<open>V()\<close> are the template's parameters and appear as arguments.  The load factor is a positive
  \<open>float\<close>, that is a dyadic number \<open>loadNum / 2 ^ loadExp\<close>; the table length is a power of two, so
  the \<open>float\<close> product of \<open>computeThreshold\<close> is exact.
\<close>

unbundle bit_operations_syntax

section \<open>The object\<close>

record ('k, 'v) hash_entry =
  entryKey :: 'k
  entryValue :: 'v
  origKeyHash :: int

record ('k, 'v) hash_map =
  elementCount :: int
  elementData :: "('k, 'v) hash_entry list list"
  mapModCount :: int
  loadNum :: nat
  loadExp :: nat
  threshold :: int

definition calculateCapacity :: "int \<Rightarrow> int" where
  "calculateCapacity x =
     (if x \<ge> push_bit 30 1 then push_bit 30 1
      else if x = 0 then 16
      else
        let x1 = wrap32 (x - 1);
            x2 = x1 OR drop_bit 1 x1;
            x3 = x2 OR drop_bit 2 x2;
            x4 = x3 OR drop_bit 4 x3;
            x5 = x4 OR drop_bit 8 x4;
            x6 = x5 OR drop_bit 16 x5
        in wrap32 (x6 + 1))"

definition computeThreshold :: "('k, 'v, 'z) hash_map_scheme \<Rightarrow> ('k, 'v, 'z) hash_map_scheme" where
  "computeThreshold m =
     m\<lparr>threshold := int (length (elementData m)) * int (loadNum m) div 2 ^ loadExp m\<rparr>"

definition init_table :: "int \<Rightarrow> nat \<Rightarrow> nat \<Rightarrow> ('k, 'v) hash_map" where
  "init_table capacity ln le = computeThreshold
     \<lparr>elementCount = 0, elementData = replicate (nat (calculateCapacity capacity)) [],
      mapModCount = 0, loadNum = ln, loadExp = le, threshold = 0\<rparr>"

text \<open>The default constructor, and the constructors with a capacity and with a load factor.\<close>

definition new_HashMap :: "('k, 'v) hash_map" where
  "new_HashMap = init_table 12 3 2"

definition HashMap_capacity :: "int \<Rightarrow> ('k, 'v) hash_map result" where
  "HashMap_capacity capacity =
     (if capacity \<ge> 0 then Inr (init_table capacity 3 2) else Inl IllegalArgumentException)"

definition HashMap_load :: "int \<Rightarrow> nat \<Rightarrow> nat \<Rightarrow> ('k, 'v) hash_map result" where
  "HashMap_load capacity ln le =
     (if capacity \<ge> 0 \<and> ln > 0 then Inr (init_table capacity ln le) else Inl IllegalArgumentException)"

text \<open>\<open>hash & (length - 1)\<close>, for a hash of either sign.\<close>

definition bucket_index :: "int \<Rightarrow> nat \<Rightarrow> nat" where
  "bucket_index hash len = nat (hash AND (int len - 1))"

definition findKeyEntry ::
    "'k \<Rightarrow> nat \<Rightarrow> int \<Rightarrow> ('k, 'v, 'z) hash_map_scheme \<Rightarrow> ('k, 'v) hash_entry option" where
  "findKeyEntry key index keyHash m =
     find (\<lambda>e. \<not> (origKeyHash e \<noteq> keyHash \<or> \<not> (key = entryKey e))) (elementData m ! index)"

definition getEntry ::
    "('k \<Rightarrow> int) \<Rightarrow> 'k \<Rightarrow> ('k, 'v, 'z) hash_map_scheme \<Rightarrow> ('k, 'v) hash_entry option" where
  "getEntry hashFunc key m =
     (let hash = hashFunc key; index = bucket_index hash (length (elementData m))
      in findKeyEntry key index hash m)"

definition createHashedEntry ::
    "'v \<Rightarrow> 'k \<Rightarrow> nat \<Rightarrow> int \<Rightarrow> ('k, 'v, 'z) hash_map_scheme \<Rightarrow> ('k, 'v, 'z) hash_map_scheme" where
  "createHashedEntry dflt key index hash m =
     m\<lparr>elementData := (elementData m)[index :=
         \<lparr>entryKey = key, entryValue = dflt, origKeyHash = hash\<rparr> # elementData m ! index]\<rparr>"

text \<open>
  \<open>rehash\<close> walks the old buckets in order and pushes every entry on the front of its new bucket.
\<close>

definition move_entry ::
    "nat \<Rightarrow> ('k, 'v) hash_entry \<Rightarrow> ('k, 'v) hash_entry list list \<Rightarrow> ('k, 'v) hash_entry list list" where
  "move_entry len e newData =
     (let index = bucket_index (origKeyHash e) len in newData[index := e # newData ! index])"

definition rehash_to :: "int \<Rightarrow> ('k, 'v, 'z) hash_map_scheme \<Rightarrow> ('k, 'v, 'z) hash_map_scheme" where
  "rehash_to capacity m =
     (let len = nat (calculateCapacity (if capacity = 0 then 1 else wrap32 (push_bit 1 capacity)))
      in computeThreshold (m\<lparr>elementData :=
           fold (\<lambda>chain newData. fold (move_entry len) chain newData) (elementData m) (replicate len [])\<rparr>))"

definition rehash :: "('k, 'v, 'z) hash_map_scheme \<Rightarrow> ('k, 'v, 'z) hash_map_scheme" where
  "rehash m = rehash_to (int (length (elementData m))) m"

text \<open>\<open>entry->setValue(value)\<close> through the entry pointer: a key has at most one entry.\<close>

definition set_entry_value ::
    "'k \<Rightarrow> 'v \<Rightarrow> ('k, 'v, 'z) hash_map_scheme \<Rightarrow> ('k, 'v, 'z) hash_map_scheme" where
  "set_entry_value key v m = m\<lparr>elementData :=
     map (map (\<lambda>e. if entryKey e = key then e\<lparr>entryValue := v\<rparr> else e)) (elementData m)\<rparr>"

text \<open>
  \<open>putImpl\<close>; \<open>create\<close> is the virtual \<open>createHashedEntry\<close> of the object's class.  The result tells
  whether a mapping was replaced.
\<close>

definition putImpl ::
    "('k \<Rightarrow> int) \<Rightarrow>
     ('k \<Rightarrow> nat \<Rightarrow> int \<Rightarrow> ('k, 'v, 'z) hash_map_scheme \<Rightarrow> ('k, 'v, 'z) hash_map_scheme) \<Rightarrow>
     'k \<Rightarrow> 'v \<Rightarrow> ('k, 'v, 'z) hash_map_scheme \<Rightarrow> bool \<times> ('k, 'v, 'z) hash_map_scheme" where
  "putImpl hashFunc create key v m =
     (let hash = hashFunc key; index = bucket_index hash (length (elementData m)) in
      case findKeyEntry key index hash m of
        None \<Rightarrow>
          let m1 = create key index hash (m\<lparr>mapModCount := mapModCount m + 1\<rparr>);
              m2 = m1\<lparr>elementCount := elementCount m1 + 1\<rparr>;
              m3 = (if elementCount m2 > threshold m2 then rehash m2 else m2)
          in (False, set_entry_value key v m3)
      | Some _ \<Rightarrow> (True, set_entry_value key v m))"

definition hm_put ::
    "('k \<Rightarrow> int) \<Rightarrow> 'v \<Rightarrow> 'k \<Rightarrow> 'v \<Rightarrow> ('k, 'v) hash_map \<Rightarrow> bool \<times> ('k, 'v) hash_map" where
  "hm_put hashFunc dflt key v m = putImpl hashFunc (createHashedEntry dflt) key v m"

definition hm_get :: "('k \<Rightarrow> int) \<Rightarrow> 'k \<Rightarrow> ('k, 'v) hash_map \<Rightarrow> 'v result" where
  "hm_get hashFunc key m =
     (case getEntry hashFunc key m of
        Some e \<Rightarrow> Inr (entryValue e)
      | None \<Rightarrow> Inl NoSuchElementException)"

definition hm_containsKey :: "('k \<Rightarrow> int) \<Rightarrow> 'k \<Rightarrow> ('k, 'v) hash_map \<Rightarrow> bool" where
  "hm_containsKey hashFunc key m = (getEntry hashFunc key m \<noteq> None)"

definition hm_containsValue :: "'v \<Rightarrow> ('k, 'v) hash_map \<Rightarrow> bool" where
  "hm_containsValue v m = list_ex (list_ex (\<lambda>e. v = entryValue e)) (elementData m)"

definition hm_isEmpty :: "('k, 'v, 'z) hash_map_scheme \<Rightarrow> bool" where
  "hm_isEmpty m = (elementCount m = 0)"

definition hm_size :: "('k, 'v, 'z) hash_map_scheme \<Rightarrow> int" where
  "hm_size m = elementCount m"

definition hm_clear :: "('k, 'v, 'z) hash_map_scheme \<Rightarrow> ('k, 'v, 'z) hash_map_scheme" where
  "hm_clear m =
     (if elementCount m > 0
      then m\<lparr>elementCount := 0, elementData := map (\<lambda>_. []) (elementData m),
             mapModCount := mapModCount m + 1\<rparr>
      else m)"

text \<open>\<open>removeEntry(key)\<close>: unlink the entry from its chain and hand it to the caller.\<close>

fun unlink :: "(('k, 'v) hash_entry \<Rightarrow> bool) \<Rightarrow> ('k, 'v) hash_entry list \<Rightarrow>
    (('k, 'v) hash_entry \<times> ('k, 'v) hash_entry list) option" where
  "unlink P [] = None"
| "unlink P (current # rest) =
     (if P current then Some (current, rest)
      else case unlink P rest of None \<Rightarrow> None | Some (e, rest') \<Rightarrow> Some (e, current # rest'))"

definition removeEntry ::
    "('k \<Rightarrow> int) \<Rightarrow> 'k \<Rightarrow> ('k, 'v, 'z) hash_map_scheme \<Rightarrow>
     ('k, 'v) hash_entry option \<times> ('k, 'v, 'z) hash_map_scheme" where
  "removeEntry hashFunc key m =
     (let hash = hashFunc key; index = bucket_index hash (length (elementData m)) in
      case unlink (\<lambda>e. origKeyHash e = hash \<and> key = entryKey e) (elementData m ! index) of
        None \<Rightarrow> (None, m)
      | Some (e, chain) \<Rightarrow>
          (Some e, m\<lparr>elementData := (elementData m)[index := chain],
                     mapModCount := mapModCount m + 1, elementCount := elementCount m - 1\<rparr>))"

definition hm_remove ::
    "('k \<Rightarrow> int) \<Rightarrow> 'k \<Rightarrow> ('k, 'v) hash_map \<Rightarrow> ('v \<times> ('k, 'v) hash_map) result" where
  "hm_remove hashFunc key m =
     (case removeEntry hashFunc key m of
        (Some e, m') \<Rightarrow> Inr (entryValue e, m')
      | (None, m') \<Rightarrow> Inl NoSuchElementException)"

text \<open>
  \<open>putAllImpl\<close> of a map whose iterator yields the given entries; \<open>put\<close> is the virtual \<open>putImpl\<close> of the
  object's class, whose result is dropped.
\<close>

definition putAllImpl ::
    "('k \<Rightarrow> 'v \<Rightarrow> ('k, 'v, 'z) hash_map_scheme \<Rightarrow> bool \<times> ('k, 'v, 'z) hash_map_scheme) \<Rightarrow>
     ('k \<times> 'v) list \<Rightarrow> ('k, 'v, 'z) hash_map_scheme \<Rightarrow> ('k, 'v, 'z) hash_map_scheme" where
  "putAllImpl put kvs m =
     (let capacity = elementCount m + int (length kvs);
          m1 = (if capacity > threshold m then rehash_to capacity m else m)
      in fold (\<lambda>(k, v) m. snd (put k v m)) kvs m1)"

definition putAll ::
    "('k \<Rightarrow> 'v \<Rightarrow> ('k, 'v, 'z) hash_map_scheme \<Rightarrow> bool \<times> ('k, 'v, 'z) hash_map_scheme) \<Rightarrow>
     ('k \<times> 'v) list \<Rightarrow> ('k, 'v, 'z) hash_map_scheme \<Rightarrow> ('k, 'v, 'z) hash_map_scheme" where
  "putAll put kvs m = (if kvs \<noteq> [] then putAllImpl put kvs m else m)"

definition hm_copy ::
    "('k \<Rightarrow> int) \<Rightarrow> 'v \<Rightarrow> ('k \<times> 'v) list \<Rightarrow> ('k, 'v) hash_map \<Rightarrow> ('k, 'v) hash_map" where
  "hm_copy hashFunc dflt kvs m =
     (let capacity = calculateCapacity (int (length kvs));
          m1 = hm_clear m;
          m2 = (if capacity > int (length (elementData m1))
                then m1\<lparr>elementData := replicate (nat capacity) []\<rparr> else m1)
      in putAll (putImpl hashFunc (createHashedEntry dflt)) kvs (computeThreshold m2))"

section \<open>The iterator\<close>

text \<open>
  \<open>AbstractMapIterator\<close>: \<open>futureEntry\<close> is the rest of the chain that it starts (by the keys of its
  entries), \<open>currentEntry\<close> and \<open>prevEntry\<close> are keys of entries of the chain before it.
\<close>

record 'k map_iterator =
  position :: nat
  expectedMapModCount :: int
  futureEntry :: "'k list"
  currentEntry :: "'k option"
  prevEntry :: "'k option"

definition mapIterator :: "('k, 'v, 'z) hash_map_scheme \<Rightarrow> 'k map_iterator" where
  "mapIterator m = \<lparr>position = 0, expectedMapModCount = mapModCount m, futureEntry = [],
     currentEntry = None, prevEntry = None\<rparr>"

function skip_empty :: "('k, 'v) hash_entry list list \<Rightarrow> nat \<Rightarrow> nat" where
  "skip_empty buckets pos =
     (if pos < length buckets \<and> buckets ! pos = [] then skip_empty buckets (Suc pos) else pos)"
  by pat_completeness auto
termination
  by (relation "measure (\<lambda>(buckets, pos). length buckets - pos)") auto

declare skip_empty.simps [simp del]

definition mi_hasNext :: "('k, 'v, 'z) hash_map_scheme \<Rightarrow> 'k map_iterator \<Rightarrow> bool \<times> 'k map_iterator" where
  "mi_hasNext m it =
     (if futureEntry it \<noteq> [] then (True, it)
      else
        let pos = skip_empty (elementData m) (position it)
        in (pos < length (elementData m), it\<lparr>position := pos\<rparr>))"

definition mi_makeNext :: "('k, 'v, 'z) hash_map_scheme \<Rightarrow> 'k map_iterator \<Rightarrow> 'k map_iterator result" where
  "mi_makeNext m it =
     (if expectedMapModCount it \<noteq> mapModCount m then Inl ConcurrentModificationException
      else
        let (more, it1) = mi_hasNext m it in
        if \<not> more then Inl NoSuchElementException
        else
          case futureEntry it1 of
            [] \<Rightarrow>
              let chain = map entryKey (elementData m ! position it1)
              in Inr (it1\<lparr>position := position it1 + 1, currentEntry := Some (hd chain),
                          futureEntry := tl chain, prevEntry := None\<rparr>)
          | k # rest \<Rightarrow>
              let it2 = (if currentEntry it1 \<noteq> None then it1\<lparr>prevEntry := currentEntry it1\<rparr> else it1)
              in Inr (it2\<lparr>currentEntry := Some k, futureEntry := rest\<rparr>))"

text \<open>The entry a non-null \<open>currentEntry\<close> points to.\<close>

definition entry_of :: "'k \<Rightarrow> ('k, 'v, 'z) hash_map_scheme \<Rightarrow> ('k, 'v) hash_entry option" where
  "entry_of k m = find (\<lambda>e. entryKey e = k) (concat (elementData m))"

definition mi_next ::
    "('k, 'v, 'z) hash_map_scheme \<Rightarrow> 'k map_iterator \<Rightarrow> (('k \<times> 'v) \<times> 'k map_iterator) result" where
  "mi_next m it =
     bind_result (mi_makeNext m it) (\<lambda>it1.
       case currentEntry it1 of
         None \<Rightarrow> Inl UndefinedBehaviour
       | Some k \<Rightarrow>
           (case entry_of k m of
              None \<Rightarrow> Inl UndefinedBehaviour
            | Some e \<Rightarrow> Inr ((entryKey e, entryValue e), it1)))"

definition mi_remove ::
    "('k, 'v, 'z) hash_map_scheme \<Rightarrow> 'k map_iterator \<Rightarrow>
     (('k, 'v, 'z) hash_map_scheme \<times> 'k map_iterator) result" where
  "mi_remove m it =
     (if expectedMapModCount it \<noteq> mapModCount m then Inl ConcurrentModificationException
      else
        case currentEntry it of
          None \<Rightarrow> Inl IllegalStateException
        | Some k \<Rightarrow>
            (case entry_of k m of
               None \<Rightarrow> Inl UndefinedBehaviour
             | Some e \<Rightarrow>
                 let index = bucket_index (origKeyHash e) (length (elementData m));
                     chain = elementData m ! index;
                     chain' = (if prevEntry it = None then tl chain
                               else case unlink (\<lambda>e. entryKey e = k) chain of
                                      None \<Rightarrow> chain | Some (_, c) \<Rightarrow> c)
                 in Inr (m\<lparr>elementData := (elementData m)[index := chain'],
                           mapModCount := mapModCount m + 1, elementCount := elementCount m - 1\<rparr>,
                         it\<lparr>currentEntry := None, expectedMapModCount := expectedMapModCount it + 1\<rparr>)))"

text \<open>The loop \<open>while (iter->hasNext()) iter->next()\<close> that every consumer of \<open>entrySet()\<close> runs.\<close>

partial_function (option) iterate_from ::
    "('k, 'v, 'z) hash_map_scheme \<Rightarrow> 'k map_iterator \<Rightarrow> ('k \<times> 'v) list result option" where
  "iterate_from m it =
     (let (more, it1) = mi_hasNext m it in
      if \<not> more then Some (Inr [])
      else
        case mi_next m it1 of
          Inl e \<Rightarrow> Some (Inl e)
        | Inr (kv, it2) \<Rightarrow>
            Option.bind (iterate_from m it2) (\<lambda>r.
              Some (bind_result r (\<lambda>kvs. Inr (kv # kvs)))))"

text \<open>\<open>equals\<close>: the iterator of this map against the lookups of the other.\<close>

definition hm_equals ::
    "('k \<Rightarrow> int) \<Rightarrow> ('k, 'v) hash_map \<Rightarrow> ('k, 'v) hash_map \<Rightarrow> bool result option" where
  "hm_equals hashFunc source m =
     (if hm_size m \<noteq> hm_size source then Some (Inr False)
      else
        case iterate_from m (mapIterator m) of
          None \<Rightarrow> None
        | Some (Inl e) \<Rightarrow> Some (Inl e)
        | Some (Inr kvs) \<Rightarrow>
            Some (Inr (list_all (\<lambda>(k, v). hm_containsKey hashFunc k source \<and>
                                           hm_get hashFunc k source = Inr v) kvs)))"

section \<open>Sequences of calls\<close>

datatype ('k, 'v) map_call = MPut 'k 'v | MGet 'k | MRemove 'k | MClear

datatype 'v map_reply = Replaced bool | Got "'v result" | Removed "'v result" | Cleared

fun hm_step ::
    "('k \<Rightarrow> int) \<Rightarrow> 'v \<Rightarrow> ('k, 'v) map_call \<Rightarrow> ('k, 'v) hash_map \<Rightarrow> 'v map_reply \<times> ('k, 'v) hash_map" where
  "hm_step hf dflt (MPut k v) m = (let (b, m') = hm_put hf dflt k v m in (Replaced b, m'))"
| "hm_step hf dflt (MGet k) m = (Got (hm_get hf k m), m)"
| "hm_step hf dflt (MRemove k) m =
     (case hm_remove hf k m of Inl e \<Rightarrow> (Removed (Inl e), m) | Inr (v, m') \<Rightarrow> (Removed (Inr v), m'))"
| "hm_step hf dflt MClear m = (Cleared, hm_clear m)"

fun hm_run ::
    "('k \<Rightarrow> int) \<Rightarrow> 'v \<Rightarrow> ('k, 'v) map_call list \<Rightarrow> ('k, 'v) hash_map \<Rightarrow>
     'v map_reply list \<times> ('k, 'v) hash_map" where
  "hm_run hf dflt [] m = ([], m)"
| "hm_run hf dflt (c # cs) m =
     (let (r, m') = hm_step hf dflt c m; (rs, m'') = hm_run hf dflt cs m' in (r # rs, m''))"

fun map_step :: "('k, 'v) map_call \<Rightarrow> ('k \<rightharpoonup> 'v) \<Rightarrow> 'v map_reply \<times> ('k \<rightharpoonup> 'v)" where
  "map_step (MPut k v) f = (Replaced (f k \<noteq> None), f(k \<mapsto> v))"
| "map_step (MGet k) f = (Got (of_option NoSuchElementException (f k)), f)"
| "map_step (MRemove k) f = (Removed (of_option NoSuchElementException (f k)), f(k := None))"
| "map_step MClear f = (Cleared, (\<lambda>_. None))"

fun map_run :: "('k, 'v) map_call list \<Rightarrow> ('k \<rightharpoonup> 'v) \<Rightarrow> 'v map_reply list \<times> ('k \<rightharpoonup> 'v)" where
  "map_run [] f = ([], f)"
| "map_run (c # cs) f = (let (r, f') = map_step c f; (rs, f'') = map_run cs f' in (r # rs, f''))"

section \<open>The table length\<close>

text \<open>
  \<open>covers s y x\<close>: every bit of \<open>y\<close> is the disjunction of \<open>s\<close> consecutive bits of \<open>x\<close>.  Each of the
  five shift-and-or steps doubles the window.
\<close>

definition covers :: "nat \<Rightarrow> int \<Rightarrow> int \<Rightarrow> bool" where
  "covers s y x \<longleftrightarrow> (\<forall>j. bit y j = (\<exists>d < s. bit x (j + d)))"

lemma covers_start: "covers 1 x x"
  by (simp add: covers_def)

lemma covers_double:
  assumes "covers s y x" "0 < s"
  shows "covers (2 * s) (y OR drop_bit s y) x"
  unfolding covers_def
proof
  fix j
  have "(\<exists>d < 2 * s. bit x (j + d)) = ((\<exists>d < s. bit x (j + d)) \<or> (\<exists>d < s. bit x (j + s + d)))"
  proof
    assume "\<exists>d < 2 * s. bit x (j + d)"
    then obtain d where d: "d < 2 * s" "bit x (j + d)" by blast
    show "(\<exists>d < s. bit x (j + d)) \<or> (\<exists>d < s. bit x (j + s + d))"
    proof (cases "d < s")
      case False
      then have "d - s < s" "bit x (j + s + (d - s))" using d by (simp_all add: add.assoc)
      then show ?thesis by blast
    qed (use d in blast)
  next
    assume "(\<exists>d < s. bit x (j + d)) \<or> (\<exists>d < s. bit x (j + s + d))"
    then show "\<exists>d < 2 * s. bit x (j + d)"
    proof
      assume "\<exists>d < s. bit x (j + d)"
      then obtain d where "d < s" "bit x (j + d)" by blast
      then show ?thesis by (intro exI [of _ d]) simp
    next
      assume "\<exists>d < s. bit x (j + s + d)"
      then obtain d where "d < s" "bit x (j + (s + d))" by (auto simp: add.assoc)
      then show ?thesis by (intro exI [of _ "s + d"]) simp
    qed
  qed
  then show "bit (y OR drop_bit s y) j = (\<exists>d < 2 * s. bit x (j + d))"
    using assms(1) by (simp add: covers_def bit_simps add.commute)
qed

lemma covers_mask:
  assumes "covers 32 y x" "x < 2 ^ n" "\<not> x < 2 ^ (n - 1)" "0 < n" "n \<le> 31" "0 \<le> x"
  shows "y = 2 ^ n - 1"
proof -
  have x: "x = take_bit n x" using assms(2,6) by (simp add: take_bit_int_eq_self)
  have top: "bit x (n - 1)"
  proof -
    have "x div 2 ^ (n - 1) = 1"
      using assms(2,3,4,6) by (intro int_div_pos_eq [where r = "x - 2 ^ (n - 1)"])
        (simp_all flip: power_Suc)
    then show ?thesis by (simp add: bit_iff_odd)
  qed
  have high: "\<not> bit x j" if "n \<le> j" for j using that by (subst x) (simp add: bit_take_bit_iff)
  have "bit y j = bit (2 ^ n - 1 :: int) j" for j
  proof -
    have "bit y j \<longleftrightarrow> j < n"
    proof
      assume "bit y j"
      then obtain d where "bit x (j + d)" using assms(1) by (auto simp: covers_def)
      then show "j < n" using high by (meson le_add1 not_less le_trans)
    next
      assume j: "j < n"
      then have "bit x (j + (n - 1 - j))" "n - 1 - j < 32" using top assms(5) by auto
      then show "bit y j" using assms(1) unfolding covers_def by blast
    qed
    then show ?thesis by (simp add: bit_mask_iff flip: mask_eq_exp_minus_1)
  qed
  then show ?thesis by (rule bit_eqI)
qed

lemma calculateCapacity_power:
  assumes "0 \<le> x" "x \<le> 2 ^ 30"
  obtains n where "calculateCapacity x = 2 ^ n" "n \<le> 30" "x \<le> 2 ^ n" "x \<noteq> 0 \<Longrightarrow> 2 ^ n < 2 * x"
proof -
  consider "x = 0" | "x = 1" | "x = 2 ^ 30" | "2 \<le> x" "x < 2 ^ 30" using assms by linarith
  then show ?thesis
  proof cases
    case 1
    then show ?thesis using that [of 4] by (simp add: calculateCapacity_def)
  next
    case 2
    then show ?thesis using that [of 0] by (simp add: calculateCapacity_def Let_def wrap32_id)
  next
    case 3
    then show ?thesis using that [of 30] by (simp add: calculateCapacity_def)
  next
    case 4
    let ?x = "x - 1"
    define n where "n = (LEAST n. ?x < 2 ^ n)"
    have "?x < 2 ^ 30" using 4 by simp
    then have n1: "?x < 2 ^ n" unfolding n_def by (rule LeastI)
    have n3: "0 < n" using n1 4 by (cases n) auto
    have n2: "\<not> ?x < 2 ^ (n - 1)"
      using not_less_Least [of "n - 1" "\<lambda>n. ?x < 2 ^ n"] n3 by (simp add: n_def)
    note n = n1 n2 n3
    have n30: "n \<le> 30"
    proof (rule ccontr)
      assume "\<not> n \<le> 30"
      then have "(2::int) ^ 30 \<le> 2 ^ (n - 1)" by (intro power_increasing) auto
      with n(2) 4 show False by simp
    qed
    let ?x2 = "?x OR drop_bit 1 ?x"
    let ?x3 = "?x2 OR drop_bit 2 ?x2"
    let ?x4 = "?x3 OR drop_bit 4 ?x3"
    let ?x5 = "?x4 OR drop_bit 8 ?x4"
    let ?x6 = "?x5 OR drop_bit 16 ?x5"
    have "covers 2 ?x2 ?x" using covers_double [OF covers_start] by simp
    then have "covers 4 ?x3 ?x" using covers_double by fastforce
    then have "covers 8 ?x4 ?x" using covers_double by fastforce
    then have "covers 16 ?x5 ?x" using covers_double by fastforce
    then have "covers 32 ?x6 ?x" using covers_double by fastforce
    then have "?x6 = 2 ^ n - 1" using n n30 4 by (intro covers_mask) auto
    moreover have "(2::int) ^ n \<le> 2 ^ 30" using n30 by (intro power_increasing) auto
    then have "0 \<le> (2::int) ^ n \<and> (2::int) ^ n \<le> 1073741824" by simp
    then have "wrap32 (2 ^ n) = 2 ^ n" by (intro wrap32_id) linarith+
    ultimately have "calculateCapacity x = 2 ^ n"
      using 4 by (simp add: calculateCapacity_def Let_def wrap32_id)
    moreover have "(2::int) ^ n = 2 * 2 ^ (n - 1)" using n3 by (cases n) auto
    ultimately show ?thesis using that [of n] n30 n(1,2) by linarith
  qed
qed

lemma bucket_index_less: "bucket_index h (2 ^ n) < 2 ^ n"
proof -
  have "h AND (int (2 ^ n) - 1) = take_bit n h" by (simp add: take_bit_eq_mask mask_eq_exp_minus_1)
  moreover have "take_bit n h < 2 ^ n" "0 \<le> take_bit n h" by (simp_all add: take_bit_int_less_exp)
  ultimately show ?thesis by (simp add: bucket_index_def nat_less_iff)
qed

section \<open>The invariant\<close>

definition hm_entries :: "('k, 'v, 'z) hash_map_scheme \<Rightarrow> ('k, 'v) hash_entry list" where
  "hm_entries m = concat (elementData m)"

definition placed :: "('k \<Rightarrow> int) \<Rightarrow> ('k, 'v) hash_entry list list \<Rightarrow> bool" where
  "placed hashFunc bs \<longleftrightarrow>
     (\<forall>i<length bs. \<forall>e\<in>set (bs ! i).
        origKeyHash e = hashFunc (entryKey e) \<and> bucket_index (hashFunc (entryKey e)) (length bs) = i)"

definition table_inv :: "('k \<Rightarrow> int) \<Rightarrow> ('k, 'v, 'z) hash_map_scheme \<Rightarrow> bool" where
  "table_inv hashFunc m \<longleftrightarrow>
     (\<exists>n\<le>30. length (elementData m) = 2 ^ n) \<and>
     placed hashFunc (elementData m) \<and>
     distinct (map entryKey (hm_entries m)) \<and>
     elementCount m = int (length (hm_entries m)) \<and>
     threshold m = int (length (elementData m)) * int (loadNum m) div 2 ^ loadExp m"

definition hm_lookup :: "('k, 'v, 'z) hash_map_scheme \<Rightarrow> 'k \<Rightarrow> 'v option" where
  "hm_lookup m = map_of (map (\<lambda>e. (entryKey e, entryValue e)) (hm_entries m))"

lemma table_inv_index: "table_inv hf m \<Longrightarrow> bucket_index h (length (elementData m)) < length (elementData m)"
  by (auto simp: table_inv_def bucket_index_less)

lemma entry_in_bucket:
  assumes "table_inv hf m" "e \<in> set (hm_entries m)"
  shows "e \<in> set (elementData m ! bucket_index (hf (entryKey e)) (length (elementData m)))"
    "origKeyHash e = hf (entryKey e)"
proof -
  obtain chain where "chain \<in> set (elementData m)" "e \<in> set chain"
    using assms(2) by (auto simp: hm_entries_def)
  then obtain i where "i < length (elementData m)" "e \<in> set (elementData m ! i)"
    by (auto simp: in_set_conv_nth [of chain])
  moreover from this assms(1)
  have "origKeyHash e = hf (entryKey e)" "bucket_index (hf (entryKey e)) (length (elementData m)) = i"
    by (simp_all add: table_inv_def placed_def)
  ultimately show "e \<in> set (elementData m ! bucket_index (hf (entryKey e)) (length (elementData m)))"
    "origKeyHash e = hf (entryKey e)" by auto
qed

lemma bucket_in_entries:
  "i < length (elementData m) \<Longrightarrow> e \<in> set (elementData m ! i) \<Longrightarrow> e \<in> set (hm_entries m)"
  by (auto simp: hm_entries_def)

lemma keys_unique:
  "table_inv hf m \<Longrightarrow> e \<in> set (hm_entries m) \<Longrightarrow> e' \<in> set (hm_entries m) \<Longrightarrow> entryKey e = entryKey e' \<Longrightarrow> e = e'"
  by (auto simp: table_inv_def distinct_map inj_on_def)

lemma findKeyEntry_Some:
  assumes inv: "table_inv hf m"
  shows "findKeyEntry k (bucket_index (hf k) (length (elementData m))) (hf k) m = Some e \<longleftrightarrow>
    e \<in> set (hm_entries m) \<and> entryKey e = k"
proof -
  let ?b = "elementData m ! bucket_index (hf k) (length (elementData m))"
  let ?P = "\<lambda>e. \<not> (origKeyHash e \<noteq> hf k \<or> \<not> (k = entryKey e))"
  show ?thesis
  proof
    assume "findKeyEntry k (bucket_index (hf k) (length (elementData m))) (hf k) m = Some e"
    then have "e \<in> set ?b" "?P e"
      by (auto simp: findKeyEntry_def find_Some_iff in_set_conv_nth)
    then show "e \<in> set (hm_entries m) \<and> entryKey e = k"
      using bucket_in_entries table_inv_index [OF inv] by blast
  next
    assume e: "e \<in> set (hm_entries m) \<and> entryKey e = k"
    then have "e \<in> set ?b" "?P e" using entry_in_bucket [OF inv, of e] by auto
    then obtain e' where e': "find ?P ?b = Some e'" by (cases "find ?P ?b") (auto simp: find_None_iff)
    then have "e' \<in> set ?b" "entryKey e' = k" by (auto simp: find_Some_iff in_set_conv_nth)
    then have "e' = e"
      using keys_unique [OF inv] e bucket_in_entries [OF table_inv_index [OF inv]] by blast
    then show "findKeyEntry k (bucket_index (hf k) (length (elementData m))) (hf k) m = Some e"
      using e' by (simp add: findKeyEntry_def)
  qed
qed

lemma hm_lookup_Some:
  assumes "table_inv hf m"
  shows "hm_lookup m k = Some v \<longleftrightarrow> (\<exists>e\<in>set (hm_entries m). entryKey e = k \<and> entryValue e = v)"
proof -
  have "distinct (map fst (map (\<lambda>e. (entryKey e, entryValue e)) (hm_entries m)))"
    using assms by (simp add: table_inv_def comp_def)
  from map_of_eq_Some_iff [OF this] show ?thesis by (auto simp: hm_lookup_def)
qed

lemma findKeyEntry_lookup:
  assumes "table_inv hf m"
  shows "map_option entryValue (findKeyEntry k (bucket_index (hf k) (length (elementData m))) (hf k) m) =
    hm_lookup m k"
proof (rule option_eqI)
  fix v
  show "map_option entryValue (findKeyEntry k (bucket_index (hf k) (length (elementData m))) (hf k) m) = Some v
    \<longleftrightarrow> hm_lookup m k = Some v"
    unfolding map_option_eq_Some findKeyEntry_Some [OF assms] hm_lookup_Some [OF assms] by blast
qed

lemma lookup_perm:
  assumes "table_inv hf m" "table_inv hf m'" "mset (hm_entries m) = mset (hm_entries m')"
  shows "hm_lookup m = hm_lookup m'"
proof (rule ext, rule option_eqI)
  fix k v
  have "set (hm_entries m) = set (hm_entries m')" using assms(3) by (rule mset_eq_setD)
  then show "hm_lookup m k = Some v \<longleftrightarrow> hm_lookup m' k = Some v"
    by (simp add: hm_lookup_Some [OF assms(1)] hm_lookup_Some [OF assms(2)])
qed

section \<open>Insertion and rehashing\<close>

lemma mset_concat_push:
  "i < length bs \<Longrightarrow> mset (concat (bs[i := e # bs ! i])) = add_mset e (mset (concat bs))"
proof (induction bs arbitrary: i)
  case (Cons b bs)
  then show ?case by (cases i) auto
qed simp

lemma placed_push:
  assumes "placed hf bs" "i < length bs" "origKeyHash e = hf (entryKey e)"
    "bucket_index (origKeyHash e) (length bs) = i"
  shows "placed hf (bs[i := e # bs ! i])"
  using assms by (auto simp: placed_def nth_list_update)

lemma move_chain:
  assumes "placed hf bs" "length bs = 2 ^ n" "\<forall>e\<in>set chain. origKeyHash e = hf (entryKey e)"
  shows "placed hf (fold (move_entry (2 ^ n)) chain bs) \<and>
    length (fold (move_entry (2 ^ n)) chain bs) = 2 ^ n \<and>
    mset (concat (fold (move_entry (2 ^ n)) chain bs)) = mset chain + mset (concat bs)"
  using assms
proof (induction chain arbitrary: bs)
  case (Cons e chain)
  let ?bs = "move_entry (2 ^ n) e bs"
  have i: "bucket_index (origKeyHash e) (2 ^ n) < length bs"
    using bucket_index_less Cons.prems(2) by simp
  have "placed hf ?bs" "length ?bs = 2 ^ n" "mset (concat ?bs) = add_mset e (mset (concat bs))"
    using Cons.prems i by (simp_all add: move_entry_def Let_def placed_push mset_concat_push)
  with Cons.IH [of ?bs] Cons.prems(3) show ?case by simp
qed simp

lemma move_chains:
  assumes "placed hf bs" "length bs = 2 ^ n" "\<forall>e\<in>set (concat css). origKeyHash e = hf (entryKey e)"
  shows "placed hf (fold (\<lambda>chain. fold (move_entry (2 ^ n)) chain) css bs) \<and>
    length (fold (\<lambda>chain. fold (move_entry (2 ^ n)) chain) css bs) = 2 ^ n \<and>
    mset (concat (fold (\<lambda>chain. fold (move_entry (2 ^ n)) chain) css bs)) =
      mset (concat css) + mset (concat bs)"
  using assms
proof (induction css arbitrary: bs)
  case (Cons chain css)
  then show ?case using move_chain [of hf bs n chain] by simp
qed simp

text \<open>
  \<open>rehash\<close> needs only the placement of the entries, not the counters: in \<open>putImpl\<close> it runs when the
  new entry is linked and counted.
\<close>

lemma rehash_to_spec:
  assumes "\<forall>e\<in>set (hm_entries m). origKeyHash e = hf (entryKey e)" "0 \<le> c" "c \<le> 2 ^ 29"
  obtains n where "n \<le> 30" "length (elementData (rehash_to c m)) = 2 ^ n" "2 * c \<le> 2 ^ n"
    "c \<noteq> 0 \<Longrightarrow> (2::int) ^ n < 4 * c"
    "placed hf (elementData (rehash_to c m))"
    "mset (hm_entries (rehash_to c m)) = mset (hm_entries m)"
    "rehash_to c m = m\<lparr>elementData := elementData (rehash_to c m),
       threshold := int (length (elementData (rehash_to c m))) * int (loadNum m) div 2 ^ loadExp m\<rparr>"
proof -
  let ?c = "if c = 0 then 1 else wrap32 (push_bit 1 c)"
  have c: "?c = (if c = 0 then 1 else 2 * c)" using assms by (simp add: push_bit_eq_mult wrap32_id)
  have cb: "0 \<le> ?c" "?c \<le> 2 ^ 30" unfolding c using assms by simp_all
  obtain n where n: "calculateCapacity ?c = 2 ^ n" "n \<le> 30" "?c \<le> 2 ^ n" "?c \<noteq> 0 \<Longrightarrow> 2 ^ n < 2 * ?c"
    using calculateCapacity_power [of ?c] cb by blast
  have len: "nat (calculateCapacity ?c) = 2 ^ n" using n by (simp add: nat_power_eq)
  have empty: "placed hf (replicate (2 ^ n) [])" by (simp add: placed_def)
  have concat: "concat (replicate (2 ^ n) []) = []" by (induction "2 ^ n :: nat") auto
  note mv = move_chains [OF empty _ assms(1) [unfolded hm_entries_def], of n, simplified concat, simplified]
  have data: "elementData (rehash_to c m) =
    fold (\<lambda>chain. fold (move_entry (2 ^ n)) chain) (elementData m) (replicate (2 ^ n) [])"
    using len by (simp add: rehash_to_def Let_def computeThreshold_def nat_power_eq)
  show ?thesis
  proof (rule that [of n])
    show "rehash_to c m = m\<lparr>elementData := elementData (rehash_to c m),
       threshold := int (length (elementData (rehash_to c m))) * int (loadNum m) div 2 ^ loadExp m\<rparr>"
      by (simp add: rehash_to_def Let_def computeThreshold_def)
  qed (use n c mv data in \<open>auto simp: hm_entries_def split: if_splits\<close>)
qed

lemma distinct_keys_mset: "mset es = mset es' \<Longrightarrow> distinct (map entryKey es) = distinct (map entryKey es')"
  by (metis mset_map mset_eq_imp_distinct_iff)

lemma rehash_to_inv:
  assumes inv: "table_inv hf m" and c: "0 \<le> c" "c \<le> 2 ^ 29"
  shows "table_inv hf (rehash_to c m)" "hm_lookup (rehash_to c m) = hm_lookup m"
    "hash_map.more (rehash_to c m) = hash_map.more m" "elementCount (rehash_to c m) = elementCount m"
    "loadNum (rehash_to c m) = loadNum m" "loadExp (rehash_to c m) = loadExp m"
    "c \<noteq> 0 \<Longrightarrow> int (length (elementData (rehash_to c m))) < 4 * c"
proof -
  have "\<forall>e\<in>set (hm_entries m). origKeyHash e = hf (entryKey e)"
    using entry_in_bucket(2) [OF inv] by blast
  from rehash_to_spec [OF this c] obtain n where n: "n \<le> 30" "length (elementData (rehash_to c m)) = 2 ^ n"
    "c \<noteq> 0 \<Longrightarrow> (2::int) ^ n < 4 * c" "placed hf (elementData (rehash_to c m))"
    "mset (hm_entries (rehash_to c m)) = mset (hm_entries m)"
    and eq: "rehash_to c m = m\<lparr>elementData := elementData (rehash_to c m),
       threshold := int (length (elementData (rehash_to c m))) * int (loadNum m) div 2 ^ loadExp m\<rparr>"
    by metis
  have proj: "hash_map.more (rehash_to c m) = hash_map.more m" "elementCount (rehash_to c m) = elementCount m"
    "loadNum (rehash_to c m) = loadNum m" "loadExp (rehash_to c m) = loadExp m"
    "threshold (rehash_to c m) =
       int (length (elementData (rehash_to c m))) * int (loadNum m) div 2 ^ loadExp m"
    by (subst eq, simp)+
  have "length (hm_entries (rehash_to c m)) = length (hm_entries m)"
    using n(5) by (rule mset_eq_length)
  then show rinv: "table_inv hf (rehash_to c m)"
    using inv n proj distinct_keys_mset [OF n(5)] by (auto simp: table_inv_def)
  show "hm_lookup (rehash_to c m) = hm_lookup m" by (rule lookup_perm [OF rinv inv n(5)])
  show "hash_map.more (rehash_to c m) = hash_map.more m" "elementCount (rehash_to c m) = elementCount m"
    "loadNum (rehash_to c m) = loadNum m" "loadExp (rehash_to c m) = loadExp m" by (rule proj)+
  show "c \<noteq> 0 \<Longrightarrow> int (length (elementData (rehash_to c m))) < 4 * c" using n by simp
qed

lemma set_entry_value_entries:
  "hm_entries (set_entry_value k v m) =
     map (\<lambda>e. if entryKey e = k then e\<lparr>entryValue := v\<rparr> else e) (hm_entries m)"
  by (simp add: hm_entries_def set_entry_value_def map_concat)

lemma set_entry_value_inv:
  assumes inv: "table_inv hf m" and k: "hm_lookup m k \<noteq> None"
  shows "table_inv hf (set_entry_value k v m)" "hm_lookup (set_entry_value k v m) = (hm_lookup m)(k \<mapsto> v)"
proof -
  let ?f = "\<lambda>e. if entryKey e = k then e\<lparr>entryValue := v\<rparr> else e"
  have keys: "entryKey \<circ> ?f = entryKey" by auto
  have "placed hf (map (map ?f) (elementData m))"
    using inv by (auto simp: table_inv_def placed_def)
  then show inv': "table_inv hf (set_entry_value k v m)"
    using inv unfolding table_inv_def set_entry_value_entries
    by (auto simp: set_entry_value_def keys)
  show "hm_lookup (set_entry_value k v m) = (hm_lookup m)(k \<mapsto> v)"
  proof (rule ext, rule option_eqI)
    fix k' w
    show "hm_lookup (set_entry_value k v m) k' = Some w \<longleftrightarrow> ((hm_lookup m)(k \<mapsto> v)) k' = Some w"
    proof (cases "k' = k")
      case True
      obtain e where "e \<in> set (hm_entries m)" "entryKey e = k"
        using k hm_lookup_Some [OF inv, of k] by auto
      then show ?thesis
        unfolding hm_lookup_Some [OF inv'] set_entry_value_entries set_map bex_simps(7)
        using True by auto
    next
      case False
      then show ?thesis
        unfolding hm_lookup_Some [OF inv'] set_entry_value_entries
        using hm_lookup_Some [OF inv, of k' w] by auto
    qed
  qed
qed

text \<open>What \<open>putImpl\<close> needs of the virtual \<open>createHashedEntry\<close>: it links one new entry.\<close>

definition links_entry ::
    "('k \<Rightarrow> nat \<Rightarrow> int \<Rightarrow> ('k, 'v, 'z) hash_map_scheme \<Rightarrow> ('k, 'v, 'z) hash_map_scheme) \<Rightarrow> 'v \<Rightarrow> bool" where
  "links_entry create dflt \<longleftrightarrow>
     (\<forall>k i h m. hash_map.truncate (create k i h m) =
        hash_map.truncate (createHashedEntry dflt k i h m))"

lemma links_createHashedEntry: "links_entry (createHashedEntry dflt) dflt"
  by (simp add: links_entry_def)

lemma links_entryD:
  assumes "links_entry create dflt"
  shows "elementData (create k i h m) =
      (elementData m)[i := \<lparr>entryKey = k, entryValue = dflt, origKeyHash = h\<rparr> # elementData m ! i]"
    "elementCount (create k i h m) = elementCount m" "loadNum (create k i h m) = loadNum m"
    "loadExp (create k i h m) = loadExp m" "threshold (create k i h m) = threshold m"
    "mapModCount (create k i h m) = mapModCount m"
  using assms [unfolded links_entry_def, rule_format, of k i h m]
  by (simp_all add: hash_map.defs createHashedEntry_def)

lemma create_inv:
  assumes inv: "table_inv hf m" and new: "hm_lookup m k = None" and create: "links_entry create dflt"
  defines "m1 \<equiv> create k (bucket_index (hf k) (length (elementData m))) (hf k)
      (m\<lparr>mapModCount := mapModCount m + 1\<rparr>)"
  defines "m2 \<equiv> m1\<lparr>elementCount := elementCount m1 + 1\<rparr>"
  shows "table_inv hf m2" "hm_lookup m2 = (hm_lookup m)(k \<mapsto> dflt)"
    "length (elementData m2) = length (elementData m)" "elementCount m2 = elementCount m + 1"
    "loadNum m2 = loadNum m" "loadExp m2 = loadExp m"
proof -
  note lk = links_entryD [OF create]
  let ?i = "bucket_index (hf k) (length (elementData m))"
  let ?e = "\<lparr>entryKey = k, entryValue = dflt, origKeyHash = hf k\<rparr>"
  have i: "?i < length (elementData m)" by (rule table_inv_index [OF inv])
  have data: "elementData m2 = (elementData m)[?i := ?e # elementData m ! ?i]"
    by (simp add: m2_def m1_def lk)
  then have ms: "mset (hm_entries m2) = add_mset ?e (mset (hm_entries m))"
    using mset_concat_push [OF i, of ?e] by (simp add: hm_entries_def)
  have notin: "k \<notin> entryKey ` set (hm_entries m)"
    using new hm_lookup_Some [OF inv, of k] by (auto simp del: not_None_eq)
  have "mset (map entryKey (hm_entries m2)) = mset (k # map entryKey (hm_entries m))"
    using ms by (simp add: image_mset_add_mset)
  then have "distinct (map entryKey (hm_entries m2)) = distinct (k # map entryKey (hm_entries m))"
    by (rule mset_eq_imp_distinct_iff)
  then have dist: "distinct (map entryKey (hm_entries m2))"
    using notin inv by (simp add: table_inv_def)
  have pl: "placed hf (elementData m2)"
    unfolding data using inv i by (intro placed_push) (simp_all add: table_inv_def)
  have "length (hm_entries m2) = Suc (length (hm_entries m))"
    using arg_cong [OF ms, of size] by simp
  then show inv2: "table_inv hf m2"
    using inv dist pl data by (simp add: table_inv_def m2_def m1_def lk)
  have entries: "set (hm_entries m2) = insert ?e (set (hm_entries m))"
    using arg_cong [OF ms, of set_mset] by simp
  show "hm_lookup m2 = (hm_lookup m)(k \<mapsto> dflt)"
  proof (rule ext, rule option_eqI)
    fix k' w
    show "hm_lookup m2 k' = Some w \<longleftrightarrow> ((hm_lookup m)(k \<mapsto> dflt)) k' = Some w"
      unfolding hm_lookup_Some [OF inv2] entries
      using notin hm_lookup_Some [OF inv, of k' w] by auto
  qed
  show "length (elementData m2) = length (elementData m)" by (simp add: data)
  show "elementCount m2 = elementCount m + 1" "loadNum m2 = loadNum m" "loadExp m2 = loadExp m"
    by (simp_all add: m2_def m1_def lk)
qed

definition table_room :: "('k, 'v, 'z) hash_map_scheme \<Rightarrow> bool" where
  "table_room m \<longleftrightarrow> length (elementData m) \<le> 2 ^ 29"

lemma putImpl_spec:
  assumes inv: "table_inv hf m" and room: "table_room m" and create: "links_entry create dflt"
    and put: "putImpl hf create k v m = (b, m')"
  shows "table_inv hf m'" "hm_lookup m' = (hm_lookup m)(k \<mapsto> v)" "b = (hm_lookup m k \<noteq> None)"
proof -
  have look: "(findKeyEntry k (bucket_index (hf k) (length (elementData m))) (hf k) m = None) =
    (hm_lookup m k = None)"
    using findKeyEntry_lookup [OF inv, of k] by (metis map_option_is_None)
  have "table_inv hf m' \<and> hm_lookup m' = (hm_lookup m)(k \<mapsto> v) \<and> b = (hm_lookup m k \<noteq> None)"
  proof (cases "hm_lookup m k")
    case (Some w)
    then have "b" "m' = set_entry_value k v m"
      using put look by (auto simp: putImpl_def Let_def split: option.splits)
    then show ?thesis using set_entry_value_inv [OF inv, of k v] Some by simp
  next
    case None
    let ?m1 = "create k (bucket_index (hf k) (length (elementData m))) (hf k)
      (m\<lparr>mapModCount := mapModCount m + 1\<rparr>)"
    let ?m2 = "?m1\<lparr>elementCount := elementCount ?m1 + 1\<rparr>"
    let ?m3 = "if elementCount ?m2 > threshold ?m2 then rehash ?m2 else ?m2"
    note m2 = create_inv [OF inv None create]
    have "table_inv hf ?m3 \<and> hm_lookup ?m3 = (hm_lookup m)(k \<mapsto> dflt)"
      using m2 room rehash_to_inv [OF m2(1), of "int (length (elementData ?m2))"]
      by (simp add: rehash_def table_room_def)
    then have "table_inv hf (set_entry_value k v ?m3) \<and>
      hm_lookup (set_entry_value k v ?m3) = (hm_lookup m)(k \<mapsto> v)"
      using set_entry_value_inv [of hf ?m3 k v] by simp
    moreover have "\<not> b" "m' = set_entry_value k v ?m3"
      using put look None by (simp_all add: putImpl_def Let_def split: option.splits)
    ultimately show ?thesis using None by simp
  qed
  then show "table_inv hf m'" "hm_lookup m' = (hm_lookup m)(k \<mapsto> v)" "b = (hm_lookup m k \<noteq> None)"
    by blast+
qed

section \<open>Removal\<close>

lemma unlink_Some:
  "unlink P es = Some (e, es') \<Longrightarrow> P e \<and> mset es = add_mset e (mset es') \<and> find P es = Some e"
  by (induction es arbitrary: es') (auto split: if_splits option.splits)

lemma unlink_None: "unlink P es = None \<longleftrightarrow> find P es = None"
  by (induction es) (auto split: option.splits)

lemma mset_concat_drop:
  "i < length bs \<Longrightarrow> mset (bs ! i) = add_mset e (mset c) \<Longrightarrow>
    mset (concat bs) = add_mset e (mset (concat (bs[i := c])))"
proof (induction bs arbitrary: i)
  case (Cons b bs)
  then show ?case by (cases i) auto
qed simp

lemma placed_drop:
  assumes "placed hf bs" "i < length bs" "set c \<subseteq> set (bs ! i)"
  shows "placed hf (bs[i := c])"
  using assms by (auto simp: placed_def nth_list_update subset_iff split: if_splits)

lemma concat_nil [simp]: "concat (map (\<lambda>_. []) xs) = []" "concat (replicate n []) = []"
  by (induction xs; induction n) simp_all

lemma drop_entry_inv:
  assumes inv: "table_inv hf m" and i: "i < length (elementData m)"
    and c: "mset (elementData m ! i) = add_mset e (mset c)"
  defines "m' \<equiv> m\<lparr>elementData := (elementData m)[i := c],
      mapModCount := mapModCount m + 1, elementCount := elementCount m - 1\<rparr>"
  shows "table_inv hf m'" "hm_lookup m' = (hm_lookup m)(entryKey e := None)"
proof -
  have ms: "mset (hm_entries m) = add_mset e (mset (hm_entries m'))"
    using mset_concat_drop [OF i c] by (simp add: hm_entries_def m'_def)
  have "mset (map entryKey (hm_entries m)) = mset (entryKey e # map entryKey (hm_entries m'))"
    using ms by simp
  then have "distinct (map entryKey (hm_entries m)) = distinct (entryKey e # map entryKey (hm_entries m'))"
    by (rule mset_eq_imp_distinct_iff)
  then have dist: "distinct (map entryKey (hm_entries m'))" "entryKey e \<notin> entryKey ` set (hm_entries m')"
    using inv by (simp_all add: table_inv_def)
  have "set c \<subseteq> set (elementData m ! i)" using c by (metis set_mset_mset set_mset_add_mset_insert subset_insertI)
  then have pl: "placed hf (elementData m')"
    using inv i by (simp add: table_inv_def m'_def placed_drop)
  have "length (hm_entries m) = Suc (length (hm_entries m'))"
    using arg_cong [OF ms, of size] by simp
  then show inv': "table_inv hf m'"
    using inv dist(1) pl by (simp add: table_inv_def m'_def)
  have entries: "set (hm_entries m) = insert e (set (hm_entries m'))"
    using arg_cong [OF ms, of set_mset] by simp
  have ne: "entryKey x \<noteq> entryKey e" if "x \<in> set (hm_entries m')" for x
    using dist(2) imageI [OF that, of entryKey] by auto
  show "hm_lookup m' = (hm_lookup m)(entryKey e := None)"
  proof (rule ext, rule option_eqI)
    fix k w
    show "hm_lookup m' k = Some w \<longleftrightarrow> ((hm_lookup m)(entryKey e := None)) k = Some w"
      using ne unfolding fun_upd_apply hm_lookup_Some [OF inv'] by (auto simp: hm_lookup_Some [OF inv] entries)
  qed
qed

lemma removeEntry_spec:
  assumes inv: "table_inv hf m"
  shows "hm_lookup m k = None \<Longrightarrow> removeEntry hf k m = (None, m)"
    "hm_lookup m k = Some v \<Longrightarrow> \<exists>e m'. removeEntry hf k m = (Some e, m') \<and> entryValue e = v \<and> entryKey e = k \<and>
       table_inv hf m' \<and> hm_lookup m' = (hm_lookup m)(k := None) \<and>
       hash_map.more m' = hash_map.more m \<and> length (elementData m') = length (elementData m)"
proof -
  let ?i = "bucket_index (hf k) (length (elementData m))"
  let ?P = "\<lambda>e. origKeyHash e = hf k \<and> k = entryKey e"
  have find: "find ?P (elementData m ! ?i) = findKeyEntry k ?i (hf k) m"
    unfolding findKeyEntry_def by (rule find_cong) auto
  show "removeEntry hf k m = (None, m)" if "hm_lookup m k = None"
  proof -
    have "findKeyEntry k ?i (hf k) m = None"
      using findKeyEntry_lookup [OF inv, of k] that by (metis map_option_is_None)
    then have "unlink ?P (elementData m ! ?i) = None" using find by (simp add: unlink_None)
    then show ?thesis by (simp add: removeEntry_def)
  qed
  show "\<exists>e m'. removeEntry hf k m = (Some e, m') \<and> entryValue e = v \<and> entryKey e = k \<and> table_inv hf m' \<and>
       hm_lookup m' = (hm_lookup m)(k := None) \<and>
       hash_map.more m' = hash_map.more m \<and> length (elementData m') = length (elementData m)"
    if "hm_lookup m k = Some v"
  proof -
    have "map_option entryValue (findKeyEntry k ?i (hf k) m) = Some v"
      using findKeyEntry_lookup [OF inv, of k] that by simp
    then obtain e where e: "findKeyEntry k ?i (hf k) m = Some e" "entryValue e = v" by auto
    have "unlink ?P (elementData m ! ?i) \<noteq> None" using find e(1) unlink_None by force
    then obtain e' c where c': "unlink ?P (elementData m ! ?i) = Some (e', c)" by auto
    have "e' = e" using unlink_Some [OF c'] find e(1) by simp
    then have c: "unlink ?P (elementData m ! ?i) = Some (e, c)" using c' by simp
    from unlink_Some [OF c] have k: "entryKey e = k"
      and ms: "mset (elementData m ! ?i) = add_mset e (mset c)" by blast+
    let ?m = "m\<lparr>elementData := (elementData m)[?i := c],
      mapModCount := mapModCount m + 1, elementCount := elementCount m - 1\<rparr>"
    have "removeEntry hf k m = (Some e, ?m)" using c by (simp add: removeEntry_def Let_def)
    with e(2) k drop_entry_inv [OF inv table_inv_index [OF inv] ms] show ?thesis
      by (intro exI [of _ e] exI [of _ ?m]) simp
  qed
qed

section \<open>The map contract\<close>

lemma init_table_inv:
  assumes "0 \<le> c" "c \<le> 2 ^ 30"
  shows "table_inv hf (init_table c ln le)" "hm_lookup (init_table c ln le) = (\<lambda>_. None)"
    "elementCount (init_table c ln le) = 0"
proof -
  obtain n where n: "calculateCapacity c = 2 ^ n" "n \<le> 30"
    using calculateCapacity_power [OF assms] by blast
  from n show "table_inv hf (init_table c ln le)" "hm_lookup (init_table c ln le) = (\<lambda>_. None)"
    "elementCount (init_table c ln le) = 0"
    by (auto simp: table_inv_def init_table_def computeThreshold_def hm_entries_def hm_lookup_def
        placed_def nat_power_eq)
qed

lemma clear_inv:
  assumes "table_inv hf m"
  shows "table_inv hf (hm_clear m)" "hm_lookup (hm_clear m) = (\<lambda>_. None)"
    "hash_map.more (hm_clear m) = hash_map.more m"
  using assms by (auto simp: table_inv_def hm_clear_def hm_entries_def hm_lookup_def placed_def)

lemma lookup_dom: "dom (hm_lookup m) = entryKey ` set (hm_entries m)"
  by (auto simp: hm_lookup_def dom_map_of_conv_image_fst image_image)

lemma size_inv:
  assumes "table_inv hf m"
  shows "elementCount m = int (card (dom (hm_lookup m))) \<and> finite (dom (hm_lookup m))"
  using assms by (simp add: lookup_dom table_inv_def distinct_card flip: set_map)

lemma hm_get_lookup:
  assumes "table_inv hf m"
  shows "hm_get hf k m = of_option NoSuchElementException (hm_lookup m k)"
  using findKeyEntry_lookup [OF assms, of k, symmetric]
  by (auto simp: hm_get_def getEntry_def Let_def split: option.splits)

text \<open>
  The hash map meets the contract for any hash function and any default value, as long as the table
  can still be doubled.
\<close>

interpretation hm: map_store "table_inv hf" table_room hm_lookup new_HashMap "hm_put hf dflt" "hm_get hf"
  "hm_remove hf" hm_size hm_clear for hf :: "'k \<Rightarrow> int" and dflt :: 'v
proof unfold_locales
  show "table_inv hf (new_HashMap :: ('k, 'v) hash_map)"
    "hm_lookup (new_HashMap :: ('k, 'v) hash_map) = (\<lambda>_. None)"
    by (simp_all add: new_HashMap_def init_table_inv)
next
  fix m m' :: "('k, 'v) hash_map" and k v b
  assume a: "table_inv hf m" "table_room m" "hm_put hf dflt k v m = (b, m')"
  show "table_inv hf m' \<and> hm_lookup m' = (hm_lookup m)(k \<mapsto> v) \<and> b = (hm_lookup m k \<noteq> None)"
    using putImpl_spec [OF a(1,2) links_createHashedEntry a(3) [unfolded hm_put_def]] by simp
next
  fix m :: "('k, 'v) hash_map" and k v
  assume inv: "table_inv hf m"
  show "hm_get hf k m = of_option NoSuchElementException (hm_lookup m k)"
    by (rule hm_get_lookup [OF inv])
  show "hm_remove hf k m = Inl NoSuchElementException" if "hm_lookup m k = None"
    using removeEntry_spec(1) [OF inv that] by (simp add: hm_remove_def)
  show "\<exists>m'. hm_remove hf k m = Inr (v, m') \<and> table_inv hf m' \<and> hm_lookup m' = (hm_lookup m)(k := None)"
    if "hm_lookup m k = Some v"
    using removeEntry_spec(2) [OF inv that] by (auto simp: hm_remove_def)
  show "hm_size m = int (card (dom (hm_lookup m))) \<and> finite (dom (hm_lookup m))"
    using size_inv [OF inv] by (simp add: hm_size_def)
  show "table_inv hf (hm_clear m) \<and> hm_lookup (hm_clear m) = (\<lambda>_. None)"
    using clear_inv [OF inv] by simp
qed

section \<open>Iteration\<close>

lemma skip_empty_drop:
  "concat (drop (skip_empty bs pos) bs) = concat (drop pos bs)"
  "skip_empty bs pos < length bs \<Longrightarrow> bs ! skip_empty bs pos \<noteq> []"
proof (induction bs pos rule: skip_empty.induct)
  case (1 bs pos)
  have step: "concat (drop pos bs) = concat (drop (Suc pos) bs)" if "pos < length bs" "bs ! pos = []"
    using that by (simp flip: Cons_nth_drop_Suc)
  {
    case 1
    show ?case
      by (subst skip_empty.simps) (use "1.IH"(1) step in auto)
  next
    case 2
    show ?case
      using 2 "1.IH"(2) by (subst skip_empty.simps, subst (asm) skip_empty.simps) (auto split: if_splits)
  }
qed

definition remaining :: "('k, 'v, 'z) hash_map_scheme \<Rightarrow> 'k map_iterator \<Rightarrow> 'k list" where
  "remaining m it = futureEntry it @ map entryKey (concat (drop (position it) (elementData m)))"

lemma entry_of_lookup:
  assumes inv: "table_inv hf m" and k: "k \<in> entryKey ` set (hm_entries m)"
  obtains e where "entry_of k m = Some e" "entryKey e = k" "hm_lookup m k = Some (entryValue e)"
proof -
  obtain e' where "e' \<in> set (hm_entries m)" "entryKey e' = k" using k by auto
  then have "entry_of k m \<noteq> None" by (auto simp: entry_of_def find_None_iff hm_entries_def)
  then obtain e where e: "entry_of k m = Some e" by blast
  then have "e \<in> set (hm_entries m)" "entryKey e = k"
    by (auto simp: entry_of_def find_Some_iff hm_entries_def) (metis nth_mem set_concat UN_E UN_I)
  then show ?thesis using that [OF e] hm_lookup_Some [OF inv, of k "entryValue e"] by blast
qed

lemma mi_hasNext_remaining:
  "fst (mi_hasNext m it) \<longleftrightarrow> remaining m it \<noteq> []"
  "remaining m (snd (mi_hasNext m it)) = remaining m it"
  "expectedMapModCount (snd (mi_hasNext m it)) = expectedMapModCount it"
proof -
  let ?pos = "skip_empty (elementData m) (position it)"
  have "?pos < length (elementData m) \<longleftrightarrow> concat (drop (position it) (elementData m)) \<noteq> []"
  proof
    assume lt: "?pos < length (elementData m)"
    then have "concat (drop ?pos (elementData m)) \<noteq> []"
      using skip_empty_drop(2) [OF lt] by (simp flip: Cons_nth_drop_Suc)
    then show "concat (drop (position it) (elementData m)) \<noteq> []" by (simp add: skip_empty_drop)
  next
    assume "concat (drop (position it) (elementData m)) \<noteq> []"
    then have "concat (drop ?pos (elementData m)) \<noteq> []" by (simp only: skip_empty_drop not_False_eq_True)
    then show "?pos < length (elementData m)" by (metis concat.simps(1) drop_all not_less)
  qed
  then show "fst (mi_hasNext m it) \<longleftrightarrow> remaining m it \<noteq> []"
    by (auto simp: mi_hasNext_def remaining_def Let_def)
  show "remaining m (snd (mi_hasNext m it)) = remaining m it"
    by (simp add: mi_hasNext_def remaining_def Let_def skip_empty_drop)
  show "expectedMapModCount (snd (mi_hasNext m it)) = expectedMapModCount it"
    by (simp add: mi_hasNext_def Let_def)
qed

lemma mi_next_remaining:
  assumes inv: "table_inv hf m" and mod: "expectedMapModCount it = mapModCount m"
    and rem: "remaining m it = k # ks" and k: "k \<in> entryKey ` set (hm_entries m)"
  obtains it' where "mi_next m it = Inr ((k, the (hm_lookup m k)), it')" "remaining m it' = ks"
    "expectedMapModCount it' = mapModCount m"
proof -
  obtain more it1 where has: "mi_hasNext m it = (more, it1)" by force
  have more: more using mi_hasNext_remaining(1) [of m it] rem has by simp
  have rem1: "remaining m it1 = k # ks" using mi_hasNext_remaining(2) [of m it] rem has by simp
  have mod1: "expectedMapModCount it1 = mapModCount m" using mi_hasNext_remaining(3) [of m it] mod has by simp
  obtain e where e: "entry_of k m = Some e" "entryKey e = k" "hm_lookup m k = Some (entryValue e)"
    using entry_of_lookup [OF inv k] by metis
  obtain it' where it': "mi_makeNext m it = Inr it'" "currentEntry it' = Some k"
    "remaining m it' = ks" "expectedMapModCount it' = mapModCount m"
  proof (cases "futureEntry it1")
    case Nil
    then have pos: "position it1 = skip_empty (elementData m) (position it)"
      "position it1 < length (elementData m)" "elementData m ! position it1 \<noteq> []"
      using has more skip_empty_drop(2) [of "elementData m" "position it"]
      by (auto simp: mi_hasNext_def Let_def split: if_splits)
    then obtain x xs where x: "elementData m ! position it1 = x # xs" by (cases "elementData m ! position it1") auto
    then have "entryKey x = k" "map entryKey xs @ map entryKey (concat (drop (Suc (position it1)) (elementData m))) = ks"
      using rem1 Nil pos(2) by (auto simp: remaining_def simp flip: Cons_nth_drop_Suc)
    with that show ?thesis
      using Nil x mod mod1 has more by (simp add: mi_makeNext_def Let_def remaining_def)
  next
    case (Cons f fs)
    then have "f = k" "fs @ map entryKey (concat (drop (position it1) (elementData m))) = ks"
      using rem1 by (auto simp: remaining_def)
    with that show ?thesis
      using Cons mod mod1 has more by (simp add: mi_makeNext_def Let_def remaining_def)
  qed
  with that e show ?thesis by (simp add: mi_next_def)
qed

lemma iterate_from_remaining:
  assumes inv: "table_inv hf m"
  shows "expectedMapModCount it = mapModCount m \<Longrightarrow> set (remaining m it) \<subseteq> entryKey ` set (hm_entries m) \<Longrightarrow>
    iterate_from m it = Some (Inr (map (\<lambda>k. (k, the (hm_lookup m k))) (remaining m it)))"
proof (induction "remaining m it" arbitrary: it)
  case Nil
  then show ?case
    using mi_hasNext_remaining(1) [of m it] by (subst iterate_from.simps) (auto split: prod.splits)
next
  case (Cons k ks)
  obtain more it1 where has: "mi_hasNext m it = (more, it1)" by force
  have more: more using mi_hasNext_remaining(1) [of m it] Cons.hyps(2) has by (metis fst_conv list.distinct(1))
  have rem1: "remaining m it1 = k # ks" using mi_hasNext_remaining(2) [of m it] Cons.hyps(2) has by simp
  have mod1: "expectedMapModCount it1 = mapModCount m"
    using mi_hasNext_remaining(3) [of m it] Cons.prems(1) has by simp
  have k: "k \<in> entryKey ` set (hm_entries m)" using Cons.prems(2) Cons.hyps(2) by (metis list.set_intros(1) subsetD)
  obtain it2 where it2: "mi_next m it1 = Inr ((k, the (hm_lookup m k)), it2)" "remaining m it2 = ks"
    "expectedMapModCount it2 = mapModCount m"
    using mi_next_remaining [OF inv mod1 rem1 k] by metis
  have "set (remaining m it2) \<subseteq> entryKey ` set (hm_entries m)"
    using it2(2) Cons.prems(2) Cons.hyps(2) by (metis set_subset_Cons subset_trans)
  from Cons.hyps(1) [OF it2(2) [symmetric] it2(3) this]
  show ?case
    using has more it2 by (subst iterate_from.simps) (simp flip: Cons.hyps(2))
qed

lemma iterate_complete:
  assumes inv: "table_inv hf m"
  obtains kvs where "iterate_from m (mapIterator m) = Some (Inr kvs)" "distinct (map fst kvs)"
    "map_of kvs = hm_lookup m" "int (length kvs) = elementCount m"
    "map fst kvs = map entryKey (hm_entries m)"
proof -
  let ?ks = "map entryKey (hm_entries m)"
  let ?kvs = "map (\<lambda>k. (k, the (hm_lookup m k))) ?ks"
  have rem: "remaining m (mapIterator m) = ?ks" by (simp add: remaining_def mapIterator_def hm_entries_def)
  have it: "iterate_from m (mapIterator m) = Some (Inr ?kvs)"
    using iterate_from_remaining [OF inv, of "mapIterator m"] rem by (simp add: mapIterator_def)
  have fst: "map fst ?kvs = ?ks" by (simp add: comp_def)
  have "map_of ?kvs = hm_lookup m"
    by (rule map_of_map_keys) (simp add: lookup_dom)
  moreover have "distinct ?ks" "elementCount m = int (length ?kvs)"
    using inv by (simp_all add: table_inv_def)
  ultimately show ?thesis using that [OF it] unfolding fst by simp
qed

section \<open>Growth\<close>

text \<open>
  With the default load factor the table stays within a constant factor of the number of entries it
  ever held, so that a bounded number of calls never reaches the capacity limit.
\<close>

definition default_load :: "('k, 'v, 'z) hash_map_scheme \<Rightarrow> bool" where
  "default_load m \<longleftrightarrow> loadNum m = 3 \<and> loadExp m = 2"

lemma putImpl_length:
  assumes inv: "table_inv hf m" and room: "table_room m" and create: "links_entry create dflt"
    and load: "default_load m" and put: "putImpl hf create k v m = (b, m')"
  shows "int (length (elementData m')) \<le> max (int (length (elementData m))) (6 * (elementCount m + 1))"
    "default_load m'" "elementCount m' \<le> elementCount m + 1"
proof -
  have look: "(findKeyEntry k (bucket_index (hf k) (length (elementData m))) (hf k) m = None) =
    (hm_lookup m k = None)"
    using findKeyEntry_lookup [OF inv, of k] by (metis map_option_is_None)
  have "int (length (elementData m')) \<le> max (int (length (elementData m))) (6 * (elementCount m + 1)) \<and>
    default_load m' \<and> elementCount m' \<le> elementCount m + 1"
  proof (cases "hm_lookup m k")
    case (Some w)
    then have "m' = set_entry_value k v m"
      using put look by (auto simp: putImpl_def Let_def split: option.splits)
    then show ?thesis using load by (simp add: set_entry_value_def default_load_def)
  next
    case None
    let ?m1 = "create k (bucket_index (hf k) (length (elementData m))) (hf k)
      (m\<lparr>mapModCount := mapModCount m + 1\<rparr>)"
    let ?m2 = "?m1\<lparr>elementCount := elementCount ?m1 + 1\<rparr>"
    note m2 = create_inv [OF inv None create]
    let ?c = "int (length (elementData ?m2))"
    have m': "m' = set_entry_value k v (if elementCount ?m2 > threshold ?m2 then rehash ?m2 else ?m2)"
      using put look None by (simp add: putImpl_def Let_def split: option.splits)
    show ?thesis
    proof (cases "elementCount ?m2 > threshold ?m2")
      case False
      then show ?thesis using m' m2 load by (simp add: set_entry_value_def default_load_def)
    next
      case True
      have "threshold ?m2 = ?c * 3 div 4"
        using m2(1,5,6) load by (simp add: table_inv_def default_load_def)
      with True m2(4) have "?c * 3 div 4 < elementCount m + 1" by simp
      then have small: "?c * 3 < 4 * (elementCount m + 1)" by (simp add: div_less_iff_less_mult)
      have c0: "?c \<noteq> 0" using table_inv_index [OF inv] m2(3) by (metis not_less_zero of_nat_0_eq_iff)
      have "0 \<le> ?c" "?c \<le> 2 ^ 29" using room m2(3) by (simp_all add: table_room_def)
      note r = rehash_to_inv [OF m2(1) this, folded rehash_def]
      have "int (length (elementData (rehash ?m2))) < 4 * ?c" using r(7) c0 by blast
      moreover have "default_load (rehash ?m2)" "elementCount (rehash ?m2) = elementCount m + 1"
        using r(4,5,6) m2(4-6) load by (simp_all add: default_load_def)
      ultimately show ?thesis
        using m' True small by (simp add: set_entry_value_def default_load_def)
    qed
  qed
  then show "int (length (elementData m')) \<le> max (int (length (elementData m))) (6 * (elementCount m + 1))"
    "default_load m'" "elementCount m' \<le> elementCount m + 1" by blast+
qed

lemma rehash_length:
  assumes inv: "table_inv hf m" and room: "table_room m" and load: "default_load m"
    and full: "elementCount m + 1 > threshold m"
  shows "int (length (elementData (rehash m))) \<le> 6 * (elementCount m + 1)"
proof -
  let ?c = "int (length (elementData m))"
  have "threshold m = ?c * 3 div 4" using inv load by (simp add: table_inv_def default_load_def)
  with full have "?c * 3 < 4 * (elementCount m + 1)" by (simp add: div_less_iff_less_mult)
  moreover have "?c \<noteq> 0" using table_inv_index [OF inv] by (metis not_less_zero of_nat_0_eq_iff)
  moreover have "0 \<le> ?c" "?c \<le> 2 ^ 29" using room by (simp_all add: table_room_def)
  note rehash_to_inv(7) [OF inv this, folded rehash_def]
  ultimately show ?thesis by linarith
qed

text \<open>\<open>grown n m\<close>: what holds after at most \<open>n\<close> insertions into a map of the default constructor.\<close>

definition grown :: "('k \<Rightarrow> int) \<Rightarrow> int \<Rightarrow> ('k, 'v, 'z) hash_map_scheme \<Rightarrow> bool" where
  "grown hf n m \<longleftrightarrow> table_inv hf m \<and> default_load m \<and> elementCount m \<le> n \<and>
     int (length (elementData m)) \<le> max 16 (6 * n)"

lemma grown_room: "grown hf n m \<Longrightarrow> n \<le> 2 ^ 26 \<Longrightarrow> table_room m"
  by (auto simp: grown_def table_room_def)

lemma grown_putImpl:
  assumes g: "grown hf n m" and n: "n \<le> 2 ^ 26" and create: "links_entry create dflt"
    and put: "putImpl hf create k v m = (b, m')"
  shows "grown hf (n + 1) m'"
proof -
  have inv: "table_inv hf m" and load: "default_load m" using g by (simp_all add: grown_def)
  note room = grown_room [OF g n]
  show ?thesis
    using putImpl_spec(1) [OF inv room create put] putImpl_length [OF inv room create load put] g
    by (auto simp: grown_def)
qed

lemma grown_new: "grown hf 0 new_HashMap"
proof -
  have "calculateCapacity 12 = 16"
    by (simp add: calculateCapacity_def Let_def wrap32_id)
  then show ?thesis
    using init_table_inv(1) [where c = 12 and ln = 3 and le = 2 and hf = hf]
    by (simp add: grown_def new_HashMap_def default_load_def init_table_def computeThreshold_def)
qed

lemma hm_step_refines:
  assumes g: "grown hf n m" and n: "n \<le> 2 ^ 26" and step: "hm_step hf dflt c m = (r, m')"
  shows "grown hf (n + 1) m' \<and> map_step c (hm_lookup m) = (r, hm_lookup m')"
proof -
  have inv: "table_inv hf m" using g by (simp add: grown_def)
  note room = grown_room [OF g n]
  show ?thesis
  proof (cases c)
    case (MPut k v)
    obtain b where put: "hm_put hf dflt k v m = (b, m')" "r = Replaced b"
      using step MPut by (auto split: prod.splits)
    show ?thesis
      using hm.put_law [OF inv room put(1)] put(2) MPut
        grown_putImpl [OF g n links_createHashedEntry put(1) [unfolded hm_put_def]] by simp
  next
    case (MGet k)
    then show ?thesis using step g hm.get_law [OF inv, of k] by (auto simp: grown_def)
  next
    case (MRemove k)
    show ?thesis
    proof (cases "hm_lookup m k")
      case None
      then show ?thesis
        using step MRemove g hm.remove_none_law [OF inv None] by (auto simp: grown_def fun_upd_idem)
    next
      case (Some v)
      obtain e m1 where rm: "removeEntry hf k m = (Some e, m1)" "entryValue e = v" "table_inv hf m1"
        "hm_lookup m1 = (hm_lookup m)(k := None)" "length (elementData m1) = length (elementData m)"
        using removeEntry_spec(2) [OF inv Some] by blast
      have "loadNum m1 = loadNum m" "loadExp m1 = loadExp m" "elementCount m1 = elementCount m - 1"
        using rm(1) by (auto simp: removeEntry_def Let_def split: option.splits)
      then show ?thesis
        using step MRemove g rm Some by (auto simp: hm_remove_def grown_def default_load_def)
    qed
  next
    case MClear
    have "loadNum (hm_clear m) = loadNum m" "loadExp (hm_clear m) = loadExp m"
      "elementCount (hm_clear m) \<le> elementCount m" "length (elementData (hm_clear m)) = length (elementData m)"
      by (simp_all add: hm_clear_def)
    then show ?thesis
      using step MClear g clear_inv [OF inv] by (auto simp: grown_def default_load_def)
  qed
qed

lemma hm_run_refines:
  "grown hf n m \<Longrightarrow> n + int (length cs) \<le> 2 ^ 26 \<Longrightarrow>
    \<exists>m'. hm_run hf dflt cs m = (fst (map_run cs (hm_lookup m)), m') \<and>
      hm_lookup m' = snd (map_run cs (hm_lookup m)) \<and> grown hf (n + int (length cs)) m'"
proof (induction cs arbitrary: m n)
  case (Cons c cs)
  obtain r m1 where step: "hm_step hf dflt c m = (r, m1)" by force
  have "grown hf (n + 1) m1" "map_step c (hm_lookup m) = (r, hm_lookup m1)"
    using hm_step_refines [OF Cons.prems(1) _ step] Cons.prems(2) by auto
  with Cons.IH [of "n + 1" m1] Cons.prems(2) step show ?case
    by (auto simp: split_def Let_def algebra_simps)
qed simp

section \<open>Properties of the hash map\<close>

text \<open>
  C21.  For every hash function and every sequence of up to 2^26 calls of \<open>put\<close>, \<open>get\<close>, \<open>remove\<close> and
  \<open>clear\<close> on a new hash map, the replies are those of a mathematical finite map, and the final table
  is well formed, holds exactly the map's entries and counts them.
\<close>

theorem hash_map_refines_map:
  assumes "length cs \<le> 2 ^ 26"
  shows "\<exists>m. hm_run hf dflt cs new_HashMap = (fst (map_run cs (\<lambda>_. None)), m) \<and> table_inv hf m \<and>
    hm_lookup m = snd (map_run cs (\<lambda>_. None)) \<and>
    hm_size m = int (card (dom (snd (map_run cs (\<lambda>_. None)))))"
proof -
  obtain m where m: "hm_run hf dflt cs new_HashMap = (fst (map_run cs (\<lambda>_. None)), m)"
    "hm_lookup m = snd (map_run cs (\<lambda>_. None))" "table_inv hf m"
    using hm_run_refines [OF grown_new, of cs hf dflt] assms
    by (auto simp: grown_def hm.empty_law(2))
  with hm.size_law [OF m(3)] show ?thesis by auto
qed

theorem hash_map_refines_map_witness:
  "fst (hm_run (\<lambda>k. k * 16) (0::int) [MPut (1::int) 10, MPut 2 20, MPut 1 30, MGet 1, MRemove 2, MGet 2] new_HashMap) =
    [Replaced False, Replaced False, Replaced True, Got (Inr 30), Removed (Inr 20),
     Got (Inl NoSuchElementException)]"
  using hash_map_refines_map [of "[MPut (1::int) 10, MPut 2 20, MPut 1 30, MGet 1, MRemove 2, MGet 2]"
      "\<lambda>k. k * 16" "0::int"] by (auto simp: Let_def)

text \<open>
  C37.  The iterator loop over a well-formed hash map terminates without an exception and yields every
  entry exactly once, with its current value.
\<close>

theorem hash_map_iteration:
  assumes "table_inv hf m"
  shows "\<exists>kvs. iterate_from m (mapIterator m) = Some (Inr kvs) \<and> distinct (map fst kvs) \<and>
    map_of kvs = hm_lookup m \<and> int (length kvs) = hm_size m"
proof -
  obtain kvs where "iterate_from m (mapIterator m) = Some (Inr kvs)" "distinct (map fst kvs)"
    "map_of kvs = hm_lookup m" "int (length kvs) = elementCount m"
    using iterate_complete [OF assms] by metis
  then show ?thesis by (auto simp: hm_size_def)
qed

theorem hash_map_iteration_witness:
  "\<exists>kvs. iterate_from (snd (hm_put (\<lambda>k. k) 0 (5::int) (7::int) new_HashMap))
      (mapIterator (snd (hm_put (\<lambda>k. k) 0 (5::int) (7::int) new_HashMap))) = Some (Inr kvs) \<and>
    map_of kvs = [5 \<mapsto> 7]"
proof -
  obtain b m where put: "hm_put (\<lambda>k. k) 0 (5::int) (7::int) new_HashMap = (b, m)" by force
  have room: "table_room (new_HashMap :: (int, int) hash_map)"
    using grown_room [OF grown_new] by simp
  note p = hm.put_law [OF hm.empty_law(1) room put]
  then show ?thesis using hash_map_iteration [of "\<lambda>k. k" m] put by (auto simp: hm.empty_law(2))
qed

text \<open>
  \<open>calculateCapacity\<close> returns the least power of two that holds the requested number of
  buckets, so that masking a hash with \<open>length - 1\<close> is a valid bucket index for every hash, negative
  ones included.
\<close>

theorem hash_map_capacity:
  assumes "0 < x" "x \<le> 2 ^ 30"
  shows "\<exists>n. calculateCapacity x = 2 ^ n \<and> x \<le> 2 ^ n \<and> 2 ^ n < 2 * x \<and>
    (\<forall>h. bucket_index h (nat (calculateCapacity x)) < nat (calculateCapacity x))"
proof -
  obtain n where n: "calculateCapacity x = 2 ^ n" "x \<le> 2 ^ n" "2 ^ n < 2 * x"
    using calculateCapacity_power [of x] assms by auto
  then show ?thesis using bucket_index_less [of _ n] by (auto simp: nat_power_eq)
qed

theorem hash_map_capacity_witness:
  "\<exists>n. calculateCapacity 1000 = 2 ^ n \<and> 1000 \<le> (2::int) ^ n \<and> (2::int) ^ n < 2000"
  using hash_map_capacity [of 1000] by auto

end
