(* ===== verification/LRUCache.thy ===== *)
theory LRUCache
  imports HashMap "HOL-Library.AList"
begin

text \<open>
  \<open>decaf/util/LinkedHashMap.h\<close> and \<open>decaf/util/LRUCache.h\<close>: a hash map whose entries are also linked
  in a chain from \<open>head\<close> (eldest) to \<open>tail\<close>, in insertion or access order, and its bounded subclass
  that evicts the head when a \<open>put\<close> makes it too large.  The chain is the list of the entries' keys
  from head to tail; a key has one entry, so this names the entries.
\<close>

section \<open>The objects\<close>

record ('k, 'v) linked_hash_map = "('k, 'v) hash_map" +
  accessOrder :: bool
  chain :: "'k list"

record ('k, 'v) lru_cache = "('k, 'v) linked_hash_map" +
  maxCacheSize :: int

text \<open>
  \<open>linkEntry\<close>: a new entry goes to the tail; an entry already in the chain moves there in access
  order and stays where it is otherwise.
\<close>

definition linkEntry ::
    "'k \<Rightarrow> ('k, 'v, 'z) linked_hash_map_scheme \<Rightarrow> ('k, 'v, 'z) linked_hash_map_scheme" where
  "linkEntry k m =
     (if chain m \<noteq> [] \<and> last (chain m) = k then m
      else if chain m = [] then m\<lparr>chain := [k]\<rparr>
      else if k \<notin> set (chain m) then m\<lparr>chain := chain m @ [k]\<rparr>
      else if accessOrder m then m\<lparr>chain := remove1 k (chain m) @ [k]\<rparr>
      else m)"

definition createLinkedEntry ::
    "'v \<Rightarrow> 'k \<Rightarrow> nat \<Rightarrow> int \<Rightarrow> ('k, 'v, 'z) linked_hash_map_scheme \<Rightarrow>
     ('k, 'v, 'z) linked_hash_map_scheme" where
  "createLinkedEntry dflt key index hash m = linkEntry key (createHashedEntry dflt key index hash m)"

text \<open>\<open>getEntry\<close> moves the found entry to the tail in access order (the links are \<open>mutable\<close>).\<close>

definition getLinkedEntry ::
    "('k \<Rightarrow> int) \<Rightarrow> 'k \<Rightarrow> ('k, 'v, 'z) linked_hash_map_scheme \<Rightarrow>
     ('k, 'v) hash_entry option \<times> ('k, 'v, 'z) linked_hash_map_scheme" where
  "getLinkedEntry hashFunc key m =
     (let hash = hashFunc key; index = bucket_index hash (length (elementData m));
          r = findKeyEntry key index hash m
      in (r, if r \<noteq> None \<and> accessOrder m \<and> last (chain m) \<noteq> key
             then m\<lparr>chain := remove1 key (chain m) @ [key]\<rparr> else m))"

definition lhm_get ::
    "('k \<Rightarrow> int) \<Rightarrow> 'k \<Rightarrow> ('k, 'v, 'z) linked_hash_map_scheme \<Rightarrow>
     'v result \<times> ('k, 'v, 'z) linked_hash_map_scheme" where
  "lhm_get hashFunc key m =
     (case getLinkedEntry hashFunc key m of
        (Some e, m') \<Rightarrow> (Inr (entryValue e), m')
      | (None, m') \<Rightarrow> (Inl NoSuchElementException, m'))"

definition lhm_containsKey ::
    "('k \<Rightarrow> int) \<Rightarrow> 'k \<Rightarrow> ('k, 'v, 'z) linked_hash_map_scheme \<Rightarrow>
     bool \<times> ('k, 'v, 'z) linked_hash_map_scheme" where
  "lhm_containsKey hashFunc key m =
     (let (r, m') = getLinkedEntry hashFunc key m in (r \<noteq> None, m'))"

definition lhm_remove ::
    "('k \<Rightarrow> int) \<Rightarrow> 'k \<Rightarrow> ('k, 'v, 'z) linked_hash_map_scheme \<Rightarrow>
     ('v \<times> ('k, 'v, 'z) linked_hash_map_scheme) result" where
  "lhm_remove hashFunc key m =
     (case removeEntry hashFunc key m of
        (Some e, m') \<Rightarrow> Inr (entryValue e, m'\<lparr>chain := remove1 key (chain m')\<rparr>)
      | (None, m') \<Rightarrow> Inl NoSuchElementException)"

definition lhm_clear :: "('k, 'v, 'z) linked_hash_map_scheme \<Rightarrow> ('k, 'v, 'z) linked_hash_map_scheme" where
  "lhm_clear m = (hm_clear m)\<lparr>chain := []\<rparr>"

text \<open>
  \<open>LinkedHashMap\<close> has its own \<open>putImpl\<close>: it resets the chain of an empty map, rehashes before it
  creates the entry, and links a found entry again, which moves it to the tail in access order.
\<close>

definition lhm_putImpl ::
    "('k \<Rightarrow> int) \<Rightarrow> 'v \<Rightarrow> 'k \<Rightarrow> 'v \<Rightarrow> ('k, 'v, 'z) linked_hash_map_scheme \<Rightarrow>
     bool \<times> ('k, 'v, 'z) linked_hash_map_scheme" where
  "lhm_putImpl hashFunc dflt key v m =
     (let m0 = (if elementCount m = 0 then m\<lparr>chain := []\<rparr> else m);
          hash = hashFunc key; index = bucket_index hash (length (elementData m0)) in
      case findKeyEntry key index hash m0 of
        None \<Rightarrow>
          let m1 = m0\<lparr>mapModCount := mapModCount m0 + 1, elementCount := elementCount m0 + 1\<rparr>;
              (m2, index2) = (if elementCount m1 > threshold m1
                 then (rehash m1, bucket_index hash (length (elementData (rehash m1))))
                 else (m1, index))
          in (False, set_entry_value key v (createLinkedEntry dflt key index2 hash m2))
      | Some _ \<Rightarrow> (True, set_entry_value key v (linkEntry key m0)))"

text \<open>
  \<open>put\<close> with the class's \<open>removeEldestEntry\<close>; binding the reference \<open>*head\<close> of an empty chain is
  undefined.  \<open>putAll\<close> is inherited from \<open>HashMap\<close> and calls \<open>putImpl\<close>, not \<open>put\<close>.
\<close>

definition put_evicting ::
    "('k \<Rightarrow> int) \<Rightarrow> 'v \<Rightarrow> (('k, 'v, 'z) linked_hash_map_scheme \<Rightarrow> bool) \<Rightarrow> 'k \<Rightarrow> 'v \<Rightarrow>
     ('k, 'v, 'z) linked_hash_map_scheme \<Rightarrow> (bool \<times> ('k, 'v, 'z) linked_hash_map_scheme) result" where
  "put_evicting hashFunc dflt removeEldestEntry key v m =
     (let (b, m1) = lhm_putImpl hashFunc dflt key v m in
      case chain m1 of
        [] \<Rightarrow> Inl UndefinedBehaviour
      | eldest # _ \<Rightarrow>
          if removeEldestEntry m1
          then bind_result (lhm_remove hashFunc eldest m1) (\<lambda>(_, m2). Inr (b, m2))
          else Inr (b, m1))"

definition lhm_put ::
    "('k \<Rightarrow> int) \<Rightarrow> 'v \<Rightarrow> 'k \<Rightarrow> 'v \<Rightarrow> ('k, 'v) linked_hash_map \<Rightarrow>
     (bool \<times> ('k, 'v) linked_hash_map) result" where
  "lhm_put hashFunc dflt key v m = put_evicting hashFunc dflt (\<lambda>_. False) key v m"

definition lru_put ::
    "('k \<Rightarrow> int) \<Rightarrow> 'v \<Rightarrow> 'k \<Rightarrow> 'v \<Rightarrow> ('k, 'v) lru_cache \<Rightarrow> (bool \<times> ('k, 'v) lru_cache) result" where
  "lru_put hashFunc dflt key v m =
     put_evicting hashFunc dflt (\<lambda>m. hm_size m > maxCacheSize m) key v m"

definition lhm_putAll ::
    "('k \<Rightarrow> int) \<Rightarrow> 'v \<Rightarrow> ('k \<times> 'v) list \<Rightarrow> ('k, 'v, 'z) linked_hash_map_scheme \<Rightarrow>
     ('k, 'v, 'z) linked_hash_map_scheme" where
  "lhm_putAll hashFunc dflt kvs m = putAll (lhm_putImpl hashFunc dflt) kvs m"

text \<open>
  The iterator of a linked map follows the chain: it yields the entries from head to tail, reading
  each through its chain pointer.
\<close>

definition lhm_entries :: "('k, 'v, 'z) linked_hash_map_scheme \<Rightarrow> ('k \<times> 'v) list" where
  "lhm_entries m =
     List.map_filter (\<lambda>k. map_option (\<lambda>e. (entryKey e, entryValue e)) (entry_of k m)) (chain m)"

definition lhm_containsValue :: "'v \<Rightarrow> ('k, 'v, 'z) linked_hash_map_scheme \<Rightarrow> bool" where
  "lhm_containsValue v m = list_ex (\<lambda>kv. v = snd kv) (lhm_entries m)"

definition new_LinkedHashMap :: "int \<Rightarrow> nat \<Rightarrow> nat \<Rightarrow> bool \<Rightarrow> ('k, 'v) linked_hash_map result" where
  "new_LinkedHashMap capacity ln le order =
     bind_result (HashMap_load capacity ln le) (\<lambda>m.
       Inr (hash_map.extend m \<lparr>accessOrder = order, chain = []\<rparr>))"

definition LRUCache_init :: "int \<Rightarrow> int \<Rightarrow> nat \<Rightarrow> nat \<Rightarrow> bool \<Rightarrow> ('k, 'v) lru_cache result" where
  "LRUCache_init initialCapacity maximumCacheSize ln le order =
     bind_result (HashMap_load initialCapacity ln le) (\<lambda>m.
       if maximumCacheSize \<le> 0 then Inl IllegalArgumentException
       else Inr (hash_map.extend m
              \<lparr>accessOrder = order, chain = [], maxCacheSize = maximumCacheSize\<rparr>))"

text \<open>The default constructor and the constructor with a maximum size.\<close>

definition new_LRUCache :: "('k, 'v) lru_cache" where
  "new_LRUCache = hash_map.extend (init_table 0 3 2)
     \<lparr>accessOrder = True, chain = [], maxCacheSize = 10000\<rparr>"

definition LRUCache_max :: "int \<Rightarrow> ('k, 'v) lru_cache result" where
  "LRUCache_max maximumCacheSize = LRUCache_init 0 maximumCacheSize 3 2 True"

definition setMaxCacheSize :: "int \<Rightarrow> ('k, 'v) lru_cache \<Rightarrow> ('k, 'v) lru_cache result" where
  "setMaxCacheSize newSize m =
     (if newSize \<le> 0 then Inl IllegalArgumentException else Inr (m\<lparr>maxCacheSize := newSize\<rparr>))"

section \<open>The iterator of a linked map\<close>

text \<open>
  \<open>AbstractMapIterator\<close> of \<open>LinkedHashMap\<close>: the next and the current entry by their keys; following a
  pointer to an entry that is no longer in the chain is undefined.
\<close>

record 'k linked_iterator =
  linkExpectedModCount :: int
  linkFuture :: "'k option"
  linkCurrent :: "'k option"

fun chain_next :: "'k \<Rightarrow> 'k list \<Rightarrow> 'k option result" where
  "chain_next k [] = Inl UndefinedBehaviour"
| "chain_next k (x # xs) =
     (if x = k then Inr (case xs of [] \<Rightarrow> None | y # _ \<Rightarrow> Some y) else chain_next k xs)"

definition linkedIterator :: "('k, 'v, 'z) linked_hash_map_scheme \<Rightarrow> 'k linked_iterator" where
  "linkedIterator m = \<lparr>linkExpectedModCount = mapModCount m,
     linkFuture = (case chain m of [] \<Rightarrow> None | k # _ \<Rightarrow> Some k), linkCurrent = None\<rparr>"

definition li_hasNext :: "'k linked_iterator \<Rightarrow> bool" where
  "li_hasNext it = (linkFuture it \<noteq> None)"

definition li_makeNext ::
    "('k, 'v, 'z) linked_hash_map_scheme \<Rightarrow> 'k linked_iterator \<Rightarrow> 'k linked_iterator result" where
  "li_makeNext m it =
     (if linkExpectedModCount it \<noteq> mapModCount m then Inl ConcurrentModificationException
      else
        case linkFuture it of
          None \<Rightarrow> Inl NoSuchElementException
        | Some k \<Rightarrow>
            bind_result (chain_next k (chain m)) (\<lambda>f. Inr (it\<lparr>linkCurrent := Some k, linkFuture := f\<rparr>)))"

definition li_next ::
    "('k, 'v, 'z) linked_hash_map_scheme \<Rightarrow> 'k linked_iterator \<Rightarrow> (('k \<times> 'v) \<times> 'k linked_iterator) result" where
  "li_next m it =
     bind_result (li_makeNext m it) (\<lambda>it1.
       case Option.bind (linkCurrent it1) (\<lambda>k. entry_of k m) of
         None \<Rightarrow> Inl UndefinedBehaviour
       | Some e \<Rightarrow> Inr ((entryKey e, entryValue e), it1))"

text \<open>\<open>removeEntry(HashMapEntry*)\<close>, and \<open>doRemove\<close>.\<close>

definition removeEntry_at ::
    "'k \<Rightarrow> ('k, 'v, 'z) hash_map_scheme \<Rightarrow> ('k, 'v, 'z) hash_map_scheme result" where
  "removeEntry_at k m =
     (case entry_of k m of
        None \<Rightarrow> Inl UndefinedBehaviour
      | Some e \<Rightarrow>
          let index = bucket_index (origKeyHash e) (length (elementData m)) in
          case unlink (\<lambda>e. entryKey e = k) (elementData m ! index) of
            None \<Rightarrow> Inl UndefinedBehaviour
          | Some (_, bucket) \<Rightarrow>
              Inr (m\<lparr>elementData := (elementData m)[index := bucket],
                     mapModCount := mapModCount m + 1, elementCount := elementCount m - 1\<rparr>))"

definition li_remove ::
    "('k, 'v, 'z) linked_hash_map_scheme \<Rightarrow> 'k linked_iterator \<Rightarrow>
     (('k, 'v, 'z) linked_hash_map_scheme \<times> 'k linked_iterator) result" where
  "li_remove m it =
     (if linkExpectedModCount it \<noteq> mapModCount m then Inl ConcurrentModificationException
      else
        case linkCurrent it of
          None \<Rightarrow> Inl IllegalStateException
        | Some k \<Rightarrow>
            bind_result (removeEntry_at k m) (\<lambda>m1.
              Inr (m1\<lparr>chain := remove1 k (chain m1)\<rparr>,
                   it\<lparr>linkCurrent := None, linkExpectedModCount := linkExpectedModCount it + 1\<rparr>)))"

text \<open>The loop \<open>while (iter->hasNext()) if (P(iter->next())) iter->remove();\<close>.\<close>

partial_function (option) remove_if_from ::
    "('k \<times> 'v \<Rightarrow> bool) \<Rightarrow> ('k, 'v, 'z) linked_hash_map_scheme \<Rightarrow> 'k linked_iterator \<Rightarrow>
     ('k, 'v, 'z) linked_hash_map_scheme result option" where
  "remove_if_from P m it =
     (if \<not> li_hasNext it then Some (Inr m)
      else
        case li_next m it of
          Inl e \<Rightarrow> Some (Inl e)
        | Inr (kv, it1) \<Rightarrow>
            if P kv
            then (case li_remove m it1 of
                    Inl e \<Rightarrow> Some (Inl e)
                  | Inr (m2, it2) \<Rightarrow> remove_if_from P m2 it2)
            else remove_if_from P m it1)"

section \<open>Sequences of calls\<close>

text \<open>
  The calls on a cache, and the specification: an association list from the eldest entry to the
  newest, in which \<open>get\<close> moves the entry to the end and \<open>put\<close> puts it there, then drops the eldest
  entry if there are too many.
\<close>

datatype ('k, 'v) lru_call = LPut 'k 'v | LGet 'k | LRemove 'k

datatype 'v lru_reply = LReplaced bool | LGot "'v result" | LRemoved "'v result"

fun lru_step ::
    "('k \<Rightarrow> int) \<Rightarrow> 'v \<Rightarrow> ('k, 'v) lru_call \<Rightarrow> ('k, 'v) lru_cache \<Rightarrow>
     ('v lru_reply \<times> ('k, 'v) lru_cache) result" where
  "lru_step hf dflt (LPut k v) m = bind_result (lru_put hf dflt k v m) (\<lambda>(b, m'). Inr (LReplaced b, m'))"
| "lru_step hf dflt (LGet k) m = (let (r, m') = lhm_get hf k m in Inr (LGot r, m'))"
| "lru_step hf dflt (LRemove k) m =
     (case lhm_remove hf k m of
        Inl e \<Rightarrow> Inr (LRemoved (Inl e), m)
      | Inr (v, m') \<Rightarrow> Inr (LRemoved (Inr v), m'))"

fun lru_run ::
    "('k \<Rightarrow> int) \<Rightarrow> 'v \<Rightarrow> ('k, 'v) lru_call list \<Rightarrow> ('k, 'v) lru_cache \<Rightarrow>
     ('v lru_reply list \<times> ('k, 'v) lru_cache) result" where
  "lru_run hf dflt [] m = Inr ([], m)"
| "lru_run hf dflt (c # cs) m =
     bind_result (lru_step hf dflt c m) (\<lambda>(r, m').
       bind_result (lru_run hf dflt cs m') (\<lambda>(rs, m''). Inr (r # rs, m'')))"

fun cache_step :: "int \<Rightarrow> ('k, 'v) lru_call \<Rightarrow> ('k \<times> 'v) list \<Rightarrow> 'v lru_reply \<times> ('k \<times> 'v) list" where
  "cache_step n (LPut k v) xs =
     (let xs' = AList.delete k xs @ [(k, v)]
      in (LReplaced (map_of xs k \<noteq> None), if int (length xs') > n then tl xs' else xs'))"
| "cache_step n (LGet k) xs =
     (LGot (of_option NoSuchElementException (map_of xs k)),
      case map_of xs k of None \<Rightarrow> xs | Some v \<Rightarrow> AList.delete k xs @ [(k, v)])"
| "cache_step n (LRemove k) xs =
     (LRemoved (of_option NoSuchElementException (map_of xs k)), AList.delete k xs)"

fun cache_run :: "int \<Rightarrow> ('k, 'v) lru_call list \<Rightarrow> ('k \<times> 'v) list \<Rightarrow> 'v lru_reply list \<times> ('k \<times> 'v) list" where
  "cache_run n [] xs = ([], xs)"
| "cache_run n (c # cs) xs =
     (let (r, xs') = cache_step n c xs; (rs, xs'') = cache_run n cs xs' in (r # rs, xs''))"

section \<open>Invariant and view\<close>

definition lhm_inv :: "('k \<Rightarrow> int) \<Rightarrow> ('k, 'v, 'z) linked_hash_map_scheme \<Rightarrow> bool" where
  "lhm_inv hf m \<longleftrightarrow> table_inv hf m \<and> distinct (chain m) \<and> set (chain m) = dom (hm_lookup m)"

definition lhm_view :: "('k, 'v, 'z) linked_hash_map_scheme \<Rightarrow> ('k \<times> 'v) list" where
  "lhm_view m = map (\<lambda>k. (k, the (hm_lookup m k))) (chain m)"

lemma view_keys [simp]: "map fst (lhm_view m) = chain m" "length (lhm_view m) = length (chain m)"
  by (simp_all add: lhm_view_def comp_def)

lemma map_of_view: "lhm_inv hf m \<Longrightarrow> map_of (lhm_view m) = hm_lookup m"
  unfolding lhm_view_def by (rule map_of_map_keys) (simp add: lhm_inv_def)

lemma view_entries:
  assumes "lhm_inv hf m"
  shows "lhm_entries m = lhm_view m"
proof -
  have "map_option (\<lambda>e. (entryKey e, entryValue e)) (entry_of k m) = Some (k, the (hm_lookup m k))"
    if "k \<in> set (chain m)" for k
  proof -
    have "k \<in> entryKey ` set (hm_entries m)" using assms that by (simp add: lhm_inv_def lookup_dom)
    then obtain e where "entry_of k m = Some e" "entryKey e = k" "hm_lookup m k = Some (entryValue e)"
      using entry_of_lookup assms unfolding lhm_inv_def by metis
    then show ?thesis by simp
  qed
  then show ?thesis unfolding lhm_entries_def lhm_view_def by (rule map_filter_total)
qed

lemma size_view: "lhm_inv hf m \<Longrightarrow> hm_size m = int (length (lhm_view m))"
  using size_inv [of hf m] distinct_card [of "chain m"] by (simp add: lhm_inv_def hm_size_def)

lemma same_more:
  assumes "hash_map.more m = hash_map.more (m' :: ('k, 'v, 'z) linked_hash_map_scheme)"
  shows "chain m = chain m'" "accessOrder m = accessOrder m'"
    "linked_hash_map.more m = linked_hash_map.more m'"
  using assms by (cases m; cases m'; simp)+

lemma links_createLinkedEntry: "links_entry (createLinkedEntry dflt) dflt"
  by (simp add: links_entry_def createLinkedEntry_def linkEntry_def hash_map.defs)

lemma linkEntry_table:
  "elementData (linkEntry k m) = elementData m" "elementCount (linkEntry k m) = elementCount m"
  "threshold (linkEntry k m) = threshold m" "loadNum (linkEntry k m) = loadNum m"
  "loadExp (linkEntry k m) = loadExp m" "accessOrder (linkEntry k m) = accessOrder m"
  "linked_hash_map.more (linkEntry k m) = linked_hash_map.more m"
  by (simp_all add: linkEntry_def)

lemma move_to_end: "distinct xs \<Longrightarrow> xs \<noteq> [] \<Longrightarrow> last xs = k \<Longrightarrow> remove1 k xs @ [k] = xs"
  by (cases xs rule: rev_cases) (auto simp: remove1_append)

lemma linkEntry_chain:
  "k \<notin> set (chain m) \<Longrightarrow> chain (linkEntry k m) = chain m @ [k]"
  "distinct (chain m) \<Longrightarrow> k \<in> set (chain m) \<Longrightarrow>
    chain (linkEntry k m) = (if accessOrder m then remove1 k (chain m) @ [k] else chain m)"
  by (auto simp: linkEntry_def move_to_end)

lemma entries_chain [simp]:
  "hm_entries (m\<lparr>chain := c\<rparr>) = hm_entries m" "hm_lookup (m\<lparr>chain := c\<rparr>) = hm_lookup m"
  "table_inv hf (m\<lparr>chain := c\<rparr>) = table_inv hf m" "grown hf n (m\<lparr>chain := c\<rparr>) = grown hf n m"
  by (simp_all add: hm_entries_def hm_lookup_def table_inv_def grown_def default_load_def)

lemma rehash_commutes:
  "rehash (m\<lparr>mapModCount := i, elementCount := j\<rparr>) = (rehash m)\<lparr>mapModCount := i, elementCount := j\<rparr>"
  by (simp add: rehash_def rehash_to_def computeThreshold_def Let_def)

lemma createLinked_commutes:
  "createLinkedEntry dflt k i h (m\<lparr>mapModCount := c, elementCount := n\<rparr>) =
    (createLinkedEntry dflt k i h (m\<lparr>mapModCount := c\<rparr>))\<lparr>elementCount := n\<rparr>"
  by (simp add: createLinkedEntry_def createHashedEntry_def linkEntry_def)

lemma empty_chain:
  assumes "lhm_inv hf m"
  shows "(if elementCount m = 0 then m\<lparr>chain := []\<rparr> else m) = m"
proof (cases "elementCount m = 0")
  case True
  then have "chain m = []" using assms size_inv [of hf m] by (auto simp: lhm_inv_def)
  then show ?thesis by simp
qed simp

text \<open>A found key: only its value and, in access order, its place in the chain change.\<close>

lemma linked_put_found:
  assumes inv: "lhm_inv hf m" and k: "hm_lookup m k = Some w"
  shows "lhm_putImpl hf dflt k v m = (True, set_entry_value k v (linkEntry k m))"
    "lhm_inv hf (set_entry_value k v (linkEntry k m))"
    "hm_lookup (set_entry_value k v (linkEntry k m)) = (hm_lookup m)(k \<mapsto> v)"
    "grown hf n m \<Longrightarrow> grown hf n (set_entry_value k v (linkEntry k m))"
proof -
  have tinv: "table_inv hf m" using inv by (simp add: lhm_inv_def)
  obtain e where "findKeyEntry k (bucket_index (hf k) (length (elementData m))) (hf k) m = Some e"
    using findKeyEntry_lookup [OF tinv, of k] k by auto
  then show "lhm_putImpl hf dflt k v m = (True, set_entry_value k v (linkEntry k m))"
    unfolding lhm_putImpl_def Let_def empty_chain [OF inv] by simp
  let ?m1 = "linkEntry k m" and ?m2 = "set_entry_value k v (linkEntry k m)"
  have ents: "hm_entries ?m1 = hm_entries m" by (simp add: hm_entries_def linkEntry_table)
  have look: "hm_lookup ?m1 = hm_lookup m" by (simp add: hm_lookup_def ents)
  have t1: "table_inv hf ?m1" using tinv by (simp add: table_inv_def ents linkEntry_table)
  have "hm_lookup ?m1 k \<noteq> None" using look k by simp
  note s = set_entry_value_inv [OF t1 this, of v]
  show lk: "hm_lookup ?m2 = (hm_lookup m)(k \<mapsto> v)" using s(2) look by simp
  have ch: "chain ?m2 = chain ?m1" by (simp add: set_entry_value_def)
  have mem: "k \<in> set (chain m)" "distinct (chain m)" using inv k by (auto simp: lhm_inv_def)
  show "lhm_inv hf ?m2"
    using s(1) lk ch linkEntry_chain(2) [OF mem(2,1)] mem inv by (auto simp: lhm_inv_def)
  assume "grown hf n m"
  then show "grown hf n ?m2"
    using s(1) by (simp add: grown_def default_load_def linkEntry_table set_entry_value_def)
qed

lemma linked_put_new:
  assumes inv: "lhm_inv hf m" and g: "grown hf n m" and n: "n \<le> 2 ^ 26" and k: "hm_lookup m k = None"
  obtains m' where "lhm_putImpl hf dflt k v m = (False, m')" "lhm_inv hf m'"
    "hm_lookup m' = (hm_lookup m)(k \<mapsto> v)" "chain m' = chain m @ [k]" "accessOrder m' = accessOrder m"
    "linked_hash_map.more m' = linked_hash_map.more m" "grown hf (n + 1) m'"
proof -
  have tinv: "table_inv hf m" using inv by (simp add: lhm_inv_def)
  have load: "default_load m" using g by (simp add: grown_def)
  note room = grown_room [OF g n]
  have find: "findKeyEntry k (bucket_index (hf k) (length (elementData m))) (hf k) m = None"
    using findKeyEntry_lookup [OF tinv, of k] k by simp
  define r where "r = (if elementCount m + 1 > threshold m then rehash m else m)"
  have "0 \<le> int (length (elementData m))" "int (length (elementData m)) \<le> 2 ^ 29"
    using room by (simp_all add: table_room_def)
  note rh = rehash_to_inv [OF tinv this, folded rehash_def]
  have r: "table_inv hf r" "hm_lookup r = hm_lookup m" "hash_map.more r = hash_map.more m"
    "elementCount r = elementCount m" "loadNum r = loadNum m" "loadExp r = loadExp m"
    "mapModCount r = mapModCount m"
    using tinv rh by (simp_all add: r_def rehash_def rehash_to_def computeThreshold_def Let_def)
  have len: "int (length (elementData r)) \<le> max 16 (6 * (n + 1))"
    using rehash_length [OF tinv room load] g by (auto simp: r_def grown_def)
  note same = same_more [OF r(3)]
  let ?m1 = "createLinkedEntry dflt k (bucket_index (hf k) (length (elementData r))) (hf k)
      (r\<lparr>mapModCount := mapModCount r + 1\<rparr>)"
  let ?m2 = "?m1\<lparr>elementCount := elementCount ?m1 + 1\<rparr>"
  have rk: "hm_lookup r k = None" using r(2) k by simp
  note c = create_inv [OF r(1) rk links_createLinkedEntry [of dflt]]
  have cnt: "elementCount ?m1 = elementCount m"
    using r(4) by (simp add: links_entryD(2) [OF links_createLinkedEntry])
  have put: "lhm_putImpl hf dflt k v m = (False, set_entry_value k v ?m2)"
    unfolding lhm_putImpl_def Let_def empty_chain [OF inv]
    using find r(4,7) cnt by (simp add: r_def rehash_commutes createLinked_commutes Let_def split: if_splits)
  have "hm_lookup ?m2 k \<noteq> None" using c(2) by simp
  note s = set_entry_value_inv [OF c(1) this, of v]
  let ?m' = "set_entry_value k v ?m2"
  have new: "k \<notin> set (chain m)" using inv k by (auto simp: lhm_inv_def)
  have ch: "chain ?m' = chain m @ [k]" "accessOrder ?m' = accessOrder m"
    "linked_hash_map.more ?m' = linked_hash_map.more m"
    using new same by (simp_all add: set_entry_value_def createLinkedEntry_def linkEntry_table
        linkEntry_chain(1) createHashedEntry_def)
  have look: "hm_lookup ?m' = (hm_lookup m)(k \<mapsto> v)" using s(2) c(2) r(2) by simp
  have "lhm_inv hf ?m'" using s(1) look ch(1) new inv by (auto simp: lhm_inv_def)
  moreover have "grown hf (n + 1) ?m'"
    using s(1) c(3-6) r(4-6) len g by (simp add: grown_def default_load_def set_entry_value_def)
  ultimately show ?thesis using that [OF put] look ch by blast
qed

lemma linked_put:
  assumes inv: "lhm_inv hf m" and g: "grown hf n m" and n: "n \<le> 2 ^ 26"
  obtains m' where "lhm_putImpl hf dflt k v m = (hm_lookup m k \<noteq> None, m')" "lhm_inv hf m'"
    "hm_lookup m' = (hm_lookup m)(k \<mapsto> v)"
    "chain m' = (if hm_lookup m k = None then chain m @ [k]
       else if accessOrder m then remove1 k (chain m) @ [k] else chain m)"
    "accessOrder m' = accessOrder m" "linked_hash_map.more m' = linked_hash_map.more m" "grown hf (n + 1) m'"
proof (cases "hm_lookup m k")
  case None
  show ?thesis by (rule linked_put_new [OF inv g n None, of dflt v]) (use None that in simp)
next
  case (Some w)
  have mem: "distinct (chain m)" "k \<in> set (chain m)" using inv Some by (auto simp: lhm_inv_def)
  have "grown hf (n + 1) m" using g by (auto simp: grown_def)
  then show ?thesis
    using that linked_put_found [OF inv Some] Some linkEntry_chain(2) [OF mem]
    by (simp add: set_entry_value_def linkEntry_table)
qed

lemma linked_remove:
  assumes inv: "lhm_inv hf m"
  shows "hm_lookup m k = None \<Longrightarrow> lhm_remove hf k m = Inl NoSuchElementException"
    "hm_lookup m k = Some v \<Longrightarrow> \<exists>m'. lhm_remove hf k m = Inr (v, m') \<and> lhm_inv hf m' \<and>
       hm_lookup m' = (hm_lookup m)(k := None) \<and> chain m' = remove1 k (chain m) \<and>
       accessOrder m' = accessOrder m \<and> linked_hash_map.more m' = linked_hash_map.more m \<and>
       length (elementData m') = length (elementData m) \<and> loadNum m' = loadNum m \<and> loadExp m' = loadExp m"
proof -
  have tinv: "table_inv hf m" using inv by (simp add: lhm_inv_def)
  show "lhm_remove hf k m = Inl NoSuchElementException" if "hm_lookup m k = None"
    using removeEntry_spec(1) [OF tinv that] by (simp add: lhm_remove_def)
  assume v: "hm_lookup m k = Some v"
  obtain e m1 where rm: "removeEntry hf k m = (Some e, m1)" "entryValue e = v" "table_inv hf m1"
    "hm_lookup m1 = (hm_lookup m)(k := None)" "hash_map.more m1 = hash_map.more m"
    "length (elementData m1) = length (elementData m)"
    using removeEntry_spec(2) [OF tinv v] by blast
  have load: "loadNum m1 = loadNum m" "loadExp m1 = loadExp m"
    using rm(1) by (auto simp: removeEntry_def Let_def split: option.splits)
  let ?m' = "m1\<lparr>chain := remove1 k (chain m1)\<rparr>"
  have look: "hm_lookup ?m' = hm_lookup m1" by (simp add: hm_lookup_def hm_entries_def)
  have "table_inv hf ?m'" using rm(3) by (simp add: table_inv_def hm_entries_def)
  then have "lhm_inv hf ?m'"
    using inv rm(4) look same_more(1) [OF rm(5)]
    by (auto simp: lhm_inv_def set_remove1_eq dom_def)
  with rm load look same_more [OF rm(5)] show "\<exists>m'. lhm_remove hf k m = Inr (v, m') \<and> lhm_inv hf m' \<and>
       hm_lookup m' = (hm_lookup m)(k := None) \<and> chain m' = remove1 k (chain m) \<and>
       accessOrder m' = accessOrder m \<and> linked_hash_map.more m' = linked_hash_map.more m \<and>
       length (elementData m') = length (elementData m) \<and> loadNum m' = loadNum m \<and> loadExp m' = loadExp m"
    by (auto simp: lhm_remove_def)
qed

lemma linked_get:
  assumes inv: "lhm_inv hf m" and acc: "accessOrder m"
  shows "\<exists>m'. lhm_get hf k m = (of_option NoSuchElementException (hm_lookup m k), m') \<and> lhm_inv hf m' \<and>
    hm_lookup m' = hm_lookup m \<and> accessOrder m' \<and> linked_hash_map.more m' = linked_hash_map.more m \<and>
    hash_map.truncate m' = hash_map.truncate m \<and>
    chain m' = (if hm_lookup m k = None then chain m else remove1 k (chain m) @ [k])"
proof -
  have tinv: "table_inv hf m" using inv by (simp add: lhm_inv_def)
  let ?r = "findKeyEntry k (bucket_index (hf k) (length (elementData m))) (hf k) m"
  have r: "map_option entryValue ?r = hm_lookup m k" by (rule findKeyEntry_lookup [OF tinv])
  let ?m' = "if ?r \<noteq> None \<and> accessOrder m \<and> last (chain m) \<noteq> k
             then m\<lparr>chain := remove1 k (chain m) @ [k]\<rparr> else m"
  have get: "lhm_get hf k m = (of_option NoSuchElementException (hm_lookup m k), ?m')"
    using r [symmetric] by (cases ?r) (simp_all add: lhm_get_def getLinkedEntry_def Let_def)
  have trunc: "hash_map.truncate ?m' = hash_map.truncate m" by (simp add: hash_map.defs)
  have look: "hm_lookup ?m' = hm_lookup m" by (simp add: hm_lookup_def hm_entries_def)
  have "table_inv hf ?m'" using tinv by (simp add: table_inv_def hm_entries_def)
  have mem: "k \<in> set (chain m)" if "hm_lookup m k \<noteq> None" using inv that by (auto simp: lhm_inv_def)
  have last_eq: "remove1 k (chain m) @ [k] = chain m" if at_end: "hm_lookup m k \<noteq> None" "last (chain m) = k"
  proof -
    obtain ks where ks: "chain m = ks @ [k]" using mem [OF at_end(1)] at_end(2)
      by (metis append_butlast_last_id empty_iff list.set(1))
    then have "k \<notin> set ks" using inv by (simp add: lhm_inv_def)
    then show ?thesis by (simp add: ks remove1_append)
  qed
  have ch: "chain ?m' = (if hm_lookup m k = None then chain m else remove1 k (chain m) @ [k])"
    using acc last_eq r by (cases ?r) auto
  have "distinct (chain ?m')" "set (chain ?m') = set (chain m)"
    unfolding ch using inv mem by (auto simp: lhm_inv_def)
  then have "lhm_inv hf ?m'"
    using \<open>table_inv hf ?m'\<close> look inv by (simp add: lhm_inv_def)
  moreover have "accessOrder ?m'" "linked_hash_map.more ?m' = linked_hash_map.more m" using acc by simp_all
  ultimately show ?thesis using get look ch trunc by blast
qed

section \<open>Refinement of the cache specification\<close>

lemma update_keyed:
  "distinct ks \<Longrightarrow> AList.update k v (map (\<lambda>k. (k, f k)) ks) =
    (if k \<in> set ks then map (\<lambda>k'. (k', (f(k := v)) k')) ks else map (\<lambda>k. (k, f k)) ks @ [(k, v)])"
  by (induction ks) auto

lemma delete_keyed:
  "distinct ks \<Longrightarrow> AList.delete k (map (\<lambda>k. (k, f k)) ks) = map (\<lambda>k. (k, f k)) (remove1 k ks)"
proof (induction ks)
  case (Cons a ks)
  have "AList.delete k (map (\<lambda>k. (k, f k)) ks) = map (\<lambda>k. (k, f k)) ks" if "k \<notin> set ks"
    using that by (intro AList.delete_id) (auto simp: image_iff)
  with Cons show ?case by auto
qed simp

lemma view_put:
  assumes inv: "lhm_inv hf m" and acc: "accessOrder m" and look: "hm_lookup m' = (hm_lookup m)(k \<mapsto> v)"
    and ch: "chain m' = (if hm_lookup m k = None then chain m @ [k]
       else if accessOrder m then remove1 k (chain m) @ [k] else chain m)"
  shows "lhm_view m' = AList.delete k (lhm_view m) @ [(k, v)]"
proof -
  have d: "distinct (chain m)" using inv by (simp add: lhm_inv_def)
  have "remove1 k (chain m) = chain m" if "hm_lookup m k = None"
    using inv that by (intro remove1_idem) (auto simp: lhm_inv_def)
  then have "chain m' = remove1 k (chain m) @ [k]" using ch acc by simp
  moreover have "map (\<lambda>x. (x, the (((hm_lookup m)(k \<mapsto> v)) x))) (remove1 k (chain m)) =
    map (\<lambda>x. (x, the (hm_lookup m x))) (remove1 k (chain m))"
    using d by (intro map_cong) auto
  ultimately show ?thesis unfolding lhm_view_def look delete_keyed [OF d] by simp
qed

lemma view_remove:
  assumes "lhm_inv hf m" "hm_lookup m' = (hm_lookup m)(k := None)" "chain m' = remove1 k (chain m)"
  shows "lhm_view m' = AList.delete k (lhm_view m)"
proof -
  have "distinct (chain m)" using assms(1) by (simp add: lhm_inv_def)
  then show ?thesis
    unfolding lhm_view_def assms(2,3) by (subst delete_keyed) auto
qed

definition lru_ok :: "('k \<Rightarrow> int) \<Rightarrow> int \<Rightarrow> int \<Rightarrow> ('k, 'v) lru_cache \<Rightarrow> bool" where
  "lru_ok hf n N m \<longleftrightarrow> grown hf n m \<and> lhm_inv hf m \<and> accessOrder m \<and> maxCacheSize m = N"

lemma grown_shrink:
  assumes "grown hf n m" "table_inv hf m'" "length (elementData m') = length (elementData m)"
    "loadNum m' = loadNum m" "loadExp m' = loadExp m" "dom (hm_lookup m') \<subseteq> dom (hm_lookup m)"
  shows "grown hf n m'"
proof -
  have "finite (dom (hm_lookup m))" using size_inv [of hf m] assms(1) by (simp add: grown_def)
  then have "card (dom (hm_lookup m')) \<le> card (dom (hm_lookup m))" using assms(6) by (rule card_mono)
  then show ?thesis
    using assms size_inv [of hf m] size_inv [of hf m'] by (auto simp: grown_def default_load_def)
qed

lemma grown_mono: "grown hf n m \<Longrightarrow> n \<le> n' \<Longrightarrow> grown hf n' m"
  by (auto simp: grown_def)

lemma same_max: "linked_hash_map.more m = linked_hash_map.more (m' :: ('k, 'v) lru_cache) \<Longrightarrow>
    maxCacheSize m = maxCacheSize m'"
  by (cases m; cases m') simp

lemma tl_delete_hd: "distinct (map fst xs) \<Longrightarrow> xs \<noteq> [] \<Longrightarrow> AList.delete (fst (hd xs)) xs = tl xs"
  by (cases xs) (auto intro!: AList.delete_id)

lemma lru_put_refines:
  assumes ok: "lru_ok hf n N m" and n: "n \<le> 2 ^ 26" and N: "0 < N"
  shows "\<exists>m'. lru_put hf dflt k v m = Inr (map_of (lhm_view m) k \<noteq> None, m') \<and> lru_ok hf (n + 1) N m' \<and>
    lhm_view m' = (let xs = AList.delete k (lhm_view m) @ [(k, v)] in if int (length xs) > N then tl xs else xs)"
proof -
  have inv: "lhm_inv hf m" and g: "grown hf n m" and acc: "accessOrder m" and max: "maxCacheSize m = N"
    using ok by (simp_all add: lru_ok_def)
  obtain m1 where put: "lhm_putImpl hf dflt k v m = (hm_lookup m k \<noteq> None, m1)" and p: "lhm_inv hf m1"
      "hm_lookup m k \<noteq> None \<or> hm_lookup m k = None" "hm_lookup m1 = (hm_lookup m)(k \<mapsto> v)"
      "chain m1 = (if hm_lookup m k = None then chain m @ [k]
         else if accessOrder m then remove1 k (chain m) @ [k] else chain m)"
      "accessOrder m1 = accessOrder m" "linked_hash_map.more m1 = linked_hash_map.more m" "grown hf (n + 1) m1"
    using linked_put [OF inv g n, of dflt k v] by blast
  define b where "b \<longleftrightarrow> hm_lookup m k \<noteq> None"
  note put = put [folded b_def] and g1 = p(7) and view = view_put [OF inv acc p(3,4)]
  have b: "b = (map_of (lhm_view m) k \<noteq> None)" by (simp add: b_def map_of_view [OF inv])
  have max1: "maxCacheSize m1 = N" using same_max [OF p(6)] max by simp
  have size: "hm_size m1 = int (length (lhm_view m1))" by (rule size_view [OF p(1)])
  have "k \<in> set (chain m1)" using p(1,3) by (simp add: lhm_inv_def)
  then obtain eldest ks where ch: "chain m1 = eldest # ks" by (cases "chain m1") auto
  show ?thesis
  proof (cases "hm_size m1 > N")
    case False
    then have "lru_put hf dflt k v m = Inr (b, m1)"
      using put ch max1 by (simp add: lru_put_def put_evicting_def)
    moreover have "lru_ok hf (n + 1) N m1" using g1 p(1,5) acc max1 by (simp add: lru_ok_def)
    ultimately show ?thesis using False b size view by (auto simp: Let_def)
  next
    case True
    have "eldest \<in> dom (hm_lookup m1)" using p(1) ch by (auto simp: lhm_inv_def)
    then obtain w where w: "hm_lookup m1 eldest = Some w" by blast
    obtain m2 where rm: "lhm_remove hf eldest m1 = Inr (w, m2)" "lhm_inv hf m2"
       "hm_lookup m2 = (hm_lookup m1)(eldest := None)" "chain m2 = remove1 eldest (chain m1)"
       "accessOrder m2 = accessOrder m1" "linked_hash_map.more m2 = linked_hash_map.more m1"
       "length (elementData m2) = length (elementData m1)" "loadNum m2 = loadNum m1" "loadExp m2 = loadExp m1"
      using linked_remove(2) [OF p(1) w] by blast
    have "lru_put hf dflt k v m = Inr (b, m2)"
      using put ch max1 True rm(1) by (simp add: lru_put_def put_evicting_def)
    moreover have "grown hf (n + 1) m2"
      using rm(2,3) by (intro grown_shrink [OF g1 _ rm(7-9)]) (auto simp: lhm_inv_def)
    then have "lru_ok hf (n + 1) N m2"
      using rm(2,5) p(5) acc max1 same_max [OF rm(6)] by (simp add: lru_ok_def)
    moreover have "lhm_view m2 = tl (lhm_view m1)"
      using view_remove [OF p(1) rm(3,4)] tl_delete_hd [of "lhm_view m1"] p(1) ch
      by (simp add: lhm_inv_def lhm_view_def comp_def)
    ultimately show ?thesis using True b size view by (auto simp: Let_def)
  qed
qed

lemma truncate_grown:
  assumes "hash_map.truncate m = hash_map.truncate m'"
  shows "grown hf n m = grown hf n m'"
  using assms by (simp add: hash_map.defs grown_def table_inv_def hm_entries_def default_load_def)

lemma lru_step_refines:
  assumes ok: "lru_ok hf n N m" and n: "n \<le> 2 ^ 26" and N: "0 < N"
  shows "\<exists>m'. lru_step hf dflt c m = Inr (fst (cache_step N c (lhm_view m)), m') \<and>
    lhm_view m' = snd (cache_step N c (lhm_view m)) \<and> lru_ok hf (n + 1) N m'"
proof -
  have inv: "lhm_inv hf m" and g: "grown hf n m" and acc: "accessOrder m" and max: "maxCacheSize m = N"
    using ok by (simp_all add: lru_ok_def)
  have d: "distinct (chain m)" using inv by (simp add: lhm_inv_def)
  have g': "grown hf (n + 1) m" using grown_mono [OF g] by simp
  note mo = map_of_view [OF inv]
  show ?thesis
  proof (cases c)
    case (LPut k v)
    then show ?thesis using lru_put_refines [OF ok n N, of dflt k v] by (auto simp: Let_def)
  next
    case (LGet k)
    obtain m' where m': "lhm_get hf k m = (of_option NoSuchElementException (hm_lookup m k), m')"
      "lhm_inv hf m'" "hm_lookup m' = hm_lookup m" "accessOrder m'"
      "linked_hash_map.more m' = linked_hash_map.more m"
      "hash_map.truncate m' = hash_map.truncate m"
      "chain m' = (if hm_lookup m k = None then chain m else remove1 k (chain m) @ [k])"
      using linked_get [OF inv acc, of k] by blast
    have "lru_ok hf (n + 1) N m'"
      using m'(2,4) g' truncate_grown [OF m'(6)] same_max [OF m'(5)] max by (simp add: lru_ok_def)
    moreover have "lhm_view m' = snd (cache_step N (LGet k) (lhm_view m))"
      using m'(3,7) d by (cases "hm_lookup m k") (auto simp: mo, auto simp: lhm_view_def delete_keyed)
    ultimately show ?thesis using LGet m'(1) mo by auto
  next
    case (LRemove k)
    show ?thesis
    proof (cases "hm_lookup m k")
      case None
      then have "k \<notin> set (chain m)" using inv by (auto simp: lhm_inv_def)
      then have "AList.delete k (lhm_view m) = lhm_view m"
        by (intro AList.delete_id) (auto simp: lhm_view_def)
      then show ?thesis
        using LRemove linked_remove(1) [OF inv None] None mo ok g' by (auto simp: lru_ok_def)
    next
      case (Some v)
      obtain m' where rm: "lhm_remove hf k m = Inr (v, m')" "lhm_inv hf m'"
         "hm_lookup m' = (hm_lookup m)(k := None)" "chain m' = remove1 k (chain m)"
         "accessOrder m' = accessOrder m" "linked_hash_map.more m' = linked_hash_map.more m"
         "length (elementData m') = length (elementData m)" "loadNum m' = loadNum m" "loadExp m' = loadExp m"
        using linked_remove(2) [OF inv Some] by blast
      have "grown hf (n + 1) m'"
        using rm(2,3) by (intro grown_shrink [OF g' _ rm(7-9)]) (auto simp: lhm_inv_def)
      then have "lru_ok hf (n + 1) N m'"
        using rm(2,5) acc max same_max [OF rm(6)] by (simp add: lru_ok_def)
      then show ?thesis using LRemove rm(1) view_remove [OF inv rm(3,4)] Some mo by auto
    qed
  qed
qed

lemma lru_run_refines:
  "lru_ok hf n N m \<Longrightarrow> n + int (length cs) \<le> 2 ^ 26 \<Longrightarrow> 0 < N \<Longrightarrow>
    \<exists>m'. lru_run hf dflt cs m = Inr (fst (cache_run N cs (lhm_view m)), m') \<and>
      lhm_view m' = snd (cache_run N cs (lhm_view m)) \<and> lru_ok hf (n + int (length cs)) N m'"
proof (induction cs arbitrary: m n)
  case (Cons c cs)
  obtain m1 where m1: "lru_step hf dflt c m = Inr (fst (cache_step N c (lhm_view m)), m1)"
    "lhm_view m1 = snd (cache_step N c (lhm_view m))" "lru_ok hf (n + 1) N m1"
    using lru_step_refines [OF Cons.prems(1) _ Cons.prems(3)] Cons.prems(2) by auto
  have "n + 1 + int (length cs) \<le> 2 ^ 26" using Cons.prems(2) by simp
  from Cons.IH [OF m1(3) this Cons.prems(3)] m1(1,2) show ?case
    by (auto simp: split_def Let_def algebra_simps)
qed simp

lemma LRUCache_max_ok:
  fixes hf :: "'k \<Rightarrow> int"
  assumes "0 < N"
  obtains m :: "('k, 'v) lru_cache" where "LRUCache_max N = Inr m" "lru_ok hf 0 N m" "lhm_view m = []"
proof -
  let ?t = "init_table 0 3 2 :: ('k, 'v) hash_map"
  let ?m = "hash_map.extend ?t \<lparr>accessOrder = True, chain = [], maxCacheSize = N\<rparr>"
  have new: "LRUCache_max N = Inr ?m"
    using assms by (simp add: LRUCache_max_def LRUCache_init_def HashMap_load_def)
  have t: "table_inv hf ?t" "hm_lookup ?t = (\<lambda>_. None)"
    using init_table_inv [where c = 0] by simp_all
  have "calculateCapacity 0 = 16" by (simp add: calculateCapacity_def)
  then have "grown hf 0 ?t"
    using t(1) by (simp add: grown_def default_load_def init_table_def computeThreshold_def)
  moreover have "hash_map.truncate ?m = hash_map.truncate ?t" by (simp add: hash_map.defs)
  ultimately have g: "grown hf 0 ?m" using truncate_grown by metis
  have look: "hm_lookup ?m = (\<lambda>_. None)"
    using t(2) by (simp add: hm_lookup_def hm_entries_def hash_map.defs)
  have fields: "accessOrder ?m" "maxCacheSize ?m = N" "chain ?m = []" by (simp_all add: hash_map.defs)
  have inv: "table_inv hf ?m" using g unfolding grown_def by (rule conjunct1)
  have "lhm_inv hf ?m" unfolding lhm_inv_def look fields using inv by simp
  then have "lru_ok hf 0 N ?m" unfolding lru_ok_def using g fields by blast
  moreover have "lhm_view ?m = []" unfolding lhm_view_def fields by simp
  ultimately show ?thesis by (rule that [OF new])
qed

text \<open>\<open>putAll\<close> appends new entries in their order and never evicts.\<close>

lemma lru_putImpl_fold:
  "lru_ok hf n N m \<Longrightarrow> n + int (length kvs) \<le> 2 ^ 26 \<Longrightarrow> distinct (map fst kvs) \<Longrightarrow>
    fst ` set kvs \<inter> set (chain m) = {} \<Longrightarrow>
    lru_ok hf (n + int (length kvs)) N (fold (\<lambda>(k, v) m. snd (lhm_putImpl hf dflt k v m)) kvs m) \<and>
    lhm_view (fold (\<lambda>(k, v) m. snd (lhm_putImpl hf dflt k v m)) kvs m) = lhm_view m @ kvs"
proof (induction kvs arbitrary: m n)
  case (Cons kv kvs)
  obtain k v where kv: "kv = (k, v)" by (cases kv)
  have inv: "lhm_inv hf m" and g: "grown hf n m" and acc: "accessOrder m" and N: "maxCacheSize m = N"
    using Cons.prems(1) by (simp_all add: lru_ok_def)
  have n: "n \<le> 2 ^ 26" and n': "n + 1 + int (length kvs) \<le> 2 ^ 26" using Cons.prems(2) by simp_all
  have k: "k \<notin> set (chain m)" using Cons.prems(4) kv by auto
  then have None: "hm_lookup m k = None" using inv by (auto simp: lhm_inv_def)
  obtain m1 where p: "lhm_putImpl hf dflt k v m = (hm_lookup m k \<noteq> None, m1)" "lhm_inv hf m1"
      "hm_lookup m1 = (hm_lookup m)(k \<mapsto> v)"
      "chain m1 = (if hm_lookup m k = None then chain m @ [k]
         else if accessOrder m then remove1 k (chain m) @ [k] else chain m)"
      "accessOrder m1 = accessOrder m" "linked_hash_map.more m1 = linked_hash_map.more m" "grown hf (n + 1) m1"
    using linked_put [OF inv g n, of dflt k v] by blast
  have ch: "chain m1 = chain m @ [k]" using p(4) None by simp
  have "AList.delete k (lhm_view m) = lhm_view m"
    using k by (intro AList.delete_id) (auto simp: lhm_view_def)
  then have view: "lhm_view m1 = lhm_view m @ [(k, v)]" using view_put [OF inv acc p(3,4)] by simp
  have "lru_ok hf (n + 1) N m1" using p(2,5,7) acc N same_max [OF p(6)] by (simp add: lru_ok_def)
  from Cons.IH [OF this n'] Cons.prems(3,4) kv ch view p(1) show ?case by (simp add: algebra_simps)
qed simp

lemma lru_putAll:
  assumes ok: "lru_ok hf n N m" and n: "n + int (length kvs) \<le> 2 ^ 25" and d: "distinct (map fst kvs)"
    and fresh: "fst ` set kvs \<inter> set (chain m) = {}"
  shows "lru_ok hf (n + 2 * int (length kvs)) N (lhm_putAll hf dflt kvs m)"
    "lhm_view (lhm_putAll hf dflt kvs m) = lhm_view m @ kvs"
proof -
  have inv: "lhm_inv hf m" and tinv: "table_inv hf m" and g: "grown hf n m" and acc: "accessOrder m"
    and N: "maxCacheSize m = N"
    using ok by (simp_all add: lru_ok_def lhm_inv_def)
  let ?L = "int (length kvs)" and ?c = "elementCount m + int (length kvs)"
  have c0: "0 \<le> elementCount m" "elementCount m \<le> n" using g by (simp_all add: grown_def table_inv_def)
  then have "0 \<le> ?c" "?c \<le> 2 ^ 29" using n by simp_all
  note r = rehash_to_inv [OF tinv this]
  let ?m1 = "if ?c > threshold m then rehash_to ?c m else m"
  have more: "hash_map.more ?m1 = hash_map.more m" "hm_lookup ?m1 = hm_lookup m" "table_inv hf ?m1"
    using r tinv by simp_all
  note same = same_more [OF more(1)]
  have "grown hf (n + ?L) (rehash_to ?c m)" if "kvs \<noteq> []"
  proof -
    have L: "0 < ?L" using that by simp
    then have "?c \<noteq> 0" using c0 by linarith
    then have "int (length (elementData (rehash_to ?c m))) < 4 * ?c" by (rule r(7))
    moreover have "4 * ?c \<le> 6 * (n + ?L)" using c0 L by (simp add: distrib_left)
    ultimately have "int (length (elementData (rehash_to ?c m))) \<le> 6 * (n + ?L)"
      by (rule order.trans [OF less_imp_le])
    then show ?thesis using r(1,4-6) c0 g by (simp add: grown_def default_load_def)
  qed
  moreover have "grown hf (n + ?L) m" using g by (rule grown_mono) simp
  ultimately have "lru_ok hf (n + ?L) N ?m1" if "kvs \<noteq> []"
    using that inv more same acc N same_max [OF same(3)] by (simp add: lru_ok_def lhm_inv_def)
  moreover have "lhm_view ?m1 = lhm_view m" using more(2) same(1) by (simp add: lhm_view_def)
  moreover have "n + ?L + ?L \<le> 2 ^ 26" using n c0 by simp
  ultimately show "lru_ok hf (n + 2 * ?L) N (lhm_putAll hf dflt kvs m)"
    "lhm_view (lhm_putAll hf dflt kvs m) = lhm_view m @ kvs"
    using lru_putImpl_fold [of hf "n + ?L" N ?m1 kvs dflt] d fresh same(1) ok
    by (auto simp: lhm_putAll_def putAll_def putAllImpl_def Let_def algebra_simps)
qed

section \<open>Iteration with removal\<close>

lemma chain_next_split: "distinct (xs @ k # ys) \<Longrightarrow>
    chain_next k (xs @ k # ys) = Inr (case ys of [] \<Rightarrow> None | y # _ \<Rightarrow> Some y)"
  by (induction xs) auto

lemma unlink_same:
  "(\<And>e. e \<in> set es \<Longrightarrow> P e = Q e) \<Longrightarrow> unlink P es = unlink Q es"
  by (induction es) (auto split: option.splits)

lemma removeEntry_at_key:
  assumes inv: "table_inv hf m" and k: "hm_lookup m k = Some v"
  shows "\<exists>e m'. removeEntry hf k m = (Some e, m') \<and> removeEntry_at k m = Inr m'"
proof -
  have "k \<in> entryKey ` set (hm_entries m)" using k lookup_dom by (metis domI)
  then obtain e where e: "entry_of k m = Some e" "entryKey e = k" using entry_of_lookup inv by metis
  obtain i where "i < length (hm_entries m)" "e = hm_entries m ! i"
    using e(1) by (auto simp: entry_of_def hm_entries_def find_Some_iff)
  then have mem: "e \<in> set (hm_entries m)" by simp
  have h: "origKeyHash e = hf k" using entry_in_bucket(2) [OF inv mem] e(2) by simp
  let ?i = "bucket_index (hf k) (length (elementData m))"
  have "set (elementData m ! ?i) \<subseteq> set (hm_entries m)"
    using nth_mem [OF table_inv_index [OF inv, of "hf k"]] by (auto simp: hm_entries_def)
  then have same: "unlink (\<lambda>e. origKeyHash e = hf k \<and> k = entryKey e) (elementData m ! ?i) =
    unlink (\<lambda>e. entryKey e = k) (elementData m ! ?i)"
    using entry_in_bucket(2) [OF inv] by (intro unlink_same) auto
  obtain e' m' where rm: "removeEntry hf k m = (Some e', m')" using removeEntry_spec(2) [OF inv k] by blast
  then show ?thesis
    using e(1) h same by (auto simp: removeEntry_def removeEntry_at_def Let_def split: option.splits)
qed

lemma li_remove_spec:
  assumes inv: "lhm_inv hf m" and k: "hm_lookup m k = Some v"
    and it: "linkExpectedModCount it = mapModCount m" "linkCurrent it = Some k"
  obtains m' where "li_remove m it = Inr (m', it\<lparr>linkCurrent := None, linkExpectedModCount := mapModCount m'\<rparr>)"
    "lhm_inv hf m'" "hm_lookup m' = (hm_lookup m)(k := None)" "chain m' = remove1 k (chain m)"
proof -
  have tinv: "table_inv hf m" using inv by (simp add: lhm_inv_def)
  obtain m' where rm: "lhm_remove hf k m = Inr (v, m')" "lhm_inv hf m'"
    "hm_lookup m' = (hm_lookup m)(k := None)" "chain m' = remove1 k (chain m)"
    using linked_remove(2) [OF inv k] by blast
  obtain e m1 where at: "removeEntry hf k m = (Some e, m1)" "removeEntry_at k m = Inr m1"
    using removeEntry_at_key [OF tinv k] by blast
  have "m' = m1\<lparr>chain := remove1 k (chain m1)\<rparr>" using rm(1) at(1) by (simp add: lhm_remove_def)
  moreover have "mapModCount m1 = mapModCount m + 1"
    using at(1) by (auto simp: removeEntry_def Let_def split: option.splits)
  ultimately show ?thesis using that [OF _ rm(2-4)] at(2) it by (simp add: li_remove_def)
qed

lemma li_next_spec:
  assumes inv: "lhm_inv hf m" and ch: "chain m = xs @ k # ys"
    and it: "linkExpectedModCount it = mapModCount m" "linkFuture it = Some k"
  shows "li_next m it = Inr ((k, the (hm_lookup m k)),
    it\<lparr>linkCurrent := Some k, linkFuture := (case ys of [] \<Rightarrow> None | y # _ \<Rightarrow> Some y)\<rparr>)"
proof -
  have d: "distinct (xs @ k # ys)" using inv ch by (simp add: lhm_inv_def)
  have "k \<in> entryKey ` set (hm_entries m)" using inv ch by (auto simp: lhm_inv_def lookup_dom)
  then obtain e where "entry_of k m = Some e" "entryKey e = k" "hm_lookup m k = Some (entryValue e)"
    using entry_of_lookup inv unfolding lhm_inv_def by metis
  then show ?thesis using it ch chain_next_split [OF d] by (simp add: li_next_def li_makeNext_def)
qed

lemma remove_if_spec:
  "lhm_inv hf m \<Longrightarrow> chain m = xs @ ys \<Longrightarrow> linkExpectedModCount it = mapModCount m \<Longrightarrow>
    linkFuture it = (case ys of [] \<Rightarrow> None | y # _ \<Rightarrow> Some y) \<Longrightarrow>
    \<exists>m'. remove_if_from P m it = Some (Inr m') \<and> lhm_inv hf m' \<and>
      chain m' = xs @ filter (\<lambda>k. \<not> P (k, the (hm_lookup m k))) ys \<and>
      (\<forall>k\<in>set (chain m'). hm_lookup m' k = hm_lookup m k)"
proof (induction ys arbitrary: m it xs)
  case Nil
  then show ?case by (subst remove_if_from.simps) (simp add: li_hasNext_def)
next
  case (Cons k ys)
  let ?it = "it\<lparr>linkCurrent := Some k, linkFuture := (case ys of [] \<Rightarrow> None | y # _ \<Rightarrow> Some y)\<rparr>"
  have d: "distinct (xs @ k # ys)" using Cons.prems(1,2) by (simp add: lhm_inv_def)
  have nx: "li_next m it = Inr ((k, the (hm_lookup m k)), ?it)"
    using Cons.prems by (intro li_next_spec) simp_all
  show ?case
  proof (cases "P (k, the (hm_lookup m k))")
    case False
    have "remove_if_from P m it = remove_if_from P m ?it"
      using nx False Cons.prems(4) by (subst remove_if_from.simps) (simp add: li_hasNext_def)
    then show ?thesis using Cons.IH [of m "xs @ [k]" ?it] Cons.prems False by simp
  next
    case True
    have "k \<in> dom (hm_lookup m)" using Cons.prems(1,2) by (auto simp: lhm_inv_def)
    then obtain v where "hm_lookup m k = Some v" by blast
    from li_remove_spec [OF Cons.prems(1) this, of ?it] obtain m2 where
      rm: "li_remove m ?it = Inr (m2, ?it\<lparr>linkCurrent := None, linkExpectedModCount := mapModCount m2\<rparr>)"
        "lhm_inv hf m2" "hm_lookup m2 = (hm_lookup m)(k := None)" "chain m2 = remove1 k (chain m)"
      using Cons.prems(3) by auto
    let ?it2 = "?it\<lparr>linkCurrent := None, linkExpectedModCount := mapModCount m2\<rparr>"
    have ch: "chain m2 = xs @ ys" using rm(4) Cons.prems(2) d by (simp add: remove1_append)
    have eq: "remove_if_from P m it = remove_if_from P m2 ?it2"
      using nx rm(1) True Cons.prems(4) by (subst remove_if_from.simps) (simp add: li_hasNext_def)
    have "filter (\<lambda>j. \<not> P (j, the (hm_lookup m2 j))) ys = filter (\<lambda>j. \<not> P (j, the (hm_lookup m j))) ys"
      using d rm(3) by (intro filter_cong) auto
    moreover obtain m' where "remove_if_from P m2 ?it2 = Some (Inr m')" "lhm_inv hf m'"
      "chain m' = xs @ filter (\<lambda>j. \<not> P (j, the (hm_lookup m2 j))) ys"
      "\<forall>j\<in>set (chain m'). hm_lookup m' j = hm_lookup m2 j"
      using Cons.IH [OF rm(2) ch, of ?it2] by auto
    ultimately show ?thesis using eq True rm(3) d by auto
  qed
qed

section \<open>Properties of the cache\<close>

text \<open>
  C22.  For every sequence of up to 2^26 calls of \<open>put\<close>, \<open>get\<close> and \<open>remove\<close> on a new cache, the
  replies and the order of the entries are those of the list specification: least recently used
  first, \<open>get\<close> and \<open>put\<close> of a present key refresh its entry, and an insertion beyond the maximum evicts
  exactly the least recently used entry.
\<close>

theorem lru_cache_refines:
  fixes cs :: "('k, 'v) lru_call list"
  assumes "0 < N" "length cs \<le> 2 ^ 26"
  shows "\<exists>m m'. LRUCache_max N = Inr m \<and>
    lru_run hf dflt cs m = Inr (fst (cache_run N cs []), m') \<and>
    lhm_entries m' = snd (cache_run N cs []) \<and> lhm_inv hf m'"
proof -
  obtain m :: "('k, 'v) lru_cache" where m: "LRUCache_max N = Inr m" "lru_ok hf 0 N m" "lhm_view m = []"
    using LRUCache_max_ok [OF assms(1)] by metis
  obtain m' where m': "lru_run hf dflt cs m = Inr (fst (cache_run N cs []), m')"
    "lhm_view m' = snd (cache_run N cs [])" "lhm_inv hf m'"
    using lru_run_refines [OF m(2), of cs dflt] assms m(3) by (auto simp: lru_ok_def)
  then show ?thesis using m(1) view_entries [OF m'(3)] by auto
qed

theorem lru_cache_refines_witness:
  "\<exists>m m'. LRUCache_max 2 = Inr m \<and>
    lru_run (\<lambda>k. k) (0::int) [LPut (1::int) 10, LPut 2 20, LGet 1, LPut 3 30, LGet 2] m =
      Inr ([LReplaced False, LReplaced False, LGot (Inr 10), LReplaced False,
            LGot (Inl NoSuchElementException)], m') \<and>
    lhm_entries m' = [(1, 10), (3, 30)]"
  using lru_cache_refines [of 2 "[LPut (1::int) 10, LPut 2 20, LGet 1, LPut 3 30, LGet 2]" "\<lambda>k. k" "0::int"]
  by auto

text \<open>
  The iterator of a linked map supports removal while iterating: the loop that removes the
  entries satisfying \<open>P\<close> ends, never throws or follows a dangling pointer, and leaves exactly the
  other entries in their order.
\<close>

theorem linked_iterator_removal:
  assumes "lhm_inv hf m"
  shows "\<exists>m'. remove_if_from P m (linkedIterator m) = Some (Inr m') \<and> lhm_inv hf m' \<and>
    lhm_entries m' = filter (\<lambda>kv. \<not> P kv) (lhm_entries m)"
proof -
  obtain m' where m': "remove_if_from P m (linkedIterator m) = Some (Inr m')" "lhm_inv hf m'"
    "chain m' = filter (\<lambda>k. \<not> P (k, the (hm_lookup m k))) (chain m)"
    "\<forall>k\<in>set (chain m'). hm_lookup m' k = hm_lookup m k"
    using remove_if_spec [OF assms, of "[]" "chain m" "linkedIterator m" P] by (auto simp: linkedIterator_def)
  then have "lhm_view m' = filter (\<lambda>kv. \<not> P kv) (lhm_view m)"
    by (simp add: lhm_view_def filter_map comp_def cong: map_cong)
  then show ?thesis using m'(1,2) view_entries [OF assms] view_entries [OF m'(2)] by auto
qed

theorem linked_iterator_removal_witness:
  "\<exists>m m' :: (int, int) linked_hash_map. remove_if_from (\<lambda>(k, v). v > 1) m (linkedIterator m) = Some (Inr m') \<and>
    lhm_entries m = [(7, 1), (5, 2), (23, 3)] \<and> lhm_entries m' = [(7, 1)]"
proof -
  define e where "e k v = \<lparr>entryKey = k, entryValue = v, origKeyHash = k\<rparr>" for k v :: int
  define m :: "(int, int) linked_hash_map" where
    "m = \<lparr>elementCount = 3, elementData = [[e 23 3, e 5 2, e 7 1]], mapModCount = 3,
      loadNum = 3, loadExp = 2, threshold = 0, accessOrder = False, chain = [7, 5, 23]\<rparr>"
  have "placed (\<lambda>k. k) (elementData m)" by (auto simp: placed_def m_def e_def bucket_index_def)
  then have "table_inv (\<lambda>k. k) m"
    by (auto simp: table_inv_def m_def hm_entries_def e_def intro: exI [of _ 0])
  then have inv: "lhm_inv (\<lambda>k. k) m"
    by (auto simp: lhm_inv_def lookup_dom hm_entries_def m_def e_def)
  have ents: "lhm_entries m = [(7, 1), (5, 2), (23, 3)]"
    by (simp add: lhm_entries_def entry_of_def m_def e_def List.map_filter_simps)
  show ?thesis using linked_iterator_removal [OF inv, of "\<lambda>(k, v). v > 1"] ents by auto
qed

end
