(* ===== verification/MessageAudit.thy ===== *)
theory MessageAudit
  imports Ids BitSet LRUCache
begin

text \<open>
  Duplicate detection: \<open>activemq/core/ActiveMQMessageAudit.cpp\<close> keeps, per producer, the bit set of
  the sequence numbers it has seen, in an LRU cache.  A bit set is reachable only through its cache entry, so
  the code's writes through \<open>Pointer<BitSet>\<close> are writes to the entry's value.  Each operation runs
  under the audit's mutex and is one step; it returns its answer or exception with the new state.
\<close>

section \<open>ActiveMQMessageAudit\<close>

text \<open>\<open>HashCode<std::string>\<close>: characters are signed, the arithmetic is that of \<open>int\<close>.\<close>

definition hash_string :: "string \<Rightarrow> int" where
  "hash_string s = foldl (\<lambda>h c. wrap32 (31 * h + (let n = (of_char c :: int) in if n \<ge> 128 then n - 256 else n))) 0 s"

record message_audit =
  auditDepth :: int
  maximumNumberOfProducersToTrack :: int
  auditMap :: "(string, bit_set) lru_cache"

definition new_MessageAudit :: "int \<Rightarrow> int \<Rightarrow> message_audit" where
  "new_MessageAudit depth maxProducers =
     \<lparr>auditDepth = depth, maximumNumberOfProducersToTrack = maxProducers, auditMap = new_LRUCache\<rparr>"

definition DEFAULT_WINDOW_SIZE :: int where "DEFAULT_WINDOW_SIZE = 2048"
definition MAXIMUM_PRODUCER_COUNT :: int where "MAXIMUM_PRODUCER_COUNT = 64"

definition default_MessageAudit :: message_audit where
  "default_MessageAudit = new_MessageAudit 2048 64"

text \<open>The bit set of a producer, created when it has none.\<close>

definition audit_bits :: "string \<Rightarrow> message_audit \<Rightarrow> bit_set result \<times> message_audit" where
  "audit_bits seed a =
     (case lhm_get hash_string seed (auditMap a) of
        (Inr bset, m) \<Rightarrow> (Inr bset, a\<lparr>auditMap := m\<rparr>)
      | (Inl _, m) \<Rightarrow>
          (case BitSet_of_count (auditDepth a) of
             Inl e \<Rightarrow> (Inl e, a\<lparr>auditMap := m\<rparr>)
           | Inr bset \<Rightarrow>
               (case lru_put hash_string new_BitSet seed bset m of
                  Inl e \<Rightarrow> (Inl e, a\<lparr>auditMap := m\<rparr>)
                | Inr (_, m') \<Rightarrow> (Inr bset, a\<lparr>auditMap := m'\<rparr>))))"

definition scaledIndex :: "int \<Rightarrow> int" where
  "scaledIndex index = (if index > INT_MAX then wrap32 (index - INT_MAX) else wrap32 index)"

definition write_bits :: "string \<Rightarrow> bit_set \<Rightarrow> message_audit \<Rightarrow> message_audit" where
  "write_bits seed bset a = a\<lparr>auditMap := set_entry_value seed bset (auditMap a)\<rparr>"

definition check_bit :: "string \<Rightarrow> int \<Rightarrow> bit_set \<Rightarrow> message_audit \<Rightarrow> bool result \<times> message_audit" where
  "check_bit seed index bset a =
     (if index \<ge> 0 then
        case bs_get (scaledIndex index) bset of
          Inl e \<Rightarrow> (Inl e, a)
        | Inr answer \<Rightarrow>
            if \<not> answer then
              (case bs_set_value (scaledIndex index) True bset of
                 Inl e \<Rightarrow> (Inl e, a)
               | Inr bset' \<Rightarrow> (Inr answer, write_bits seed bset' a))
            else (Inr answer, a)
      else (Inr False, a))"

text \<open>\<open>isDuplicate\<close> of a textual id and of a message id.\<close>

definition isDuplicate_text :: "string \<Rightarrow> message_audit \<Rightarrow> bool result \<times> message_audit" where
  "isDuplicate_text s a =
     (let seed = getSeedFromId s in
      if seed \<noteq> [] then
        case audit_bits seed a of
          (Inl e, a1) \<Rightarrow> (Inl e, a1)
        | (Inr bset, a1) \<Rightarrow>
            (case getSequenceFromId s of
               Inl e \<Rightarrow> (Inl e, a1)
             | Inr index \<Rightarrow> check_bit seed index bset a1)
      else (Inr False, a))"

definition isDuplicate :: "message_id option \<Rightarrow> message_audit \<Rightarrow> bool result \<times> message_audit" where
  "isDuplicate msgId a =
     (case msgId of
        None \<Rightarrow> (Inr False, a)
      | Some mid \<Rightarrow>
          (case producerId mid of
             None \<Rightarrow> (Inr False, a)
           | Some pid \<Rightarrow>
               let seed = ProducerId_toString pid in
               if seed \<noteq> [] then
                 case audit_bits seed a of
                   (Inl e, a1) \<Rightarrow> (Inl e, a1)
                 | (Inr bset, a1) \<Rightarrow> check_bit seed (producerSequenceId mid) bset a1
               else (Inr False, a)))"

definition rollback_bit :: "string \<Rightarrow> int \<Rightarrow> message_audit \<Rightarrow> unit result \<times> message_audit" where
  "rollback_bit seed index a =
     (case lhm_get hash_string seed (auditMap a) of
        (Inl _, m) \<Rightarrow> (Inr (), a\<lparr>auditMap := m\<rparr>)
      | (Inr bset, m) \<Rightarrow>
          let a1 = a\<lparr>auditMap := m\<rparr> in
          if index \<ge> 0 then
            (case bs_set_value (scaledIndex index) False bset of
               Inl e \<Rightarrow> (Inl e, a1)
             | Inr bset' \<Rightarrow> (Inr (), write_bits seed bset' a1))
          else (Inr (), a1))"

definition rollback_text :: "string \<Rightarrow> message_audit \<Rightarrow> unit result \<times> message_audit" where
  "rollback_text s a =
     (let seed = getSeedFromId s in
      if seed \<noteq> [] then
        case lhm_get hash_string seed (auditMap a) of
          (Inl _, m) \<Rightarrow> (Inr (), a\<lparr>auditMap := m\<rparr>)
        | (Inr bset, m) \<Rightarrow>
            let a1 = a\<lparr>auditMap := m\<rparr> in
            (case getSequenceFromId s of
               Inl e \<Rightarrow> (Inl e, a1)
             | Inr index \<Rightarrow>
                 if index \<ge> 0 then
                   (case bs_set_value (scaledIndex index) False bset of
                      Inl e \<Rightarrow> (Inl e, a1)
                    | Inr bset' \<Rightarrow> (Inr (), write_bits seed bset' a1))
                 else (Inr (), a1))
      else (Inr (), a))"

definition rollback :: "message_id option \<Rightarrow> message_audit \<Rightarrow> unit result \<times> message_audit" where
  "rollback msgId a =
     (case msgId of
        None \<Rightarrow> (Inr (), a)
      | Some mid \<Rightarrow>
          (case producerId mid of
             None \<Rightarrow> (Inr (), a)
           | Some pid \<Rightarrow>
               let seed = ProducerId_toString pid in
               if seed \<noteq> [] then rollback_bit seed (producerSequenceId mid) a else (Inr (), a)))"

text \<open>\<open>isInOrder\<close>: is the message the highest sequence number recorded for its producer?\<close>

definition order_bit :: "string \<Rightarrow> int \<Rightarrow> bit_set \<Rightarrow> message_audit \<Rightarrow> bool result \<times> message_audit" where
  "order_bit seed index bset a =
     (let (len, bset') = bs_length bset
      in (Inr (len - 1 = scaledIndex index), write_bits seed bset' a))"

definition isInOrder_text :: "string \<Rightarrow> message_audit \<Rightarrow> bool result \<times> message_audit" where
  "isInOrder_text s a =
     (if s \<noteq> [] then
        let seed = getSeedFromId s in
        if seed \<noteq> [] then
          case audit_bits seed a of
            (Inl e, a1) \<Rightarrow> (Inl e, a1)
          | (Inr bset, a1) \<Rightarrow>
              (case getSequenceFromId s of
                 Inl e \<Rightarrow> (Inl e, a1)
               | Inr index \<Rightarrow> if index \<ge> 0 then order_bit seed index bset a1 else (Inr True, a1))
        else (Inr True, a)
      else (Inr True, a))"

definition isInOrder :: "message_id option \<Rightarrow> message_audit \<Rightarrow> bool result \<times> message_audit" where
  "isInOrder msgId a =
     (case msgId of
        None \<Rightarrow> (Inr False, a)
      | Some mid \<Rightarrow>
          (case producerId mid of
             None \<Rightarrow> (Inr False, a)
           | Some pid \<Rightarrow>
               let seed = ProducerId_toString pid; index = producerSequenceId mid in
               if seed \<noteq> [] then
                 case audit_bits seed a of
                   (Inl e, a1) \<Rightarrow> (Inl e, a1)
                 | (Inr bset, a1) \<Rightarrow>
                     if index \<ge> 0 then order_bit seed index bset a1 else (Inr False, a1)
               else (Inr False, a)))"

definition getLastSeqId :: "producer_id option \<Rightarrow> message_audit \<Rightarrow> int \<times> message_audit" where
  "getLastSeqId pid a =
     (case pid of
        None \<Rightarrow> (- 1, a)
      | Some p \<Rightarrow>
          let seed = ProducerId_toString p in
          if seed \<noteq> [] then
            case lhm_get hash_string seed (auditMap a) of
              (Inl _, m) \<Rightarrow> (- 1, a\<lparr>auditMap := m\<rparr>)
            | (Inr bset, m) \<Rightarrow>
                let (len, bset') = bs_length bset
                in (len - 1, write_bits seed bset' (a\<lparr>auditMap := m\<rparr>))
          else (- 1, a))"

definition audit_clear :: "message_audit \<Rightarrow> message_audit" where
  "audit_clear a = a\<lparr>auditMap := lhm_clear (auditMap a)\<rparr>"

definition adjustMaxProducersToTrack :: "int \<Rightarrow> message_audit \<Rightarrow> message_audit result" where
  "adjustMaxProducersToTrack v a =
     bind_result
       (if v < maximumNumberOfProducersToTrack a
        then bind_result (LRUCache_init 0 v 3 2 True) (\<lambda>newMap0.
          let newMap = lhm_putAll hash_string new_BitSet (lhm_entries (auditMap a)) newMap0;
              cleared = lhm_clear (auditMap a)
          in Inr (a\<lparr>auditMap := lhm_putAll hash_string new_BitSet (lhm_entries newMap) cleared\<rparr>))
        else Inr a) (\<lambda>a1.
       bind_result (setMaxCacheSize v (auditMap a1)) (\<lambda>m.
         Inr (a1\<lparr>auditMap := m, maximumNumberOfProducersToTrack := v\<rparr>)))"

section \<open>Specification of the audit\<close>

text \<open>
  The calls on an audit, and what they do to the list of producers with the sets of sequence numbers
  seen, least recently used producer first, of which at most \<open>N\<close> are kept.
\<close>

datatype audit_call =
    AuditDuplicate "message_id option"
  | AuditRollback "message_id option"
  | AuditInOrder "message_id option"
  | AuditLastSeq "producer_id option"
  | AuditClear

datatype audit_reply = RAnswer "bool result" | RDone "unit result" | RLast int

fun audit_step :: "audit_call \<Rightarrow> message_audit \<Rightarrow> audit_reply \<times> message_audit" where
  "audit_step (AuditDuplicate mid) a = (let (r, a') = isDuplicate mid a in (RAnswer r, a'))"
| "audit_step (AuditRollback mid) a = (let (r, a') = rollback mid a in (RDone r, a'))"
| "audit_step (AuditInOrder mid) a = (let (r, a') = isInOrder mid a in (RAnswer r, a'))"
| "audit_step (AuditLastSeq pid) a = (let (r, a') = getLastSeqId pid a in (RLast r, a'))"
| "audit_step AuditClear a = (RDone (Inr ()), audit_clear a)"

fun audit_run :: "audit_call list \<Rightarrow> message_audit \<Rightarrow> audit_reply list \<times> message_audit" where
  "audit_run [] a = ([], a)"
| "audit_run (c # cs) a =
     (let (r, a1) = audit_step c a; (rs, a2) = audit_run cs a1 in (r # rs, a2))"

text \<open>What an audit reads of a message id: the producer's text and the sequence number.\<close>

definition audit_key :: "message_id option \<Rightarrow> (string \<times> int) option" where
  "audit_key msgId = Option.bind msgId (\<lambda>mid.
     map_option (\<lambda>pid. (ProducerId_toString pid, producerSequenceId mid)) (producerId mid))"

definition seen_of :: "string \<Rightarrow> (string \<times> nat set) list \<Rightarrow> nat set" where
  "seen_of seed xs = (case map_of xs seed of None \<Rightarrow> {} | Some S \<Rightarrow> S)"

definition last_of :: "nat set \<Rightarrow> int" where
  "last_of S = (if S = {} then - 1 else int (Max S))"

definition refresh :: "string \<Rightarrow> (string \<times> nat set) list \<Rightarrow> (string \<times> nat set) list" where
  "refresh seed xs =
     (case map_of xs seed of None \<Rightarrow> xs | Some S \<Rightarrow> AList.delete seed xs @ [(seed, S)])"

text \<open>The eldest entry is dropped if there are too many.\<close>

definition evict :: "int \<Rightarrow> 'a list \<Rightarrow> 'a list" where
  "evict N xs = (if int (length xs) > N then tl xs else xs)"

definition touch :: "int \<Rightarrow> string \<Rightarrow> (string \<times> nat set) list \<Rightarrow> (string \<times> nat set) list" where
  "touch N seed xs =
     (if map_of xs seed = None
      then evict N (xs @ [(seed, {})])
      else refresh seed xs)"

fun window_step :: "int \<Rightarrow> audit_call \<Rightarrow> (string \<times> nat set) list \<Rightarrow> audit_reply \<times> (string \<times> nat set) list" where
  "window_step N (AuditDuplicate mid) xs =
     (case audit_key mid of
        None \<Rightarrow> (RAnswer (Inr False), xs)
      | Some (seed, i) \<Rightarrow>
          if i < 0 then (RAnswer (Inr False), touch N seed xs)
          else (RAnswer (Inr (nat i \<in> seen_of seed xs)),
                AList.update seed (insert (nat i) (seen_of seed xs)) (touch N seed xs)))"
| "window_step N (AuditRollback mid) xs =
     (RDone (Inr ()),
      case audit_key mid of
        None \<Rightarrow> xs
      | Some (seed, i) \<Rightarrow>
          if i < 0 \<or> map_of xs seed = None then refresh seed xs
          else AList.update seed (seen_of seed xs - {nat i}) (refresh seed xs))"
| "window_step N (AuditInOrder mid) xs =
     (case audit_key mid of
        None \<Rightarrow> (RAnswer (Inr False), xs)
      | Some (seed, i) \<Rightarrow> (RAnswer (Inr (0 \<le> i \<and> last_of (seen_of seed xs) = i)), touch N seed xs))"
| "window_step N (AuditLastSeq pid) xs =
     (case pid of
        None \<Rightarrow> (RLast (- 1), xs)
      | Some p \<Rightarrow> (RLast (last_of (seen_of (ProducerId_toString p) xs)), refresh (ProducerId_toString p) xs))"
| "window_step N AuditClear xs = (RDone (Inr ()), [])"

fun window_run ::
    "int \<Rightarrow> audit_call list \<Rightarrow> (string \<times> nat set) list \<Rightarrow> audit_reply list \<times> (string \<times> nat set) list" where
  "window_run N [] xs = ([], xs)"
| "window_run N (c # cs) xs =
     (let (r, xs1) = window_step N c xs; (rs, xs2) = window_run N cs xs1 in (r # rs, xs2))"

text \<open>The sequence numbers that the code maps to bit positions one to one.\<close>

fun plain_call :: "audit_call \<Rightarrow> bool" where
  "plain_call (AuditDuplicate mid) = (case audit_key mid of None \<Rightarrow> True | Some (_, i) \<Rightarrow> i < INDEX_END)"
| "plain_call (AuditRollback mid) = (case audit_key mid of None \<Rightarrow> True | Some (_, i) \<Rightarrow> i < INDEX_END)"
| "plain_call (AuditInOrder mid) = (case audit_key mid of None \<Rightarrow> True | Some (_, i) \<Rightarrow> i < INDEX_END)"
| "plain_call (AuditLastSeq pid) = True"
| "plain_call AuditClear = True"

section \<open>Invariant and view of the audit\<close>

definition good_bits :: "bit_set \<Rightarrow> bool" where
  "good_bits b \<longleftrightarrow> bs_inv b \<and> actualArrayLength b < 2 ^ 25"

definition audit_ok :: "int \<Rightarrow> int \<Rightarrow> message_audit \<Rightarrow> bool" where
  "audit_ok n N a \<longleftrightarrow> lru_ok hash_string n N (auditMap a) \<and> 0 \<le> auditDepth a \<and>
     (\<forall>b\<in>ran (hm_lookup (auditMap a)). good_bits b)"

definition audit_view :: "message_audit \<Rightarrow> (string \<times> nat set) list" where
  "audit_view a = map (map_prod id bs_members) (lhm_view (auditMap a))"

lemma good_bits_rep: "good_bits b \<Longrightarrow> bs_rep b (bs_fun b)" "good_bits b \<Longrightarrow> actualArrayLength b < 2 ^ 25"
  by (simp_all add: good_bits_def bs_inv_def)

lemma linked_write:
  assumes inv: "lhm_inv hf m" and k: "hm_lookup m k = Some w"
  shows "lhm_inv hf (set_entry_value k v m)" "hm_lookup (set_entry_value k v m) = (hm_lookup m)(k \<mapsto> v)"
    "lhm_view (set_entry_value k v m) = AList.update k v (lhm_view m)"
proof -
  have tinv: "table_inv hf m" using inv by (simp add: lhm_inv_def)
  have "hm_lookup m k \<noteq> None" using k by simp
  note s = set_entry_value_inv [OF tinv this, of v]
  show look: "hm_lookup (set_entry_value k v m) = (hm_lookup m)(k \<mapsto> v)" by (rule s(2))
  have ch: "chain (set_entry_value k v m) = chain m" by (simp add: set_entry_value_def)
  have d: "distinct (chain m)" "k \<in> set (chain m)" using inv k by (auto simp: lhm_inv_def)
  show "lhm_inv hf (set_entry_value k v m)" using s inv k ch by (auto simp: lhm_inv_def)
  show "lhm_view (set_entry_value k v m) = AList.update k v (lhm_view m)"
    unfolding lhm_view_def update_keyed [OF d(1)] look ch using d(2) by simp
qed

lemma lru_ok_write:
  assumes ok: "lru_ok hf n N m" and k: "hm_lookup m k = Some w"
  shows "lru_ok hf n N (set_entry_value k v m)"
proof -
  have inv: "lhm_inv hf m" and g: "grown hf n m" using ok by (simp_all add: lru_ok_def)
  note s = linked_write [OF inv k, of v]
  have "length (elementData (set_entry_value k v m)) = length (elementData m)"
    "loadNum (set_entry_value k v m) = loadNum m" "loadExp (set_entry_value k v m) = loadExp m"
    "accessOrder (set_entry_value k v m) = accessOrder m" "maxCacheSize (set_entry_value k v m) = maxCacheSize m"
    by (simp_all add: set_entry_value_def)
  then show ?thesis
    using ok s grown_shrink [OF g, of "set_entry_value k v m"] k by (auto simp: lru_ok_def lhm_inv_def)
qed

lemma lru_ok_get:
  assumes ok: "lru_ok hf n N m"
  obtains m' where "lhm_get hf k m = (of_option NoSuchElementException (hm_lookup m k), m')"
    "lru_ok hf n N m'" "hm_lookup m' = hm_lookup m"
    "lhm_view m' = (case hm_lookup m k of None \<Rightarrow> lhm_view m | Some v \<Rightarrow> AList.delete k (lhm_view m) @ [(k, v)])"
proof -
  have inv: "lhm_inv hf m" and g: "grown hf n m" and acc: "accessOrder m" and N: "maxCacheSize m = N"
    using ok by (simp_all add: lru_ok_def)
  have d: "distinct (chain m)" using inv by (simp add: lhm_inv_def)
  obtain m' where m': "lhm_get hf k m = (of_option NoSuchElementException (hm_lookup m k), m')"
    "lhm_inv hf m'" "hm_lookup m' = hm_lookup m" "accessOrder m'"
    "linked_hash_map.more m' = linked_hash_map.more m" "hash_map.truncate m' = hash_map.truncate m"
    "chain m' = (if hm_lookup m k = None then chain m else remove1 k (chain m) @ [k])"
    using linked_get [OF inv acc, of k] by blast
  have "lru_ok hf n N m'"
    using m'(2,4) g truncate_grown [OF m'(6)] same_max [OF m'(5)] N by (simp add: lru_ok_def)
  moreover have "lhm_view m' =
    (case hm_lookup m k of None \<Rightarrow> lhm_view m | Some v \<Rightarrow> AList.delete k (lhm_view m) @ [(k, v)])"
    using m'(3,7) d by (cases "hm_lookup m k") (auto simp: lhm_view_def delete_keyed)
  ultimately show ?thesis using that m'(1,3) by blast
qed

lemma update_map_prod:
  "map (map_prod id f) (AList.update k v xs) = AList.update k (f v) (map (map_prod id f) xs)"
  by (induction xs) auto

lemma delete_map_prod:
  "map (map_prod id f) (AList.delete k xs) = AList.delete k (map (map_prod id f) xs)"
  by (induction xs) auto

lemma map_of_map_prod: "map_of (map (map_prod id f) xs) k = map_option f (map_of xs k)"
  by (induction xs) auto

lemma map_of_audit_view:
  "audit_ok n N a \<Longrightarrow> map_of (audit_view a) seed = map_option bs_members (hm_lookup (auditMap a) seed)"
  unfolding audit_view_def map_of_map_prod
  by (subst map_of_view [where hf = hash_string]) (simp_all add: audit_ok_def lru_ok_def)

section \<open>Refinement\<close>

lemma audit_ok_Suc: "audit_ok n N a \<Longrightarrow> audit_ok (n + 1) N a"
  using grown_mono [of hash_string n _ "n + 1"] by (auto simp: audit_ok_def lru_ok_def)

lemma audit_get:
  assumes ok: "audit_ok n N a"
  obtains m where "lhm_get hash_string seed (auditMap a) =
      (of_option NoSuchElementException (hm_lookup (auditMap a) seed), m)"
    "audit_ok n N (a\<lparr>auditMap := m\<rparr>)" "hm_lookup m = hm_lookup (auditMap a)"
    "audit_view (a\<lparr>auditMap := m\<rparr>) = refresh seed (audit_view a)" "lru_ok hash_string n N m"
    "lhm_view m = (case hm_lookup (auditMap a) seed of None \<Rightarrow> lhm_view (auditMap a)
       | Some v \<Rightarrow> AList.delete seed (lhm_view (auditMap a)) @ [(seed, v)])"
proof -
  have "lru_ok hash_string n N (auditMap a)" using ok by (simp add: audit_ok_def)
  from lru_ok_get [OF this, of seed] obtain m where m:
    "lhm_get hash_string seed (auditMap a) = (of_option NoSuchElementException (hm_lookup (auditMap a) seed), m)"
    "lru_ok hash_string n N m" "hm_lookup m = hm_lookup (auditMap a)"
    "lhm_view m = (case hm_lookup (auditMap a) seed of None \<Rightarrow> lhm_view (auditMap a)
       | Some v \<Rightarrow> AList.delete seed (lhm_view (auditMap a)) @ [(seed, v)])" by blast
  have "audit_ok n N (a\<lparr>auditMap := m\<rparr>)" using ok m(2,3) by (simp add: audit_ok_def)
  moreover have "audit_view (a\<lparr>auditMap := m\<rparr>) = refresh seed (audit_view a)"
    using m(4) unfolding refresh_def map_of_audit_view [OF ok]
    by (cases "hm_lookup (auditMap a) seed") (simp_all add: audit_view_def delete_map_prod)
  ultimately show ?thesis using that m by blast
qed

lemma evict_new:
  assumes "k \<notin> fst ` set xs" "0 < N"
  shows "map_of (evict N (xs @ [(k, v)])) k = Some v" "set (evict N (xs @ [(k, v)])) \<subseteq> insert (k, v) (set xs)"
  using assms by (cases xs; auto simp: evict_def map_add_def map_of_eq_None_iff [symmetric])+

lemma evict_map: "map f (evict N xs) = evict N (map f xs)"
  by (simp add: evict_def map_tl)

lemma evict_ran:
  assumes inv: "lhm_inv hf m" "lhm_inv hf m'" and view: "lhm_view m' = evict N (lhm_view m @ [(k, v)])"
    and w: "w \<in> ran (hm_lookup m')"
  shows "w = v \<or> w \<in> ran (hm_lookup m)"
proof -
  have d: "distinct (map fst (lhm_view m))" using inv(1) by (simp add: lhm_inv_def)
  obtain k' where "map_of (lhm_view m') k' = Some w" using w map_of_view [OF inv(2)] by (auto simp: ran_def)
  then have "(k', w) \<in> set (evict N (lhm_view m @ [(k, v)]))" using view by (metis map_of_SomeD)
  then have "(k', w) = (k, v) \<or> (k', w) \<in> set (lhm_view m)"
    by (auto simp: evict_def split: if_splits dest: list.set_sel(2) [rotated])
  then show ?thesis
    using map_of_view [OF inv(1)] map_of_is_SomeI [OF d] by (auto simp: ran_def)
qed

lemma audit_bits_spec:
  assumes ok: "audit_ok n N a" and n: "n \<le> 2 ^ 26" and N: "0 < N"
  obtains b a1 where "audit_bits seed a = (Inr b, a1)" "audit_ok (n + 1) N a1"
    "hm_lookup (auditMap a1) seed = Some b" "bs_members b = seen_of seed (audit_view a)"
    "audit_view a1 = touch N seed (audit_view a)" "good_bits b"
proof -
  obtain m where m: "lhm_get hash_string seed (auditMap a) =
      (of_option NoSuchElementException (hm_lookup (auditMap a) seed), m)"
    "audit_ok n N (a\<lparr>auditMap := m\<rparr>)" "hm_lookup m = hm_lookup (auditMap a)"
    "audit_view (a\<lparr>auditMap := m\<rparr>) = refresh seed (audit_view a)" "lru_ok hash_string n N m"
    using audit_get [OF ok, of seed] by blast
  note mo = map_of_audit_view [OF ok, of seed]
  show ?thesis
  proof (cases "hm_lookup (auditMap a) seed")
    case (Some b)
    have "good_bits b" using ok Some by (auto simp: audit_ok_def ran_def)
    then show ?thesis
      using that [of b "a\<lparr>auditMap := m\<rparr>"] Some m mo audit_ok_Suc [OF m(2)]
      by (simp add: audit_bits_def seen_of_def touch_def)
  next
    case None
    have depth: "0 \<le> auditDepth a" using ok by (simp add: audit_ok_def)
    obtain b where b: "BitSet_of_count (auditDepth a) = Inr b" "actualArrayLength b = 0"
      using depth by (simp add: BitSet_of_count_def Let_def)
    have good: "good_bits b" "bs_members b = {}"
      using bs_rep_inv [OF BitSet_of_count_rep [OF b(1)]] b(2) by (simp_all add: good_bits_def members_def)
    let ?xs = "AList.delete seed (lhm_view m) @ [(seed, b)]"
    obtain m' where m': "lru_put hash_string new_BitSet seed b m = Inr (map_of (lhm_view m) seed \<noteq> None, m')"
      "lru_ok hash_string (n + 1) N m'" "lhm_view m' = (if int (length ?xs) > N then tl ?xs else ?xs)"
      using lru_put_refines [OF m(5) n N, of new_BitSet seed b] by (auto simp: Let_def)
    let ?a1 = "a\<lparr>auditMap := m'\<rparr>"
    have inv: "lhm_inv hash_string m" "lhm_inv hash_string m'" using m(5) m'(2) by (simp_all add: lru_ok_def)
    have new: "seed \<notin> fst ` set (lhm_view m)"
      using map_of_view [OF inv(1)] m(3) None by (metis map_of_eq_None_iff)
    have view: "lhm_view m' = evict N (lhm_view m @ [(seed, b)])"
      using m'(3) AList.delete_id [OF new] by (simp add: evict_def)
    have look: "hm_lookup (auditMap ?a1) seed = Some b"
      using map_of_view [OF inv(2)] evict_new(1) [OF new N, of b] view by simp
    have "good_bits b'" if "b' \<in> ran (hm_lookup (auditMap a))" for b'
      using ok that by (simp add: audit_ok_def)
    then have "good_bits b'" if "b' \<in> ran (hm_lookup m')" for b'
      using evict_ran [OF inv(1) inv(2) view, of b'] that good(1) m(3) by auto
    then have "audit_ok (n + 1) N ?a1" using ok m'(2) by (simp add: audit_ok_def)
    moreover have "audit_bits seed a = (Inr b, ?a1)" using None m(1) m'(1) b(1) by (simp add: audit_bits_def)
    moreover have "audit_view ?a1 = touch N seed (audit_view a)"
    proof -
      have "map (map_prod id bs_members) (lhm_view m) = audit_view a"
        using m(4) mo None by (simp add: refresh_def audit_view_def)
      then show ?thesis
        using mo None good(2) by (simp add: audit_view_def [of ?a1] view evict_map touch_def)
    qed
    ultimately show ?thesis using that look good mo None by (simp add: seen_of_def)
  qed
qed

lemma write_bits_spec:
  assumes ok: "audit_ok n N a" and seed: "hm_lookup (auditMap a) seed = Some b0" and b: "good_bits b"
  shows "audit_ok n N (write_bits seed b a)"
    "audit_view (write_bits seed b a) = AList.update seed (bs_members b) (audit_view a)"
proof -
  have lru: "lru_ok hash_string n N (auditMap a)" and inv: "lhm_inv hash_string (auditMap a)"
    using ok by (simp_all add: audit_ok_def lru_ok_def)
  note w = linked_write [OF inv seed, of b]
  have "good_bits b'" if "b' \<in> ran ((hm_lookup (auditMap a))(seed \<mapsto> b))" for b'
    using that ok b by (auto simp: audit_ok_def ran_def split: if_splits)
  then show "audit_ok n N (write_bits seed b a)"
    using ok lru_ok_write [OF lru seed, of b] w(2) by (simp add: audit_ok_def write_bits_def)
  show "audit_view (write_bits seed b a) = AList.update seed (bs_members b) (audit_view a)"
    using w(3) by (simp add: audit_view_def write_bits_def update_map_prod)
qed

lemma scaledIndex_id: "0 \<le> i \<Longrightarrow> i < INDEX_END \<Longrightarrow> scaledIndex i = i"
  by (simp add: scaledIndex_def INT_MAX_def INDEX_END_def wrap32_id)

lemma good_set:
  assumes b: "good_bits b" and i: "0 \<le> i" "i < INDEX_END"
  obtains b' where "bs_set_value i v b = Inr b'" "good_bits b'"
    "bs_members b' = (if v then insert (nat i) (bs_members b) else bs_members b - {nat i})"
proof -
  note rep = good_bits_rep [OF b]
  show ?thesis
  proof (cases v)
    case True
    then obtain b' where b': "bs_set i b = Inr b'" "bs_rep b' (\<lambda>k. bs_fun b k OR one_at (nat i) k)"
      using bs_set_rep [OF rep(1) i(1)] by blast
    then show ?thesis
      using that [of b'] True rep(2) bs_rep_inv [OF b'(2)] actual_bounds(1) [OF b'(1)] word_pos_bound [OF i]
      by (simp add: bs_set_value_def good_bits_def members_one_at bs_members_def)
  next
    case False
    then obtain b' where b': "bs_clear_at i b = Inr b'" "bs_rep b' (\<lambda>k. bs_fun b k AND NOT (one_at (nat i) k))"
      using bs_clear_at_rep [OF rep(1) i(1)] by blast
    then show ?thesis
      using that [of b'] False rep(2) bs_rep_inv [OF b'(2)] actual_bounds(3) [OF b'(1)]
      by (simp add: bs_set_value_def good_bits_def members_one_at bs_members_def)
  qed
qed

lemma good_length:
  assumes b: "good_bits b"
  obtains b' where "bs_length b = (last_of (bs_members b) + 1, b')" "good_bits b'" "bs_members b' = bs_members b"
proof -
  note rep = good_bits_rep [OF b]
  note len = bs_length_rep [OF rep]
  have "fst (bs_length b) = last_of (bs_members b) + 1" using len(1) by (simp add: last_of_def bs_members_def)
  moreover have "good_bits (snd (bs_length b))" "bs_members (snd (bs_length b)) = bs_members b"
    using bs_rep_inv [OF len(2)] len(3) rep(2) by (simp_all add: good_bits_def bs_members_def)
  ultimately show ?thesis using that [of "snd (bs_length b)"] by (metis prod.collapse)
qed

lemma check_bit_spec:
  assumes ok: "audit_ok n N a" and seed: "hm_lookup (auditMap a) seed = Some b"
    and i: "0 \<le> i" "i < INDEX_END"
  obtains a' where "check_bit seed i b a = (Inr (nat i \<in> bs_members b), a')" "audit_ok n N a'"
    "audit_view a' = AList.update seed (insert (nat i) (bs_members b)) (audit_view a)"
proof -
  have b: "good_bits b" using ok seed by (auto simp: audit_ok_def ran_def)
  have get: "bs_get i b = Inr (nat i \<in> bs_members b)"
    using bs_get_rep [OF good_bits_rep(1) [OF b] i(1)] by (simp add: bs_members_def)
  obtain b' where b': "bs_set_value i True b = Inr b'" "good_bits b'" "bs_members b' = insert (nat i) (bs_members b)"
    using good_set [OF b i, of True] by auto
  show ?thesis
  proof (cases "nat i \<in> bs_members b")
    case True
    then have "AList.update seed (insert (nat i) (bs_members b)) (audit_view a) = audit_view a"
      using map_of_audit_view [OF ok, of seed] seed by (intro AList.update_triv) (simp add: insert_absorb)
    then show ?thesis using that [of a] True ok get i by (simp add: check_bit_def scaledIndex_id)
  next
    case False
    then show ?thesis
      using that [of "write_bits seed b' a"] write_bits_spec [OF ok seed b'(2)] get b' i
      by (simp add: check_bit_def scaledIndex_id)
  qed
qed

lemma isDuplicate_step:
  assumes ok: "audit_ok n N a" and n: "n \<le> 2 ^ 26" and N: "0 < N" and plain: "plain_call (AuditDuplicate mid)"
  shows "\<exists>a'. audit_step (AuditDuplicate mid) a = (fst (window_step N (AuditDuplicate mid) (audit_view a)), a') \<and>
    audit_view a' = snd (window_step N (AuditDuplicate mid) (audit_view a)) \<and> audit_ok (n + 1) N a'"
proof (cases "audit_key mid")
  case None
  then have "isDuplicate mid a = (Inr False, a)"
    by (auto simp: isDuplicate_def audit_key_def split: option.splits)
  then show ?thesis using None audit_ok_Suc [OF ok] by simp
next
  case (Some key)
  then obtain seed i where key: "audit_key mid = Some (seed, i)" by (cases key) auto
  obtain b a1 where b: "audit_bits seed a = (Inr b, a1)" "audit_ok (n + 1) N a1"
    "hm_lookup (auditMap a1) seed = Some b" "bs_members b = seen_of seed (audit_view a)"
    "audit_view a1 = touch N seed (audit_view a)"
    using audit_bits_spec [OF ok n N, of seed] by metis
  have dup: "isDuplicate mid a = check_bit seed i b a1"
    using key b(1) by (auto simp: isDuplicate_def audit_key_def ProducerId_toString_def bind_eq_Some_conv)
  show ?thesis
  proof (cases "i < 0")
    case True
    then show ?thesis using dup key b(2,5) by (auto simp: check_bit_def)
  next
    case False
    then have "0 \<le> i" "i < INDEX_END" using plain key by simp_all
    from check_bit_spec [OF b(2,3) this] obtain a' where "isDuplicate mid a = (Inr (nat i \<in> bs_members b), a')"
      "audit_ok (n + 1) N a'" "audit_view a' = AList.update seed (insert (nat i) (bs_members b)) (audit_view a1)"
      unfolding dup by blast
    then show ?thesis using key b(4,5) False by simp
  qed
qed

lemma rollback_bit_spec:
  assumes ok: "audit_ok n N a" and i: "i < INDEX_END"
  obtains a' where "rollback_bit seed i a = (Inr (), a')" "audit_ok n N a'"
    "audit_view a' = (if i < 0 \<or> map_of (audit_view a) seed = None then refresh seed (audit_view a)
       else AList.update seed (seen_of seed (audit_view a) - {nat i}) (refresh seed (audit_view a)))"
proof -
  obtain m where m: "lhm_get hash_string seed (auditMap a) =
      (of_option NoSuchElementException (hm_lookup (auditMap a) seed), m)"
    "audit_ok n N (a\<lparr>auditMap := m\<rparr>)" "hm_lookup m = hm_lookup (auditMap a)"
    "audit_view (a\<lparr>auditMap := m\<rparr>) = refresh seed (audit_view a)"
    using audit_get [OF ok, of seed] by blast
  let ?a1 = "a\<lparr>auditMap := m\<rparr>"
  note mo = map_of_audit_view [OF ok, of seed]
  show ?thesis
  proof (cases "hm_lookup (auditMap a) seed")
    case None
    then show ?thesis using that [of ?a1] m mo by (simp add: rollback_bit_def)
  next
    case (Some b)
    then have b: "good_bits b" and b1: "hm_lookup (auditMap ?a1) seed = Some b"
      using ok m(3) by (auto simp: audit_ok_def ran_def)
    show ?thesis
    proof (cases "i < 0")
      case True
      then show ?thesis using that [of ?a1] m Some by (simp add: rollback_bit_def)
    next
      case False
      then have i': "0 \<le> i" by simp
      obtain b' where b': "bs_set_value i False b = Inr b'" "good_bits b'" "bs_members b' = bs_members b - {nat i}"
        using good_set [OF b i' i, of False] by auto
      show ?thesis
        using that [of "write_bits seed b' ?a1"] write_bits_spec [OF m(2) b1 b'(2)] m(1,4) Some mo b'(1,3) False i
        by (simp add: rollback_bit_def scaledIndex_id seen_of_def)
    qed
  qed
qed

lemma rollback_step:
  assumes ok: "audit_ok n N a" and plain: "plain_call (AuditRollback mid)"
  shows "\<exists>a'. audit_step (AuditRollback mid) a = (fst (window_step N (AuditRollback mid) (audit_view a)), a') \<and>
    audit_view a' = snd (window_step N (AuditRollback mid) (audit_view a)) \<and> audit_ok (n + 1) N a'"
proof (cases "audit_key mid")
  case None
  then have "rollback mid a = (Inr (), a)"
    by (auto simp: rollback_def audit_key_def split: option.splits)
  then show ?thesis using None audit_ok_Suc [OF ok] by simp
next
  case (Some key)
  then obtain seed i where key: "audit_key mid = Some (seed, i)" by (cases key) auto
  have "rollback mid a = rollback_bit seed i a"
    using key by (auto simp: rollback_def audit_key_def ProducerId_toString_def bind_eq_Some_conv)
  moreover have "i < INDEX_END" using plain key by simp
  from rollback_bit_spec [OF ok this, of seed] obtain a' where "rollback_bit seed i a = (Inr (), a')"
    "audit_ok n N a'"
    "audit_view a' = (if i < 0 \<or> map_of (audit_view a) seed = None then refresh seed (audit_view a)
       else AList.update seed (seen_of seed (audit_view a) - {nat i}) (refresh seed (audit_view a)))" by blast
  ultimately show ?thesis using key audit_ok_Suc [of n N a'] by simp
qed

text \<open>Reading the length may trim the bit set's array; its members and the view stay.\<close>

lemma write_length:
  assumes ok: "audit_ok n N a" and seed: "hm_lookup (auditMap a) seed = Some b"
  obtains b' where "bs_length b = (last_of (bs_members b) + 1, b')" "audit_ok n N (write_bits seed b' a)"
    "audit_view (write_bits seed b' a) = audit_view a"
proof -
  have "good_bits b" using ok seed by (auto simp: audit_ok_def ran_def)
  then obtain b' where b': "bs_length b = (last_of (bs_members b) + 1, b')" "good_bits b'"
    "bs_members b' = bs_members b" by (rule good_length)
  have "AList.update seed (bs_members b) (audit_view a) = audit_view a"
    using map_of_audit_view [OF ok, of seed] seed by (intro AList.update_triv) simp
  then show ?thesis using that [OF b'(1)] write_bits_spec [OF ok seed b'(2)] b'(3) by simp
qed

lemma isInOrder_step:
  assumes ok: "audit_ok n N a" and n: "n \<le> 2 ^ 26" and N: "0 < N" and plain: "plain_call (AuditInOrder mid)"
  shows "\<exists>a'. audit_step (AuditInOrder mid) a = (fst (window_step N (AuditInOrder mid) (audit_view a)), a') \<and>
    audit_view a' = snd (window_step N (AuditInOrder mid) (audit_view a)) \<and> audit_ok (n + 1) N a'"
proof (cases "audit_key mid")
  case None
  then have "isInOrder mid a = (Inr False, a)"
    by (auto simp: isInOrder_def audit_key_def split: option.splits)
  then show ?thesis using None audit_ok_Suc [OF ok] by simp
next
  case (Some key)
  then obtain seed i where key: "audit_key mid = Some (seed, i)" by (cases key) auto
  obtain b a1 where b: "audit_bits seed a = (Inr b, a1)" "audit_ok (n + 1) N a1"
    "hm_lookup (auditMap a1) seed = Some b" "bs_members b = seen_of seed (audit_view a)"
    "audit_view a1 = touch N seed (audit_view a)"
    using audit_bits_spec [OF ok n N, of seed] by metis
  obtain b' where b': "bs_length b = (last_of (bs_members b) + 1, b')" "audit_ok (n + 1) N (write_bits seed b' a1)"
    "audit_view (write_bits seed b' a1) = audit_view a1" using write_length [OF b(2,3)] by blast
  have "isInOrder mid a = (if i \<ge> 0 then order_bit seed i b a1 else (Inr False, a1))"
    using key b(1) by (auto simp: isInOrder_def audit_key_def ProducerId_toString_def bind_eq_Some_conv)
  then show ?thesis
    using key b b' plain by (cases "i < 0") (auto simp: order_bit_def scaledIndex_id)
qed

lemma getLastSeqId_step:
  assumes ok: "audit_ok n N a"
  shows "\<exists>a'. audit_step (AuditLastSeq pid) a = (fst (window_step N (AuditLastSeq pid) (audit_view a)), a') \<and>
    audit_view a' = snd (window_step N (AuditLastSeq pid) (audit_view a)) \<and> audit_ok (n + 1) N a'"
proof (cases pid)
  case None
  then show ?thesis using audit_ok_Suc [OF ok] by (simp add: getLastSeqId_def)
next
  case (Some p)
  let ?seed = "ProducerId_toString p"
  obtain m where m: "lhm_get hash_string ?seed (auditMap a) =
      (of_option NoSuchElementException (hm_lookup (auditMap a) ?seed), m)"
    "audit_ok n N (a\<lparr>auditMap := m\<rparr>)" "hm_lookup m = hm_lookup (auditMap a)"
    "audit_view (a\<lparr>auditMap := m\<rparr>) = refresh ?seed (audit_view a)"
    using audit_get [OF ok, of ?seed] by blast
  note mo = map_of_audit_view [OF ok, of ?seed]
  have ne: "?seed \<noteq> []" by (simp add: ProducerId_toString_def)
  show ?thesis
  proof (cases "hm_lookup (auditMap a) ?seed")
    case None
    then show ?thesis using Some ne m audit_ok_Suc [OF m(2)] mo
      by (simp add: getLastSeqId_def seen_of_def last_of_def)
  next
    case b: (Some b)
    then have "hm_lookup (auditMap (a\<lparr>auditMap := m\<rparr>)) ?seed = Some b" using m(3) by simp
    from write_length [OF m(2) this] obtain b' where b': "bs_length b = (last_of (bs_members b) + 1, b')"
      "audit_ok n N (write_bits ?seed b' (a\<lparr>auditMap := m\<rparr>))"
      "audit_view (write_bits ?seed b' (a\<lparr>auditMap := m\<rparr>)) = refresh ?seed (audit_view a)" using m(4) by metis
    then show ?thesis using Some ne m(1) audit_ok_Suc [OF b'(2)] mo b
      by (simp add: getLastSeqId_def seen_of_def)
  qed
qed

lemma audit_clear_step:
  assumes ok: "audit_ok n N a"
  shows "audit_ok n N (audit_clear a)" "audit_view (audit_clear a) = []"
proof -
  let ?m = "auditMap a" and ?c = "lhm_clear (auditMap a)"
  have lru: "lru_ok hash_string n N ?m" using ok by (simp add: audit_ok_def)
  then have inv: "table_inv hash_string ?m" by (simp add: lru_ok_def lhm_inv_def)
  have look: "hm_lookup ?c = (\<lambda>_. None)"
    using clear_inv(2) [OF inv] by (simp add: lhm_clear_def hm_lookup_def hm_entries_def)
  have tinv: "table_inv hash_string ?c"
    using clear_inv(1) [OF inv] by (simp add: lhm_clear_def table_inv_def hm_entries_def)
  have fields: "length (elementData ?c) = length (elementData ?m)" "loadNum ?c = loadNum ?m"
    "loadExp ?c = loadExp ?m" "accessOrder ?c = accessOrder ?m" "maxCacheSize ?c = maxCacheSize ?m" "chain ?c = []"
    by (simp_all add: lhm_clear_def hm_clear_def)
  have "grown hash_string n ?c"
    using lru by (intro grown_shrink [OF _ tinv fields(1-3)]) (simp_all add: lru_ok_def look)
  then have "lru_ok hash_string n N ?c"
    using lru tinv look fields by (simp add: lru_ok_def lhm_inv_def)
  then show "audit_ok n N (audit_clear a)" using ok look by (simp add: audit_ok_def audit_clear_def)
  show "audit_view (audit_clear a) = []" using fields(6) by (simp add: audit_view_def audit_clear_def lhm_view_def)
qed

lemma audit_step_refines:
  assumes ok: "audit_ok n N a" and n: "n \<le> 2 ^ 26" and N: "0 < N" and plain: "plain_call c"
  shows "\<exists>a'. audit_step c a = (fst (window_step N c (audit_view a)), a') \<and>
    audit_view a' = snd (window_step N c (audit_view a)) \<and> audit_ok (n + 1) N a'"
proof (cases c)
  case (AuditDuplicate mid)
  then show ?thesis using isDuplicate_step [OF ok n N] plain by blast
next
  case (AuditRollback mid)
  then show ?thesis using rollback_step [OF ok] plain by blast
next
  case (AuditInOrder mid)
  then show ?thesis using isInOrder_step [OF ok n N] plain by blast
next
  case (AuditLastSeq pid)
  then show ?thesis using getLastSeqId_step [OF ok] by blast
next
  case AuditClear
  then show ?thesis using audit_clear_step [OF ok] audit_ok_Suc by auto
qed

lemma audit_run_refines:
  "audit_ok n N a \<Longrightarrow> n + int (length cs) \<le> 2 ^ 26 \<Longrightarrow> 0 < N \<Longrightarrow> list_all plain_call cs \<Longrightarrow>
    \<exists>a'. audit_run cs a = (fst (window_run N cs (audit_view a)), a') \<and>
      audit_view a' = snd (window_run N cs (audit_view a)) \<and> audit_ok (n + int (length cs)) N a'"
proof (induction cs arbitrary: a n)
  case (Cons c cs)
  have "n \<le> 2 ^ 26" "plain_call c" using Cons.prems(2,4) by simp_all
  from audit_step_refines [OF Cons.prems(1) this(1) Cons.prems(3) this(2)] obtain a1 where
    a1: "audit_step c a = (fst (window_step N c (audit_view a)), a1)"
      "audit_view a1 = snd (window_step N c (audit_view a))" "audit_ok (n + 1) N a1" by blast
  have "n + 1 + int (length cs) \<le> 2 ^ 26" "list_all plain_call cs" using Cons.prems(2,4) by simp_all
  from Cons.IH [OF a1(3) this(1) Cons.prems(3) this(2)] a1(1,2) show ?case
    by (auto simp: split_def Let_def algebra_simps)
qed simp

lemma new_audit_ok:
  assumes "0 \<le> depth"
  shows "audit_ok 0 10000 (new_MessageAudit depth maxProducers)" "audit_view (new_MessageAudit depth maxProducers) = []"
proof -
  have "LRUCache_max 10000 = Inr (new_LRUCache :: (string, bit_set) lru_cache)"
    by (simp add: LRUCache_max_def LRUCache_init_def HashMap_load_def new_LRUCache_def)
  then have m: "lru_ok hash_string 0 10000 (new_LRUCache :: (string, bit_set) lru_cache)"
    "lhm_view (new_LRUCache :: (string, bit_set) lru_cache) = []"
    using LRUCache_max_ok [of 10000 hash_string, where ?'v = bit_set] by auto
  then have inv: "lhm_inv hash_string (new_LRUCache :: (string, bit_set) lru_cache)" by (simp add: lru_ok_def)
  have "hm_lookup (new_LRUCache :: (string, bit_set) lru_cache) = Map.empty"
    using map_of_view [OF inv] m(2) by simp
  then show "audit_ok 0 10000 (new_MessageAudit depth maxProducers)"
    using assms m(1) by (simp add: audit_ok_def new_MessageAudit_def)
  show "audit_view (new_MessageAudit depth maxProducers) = []"
    using m(2) by (simp add: audit_view_def new_MessageAudit_def)
qed

section \<open>Few producers: nothing is forgotten\<close>

text \<open>
  The set of (producer, sequence number) pairs that a client expects the audit to keep, with no bound
  on their number.
\<close>

definition msg_pair :: "message_id option \<Rightarrow> (producer_id \<times> int) option" where
  "msg_pair msgId = Option.bind msgId (\<lambda>mid.
     map_option (\<lambda>pid. (pid, producerSequenceId mid)) (producerId mid))"

definition last_seq :: "producer_id \<Rightarrow> (producer_id \<times> int) set \<Rightarrow> int" where
  "last_seq pid P = last_of (nat ` {i. (pid, i) \<in> P})"

fun pair_step :: "audit_call \<Rightarrow> (producer_id \<times> int) set \<Rightarrow> audit_reply \<times> (producer_id \<times> int) set" where
  "pair_step (AuditDuplicate mid) P =
     (case msg_pair mid of
        None \<Rightarrow> (RAnswer (Inr False), P)
      | Some k \<Rightarrow> (RAnswer (Inr (k \<in> P)), insert k P))"
| "pair_step (AuditRollback mid) P =
     (RDone (Inr ()), case msg_pair mid of None \<Rightarrow> P | Some k \<Rightarrow> P - {k})"
| "pair_step (AuditInOrder mid) P =
     (RAnswer (Inr (case msg_pair mid of None \<Rightarrow> False | Some (pid, i) \<Rightarrow> last_seq pid P = i)), P)"
| "pair_step (AuditLastSeq pid) P = (RLast (case pid of None \<Rightarrow> - 1 | Some p \<Rightarrow> last_seq p P), P)"
| "pair_step AuditClear P = (RDone (Inr ()), {})"

fun pair_run :: "audit_call list \<Rightarrow> (producer_id \<times> int) set \<Rightarrow> audit_reply list" where
  "pair_run [] P = []"
| "pair_run (c # cs) P = (let (r, P') = pair_step c P in r # pair_run cs P')"

text \<open>The calls that name only the producers of \<open>U\<close> and plain sequence numbers.\<close>

definition names_in :: "producer_id set \<Rightarrow> message_id option \<Rightarrow> bool" where
  "names_in U mid = (case msg_pair mid of None \<Rightarrow> True | Some (pid, i) \<Rightarrow> pid \<in> U \<and> 0 \<le> i \<and> i < INDEX_END)"

fun call_in :: "producer_id set \<Rightarrow> audit_call \<Rightarrow> bool" where
  "call_in U (AuditDuplicate mid) = names_in U mid"
| "call_in U (AuditRollback mid) = names_in U mid"
| "call_in U (AuditInOrder mid) = names_in U mid"
| "call_in U (AuditLastSeq pid) = (case pid of None \<Rightarrow> True | Some p \<Rightarrow> p \<in> U)"
| "call_in U AuditClear = True"

definition long_ids :: "producer_id set \<Rightarrow> bool" where
  "long_ids U \<longleftrightarrow> (\<forall>p\<in>U. is_long (sessionId p) \<and> is_long (idValue p))"

definition tracks :: "int \<Rightarrow> producer_id set \<Rightarrow> (string \<times> nat set) list \<Rightarrow> (producer_id \<times> int) set \<Rightarrow> bool" where
  "tracks N U xs P \<longleftrightarrow> finite U \<and> long_ids U \<and> int (card U) \<le> N \<and> distinct (map fst xs) \<and>
     fst ` set xs \<subseteq> ProducerId_toString ` U \<and>
     (\<forall>p i. (p, i) \<in> P \<longleftrightarrow> p \<in> U \<and> 0 \<le> i \<and> nat i \<in> seen_of (ProducerId_toString p) xs)"

lemma msg_pair_key:
  "audit_key mid = map_option (\<lambda>(p, i). (ProducerId_toString p, i)) (msg_pair mid)"
  by (auto simp: audit_key_def msg_pair_def option.map_comp comp_def split: option.splits Option.bind_splits)

lemma call_in_plain: "call_in U c \<Longrightarrow> plain_call c"
  by (cases c) (auto simp: names_in_def msg_pair_key split: option.splits)

lemma seen_of_update: "seen_of k (AList.update s S xs) = (if k = s then S else seen_of k xs)"
  by (simp add: seen_of_def AList.update_conv')

lemma refresh_facts:
  assumes "distinct (map fst xs)"
  shows "seen_of k (refresh s xs) = seen_of k xs" "distinct (map fst (refresh s xs))"
    "fst ` set (refresh s xs) = fst ` set xs"
proof -
  have dom: "s \<in> fst ` set xs" if "map_of xs s = Some S" for S
    using that by (metis domI dom_map_of_conv_image_fst)
  show "seen_of k (refresh s xs) = seen_of k xs"
    by (cases "map_of xs s") (auto simp: refresh_def seen_of_def AList.delete_conv' map_add_def split: option.splits)
  show "distinct (map fst (refresh s xs))"
    using assms by (cases "map_of xs s") (auto simp: refresh_def AList.delete_keys distinct_removeAll)
  show "fst ` set (refresh s xs) = fst ` set xs"
    using dom by (cases "map_of xs s") (auto simp: refresh_def AList.delete_eq image_iff)
qed

lemma touch_facts:
  assumes t: "tracks N U xs P" and p: "p \<in> U"
  defines "s \<equiv> ProducerId_toString p"
  shows "seen_of k (touch N s xs) = seen_of k xs" "distinct (map fst (touch N s xs))"
    "fst ` set (touch N s xs) = insert s (fst ` set xs)"
proof -
  have d: "distinct (map fst xs)" using t by (simp add: tracks_def)
  have room: "evict N (xs @ [(s, {})]) = xs @ [(s, {})]" if "map_of xs s = None"
  proof -
    have new: "s \<notin> fst ` set xs" using that by (simp add: map_of_eq_None_iff)
    have "insert s (fst ` set xs) \<subseteq> ProducerId_toString ` U" using t p by (auto simp: tracks_def s_def)
    then have "card (insert s (fst ` set xs)) \<le> card (ProducerId_toString ` U)"
      using t by (intro card_mono) (auto simp: tracks_def)
    also have "\<dots> \<le> card U" using t by (intro card_image_le) (simp add: tracks_def)
    finally have "int (length xs) + 1 \<le> N"
      using new t distinct_card [OF d] by (simp add: tracks_def)
    then show ?thesis by (simp add: evict_def)
  qed
  show "seen_of k (touch N s xs) = seen_of k xs"
    using room refresh_facts(1) [OF d] by (auto simp: touch_def seen_of_def map_add_def split: option.splits)
  show "distinct (map fst (touch N s xs))"
    using room refresh_facts(2) [OF d] d by (auto simp: touch_def map_of_eq_None_iff)
  have "insert s (fst ` set xs) = fst ` set xs" if "map_of xs s \<noteq> None"
    using that by (auto simp: map_of_eq_None_iff)
  then show "fst ` set (touch N s xs) = insert s (fst ` set xs)"
    using room refresh_facts(3) [OF d] by (auto simp: touch_def)
qed

lemma toString_same:
  "long_ids U \<Longrightarrow> p \<in> U \<Longrightarrow> q \<in> U \<Longrightarrow> ProducerId_toString p = ProducerId_toString q \<longleftrightarrow> p = q"
  using producer_id_toString_inj [of p q] by (auto simp: long_ids_def)

lemma tracks_last:
  assumes "tracks N U xs P" "p \<in> U"
  shows "last_of (seen_of (ProducerId_toString p) xs) = last_seq p P"
proof -
  have "nat ` {i. (p, i) \<in> P} = seen_of (ProducerId_toString p) xs"
    using assms by (auto simp: tracks_def image_iff intro!: exI [of _ "int _"])
  then show ?thesis by (simp add: last_seq_def)
qed

lemma tracks_same:
  assumes "tracks N U xs P" "\<And>k. seen_of k ys = seen_of k xs" "distinct (map fst ys)"
    "fst ` set ys \<subseteq> ProducerId_toString ` U"
  shows "tracks N U ys P"
  using assms by (simp add: tracks_def)

lemma tracks_update:
  assumes t: "tracks N U xs P" and p: "p \<in> U"
    and P': "\<And>q i. (q, i) \<in> P' \<longleftrightarrow> (if q = p then 0 \<le> i \<and> nat i \<in> S else (q, i) \<in> P)"
  shows "tracks N U (AList.update (ProducerId_toString p) S xs) P'"
  using t p toString_same [of U _ p]
  by (auto simp: tracks_def P' seen_of_update AList.dom_update AList.distinct_update)

lemma tracks_keys: "tracks N U xs P \<Longrightarrow> distinct (map fst xs) \<and> fst ` set xs \<subseteq> ProducerId_toString ` U"
  by (simp add: tracks_def)

lemma tracks_member: "tracks N U xs P \<Longrightarrow> p \<in> U \<Longrightarrow> 0 \<le> i \<Longrightarrow> (nat i \<in> seen_of (ProducerId_toString p) xs) = ((p, i) \<in> P)"
  by (simp add: tracks_def)

lemma tracks_touch: "tracks N U xs P \<Longrightarrow> p \<in> U \<Longrightarrow> tracks N U (touch N (ProducerId_toString p) xs) P"
  by (rule tracks_same [of N U xs P])
    (use touch_facts [of N U xs P p] tracks_keys [of N U xs P] in simp_all)

lemma tracks_refresh: "tracks N U xs P \<Longrightarrow> tracks N U (refresh s xs) P"
  by (rule tracks_same [of N U xs P])
    (use refresh_facts [of xs] tracks_keys [of N U xs P] in simp_all)

lemma tracks_negative: "tracks N U xs P \<Longrightarrow> (p, i) \<in> P \<Longrightarrow> 0 \<le> i"
  by (simp add: tracks_def)

lemma window_tracks:
  assumes t: "tracks N U xs P" and c: "call_in U c"
  shows "fst (window_step N c xs) = fst (pair_step c P)"
    "tracks N U (snd (window_step N c xs)) (snd (pair_step c P))"
proof -
  have mem: "q \<in> U \<and> 0 \<le> j \<and> nat j \<in> seen_of (ProducerId_toString q) xs" if "(q, j) \<in> P" for q j
    using that t by (simp add: tracks_def)
  have "fst (window_step N c xs) = fst (pair_step c P) \<and>
    tracks N U (snd (window_step N c xs)) (snd (pair_step c P))"
  proof (cases c)
    case (AuditDuplicate mid)
    show ?thesis
    proof (cases "msg_pair mid")
      case None
      then show ?thesis using AuditDuplicate t by (simp add: msg_pair_key)
    next
      case (Some k)
      then obtain p i where k: "msg_pair mid = Some (p, i)" "p \<in> U" "0 \<le> i"
        using c AuditDuplicate by (cases k) (simp add: names_in_def)
      have "tracks N U (AList.update (ProducerId_toString p) (insert (nat i) (seen_of (ProducerId_toString p) xs))
        (touch N (ProducerId_toString p) xs)) (insert (p, i) P)"
        by (rule tracks_update [OF tracks_touch [OF t k(2)] k(2)])
          (use k mem tracks_member [OF t k(2)] in auto)
      then show ?thesis using AuditDuplicate k tracks_member [OF t k(2,3)] by (simp add: msg_pair_key)
    qed
  next
    case (AuditRollback mid)
    show ?thesis
    proof (cases "msg_pair mid")
      case None
      then show ?thesis using AuditRollback t by (simp add: msg_pair_key)
    next
      case (Some k)
      then obtain p i where k: "msg_pair mid = Some (p, i)" "p \<in> U" "0 \<le> i"
        using c AuditRollback by (cases k) (simp add: names_in_def)
      let ?s = "ProducerId_toString p"
      have "(q, j) \<in> P - {(p, i)} \<longleftrightarrow>
        (if q = p then 0 \<le> j \<and> nat j \<in> seen_of ?s xs - {nat i} else (q, j) \<in> P)" for q j
        using k mem [of q j] tracks_member [OF t k(2), of j] by (auto simp: nat_eq_iff)
      then have "tracks N U (AList.update ?s (seen_of ?s xs - {nat i}) (refresh ?s xs)) (P - {(p, i)})"
        by (rule tracks_update [OF tracks_refresh [OF t] k(2)])
      moreover have "P - {(p, i)} = P" if "map_of xs ?s = None"
        using that mem [of p i] by (auto simp: seen_of_def)
      ultimately show ?thesis
        using AuditRollback k tracks_refresh [OF t, of ?s] by (auto simp: msg_pair_key)
    qed
  next
    case (AuditInOrder mid)
    show ?thesis
    proof (cases "msg_pair mid")
      case None
      then show ?thesis using AuditInOrder t by (simp add: msg_pair_key)
    next
      case (Some k)
      then obtain p i where "msg_pair mid = Some (p, i)" "p \<in> U" "0 \<le> i"
        using c AuditInOrder by (cases k) (simp add: names_in_def)
      then show ?thesis using AuditInOrder tracks_touch [OF t] tracks_last [OF t] by (simp add: msg_pair_key)
    qed
  next
    case (AuditLastSeq pid)
    then show ?thesis using c t tracks_refresh [OF t] tracks_last [OF t] by (cases pid) simp_all
  next
    case AuditClear
    then show ?thesis using t by (simp add: tracks_def seen_of_def)
  qed
  then show "fst (window_step N c xs) = fst (pair_step c P)"
    "tracks N U (snd (window_step N c xs)) (snd (pair_step c P))" by blast+
qed

lemma window_run_tracks:
  "tracks N U xs P \<Longrightarrow> list_all (call_in U) cs \<Longrightarrow> fst (window_run N cs xs) = pair_run cs P"
proof (induction cs arbitrary: xs P)
  case (Cons c cs)
  have c: "call_in U c" and cs: "list_all (call_in U) cs" using Cons.prems(2) by simp_all
  note w = window_tracks [OF Cons.prems(1) c]
  show ?case using w(1) Cons.IH [OF w(2) cs] by (simp add: split_def Let_def)
qed simp

section \<open>Changing the number of producers\<close>

lemma LRUCache_init_ok:
  fixes v :: int
  assumes "0 < v"
  obtains m :: "(string, bit_set) lru_cache" where "LRUCache_init 0 v 3 2 True = Inr m"
    "lru_ok hash_string 0 v m" "lhm_view m = []" "chain m = []"
proof -
  obtain m :: "(string, bit_set) lru_cache" where m: "LRUCache_max v = Inr m" "lru_ok hash_string 0 v m" "lhm_view m = []"
    using LRUCache_max_ok [OF assms] by metis
  have "chain m = []" using view_keys(2) [of m] m(3) by simp
  then show ?thesis using that m by (simp add: LRUCache_max_def)
qed

lemma lru_view_entries: "lru_ok hf n N m \<Longrightarrow> lhm_entries m = lhm_view m"
  by (auto simp: lru_ok_def intro: view_entries)

lemma lru_view_distinct: "lru_ok hf n N m \<Longrightarrow> distinct (map fst (lhm_view m))"
  by (simp add: lru_ok_def lhm_inv_def)

lemma adjust_spec:
  assumes ok: "audit_ok n N a" and n: "n \<le> 2 ^ 23" and v: "0 < v"
  obtains a' where "adjustMaxProducersToTrack v a = Inr a'"
    "lhm_entries (auditMap a') = lhm_entries (auditMap a)" "maxCacheSize (auditMap a') = v"
    "maximumNumberOfProducersToTrack a' = v" "audit_view a' = audit_view a"
proof -
  let ?xs = "lhm_view (auditMap a)"
  have lru: "lru_ok hash_string n N (auditMap a)" using ok by (simp add: audit_ok_def)
  note ents = lru_view_entries [OF lru] and dist = lru_view_distinct [OF lru]
  have inv: "lhm_inv hash_string (auditMap a)" and "elementCount (auditMap a) \<le> n"
    using lru by (simp_all add: lru_ok_def grown_def)
  then have len: "int (length ?xs) \<le> n" using size_view [OF inv] by (simp add: hm_size_def)
  obtain m1 where m1: "(if v < maximumNumberOfProducersToTrack a
        then bind_result (LRUCache_init 0 v 3 2 True) (\<lambda>newMap0.
          let newMap = lhm_putAll hash_string new_BitSet (lhm_entries (auditMap a)) newMap0;
              cleared = lhm_clear (auditMap a)
          in Inr (a\<lparr>auditMap := lhm_putAll hash_string new_BitSet (lhm_entries newMap) cleared\<rparr>))
        else Inr a) = Inr (a\<lparr>auditMap := m1\<rparr>)" "lhm_view m1 = ?xs" "\<exists>n'. lru_ok hash_string n' N m1"
  proof (cases "v < maximumNumberOfProducersToTrack a")
    case False
    then show ?thesis using that [of "auditMap a"] lru by auto
  next
    case True
    obtain m0 :: "(string, bit_set) lru_cache" where m0: "LRUCache_init 0 v 3 2 True = Inr m0"
      "lru_ok hash_string 0 v m0" "lhm_view m0 = []" "chain m0 = []" by (rule LRUCache_init_ok [OF v])
    let ?new = "lhm_putAll hash_string new_BitSet ?xs m0"
    have L: "0 + int (length ?xs) \<le> 2 ^ 25" using len n by simp
    note new = lru_putAll [OF m0(2) L dist, of new_BitSet]
    have entries: "lhm_entries ?new = ?xs" using lru_view_entries [OF new(1)] new(2) m0(3,4) by simp
    let ?c = "lhm_clear (auditMap a)"
    have "lru_ok hash_string n N ?c" using audit_clear_step(1) [OF ok] by (simp add: audit_ok_def audit_clear_def)
    moreover have c: "chain ?c = []" by (simp add: lhm_clear_def)
    moreover have "n + int (length ?xs) \<le> 2 ^ 25" using len n by simp
    ultimately have "lru_ok hash_string (n + 2 * int (length ?xs)) N (lhm_putAll hash_string new_BitSet ?xs ?c)"
      "lhm_view (lhm_putAll hash_string new_BitSet ?xs ?c) = ?xs"
      using lru_putAll [of hash_string n N ?c ?xs new_BitSet] dist by (simp_all add: lhm_view_def [of ?c])
    then show ?thesis using that [of "lhm_putAll hash_string new_BitSet ?xs ?c"] True m0(1) ents entries by auto
  qed
  have view: "lhm_view (m1\<lparr>maxCacheSize := v\<rparr>) = ?xs"
    using m1(2) by (simp add: lhm_view_def hm_lookup_def hm_entries_def)
  have "lhm_entries (m1\<lparr>maxCacheSize := v\<rparr>) = lhm_entries m1"
    by (simp add: lhm_entries_def entry_of_def hm_entries_def)
  moreover have "lhm_entries m1 = lhm_entries (auditMap a)" using m1(2,3) ents lru_view_entries by metis
  moreover have "adjustMaxProducersToTrack v a =
      Inr (a\<lparr>auditMap := m1\<lparr>maxCacheSize := v\<rparr>, maximumNumberOfProducersToTrack := v\<rparr>)"
    unfolding adjustMaxProducersToTrack_def m1(1) using v by (simp add: setMaxCacheSize_def)
  ultimately show ?thesis using that view by (simp add: audit_view_def)
qed

section \<open>Properties of the audit\<close>

text \<open>
  C17.  For every sequence of up to 2^26 calls on a new audit, the replies of \<open>isDuplicate\<close>,
  \<open>rollback\<close>, \<open>isInOrder\<close>, \<open>getLastSeqId\<close> and \<open>clear\<close>, and the state they leave, are those of the
  window specification: per producer the set of sequence numbers seen, for the 10000 most recently
  used producers (the default of the cache: the configured maximum is not passed to it).
\<close>

theorem audit_refines_window:
  assumes "0 \<le> depth" "length cs \<le> 2 ^ 26" "list_all plain_call cs"
  shows "\<exists>a. audit_run cs (new_MessageAudit depth maxProducers) = (fst (window_run 10000 cs []), a) \<and>
    audit_view a = snd (window_run 10000 cs [])"
  using audit_run_refines [OF new_audit_ok(1) [OF assms(1), of maxProducers], of cs] assms(2,3)
    new_audit_ok(2) [OF assms(1), of maxProducers] by auto

theorem audit_refines_window_witness:
  "\<exists>a. audit_run [AuditDuplicate None, AuditLastSeq (Some \<lparr>connectionId = ''c'', idValue = 1, sessionId = 2\<rparr>), AuditClear]
      (new_MessageAudit 2048 64) = ([RAnswer (Inr False), RLast (- 1), RDone (Inr ())], a) \<and> audit_view a = []"
  using audit_refines_window [of 2048 "[AuditDuplicate None,
      AuditLastSeq (Some \<lparr>connectionId = ''c'', idValue = 1, sessionId = 2\<rparr>), AuditClear]" 64]
  by (simp add: audit_key_def seen_of_def last_of_def)

text \<open>
  C16.  With at most 10000 producers and sequence numbers below 2147483584, an audit is exact: a
  message is reported as a duplicate if and only if the same producer's same sequence number was
  checked before and not rolled back since, \<open>isInOrder\<close> and \<open>getLastSeqId\<close> read the highest number
  recorded for the producer, and no call throws.
\<close>

theorem audit_detects_duplicates:
  assumes "0 \<le> depth" "length cs \<le> 2 ^ 26"
    and "finite U" "card U \<le> 10000" "long_ids U" "list_all (call_in U) cs"
  shows "fst (audit_run cs (new_MessageAudit depth maxProducers)) = pair_run cs {}"
proof -
  have "list_all plain_call cs" using assms(6) call_in_plain by (auto simp: list_all_iff)
  from audit_run_refines [OF new_audit_ok(1) [OF assms(1), of maxProducers], of cs] assms(2) this
  have "fst (audit_run cs (new_MessageAudit depth maxProducers)) = fst (window_run 10000 cs [])"
    using new_audit_ok(2) [OF assms(1), of maxProducers] by auto
  moreover have "tracks 10000 U [] {}" using assms(3-5) by (simp add: tracks_def seen_of_def)
  ultimately show ?thesis using window_run_tracks assms(6) by simp
qed

theorem audit_detects_duplicates_witness:
  fixes mid :: "producer_id \<Rightarrow> int \<Rightarrow> message_id option" and p q :: producer_id
  defines "mid \<equiv> \<lambda>pid i. Some (new_MessageId\<lparr>producerId := Some pid, producerSequenceId := i\<rparr>)"
  defines "p \<equiv> \<lparr>connectionId = ''c'', idValue = 1, sessionId = 2\<rparr>"
  defines "q \<equiv> \<lparr>connectionId = ''c'', idValue = 2, sessionId = 1\<rparr>"
  shows "fst (audit_run [AuditDuplicate (mid p 5), AuditDuplicate (mid q 5), AuditDuplicate (mid p 5),
      AuditRollback (mid p 5), AuditDuplicate (mid p 5)] (new_MessageAudit 2048 64)) =
    [RAnswer (Inr False), RAnswer (Inr False), RAnswer (Inr True), RDone (Inr ()), RAnswer (Inr False)]"
proof -
  have ne: "p \<noteq> q" by (simp add: p_def q_def)
  show ?thesis
    using audit_detects_duplicates [of 2048 "[AuditDuplicate (mid p 5), AuditDuplicate (mid q 5),
      AuditDuplicate (mid p 5), AuditRollback (mid p 5), AuditDuplicate (mid p 5)]" "{p, q}" 64] ne
    by (simp add: names_in_def msg_pair_def mid_def long_ids_def INDEX_END_def card_insert_if
        is_long_def p_def q_def LONG_MIN_def LONG_MAX_def)
qed

text \<open>
  C37.  Sequence numbers above 2147483647 share their bits with small ones: after the message with
  sequence number \<open>k\<close> of a producer was checked, its message with sequence number \<open>2147483647 + k\<close>
  is reported as a duplicate although it was never seen.
\<close>

theorem audit_sequence_collision:
  assumes "0 \<le> depth" "0 < k" "k < INDEX_END" "producerId m1 = Some pid" "producerId m2 = Some pid"
    "producerSequenceId m1 = k" "producerSequenceId m2 = INT_MAX + k"
  shows "fst (audit_run [AuditDuplicate (Some m1), AuditDuplicate (Some m2)] (new_MessageAudit depth maxProducers)) =
    [RAnswer (Inr False), RAnswer (Inr True)]"
proof -
  let ?a = "new_MessageAudit depth maxProducers" and ?s = "ProducerId_toString pid"
  have key: "audit_key (Some m1) = Some (?s, k)" using assms by (simp add: audit_key_def)
  then have "plain_call (AuditDuplicate (Some m1))" using assms(3) by simp
  from isDuplicate_step [OF new_audit_ok(1) [OF assms(1)] _ _ this, of maxProducers] obtain a1 where
    a1: "isDuplicate (Some m1) ?a = (Inr False, a1)" "audit_ok 1 10000 a1"
      "map_of (audit_view a1) ?s = Some {nat k}"
    using key assms(2) new_audit_ok(2) [OF assms(1), of maxProducers]
    by (auto simp: seen_of_def AList.update_conv' split: prod.splits)
  obtain b a2 where b: "audit_bits ?s a1 = (Inr b, a2)" "audit_ok 2 10000 a2"
    "hm_lookup (auditMap a2) ?s = Some b" "bs_members b = {nat k}"
    by (rule audit_bits_spec [OF a1(2), of ?s]) (use a1(3) in \<open>simp_all add: seen_of_def\<close>)
  have good: "good_bits b" using b(2,3) by (auto simp: audit_ok_def ran_def)
  have get: "bs_get k b = Inr True"
    using bs_get_rep [OF good_bits_rep(1) [OF good], of k] b(4) assms(2) by (simp add: bs_members_def)
  have "scaledIndex (INT_MAX + k) = k"
    using assms(2,3) by (simp add: scaledIndex_def INT_MAX_def INDEX_END_def wrap32_id)
  then have "isDuplicate (Some m2) a1 = (Inr True, a2)"
    using assms(2,5,7) b(1) get
    by (simp add: isDuplicate_def ProducerId_toString_def check_bit_def INT_MAX_def)
  then show ?thesis using a1(1) by simp
qed

theorem audit_sequence_collision_witness:
  fixes m :: "int \<Rightarrow> message_id"
  defines "m \<equiv> \<lambda>i. new_MessageId\<lparr>producerId := Some \<lparr>connectionId = ''c'', idValue = 1, sessionId = 2\<rparr>,
    producerSequenceId := i\<rparr>"
  shows "fst (audit_run [AuditDuplicate (Some (m 7)), AuditDuplicate (Some (m 2147483654))]
    (new_MessageAudit 2048 64)) = [RAnswer (Inr False), RAnswer (Inr True)]"
  using audit_sequence_collision [of 2048 7 "m 7" "\<lparr>connectionId = ''c'', idValue = 1, sessionId = 2\<rparr>"
      "m 2147483654" 64]
  by (simp add: m_def INDEX_END_def INT_MAX_def)

text \<open>
  Reducing the number of producers to track prunes nothing: after any calls on a new audit,
  \<open>getMaximumNumberOfProducersToTrack(v)\<close> keeps every producer's entry, in the same order, however
  many there are, although the code's comment says that old entries are pruned.
\<close>

theorem adjust_keeps_all_producers:
  fixes depth maxProducers :: int
  assumes "0 \<le> depth" "length cs \<le> 2 ^ 23" "list_all plain_call cs" "0 < v"
  defines "a \<equiv> snd (audit_run cs (new_MessageAudit depth maxProducers))"
  shows "\<exists>a'. adjustMaxProducersToTrack v a = Inr a' \<and> lhm_entries (auditMap a') = lhm_entries (auditMap a) \<and>
    maxCacheSize (auditMap a') = v \<and> maximumNumberOfProducersToTrack a' = v"
proof -
  obtain a0 where "audit_run cs (new_MessageAudit depth maxProducers) = (fst (window_run 10000 cs []), a0)"
    "audit_ok (int (length cs)) 10000 a0"
    using audit_run_refines [OF new_audit_ok(1) [OF assms(1), of maxProducers], of cs] assms(2,3)
      new_audit_ok(2) [OF assms(1), of maxProducers] by auto
  then have "audit_ok (int (length cs)) 10000 a" by (simp add: a_def)
  then show ?thesis using adjust_spec [OF _ _ assms(4)] assms(2) by (metis of_nat_le_numeral_power_cancel_iff)
qed

theorem adjust_keeps_all_producers_witness:
  fixes mid :: "int \<Rightarrow> message_id option" and a :: message_audit
  defines "mid \<equiv> \<lambda>v. Some (new_MessageId\<lparr>producerId := Some \<lparr>connectionId = ''c'', idValue = v, sessionId = 2\<rparr>,
    producerSequenceId := 1\<rparr>)"
  defines "a \<equiv> snd (audit_run [AuditDuplicate (mid 1), AuditDuplicate (mid 2)] (new_MessageAudit 2048 64))"
  shows "\<exists>a'. adjustMaxProducersToTrack 1 a = Inr a' \<and> maxCacheSize (auditMap a') = 1 \<and>
    lhm_entries (auditMap a') = lhm_entries (auditMap a)"
  using adjust_keeps_all_producers [of 2048 "[AuditDuplicate (mid 1), AuditDuplicate (mid 2)]" 1 64]
  by (auto simp: a_def mid_def audit_key_def INDEX_END_def)

end
