(* ===== verification/StlMap.thy ===== *)
theory StlMap
  imports Prelude
begin

text \<open>
  The maps of decaf that wrap an \<open>std::map\<close>: \<open>decaf/util/StlMap.h\<close> and
  \<open>decaf/util/concurrent/ConcurrentStlMap.h\<close>. The \<open>std::map\<close> is the list of its
  entries in the order of its comparator \<open>lt\<close>; two keys of which none is less are the same
  key for it, and an assignment keeps the key that is there. The methods of
  \<open>ConcurrentStlMap\<close> run under the map's mutex. The iterators over keys, values and entries
  visit the entries in this order.
\<close>

type_synonym ('k, 'v) stl_map = "('k \<times> 'v) list"

section \<open>std::map\<close>

fun map_find :: "('k \<Rightarrow> 'k \<Rightarrow> bool) \<Rightarrow> 'k \<Rightarrow> ('k, 'v) stl_map \<Rightarrow> 'v option" where
  "map_find lt k [] = None"
| "map_find lt k ((k', v) # m) = (if \<not> lt k' k \<and> \<not> lt k k' then Some v else map_find lt k m)"

fun map_assign :: "('k \<Rightarrow> 'k \<Rightarrow> bool) \<Rightarrow> 'k \<Rightarrow> 'v \<Rightarrow> ('k, 'v) stl_map \<Rightarrow> ('k, 'v) stl_map" where
  "map_assign lt k v [] = [(k, v)]"
| "map_assign lt k v ((k', v') # m) =
     (if lt k' k then (k', v') # map_assign lt k v m
      else if lt k k' then (k, v) # (k', v') # m
      else (k', v) # m)"

fun map_erase :: "('k \<Rightarrow> 'k \<Rightarrow> bool) \<Rightarrow> 'k \<Rightarrow> ('k, 'v) stl_map \<Rightarrow> ('k, 'v) stl_map" where
  "map_erase lt k [] = []"
| "map_erase lt k ((k', v') # m) =
     (if \<not> lt k' k \<and> \<not> lt k k' then m else (k', v') # map_erase lt k m)"

text \<open>\<open>insert\<close> of a range: an entry whose key is there is left as it is.\<close>

fun map_insert_all :: "('k \<Rightarrow> 'k \<Rightarrow> bool) \<Rightarrow> ('k \<times> 'v) list \<Rightarrow> ('k, 'v) stl_map \<Rightarrow> ('k, 'v) stl_map" where
  "map_insert_all lt [] m = m"
| "map_insert_all lt ((k, v) # es) m =
     map_insert_all lt es (case map_find lt k m of Some _ \<Rightarrow> m | None \<Rightarrow> map_assign lt k v m)"

section \<open>ConcurrentStlMap\<close>

definition cm_clear :: "('k, 'v) stl_map \<Rightarrow> ('k, 'v) stl_map" where
  "cm_clear m = []"

definition cm_containsKey :: "('k \<Rightarrow> 'k \<Rightarrow> bool) \<Rightarrow> 'k \<Rightarrow> ('k, 'v) stl_map \<Rightarrow> bool" where
  "cm_containsKey lt k m = (m \<noteq> [] \<and> map_find lt k m \<noteq> None)"

definition cm_containsValue :: "'v \<Rightarrow> ('k, 'v) stl_map \<Rightarrow> bool" where
  "cm_containsValue v m = list_ex (\<lambda>e. snd e = v) m"

definition cm_isEmpty :: "('k, 'v) stl_map \<Rightarrow> bool" where
  "cm_isEmpty m = (m = [])"

definition cm_size :: "('k, 'v) stl_map \<Rightarrow> int" where
  "cm_size m = wrap32 (int (length m))"

definition cm_get :: "('k \<Rightarrow> 'k \<Rightarrow> bool) \<Rightarrow> 'k \<Rightarrow> ('k, 'v) stl_map \<Rightarrow> 'v result" where
  "cm_get lt k m = (if m \<noteq> [] then of_option NoSuchElementException (map_find lt k m)
     else Inl NoSuchElementException)"

definition cm_put :: "('k \<Rightarrow> 'k \<Rightarrow> bool) \<Rightarrow> 'k \<Rightarrow> 'v \<Rightarrow> ('k, 'v) stl_map \<Rightarrow> bool \<times> ('k, 'v) stl_map" where
  "cm_put lt k v m = (cm_containsKey lt k m, map_assign lt k v m)"

definition cm_put_old :: "('k \<Rightarrow> 'k \<Rightarrow> bool) \<Rightarrow> 'k \<Rightarrow> 'v \<Rightarrow> 'v \<Rightarrow> ('k, 'v) stl_map \<Rightarrow> (bool \<times> 'v) \<times> ('k, 'v) stl_map" where
  "cm_put_old lt k v oldValue m =
     (case map_find lt k m of Some w \<Rightarrow> ((True, w), map_assign lt k v m)
      | None \<Rightarrow> ((False, oldValue), map_assign lt k v m))"

definition cm_putAll :: "('k \<Rightarrow> 'k \<Rightarrow> bool) \<Rightarrow> ('k, 'v) stl_map \<Rightarrow> ('k, 'v) stl_map \<Rightarrow> ('k, 'v) stl_map" where
  "cm_putAll lt other m = map_insert_all lt other m"

definition cm_putAll_map :: "('k \<Rightarrow> 'k \<Rightarrow> bool) \<Rightarrow> ('k \<times> 'v) list \<Rightarrow> ('k, 'v) stl_map \<Rightarrow> ('k, 'v) stl_map" where
  "cm_putAll_map lt other m = foldl (\<lambda>m e. snd (cm_put lt (fst e) (snd e) m)) m other"

definition cm_copy :: "('k \<Rightarrow> 'k \<Rightarrow> bool) \<Rightarrow> ('k, 'v) stl_map \<Rightarrow> ('k, 'v) stl_map \<Rightarrow> ('k, 'v) stl_map" where
  "cm_copy lt source m = map_insert_all lt source (cm_clear m)"

text \<open>\<open>remove\<close> returns a default value, for a map of pointers a null pointer, if the key is missing.\<close>

definition cm_remove :: "('k \<Rightarrow> 'k \<Rightarrow> bool) \<Rightarrow> 'k \<Rightarrow> ('k, 'v) stl_map \<Rightarrow> 'v option \<times> ('k, 'v) stl_map" where
  "cm_remove lt k m = (if m \<noteq> [] then
     (case map_find lt k m of None \<Rightarrow> (None, m) | Some v \<Rightarrow> (Some v, map_erase lt k m))
     else (None, m))"

definition cm_putIfAbsent :: "('k \<Rightarrow> 'k \<Rightarrow> bool) \<Rightarrow> 'k \<Rightarrow> 'v \<Rightarrow> ('k, 'v) stl_map \<Rightarrow> bool \<times> ('k, 'v) stl_map" where
  "cm_putIfAbsent lt k v m =
     (if \<not> cm_containsKey lt k m then (True, snd (cm_put lt k v m)) else (False, m))"

definition cm_remove_value :: "('k \<Rightarrow> 'k \<Rightarrow> bool) \<Rightarrow> 'k \<Rightarrow> 'v \<Rightarrow> ('k, 'v) stl_map \<Rightarrow> bool \<times> ('k, 'v) stl_map" where
  "cm_remove_value lt k v m =
     (if cm_containsKey lt k m \<and> cm_get lt k m = Inr v then (True, snd (cm_remove lt k m)) else (False, m))"

definition cm_replace_value :: "('k \<Rightarrow> 'k \<Rightarrow> bool) \<Rightarrow> 'k \<Rightarrow> 'v \<Rightarrow> 'v \<Rightarrow> ('k, 'v) stl_map \<Rightarrow> bool \<times> ('k, 'v) stl_map" where
  "cm_replace_value lt k oldValue newValue m =
     (if cm_containsKey lt k m \<and> cm_get lt k m = Inr oldValue
      then (True, snd (cm_put lt k newValue m)) else (False, m))"

definition cm_replace :: "('k \<Rightarrow> 'k \<Rightarrow> bool) \<Rightarrow> 'k \<Rightarrow> 'v \<Rightarrow> ('k, 'v) stl_map \<Rightarrow> 'v result \<times> ('k, 'v) stl_map" where
  "cm_replace lt k v m =
     (if cm_containsKey lt k m then (cm_get lt k m, snd (cm_put lt k v m)) else (Inl NoSuchElementException, m))"

definition map_values :: "('k, 'v) stl_map \<Rightarrow> 'v list" where
  "map_values m = map snd m"

definition map_keys :: "('k, 'v) stl_map \<Rightarrow> 'k list" where
  "map_keys m = map fst m"

section \<open>StlMap\<close>

definition sm_get :: "('k \<Rightarrow> 'k \<Rightarrow> bool) \<Rightarrow> 'k \<Rightarrow> ('k, 'v) stl_map \<Rightarrow> 'v result" where
  "sm_get lt k m = of_option NoSuchElementException (map_find lt k m)"

definition sm_put :: "('k \<Rightarrow> 'k \<Rightarrow> bool) \<Rightarrow> 'k \<Rightarrow> 'v \<Rightarrow> ('k, 'v) stl_map \<Rightarrow> bool \<times> ('k, 'v) stl_map" where
  "sm_put lt k v m = (map_find lt k m \<noteq> None, map_assign lt k v m)"

definition sm_remove :: "('k \<Rightarrow> 'k \<Rightarrow> bool) \<Rightarrow> 'k \<Rightarrow> ('k, 'v) stl_map \<Rightarrow> 'v result \<times> ('k, 'v) stl_map" where
  "sm_remove lt k m = (case map_find lt k m of None \<Rightarrow> (Inl NoSuchElementException, m)
     | Some v \<Rightarrow> (Inr v, map_erase lt k m))"

definition sm_clear :: "('k, 'v) stl_map \<Rightarrow> ('k, 'v) stl_map" where
  "sm_clear m = []"

lemma erase_missing: "map_find lt k m = None \<Longrightarrow> map_erase lt k m = m"
  by (induction m) (auto split: if_splits)

lemma map_operations [simp]:
  "cm_get lt k m = of_option NoSuchElementException (map_find lt k m)"
  "snd (cm_put lt k v m) = map_assign lt k v m"
  "cm_remove lt k m = (map_find lt k m, map_erase lt k m)"
  "snd (sm_put lt k v m) = map_assign lt k v m"
  "snd (sm_remove lt k m) = map_erase lt k m"
  by (auto simp: cm_get_def cm_put_def cm_remove_def sm_put_def sm_remove_def erase_missing split: option.split)

section \<open>Keys with an order\<close>

text \<open>
  What the comparator of a map promises for the keys of a domain: it is the order of a linear image of
  the keys. The map is then a function of this image.
\<close>

locale ordered_keys =
  fixes lt :: "'k \<Rightarrow> 'k \<Rightarrow> bool"
    and key :: "'k \<Rightarrow> 'o::linorder"
    and valid :: "'k \<Rightarrow> bool"
  assumes less_key: "valid k \<Longrightarrow> valid l \<Longrightarrow> lt k l \<longleftrightarrow> key k < key l"
begin

definition keyed :: "('k, 'v) stl_map \<Rightarrow> bool" where
  "keyed m \<longleftrightarrow> (\<forall>k\<in>set (map fst m). valid k) \<and> sorted_wrt (<) (map (\<lambda>e. key (fst e)) m)"

definition lookup :: "('k, 'v) stl_map \<Rightarrow> 'o \<rightharpoonup> 'v" where
  "lookup m = map_of (map (\<lambda>e. (key (fst e), snd e)) m)"

lemma keyed_Nil [simp]: "keyed []" "lookup [] = Map.empty"
  by (simp_all add: keyed_def lookup_def)

lemma keyed_Cons: "keyed ((k, v) # m) \<longleftrightarrow> valid k \<and> (\<forall>e\<in>set m. key k < key (fst e)) \<and> keyed m"
  by (auto simp: keyed_def)

lemma lookup_Cons: "lookup ((k, v) # m) = (lookup m)(key k \<mapsto> v)"
  by (simp add: lookup_def)

lemma lookup_above: "keyed m \<Longrightarrow> (\<forall>e\<in>set m. x < key (fst e)) \<Longrightarrow> lookup m x = None"
  by (auto simp: lookup_def map_of_eq_None_iff)

lemma find_lookup: "keyed m \<Longrightarrow> valid k \<Longrightarrow> map_find lt k m = lookup m (key k)"
  by (induction m) (auto simp: keyed_Cons lookup_Cons less_key)

lemma set_assign: "e \<in> set (map_assign lt k v m) \<Longrightarrow> fst e = k \<or> fst e \<in> fst ` set m"
  by (induction m) (auto split: if_splits)

lemma keyed_assign: "keyed m \<Longrightarrow> valid k \<Longrightarrow> keyed (map_assign lt k v m)"
proof (induction m)
  case (Cons e m)
  obtain k' v' where "e = (k', v')"
    by fastforce
  then show ?case
    using Cons set_assign [of _ k v m] by (auto simp: keyed_Cons less_key) fastforce+
qed (simp add: keyed_Cons)

lemma lookup_assign: "keyed m \<Longrightarrow> valid k \<Longrightarrow> lookup (map_assign lt k v m) = (lookup m)(key k \<mapsto> v)"
  by (induction m) (auto simp: keyed_Cons lookup_Cons less_key fun_upd_twist)

lemma set_assign_new:
  "keyed m \<Longrightarrow> valid k \<Longrightarrow> lookup m (key k) = None \<Longrightarrow> set (map_assign lt k v m) = insert (k, v) (set m)"
proof (induction m)
  case (Cons e m)
  obtain k' v' where e: "e = (k', v')"
    by fastforce
  have "key k' \<noteq> key k"
    using Cons.prems(3) e by (auto simp: lookup_Cons split: if_splits)
  then show ?case
    using Cons e by (auto simp: keyed_Cons lookup_Cons less_key)
qed simp

lemma set_erase: "set (map_erase lt k m) \<subseteq> set m"
  by (induction m) (auto split: if_splits)

lemma keyed_erase: "keyed m \<Longrightarrow> keyed (map_erase lt k m)"
proof (induction m)
  case (Cons e m)
  obtain k' v' where "e = (k', v')"
    by fastforce
  then show ?case
    using Cons set_erase [of k m] by (auto simp: keyed_Cons)
qed simp

lemma lookup_erase: "keyed m \<Longrightarrow> valid k \<Longrightarrow> lookup (map_erase lt k m) = (lookup m)(key k := None)"
proof (induction m)
  case (Cons e m)
  obtain k' v' where e: "e = (k', v')"
    by fastforce
  show ?case
  proof (cases "key k' = key k")
    case True
    then show ?thesis
      using Cons.prems e lookup_above [of m "key k"] by (auto simp: keyed_Cons lookup_Cons less_key)
  next
    case False
    then show ?thesis
      using Cons e by (auto simp: keyed_Cons lookup_Cons less_key)
  qed
qed simp

text \<open>A property of all entries.\<close>

definition holds :: "('o \<Rightarrow> 'v \<Rightarrow> bool) \<Rightarrow> ('k, 'v) stl_map \<Rightarrow> bool" where
  "holds P m \<longleftrightarrow> keyed m \<and> (\<forall>e\<in>set m. P (key (fst e)) (snd e))"

lemma holds_Nil [simp]: "holds P []"
  by (simp add: holds_def)

lemma lookup_Some: "keyed m \<Longrightarrow> lookup m x = Some v \<longleftrightarrow> (\<exists>k. (k, v) \<in> set m \<and> key k = x)"
proof (induction m)
  case (Cons e m)
  obtain k' v' where "e = (k', v')"
    by fastforce
  then show ?case
    using Cons by (auto simp: keyed_Cons lookup_Cons)
qed simp

lemma holds_lookup: "holds P m \<longleftrightarrow> keyed m \<and> (\<forall>x v. lookup m x = Some v \<longrightarrow> P x v)"
  unfolding holds_def by (safe; simp add: lookup_Some; fastforce)

lemma holds_find: "holds P m \<Longrightarrow> valid k \<Longrightarrow> map_find lt k m = Some v \<Longrightarrow> P (key k) v"
  by (simp add: holds_lookup find_lookup)

lemma holds_assign: "holds P m \<Longrightarrow> valid k \<Longrightarrow> P (key k) v \<Longrightarrow> holds P (map_assign lt k v m)"
  by (auto simp: holds_lookup keyed_assign lookup_assign)

lemma holds_erase: "holds P m \<Longrightarrow> holds P (map_erase lt k m)"
  using set_erase by (auto simp: holds_def keyed_erase)

lemma holds_mono: "holds P m \<Longrightarrow> (\<And>x v. P x v \<Longrightarrow> Q x v) \<Longrightarrow> holds Q m"
  by (auto simp: holds_def)

lemma holds_map: "holds P m \<Longrightarrow> (\<And>x v. P x v \<Longrightarrow> Q x (f v)) \<Longrightarrow> holds Q (map (\<lambda>e. (fst e, f (snd e))) m)"
  by (auto simp: holds_def keyed_def comp_def)

lemma lookup_map: "lookup (map (\<lambda>e. (fst e, f (snd e))) m) x = map_option f (lookup m x)"
  by (induction m) (auto simp: lookup_def)

lemma holds_values: "holds P m \<Longrightarrow> v \<in> set (map_values m) \<Longrightarrow> \<exists>x. P x v"
  by (auto simp: holds_def map_values_def)

lemma fold_lookup:
  assumes "keyed m"
  shows "foldl (\<lambda>f e. f(key (fst e) \<mapsto> g (snd e))) f m = (\<lambda>x. case lookup m x of Some v \<Rightarrow> Some (g v) | None \<Rightarrow> f x)"
  using assms
proof (induction m arbitrary: f)
  case (Cons e m)
  obtain k v where e: "e = (k, v)"
    by fastforce
  then have "lookup m (key k) = None"
    using Cons.prems lookup_above [of m "key k"] by (simp add: keyed_Cons)
  then show ?case
    using Cons e by (auto simp: keyed_Cons lookup_Cons)
qed simp

text \<open>The entry of a key at its place.\<close>

lemma keyed_middle: "keyed (m @ (k, v) # n) \<Longrightarrow> valid k \<and> (\<forall>e\<in>set m. valid (fst e) \<and> key (fst e) < key k) \<and> keyed m \<and> keyed n"
  by (auto simp: keyed_def sorted_wrt_append)

lemma assign_here: "keyed (m @ (k, v) # n) \<Longrightarrow> valid k' \<Longrightarrow> key k' = key k \<Longrightarrow> map_assign lt k' w (m @ (k, v) # n) = m @ (k, w) # n"
proof (induction m)
  case Nil
  then show ?case
    by (simp add: keyed_Cons less_key)
next
  case (Cons e m)
  obtain l u where "e = (l, u)"
    by fastforce
  then show ?case
    using Cons keyed_middle [of "e # m" k v n] by (auto simp: keyed_Cons less_key)
qed

lemma find_here: "keyed (m @ (k, v) # n) \<Longrightarrow> valid k' \<Longrightarrow> key k' = key k \<Longrightarrow> map_find lt k' (m @ (k, v) # n) = Some v"
  using find_lookup [of "m @ (k, v) # n" k'] lookup_Some [of "m @ (k, v) # n" "key k" v] by auto

lemma keyed_change: "keyed (m @ (k, v) # n) \<longleftrightarrow> keyed (m @ (k, w) # n)"
  by (simp add: keyed_def)

lemma keyed_append:
  "keyed (m @ [(k, v)]) \<longleftrightarrow> keyed m \<and> valid k \<and> (\<forall>e\<in>set m. key (fst e) < key k)"
  by (auto simp: keyed_def sorted_wrt_append)

lemma assign_above: "keyed (m @ [(k, v)]) \<Longrightarrow> map_assign lt k w m = m @ [(k, w)]"
  by (induction m) (auto simp: keyed_Cons keyed_append less_key order.asym)

text \<open>Assigning the entries of a map in their order gives the map.\<close>

lemma assign_all:
  assumes "keyed (m @ n)"
  shows "foldl (\<lambda>m e. map_assign lt (fst e) (snd e) m) m n = m @ n"
  using assms
proof (induction n arbitrary: m)
  case (Cons e n)
  have "keyed ((m @ [e]) @ n)"
    using Cons.prems by simp
  moreover from this have "keyed (m @ [e])"
    unfolding keyed_def by (auto simp: sorted_wrt_append)
  ultimately show ?case
    using Cons.IH [of "m @ [e]"] assign_above [of m "fst e" "snd e" "snd e"] by simp
qed simp

end

end
