(* ===== verification/DataStreams.thy ===== *)
theory DataStreams
  imports Prelude
begin

text \<open>
  The byte streams under the wire format: \<open>decaf/io/DataOutputStream.cpp\<close>,
  \<open>decaf/io/DataInputStream.cpp\<close> and \<open>activemq/wireformat/openwire/utils/BooleanStream.cpp\<close>.

  Bytes are words of 8 bits, and a \<open>std::string\<close> is the list of its bytes.  A C++ \<open>short\<close>, \<open>int\<close> and
  \<open>long long\<close> that is written or read is a word of 16, 32 and 64 bits.  The record \<open>streams\<close> holds the
  objects that a marshaller works on: a boolean stream, the bytes written to the output, and the
  input as the list of chunks that the successive calls of the underlying \<open>read\<close> deliver, so that a value
  may be split anywhere by the transport.  The underlying streams are open; the only failure of the
  input is its end.
\<close>

section \<open>State and methods\<close>

type_synonym byte = "8 word"

type_synonym bytes = "byte list"

record boolean_stream =
  bsData :: bytes
  arrayLimit :: int
  arrayPos :: int
  bytePos :: nat

record streams =
  bools :: boolean_stream
  dataOut :: bytes
  written :: int
  dataIn :: "bytes list"

type_synonym 'a io = "streams \<Rightarrow> 'a result \<times> streams"

definition ret :: "'a \<Rightarrow> 'a io" where
  "ret x s = (Inr x, s)"

definition fails :: "decaf_exception \<Rightarrow> 'a io" where
  "fails e s = (Inl e, s)"

definition bind_io :: "'a io \<Rightarrow> ('a \<Rightarrow> 'b io) \<Rightarrow> 'b io" where
  "bind_io m k s = (case m s of (Inl e, s') \<Rightarrow> (Inl e, s') | (Inr x, s') \<Rightarrow> k x s')"

abbreviation next_io :: "'a io \<Rightarrow> 'b io \<Rightarrow> 'b io" where
  "next_io m k \<equiv> bind_io m (\<lambda>_. k)"

section \<open>DataOutputStream\<close>

text \<open>
  \<open>outputStream->write\<close> appends the bytes, and \<open>written\<close> counts them.
\<close>

definition emit :: "bytes \<Rightarrow> streams \<Rightarrow> streams" where
  "emit ys s = s\<lparr>dataOut := dataOut s @ ys, written := written s + int (length ys)\<rparr>"

definition writeByte :: "byte \<Rightarrow> unit io" where
  "writeByte b s = (Inr (), emit [b] s)"

definition out_writeBoolean :: "bool \<Rightarrow> unit io" where
  "out_writeBoolean v s = (Inr (), emit [if v then 1 else 0] s)"

definition short_bytes :: "16 word \<Rightarrow> bytes" where
  "short_bytes v = [ucast (drop_bit 8 (v AND 0xFF00)), ucast (v AND 0x00FF)]"

definition int_bytes :: "32 word \<Rightarrow> bytes" where
  "int_bytes v =
     [ucast (drop_bit 24 (v AND 0xFF000000)), ucast (drop_bit 16 (v AND 0x00FF0000)),
      ucast (drop_bit 8 (v AND 0x0000FF00)), ucast (v AND 0x000000FF)]"

definition long_bytes :: "64 word \<Rightarrow> bytes" where
  "long_bytes v =
     [ucast (drop_bit 56 (v AND 0xFF00000000000000)), ucast (drop_bit 48 (v AND 0x00FF000000000000)),
      ucast (drop_bit 40 (v AND 0x0000FF0000000000)), ucast (drop_bit 32 (v AND 0x000000FF00000000)),
      ucast (drop_bit 24 (v AND 0x00000000FF000000)), ucast (drop_bit 16 (v AND 0x0000000000FF0000)),
      ucast (drop_bit 8 (v AND 0x000000000000FF00)), ucast (v AND 0x00000000000000FF)]"

definition writeShort :: "16 word \<Rightarrow> unit io" where
  "writeShort v s = (Inr (), emit (short_bytes v) s)"

definition writeUnsignedShort :: "16 word \<Rightarrow> unit io" where
  "writeUnsignedShort v s = (Inr (), emit (short_bytes v) s)"

definition writeInt :: "32 word \<Rightarrow> unit io" where
  "writeInt v s = (Inr (), emit (int_bytes v) s)"

definition writeLong :: "64 word \<Rightarrow> unit io" where
  "writeLong v s = (Inr (), emit (long_bytes v) s)"

text \<open>\<open>doWriteArrayBounded\<close>: \<open>length\<close> bytes of a buffer, from \<open>offset\<close> on.\<close>

definition write_array :: "bytes \<Rightarrow> int \<Rightarrow> int \<Rightarrow> unit io" where
  "write_array buffer offset len s =
     (if len = 0 then (Inr (), s)
      else if offset > int (length buffer) \<or> offset < 0 then (Inl IndexOutOfBoundsException, s)
      else if len < 0 \<or> len > int (length buffer) - offset then (Inl IndexOutOfBoundsException, s)
      else (Inr (), emit (take (nat len) (drop (nat offset) buffer)) s))"

definition writeBytes :: "bytes \<Rightarrow> unit io" where
  "writeBytes value = (if length value = 0 then ret () else write_array value 0 (int (length value)))"

text \<open>
  \<open>writeUTF\<close> encodes every byte on its own, the zero byte in two bytes.  The branch for values above 2047
  is never taken, since \<open>charValue\<close> comes from one byte.
\<close>

definition utf_char :: "byte \<Rightarrow> bytes" where
  "utf_char c =
     (let charValue = ucast c :: 32 word in
      if charValue > 0 \<and> charValue \<le> 127 then [ucast charValue]
      else if charValue \<le> 2047 then
        [ucast (0xC0 OR (0x1F AND drop_bit 6 charValue)), ucast (0x80 OR (0x3F AND charValue))]
      else
        [ucast (0xE0 OR (0x0F AND drop_bit 12 charValue)), ucast (0x80 OR (0x3F AND drop_bit 6 charValue)),
         ucast (0x80 OR (0x3F AND charValue))])"

fun countUTFLength :: "bytes \<Rightarrow> nat" where
  "countUTFLength [] = 0"
| "countUTFLength (c # cs) =
     (let charValue = ucast c :: 32 word in
      (if charValue > 0 \<and> charValue \<le> 127 then 1 else if charValue \<le> 2047 then 2 else 3)
      + countUTFLength cs)"

definition writeUTF :: "bytes \<Rightarrow> unit io" where
  "writeUTF value =
     (let utfLength = countUTFLength value; utfBytes = concat (map utf_char value) in
      if utfLength > 65535 then fails UTFDataFormatException
      else next_io (writeUnsignedShort (of_nat utfLength))
        (if utfLength > 0 then write_array utfBytes 0 (int (length utfBytes)) else ret ()))"

section \<open>DataInputStream\<close>

text \<open>
  \<open>readAllData\<close> and \<open>readFully\<close> call \<open>read\<close> until all the bytes have arrived.  Each call takes a
  chunk, or what is still needed of it; a \<open>read\<close> at the end of the stream returns -1.
\<close>

fun read_loop :: "nat \<Rightarrow> bytes \<Rightarrow> bytes list \<Rightarrow> bytes result \<times> bytes list" where
  "read_loop k got [] = (Inl EOFException, [])"
| "read_loop k got (c # cs) =
     (if length c < k then read_loop (k - length c) (got @ c) cs
      else (Inr (got @ take k c), if length c = k then cs else drop k c # cs))"

definition readAllData :: "nat \<Rightarrow> bytes io" where
  "readAllData k s = (let (r, rest) = read_loop k [] (dataIn s) in (r, s\<lparr>dataIn := rest\<rparr>))"

definition readFully :: "nat \<Rightarrow> bytes io" where
  "readFully k = (if k = 0 then ret [] else readAllData k)"

definition in_readBoolean :: "bool io" where
  "in_readBoolean = bind_io (readAllData 1) (\<lambda>b. ret (b ! 0 \<noteq> 0))"

definition readByte :: "byte io" where
  "readByte = bind_io (readAllData 1) (\<lambda>b. ret (b ! 0))"

definition readShort :: "16 word io" where
  "readShort = bind_io (readAllData 2) (\<lambda>b. ret (push_bit 8 (ucast (b ! 0)) OR ucast (b ! 1)))"

definition readUnsignedShort :: "16 word io" where
  "readUnsignedShort = bind_io (readAllData 2) (\<lambda>b. ret (push_bit 8 (ucast (b ! 0)) OR ucast (b ! 1)))"

definition readInt :: "32 word io" where
  "readInt = bind_io (readAllData 4) (\<lambda>b. ret
     (push_bit 24 (ucast (b ! 0)) OR push_bit 16 (ucast (b ! 1)) OR push_bit 8 (ucast (b ! 2)) OR ucast (b ! 3)))"

definition readLong :: "64 word io" where
  "readLong = bind_io (readAllData 8) (\<lambda>b. ret
     (push_bit 56 (ucast (b ! 0)) OR push_bit 48 (ucast (b ! 1)) OR push_bit 40 (ucast (b ! 2)) OR
      push_bit 32 (ucast (b ! 3)) OR push_bit 24 (ucast (b ! 4)) OR push_bit 16 (ucast (b ! 5)) OR
      push_bit 8 (ucast (b ! 6)) OR ucast (b ! 7)))"

text \<open>The decoding loop of \<open>readUTF\<close> over the bytes that are left in its buffer.\<close>

fun utf_decode :: "bytes \<Rightarrow> bytes result" where
  "utf_decode [] = Inr []"
| "utf_decode (a # buffer) =
     (if a < 0x80 then bind_result (utf_decode buffer) (\<lambda>r. Inr (a # r))
      else if a AND 0xE0 = 0xC0 then
        (case buffer of
           [] \<Rightarrow> Inl UTFDataFormatException
         | b # buffer' \<Rightarrow>
             if b AND 0xC0 \<noteq> 0x80 then Inl UTFDataFormatException
             else if a AND 0x1C \<noteq> 0 then Inl UTFDataFormatException
             else bind_result (utf_decode buffer')
               (\<lambda>r. Inr ((push_bit 6 (a AND 0x1F) OR (b AND 0x3F)) # r)))
      else Inl UTFDataFormatException)"

definition readUTF :: "bytes io" where
  "readUTF = bind_io readUnsignedShort (\<lambda>utfLength.
     if utfLength = 0 then ret []
     else bind_io (readFully (unat utfLength)) (\<lambda>buffer s. (utf_decode buffer, s)))"

section \<open>BooleanStream\<close>

definition wrap16 :: "int \<Rightarrow> int" where
  "wrap16 x = signed_take_bit 15 x"

definition new_BooleanStream :: boolean_stream where
  "new_BooleanStream = \<lparr>bsData = replicate 1000 0, arrayLimit = 0, arrayPos = 0, bytePos = 0\<rparr>"

text \<open>The end of \<open>readBoolean\<close> and of \<open>writeBoolean\<close>: on to the next bit.\<close>

definition advance_bit :: "boolean_stream \<Rightarrow> boolean_stream" where
  "advance_bit b =
     (if bytePos b + 1 \<ge> 8 then b\<lparr>bytePos := 0, arrayPos := wrap16 (arrayPos b + 1)\<rparr>
      else b\<lparr>bytePos := bytePos b + 1\<rparr>)"

definition in_array :: "boolean_stream \<Rightarrow> bool" where
  "in_array b = (0 \<le> arrayPos b \<and> arrayPos b < int (length (bsData b)))"

definition readBoolean :: "bool io" where
  "readBoolean s =
     (let b = bools s in
      if in_array b then
        (Inr (drop_bit (bytePos b) (bsData b ! nat (arrayPos b)) AND 1 \<noteq> 0), s\<lparr>bools := advance_bit b\<rparr>)
      else (Inl UndefinedBehaviour, s))"

text \<open>The comparison of \<open>(size_t) arrayLimit\<close> with the size is unsigned: a negative limit is above it.\<close>

definition extend_limit :: "boolean_stream \<Rightarrow> boolean_stream" where
  "extend_limit b =
     (let limit = wrap16 (arrayLimit b + 1) in
      if limit < 0 \<or> limit \<ge> int (length (bsData b))
      then b\<lparr>arrayLimit := limit, bsData := bsData b @ replicate (length (bsData b)) 0\<rparr>
      else b\<lparr>arrayLimit := limit\<rparr>)"

definition writeBoolean :: "bool \<Rightarrow> unit io" where
  "writeBoolean v s =
     (let b = bools s; b1 = (if bytePos b = 0 then extend_limit b else b) in
      if v then
        if in_array b1 then
          (let i = nat (arrayPos b1) in
           (Inr (), s\<lparr>bools := advance_bit
              (b1\<lparr>bsData := (bsData b1)[i := bsData b1 ! i OR push_bit (bytePos b1) 1]\<rparr>)\<rparr>))
        else (Inl UndefinedBehaviour, s\<lparr>bools := b1\<rparr>)
      else (Inr (), s\<lparr>bools := advance_bit b1\<rparr>))"

definition clear_positions :: "boolean_stream \<Rightarrow> boolean_stream" where
  "clear_positions b = b\<lparr>arrayPos := 0, bytePos := 0\<rparr>"

definition limit_prefix :: "boolean_stream \<Rightarrow> unit io" where
  "limit_prefix b =
     (if arrayLimit b < 64 then writeByte (word_of_int (arrayLimit b))
      else if arrayLimit b < 256 then
        next_io (writeByte 0xC0) (writeByte (word_of_int (arrayLimit b)))
      else next_io (writeByte 0x80) (writeShort (word_of_int (arrayLimit b))))"

text \<open>Everything that \<open>marshal\<close> catches becomes an \<open>IOException\<close>, if it is not one.\<close>

definition io_class :: "decaf_exception \<Rightarrow> bool" where
  "io_class e = (e \<in> {IOException, EOFException, UTFDataFormatException})"

definition io_boundary :: "'a io \<Rightarrow> 'a io" where
  "io_boundary m s =
     (case m s of
        (Inl e, s') \<Rightarrow> (Inl (if io_class e \<or> e = UndefinedBehaviour \<or> e = StackOverflow then e else IOException), s')
      | r \<Rightarrow> r)"

definition bs_marshal :: "unit io" where
  "bs_marshal = io_boundary (\<lambda>s.
     next_io (limit_prefix (bools s)) (next_io (write_array (bsData (bools s)) 0 (arrayLimit (bools s)))
       (\<lambda>s. (Inr (), s\<lparr>bools := clear_positions (bools s)\<rparr>))) s)"

text \<open>
  The other \<open>marshal\<close>, into a vector: the bytes it appends.  The range that it inserts ends before
  \<open>data[arrayLimit - 1]\<close>.
\<close>

definition bs_marshal_vector :: "boolean_stream \<Rightarrow> bytes result" where
  "bs_marshal_vector b =
     (let limit = arrayLimit b in
      if limit - 1 < 0 \<or> limit - 1 \<ge> int (length (bsData b)) then Inl UndefinedBehaviour
      else Inr ((if limit < 64 then [word_of_int limit]
                 else if limit < 256 then [0xC0, word_of_int limit]
                 else [0x80, word_of_int (limit div 256), word_of_int (limit mod 256)])
                @ take (nat (limit - 1)) (bsData b)))"

text \<open>\<open>vector::resize\<close> with a negative limit asks for more than \<open>max_size()\<close> and throws.\<close>

definition resize_bytes :: "nat \<Rightarrow> bytes \<Rightarrow> bytes" where
  "resize_bytes n xs = take n xs @ replicate (n - length xs) 0"

definition read_limit :: "int io" where
  "read_limit = bind_io readByte (\<lambda>first.
     if first = 0xC0 then bind_io readByte (\<lambda>b. ret (uint b))
     else if first = 0x80 then bind_io readShort (\<lambda>v. ret (sint v))
     else ret (uint first))"

definition bs_unmarshal :: "unit io" where
  "bs_unmarshal = bind_io read_limit (\<lambda>limit s.
     if limit < 0 then (Inl IOException, s\<lparr>bools := (bools s)\<lparr>arrayLimit := limit\<rparr>\<rparr>)
     else bind_io (readFully (nat limit))
       (\<lambda>payload s. (Inr (), s\<lparr>bools := clear_positions ((bools s)\<lparr>bsData := payload\<rparr>)\<rparr>))
       (s\<lparr>bools := (bools s)\<lparr>arrayLimit := limit, bsData := resize_bytes (nat limit) (bsData (bools s))\<rparr>\<rparr>))"

definition marshalledSize :: "boolean_stream \<Rightarrow> 32 word" where
  "marshalledSize b =
     (if arrayLimit b < 64 then 1 + word_of_int (arrayLimit b)
      else if arrayLimit b < 256 then 2 + word_of_int (arrayLimit b)
      else 3 + word_of_int (arrayLimit b))"

section \<open>The bytes of a number\<close>

lemma masked_byte: "ucast (drop_bit k (v AND push_bit k 255)) = (ucast (drop_bit k v) :: byte)" for v :: "'a :: len word"
proof (rule bit_word_eqI)
  fix n assume "n < LENGTH(8)"
  then have "bit (255 :: 'a word) n \<longleftrightarrow> n < LENGTH('a)"
    using bit_mask_iff [of 8 n, where 'a = "'a word"] by (simp add: mask_eq_exp_minus_1 possible_bit_word)
  then show "bit (ucast (drop_bit k (v AND push_bit k 255)) :: byte) n = bit (ucast (drop_bit k v) :: byte) n"
    by (auto simp: bit_simps dest: bit_imp_le_length)
qed

lemma short_bytes_cut: "short_bytes v = [ucast (drop_bit 8 v), ucast v]"
  using masked_byte [of 8 v] masked_byte [of 0 v] by (simp add: short_bytes_def push_bit_of_nat)

lemma int_bytes_cut:
  "int_bytes v = [ucast (drop_bit 24 v), ucast (drop_bit 16 v), ucast (drop_bit 8 v), ucast v]"
  using masked_byte [of 24 v] masked_byte [of 16 v] masked_byte [of 8 v] masked_byte [of 0 v]
  by (simp add: int_bytes_def)

lemma long_bytes_cut:
  "long_bytes v = map (\<lambda>k. ucast (drop_bit k v)) [56, 48, 40, 32, 24, 16, 8, 0]"
  using masked_byte [of 56 v] masked_byte [of 48 v] masked_byte [of 40 v] masked_byte [of 32 v]
    masked_byte [of 24 v] masked_byte [of 16 v] masked_byte [of 8 v] masked_byte [of 0 v]
  by (simp add: long_bytes_def)

lemma bit_of_byte: "bit (push_bit k (ucast (ucast (drop_bit k v) :: byte)) :: 'a :: len word) n \<longleftrightarrow> k \<le> n \<and> n < k + 8 \<and> bit v n"
  for v :: "'a :: len word"
  by (auto simp: bit_simps dest: bit_imp_le_length)

lemma bit_of_low_byte: "bit (ucast (ucast v :: byte) :: 'a :: len word) n \<longleftrightarrow> n < 8 \<and> bit v n"
  for v :: "'a :: len word"
  using bit_of_byte [of 0 v n] by simp

lemma join_short: "push_bit 8 (ucast (short_bytes v ! 0)) OR ucast (short_bytes v ! 1) = v"
  by (rule bit_word_eqI) (auto simp: short_bytes_cut bit_or_iff bit_of_byte bit_of_low_byte)

lemma join_int:
  "push_bit 24 (ucast (int_bytes v ! 0)) OR push_bit 16 (ucast (int_bytes v ! 1)) OR
   push_bit 8 (ucast (int_bytes v ! 2)) OR ucast (int_bytes v ! 3) = v"
  by (rule bit_word_eqI) (auto simp: int_bytes_cut bit_or_iff bit_of_byte bit_of_low_byte)

lemma join_long:
  "push_bit 56 (ucast (long_bytes v ! 0)) OR push_bit 48 (ucast (long_bytes v ! 1)) OR
   push_bit 40 (ucast (long_bytes v ! 2)) OR push_bit 32 (ucast (long_bytes v ! 3)) OR
   push_bit 24 (ucast (long_bytes v ! 4)) OR push_bit 16 (ucast (long_bytes v ! 5)) OR
   push_bit 8 (ucast (long_bytes v ! 6)) OR ucast (long_bytes v ! 7) = v"
  by (rule bit_word_eqI) (auto simp: long_bytes_cut bit_or_iff bit_of_byte bit_of_low_byte)

lemma number_lengths [simp]:
  "length (short_bytes v) = 2" "length (int_bytes w) = 4" "length (long_bytes u) = 8"
  by (simp_all add: short_bytes_def int_bytes_def long_bytes_def)

section \<open>UTF-8 text\<close>

lemma utf_char_cases:
  "utf_char c = (if c > 0 \<and> c < 0x80 then [c] else [0xC0 OR drop_bit 6 c, 0x80 OR (0x3F AND c)])"
proof -
  have range: "uint c < 256" using uint_lt2p [of c] by simp
  have small: "(ucast c :: 32 word) > 0 \<and> (ucast c :: 32 word) \<le> 127 \<longleftrightarrow> c > 0 \<and> c < 0x80"
    by (auto simp: word_less_def word_le_def uint_up_ucast is_up)
  have byte: "(ucast c :: 32 word) \<le> 2047"
    using range by (simp add: word_le_def uint_up_ucast is_up)
  have "ucast (0xC0 OR (0x1F AND drop_bit 6 (ucast c :: 32 word))) = (0xC0 OR drop_bit 6 c :: byte)"
    "ucast (0x80 OR (0x3F AND (ucast c :: 32 word))) = (0x80 OR (0x3F AND c) :: byte)"
    by (rule bit_word_eqI, auto simp: bit_simps less_Suc_eq numeral_eq_Suc dest: bit_imp_le_length)+
  moreover have "ucast (ucast c :: 32 word) = c" by (rule bit_word_eqI) (simp add: bit_simps)
  ultimately show ?thesis using small byte by (simp add: utf_char_def Let_def)
qed

lemma countUTFLength_bytes: "countUTFLength str = length (concat (map utf_char str))"
  by (induction str) (auto simp: Let_def utf_char_def)

lemma utf_decode_char: "utf_decode (utf_char c @ ys) = bind_result (utf_decode ys) (\<lambda>r. Inr (c # r))"
proof (cases "c > 0 \<and> c < 0x80")
  case True
  then show ?thesis by (simp add: utf_char_cases)
next
  case False
  let ?a = "0xC0 OR drop_bit 6 c" and ?b = "0x80 OR (0x3F AND c) :: byte"
  have bits: "?a AND 0xE0 = 0xC0" "?b AND 0xC0 = 0x80" "?a AND 0x1C = 0" "?a AND 0x1F = drop_bit 6 c"
    "?b AND 0x3F = c AND 0x3F"
    by (rule bit_word_eqI, auto simp: bit_simps less_Suc_eq numeral_eq_Suc dest: bit_imp_le_length)+
  have "(0x3F :: byte) = mask 6" by (simp add: mask_eq_exp_minus_1)
  then have "push_bit 6 (?a AND 0x1F) OR (?b AND 0x3F) = c"
    unfolding bits by (intro bit_word_eqI) (auto simp only: bit_or_iff bit_and_iff bit_mask_iff bit_push_bit_iff bit_drop_bit_eq
      possible_bit_word o_def le_add_diff_inverse)
  moreover have "\<not> ?a < 0x80"
  proof -
    have "(0xC0 :: byte) \<le> ?a" by (rule le_word_or2)
    then have "(0x80 :: byte) \<le> ?a" by (rule order_trans [rotated]) simp
    then show ?thesis by (simp only: not_less)
  qed
  ultimately show ?thesis using False bits(1-3) by (simp add: utf_char_cases)
qed

lemma utf_roundtrip: "utf_decode (concat (map utf_char str)) = Inr str"
  by (induction str) (simp_all add: utf_decode_char)

section \<open>The bits of a boolean stream\<close>

definition stream_bit :: "bytes \<Rightarrow> nat \<Rightarrow> bool" where
  "stream_bit d i = bit (d ! (i div 8)) (i mod 8)"

text \<open>
  \<open>wrote b bits\<close>: the stream was new and \<open>bits\<close> were written to it.  \<open>upcoming b bits\<close>: reading the
  stream gives \<open>bits\<close> next.  The index of a byte is a \<open>short\<close>, so a stream has room for 262136 bits.
\<close>

definition MAX_BITS :: nat where
  "MAX_BITS = 8 * 32767"

definition position :: "boolean_stream \<Rightarrow> nat \<Rightarrow> bool" where
  "position b p \<longleftrightarrow> arrayPos b = int (p div 8) \<and> bytePos b = p mod 8"

definition wrote :: "boolean_stream \<Rightarrow> bool list \<Rightarrow> bool" where
  "wrote b bits \<longleftrightarrow> position b (length bits) \<and> arrayLimit b = int ((length bits + 7) div 8) \<and>
     (length bits + 7) div 8 < length (bsData b) \<and>
     (\<forall>i < 8 * length (bsData b). stream_bit (bsData b) i \<longleftrightarrow> i < length bits \<and> bits ! i)"

definition upcoming :: "boolean_stream \<Rightarrow> bool list \<Rightarrow> bool" where
  "upcoming b bits \<longleftrightarrow> bits = [] \<or> (\<exists>p. position b p \<and> p + length bits \<le> MAX_BITS \<and> p + length bits \<le> 8 * length (bsData b) \<and>
     (\<forall>i < length bits. stream_bit (bsData b) (p + i) \<longleftrightarrow> bits ! i))"

lemma wrap16_id: "- 32768 \<le> x \<Longrightarrow> x \<le> 32767 \<Longrightarrow> wrap16 x = x"
  by (simp add: wrap16_def signed_take_bit_int_eq_self)

lemma position_advance:
  assumes "position b p" "p < MAX_BITS"
  shows "position (advance_bit b) (Suc p)"
proof (cases "p mod 8 = 7")
  case True
  then have "Suc p div 8 = Suc (p div 8)" "Suc p mod 8 = 0" by (simp_all add: div_Suc mod_Suc)
  moreover have "p div 8 \<le> 32766" using assms(2) by (simp add: MAX_BITS_def)
  ultimately show ?thesis
    using assms True by (simp add: position_def advance_bit_def wrap16_id)
next
  case False
  then have "Suc p div 8 = p div 8" "Suc p mod 8 = Suc (p mod 8)" by (simp_all add: div_Suc mod_Suc)
  moreover have "p mod 8 < 7" using False mod_less_divisor [of 8 p] by linarith
  ultimately show ?thesis using assms by (simp add: position_def advance_bit_def)
qed

lemma advance_bit_fields [simp]: "bsData (advance_bit b) = bsData b" "arrayLimit (advance_bit b) = arrayLimit b"
  by (simp_all add: advance_bit_def)

lemma new_stream_wrote: "wrote new_BooleanStream []"
  by (auto simp: wrote_def position_def new_BooleanStream_def stream_bit_def less_mult_imp_div_less)

lemma bit_test: "drop_bit k x AND 1 \<noteq> 0 \<longleftrightarrow> bit x k" for x :: byte
  by (simp add: bit_iff_odd_drop_bit and_one_eq odd_iff_mod_2_eq_one)

lemma readBoolean_upcoming:
  assumes "upcoming (bools s) (v # bits)"
  shows "\<exists>b. readBoolean s = (Inr v, s\<lparr>bools := b\<rparr>) \<and> upcoming b bits"
proof -
  obtain p where p: "position (bools s) p" "p + length (v # bits) \<le> MAX_BITS"
      "p + length (v # bits) \<le> 8 * length (bsData (bools s))"
      "\<And>i. i < length (v # bits) \<Longrightarrow> stream_bit (bsData (bools s)) (p + i) \<longleftrightarrow> (v # bits) ! i"
    using assms unfolding upcoming_def by auto
  have "in_array (bools s)" using p(1,3) by (auto simp: in_array_def position_def)
  moreover have "bit (bsData (bools s) ! nat (arrayPos (bools s))) (bytePos (bools s)) \<longleftrightarrow> v"
    using p(1) p(4) [of 0] by (simp add: position_def stream_bit_def)
  moreover have "upcoming (advance_bit (bools s)) bits"
    unfolding upcoming_def
    using p(2,3) position_advance [OF p(1)] p(4) [of "Suc i" for i]
    by (intro disjI2 exI [of _ "Suc p"]) (auto simp: MAX_BITS_def)
  ultimately show ?thesis by (auto simp: readBoolean_def Let_def bit_test)
qed

lemma stream_bit_update:
  assumes "p div 8 < length d" "i < 8 * length d"
  shows "stream_bit (d[p div 8 := d ! (p div 8) OR push_bit (p mod 8) 1]) i \<longleftrightarrow> i = p \<or> stream_bit d i"
proof (cases "i div 8 = p div 8")
  case True
  then have "i mod 8 = p mod 8 \<longleftrightarrow> i = p" by (metis div_mod_decomp)
  then show ?thesis
    using True assms by (auto simp: stream_bit_def bit_or_iff bit_push_bit_iff bit_1_iff bit_exp_iff)
next
  case False
  then show ?thesis using assms by (auto simp: stream_bit_def)
qed

text \<open>The stream in \<open>writeBoolean\<close> once there is a byte for the next bit.\<close>

definition ready :: "boolean_stream \<Rightarrow> bool list \<Rightarrow> bool" where
  "ready b bits \<longleftrightarrow> position b (length bits) \<and> arrayLimit b = int (length bits div 8 + 1) \<and>
     length bits div 8 + 1 < length (bsData b) \<and>
     (\<forall>i < 8 * length (bsData b). stream_bit (bsData b) i \<longleftrightarrow> i < length bits \<and> bits ! i)"

lemma stream_bit_append: "stream_bit (d @ replicate n 0) i \<longleftrightarrow> i < 8 * length d \<and> stream_bit d i"
  if "i < 8 * (length d + n)"
  using that by (cases "i < 8 * length d") (auto simp: stream_bit_def nth_append less_mult_imp_div_less)

lemma bytes_started: "0 < r \<Longrightarrow> r < 8 \<Longrightarrow> n = q * 8 + r \<Longrightarrow> (n + 7) div 8 = q + 1" for n :: nat
  by (rule div_nat_eqI) simp_all

lemma wrote_ready:
  assumes wr: "wrote b bits" and room: "length bits < MAX_BITS"
  shows "ready (if bytePos b = 0 then extend_limit b else b) bits"
proof (cases "length bits mod 8 = 0")
  case True
  then have n: "(length bits + 7) div 8 = length bits div 8" by (auto simp: mod_eq_0_iff_dvd)
  have n2: "length bits div 8 \<le> 32766" using room by (simp add: MAX_BITS_def)
  have "arrayLimit b = int (length bits div 8)" "length bits div 8 < length (bsData b)"
    using wr n by (simp_all add: wrote_def)
  then show ?thesis
    using wr True n2 unfolding ready_def wrote_def extend_limit_def position_def
    by (auto simp: Let_def wrap16_id stream_bit_append)
next
  case False
  then have "(length bits + 7) div 8 = length bits div 8 + 1"
    by (intro bytes_started [of "length bits mod 8"]) simp_all
  then show ?thesis using wr False by (simp add: ready_def wrote_def position_def)
qed

lemma ready_wrote:
  assumes rd: "ready b bits" and room: "length bits < MAX_BITS"
  shows "wrote (advance_bit b) (bits @ [False])"
    and "wrote (advance_bit (b\<lparr>bsData := (bsData b)[nat (arrayPos b) :=
           bsData b ! nat (arrayPos b) OR push_bit (bytePos b) 1]\<rparr>)) (bits @ [True])"
proof -
  have pos: "position b (length bits)" "position (advance_bit b) (Suc (length bits))"
    and len: "(Suc (length bits) + 7) div 8 = length bits div 8 + 1" and inside: "length bits div 8 < length (bsData b)"
    using rd room position_advance [of b "length bits"] by (simp_all add: ready_def)
  show "wrote (advance_bit b) (bits @ [False])"
    using rd pos len by (auto simp: wrote_def ready_def nth_append less_Suc_eq)
  let ?d = "(bsData b)[length bits div 8 := bsData b ! (length bits div 8) OR push_bit (length bits mod 8) 1]"
  have upd: "position (advance_bit (b\<lparr>bsData := ?d\<rparr>)) (Suc (length bits))"
    using pos room by (intro position_advance) (simp_all add: position_def)
  have "stream_bit ?d i \<longleftrightarrow> i < Suc (length bits) \<and> (bits @ [True]) ! i" if "i < 8 * length (bsData b)" for i
    unfolding stream_bit_update [OF inside that]
    using rd that by (auto simp: ready_def nth_append less_Suc_eq)
  then show "wrote (advance_bit (b\<lparr>bsData := (bsData b)[nat (arrayPos b) :=
           bsData b ! nat (arrayPos b) OR push_bit (bytePos b) 1]\<rparr>)) (bits @ [True])"
    using rd pos(1) upd len by (auto simp: wrote_def ready_def position_def)
qed

lemma writeBoolean_wrote:
  assumes "wrote (bools s) bits" "length bits < MAX_BITS"
  shows "\<exists>b. writeBoolean v s = (Inr (), s\<lparr>bools := b\<rparr>) \<and> wrote b (bits @ [v])"
proof -
  let ?b = "if bytePos (bools s) = 0 then extend_limit (bools s) else bools s"
  have rd: "ready ?b bits" using assms by (rule wrote_ready)
  moreover have "in_array ?b" using rd unfolding ready_def in_array_def position_def by (auto simp del: if_split)
  ultimately show ?thesis
    using ready_wrote [OF rd assms(2)] by (cases v) (auto simp: writeBoolean_def Let_def)
qed

section \<open>Contracts of sending and receiving\<close>

text \<open>
  \<open>marks m v bits\<close>: the method adds \<open>bits\<close> to the boolean stream, as long as there is room, and returns
  \<open>v\<close>.  \<open>puts m bits ys v\<close>: finding \<open>bits\<close> next in the boolean stream it reads them, writes the bytes
  \<open>ys\<close> and returns \<open>v\<close>.  \<open>gets m bits ys v\<close>: finding \<open>bits\<close> and the bytes \<open>ys\<close> next, it reads exactly
  these and returns \<open>v\<close>, whatever follows and however the input is cut into chunks.
\<close>

definition marks :: "'a io \<Rightarrow> 'a \<Rightarrow> bool list \<Rightarrow> bool" where
  "marks m v bits \<longleftrightarrow> (\<forall>s before. wrote (bools s) before \<longrightarrow> length before + length bits \<le> MAX_BITS \<longrightarrow>
     (\<exists>b. m s = (Inr v, s\<lparr>bools := b\<rparr>) \<and> wrote b (before @ bits)))"

definition puts :: "'a io \<Rightarrow> bool list \<Rightarrow> bytes \<Rightarrow> 'a \<Rightarrow> bool" where
  "puts m bits ys v \<longleftrightarrow> (\<forall>s more. upcoming (bools s) (bits @ more) \<longrightarrow>
     (\<exists>b. m s = (Inr v, emit ys (s\<lparr>bools := b\<rparr>)) \<and> upcoming b more))"

definition gets :: "'a io \<Rightarrow> bool list \<Rightarrow> bytes \<Rightarrow> 'a \<Rightarrow> bool" where
  "gets m bits ys v \<longleftrightarrow> (\<forall>s more rest. upcoming (bools s) (bits @ more) \<longrightarrow> concat (dataIn s) = ys @ rest \<longrightarrow>
     (\<exists>b src. m s = (Inr v, s\<lparr>bools := b, dataIn := src\<rparr>) \<and> upcoming b more \<and> concat src = rest))"

lemma emit_append: "emit (ys @ zs) s = emit zs (emit ys s)"
  by (simp add: emit_def)

lemma emit_Nil [simp]: "emit [] s = s"
  by (simp add: emit_def)

lemma emit_fields [simp]:
  "bools (emit ys s) = bools s" "dataIn (emit ys s) = dataIn s" "dataOut (emit ys s) = dataOut s @ ys"
  "emit ys (s\<lparr>bools := b\<rparr>) = (emit ys s)\<lparr>bools := b\<rparr>"
  by (simp_all add: emit_def)

lemma same_bools: "P (bools s) \<Longrightarrow> \<exists>b. s = s\<lparr>bools := b\<rparr> \<and> P b" for s :: streams
  by (rule exI [of _ "bools s"]) simp

lemma marks_bind:
  assumes "marks m v bits" "marks (k v) w bits'"
  shows "marks (bind_io m k) w (bits @ bits')"
  unfolding marks_def
proof (intro allI impI)
  fix s :: streams and before assume "wrote (bools s) before" "length before + length (bits @ bits') \<le> MAX_BITS"
  then obtain b where "m s = (Inr v, s\<lparr>bools := b\<rparr>)" "wrote b (before @ bits)"
    using assms(1) unfolding marks_def by fastforce
  moreover from this obtain b' where "k v (s\<lparr>bools := b\<rparr>) = (Inr w, s\<lparr>bools := b'\<rparr>)" "wrote b' (before @ bits @ bits')"
    using assms(2) [unfolded marks_def, rule_format, of "s\<lparr>bools := b\<rparr>" "before @ bits"]
      \<open>length before + _ \<le> _\<close> by auto
  ultimately show "\<exists>b. bind_io m k s = (Inr w, s\<lparr>bools := b\<rparr>) \<and> wrote b (before @ bits @ bits')"
    by (auto simp: bind_io_def)
qed

lemma puts_bind:
  assumes "puts m bits ys v" "puts (k v) bits' zs w"
  shows "puts (bind_io m k) (bits @ bits') (ys @ zs) w"
  unfolding puts_def
proof (intro allI impI)
  fix s :: streams and more assume "upcoming (bools s) ((bits @ bits') @ more)"
  then obtain b where b: "m s = (Inr v, emit ys (s\<lparr>bools := b\<rparr>))" "upcoming b (bits' @ more)"
    using assms(1) unfolding puts_def by fastforce
  moreover from this obtain b' where
    "k v (emit ys (s\<lparr>bools := b\<rparr>)) = (Inr w, emit zs ((emit ys (s\<lparr>bools := b\<rparr>))\<lparr>bools := b'\<rparr>))" "upcoming b' more"
    using assms(2) [unfolded puts_def, rule_format, of "emit ys (s\<lparr>bools := b\<rparr>)" more] by auto
  ultimately show "\<exists>b. bind_io m k s = (Inr w, emit (ys @ zs) (s\<lparr>bools := b\<rparr>)) \<and> upcoming b more"
    by (auto simp: bind_io_def emit_append)
qed

lemma gets_bind:
  assumes "gets m bits ys v" "gets (k v) bits' zs w"
  shows "gets (bind_io m k) (bits @ bits') (ys @ zs) w"
  unfolding gets_def
proof (intro allI impI)
  fix s :: streams and more rest assume "upcoming (bools s) ((bits @ bits') @ more)" "concat (dataIn s) = (ys @ zs) @ rest"
  then obtain b src where b: "m s = (Inr v, s\<lparr>bools := b, dataIn := src\<rparr>)" "upcoming b (bits' @ more)" "concat src = zs @ rest"
    using assms(1) [unfolded gets_def, rule_format, of s "bits' @ more" "zs @ rest"] by auto
  moreover from this obtain b' src' where
    "k v (s\<lparr>bools := b, dataIn := src\<rparr>) = (Inr w, s\<lparr>bools := b', dataIn := src'\<rparr>)" "upcoming b' more" "concat src' = rest"
    using assms(2) [unfolded gets_def, rule_format, of "s\<lparr>bools := b, dataIn := src\<rparr>" more rest] by auto
  ultimately show "\<exists>b src. bind_io m k s = (Inr w, s\<lparr>bools := b, dataIn := src\<rparr>) \<and> upcoming b more \<and> concat src = rest"
    by (auto simp: bind_io_def)
qed

lemma puts_next:
  "puts m bits ys v \<Longrightarrow> puts k bits' zs w \<Longrightarrow> puts (next_io m k) (bits @ bits') (ys @ zs) w"
  by (rule puts_bind)

lemma marks_ret: "marks (ret v) v []"
  by (auto simp: marks_def ret_def intro: same_bools)

lemma puts_ret: "puts (ret v) [] [] v"
  by (auto simp: puts_def ret_def intro: same_bools)

lemma gets_ret: "gets (ret v) [] [] v"
  by (auto simp: gets_def ret_def intro!: exI [of _ "bools _"] exI [of _ "dataIn _"])

lemma marks_writeBoolean: "marks (writeBoolean v) () [v]"
  using writeBoolean_wrote unfolding marks_def by simp

lemma puts_readBoolean: "puts readBoolean [v] [] v"
  using readBoolean_upcoming unfolding puts_def by simp

lemma gets_readBoolean: "gets readBoolean [v] [] v"
  unfolding gets_def
proof (intro allI impI)
  fix s :: streams and more rest assume "upcoming (bools s) ([v] @ more)" "concat (dataIn s) = [] @ rest"
  then show "\<exists>b src. readBoolean s = (Inr v, s\<lparr>bools := b, dataIn := src\<rparr>) \<and> upcoming b more \<and> concat src = rest"
    using readBoolean_upcoming [of s v more] by (auto intro!: exI [of _ "dataIn s"])
qed

lemma puts_emit: "puts (\<lambda>s. (Inr (), emit ys s)) [] ys ()"
  by (auto simp: puts_def intro: same_bools [of _ "emit ys _", simplified])

lemma puts_numbers:
  "puts (writeByte b) [] [b] ()" "puts (out_writeBoolean v) [] [if v then 1 else 0] ()"
  "puts (writeShort h) [] (short_bytes h) ()" "puts (writeUnsignedShort h) [] (short_bytes h) ()"
  "puts (writeInt i) [] (int_bytes i) ()" "puts (writeLong l) [] (long_bytes l) ()"
  using puts_emit by (simp_all add: puts_def writeByte_def out_writeBoolean_def writeShort_def writeUnsignedShort_def
    writeInt_def writeLong_def)

lemma puts_array: "puts (write_array ys 0 (int (length ys))) [] ys ()"
  using puts_emit [of ys] by (cases "ys = []") (auto simp: write_array_def puts_def intro: same_bools)

lemma puts_writeBytes: "puts (writeBytes ys) [] ys ()"
  using puts_array puts_ret by (auto simp: writeBytes_def)

abbreviation utf_text :: "bytes \<Rightarrow> bytes" where
  "utf_text str \<equiv> concat (map utf_char str)"

lemma puts_writeUTF:
  assumes "countUTFLength str \<le> 65535"
  shows "puts (writeUTF str) [] (short_bytes (of_nat (countUTFLength str)) @ utf_text str) ()"
proof -
  have "puts (if countUTFLength str > 0 then write_array (utf_text str) 0 (int (length (utf_text str))) else ret ())
      [] (utf_text str) ()"
    using puts_array [of "utf_text str"] puts_ret [of "()"]
    by (cases "utf_text str") (simp_all add: countUTFLength_bytes del: concat_eq_Nil_conv)
  from puts_next [OF puts_numbers(4) this] show ?thesis
    using assms by (simp add: writeUTF_def Let_def)
qed

lemma read_loop_all:
  assumes "0 < k" "k \<le> length (concat src)"
  shows "\<exists>rest. read_loop k got src = (Inr (got @ take k (concat src)), rest) \<and> concat rest = drop k (concat src)"
  using assms by (induction k got src rule: read_loop.induct) auto

lemma gets_readAllData: "0 < k \<Longrightarrow> length ys = k \<Longrightarrow> gets (readAllData k) [] ys ys"
  unfolding gets_def
proof (intro allI impI)
  fix s :: streams and more rest assume "0 < k" "length ys = k" "upcoming (bools s) ([] @ more)" "concat (dataIn s) = ys @ rest"
  then show "\<exists>b src. readAllData k s = (Inr ys, s\<lparr>bools := b, dataIn := src\<rparr>) \<and> upcoming b more \<and> concat src = rest"
    using read_loop_all [of k "dataIn s" "[]"] by (auto simp: readAllData_def intro!: exI [of _ "bools s"])
qed

lemma gets_readFully: "length ys = k \<Longrightarrow> gets (readFully k) [] ys ys"
  using gets_readAllData gets_ret by (auto simp: readFully_def)

lemma gets_map: "gets m bits ys v \<Longrightarrow> f v = w \<Longrightarrow> gets (bind_io m (\<lambda>x. ret (f x))) bits ys w"
  using gets_bind [OF _ gets_ret] by fastforce

lemma gets_numbers:
  "gets readByte [] [b] b" "gets in_readBoolean [] [if v then 1 else 0] v"
  "gets readShort [] (short_bytes h) h" "gets readUnsignedShort [] (short_bytes h) h"
  "gets readInt [] (int_bytes i) i" "gets readLong [] (long_bytes l) l"
  unfolding readByte_def in_readBoolean_def readShort_def readUnsignedShort_def readInt_def readLong_def
  by (rule gets_map gets_readAllData join_short join_int join_long | simp)+

lemma gets_readUTF:
  assumes "countUTFLength str \<le> 65535"
  shows "gets readUTF [] (short_bytes (of_nat (countUTFLength str)) @ utf_text str) str"
proof -
  let ?n = "of_nat (countUTFLength str) :: 16 word"
    and ?k = "\<lambda>h. if h = 0 then ret [] else bind_io (readFully (unat h)) (\<lambda>buffer s. (utf_decode buffer, s))"
  have len: "unat ?n = length (utf_text str)"
    using assms unfolding countUTFLength_bytes [symmetric] by (simp add: unat_of_nat)
  have "gets (\<lambda>s. (utf_decode (utf_text str), s)) [] [] str"
    using gets_ret [of str] by (simp add: utf_roundtrip gets_def ret_def)
  from gets_bind [where k = "\<lambda>buffer s. (utf_decode buffer, s)", OF gets_readFully [OF refl] this]
  have "gets (bind_io (readFully (unat ?n)) (\<lambda>buffer s. (utf_decode buffer, s))) [] (utf_text str) str"
    by (simp add: len)
  moreover have "utf_text str = [] \<and> str = []" if "?n = 0"
    using that len utf_roundtrip [of str] by (cases "utf_text str") simp_all
  ultimately have "gets (?k ?n) [] (utf_text str) str"
    using gets_ret [of "[]"] by (cases "?n = 0") (auto simp del: concat_eq_Nil_conv)
  from gets_bind [where k = ?k, OF gets_numbers(4) this] show ?thesis by (simp add: readUTF_def)
qed

section \<open>A boolean stream on the wire\<close>

definition limit_bytes :: "nat \<Rightarrow> bytes" where
  "limit_bytes n =
     (if n < 64 then [of_nat n] else if n < 256 then [0xC0, of_nat n] else 0x80 # short_bytes (of_nat n))"

definition packs :: "bytes \<Rightarrow> bool list \<Rightarrow> bool" where
  "packs ys bits \<longleftrightarrow> length ys = (length bits + 7) div 8 \<and> (\<forall>i < length bits. stream_bit ys i \<longleftrightarrow> bits ! i)"

lemma bits_in_bytes: "i < length bits \<Longrightarrow> i div 8 < (length bits + 7) div 8"
  using div_le_mono [of "i + 8" "length bits + 7" 8] by simp

lemma limit_of_bits: "length bits \<le> MAX_BITS \<Longrightarrow> (length bits + 7) div 8 \<le> 32767"
  by (simp add: MAX_BITS_def)

lemma wrote_packs: "wrote b bits \<Longrightarrow> packs (take (nat (arrayLimit b)) (bsData b)) bits"
  by (auto simp: packs_def wrote_def stream_bit_def bits_in_bytes less_mult_imp_div_less
    dest: bits_in_bytes less_trans simp flip: div_less_iff_less_mult)

lemma packs_upcoming:
  "packs ys bits \<Longrightarrow> length bits \<le> MAX_BITS \<Longrightarrow> upcoming (clear_positions (b\<lparr>bsData := ys\<rparr>)) bits"
  unfolding upcoming_def packs_def
  by (intro disjI2 exI [of _ 0]) (auto simp: position_def clear_positions_def)

lemma wrote_upcoming: "wrote b bits \<Longrightarrow> length bits \<le> MAX_BITS \<Longrightarrow> upcoming (clear_positions b) bits"
  unfolding upcoming_def wrote_def
  by (intro disjI2 exI [of _ 0]) (auto simp: position_def clear_positions_def)

text \<open>The bytes of a boolean stream: eight bits each, the unused bits of the last one are zero.\<close>

definition pack :: "bool list \<Rightarrow> bytes" where
  "pack bits = map (\<lambda>k. horner_sum of_bool 2 (map (\<lambda>j. 8 * k + j < length bits \<and> bits ! (8 * k + j)) [0..<8]))
     [0..<(length bits + 7) div 8]"

lemma length_pack [simp]: "length (pack bits) = (length bits + 7) div 8"
  by (simp add: pack_def)

lemma wrote_pack: "wrote b bits \<Longrightarrow> take (nat (arrayLimit b)) (bsData b) = pack bits"
proof (rule nth_equalityI)
  assume wr: "wrote b bits"
  then show len: "length (take (nat (arrayLimit b)) (bsData b)) = length (pack bits)" by (simp add: wrote_def)
  fix k
  assume "k < length (take (nat (arrayLimit b)) (bsData b))"
  then have k: "k < (length bits + 7) div 8" "k < length (bsData b)" using wr by (simp_all add: wrote_def)
  have "bit (bsData b ! k) j \<longleftrightarrow> bit (pack bits ! k) j" if "j < 8" for j
  proof -
    have "stream_bit (bsData b) (8 * k + j) \<longleftrightarrow> 8 * k + j < length bits \<and> bits ! (8 * k + j)"
      using wr k(2) that by (simp add: wrote_def)
    then show ?thesis using k(1) that by (simp add: stream_bit_def pack_def bit_horner_sum_bit_iff)
  qed
  then show "take (nat (arrayLimit b)) (bsData b) ! k = pack bits ! k"
    using k wr by (auto intro!: bit_word_eqI simp: wrote_def)
qed

lemma bs_marshal_pack:
  assumes "wrote (bools s) bits" "length bits \<le> MAX_BITS"
  shows "bs_marshal s = (Inr (), emit (limit_bytes (length (pack bits)) @ pack bits) (s\<lparr>bools := clear_positions (bools s)\<rparr>))"
    and "marshalledSize (bools s) = of_nat (length (limit_bytes (length (pack bits)) @ pack bits))"
proof -
  have n: "arrayLimit (bools s) = int (length (pack bits))" "(length bits + 7) div 8 \<le> 32767" 
      "length (pack bits) < length (bsData (bools s))" "take (length (pack bits)) (bsData (bools s)) = pack bits"
    using assms limit_of_bits [OF assms(2)] wrote_pack [OF assms(1)] by (simp_all add: wrote_def)
  have "limit_prefix (bools s) s = (Inr (), emit (limit_bytes (length (pack bits))) s)"
    unfolding limit_prefix_def limit_bytes_def
    by (simp add: n bind_io_def writeByte_def writeShort_def emit_def)
  moreover have "write_array (bsData (bools s)) 0 (int (length (pack bits))) s' = (Inr (), emit (pack bits) s')" for s'
    using n by (simp add: write_array_def del: length_pack)
  ultimately show "bs_marshal s = (Inr (), emit (limit_bytes (length (pack bits)) @ pack bits) (s\<lparr>bools := clear_positions (bools s)\<rparr>))"
    by (simp add: bs_marshal_def io_boundary_def bind_io_def n emit_append del: length_pack)
  show "marshalledSize (bools s) = of_nat (length (limit_bytes (length (pack bits)) @ pack bits))"
    by (simp add: marshalledSize_def limit_bytes_def n del: length_pack)
qed

lemma packs_pack: "packs (pack bits) bits"
proof -
  have "stream_bit (pack bits) i \<longleftrightarrow> bits ! i" if "i < length bits" for i
    using that bits_in_bytes [OF that] by (simp add: stream_bit_def pack_def bit_horner_sum_bit_iff)
  then show ?thesis by (simp add: packs_def)
qed

lemma bs_marshal_wrote:
  assumes "wrote (bools s) bits" "length bits \<le> MAX_BITS"
  shows "\<exists>ys. packs ys bits \<and>
    bs_marshal s = (Inr (), emit (limit_bytes (length ys) @ ys) (s\<lparr>bools := clear_positions (bools s)\<rparr>)) \<and>
    marshalledSize (bools s) = of_nat (length (limit_bytes (length ys) @ ys))"
  using packs_pack bs_marshal_pack [OF assms] by blast

lemma gets_read_limit:
  assumes "n \<le> 32767"
  shows "gets read_limit [] (limit_bytes n) (int n)"
proof -
  let ?k = "\<lambda>first. if first = 0xC0 then bind_io readByte (\<lambda>b. ret (uint b))
     else if first = 0x80 then bind_io readShort (\<lambda>v. ret (sint v)) else ret (uint first)"
  have "gets (?k (hd (limit_bytes n))) [] (tl (limit_bytes n)) (int n)"
  proof (cases "n < 64")
    case True
    then have small: "uint (of_nat n :: byte) = int n" by (simp add: unsigned_of_nat take_bit_nat_eq_self)
    then have "of_nat n \<noteq> (0xC0 :: byte)" "of_nat n \<noteq> (0x80 :: byte)" using True by auto
    then show ?thesis using True gets_ret [of "int n"] by (simp add: limit_bytes_def small)
  next
    case False
    then show ?thesis
    proof (cases "n < 256")
      case True
      then have "uint (of_nat n :: byte) = int n" by (simp add: unsigned_of_nat take_bit_nat_eq_self)
      then show ?thesis using True False gets_map [OF gets_numbers(1), of uint "of_nat n"] by (simp add: limit_bytes_def)
    next
      case big: False
      have "sint (of_nat n :: 16 word) = int n"
        using assms by (simp add: signed_of_nat signed_take_bit_int_eq_self)
      then show ?thesis using big gets_map [OF gets_numbers(3), of sint "of_nat n"] by (simp add: limit_bytes_def)
    qed
  qed
  from gets_bind [where k = ?k, OF gets_numbers(1) this] show ?thesis
    by (auto simp: read_limit_def limit_bytes_def split: if_splits)
qed

lemma swap_updates: "s\<lparr>dataIn := x, bools := b\<rparr> = s\<lparr>bools := b, dataIn := x\<rparr>" for s :: streams
  by (cases s) simp

lemma bs_unmarshal_packs:
  assumes packed: "packs ys bits" and room: "length bits \<le> MAX_BITS" and src: "concat (dataIn s) = limit_bytes (length ys) @ ys @ rest"
  shows "\<exists>b src. bs_unmarshal s = (Inr (), s\<lparr>bools := b, dataIn := src\<rparr>) \<and> upcoming b bits \<and> concat src = rest"
proof -
  have n: "length ys \<le> 32767" using packed limit_of_bits [OF room] by (simp add: packs_def)
  obtain b src1 where one: "read_limit s = (Inr (int (length ys)), s\<lparr>bools := b, dataIn := src1\<rparr>)" "concat src1 = ys @ rest"
    using gets_read_limit [OF n] src unfolding gets_def by (metis upcoming_def append_Nil)
  let ?b = "b\<lparr>arrayLimit := int (length ys), bsData := resize_bytes (length ys) (bsData b)\<rparr>"
  obtain b2 src2 where two: "readFully (length ys) (s\<lparr>dataIn := src1, bools := ?b\<rparr>) = (Inr ys, s\<lparr>bools := b2, dataIn := src2\<rparr>)"
      "concat src2 = rest"
    using gets_readFully [OF refl, of ys, unfolded gets_def, rule_format, of "s\<lparr>dataIn := src1, bools := ?b\<rparr>" "[]" rest] one(2)
    by (auto simp: upcoming_def)
  show ?thesis
    using one two packs_upcoming [OF packed room] by (auto simp: bs_unmarshal_def bind_io_def swap_updates)
qed

section \<open>Round trip of a boolean stream\<close>

fun writeBooleans :: "bool list \<Rightarrow> unit io" where
  "writeBooleans [] = ret ()"
| "writeBooleans (v # vs) = next_io (writeBoolean v) (writeBooleans vs)"

fun readBooleans :: "nat \<Rightarrow> bool list io" where
  "readBooleans 0 = ret []"
| "readBooleans (Suc n) = bind_io readBoolean (\<lambda>v. bind_io (readBooleans n) (\<lambda>vs. ret (v # vs)))"

definition idle :: "bytes list \<Rightarrow> streams" where
  "idle src = \<lparr>bools = new_BooleanStream, dataOut = [], written = 0, dataIn = src\<rparr>"

lemma marks_writeBooleans: "marks (writeBooleans vs) () vs"
  by (induction vs) (auto intro: marks_ret marks_bind [OF marks_writeBoolean, of "\<lambda>_. writeBooleans _", simplified])

lemma gets_readBooleans: "gets (readBooleans (length vs)) vs [] vs"
proof (induction vs)
  case Nil
  then show ?case by (simp add: gets_ret)
next
  case (Cons v vs)
  have "gets (bind_io (readBooleans (length vs)) (\<lambda>vs. ret (v # vs))) vs [] (v # vs)"
    using gets_map [OF Cons] by simp
  from gets_bind [where k = "\<lambda>v. bind_io (readBooleans (length vs)) (\<lambda>vs. ret (v # vs))", OF gets_readBoolean this]
  show ?case by simp
qed

text \<open>
  Any booleans, up to the 262136 for which a stream has room, survive the way over the wire: writing
  them to a new boolean stream and marshalling it gives as many bytes as \<open>marshalledSize\<close> says, and
  unmarshalling these bytes, in whatever chunks they arrive and whatever follows them, and reading as many
  booleans gives the same booleans and leaves what follows in the input.
\<close>

theorem boolean_stream_roundtrip:
  assumes "length bits \<le> 262136"
  shows "\<exists>s ys. next_io (writeBooleans bits) bs_marshal (idle []) = (Inr (), s) \<and> dataOut s = ys \<and>
    marshalledSize (bools s) = of_nat (length ys) \<and>
    (\<forall>src rest. concat src = ys @ rest \<longrightarrow>
      (\<exists>s'. next_io bs_unmarshal (readBooleans (length bits)) (idle src) = (Inr bits, s') \<and> concat (dataIn s') = rest))"
proof -
  have room: "length bits \<le> MAX_BITS" using assms by (simp add: MAX_BITS_def)
  obtain b where b: "writeBooleans bits (idle []) = (Inr (), (idle [])\<lparr>bools := b\<rparr>)" "wrote b bits"
    using marks_writeBooleans [of bits, unfolded marks_def, rule_format, of "idle []" "[]"] new_stream_wrote room
    by (auto simp: idle_def)
  obtain ys where ys: "packs ys bits" "bs_marshal ((idle [])\<lparr>bools := b\<rparr>) = (Inr (), emit (limit_bytes (length ys) @ ys)
      ((idle [])\<lparr>bools := clear_positions b\<rparr>))" "marshalledSize b = of_nat (length (limit_bytes (length ys) @ ys))"
    using bs_marshal_wrote [of "(idle [])\<lparr>bools := b\<rparr>" bits] b(2) room by auto
  have "\<exists>s'. next_io bs_unmarshal (readBooleans (length bits)) (idle src) = (Inr bits, s') \<and> concat (dataIn s') = rest"
    if src: "concat src = (limit_bytes (length ys) @ ys) @ rest" for src rest
  proof -
    obtain b' src' where "bs_unmarshal (idle src) = (Inr (), (idle src)\<lparr>bools := b', dataIn := src'\<rparr>)" "upcoming b' bits" "concat src' = rest"
      using bs_unmarshal_packs [OF ys(1) room, of "idle src" rest] src by (auto simp: idle_def)
    then show ?thesis
      using gets_readBooleans [of bits, unfolded gets_def, rule_format, of "(idle src)\<lparr>bools := b', dataIn := src'\<rparr>" "[]" rest]
      by (auto simp: bind_io_def)
  qed
  moreover have "marshalledSize (clear_positions b) = marshalledSize b"
    by (simp add: marshalledSize_def clear_positions_def)
  ultimately show ?thesis
    using b(1) ys(2,3) by (auto simp: bind_io_def idle_def)
qed

theorem boolean_stream_roundtrip_witness:
  "\<exists>s ys. next_io (writeBooleans [True, False, True]) bs_marshal (idle []) = (Inr (), s) \<and> dataOut s = ys \<and>
    marshalledSize (bools s) = of_nat (length ys) \<and>
    (\<forall>src rest. concat src = ys @ rest \<longrightarrow>
      (\<exists>s'. next_io bs_unmarshal (readBooleans (length [True, False, True])) (idle src) = (Inr [True, False, True], s') \<and> concat (dataIn s') = rest))"
  by (rule boolean_stream_roundtrip) simp

text \<open>Marshalling into a vector loses the last byte of the stream.\<close>

lemma vector_marshal_drops_last_byte:
  assumes "wrote b bits" "bits \<noteq> []" "length bits \<le> MAX_BITS"
  shows "\<exists>ys. packs ys bits \<and> bs_marshal_vector b = Inr (limit_bytes (length ys) @ butlast ys)"
proof -
  define n where "n = (length bits + 7) div 8"
  have n: "arrayLimit b = int n" "n < length (bsData b)" "n \<le> 32767" "0 < n"
    using assms limit_of_bits [OF assms(3)] by (auto simp: wrote_def n_def div_greater_zero_iff Suc_le_eq)
  have "word_of_int (int n div 256) = (ucast (drop_bit 8 (of_nat n :: 16 word)) :: byte)"
    by (rule bit_word_eqI) (simp add: bit_simps drop_bit_eq_div [of 8 "int n", simplified, symmetric] drop_bit_of_nat)
  moreover have "word_of_int (int n mod 256) = (ucast (of_nat n :: 16 word) :: byte)"
    by (rule bit_word_eqI) (simp add: bit_simps take_bit_eq_mod [of 8, simplified, symmetric] flip: zmod_int)
  ultimately have "bs_marshal_vector b = Inr (limit_bytes n @ take (n - 1) (bsData b))"
    using n by (auto simp: bs_marshal_vector_def limit_bytes_def Let_def short_bytes_cut nat_diff_distrib)
  moreover have "packs (take n (bsData b)) bits" using wrote_packs [OF assms(1)] n by simp
  moreover have "butlast (take n (bsData b)) = take (n - 1) (bsData b)" "length (take n (bsData b)) = n"
    using n by (simp_all add: butlast_take)
  ultimately show ?thesis by metis
qed

end
