(* ===== verification/StringUtils.thy ===== *)
theory StringUtils
  imports DataStreams "HOL-Library.Product_Lexorder" "HOL-Library.List_Lexorder"
begin

text \<open>
  The comparison of strings that orders the identities of the client
  (\<open>decaf/internal/util/StringUtils.cpp\<close>, \<open>decaf/lang/Character.h\<close>): numbers in
  the strings count by their value, white space is skipped, and case is ignored on demand. The maps of
  the state tracker are ordered by it. A string is the list of its bytes, \<open>char\<close> is signed,
  and the byte behind the last is the terminator; a read behind that is undefined (\<open>None\<close>).
\<close>

section \<open>Characters\<close>

definition isWhitespace :: "byte \<Rightarrow> bool" where
  "isWhitespace c = (c = 10 \<or> c = 9 \<or> c = 13 \<or> c = 12 \<or> c = 32)"

definition isDigit :: "byte \<Rightarrow> bool" where
  "isDigit c = (48 \<le> sint c \<and> sint c \<le> 57)"

definition toUpperCase :: "byte \<Rightarrow> byte" where
  "toUpperCase c = (if 97 \<le> sint c \<and> sint c \<le> 122 then c - 32 else c)"

definition folded :: "bool \<Rightarrow> byte \<Rightarrow> byte" where
  "folded ignoreCase c = (if ignoreCase then toUpperCase c else c)"

definition char_at :: "bytes \<Rightarrow> nat \<Rightarrow> byte option" where
  "char_at s i = (if i < length s then Some (s ! i) else if i = length s then Some 0 else None)"

section \<open>Comparing\<close>

text \<open>Numbers of the same length: the first difference is kept in \<open>bias\<close> until both have ended.\<close>

function compareRight :: "bytes \<Rightarrow> nat \<Rightarrow> bytes \<Rightarrow> nat \<Rightarrow> int \<Rightarrow> int option" where
  "compareRight left i right j bias = (case (char_at left i, char_at right j) of
     (Some l, Some r) \<Rightarrow>
       if \<not> isDigit l \<and> \<not> isDigit r then Some bias
       else if \<not> isDigit l then Some (- 1)
       else if \<not> isDigit r then Some 1
       else if sint l < sint r then compareRight left (Suc i) right (Suc j) (if bias = 0 then - 1 else bias)
       else if sint r < sint l then compareRight left (Suc i) right (Suc j) (if bias = 0 then 1 else bias)
       else if l = 0 \<and> r = 0 then Some bias
       else compareRight left (Suc i) right (Suc j) bias
   | _ \<Rightarrow> None)"
  by pat_completeness auto
termination
  by (relation "measure (\<lambda>(left, i, right, j, bias). Suc (length left) - i)")
    (auto simp: char_at_def split: if_splits)

function compareLeft :: "bytes \<Rightarrow> nat \<Rightarrow> bytes \<Rightarrow> nat \<Rightarrow> int option" where
  "compareLeft left i right j = (case (char_at left i, char_at right j) of
     (Some l, Some r) \<Rightarrow>
       if \<not> isDigit l \<and> \<not> isDigit r then Some 0
       else if \<not> isDigit l then Some (- 1)
       else if \<not> isDigit r then Some 1
       else if sint l < sint r then Some (- 1)
       else if sint r < sint l then Some 1
       else compareLeft left (Suc i) right (Suc j)
   | _ \<Rightarrow> None)"
  by pat_completeness auto
termination
  by (relation "measure (\<lambda>(left, i, right, j). Suc (length left) - i)")
    (auto simp: char_at_def split: if_splits)

text \<open>
  The loop over the white space in front of a character. Both loops of the code continue with the
  characters of the string on the left.
\<close>

function skip_whitespace :: "bytes \<Rightarrow> nat \<Rightarrow> byte \<Rightarrow> (byte \<times> nat) option" where
  "skip_whitespace left i c = (if isWhitespace c
     then case char_at left (Suc i) of Some c' \<Rightarrow> skip_whitespace left (Suc i) c' | None \<Rightarrow> None
     else Some (c, i))"
  by pat_completeness auto
termination
  by (relation "measure (\<lambda>(left, i, c). Suc (length left) - i)") (auto simp: char_at_def split: if_splits)

declare compareRight.simps [simp del] compareLeft.simps [simp del] skip_whitespace.simps [simp del]

definition compare_numbers :: "bytes \<Rightarrow> nat \<Rightarrow> bytes \<Rightarrow> nat \<Rightarrow> byte \<Rightarrow> byte \<Rightarrow> int option" where
  "compare_numbers left i right j curLeft curRight =
     (if isDigit curLeft \<and> isDigit curRight
      then if curLeft = 48 \<or> curRight = 48 then compareLeft left i right j else compareRight left i right j 0
      else Some 0)"

lemma skip_whitespace_grows: "skip_whitespace left i c = Some (c', i') \<Longrightarrow> i \<le> i'"
proof (induction left i c rule: skip_whitespace.induct)
  case (1 left i c)
  then show ?case
    by (subst (asm) (2) skip_whitespace.simps) (force split: if_splits option.splits dest: Suc_leD)
qed

text \<open>
  The loop of \<open>doCompare\<close>. Every round moves on in the string on the left, behind whose end
  it has no further round.
\<close>

function doCompare :: "bytes \<Rightarrow> nat \<Rightarrow> bytes \<Rightarrow> nat \<Rightarrow> bool \<Rightarrow> int option" where
  "doCompare left lIndex right rIndex ignoreCase =
     (case (char_at left lIndex, char_at right rIndex) of
        (Some l, Some r) \<Rightarrow>
          (case (skip_whitespace left lIndex l, skip_whitespace left rIndex r) of
             (Some (curLeft, i), Some (curRight, j)) \<Rightarrow>
               (case compare_numbers left i right j curLeft curRight of
                  None \<Rightarrow> None
                | Some result \<Rightarrow>
                    if result \<noteq> 0 then Some result
                    else if curLeft = 0 \<and> curRight = 0 then Some 0
                    else let a = folded ignoreCase curLeft; b = folded ignoreCase curRight
                         in if sint a < sint b then Some (- 1)
                            else if sint b < sint a then Some 1
                            else doCompare left (Suc i) right (Suc j) ignoreCase)
           | _ \<Rightarrow> None)
      | _ \<Rightarrow> None)"
  by pat_completeness auto
termination
  by (relation "measure (\<lambda>(left, i, right, j, ic). Suc (length left) - i)")
    (auto dest!: skip_whitespace_grows [OF sym] simp: char_at_def split: if_splits)

declare doCompare.simps [simp del]

definition compareIgnoreCase :: "bytes \<Rightarrow> bytes \<Rightarrow> int option" where
  "compareIgnoreCase left right = doCompare left 0 right 0 True"

definition compare :: "bytes \<Rightarrow> bytes \<Rightarrow> int option" where
  "compare left right = doCompare left 0 right 0 False"

section \<open>The order on strings without white space\<close>

text \<open>
  The reference: at every position, the folded character or, at a digit, the number that starts there.
  A number with a leading zero comes before the others; of two others the longer is the greater. The end
  of the string counts as the character zero.
\<close>

definition plain :: "bytes \<Rightarrow> bool" where
  "plain s \<longleftrightarrow> (\<forall>c\<in>set s. \<not> isWhitespace c \<and> c \<noteq> 0)"

lemma plain_simps [simp]: "plain []" "plain (c # s) \<longleftrightarrow> \<not> isWhitespace c \<and> c \<noteq> 0 \<and> plain s"
  by (auto simp: plain_def)

type_synonym order_key = "(int \<times> nat \<times> nat \<times> int list) list"

definition order_token :: "bool \<Rightarrow> byte \<Rightarrow> bytes \<Rightarrow> int \<times> nat \<times> nat \<times> int list" where
  "order_token ic c s = (if isDigit c
     then (48, if c = 48 then 0 else 1, if c = 48 then 0 else length (takeWhile isDigit s), map sint (takeWhile isDigit s))
     else (sint (folded ic c), 0, 0, []))"

fun natural_key :: "bool \<Rightarrow> bytes \<Rightarrow> order_key" where
  "natural_key ic [] = [(0, 0, 0, [])]"
| "natural_key ic (c # cs) = order_token ic c (c # cs) # natural_key ic cs"

definition three_way :: "'a::linorder \<Rightarrow> 'a \<Rightarrow> int" where
  "three_way x y = (if x < y then - 1 else if y < x then 1 else 0)"

lemma three_way_simps [simp]:
  "three_way x y = 0 \<longleftrightarrow> x = y" "three_way x y = - 1 \<longleftrightarrow> x < y" "three_way x y < 0 \<longleftrightarrow> x < y"
  "three_way x y = 1 \<longleftrightarrow> y < x"
  by (auto simp: three_way_def)

lemma three_way_Cons: "three_way (x # xs) (y # ys) = (if x = y then three_way xs ys else three_way x y)"
  by (auto simp: three_way_def)

lemma three_way_lists [simp]:
  "three_way [] [] = 0" "three_way [] (y # ys) = - 1" "three_way (x # xs) [] = 1"
  by (simp_all add: three_way_def)

lemma char_at_append [simp]: "char_at (p @ c # cs) (length p) = Some c" "char_at p (length p) = Some 0"
  by (simp_all add: char_at_def)

lemma isDigit_0 [simp]: "\<not> isDigit 0" "\<not> isWhitespace 0"
  by (simp_all add: isDigit_def isWhitespace_def)

lemma compareLeft_numbers:
  "compareLeft (p @ x) (length p) (q @ y) (length q) =
     Some (three_way (map sint (takeWhile isDigit x)) (map sint (takeWhile isDigit y)))"
proof (induction x arbitrary: p q y)
  case Nil
  show ?case
    by (subst compareLeft.simps) (cases y; simp)
next
  case (Cons c x)
  show ?case
  proof (cases y)
    case Nil
    then show ?thesis
      by (subst compareLeft.simps) simp
  next
    case (Cons d y')
    then show ?thesis
      using Cons.IH [of "p @ [c]" "q @ [d]" y']
      by (subst compareLeft.simps) (auto simp: three_way_Cons, auto simp: three_way_def)
  qed
qed

lemma compareRight_numbers:
  "compareRight (p @ x) (length p) (q @ y) (length q) bias =
     (let a = map sint (takeWhile isDigit x); b = map sint (takeWhile isDigit y) in
      Some (if length a = length b then if bias = 0 then three_way a b else bias else three_way (length a) (length b)))"
proof (induction x arbitrary: p q y bias)
  case Nil
  show ?case
    by (subst compareRight.simps) (cases y; simp add: three_way_def)
next
  case (Cons c x)
  show ?case
  proof (cases y)
    case Nil
    then show ?thesis
      by (subst compareRight.simps) (simp add: three_way_def)
  next
    case (Cons d y')
    show ?thesis
      using Cons.IH [of "p @ [c]" "q @ [d]" y'] unfolding Cons
      by (subst compareRight.simps) (auto simp: three_way_Cons Let_def, auto simp: three_way_def)
  qed
qed

lemma takeWhile_isDigit_eq:
  assumes "map sint (takeWhile isDigit x) = map sint (takeWhile isDigit y)"
  shows "takeWhile isDigit x = takeWhile isDigit y"
  using assms by (metis inj_map_eq_map inj_onI signed_word_eqI)

lemma compare_numbers_token:
  assumes "isDigit c" "isDigit d"
  shows "compare_numbers (p @ c # x) (length p) (q @ d # y) (length q) c d =
    Some (three_way (order_token ic c (c # x)) (order_token ic d (d # y)))"
proof -
  have "c \<noteq> d \<Longrightarrow> sint c \<noteq> sint d" "sint c \<noteq> 48 \<Longrightarrow> c \<noteq> 48" "sint d \<noteq> 48 \<Longrightarrow> d \<noteq> 48"
    by (auto simp: signed_word_eqI)
  moreover have "sint (48::byte) = 48"
    by simp
  ultimately show ?thesis
    using assms
    by (auto simp: compare_numbers_def compareLeft_numbers compareRight_numbers order_token_def Let_def three_way_Cons)
       (auto simp: three_way_def isDigit_def)
qed

lemma sint_eq: "sint a = sint b \<longleftrightarrow> a = (b::byte)"
  using signed_word_eqI by blast

lemma fold_digit: "isDigit c \<Longrightarrow> folded ic c = c"
  by (auto simp: isDigit_def toUpperCase_def folded_def)

lemma sint_toUpperCase:
  "sint (toUpperCase c) = (if 97 \<le> sint c \<and> sint c \<le> 122 then sint c - 32 else sint c)"
proof (cases "97 \<le> sint c \<and> sint c \<le> 122")
  case True
  then have "sint (c - 32) = sint c - 32"
    by (simp add: sint_word_ariths signed_take_bit_int_eq_self)
  then show ?thesis
    using True by (simp add: toUpperCase_def)
next
  case False
  then show ?thesis
    by (auto simp: toUpperCase_def)
qed

lemma isDigit_folded: "isDigit (folded ic c) \<longleftrightarrow> isDigit c"
  by (auto simp: isDigit_def sint_toUpperCase folded_def)

lemma order_token_head: "fst (order_token ic c s) = (if isDigit c then 48 else sint (folded ic c))"
  by (simp add: order_token_def)

lemma order_token_char:
  assumes "\<not> (isDigit c \<and> isDigit d)"
  shows "three_way (order_token ic c s) (order_token ic d t) = three_way (sint (folded ic c)) (sint (folded ic d))"
proof (cases "isDigit c \<or> isDigit d")
  case False
  then show ?thesis
    by (simp add: order_token_def three_way_def)
next
  case True
  have "isDigit b \<Longrightarrow> folded ic b = b \<and> 48 \<le> sint b \<and> sint b \<le> 57" for b
    using fold_digit by (auto simp: isDigit_def)
  moreover have "\<not> isDigit b \<Longrightarrow> sint (folded ic b) < 48 \<or> 57 < sint (folded ic b)" for b
    using isDigit_folded [of ic b] unfolding isDigit_def by linarith
  ultimately have "fst (order_token ic c s) \<noteq> fst (order_token ic d t) \<and>
      (fst (order_token ic c s) < fst (order_token ic d t) \<longleftrightarrow> sint (folded ic c) < sint (folded ic d)) \<and>
      sint (folded ic c) \<noteq> sint (folded ic d)"
    using assms True unfolding order_token_head by (smt (verit))
  then show ?thesis
    by (cases "order_token ic c s"; cases "order_token ic d t") (auto simp: three_way_def)
qed

lemma order_token_digit:
  "isDigit c \<Longrightarrow> isDigit d \<Longrightarrow> order_token ic c (c # x) = order_token ic d (d # y) \<Longrightarrow> c = d"
  by (simp add: order_token_def sint_eq)

lemma order_token_end:
  "order_token ic 0 s = (0, 0, 0, [])"
  by (simp add: order_token_def toUpperCase_def folded_def)

lemma skip_whitespace_none [simp]: "\<not> isWhitespace c \<Longrightarrow> skip_whitespace s i c = Some (c, i)"
  by (simp add: skip_whitespace.simps)

text \<open>One round of the loop at characters that are not white space.\<close>

lemma doCompare_round:
  assumes "char_at left i = Some c" "char_at right j = Some d" "\<not> isWhitespace c" "\<not> isWhitespace d"
    "compare_numbers left i right j c d = Some r"
  shows "doCompare left i right j ic =
    (if r \<noteq> 0 then Some r else if c = 0 \<and> d = 0 then Some 0
     else if folded ic c = folded ic d then doCompare left (Suc i) right (Suc j) ic
     else Some (three_way (sint (folded ic c)) (sint (folded ic d))))"
  using assms by (subst doCompare.simps) (simp add: three_way_def Let_def sint_eq [symmetric] order.asym)

lemma doCompare_step:
  assumes "char_at left i = Some c" "char_at right j = Some d" "\<not> isWhitespace c" "\<not> isWhitespace d"
    and token: "isDigit c \<Longrightarrow> isDigit d \<Longrightarrow>
      compare_numbers left i right j c d = Some (three_way (order_token ic c s) (order_token ic d t))"
    and same: "isDigit c \<Longrightarrow> isDigit d \<Longrightarrow> order_token ic c s = order_token ic d t \<Longrightarrow> c = d"
    and rest: "order_token ic c s = order_token ic d t \<Longrightarrow> \<not> (c = 0 \<and> d = 0) \<Longrightarrow>
      doCompare left (Suc i) right (Suc j) ic = Some (three_way k l)"
    and ends: "c = 0 \<Longrightarrow> d = 0 \<Longrightarrow> k = l"
  shows "doCompare left i right j ic = Some (three_way (order_token ic c s # k) (order_token ic d t # l))"
proof (cases "isDigit c \<and> isDigit d")
  case True
  then have "\<not> (c = 0 \<and> d = 0)"
    by auto
  then show ?thesis
    using doCompare_round [OF assms(1-4) token [OF conjunct1 [OF True] conjunct2 [OF True]], of ic] same rest True
    by (auto simp: three_way_Cons)
next
  case False
  then have none: "compare_numbers left i right j c d = Some 0"
    by (auto simp: compare_numbers_def)
  have "order_token ic c s = order_token ic d t \<longleftrightarrow> folded ic c = folded ic d"
    using order_token_char [OF False, of ic s t] by (metis three_way_simps(1) signed_word_eqI)
  then show ?thesis
    using doCompare_round [OF assms(1-4) none, of ic] rest ends order_token_char [OF False, of ic s t]
    by (auto simp: three_way_Cons)
qed

lemma folded_nonzero: "folded ic c = 0 \<longleftrightarrow> c = 0"
  unfolding sint_eq [symmetric] by (auto simp: folded_def sint_toUpperCase)

lemma order_token_not_end:
  assumes "d \<noteq> 0"
  shows "order_token ic d t \<noteq> (0, 0, 0, [])" "(0, 0, 0, []) \<noteq> order_token ic d t"
  using order_token_head [of ic d t] assms sint_eq [of "folded ic d" 0]
  by (metis fst_conv folded_nonzero signed_0 zero_neq_numeral)+

lemma doCompare_natural:
  assumes "plain x" "plain y"
  shows "doCompare (p @ x) (length p) (q @ y) (length q) ic = Some (three_way (natural_key ic x) (natural_key ic y))"
  using assms
proof (induction x arbitrary: p q y)
  case Nil
  show ?case
  proof (cases y)
    case Nil
    show ?thesis
      using doCompare_step [of p "length p" 0 q "length q" 0 ic "[]" "[]" "[]" "[]"] Nil
      by (simp add: order_token_end)
  next
    case (Cons d y')
    then show ?thesis
      using doCompare_step [of p "length p" 0 "q @ y" "length q" d ic "[]" y "[]" "natural_key ic y'"] Nil.prems
      by (simp add: order_token_end order_token_not_end)
  qed
next
  case (Cons c x)
  show ?case
  proof (cases y)
    case Nil
    then show ?thesis
      using doCompare_step [of "p @ c # x" "length p" c q "length q" 0 ic "c # x" "[]" "natural_key ic x" "[]"] Cons.prems
      by (simp add: order_token_end order_token_not_end)
  next
    case (Cons d y')
    then show ?thesis
      using doCompare_step [of "p @ c # x" "length p" c "q @ y" "length q" d ic "c # x" y "natural_key ic x" "natural_key ic y'"]
        Cons.prems Cons.IH [of y' "p @ [c]" "q @ [d]"] compare_numbers_token [of c d p x q y' ic] order_token_digit [of c d ic x y']
      by simp
  qed
qed

lemma folded_twice: "folded False c = c"
  by (simp add: folded_def)

lemma takeWhile_folded: "takeWhile isDigit (map (folded ic) s) = takeWhile isDigit s"
  by (induction s) (auto simp: isDigit_folded fold_digit)

lemma folded_48: "folded ic c = 48 \<longleftrightarrow> c = 48"
  using fold_digit [of c ic] fold_digit [of 48 ic] isDigit_folded [of ic c] by (auto simp: isDigit_def)

lemma natural_key_folded: "natural_key ic s = natural_key False (map (folded ic) s)"
proof (induction s)
  case (Cons c s)
  have "order_token ic c (c # s) = order_token False (folded ic c) (map (folded ic) (c # s))"
    unfolding order_token_def takeWhile_folded by (simp add: isDigit_folded folded_48 folded_twice)
  then show ?case
    using Cons by simp
qed simp

lemma order_token_inj:
  "order_token False c (c # x) = order_token False d (d # y) \<Longrightarrow> c = d"
  by (cases "isDigit c \<and> isDigit d")
    (metis order_token_digit, metis order_token_char three_way_simps(1) sint_eq folded_twice)

lemma natural_key_inj:
  "plain x \<Longrightarrow> plain y \<Longrightarrow> natural_key False x = natural_key False y \<Longrightarrow> x = y"
proof (induction x arbitrary: y)
  case Nil
  then show ?case
    by (cases y) (auto simp: order_token_not_end)
next
  case (Cons c x)
  show ?case
  proof (cases y)
    case Nil
    then show ?thesis
      using Cons.prems by (simp add: order_token_not_end)
  next
    case (Cons d y')
    then show ?thesis
      using Cons.prems Cons.IH [of y'] order_token_inj [of c x d y'] by simp
  qed
qed

lemma isWhitespace_sint: "isWhitespace c \<longleftrightarrow> sint c \<in> {9, 10, 12, 13, 32}"
  using sint_eq [of c 9] sint_eq [of c 10] sint_eq [of c 12] sint_eq [of c 13] sint_eq [of c 32]
  by (auto simp: isWhitespace_def)

lemma isWhitespace_folded: "isWhitespace (folded ic c) \<longleftrightarrow> isWhitespace c"
  unfolding isWhitespace_sint by (auto simp: folded_def sint_toUpperCase)

lemma folded_plain: "plain s \<Longrightarrow> plain (map (folded ic) s)"
  by (simp add: plain_def folded_nonzero isWhitespace_folded)

lemma natural_key_eq:
  assumes "plain x" "plain y"
  shows "natural_key ic x = natural_key ic y \<longleftrightarrow> map (folded ic) x = map (folded ic) y"
  using natural_key_inj [OF folded_plain [OF assms(1)] folded_plain [OF assms(2)]] natural_key_folded by metis

lemma compare_natural:
  assumes "plain x" "plain y"
  shows "compareIgnoreCase x y = Some (three_way (natural_key True x) (natural_key True y))"
    and "compare x y = Some (three_way (natural_key False x) (natural_key False y))"
  using doCompare_natural [OF assms, of "[]" "[]"] by (simp_all add: compareIgnoreCase_def compare_def)

text \<open>
  C29. On strings without white space and zero bytes the comparison that ignores case is a total order
  of the strings up to case: it is the order of the reference keys, and it finds two strings equal
  exactly if they are the same in upper case. The maps of the client whose keys are compared by it are
  therefore well defined for such names.
\<close>

theorem compare_ignore_case_order:
  assumes "plain x" "plain y"
  shows "compareIgnoreCase x y = Some (three_way (natural_key True x) (natural_key True y)) \<and>
    (compareIgnoreCase x y = Some 0 \<longleftrightarrow> map toUpperCase x = map toUpperCase y)"
proof -
  have "folded True = toUpperCase"
    by (simp add: folded_def fun_eq_iff)
  then show ?thesis
    using compare_natural [OF assms] natural_key_eq [OF assms, of True] by simp
qed

theorem compare_ignore_case_order_witness:
  "compareIgnoreCase [73, 68, 58, 57] [105, 100, 58, 49, 48] = Some (- 1) \<and>
   compareIgnoreCase [73, 68, 58, 57] [105, 100, 58, 57] = Some 0"
proof -
  have p: "plain [73, 68, 58, 57]" "plain [105, 100, 58, 49, 48]" "plain [105, 100, 58, 57]"
    by (simp_all add: isWhitespace_def)
  have "three_way (natural_key True [73, 68, 58, 57]) (natural_key True [105, 100, 58, 49, 48]) = - 1"
    by code_simp
  then have less: "compareIgnoreCase [73, 68, 58, 57] [105, 100, 58, 49, 48] = Some (- 1)"
    using conjunct1 [OF compare_ignore_case_order [OF p(1,2)]] by metis
  have "map toUpperCase [73, 68, 58, 57] = map toUpperCase [105, 100, 58, 57]"
    by code_simp
  then show ?thesis
    using less conjunct2 [OF compare_ignore_case_order [OF p(1,3)]] by metis
qed

text \<open>
  With white space the comparison is not an order: the loop that skips the white space of the
  string on the right goes on in the string on the left. A string and the same string behind a space
  compare as equal one way round and as different the other way round, and the comparison of the empty
  string with two spaces reads behind the end of the empty string.
\<close>

theorem compare_whitespace_not_symmetric:
  "compareIgnoreCase [32, 97] [97] = Some 0 \<and> compareIgnoreCase [97] [32, 97] = Some 1 \<and>
   compareIgnoreCase [] [32, 32] = None"
  by code_simp

end
