(* ===== verification/ConnectionAudit.thy ===== *)
theory ConnectionAudit
  imports MessageAudit StlMap StringUtils
begin

text \<open>
  \<open>activemq/core/ConnectionAudit.cpp\<close>: the audits of a connection, one per queue name and one per
  consumer (\<open>Dispatcher*\<close>) for topics.  An audit is reachable only through its table entry, so calls
  through \<open>Pointer<ActiveMQMessageAudit>\<close> are updates of the entry.  Each operation runs under the
  mutex and is one step.
\<close>

section \<open>The object and its operations\<close>

text \<open>
  \<open>destinations\<close> is an \<open>std::map\<close> ordered by \<open>ActiveMQDestination::compareTo\<close>, that is, by
  \<open>StringUtils::compare\<close> of the physical names as C strings, which end at the first NUL. A comparison that is
  undefined counts as not less. The test for the same object in \<open>compareTo\<close> is left out: a string compared with
  itself gives 0 (\<open>compare_same\<close> below). \<open>dispatchers\<close> is a linked hash map in insertion order keyed by
  the address of the consumer, whose hash is a parameter.
\<close>

definition dest_key :: "destination \<Rightarrow> string" where
  "dest_key d = takeWhile (\<lambda>c. c \<noteq> CHR 0x00) (physicalName d)"

definition name_bytes :: "string \<Rightarrow> bytes" where
  "name_bytes s = map of_char s"

definition destination_compareTo :: "destination \<Rightarrow> destination \<Rightarrow> int option" where
  "destination_compareTo a b = compare (name_bytes (dest_key a)) (name_bytes (dest_key b))"

definition destination_less :: "destination \<Rightarrow> destination \<Rightarrow> bool" where
  "destination_less a b = (case destination_compareTo a b of Some c \<Rightarrow> c < 0 | None \<Rightarrow> False)"

record 'd connection_audit =
  destinations :: "(destination, message_audit) stl_map"
  dispatchers :: "('d, message_audit) linked_hash_map"
  checkForDuplicates :: bool
  caDepth :: int
  caMaximumProducerNumber :: int

definition new_ConnectionAudit :: "int \<Rightarrow> int \<Rightarrow> 'd connection_audit" where
  "new_ConnectionAudit depth maxProducers =
     \<lparr>destinations = [],
      dispatchers = hash_map.extend (init_table 1000 3 2) \<lparr>accessOrder = False, chain = []\<rparr>,
      checkForDuplicates = True, caDepth = depth, caMaximumProducerNumber = maxProducers\<rparr>"

definition setCheckForDuplicates :: "bool \<Rightarrow> 'd connection_audit \<Rightarrow> 'd connection_audit" where
  "setCheckForDuplicates v ca = ca\<lparr>checkForDuplicates := v\<rparr>"

definition removeDispatcher :: "('d \<Rightarrow> int) \<Rightarrow> 'd \<Rightarrow> 'd connection_audit \<Rightarrow> 'd connection_audit" where
  "removeDispatcher hashD d ca =
     (case lhm_remove hashD d (dispatchers ca) of
        Inl _ \<Rightarrow> ca
      | Inr (_, m) \<Rightarrow> ca\<lparr>dispatchers := m\<rparr>)"

definition ca_isDuplicate ::
    "('d \<Rightarrow> int) \<Rightarrow> 'd \<Rightarrow> message option \<Rightarrow> 'd connection_audit \<Rightarrow> bool result \<times> 'd connection_audit" where
  "ca_isDuplicate hashD dispatcher msg ca =
     (case msg of
        None \<Rightarrow> (Inr False, ca)
      | Some m \<Rightarrow>
          if \<not> checkForDuplicates ca then (Inr False, ca)
          else case messageDestination m of
            None \<Rightarrow> (Inr False, ca)
          | Some dest \<Rightarrow>
              if isQueue dest then
                (case sm_get destination_less dest (destinations ca) of
                   Inr audit \<Rightarrow>
                     let (r, audit') = isDuplicate (messageId m) audit
                     in (r, ca\<lparr>destinations := map_assign destination_less dest audit' (destinations ca)\<rparr>)
                 | Inl _ \<Rightarrow>
                     let audit = new_MessageAudit (caDepth ca) (caMaximumProducerNumber ca);
                         ds = snd (sm_put destination_less dest audit (destinations ca));
                         (r, audit') = isDuplicate (messageId m) audit
                     in (r, ca\<lparr>destinations := map_assign destination_less dest audit' ds\<rparr>))
              else
                case lhm_get hashD dispatcher (dispatchers ca) of
                  (Inr audit, d1) \<Rightarrow>
                    let (r, audit') = isDuplicate (messageId m) audit
                    in (r, ca\<lparr>dispatchers := set_entry_value dispatcher audit' d1\<rparr>)
                | (Inl _, d1) \<Rightarrow>
                    let audit = new_MessageAudit (caDepth ca) (caMaximumProducerNumber ca) in
                    (case lhm_put hashD audit dispatcher audit d1 of
                       Inl e \<Rightarrow> (Inl e, ca\<lparr>dispatchers := d1\<rparr>)
                     | Inr (_, d2) \<Rightarrow>
                         let (r, audit') = isDuplicate (messageId m) audit
                         in (r, ca\<lparr>dispatchers := set_entry_value dispatcher audit' d2\<rparr>)))"

definition ca_rollbackDuplicate ::
    "('d \<Rightarrow> int) \<Rightarrow> 'd \<Rightarrow> message option \<Rightarrow> 'd connection_audit \<Rightarrow> unit result \<times> 'd connection_audit" where
  "ca_rollbackDuplicate hashD dispatcher msg ca =
     (case msg of
        None \<Rightarrow> (Inr (), ca)
      | Some m \<Rightarrow>
          if \<not> checkForDuplicates ca then (Inr (), ca)
          else case messageDestination m of
            None \<Rightarrow> (Inr (), ca)
          | Some dest \<Rightarrow>
              if isQueue dest then
                (case sm_get destination_less dest (destinations ca) of
                   Inl _ \<Rightarrow> (Inr (), ca)
                 | Inr audit \<Rightarrow>
                     let (r, audit') = rollback (messageId m) audit
                     in (r, ca\<lparr>destinations := map_assign destination_less dest audit' (destinations ca)\<rparr>))
              else
                case lhm_get hashD dispatcher (dispatchers ca) of
                  (Inr audit, d1) \<Rightarrow>
                    let (r, audit') = rollback (messageId m) audit
                    in (r, ca\<lparr>dispatchers := set_entry_value dispatcher audit' d1\<rparr>)
                | (Inl _, d1) \<Rightarrow> (Inr (), ca\<lparr>dispatchers := d1\<rparr>))"

section \<open>Comparing destinations\<close>

lemma skip_same: "skip_whitespace s i c = Some (c', i') \<Longrightarrow> char_at s i = Some c \<Longrightarrow> char_at s i' = Some c'"
proof (induction s i c rule: skip_whitespace.induct)
  case (1 s i c)
  then show ?case
    by (subst (asm) (2) skip_whitespace.simps) (auto split: if_splits option.splits)
qed

lemma skip_total: "char_at s i = Some c \<Longrightarrow> \<exists>c' i'. skip_whitespace s i c = Some (c', i')"
proof (induction s i c rule: skip_whitespace.induct)
  case (1 s i c)
  have "\<exists>c'. char_at s (Suc i) = Some c'" if "isWhitespace c"
    using that 1(2) by (auto simp: char_at_def split: if_splits)
  then show ?case
    using 1 by (subst skip_whitespace.simps) (auto split: option.splits)
qed

lemma compare_numbers_same:
  assumes "i \<le> length s"
  shows "compareLeft s i s i = Some 0" "compareRight s i s i 0 = Some 0"
  using compareLeft_numbers [of "take i s" "drop i s" "take i s" "drop i s"]
    compareRight_numbers [of "take i s" "drop i s" "take i s" "drop i s" 0] assms by (simp_all add: Let_def)

lemma doCompare_same: "i \<le> length s \<Longrightarrow> doCompare s i s i ic = Some 0"
proof (induction "length s - i" arbitrary: i rule: less_induct)
  case less
  obtain c where c: "char_at s i = Some c" using less.prems by (cases "i = length s") (auto simp: char_at_def)
  obtain c' j where j: "skip_whitespace s i c = Some (c', j)" using skip_total [OF c] by blast
  have cj: "char_at s j = Some c'" "i \<le> j" using skip_same [OF j c] skip_whitespace_grows [OF j] by simp_all
  then have "j \<le> length s" by (auto simp: char_at_def split: if_splits)
  moreover from this have "compare_numbers s j s j c' c' = Some 0" by (simp add: compare_numbers_def compare_numbers_same)
  moreover have "doCompare s (Suc j) s (Suc j) ic = Some 0" if "c' \<noteq> 0"
    using that cj less.hyps [of "Suc j"] by (auto simp: char_at_def split: if_splits)
  ultimately show ?case using c j by (subst doCompare.simps) (simp add: Let_def)
qed

lemma compare_same: "compare s s = Some 0"
  by (simp add: compare_def doCompare_same)

lemma destination_less_same: "dest_key a = dest_key b \<Longrightarrow> \<not> destination_less a b"
  by (simp add: destination_less_def destination_compareTo_def compare_same)

text \<open>What the map is asked depends on the name only.\<close>

lemma destination_less_cong:
  "dest_key a = dest_key b \<Longrightarrow> destination_less a = destination_less b"
  "dest_key a = dest_key b \<Longrightarrow> destination_less c a = destination_less c b"
  by (simp_all add: destination_less_def destination_compareTo_def fun_eq_iff)

lemma find_cong: "dest_key a = dest_key b \<Longrightarrow> map_find destination_less a m = map_find destination_less b m"
  by (induction m) (auto simp: destination_less_cong(1) [of a b] destination_less_cong(2) [of a b])

lemma assign_twice: "\<not> lt k k \<Longrightarrow> map_assign lt k w (map_assign lt k v m) = map_assign lt k w m"
  by (induction m) auto

lemma find_assign: "\<not> lt k k \<Longrightarrow> map_find lt k (map_assign lt k v m) = Some v"
  by (induction m) auto

text \<open>Names without white space are distinguished and ordered.\<close>

lemma unat_of_char: "unat (of_char c :: byte) = of_char c"
proof -
  have "of_char c = (of_nat (of_char c) :: byte)" by (simp add: of_char_def)
  then have "unat (of_char c :: byte) = of_char c mod 2 ^ LENGTH(8)" by (metis unat_of_nat)
  then show ?thesis by simp
qed

lemma name_bytes_inj: "name_bytes s = name_bytes t \<longleftrightarrow> s = t"
proof -
  have "inj (of_char :: char \<Rightarrow> byte)" by (metis injI unat_of_char char_of_char)
  then show ?thesis by (simp add: name_bytes_def inj_map_eq_map)
qed

definition plain_name :: "destination \<Rightarrow> bool" where
  "plain_name d \<longleftrightarrow> plain (name_bytes (dest_key d))"

definition name_order :: "destination \<Rightarrow> order_key" where
  "name_order d = natural_key False (name_bytes (dest_key d))"

interpretation audit_keys: ordered_keys destination_less name_order plain_name
proof
  fix a b
  assume "plain_name a" "plain_name b"
  then show "destination_less a b \<longleftrightarrow> name_order a < name_order b"
    using doCompare_natural [of "name_bytes (dest_key a)" "name_bytes (dest_key b)" "[]" "[]" False]
    by (simp add: destination_less_def destination_compareTo_def compare_def name_order_def plain_name_def)
qed

lemma name_order_inj: "plain_name a \<Longrightarrow> plain_name b \<Longrightarrow> name_order a = name_order b \<longleftrightarrow> dest_key a = dest_key b"
  using natural_key_inj [of "name_bytes (dest_key a)" "name_bytes (dest_key b)"]
  by (auto simp: plain_name_def name_order_def name_bytes_inj)

definition queue_named :: "string \<Rightarrow> destination" where
  "queue_named q = \<lparr>physicalName = q, destinationType = QUEUE\<rparr>"

definition queue_audit :: "string \<Rightarrow> 'd connection_audit \<Rightarrow> message_audit option" where
  "queue_audit q ca = map_find destination_less (queue_named q) (destinations ca)"

lemma dest_key_queue_named: "dest_key (queue_named (dest_key d)) = dest_key d"
  by (simp add: dest_key_def queue_named_def takeWhile_takeWhile)

lemma find_queue_audit: "map_find destination_less dest (destinations ca) = queue_audit (dest_key dest) ca"
  unfolding queue_audit_def by (rule find_cong) (simp add: dest_key_queue_named)

text \<open>The calls for a queue, in terms of the audit of its name.\<close>

definition set_queue_audit :: "destination \<Rightarrow> message_audit \<Rightarrow> 'd connection_audit \<Rightarrow> 'd connection_audit" where
  "set_queue_audit dest a ca = ca\<lparr>destinations := map_assign destination_less dest a (destinations ca)\<rparr>"

lemma queue_audit_set: "queue_audit (dest_key dest) (set_queue_audit dest a ca) = Some a"
  unfolding find_queue_audit [symmetric] set_queue_audit_def by (simp add: find_assign destination_less_same)

lemma queue_audit_same [simp]:
  "queue_audit q (ca\<lparr>dispatchers := m\<rparr>) = queue_audit q ca" "queue_audit q (ca\<lparr>checkForDuplicates := v\<rparr>) = queue_audit q ca"
  by (simp_all add: queue_audit_def)

lemma queue_isDuplicate:
  assumes "checkForDuplicates ca" "messageDestination m = Some dest" "isQueue dest"
  shows "ca_isDuplicate hashD d (Some m) ca =
    (let (r, a) = isDuplicate (messageId m) (case queue_audit (dest_key dest) ca of
        None \<Rightarrow> new_MessageAudit (caDepth ca) (caMaximumProducerNumber ca) | Some a \<Rightarrow> a)
     in (r, set_queue_audit dest a ca))"
  using assms by (cases "queue_audit (dest_key dest) ca")
    (simp_all add: ca_isDuplicate_def sm_get_def find_queue_audit set_queue_audit_def Let_def split_def
      assign_twice destination_less_same)

lemma queue_rollback:
  assumes "checkForDuplicates ca" "messageDestination m = Some dest" "isQueue dest"
  shows "ca_rollbackDuplicate hashD d (Some m) ca = (case queue_audit (dest_key dest) ca of
      None \<Rightarrow> (Inr (), ca)
    | Some a \<Rightarrow> let (r, a') = rollback (messageId m) a in (r, set_queue_audit dest a' ca))"
  using assms by (cases "queue_audit (dest_key dest) ca")
    (simp_all add: ca_rollbackDuplicate_def sm_get_def find_queue_audit set_queue_audit_def)

section \<open>Specification of the connection audit\<close>

text \<open>
  A connection audit is a table of message audits, one per queue name and one per consumer for the
  topics; a call uses the audit that its consumer and message select.
\<close>

datatype 'd ca_call = CADuplicate 'd "message option" | CARollback 'd "message option" | CARemove 'd | CACheck bool

datatype ca_reply = CAAnswer "bool result" | CADone "unit result"

fun ca_step :: "('d \<Rightarrow> int) \<Rightarrow> 'd ca_call \<Rightarrow> 'd connection_audit \<Rightarrow> ca_reply \<times> 'd connection_audit" where
  "ca_step hashD (CADuplicate d msg) ca = (let (r, ca') = ca_isDuplicate hashD d msg ca in (CAAnswer r, ca'))"
| "ca_step hashD (CARollback d msg) ca = (let (r, ca') = ca_rollbackDuplicate hashD d msg ca in (CADone r, ca'))"
| "ca_step hashD (CARemove d) ca = (CADone (Inr ()), removeDispatcher hashD d ca)"
| "ca_step hashD (CACheck v) ca = (CADone (Inr ()), setCheckForDuplicates v ca)"

fun ca_run :: "('d \<Rightarrow> int) \<Rightarrow> 'd ca_call list \<Rightarrow> 'd connection_audit \<Rightarrow> ca_reply list \<times> 'd connection_audit" where
  "ca_run hashD [] ca = ([], ca)"
| "ca_run hashD (c # cs) ca = (let (r, ca1) = ca_step hashD c ca; (rs, ca2) = ca_run hashD cs ca1 in (r # rs, ca2))"

datatype 'd audit_slot = Consumer 'd | QueueName string

definition slot_of :: "'d \<Rightarrow> message option \<Rightarrow> ('d audit_slot \<times> message_id option) option" where
  "slot_of d msg = Option.bind msg (\<lambda>m. map_option
     (\<lambda>dest. (if isQueue dest then QueueName (dest_key dest) else Consumer d, messageId m)) (messageDestination m))"

record 'd audit_table =
  slots :: "'d audit_slot \<Rightarrow> message_audit option"
  auditing :: bool

fun table_step :: "message_audit \<Rightarrow> 'd ca_call \<Rightarrow> 'd audit_table \<Rightarrow> ca_reply \<times> 'd audit_table" where
  "table_step fresh (CADuplicate d msg) t =
     (case (if auditing t then slot_of d msg else None) of
        None \<Rightarrow> (CAAnswer (Inr False), t)
      | Some (s, mid) \<Rightarrow>
          let (r, a) = isDuplicate mid (case slots t s of None \<Rightarrow> fresh | Some a \<Rightarrow> a)
          in (CAAnswer r, t\<lparr>slots := (slots t)(s \<mapsto> a)\<rparr>))"
| "table_step fresh (CARollback d msg) t =
     (case (if auditing t then slot_of d msg else None) of
        None \<Rightarrow> (CADone (Inr ()), t)
      | Some (s, mid) \<Rightarrow>
          (case slots t s of
             None \<Rightarrow> (CADone (Inr ()), t)
           | Some a \<Rightarrow> let (r, a') = rollback mid a in (CADone r, t\<lparr>slots := (slots t)(s \<mapsto> a')\<rparr>)))"
| "table_step fresh (CARemove d) t = (CADone (Inr ()), t\<lparr>slots := (slots t)(Consumer d := None)\<rparr>)"
| "table_step fresh (CACheck v) t = (CADone (Inr ()), t\<lparr>auditing := v\<rparr>)"

fun table_run :: "message_audit \<Rightarrow> 'd ca_call list \<Rightarrow> 'd audit_table \<Rightarrow> ca_reply list \<times> 'd audit_table" where
  "table_run fresh [] t = ([], t)"
| "table_run fresh (c # cs) t = (let (r, t1) = table_step fresh c t; (rs, t2) = table_run fresh cs t1 in (r # rs, t2))"

definition ca_view :: "'d connection_audit \<Rightarrow> 'd audit_table" where
  "ca_view ca = \<lparr>slots = (\<lambda>s. case s of Consumer d \<Rightarrow> hm_lookup (dispatchers ca) d
       | QueueName q \<Rightarrow> if plain (name_bytes q) then queue_audit q ca else None), auditing = checkForDuplicates ca\<rparr>"

definition ca_ok :: "('d \<Rightarrow> int) \<Rightarrow> int \<Rightarrow> message_audit \<Rightarrow> 'd connection_audit \<Rightarrow> bool" where
  "ca_ok hashD n fresh ca \<longleftrightarrow> audit_keys.keyed (destinations ca) \<and> grown hashD n (dispatchers ca) \<and> lhm_inv hashD (dispatchers ca) \<and>
     \<not> accessOrder (dispatchers ca) \<and> fresh = new_MessageAudit (caDepth ca) (caMaximumProducerNumber ca)"

lemma insertion_get:
  assumes "lhm_inv hf m" "\<not> accessOrder m"
  shows "lhm_get hf k m = (of_option NoSuchElementException (hm_lookup m k), m)"
proof -
  let ?r = "findKeyEntry k (bucket_index (hf k) (length (elementData m))) (hf k) m"
  have "hm_lookup m k = map_option entryValue ?r"
    using assms(1) findKeyEntry_lookup [of hf m k] by (simp add: lhm_inv_def)
  then show ?thesis using assms(2) by (cases ?r) (auto simp: lhm_get_def getLinkedEntry_def Let_def)
qed

lemma grown_write:
  assumes "grown hf n m" "lhm_inv hf m" "hm_lookup m k = Some w"
  shows "grown hf n (set_entry_value k v m)"
  using linked_write [OF assms(2,3), of v] assms(3)
  by (intro grown_shrink [OF assms(1)]) (auto simp: lhm_inv_def set_entry_value_def)

lemma of_char_zero: "of_char c = (0 :: byte) \<longleftrightarrow> c = CHR 0x00"
proof -
  have "of_char (CHR 0x00) = (0 :: nat)" by (simp add: of_char_def)
  then show ?thesis by (metis unat_of_char unat_eq_zero of_char_eq_iff)
qed

lemma plain_dest_key: "plain (name_bytes q) \<Longrightarrow> dest_key (queue_named q) = q"
  by (auto simp: plain_def name_bytes_def dest_key_def queue_named_def of_char_zero takeWhile_eq_all_conv)

lemma queue_audit_other:
  assumes "audit_keys.keyed (destinations ca)" "plain_name dest" "plain (name_bytes q)" "q \<noteq> dest_key dest"
  shows "queue_audit q (set_queue_audit dest a ca) = queue_audit q ca"
proof -
  have q: "plain_name (queue_named q)" "name_order (queue_named q) \<noteq> name_order dest"
    using assms(2-4) name_order_inj [of "queue_named q" dest] by (simp_all add: plain_name_def plain_dest_key)
  then show ?thesis
    using assms(1,2) audit_keys.keyed_assign [OF assms(1,2)]
    by (simp add: queue_audit_def set_queue_audit_def audit_keys.find_lookup audit_keys.lookup_assign)
qed

lemma ca_view_write_queue:
  assumes "ca_ok hashD n fresh ca" "plain_name dest"
  shows "ca_view (set_queue_audit dest a ca) = (ca_view ca)\<lparr>slots := (slots (ca_view ca))(QueueName (dest_key dest) \<mapsto> a)\<rparr>"
    and "ca_ok hashD n fresh (set_queue_audit dest a ca)"
proof -
  have keyed: "audit_keys.keyed (destinations ca)" using assms(1) by (simp add: ca_ok_def)
  have "slots (ca_view (set_queue_audit dest a ca)) s = ((slots (ca_view ca))(QueueName (dest_key dest) \<mapsto> a)) s" for s
    using assms(2) queue_audit_set [of dest a ca] queue_audit_other [OF keyed assms(2), of _ a]
    by (cases s) (auto simp: ca_view_def plain_name_def set_queue_audit_def)
  then show "ca_view (set_queue_audit dest a ca) = (ca_view ca)\<lparr>slots := (slots (ca_view ca))(QueueName (dest_key dest) \<mapsto> a)\<rparr>"
    by (simp add: ca_view_def set_queue_audit_def fun_eq_iff)
  show "ca_ok hashD n fresh (set_queue_audit dest a ca)"
    using assms audit_keys.keyed_assign [OF keyed assms(2)] by (simp add: ca_ok_def set_queue_audit_def)
qed

lemma ca_view_write_consumer:
  "hm_lookup m = (hm_lookup (dispatchers ca))(d := w) \<Longrightarrow>
    ca_view (ca\<lparr>dispatchers := m\<rparr>) = (ca_view ca)\<lparr>slots := (slots (ca_view ca))(Consumer d := w)\<rparr>"
  by (auto simp: ca_view_def fun_eq_iff split: audit_slot.splits)

lemma ca_slots: "slots (ca_view ca) (QueueName q) = (if plain (name_bytes q) then queue_audit q ca else None)"
    "slots (ca_view ca) (Consumer d) = hm_lookup (dispatchers ca) d" "auditing (ca_view ca) = checkForDuplicates ca"
  by (simp_all add: ca_view_def)

lemma consumer_write:
  assumes ok: "ca_ok hashD n fresh ca" and m: "grown hashD n m" "lhm_inv hashD m" "\<not> accessOrder m"
    "hm_lookup m = (hm_lookup (dispatchers ca))(d \<mapsto> w)"
  shows "ca_ok hashD n fresh (ca\<lparr>dispatchers := set_entry_value d a m\<rparr>)"
    "ca_view (ca\<lparr>dispatchers := set_entry_value d a m\<rparr>) =
      (ca_view ca)\<lparr>slots := (slots (ca_view ca))(Consumer d \<mapsto> a)\<rparr>"
proof -
  have d: "hm_lookup m d = Some w" using m(4) by simp
  note w = linked_write [OF m(2) d, of a]
  show "ca_ok hashD n fresh (ca\<lparr>dispatchers := set_entry_value d a m\<rparr>)"
    using ok w grown_write [OF m(1,2) d, of a] m(3) by (simp add: ca_ok_def, simp add: set_entry_value_def)
  show "ca_view (ca\<lparr>dispatchers := set_entry_value d a m\<rparr>) =
      (ca_view ca)\<lparr>slots := (slots (ca_view ca))(Consumer d \<mapsto> a)\<rparr>"
    by (rule ca_view_write_consumer) (simp add: w(2) m(4))
qed

lemma insertion_put:
  fixes m :: "('k, 'v) linked_hash_map"
  assumes inv: "lhm_inv hf m" and g: "grown hf n m" and n: "n \<le> 2 ^ 26" and acc: "\<not> accessOrder m"
  obtains m' b where "lhm_put hf dflt k v m = Inr (b, m')" "grown hf (n + 1) m'" "lhm_inv hf m'"
    "\<not> accessOrder m'" "hm_lookup m' = (hm_lookup m)(k \<mapsto> v)"
proof -
  obtain m1 where p: "lhm_putImpl hf dflt k v m = (hm_lookup m k \<noteq> None, m1)" "lhm_inv hf m1"
      "hm_lookup m1 = (hm_lookup m)(k \<mapsto> v)" "accessOrder m1 = accessOrder m" "grown hf (n + 1) m1"
    using linked_put [OF inv g n, of dflt k v] by metis
  have "k \<in> set (chain m1)" using p(2,3) by (simp add: lhm_inv_def)
  then obtain eldest ks where "chain m1 = eldest # ks" by (cases "chain m1") auto
  then have "lhm_put hf dflt k v m = Inr (hm_lookup m k \<noteq> None, m1)"
    using p(1) by (simp add: lhm_put_def put_evicting_def)
  then show ?thesis using that p(2-5) acc by metis
qed

lemma ca_ok_Suc: "ca_ok hashD n fresh ca \<Longrightarrow> ca_ok hashD (n + 1) fresh ca"
  using grown_mono [of hashD n _ "n + 1"] by (auto simp: ca_ok_def)

text \<open>The queues that calls name have no white space in their names.\<close>

definition plain_message :: "message option \<Rightarrow> bool" where
  "plain_message msg = (case Option.bind msg messageDestination of None \<Rightarrow> True | Some dest \<Rightarrow> isQueue dest \<longrightarrow> plain_name dest)"

fun plain_names :: "'d ca_call \<Rightarrow> bool" where
  "plain_names (CADuplicate d msg) = plain_message msg"
| "plain_names (CARollback d msg) = plain_message msg"
| "plain_names _ = True"

lemma slot_cases:
  obtains "slot_of d msg = None" "\<And>hf ca. ca_isDuplicate hf d msg ca = (Inr False, ca)"
      "\<And>hf ca. ca_rollbackDuplicate hf d msg ca = (Inr (), ca)"
  | m dest where "msg = Some m" "messageDestination m = Some dest" "isQueue dest"
      "slot_of d msg = Some (QueueName (dest_key dest), messageId m)"
  | m dest where "msg = Some m" "messageDestination m = Some dest" "\<not> isQueue dest"
      "slot_of d msg = Some (Consumer d, messageId m)"
proof (cases msg)
  case None
  then show ?thesis
    using that(1) by (simp add: slot_of_def ca_isDuplicate_def ca_rollbackDuplicate_def)
next
  case (Some m)
  then show ?thesis
    using that by (cases "messageDestination m")
      (auto simp: slot_of_def ca_isDuplicate_def ca_rollbackDuplicate_def)
qed

lemma ca_isDuplicate_refines:
  assumes ok: "ca_ok hashD n fresh ca" and n: "n \<le> 2 ^ 26" and plain: "plain_message msg"
  shows "\<exists>ca'. ca_step hashD (CADuplicate d msg) ca = (fst (table_step fresh (CADuplicate d msg) (ca_view ca)), ca') \<and>
    ca_view ca' = snd (table_step fresh (CADuplicate d msg) (ca_view ca)) \<and> ca_ok hashD (n + 1) fresh ca'"
proof (cases "checkForDuplicates ca")
  case False
  then have "ca_isDuplicate hashD d msg ca = (Inr False, ca)"
    by (simp add: ca_isDuplicate_def split: option.splits)
  then show ?thesis using False ca_ok_Suc [OF ok] by (simp add: ca_slots)
next
  case check: True
  have g: "grown hashD n (dispatchers ca)" and inv: "lhm_inv hashD (dispatchers ca)"
    and acc: "\<not> accessOrder (dispatchers ca)"
    and fresh: "fresh = new_MessageAudit (caDepth ca) (caMaximumProducerNumber ca)"
    using ok by (simp_all add: ca_ok_def)
  show ?thesis
  proof (cases rule: slot_cases [of d msg])
    case 1
    then show ?thesis using check ca_ok_Suc [OF ok] by (simp add: ca_slots)
  next
    case (2 m dest)
    then have p: "plain_name dest" using plain by (simp add: plain_message_def)
    then have "plain (name_bytes (dest_key dest))" by (simp add: plain_name_def)
    then show ?thesis
      using 2 check fresh ca_view_write_queue [OF ca_ok_Suc [OF ok] p] by (simp add: queue_isDuplicate ca_slots Let_def split_def)
  next
    case (3 m dest)
    show ?thesis
    proof (cases "hm_lookup (dispatchers ca) d")
      case (Some a)
      then have "hm_lookup (dispatchers ca) = (hm_lookup (dispatchers ca))(d \<mapsto> a)" by (rule map_upd_triv [symmetric])
      note w = consumer_write [OF ok g inv acc this]
      show ?thesis
        using 3 check Some ca_ok_Suc [OF w(1)] w(2) insertion_get [OF inv acc, of d]
        by (auto simp: ca_isDuplicate_def ca_slots Let_def split_def)
    next
      case None
      obtain m' b where m': "lhm_put hashD fresh d fresh (dispatchers ca) = Inr (b, m')" "grown hashD (n + 1) m'"
        "lhm_inv hashD m'" "\<not> accessOrder m'" "hm_lookup m' = (hm_lookup (dispatchers ca))(d \<mapsto> fresh)"
        using insertion_put [OF inv g n acc] by metis
      from consumer_write [OF ca_ok_Suc [OF ok] m'(2-5)] show ?thesis
        using 3 check None m'(1) fresh insertion_get [OF inv acc, of d]
        by (auto simp: ca_isDuplicate_def ca_slots Let_def split_def)
    qed
  qed
qed

lemma ca_rollback_refines:
  assumes ok: "ca_ok hashD n fresh ca" and plain: "plain_message msg"
  shows "\<exists>ca'. ca_step hashD (CARollback d msg) ca = (fst (table_step fresh (CARollback d msg) (ca_view ca)), ca') \<and>
    ca_view ca' = snd (table_step fresh (CARollback d msg) (ca_view ca)) \<and> ca_ok hashD (n + 1) fresh ca'"
proof (cases "checkForDuplicates ca")
  case False
  then have "ca_rollbackDuplicate hashD d msg ca = (Inr (), ca)"
    by (simp add: ca_rollbackDuplicate_def split: option.splits)
  then show ?thesis using False ca_ok_Suc [OF ok] by (simp add: ca_slots)
next
  case check: True
  have g: "grown hashD n (dispatchers ca)" and inv: "lhm_inv hashD (dispatchers ca)"
    and acc: "\<not> accessOrder (dispatchers ca)"
    using ok by (simp_all add: ca_ok_def)
  show ?thesis
  proof (cases rule: slot_cases [of d msg])
    case 1
    then show ?thesis using check ca_ok_Suc [OF ok] by (simp add: ca_slots)
  next
    case (2 m dest)
    then have p: "plain_name dest" using plain by (simp add: plain_message_def)
    then have "plain (name_bytes (dest_key dest))" by (simp add: plain_name_def)
    then show ?thesis
      using 2 check ca_ok_Suc [OF ok] ca_view_write_queue [OF ca_ok_Suc [OF ok] p]
      by (cases "queue_audit (dest_key dest) ca") (simp_all add: queue_rollback ca_slots Let_def split_def)
  next
    case (3 m dest)
    show ?thesis
    proof (cases "hm_lookup (dispatchers ca) d")
      case (Some a)
      then have "hm_lookup (dispatchers ca) = (hm_lookup (dispatchers ca))(d \<mapsto> a)" by (rule map_upd_triv [symmetric])
      note w = consumer_write [OF ok g inv acc this]
      show ?thesis
        using 3 check Some ca_ok_Suc [OF w(1)] w(2) insertion_get [OF inv acc, of d]
        by (auto simp: ca_rollbackDuplicate_def ca_slots Let_def split_def)
    next
      case None
      then show ?thesis
        using 3 check ca_ok_Suc [OF ok] insertion_get [OF inv acc, of d]
        by (auto simp: ca_rollbackDuplicate_def ca_slots)
    qed
  qed
qed

lemma removeDispatcher_refines:
  assumes ok: "ca_ok hashD n fresh ca"
  shows "ca_ok hashD n fresh (removeDispatcher hashD d ca)"
    "ca_view (removeDispatcher hashD d ca) = (ca_view ca)\<lparr>slots := (slots (ca_view ca))(Consumer d := None)\<rparr>"
proof -
  have g: "grown hashD n (dispatchers ca)" and inv: "lhm_inv hashD (dispatchers ca)"
    using ok by (simp_all add: ca_ok_def)
  have "ca_ok hashD n fresh (removeDispatcher hashD d ca) \<and>
    ca_view (removeDispatcher hashD d ca) = (ca_view ca)\<lparr>slots := (slots (ca_view ca))(Consumer d := None)\<rparr>"
  proof (cases "hm_lookup (dispatchers ca) d")
    case None
    then have "(slots (ca_view ca))(Consumer d := None) = slots (ca_view ca)"
      by (intro fun_upd_idem) (simp add: ca_slots)
    then show ?thesis using None linked_remove(1) [OF inv None] ok by (simp add: removeDispatcher_def)
  next
    case (Some a)
    obtain m' where rm: "lhm_remove hashD d (dispatchers ca) = Inr (a, m')" "lhm_inv hashD m'"
      "hm_lookup m' = (hm_lookup (dispatchers ca))(d := None)" "accessOrder m' = accessOrder (dispatchers ca)"
      "length (elementData m') = length (elementData (dispatchers ca))" "loadNum m' = loadNum (dispatchers ca)"
      "loadExp m' = loadExp (dispatchers ca)"
      using linked_remove(2) [OF inv Some] by blast
    have "grown hashD n m'" using rm(2,3) by (intro grown_shrink [OF g _ rm(5-7)]) (auto simp: lhm_inv_def)
    then show ?thesis
      using rm(1,2,4) ok ca_view_write_consumer [OF rm(3)] by (simp add: removeDispatcher_def ca_ok_def)
  qed
  then show "ca_ok hashD n fresh (removeDispatcher hashD d ca)"
    "ca_view (removeDispatcher hashD d ca) = (ca_view ca)\<lparr>slots := (slots (ca_view ca))(Consumer d := None)\<rparr>"
    by blast+
qed

lemma ca_step_refines:
  assumes ok: "ca_ok hashD n fresh ca" and n: "n \<le> 2 ^ 26" and plain: "plain_names c"
  shows "\<exists>ca'. ca_step hashD c ca = (fst (table_step fresh c (ca_view ca)), ca') \<and>
    ca_view ca' = snd (table_step fresh c (ca_view ca)) \<and> ca_ok hashD (n + 1) fresh ca'"
proof (cases c)
  case (CADuplicate d msg)
  then show ?thesis using ca_isDuplicate_refines [OF ok n] plain by simp
next
  case (CARollback d msg)
  then show ?thesis using ca_rollback_refines [OF ok] plain by simp
next
  case (CARemove d)
  then show ?thesis using removeDispatcher_refines [OF ok, of d] ca_ok_Suc by auto
next
  case (CACheck v)
  moreover have "ca_view (setCheckForDuplicates v ca) = (ca_view ca)\<lparr>auditing := v\<rparr>"
    by (auto simp: setCheckForDuplicates_def ca_view_def fun_eq_iff split: audit_slot.splits)
  moreover have "ca_ok hashD n fresh (setCheckForDuplicates v ca)"
    using ok by (simp add: ca_ok_def setCheckForDuplicates_def)
  ultimately show ?thesis using ca_ok_Suc by auto
qed

lemma ca_run_refines:
  "ca_ok hashD n fresh ca \<Longrightarrow> n + int (length cs) \<le> 2 ^ 26 \<Longrightarrow> \<forall>c \<in> set cs. plain_names c \<Longrightarrow>
    \<exists>ca'. ca_run hashD cs ca = (fst (table_run fresh cs (ca_view ca)), ca') \<and>
      ca_view ca' = snd (table_run fresh cs (ca_view ca))"
proof (induction cs arbitrary: ca n)
  case (Cons c cs)
  have "n \<le> 2 ^ 26" using Cons.prems(2) by simp
  from ca_step_refines [OF Cons.prems(1) this, of c] Cons.prems(3) obtain ca1 where
    ca1: "ca_step hashD c ca = (fst (table_step fresh c (ca_view ca)), ca1)"
      "ca_view ca1 = snd (table_step fresh c (ca_view ca))" "ca_ok hashD (n + 1) fresh ca1" by auto
  have "n + 1 + int (length cs) \<le> 2 ^ 26" using Cons.prems(2) by simp
  from Cons.IH [OF ca1(3) this] Cons.prems(3) ca1(1,2) show ?case by (auto simp: split_def Let_def)
qed simp

definition empty_table :: "'d audit_table" where
  "empty_table = \<lparr>slots = (\<lambda>_. None), auditing = True\<rparr>"

lemma new_ConnectionAudit_ok:
  fixes hashD :: "'d \<Rightarrow> int"
  shows "ca_ok hashD 171 (new_MessageAudit depth maxP) (new_ConnectionAudit depth maxP)"
    "ca_view (new_ConnectionAudit depth maxP :: 'd connection_audit) = empty_table"
proof -
  let ?t = "init_table 1000 3 2 :: ('d, message_audit) hash_map"
  let ?m = "hash_map.extend ?t \<lparr>accessOrder = False, chain = []\<rparr>"
  have t: "table_inv hashD ?t" "hm_lookup ?t = (\<lambda>_. None)" using init_table_inv [where c = 1000] by simp_all
  have "calculateCapacity 1000 = 1024" by (simp add: calculateCapacity_def Let_def wrap32_id)
  then have "grown hashD 171 ?t"
    using t(1) by (simp add: grown_def default_load_def init_table_def computeThreshold_def)
  moreover have "hash_map.truncate ?m = hash_map.truncate ?t" by (simp add: hash_map.defs)
  ultimately have g: "grown hashD 171 ?m" using truncate_grown by metis
  have look: "hm_lookup ?m = (\<lambda>_. None)"
    using t(2) by (simp add: hm_lookup_def hm_entries_def hash_map.defs)
  have fields: "\<not> accessOrder ?m" "chain ?m = []" by (simp_all add: hash_map.defs)
  have "table_inv hashD ?m" using g unfolding grown_def by (rule conjunct1)
  then have "lhm_inv hashD ?m" unfolding lhm_inv_def look fields by simp
  then show "ca_ok hashD 171 (new_MessageAudit depth maxP) (new_ConnectionAudit depth maxP)"
    using g fields by (simp add: ca_ok_def new_ConnectionAudit_def)
  show "ca_view (new_ConnectionAudit depth maxP :: 'd connection_audit) = empty_table"
    using look by (auto simp: ca_view_def new_ConnectionAudit_def empty_table_def queue_audit_def fun_eq_iff split: audit_slot.splits)
qed

section \<open>Properties of the connection audit\<close>

text \<open>
  C18.  A connection audit is a table of independent message audits: for every sequence of at most \<open>2 ^ 25\<close> calls
  on a new one, in which no queue has white space in its name, \<open>isDuplicate\<close> and \<open>rollbackDuplicate\<close> behave as
  the message audit of the queue's name, up to the first NUL, for a queue, and of the consumer, for a topic;
  \<open>removeDispatcher\<close> forgets exactly the consumer's audit, and \<open>setCheckForDuplicates\<close> turns the checks off and
  on. Queues whose names differ in white space may share an audit.
\<close>

theorem connection_audit_refines_table:
  assumes "length cs \<le> 2 ^ 25" and "\<forall>c \<in> set cs. plain_names c"
  shows "\<exists>ca. ca_run hashD cs (new_ConnectionAudit depth maxP) =
      (fst (table_run (new_MessageAudit depth maxP) cs empty_table), ca) \<and>
    ca_view ca = snd (table_run (new_MessageAudit depth maxP) cs empty_table)"
  using ca_run_refines [OF new_ConnectionAudit_ok(1), of cs hashD depth maxP] assms
  by (simp add: new_ConnectionAudit_ok(2))

theorem connection_audit_refines_table_witness:
  fixes msg :: "destination_type \<Rightarrow> message option"
  defines "msg \<equiv> \<lambda>t. Some (newMessage\<lparr>messageDestination := Some \<lparr>physicalName = ''a'', destinationType = t\<rparr>\<rparr>)"
  shows "\<exists>ca. ca_run (\<lambda>d. d) [CADuplicate (1::int) (msg TOPIC), CARemove 1, CADuplicate 2 (msg QUEUE)]
      (new_ConnectionAudit 2048 64) = ([CAAnswer (Inr False), CADone (Inr ()), CAAnswer (Inr False)], ca) \<and>
    queue_audit ''a'' ca \<noteq> None \<and> hm_lookup (dispatchers ca) 1 = None"
proof -
  let ?cs = "[CADuplicate (1::int) (msg TOPIC), CARemove 1, CADuplicate 2 (msg QUEUE)]"
  have a: "plain (name_bytes ''a'')" by (simp add: name_bytes_def isWhitespace_def of_char_def)
  then have "\<forall>c \<in> set ?cs. plain_names c"
    by (simp add: msg_def plain_message_def plain_name_def dest_key_def)
  then obtain ca where ca: "ca_run (\<lambda>d. d) ?cs (new_ConnectionAudit 2048 64) = ([CAAnswer (Inr False), CADone (Inr ()), CAAnswer (Inr False)], ca)"
    "slots (ca_view ca) (QueueName ''a'') \<noteq> None" "slots (ca_view ca) (Consumer 1) = None"
    using connection_audit_refines_table [of ?cs "\<lambda>d. d" 2048 64]
    by (auto simp: msg_def newMessage_def slot_of_def isQueue_def isTopic_def empty_table_def isDuplicate_def dest_key_def)
  then show ?thesis unfolding ca_slots using a by auto
qed

text \<open>
  White space: \<open>compare\<close> gives 0 for \<open>'' q''\<close> and \<open>''q''\<close>, and 1 the other way round, so that
  neither is less. A message that was seen on the one queue is a duplicate on the other.
\<close>

lemma queues_share_audit:
  "\<not> destination_less (queue_named '' q'') (queue_named ''q'')" "\<not> destination_less (queue_named ''q'') (queue_named '' q'')"
  "queue_audit '' q'' (set_queue_audit (queue_named ''q'') a (new_ConnectionAudit depth maxP)) = Some a"
proof -
  have 1: "compare (name_bytes '' q'') (name_bytes ''q'') = Some 0" "compare (name_bytes ''q'') (name_bytes '' q'') = Some 1"
    by (simp_all add: compare_def name_bytes_def of_char_def doCompare.simps skip_whitespace.simps char_at_def isWhitespace_def
        compare_numbers_def isDigit_def folded_def)
  then show less: "\<not> destination_less (queue_named '' q'') (queue_named ''q'')"
    "\<not> destination_less (queue_named ''q'') (queue_named '' q'')"
    by (simp_all add: destination_less_def destination_compareTo_def dest_key_def queue_named_def)
  then show "queue_audit '' q'' (set_queue_audit (queue_named ''q'') a (new_ConnectionAudit depth maxP)) = Some a"
    by (simp add: queue_audit_def set_queue_audit_def new_ConnectionAudit_def)
qed

end
