(* ===== verification/ConsumerKernel.thy ===== *)
theory ConsumerKernel
  imports DispatchChannel ConnectionAudit LongText
begin

text \<open>
  \<open>activemq/core/kernels/ActiveMQConsumerKernel.cpp\<close>: the consumer, with the parts of its session,
  transaction context and connection that its methods call.  A method is a function on the state that
  also returns its result or the exception that leaves it; the state records every command handed to
  the transport and every task handed to the scheduler, in order.

  The unconsumed messages are a list channel (theory \<open>Channel_Spec\<close>; both channels of the code are
  equal to it), the delivered ones a list with the newest first (\<open>addFirst\<close>), the duplicate filter is
  the connection audit of theory \<open>ConnectionAudit\<close>.  The outside world is in the state as well: the
  successive readings of \<open>System::currentTimeMillis\<close>, the outcome of the successive sends and, for every
  sleep of this thread, the message ids that the transport thread marks as replayed meanwhile.  The
  application's listener and the redelivery policy, which the user may supply, are parameters.
  Counters are unbounded integers.  No message transformer and no message-available listener is set,
  which is the default.
\<close>

section \<open>Acknowledgements\<close>

datatype ack_type = DELIVERED | POISON | CONSUMED | REDELIVERED | INDIVIDUAL | UNMATCHED | EXPIRED

record message_ack =
  ackType :: ack_type
  ackConsumerId :: string
  ackDestination :: "destination option"
  firstMessageId :: "message_id option"
  lastMessageId :: "message_id option"
  messageCount :: int
  ackTransactionId :: "int option"
  poisonCause :: "string option"

definition new_MessageAck :: "message_dispatch \<Rightarrow> ack_type \<Rightarrow> int \<Rightarrow> message_ack result" where
  "new_MessageAck d t n =
     (case dispatchMessage d of
        None \<Rightarrow> Inl NullPointerException
      | Some m \<Rightarrow> Inr \<lparr>ackType = t, ackConsumerId = dispatchConsumerId d, ackDestination = dispatchDestination d,
          firstMessageId = None, lastMessageId = messageId m, messageCount = n,
          ackTransactionId = None, poisonCause = None\<rparr>)"

definition isStandardAck :: "message_ack \<Rightarrow> bool" where
  "isStandardAck a = (ackType a = CONSUMED)"

definition isDeliveredAck :: "message_ack \<Rightarrow> bool" where
  "isDeliveredAck a = (ackType a = DELIVERED)"

definition isExpiredAck :: "message_ack \<Rightarrow> bool" where
  "isExpiredAck a = (ackType a = EXPIRED)"

section \<open>State\<close>

datatype ack_mode = AUTO_ACKNOWLEDGE | DUPS_OK_ACKNOWLEDGE | CLIENT_ACKNOWLEDGE | SESSION_TRANSACTED
  | INDIVIDUAL_ACKNOWLEDGE

text \<open>
  What is fixed when the consumer is created: its \<open>ConsumerInfo\<close>, the settings of session and
  connection that it reads, and the redelivery policy.
\<close>

record consumer_info =
  ackMode :: ack_mode
  consumerId :: string
  consumerRef :: nat
  consumerDestination :: destination
  prefetchSize :: int
  isBrowser :: bool
  isMessagePrioritySupported :: bool
  isSendAcksAsync :: bool
  connectionChecksDuplicates :: bool
  dispatcherHash :: "nat \<Rightarrow> int"
  optimizeAcknowledgeTimeOut :: int
  failoverRedeliveryWaitPeriod :: int
  maximumRedeliveries :: int
  initialRedeliveryDelay :: int
  nextRedeliveryDelay :: "int \<Rightarrow> int"

datatype tx_state = TRANSACTION_STATE_BEGIN | TRANSACTION_STATE_PREPARE | TRANSACTION_STATE_COMMITONEPHASE
  | TRANSACTION_STATE_COMMITTWOPHASE | TRANSACTION_STATE_ROLLBACK | TRANSACTION_STATE_RECOVER
  | TRANSACTION_STATE_FORGET | TRANSACTION_STATE_END

datatype command =
    AckCommand message_ack
  | TransactionInfo tx_state int
  | MessagePull int
  | RemoveInfo int

datatype wire = Oneway command | SyncRequest command

datatype task =
    StartConsumerTask int
  | NonBlockingRedeliveryTask "message_dispatch list" int
  | AsyncMessageAckTask message_ack

datatype synchronization = TransactionSynchronization | CloseSynchronization

text \<open>
  \<open>PreviouslyDeliveredMap\<close>: address and value of the message id, and whether the message was replayed.
  Its iteration order is that of insertion here; the loops over it only count or remove.
\<close>

type_synonym previously_delivered = "(nat \<times> message_id option \<times> bool) list"

text \<open>The consumers of the sessions of the connection, as far as other consumers look at them.\<close>

datatype peer = ThisConsumer | OtherConsumer bool "previously_delivered option"

record consumer =
  info :: consumer_info
  transactedIndividualAck :: bool
  nonBlockingRedelivery :: bool
  consumerExpiryCheckEnabled :: bool
  optimizeAcknowledge :: bool
  listener :: bool
  deliveringAcks :: bool
  started :: bool
  closeSyncRegistered :: bool
  unconsumedMessages :: "message_dispatch list_channel"
  deliveredMessages :: "message_dispatch list"
  lastDeliveredSequenceId :: int
  pendingAck :: "message_ack option"
  deliveredCounter :: int
  additionalWindowSize :: int
  synchronizationRegistered :: bool
  isClearDeliveredList :: bool
  inProgressClearRequiredFlag :: int
  redeliveryDelay :: int
  failureError :: "decaf_exception option"
  previouslyDeliveredMessages :: "previously_delivered option"
  optimizeAckTimestamp :: int
  ackCounter :: int
  dispatchedCount :: int
  inSession :: bool
  sessionClosed :: bool
  sessionQueue :: "message_dispatch list_channel"
  transactionId :: "int option"
  localTransactionIds :: int
  synchronizations :: "synchronization list"
  connectionAudit :: "nat connection_audit"
  sessions :: "peer list list"
  clock :: "nat \<Rightarrow> int"
  naps :: "nat list list"
  transportFails :: "nat \<Rightarrow> bool"
  sent :: "wire list"
  scheduled :: "task list"

section \<open>Methods with exceptions\<close>

type_synonym 'a action = "consumer \<Rightarrow> 'a result \<times> consumer"

definition returns :: "'a \<Rightarrow> 'a action" where
  "returns x s = (Inr x, s)"

definition throws :: "decaf_exception \<Rightarrow> 'a action" where
  "throws e s = (Inl e, s)"

definition andthen :: "'a action \<Rightarrow> ('a \<Rightarrow> 'b action) \<Rightarrow> 'b action" where
  "andthen m k s = (case m s of (Inl e, s') \<Rightarrow> (Inl e, s') | (Inr x, s') \<Rightarrow> k x s')"

definition lifts :: "'a result \<Rightarrow> 'a action" where
  "lifts r s = (r, s)"

definition updates :: "(consumer \<Rightarrow> consumer) \<Rightarrow> unit action" where
  "updates f s = (Inr (), f s)"

fun for_each :: "'x list \<Rightarrow> ('x \<Rightarrow> unit action) \<Rightarrow> unit action" where
  "for_each [] f = returns ()"
| "for_each (x # xs) f = andthen (f x) (\<lambda>_. for_each xs f)"

text \<open>
  The macros that end the methods: \<open>AMQ_CATCH_RETHROW(ActiveMQException)\<close> and its companions turn every
  exception into an \<open>ActiveMQException\<close>, which is a decaf exception; \<open>AMQ_CATCH_ALL_THROW_CMSEXCEPTION\<close>
  turns it into one of the classes below \<open>cms::CMSException\<close>.
\<close>

definition cms_class :: "decaf_exception \<Rightarrow> bool" where
  "cms_class e = (e \<in> {CMSException, CMSIllegalStateException, InvalidDestinationException, TransactionRolledBackException})"

definition amq_boundary :: "'a action \<Rightarrow> 'a action" where
  "amq_boundary m s =
     (case m s of (Inl e, s') \<Rightarrow> (Inl (if e = StillWaiting then e else ActiveMQException), s') | r \<Rightarrow> r)"

definition cms_boundary :: "'a action \<Rightarrow> 'a action" where
  "cms_boundary m s =
     (case m s of (Inl e, s') \<Rightarrow> (Inl (if e = StillWaiting \<or> cms_class e then e else CMSException), s') | r \<Rightarrow> r)"

text \<open>\<open>try { m } catch (cms::CMSException& e) { h(e); }\<close>\<close>

definition catch_cms :: "'a action \<Rightarrow> (decaf_exception \<Rightarrow> 'a action) \<Rightarrow> 'a action" where
  "catch_cms m h s = (case m s of (Inl e, s') \<Rightarrow> if cms_class e then h e s' else (Inl e, s') | r \<Rightarrow> r)"

lemmas action_defs = returns_def throws_def andthen_def lifts_def updates_def

section \<open>Session, transaction context and connection\<close>

definition isTransacted :: "consumer \<Rightarrow> bool" where
  "isTransacted s = (ackMode (info s) = SESSION_TRANSACTED)"

definition isAutoAcknowledgeEach :: "consumer \<Rightarrow> bool" where
  "isAutoAcknowledgeEach s =
     (ackMode (info s) = AUTO_ACKNOWLEDGE \<or>
      (ackMode (info s) = DUPS_OK_ACKNOWLEDGE \<and> isQueue (consumerDestination (info s))))"

definition isAutoAcknowledgeBatch :: "consumer \<Rightarrow> bool" where
  "isAutoAcknowledgeBatch s =
     (ackMode (info s) = DUPS_OK_ACKNOWLEDGE \<and> \<not> isQueue (consumerDestination (info s)))"

definition isManualAcknowledge :: "consumer \<Rightarrow> bool" where
  "isManualAcknowledge s = (ackMode (info s) = CLIENT_ACKNOWLEDGE \<or> ackMode (info s) = INDIVIDUAL_ACKNOWLEDGE)"

definition currentTimeMillis :: "int action" where
  "currentTimeMillis s = (Inr (clock s 0), s\<lparr>clock := (\<lambda>n. clock s (Suc n))\<rparr>)"

definition transmit :: "wire \<Rightarrow> unit action" where
  "transmit w s =
     (let s1 = s\<lparr>transportFails := (\<lambda>n. transportFails s (Suc n))\<rparr> in
      if transportFails s 0 then (Inl ActiveMQException, s1)
      else (Inr (), s1\<lparr>sent := sent s @ [w]\<rparr>))"

definition sendAck :: "message_ack \<Rightarrow> bool \<Rightarrow> unit action" where
  "sendAck ack async s =
     (if async \<or> isSendAcksAsync (info s) \<or> isTransacted s then transmit (Oneway (AckCommand ack)) s
      else transmit (SyncRequest (AckCommand ack)) s)"

definition session_syncRequest :: "command \<Rightarrow> unit action" where
  "session_syncRequest c s =
     (if sessionClosed s then throws ActiveMQException s else transmit (SyncRequest c) s)"

text \<open>\<open>ActiveMQTransactionContext::begin\<close> for local transactions.\<close>

definition tx_begin :: "unit action" where
  "tx_begin s =
     (if transactionId s \<noteq> None then returns () s
      else
        let tx = localTransactionIds s + 1;
            s1 = s\<lparr>synchronizations := [], localTransactionIds := tx\<rparr>
        in andthen (transmit (Oneway (TransactionInfo TRANSACTION_STATE_BEGIN tx)))
             (\<lambda>_. updates (transactionId_update (\<lambda>_. Some tx))) s1)"

definition doStartTransaction :: "unit action" where
  "doStartTransaction s = (if isTransacted s then tx_begin s else returns () s)"

definition connection_isDuplicate :: "message option \<Rightarrow> bool action" where
  "connection_isDuplicate m s =
     (if connectionChecksDuplicates (info s) then
        let (r, ca) = ca_isDuplicate (dispatcherHash (info s)) (consumerRef (info s)) m (connectionAudit s)
        in (r, s\<lparr>connectionAudit := ca\<rparr>)
      else returns False s)"

definition rollbackDuplicate :: "message option \<Rightarrow> unit action" where
  "rollbackDuplicate m s =
     (let (r, ca) = ca_rollbackDuplicate (dispatcherHash (info s)) (consumerRef (info s)) m (connectionAudit s)
      in (r, s\<lparr>connectionAudit := ca\<rparr>))"

definition ch_place :: "consumer \<Rightarrow> message_dispatch \<Rightarrow> message_dispatch list \<Rightarrow> message_dispatch list" where
  "ch_place s = (if isMessagePrioritySupported (info s) then prio_place else fifo_place)"

definition ch_place_first :: "consumer \<Rightarrow> message_dispatch \<Rightarrow> message_dispatch list \<Rightarrow> message_dispatch list" where
  "ch_place_first s = (if isMessagePrioritySupported (info s) then prio_place_first else Cons)"

text \<open>
  \<open>redispatch\<close>: everything still unconsumed goes to the front of the session's queue, last message
  first.
\<close>

definition redispatch :: "unit action" where
  "redispatch s =
     (let (ms, ch) = lc_removeAll (unconsumedMessages s) in
      updates (\<lambda>s. s\<lparr>unconsumedMessages := ch,
        sessionQueue := fold (lc_enqueue (ch_place_first s)) (rev ms) (sessionQueue s)\<rparr>) s)"

definition lookupConsumerKernel :: "unit action" where
  "lookupConsumerKernel s = (if inSession s then returns () s else throws NullPointerException s)"

section \<open>Helpers of the consumer\<close>

definition isTimeForOptimizedAck :: "bool action" where
  "isTimeForOptimizedAck s =
     (if 20 * (ackCounter s + deliveredCounter s) \<ge> 13 * prefetchSize (info s) then returns True s
      else if optimizeAcknowledgeTimeOut (info s) > 0 then
        andthen currentTimeMillis
          (\<lambda>now s'. returns (now \<ge> optimizeAckTimestamp s + optimizeAcknowledgeTimeOut (info s)) s') s
      else returns False s)"

text \<open>\<open>put\<close> of \<open>PreviouslyDeliveredMap\<close>, whose keys are compared by address.\<close>

fun pd_put :: "nat \<Rightarrow> message_id option \<Rightarrow> bool \<Rightarrow> previously_delivered \<Rightarrow> previously_delivered" where
  "pd_put r mid v [] = [(r, mid, v)]"
| "pd_put r mid v ((r', mid', v') # xs) =
     (if r = r' then (r', mid', v) # xs else (r', mid', v') # pd_put r mid v xs)"

definition pd_containsKey :: "nat \<Rightarrow> previously_delivered \<Rightarrow> bool" where
  "pd_containsKey r xs = (r \<in> fst ` set xs)"

definition numberNotReplayed :: "previously_delivered \<Rightarrow> int" where
  "numberNotReplayed xs = int (length (filter (\<lambda>(_, _, v). \<not> v) xs))"

definition deref_message :: "message_dispatch \<Rightarrow> message action" where
  "deref_message d = lifts (of_option NullPointerException (dispatchMessage d))"

definition clearDeliveredList :: "unit action" where
  "clearDeliveredList s =
     (if \<not> isClearDeliveredList s then returns () s
      else
        andthen (\<lambda>s.
          if deliveredMessages s = [] then returns () s
          else if isTransacted s then
            andthen (updates (\<lambda>s. if previouslyDeliveredMessages s = None
                then s\<lparr>previouslyDeliveredMessages := Some []\<rparr> else s)) (\<lambda>_.
              for_each (deliveredMessages s) (\<lambda>d. andthen (deref_message d) (\<lambda>m.
                updates (\<lambda>s. s\<lparr>previouslyDeliveredMessages :=
                  map_option (pd_put (messageIdRef m) (messageId m) False) (previouslyDeliveredMessages s)\<rparr>)))) s
          else
            andthen (if isManualAcknowledge s \<and> \<not> isBrowser (info s)
                then for_each (deliveredMessages s) (\<lambda>d. rollbackDuplicate (dispatchMessage d))
                else returns ()) (\<lambda>_.
              updates (\<lambda>s. s\<lparr>deliveredMessages := [], pendingAck := None\<rparr>)) s)
        (\<lambda>_. updates (isClearDeliveredList_update (\<lambda>_. False))) s)"

definition clearPreviouslyDelivered :: "consumer \<Rightarrow> consumer" where
  "clearPreviouslyDelivered s = s\<lparr>previouslyDeliveredMessages := None\<rparr>"

text \<open>\<open>removeFromDeliveredMessages\<close>: the first delivered message whose id equals the key.\<close>

fun split_first_id ::
    "message_id option \<Rightarrow> message_dispatch list \<Rightarrow> (message_dispatch \<times> message_dispatch list) option" where
  "split_first_id k [] = None"
| "split_first_id k (d # ds) =
     (if k = Option.bind (dispatchMessage d) messageId then Some (d, ds)
      else map_option (\<lambda>(c, r). (c, d # r)) (split_first_id k ds))"

definition removeFromDeliveredMessages :: "message_id option \<Rightarrow> unit action" where
  "removeFromDeliveredMessages k s =
     (case split_first_id k (deliveredMessages s) of
        None \<Rightarrow> returns () s
      | Some (candidate, rest) \<Rightarrow>
          andthen (rollbackDuplicate (dispatchMessage candidate))
            (\<lambda>_. updates (deliveredMessages_update (\<lambda>_. rest))) s)"

definition rollbackPreviouslyDeliveredAndNotRedelivered :: "unit action" where
  "rollbackPreviouslyDeliveredAndNotRedelivered s =
     (case previouslyDeliveredMessages s of
        None \<Rightarrow> returns () s
      | Some xs \<Rightarrow>
          andthen (for_each (filter (\<lambda>(_, _, v). \<not> v) xs) (\<lambda>(_, k, _). removeFromDeliveredMessages k))
            (\<lambda>_. updates clearPreviouslyDelivered) s)"

definition rollbackOnFailedRecoveryRedelivery :: "unit action" where
  "rollbackOnFailedRecoveryRedelivery s =
     (case previouslyDeliveredMessages s of
        None \<Rightarrow> returns () s
      | Some xs \<Rightarrow> if numberNotReplayed xs > 0 then throws TransactionRolledBackException s else returns () s)"

text \<open>
  \<open>waitForRedeliveries\<close>: each round in which something is missing sleeps once.  The loop goes on while
  \<open>expiry < now\<close>, as the source has it.
\<close>

definition replayed :: "nat list \<Rightarrow> consumer \<Rightarrow> consumer" where
  "replayed rs s = s\<lparr>previouslyDeliveredMessages := map_option
     (map (\<lambda>(r, mid, v). (r, mid, v \<or> r \<in> set rs))) (previouslyDeliveredMessages s)\<rparr>"

fun wait_loop :: "nat list list \<Rightarrow> int \<Rightarrow> unit action" where
  "wait_loop nps expiry s =
     (if (case previouslyDeliveredMessages s of None \<Rightarrow> False | Some xs \<Rightarrow> numberNotReplayed xs > 0) then
        (case nps of
           [] \<Rightarrow> throws StillWaiting s
         | rs # nps' \<Rightarrow>
             andthen currentTimeMillis (\<lambda>now. if expiry < now then wait_loop nps' expiry else returns ())
               (replayed rs s\<lparr>naps := nps'\<rparr>))
      else returns () s)"

definition waitForRedeliveries :: "unit action" where
  "waitForRedeliveries s =
     (if failoverRedeliveryWaitPeriod (info s) > 0 \<and> previouslyDeliveredMessages s \<noteq> None then
        andthen currentTimeMillis
          (\<lambda>now s'. wait_loop (naps s') (now + failoverRedeliveryWaitPeriod (info s)) s') s
      else returns () s)"

definition redeliveryExpectedInCurrentTransaction :: "message_dispatch \<Rightarrow> bool \<Rightarrow> bool action" where
  "redeliveryExpectedInCurrentTransaction d markReceipt s =
     (if isTransacted s then
        (case previouslyDeliveredMessages s of
           None \<Rightarrow> returns False s
         | Some xs \<Rightarrow>
             andthen (deref_message d) (\<lambda>m.
               if pd_containsKey (messageIdRef m) xs then
                 andthen (updates (\<lambda>s. if markReceipt then s\<lparr>previouslyDeliveredMessages :=
                     Some (pd_put (messageIdRef m) (messageId m) True xs)\<rparr> else s)) (\<lambda>_. returns True)
               else returns False) s)
      else returns False s)"

text \<open>
  \<open>redeliveryPendingInCompetingTransaction\<close> walks over the sessions of the connection and returns at the
  first consumer that it meets.
\<close>

fun first_consumer :: "peer list list \<Rightarrow> peer option" where
  "first_consumer [] = None"
| "first_consumer ([] # ss) = first_consumer ss"
| "first_consumer ((c # cs) # ss) = Some c"

definition redeliveryPendingInCompetingTransaction :: "message_dispatch \<Rightarrow> bool action" where
  "redeliveryPendingInCompetingTransaction d s =
     (case first_consumer (sessions s) of
        None \<Rightarrow> returns False s
      | Some ThisConsumer \<Rightarrow> redeliveryExpectedInCurrentTransaction d False s
      | Some (OtherConsumer transacted delivered) \<Rightarrow>
          (case (if transacted then delivered else None) of
             None \<Rightarrow> returns False s
           | Some xs \<Rightarrow> andthen (deref_message d) (\<lambda>m. returns (pd_containsKey (messageIdRef m) xs)) s))"

definition consumeExpiredMessage :: "message_dispatch \<Rightarrow> bool action" where
  "consumeExpiredMessage d =
     andthen (deref_message d) (\<lambda>m. andthen currentTimeMillis (\<lambda>now s.
       returns (isExpired now m \<and> \<not> isBrowser (info s) \<and> consumerExpiryCheckEnabled s) s))"

text \<open>The exception of a null message is swallowed by \<open>redeliveryExceeded\<close>.\<close>

definition NO_MAXIMUM_REDELIVERIES :: int where
  "NO_MAXIMUM_REDELIVERIES = - 1"

definition redeliveryExceeded :: "message_dispatch \<Rightarrow> consumer \<Rightarrow> bool" where
  "redeliveryExceeded d s =
     (isTransacted s \<and> maximumRedeliveries (info s) \<noteq> NO_MAXIMUM_REDELIVERIES \<and>
      redeliveryCounter d > maximumRedeliveries (info s) \<and>
      (case dispatchMessage d of None \<Rightarrow> False | Some m \<Rightarrow> \<not> hasRedeliveryDelay m))"

definition posionAck :: "message_dispatch \<Rightarrow> string \<Rightarrow> unit action" where
  "posionAck d cause =
     andthen (lifts (new_MessageAck d POISON 1)) (\<lambda>ack.
     andthen (deref_message d) (\<lambda>m.
       sendAck (ack\<lparr>firstMessageId := messageId m, poisonCause := Some cause\<rparr>) False))"

section \<open>Acknowledging\<close>

definition registerSync :: "unit action" where
  "registerSync =
     andthen doStartTransaction (\<lambda>_ s.
       if synchronizationRegistered s then returns () s
       else
         andthen (updates (synchronizationRegistered_update (\<lambda>_. True))) (\<lambda>_.
         andthen lookupConsumerKernel (\<lambda>_.
           updates (\<lambda>s. s\<lparr>synchronizations := synchronizations s @ [TransactionSynchronization]\<rparr>))) s)"

definition immediateIndividualTransactedAck :: "message_dispatch \<Rightarrow> unit action" where
  "immediateIndividualTransactedAck d =
     andthen registerSync (\<lambda>_.
     andthen (lifts (new_MessageAck d INDIVIDUAL 1)) (\<lambda>ack s.
       session_syncRequest (AckCommand (ack\<lparr>ackTransactionId := transactionId s\<rparr>)) s))"

definition first_of_pending :: "message_ack option \<Rightarrow> message_ack \<Rightarrow> message_ack" where
  "first_of_pending old ack =
     (case old of
        None \<Rightarrow> ack\<lparr>firstMessageId := lastMessageId ack\<rparr>
      | Some o1 \<Rightarrow> if ackType o1 = ackType ack then ack\<lparr>firstMessageId := firstMessageId o1\<rparr> else ack)"

definition ackLater :: "message_dispatch \<Rightarrow> ack_type \<Rightarrow> unit action" where
  "ackLater d t =
     andthen (\<lambda>s. if isTransacted s then registerSync s else returns () s) (\<lambda>_.
     andthen (updates (\<lambda>s. s\<lparr>deliveredCounter := deliveredCounter s + 1\<rparr>)) (\<lambda>_ s.
     andthen (lifts (new_MessageAck d t (deliveredCounter s))) (\<lambda>ack.
     andthen (updates (pendingAck_update (\<lambda>_. Some (first_of_pending (pendingAck s) ack)))) (\<lambda>_.
     andthen (case pendingAck s of
                None \<Rightarrow> returns ()
              | Some o1 \<Rightarrow> if ackType o1 \<noteq> t \<and> \<not> isDeliveredAck o1 then sendAck o1 False else returns ()) (\<lambda>_.
     andthen (updates (\<lambda>s. if isTransacted s
                then s\<lparr>pendingAck := map_option (ackTransactionId_update (\<lambda>_. transactionId s)) (pendingAck s)\<rparr>
                else s)) (\<lambda>_ s.
       if prefetchSize (info s) \<le> 2 * (deliveredCounter s + ackCounter s - additionalWindowSize s) then
         andthen (case pendingAck s of None \<Rightarrow> returns () | Some ack \<Rightarrow> sendAck ack False) (\<lambda>_.
           updates (\<lambda>s. s\<lparr>pendingAck := None, deliveredCounter := 0, additionalWindowSize := 0\<rparr>)) s
       else returns () s)))) s))"

definition makeAckForAllDeliveredMessages :: "ack_type \<Rightarrow> message_ack option action" where
  "makeAckForAllDeliveredMessages t s =
     (if deliveredMessages s = [] then returns None s
      else
        andthen (lifts (new_MessageAck (hd (deliveredMessages s)) t (int (length (deliveredMessages s))))) (\<lambda>ack.
        andthen (deref_message (last (deliveredMessages s))) (\<lambda>m.
          returns (Some (ack\<lparr>firstMessageId := messageId m\<rparr>)))) s)"

definition beforeMessageIsConsumed :: "message_dispatch \<Rightarrow> unit action" where
  "beforeMessageIsConsumed d =
     andthen (deref_message d) (\<lambda>m.
     andthen (lifts (of_option NullPointerException (messageId m))) (\<lambda>mid.
     andthen (updates (lastDeliveredSequenceId_update (\<lambda>_. brokerSequenceId mid))) (\<lambda>_ s.
       if isAutoAcknowledgeBatch s then returns () s
       else
         andthen (updates (\<lambda>s. s\<lparr>deliveredMessages := d # deliveredMessages s\<rparr>)) (\<lambda>_ s.
           if isTransacted s then
             (if transactedIndividualAck s then immediateIndividualTransactedAck d s
              else ackLater d DELIVERED s)
           else returns () s) s)))"

text \<open>
  The part of \<open>afterMessageIsConsumed\<close> for automatic acknowledgement of each message, run after
  \<open>deliveringAcks\<close> was taken; it is given back at the end, but not when an exception leaves.
\<close>

definition auto_acknowledge :: "unit action" where
  "auto_acknowledge s =
     (if deliveredMessages s = [] then returns () s
      else if optimizeAcknowledge s then
        andthen (updates (\<lambda>s. s\<lparr>ackCounter := ackCounter s + 1\<rparr>)) (\<lambda>_.
        andthen isTimeForOptimizedAck (\<lambda>timely.
          if \<not> timely then returns ()
          else
            andthen (makeAckForAllDeliveredMessages CONSUMED) (\<lambda>ack.
            andthen (case ack of
                None \<Rightarrow> returns ()
              | Some a \<Rightarrow>
                  andthen (updates (\<lambda>s. s\<lparr>deliveredMessages := [], ackCounter := 0\<rparr>)) (\<lambda>_.
                  andthen (sendAck a False) (\<lambda>_.
                  andthen currentTimeMillis (\<lambda>now.
                    updates (optimizeAckTimestamp_update (\<lambda>_. now)))))) (\<lambda>_ s.
              case pendingAck s of
                None \<Rightarrow> returns () s
              | Some a \<Rightarrow>
                  if deliveredCounter s > 0 then
                    andthen (sendAck a False) (\<lambda>_.
                      updates (\<lambda>s. s\<lparr>pendingAck := None, deliveredCounter := 0\<rparr>)) s
                  else returns () s)))) s
      else
        andthen (makeAckForAllDeliveredMessages CONSUMED) (\<lambda>ack.
          case ack of
            None \<Rightarrow> returns ()
          | Some a \<Rightarrow> andthen (updates (deliveredMessages_update (\<lambda>_. []))) (\<lambda>_. sendAck a False)) s)"

text \<open>\<open>acknowledge(dispatch, ackType)\<close>: \<open>remove\<close> compares \<open>Pointer\<close>s.\<close>

fun remove_ref :: "nat \<Rightarrow> message_dispatch list \<Rightarrow> message_dispatch list" where
  "remove_ref r [] = []"
| "remove_ref r (d # ds) = (if dispatchRef d = r then ds else d # remove_ref r ds)"

definition acknowledge_one :: "message_dispatch \<Rightarrow> ack_type \<Rightarrow> unit action" where
  "acknowledge_one d t = cms_boundary (
     andthen (lifts (new_MessageAck d t 1)) (\<lambda>ack.
     andthen (sendAck (if isExpiredAck ack then ack\<lparr>firstMessageId := lastMessageId ack\<rparr> else ack) False) (\<lambda>_.
       updates (\<lambda>s. s\<lparr>deliveredMessages := remove_ref (dispatchRef d) (deliveredMessages s)\<rparr>))))"

definition afterMessageIsConsumed :: "message_dispatch \<Rightarrow> bool \<Rightarrow> unit action" where
  "afterMessageIsConsumed d messageExpired = amq_boundary (\<lambda>s.
     if lc_closed (unconsumedMessages s) then returns () s
     else if messageExpired then acknowledge_one d EXPIRED s
     else if isTransacted s then returns () s
     else if isAutoAcknowledgeEach s then
       (if deliveringAcks s then returns () s
        else
          andthen (updates (deliveringAcks_update (\<lambda>_. True))) (\<lambda>_.
          andthen auto_acknowledge (\<lambda>_. updates (deliveringAcks_update (\<lambda>_. False)))) s)
     else if isAutoAcknowledgeBatch s then ackLater d CONSUMED s
     else if isManualAcknowledge s then
       (if dispatchRef d \<in> dispatchRef ` set (deliveredMessages s) then ackLater d DELIVERED s
        else returns () s)
     else throws IllegalStateException s)"

text \<open>
  \<open>deliverAcks\<close> hands the acknowledgement to the consumer's executor; \<open>run_ack_task\<close> is the body of
  \<open>AsyncMessageAckTask\<close>, which swallows every exception.
\<close>

definition deliverAcks :: "unit action" where
  "deliverAcks = amq_boundary (\<lambda>s.
     if deliveringAcks s then returns () s
     else
       andthen (updates (deliveringAcks_update (\<lambda>_. True))) (\<lambda>_.
       andthen (\<lambda>s.
         if isAutoAcknowledgeEach s then
           andthen (makeAckForAllDeliveredMessages CONSUMED) (\<lambda>ack s.
             if ack \<noteq> None
             then andthen (updates (\<lambda>s. s\<lparr>deliveredMessages := [], ackCounter := 0\<rparr>)) (\<lambda>_. returns ack) s
             else andthen (updates (pendingAck_update (\<lambda>_. None))) (\<lambda>_. returns (pendingAck s)) s) s
         else
           (case pendingAck s of
              None \<Rightarrow> returns None s
            | Some a \<Rightarrow>
                if isStandardAck a
                then andthen (updates (pendingAck_update (\<lambda>_. None))) (\<lambda>_. returns (Some a)) s
                else returns None s)) (\<lambda>ack.
         updates (\<lambda>s. case ack of
             Some a \<Rightarrow> s\<lparr>scheduled := scheduled s @ [AsyncMessageAckTask a]\<rparr>
           | None \<Rightarrow> s\<lparr>deliveringAcks := False\<rparr>))) s)"

definition run_ack_task :: "message_ack \<Rightarrow> consumer \<Rightarrow> consumer" where
  "run_ack_task a s = (snd (sendAck a True s))\<lparr>deliveringAcks := False\<rparr>"

definition acknowledge :: "unit action" where
  "acknowledge = cms_boundary (
     andthen clearDeliveredList (\<lambda>_.
     andthen waitForRedeliveries (\<lambda>_.
     andthen (makeAckForAllDeliveredMessages CONSUMED) (\<lambda>ack.
       case ack of
         None \<Rightarrow> returns ()
       | Some a \<Rightarrow>
           andthen (\<lambda>s.
             if isTransacted s then
               andthen rollbackOnFailedRecoveryRedelivery (\<lambda>_.
               andthen doStartTransaction (\<lambda>_ s. returns (a\<lparr>ackTransactionId := transactionId s\<rparr>) s)) s
             else returns a s) (\<lambda>a.
           andthen (updates (pendingAck_update (\<lambda>_. None))) (\<lambda>_.
           andthen (sendAck a False) (\<lambda>_.
             updates (\<lambda>s. let n = int (length (deliveredMessages s)) in
               s\<lparr>deliveredCounter := max 0 (deliveredCounter s - n),
                 additionalWindowSize := max 0 (additionalWindowSize s - n),
                 deliveredMessages := (if isTransacted s then deliveredMessages s else [])\<rparr>))))))))"

definition consumer_commit :: "consumer \<Rightarrow> consumer" where
  "consumer_commit s = (clearPreviouslyDelivered (s\<lparr>deliveredMessages := []\<rparr>))\<lparr>redeliveryDelay := 0\<rparr>"

section \<open>Rolling back\<close>

definition consumer_start :: "consumer \<Rightarrow> consumer" where
  "consumer_start s =
     (if lc_closed (unconsumedMessages s) then s
      else s\<lparr>started := True, unconsumedMessages := lc_start (unconsumedMessages s)\<rparr>)"

definition consumer_stop :: "consumer \<Rightarrow> consumer" where
  "consumer_stop s = s\<lparr>started := False, unconsumedMessages := lc_stop (unconsumedMessages s)\<rparr>"

text \<open>
  The loop over messages read but not yet acknowledged: \<open>i\<close> grows while the list shrinks.  The first
  argument bounds the rounds; every round removes a message, so the length of the list is enough.
\<close>

fun rollback_unacked :: "nat \<Rightarrow> int \<Rightarrow> unit action" where
  "rollback_unacked 0 i s = returns () s"
| "rollback_unacked (Suc n) i s =
     (if i < int (length (deliveredMessages s)) \<and> i < ackCounter s then
        let md = last (deliveredMessages s) in
        andthen (updates (\<lambda>s. s\<lparr>deliveredMessages := butlast (deliveredMessages s)\<rparr>)) (\<lambda>_.
        andthen (rollbackDuplicate (dispatchMessage md)) (\<lambda>_. rollback_unacked n (i + 1))) s
      else returns () s)"

definition bump :: "message_dispatch \<Rightarrow> message_dispatch" where
  "bump d = d\<lparr>dispatchMessage := map_option
     (\<lambda>m. m\<lparr>messageRedeliveryCounter := messageRedeliveryCounter m + 1\<rparr>) (dispatchMessage d)\<rparr>"

text \<open>The loop that counts the redelivery of every delivered message and tells the audit.\<close>

fun bump_delivered :: "nat \<Rightarrow> nat \<Rightarrow> unit action" where
  "bump_delivered 0 k s = returns () s"
| "bump_delivered (Suc n) k s =
     andthen (deref_message (deliveredMessages s ! k)) (\<lambda>m.
     andthen (updates (\<lambda>s. s\<lparr>deliveredMessages := (deliveredMessages s)[k := bump (deliveredMessages s ! k)]\<rparr>)) (\<lambda>_ s.
     andthen (rollbackDuplicate (dispatchMessage (deliveredMessages s ! k))) (\<lambda>_. bump_delivered n (Suc k)) s)) s"

definition forget_delivered :: "consumer \<Rightarrow> consumer" where
  "forget_delivered s = s\<lparr>deliveredCounter := deliveredCounter s - int (length (deliveredMessages s)),
     deliveredMessages := []\<rparr>"

definition poison_text :: "int \<Rightarrow> string \<Rightarrow> string" where
  "poison_text n cause = ''Exceeded RedeliveryPolicy max redelivery limit: '' @ Long_toString n @
     (if cause = [] then [] else '' cause: Exception -> '' @ cause)"

definition poison_delivered :: "message_dispatch \<Rightarrow> message_id option \<Rightarrow> unit action" where
  "poison_delivered lastMsg firstMsgId s =
     (let n = int (length (deliveredMessages s)) in
      andthen (lifts (new_MessageAck lastMsg POISON n)) (\<lambda>ack.
      andthen (sendAck (ack\<lparr>firstMessageId := firstMsgId,
          poisonCause := Some (poison_text (maximumRedeliveries (info s)) (rollbackCause lastMsg))\<rparr>) True) (\<lambda>_.
        updates (\<lambda>s. forget_delivered (s\<lparr>additionalWindowSize := max 0 (additionalWindowSize s - n),
          redeliveryDelay := 0\<rparr>)))) s)"

definition redeliver_delivered :: "unit action" where
  "redeliver_delivered s =
     (if nonBlockingRedelivery s then
        (if lc_closed (unconsumedMessages s) then returns () s
         else
           updates (\<lambda>s. forget_delivered (s\<lparr>scheduled := scheduled s @
             [NonBlockingRedeliveryTask (rev (deliveredMessages s)) (redeliveryDelay s)]\<rparr>)) s)
      else
        andthen (updates (\<lambda>s. forget_delivered (s\<lparr>unconsumedMessages :=
            fold (lc_enqueue (ch_place_first s)) (deliveredMessages s) (lc_stop (unconsumedMessages s))\<rparr>))) (\<lambda>_ s.
          if redeliveryDelay s > 0 \<and> \<not> lc_closed (unconsumedMessages s) then
            andthen lookupConsumerKernel (\<lambda>_.
              updates (\<lambda>s. s\<lparr>scheduled := scheduled s @ [StartConsumerTask (redeliveryDelay s)]\<rparr>)) s
          else updates consumer_start s) s)"

text \<open>What \<open>rollback\<close> does when messages are left in the delivered list.\<close>

definition rollback_delivered :: "unit action" where
  "rollback_delivered s =
     (let newest = hd (deliveredMessages s); oldest = last (deliveredMessages s) in
      andthen (deref_message newest) (\<lambda>m.
      andthen (updates (\<lambda>s. s\<lparr>redeliveryDelay :=
          (if messageRedeliveryCounter m > 0 then nextRedeliveryDelay (info s) (redeliveryDelay s)
           else initialRedeliveryDelay (info s))\<rparr>)) (\<lambda>_.
      andthen (deref_message oldest) (\<lambda>om.
      andthen (bump_delivered (length (deliveredMessages s)) 0) (\<lambda>_ s.
        let lastMsg = hd (deliveredMessages s) in
        if maximumRedeliveries (info s) \<noteq> NO_MAXIMUM_REDELIVERIES \<and>
           messageRedeliveryCounter m + 1 > maximumRedeliveries (info s)
        then poison_delivered lastMsg (messageId om) s
        else
          andthen (\<lambda>s.
            if messageRedeliveryCounter m > 0 then
              andthen (lifts (new_MessageAck lastMsg REDELIVERED (int (length (deliveredMessages s))))) (\<lambda>ack.
                sendAck (ack\<lparr>firstMessageId := messageId om\<rparr>) False) s
            else returns () s) (\<lambda>_. redeliver_delivered) s)))) s)"

definition consumer_rollback :: "unit action" where
  "consumer_rollback =
     andthen clearDeliveredList (\<lambda>_.
     andthen (\<lambda>s. if optimizeAcknowledge s \<and> \<not> isBrowser (info s)
                then rollback_unacked (length (deliveredMessages s)) 0 s else returns () s) (\<lambda>_.
     andthen rollbackPreviouslyDeliveredAndNotRedelivered (\<lambda>_ s.
       if deliveredMessages s = [] then returns () s
       else
         andthen rollback_delivered (\<lambda>_ s. if listener s then redispatch s else returns () s) s)))"

section \<open>Receiving from the session\<close>

datatype ack_handler = NoOpAckHandler | ClientAckHandler | IndividualAckHandler "message_dispatch option"

definition createCMSMessage :: "message_dispatch \<Rightarrow> (message \<times> ack_handler) action" where
  "createCMSMessage d = andthen (deref_message d) (\<lambda>m s.
     returns (m,
       if ackMode (info s) = CLIENT_ACKNOWLEDGE then ClientAckHandler
       else if ackMode (info s) = INDIVIDUAL_ACKNOWLEDGE then IndividualAckHandler (Some d)
       else NoOpAckHandler) s)"

text \<open>
  \<open>acknowledgeMessage\<close> of the handlers; the session of the model has this one consumer, so
  \<open>session->acknowledge()\<close> is the consumer's.
\<close>

definition acknowledgeMessage :: "ack_handler \<Rightarrow> ack_handler action" where
  "acknowledgeMessage h =
     (case h of
        NoOpAckHandler \<Rightarrow> returns h
      | ClientAckHandler \<Rightarrow> andthen acknowledge (\<lambda>_. returns h)
      | IndividualAckHandler None \<Rightarrow> returns h
      | IndividualAckHandler (Some d) \<Rightarrow>
          andthen (acknowledge_one d INDIVIDUAL) (\<lambda>_. returns (IndividualAckHandler None)))"

definition inProgressClearRequired :: "consumer \<Rightarrow> consumer" where
  "inProgressClearRequired s =
     s\<lparr>inProgressClearRequiredFlag := inProgressClearRequiredFlag s + 1, isClearDeliveredList := True\<rparr>"

definition clearMessagesInProgress :: "unit action" where
  "clearMessagesInProgress s =
     (if inProgressClearRequiredFlag s > 0 then
        let (ms, ch) = lc_removeAll (unconsumedMessages s) in
        andthen (updates (unconsumedMessages_update (\<lambda>_. ch))) (\<lambda>_.
        andthen (if isBrowser (info s) then returns ()
                 else for_each ms (\<lambda>d. rollbackDuplicate (dispatchMessage d))) (\<lambda>_.
          updates (\<lambda>s. s\<lparr>inProgressClearRequiredFlag := inProgressClearRequiredFlag s - 1\<rparr>))) s
      else returns () s)"

datatype listener_result = Completed | ThrowsRuntimeException string | ThrowsException decaf_exception

type_synonym message_listener = "message \<Rightarrow> ack_handler \<Rightarrow> consumer \<Rightarrow> listener_result \<times> consumer"

definition setRollbackCause :: "message_dispatch \<Rightarrow> string \<Rightarrow> consumer \<Rightarrow> consumer" where
  "setRollbackCause d cause s = s\<lparr>deliveredMessages :=
     map (\<lambda>x. if dispatchRef x = dispatchRef d then x\<lparr>rollbackCause := cause\<rparr> else x) (deliveredMessages s)\<rparr>"

definition call_listener :: "message_listener \<Rightarrow> message_dispatch \<Rightarrow> message \<Rightarrow> ack_handler \<Rightarrow> unit action" where
  "call_listener onMessage d m h =
     andthen (\<lambda>s. if consumerExpiryCheckEnabled s
         then andthen currentTimeMillis (\<lambda>now. returns (isExpired now m)) s else returns False s) (\<lambda>expired s.
       if expired then afterMessageIsConsumed d True s
       else
         (case onMessage m h s of
            (Completed, s') \<Rightarrow> afterMessageIsConsumed d False s'
          | (ThrowsRuntimeException cause, s') \<Rightarrow>
              andthen (updates (setRollbackCause d cause)) (\<lambda>_ s.
                if isAutoAcknowledgeBatch s \<or> isAutoAcknowledgeEach s \<or> ackMode (info s) = INDIVIDUAL_ACKNOWLEDGE
                then consumer_rollback s
                else afterMessageIsConsumed d False s) s'
          | (ThrowsException e, s') \<Rightarrow> throws e s'))"

datatype dispatch_next = Finished | ReturnEarly | DispatchAgain

definition dispatch_limit_text :: "consumer \<Rightarrow> string" where
  "dispatch_limit_text s = ''dispatch to '' @ consumerId (info s) @ '' exceeds redelivery policy limit:'' @
     Long_toString (maximumRedeliveries (info s))"

definition dispatch_new :: "message_listener \<Rightarrow> message_dispatch \<Rightarrow> dispatch_next action" where
  "dispatch_new onMessage d s =
     (if listener s \<and> lc_running (unconsumedMessages s) then
        (if redeliveryExceeded d s then andthen (posionAck d (dispatch_limit_text s)) (\<lambda>_. returns ReturnEarly) s
         else
           andthen (createCMSMessage d) (\<lambda>(m, h).
           andthen (beforeMessageIsConsumed d) (\<lambda>_.
           andthen (call_listener onMessage d m h) (\<lambda>_. returns Finished))) s)
      else
        andthen (if lc_running (unconsumedMessages s) then returns () else rollbackDuplicate (dispatchMessage d)) (\<lambda>_.
        andthen (updates (\<lambda>s. s\<lparr>unconsumedMessages := lc_enqueue (ch_place s) d (unconsumedMessages s)\<rparr>)) (\<lambda>_.
          returns Finished)) s)"

definition dispatch_duplicate :: "message_dispatch \<Rightarrow> dispatch_next action" where
  "dispatch_duplicate d =
     andthen (redeliveryExpectedInCurrentTransaction d True) (\<lambda>expected s.
       if expected then
         (if transactedIndividualAck s
          then andthen (immediateIndividualTransactedAck d) (\<lambda>_. returns Finished) s
          else andthen (lifts (new_MessageAck d DELIVERED 1)) (\<lambda>ack.
               andthen (sendAck ack False) (\<lambda>_. returns Finished)) s)
       else
         andthen (redeliveryPendingInCompetingTransaction d) (\<lambda>competing s.
           if competing then
             andthen (rollbackDuplicate (dispatchMessage d)) (\<lambda>_. returns DispatchAgain) s
           else
             andthen (posionAck d (''Suppressing duplicate delivery on connection, consumer '' @ consumerId (info s)))
               (\<lambda>_. returns Finished) s) s)"

definition dispatch_body :: "message_listener \<Rightarrow> message_dispatch \<Rightarrow> dispatch_next action" where
  "dispatch_body onMessage d =
     andthen clearMessagesInProgress (\<lambda>_.
     andthen clearDeliveredList (\<lambda>_ s.
       if lc_closed (unconsumedMessages s) then returns Finished s
       else
         andthen (if isBrowser (info s) then returns False else connection_isDuplicate (dispatchMessage d))
           (\<lambda>duplicate. if duplicate then dispatch_duplicate d else dispatch_new onMessage d) s))"

definition count_dispatch :: "consumer \<Rightarrow> consumer" where
  "count_dispatch s = s\<lparr>dispatchedCount :=
     (if (dispatchedCount s + 1) mod 1000 = 0 then 0 else dispatchedCount s + 1)\<rparr>"

text \<open>
  The whole of \<open>dispatch\<close>.  It calls itself when the message is pending in the transaction of another
  consumer; \<open>None\<close> would be a call that never returns.
\<close>

partial_function (option) dispatch ::
    "message_listener \<Rightarrow> message_dispatch \<Rightarrow> consumer \<Rightarrow> (unit result \<times> consumer) option" where
  "dispatch onMessage d s =
     (let (r, s1) = amq_boundary (dispatch_body onMessage d) s in
      if r = Inr DispatchAgain then
        Option.bind (dispatch onMessage d s1) (\<lambda>(r2, s2). Some (r2, if isl r2 then s2 else count_dispatch s2))
      else if r = Inr ReturnEarly then Some (Inr (), s1)
      else if r = Inr Finished then Some (Inr (), count_dispatch s1)
      else Some (map_sum id (\<lambda>_. ()) r, s1))"

section \<open>Receiving by the application\<close>

definition sendPullRequest :: "int \<Rightarrow> unit action" where
  "sendPullRequest timeout = amq_boundary (
     andthen clearDeliveredList (\<lambda>_ s.
       if pending (unconsumedMessages s) \<noteq> [] then returns () s
       else if prefetchSize (info s) = 0 then transmit (Oneway (MessagePull timeout)) s
       else returns () s))"

definition checkClosed :: "unit action" where
  "checkClosed s = (if lc_closed (unconsumedMessages s) then throws CMSIllegalStateException s else returns () s)"

definition checkMessageListener :: "unit action" where
  "checkMessageListener s = (if listener s then throws CMSIllegalStateException s else returns () s)"

text \<open>
  \<open>unconsumedMessages->dequeue(timeout)\<close>.  What the other threads do to the consumer until this thread
  is woken is given as a list of state changes, one for each wake-up.
\<close>

type_synonym wakes = "(consumer \<Rightarrow> consumer) list"

fun channel_await :: "int \<Rightarrow> wakes \<Rightarrow> consumer \<Rightarrow> wakes option \<times> consumer" where
  "channel_await timeout ws s =
     (let c = unconsumedMessages s in
      if timeout \<noteq> 0 \<and> \<not> lc_closed c \<and> (pending c = [] \<or> \<not> lc_running c) then
        (case ws of
           [] \<Rightarrow> (None, s)
         | w # ws' \<Rightarrow> if timeout = - 1 then channel_await timeout ws' (w s) else (Some ws', w s))
      else (Some ws, s))"

definition channel_dequeue :: "int \<Rightarrow> wakes \<Rightarrow> (message_dispatch option \<times> wakes) action" where
  "channel_dequeue timeout ws s =
     (case channel_await timeout ws s of
        (None, s') \<Rightarrow> (Inl StillWaiting, s')
      | (Some ws', s') \<Rightarrow>
          let (d, c) = lc_dequeueNoWait (unconsumedMessages s') in (Inr (d, ws'), s'\<lparr>unconsumedMessages := c\<rparr>))"

definition remaining :: "int \<Rightarrow> int \<Rightarrow> int action" where
  "remaining timeout deadline =
     (if timeout > 0 then andthen currentTimeMillis (\<lambda>now. returns (max (deadline - now) 0)) else returns timeout)"

definition receive_limit_text :: "consumer \<Rightarrow> string" where
  "receive_limit_text s = ''dispatch to '' @ consumerId (info s) @ '' exceeds RedeliveryPolicy limit: '' @
     Long_toString (maximumRedeliveries (info s))"

text \<open>
  One round of the loop of \<open>dequeue\<close>: \<open>Some\<close> result leaves the loop, \<open>None\<close> goes on with the timeout that
  is left.
\<close>

definition dequeue_round ::
    "int \<Rightarrow> int \<Rightarrow> wakes \<Rightarrow> (message_dispatch option option \<times> int \<times> wakes) action" where
  "dequeue_round timeout deadline ws =
     andthen (channel_dequeue timeout ws) (\<lambda>(r, ws') s.
       case r of
         None \<Rightarrow>
           if timeout > 0 \<and> \<not> lc_closed (unconsumedMessages s)
           then andthen (remaining timeout deadline) (\<lambda>t. returns (None, t, ws')) s
           else (case failureError s of
                   Some e \<Rightarrow> throws CMSException s
                 | None \<Rightarrow> returns (Some None, timeout, ws') s)
       | Some d \<Rightarrow>
           if dispatchMessage d = None then returns (Some None, timeout, ws') s
           else
             andthen (consumeExpiredMessage d) (\<lambda>expired s.
               if expired then
                 andthen (beforeMessageIsConsumed d) (\<lambda>_.
                 andthen (afterMessageIsConsumed d True) (\<lambda>_.
                 andthen (remaining timeout deadline) (\<lambda>t.
                 andthen (sendPullRequest t) (\<lambda>_. returns (None, t, ws'))))) s
               else if redeliveryExceeded d s then
                 andthen (posionAck d (receive_limit_text s)) (\<lambda>_.
                 andthen (remaining timeout deadline) (\<lambda>t.
                 andthen (sendPullRequest t) (\<lambda>_. returns (None, t, ws')))) s
               else returns (Some (Some d), timeout, ws') s) s)"

text \<open>
  The loop.  Every round that goes on took a message out or used a wake-up, so with \<open>n\<close> rounds at hand
  the result \<open>StillWaiting\<close> for want of rounds needs as many messages and wake-ups.
\<close>

fun dequeue_loop :: "nat \<Rightarrow> int \<Rightarrow> int \<Rightarrow> wakes \<Rightarrow> message_dispatch option action" where
  "dequeue_loop 0 timeout deadline ws = throws StillWaiting"
| "dequeue_loop (Suc n) timeout deadline ws =
     andthen (dequeue_round timeout deadline ws) (\<lambda>(r, t, ws').
       case r of Some d \<Rightarrow> returns d | None \<Rightarrow> dequeue_loop n t deadline ws')"

definition consumer_dequeue :: "nat \<Rightarrow> int \<Rightarrow> wakes \<Rightarrow> message_dispatch option action" where
  "consumer_dequeue rounds timeout ws = cms_boundary (
     andthen (if timeout > 0 then andthen currentTimeMillis (\<lambda>now. returns (now + timeout)) else returns 0)
       (\<lambda>deadline. dequeue_loop rounds timeout deadline ws))"

definition receive_finish :: "message_dispatch option \<Rightarrow> (message \<times> ack_handler) option action" where
  "receive_finish r =
     (case r of
        None \<Rightarrow> returns None
      | Some d \<Rightarrow>
          andthen (beforeMessageIsConsumed d) (\<lambda>_.
          andthen (afterMessageIsConsumed d False) (\<lambda>_.
          andthen (createCMSMessage d) (\<lambda>m. returns (Some m)))))"

definition receive :: "nat \<Rightarrow> wakes \<Rightarrow> (message \<times> ack_handler) option action" where
  "receive rounds ws = cms_boundary (
     andthen checkClosed (\<lambda>_. andthen checkMessageListener (\<lambda>_.
     andthen (sendPullRequest 0) (\<lambda>_.
     andthen (consumer_dequeue rounds (- 1) ws) receive_finish))))"

definition receive_timeout :: "nat \<Rightarrow> int \<Rightarrow> wakes \<Rightarrow> (message \<times> ack_handler) option action" where
  "receive_timeout rounds timeout ws = cms_boundary (
     andthen checkClosed (\<lambda>_. andthen checkMessageListener (\<lambda>_.
       if timeout = 0 then receive rounds ws
       else
         andthen (sendPullRequest timeout) (\<lambda>_ s.
         andthen (consumer_dequeue rounds (if prefetchSize (info s) = 0 then - 1 else timeout) ws) receive_finish s))))"

definition receiveNoWait :: "nat \<Rightarrow> wakes \<Rightarrow> (message \<times> ack_handler) option action" where
  "receiveNoWait rounds ws = cms_boundary (
     andthen checkClosed (\<lambda>_. andthen checkMessageListener (\<lambda>_.
     andthen (sendPullRequest (- 1)) (\<lambda>_ s.
     andthen (consumer_dequeue rounds (if prefetchSize (info s) = 0 then - 1 else 0) ws) receive_finish s))))"

definition setMessageListener :: "bool \<Rightarrow> unit action" where
  "setMessageListener l = cms_boundary (
     andthen checkClosed (\<lambda>_ s.
       if prefetchSize (info s) = 0 \<and> l then throws ActiveMQException s
       else if l then
         let wasStarted = lc_running (sessionQueue s);
             stop_session = (\<lambda>s. consumer_stop s\<lparr>sessionQueue := lc_stop (sessionQueue s)\<rparr>);
             start_session = (\<lambda>s. consumer_start s\<lparr>sessionQueue := lc_start (sessionQueue s)\<rparr>)
         in andthen (updates (\<lambda>s. (if wasStarted then stop_session s else s)\<lparr>listener := True\<rparr>)) (\<lambda>_.
            andthen redispatch (\<lambda>_.
              updates (\<lambda>s. if wasStarted then start_session s else s))) s
       else updates (listener_update (\<lambda>_. False)) s))"

definition iterate :: "message_listener \<Rightarrow> consumer \<Rightarrow> (bool result \<times> consumer) option" where
  "iterate onMessage s =
     (if listener s then
        (case lc_dequeueNoWait (unconsumedMessages s) of
           (None, _) \<Rightarrow> Some (Inr False, s)
         | (Some d, c) \<Rightarrow>
             map_option (\<lambda>(r, s'). (map_sum id (\<lambda>_. True) r, s')) (dispatch onMessage d (s\<lparr>unconsumedMessages := c\<rparr>)))
      else Some (Inr False, s))"

definition setOptimizeAcknowledge :: "bool \<Rightarrow> unit action" where
  "setOptimizeAcknowledge v =
     andthen (\<lambda>s. if optimizeAcknowledge s \<and> \<not> v then deliverAcks s else returns () s)
       (\<lambda>_. updates (optimizeAcknowledge_update (\<lambda>_. v)))"

section \<open>Closing\<close>

text \<open>
  \<open>dispose\<close>: shutting the executor down lets the acknowledgements that were handed to it run; \<open>removeConsumer\<close>
  takes the consumer out of the session and its audit out of the connection audit.
\<close>

definition run_ack_tasks :: "consumer \<Rightarrow> consumer" where
  "run_ack_tasks s =
     (let acks = [a. AsyncMessageAckTask a \<leftarrow> scheduled s] in
      fold run_ack_task acks (s\<lparr>scheduled := filter (\<lambda>t. case t of AsyncMessageAckTask _ \<Rightarrow> False | _ \<Rightarrow> True) (scheduled s)\<rparr>))"

definition removeConsumer :: "consumer \<Rightarrow> consumer" where
  "removeConsumer s = s\<lparr>inSession := False,
     connectionAudit := removeDispatcher (dispatcherHash (info s)) (consumerRef (info s)) (connectionAudit s)\<rparr>"

definition dispose :: "unit action" where
  "dispose = amq_boundary (\<lambda>s.
     if lc_closed (unconsumedMessages s) then returns () s
     else
       andthen (\<lambda>s. if isTransacted s then returns () s
           else andthen deliverAcks (\<lambda>_ s. if isAutoAcknowledgeBatch s then acknowledge s else returns () s) s) (\<lambda>_.
       andthen (updates (\<lambda>s. run_ack_tasks (s\<lparr>started := False\<rparr>))) (\<lambda>_.
       andthen (\<lambda>s. if isManualAcknowledge s \<and> \<not> isBrowser (info s)
           then for_each (deliveredMessages s) (\<lambda>d. rollbackDuplicate (dispatchMessage d)) s else returns () s) (\<lambda>_.
       andthen (updates (\<lambda>s. removeConsumer ((if isTransacted s then s else s\<lparr>deliveredMessages := []\<rparr>)
           \<lparr>unconsumedMessages := lc_close (unconsumedMessages s)\<rparr>))) (\<lambda>_ s.
         let (ms, c) = lc_removeAll (unconsumedMessages s) in
         andthen (updates (unconsumedMessages_update (\<lambda>_. c))) (\<lambda>_.
           if isBrowser (info s) then returns ()
           else for_each ms (\<lambda>d. rollbackDuplicate (dispatchMessage d))) s)))) s)"

definition doClose :: "unit action" where
  "doClose = amq_boundary (
     andthen dispose (\<lambda>_ s. transmit (Oneway (RemoveInfo (lastDeliveredSequenceId s))) s))"

definition close :: "unit action" where
  "close = cms_boundary (\<lambda>s.
     if lc_closed (unconsumedMessages s) then returns () s
     else if deliveredMessages s \<noteq> [] \<and> transactionId s \<noteq> None \<and> \<not> closeSyncRegistered s then
       andthen (updates (closeSyncRegistered_update (\<lambda>_. True))) (\<lambda>_.
       andthen lookupConsumerKernel (\<lambda>_.
         updates (\<lambda>s. s\<lparr>synchronizations := synchronizations s @ [CloseSynchronization]\<rparr>))) s
     else doClose s)"

section \<open>Creating a consumer\<close>

text \<open>
  What the constructor reads of the connection besides \<open>consumer_info\<close>; \<open>isDeleted\<close> says which temporary
  destinations are gone.
\<close>

record connection_settings =
  connectionText :: string
  isDeleted :: "destination \<Rightarrow> bool"
  connOptimizeAcknowledge :: bool
  connNonBlockingRedelivery :: bool
  connTransactedIndividualAck :: bool
  connConsumerExpiryCheckEnabled :: bool

definition isTemporary :: "destination \<Rightarrow> bool" where
  "isTemporary d = (destinationType d = TEMPORARY_TOPIC \<or> destinationType d = TEMPORARY_QUEUE)"

definition contains_text :: "string \<Rightarrow> string \<Rightarrow> bool" where
  "contains_text hay needle = list_ex (\<lambda>i. take (length needle) (drop i hay) = needle) [0..<Suc (length hay)]"

text \<open>\<open>ActiveMQConsumerKernelConfig()\<close>: the initial values; the fields of the world are kept.\<close>

definition initial_config :: "consumer_info \<Rightarrow> int \<Rightarrow> consumer \<Rightarrow> consumer" where
  "initial_config i now w = w\<lparr>info := i, transactedIndividualAck := False, nonBlockingRedelivery := False,
     consumerExpiryCheckEnabled := True, optimizeAcknowledge := False, listener := False, deliveringAcks := False,
     started := False, closeSyncRegistered := False, unconsumedMessages := new_lc, deliveredMessages := [],
     lastDeliveredSequenceId := - 1, pendingAck := None, deliveredCounter := 0, additionalWindowSize := 0,
     synchronizationRegistered := False, isClearDeliveredList := False, inProgressClearRequiredFlag := 0,
     redeliveryDelay := 0, failureError := None, previouslyDeliveredMessages := None, optimizeAckTimestamp := now,
     ackCounter := 0, dispatchedCount := 0\<rparr>"

text \<open>
  The constructor for a destination without options.  The settings of the connection are read after the
  destination's options have been applied and replace them.
\<close>

definition new_consumer :: "connection_settings \<Rightarrow> consumer_info \<Rightarrow> bool \<Rightarrow> unit action" where
  "new_consumer conn i hasListener w =
     (let dest = consumerDestination i in
      if physicalName dest = [] then throws InvalidDestinationException w
      else if isTemporary dest \<and> \<not> contains_text (physicalName dest) (connectionText conn)
      then throws InvalidDestinationException w
      else if isTemporary dest \<and> isDeleted conn dest then throws InvalidDestinationException w
      else if prefetchSize i < 0 then throws CMSException w
      else
        andthen currentTimeMillis (\<lambda>now.
        andthen (updates (initial_config i now)) (\<lambda>_.
        andthen (if hasListener then setMessageListener True else returns ()) (\<lambda>_.
          updates (\<lambda>s. s\<lparr>optimizeAcknowledge := connOptimizeAcknowledge conn \<and> ackMode i = AUTO_ACKNOWLEDGE \<and> \<not> isBrowser i,
            nonBlockingRedelivery := connNonBlockingRedelivery conn,
            transactedIndividualAck := connTransactedIndividualAck conn \<or> connNonBlockingRedelivery conn \<or>
              isMessagePrioritySupported i,
            consumerExpiryCheckEnabled := connConsumerExpiryCheckEnabled conn\<rparr>)))) w)"

end
