(* ===== verification/TransactionContext.thy ===== *)
theory TransactionContext
  imports ConsumerKernel
begin

text \<open>
  Local transactions of a session: \<open>activemq/core/ActiveMQTransactionContext.cpp\<close> (\<open>commit\<close>,
  \<open>rollback\<close> and the notification of the synchronizations), the two synchronizations of the consumer
  (\<open>ActiveMQConsumerKernel.cpp\<close>) and \<open>commit\<close>, \<open>rollback\<close>, \<open>recover\<close> of
  \<open>ActiveMQSessionKernel.cpp\<close>, for a session with one consumer.  The set of synchronizations, which the
  code orders by address, is a list in the order of registration.  XA transactions are not modelled.
\<close>

section \<open>Synchronizations\<close>

definition ends_registration :: "consumer \<Rightarrow> consumer" where
  "ends_registration s = s\<lparr>synchronizationRegistered := False\<rparr>"

definition sync_beforeEnd :: "synchronization \<Rightarrow> unit action" where
  "sync_beforeEnd y =
     (case y of
        CloseSynchronization \<Rightarrow> returns ()
      | TransactionSynchronization \<Rightarrow>
          andthen (\<lambda>s.
            if transactedIndividualAck s then
              andthen clearDeliveredList (\<lambda>_. andthen waitForRedeliveries (\<lambda>_. rollbackOnFailedRecoveryRedelivery)) s
            else acknowledge s) (\<lambda>_. updates ends_registration))"

definition sync_afterCommit :: "synchronization \<Rightarrow> unit action" where
  "sync_afterCommit y =
     (case y of
        CloseSynchronization \<Rightarrow> doClose
      | TransactionSynchronization \<Rightarrow> updates (\<lambda>s. ends_registration (consumer_commit s)))"

definition sync_afterRollback :: "synchronization \<Rightarrow> unit action" where
  "sync_afterRollback y =
     (case y of
        CloseSynchronization \<Rightarrow> doClose
      | TransactionSynchronization \<Rightarrow> andthen consumer_rollback (\<lambda>_. updates ends_registration))"

section \<open>The transaction context\<close>

definition beforeEnd :: "unit action" where
  "beforeEnd s = for_each (synchronizations s) sync_beforeEnd s"

text \<open>The local object \<open>Finally\<close> clears the set on every way out.\<close>

definition finally_clear :: "unit action \<Rightarrow> unit action" where
  "finally_clear m s = (let (r, s') = m s in (r, s'\<lparr>synchronizations := []\<rparr>))"

definition afterCommit :: "unit action" where
  "afterCommit s = finally_clear (for_each (synchronizations s) sync_afterCommit) s"

definition afterRollback :: "unit action" where
  "afterRollback s = finally_clear (for_each (synchronizations s) sync_afterRollback) s"

text \<open>\<open>rollback\<close> ignores a \<open>TransactionRolledBackException\<close> of \<open>beforeEnd\<close>, and only that.\<close>

definition ignore_rolled_back :: "unit action \<Rightarrow> unit action" where
  "ignore_rolled_back m s =
     (case m s of (Inl e, s') \<Rightarrow> (if e = TransactionRolledBackException then (Inr (), s') else (Inl e, s')) | r \<Rightarrow> r)"

definition tx_rollback :: "unit action" where
  "tx_rollback =
     andthen (ignore_rolled_back beforeEnd) (\<lambda>_ s.
       case transactionId s of
         None \<Rightarrow> returns () s
       | Some tx \<Rightarrow>
           andthen (updates (transactionId_update (\<lambda>_. None))) (\<lambda>_.
           andthen (transmit (SyncRequest (TransactionInfo TRANSACTION_STATE_ROLLBACK tx))) (\<lambda>_. afterRollback)) s)"

definition tx_commit :: "unit action" where
  "tx_commit =
     andthen (catch_cms beforeEnd (\<lambda>e. andthen tx_rollback (\<lambda>_. throws e))) (\<lambda>_ s.
       case transactionId s of
         None \<Rightarrow> returns () s
       | Some tx \<Rightarrow>
           andthen (updates (transactionId_update (\<lambda>_. None))) (\<lambda>_.
             catch_cms
               (andthen (transmit (SyncRequest (TransactionInfo TRANSACTION_STATE_COMMITONEPHASE tx))) (\<lambda>_. afterCommit))
               (\<lambda>e. andthen afterRollback (\<lambda>_. throws e))) s)"

section \<open>The session\<close>

definition session_commit :: "unit action" where
  "session_commit = cms_boundary (\<lambda>s.
     if sessionClosed s then throws ActiveMQException s
     else if \<not> isTransacted s then throws ActiveMQException s
     else tx_commit s)"

definition session_rollback :: "unit action" where
  "session_rollback = cms_boundary (\<lambda>s.
     if sessionClosed s then throws ActiveMQException s
     else if \<not> isTransacted s then throws ActiveMQException s
     else tx_rollback s)"

definition session_recover :: "unit action" where
  "session_recover = cms_boundary (\<lambda>s.
     if sessionClosed s then throws ActiveMQException s
     else if isTransacted s then throws CMSIllegalStateException s
     else if inSession s then consumer_rollback s
     else returns () s)"

end
