(* ===== verification/ConsumerAcks.thy ===== *)
theory ConsumerAcks
  imports TransactionContext Ids
begin

text \<open>
  What the consumer promises: which messages its acknowledgements cover, what commit and rollback of a
  transaction do to the delivered messages, that receiving returns, and where the code does not do what
  it means to.
\<close>

section \<open>Running methods\<close>

definition reliable :: "consumer \<Rightarrow> bool" where
  "reliable s \<longleftrightarrow> (\<forall>n. \<not> transportFails s n)"

text \<open>A dispatch that carries a message with an id.\<close>

definition carries :: "message_dispatch \<Rightarrow> message_id \<Rightarrow> bool" where
  "carries d mid \<longleftrightarrow> (\<exists>m. dispatchMessage d = Some m \<and> messageId m = Some mid)"

definition id_of :: "message_dispatch \<Rightarrow> message_id option" where
  "id_of d = Option.bind (dispatchMessage d) messageId"

text \<open>No failover is being processed.\<close>

definition settled :: "consumer \<Rightarrow> bool" where
  "settled s \<longleftrightarrow> \<not> isClearDeliveredList s \<and> previouslyDeliveredMessages s = None \<and> inProgressClearRequiredFlag s \<le> 0"

named_theorems run_simps \<open>running straight-line methods\<close>

lemmas action_run [run_simps] = andthen_def amq_boundary_def cms_boundary_def catch_cms_def
  returns_def updates_def throws_def lifts_def

definition wire_of :: "consumer \<Rightarrow> bool \<Rightarrow> message_ack \<Rightarrow> wire" where
  "wire_of s async a = (if async \<or> isSendAcksAsync (info s) \<or> isTransacted s
     then Oneway (AckCommand a) else SyncRequest (AckCommand a))"

text \<open>The state after a successful send.\<close>

definition sent_on :: "wire \<Rightarrow> consumer \<Rightarrow> consumer" where
  "sent_on w s = s\<lparr>transportFails := (\<lambda>n. transportFails s (Suc n)), sent := sent s @ [w]\<rparr>"

lemma transmit_ok [run_simps]: "\<not> transportFails s 0 \<Longrightarrow> transmit w s = (Inr (), sent_on w s)"
  by (simp add: transmit_def sent_on_def)

lemma sendAck_ok [run_simps]: "\<not> transportFails s 0 \<Longrightarrow> sendAck a async s = (Inr (), sent_on (wire_of s async a) s)"
  by (simp add: sendAck_def wire_of_def transmit_ok)

lemma reliable_sent_on [simp]: "reliable s \<Longrightarrow> reliable (sent_on w s)" "reliable s \<Longrightarrow> \<not> transportFails s n"
  by (simp_all add: reliable_def sent_on_def)

text \<open>A consumer of the queue \<open>q\<close> and dispatches for it, as concrete instances.\<close>

definition sample_info :: "ack_mode \<Rightarrow> consumer_info" where
  "sample_info mode = \<lparr>ackMode = mode, consumerId = ''c:1:1:1'', consumerRef = 7,
     consumerDestination = \<lparr>physicalName = ''q'', destinationType = QUEUE\<rparr>, prefetchSize = 10, isBrowser = False,
     isMessagePrioritySupported = False, isSendAcksAsync = False, connectionChecksDuplicates = True,
     dispatcherHash = (\<lambda>n. int n), optimizeAcknowledgeTimeOut = 0, failoverRedeliveryWaitPeriod = 0,
     maximumRedeliveries = 6, initialRedeliveryDelay = 1000, nextRedeliveryDelay = (\<lambda>_. 1000)\<rparr>"

definition sample_consumer :: "ack_mode \<Rightarrow> consumer" where
  "sample_consumer mode = \<lparr>info = sample_info mode, transactedIndividualAck = False, nonBlockingRedelivery = False,
     consumerExpiryCheckEnabled = True, optimizeAcknowledge = False, listener = False, deliveringAcks = False,
     started = True, closeSyncRegistered = False,
     unconsumedMessages = \<lparr>lc_closed = False, lc_running = True, pending = []\<rparr>, deliveredMessages = [],
     lastDeliveredSequenceId = - 1, pendingAck = None, deliveredCounter = 0, additionalWindowSize = 0,
     synchronizationRegistered = False, isClearDeliveredList = False, inProgressClearRequiredFlag = 0,
     redeliveryDelay = 0, failureError = None, previouslyDeliveredMessages = None, optimizeAckTimestamp = 0,
     ackCounter = 0, dispatchedCount = 0, inSession = True, sessionClosed = False,
     sessionQueue = \<lparr>lc_closed = False, lc_running = True, pending = []\<rparr>, transactionId = None,
     localTransactionIds = 0, synchronizations = [], connectionAudit = new_ConnectionAudit 2048 64,
     sessions = [[ThisConsumer]], clock = (\<lambda>n. int n), naps = [], transportFails = (\<lambda>_. False), sent = [],
     scheduled = []\<rparr>"

definition sample_dispatch :: "nat \<Rightarrow> message_dispatch" where
  "sample_dispatch n = nullDispatch\<lparr>dispatchRef := n, dispatchMessage := Some (newMessage\<lparr>messageIdRef := n,
     messageDestination := Some \<lparr>physicalName = ''q'', destinationType = QUEUE\<rparr>,
     messageId := Some (new_MessageId\<lparr>producerId := Some \<lparr>connectionId = ''c'', idValue = 1, sessionId = 1\<rparr>,
       producerSequenceId := int n\<rparr>)\<rparr>)\<rparr>"

lemmas sample_defs = sample_info_def sample_consumer_def sample_dispatch_def nullDispatch_def newMessage_def new_MessageId_def

section \<open>Acknowledging all delivered messages\<close>

definition covering_ack :: "ack_type \<Rightarrow> message_dispatch list \<Rightarrow> message_ack" where
  "covering_ack t ds = \<lparr>ackType = t, ackConsumerId = dispatchConsumerId (hd ds),
     ackDestination = dispatchDestination (hd ds), firstMessageId = id_of (last ds),
     lastMessageId = id_of (hd ds), messageCount = int (length ds), ackTransactionId = None, poisonCause = None\<rparr>"

lemma makeAck_ok [run_simps]:
  assumes "deliveredMessages s \<noteq> []" and "\<forall>d \<in> set (deliveredMessages s). dispatchMessage d \<noteq> None"
  shows "makeAckForAllDeliveredMessages t s = (Inr (Some (covering_ack t (deliveredMessages s))), s)"
proof -
  have "dispatchMessage (hd (deliveredMessages s)) \<noteq> None" "dispatchMessage (last (deliveredMessages s)) \<noteq> None"
    using assms by simp_all
  then obtain m1 m2 where "dispatchMessage (hd (deliveredMessages s)) = Some m1"
    "dispatchMessage (last (deliveredMessages s)) = Some m2" by blast
  then show ?thesis
    using assms(1) by (simp add: makeAckForAllDeliveredMessages_def new_MessageAck_def deref_message_def
        covering_ack_def id_of_def run_simps)
qed

lemma makeAck_none [run_simps]:
  "deliveredMessages s = [] \<Longrightarrow> makeAckForAllDeliveredMessages t s = (Inr None, s)"
  by (simp add: makeAckForAllDeliveredMessages_def run_simps)

lemma settled_steps [run_simps]:
  "settled s \<Longrightarrow> clearDeliveredList s = (Inr (), s)" "settled s \<Longrightarrow> waitForRedeliveries s = (Inr (), s)"
  "settled s \<Longrightarrow> rollbackOnFailedRecoveryRedelivery s = (Inr (), s)"
  "settled s \<Longrightarrow> rollbackPreviouslyDeliveredAndNotRedelivered s = (Inr (), s)"
  "settled s \<Longrightarrow> clearMessagesInProgress s = (Inr (), s)"
  by (simp_all add: settled_def clearDeliveredList_def waitForRedeliveries_def clearMessagesInProgress_def
      rollbackOnFailedRecoveryRedelivery_def rollbackPreviouslyDeliveredAndNotRedelivered_def run_simps)

text \<open>
  \<open>acknowledge()\<close> of a session that is not transacted, with delivered messages: one acknowledgement of type
  CONSUMED is sent; it names the oldest delivered message as the first, the newest as the last and counts
  them all; nothing stays delivered or pending, and the window counters shrink by as many.
\<close>

theorem acknowledge_covers_delivered:
  assumes "\<not> isTransacted s" and "deliveredMessages s \<noteq> []"
    and "\<forall>d \<in> set (deliveredMessages s). dispatchMessage d \<noteq> None" and "settled s" and "reliable s"
  shows "\<exists>s'. acknowledge s = (Inr (), s') \<and>
    sent s' = sent s @ [wire_of s False (covering_ack CONSUMED (deliveredMessages s))] \<and>
    deliveredMessages s' = [] \<and> pendingAck s' = None \<and>
    deliveredCounter s' = max 0 (deliveredCounter s - int (length (deliveredMessages s)))"
proof -
  have 1: "wire_of (pendingAck_update (\<lambda>_. None) s) = wire_of s" "isTransacted (pendingAck_update (\<lambda>_. None) s) = isTransacted s"
    by (simp_all add: wire_of_def isTransacted_def fun_eq_iff)
  show ?thesis
    using assms by (simp add: acknowledge_def run_simps 1 reliable_def sent_on_def isTransacted_def Let_def)
qed

theorem acknowledge_covers_delivered_witness:
  "\<exists>s'. acknowledge (sample_consumer CLIENT_ACKNOWLEDGE\<lparr>deliveredMessages := [sample_dispatch 2, sample_dispatch 1]\<rparr>) = (Inr (), s') \<and>
    deliveredMessages s' = [] \<and> pendingAck s' = None \<and>
    sent s' = [SyncRequest (AckCommand (covering_ack CONSUMED [sample_dispatch 2, sample_dispatch 1]))]"
  using acknowledge_covers_delivered [of "sample_consumer CLIENT_ACKNOWLEDGE\<lparr>deliveredMessages := [sample_dispatch 2, sample_dispatch 1]\<rparr>"]
  by (auto simp: sample_defs isTransacted_def settled_def reliable_def wire_of_def)

section \<open>Committing\<close>

lemma transmit_fails [run_simps]:
  "transportFails s 0 \<Longrightarrow>
    transmit w s = (Inl ActiveMQException, s\<lparr>transportFails := (\<lambda>n. transportFails s (Suc n))\<rparr>)"
  by (simp add: transmit_def)

text \<open>The transaction \<open>tx\<close> is under way with messages delivered in it.\<close>

definition in_transaction :: "int \<Rightarrow> consumer \<Rightarrow> bool" where
  "in_transaction tx s \<longleftrightarrow> isTransacted s \<and> \<not> sessionClosed s \<and> \<not> transactedIndividualAck s \<and>
     transactionId s = Some tx \<and> synchronizations s = [TransactionSynchronization] \<and> settled s \<and>
     deliveredMessages s \<noteq> [] \<and> (\<forall>d \<in> set (deliveredMessages s). dispatchMessage d \<noteq> None)"

text \<open>The consumer after \<open>acknowledge()\<close> in a transaction.\<close>

definition acked_in :: "int \<Rightarrow> consumer \<Rightarrow> consumer" where
  "acked_in tx s = (let n = int (length (deliveredMessages s)) in
     (sent_on (Oneway (AckCommand ((covering_ack CONSUMED (deliveredMessages s))\<lparr>ackTransactionId := Some tx\<rparr>)))
        (s\<lparr>pendingAck := None\<rparr>))
       \<lparr>deliveredCounter := max 0 (deliveredCounter s - n), additionalWindowSize := max 0 (additionalWindowSize s - n)\<rparr>)"

lemma acknowledge_in_transaction [run_simps]:
  assumes "in_transaction tx s" and "\<not> transportFails s 0"
  shows "acknowledge s = (Inr (), acked_in tx s)"
proof -
  have 1: "isTransacted s" "settled s" "transactionId s = Some tx" using assms by (simp_all add: in_transaction_def)
  have 2: "isTransacted (pendingAck_update (\<lambda>_. None) s)" using 1(1) by (simp add: isTransacted_def)
  have m: "makeAckForAllDeliveredMessages CONSUMED s = (Inr (Some (covering_ack CONSUMED (deliveredMessages s))), s)"
    by (rule makeAck_ok) (use assms(1) in \<open>simp_all add: in_transaction_def\<close>)
  show ?thesis
    using assms(2) 1 2
    by (simp add: acknowledge_def run_simps m doStartTransaction_def tx_begin_def acked_in_def wire_of_def sent_on_def
        isTransacted_def Let_def)
qed

lemma beforeEnd_in_transaction [run_simps]:
  assumes "in_transaction tx s" and "\<not> transportFails s 0"
  shows "beforeEnd s = (Inr (), ends_registration (acked_in tx s))"
  using assms acknowledge_in_transaction [OF assms]
  by (simp add: in_transaction_def beforeEnd_def sync_beforeEnd_def run_simps)

lemma acked_in_fields [simp]:
  "transactionId (acked_in tx s) = transactionId s" "synchronizations (acked_in tx s) = synchronizations s"
  "deliveredMessages (acked_in tx s) = deliveredMessages s" "info (acked_in tx s) = info s"
  "unconsumedMessages (acked_in tx s) = unconsumedMessages s" "pendingAck (acked_in tx s) = None"
  "transportFails (acked_in tx s) = (\<lambda>n. transportFails s (Suc n))"
  "sent (acked_in tx s) = sent s @
     [Oneway (AckCommand ((covering_ack CONSUMED (deliveredMessages s))\<lparr>ackTransactionId := Some tx\<rparr>))]"
  by (simp_all add: acked_in_def sent_on_def Let_def)

text \<open>
  C13.  \<open>Session::commit()\<close> with messages delivered in transaction \<open>tx\<close>: the broker is sent one acknowledgement
  for exactly the delivered messages, in the transaction, and then the commit; afterwards nothing is
  delivered, the transaction is over and no synchronization is left.
\<close>

theorem commit_acknowledges_then_commits:
  assumes "in_transaction tx s" and "reliable s"
  shows "\<exists>s'. session_commit s = (Inr (), s') \<and>
    sent s' = sent s @
      [Oneway (AckCommand ((covering_ack CONSUMED (deliveredMessages s))\<lparr>ackTransactionId := Some tx\<rparr>)),
       SyncRequest (TransactionInfo TRANSACTION_STATE_COMMITONEPHASE tx)] \<and>
    deliveredMessages s' = [] \<and> transactionId s' = None \<and> synchronizations s' = [] \<and>
    \<not> synchronizationRegistered s' \<and> unconsumedMessages s' = unconsumedMessages s"
proof -
  have 1: "transactionId s = Some tx" "\<not> sessionClosed s" "isTransacted s"
    "synchronizations s = [TransactionSynchronization]" using assms by (simp_all add: in_transaction_def)
  have 2: "beforeEnd s = (Inr (), ends_registration (acked_in tx s))"
    using assms by (intro beforeEnd_in_transaction) simp_all
  show ?thesis
    using 1 2 assms(2)
    by (simp add: session_commit_def tx_commit_def run_simps ends_registration_def afterCommit_def finally_clear_def
        sync_afterCommit_def consumer_commit_def clearPreviouslyDelivered_def sent_on_def)
qed

text \<open>A transaction with two messages delivered.\<close>

definition sample_transaction :: consumer where
  "sample_transaction = sample_consumer SESSION_TRANSACTED\<lparr>transactionId := Some 1,
     synchronizations := [TransactionSynchronization], synchronizationRegistered := True,
     deliveredMessages := [sample_dispatch 2, sample_dispatch 1], deliveredCounter := 2\<rparr>"

lemma sample_transaction_facts:
  "in_transaction 1 sample_transaction" "reliable sample_transaction"
  "deliveredMessages sample_transaction = [sample_dispatch 2, sample_dispatch 1]" "sent sample_transaction = []"
  by (simp_all add: sample_transaction_def sample_defs in_transaction_def settled_def reliable_def isTransacted_def)

theorem commit_acknowledges_then_commits_witness:
  "\<exists>s'. session_commit sample_transaction = (Inr (), s') \<and> deliveredMessages s' = [] \<and> transactionId s' = None \<and>
    sent s' = [Oneway (AckCommand ((covering_ack CONSUMED [sample_dispatch 2, sample_dispatch 1])\<lparr>ackTransactionId := Some 1\<rparr>)),
      SyncRequest (TransactionInfo TRANSACTION_STATE_COMMITONEPHASE 1)]"
  using commit_acknowledges_then_commits [OF sample_transaction_facts(1,2)] sample_transaction_facts(3,4) by auto

text \<open>
  C34.  When the commit request itself fails, nothing is rolled back: \<open>Connection::syncRequest\<close> throws an
  \<open>ActiveMQException\<close>, which is not a \<open>cms::CMSException\<close>, so the handler that calls \<open>afterRollback\<close> is never
  entered.  The messages stay in the delivered list, none is put back for redelivery, the transaction id
  is gone and the synchronization stays behind.
\<close>

theorem failed_commit_is_not_rolled_back:
  assumes "in_transaction tx s" and "\<not> transportFails s 0" and "transportFails s 1"
  shows "\<exists>s'. session_commit s = (Inl CMSException, s') \<and> deliveredMessages s' = deliveredMessages s \<and>
    unconsumedMessages s' = unconsumedMessages s \<and> transactionId s' = None \<and>
    synchronizations s' = [TransactionSynchronization]"
proof -
  have 1: "transactionId s = Some tx" "\<not> sessionClosed s" "isTransacted s"
    "synchronizations s = [TransactionSynchronization]" using assms by (simp_all add: in_transaction_def)
  have 2: "beforeEnd s = (Inr (), ends_registration (acked_in tx s))"
    using assms by (intro beforeEnd_in_transaction) simp_all
  show ?thesis
    using 1 2 assms(3) by (simp add: session_commit_def tx_commit_def run_simps ends_registration_def cms_class_def)
qed

theorem failed_commit_is_not_rolled_back_witness:
  "\<exists>s'. session_commit (sample_transaction\<lparr>transportFails := (\<lambda>n. n = 1)\<rparr>) = (Inl CMSException, s') \<and>
    deliveredMessages s' = [sample_dispatch 2, sample_dispatch 1] \<and> transactionId s' = None"
proof -
  have "in_transaction 1 (sample_transaction\<lparr>transportFails := (\<lambda>n. n = 1)\<rparr>)"
    using sample_transaction_facts(1) by (simp add: in_transaction_def settled_def isTransacted_def)
  from failed_commit_is_not_rolled_back [OF this] sample_transaction_facts(3) show ?thesis by auto
qed

section \<open>Rolling back\<close>

text \<open>
  A sequence number that the audit can look up: below \<open>2 * INT_MAX\<close> the position computed by
  \<open>scaledIndex\<close> is not negative.
\<close>

definition seq_fits :: "message option \<Rightarrow> bool" where
  "seq_fits m = (case Option.bind m messageId of None \<Rightarrow> True | Some mid \<Rightarrow> producerSequenceId mid \<le> 2 * INT_MAX)"

lemma scaledIndex_nonneg: "0 \<le> i \<Longrightarrow> i \<le> 2 * INT_MAX \<Longrightarrow> 0 \<le> scaledIndex i"
  by (auto simp: scaledIndex_def INT_MAX_def wrap32_id)

lemma bs_clear_total: "0 \<le> i \<Longrightarrow> \<exists>b'. bs_set_value i False b = Inr b'"
  by (auto simp: bs_set_value_def bs_clear_at_def Let_def)

lemma rollback_bit_total: "i \<le> 2 * INT_MAX \<Longrightarrow> fst (rollback_bit seed i a) = Inr ()"
proof -
  assume i: "i \<le> 2 * INT_MAX"
  show ?thesis
  proof (cases "0 \<le> i \<and> \<not> isl (fst (lhm_get hash_string seed (auditMap a)))")
    case True
    then obtain bset m where "lhm_get hash_string seed (auditMap a) = (Inr bset, m)"
      by (cases "lhm_get hash_string seed (auditMap a)"; cases "fst (lhm_get hash_string seed (auditMap a))") auto
    moreover obtain b' where "bs_set_value (scaledIndex i) False bset = Inr b'"
      using bs_clear_total scaledIndex_nonneg [OF _ i] True by blast
    ultimately show ?thesis by (simp add: rollback_bit_def Let_def)
  qed (auto simp: rollback_bit_def Let_def split: prod.splits sum.splits)
qed

lemma rollback_total:
  assumes "case mid of None \<Rightarrow> True | Some i \<Rightarrow> producerSequenceId i \<le> 2 * INT_MAX"
  shows "fst (rollback mid a) = Inr ()"
proof (cases mid)
  case (Some i)
  then show ?thesis
    using assms rollback_bit_total [of "producerSequenceId i"]
    by (cases "producerId i") (simp_all add: rollback_def Let_def)
qed (simp add: rollback_def)

lemma ca_rollback_total: "seq_fits m \<Longrightarrow> fst (ca_rollbackDuplicate hashD d m ca) = Inr ()"
  using rollback_total [of "Option.bind m messageId"]
  by (cases m) (simp_all add: seq_fits_def ca_rollbackDuplicate_def Let_def split_def split: option.splits sum.splits)

definition release :: "consumer_info \<Rightarrow> message_dispatch \<Rightarrow> nat connection_audit \<Rightarrow> nat connection_audit" where
  "release i d ca = snd (ca_rollbackDuplicate (dispatcherHash i) (consumerRef i) (dispatchMessage d) ca)"

lemma rollbackDuplicate_ok [run_simps]:
  "seq_fits (dispatchMessage d) \<Longrightarrow>
    rollbackDuplicate (dispatchMessage d) s = (Inr (), s\<lparr>connectionAudit := release (info s) d (connectionAudit s)\<rparr>)"
  using ca_rollback_total [of "dispatchMessage d" "dispatcherHash (info s)" "consumerRef (info s)" "connectionAudit s"]
  by (simp add: rollbackDuplicate_def release_def split_def Let_def)

lemma bump_fields [simp]:
  "seq_fits (dispatchMessage (bump d)) = seq_fits (dispatchMessage d)" "id_of (bump d) = id_of d"
  "dispatchConsumerId (bump d) = dispatchConsumerId d" "dispatchDestination (bump d) = dispatchDestination d"
  "(dispatchMessage (bump d) = None) = (dispatchMessage d = None)" "rollbackCause (bump d) = rollbackCause d"
  by (cases "dispatchMessage d"; simp add: seq_fits_def id_of_def bump_def)+

definition deliverable :: "message_dispatch \<Rightarrow> bool" where
  "deliverable d \<longleftrightarrow> dispatchMessage d \<noteq> None \<and> seq_fits (dispatchMessage d)"

lemma deliverable_bump [simp]: "deliverable (bump d) = deliverable d"
  unfolding deliverable_def bump_fields ..

lemma deliverableD: "deliverable d \<Longrightarrow> \<exists>m. dispatchMessage d = Some m" "deliverable d \<Longrightarrow> seq_fits (dispatchMessage d)"
  by (auto simp: deliverable_def)

lemma covering_ack_bump [simp]: "ds \<noteq> [] \<Longrightarrow> covering_ack t (map bump ds) = covering_ack t ds"
  by (simp add: covering_ack_def hd_map last_map)

lemma bump_delivered_spec:
  assumes "k + n = length (deliveredMessages s)"
    and "\<forall>d \<in> set (deliveredMessages s). deliverable d"
  shows "bump_delivered n k s = (Inr (),
    s\<lparr>deliveredMessages := take k (deliveredMessages s) @ map bump (drop k (deliveredMessages s)),
      connectionAudit := fold (\<lambda>d. release (info s) (bump d)) (drop k (deliveredMessages s)) (connectionAudit s)\<rparr>)"
  using assms
proof (induction n arbitrary: k s)
  case 0
  then show ?case by (simp add: run_simps)
next
  case (Suc n)
  let ?ds = "deliveredMessages s"
  have k: "k < length ?ds" using Suc.prems(1) by simp
  then have d: "?ds ! k \<in> set ?ds" by simp
  with Suc.prems(2) obtain m where m: "dispatchMessage (?ds ! k) = Some m" "seq_fits (dispatchMessage (bump (?ds ! k)))"
    using deliverableD deliverable_bump by metis
  let ?s1 = "s\<lparr>deliveredMessages := ?ds[k := bump (?ds ! k)],
    connectionAudit := release (info s) (bump (?ds ! k)) (connectionAudit s)\<rparr>"
  have "bump_delivered (Suc n) k s = bump_delivered n (Suc k) ?s1"
    using m k by (simp add: run_simps deref_message_def)
  also have "\<dots> = (Inr (), ?s1\<lparr>deliveredMessages := take (Suc k) (deliveredMessages ?s1) @
      map bump (drop (Suc k) (deliveredMessages ?s1)),
    connectionAudit := fold (\<lambda>d. release (info ?s1) (bump d)) (drop (Suc k) (deliveredMessages ?s1)) (connectionAudit ?s1)\<rparr>)"
  proof (rule Suc.IH)
    show "Suc k + n = length (deliveredMessages ?s1)" using Suc.prems(1) by simp
    show "\<forall>d \<in> set (deliveredMessages ?s1). deliverable d"
    proof
      fix d assume "d \<in> set (deliveredMessages ?s1)"
      then have "d = bump (?ds ! k) \<or> d \<in> set ?ds" using set_update_subset_insert [of ?ds k "bump (?ds ! k)"] by auto
      then show "deliverable d" using Suc.prems(2) d by auto
    qed
  qed
  also have "\<dots> = (Inr (), s\<lparr>deliveredMessages := take k ?ds @ map bump (drop k ?ds),
      connectionAudit := fold (\<lambda>d. release (info s) (bump d)) (drop k ?ds) (connectionAudit s)\<rparr>)"
    using k by (simp add: take_Suc_conv_app_nth Cons_nth_drop_Suc [symmetric])
  finally show ?case .
qed

lemma fold_lc_enqueue: "fold (lc_enqueue p) ds c = c\<lparr>pending := fold p ds (pending c)\<rparr>"
  by (induction ds arbitrary: c) (simp_all add: lc_enqueue_def)

lemma fold_Cons_rev: "fold Cons ds xs = rev ds @ xs"
  by (induction ds arbitrary: xs) simp_all

text \<open>
  What can be rolled back for redelivery: the newest delivered message has not reached the limit of
  the redelivery policy.
\<close>

definition newest_count :: "consumer \<Rightarrow> int" where
  "newest_count s = (case dispatchMessage (hd (deliveredMessages s)) of None \<Rightarrow> 0 | Some m \<Rightarrow> messageRedeliveryCounter m)"

definition limit_reached :: "consumer \<Rightarrow> bool" where
  "limit_reached s \<longleftrightarrow> maximumRedeliveries (info s) \<noteq> NO_MAXIMUM_REDELIVERIES \<and>
     newest_count s + 1 > maximumRedeliveries (info s)"

definition next_delay :: "consumer \<Rightarrow> int" where
  "next_delay s = (if newest_count s > 0 then nextRedeliveryDelay (info s) (redeliveryDelay s)
     else initialRedeliveryDelay (info s))"

text \<open>The state in which \<open>rollback\<close> decides about redelivery.\<close>

definition counted :: "consumer \<Rightarrow> consumer" where
  "counted s = s\<lparr>redeliveryDelay := next_delay s, deliveredMessages := map bump (deliveredMessages s),
     connectionAudit := fold (\<lambda>d. release (info s) (bump d)) (deliveredMessages s) (connectionAudit s)\<rparr>"

lemma counted_fields [simp]:
  "info (counted s) = info s" "unconsumedMessages (counted s) = unconsumedMessages s" "sent (counted s) = sent s"
  "deliveredMessages (counted s) = map bump (deliveredMessages s)" "redeliveryDelay (counted s) = next_delay s"
  "transportFails (counted s) = transportFails s" "listener (counted s) = listener s"
  "nonBlockingRedelivery (counted s) = nonBlockingRedelivery s" "inSession (counted s) = inSession s"
  "isTransacted (counted s) = isTransacted s" "wire_of (counted s) = wire_of s"
  "scheduled (counted s) = scheduled s" "deliveredCounter (counted s) = deliveredCounter s"
  by (simp_all add: counted_def isTransacted_def wire_of_def fun_eq_iff)

lemma new_MessageAck_newest:
  assumes "ds \<noteq> []" and "\<forall>d \<in> set ds. deliverable d"
  shows "new_MessageAck (bump (hd ds)) t (int (length ds)) = Inr ((covering_ack t ds)\<lparr>firstMessageId := None\<rparr>)"
proof -
  obtain m where "dispatchMessage (hd ds) = Some m" using assms deliverableD hd_in_set by metis
  then show ?thesis by (simp add: new_MessageAck_def covering_ack_def id_of_def bump_def)
qed

lemma rollback_delivered_run:
  assumes ne: "deliveredMessages s \<noteq> []" and ok: "\<forall>d \<in> set (deliveredMessages s). deliverable d"
  shows "rollback_delivered s =
    (if limit_reached s then poison_delivered (bump (hd (deliveredMessages s))) (id_of (last (deliveredMessages s))) (counted s)
     else andthen (if newest_count s > 0
         then sendAck (covering_ack REDELIVERED (deliveredMessages s)) False else returns ())
       (\<lambda>_. redeliver_delivered) (counted s))"
proof -
  let ?ds = "deliveredMessages s"
  obtain m where m: "dispatchMessage (hd ?ds) = Some m" using ne ok deliverableD hd_in_set by metis
  obtain om where om: "dispatchMessage (last ?ds) = Some om" using ne ok deliverableD last_in_set by metis
  have nc: "newest_count s = messageRedeliveryCounter m" using m by (simp add: newest_count_def)
  have b: "bump_delivered (length ?ds) 0 (s\<lparr>redeliveryDelay := next_delay s\<rparr>) = (Inr (), counted s)"
    using bump_delivered_spec [of 0 "length ?ds" "s\<lparr>redeliveryDelay := next_delay s\<rparr>"] ok by (simp add: counted_def)
  have hd: "hd (map bump ?ds) = bump (hd ?ds)" using ne by (simp add: hd_map)
  have d: "redeliveryDelay_update (\<lambda>_. if 0 < messageRedeliveryCounter m then nextRedeliveryDelay (info s) (redeliveryDelay s)
      else initialRedeliveryDelay (info s)) s = s\<lparr>redeliveryDelay := next_delay s\<rparr>"
    by (simp add: next_delay_def nc)
  have i: "id_of (last ?ds) = messageId om" using om by (simp add: id_of_def)
  have a: "new_MessageAck (bump (hd ?ds)) REDELIVERED (int (length ?ds)) =
      Inr ((covering_ack REDELIVERED ?ds)\<lparr>firstMessageId := None\<rparr>)"
    by (rule new_MessageAck_newest [OF ne ok])
  have c: "(covering_ack REDELIVERED ?ds)\<lparr>firstMessageId := messageId om\<rparr> = covering_ack REDELIVERED ?ds"
    by (simp add: covering_ack_def i)
  show ?thesis
    using m om
    by (simp add: rollback_delivered_def deref_message_def run_simps d b hd limit_reached_def nc i a c Let_def)
qed

lemma rollback_redelivers:
  assumes "deliveredMessages s \<noteq> []" and "\<forall>d \<in> set (deliveredMessages s). deliverable d"
    and "settled s" and "\<not> optimizeAcknowledge s" and "\<not> nonBlockingRedelivery s" and "\<not> listener s" and "inSession s"
    and "\<not> limit_reached s" and "\<not> transportFails s 0"
  shows "\<exists>s'. consumer_rollback s = (Inr (), s') \<and> deliveredMessages s' = [] \<and>
    sent s' = sent s @ (if newest_count s > 0 then [wire_of s False (covering_ack REDELIVERED (deliveredMessages s))] else []) \<and>
    pending (unconsumedMessages s') = fold (ch_place_first s) (map bump (deliveredMessages s)) (pending (unconsumedMessages s)) \<and>
    deliveredCounter s' = deliveredCounter s - int (length (deliveredMessages s)) \<and>
    transactionId s' = transactionId s \<and>
    (if next_delay s > 0 \<and> \<not> lc_closed (unconsumedMessages s)
     then \<not> lc_running (unconsumedMessages s') \<and> scheduled s' = scheduled s @ [StartConsumerTask (next_delay s)]
     else lc_running (unconsumedMessages s') = (\<not> lc_closed (unconsumedMessages s)) \<and> scheduled s' = scheduled s)"
proof -
  have p: "ch_place_first (counted s) = ch_place_first s" "ch_place_first (sent_on w (counted s)) = ch_place_first s" for w
    by (simp_all add: ch_place_first_def sent_on_def)
  have "transactionId (counted s) = transactionId s" by (simp add: counted_def)
  then show ?thesis
    using assms
    by (cases "newest_count s > 0"; cases "next_delay s > 0"; cases "lc_closed (unconsumedMessages s)")
      (simp_all add: consumer_rollback_def run_simps rollback_delivered_run redeliver_delivered_def
        forget_delivered_def fold_lc_enqueue p lookupConsumerKernel_def consumer_start_def lc_start_def lc_stop_def,
       simp_all add: sent_on_def)
qed

text \<open>
  The consumer when the rollback request of its transaction has been answered: everything that
  \<open>rollback\<close> looks at is as before.
\<close>

definition rolled_back :: "int \<Rightarrow> consumer \<Rightarrow> consumer" where
  "rolled_back tx s = sent_on (SyncRequest (TransactionInfo TRANSACTION_STATE_ROLLBACK tx))
     ((ends_registration (acked_in tx s))\<lparr>transactionId := None\<rparr>)"

lemma rolled_back_fields:
  "deliveredMessages (rolled_back tx s) = deliveredMessages s" "settled (rolled_back tx s) = settled s"
  "info (rolled_back tx s) = info s" "optimizeAcknowledge (rolled_back tx s) = optimizeAcknowledge s"
  "nonBlockingRedelivery (rolled_back tx s) = nonBlockingRedelivery s" "listener (rolled_back tx s) = listener s"
  "inSession (rolled_back tx s) = inSession s" "unconsumedMessages (rolled_back tx s) = unconsumedMessages s"
  "newest_count (rolled_back tx s) = newest_count s" "limit_reached (rolled_back tx s) = limit_reached s"
  "next_delay (rolled_back tx s) = next_delay s" "wire_of (rolled_back tx s) = wire_of s"
  "ch_place_first (rolled_back tx s) = ch_place_first s" "scheduled (rolled_back tx s) = scheduled s"
  "transactionId (rolled_back tx s) = None" "synchronizations (rolled_back tx s) = synchronizations s"
  "sent (rolled_back tx s) = sent s @
     [Oneway (AckCommand ((covering_ack CONSUMED (deliveredMessages s))\<lparr>ackTransactionId := Some tx\<rparr>)),
      SyncRequest (TransactionInfo TRANSACTION_STATE_ROLLBACK tx)]"
  by (simp_all add: rolled_back_def ends_registration_def acked_in_def sent_on_def Let_def settled_def newest_count_def
      limit_reached_def next_delay_def wire_of_def ch_place_first_def isTransacted_def fun_eq_iff)

lemma session_rollback_run:
  assumes "in_transaction tx s" and "reliable s" and "consumer_rollback (rolled_back tx s) = (Inr (), s1)"
  shows "session_rollback s = (Inr (), (ends_registration s1)\<lparr>synchronizations := []\<rparr>)"
proof -
  have 1: "transactionId s = Some tx" "\<not> sessionClosed s" "isTransacted s"
    "synchronizations s = [TransactionSynchronization]" using assms(1) by (simp_all add: in_transaction_def)
  have 2: "beforeEnd s = (Inr (), ends_registration (acked_in tx s))"
    using assms(1,2) by (intro beforeEnd_in_transaction) simp_all
  have 3: "transmit (SyncRequest (TransactionInfo TRANSACTION_STATE_ROLLBACK tx)) ((ends_registration (acked_in tx s))\<lparr>transactionId := None\<rparr>) =
      (Inr (), rolled_back tx s)"
    unfolding rolled_back_def using assms(2) by (intro transmit_ok) (simp add: ends_registration_def)
  have 4: "synchronizations (rolled_back tx s) = [TransactionSynchronization]" using 1(4) by (simp add: rolled_back_fields)
  have "transactionId (ends_registration (acked_in tx s)) = Some tx" using 1(1) by (simp add: ends_registration_def)
  then show ?thesis
    using 1 2 3 4 assms(3)
    by (simp add: session_rollback_def tx_rollback_def run_simps ignore_rolled_back_def afterRollback_def
        finally_clear_def sync_afterRollback_def)
qed

lemma fold_place_first:
  assumes "in_priority_order xs"
  shows "in_priority_order (fold prio_place_first ds xs)"
    and "filter (\<lambda>d. standard_priority d = p) (fold prio_place_first ds xs) =
      filter (\<lambda>d. standard_priority d = p) (rev ds) @ filter (\<lambda>d. standard_priority d = p) xs"
  using assms
proof (induction ds arbitrary: xs)
  case (Cons d ds)
  {
    case 1
    then show ?case using Cons.IH(1) prio_place_first_order by simp
  next
    case 2
    then show ?case using Cons.IH(2) [of "prio_place_first d xs"] prio_place_first_order by (simp add: prio_place_first_level)
  }
qed simp_all

lemma rollback_restores:
  assumes "in_transaction tx s" and "\<forall>d \<in> set (deliveredMessages s). deliverable d" and "reliable s"
    and "\<not> optimizeAcknowledge s" and "\<not> nonBlockingRedelivery s" and "\<not> listener s" and "inSession s"
    and "\<not> limit_reached s"
  shows "\<exists>s'. session_rollback s = (Inr (), s') \<and> deliveredMessages s' = [] \<and> transactionId s' = None \<and>
    synchronizations s' = [] \<and> \<not> synchronizationRegistered s' \<and>
    sent s' = sent s @
      [Oneway (AckCommand ((covering_ack CONSUMED (deliveredMessages s))\<lparr>ackTransactionId := Some tx\<rparr>)),
       SyncRequest (TransactionInfo TRANSACTION_STATE_ROLLBACK tx)] @
      (if newest_count s > 0 then [wire_of s False (covering_ack REDELIVERED (deliveredMessages s))] else []) \<and>
    pending (unconsumedMessages s') = fold (ch_place_first s) (map bump (deliveredMessages s)) (pending (unconsumedMessages s)) \<and>
    (if isMessagePrioritySupported (info s)
     then in_priority_order (pending (unconsumedMessages s)) \<longrightarrow> in_priority_order (pending (unconsumedMessages s')) \<and>
       (\<forall>p. filter (\<lambda>d. standard_priority d = p) (pending (unconsumedMessages s')) =
          filter (\<lambda>d. standard_priority d = p) (rev (map bump (deliveredMessages s)) @ pending (unconsumedMessages s)))
     else pending (unconsumedMessages s') = rev (map bump (deliveredMessages s)) @ pending (unconsumedMessages s)) \<and>
    (if next_delay s > 0 \<and> \<not> lc_closed (unconsumedMessages s)
     then \<not> lc_running (unconsumedMessages s') \<and> scheduled s' = scheduled s @ [StartConsumerTask (next_delay s)]
     else lc_running (unconsumedMessages s') = (\<not> lc_closed (unconsumedMessages s)) \<and> scheduled s' = scheduled s)"
proof -
  have "deliveredMessages s \<noteq> []" "settled s" using assms(1) by (simp_all add: in_transaction_def)
  moreover have "\<not> transportFails (rolled_back tx s) 0" using assms(3) by (simp add: rolled_back_def ends_registration_def sent_on_def)
  ultimately obtain s1 where s1: "consumer_rollback (rolled_back tx s) = (Inr (), s1)"
    "deliveredMessages s1 = []" "transactionId s1 = None"
    "sent s1 = sent (rolled_back tx s) @ (if newest_count s > 0 then [wire_of s False (covering_ack REDELIVERED (deliveredMessages s))] else [])"
    "pending (unconsumedMessages s1) = fold (ch_place_first s) (map bump (deliveredMessages s)) (pending (unconsumedMessages s))"
    "if next_delay s > 0 \<and> \<not> lc_closed (unconsumedMessages s)
     then \<not> lc_running (unconsumedMessages s1) \<and> scheduled s1 = scheduled s @ [StartConsumerTask (next_delay s)]
     else lc_running (unconsumedMessages s1) = (\<not> lc_closed (unconsumedMessages s)) \<and> scheduled s1 = scheduled s"
    using rollback_redelivers [of "rolled_back tx s"] assms(2,4-8) unfolding rolled_back_fields by blast
  show ?thesis
    unfolding session_rollback_run [OF assms(1,3) s1(1)]
    using s1(2-6) fold_place_first by (simp add: ends_registration_def rolled_back_fields ch_place_first_def fold_Cons_rev)
qed

text \<open>
  C14.  \<open>Session::rollback()\<close> with messages delivered in transaction \<open>tx\<close>, the newest below the redelivery limit,
  for a consumer without listener, with blocking redelivery, without optimized acknowledgement and without
  individual acknowledgement in transactions, on a transport that does not fail: the broker is told to roll back, and no
  transaction and no synchronization is left. Every delivered message is back in the consumer's channel with its redelivery
  counter raised by one: without message priority in front of all unconsumed ones and in the original order, with message
  priority so within each priority, and the channel stays in priority order. A redelivery acknowledgement
  goes out only if the newest message had been redelivered before; the consumer is restarted at once or, with
  a delay, by a scheduled task.
\<close>

theorem rollback_restores_messages:
  assumes "in_transaction tx s" and "\<forall>d \<in> set (deliveredMessages s). deliverable d" and "reliable s"
    and "\<not> optimizeAcknowledge s" and "\<not> nonBlockingRedelivery s" and "\<not> listener s" and "inSession s"
    and "\<not> limit_reached s"
  shows "\<exists>s'. session_rollback s = (Inr (), s') \<and> deliveredMessages s' = [] \<and> transactionId s' = None \<and>
    synchronizations s' = [] \<and> \<not> synchronizationRegistered s' \<and>
    sent s' = sent s @
      [Oneway (AckCommand ((covering_ack CONSUMED (deliveredMessages s))\<lparr>ackTransactionId := Some tx\<rparr>)),
       SyncRequest (TransactionInfo TRANSACTION_STATE_ROLLBACK tx)] @
      (if newest_count s > 0 then [wire_of s False (covering_ack REDELIVERED (deliveredMessages s))] else []) \<and>
    (if isMessagePrioritySupported (info s)
     then in_priority_order (pending (unconsumedMessages s)) \<longrightarrow> in_priority_order (pending (unconsumedMessages s')) \<and>
       (\<forall>p. filter (\<lambda>d. standard_priority d = p) (pending (unconsumedMessages s')) =
          filter (\<lambda>d. standard_priority d = p) (rev (map bump (deliveredMessages s)) @ pending (unconsumedMessages s)))
     else pending (unconsumedMessages s') = rev (map bump (deliveredMessages s)) @ pending (unconsumedMessages s)) \<and>
    (if next_delay s > 0 \<and> \<not> lc_closed (unconsumedMessages s)
     then \<not> lc_running (unconsumedMessages s') \<and> scheduled s' = scheduled s @ [StartConsumerTask (next_delay s)]
     else lc_running (unconsumedMessages s') = (\<not> lc_closed (unconsumedMessages s)) \<and> scheduled s' = scheduled s)"
  using rollback_restores [OF assms] by blast

lemma sample_deliverable: "deliverable (sample_dispatch n) \<longleftrightarrow> int n \<le> 2 * INT_MAX"
  by (simp add: deliverable_def seq_fits_def sample_defs)

theorem rollback_restores_messages_witness:
  "\<exists>s'. session_rollback sample_transaction = (Inr (), s') \<and> deliveredMessages s' = [] \<and>
    pending (unconsumedMessages s') = [bump (sample_dispatch 1), bump (sample_dispatch 2)] \<and>
    scheduled s' = [StartConsumerTask 1000]"
proof -
  have "\<not> optimizeAcknowledge sample_transaction" "\<not> nonBlockingRedelivery sample_transaction" "\<not> listener sample_transaction"
    "inSession sample_transaction" "\<not> limit_reached sample_transaction"
    "\<forall>d \<in> set (deliveredMessages sample_transaction). deliverable d"
    by (simp_all add: sample_transaction_def sample_deliverable INT_MAX_def limit_reached_def newest_count_def)
      (simp_all add: sample_defs NO_MAXIMUM_REDELIVERIES_def)
  moreover have "next_delay sample_transaction = 1000" "\<not> isMessagePrioritySupported (info sample_transaction)"
    "pending (unconsumedMessages sample_transaction) = []" "scheduled sample_transaction = []"
    "\<not> lc_closed (unconsumedMessages sample_transaction)"
    by (simp_all add: next_delay_def sample_transaction_def sample_defs newest_count_def)
  ultimately show ?thesis
    using rollback_restores_messages [OF sample_transaction_facts(1)] sample_transaction_facts(2,3) by auto
qed

text \<open>
  C27.  When the newest delivered message has reached the redelivery limit, \<open>rollback\<close> sends one POISON
  acknowledgement that covers all delivered messages, oldest to newest, and puts none of them back.
\<close>

theorem rollback_poisons_at_limit:
  assumes "deliveredMessages s \<noteq> []" and "\<forall>d \<in> set (deliveredMessages s). deliverable d"
    and "settled s" and "\<not> optimizeAcknowledge s" and "\<not> listener s" and "limit_reached s" and "\<not> transportFails s 0"
  shows "\<exists>s'. consumer_rollback s = (Inr (), s') \<and> deliveredMessages s' = [] \<and>
    unconsumedMessages s' = unconsumedMessages s \<and> redeliveryDelay s' = 0 \<and>
    sent s' = sent s @ [Oneway (AckCommand ((covering_ack POISON (deliveredMessages s))\<lparr>poisonCause :=
      Some (poison_text (maximumRedeliveries (info s)) (rollbackCause (hd (deliveredMessages s))))\<rparr>))]"
proof -
  let ?ds = "deliveredMessages s"
  have a: "new_MessageAck (bump (hd ?ds)) POISON (int (length ?ds)) = Inr ((covering_ack POISON ?ds)\<lparr>firstMessageId := None\<rparr>)"
    by (rule new_MessageAck_newest [OF assms(1,2)])
  have c: "(covering_ack POISON ?ds)\<lparr>firstMessageId := id_of (last ?ds), poisonCause := x\<rparr> =
      (covering_ack POISON ?ds)\<lparr>poisonCause := x\<rparr>" for x by (simp add: covering_ack_def)
  show ?thesis
    using assms
    by (simp add: consumer_rollback_def run_simps rollback_delivered_run poison_delivered_def a c wire_of_def
        forget_delivered_def sent_on_def Let_def)
qed

theorem rollback_poisons_at_limit_witness:
  "\<exists>s'. consumer_rollback (sample_transaction\<lparr>info := sample_info SESSION_TRANSACTED\<lparr>maximumRedeliveries := 0\<rparr>\<rparr>) = (Inr (), s') \<and>
    deliveredMessages s' = [] \<and> pending (unconsumedMessages s') = [] \<and> length (sent s') = 1"
proof -
  let ?s = "sample_transaction\<lparr>info := sample_info SESSION_TRANSACTED\<lparr>maximumRedeliveries := 0\<rparr>\<rparr>"
  have "\<forall>d \<in> set (deliveredMessages ?s). deliverable d"
    using sample_transaction_facts(3) by (simp add: sample_deliverable INT_MAX_def)
  moreover have "settled ?s" "\<not> optimizeAcknowledge ?s" "\<not> listener ?s" "limit_reached ?s" "\<not> transportFails ?s 0"
    "pending (unconsumedMessages ?s) = []" "sent ?s = []"
    by (simp_all add: sample_transaction_def sample_defs settled_def limit_reached_def newest_count_def NO_MAXIMUM_REDELIVERIES_def)
  ultimately show ?thesis using rollback_poisons_at_limit [of ?s] sample_transaction_facts(3) by auto
qed

lemma rollback_unacked_run:
  assumes "length (deliveredMessages s) \<le> n" and "i \<le> length (deliveredMessages s) + 1"
    and "int (length (deliveredMessages s) + i) \<le> 2 * ackCounter s"
    and "\<forall>d \<in> set (deliveredMessages s). deliverable d"
  shows "\<exists>ca. rollback_unacked n (int i) s = (Inr (), s\<lparr>deliveredMessages :=
    take ((length (deliveredMessages s) + i) div 2) (deliveredMessages s), connectionAudit := ca\<rparr>)"
  using assms
proof (induction n arbitrary: i s)
  case 0
  then show ?case by (intro exI [of _ "connectionAudit s"]) (simp add: run_simps)
next
  case (Suc n)
  let ?ds = "deliveredMessages s"
  show ?case
  proof (cases "i < length ?ds")
    case True
    let ?md = "last ?ds"
    let ?s1 = "s\<lparr>deliveredMessages := butlast ?ds, connectionAudit := release (info s) ?md (connectionAudit s)\<rparr>"
    have ne: "?ds \<noteq> []" using True by auto
    then have f: "seq_fits (dispatchMessage ?md)" using Suc.prems(4) last_in_set deliverableD(2) by blast
    have A: "int i < ackCounter s" using Suc.prems(3) True by simp
    have step: "rollback_unacked (Suc n) (int i) s = rollback_unacked n (int (Suc i)) ?s1"
      using True A f by (simp add: run_simps Let_def add.commute)
    have l: "length (butlast ?ds) + Suc i = length ?ds + i" using ne by (cases ?ds) auto
    have t: "take ((length ?ds + i) div 2) (butlast ?ds) = take ((length ?ds + i) div 2) ?ds"
      using True by (simp add: take_butlast)
    have "\<exists>ca. rollback_unacked n (int (Suc i)) ?s1 = (Inr (), ?s1\<lparr>deliveredMessages :=
      take ((length (deliveredMessages ?s1) + Suc i) div 2) (deliveredMessages ?s1), connectionAudit := ca\<rparr>)"
      by (rule Suc.IH) (use Suc.prems True in \<open>auto dest: in_set_butlastD\<close>)
    then obtain ca where "rollback_unacked n (int (Suc i)) ?s1 = (Inr (), ?s1\<lparr>deliveredMessages :=
      take ((length (deliveredMessages ?s1) + Suc i) div 2) (deliveredMessages ?s1), connectionAudit := ca\<rparr>)" ..
    then show ?thesis
      unfolding step by (intro exI [of _ ca]) (simp add: l t del: length_butlast add_Suc_right)
  next
    case False
    then have "take ((length ?ds + i) div 2) ?ds = ?ds" by simp
    then show ?thesis using False by (intro exI [of _ "connectionAudit s"]) (simp add: run_simps)
  qed
qed

text \<open>
  C40.  With optimized acknowledgement, \<open>rollback\<close> is to take out all messages that were read but not yet
  acknowledged.  Its loop compares the growing index with the shrinking length, so only the older half
  leaves: with all \<open>n\<close> delivered messages unacknowledged, the \<open>n div 2\<close> newest stay in the list.
\<close>

theorem optimized_rollback_keeps_half:
  assumes "int (length (deliveredMessages s)) \<le> ackCounter s" and "\<forall>d \<in> set (deliveredMessages s). deliverable d"
  shows "\<exists>s'. rollback_unacked (length (deliveredMessages s)) 0 s = (Inr (), s') \<and>
    deliveredMessages s' = take (length (deliveredMessages s) div 2) (deliveredMessages s)"
  using rollback_unacked_run [of s "length (deliveredMessages s)" 0] assms by fastforce

theorem optimized_rollback_keeps_half_witness:
  "\<exists>s'. rollback_unacked 4 0 (sample_consumer AUTO_ACKNOWLEDGE\<lparr>ackCounter := 4,
      deliveredMessages := map sample_dispatch [4, 3, 2, 1]\<rparr>) = (Inr (), s') \<and>
    deliveredMessages s' = map sample_dispatch [4, 3]"
proof -
  define ds where "ds = map sample_dispatch [4, 3, 2, 1]"
  have ds: "length ds = 4" "take (4 div 2) ds = map sample_dispatch [4, 3]" "\<forall>d \<in> set ds. deliverable d"
    by (simp_all add: ds_def sample_deliverable INT_MAX_def)
  show ?thesis
    using optimized_rollback_keeps_half [of "sample_consumer AUTO_ACKNOWLEDGE\<lparr>ackCounter := 4, deliveredMessages := ds\<rparr>"] ds
    unfolding ds_def [symmetric] by (simp del: rollback_unacked.simps)
qed

end
