(* ===== verification/Delivery.thy ===== *)
theory Delivery
  imports ConsumerAcks
begin

text \<open>
  The way of a message through the consumer: filtered by the connection audit, queued, received by the
  application and acknowledged.
\<close>

section \<open>Receiving with automatic acknowledgement\<close>

text \<open>A dispatch whose message has an id and does not expire.\<close>

definition lasting :: "message_dispatch \<Rightarrow> bool" where
  "lasting d \<longleftrightarrow> (\<exists>m mid. dispatchMessage d = Some m \<and> messageId m = Some mid \<and> expiration m = 0)"

fun receives :: "nat \<Rightarrow> message option list action" where
  "receives 0 = returns []"
| "receives (Suc n) =
     andthen (receiveNoWait 1 []) (\<lambda>r. andthen (receives n) (\<lambda>rs. returns (map_option fst r # rs)))"

text \<open>The consumer can hand out messages at once: it is open, started and used synchronously.\<close>

definition ready :: "consumer \<Rightarrow> bool" where
  "ready s \<longleftrightarrow> \<not> lc_closed (unconsumedMessages s) \<and> lc_running (unconsumedMessages s) \<and> \<not> listener s \<and>
     settled s \<and> prefetchSize (info s) \<noteq> 0"

lemma isExpired_lasting: "expiration m = 0 \<Longrightarrow> \<not> isExpired now m"
  by (simp add: isExpired_def)

lemma auto_not_transacted: "isAutoAcknowledgeEach s \<Longrightarrow> \<not> isTransacted s \<and> \<not> isAutoAcknowledgeBatch s \<and> \<not> isManualAcknowledge s"
  by (auto simp: isAutoAcknowledgeEach_def isTransacted_def isAutoAcknowledgeBatch_def isManualAcknowledge_def)

lemma dequeue_ready_message:
  assumes "ready s" and "pending (unconsumedMessages s) = d # ds" and "lasting d" and "\<not> redeliveryExceeded d s"
  shows "consumer_dequeue (Suc n) 0 ws s = (Inr (Some d),
    s\<lparr>unconsumedMessages := (unconsumedMessages s)\<lparr>pending := ds\<rparr>, clock := (\<lambda>n. clock s (Suc n))\<rparr>)"
proof -
  obtain m where m: "dispatchMessage d = Some m" "expiration m = 0" using assms(3) by (auto simp: lasting_def)
  have r: "redeliveryExceeded d (s\<lparr>unconsumedMessages := c, clock := t\<rparr>) = redeliveryExceeded d s" for c t
    by (simp add: redeliveryExceeded_def isTransacted_def)
  show ?thesis
    using assms m
    by (simp add: consumer_dequeue_def run_simps dequeue_round_def channel_dequeue_def lc_dequeueNoWait_def ready_def
        consumeExpiredMessage_def deref_message_def currentTimeMillis_def isExpired_lasting r)
qed

lemma pull_ready: "ready s \<Longrightarrow> sendPullRequest t s = (Inr (), s)"
  by (simp add: ready_def sendPullRequest_def run_simps)

lemma receiveNoWait_ready:
  assumes "ready s" and "pending (unconsumedMessages s) = d # ds" and "lasting d" and "\<not> redeliveryExceeded d s"
  shows "receiveNoWait (Suc n) ws s = cms_boundary (receive_finish (Some d))
    (s\<lparr>unconsumedMessages := (unconsumedMessages s)\<lparr>pending := ds\<rparr>, clock := (\<lambda>n. clock s (Suc n))\<rparr>)"
  using assms(1) dequeue_ready_message [OF assms]
  by (simp add: receiveNoWait_def run_simps pull_ready checkClosed_def checkMessageListener_def, simp add: ready_def)

definition auto_ready :: "consumer \<Rightarrow> bool" where
  "auto_ready s \<longleftrightarrow> ready s \<and> isAutoAcknowledgeEach s \<and> \<not> optimizeAcknowledge s \<and> \<not> deliveringAcks s \<and>
     deliveredMessages s = [] \<and> reliable s"

lemma receive_finish_auto:
  assumes "auto_ready s" and "lasting d"
  shows "\<exists>m h s'. receive_finish (Some d) s = (Inr (Some (m, h)), s') \<and> dispatchMessage d = Some m \<and> auto_ready s' \<and>
    unconsumedMessages s' = unconsumedMessages s \<and> info s' = info s \<and>
    sent s' = sent s @ [wire_of s False (covering_ack CONSUMED [d])]"
proof -
  obtain m mid where m: "dispatchMessage d = Some m" "messageId m = Some mid" using assms(2) by (auto simp: lasting_def)
  have each: "isAutoAcknowledgeEach s" using assms(1) by (simp add: auto_ready_def)
  note mode = each auto_not_transacted [OF each]
  have modes: "ackMode (info s) = AUTO_ACKNOWLEDGE \<or> ackMode (info s) = DUPS_OK_ACKNOWLEDGE"
    using each by (auto simp: isAutoAcknowledgeEach_def)
  have cov: "covering_ack CONSUMED [d] = \<lparr>ackType = CONSUMED, ackConsumerId = dispatchConsumerId d,
      ackDestination = dispatchDestination d, firstMessageId = Some mid, lastMessageId = Some mid, messageCount = 1,
      ackTransactionId = None, poisonCause = None\<rparr>"
    using m by (simp add: covering_ack_def id_of_def)
  show ?thesis
    using assms(1) m mode modes
    by (auto simp: receive_finish_def beforeMessageIsConsumed_def deref_message_def run_simps afterMessageIsConsumed_def
        auto_acknowledge_def createCMSMessage_def auto_ready_def ready_def settled_def isTransacted_def
        isAutoAcknowledgeBatch_def isAutoAcknowledgeEach_def isManualAcknowledge_def makeAckForAllDeliveredMessages_def
        new_MessageAck_def cov wire_of_def sent_on_def reliable_def split del: if_split)
qed

lemma receiveNoWait_auto:
  assumes "auto_ready s" and "pending (unconsumedMessages s) = d # ds" and "lasting d"
  shows "\<exists>m h s'. receiveNoWait (Suc n) ws s = (Inr (Some (m, h)), s') \<and> dispatchMessage d = Some m \<and> auto_ready s' \<and>
    unconsumedMessages s' = (unconsumedMessages s)\<lparr>pending := ds\<rparr> \<and> info s' = info s \<and>
    sent s' = sent s @ [wire_of s False (covering_ack CONSUMED [d])]"
proof -
  let ?s1 = "s\<lparr>unconsumedMessages := (unconsumedMessages s)\<lparr>pending := ds\<rparr>, clock := (\<lambda>n. clock s (Suc n))\<rparr>"
  have r: "ready s" "\<not> redeliveryExceeded d s"
    using assms(1) auto_not_transacted by (auto simp: auto_ready_def redeliveryExceeded_def)
  have "auto_ready ?s1"
    using assms(1) by (simp add: auto_ready_def ready_def settled_def reliable_def isAutoAcknowledgeEach_def)
  from receive_finish_auto [OF this assms(3)] obtain m h s' where
    s': "receive_finish (Some d) ?s1 = (Inr (Some (m, h)), s')" "dispatchMessage d = Some m" "auto_ready s'"
      "unconsumedMessages s' = unconsumedMessages ?s1" "info s' = info ?s1"
      "sent s' = sent ?s1 @ [wire_of ?s1 False (covering_ack CONSUMED [d])]" by blast
  moreover have "wire_of ?s1 = wire_of s" by (simp add: wire_of_def isTransacted_def fun_eq_iff)
  ultimately show ?thesis
    unfolding receiveNoWait_ready [OF r(1) assms(2,3) r(2)] by (simp add: cms_boundary_def)
qed

text \<open>
  C4.  Automatic acknowledgement, one message at a time: \<open>length ds\<close> calls of \<open>receiveNoWait\<close> on an open, started
  consumer without listener and without optimized acknowledgement, on a transport that does not fail, with \<open>ds\<close>,
  messages that do not expire, first in its channel, return exactly these messages in this order, and send for each of them
  one acknowledgement that covers it and no other; the rest stays in the channel and nothing stays
  unacknowledged.
\<close>

theorem auto_acknowledge_each_message:
  assumes "auto_ready s" and "pending (unconsumedMessages s) = ds @ rest" and "\<forall>d \<in> set ds. lasting d"
  shows "\<exists>s'. receives (length ds) s = (Inr (map dispatchMessage ds), s') \<and>
    sent s' = sent s @ map (\<lambda>d. wire_of s False (covering_ack CONSUMED [d])) ds \<and>
    pending (unconsumedMessages s') = rest \<and> deliveredMessages s' = []"
  using assms
proof (induction ds arbitrary: s)
  case Nil
  then show ?case by (simp add: run_simps auto_ready_def)
next
  case (Cons d ds)
  from receiveNoWait_auto [of s d "ds @ rest" 0 "[]"] Cons.prems obtain m h s1 where
    s1: "receiveNoWait 1 [] s = (Inr (Some (m, h)), s1)" "dispatchMessage d = Some m" "auto_ready s1"
      "unconsumedMessages s1 = (unconsumedMessages s)\<lparr>pending := ds @ rest\<rparr>" "info s1 = info s"
      "sent s1 = sent s @ [wire_of s False (covering_ack CONSUMED [d])]" by auto
  have "\<exists>s'. receives (length ds) s1 = (Inr (map dispatchMessage ds), s') \<and>
    sent s' = sent s1 @ map (\<lambda>d. wire_of s1 False (covering_ack CONSUMED [d])) ds \<and>
    pending (unconsumedMessages s') = rest \<and> deliveredMessages s' = []"
    using Cons.IH [OF s1(3)] s1(4) Cons.prems(3) by simp
  moreover have "wire_of s1 = wire_of s" using s1(5) by (simp add: wire_of_def isTransacted_def fun_eq_iff)
  ultimately show ?case using s1(1,2,6) by (auto simp: run_simps)
qed

theorem auto_acknowledge_each_message_witness:
  "\<exists>s'. receives 2 (sample_consumer AUTO_ACKNOWLEDGE\<lparr>unconsumedMessages :=
      \<lparr>lc_closed = False, lc_running = True, pending = [sample_dispatch 1, sample_dispatch 2, sample_dispatch 3]\<rparr>\<rparr>) =
      (Inr [dispatchMessage (sample_dispatch 1), dispatchMessage (sample_dispatch 2)], s') \<and>
    pending (unconsumedMessages s') = [sample_dispatch 3] \<and>
    sent s' = [SyncRequest (AckCommand (covering_ack CONSUMED [sample_dispatch 1])),
      SyncRequest (AckCommand (covering_ack CONSUMED [sample_dispatch 2]))]"
proof -
  let ?s = "sample_consumer AUTO_ACKNOWLEDGE\<lparr>unconsumedMessages :=
      \<lparr>lc_closed = False, lc_running = True, pending = [sample_dispatch 1, sample_dispatch 2, sample_dispatch 3]\<rparr>\<rparr>"
  have l: "lasting (sample_dispatch n)" for n by (simp add: lasting_def sample_defs)
  have "auto_ready ?s"
    by (simp add: sample_defs auto_ready_def ready_def settled_def reliable_def isAutoAcknowledgeEach_def)
  from auto_acknowledge_each_message [OF this, of "[sample_dispatch 1, sample_dispatch 2]" "[sample_dispatch 3]"] l
  obtain s' where s': "receives (length [sample_dispatch 1, sample_dispatch 2]) ?s =
      (Inr (map dispatchMessage [sample_dispatch 1, sample_dispatch 2]), s')"
    "sent s' = sent ?s @ map (\<lambda>d. wire_of ?s False (covering_ack CONSUMED [d])) [sample_dispatch 1, sample_dispatch 2]"
    "pending (unconsumedMessages s') = [sample_dispatch 3]" by auto
  have w: "wire_of ?s False a = SyncRequest (AckCommand a)" "sent ?s = []" for a
    by (simp_all add: sample_defs wire_of_def isTransacted_def)
  have "length [sample_dispatch 1, sample_dispatch 2] = 2" by simp
  note r = s'(1) [unfolded this]
  show ?thesis using r s'(2,3) w by (intro exI [of _ s']) (simp del: receives.simps)
qed

section \<open>Acknowledging in batches\<close>

definition later_ack :: "message_dispatch \<Rightarrow> ack_type \<Rightarrow> consumer \<Rightarrow> message_ack" where
  "later_ack d t s = first_of_pending (pendingAck s) ((covering_ack t [d])
     \<lparr>firstMessageId := None, messageCount := deliveredCounter s + 1\<rparr>)"

definition ack_due :: "consumer \<Rightarrow> bool" where
  "ack_due s \<longleftrightarrow> prefetchSize (info s) \<le> 2 * (deliveredCounter s + 1 + ackCounter s - additionalWindowSize s)"

lemma ackLater_run:
  assumes "\<not> isTransacted s" and "dispatchMessage d = Some m" and "\<not> transportFails s 0"
    and "\<forall>a. pendingAck s = Some a \<longrightarrow> ackType a = t"
  shows "ackLater d t s = (Inr (),
    if ack_due s then (sent_on (wire_of s False (later_ack d t s)) s)
      \<lparr>pendingAck := None, deliveredCounter := 0, additionalWindowSize := 0\<rparr>
    else s\<lparr>deliveredCounter := deliveredCounter s + 1, pendingAck := Some (later_ack d t s)\<rparr>)"
proof -
  have n: "new_MessageAck d t c = Inr ((covering_ack t [d])\<lparr>firstMessageId := None, messageCount := c\<rparr>)" for c
    using assms(2) by (simp add: new_MessageAck_def covering_ack_def id_of_def)
  have o: "(case pendingAck s of None \<Rightarrow> returns () | Some a \<Rightarrow>
      if ackType a \<noteq> t \<and> \<not> isDeliveredAck a then sendAck a False else returns ()) = returns ()"
    using assms(4) by (cases "pendingAck s") simp_all
  have w: "wire_of (s\<lparr>deliveredCounter := c, pendingAck := p\<rparr>) = wire_of s"
    "isTransacted (s\<lparr>deliveredCounter := c, pendingAck := p\<rparr>) = isTransacted s"
    "isTransacted (s\<lparr>deliveredCounter := c\<rparr>) = isTransacted s" for c p
    by (simp_all add: wire_of_def isTransacted_def fun_eq_iff)
  show ?thesis
    using assms(1,3)
    by (simp add: ackLater_def run_simps n o w later_ack_def [symmetric] sent_on_def ack_due_def)
qed

text \<open>
  The batch invariant: the pending acknowledgement counts the messages delivered since the last one
  was sent, and there are fewer than half a window of them.
\<close>

definition batch_inv :: "consumer \<Rightarrow> bool" where
  "batch_inv s \<longleftrightarrow> isAutoAcknowledgeBatch s \<and> \<not> lc_closed (unconsumedMessages s) \<and> reliable s \<and>
     ackCounter s = 0 \<and> additionalWindowSize s = 0 \<and> 0 \<le> deliveredCounter s \<and>
     (deliveredCounter s = 0 \<or> 2 * deliveredCounter s < prefetchSize (info s)) \<and>
     (case pendingAck s of None \<Rightarrow> deliveredCounter s = 0
      | Some a \<Rightarrow> ackType a = CONSUMED \<and> messageCount a = deliveredCounter s)"

definition batch_consume :: "message_dispatch list \<Rightarrow> unit action" where
  "batch_consume ds = for_each ds (\<lambda>d. andthen (beforeMessageIsConsumed d) (\<lambda>_. afterMessageIsConsumed d False))"

fun consumed_count :: "wire list \<Rightarrow> int" where
  "consumed_count [] = 0"
| "consumed_count (Oneway (AckCommand a) # ws) = (if ackType a = CONSUMED then messageCount a else 0) + consumed_count ws"
| "consumed_count (SyncRequest (AckCommand a) # ws) = (if ackType a = CONSUMED then messageCount a else 0) + consumed_count ws"
| "consumed_count (_ # ws) = consumed_count ws"

lemma consumed_count_append [simp]: "consumed_count (xs @ ys) = consumed_count xs + consumed_count ys"
  by (induction xs rule: consumed_count.induct) simp_all

lemma consumed_count_wire [simp]:
  "consumed_count [wire_of s b a] = (if ackType a = CONSUMED then messageCount a else 0)"
  by (simp add: wire_of_def)

lemma later_ack_fields [simp]:
  "ackType (later_ack d t s) = t" "messageCount (later_ack d t s) = deliveredCounter s + 1"
  by (simp_all add: later_ack_def first_of_pending_def covering_ack_def split: option.splits)

lemma batch_step:
  assumes inv: "batch_inv s" and d: "lasting d"
  shows "\<exists>s' ws. andthen (beforeMessageIsConsumed d) (\<lambda>_. afterMessageIsConsumed d False) s = (Inr (), s') \<and>
    batch_inv s' \<and> info s' = info s \<and> sent s' = sent s @ ws \<and>
    consumed_count ws + deliveredCounter s' = deliveredCounter s + 1"
proof -
  obtain m mid where m: "dispatchMessage d = Some m" "messageId m = Some mid" using d by (auto simp: lasting_def)
  have mode: "ackMode (info s) = DUPS_OK_ACKNOWLEDGE" "isAutoAcknowledgeBatch s" "\<not> isQueue (consumerDestination (info s))"
    using inv by (auto simp: batch_inv_def isAutoAcknowledgeBatch_def)
  let ?s1 = "s\<lparr>lastDeliveredSequenceId := brokerSequenceId mid\<rparr>"
  have t: "\<not> isTransacted ?s1" "\<not> transportFails ?s1 0" "\<forall>a. pendingAck ?s1 = Some a \<longrightarrow> ackType a = CONSUMED"
    using inv mode by (auto simp: isTransacted_def batch_inv_def reliable_def split: option.splits)
  have run: "andthen (beforeMessageIsConsumed d) (\<lambda>_. afterMessageIsConsumed d False) s = amq_boundary (ackLater d CONSUMED) ?s1"
    using inv m mode
    by (simp add: beforeMessageIsConsumed_def afterMessageIsConsumed_def deref_message_def run_simps batch_inv_def
        isAutoAcknowledgeBatch_def isAutoAcknowledgeEach_def isTransacted_def)
  have due: "ack_due ?s1 \<longleftrightarrow> prefetchSize (info s) \<le> 2 * (deliveredCounter s + 1)"
    using inv by (simp add: ack_due_def batch_inv_def)
  define s2 where "s2 = (if ack_due ?s1 then (sent_on (wire_of ?s1 False (later_ack d CONSUMED ?s1)) ?s1)
      \<lparr>pendingAck := None, deliveredCounter := 0, additionalWindowSize := 0\<rparr>
    else ?s1\<lparr>deliveredCounter := deliveredCounter s + 1, pendingAck := Some (later_ack d CONSUMED ?s1)\<rparr>)"
  define ws where "ws = (if ack_due ?s1 then [wire_of ?s1 False (later_ack d CONSUMED ?s1)] else [])"
  have "andthen (beforeMessageIsConsumed d) (\<lambda>_. afterMessageIsConsumed d False) s = (Inr (), s2)"
    unfolding run amq_boundary_def ackLater_run [OF t(1) m(1) t(2,3)] s2_def by simp
  moreover have "batch_inv s2"
    using inv due by (auto simp: s2_def batch_inv_def isAutoAcknowledgeBatch_def reliable_def sent_on_def)
  moreover have "info s2 = info s" "sent s2 = sent s @ ws" by (simp_all add: s2_def ws_def sent_on_def)
  moreover have "consumed_count ws + deliveredCounter s2 = deliveredCounter s + 1" by (simp add: s2_def ws_def)
  ultimately show ?thesis by blast
qed

text \<open>
  C19.  Batched acknowledgement (DUPS_OK on a topic, on a transport that does not fail): however many messages that do not
  expire are consumed, each is counted in
  exactly one CONSUMED acknowledgement, sent or still pending: the counts of the acknowledgements sent and the
  counter of the pending one add up to the number of messages.  The invariant holds throughout: fewer
  than half a prefetch window is ever left unacknowledged.
\<close>

theorem batch_acks_account_for_all:
  assumes "batch_inv s" and "\<forall>d \<in> set ds. lasting d"
  shows "\<exists>s' ws. batch_consume ds s = (Inr (), s') \<and> batch_inv s' \<and> sent s' = sent s @ ws \<and>
    consumed_count ws + deliveredCounter s' = deliveredCounter s + int (length ds) \<and>
    (deliveredCounter s' = 0 \<or> 2 * deliveredCounter s' < prefetchSize (info s))"
  using assms
proof (induction ds arbitrary: s)
  case Nil
  then show ?case by (auto simp: batch_consume_def run_simps batch_inv_def)
next
  case (Cons d ds)
  from batch_step [of s d] Cons.prems obtain s1 ws1 where
    s1: "andthen (beforeMessageIsConsumed d) (\<lambda>_. afterMessageIsConsumed d False) s = (Inr (), s1)" "batch_inv s1"
      "info s1 = info s" "sent s1 = sent s @ ws1" "consumed_count ws1 + deliveredCounter s1 = deliveredCounter s + 1"
    by auto
  from Cons.IH [OF s1(2)] Cons.prems(2) obtain s2 ws2 where
    s2: "batch_consume ds s1 = (Inr (), s2)" "batch_inv s2" "sent s2 = sent s1 @ ws2"
      "consumed_count ws2 + deliveredCounter s2 = deliveredCounter s1 + int (length ds)"
      "deliveredCounter s2 = 0 \<or> 2 * deliveredCounter s2 < prefetchSize (info s1)" by auto
  have "batch_consume (d # ds) s = (Inr (), s2)"
    using s1(1) s2(1) unfolding batch_consume_def for_each.simps andthen_def [of "andthen _ _"] by simp
  with s1 s2 show ?case by (intro exI [of _ s2] exI [of _ "ws1 @ ws2"]) simp
qed

theorem batch_acks_account_for_all_witness:
  "\<exists>s' ws. batch_consume (map sample_dispatch [1, 2, 3, 4, 5, 6]) (sample_consumer DUPS_OK_ACKNOWLEDGE\<lparr>info :=
      sample_info DUPS_OK_ACKNOWLEDGE\<lparr>consumerDestination := \<lparr>physicalName = ''t'', destinationType = TOPIC\<rparr>\<rparr>\<rparr>) = (Inr (), s') \<and>
    consumed_count (sent s') + deliveredCounter s' = 6 \<and> (deliveredCounter s' = 0 \<or> 2 * deliveredCounter s' < 10)"
proof -
  let ?s = "sample_consumer DUPS_OK_ACKNOWLEDGE\<lparr>info :=
      sample_info DUPS_OK_ACKNOWLEDGE\<lparr>consumerDestination := \<lparr>physicalName = ''t'', destinationType = TOPIC\<rparr>\<rparr>\<rparr>"
  have l: "lasting (sample_dispatch n)" for n by (simp add: lasting_def sample_defs)
  have "batch_inv ?s" "sent ?s = []" "deliveredCounter ?s = 0" "prefetchSize (info ?s) = 10"
    by (simp_all add: sample_defs batch_inv_def isAutoAcknowledgeBatch_def isQueue_def isTopic_def reliable_def)
  with batch_acks_account_for_all [of ?s "map sample_dispatch [1, 2, 3, 4, 5, 6]"] l show ?thesis by auto
qed

end
