(* ===== verification/Transactions.thy ===== *)
theory Transactions
  imports Delivery
begin

text \<open>
  A transaction of a consumer from the first message received to its rollback: the invariant of the
  consumer across receives, and the round trip of the received messages.
\<close>

section \<open>Receiving in a transaction\<close>

text \<open>
  Between transactions nothing is delivered and no transaction is open; the first message received opens
  one and registers the consumer with it.
\<close>

definition tx_inv :: "int \<Rightarrow> consumer \<Rightarrow> bool" where
  "tx_inv tx s \<longleftrightarrow> ready s \<and> isTransacted s \<and> \<not> transactedIndividualAck s \<and> \<not> sessionClosed s \<and> inSession s \<and>
     reliable s \<and> (\<forall>a. pendingAck s = Some a \<longrightarrow> ackType a = DELIVERED) \<and>
     (\<forall>d \<in> set (deliveredMessages s). deliverable d) \<and>
     (if deliveredMessages s = []
      then transactionId s = None \<and> \<not> synchronizationRegistered s \<and> localTransactionIds s + 1 = tx
      else transactionId s = Some tx \<and> synchronizations s = [TransactionSynchronization] \<and> synchronizationRegistered s)"

lemma tx_inv_in_transaction: "tx_inv tx s \<Longrightarrow> deliveredMessages s \<noteq> [] \<Longrightarrow> in_transaction tx s"
  by (auto simp: tx_inv_def in_transaction_def ready_def dest: deliverableD)

text \<open>\<open>registerSync\<close> with \<open>d\<close> already in the delivered list.\<close>

lemma registerSync_joins:
  assumes "tx_inv tx s"
  shows "\<exists>s'. registerSync (s\<lparr>lastDeliveredSequenceId := l, deliveredMessages := d # deliveredMessages s\<rparr>) = (Inr (), s') \<and>
    deliveredMessages s' = d # deliveredMessages s \<and> transactionId s' = Some tx \<and>
    synchronizations s' = [TransactionSynchronization] \<and> synchronizationRegistered s' \<and>
    info s' = info s \<and> unconsumedMessages s' = unconsumedMessages s \<and> pendingAck s' = pendingAck s \<and>
    deliveredCounter s' = deliveredCounter s \<and> ackCounter s' = ackCounter s \<and>
    additionalWindowSize s' = additionalWindowSize s \<and> reliable s' \<and> settled s' \<and> listener s' = listener s \<and>
    transactedIndividualAck s' = transactedIndividualAck s \<and> sessionClosed s' = sessionClosed s \<and> inSession s' = inSession s \<and>
    optimizeAcknowledge s' = optimizeAcknowledge s \<and> nonBlockingRedelivery s' = nonBlockingRedelivery s"
  using assms
  by (cases "deliveredMessages s = []")
    (auto simp: tx_inv_def registerSync_def doStartTransaction_def tx_begin_def isTransacted_def run_simps
      lookupConsumerKernel_def reliable_def sent_on_def ready_def settled_def Let_def)

lemma ackLater_transacted:
  assumes "isTransacted s" and r: "registerSync s = (Inr (), s1)" and "info s1 = info s" and "dispatchMessage d = Some m"
    and "\<not> transportFails s1 0" and p: "\<forall>a. pendingAck s1 = Some a \<longrightarrow> ackType a = t"
  defines "a \<equiv> (later_ack d t s1)\<lparr>ackTransactionId := transactionId s1\<rparr>"
  shows "ackLater d t s = (Inr (),
    if ack_due s1 then (sent_on (wire_of s1 False a) s1)\<lparr>pendingAck := None, deliveredCounter := 0, additionalWindowSize := 0\<rparr>
    else s1\<lparr>deliveredCounter := deliveredCounter s1 + 1, pendingAck := Some a\<rparr>)"
proof -
  have n: "new_MessageAck d t c = Inr ((covering_ack t [d])\<lparr>firstMessageId := None, messageCount := c\<rparr>)" for c
    using assms(4) by (simp add: new_MessageAck_def covering_ack_def id_of_def)
  have o: "(case pendingAck s1 of None \<Rightarrow> returns () | Some a \<Rightarrow>
      if ackType a \<noteq> t \<and> \<not> isDeliveredAck a then sendAck a False else returns ()) = returns ()"
    using p by (cases "pendingAck s1") simp_all
  have w: "wire_of (s1\<lparr>deliveredCounter := c, pendingAck := q\<rparr>) = wire_of s1"
    "isTransacted (s1\<lparr>deliveredCounter := c, pendingAck := q\<rparr>)" for c q
    using assms(1,3) by (simp_all add: wire_of_def isTransacted_def fun_eq_iff)
  show ?thesis
    using assms(1,5) r
    by (simp add: ackLater_def run_simps n o w later_ack_def [symmetric] sent_on_def ack_due_def a_def)
qed

text \<open>What a received message leaves unchanged.\<close>

definition same_setup :: "consumer \<Rightarrow> consumer \<Rightarrow> bool" where
  "same_setup s' s \<longleftrightarrow> info s' = info s \<and> optimizeAcknowledge s' = optimizeAcknowledge s \<and>
     nonBlockingRedelivery s' = nonBlockingRedelivery s"

lemma receive_finish_transacted:
  assumes inv: "tx_inv tx s" and d: "lasting d" "deliverable d"
  shows "\<exists>m h s'. receive_finish (Some d) s = (Inr (Some (m, h)), s') \<and> dispatchMessage d = Some m \<and> tx_inv tx s' \<and>
    deliveredMessages s' = d # deliveredMessages s \<and> unconsumedMessages s' = unconsumedMessages s \<and> same_setup s' s"
proof -
  obtain m mid where m: "dispatchMessage d = Some m" "messageId m = Some mid" using d by (auto simp: lasting_def)
  let ?s0 = "s\<lparr>lastDeliveredSequenceId := brokerSequenceId mid, deliveredMessages := d # deliveredMessages s\<rparr>"
  from registerSync_joins [OF inv, of d "brokerSequenceId mid"] obtain s1 where
    s1: "registerSync ?s0 = (Inr (), s1)" "deliveredMessages s1 = d # deliveredMessages s" "transactionId s1 = Some tx"
      "synchronizations s1 = [TransactionSynchronization]" "synchronizationRegistered s1" "info s1 = info s"
      "unconsumedMessages s1 = unconsumedMessages s" "pendingAck s1 = pendingAck s" "reliable s1" "settled s1"
      "listener s1 = listener s" "transactedIndividualAck s1 = transactedIndividualAck s" "sessionClosed s1 = sessionClosed s"
      "inSession s1 = inSession s" "optimizeAcknowledge s1 = optimizeAcknowledge s"
      "nonBlockingRedelivery s1 = nonBlockingRedelivery s" by blast
  have t: "isTransacted ?s0" "info s1 = info ?s0" "\<not> transportFails s1 0"
    "\<forall>a. pendingAck s1 = Some a \<longrightarrow> ackType a = DELIVERED"
    using inv s1(6,8,9) by (auto simp: tx_inv_def isTransacted_def)
  obtain s2 where s2: "ackLater d DELIVERED ?s0 = (Inr (), s2)" "deliveredMessages s2 = d # deliveredMessages s"
    "unconsumedMessages s2 = unconsumedMessages s" "same_setup s2 s" "tx_inv tx s2"
    using ackLater_transacted [OF t(1) s1(1) t(2) m(1) t(3,4)] inv d(2) s1
    by (cases "ack_due s1")
      (auto simp: tx_inv_def ready_def isTransacted_def reliable_def settled_def sent_on_def same_setup_def)
  have "isTransacted s" "\<not> isAutoAcknowledgeBatch s" "\<not> transactedIndividualAck s"
    using inv by (auto simp: tx_inv_def isTransacted_def isAutoAcknowledgeBatch_def)
  then have before: "beforeMessageIsConsumed d s = (Inr (), s2)"
    using m s2(1) by (simp add: beforeMessageIsConsumed_def deref_message_def run_simps isTransacted_def isAutoAcknowledgeBatch_def)
  have "isTransacted s2" "\<not> lc_closed (unconsumedMessages s2)" using s2(5) by (simp_all add: tx_inv_def ready_def)
  then have "receive_finish (Some d) s = (Inr (Some (m, NoOpAckHandler)), s2)"
    using m(1) before
    by (simp add: receive_finish_def andthen_def afterMessageIsConsumed_def amq_boundary_def returns_def createCMSMessage_def
        deref_message_def lifts_def isTransacted_def)
  with m(1) s2 show ?thesis by blast
qed

lemma receiveNoWait_transacted:
  assumes inv: "tx_inv tx s" and p: "pending (unconsumedMessages s) = d # ds"
    and d: "lasting d" "deliverable d" "\<not> redeliveryExceeded d s"
  shows "\<exists>m h s'. receiveNoWait (Suc n) ws s = (Inr (Some (m, h)), s') \<and> dispatchMessage d = Some m \<and> tx_inv tx s' \<and>
    deliveredMessages s' = d # deliveredMessages s \<and>
    unconsumedMessages s' = (unconsumedMessages s)\<lparr>pending := ds\<rparr> \<and> same_setup s' s"
proof -
  let ?s1 = "s\<lparr>unconsumedMessages := (unconsumedMessages s)\<lparr>pending := ds\<rparr>, clock := (\<lambda>n. clock s (Suc n))\<rparr>"
  have r: "ready s" using inv by (simp add: tx_inv_def)
  have "tx_inv tx ?s1" using inv by (auto simp: tx_inv_def ready_def settled_def reliable_def isTransacted_def)
  from receive_finish_transacted [OF this d(1,2)] show ?thesis
    unfolding receiveNoWait_ready [OF r p d(1,3)] by (auto simp: cms_boundary_def same_setup_def)
qed

lemma receives_transacted:
  assumes "tx_inv tx s" and "pending (unconsumedMessages s) = ds @ rest"
    and "\<forall>d \<in> set ds. lasting d \<and> deliverable d \<and> \<not> redeliveryExceeded d s"
  shows "\<exists>s'. receives (length ds) s = (Inr (map dispatchMessage ds), s') \<and> tx_inv tx s' \<and>
    deliveredMessages s' = rev ds @ deliveredMessages s \<and> pending (unconsumedMessages s') = rest \<and> same_setup s' s"
  using assms
proof (induction ds arbitrary: s)
  case Nil
  then show ?case by (simp add: run_simps same_setup_def)
next
  case (Cons d ds)
  from receiveNoWait_transacted [of tx s d "ds @ rest" 0 "[]"] Cons.prems obtain m h s1 where
    s1: "receiveNoWait 1 [] s = (Inr (Some (m, h)), s1)" "dispatchMessage d = Some m" "tx_inv tx s1"
      "deliveredMessages s1 = d # deliveredMessages s" "unconsumedMessages s1 = (unconsumedMessages s)\<lparr>pending := ds @ rest\<rparr>"
      "same_setup s1 s" by auto
  have "redeliveryExceeded d' s1 = redeliveryExceeded d' s" for d'
    using s1(6) by (simp add: redeliveryExceeded_def same_setup_def isTransacted_def)
  with Cons.IH [OF s1(3)] s1(5) Cons.prems(3) obtain s2 where
    s2: "receives (length ds) s1 = (Inr (map dispatchMessage ds), s2)" "tx_inv tx s2"
      "deliveredMessages s2 = rev ds @ deliveredMessages s1" "pending (unconsumedMessages s2) = rest" "same_setup s2 s1" by auto
  with s1 show ?case by (auto simp: run_simps same_setup_def)
qed

lemma standard_priority_bump: "standard_priority (bump d) = standard_priority d"
  by (cases "dispatchMessage d") (simp_all add: bump_def standard_priority_def)

lemma place_back_in_order:
  "in_priority_order (ds @ rest) \<Longrightarrow> fold prio_place_first (map bump (rev ds)) rest = map bump ds @ rest"
proof (induction ds)
  case (Cons d ds)
  then have "in_priority_order (bump d # map bump ds @ rest)"
    by (auto simp: standard_priority_bump sorted_wrt_append sorted_wrt_map)
  then show ?case
    using Cons prio_place_first_hd by simp
qed simp

text \<open>
  C3.  A transaction from its first message to its rollback, for a consumer without listener, with blocking
  redelivery, without optimized and without individual acknowledgement, on a transport that does not fail. No transaction is
  open and nothing is delivered; the first \<open>n\<close> pending messages do not expire and are within the redelivery
  limit, the last of them such that one more redelivery is allowed. Receiving them starts a transaction, with which the consumer is
  registered once, and hands them out in order. When the session then rolls back, the channel holds what it
  held before, in the same order (which with message priority is a priority order), with the redelivery
  counters of the received messages raised by one; no transaction is open and no registration is left.
\<close>

theorem transaction_rollback_roundtrip:
  assumes "tx_inv tx s" and "deliveredMessages s = []" and "pending (unconsumedMessages s) = ds @ rest" and "ds \<noteq> []"
    and "\<forall>d \<in> set ds. lasting d \<and> deliverable d \<and> \<not> redeliveryExceeded d s"
    and "\<not> optimizeAcknowledge s" and "\<not> nonBlockingRedelivery s"
    and "isMessagePrioritySupported (info s) \<longrightarrow> in_priority_order (pending (unconsumedMessages s))"
    and "maximumRedeliveries (info s) = NO_MAXIMUM_REDELIVERIES \<or>
      (\<exists>m. dispatchMessage (last ds) = Some m \<and> messageRedeliveryCounter m < maximumRedeliveries (info s))"
  shows "\<exists>s1 s2. receives (length ds) s = (Inr (map dispatchMessage ds), s1) \<and> transactionId s1 = Some tx \<and>
    synchronizations s1 = [TransactionSynchronization] \<and> synchronizationRegistered s1 \<and>
    deliveredMessages s1 = rev ds \<and> pending (unconsumedMessages s1) = rest \<and>
    session_rollback s1 = (Inr (), s2) \<and> transactionId s2 = None \<and> deliveredMessages s2 = [] \<and>
    synchronizations s2 = [] \<and> \<not> synchronizationRegistered s2 \<and>
    pending (unconsumedMessages s2) = map bump ds @ rest"
proof -
  obtain s1 where s1: "receives (length ds) s = (Inr (map dispatchMessage ds), s1)" "tx_inv tx s1"
    "deliveredMessages s1 = rev ds" "pending (unconsumedMessages s1) = rest" "same_setup s1 s"
    using receives_transacted [OF assms(1,3,5)] assms(2) by auto
  then have t: "in_transaction tx s1" using assms(4) by (intro tx_inv_in_transaction) simp_all
  have r: "synchronizations s1 = [TransactionSynchronization]" "synchronizationRegistered s1"
    using s1(2,3) assms(4) by (simp_all add: tx_inv_def)
  have "\<not> limit_reached s1"
    using assms(4,9) s1(3,5) by (auto simp: limit_reached_def newest_count_def same_setup_def hd_rev)
  then obtain s2 where s2: "session_rollback s1 = (Inr (), s2)" "deliveredMessages s2 = []" "transactionId s2 = None"
      "synchronizations s2 = []" "\<not> synchronizationRegistered s2"
      "pending (unconsumedMessages s2) = fold (ch_place_first s1) (map bump (rev ds)) rest"
    using rollback_restores [OF t] s1(2-5) assms(6,7) by (auto simp: tx_inv_def ready_def same_setup_def)
  have "fold (ch_place_first s1) (map bump (rev ds)) rest = map bump ds @ rest"
    using assms(3,8) place_back_in_order s1(5) by (simp add: ch_place_first_def same_setup_def fold_Cons_rev rev_map)
  then show ?thesis using s1(1,3,4) s2 r t by (auto simp: in_transaction_def)
qed

theorem transaction_rollback_roundtrip_witness:
  "\<exists>s1 s2. receives (length [sample_dispatch 1, sample_dispatch 2]) (sample_consumer SESSION_TRANSACTED\<lparr>unconsumedMessages :=
      \<lparr>lc_closed = False, lc_running = True, pending = [sample_dispatch 1, sample_dispatch 2, sample_dispatch 3]\<rparr>\<rparr>) =
      (Inr (map dispatchMessage [sample_dispatch 1, sample_dispatch 2]), s1) \<and> transactionId s1 = Some 1 \<and>
    session_rollback s1 = (Inr (), s2) \<and>
    pending (unconsumedMessages s2) = [bump (sample_dispatch 1), bump (sample_dispatch 2), sample_dispatch 3]"
proof -
  define s where "s = sample_consumer SESSION_TRANSACTED\<lparr>unconsumedMessages :=
      \<lparr>lc_closed = False, lc_running = True, pending = [sample_dispatch 1, sample_dispatch 2, sample_dispatch 3]\<rparr>\<rparr>"
  have "lasting (sample_dispatch n)" for n by (simp add: lasting_def sample_defs)
  moreover have "deliverable (sample_dispatch 1)" "deliverable (sample_dispatch 2)" by (simp_all add: sample_deliverable INT_MAX_def)
  moreover have "tx_inv 1 s" "deliveredMessages s = []" "\<not> optimizeAcknowledge s" "\<not> nonBlockingRedelivery s"
    "\<not> isMessagePrioritySupported (info s)" "maximumRedeliveries (info s) = 6"
    "pending (unconsumedMessages s) = [sample_dispatch 1, sample_dispatch 2] @ [sample_dispatch 3]"
    by (simp_all add: s_def sample_consumer_def sample_info_def tx_inv_def ready_def settled_def reliable_def isTransacted_def)
  moreover have "\<not> redeliveryExceeded (sample_dispatch n) s"
    "\<exists>m. dispatchMessage (sample_dispatch n) = Some m \<and> messageRedeliveryCounter m < 6" for n
    by (simp_all add: s_def redeliveryExceeded_def sample_defs)
  ultimately show ?thesis
    unfolding s_def [symmetric]
    using transaction_rollback_roundtrip [of 1 s "[sample_dispatch 1, sample_dispatch 2]" "[sample_dispatch 3]"]
    by (auto simp del: receives.simps)
qed

end
