(* ===== verification/Receiving.thy ===== *)
theory Receiving
  imports ConsumerAcks
begin

text \<open>
  Receiving by the application: which methods leave the channel of unconsumed messages alone and never
  wait, that a receive without waiting returns, and which message it returns.
\<close>

section \<open>Methods that leave the channel alone\<close>

definition same :: "consumer \<Rightarrow> consumer \<Rightarrow> bool" where
  "same s' s \<longleftrightarrow> unconsumedMessages s' = unconsumedMessages s \<and> info s' = info s \<and>
     consumerExpiryCheckEnabled s' = consumerExpiryCheckEnabled s \<and> range (clock s') \<subseteq> range (clock s)"

definition calm :: "consumer \<Rightarrow> 'a result \<times> consumer \<Rightarrow> bool" where
  "calm s r \<longleftrightarrow> same (snd r) s \<and> fst r \<noteq> Inl StillWaiting"

named_theorems calm_intros \<open>methods that do not touch the channel and do not wait\<close>

lemma same_refl [simp]: "same s s"
  by (simp add: same_def)

lemma calm_combinators [calm_intros]:
  "same s1 s \<Longrightarrow> calm s (returns x s1)"
  "same s1 s \<Longrightarrow> e \<noteq> StillWaiting \<Longrightarrow> calm s (throws e s1)"
  "same s1 s \<Longrightarrow> r \<noteq> Inl StillWaiting \<Longrightarrow> calm s (lifts r s1)"
  "same (f s1) s \<Longrightarrow> calm s (updates f s1)"
  "calm s (m s1) \<Longrightarrow> (\<And>x s2. same s2 s \<Longrightarrow> calm s (k x s2)) \<Longrightarrow> calm s (andthen m k s1)"
  "calm s (m s1) \<Longrightarrow> calm s (amq_boundary m s1)" "calm s (m s1) \<Longrightarrow> calm s (cms_boundary m s1)"
  by (auto simp: calm_def action_defs amq_boundary_def cms_boundary_def split: prod.splits sum.splits)

lemma calm_branches [calm_intros]:
  "(b \<Longrightarrow> calm s r1) \<Longrightarrow> (\<not> b \<Longrightarrow> calm s r2) \<Longrightarrow> calm s (if b then r1 else r2)"
  "(b \<Longrightarrow> calm s (m1 s1)) \<Longrightarrow> (\<not> b \<Longrightarrow> calm s (m2 s1)) \<Longrightarrow> calm s ((if b then m1 else m2) s1)"
  "(o1 = None \<Longrightarrow> calm s r1) \<Longrightarrow> (\<And>a. o1 = Some a \<Longrightarrow> calm s (r3 a)) \<Longrightarrow>
     calm s (case o1 of None \<Rightarrow> r1 | Some a \<Rightarrow> r3 a)"
  "(o1 = None \<Longrightarrow> calm s (m1 s1)) \<Longrightarrow> (\<And>a. o1 = Some a \<Longrightarrow> calm s (m3 a s1)) \<Longrightarrow>
     calm s ((case o1 of None \<Rightarrow> m1 | Some a \<Rightarrow> m3 a) s1)"
  by (auto split: option.splits)

lemma calm_for_each [calm_intros]:
  "same s1 s \<Longrightarrow> (\<And>x s2. same s2 s \<Longrightarrow> calm s (f x s2)) \<Longrightarrow> calm s (for_each xs f s1)"
  by (induction xs arbitrary: s1) (auto intro!: calm_intros)

lemma same_updates [simp]:
  "same (s1\<lparr>deliveredMessages := a\<rparr>) s = same s1 s" "same (s1\<lparr>pendingAck := b\<rparr>) s = same s1 s"
  "same (s1\<lparr>deliveredCounter := c\<rparr>) s = same s1 s" "same (s1\<lparr>connectionAudit := d\<rparr>) s = same s1 s"
  "same (s1\<lparr>transportFails := f\<rparr>) s = same s1 s"
  "same (s1\<lparr>sent := g\<rparr>) s = same s1 s" "same (s1\<lparr>transactionId := h\<rparr>) s = same s1 s"
  "same (s1\<lparr>synchronizations := i\<rparr>) s = same s1 s" "same (s1\<lparr>localTransactionIds := j\<rparr>) s = same s1 s"
  "same (s1\<lparr>synchronizationRegistered := k\<rparr>) s = same s1 s" "same (s1\<lparr>additionalWindowSize := l\<rparr>) s = same s1 s"
  "same (s1\<lparr>lastDeliveredSequenceId := m\<rparr>) s = same s1 s" "same (s1\<lparr>isClearDeliveredList := n\<rparr>) s = same s1 s"
  "same (s1\<lparr>previouslyDeliveredMessages := p\<rparr>) s = same s1 s" "same (s1\<lparr>ackCounter := q\<rparr>) s = same s1 s"
  "same (s1\<lparr>deliveringAcks := r\<rparr>) s = same s1 s" "same (s1\<lparr>optimizeAckTimestamp := u\<rparr>) s = same s1 s"
  by (simp_all add: same_def)

lemma rollback_no_wait: "fst (ca_rollbackDuplicate hashD d m ca) \<noteq> Inl StillWaiting"
proof -
  have 1: "bs_set_value i False b \<noteq> Inl StillWaiting" for i b
    by (auto simp: bs_set_value_def bs_clear_at_def Let_def)
  have 2: "fst (rollback_bit seed i a) \<noteq> Inl StillWaiting" for seed i a
    using 1 by (auto simp: rollback_bit_def Let_def split: prod.splits sum.splits)
  have 3: "fst (rollback mid a) \<noteq> Inl StillWaiting" for mid a
    using 2 by (auto simp: rollback_def Let_def split: option.splits)
  then show ?thesis
    by (auto simp: ca_rollbackDuplicate_def Let_def split: option.splits prod.splits sum.splits) (metis fst_conv)+
qed

lemma same_clock: "same s1 s \<Longrightarrow> same (s1\<lparr>clock := (\<lambda>n. clock s1 (Suc n))\<rparr>) s"
  by (auto simp: same_def)

lemma calm_world [calm_intros]:
  "same s1 s \<Longrightarrow> calm s (transmit w s1)" "same s1 s \<Longrightarrow> calm s (currentTimeMillis s1)"
  "same s1 s \<Longrightarrow> calm s (deref_message d s1)"
  using same_clock [of s1 s]
  by (auto simp: transmit_def calm_def currentTimeMillis_def deref_message_def action_defs Let_def split: if_splits;
      cases "dispatchMessage d"; simp)+

lemma calm_session [calm_intros]:
  "same s1 s \<Longrightarrow> calm s (sendAck a b s1)" "same s1 s \<Longrightarrow> calm s (session_syncRequest c s1)"
  "same s1 s \<Longrightarrow> calm s (tx_begin s1)" "same s1 s \<Longrightarrow> calm s (lookupConsumerKernel s1)"
  unfolding sendAck_def session_syncRequest_def tx_begin_def lookupConsumerKernel_def Let_def
  by (intro calm_intros; simp)+

lemma new_MessageAck_no_wait: "new_MessageAck d t n \<noteq> Inl StillWaiting"
  by (simp add: new_MessageAck_def split: option.splits)

lemma of_option_no_wait: "e \<noteq> StillWaiting \<Longrightarrow> of_option e r \<noteq> Inl StillWaiting"
  by (cases r) simp_all

lemma calm_rollbackDuplicate [calm_intros]: "same s1 s \<Longrightarrow> calm s (rollbackDuplicate m s1)"
  using rollback_no_wait [of "dispatcherHash (info s1)" "consumerRef (info s1)" m "connectionAudit s1"]
  by (auto simp: rollbackDuplicate_def calm_def split: prod.splits)

lemma calm_registerSync [calm_intros]: "same s1 s \<Longrightarrow> calm s (doStartTransaction s1)" "same s1 s \<Longrightarrow> calm s (registerSync s1)"
  unfolding registerSync_def doStartTransaction_def by (intro calm_intros; simp)+

lemma calm_acks [calm_intros]:
  "same s1 s \<Longrightarrow> calm s (immediateIndividualTransactedAck d s1)" "same s1 s \<Longrightarrow> calm s (ackLater d t s1)"
  "same s1 s \<Longrightarrow> calm s (posionAck d c s1)" "same s1 s \<Longrightarrow> calm s (acknowledge_one d t s1)"
  unfolding immediateIndividualTransactedAck_def ackLater_def posionAck_def acknowledge_one_def
  by (intro calm_intros; simp add: new_MessageAck_no_wait)+

lemma calm_clearDeliveredList [calm_intros]: "same s1 s \<Longrightarrow> calm s (clearDeliveredList s1)"
  unfolding clearDeliveredList_def by (intro calm_intros; simp)

lemma calm_beforeMessageIsConsumed [calm_intros]: "same s1 s \<Longrightarrow> calm s (beforeMessageIsConsumed d s1)"
  unfolding beforeMessageIsConsumed_def
  by (intro calm_intros; simp add: of_option_no_wait)

lemma calm_optimized [calm_intros]: "same s1 s \<Longrightarrow> calm s (isTimeForOptimizedAck s1)"
  "same s1 s \<Longrightarrow> calm s (makeAckForAllDeliveredMessages t s1)"
  unfolding isTimeForOptimizedAck_def makeAckForAllDeliveredMessages_def
  by (intro calm_intros; simp add: new_MessageAck_no_wait)+

lemma calm_auto_acknowledge [calm_intros]: "same s1 s \<Longrightarrow> calm s (auto_acknowledge s1)"
  unfolding auto_acknowledge_def by (intro calm_intros; simp)

lemma calm_afterMessageIsConsumed [calm_intros]: "same s1 s \<Longrightarrow> calm s (afterMessageIsConsumed d b s1)"
  unfolding afterMessageIsConsumed_def by (intro calm_intros; simp)

lemma calm_receive_finish [calm_intros]: "same s1 s \<Longrightarrow> calm s (createCMSMessage d s1)"
  "same s1 s \<Longrightarrow> calm s (receive_finish r s1)"
  unfolding createCMSMessage_def receive_finish_def by (intro calm_intros; simp)+

lemma calm_sendPullRequest [calm_intros]: "same s1 s \<Longrightarrow> calm s (sendPullRequest t s1)"
  unfolding sendPullRequest_def by (intro calm_intros; simp)

lemma calm_remaining [calm_intros]: "same s1 s \<Longrightarrow> calm s (remaining t dl s1)"
  unfolding remaining_def by (intro calm_intros; simp)

lemma calm_consumeExpired [calm_intros]: "same s1 s \<Longrightarrow> calm s (consumeExpiredMessage d s1)"
  unfolding consumeExpiredMessage_def by (intro calm_intros; simp)

lemma calm_consumer_checks [calm_intros]: "same s1 s \<Longrightarrow> calm s (checkClosed s1)" "same s1 s \<Longrightarrow> calm s (checkMessageListener s1)"
  unfolding checkClosed_def checkMessageListener_def by (intro calm_intros; simp)+

section \<open>Methods that succeed\<close>

text \<open>
  A consumer on a reliable transport, in an open session, with no failure to report and nothing to clear, whose
  messages are all there with their ids.
\<close>

definition identified :: "message_dispatch \<Rightarrow> bool" where
  "identified d \<longleftrightarrow> (\<exists>m mid. dispatchMessage d = Some m \<and> messageId m = Some mid)"

definition sound :: "consumer \<Rightarrow> bool" where
  "sound s \<longleftrightarrow> (\<forall>n. \<not> transportFails s n) \<and> inSession s \<and> \<not> sessionClosed s \<and> \<not> isClearDeliveredList s \<and> failureError s = None \<and>
     \<not> lc_closed (unconsumedMessages s) \<and> \<not> listener s \<and> (\<forall>d \<in> set (deliveredMessages s). identified d) \<and>
     (\<forall>d \<in> set (pending (unconsumedMessages s)). identified d)"

definition succeeds :: "'a result \<times> consumer \<Rightarrow> bool" where
  "succeeds r \<longleftrightarrow> \<not> isl (fst r) \<and> sound (snd r)"

named_theorems sure_intros \<open>methods that succeed in a sound state\<close>

lemma sure_combinators [sure_intros]:
  "sound s \<Longrightarrow> succeeds (returns x s)" "sound (f s) \<Longrightarrow> succeeds (updates f s)"
  "\<not> isl r \<Longrightarrow> sound s \<Longrightarrow> succeeds (lifts r s)"
  "succeeds (m s) \<Longrightarrow> (\<And>x s2. sound s2 \<Longrightarrow> succeeds (k x s2)) \<Longrightarrow> succeeds (andthen m k s)"
  "succeeds (m s) \<Longrightarrow> succeeds (amq_boundary m s)" "succeeds (m s) \<Longrightarrow> succeeds (cms_boundary m s)"
  by (auto simp: succeeds_def action_defs amq_boundary_def cms_boundary_def split: prod.splits sum.splits)

lemma sure_branches [sure_intros]:
  "(b \<Longrightarrow> succeeds r1) \<Longrightarrow> (\<not> b \<Longrightarrow> succeeds r2) \<Longrightarrow> succeeds (if b then r1 else r2)"
  "(b \<Longrightarrow> succeeds (m1 s1)) \<Longrightarrow> (\<not> b \<Longrightarrow> succeeds (m2 s1)) \<Longrightarrow> succeeds ((if b then m1 else m2) s1)"
  "(o1 = None \<Longrightarrow> succeeds r1) \<Longrightarrow> (\<And>a. o1 = Some a \<Longrightarrow> succeeds (r3 a)) \<Longrightarrow>
     succeeds (case o1 of None \<Rightarrow> r1 | Some a \<Rightarrow> r3 a)"
  "(o1 = None \<Longrightarrow> succeeds (m1 s1)) \<Longrightarrow> (\<And>a. o1 = Some a \<Longrightarrow> succeeds (m3 a s1)) \<Longrightarrow>
     succeeds ((case o1 of None \<Rightarrow> m1 | Some a \<Rightarrow> m3 a) s1)"
  by (auto split: option.splits)

lemma sound_fields [simp]:
  "sound (s\<lparr>pendingAck := b\<rparr>) = sound s" "sound (s\<lparr>deliveredCounter := c\<rparr>) = sound s" "sound (s\<lparr>clock := e\<rparr>) = sound s"
  "sound (s\<lparr>sent := g\<rparr>) = sound s" "sound (s\<lparr>transactionId := h\<rparr>) = sound s"
  "sound (s\<lparr>synchronizations := i\<rparr>) = sound s" "sound (s\<lparr>localTransactionIds := j\<rparr>) = sound s"
  "sound (s\<lparr>synchronizationRegistered := k\<rparr>) = sound s" "sound (s\<lparr>additionalWindowSize := l\<rparr>) = sound s"
  "sound (s\<lparr>lastDeliveredSequenceId := m\<rparr>) = sound s" "sound (s\<lparr>ackCounter := q\<rparr>) = sound s"
  "sound (s\<lparr>deliveringAcks := r\<rparr>) = sound s" "sound (s\<lparr>optimizeAckTimestamp := u\<rparr>) = sound s"
  by (simp_all add: sound_def)

lemma remove_ref_subset: "set (remove_ref r ds) \<subseteq> set ds"
  by (induction ds) auto

lemma sound_delivered [simp]:
  "sound s \<Longrightarrow> sound (s\<lparr>deliveredMessages := []\<rparr>)"
  "sound s \<Longrightarrow> identified d \<Longrightarrow> sound (s\<lparr>deliveredMessages := d # deliveredMessages s\<rparr>)"
  "sound s \<Longrightarrow> sound (s\<lparr>deliveredMessages := remove_ref r (deliveredMessages s)\<rparr>)"
  using remove_ref_subset [of r "deliveredMessages s"] by (auto simp: sound_def)

lemma sure_world [sure_intros]:
  "sound s \<Longrightarrow> succeeds (transmit w s)" "sound s \<Longrightarrow> succeeds (currentTimeMillis s)"
  "sound s \<Longrightarrow> succeeds (lookupConsumerKernel s)"
  by (simp_all add: transmit_def succeeds_def sound_def currentTimeMillis_def lookupConsumerKernel_def returns_def Let_def)

lemma sure_session [sure_intros]:
  "sound s \<Longrightarrow> succeeds (sendAck a b s)" "sound s \<Longrightarrow> succeeds (session_syncRequest c s)" "sound s \<Longrightarrow> succeeds (tx_begin s)"
  unfolding sendAck_def session_syncRequest_def tx_begin_def Let_def
  by (intro sure_intros; simp add: sound_def)+

lemma sure_registerSync [sure_intros]: "sound s \<Longrightarrow> succeeds (doStartTransaction s)" "sound s \<Longrightarrow> succeeds (registerSync s)"
  unfolding registerSync_def doStartTransaction_def by (intro sure_intros; simp)+

lemma new_MessageAck_sure: "identified d \<Longrightarrow> \<not> isl (new_MessageAck d t n)"
  by (auto simp: new_MessageAck_def identified_def)

lemma sure_acks [sure_intros]:
  "sound s \<Longrightarrow> identified d \<Longrightarrow> succeeds (deref_message d s)"
  "sound s \<Longrightarrow> identified d \<Longrightarrow> succeeds (immediateIndividualTransactedAck d s)"
  "sound s \<Longrightarrow> identified d \<Longrightarrow> succeeds (ackLater d t s)" "sound s \<Longrightarrow> identified d \<Longrightarrow> succeeds (acknowledge_one d t s)"
  unfolding immediateIndividualTransactedAck_def ackLater_def acknowledge_one_def deref_message_def
  by (intro sure_intros; auto simp: new_MessageAck_sure identified_def)+

lemma sure_posionAck [sure_intros]: "sound s \<Longrightarrow> identified d \<Longrightarrow> succeeds (posionAck d c s)"
  unfolding posionAck_def by (intro sure_intros; simp add: new_MessageAck_sure)

lemma sure_beforeMessageIsConsumed [sure_intros]:
  assumes "sound s" "identified d"
  shows "succeeds (beforeMessageIsConsumed d s)"
proof -
  obtain m mid where m: "dispatchMessage d = Some m" "messageId m = Some mid" using assms(2) by (auto simp: identified_def)
  have "beforeMessageIsConsumed d s = andthen (updates (lastDeliveredSequenceId_update (\<lambda>_. brokerSequenceId mid))) (\<lambda>_ s.
      if isAutoAcknowledgeBatch s then returns () s
      else andthen (updates (\<lambda>s. s\<lparr>deliveredMessages := d # deliveredMessages s\<rparr>)) (\<lambda>_ s.
        if isTransacted s then (if transactedIndividualAck s then immediateIndividualTransactedAck d s else ackLater d DELIVERED s)
        else returns () s) s) s"
    by (simp add: beforeMessageIsConsumed_def deref_message_def m lifts_def andthen_def)
  then show ?thesis
    using assms by (auto intro!: sure_intros)
qed

lemma sure_optimized [sure_intros]:
  assumes "sound s"
  shows "succeeds (isTimeForOptimizedAck s)" "succeeds (makeAckForAllDeliveredMessages t s)"
proof -
  show "succeeds (isTimeForOptimizedAck s)"
    unfolding isTimeForOptimizedAck_def using assms by (auto intro!: sure_intros)
  have "\<forall>d \<in> set (deliveredMessages s). dispatchMessage d \<noteq> None"
    using assms by (auto simp: sound_def identified_def)
  then show "succeeds (makeAckForAllDeliveredMessages t s)"
    using assms makeAck_ok [of s t]
    by (cases "deliveredMessages s = []") (simp_all add: succeeds_def, simp add: makeAckForAllDeliveredMessages_def returns_def)
qed

lemma sure_auto_acknowledge [sure_intros]: "sound s \<Longrightarrow> succeeds (auto_acknowledge s)"
  unfolding auto_acknowledge_def by (intro sure_intros; simp)

lemma mode_cases: "isTransacted s \<or> isAutoAcknowledgeEach s \<or> isAutoAcknowledgeBatch s \<or> isManualAcknowledge s"
  by (cases "ackMode (info s)")
    (auto simp: isTransacted_def isAutoAcknowledgeEach_def isAutoAcknowledgeBatch_def isManualAcknowledge_def)

lemma sure_afterMessageIsConsumed [sure_intros]: "sound s \<Longrightarrow> identified d \<Longrightarrow> succeeds (afterMessageIsConsumed d b s)"
  unfolding afterMessageIsConsumed_def using mode_cases [of s] by (intro sure_intros; simp)

lemma sure_receiving [sure_intros]:
  "sound s \<Longrightarrow> identified d \<Longrightarrow> succeeds (createCMSMessage d s)"
  "sound s \<Longrightarrow> (\<And>d. r = Some d \<Longrightarrow> identified d) \<Longrightarrow> succeeds (receive_finish r s)"
  "sound s \<Longrightarrow> succeeds (clearDeliveredList s)" "sound s \<Longrightarrow> succeeds (sendPullRequest t s)"
  "sound s \<Longrightarrow> identified d \<Longrightarrow> succeeds (consumeExpiredMessage d s)"
  "sound s \<Longrightarrow> succeeds (checkClosed s)" "sound s \<Longrightarrow> succeeds (checkMessageListener s)"
proof -
  show created: "succeeds (createCMSMessage d s)" if "sound s" "identified d" for d s
    unfolding createCMSMessage_def using that by (auto intro!: sure_intros)
  show "succeeds (receive_finish r s)" if "sound s" "\<And>d. r = Some d \<Longrightarrow> identified d"
    unfolding receive_finish_def using that by (auto intro!: sure_intros created split: option.splits)
  show clear: "succeeds (clearDeliveredList s)" if "sound s" for s
    using that by (simp add: clearDeliveredList_def sound_def succeeds_def returns_def)
  show "succeeds (sendPullRequest t s)" if "sound s"
    unfolding sendPullRequest_def using that by (auto intro!: sure_intros clear)
  show "succeeds (consumeExpiredMessage d s)" if "sound s" "identified d"
    unfolding consumeExpiredMessage_def using that by (auto intro!: sure_intros)
  show "succeeds (checkClosed s)" "succeeds (checkMessageListener s)" if "sound s"
    using that by (simp_all add: checkClosed_def checkMessageListener_def sound_def succeeds_def returns_def)
qed

section \<open>Receiving without waiting\<close>

text \<open>
  A message is out of date at a time after its expiration, for a consumer that checks this, and over the limit
  when it was redelivered more often than the policy of a transacted session allows and has no redelivery delay of
  its own. The time is one of the readings of the clock.
\<close>

definition out_of_date :: "int \<Rightarrow> consumer \<Rightarrow> message_dispatch \<Rightarrow> bool" where
  "out_of_date now s d \<longleftrightarrow> consumerExpiryCheckEnabled s \<and> \<not> isBrowser (info s) \<and>
     (\<exists>m. dispatchMessage d = Some m \<and> 0 < expiration m \<and> expiration m < now)"

definition over_limit :: "consumer \<Rightarrow> message_dispatch \<Rightarrow> bool" where
  "over_limit s d \<longleftrightarrow> ackMode (info s) = SESSION_TRANSACTED \<and> maximumRedeliveries (info s) \<noteq> - 1 \<and>
     maximumRedeliveries (info s) < redeliveryCounter d \<and> (\<exists>m. dispatchMessage d = Some m \<and> \<not> hasRedeliveryDelay m)"

definition skipped :: "consumer \<Rightarrow> message_dispatch \<Rightarrow> bool" where
  "skipped s d \<longleftrightarrow> (\<exists>now \<in> range (clock s). out_of_date now s d) \<or> over_limit s d"

definition wanted :: "consumer \<Rightarrow> message_dispatch \<Rightarrow> bool" where
  "wanted s d \<longleftrightarrow> dispatchMessage d \<noteq> None \<and> (\<exists>now \<in> range (clock s). \<not> out_of_date now s d) \<and> \<not> over_limit s d"

text \<open>What a search that took \<open>k\<close> messages from the channel may end with.\<close>

definition search_ends :: "consumer \<Rightarrow> message_dispatch list \<Rightarrow> nat \<Rightarrow> message_dispatch option result \<Rightarrow> bool" where
  "search_ends s ds k r \<longleftrightarrow> k \<le> length ds \<and> (\<forall>d \<in> set (take (k - 1) ds). skipped s d) \<and>
     (case r of
        Inl e \<Rightarrow> e \<noteq> StillWaiting
      | Inr (Some d) \<Rightarrow> 0 < k \<and> d = ds ! (k - 1) \<and> wanted s d
      | Inr None \<Rightarrow> (if 0 < k \<and> dispatchMessage (ds ! (k - 1)) = None then True
          else (\<forall>d \<in> set (take k ds). skipped s d) \<and> (k = length ds \<or> lc_closed (unconsumedMessages s) \<or> \<not> lc_running (unconsumedMessages s))))"

lemma same_searches:
  assumes "same s1 (s\<lparr>unconsumedMessages := c\<rparr>)" "lc_closed c = lc_closed (unconsumedMessages s)" "lc_running c = lc_running (unconsumedMessages s)"
  shows "skipped s1 d \<Longrightarrow> skipped s d" "wanted s1 d \<Longrightarrow> wanted s d" "search_ends s1 ds k r \<Longrightarrow> search_ends s ds k r"
proof -
  have same: "out_of_date now s1 d = out_of_date now s d" "over_limit s1 d = over_limit s d" "range (clock s1) \<subseteq> range (clock s)"
      "lc_closed (unconsumedMessages s1) = lc_closed (unconsumedMessages s)" "lc_running (unconsumedMessages s1) = lc_running (unconsumedMessages s)"
    for now d using assms by (simp_all add: same_def out_of_date_def over_limit_def)
  then show skip: "skipped s1 d \<Longrightarrow> skipped s d" and want: "wanted s1 d \<Longrightarrow> wanted s d" for d
    unfolding skipped_def wanted_def by blast+
  show "search_ends s1 ds k r \<Longrightarrow> search_ends s ds k r"
    using same(4,5) skip want by (auto simp: search_ends_def split: sum.splits option.splits if_splits)
qed

lemma search_ends_Cons: "skipped s d \<Longrightarrow> search_ends s ds k r \<Longrightarrow> search_ends s (d # ds) (Suc k) r"
  by (cases k) (auto simp: search_ends_def skipped_def out_of_date_def over_limit_def split: sum.splits option.splits if_splits)

text \<open>
  A round with timeout zero. It ends the search, or it passed over the first message and goes on.
\<close>

lemma remaining_zero: "andthen (remaining 0 dl) k = k 0"
  by (simp add: remaining_def action_defs fun_eq_iff)

lemma isExpired_out_of_date:
  "dispatchMessage d = Some m \<Longrightarrow> (isExpired now m \<and> \<not> isBrowser (info s) \<and> consumerExpiryCheckEnabled s) = out_of_date now s d"
  by (auto simp: isExpired_def out_of_date_def)

lemma redeliveryExceeded_over_limit: "redeliveryExceeded d s = over_limit s d"
  by (auto simp: redeliveryExceeded_def over_limit_def isTransacted_def NO_MAXIMUM_REDELIVERIES_def split: option.splits)

text \<open>Passing over a message, as the round does it.\<close>

definition pass_over :: "wakes \<Rightarrow> message_dispatch \<Rightarrow> (message_dispatch option option \<times> int \<times> wakes) action" where
  "pass_over ws d s = (if out_of_date (clock s 0) s d
     then andthen (beforeMessageIsConsumed d) (\<lambda>_. andthen (afterMessageIsConsumed d True) (\<lambda>_.
       andthen (sendPullRequest 0) (\<lambda>_. returns (None, 0, ws)))) (snd (currentTimeMillis s))
     else andthen (posionAck d (receive_limit_text s)) (\<lambda>_.
       andthen (sendPullRequest 0) (\<lambda>_. returns (None, 0, ws))) (snd (currentTimeMillis s)))"

lemma dequeue_round_message:
  assumes "lc_dequeueNoWait (unconsumedMessages s) = (Some d, c)" and "dispatchMessage d = Some m"
  shows "dequeue_round 0 dl ws s = (let s1 = s\<lparr>unconsumedMessages := c\<rparr> in
    if out_of_date (clock s 0) s d \<or> over_limit s d then pass_over ws d s1
    else (Inr (Some (Some d), 0, ws), snd (currentTimeMillis s1)))"
proof -
  have eqs: "out_of_date now (s\<lparr>unconsumedMessages := c, clock := t\<rparr>) d = out_of_date now s d" "over_limit (s\<lparr>unconsumedMessages := c, clock := t\<rparr>) d = over_limit s d"
    "out_of_date now (s\<lparr>unconsumedMessages := c\<rparr>) d = out_of_date now s d" for now t
    by (simp_all add: out_of_date_def over_limit_def)
  have limit_text: "receive_limit_text (s\<lparr>unconsumedMessages := c, clock := t\<rparr>) = receive_limit_text (s\<lparr>unconsumedMessages := c\<rparr>)" for t
    by (simp add: receive_limit_text_def)
  have "channel_dequeue 0 ws s = (Inr (Some d, ws), s\<lparr>unconsumedMessages := c\<rparr>)"
    using assms(1) by (simp add: channel_dequeue_def)
  moreover have "consumeExpiredMessage d (s\<lparr>unconsumedMessages := c\<rparr>) =
      (Inr (out_of_date (clock s 0) s d), snd (currentTimeMillis (s\<lparr>unconsumedMessages := c\<rparr>)))"
    using isExpired_out_of_date [OF assms(2), of "clock s 0" s]
    by (simp add: consumeExpiredMessage_def deref_message_def assms(2) lifts_def currentTimeMillis_def andthen_def returns_def)
  ultimately show ?thesis
    by (simp add: dequeue_round_def andthen_def [of "channel_dequeue 0 ws"] andthen_def [of "consumeExpiredMessage d"] assms(2)
        remaining_zero redeliveryExceeded_over_limit pass_over_def Let_def returns_def)
      (simp add: currentTimeMillis_def eqs limit_text)
qed

lemma pass_over_calm: "calm s (pass_over ws d s)"
  "fst (pass_over ws d s) = Inr (x, t, w) \<Longrightarrow> x = None \<and> t = 0"
  "sound s \<Longrightarrow> identified d \<Longrightarrow> succeeds (pass_over ws d s)"
proof -
  have same: "same (snd (currentTimeMillis s)) s" and sound: "sound s \<Longrightarrow> sound (snd (currentTimeMillis s))"
    by (simp_all add: currentTimeMillis_def same_clock)
  show "calm s (pass_over ws d s)"
    unfolding pass_over_def by (intro calm_intros same; simp add: same)
  show "fst (pass_over ws d s) = Inr (x, t, w) \<Longrightarrow> x = None \<and> t = 0"
    by (auto simp: pass_over_def action_defs split: if_splits prod.splits sum.splits)
  show "sound s \<Longrightarrow> identified d \<Longrightarrow> succeeds (pass_over ws d s)"
    unfolding pass_over_def by (intro sure_intros; simp add: sound)
qed

lemma dequeueNoWait_None:
  assumes "lc_dequeueNoWait (unconsumedMessages s) = (None, c)"
  shows "dequeue_round 0 dl ws s = (if failureError s = None then Inr (Some None, 0, ws) else Inl CMSException, s)"
    "pending (unconsumedMessages s) = [] \<or> lc_closed (unconsumedMessages s) \<or> \<not> lc_running (unconsumedMessages s)"
proof -
  have c: "c = unconsumedMessages s"
    using assms by (auto simp: lc_dequeueNoWait_def split: if_splits list.splits)
  then have "channel_dequeue 0 ws s = (Inr (None, ws), s)"
    using assms by (simp add: channel_dequeue_def)
  then show "dequeue_round 0 dl ws s = (if failureError s = None then Inr (Some None, 0, ws) else Inl CMSException, s)"
    by (simp add: dequeue_round_def andthen_def [of "channel_dequeue 0 ws"] returns_def throws_def split: option.splits)
  show "pending (unconsumedMessages s) = [] \<or> lc_closed (unconsumedMessages s) \<or> \<not> lc_running (unconsumedMessages s)"
    using assms by (auto simp: lc_dequeueNoWait_def split: if_splits list.splits)
qed

lemma dequeueNoWait_Some:
  assumes "lc_dequeueNoWait (unconsumedMessages s) = (Some d, c)"
  shows "pending (unconsumedMessages s) = d # pending c" "lc_closed c = lc_closed (unconsumedMessages s)"
    "lc_running c = lc_running (unconsumedMessages s)" "sound s \<Longrightarrow> sound (s\<lparr>unconsumedMessages := c\<rparr>) \<and> identified d"
  using assms by (auto simp: lc_dequeueNoWait_def sound_def split: if_splits list.splits)

text \<open>How the whole loop ends, and that it succeeds in a sound state.\<close>

definition searched :: "consumer \<Rightarrow> message_dispatch option result \<times> consumer \<Rightarrow> bool" where
  "searched s r \<longleftrightarrow> (sound s \<longrightarrow> succeeds r) \<and> info (snd r) = info s \<and>
     (\<exists>k. pending (unconsumedMessages (snd r)) = drop k (pending (unconsumedMessages s)) \<and>
       search_ends s (pending (unconsumedMessages s)) k (fst r))"

lemma searched_first:
  assumes "lc_dequeueNoWait (unconsumedMessages s) = (Some d, c)" "same s1 (s\<lparr>unconsumedMessages := c\<rparr>)" "sound s \<Longrightarrow> succeeds (r, s1)"
    "case r of Inl e \<Rightarrow> e \<noteq> StillWaiting | Inr None \<Rightarrow> dispatchMessage d = None | Inr (Some d') \<Rightarrow> d' = d \<and> wanted s d"
  shows "searched s (r, s1)"
proof -
  note ds = dequeueNoWait_Some(1) [OF assms(1)]
  have "search_ends s (pending (unconsumedMessages s)) 1 r"
    using assms(4) by (auto simp: search_ends_def ds split: sum.splits option.splits)
  then show ?thesis
    using assms(2,3) ds by (auto simp: searched_def same_def intro!: exI [of _ 1])
qed

lemma searched_next:
  assumes "lc_dequeueNoWait (unconsumedMessages s) = (Some d, c)" "same s1 (s\<lparr>unconsumedMessages := c\<rparr>)" "sound s \<Longrightarrow> sound s1"
    "skipped s d" "searched s1 r"
  shows "searched s r"
proof -
  note ds = dequeueNoWait_Some [OF assms(1)]
  obtain k where k: "pending (unconsumedMessages (snd r)) = drop k (pending c)" "search_ends s1 (pending c) k (fst r)"
    using assms(2,5) by (auto simp: searched_def same_def)
  then have "search_ends s (pending (unconsumedMessages s)) (Suc k) (fst r)"
    using same_searches(3) [OF assms(2) ds(2,3)] search_ends_Cons [OF assms(4)] ds(1) by simp
  then show ?thesis
    using k(1) ds(1) assms(2,3,5) by (auto simp: searched_def same_def intro!: exI [of _ "Suc k"])
qed

lemma dequeue_loop_searched:
  "length (pending (unconsumedMessages s)) < n \<Longrightarrow> searched s (dequeue_loop n 0 dl ws s)"
proof (induction n arbitrary: ws s)
  case (Suc n)
  obtain x c where rc: "lc_dequeueNoWait (unconsumedMessages s) = (x, c)" by (cases "lc_dequeueNoWait (unconsumedMessages s)")
  show ?case
  proof (cases x)
    case None
    note stop = dequeueNoWait_None [OF rc [unfolded None]]
    have "dequeue_loop (Suc n) 0 dl ws s = (if failureError s = None then Inr None else Inl CMSException, s)"
      by (simp add: andthen_def stop(1) returns_def)
    then show ?thesis
      using stop(2) by (auto simp: searched_def search_ends_def succeeds_def sound_def intro!: exI [of _ 0])
  next
    case (Some d)
    note first = rc [unfolded Some] and d = dequeueNoWait_Some [OF rc [unfolded Some]]
    let ?s1 = "s\<lparr>unconsumedMessages := c\<rparr>"
    show ?thesis
    proof (cases "dispatchMessage d")
      case None
      have "channel_dequeue 0 ws s = (Inr (Some d, ws), ?s1)"
        using first by (simp add: channel_dequeue_def)
      then have "dequeue_loop (Suc n) 0 dl ws s = (Inr None, ?s1)"
        using None by (simp add: dequeue_round_def andthen_def returns_def)
      then show ?thesis
        using searched_first [OF first, of ?s1 "Inr None"] None d(4) by (auto simp: identified_def)
    next
      case (Some m)
      note round = dequeue_round_message [OF first Some, of dl ws]
      show ?thesis
      proof (cases "out_of_date (clock s 0) s d \<or> over_limit s d")
        case True
        then have skip: "skipped s d" by (auto simp: skipped_def)
        obtain r s2 where r: "pass_over ws d ?s1 = (r, s2)" by (cases "pass_over ws d ?s1")
        then have s2: "same s2 ?s1" "r \<noteq> Inl StillWaiting" "sound s \<Longrightarrow> succeeds (r, s2)"
          using pass_over_calm(1,3) [where s = ?s1 and ws = ws and d = d] d(4) by (auto simp: calm_def)
        show ?thesis
        proof (cases r)
          case (Inl e)
          then have "dequeue_loop (Suc n) 0 dl ws s = (Inl e, s2)"
            using round True r by (simp add: andthen_def)
          then show ?thesis
            using searched_first [OF first s2(1), of "Inl e"] s2(2,3) Inl by (auto simp: succeeds_def)
        next
          case (Inr y)
          then obtain w where y: "y = (None, 0, w)"
            using pass_over_calm(2) [of ws d ?s1] r by (cases y) auto
          then have "dequeue_loop (Suc n) 0 dl ws s = dequeue_loop n 0 dl w s2"
            using round True r Inr by (simp add: andthen_def)
          moreover have "searched s2 (dequeue_loop n 0 dl w s2)"
            using Suc.prems s2(1) d(1) by (intro Suc.IH) (simp add: same_def)
          ultimately show ?thesis
            using searched_next [OF first s2(1) _ skip] s2(3) by (auto simp: succeeds_def)
        qed
      next
        case False
        then have "dequeue_loop (Suc n) 0 dl ws s = (Inr (Some d), snd (currentTimeMillis ?s1))" "wanted s d"
          using round Some by (auto simp: andthen_def returns_def wanted_def)
        then show ?thesis
          using searched_first [OF first, of "snd (currentTimeMillis ?s1)" "Inr (Some d)"] d(4) same_clock [of ?s1 ?s1]
          by (simp add: currentTimeMillis_def succeeds_def)
      qed
    qed
  qed
qed simp

lemma receive_finish_result:
  "receive_finish r s = (Inr y, s') \<Longrightarrow> (case r of None \<Rightarrow> y = None | Some d \<Rightarrow> \<exists>m h. y = Some (m, h) \<and> dispatchMessage d = Some m)"
  by (auto simp: receive_finish_def createCMSMessage_def deref_message_def action_defs split: option.splits prod.splits sum.splits)

definition received :: "consumer \<Rightarrow> message_dispatch list \<Rightarrow> nat \<Rightarrow> (message \<times> ack_handler) option result \<Rightarrow> bool" where
  "received s ds k r \<longleftrightarrow> k \<le> length ds \<and> (\<forall>d \<in> set (take (k - 1) ds). skipped s d) \<and>
      (case r of
         Inl e \<Rightarrow> e \<noteq> StillWaiting \<and> \<not> sound s
       | Inr (Some (m, h)) \<Rightarrow> 0 < k \<and> dispatchMessage (ds ! (k - 1)) = Some m \<and> wanted s (ds ! (k - 1))
       | Inr None \<Rightarrow> 0 < k \<and> dispatchMessage (ds ! (k - 1)) = None \<or>
           (\<forall>d \<in> set (take k ds). skipped s d) \<and> (k = length ds \<or> \<not> lc_running (unconsumedMessages s)))"

lemma cms_boundary_cases:
  assumes "calm s (m s)"
  obtains (error) e where "fst (cms_boundary m s) = Inl e" "e \<noteq> StillWaiting" "isl (fst (m s))"
    | (success) "cms_boundary m s = m s" "\<not> isl (fst (m s))"
  using assms by (cases "m s"; cases "fst (m s)") (auto simp: cms_boundary_def calm_def)

lemma snd_boundary [simp]: "snd (cms_boundary m s) = snd (m s)"
  by (simp add: cms_boundary_def split: prod.splits sum.splits)

text \<open>What the search ended with is handed over to the application.\<close>

lemma finish_received:
  assumes "search_ends s ds k (Inr x)" "\<not> lc_closed (unconsumedMessages s)" "ds = pending (unconsumedMessages s)" "sound s \<Longrightarrow> sound s2"
  shows "received s ds k (fst (cms_boundary (receive_finish x) s2))"
  using calm_receive_finish(2) [OF same_refl, of s2 x]
proof (cases rule: cms_boundary_cases)
  case (error e)
  have "identified d" if "sound s" "x = Some d" for d
    using that assms(1,3) by (auto simp: search_ends_def sound_def)
  then have "\<not> sound s"
    using error(3) assms(4) sure_receiving(2) [of s2 x] by (auto simp: succeeds_def)
  then show ?thesis
    using error(1,2) assms(1) by (auto simp: received_def search_ends_def)
next
  case success
  then obtain y s3 where y: "receive_finish x s2 = (Inr y, s3)" by (cases "receive_finish x s2"; cases "fst (receive_finish x s2)") auto
  with receive_finish_result [OF y] success(1) assms(1,2) show ?thesis
    by (auto simp: received_def search_ends_def split: option.splits if_splits)
qed

text \<open>The checks and the pull request at the start of a receive leave the channel alone.\<close>

definition receive_start :: "unit action" where
  "receive_start = andthen checkClosed (\<lambda>_. andthen checkMessageListener (\<lambda>_. sendPullRequest (- 1)))"

lemma receiveNoWait_start:
  "receiveNoWait rounds ws = cms_boundary (andthen receive_start (\<lambda>_ s.
     andthen (consumer_dequeue rounds (if prefetchSize (info s) = 0 then - 1 else 0) ws) receive_finish s))"
  by (auto simp: receiveNoWait_def receive_start_def andthen_def fun_eq_iff cms_boundary_def split: prod.splits sum.splits)

lemma receive_start_facts:
  "calm s (receive_start s)" "sound s \<Longrightarrow> succeeds (receive_start s)"
  "\<not> isl (fst (receive_start s)) \<Longrightarrow> \<not> lc_closed (unconsumedMessages s)"
proof -
  show "calm s (receive_start s)" "sound s \<Longrightarrow> succeeds (receive_start s)"
    unfolding receive_start_def by (intro calm_intros sure_intros; simp)+
  show "\<not> isl (fst (receive_start s)) \<Longrightarrow> \<not> lc_closed (unconsumedMessages s)"
    by (auto simp: receive_start_def checkClosed_def action_defs)
qed

text \<open>
  C26.  \<open>receiveNoWait\<close> of a consumer with a prefetch window returns, in every state and whatever fails on the
  way, after at most one round more than there are messages in the channel. It takes some messages from the front
  of the channel and leaves the others there. All but the last of those it took were passed over, because they
  had expired at a reading of the clock or were over the redelivery limit. If it returns a message, this is the last one
  taken, it was not over the limit and had not expired at a reading of the clock. If it returns null, the last
  one taken carries no message (the mark of the end of a browse), or all that were taken were passed over and the channel is
  empty or stopped. It throws only when something was wrong before: \<open>sound\<close> asks for a reliable transport, an
  open session that knows the consumer, no listener, no failure reported, an open channel, no delivered list to clear
  after a failover, and a message with an id in every dispatch.
\<close>

theorem receiveNoWait_returns:
  assumes "prefetchSize (info s) \<noteq> 0" and "length (pending (unconsumedMessages s)) < rounds"
    and "receiveNoWait rounds ws s = (r, s')" and "ds = pending (unconsumedMessages s)"
  shows "\<exists>k. k \<le> length ds \<and> pending (unconsumedMessages s') = drop k ds \<and> (\<forall>d \<in> set (take (k - 1) ds). skipped s d) \<and>
      (case r of
         Inl e \<Rightarrow> e \<noteq> StillWaiting \<and> \<not> sound s
       | Inr (Some (m, h)) \<Rightarrow> 0 < k \<and> dispatchMessage (ds ! (k - 1)) = Some m \<and> wanted s (ds ! (k - 1))
       | Inr None \<Rightarrow> 0 < k \<and> dispatchMessage (ds ! (k - 1)) = None \<or>
           (\<forall>d \<in> set (take k ds). skipped s d) \<and> (k = length ds \<or> \<not> lc_running (unconsumedMessages s)))"
proof -
  obtain r1 s1 where p: "receive_start s = (r1, s1)" by (cases "receive_start s")
  have s1: "same s1 (s\<lparr>unconsumedMessages := unconsumedMessages s\<rparr>)" "r1 \<noteq> Inl StillWaiting" "sound s \<Longrightarrow> \<not> isl r1 \<and> sound s1"
    using receive_start_facts(1,2) [of s] by (auto simp: calm_def succeeds_def p)
  obtain r2 s2 where d: "dequeue_loop rounds 0 0 ws s1 = (r2, s2)" by (cases "dequeue_loop rounds 0 0 ws s1")
  then have "searched s1 (r2, s2)" using dequeue_loop_searched [of s1 rounds 0 ws] assms(2) s1(1) by (simp add: same_def)
  then obtain k where k: "pending (unconsumedMessages s2) = drop k ds" "search_ends s ds k r2" "sound s1 \<Longrightarrow> succeeds (r2, s2)"
    using same_searches(3) [OF s1(1)] s1(1) assms(4) by (auto simp: searched_def same_def)
  have q: "consumer_dequeue rounds (if prefetchSize (info s1) = 0 then - 1 else 0) ws s1 = cms_boundary (dequeue_loop rounds 0 0 ws) s1"
    using assms(1) s1(1) by (simp add: consumer_dequeue_def action_defs cms_boundary_def same_def)
  have rs: "(r, s') = cms_boundary (andthen receive_start (\<lambda>_ s.
     andthen (consumer_dequeue rounds (if prefetchSize (info s) = 0 then - 1 else 0) ws) receive_finish s)) s"
    using assms(3) by (simp only: receiveNoWait_start)
  have "\<exists>k. pending (unconsumedMessages s') = drop k ds \<and> received s ds k r"
  proof (cases "isl r1 \<or> isl r2")
    case True
    have "\<not> sound s \<and> (\<exists>e'. r = Inl e' \<and> e' \<noteq> StillWaiting) \<and> s' = (if isl r1 then s1 else s2)"
      using rs True s1(2,3) k(2,3)
      by (cases r1; cases r2) (auto simp: andthen_def p q d cms_boundary_def search_ends_def succeeds_def)
    then show ?thesis
      using s1(1) k(1,2) assms(4) by (cases "isl r1") (auto simp: received_def search_ends_def same_def intro: exI [of _ 0] exI [of _ k])
  next
    case False
    then obtain u x where x: "r1 = Inr u" "r2 = Inr x" by (cases r1; cases r2) auto
    then have "(r, s') = cms_boundary (receive_finish x) s2"
      using rs by (simp add: andthen_def p q d cms_boundary_def)
    moreover have "unconsumedMessages (snd (receive_finish x s2)) = unconsumedMessages s2"
      using calm_receive_finish(2) [OF same_refl, of s2 x] by (simp add: calm_def same_def)
    moreover have "received s ds k (fst (cms_boundary (receive_finish x) s2))"
      using k(2,3) x s1(3) receive_start_facts(3) [of s] p assms(4) by (intro finish_received) (auto simp: succeeds_def)
    ultimately show ?thesis
      using k(1) by (metis fst_conv snd_conv snd_boundary)
  qed
  then show ?thesis
    unfolding received_def by blast
qed

text \<open>At time 10, a message that expired at 5 is passed over and the next one is returned.\<close>

definition sample_expired :: message_dispatch where
  "sample_expired = (sample_dispatch 1)\<lparr>dispatchMessage := map_option (expiration_update (\<lambda>_. 5)) (dispatchMessage (sample_dispatch 1))\<rparr>"

definition sample_receiver :: consumer where
  "sample_receiver = sample_consumer CLIENT_ACKNOWLEDGE\<lparr>clock := (\<lambda>_. 10), unconsumedMessages :=
     \<lparr>lc_closed = False, lc_running = True, pending = [sample_expired, sample_dispatch 2, sample_dispatch 3]\<rparr>\<rparr>"

theorem receiveNoWait_returns_witness:
  "\<exists>m h s'. receiveNoWait 4 [] sample_receiver = (Inr (Some (m, h)), s') \<and> Some m = dispatchMessage (sample_dispatch 2) \<and>
     pending (unconsumedMessages s') = [sample_dispatch 3]"
proof -
  let ?ds = "[sample_expired, sample_dispatch 2, sample_dispatch 3]"
  obtain r s' where r: "receiveNoWait 4 [] sample_receiver = (r, s')" by (cases "receiveNoWait 4 [] sample_receiver")
  have ds: "pending (unconsumedMessages sample_receiver) = ?ds" "prefetchSize (info sample_receiver) \<noteq> 0"
    by (simp_all add: sample_receiver_def) (simp add: sample_defs)
  have m: "dispatchMessage d \<noteq> None" "identified d" if "d \<in> set ?ds" for d
    using that by (auto simp: identified_def sample_expired_def sample_defs)
  then have "sound sample_receiver"
    by (simp add: sound_def sample_receiver_def) (simp add: sample_defs)
  moreover have "\<not> skipped sample_receiver (sample_dispatch 2)" "\<not> wanted sample_receiver sample_expired" "lc_running (unconsumedMessages sample_receiver)"
    by (simp_all add: skipped_def wanted_def out_of_date_def over_limit_def sample_receiver_def sample_expired_def sample_defs)
  moreover have "length (pending (unconsumedMessages sample_receiver)) < 4" by (simp add: ds(1))
  from receiveNoWait_returns [OF ds(2) this r ds(1) [symmetric]] obtain k where k: "k \<le> length ?ds"
      "pending (unconsumedMessages s') = drop k ?ds" "\<forall>d \<in> set (take (k - 1) ?ds). skipped sample_receiver d"
      "case r of Inl e \<Rightarrow> e \<noteq> StillWaiting \<and> \<not> sound sample_receiver
       | Inr (Some (m, h)) \<Rightarrow> 0 < k \<and> dispatchMessage (?ds ! (k - 1)) = Some m \<and> wanted sample_receiver (?ds ! (k - 1))
       | Inr None \<Rightarrow> 0 < k \<and> dispatchMessage (?ds ! (k - 1)) = None \<or>
           (\<forall>d \<in> set (take k ?ds). skipped sample_receiver d) \<and> (k = length ?ds \<or> \<not> lc_running (unconsumedMessages sample_receiver))"
    by blast
  moreover have "k = 2 \<and> (\<exists>x. r = Inr (Some x))"
  proof -
    from k(1) consider "k = 0" | "k = 1" | "k = 2" | "k = 3" by force
    then show ?thesis
      using k(3,4) calculation(1-4) m [of sample_expired] m [of "sample_dispatch 2"] by cases (auto simp: numeral_2_eq_2 numeral_3_eq_3 split: sum.splits option.splits)
  qed
  ultimately show ?thesis
    using r by (auto simp: numeral_2_eq_2)
qed

end
