(* ===== verification/Filtering.thy ===== *)
theory Filtering
  imports ConsumerAcks
begin

text \<open>
  Duplicate suppression end to end: messages that the transport hands to a consumer of a queue go through
  the connection audit, its message audit and the bit set of their producer before they are queued.
\<close>

section \<open>The audit of one queue\<close>

text \<open>
  The connection audit has seen exactly the pairs \<open>P\<close> of producer and sequence number on queue \<open>q\<close>, in at
  most \<open>n\<close> calls.
\<close>

definition watching :: "message_audit \<Rightarrow> producer_id set \<Rightarrow> string \<Rightarrow> int \<Rightarrow> (producer_id \<times> int) set \<Rightarrow>
    nat connection_audit \<Rightarrow> bool" where
  "watching blank U q n P ca \<longleftrightarrow> blank = new_MessageAudit (caDepth ca) (caMaximumProducerNumber ca) \<and> checkForDuplicates ca \<and> 0 \<le> n \<and>
     audit_ok 0 10000 blank \<and> audit_view blank = [] \<and> tracks 10000 U [] {} \<and>
     (case queue_audit q ca of
        None \<Rightarrow> P = {}
      | Some a \<Rightarrow> audit_ok n 10000 a \<and> tracks 10000 U (audit_view a) P)"

lemma audit_ok_mono: "audit_ok m N a \<Longrightarrow> m \<le> n \<Longrightarrow> audit_ok n N a"
  using grown_mono [of hash_string m _ n] by (auto simp: audit_ok_def lru_ok_def)

lemma watching_isDuplicate:
  assumes w: "watching blank U q n P ca" and n: "n \<le> 2 ^ 26"
    and m: "messageDestination m = Some dest" "isQueue dest" "dest_key dest = q"
    and k: "msg_pair (messageId m) = Some k" "names_in U (messageId m)"
  shows "\<exists>ca'. ca_isDuplicate hashD d (Some m) ca = (Inr (k \<in> P), ca') \<and>
    watching blank U q (n + 1) (insert k P) ca'"
proof -
  define a where "a = (case queue_audit q ca of None \<Rightarrow> blank | Some a \<Rightarrow> a)"
  have a: "audit_ok n 10000 a" "tracks 10000 U (audit_view a) P"
    using w audit_ok_mono [of 0 10000 blank n] by (auto simp: watching_def a_def split: option.splits)
  have plain: "plain_call (AuditDuplicate (messageId m))" "call_in U (AuditDuplicate (messageId m))"
    using call_in_plain [of U "AuditDuplicate (messageId m)"] k(2) by simp_all
  from isDuplicate_step [OF a(1) n _ plain(1)] window_tracks [OF a(2) plain(2)] k(1)
  obtain a' where a': "isDuplicate (messageId m) a = (Inr (k \<in> P), a')" "audit_ok (n + 1) 10000 a'"
    "tracks 10000 U (audit_view a') (insert k P)" by (auto split: prod.splits)
  have blank: "blank = new_MessageAudit (caDepth ca) (caMaximumProducerNumber ca)" and check: "checkForDuplicates ca"
    using w by (simp_all add: watching_def)
  have a_eq: "(case queue_audit q ca of None \<Rightarrow> new_MessageAudit (caDepth ca) (caMaximumProducerNumber ca) | Some a \<Rightarrow> a) = a"
    unfolding a_def blank ..
  have "ca_isDuplicate hashD d (Some m) ca = (Inr (k \<in> P), set_queue_audit dest a' ca)"
    using m check a'(1) a_eq by (simp add: queue_isDuplicate)
  moreover have "watching blank U q (n + 1) (insert k P) (set_queue_audit dest a' ca)"
    using w a'(2,3) queue_audit_set [of dest a' ca] m(3) by (auto simp: watching_def set_queue_audit_def)
  ultimately show ?thesis by blast
qed

lemma watching_new:
  assumes "0 \<le> depth" and "finite U" and "card U \<le> 10000" and "long_ids U"
  shows "watching (new_MessageAudit depth maxP) U q 171 {} (new_ConnectionAudit depth maxP)"
proof -
  have "tracks 10000 U [] {}" using assms(2-4) by (simp add: tracks_def seen_of_def)
  then show ?thesis
    using new_audit_ok [OF assms(1), of maxP]
    by (simp add: watching_def, simp add: new_ConnectionAudit_def queue_audit_def)
qed

section \<open>Dispatching to a consumer of the queue\<close>

text \<open>A dispatch of a message for queue \<open>q\<close> by one of the producers \<open>U\<close>, and its key.\<close>

definition queue_message :: "producer_id set \<Rightarrow> string \<Rightarrow> message_dispatch \<Rightarrow> bool" where
  "queue_message U q d \<longleftrightarrow> (\<exists>m dest. dispatchMessage d = Some m \<and> messageDestination m = Some dest \<and> isQueue dest \<and>
     dest_key dest = q \<and> names_in U (messageId m) \<and> msg_pair (messageId m) \<noteq> None)"

definition pair_of :: "message_dispatch \<Rightarrow> producer_id \<times> int" where
  "pair_of d = the (msg_pair (id_of d))"

fun originals :: "(producer_id \<times> int) set \<Rightarrow> message_dispatch list \<Rightarrow> message_dispatch list" where
  "originals P [] = []"
| "originals P (d # ds) = (if pair_of d \<in> P then originals P ds else d # originals (insert (pair_of d) P) ds)"

fun repeats :: "(producer_id \<times> int) set \<Rightarrow> message_dispatch list \<Rightarrow> message_dispatch list" where
  "repeats P [] = []"
| "repeats P (d # ds) = (if pair_of d \<in> P then d # repeats P ds else repeats (insert (pair_of d) P) ds)"

text \<open>A started consumer without listener whose messages the audit checks.\<close>

definition accepting :: "consumer \<Rightarrow> bool" where
  "accepting s \<longleftrightarrow> \<not> lc_closed (unconsumedMessages s) \<and> lc_running (unconsumedMessages s) \<and> \<not> listener s \<and>
     \<not> isBrowser (info s) \<and> connectionChecksDuplicates (info s) \<and> settled s \<and> reliable s \<and>
     (first_consumer (sessions s) = None \<or> first_consumer (sessions s) = Some ThisConsumer)"

definition suppress_ack :: "consumer \<Rightarrow> message_dispatch \<Rightarrow> wire" where
  "suppress_ack s d = wire_of s False ((covering_ack POISON [d])\<lparr>poisonCause :=
     Some (''Suppressing duplicate delivery on connection, consumer '' @ consumerId (info s))\<rparr>)"

fun dispatch_all :: "message_listener \<Rightarrow> message_dispatch list \<Rightarrow> consumer \<Rightarrow> consumer option" where
  "dispatch_all onMessage [] s = Some s"
| "dispatch_all onMessage (d # ds) s =
     Option.bind (dispatch onMessage d s) (\<lambda>(r, s'). if isl r then None else dispatch_all onMessage ds s')"

abbreviation audited :: "message_audit \<Rightarrow> producer_id set \<Rightarrow> string \<Rightarrow> int \<Rightarrow> (producer_id \<times> int) set \<Rightarrow> consumer \<Rightarrow> bool" where
  "audited blank U q n P s \<equiv> watching blank U q n P (connectionAudit s)"

lemma posionAck_ok:
  assumes "dispatchMessage d = Some m" and "\<not> transportFails s 0"
  shows "posionAck d cause s = (Inr (), sent_on (wire_of s False ((covering_ack POISON [d])\<lparr>poisonCause := Some cause\<rparr>)) s)"
  using assms by (simp add: posionAck_def new_MessageAck_def deref_message_def run_simps covering_ack_def id_of_def)

lemma dispatch_step:
  assumes acc: "accepting s" and w: "audited blank U q n P s" and n: "n \<le> 2 ^ 26" and d: "queue_message U q d"
  shows "\<exists>s'. dispatch onMessage d s = Some (Inr (), s') \<and> accepting s' \<and> audited blank U q (n + 1) (insert (pair_of d) P) s' \<and>
    info s' = info s \<and>
    (if pair_of d \<in> P then unconsumedMessages s' = unconsumedMessages s \<and> sent s' = sent s @ [suppress_ack s d]
     else unconsumedMessages s' = lc_enqueue (ch_place s) d (unconsumedMessages s) \<and> sent s' = sent s)"
proof -
  obtain m dest where m: "dispatchMessage d = Some m" "messageDestination m = Some dest" "isQueue dest"
    "dest_key dest = q" "names_in U (messageId m)" "msg_pair (messageId m) = Some (pair_of d)"
    using d by (auto simp: queue_message_def pair_of_def id_of_def)
  obtain ca where ca: "ca_isDuplicate (dispatcherHash (info s)) (consumerRef (info s)) (Some m) (connectionAudit s) =
      (Inr (pair_of d \<in> P), ca)" "watching blank U q (n + 1) (insert (pair_of d) P) ca"
    using watching_isDuplicate [OF w n m(2-4) m(6,5)] by blast
  let ?s1 = "s\<lparr>connectionAudit := ca\<rparr>"
  have body: "dispatch_body onMessage d s =
      (if pair_of d \<in> P then dispatch_duplicate d ?s1 else dispatch_new onMessage d ?s1)"
    using acc m(1) ca(1) by (simp add: dispatch_body_def accepting_def run_simps connection_isDuplicate_def)
  have s1: "\<not> transportFails ?s1 0" "previouslyDeliveredMessages ?s1 = None" "wire_of ?s1 = wire_of s"
    "ch_place ?s1 = ch_place s"
    using acc by (simp_all add: accepting_def reliable_def settled_def suppress_ack_def wire_of_def isTransacted_def
        ch_place_def fun_eq_iff)
  show ?thesis
  proof (cases "pair_of d \<in> P")
    case True
    have "dispatch_duplicate d ?s1 = (Inr Finished, sent_on (suppress_ack s d) ?s1)"
      using s1 acc posionAck_ok [OF m(1) s1(1)]
      by (auto simp: dispatch_duplicate_def redeliveryExpectedInCurrentTransaction_def run_simps accepting_def
          redeliveryPendingInCompetingTransaction_def suppress_ack_def)
    then have "dispatch onMessage d s = Some (Inr (), count_dispatch (sent_on (suppress_ack s d) ?s1))"
      using True body by (subst dispatch.simps) (simp add: amq_boundary_def)
    then show ?thesis
      using True acc ca(2) by (auto simp: accepting_def count_dispatch_def sent_on_def reliable_def settled_def)
  next
    case False
    have "dispatch_new onMessage d ?s1 =
        (Inr Finished, ?s1\<lparr>unconsumedMessages := lc_enqueue (ch_place s) d (unconsumedMessages s)\<rparr>)"
      using acc s1(4) by (simp add: dispatch_new_def accepting_def run_simps)
    then have "dispatch onMessage d s =
        Some (Inr (), count_dispatch (?s1\<lparr>unconsumedMessages := lc_enqueue (ch_place s) d (unconsumedMessages s)\<rparr>))"
      using False body by (subst dispatch.simps) (simp add: amq_boundary_def)
    then show ?thesis
      using False acc ca(2) by (auto simp: accepting_def count_dispatch_def reliable_def settled_def lc_enqueue_def)
  qed
qed

lemma dispatch_all_spec:
  assumes "accepting s" and "audited blank U q n P s" and "n + int (length ds) \<le> 2 ^ 26"
    and "\<forall>d \<in> set ds. queue_message U q d"
  shows "\<exists>s'. dispatch_all onMessage ds s = Some s' \<and>
    pending (unconsumedMessages s') = fold (ch_place s) (originals P ds) (pending (unconsumedMessages s)) \<and>
    sent s' = sent s @ map (suppress_ack s) (repeats P ds)"
  using assms
proof (induction ds arbitrary: s n P)
  case (Cons d ds)
  have "n \<le> 2 ^ 26" "queue_message U q d" using Cons.prems(3,4) by simp_all
  from dispatch_step [OF Cons.prems(1,2) this, of onMessage] obtain s1 where
    s1: "dispatch onMessage d s = Some (Inr (), s1)" "accepting s1" "audited blank U q (n + 1) (insert (pair_of d) P) s1"
      "info s1 = info s"
      "if pair_of d \<in> P then unconsumedMessages s1 = unconsumedMessages s \<and> sent s1 = sent s @ [suppress_ack s d]
       else unconsumedMessages s1 = lc_enqueue (ch_place s) d (unconsumedMessages s) \<and> sent s1 = sent s" by blast
  have same: "ch_place s1 = ch_place s" "suppress_ack s1 = suppress_ack s"
    using s1(4) by (simp_all add: ch_place_def suppress_ack_def wire_of_def isTransacted_def fun_eq_iff)
  have "n + 1 + int (length ds) \<le> 2 ^ 26" "\<forall>d \<in> set ds. queue_message U q d" using Cons.prems(3,4) by simp_all
  from Cons.IH [OF s1(2,3) this] same obtain s2 where
    s2: "dispatch_all onMessage ds s1 = Some s2"
      "pending (unconsumedMessages s2) = fold (ch_place s) (originals (insert (pair_of d) P) ds) (pending (unconsumedMessages s1))"
      "sent s2 = sent s1 @ map (suppress_ack s) (repeats (insert (pair_of d) P) ds)" by auto
  have P: "pair_of d \<in> P \<Longrightarrow> insert (pair_of d) P = P" by blast
  show ?case
    using s1(1,5) s2 P by (cases "pair_of d \<in> P") (auto simp: lc_enqueue_def)
qed simp

text \<open>
  C2.  Duplicate suppression end to end.  At most \<open>2 ^ 25\<close> dispatches of messages for one queue, by at most 10000
  producers and with sequence numbers below 2147483584, are handed to a started consumer, without listener and no
  browser, of a connection with a new audit and a transport that does not fail.  Every call of \<open>dispatch\<close> returns
  without exception; the messages seen for the first time are queued in the order of the channel's discipline, and
  for every repetition of a producer's sequence number the broker is sent one POISON acknowledgement and
  nothing is queued.
\<close>

theorem dispatch_suppresses_duplicates:
  assumes "accepting s" and "connectionAudit s = new_ConnectionAudit depth maxP" and "0 \<le> depth"
    and "finite U" and "card U \<le> 10000" and "long_ids U"
    and "length ds \<le> 2 ^ 25" and "\<forall>d \<in> set ds. queue_message U q d"
  shows "\<exists>s'. dispatch_all onMessage ds s = Some s' \<and>
    pending (unconsumedMessages s') = fold (ch_place s) (originals {} ds) (pending (unconsumedMessages s)) \<and>
    sent s' = sent s @ map (suppress_ack s) (repeats {} ds)"
proof -
  have "audited (new_MessageAudit depth maxP) U q 171 {} s" unfolding assms(2) by (rule watching_new [OF assms(3-6)])
  from dispatch_all_spec [OF assms(1) this _ assms(8)] assms(7) show ?thesis by simp
qed

definition sample_producers :: "producer_id set" where
  "sample_producers = {\<lparr>connectionId = ''c'', idValue = 1, sessionId = 1\<rparr>}"

lemma sample_filter_facts:
  "accepting (sample_consumer mode)" "connectionAudit (sample_consumer mode) = new_ConnectionAudit 2048 64"
  "finite sample_producers" "card sample_producers \<le> 10000" "long_ids sample_producers"
  "pair_of (sample_dispatch n) = (\<lparr>connectionId = ''c'', idValue = 1, sessionId = 1\<rparr>, int n)"
  by (simp_all add: accepting_def sample_defs settled_def reliable_def sample_producers_def long_ids_def is_long_def
      LONG_MIN_def LONG_MAX_def pair_of_def id_of_def msg_pair_def)

lemma sample_queue_message: "int n < INDEX_END \<Longrightarrow> queue_message sample_producers ''q'' (sample_dispatch n)"
  by (simp add: queue_message_def sample_defs isQueue_def isTopic_def dest_key_def names_in_def msg_pair_def sample_producers_def)

theorem dispatch_suppresses_duplicates_witness:
  "\<exists>s'. dispatch_all (\<lambda>m h s. (Completed, s)) [sample_dispatch 1, sample_dispatch 2, sample_dispatch 1]
      (sample_consumer CLIENT_ACKNOWLEDGE) = Some s' \<and>
    pending (unconsumedMessages s') = [sample_dispatch 1, sample_dispatch 2] \<and> length (sent s') = 1"
proof -
  let ?s = "sample_consumer CLIENT_ACKNOWLEDGE" and ?ds = "[sample_dispatch 1, sample_dispatch 2, sample_dispatch 1]"
  have "\<forall>d \<in> set ?ds. queue_message sample_producers ''q'' d"
    using sample_queue_message by (simp add: INDEX_END_def)
  moreover have "originals {} ?ds = [sample_dispatch 1, sample_dispatch 2]" "length (repeats {} ?ds) = 1"
    by (simp_all add: sample_filter_facts(6))
  moreover have "ch_place ?s = fifo_place" "pending (unconsumedMessages ?s) = []" "sent ?s = []"
    by (simp_all add: ch_place_def sample_defs)
  ultimately show ?thesis
    using dispatch_suppresses_duplicates [OF sample_filter_facts(1,2) _ sample_filter_facts(3-5), of ?ds "''q''" "\<lambda>m h s. (Completed, s)" CLIENT_ACKNOWLEDGE]
    by (auto simp: fifo_place_def)
qed

section \<open>Replay after a failover\<close>

text \<open>
  C36.  After a failover the broker replays the messages of the running transaction.  The consumer looks the
  replayed message up in \<open>previouslyDeliveredMessages\<close>, whose keys are \<open>Pointer<MessageId>\<close> and are compared by
  address.  A replayed message is a new object, so it is never found: \<open>dispatch\<close> sends a POISON
  acknowledgement for a message of the transaction, the entry is never marked as replayed, and with such
  an entry the check before commit throws \<open>TransactionRolledBackException\<close>.
\<close>

theorem replay_after_failover_is_poisoned:
  assumes "isTransacted s" and "previouslyDeliveredMessages s = Some xs" and "(r, messageId m, False) \<in> set xs"
    and "dispatchMessage d = Some m" and "messageIdRef m \<notin> fst ` set xs"
    and "queue_message U q d" and "audited blank U q n P s" and "n \<le> 2 ^ 26" and "pair_of d \<in> P"
    and "\<not> isClearDeliveredList s" and "inProgressClearRequiredFlag s \<le> 0" and "\<not> lc_closed (unconsumedMessages s)"
    and "\<not> isBrowser (info s)" and "connectionChecksDuplicates (info s)" and "\<not> transportFails s 0"
    and "first_consumer (sessions s) = Some ThisConsumer"
  shows "\<exists>s'. dispatch onMessage d s = Some (Inr (), s') \<and> sent s' = sent s @ [suppress_ack s d] \<and>
    unconsumedMessages s' = unconsumedMessages s \<and> previouslyDeliveredMessages s' = Some xs \<and>
    rollbackOnFailedRecoveryRedelivery s' = (Inl TransactionRolledBackException, s')"
proof -
  obtain dest where m: "messageDestination m = Some dest" "isQueue dest" "dest_key dest = q" "names_in U (messageId m)"
    "msg_pair (messageId m) = Some (pair_of d)"
    using assms(4,6) by (auto simp: queue_message_def pair_of_def id_of_def)
  obtain ca where ca: "ca_isDuplicate (dispatcherHash (info s)) (consumerRef (info s)) (Some m) (connectionAudit s) =
      (Inr True, ca)"
    using watching_isDuplicate [OF assms(7,8) m(1-3,5,4), of "dispatcherHash (info s)" "consumerRef (info s)"] assms(9) by auto
  let ?s1 = "s\<lparr>connectionAudit := ca\<rparr>"
  have "clearDeliveredList s = (Inr (), s)" "clearMessagesInProgress s = (Inr (), s)"
    using assms(10,11) by (simp_all add: clearDeliveredList_def clearMessagesInProgress_def run_simps)
  then have body: "dispatch_body onMessage d s = dispatch_duplicate d ?s1"
    using assms(4,12-14) ca by (simp add: dispatch_body_def run_simps connection_isDuplicate_def)
  have e: "redeliveryExpectedInCurrentTransaction d b ?s1 = (Inr False, ?s1)" for b
    using assms(1,2,4,5)
    by (simp add: redeliveryExpectedInCurrentTransaction_def run_simps isTransacted_def deref_message_def pd_containsKey_def)
  have w: "wire_of ?s1 = wire_of s" by (simp add: wire_of_def isTransacted_def fun_eq_iff)
  have "\<not> transportFails ?s1 0" using assms(15) by simp
  note p = posionAck_ok [OF assms(4) this]
  have "dispatch_duplicate d ?s1 = (Inr Finished, sent_on (suppress_ack s d) ?s1)"
    using assms(16) by (simp add: dispatch_duplicate_def run_simps e p w redeliveryPendingInCompetingTransaction_def suppress_ack_def)
  then have "dispatch onMessage d s = Some (Inr (), count_dispatch (sent_on (suppress_ack s d) ?s1))"
    using body by (subst dispatch.simps) (simp add: amq_boundary_def)
  moreover have "numberNotReplayed xs > 0"
    using assms(3) by (auto simp: numberNotReplayed_def length_greater_0_conv filter_empty_conv)
  ultimately show ?thesis
    using assms(2) by (simp add: count_dispatch_def sent_on_def rollbackOnFailedRecoveryRedelivery_def run_simps)
qed

text \<open>A transaction after a failover, and the replay of its only message as a new object.\<close>

definition sample_failover :: consumer where
  "sample_failover = sample_consumer SESSION_TRANSACTED\<lparr>
     previouslyDeliveredMessages := Some [(1, id_of (sample_dispatch 1), False)],
     connectionAudit := snd (ca_isDuplicate (\<lambda>n. int n) 7 (dispatchMessage (sample_dispatch 1)) (new_ConnectionAudit 2048 64))\<rparr>"

definition sample_replay :: message_dispatch where
  "sample_replay = (sample_dispatch 1)\<lparr>dispatchRef := 90,
     dispatchMessage := map_option (\<lambda>m. m\<lparr>messageIdRef := 99\<rparr>) (dispatchMessage (sample_dispatch 1))\<rparr>"

theorem replay_after_failover_is_poisoned_witness:
  "\<exists>s'. dispatch (\<lambda>m h s. (Completed, s)) sample_replay sample_failover = Some (Inr (), s') \<and>
    sent s' = [suppress_ack sample_failover sample_replay] \<and>
    rollbackOnFailedRecoveryRedelivery s' = (Inl TransactionRolledBackException, s')"
proof -
  let ?p = "\<lparr>connectionId = ''c'', idValue = 1, sessionId = 1\<rparr>"
  obtain m1 where m1: "dispatchMessage (sample_dispatch 1) = Some m1" "messageId m1 = id_of (sample_dispatch 1)"
    "messageDestination m1 = Some \<lparr>physicalName = ''q'', destinationType = QUEUE\<rparr>"
    by (simp add: sample_defs id_of_def)
  have k: "msg_pair (messageId m1) = Some (?p, 1)" "names_in sample_producers (messageId m1)"
    unfolding m1(2) by (simp_all add: sample_defs id_of_def msg_pair_def names_in_def sample_producers_def INDEX_END_def)
  obtain ca where ca: "ca_isDuplicate (\<lambda>n. int n) 7 (Some m1) (new_ConnectionAudit 2048 64) = (Inr False, ca)"
    "watching (new_MessageAudit 2048 64) sample_producers ''q'' (171 + 1) {(?p, 1)} ca"
    using watching_isDuplicate [OF watching_new [of 2048 sample_producers 64 "''q''"] _ m1(3) _ _ k, of "\<lambda>n. int n" 7]
      sample_filter_facts(3-5) by (auto simp: isQueue_def isTopic_def dest_key_def)
  have d: "dispatchMessage sample_replay = Some (m1\<lparr>messageIdRef := 99\<rparr>)" using m1(1) by (simp add: sample_replay_def)
  have "queue_message sample_producers ''q'' sample_replay" "pair_of sample_replay = (?p, 1)"
    using m1(3) k by (simp_all add: queue_message_def d isQueue_def isTopic_def dest_key_def pair_of_def id_of_def)
  moreover have "audited (new_MessageAudit 2048 64) sample_producers ''q'' 172 {(?p, 1)} sample_failover"
    using ca m1(1) by (simp add: sample_failover_def)
  moreover have "isTransacted sample_failover" "previouslyDeliveredMessages sample_failover = Some [(1, messageId m1, False)]"
    "\<not> isClearDeliveredList sample_failover" "inProgressClearRequiredFlag sample_failover \<le> 0"
    "\<not> lc_closed (unconsumedMessages sample_failover)" "\<not> isBrowser (info sample_failover)"
    "connectionChecksDuplicates (info sample_failover)" "\<not> transportFails sample_failover 0"
    "first_consumer (sessions sample_failover) = Some ThisConsumer" "sent sample_failover = []"
    unfolding m1(2) by (simp_all add: sample_failover_def sample_consumer_def sample_info_def isTransacted_def)
  ultimately show ?thesis
    using replay_after_failover_is_poisoned [of sample_failover "[(1, messageId m1, False)]" 1 "m1\<lparr>messageIdRef := 99\<rparr>"
        sample_replay sample_producers "''q''" "new_MessageAudit 2048 64" 172 "{(?p, 1)}" "\<lambda>m h s. (Completed, s)"] d by auto
qed

end
