(* ===== verification/Marshalling.thy ===== *)
theory Marshalling
  imports DataStreams
begin

text \<open>
  \<open>activemq/wireformat/openwire/marshal/BaseDataStreamMarshaller.cpp\<close>: how the marshallers write and
  read strings, numbers, byte arrays and broker errors, in the tight encoding (booleans first, then the
  bytes) and in the loose one.  The methods of the tight encoding come in pairs: the first writes the
  booleans and returns the number of bytes to come, the second reads the booleans again and writes
  the bytes.  A size is a C++ \<open>int\<close>, a word of 32 bits.

  The wire format is specified by the list of typed fields that an object consists of.  Such a list
  has a fixed sequence of booleans and bytes in each encoding; the lemmas say that the methods produce it
  and that reading it gives back the value.
\<close>

section \<open>Settings of the wire format\<close>

record wire_format =
  version :: int
  stackTraceEnabled :: bool
  tcpNoDelayEnabled :: bool
  cacheEnabled :: bool
  tightEncodingEnabled :: bool
  sizePrefixDisabled :: bool
  cacheSize :: int
  maxInactivityDuration :: int
  maxInactivityDurationInitialDelay :: int

section \<open>Strings\<close>

text \<open>
  The loop of \<open>tightMarshalString1\<close>: the length as UTF-8 and whether all characters are ASCII.  A
  \<open>char\<close> is signed, so that \<open>c\<close> is at most 127.
\<close>

fun scan_string :: "bytes \<Rightarrow> nat \<Rightarrow> bool \<Rightarrow> nat \<times> bool" where
  "scan_string [] utflen isOnlyAscii = (utflen, isOnlyAscii)"
| "scan_string (ch # chs) utflen isOnlyAscii =
     (let c = sint ch in
      if c \<ge> 0x0001 \<and> c \<le> 0x007F then scan_string chs (utflen + 1) isOnlyAscii
      else if c > 0x07FF then scan_string chs (utflen + 3) False
      else scan_string chs (utflen + 2) False)"

definition tightMarshalString1 :: "bytes \<Rightarrow> 32 word io" where
  "tightMarshalString1 str = next_io (writeBoolean (str \<noteq> []))
     (if str \<noteq> [] then
        let (utflen, isOnlyAscii) = scan_string str 0 True in
        if utflen \<ge> 0x10000 then fails IOException
        else next_io (writeBoolean isOnlyAscii) (ret (of_nat utflen + 2))
      else ret 0)"

definition tightMarshalString2 :: "bytes \<Rightarrow> unit io" where
  "tightMarshalString2 str = bind_io readBoolean (\<lambda>present.
     if present then bind_io readBoolean (\<lambda>isOnlyAscii.
       if isOnlyAscii then next_io (writeShort (of_nat (length str))) (writeBytes str)
       else writeUTF str)
     else ret ())"

definition readAsciiString :: "bytes io" where
  "readAsciiString = bind_io readShort (\<lambda>size. if sint size > 0 then readFully (nat (sint size)) else ret [])"

definition tightUnmarshalString :: "bytes io" where
  "tightUnmarshalString = bind_io readBoolean (\<lambda>present.
     if present then bind_io readBoolean (\<lambda>isOnlyAscii. if isOnlyAscii then readAsciiString else readUTF)
     else ret [])"

definition looseMarshalString :: "bytes \<Rightarrow> unit io" where
  "looseMarshalString str = next_io (out_writeBoolean (str \<noteq> [])) (if str \<noteq> [] then writeUTF str else ret ())"

definition looseUnmarshalString :: "bytes io" where
  "looseUnmarshalString = bind_io in_readBoolean (\<lambda>present. if present then readUTF else ret [])"

section \<open>Numbers\<close>

definition tightMarshalLong1 :: "64 word \<Rightarrow> 32 word io" where
  "tightMarshalLong1 ul =
     (if ul = 0 then next_io (writeBoolean False) (next_io (writeBoolean False) (ret 0))
      else if ul AND 0xFFFFFFFFFFFF0000 = 0 then next_io (writeBoolean False) (next_io (writeBoolean True) (ret 2))
      else if ul AND 0xFFFFFFFF00000000 = 0 then next_io (writeBoolean True) (next_io (writeBoolean False) (ret 4))
      else next_io (writeBoolean True) (next_io (writeBoolean True) (ret 8)))"

definition tightMarshalLong2 :: "64 word \<Rightarrow> unit io" where
  "tightMarshalLong2 v = bind_io readBoolean (\<lambda>wide.
     if wide then bind_io readBoolean (\<lambda>full. if full then writeLong v else writeInt (ucast v))
     else bind_io readBoolean (\<lambda>short. if short then writeShort (ucast v) else ret ()))"

definition tightUnmarshalLong :: "64 word io" where
  "tightUnmarshalLong = bind_io readBoolean (\<lambda>wide.
     if wide then bind_io readBoolean (\<lambda>full.
       if full then readLong else bind_io readInt (\<lambda>i. ret (ucast i)))
     else bind_io readBoolean (\<lambda>short.
       if short then bind_io readUnsignedShort (\<lambda>h. ret (ucast h)) else ret 0))"

definition looseMarshalLong :: "64 word \<Rightarrow> unit io" where
  "looseMarshalLong v = writeLong v"

definition looseUnmarshalLong :: "64 word io" where
  "looseUnmarshalLong = readLong"

section \<open>Byte arrays\<close>

text \<open>
  The marshallers that have a byte array write it inline, always in this way (for example
  \<open>XATransactionIdMarshaller.cpp\<close>); reading is in the base class.
\<close>

definition tightMarshalByteArray1 :: "bytes \<Rightarrow> 32 word io" where
  "tightMarshalByteArray1 xs =
     next_io (writeBoolean (length xs \<noteq> 0)) (ret (if length xs = 0 then 0 else of_nat (length xs) + 4))"

definition tightMarshalByteArray2 :: "bytes \<Rightarrow> unit io" where
  "tightMarshalByteArray2 xs = bind_io readBoolean (\<lambda>present.
     if present then next_io (writeInt (of_nat (length xs))) (write_array xs 0 (int (length xs))) else ret ())"

definition looseMarshalByteArray :: "bytes \<Rightarrow> unit io" where
  "looseMarshalByteArray xs = next_io (out_writeBoolean (length xs \<noteq> 0))
     (if length xs \<noteq> 0 then next_io (writeInt (of_nat (length xs))) (write_array xs 0 (int (length xs))) else ret ())"

definition read_sized :: "bytes io" where
  "read_sized = bind_io readInt (\<lambda>size. if sint size > 0 then readFully (nat (sint size)) else ret [])"

definition tightUnmarshalByteArray :: "bytes io" where
  "tightUnmarshalByteArray = bind_io readBoolean (\<lambda>present. if present then read_sized else ret [])"

definition looseUnmarshalByteArray :: "bytes io" where
  "looseUnmarshalByteArray = bind_io in_readBoolean (\<lambda>present. if present then read_sized else ret [])"

section \<open>Loops\<close>

text \<open>A loop that adds up sizes, a loop that writes, and a loop that reads \<open>n\<close> elements.\<close>

fun sum_io :: "('x \<Rightarrow> 32 word io) \<Rightarrow> 'x list \<Rightarrow> 32 word io" where
  "sum_io f [] = ret 0"
| "sum_io f (x # xs) = bind_io (f x) (\<lambda>n. bind_io (sum_io f xs) (\<lambda>rc. ret (n + rc)))"

fun each_io :: "('x \<Rightarrow> unit io) \<Rightarrow> 'x list \<Rightarrow> unit io" where
  "each_io f [] = ret ()"
| "each_io f (x # xs) = next_io (f x) (each_io f xs)"

fun times_io :: "nat \<Rightarrow> 'x io \<Rightarrow> 'x list io" where
  "times_io 0 f = ret []"
| "times_io (Suc n) f = bind_io f (\<lambda>x. bind_io (times_io n f) (\<lambda>xs. ret (x # xs)))"

section \<open>Broker errors\<close>

record stack_element =
  ClassName :: bytes
  FileName :: bytes
  MethodName :: bytes
  LineNumber :: "32 word"

datatype broker_error = BrokerError
  (exceptionClass: bytes) (errorMessage: bytes) (stackTraceElements: "stack_element list")
  (errorCause: "broker_error option")

fun tightMarshalBrokerError1 :: "wire_format \<Rightarrow> broker_error option \<Rightarrow> 32 word io" where
  "tightMarshalBrokerError1 w None = next_io (writeBoolean False) (ret 0)"
| "tightMarshalBrokerError1 w (Some (BrokerError cls msg trace cause)) =
     next_io (writeBoolean True)
     (bind_io (tightMarshalString1 cls) (\<lambda>n1.
      bind_io (tightMarshalString1 msg) (\<lambda>n2.
      if stackTraceEnabled w then
        bind_io (sum_io (\<lambda>e. bind_io (tightMarshalString1 (ClassName e)) (\<lambda>m1.
            bind_io (tightMarshalString1 (MethodName e)) (\<lambda>m2.
            bind_io (tightMarshalString1 (FileName e)) (\<lambda>m3. ret (m1 + m2 + m3 + 4))))) trace) (\<lambda>n3.
        bind_io (tightMarshalBrokerError1 w cause) (\<lambda>n4. ret (n1 + n2 + 2 + n3 + n4)))
      else ret (n1 + n2))))"

fun tightMarshalBrokerError2 :: "wire_format \<Rightarrow> broker_error option \<Rightarrow> unit io" where
  "tightMarshalBrokerError2 w None =
     bind_io readBoolean (\<lambda>present. if present then fails UndefinedBehaviour else ret ())"
| "tightMarshalBrokerError2 w (Some (BrokerError cls msg trace cause)) =
     bind_io readBoolean (\<lambda>present. if present then
       next_io (tightMarshalString2 cls) (next_io (tightMarshalString2 msg)
       (if stackTraceEnabled w then
          (let len = of_nat (length trace) :: 16 word in
           next_io (writeShort len)
           (next_io (each_io (\<lambda>e. next_io (tightMarshalString2 (ClassName e))
               (next_io (tightMarshalString2 (MethodName e))
               (next_io (tightMarshalString2 (FileName e)) (writeInt (LineNumber e))))) (take (nat (sint len)) trace))
           (tightMarshalBrokerError2 w cause)))
        else ret ()))
     else ret ())"

fun looseMarshalBrokerError :: "wire_format \<Rightarrow> broker_error option \<Rightarrow> unit io" where
  "looseMarshalBrokerError w None = writeByte 0"
| "looseMarshalBrokerError w (Some (BrokerError cls msg trace cause)) =
     next_io (writeByte 1)
     (next_io (looseMarshalString cls) (next_io (looseMarshalString msg)
      (if stackTraceEnabled w then
         next_io (writeShort (of_nat (length trace)))
         (next_io (each_io (\<lambda>e. next_io (looseMarshalString (ClassName e))
             (next_io (looseMarshalString (MethodName e))
             (next_io (looseMarshalString (FileName e)) (writeInt (LineNumber e))))) trace)
         (looseMarshalBrokerError w cause))
       else ret ())))"

text \<open>
  Reading calls itself for the cause.  Each call with a cause has read two bytes for the length of the
  stack trace, so the recursion ends with the input.
\<close>

definition input_left :: "streams \<Rightarrow> nat" where
  "input_left s = length (concat (dataIn s))"

definition read_element :: "bytes io \<Rightarrow> stack_element io" where
  "read_element str = bind_io str (\<lambda>cls. bind_io str (\<lambda>meth. bind_io str (\<lambda>file. bind_io readInt (\<lambda>line.
     ret \<lparr>ClassName = cls, FileName = file, MethodName = meth, LineNumber = line\<rparr>))))"

definition frugal :: "'a io \<Rightarrow> bool" where
  "frugal m \<longleftrightarrow> (\<forall>s. input_left (snd (m s)) \<le> input_left s)"

lemma frugalD: "frugal m \<Longrightarrow> m s = (r, t) \<Longrightarrow> input_left t \<le> input_left s"
  by (metis frugal_def snd_conv)

lemma frugal_bind:
  assumes "frugal m" "\<And>x. frugal (k x)"
  shows "frugal (bind_io m k)"
  unfolding frugal_def
proof
  fix s
  obtain r t where "m s = (r, t)" by fastforce
  moreover from this have "input_left t \<le> input_left s" by (rule frugalD [OF assms(1)])
  moreover have "input_left (snd (k x t)) \<le> input_left t" for x using assms(2) by (simp add: frugal_def)
  ultimately show "input_left (snd (bind_io m k s)) \<le> input_left s"
    by (cases r) (auto simp: bind_io_def intro: order_trans)
qed

lemma read_loop_left: "length (concat (snd (read_loop k got src))) \<le> length (concat src)"
  by (induction k got src rule: read_loop.induct) auto

lemma frugal_readAllData: "frugal (readAllData k)"
  using read_loop_left by (auto simp: frugal_def readAllData_def input_left_def split: prod.splits) (metis snd_conv)

lemma frugal_basic [intro!]:
  "frugal (ret x)" "frugal (fails e)" "frugal readBoolean" "frugal (readFully k)" "frugal (\<lambda>s. (f, s))"
  using frugal_readAllData by (simp_all add: frugal_def ret_def fails_def readBoolean_def readFully_def Let_def input_left_def)

lemma frugal_if [intro!]: "(P \<Longrightarrow> frugal m) \<Longrightarrow> (\<not> P \<Longrightarrow> frugal m') \<Longrightarrow> frugal (if P then m else m')"
  by simp

lemma frugal_numbers [intro!]:
  "frugal readByte" "frugal in_readBoolean" "frugal readShort" "frugal readUnsignedShort" "frugal readInt" "frugal readLong"
  "frugal readUTF"
  unfolding readByte_def in_readBoolean_def readShort_def readUnsignedShort_def readInt_def readLong_def readUTF_def
  by (intro frugal_bind frugal_readAllData frugal_basic frugal_if)+

lemma frugal_strings [intro!]:
  "frugal readAsciiString" "frugal tightUnmarshalString" "frugal looseUnmarshalString"
  "frugal tightUnmarshalLong" "frugal looseUnmarshalLong" "frugal read_sized"
  "frugal tightUnmarshalByteArray" "frugal looseUnmarshalByteArray"
  unfolding readAsciiString_def tightUnmarshalString_def looseUnmarshalString_def tightUnmarshalLong_def
    looseUnmarshalLong_def read_sized_def tightUnmarshalByteArray_def looseUnmarshalByteArray_def
  by (intro frugal_bind frugal_basic frugal_if frugal_numbers frugal_basic)+

lemma frugal_read_element: "frugal str \<Longrightarrow> frugal (read_element str)"
  unfolding read_element_def by (intro frugal_bind frugal_numbers frugal_basic)

lemma frugal_times: "frugal f \<Longrightarrow> frugal (times_io n f)"
  by (induction n) (auto intro!: frugal_bind)

lemma bind_io_cong [fundef_cong]:
  assumes "s = s'" "m s' = m' s'" "\<And>x t. m' s' = (Inr x, t) \<Longrightarrow> k x t = k' x t"
  shows "bind_io m k s = bind_io m' k' s'"
  using assms by (auto simp: bind_io_def split: prod.splits sum.splits)

lemma readShort_consumes: "readShort s = (Inr h, t) \<Longrightarrow> input_left t < input_left s"
proof -
  assume h: "readShort s = (Inr h, t)"
  have "length (concat (snd (read_loop k got src))) < length (concat src)"
    if "0 < k" "\<exists>r. fst (read_loop k got src) = Inr r" for k got src
    using that by (induction k got src rule: read_loop.induct) fastforce+
  from this [of 2 "[]" "dataIn s"] h show ?thesis
    by (auto simp: readShort_def readAllData_def bind_io_def ret_def input_left_def split: prod.splits sum.splits)
qed

function tightUnmarshalBrokerError :: "wire_format \<Rightarrow> broker_error option io" where
  "tightUnmarshalBrokerError w s = bind_io readBoolean (\<lambda>present s.
     if present then
       bind_io tightUnmarshalString (\<lambda>cls. bind_io tightUnmarshalString (\<lambda>msg s.
         if stackTraceEnabled w then
           bind_io readShort (\<lambda>len.
           bind_io (times_io (nat (sint len)) (read_element tightUnmarshalString)) (\<lambda>trace.
           bind_io (tightUnmarshalBrokerError w) (\<lambda>cause. ret (Some (BrokerError cls msg trace cause))))) s
         else ret (Some (BrokerError cls msg [] None)) s)) s
     else ret None s) s"
  by pat_completeness auto

termination
proof (relation "measure (\<lambda>(w, s). input_left s)", goal_cases)
  case (2 w s present s1 cls s2 msg s3 len s4 trace s5)
  have "input_left s1 \<le> input_left s" "input_left s2 \<le> input_left s1" "input_left s3 \<le> input_left s2"
    "input_left s5 \<le> input_left s4"
    using 2 by (auto dest!: frugalD [rotated] intro!: frugal_times frugal_read_element)
  moreover have "input_left s4 < input_left s3" using 2 by (auto dest: readShort_consumes)
  ultimately show ?case by simp
qed simp

function looseUnmarshalBrokerError :: "wire_format \<Rightarrow> broker_error option io" where
  "looseUnmarshalBrokerError w s = bind_io in_readBoolean (\<lambda>present s.
     if present then
       bind_io looseUnmarshalString (\<lambda>cls. bind_io looseUnmarshalString (\<lambda>msg s.
         if stackTraceEnabled w then
           bind_io readShort (\<lambda>len.
           bind_io (times_io (nat (sint len)) (read_element looseUnmarshalString)) (\<lambda>trace.
           bind_io (looseUnmarshalBrokerError w) (\<lambda>cause. ret (Some (BrokerError cls msg trace cause))))) s
         else ret (Some (BrokerError cls msg [] None)) s)) s
     else ret None s) s"
  by pat_completeness auto

termination
proof (relation "measure (\<lambda>(w, s). input_left s)", goal_cases)
  case (2 w s present s1 cls s2 msg s3 len s4 trace s5)
  have "input_left s1 \<le> input_left s" "input_left s2 \<le> input_left s1" "input_left s3 \<le> input_left s2"
    "input_left s5 \<le> input_left s4"
    using 2 by (auto dest!: frugalD [rotated] intro!: frugal_times frugal_read_element)
  moreover have "input_left s4 < input_left s3" using 2 by (auto dest: readShort_consumes)
  ultimately show ?case by simp
qed simp

declare tightUnmarshalBrokerError.simps [simp del] looseUnmarshalBrokerError.simps [simp del]

section \<open>Fields\<close>

text \<open>
  An object on the wire is a list of fields.  In the tight encoding a field has its booleans and its
  bytes; in the loose encoding it has bytes only.  \<open>WTight\<close> is a boolean that the loose encoding does not have.
\<close>

datatype field = WBool bool | WByte byte | WShort "16 word" | WInt "32 word" | WLong "64 word"
  | WString bytes | WBytes bytes | WTight bool

definition ascii :: "bytes \<Rightarrow> bool" where
  "ascii str = (\<forall>c \<in> set str. 0 < c \<and> c < 0x80)"

definition long_class :: "64 word \<Rightarrow> bool \<times> bool" where
  "long_class v = (if v = 0 then (False, False) else if v < 2 ^ 16 then (False, True)
     else if v < 2 ^ 32 then (True, False) else (True, True))"

fun tbits :: "field \<Rightarrow> bool list" where
  "tbits (WBool b) = [b]"
| "tbits (WLong v) = (case long_class v of (x, y) \<Rightarrow> [x, y])"
| "tbits (WString str) = (if str = [] then [False] else [True, ascii str])"
| "tbits (WBytes xs) = [xs \<noteq> []]"
| "tbits (WTight b) = [b]"
| "tbits f = []"

definition utf_field :: "bytes \<Rightarrow> bytes" where
  "utf_field str = short_bytes (of_nat (countUTFLength str)) @ utf_text str"

definition sized_field :: "bytes \<Rightarrow> bytes" where
  "sized_field xs = int_bytes (of_nat (length xs)) @ xs"

fun tbytes :: "field \<Rightarrow> bytes" where
  "tbytes (WBool b) = []"
| "tbytes (WByte b) = [b]"
| "tbytes (WShort h) = short_bytes h"
| "tbytes (WInt i) = int_bytes i"
| "tbytes (WLong v) = (if v = 0 then [] else if v < 2 ^ 16 then short_bytes (ucast v)
     else if v < 2 ^ 32 then int_bytes (ucast v) else long_bytes v)"
| "tbytes (WString str) = (if str = [] then [] else if ascii str then short_bytes (of_nat (length str)) @ str
     else utf_field str)"
| "tbytes (WBytes xs) = (if xs = [] then [] else sized_field xs)"
| "tbytes (WTight b) = []"

fun lbytes :: "field \<Rightarrow> bytes" where
  "lbytes (WBool b) = [if b then 1 else 0]"
| "lbytes (WByte b) = [b]"
| "lbytes (WShort h) = short_bytes h"
| "lbytes (WInt i) = int_bytes i"
| "lbytes (WLong v) = long_bytes v"
| "lbytes (WString str) = (if str = [] then [0] else 1 # utf_field str)"
| "lbytes (WBytes xs) = (if xs = [] then [0] else 1 # sized_field xs)"
| "lbytes (WTight b) = []"

text \<open>
  What can be sent: a string that is ASCII has at most 32767 characters, because its length is read as
  a signed \<open>short\<close>; another one at most 65535 bytes as UTF-8; an array fits into an \<open>int\<close>.
\<close>

fun fits :: "field \<Rightarrow> bool" where
  "fits (WString str) = (if ascii str then length str \<le> 32767 else countUTFLength str \<le> 65535)"
| "fits (WBytes xs) = (length xs < 2 ^ 31)"
| "fits f = True"

abbreviation all_bits :: "field list \<Rightarrow> bool list" where
  "all_bits fs \<equiv> concat (map tbits fs)"

abbreviation all_tbytes :: "field list \<Rightarrow> bytes" where
  "all_tbytes fs \<equiv> concat (map tbytes fs)"

abbreviation all_lbytes :: "field list \<Rightarrow> bytes" where
  "all_lbytes fs \<equiv> concat (map lbytes fs)"

section \<open>The base marshaller sends and receives fields\<close>

definition tmark :: "32 word io \<Rightarrow> 32 word \<Rightarrow> field list \<Rightarrow> bool" where
  "tmark m n fs = marks m n (all_bits fs)"

definition tput :: "unit io \<Rightarrow> field list \<Rightarrow> bool" where
  "tput m fs = puts m (all_bits fs) (all_tbytes fs) ()"

definition tget :: "'a io \<Rightarrow> field list \<Rightarrow> 'a \<Rightarrow> bool" where
  "tget m fs v = gets m (all_bits fs) (all_tbytes fs) v"

definition lput :: "unit io \<Rightarrow> field list \<Rightarrow> bool" where
  "lput m fs = puts m [] (all_lbytes fs) ()"

definition lget :: "'a io \<Rightarrow> field list \<Rightarrow> 'a \<Rightarrow> bool" where
  "lget m fs v = gets m [] (all_lbytes fs) v"

lemma tmark_bind: "tmark m n fs \<Longrightarrow> tmark (k n) n' gs \<Longrightarrow> tmark (bind_io m k) n' (fs @ gs)"
  unfolding tmark_def using marks_bind by fastforce

lemma tmark_bool: "tmark k n gs \<Longrightarrow> tmark (next_io (writeBoolean v) k) n (WBool v # gs)"
  unfolding tmark_def using marks_bind [OF marks_writeBoolean, of "\<lambda>_. k"] by fastforce

lemma tmark_ret: "tmark (ret n) n []"
  by (simp add: tmark_def marks_ret)

lemma tput_next: "tput m fs \<Longrightarrow> tput k gs \<Longrightarrow> tput (next_io m k) (fs @ gs)"
  unfolding tput_def using puts_next by fastforce

lemma tget_bind: "tget m fs v \<Longrightarrow> tget (k v) gs x \<Longrightarrow> tget (bind_io m k) (fs @ gs) x"
  unfolding tget_def using gets_bind by fastforce

lemma lput_next: "lput m fs \<Longrightarrow> lput k gs \<Longrightarrow> lput (next_io m k) (fs @ gs)"
  unfolding lput_def using puts_next by fastforce

lemma lget_bind: "lget m fs v \<Longrightarrow> lget (k v) gs x \<Longrightarrow> lget (bind_io m k) (fs @ gs) x"
  unfolding lget_def using gets_bind by fastforce

lemma ret_fields: "tput (ret ()) []" "tget (ret v) [] v" "lput (ret ()) []" "lget (ret v) [] v"
  by (simp_all add: tput_def tget_def lput_def lget_def puts_ret gets_ret)

lemma signed_byte: "sint c = (if uint c < 128 then uint c else uint c - 256)" for c :: byte
proof -
  have sint: "sint c = (uint c + 128) mod 256 - 128"
    by (simp add: sint_uint signed_take_bit_eq_take_bit_shift take_bit_eq_mod)
  have range: "0 \<le> uint c" "uint c < 256" using uint_lt2p [of c] by simp_all
  show ?thesis
  proof (cases "uint c < 128")
    case True
    then have "(uint c + 128) mod 256 = uint c + 128" using range by (intro mod_pos_pos_trivial) simp_all
    then show ?thesis using True sint by simp
  next
    case False
    then have "(uint c - 128) mod 256 = uint c - 128" using range by (intro mod_pos_pos_trivial) simp_all
    then show ?thesis using False sint minus_mod_self2 [of "uint c + 128" 256] by simp
  qed
qed

lemma signed_ascii: "0x0001 \<le> sint c \<and> sint c \<le> 0x007F \<longleftrightarrow> 0 < c \<and> c < 0x80" for c :: byte
  using uint_lt2p [of c] by (auto simp: signed_byte word_less_def)

lemma scan_string_spec: "scan_string str u a = (u + countUTFLength str, a \<and> ascii str)"
proof (induction str arbitrary: u a)
  case Nil
  then show ?case by (simp add: ascii_def)
next
  case (Cons c str)
  have count: "countUTFLength (c # str) = (if 0 < c \<and> c < 0x80 then 1 else 2) + countUTFLength str"
    using utf_char_cases [of c] by (simp add: countUTFLength_bytes)
  have "sint c \<le> 0x07FF" using signed_byte [of c] uint_lt2p [of c] by simp
  then show ?case
    using Cons signed_ascii [of c] by (auto simp: count ascii_def Let_def simp del: countUTFLength.simps)
qed

lemma ascii_utf: "ascii str \<Longrightarrow> utf_text str = str"
  by (induction str) (auto simp: ascii_def utf_char_cases)

lemma ascii_count: "ascii str \<Longrightarrow> countUTFLength str = length str"
  by (simp add: countUTFLength_bytes ascii_utf)

lemma fits_utf: "fits (WString str) \<Longrightarrow> countUTFLength str \<le> 65535"
  by (auto simp: ascii_count split: if_splits)

lemma tmark_string: "fits (WString str) \<Longrightarrow> tmark (tightMarshalString1 str) (of_nat (length (tbytes (WString str)))) [WString str]"
proof -
  assume fit: "fits (WString str)"
  have "tmark (tightMarshalString1 str) (if str = [] then 0 else of_nat (countUTFLength str) + 2)
      (WBool (str \<noteq> []) # (if str = [] then [] else [WBool (ascii str)]))"
    using fits_utf [OF fit] tmark_bool [OF tmark_ret] tmark_ret unfolding tightMarshalString1_def
    by (intro tmark_bool) (auto simp: scan_string_spec)
  then show ?thesis
    by (auto simp: tmark_def ascii_count utf_field_def add.commute [of 2] simp flip: countUTFLength_bytes split: if_splits)
qed

lemma puts_if_read:
  "(v \<Longrightarrow> puts a bits ys x) \<Longrightarrow> (\<not> v \<Longrightarrow> puts b bits ys x) \<Longrightarrow>
   puts (bind_io readBoolean (\<lambda>v. if v then a else b)) (v # bits) ys x"
  using puts_bind [OF puts_readBoolean [of v], of "\<lambda>v. if v then a else b"] by fastforce

lemma gets_if_read:
  "(v \<Longrightarrow> gets a bits ys x) \<Longrightarrow> (\<not> v \<Longrightarrow> gets b bits ys x) \<Longrightarrow>
   gets (bind_io readBoolean (\<lambda>v. if v then a else b)) (v # bits) ys x"
  using gets_bind [OF gets_readBoolean [of v], of "\<lambda>v. if v then a else b"] by fastforce

lemma gets_if_in:
  "(v \<Longrightarrow> gets a [] ys x) \<Longrightarrow> (\<not> v \<Longrightarrow> gets b [] ys x) \<Longrightarrow>
   gets (bind_io in_readBoolean (\<lambda>v. if v then a else b)) [] ((if v then 1 else 0) # ys) x"
  using gets_bind [OF gets_numbers(2) [of v], of "\<lambda>v. if v then a else b"] by fastforce

lemma puts_flag: "puts k [] ys x \<Longrightarrow> puts (next_io (out_writeBoolean v) k) [] ((if v then 1 else 0) # ys) x"
  using puts_next [OF puts_numbers(2) [of v]] by fastforce

lemmas gets_flags = gets_if_in [of True, simplified] gets_if_in [of False, simplified]

lemma gets_ascii: "length str \<le> 32767 \<Longrightarrow> gets readAsciiString [] (short_bytes (of_nat (length str)) @ str) str"
proof -
  assume short: "length str \<le> 32767"
  let ?k = "\<lambda>size :: 16 word. if sint size > 0 then readFully (nat (sint size)) else ret []"
  have "sint (of_nat (length str) :: 16 word) = int (length str)"
    using short by (simp add: signed_of_nat signed_take_bit_int_eq_self)
  then have "gets (?k (of_nat (length str))) [] str str"
    using gets_readFully [OF refl, of str] by (cases "str = []") (simp_all add: gets_ret)
  from gets_bind [where k = ?k, OF gets_numbers(3) this] show ?thesis by (simp add: readAsciiString_def)
qed

lemma string_fields:
  assumes fit: "fits (WString str)"
  shows "tput (tightMarshalString2 str) [WString str]" "tget tightUnmarshalString [WString str] str"
    "lput (looseMarshalString str) [WString str]" "lget looseUnmarshalString [WString str] str"
proof -
  note utf = puts_writeUTF [OF fits_utf [OF fit], folded utf_field_def] gets_readUTF [OF fits_utf [OF fit], folded utf_field_def]
  note plain = puts_next [OF puts_numbers(3) puts_writeBytes, of "of_nat (length str)" str, simplified] gets_ascii [of str]
  show "tput (tightMarshalString2 str) [WString str]"
    unfolding tput_def tightMarshalString2_def using utf plain
    by (cases "str = []") (auto intro!: puts_if_read puts_ret)
  show "tget tightUnmarshalString [WString str] str"
    unfolding tget_def tightUnmarshalString_def using utf plain fit
    by (cases "str = []") (auto intro!: gets_if_read gets_ret)
  have "puts (if str \<noteq> [] then writeUTF str else ret ()) [] (if str \<noteq> [] then utf_field str else []) ()"
    using utf puts_ret [of "()"] by simp
  from puts_flag [OF this, of "str \<noteq> []"] show "lput (looseMarshalString str) [WString str]"
    by (cases "str = []") (simp_all add: lput_def looseMarshalString_def)
  show "lget looseUnmarshalString [WString str] str"
    unfolding lget_def looseUnmarshalString_def using utf
    by (cases "str = []") (auto intro!: gets_flags gets_ret)
qed

lemma take_bit_self: "take_bit n v = v \<longleftrightarrow> uint v < 2 ^ n" for v :: "'a :: len word"
proof -
  have "take_bit n v = v \<longleftrightarrow> uint (take_bit n v) = uint v" by (simp add: word_uint_eq_iff)
  also have "\<dots> \<longleftrightarrow> take_bit n (uint v) = uint v" by (simp only: unsigned_take_bit_eq)
  finally show ?thesis by (simp add: take_bit_int_eq_self_iff)
qed

lemma below_take_bit: "v < 2 ^ 16 \<longleftrightarrow> take_bit 16 v = v" "v < 2 ^ 32 \<longleftrightarrow> take_bit 32 v = v" for v :: "64 word"
  by (simp_all add: take_bit_self word_less_def)

lemma ucast_down_up:
  "v < 2 ^ 16 \<Longrightarrow> ucast (ucast v :: 16 word) = v" "v < 2 ^ 32 \<Longrightarrow> ucast (ucast v :: 32 word) = v" for v :: "64 word"
  unfolding below_take_bit by (auto simp: bit_eq_iff bit_simps)

lemma high_bits_masks:
  "v AND 0xFFFFFFFFFFFF0000 = 0 \<longleftrightarrow> v < 2 ^ 16" "v AND 0xFFFFFFFF00000000 = 0 \<longleftrightarrow> v < 2 ^ 32" for v :: "64 word"
proof -
  have clear: "v AND NOT (mask n) = 0 \<longleftrightarrow> take_bit n v = v" for n
    by (auto simp: bit_eq_iff bit_simps)
  have "NOT (mask 16) = (0xFFFFFFFFFFFF0000 :: 64 word)" "NOT (mask 32) = (0xFFFFFFFF00000000 :: 64 word)"
    by (simp_all add: mask_eq_exp_minus_1)
  with clear [of 16] clear [of 32]
  show "v AND 0xFFFFFFFFFFFF0000 = 0 \<longleftrightarrow> v < 2 ^ 16" "v AND 0xFFFFFFFF00000000 = 0 \<longleftrightarrow> v < 2 ^ 32"
    by (simp_all only: below_take_bit)
qed

lemma tmark_long: "tmark (tightMarshalLong1 v) (of_nat (length (tbytes (WLong v)))) [WLong v]"
proof -
  have "tmark (tightMarshalLong1 v) (of_nat (length (tbytes (WLong v))))
      (case long_class v of (x, y) \<Rightarrow> [WBool x, WBool y])"
    unfolding tightMarshalLong1_def high_bits_masks
    by (auto simp: long_class_def intro!: tmark_bool tmark_ret)
  then show ?thesis by (cases "long_class v") (simp add: tmark_def del: tbytes.simps)
qed

lemma long_fields:
  "tput (tightMarshalLong2 v) [WLong v]" "tget tightUnmarshalLong [WLong v] v"
  "lput (looseMarshalLong v) [WLong v]" "lget looseUnmarshalLong [WLong v] v"
  unfolding tput_def tget_def lput_def lget_def tightMarshalLong2_def tightUnmarshalLong_def looseMarshalLong_def
    looseUnmarshalLong_def
  using gets_map [OF gets_numbers(4), of ucast "ucast v" v] gets_map [OF gets_numbers(5), of ucast "ucast v" v]
  by (auto simp: long_class_def ucast_down_up intro!: puts_if_read gets_if_read puts_numbers gets_numbers puts_ret gets_ret)

lemma gets_sized: "length xs < 2 ^ 31 \<Longrightarrow> gets read_sized [] (sized_field xs) xs"
proof -
  assume short: "length xs < 2 ^ 31"
  let ?k = "\<lambda>size :: 32 word. if sint size > 0 then readFully (nat (sint size)) else ret []"
  have "sint (of_nat (length xs) :: 32 word) = int (length xs)"
    using short by (simp add: signed_of_nat signed_take_bit_int_eq_self)
  then have "gets (?k (of_nat (length xs))) [] xs xs"
    using gets_readFully [OF refl, of xs] by (cases "xs = []") (simp_all add: gets_ret)
  from gets_bind [where k = ?k, OF gets_numbers(5) this] show ?thesis by (simp add: read_sized_def sized_field_def)
qed

lemma tmark_bytes: "tmark (tightMarshalByteArray1 xs) (of_nat (length (tbytes (WBytes xs)))) [WBytes xs]"
  using tmark_bool [OF tmark_ret, of "xs \<noteq> []" "if length xs = 0 then 0 else of_nat (length xs) + 4"]
  by (auto simp: tmark_def tightMarshalByteArray1_def sized_field_def add.commute)

lemma bytes_fields:
  assumes "fits (WBytes xs)"
  shows "tput (tightMarshalByteArray2 xs) [WBytes xs]" "tget tightUnmarshalByteArray [WBytes xs] xs"
    "lput (looseMarshalByteArray xs) [WBytes xs]" "lget looseUnmarshalByteArray [WBytes xs] xs"
proof -
  note sized = puts_next [OF puts_numbers(5) puts_array, of "of_nat (length xs)" xs, simplified, folded sized_field_def]
    gets_sized [of xs]
  show "tput (tightMarshalByteArray2 xs) [WBytes xs]"
    unfolding tput_def tightMarshalByteArray2_def using sized by (cases "xs = []") (auto intro!: puts_if_read puts_ret)
  show "tget tightUnmarshalByteArray [WBytes xs] xs"
    unfolding tget_def tightUnmarshalByteArray_def using sized assms by (cases "xs = []") (auto intro!: gets_if_read gets_ret)
  have "puts (if length xs \<noteq> 0 then next_io (writeInt (of_nat (length xs))) (write_array xs 0 (int (length xs))) else ret ())
      [] (if length xs \<noteq> 0 then sized_field xs else []) ()"
    using sized puts_ret [of "()"] by simp
  from puts_flag [OF this, of "length xs \<noteq> 0"] show "lput (looseMarshalByteArray xs) [WBytes xs]"
    by (cases "xs = []") (simp_all add: lput_def looseMarshalByteArray_def)
  show "lget looseUnmarshalByteArray [WBytes xs] xs"
    unfolding lget_def looseUnmarshalByteArray_def using sized assms by (cases "xs = []") (auto intro!: gets_flags gets_ret)
qed

lemma plain_fields:
  "tput (bind_io readBoolean (\<lambda>_. ret ())) [WBool b]" "tput (writeByte c) [WByte c]" "tput (writeShort h) [WShort h]"
  "tput (writeInt i) [WInt i]"
  "tget readBoolean [WBool b] b" "tget readByte [WByte c] c" "tget readShort [WShort h] h" "tget readInt [WInt i] i"
  "lput (out_writeBoolean b) [WBool b]" "lput (writeByte c) [WByte c]" "lput (writeShort h) [WShort h]" "lput (writeInt i) [WInt i]"
  "lget in_readBoolean [WBool b] b" "lget readByte [WByte c] c" "lget readShort [WShort h] h" "lget readInt [WInt i] i"
  using puts_bind [OF puts_readBoolean [of b] puts_ret [of "()"]]
  by (simp_all add: tput_def tget_def lput_def lget_def puts_numbers gets_numbers gets_readBoolean)

section \<open>Loops and conditions over fields\<close>

lemma tmark_cong: "tmark m n fs \<Longrightarrow> n = n' \<Longrightarrow> all_bits fs = all_bits gs \<Longrightarrow> tmark m n' gs"
  by (simp add: tmark_def)

lemma get_cong: "tget r fs v \<Longrightarrow> v = v' \<Longrightarrow> tget r fs v'" "lget r fs v \<Longrightarrow> v = v' \<Longrightarrow> lget r fs v'"
  by simp_all

lemma get_map:
  "tget r fs v \<Longrightarrow> tget (bind_io r (\<lambda>x. ret (g x))) fs (g v)" "lget r fs v \<Longrightarrow> lget (bind_io r (\<lambda>x. ret (g x))) fs (g v)"
  using tget_bind [OF _ ret_fields(2)] lget_bind [OF _ ret_fields(4)] by fastforce+

lemma fields_if:
  "(P \<Longrightarrow> tmark a n fs) \<Longrightarrow> (\<not> P \<Longrightarrow> tmark b n' gs) \<Longrightarrow>
   tmark (if P then a else b) (if P then n else n') (if P then fs else gs)"
  "(P \<Longrightarrow> tput c fs) \<Longrightarrow> (\<not> P \<Longrightarrow> tput d gs) \<Longrightarrow> tput (if P then c else d) (if P then fs else gs)"
  "(P \<Longrightarrow> lput c fs) \<Longrightarrow> (\<not> P \<Longrightarrow> lput d gs) \<Longrightarrow> lput (if P then c else d) (if P then fs else gs)"
  "(P \<Longrightarrow> tget e fs v) \<Longrightarrow> (\<not> P \<Longrightarrow> tget f gs v') \<Longrightarrow>
   tget (if P then e else f) (if P then fs else gs) (if P then v else v')"
  "(P \<Longrightarrow> lget e fs v) \<Longrightarrow> (\<not> P \<Longrightarrow> lget f gs v') \<Longrightarrow>
   lget (if P then e else f) (if P then fs else gs) (if P then v else v')"
  by simp_all

lemma tmark_sum:
  "(\<And>x. x \<in> set xs \<Longrightarrow> tmark (f x) (n x) (fs x)) \<Longrightarrow> tmark (sum_io f xs) (sum_list (map n xs)) (concat (map fs xs))"
proof (induction xs)
  case (Cons x xs)
  have "tmark (bind_io (sum_io f xs) (\<lambda>rc. ret (n x + rc))) (n x + sum_list (map n xs)) (concat (map fs xs) @ [])"
    using Cons tmark_ret by (intro tmark_bind) simp_all
  with Cons.prems show ?case by (auto intro!: tmark_bind)
qed (simp add: tmark_ret)

lemma tput_each: "(\<And>x. x \<in> set xs \<Longrightarrow> tput (f x) (fs x)) \<Longrightarrow> tput (each_io f xs) (concat (map fs xs))"
  by (induction xs) (auto intro!: tput_next ret_fields)

lemma lput_each: "(\<And>x. x \<in> set xs \<Longrightarrow> lput (f x) (fs x)) \<Longrightarrow> lput (each_io f xs) (concat (map fs xs))"
  by (induction xs) (auto intro!: lput_next ret_fields)

lemma tget_times:
  "(\<And>x. x \<in> set xs \<Longrightarrow> tget f (fs x) (g x)) \<Longrightarrow> tget (times_io (length xs) f) (concat (map fs xs)) (map g xs)"
proof (induction xs)
  case (Cons x xs)
  have "tget (bind_io (times_io (length xs) f) (\<lambda>ys. ret (g x # ys))) (concat (map fs xs) @ []) (g x # map g xs)"
    using Cons ret_fields by (intro tget_bind) simp_all
  from tget_bind [where k = "\<lambda>y. bind_io (times_io (length xs) f) (\<lambda>ys. ret (y # ys))", OF Cons.prems this] show ?case by simp
qed (simp add: ret_fields)

lemma lget_times:
  "(\<And>x. x \<in> set xs \<Longrightarrow> lget f (fs x) (g x)) \<Longrightarrow> lget (times_io (length xs) f) (concat (map fs xs)) (map g xs)"
proof (induction xs)
  case (Cons x xs)
  have "lget (bind_io (times_io (length xs) f) (\<lambda>ys. ret (g x # ys))) (concat (map fs xs) @ []) (g x # map g xs)"
    using Cons ret_fields by (intro lget_bind) simp_all
  from lget_bind [where k = "\<lambda>y. bind_io (times_io (length xs) f) (\<lambda>ys. ret (y # ys))", OF Cons.prems this] show ?case by simp
qed (simp add: ret_fields)

section \<open>Broker errors as fields\<close>

definition element_fields :: "stack_element \<Rightarrow> field list" where
  "element_fields e = [WString (ClassName e)] @ [WString (MethodName e)] @ [WString (FileName e)] @ [WInt (LineNumber e)]"

fun error_fields :: "wire_format \<Rightarrow> broker_error option \<Rightarrow> field list" where
  "error_fields w None = [WBool False]"
| "error_fields w (Some (BrokerError cls msg trace cause)) =
     [WBool True] @ [WString cls] @ [WString msg] @
     (if stackTraceEnabled w
      then [WShort (of_nat (length trace))] @ concat (map element_fields trace) @ error_fields w cause else [])"

text \<open>Without stack traces neither the trace nor the cause is sent.\<close>

fun error_sent :: "wire_format \<Rightarrow> broker_error option \<Rightarrow> broker_error option" where
  "error_sent w None = None"
| "error_sent w (Some (BrokerError cls msg trace cause)) =
     Some (if stackTraceEnabled w then BrokerError cls msg trace (error_sent w cause) else BrokerError cls msg [] None)"

fun short_traces :: "broker_error option \<Rightarrow> bool" where
  "short_traces None = True"
| "short_traces (Some (BrokerError cls msg trace cause)) = (length trace \<le> 32767 \<and> short_traces cause)"

definition error_fits :: "wire_format \<Rightarrow> broker_error option \<Rightarrow> bool" where
  "error_fits w e = (list_all fits (error_fields w e) \<and> short_traces e)"

lemmas field_rules = string_fields long_fields bytes_fields plain_fields ret_fields

lemma element_codec:
  assumes "list_all fits (element_fields e)"
  shows "tmark (bind_io (tightMarshalString1 (ClassName e)) (\<lambda>m1. bind_io (tightMarshalString1 (MethodName e)) (\<lambda>m2.
      bind_io (tightMarshalString1 (FileName e)) (\<lambda>m3. ret (m1 + m2 + m3 + 4)))))
      (of_nat (length (all_tbytes (element_fields e)))) (element_fields e)"
    and "tput (next_io (tightMarshalString2 (ClassName e)) (next_io (tightMarshalString2 (MethodName e))
      (next_io (tightMarshalString2 (FileName e)) (writeInt (LineNumber e))))) (element_fields e)"
    and "tget (read_element tightUnmarshalString) (element_fields e) e"
    and "lput (next_io (looseMarshalString (ClassName e)) (next_io (looseMarshalString (MethodName e))
      (next_io (looseMarshalString (FileName e)) (writeInt (LineNumber e))))) (element_fields e)"
    and "lget (read_element looseUnmarshalString) (element_fields e) e"
proof -
  have fits: "fits (WString (ClassName e))" "fits (WString (MethodName e))" "fits (WString (FileName e))"
    using assms by (simp_all add: element_fields_def del: fits.simps)
  note s = string_fields [OF fits(1)] string_fields [OF fits(2)] string_fields [OF fits(3)]
  show "tmark (bind_io (tightMarshalString1 (ClassName e)) (\<lambda>m1. bind_io (tightMarshalString1 (MethodName e)) (\<lambda>m2.
      bind_io (tightMarshalString1 (FileName e)) (\<lambda>m3. ret (m1 + m2 + m3 + 4)))))
      (of_nat (length (all_tbytes (element_fields e)))) (element_fields e)"
    by (rule tmark_cong, (rule tmark_bind tmark_string fits tmark_ret)+) (simp_all add: element_fields_def del: tbytes.simps(6) tbits.simps(3))
  show "tput (next_io (tightMarshalString2 (ClassName e)) (next_io (tightMarshalString2 (MethodName e))
      (next_io (tightMarshalString2 (FileName e)) (writeInt (LineNumber e))))) (element_fields e)"
    unfolding element_fields_def by (rule tput_next s plain_fields)+
  show "lput (next_io (looseMarshalString (ClassName e)) (next_io (looseMarshalString (MethodName e))
      (next_io (looseMarshalString (FileName e)) (writeInt (LineNumber e))))) (element_fields e)"
    unfolding element_fields_def by (rule lput_next s plain_fields)+
  show "tget (read_element tightUnmarshalString) (element_fields e) e"
    unfolding element_fields_def read_element_def by (rule get_cong, (rule tget_bind get_map s plain_fields)+) simp
  show "lget (read_element looseUnmarshalString) (element_fields e) e"
    unfolding element_fields_def read_element_def by (rule get_cong, (rule lget_bind get_map s plain_fields)+) simp
qed

lemma trace_length: "length trace \<le> 32767 \<Longrightarrow> nat (sint (of_nat (length trace) :: 16 word)) = length trace"
  by (simp add: signed_of_nat signed_take_bit_int_eq_self)

lemma size_of_parts:
  "sum_list (map (\<lambda>x. of_nat (length (all_tbytes (f x)))) xs) = (of_nat (length (all_tbytes (concat (map f xs)))) :: 32 word)"
  by (induction xs) simp_all

lemma error_parts:
  assumes "error_fits w (Some (BrokerError cls msg trace cause))"
  shows "fits (WString cls)" "fits (WString msg)" "length trace \<le> 32767"
    "stackTraceEnabled w \<Longrightarrow> error_fits w cause"
    "stackTraceEnabled w \<Longrightarrow> e \<in> set trace \<Longrightarrow> list_all fits (element_fields e)"
  using assms by (auto simp: error_fits_def list_all_iff simp del: fits.simps)

lemma tmark_error:
  assumes "error_fits w e"
  shows "tmark (tightMarshalBrokerError1 w e) (of_nat (length (all_tbytes (error_fields w e)))) (error_fields w e)"
  using assms
proof (induction w e rule: error_fields.induct)
  case (1 w)
  show ?case by (rule tmark_cong, unfold tightMarshalBrokerError1.simps, (rule tmark_bool tmark_ret)+) simp_all
next
  case (2 w cls msg trace cause)
  note p = error_parts [OF 2(2)]
  show ?case
    by (rule tmark_cong, unfold tightMarshalBrokerError1.simps,
        (rule tmark_bool tmark_bind tmark_string p fields_if tmark_sum element_codec 2 tmark_ret | assumption)+)
       (simp_all add: size_of_parts del: tbytes.simps(6) tbits.simps(3))
qed

lemma tput_if_read:
  "(v \<Longrightarrow> tput a fs) \<Longrightarrow> (\<not> v \<Longrightarrow> tput b fs) \<Longrightarrow>
   tput (bind_io readBoolean (\<lambda>v. if v then a else b)) ([WBool v] @ fs)"
  unfolding tput_def using puts_if_read [of v a "all_bits fs" "all_tbytes fs" "()" b] by simp

lemma tget_if_read:
  "(v \<Longrightarrow> tget a fs x) \<Longrightarrow> (\<not> v \<Longrightarrow> tget b fs x) \<Longrightarrow>
   tget (bind_io readBoolean (\<lambda>v. if v then a else b)) ([WBool v] @ fs) x"
  unfolding tget_def using gets_if_read [of v a "all_bits fs" "all_tbytes fs" x b] by simp

lemma lget_if_read:
  "(v \<Longrightarrow> lget a fs x) \<Longrightarrow> (\<not> v \<Longrightarrow> lget b fs x) \<Longrightarrow>
   lget (bind_io in_readBoolean (\<lambda>v. if v then a else b)) ([WBool v] @ fs) x"
  unfolding lget_def using gets_if_in [of v a "all_lbytes fs" x b] by simp

lemma lput_flag: "lput (writeByte (if v then 1 else 0)) [WBool v]"
  using puts_numbers(1) by (simp add: lput_def)

lemma tightUnmarshalBrokerError_eq: "tightUnmarshalBrokerError w = bind_io readBoolean (\<lambda>present.
     if present then
       bind_io tightUnmarshalString (\<lambda>cls. bind_io tightUnmarshalString (\<lambda>msg.
         if stackTraceEnabled w then
           bind_io readShort (\<lambda>len.
           bind_io (times_io (nat (sint len)) (read_element tightUnmarshalString)) (\<lambda>trace.
           bind_io (tightUnmarshalBrokerError w) (\<lambda>cause. ret (Some (BrokerError cls msg trace cause)))))
         else ret (Some (BrokerError cls msg [] None))))
     else ret None)"
  by (rule ext) (auto simp: tightUnmarshalBrokerError.simps [of w] intro!: bind_io_cong)

lemma looseUnmarshalBrokerError_eq: "looseUnmarshalBrokerError w = bind_io in_readBoolean (\<lambda>present.
     if present then
       bind_io looseUnmarshalString (\<lambda>cls. bind_io looseUnmarshalString (\<lambda>msg.
         if stackTraceEnabled w then
           bind_io readShort (\<lambda>len.
           bind_io (times_io (nat (sint len)) (read_element looseUnmarshalString)) (\<lambda>trace.
           bind_io (looseUnmarshalBrokerError w) (\<lambda>cause. ret (Some (BrokerError cls msg trace cause)))))
         else ret (Some (BrokerError cls msg [] None))))
     else ret None)"
  by (rule ext) (auto simp: looseUnmarshalBrokerError.simps [of w] intro!: bind_io_cong)

lemma trace_codec:
  assumes "\<And>e. e \<in> set trace \<Longrightarrow> list_all fits (element_fields e)" "length trace \<le> 32767"
  shows "tget (times_io (nat (sint (of_nat (length trace) :: 16 word))) (read_element tightUnmarshalString))
      (concat (map element_fields trace)) trace"
    and "lget (times_io (nat (sint (of_nat (length trace) :: 16 word))) (read_element looseUnmarshalString))
      (concat (map element_fields trace)) trace"
  unfolding trace_length [OF assms(2)]
  using tget_times [of trace _ element_fields id] lget_times [of trace _ element_fields id] element_codec(3,5) assms(1)
  by (simp_all add: map_idI)

lemma tput_error: "error_fits w e \<Longrightarrow> tput (tightMarshalBrokerError2 w e) (error_fields w e)"
proof (induction w e rule: error_fields.induct)
  case (1 w)
  have "tput (tightMarshalBrokerError2 w None) ([WBool False] @ [])"
    unfolding tightMarshalBrokerError2.simps by (rule tput_if_read) (simp_all add: ret_fields)
  then show ?case by simp
next
  case (2 w cls msg trace cause)
  note p = error_parts [OF 2(2)]
  show ?case
    unfolding tightMarshalBrokerError2.simps error_fields.simps Let_def trace_length [OF p(3)] take_all_iff [THEN iffD2, OF order_refl]
    by (rule tput_if_read, (rule tput_next string_fields p fields_if plain_fields tput_each element_codec 2 ret_fields | assumption)+) simp
qed

lemma lput_error: "error_fits w e \<Longrightarrow> lput (looseMarshalBrokerError w e) (error_fields w e)"
proof (induction w e rule: error_fields.induct)
  case (1 w)
  show ?case using lput_flag [of False] by simp
next
  case (2 w cls msg trace cause)
  note p = error_parts [OF 2(2)]
  show ?case
    unfolding looseMarshalBrokerError.simps error_fields.simps
    by (rule lput_next lput_flag [of True, simplified] string_fields p fields_if plain_fields lput_each element_codec 2 ret_fields | assumption)+
qed

lemma tget_error: "error_fits w e \<Longrightarrow> tget (tightUnmarshalBrokerError w) (error_fields w e) (error_sent w e)"
proof (induction w e rule: error_fields.induct)
  case (1 w)
  have "tget (tightUnmarshalBrokerError w) ([WBool False] @ []) None"
    by (subst tightUnmarshalBrokerError_eq, rule tget_if_read) (simp_all add: ret_fields)
  then show ?case by simp
next
  case (2 w cls msg trace cause)
  note p = error_parts [OF 2(2)]
  show ?case
    unfolding error_fields.simps
    by (subst tightUnmarshalBrokerError_eq, rule get_cong, rule tget_if_read,
        (rule tget_bind string_fields p fields_if get_map plain_fields trace_codec 2 ret_fields | assumption)+) simp_all
qed

lemma lget_error: "error_fits w e \<Longrightarrow> lget (looseUnmarshalBrokerError w) (error_fields w e) (error_sent w e)"
proof (induction w e rule: error_fields.induct)
  case (1 w)
  have "lget (looseUnmarshalBrokerError w) ([WBool False] @ []) None"
    by (subst looseUnmarshalBrokerError_eq, rule lget_if_read) (simp_all add: ret_fields)
  then show ?case by simp
next
  case (2 w cls msg trace cause)
  note p = error_parts [OF 2(2)]
  show ?case
    unfolding error_fields.simps
    by (subst looseUnmarshalBrokerError_eq, rule get_cong, rule lget_if_read,
        (rule lget_bind string_fields p fields_if get_map plain_fields trace_codec 2 ret_fields | assumption)+) simp_all
qed

end
