(* ===== verification/PrimitiveTypes.thy ===== *)
theory PrimitiveTypes
  imports Marshalling "HOL-Library.List_Lexorder"
begin

text \<open>
  \<open>activemq/wireformat/openwire/marshal/PrimitiveTypesMarshaller.cpp\<close> with the values of
  \<open>activemq/util/PrimitiveValueNode.h\<close>: the properties of messages, the bodies of map messages and the options
  of the wire format as bytes.  A \<open>PrimitiveMap\<close> is a \<open>std::map\<close>, the list of its entries in the order of
  the keys.  A \<open>float\<close> and a \<open>double\<close> are their bits, which is what is written.

  Reading calls itself for nested lists and maps; \<open>n\<close> bounds the depth, and each level has read a byte.
\<close>

section \<open>Values and maps\<close>

datatype primitive_value = PNull | PBool bool | PByte byte | PChar byte | PShort "16 word" | PInt "32 word"
  | PLong "64 word" | PDouble "64 word" | PFloat "32 word" | PString bytes | PByteArray bytes
  | PMap "(bytes \<times> primitive_value) list" | PList "primitive_value list"

type_synonym primitive_map = "(bytes \<times> primitive_value) list"

fun map_put :: "bytes \<Rightarrow> primitive_value \<Rightarrow> primitive_map \<Rightarrow> primitive_map" where
  "map_put k v [] = [(k, v)]"
| "map_put k v ((k', v') # m) =
     (if k = k' then (k, v) # m else if k < k' then (k, v) # (k', v') # m else (k', v') # map_put k v m)"

section \<open>Writing\<close>

definition writeChar :: "byte \<Rightarrow> unit io" where
  "writeChar c s = (Inr (), emit [c] s)"

definition marshalString :: "bytes \<Rightarrow> unit io" where
  "marshalString data =
     (let size = length data in
      if size = 0 then next_io (writeByte 9) (writeShort (of_nat size))
      else if size > 32767 div 4 then
        next_io (writeByte 13) (next_io (writeInt (of_nat size)) (write_array data 0 (int size)))
      else next_io (writeByte 9) (next_io (writeShort (of_nat size)) (write_array data 0 (int size))))"

lemma each_io_cong [fundef_cong]:
  "xs = ys \<Longrightarrow> (\<And>x. x \<in> set ys \<Longrightarrow> f x = g x) \<Longrightarrow> each_io f xs = each_io g ys"
  by (induction ys arbitrary: xs) auto

fun marshalPrimitive :: "primitive_value \<Rightarrow> unit io" where
  "marshalPrimitive (PBool b) = next_io (writeByte 1) (out_writeBoolean b)"
| "marshalPrimitive (PByte b) = next_io (writeByte 2) (writeByte b)"
| "marshalPrimitive (PChar c) = next_io (writeByte 3) (next_io (writeChar 0) (writeChar c))"
| "marshalPrimitive (PShort h) = next_io (writeByte 4) (writeShort h)"
| "marshalPrimitive (PInt i) = next_io (writeByte 5) (writeInt i)"
| "marshalPrimitive (PLong l) = next_io (writeByte 6) (writeLong l)"
| "marshalPrimitive (PFloat f) = next_io (writeByte 8) (writeInt f)"
| "marshalPrimitive (PDouble d) = next_io (writeByte 7) (writeLong d)"
| "marshalPrimitive (PByteArray data) = next_io (writeByte 10) (next_io (writeInt (of_nat (length data)))
     (if data \<noteq> [] then write_array data 0 (int (length data)) else ret ()))"
| "marshalPrimitive (PString data) = marshalString data"
| "marshalPrimitive (PList xs) = next_io (writeByte 12) (next_io (writeInt (of_nat (length xs))) (each_io (\<lambda>x. marshalPrimitive x) xs))"
| "marshalPrimitive (PMap m) = next_io (writeByte 11) (next_io (writeInt (of_nat (length m)))
     (each_io (\<lambda>e. next_io (writeUTF (fst e)) (marshalPrimitive (snd e))) m))"
| "marshalPrimitive PNull = fails IOException"

definition marshalPrimitiveMap :: "primitive_map \<Rightarrow> unit io" where
  "marshalPrimitiveMap m = next_io (writeInt (of_nat (length m)))
     (each_io (\<lambda>e. next_io (writeUTF (fst e)) (marshalPrimitive (snd e))) m)"

definition marshalPrimitiveList :: "primitive_value list \<Rightarrow> unit io" where
  "marshalPrimitiveList xs = next_io (writeInt (of_nat (length xs))) (each_io marshalPrimitive xs)"

section \<open>Reading\<close>

definition readChar :: "byte io" where
  "readChar = bind_io (readAllData 1) (\<lambda>b. ret (b ! 0))"

definition read_text :: "int \<Rightarrow> primitive_value io" where
  "read_text utfLength = (if utfLength > 0 then bind_io (readFully (nat utfLength)) (\<lambda>buffer. ret (PString buffer)) else ret PNull)"

definition read_list :: "primitive_value io \<Rightarrow> primitive_value list io" where
  "read_list one = bind_io readInt (\<lambda>size. times_io (nat (sint size)) one)"

definition read_map :: "primitive_value io \<Rightarrow> primitive_map \<Rightarrow> primitive_map io" where
  "read_map one m = bind_io readInt (\<lambda>size.
     bind_io (times_io (nat (sint size)) (bind_io readUTF (\<lambda>key. bind_io one (\<lambda>v. ret (key, v)))))
       (\<lambda>es. ret (foldl (\<lambda>m e. map_put (fst e) (snd e) m) m es)))"

definition read_value :: "primitive_value io \<Rightarrow> byte \<Rightarrow> primitive_value io" where
  "read_value one type =
     (if type = 0 then ret PNull
      else if type = 2 then bind_io readByte (\<lambda>b. ret (PByte b))
      else if type = 1 then bind_io in_readBoolean (\<lambda>b. ret (PBool b))
      else if type = 3 then next_io readByte (bind_io readChar (\<lambda>c. ret (PChar c)))
      else if type = 4 then bind_io readShort (\<lambda>h. ret (PShort h))
      else if type = 5 then bind_io readInt (\<lambda>i. ret (PInt i))
      else if type = 6 then bind_io readLong (\<lambda>l. ret (PLong l))
      else if type = 8 then bind_io readInt (\<lambda>f. ret (PFloat f))
      else if type = 7 then bind_io readLong (\<lambda>d. ret (PDouble d))
      else if type = 10 then bind_io read_sized (\<lambda>data. ret (PByteArray data))
      else if type = 9 then bind_io readShort (\<lambda>utfLength. read_text (sint utfLength))
      else if type = 13 then bind_io readInt (\<lambda>utfLength. read_text (sint utfLength))
      else if type = 12 then bind_io (read_list one) (\<lambda>xs. ret (PList xs))
      else if type = 11 then bind_io (read_map one []) (\<lambda>m. ret (PMap m))
      else fails IOException)"

fun unmarshalPrimitive :: "nat \<Rightarrow> primitive_value io" where
  "unmarshalPrimitive 0 = fails StackOverflow"
| "unmarshalPrimitive (Suc n) = bind_io readByte (read_value (unmarshalPrimitive n))"

definition unmarshalPrimitiveMap :: "primitive_map \<Rightarrow> primitive_map io" where
  "unmarshalPrimitiveMap m s = read_map (unmarshalPrimitive (Suc (input_left s))) m s"

definition unmarshalPrimitiveList :: "primitive_value list \<Rightarrow> primitive_value list io" where
  "unmarshalPrimitiveList l s = bind_io (read_list (unmarshalPrimitive (Suc (input_left s)))) (\<lambda>xs. ret (l @ xs)) s"

section \<open>Maps as byte arrays\<close>

text \<open>
  A local \<open>ByteArrayOutputStream\<close> as the output and a local \<open>ByteArrayInputStream\<close> as the input; the latter
  hands out all its bytes to one \<open>read\<close>.
\<close>

definition to_array :: "unit io \<Rightarrow> bytes io" where
  "to_array m s = (case m (s\<lparr>dataOut := [], written := 0\<rparr>) of (Inl e, t) \<Rightarrow> (Inl e, s) | (Inr _, t) \<Rightarrow> (Inr (dataOut t), s))"

definition from_array :: "bytes \<Rightarrow> 'a io \<Rightarrow> 'a io" where
  "from_array buffer m s = (case m (s\<lparr>dataIn := [buffer]\<rparr>) of (r, t) \<Rightarrow> (r, s))"

definition marshal_map :: "primitive_map \<Rightarrow> bytes \<Rightarrow> bytes io" where
  "marshal_map m buffer = io_boundary (bind_io (to_array (marshalPrimitiveMap m)) (\<lambda>array. ret (array @ buffer)))"

definition unmarshal_map :: "primitive_map \<Rightarrow> bytes \<Rightarrow> primitive_map io" where
  "unmarshal_map m buffer =
     (if buffer = [] then ret m else io_boundary (from_array buffer (unmarshalPrimitiveMap [])))"

section \<open>The bytes of a value\<close>

fun prim_bytes :: "primitive_value \<Rightarrow> bytes" where
  "prim_bytes (PBool b) = [1, if b then 1 else 0]"
| "prim_bytes (PByte b) = [2, b]"
| "prim_bytes (PChar c) = [3, 0, c]"
| "prim_bytes (PShort h) = 4 # short_bytes h"
| "prim_bytes (PInt i) = 5 # int_bytes i"
| "prim_bytes (PLong l) = 6 # long_bytes l"
| "prim_bytes (PFloat f) = 8 # int_bytes f"
| "prim_bytes (PDouble d) = 7 # long_bytes d"
| "prim_bytes (PByteArray data) = 10 # sized_field data"
| "prim_bytes (PString data) =
     (if length data > 8191 then 13 # sized_field data else 9 # short_bytes (of_nat (length data)) @ data)"
| "prim_bytes (PList xs) = 12 # int_bytes (of_nat (length xs)) @ concat (map prim_bytes xs)"
| "prim_bytes (PMap m) = 11 # int_bytes (of_nat (length m)) @ concat (map (\<lambda>e. utf_field (fst e) @ prim_bytes (snd e)) m)"
| "prim_bytes PNull = [0]"

definition entry_bytes :: "bytes \<times> primitive_value \<Rightarrow> bytes" where
  "entry_bytes e = utf_field (fst e) @ prim_bytes (snd e)"

definition map_bytes :: "primitive_map \<Rightarrow> bytes" where
  "map_bytes m = int_bytes (of_nat (length m)) @ concat (map entry_bytes m)"

text \<open>What can be written: no null, sizes below \<open>2 ^ 31\<close>, keys of at most 65535 bytes as UTF-8.\<close>

fun prim_ok :: "primitive_value \<Rightarrow> bool" where
  "prim_ok (PByteArray data) = (length data < 2 ^ 31)"
| "prim_ok (PString data) = (length data < 2 ^ 31)"
| "prim_ok (PList xs) = (length xs < 2 ^ 31 \<and> list_all prim_ok xs)"
| "prim_ok (PMap m) = (length m < 2 ^ 31 \<and> sorted_wrt (<) (map fst m) \<and>
     list_all (\<lambda>e. countUTFLength (fst e) \<le> 65535 \<and> prim_ok (snd e)) m)"
| "prim_ok PNull = False"
| "prim_ok _ = True"

definition map_ok :: "primitive_map \<Rightarrow> bool" where
  "map_ok m = prim_ok (PMap m)"

text \<open>What is read: an empty string comes back as a null.\<close>

fun prim_read :: "primitive_value \<Rightarrow> primitive_value" where
  "prim_read (PString data) = (if data = [] then PNull else PString data)"
| "prim_read (PList xs) = PList (map prim_read xs)"
| "prim_read (PMap m) = PMap (map (\<lambda>e. (fst e, prim_read (snd e))) m)"
| "prim_read v = v"

definition map_read :: "primitive_map \<Rightarrow> primitive_map" where
  "map_read m = map (\<lambda>e. (fst e, prim_read (snd e))) m"

fun prim_depth :: "primitive_value \<Rightarrow> nat" where
  "prim_depth (PList xs) = Suc (foldr max (map prim_depth xs) 0)"
| "prim_depth (PMap m) = Suc (foldr max (map (\<lambda>e. prim_depth (snd e)) m) 0)"
| "prim_depth _ = 1"

section \<open>Values are written and read\<close>

lemma puts_seq: "puts m [] ys () \<Longrightarrow> puts k [] zs () \<Longrightarrow> puts (next_io m k) [] (ys @ zs) ()"
  using puts_next [of m "[]" ys "()" k "[]" zs "()"] by simp

lemma gets_seq: "gets m [] ys v \<Longrightarrow> gets (k v) [] zs x \<Longrightarrow> gets (bind_io m k) [] (ys @ zs) x"
  using gets_bind [of m "[]" ys v k "[]" zs x] by simp

lemma puts_each:
  "(\<And>x. x \<in> set xs \<Longrightarrow> puts (f x) [] (ys x) ()) \<Longrightarrow> puts (each_io f xs) [] (concat (map ys xs)) ()"
proof (induction xs)
  case (Cons x xs)
  then show ?case using puts_next [of "f x" "[]" "ys x" "()" "each_io f xs"] by fastforce
qed (simp add: puts_ret)

lemma gets_times:
  "(\<And>x. x \<in> set xs \<Longrightarrow> gets f [] (ys x) (g x)) \<Longrightarrow> gets (times_io (length xs) f) [] (concat (map ys xs)) (map g xs)"
proof (induction xs)
  case (Cons x xs)
  then have "gets (bind_io (times_io (length xs) f) (\<lambda>zs. ret (g x # zs))) [] (concat (map ys xs)) (g x # map g xs)"
    by (intro gets_map [where f = "\<lambda>zs. g x # zs"]) simp_all
  from gets_bind [where k = "\<lambda>y. bind_io (times_io (length xs) f) (\<lambda>zs. ret (y # zs))", OF Cons.prems this] show ?case by simp
qed (simp add: gets_ret)

lemma puts_then: "puts m [] ys () \<Longrightarrow> puts (next_io (writeByte c) m) [] (c # ys) ()"
  using puts_next [OF puts_numbers(1)] by fastforce

lemma puts_sized: "puts (next_io (writeInt (of_nat (length data))) (write_array data 0 (int (length data)))) [] (sized_field data) ()"
  using puts_next [OF puts_numbers(5) puts_array] by (fastforce simp: sized_field_def)

lemma puts_writeChar: "puts (writeChar c) [] [c] ()"
  using puts_emit [of "[c]"] by (simp add: writeChar_def [abs_def])

lemma puts_char: "puts (next_io (writeChar 0) (writeChar c)) [] [0, c] ()"
  using puts_next [OF puts_writeChar puts_writeChar] by fastforce

lemma puts_marshalString: "puts (marshalString data) [] (prim_bytes (PString data)) ()"
proof -
  have "puts (next_io (writeShort (of_nat (length data))) (write_array data 0 (int (length data)))) []
      (short_bytes (of_nat (length data)) @ data) ()"
    using puts_next [OF puts_numbers(3) puts_array] by fastforce
  moreover have "data = [] \<Longrightarrow> puts (writeShort 0) [] (short_bytes 0) ()" by (rule puts_numbers(3))
  ultimately show ?thesis by (auto simp: marshalString_def Let_def intro!: puts_then puts_sized)
qed

lemma puts_entry:
  assumes "countUTFLength (fst e) \<le> 65535" "puts (marshalPrimitive (snd e)) [] (prim_bytes (snd e)) ()"
  shows "puts (next_io (writeUTF (fst e)) (marshalPrimitive (snd e))) [] (utf_field (fst e) @ prim_bytes (snd e)) ()"
  using puts_next [OF puts_writeUTF [OF assms(1)] assms(2)] by (simp add: utf_field_def)

lemma marshal_puts_value: "prim_ok v \<Longrightarrow> puts (marshalPrimitive v) [] (prim_bytes v) ()"
proof (induction v rule: marshalPrimitive.induct)
  case (1 b)
  show ?case using puts_then [OF puts_numbers(2) [of b]] by simp
next
  case (9 data)
  then show ?case
    using puts_sized [of data] puts_next [OF puts_numbers(5) puts_ret [of "()"], of 0]
    by (cases "data = []") (auto simp: sized_field_def intro!: puts_then)
next
  case (11 xs)
  have "puts (each_io marshalPrimitive xs) [] (concat (map prim_bytes xs)) ()"
    using 11 by (intro puts_each) (simp add: list_all_iff)
  from puts_then [OF puts_seq [OF puts_numbers(5) this]] show ?case by simp
next
  case (12 m)
  have "puts (each_io (\<lambda>e. next_io (writeUTF (fst e)) (marshalPrimitive (snd e))) m) []
      (concat (map (\<lambda>e. utf_field (fst e) @ prim_bytes (snd e)) m)) ()"
    using 12 by (intro puts_each puts_entry) (simp_all add: list_all_iff)
  from puts_then [OF puts_seq [OF puts_numbers(5) this]] show ?case by simp
qed (auto intro!: puts_then puts_numbers puts_char puts_marshalString simp del: prim_bytes.simps(10))

lemma map_puts: "map_ok m \<Longrightarrow> puts (marshalPrimitiveMap m) [] (map_bytes m) ()"
  unfolding marshalPrimitiveMap_def map_bytes_def entry_bytes_def [abs_def] map_ok_def
  by (intro puts_seq puts_numbers puts_each puts_entry marshal_puts_value) (simp_all add: list_all_iff)

lemma signed_size:
  "n < 2 ^ 31 \<Longrightarrow> sint (of_nat n :: 32 word) = int n" "n \<le> 32767 \<Longrightarrow> sint (of_nat n :: 16 word) = int n"
  by (simp_all add: signed_of_nat signed_take_bit_int_eq_self)

lemma map_put_last: "\<forall>e \<in> set m. fst e < k \<Longrightarrow> map_put k v m = m @ [(k, v)]"
  by (induction m) auto

lemma foldl_put:
  "sorted_wrt (<) (map fst (m @ es)) \<Longrightarrow> foldl (\<lambda>m e. map_put (fst e) (snd e) m) m es = m @ es"
proof (induction es arbitrary: m)
  case (Cons e es)
  then have "map_put (fst e) (snd e) m = m @ [e]" by (subst map_put_last) (auto simp: sorted_wrt_append)
  with Cons.IH [of "m @ [e]"] Cons.prems show ?case by simp
qed simp

lemma gets_read_text: "gets (read_text (int (length data))) [] data (if data = [] then PNull else PString data)"
  using gets_ret [of PNull] gets_map [OF gets_readFully [OF refl, of data], of PString] by (cases "data = []") (simp_all add: read_text_def)

lemma gets_list:
  assumes "length xs < 2 ^ 31" "\<And>x. x \<in> set xs \<Longrightarrow> gets one [] (prim_bytes x) (prim_read x)"
  shows "gets (read_list one) [] (int_bytes (of_nat (length xs)) @ concat (map prim_bytes xs)) (map prim_read xs)"
  unfolding read_list_def using assms
  by (intro gets_seq [OF gets_numbers(5)]) (simp add: signed_size gets_times)

lemma gets_entry:
  assumes "countUTFLength (fst e) \<le> 65535" "gets one [] (prim_bytes (snd e)) (prim_read (snd e))"
  shows "gets (bind_io readUTF (\<lambda>key. bind_io one (\<lambda>v. ret (key, v)))) [] (entry_bytes e) (fst e, prim_read (snd e))"
  unfolding entry_bytes_def
  using gets_seq [where k = "\<lambda>key. bind_io one (\<lambda>v. ret (key, v))", OF gets_readUTF [OF assms(1), folded utf_field_def]
    gets_map [OF assms(2), where f = "Pair (fst e)", OF refl]] .

lemma gets_entries:
  assumes ok: "map_ok m" and one: "\<And>e. e \<in> set m \<Longrightarrow> gets one [] (prim_bytes (snd e)) (prim_read (snd e))"
  shows "gets (read_map one []) [] (map_bytes m) (map_read m)"
proof -
  let ?entry = "bind_io readUTF (\<lambda>key. bind_io one (\<lambda>v. ret (key, v)))"
  have "gets (times_io (length m) ?entry) [] (concat (map entry_bytes m)) (map_read m)"
    unfolding map_read_def using ok one by (intro gets_times gets_entry) (simp_all add: map_ok_def list_all_iff)
  moreover have "foldl (\<lambda>m e. map_put (fst e) (snd e) m) [] (map_read m) = map_read m"
    using ok foldl_put [of "[]" "map_read m"] by (simp add: map_ok_def map_read_def comp_def)
  ultimately have "gets (bind_io (times_io (length m) ?entry) (\<lambda>es. ret (foldl (\<lambda>m e. map_put (fst e) (snd e) m) [] es))) []
      (concat (map entry_bytes m)) (map_read m)"
    by (rule gets_map)
  then show ?thesis unfolding read_map_def map_bytes_def
    using ok by (intro gets_seq [OF gets_numbers(5)]) (simp add: signed_size map_ok_def)
qed

lemma depth_member:
  "x \<in> set xs \<Longrightarrow> foldr max (map f xs) 0 \<le> n \<Longrightarrow> f x \<le> n" for n :: nat
  by (induction xs) auto

lemma gets_readChar: "gets readChar [] [c] c"
  using gets_map [OF gets_readAllData [of 1 "[c]"], of "\<lambda>b. b ! 0" c] by (simp add: readChar_def)

lemma gets_tagged: "gets (read_value (unmarshalPrimitive n) c) [] ys v \<Longrightarrow> gets (unmarshalPrimitive (Suc n)) [] (c # ys) v"
  using gets_seq [OF gets_numbers(1), of "read_value (unmarshalPrimitive n)" c ys v] by simp

lemma gets_plain:
  "gets (read_value one 1) [] [if b then 1 else 0] (PBool b)" "gets (read_value one 2) [] [c] (PByte c)"
  "gets (read_value one 3) [] [0, c] (PChar c)" "gets (read_value one 4) [] (short_bytes h) (PShort h)"
  "gets (read_value one 5) [] (int_bytes i) (PInt i)" "gets (read_value one 6) [] (long_bytes l) (PLong l)"
  "gets (read_value one 7) [] (long_bytes l) (PDouble l)" "gets (read_value one 8) [] (int_bytes i) (PFloat i)"
  using gets_map [OF gets_numbers(2), of PBool b] gets_map [OF gets_numbers(1), of PByte c]
    gets_seq [OF gets_numbers(1) [of 0] gets_map [OF gets_readChar, of PChar c], OF refl] gets_map [OF gets_numbers(3), of PShort h]
    gets_map [OF gets_numbers(5), of PInt i] gets_map [OF gets_numbers(6), of PLong l]
    gets_map [OF gets_numbers(6), of PDouble l] gets_map [OF gets_numbers(5), of PFloat i]
  by (simp_all add: read_value_def)

lemma gets_string:
  assumes "length data < 2 ^ 31"
  shows "gets (unmarshalPrimitive (Suc n)) [] (prim_bytes (PString data)) (prim_read (PString data))"
proof (cases "length data > 8191")
  case True
  have "gets (bind_io readInt (\<lambda>utfLength. read_text (sint utfLength))) [] (sized_field data) (prim_read (PString data))"
    unfolding sized_field_def using assms gets_read_text [of data]
    by (intro gets_seq [OF gets_numbers(5)]) (simp add: signed_size)
  then have "gets (read_value (unmarshalPrimitive n) 13) [] (sized_field data) (prim_read (PString data))" by (simp add: read_value_def)
  from gets_tagged [OF this] show ?thesis using True by simp
next
  case False
  have "gets (bind_io readShort (\<lambda>utfLength. read_text (sint utfLength))) [] (short_bytes (of_nat (length data)) @ data) (prim_read (PString data))"
    using False gets_read_text [of data] by (intro gets_seq [OF gets_numbers(3)]) (simp add: signed_size)
  then have "gets (read_value (unmarshalPrimitive n) 9) [] (short_bytes (of_nat (length data)) @ data) (prim_read (PString data))"
    by (simp add: read_value_def)
  from gets_tagged [OF this] show ?thesis using False by simp
qed

lemma unmarshal_gets_value: "prim_ok v \<Longrightarrow> prim_depth v \<le> n \<Longrightarrow> gets (unmarshalPrimitive n) [] (prim_bytes v) (prim_read v)"
proof (induction v arbitrary: n)
  case (PString data)
  then show ?case using gets_string [of data "n - 1"] by (cases n) simp_all
next
  case (PByteArray data)
  have "gets (read_value (unmarshalPrimitive (n - 1)) 10) [] (sized_field data) (PByteArray data)"
    using gets_map [OF gets_sized, of data PByteArray] PByteArray by (simp add: read_value_def)
  from gets_tagged [OF this] show ?case using PByteArray by (cases n) simp_all
next
  case (PList xs)
  then obtain k where n: "n = Suc k" by (cases n) simp_all
  have "gets (read_list (unmarshalPrimitive k)) [] (int_bytes (of_nat (length xs)) @ concat (map prim_bytes xs)) (map prim_read xs)"
    using PList n by (intro gets_list) (auto simp: list_all_iff dest: depth_member)
  from gets_map [OF this, of PList] gets_tagged [of k 12] show ?case by (simp add: n read_value_def)
next
  case (PMap m)
  then obtain k where n: "n = Suc k" by (cases n) simp_all
  have "gets (unmarshalPrimitive k) [] (prim_bytes (snd e)) (prim_read (snd e))" if "e \<in> set m" for e
    using PMap.IH [OF that, of "snd e" k] PMap.prems n that depth_member [OF that, of "\<lambda>e. prim_depth (snd e)" k]
    by (simp add: list_all_iff snds.simps)
  then have "gets (read_map (unmarshalPrimitive k) []) [] (map_bytes m) (map_read m)"
    using PMap.prems by (intro gets_entries) (simp_all add: map_ok_def)
  from gets_map [OF this, of PMap] gets_tagged [of k 11] show ?case
    by (simp add: n read_value_def map_bytes_def map_read_def entry_bytes_def [abs_def])
qed (auto simp: Suc_le_eq gr0_conv_Suc intro!: gets_tagged gets_plain gets_plain(1) [of _ True, simplified] gets_plain(1) [of _ False, simplified])

lemma max_le_concat:
  "(\<And>x. x \<in> set xs \<Longrightarrow> f x \<le> length (g x)) \<Longrightarrow> foldr max (map f xs) 0 \<le> length (concat (map g xs))"
  by (induction xs) (simp_all add: trans_le_add1 trans_le_add2)

lemma depth_le_bytes: "prim_depth v \<le> length (prim_bytes v)"
proof (induction v)
  case (PList xs)
  then show ?case using max_le_concat [of xs prim_depth prim_bytes] by simp
next
  case (PMap m)
  then have "prim_depth (snd e) \<le> length (utf_field (fst e) @ prim_bytes (snd e))" if "e \<in> set m" for e
    using that by (cases e) (auto intro: trans_le_add2)
  then show ?case using max_le_concat [of m "\<lambda>e. prim_depth (snd e)" "\<lambda>e. utf_field (fst e) @ prim_bytes (snd e)"] by simp
qed simp_all

lemma map_gets: "map_ok m \<Longrightarrow> gets (unmarshalPrimitiveMap []) [] (map_bytes m) (map_read m)"
  unfolding gets_def
proof (intro allI impI)
  fix s :: streams and more rest
  assume ok: "map_ok m" and s: "upcoming (bools s) ([] @ more)" "concat (dataIn s) = map_bytes m @ rest"
  have "gets (unmarshalPrimitive (Suc (input_left s))) [] (prim_bytes (snd e)) (prim_read (snd e))" if "e \<in> set m" for e
  proof -
    have "length (entry_bytes e) \<le> length (concat (map entry_bytes m))"
      using that by (induction m) (auto intro: trans_le_add1 trans_le_add2)
    then have "prim_depth (snd e) \<le> Suc (input_left s)"
      using depth_le_bytes [of "snd e"] s(2) by (simp add: input_left_def map_bytes_def entry_bytes_def [of e])
    then show ?thesis using ok that by (intro unmarshal_gets_value) (auto simp: map_ok_def list_all_iff)
  qed
  from gets_entries [OF ok this, unfolded gets_def, rule_format, OF _ s]
  show "\<exists>b src. unmarshalPrimitiveMap [] s = (Inr (map_read m), s\<lparr>bools := b, dataIn := src\<rparr>) \<and> upcoming b more \<and> concat src = rest"
    by (simp add: unmarshalPrimitiveMap_def)
qed

lemma to_array_puts: "puts m [] ys () \<Longrightarrow> to_array m = ret ys"
proof
  fix s
  assume m: "puts m [] ys ()"
  obtain b where "m (s\<lparr>dataOut := [], written := 0\<rparr>) = (Inr (), emit ys (s\<lparr>dataOut := [], written := 0, bools := b\<rparr>))"
    using m [unfolded puts_def, rule_format, of "s\<lparr>dataOut := [], written := 0\<rparr>" "[]"] by (auto simp: upcoming_def)
  then show "to_array m s = ret ys s" by (simp add: to_array_def emit_def ret_def)
qed

lemma from_array_gets: "gets m [] ys v \<Longrightarrow> from_array ys m = ret v"
proof
  fix s
  assume m: "gets m [] ys v"
  obtain b src where "m (s\<lparr>dataIn := [ys]\<rparr>) = (Inr v, s\<lparr>bools := b, dataIn := src\<rparr>)"
    using m [unfolded gets_def, rule_format, of "s\<lparr>dataIn := [ys]\<rparr>" "[]" "[]"] by (auto simp: upcoming_def)
  then show "from_array ys m s = ret v s" by (simp add: from_array_def ret_def)
qed

lemma bind_ret [simp]: "bind_io (ret x) k = k x"
  by (rule ext) (simp add: bind_io_def ret_def)

lemma boundary_ret [simp]: "io_boundary (ret x) = ret x"
  by (rule ext) (simp add: io_boundary_def ret_def)

lemma map_bytes_not_empty [simp]: "map_bytes m \<noteq> []"
  by (simp add: map_bytes_def int_bytes_def)

lemma primitive_map_read: "map_ok m \<Longrightarrow> unmarshal_map m' (map_bytes m) = ret (map_read m)"
  by (simp add: unmarshal_map_def from_array_gets [OF map_gets])

lemma primitive_map_write: "map_ok m \<Longrightarrow> marshal_map m [] = ret (map_bytes m)"
  by (simp add: marshal_map_def to_array_puts [OF map_puts])

text \<open>
  C25. Properties survive the way over the wire: a primitive map with values of any type but null, nested to any depth, is
  written to bytes from which reading gives the same map, except that an empty string comes back as a null value. Sizes of
  strings, arrays, lists and maps are below 2^31 and keys have at most 65535 bytes as UTF-8.
\<close>

theorem primitive_map_roundtrip:
  assumes "map_ok m"
  shows "bind_io (marshal_map m []) (unmarshal_map m') s = (Inr (map_read m), s)"
  using assms by (simp add: primitive_map_write primitive_map_read ret_def)

definition sample_properties :: primitive_map where
  "sample_properties = [([0x61], PInt 7), ([0x62], PList [PString [0x78], PBool True, PMap [([0x6B], PString [])]]), ([0x63], PLong 5)]"

theorem primitive_map_roundtrip_witness:
  "bind_io (marshal_map sample_properties []) (unmarshal_map []) (idle []) = (Inr (map_read sample_properties), idle [])"
  by (rule primitive_map_roundtrip) (simp add: sample_properties_def map_ok_def)

section \<open>Null values\<close>

text \<open>Writing a value that was read either succeeds or throws, because of a null inside.\<close>

definition refused :: "unit io \<Rightarrow> bool" where
  "refused m \<longleftrightarrow> (\<forall>s. fst (m s) = Inl IOException)"

lemma refused_then: "refused k \<Longrightarrow> puts m [] ys () \<Longrightarrow> refused (next_io m k)"
proof -
  assume k: "refused k" and m: "puts m [] ys ()"
  show "refused (next_io m k)"
    unfolding refused_def
  proof
    fix s
    obtain b where "m s = (Inr (), emit ys (s\<lparr>bools := b\<rparr>))"
      using m [unfolded puts_def, rule_format, of s "[]"] by (auto simp: upcoming_def)
    then show "fst (next_io m k s) = Inl IOException" using k by (simp add: bind_io_def refused_def)
  qed
qed

lemma refused_first: "refused m \<Longrightarrow> refused (next_io m k)"
  unfolding refused_def bind_io_def
proof
  fix s
  assume "\<forall>s. fst (m s) = Inl IOException"
  then obtain t where "m s = (Inl IOException, t)" by (metis prod.collapse)
  then show "fst (case m s of (Inl e, s') \<Rightarrow> (Inl e, s') | (Inr x, s') \<Rightarrow> k s') = Inl IOException" by simp
qed

lemma refused_each:
  "(\<And>x. x \<in> set xs \<Longrightarrow> refused (f x) \<or> puts (f x) [] (ys x) ()) \<Longrightarrow> x \<in> set xs \<Longrightarrow> refused (f x) \<Longrightarrow> refused (each_io f xs)"
proof (induction xs)
  case (Cons y xs)
  show ?case
  proof (cases "refused (f y)")
    case False
    with Cons.prems have "puts (f y) [] (ys y) ()" "x \<in> set xs" by auto
    with Cons show ?thesis by (auto intro: refused_then)
  qed (simp add: refused_first)
qed simp

lemma reread_elements:
  assumes one: "\<And>x. x \<in> set xs \<Longrightarrow> prim_ok (prim_read (snd x)) \<or> refused (marshalPrimitive (prim_read (snd x)))"
    and keys: "\<And>x. x \<in> set xs \<Longrightarrow> countUTFLength (fst x) \<le> 65535"
    and x: "x \<in> set xs" "\<not> prim_ok (prim_read (snd x))"
  shows "refused (each_io (\<lambda>e. marshalPrimitive (prim_read (snd e))) xs)"
    and "refused (each_io (\<lambda>e. next_io (writeUTF (fst e)) (marshalPrimitive (prim_read (snd e)))) xs)"
proof -
  have x': "refused (marshalPrimitive (prim_read (snd x)))" using one x by blast
  show "refused (each_io (\<lambda>e. marshalPrimitive (prim_read (snd e))) xs)"
    using one x(1) x' by (intro refused_each [of xs _ "\<lambda>e. prim_bytes (prim_read (snd e))" x]) (auto intro: marshal_puts_value)
  have entry: "refused (next_io (writeUTF (fst e)) (marshalPrimitive (prim_read (snd e))))"
    if "e \<in> set xs" "refused (marshalPrimitive (prim_read (snd e)))" for e
    using refused_then [OF that(2) puts_writeUTF [OF keys [OF that(1)]]] .
  show "refused (each_io (\<lambda>e. next_io (writeUTF (fst e)) (marshalPrimitive (prim_read (snd e)))) xs)"
  proof (rule refused_each [of xs _ "\<lambda>e. utf_field (fst e) @ prim_bytes (prim_read (snd e))" x])
    show "refused (next_io (writeUTF (fst e)) (marshalPrimitive (prim_read (snd e)))) \<or>
        puts (next_io (writeUTF (fst e)) (marshalPrimitive (prim_read (snd e)))) [] (utf_field (fst e) @ prim_bytes (prim_read (snd e))) ()"
      if "e \<in> set xs" for e
      using one [OF that] entry [OF that] puts_entry [of "(fst e, prim_read (snd e))"] keys [OF that] marshal_puts_value by auto
  qed (use x(1) entry x' in auto)
qed

lemma each_io_map: "each_io f (map g xs) = each_io (\<lambda>x. f (g x)) xs"
  by (induction xs) simp_all

lemma reread: "prim_ok v \<Longrightarrow> prim_ok (prim_read v) \<or> refused (marshalPrimitive (prim_read v))"
proof (induction v)
  case (PString data)
  then show ?case by (simp add: refused_def fails_def)
next
  case (PList xs)
  show ?case
  proof (cases "list_all prim_ok (map prim_read xs)")
    case False
    then obtain x where x: "x \<in> set xs" "\<not> prim_ok (prim_read x)" by (auto simp: list_all_iff)
    have "refused (each_io (\<lambda>e. marshalPrimitive (prim_read (snd e))) (map (Pair ([] :: bytes)) xs))"
      by (rule reread_elements(1) [where x = "([], x)"]) (use PList x in \<open>fastforce simp: list_all_iff\<close>)+
    then show ?thesis
      using refused_then [OF refused_then [OF _ puts_numbers(5)] puts_numbers(1)] by (simp add: each_io_map)
  qed (use PList.prems in simp)
next
  case (PMap m)
  show ?case
  proof (cases "list_all (\<lambda>e. prim_ok (prim_read (snd e))) m")
    case True
    then show ?thesis using PMap.prems by (auto simp: list_all_iff comp_def)
  next
    case False
    then obtain x where x: "x \<in> set m" "\<not> prim_ok (prim_read (snd x))" by (auto simp: list_all_iff)
    have "refused (each_io (\<lambda>e. next_io (writeUTF (fst e)) (marshalPrimitive (prim_read (snd e)))) m)"
    proof (rule reread_elements(2) [OF _ _ x])
      show "prim_ok (prim_read (snd e)) \<or> refused (marshalPrimitive (prim_read (snd e)))" if "e \<in> set m" for e
        using PMap.IH [OF that, of "snd e"] PMap.prems that by (auto simp: list_all_iff snds.simps)
    qed (use PMap.prems in \<open>auto simp: list_all_iff\<close>)
    then show ?thesis
      using refused_then [OF refused_then [OF _ puts_numbers(5)] puts_numbers(1)] by (simp add: each_io_map)
  qed
qed simp_all

text \<open>
  C35. A message that arrives with an empty string among its properties cannot be sent on: what was read from the bytes of a map
  with an empty string has a null in its place, and writing this map throws an \<open>IOException\<close>.
\<close>

theorem empty_string_blocks_resend:
  assumes "map_ok m" "(k, PString []) \<in> set m"
  shows "fst (bind_io (marshal_map m []) (\<lambda>bytes. bind_io (unmarshal_map [] bytes) (\<lambda>received. marshal_map received [])) s) = Inl IOException"
proof -
  have "refused (each_io (\<lambda>e. next_io (writeUTF (fst e)) (marshalPrimitive (prim_read (snd e)))) m)"
    using assms reread by (intro reread_elements(2) [OF _ _ assms(2)]) (auto simp: map_ok_def list_all_iff)
  then have "refused (marshalPrimitiveMap (map_read m))"
    using refused_then [OF _ puts_numbers(5)] by (simp add: marshalPrimitiveMap_def map_read_def each_io_map)
  then obtain t where "marshalPrimitiveMap (map_read m) (s\<lparr>dataOut := [], written := 0\<rparr>) = (Inl IOException, t)"
    unfolding refused_def by (metis prod.collapse)
  then have "fst (marshal_map (map_read m) [] s) = Inl IOException"
    by (simp add: marshal_map_def io_boundary_def bind_io_def to_array_def)
  then show ?thesis using assms(1) by (simp add: primitive_map_write primitive_map_read)
qed

theorem empty_string_blocks_resend_witness:
  "fst (bind_io (marshal_map [([0x61], PString [])] []) (\<lambda>bytes. bind_io (unmarshal_map [] bytes)
     (\<lambda>received. marshal_map received [])) (idle [])) = Inl IOException"
  by (rule empty_string_blocks_resend [of _ "[0x61]"]) (simp_all add: map_ok_def)

end
