(* ===== verification/WireCommands.thy ===== *)
theory WireCommands
  imports PrimitiveTypes
begin

text \<open>
  The OpenWire commands of the client and the methods of their marshallers:
  \<open>activemq/commands\<close> and \<open>activemq/wireformat/openwire/marshal/generated\<close>.
  A class is a record of the fields that its marshaller sends, named after the class and the field; a
  derived class extends the record of its base. A null pointer is \<open>None\<close>. Fields that are
  computed from others on demand (keys, hash codes, parent identities) are not part of the records.
\<close>

text \<open>
  \<open>DataStructure\<close> is the type \<open>data_structure\<close>, with a constructor for each
  class. \<open>RemoveInfo\<close>, \<open>DataResponse\<close> and the messages have a pointer to an
  arbitrary object, \<open>MessageDispatch\<close> has one to a message,
  \<open>DataArrayResponse\<close> and \<open>BrokerInfo\<close> have an array of pointers; these are
  the second argument of their constructors. The methods of a marshaller have the functions for nested
  objects of the wire format as an argument (\<open>nest\<close>). The \<open>catch\<close> clauses of
  the methods rethrow an \<open>IOException\<close>; the conversion of other exceptions is in the
  model of \<open>OpenWireFormat\<close>.
\<close>

section \<open>Classes\<close>

record BrokerId =
  BrokerId_value :: bytes

record ConnectionId =
  ConnectionId_value :: bytes

record SessionId =
  SessionId_connectionId :: bytes
  SessionId_value :: "64 word"

record ConsumerId =
  ConsumerId_connectionId :: bytes
  ConsumerId_sessionId :: "64 word"
  ConsumerId_value :: "64 word"

record ProducerId =
  ProducerId_connectionId :: bytes
  ProducerId_value :: "64 word"
  ProducerId_sessionId :: "64 word"

record MessageId =
  MessageId_textView :: bytes
  MessageId_producerId :: "ProducerId option"
  MessageId_producerSequenceId :: "64 word"
  MessageId_brokerSequenceId :: "64 word"

text \<open>
  Destinations: \<open>setPhysicalName\<close> removes the options from the name, and takes a name as
  advisory if its first character is one of the characters of the advisory prefix
  (\<open>find_first_of\<close>). The options and the hash code are not part of the record.
\<close>

record ActiveMQDestination =
  ActiveMQDestination_physicalName :: bytes
  ActiveMQDestination_advisory :: bool

definition bytes_of :: "string \<Rightarrow> bytes" where
  "bytes_of str = map (\<lambda>c. of_nat (of_char c)) str"

definition ADVISORY_TOPIC_PREFIX :: bytes where
  "ADVISORY_TOPIC_PREFIX = bytes_of ''ActiveMQ.Advisory.''"

definition setPhysicalName :: "bytes \<Rightarrow> ActiveMQDestination \<Rightarrow> ActiveMQDestination" where
  "setPhysicalName name x = x\<lparr>ActiveMQDestination_physicalName := takeWhile (\<lambda>c. c \<noteq> 0x3F) name,
     ActiveMQDestination_advisory := (name \<noteq> [] \<and> hd name \<in> set ADVISORY_TOPIC_PREFIX)\<rparr>"

datatype wire_destination = ActiveMQQueue ActiveMQDestination | ActiveMQTopic ActiveMQDestination
  | ActiveMQTempQueue ActiveMQDestination | ActiveMQTempTopic ActiveMQDestination

record LocalTransactionId =
  LocalTransactionId_value :: "64 word"
  LocalTransactionId_connectionId :: "ConnectionId option"

record XATransactionId =
  XATransactionId_formatId :: "32 word"
  XATransactionId_globalTransactionId :: bytes
  XATransactionId_branchQualifier :: bytes

datatype TransactionId = Local LocalTransactionId | XA XATransactionId

record BaseCommand =
  BaseCommand_commandId :: "32 word"
  BaseCommand_responseRequired :: bool

text \<open>
  Commands. No class implements \<open>BooleanExpression\<close>, so that the pointer
  \<open>additionalPredicate\<close> of a \<open>ConsumerInfo\<close> is null.
\<close>

record Response = BaseCommand +
  Response_correlationId :: "32 word"

record ConnectionInfo = BaseCommand +
  ConnectionInfo_connectionId :: "ConnectionId option"
  ConnectionInfo_clientId :: bytes
  ConnectionInfo_password :: bytes
  ConnectionInfo_userName :: bytes
  ConnectionInfo_brokerPath :: "BrokerId option list"
  ConnectionInfo_brokerMasterConnector :: bool
  ConnectionInfo_manageable :: bool
  ConnectionInfo_clientMaster :: bool
  ConnectionInfo_faultTolerant :: bool
  ConnectionInfo_failoverReconnect :: bool
  ConnectionInfo_clientIp :: bytes

record SessionInfo = BaseCommand +
  SessionInfo_sessionId :: "SessionId option"

record ConsumerInfo = BaseCommand +
  ConsumerInfo_consumerId :: "ConsumerId option"
  ConsumerInfo_browser :: bool
  ConsumerInfo_destination :: "wire_destination option"
  ConsumerInfo_prefetchSize :: "32 word"
  ConsumerInfo_maximumPendingMessageLimit :: "32 word"
  ConsumerInfo_dispatchAsync :: bool
  ConsumerInfo_selector :: bytes
  ConsumerInfo_clientId :: bytes
  ConsumerInfo_subscriptionName :: bytes
  ConsumerInfo_noLocal :: bool
  ConsumerInfo_exclusive :: bool
  ConsumerInfo_retroactive :: bool
  ConsumerInfo_priority :: byte
  ConsumerInfo_brokerPath :: "BrokerId option list"
  ConsumerInfo_networkSubscription :: bool
  ConsumerInfo_optimizedAcknowledge :: bool
  ConsumerInfo_noRangeAcks :: bool
  ConsumerInfo_networkConsumerPath :: "ConsumerId option list"

record ProducerInfo = BaseCommand +
  ProducerInfo_producerId :: "ProducerId option"
  ProducerInfo_destination :: "wire_destination option"
  ProducerInfo_brokerPath :: "BrokerId option list"
  ProducerInfo_dispatchAsync :: bool
  ProducerInfo_windowSize :: "32 word"

record DestinationInfo = BaseCommand +
  DestinationInfo_connectionId :: "ConnectionId option"
  DestinationInfo_destination :: "wire_destination option"
  DestinationInfo_operationType :: byte
  DestinationInfo_timeout :: "64 word"
  DestinationInfo_brokerPath :: "BrokerId option list"

record RemoveInfo = BaseCommand +
  RemoveInfo_lastDeliveredSequenceId :: "64 word"

record RemoveSubscriptionInfo = BaseCommand +
  RemoveSubscriptionInfo_connectionId :: "ConnectionId option"
  RemoveSubscriptionInfo_subcriptionName :: bytes
  RemoveSubscriptionInfo_clientId :: bytes

record TransactionInfo = BaseCommand +
  TransactionInfo_connectionId :: "ConnectionId option"
  TransactionInfo_transactionId :: "TransactionId option"
  TransactionInfo_type :: byte

record MessageAck = BaseCommand +
  MessageAck_destination :: "wire_destination option"
  MessageAck_transactionId :: "TransactionId option"
  MessageAck_consumerId :: "ConsumerId option"
  MessageAck_ackType :: byte
  MessageAck_firstMessageId :: "MessageId option"
  MessageAck_lastMessageId :: "MessageId option"
  MessageAck_messageCount :: "32 word"
  MessageAck_poisonCause :: "broker_error option"

record MessagePull = BaseCommand +
  MessagePull_consumerId :: "ConsumerId option"
  MessagePull_destination :: "wire_destination option"
  MessagePull_timeout :: "64 word"
  MessagePull_correlationId :: bytes
  MessagePull_messageId :: "MessageId option"

type_synonym KeepAliveInfo = BaseCommand

type_synonym ShutdownInfo = BaseCommand

record ExceptionResponse = Response +
  ExceptionResponse_exception :: "broker_error option"

record IntegerResponse = Response +
  IntegerResponse_result :: "32 word"

type_synonym DataResponse = Response

record ProducerAck = BaseCommand +
  ProducerAck_producerId :: "ProducerId option"
  ProducerAck_size :: "32 word"

record ConnectionError = BaseCommand +
  ConnectionError_exception :: "broker_error option"
  ConnectionError_connectionId :: "ConnectionId option"

record ConsumerControl = BaseCommand +
  ConsumerControl_destination :: "wire_destination option"
  ConsumerControl_close :: bool
  ConsumerControl_consumerId :: "ConsumerId option"
  ConsumerControl_prefetch :: "32 word"
  ConsumerControl_flush :: bool
  ConsumerControl_start :: bool
  ConsumerControl_stop :: bool

record ConnectionControl = BaseCommand +
  ConnectionControl_close :: bool
  ConnectionControl_exit :: bool
  ConnectionControl_faultTolerant :: bool
  ConnectionControl_resume :: bool
  ConnectionControl_suspend :: bool
  ConnectionControl_connectedBrokers :: bytes
  ConnectionControl_reconnectTo :: bytes
  ConnectionControl_rebalanceConnection :: bool
  ConnectionControl_token :: bytes

record ControlCommand = BaseCommand +
  ControlCommand_command :: bytes

record MessageDispatchNotification = BaseCommand +
  MessageDispatchNotification_consumerId :: "ConsumerId option"
  MessageDispatchNotification_destination :: "wire_destination option"
  MessageDispatchNotification_deliverySequenceId :: "64 word"
  MessageDispatchNotification_messageId :: "MessageId option"

record SubscriptionInfo =
  SubscriptionInfo_clientId :: bytes
  SubscriptionInfo_destination :: "wire_destination option"
  SubscriptionInfo_selector :: bytes
  SubscriptionInfo_subcriptionName :: bytes
  SubscriptionInfo_subscribedDestination :: "wire_destination option"
  SubscriptionInfo_noLocal :: bool

type_synonym FlushCommand = BaseCommand

record ReplayCommand = BaseCommand +
  ReplayCommand_firstNakNumber :: "32 word"
  ReplayCommand_lastNakNumber :: "32 word"

record PartialCommand =
  PartialCommand_commandId :: "32 word"
  PartialCommand_data :: bytes

type_synonym LastPartialCommand = PartialCommand

record DiscoveryEvent =
  DiscoveryEvent_serviceName :: bytes
  DiscoveryEvent_brokerName :: bytes

record NetworkBridgeFilter =
  NetworkBridgeFilter_networkBrokerId :: "BrokerId option"
  NetworkBridgeFilter_messageTTL :: "32 word"
  NetworkBridgeFilter_consumerTTL :: "32 word"

record JournalQueueAck =
  JournalQueueAck_destination :: "wire_destination option"
  JournalQueueAck_messageAck :: "MessageAck option"

record JournalTopicAck =
  JournalTopicAck_destination :: "wire_destination option"
  JournalTopicAck_messageId :: "MessageId option"
  JournalTopicAck_messageSequenceId :: "64 word"
  JournalTopicAck_subscritionName :: bytes
  JournalTopicAck_clientId :: bytes
  JournalTopicAck_transactionId :: "TransactionId option"

record JournalTrace =
  JournalTrace_message :: bytes

record JournalTransaction =
  JournalTransaction_transactionId :: "TransactionId option"
  JournalTransaction_type :: byte
  JournalTransaction_wasPrepared :: bool

record MessageDispatch = BaseCommand +
  MessageDispatch_consumerId :: "ConsumerId option"
  MessageDispatch_destination :: "wire_destination option"
  MessageDispatch_redeliveryCounter :: "32 word"

record BrokerInfo = BaseCommand +
  BrokerInfo_brokerId :: "BrokerId option"
  BrokerInfo_brokerURL :: bytes
  BrokerInfo_brokerName :: bytes
  BrokerInfo_slaveBroker :: bool
  BrokerInfo_masterBroker :: bool
  BrokerInfo_faultTolerantConfiguration :: bool
  BrokerInfo_duplexConnection :: bool
  BrokerInfo_networkConnection :: bool
  BrokerInfo_connectionId :: "64 word"
  BrokerInfo_brokerUploadUrl :: bytes
  BrokerInfo_networkProperties :: bytes

type_synonym DataArrayResponse = Response

record WireFormatInfo = BaseCommand +
  WireFormatInfo_magic :: bytes
  WireFormatInfo_version :: "32 word"
  WireFormatInfo_marshalledProperties :: bytes
  WireFormatInfo_properties :: primitive_map

text \<open>
  Messages. \<open>Message_properties\<close> are the properties as values and
  \<open>Message_marshalledProperties\<close> as bytes. \<open>Message_connection\<close> is the
  compression of the message's connection: the \<open>Deflater\<close> with the connection's level if
  the message has a connection that uses compression. The text of a text message and the map of a map
  message are null until they are set or read. What the classes keep beside this for reading and
  writing bodies is not part of the records.
\<close>

record Message = BaseCommand +
  Message_producerId :: "ProducerId option"
  Message_destination :: "wire_destination option"
  Message_transactionId :: "TransactionId option"
  Message_originalDestination :: "wire_destination option"
  Message_messageId :: "MessageId option"
  Message_originalTransactionId :: "TransactionId option"
  Message_groupID :: bytes
  Message_groupSequence :: "32 word"
  Message_correlationId :: bytes
  Message_persistent :: bool
  Message_expiration :: "64 word"
  Message_priority :: byte
  Message_replyTo :: "wire_destination option"
  Message_timestamp :: "64 word"
  Message_type :: bytes
  Message_content :: bytes
  Message_marshalledProperties :: bytes
  Message_targetConsumerId :: "ConsumerId option"
  Message_compressed :: bool
  Message_redeliveryCounter :: "32 word"
  Message_brokerPath :: "BrokerId option list"
  Message_arrival :: "64 word"
  Message_userID :: bytes
  Message_recievedByDFBridge :: bool
  Message_droppable :: bool
  Message_cluster :: "BrokerId option list"
  Message_brokerInTime :: "64 word"
  Message_brokerOutTime :: "64 word"
  Message_jMSXGroupFirstForConsumer :: bool
  Message_properties :: primitive_map
  Message_connection :: "(bytes \<Rightarrow> bytes) option"

type_synonym ActiveMQMessage = Message

type_synonym ActiveMQBytesMessage = Message

record ActiveMQMapMessage = Message +
  ActiveMQMapMessage_map :: "primitive_map option"

type_synonym ActiveMQObjectMessage = Message

type_synonym ActiveMQStreamMessage = Message

record ActiveMQTextMessage = Message +
  ActiveMQTextMessage_text :: "bytes option"

record ActiveMQBlobMessage = Message +
  ActiveMQBlobMessage_remoteBlobUrl :: bytes
  ActiveMQBlobMessage_mimeType :: bytes
  ActiveMQBlobMessage_deletedByBroker :: bool

section \<open>Objects behind a pointer\<close>

datatype data_structure =
    DBrokerId BrokerId
  | DConnectionId ConnectionId
  | DSessionId SessionId
  | DConsumerId ConsumerId
  | DProducerId ProducerId
  | DMessageId MessageId
  | DDestination wire_destination
  | DTransactionId TransactionId
  | DConnectionInfo ConnectionInfo
  | DSessionInfo SessionInfo
  | DConsumerInfo ConsumerInfo
  | DProducerInfo ProducerInfo
  | DDestinationInfo DestinationInfo
  | DRemoveInfo RemoveInfo "data_structure option"
  | DRemoveSubscriptionInfo RemoveSubscriptionInfo
  | DTransactionInfo TransactionInfo
  | DMessageAck MessageAck
  | DMessagePull MessagePull
  | DKeepAliveInfo KeepAliveInfo
  | DShutdownInfo ShutdownInfo
  | DResponse Response
  | DExceptionResponse ExceptionResponse
  | DIntegerResponse IntegerResponse
  | DDataResponse DataResponse "data_structure option"
  | DProducerAck ProducerAck
  | DConnectionError ConnectionError
  | DConsumerControl ConsumerControl
  | DConnectionControl ConnectionControl
  | DControlCommand ControlCommand
  | DMessageDispatchNotification MessageDispatchNotification
  | DSubscriptionInfo SubscriptionInfo
  | DFlushCommand FlushCommand
  | DReplayCommand ReplayCommand
  | DPartialCommand PartialCommand
  | DLastPartialCommand LastPartialCommand
  | DDiscoveryEvent DiscoveryEvent
  | DNetworkBridgeFilter NetworkBridgeFilter
  | DJournalQueueAck JournalQueueAck
  | DJournalTopicAck JournalTopicAck
  | DJournalTrace JournalTrace
  | DJournalTransaction JournalTransaction
  | DMessageDispatch MessageDispatch "data_structure option"
  | DBrokerInfo BrokerInfo "data_structure option list"
  | DDataArrayResponse DataArrayResponse "data_structure option list"
  | DWireFormatInfo WireFormatInfo
  | DActiveMQMessage ActiveMQMessage "data_structure option"
  | DActiveMQBytesMessage ActiveMQBytesMessage "data_structure option"
  | DActiveMQMapMessage ActiveMQMapMessage "data_structure option"
  | DActiveMQObjectMessage ActiveMQObjectMessage "data_structure option"
  | DActiveMQStreamMessage ActiveMQStreamMessage "data_structure option"
  | DActiveMQTextMessage ActiveMQTextMessage "data_structure option"
  | DActiveMQBlobMessage ActiveMQBlobMessage "data_structure option"

text \<open>The type codes (\<open>getDataStructureType\<close>).\<close>

fun getDataStructureType :: "data_structure \<Rightarrow> byte" where
  "getDataStructureType (DBrokerId x) = 124"
| "getDataStructureType (DConnectionId x) = 120"
| "getDataStructureType (DSessionId x) = 121"
| "getDataStructureType (DConsumerId x) = 122"
| "getDataStructureType (DProducerId x) = 123"
| "getDataStructureType (DMessageId x) = 110"
| "getDataStructureType (DDestination (ActiveMQQueue x)) = 100"
| "getDataStructureType (DDestination (ActiveMQTopic x)) = 101"
| "getDataStructureType (DDestination (ActiveMQTempQueue x)) = 102"
| "getDataStructureType (DDestination (ActiveMQTempTopic x)) = 103"
| "getDataStructureType (DTransactionId (Local x)) = 111"
| "getDataStructureType (DTransactionId (XA x)) = 112"
| "getDataStructureType (DConnectionInfo x) = 3"
| "getDataStructureType (DSessionInfo x) = 4"
| "getDataStructureType (DConsumerInfo x) = 5"
| "getDataStructureType (DProducerInfo x) = 6"
| "getDataStructureType (DDestinationInfo x) = 8"
| "getDataStructureType (DRemoveInfo x p) = 12"
| "getDataStructureType (DRemoveSubscriptionInfo x) = 9"
| "getDataStructureType (DTransactionInfo x) = 7"
| "getDataStructureType (DMessageAck x) = 22"
| "getDataStructureType (DMessagePull x) = 20"
| "getDataStructureType (DKeepAliveInfo x) = 10"
| "getDataStructureType (DShutdownInfo x) = 11"
| "getDataStructureType (DResponse x) = 30"
| "getDataStructureType (DExceptionResponse x) = 31"
| "getDataStructureType (DIntegerResponse x) = 34"
| "getDataStructureType (DDataResponse x p) = 32"
| "getDataStructureType (DProducerAck x) = 19"
| "getDataStructureType (DConnectionError x) = 16"
| "getDataStructureType (DConsumerControl x) = 17"
| "getDataStructureType (DConnectionControl x) = 18"
| "getDataStructureType (DControlCommand x) = 14"
| "getDataStructureType (DMessageDispatchNotification x) = 90"
| "getDataStructureType (DSubscriptionInfo x) = 55"
| "getDataStructureType (DFlushCommand x) = 15"
| "getDataStructureType (DReplayCommand x) = 65"
| "getDataStructureType (DPartialCommand x) = 60"
| "getDataStructureType (DLastPartialCommand x) = 61"
| "getDataStructureType (DDiscoveryEvent x) = 40"
| "getDataStructureType (DNetworkBridgeFilter x) = 91"
| "getDataStructureType (DJournalQueueAck x) = 52"
| "getDataStructureType (DJournalTopicAck x) = 50"
| "getDataStructureType (DJournalTrace x) = 53"
| "getDataStructureType (DJournalTransaction x) = 54"
| "getDataStructureType (DMessageDispatch x p) = 21"
| "getDataStructureType (DBrokerInfo x p) = 2"
| "getDataStructureType (DDataArrayResponse x p) = 33"
| "getDataStructureType (DWireFormatInfo x) = 1"
| "getDataStructureType (DActiveMQMessage x p) = 23"
| "getDataStructureType (DActiveMQBytesMessage x p) = 24"
| "getDataStructureType (DActiveMQMapMessage x p) = 25"
| "getDataStructureType (DActiveMQObjectMessage x p) = 26"
| "getDataStructureType (DActiveMQStreamMessage x p) = 27"
| "getDataStructureType (DActiveMQTextMessage x p) = 28"
| "getDataStructureType (DActiveMQBlobMessage x p) = 29"

text \<open>The casts of a pointer to the class that a field has; an object of another class becomes null.\<close>

fun as_ProducerId :: "data_structure option \<Rightarrow> ProducerId option" where
  "as_ProducerId (Some (DProducerId x)) = Some x"
| "as_ProducerId _ = None"

fun as_ConnectionId :: "data_structure option \<Rightarrow> ConnectionId option" where
  "as_ConnectionId (Some (DConnectionId x)) = Some x"
| "as_ConnectionId _ = None"

fun as_BrokerId :: "data_structure option \<Rightarrow> BrokerId option" where
  "as_BrokerId (Some (DBrokerId x)) = Some x"
| "as_BrokerId _ = None"

fun as_SessionId :: "data_structure option \<Rightarrow> SessionId option" where
  "as_SessionId (Some (DSessionId x)) = Some x"
| "as_SessionId _ = None"

fun as_ConsumerId :: "data_structure option \<Rightarrow> ConsumerId option" where
  "as_ConsumerId (Some (DConsumerId x)) = Some x"
| "as_ConsumerId _ = None"

fun as_Destination :: "data_structure option \<Rightarrow> wire_destination option" where
  "as_Destination (Some (DDestination x)) = Some x"
| "as_Destination _ = None"

fun as_TransactionId :: "data_structure option \<Rightarrow> TransactionId option" where
  "as_TransactionId (Some (DTransactionId x)) = Some x"
| "as_TransactionId _ = None"

fun as_MessageId :: "data_structure option \<Rightarrow> MessageId option" where
  "as_MessageId (Some (DMessageId x)) = Some x"
| "as_MessageId _ = None"

fun as_MessageAck :: "data_structure option \<Rightarrow> MessageAck option" where
  "as_MessageAck (Some (DMessageAck x)) = Some x"
| "as_MessageAck _ = None"

fun is_message :: "data_structure \<Rightarrow> bool" where
  "is_message (DActiveMQMessage x p) = True"
| "is_message (DActiveMQBytesMessage x p) = True"
| "is_message (DActiveMQMapMessage x p) = True"
| "is_message (DActiveMQObjectMessage x p) = True"
| "is_message (DActiveMQStreamMessage x p) = True"
| "is_message (DActiveMQTextMessage x p) = True"
| "is_message (DActiveMQBlobMessage x p) = True"
| "is_message _ = False"

definition as_Message :: "data_structure option \<Rightarrow> data_structure option" where
  "as_Message q = (case q of Some d \<Rightarrow> if is_message d then Some d else None | None \<Rightarrow> None)"

fun as_BrokerInfo :: "data_structure option \<Rightarrow> data_structure option" where
  "as_BrokerInfo (Some (DBrokerInfo x p)) = Some (DBrokerInfo x p)"
| "as_BrokerInfo _ = None"

text \<open>The objects that implement \<open>MarshalAware\<close>: messages and the settings of the wire format.\<close>

fun isMarshalAware :: "data_structure \<Rightarrow> bool" where
  "isMarshalAware (DWireFormatInfo x) = True"
| "isMarshalAware d = is_message d"

text \<open>New objects (\<open>createObject\<close>).\<close>

definition BINARY_MIME_TYPE :: bytes where
  "BINARY_MIME_TYPE = bytes_of ''application/octet-stream''"

definition MAGIC :: bytes where
  "MAGIC = bytes_of ''ActiveMQ''"

definition create_BrokerId :: BrokerId where
  "create_BrokerId = \<lparr>BrokerId_value = []\<rparr>"

definition create_ConnectionId :: ConnectionId where
  "create_ConnectionId = \<lparr>ConnectionId_value = []\<rparr>"

definition create_SessionId :: SessionId where
  "create_SessionId = \<lparr>SessionId_connectionId = [], SessionId_value = 0\<rparr>"

definition create_ConsumerId :: ConsumerId where
  "create_ConsumerId = \<lparr>ConsumerId_connectionId = [], ConsumerId_sessionId = 0, ConsumerId_value = 0\<rparr>"

definition create_ProducerId :: ProducerId where
  "create_ProducerId = \<lparr>ProducerId_connectionId = [], ProducerId_value = 0, ProducerId_sessionId = 0\<rparr>"

definition create_MessageId :: MessageId where
  "create_MessageId = \<lparr>MessageId_textView = [], MessageId_producerId = None, MessageId_producerSequenceId = 0,
     MessageId_brokerSequenceId = 0\<rparr>"

definition create_LocalTransactionId :: LocalTransactionId where
  "create_LocalTransactionId = \<lparr>LocalTransactionId_value = 0, LocalTransactionId_connectionId = None\<rparr>"

definition create_XATransactionId :: XATransactionId where
  "create_XATransactionId = \<lparr>XATransactionId_formatId = 0, XATransactionId_globalTransactionId = [],
     XATransactionId_branchQualifier = []\<rparr>"

definition create_ConnectionInfo :: ConnectionInfo where
  "create_ConnectionInfo = \<lparr>BaseCommand_commandId = 0, BaseCommand_responseRequired = False, ConnectionInfo_connectionId =
     None, ConnectionInfo_clientId = [], ConnectionInfo_password = [], ConnectionInfo_userName = [],
     ConnectionInfo_brokerPath = [], ConnectionInfo_brokerMasterConnector = False,
     ConnectionInfo_manageable = False, ConnectionInfo_clientMaster = False,
     ConnectionInfo_faultTolerant = False, ConnectionInfo_failoverReconnect = False,
     ConnectionInfo_clientIp = []\<rparr>"

definition create_SessionInfo :: SessionInfo where
  "create_SessionInfo = \<lparr>BaseCommand_commandId = 0, BaseCommand_responseRequired = False, SessionInfo_sessionId = None\<rparr>"

definition create_ConsumerInfo :: ConsumerInfo where
  "create_ConsumerInfo = \<lparr>BaseCommand_commandId = 0, BaseCommand_responseRequired = False, ConsumerInfo_consumerId =
     None, ConsumerInfo_browser = False, ConsumerInfo_destination = None, ConsumerInfo_prefetchSize
     = 0, ConsumerInfo_maximumPendingMessageLimit = 0, ConsumerInfo_dispatchAsync = False,
     ConsumerInfo_selector = [], ConsumerInfo_clientId = [], ConsumerInfo_subscriptionName = [],
     ConsumerInfo_noLocal = False, ConsumerInfo_exclusive = False, ConsumerInfo_retroactive = False,
     ConsumerInfo_priority = 0, ConsumerInfo_brokerPath = [], ConsumerInfo_networkSubscription =
     False, ConsumerInfo_optimizedAcknowledge = False, ConsumerInfo_noRangeAcks = False,
     ConsumerInfo_networkConsumerPath = []\<rparr>"

definition create_ProducerInfo :: ProducerInfo where
  "create_ProducerInfo = \<lparr>BaseCommand_commandId = 0, BaseCommand_responseRequired = False, ProducerInfo_producerId =
     None, ProducerInfo_destination = None, ProducerInfo_brokerPath = [], ProducerInfo_dispatchAsync
     = False, ProducerInfo_windowSize = 0\<rparr>"

definition create_DestinationInfo :: DestinationInfo where
  "create_DestinationInfo = \<lparr>BaseCommand_commandId = 0, BaseCommand_responseRequired = False, DestinationInfo_connectionId =
     None, DestinationInfo_destination = None, DestinationInfo_operationType = 0,
     DestinationInfo_timeout = 0, DestinationInfo_brokerPath = []\<rparr>"

definition create_RemoveInfo :: RemoveInfo where
  "create_RemoveInfo = \<lparr>BaseCommand_commandId = 0, BaseCommand_responseRequired = False,
     RemoveInfo_lastDeliveredSequenceId = 0\<rparr>"

definition create_RemoveSubscriptionInfo :: RemoveSubscriptionInfo where
  "create_RemoveSubscriptionInfo = \<lparr>BaseCommand_commandId = 0, BaseCommand_responseRequired = False,
     RemoveSubscriptionInfo_connectionId = None, RemoveSubscriptionInfo_subcriptionName = [],
     RemoveSubscriptionInfo_clientId = []\<rparr>"

definition create_TransactionInfo :: TransactionInfo where
  "create_TransactionInfo = \<lparr>BaseCommand_commandId = 0, BaseCommand_responseRequired = False, TransactionInfo_connectionId =
     None, TransactionInfo_transactionId = None, TransactionInfo_type = 0\<rparr>"

definition create_MessageAck :: MessageAck where
  "create_MessageAck = \<lparr>BaseCommand_commandId = 0, BaseCommand_responseRequired = False, MessageAck_destination = None,
     MessageAck_transactionId = None, MessageAck_consumerId = None, MessageAck_ackType = 0,
     MessageAck_firstMessageId = None, MessageAck_lastMessageId = None, MessageAck_messageCount = 0,
     MessageAck_poisonCause = None\<rparr>"

definition create_MessagePull :: MessagePull where
  "create_MessagePull = \<lparr>BaseCommand_commandId = 0, BaseCommand_responseRequired = False, MessagePull_consumerId = None,
     MessagePull_destination = None, MessagePull_timeout = 0, MessagePull_correlationId = [],
     MessagePull_messageId = None\<rparr>"

definition create_Response :: Response where
  "create_Response = \<lparr>BaseCommand_commandId = 0, BaseCommand_responseRequired = False, Response_correlationId = 0\<rparr>"

definition create_ExceptionResponse :: ExceptionResponse where
  "create_ExceptionResponse = \<lparr>BaseCommand_commandId = 0, BaseCommand_responseRequired = False, Response_correlationId = 0,
     ExceptionResponse_exception = None\<rparr>"

definition create_IntegerResponse :: IntegerResponse where
  "create_IntegerResponse = \<lparr>BaseCommand_commandId = 0, BaseCommand_responseRequired = False, Response_correlationId = 0,
     IntegerResponse_result = 0\<rparr>"

definition create_ProducerAck :: ProducerAck where
  "create_ProducerAck = \<lparr>BaseCommand_commandId = 0, BaseCommand_responseRequired = False, ProducerAck_producerId = None,
     ProducerAck_size = 0\<rparr>"

definition create_ConnectionError :: ConnectionError where
  "create_ConnectionError = \<lparr>BaseCommand_commandId = 0, BaseCommand_responseRequired = False, ConnectionError_exception =
     None, ConnectionError_connectionId = None\<rparr>"

definition create_ConsumerControl :: ConsumerControl where
  "create_ConsumerControl = \<lparr>BaseCommand_commandId = 0, BaseCommand_responseRequired = False, ConsumerControl_destination =
     None, ConsumerControl_close = False, ConsumerControl_consumerId = None,
     ConsumerControl_prefetch = 0, ConsumerControl_flush = False, ConsumerControl_start = False,
     ConsumerControl_stop = False\<rparr>"

definition create_ConnectionControl :: ConnectionControl where
  "create_ConnectionControl = \<lparr>BaseCommand_commandId = 0, BaseCommand_responseRequired = False, ConnectionControl_close =
     False, ConnectionControl_exit = False, ConnectionControl_faultTolerant = False,
     ConnectionControl_resume = False, ConnectionControl_suspend = False,
     ConnectionControl_connectedBrokers = [], ConnectionControl_reconnectTo = [],
     ConnectionControl_rebalanceConnection = False, ConnectionControl_token = []\<rparr>"

definition create_ControlCommand :: ControlCommand where
  "create_ControlCommand = \<lparr>BaseCommand_commandId = 0, BaseCommand_responseRequired = False, ControlCommand_command = []\<rparr>"

definition create_MessageDispatchNotification :: MessageDispatchNotification where
  "create_MessageDispatchNotification = \<lparr>BaseCommand_commandId = 0, BaseCommand_responseRequired = False,
     MessageDispatchNotification_consumerId = None, MessageDispatchNotification_destination = None,
     MessageDispatchNotification_deliverySequenceId = 0, MessageDispatchNotification_messageId =
     None\<rparr>"

definition create_SubscriptionInfo :: SubscriptionInfo where
  "create_SubscriptionInfo = \<lparr>SubscriptionInfo_clientId = [], SubscriptionInfo_destination = None, SubscriptionInfo_selector
     = [], SubscriptionInfo_subcriptionName = [], SubscriptionInfo_subscribedDestination = None,
     SubscriptionInfo_noLocal = False\<rparr>"

definition create_ReplayCommand :: ReplayCommand where
  "create_ReplayCommand = \<lparr>BaseCommand_commandId = 0, BaseCommand_responseRequired = False, ReplayCommand_firstNakNumber =
     0, ReplayCommand_lastNakNumber = 0\<rparr>"

definition create_PartialCommand :: PartialCommand where
  "create_PartialCommand = \<lparr>PartialCommand_commandId = 0, PartialCommand_data = []\<rparr>"

definition create_DiscoveryEvent :: DiscoveryEvent where
  "create_DiscoveryEvent = \<lparr>DiscoveryEvent_serviceName = [], DiscoveryEvent_brokerName = []\<rparr>"

definition create_NetworkBridgeFilter :: NetworkBridgeFilter where
  "create_NetworkBridgeFilter = \<lparr>NetworkBridgeFilter_networkBrokerId = None, NetworkBridgeFilter_messageTTL = 0,
     NetworkBridgeFilter_consumerTTL = 0\<rparr>"

definition create_JournalQueueAck :: JournalQueueAck where
  "create_JournalQueueAck = \<lparr>JournalQueueAck_destination = None, JournalQueueAck_messageAck = None\<rparr>"

definition create_JournalTopicAck :: JournalTopicAck where
  "create_JournalTopicAck = \<lparr>JournalTopicAck_destination = None, JournalTopicAck_messageId = None,
     JournalTopicAck_messageSequenceId = 0, JournalTopicAck_subscritionName = [],
     JournalTopicAck_clientId = [], JournalTopicAck_transactionId = None\<rparr>"

definition create_JournalTrace :: JournalTrace where
  "create_JournalTrace = \<lparr>JournalTrace_message = []\<rparr>"

definition create_JournalTransaction :: JournalTransaction where
  "create_JournalTransaction = \<lparr>JournalTransaction_transactionId = None, JournalTransaction_type = 0,
     JournalTransaction_wasPrepared = False\<rparr>"

definition create_MessageDispatch :: MessageDispatch where
  "create_MessageDispatch = \<lparr>BaseCommand_commandId = 0, BaseCommand_responseRequired = False, MessageDispatch_consumerId =
     None, MessageDispatch_destination = None, MessageDispatch_redeliveryCounter = 0\<rparr>"

definition create_BrokerInfo :: BrokerInfo where
  "create_BrokerInfo = \<lparr>BaseCommand_commandId = 0, BaseCommand_responseRequired = False, BrokerInfo_brokerId = None,
     BrokerInfo_brokerURL = [], BrokerInfo_brokerName = [], BrokerInfo_slaveBroker = False,
     BrokerInfo_masterBroker = False, BrokerInfo_faultTolerantConfiguration = False,
     BrokerInfo_duplexConnection = False, BrokerInfo_networkConnection = False,
     BrokerInfo_connectionId = 0, BrokerInfo_brokerUploadUrl = [], BrokerInfo_networkProperties = []\<rparr>"

definition create_WireFormatInfo :: WireFormatInfo where
  "create_WireFormatInfo = \<lparr>BaseCommand_commandId = 0, BaseCommand_responseRequired = False, WireFormatInfo_magic = MAGIC,
     WireFormatInfo_version = 5, WireFormatInfo_marshalledProperties = [], WireFormatInfo_properties
     = []\<rparr>"

definition create_ActiveMQMapMessage :: ActiveMQMapMessage where
  "create_ActiveMQMapMessage = \<lparr>BaseCommand_commandId = 0, BaseCommand_responseRequired = False, Message_producerId = None,
     Message_destination = None, Message_transactionId = None, Message_originalDestination = None,
     Message_messageId = None, Message_originalTransactionId = None, Message_groupID = [],
     Message_groupSequence = 0, Message_correlationId = [], Message_persistent = False,
     Message_expiration = 0, Message_priority = 0, Message_replyTo = None, Message_timestamp = 0,
     Message_type = [], Message_content = [], Message_marshalledProperties = [],
     Message_targetConsumerId = None, Message_compressed = False, Message_redeliveryCounter = 0,
     Message_brokerPath = [], Message_arrival = 0, Message_userID = [], Message_recievedByDFBridge =
     False, Message_droppable = False, Message_cluster = [], Message_brokerInTime = 0,
     Message_brokerOutTime = 0, Message_jMSXGroupFirstForConsumer = False, Message_properties = [],
     Message_connection = None, ActiveMQMapMessage_map = None\<rparr>"

definition create_ActiveMQTextMessage :: ActiveMQTextMessage where
  "create_ActiveMQTextMessage = \<lparr>BaseCommand_commandId = 0, BaseCommand_responseRequired = False, Message_producerId = None,
     Message_destination = None, Message_transactionId = None, Message_originalDestination = None,
     Message_messageId = None, Message_originalTransactionId = None, Message_groupID = [],
     Message_groupSequence = 0, Message_correlationId = [], Message_persistent = False,
     Message_expiration = 0, Message_priority = 0, Message_replyTo = None, Message_timestamp = 0,
     Message_type = [], Message_content = [], Message_marshalledProperties = [],
     Message_targetConsumerId = None, Message_compressed = False, Message_redeliveryCounter = 0,
     Message_brokerPath = [], Message_arrival = 0, Message_userID = [], Message_recievedByDFBridge =
     False, Message_droppable = False, Message_cluster = [], Message_brokerInTime = 0,
     Message_brokerOutTime = 0, Message_jMSXGroupFirstForConsumer = False, Message_properties = [],
     Message_connection = None, ActiveMQTextMessage_text = None\<rparr>"

definition create_ActiveMQBlobMessage :: ActiveMQBlobMessage where
  "create_ActiveMQBlobMessage = \<lparr>BaseCommand_commandId = 0, BaseCommand_responseRequired = False, Message_producerId = None,
     Message_destination = None, Message_transactionId = None, Message_originalDestination = None,
     Message_messageId = None, Message_originalTransactionId = None, Message_groupID = [],
     Message_groupSequence = 0, Message_correlationId = [], Message_persistent = False,
     Message_expiration = 0, Message_priority = 0, Message_replyTo = None, Message_timestamp = 0,
     Message_type = [], Message_content = [], Message_marshalledProperties = [],
     Message_targetConsumerId = None, Message_compressed = False, Message_redeliveryCounter = 0,
     Message_brokerPath = [], Message_arrival = 0, Message_userID = [], Message_recievedByDFBridge =
     False, Message_droppable = False, Message_cluster = [], Message_brokerInTime = 0,
     Message_brokerOutTime = 0, Message_jMSXGroupFirstForConsumer = False, Message_properties = [],
     Message_connection = None, ActiveMQBlobMessage_remoteBlobUrl = [], ActiveMQBlobMessage_mimeType
     = BINARY_MIME_TYPE, ActiveMQBlobMessage_deletedByBroker = False\<rparr>"

definition create_BaseCommand :: BaseCommand where
  "create_BaseCommand = \<lparr>BaseCommand_commandId = 0, BaseCommand_responseRequired = False\<rparr>"

definition create_Message :: Message where
  "create_Message = \<lparr>BaseCommand_commandId = 0, BaseCommand_responseRequired = False, Message_producerId = None,
     Message_destination = None, Message_transactionId = None, Message_originalDestination = None,
     Message_messageId = None, Message_originalTransactionId = None, Message_groupID = [],
     Message_groupSequence = 0, Message_correlationId = [], Message_persistent = False,
     Message_expiration = 0, Message_priority = 0, Message_replyTo = None, Message_timestamp = 0,
     Message_type = [], Message_content = [], Message_marshalledProperties = [],
     Message_targetConsumerId = None, Message_compressed = False, Message_redeliveryCounter = 0,
     Message_brokerPath = [], Message_arrival = 0, Message_userID = [], Message_recievedByDFBridge =
     False, Message_droppable = False, Message_cluster = [], Message_brokerInTime = 0,
     Message_brokerOutTime = 0, Message_jMSXGroupFirstForConsumer = False, Message_properties = [],
     Message_connection = None\<rparr>"

definition create_ActiveMQDestination :: ActiveMQDestination where
  "create_ActiveMQDestination = \<lparr>ActiveMQDestination_physicalName = [], ActiveMQDestination_advisory = False\<rparr>"

section \<open>Arrays of objects\<close>

definition tightMarshalObjectArray1 :: "('x \<Rightarrow> 32 word io) \<Rightarrow> 'x list \<Rightarrow> 32 word io" where
  "tightMarshalObjectArray1 nest objects =
     (if objects \<noteq> [] then next_io (writeBoolean True) (bind_io (sum_io nest objects) (\<lambda>rc. ret (2 + rc)))
      else next_io (writeBoolean False) (ret 0))"

definition tightMarshalObjectArray2 :: "('x \<Rightarrow> unit io) \<Rightarrow> 'x list \<Rightarrow> unit io" where
  "tightMarshalObjectArray2 nest objects = bind_io readBoolean (\<lambda>present.
     if present then next_io (writeShort (of_nat (length objects))) (each_io nest objects) else ret ())"

definition looseMarshalObjectArray :: "('x \<Rightarrow> unit io) \<Rightarrow> 'x list \<Rightarrow> unit io" where
  "looseMarshalObjectArray nest objects = next_io (out_writeBoolean (objects \<noteq> []))
     (if objects \<noteq> [] then next_io (writeShort (of_nat (length objects))) (each_io nest objects) else ret ())"

text \<open>
  Reading, which each marshaller has inline: the elements are appended to the vector of the object.
  \<open>reserve\<close> throws for a negative size.
\<close>

definition read_objects :: "'d io \<Rightarrow> ('d \<Rightarrow> 'x) \<Rightarrow> 'x list \<Rightarrow> 'x list io" where
  "read_objects nest cast objects = bind_io readShort (\<lambda>size.
     if sint size < 0 then fails IOException
     else bind_io (times_io (nat (sint size)) nest) (\<lambda>ds. ret (objects @ map cast ds)))"

definition tightUnmarshalObjectArray :: "'d io \<Rightarrow> ('d \<Rightarrow> 'x) \<Rightarrow> 'x list \<Rightarrow> 'x list io" where
  "tightUnmarshalObjectArray nest cast objects = bind_io readBoolean (\<lambda>present.
     if present then read_objects nest cast objects else ret [])"

definition looseUnmarshalObjectArray :: "'d io \<Rightarrow> ('d \<Rightarrow> 'x) \<Rightarrow> 'x list \<Rightarrow> 'x list io" where
  "looseUnmarshalObjectArray nest cast objects = bind_io in_readBoolean (\<lambda>present.
     if present then read_objects nest cast objects else ret [])"

text \<open>The second phase of the tight encoding skips a boolean that has no bytes.\<close>

abbreviation skip_boolean :: "unit io" where
  "skip_boolean \<equiv> bind_io readBoolean (\<lambda>_. ret ())"


end
