(* ===== verification/Marshallers.thy ===== *)
theory Marshallers
  imports WireCommands
begin

text \<open>
  The methods of the marshallers of the modelled classes, in the files of
  \<open>activemq/wireformat/openwire/marshal/generated\<close>: the two phases of the tight encoding,
  the loose encoding, and reading either.
\<close>

section \<open>Identities\<close>

definition BrokerId_tightMarshal1 ::
  "wire_format \<Rightarrow> (data_structure option \<Rightarrow> 32 word io) \<Rightarrow> BrokerId \<Rightarrow> 32 word io" where
  "BrokerId_tightMarshal1 w nest x =
    bind_io (tightMarshalString1 (BrokerId_value x)) (\<lambda>n1.
    ret (n1 + 0))"

definition BrokerId_tightMarshal2 ::
  "wire_format \<Rightarrow> (data_structure option \<Rightarrow> unit io) \<Rightarrow> BrokerId \<Rightarrow> unit io" where
  "BrokerId_tightMarshal2 w nest x =
    tightMarshalString2 (BrokerId_value x)"

definition BrokerId_tightUnmarshal ::
  "wire_format \<Rightarrow> (data_structure option io) \<Rightarrow> BrokerId \<Rightarrow> BrokerId io" where
  "BrokerId_tightUnmarshal w nest x =
    bind_io tightUnmarshalString (\<lambda>v1.
    ret (x\<lparr>BrokerId_value := v1\<rparr>))"

definition BrokerId_looseMarshal ::
  "wire_format \<Rightarrow> (data_structure option \<Rightarrow> unit io) \<Rightarrow> BrokerId \<Rightarrow> unit io" where
  "BrokerId_looseMarshal w nest x =
    looseMarshalString (BrokerId_value x)"

definition BrokerId_looseUnmarshal ::
  "wire_format \<Rightarrow> (data_structure option io) \<Rightarrow> BrokerId \<Rightarrow> BrokerId io" where
  "BrokerId_looseUnmarshal w nest x =
    bind_io looseUnmarshalString (\<lambda>v1.
    ret (x\<lparr>BrokerId_value := v1\<rparr>))"

definition ConnectionId_tightMarshal1 ::
  "wire_format \<Rightarrow> (data_structure option \<Rightarrow> 32 word io) \<Rightarrow> ConnectionId \<Rightarrow> 32 word io" where
  "ConnectionId_tightMarshal1 w nest x =
    bind_io (tightMarshalString1 (ConnectionId_value x)) (\<lambda>n1.
    ret (n1 + 0))"

definition ConnectionId_tightMarshal2 ::
  "wire_format \<Rightarrow> (data_structure option \<Rightarrow> unit io) \<Rightarrow> ConnectionId \<Rightarrow> unit io" where
  "ConnectionId_tightMarshal2 w nest x =
    tightMarshalString2 (ConnectionId_value x)"

definition ConnectionId_tightUnmarshal ::
  "wire_format \<Rightarrow> (data_structure option io) \<Rightarrow> ConnectionId \<Rightarrow> ConnectionId io" where
  "ConnectionId_tightUnmarshal w nest x =
    bind_io tightUnmarshalString (\<lambda>v1.
    ret (x\<lparr>ConnectionId_value := v1\<rparr>))"

definition ConnectionId_looseMarshal ::
  "wire_format \<Rightarrow> (data_structure option \<Rightarrow> unit io) \<Rightarrow> ConnectionId \<Rightarrow> unit io" where
  "ConnectionId_looseMarshal w nest x =
    looseMarshalString (ConnectionId_value x)"

definition ConnectionId_looseUnmarshal ::
  "wire_format \<Rightarrow> (data_structure option io) \<Rightarrow> ConnectionId \<Rightarrow> ConnectionId io" where
  "ConnectionId_looseUnmarshal w nest x =
    bind_io looseUnmarshalString (\<lambda>v1.
    ret (x\<lparr>ConnectionId_value := v1\<rparr>))"

definition SessionId_tightMarshal1 ::
  "wire_format \<Rightarrow> (data_structure option \<Rightarrow> 32 word io) \<Rightarrow> SessionId \<Rightarrow> 32 word io" where
  "SessionId_tightMarshal1 w nest x =
    bind_io (tightMarshalString1 (SessionId_connectionId x)) (\<lambda>n1.
    bind_io (tightMarshalLong1 (SessionId_value x)) (\<lambda>n2.
    ret (n1 + n2 + 0)))"

definition SessionId_tightMarshal2 ::
  "wire_format \<Rightarrow> (data_structure option \<Rightarrow> unit io) \<Rightarrow> SessionId \<Rightarrow> unit io" where
  "SessionId_tightMarshal2 w nest x =
    next_io (tightMarshalString2 (SessionId_connectionId x)) (
    tightMarshalLong2 (SessionId_value x))"

definition SessionId_tightUnmarshal ::
  "wire_format \<Rightarrow> (data_structure option io) \<Rightarrow> SessionId \<Rightarrow> SessionId io" where
  "SessionId_tightUnmarshal w nest x =
    bind_io tightUnmarshalString (\<lambda>v1.
    bind_io tightUnmarshalLong (\<lambda>v2.
    ret (x\<lparr>SessionId_connectionId := v1, SessionId_value := v2\<rparr>)))"

definition SessionId_looseMarshal ::
  "wire_format \<Rightarrow> (data_structure option \<Rightarrow> unit io) \<Rightarrow> SessionId \<Rightarrow> unit io" where
  "SessionId_looseMarshal w nest x =
    next_io (looseMarshalString (SessionId_connectionId x)) (
    looseMarshalLong (SessionId_value x))"

definition SessionId_looseUnmarshal ::
  "wire_format \<Rightarrow> (data_structure option io) \<Rightarrow> SessionId \<Rightarrow> SessionId io" where
  "SessionId_looseUnmarshal w nest x =
    bind_io looseUnmarshalString (\<lambda>v1.
    bind_io looseUnmarshalLong (\<lambda>v2.
    ret (x\<lparr>SessionId_connectionId := v1, SessionId_value := v2\<rparr>)))"

definition ConsumerId_tightMarshal1 ::
  "wire_format \<Rightarrow> (data_structure option \<Rightarrow> 32 word io) \<Rightarrow> ConsumerId \<Rightarrow> 32 word io" where
  "ConsumerId_tightMarshal1 w nest x =
    bind_io (tightMarshalString1 (ConsumerId_connectionId x)) (\<lambda>n1.
    bind_io (tightMarshalLong1 (ConsumerId_sessionId x)) (\<lambda>n2.
    bind_io (tightMarshalLong1 (ConsumerId_value x)) (\<lambda>n3.
    ret (n1 + n2 + n3 + 0))))"

definition ConsumerId_tightMarshal2 ::
  "wire_format \<Rightarrow> (data_structure option \<Rightarrow> unit io) \<Rightarrow> ConsumerId \<Rightarrow> unit io" where
  "ConsumerId_tightMarshal2 w nest x =
    next_io (tightMarshalString2 (ConsumerId_connectionId x)) (
    next_io (tightMarshalLong2 (ConsumerId_sessionId x)) (
    tightMarshalLong2 (ConsumerId_value x)))"

definition ConsumerId_tightUnmarshal ::
  "wire_format \<Rightarrow> (data_structure option io) \<Rightarrow> ConsumerId \<Rightarrow> ConsumerId io" where
  "ConsumerId_tightUnmarshal w nest x =
    bind_io tightUnmarshalString (\<lambda>v1.
    bind_io tightUnmarshalLong (\<lambda>v2.
    bind_io tightUnmarshalLong (\<lambda>v3.
    ret (x\<lparr>ConsumerId_connectionId := v1, ConsumerId_sessionId := v2, ConsumerId_value :=
      v3\<rparr>))))"

definition ConsumerId_looseMarshal ::
  "wire_format \<Rightarrow> (data_structure option \<Rightarrow> unit io) \<Rightarrow> ConsumerId \<Rightarrow> unit io" where
  "ConsumerId_looseMarshal w nest x =
    next_io (looseMarshalString (ConsumerId_connectionId x)) (
    next_io (looseMarshalLong (ConsumerId_sessionId x)) (
    looseMarshalLong (ConsumerId_value x)))"

definition ConsumerId_looseUnmarshal ::
  "wire_format \<Rightarrow> (data_structure option io) \<Rightarrow> ConsumerId \<Rightarrow> ConsumerId io" where
  "ConsumerId_looseUnmarshal w nest x =
    bind_io looseUnmarshalString (\<lambda>v1.
    bind_io looseUnmarshalLong (\<lambda>v2.
    bind_io looseUnmarshalLong (\<lambda>v3.
    ret (x\<lparr>ConsumerId_connectionId := v1, ConsumerId_sessionId := v2, ConsumerId_value :=
      v3\<rparr>))))"

definition ProducerId_tightMarshal1 ::
  "wire_format \<Rightarrow> (data_structure option \<Rightarrow> 32 word io) \<Rightarrow> ProducerId \<Rightarrow> 32 word io" where
  "ProducerId_tightMarshal1 w nest x =
    bind_io (tightMarshalString1 (ProducerId_connectionId x)) (\<lambda>n1.
    bind_io (tightMarshalLong1 (ProducerId_value x)) (\<lambda>n2.
    bind_io (tightMarshalLong1 (ProducerId_sessionId x)) (\<lambda>n3.
    ret (n1 + n2 + n3 + 0))))"

definition ProducerId_tightMarshal2 ::
  "wire_format \<Rightarrow> (data_structure option \<Rightarrow> unit io) \<Rightarrow> ProducerId \<Rightarrow> unit io" where
  "ProducerId_tightMarshal2 w nest x =
    next_io (tightMarshalString2 (ProducerId_connectionId x)) (
    next_io (tightMarshalLong2 (ProducerId_value x)) (
    tightMarshalLong2 (ProducerId_sessionId x)))"

definition ProducerId_tightUnmarshal ::
  "wire_format \<Rightarrow> (data_structure option io) \<Rightarrow> ProducerId \<Rightarrow> ProducerId io" where
  "ProducerId_tightUnmarshal w nest x =
    bind_io tightUnmarshalString (\<lambda>v1.
    bind_io tightUnmarshalLong (\<lambda>v2.
    bind_io tightUnmarshalLong (\<lambda>v3.
    ret (x\<lparr>ProducerId_connectionId := v1, ProducerId_value := v2, ProducerId_sessionId :=
      v3\<rparr>))))"

definition ProducerId_looseMarshal ::
  "wire_format \<Rightarrow> (data_structure option \<Rightarrow> unit io) \<Rightarrow> ProducerId \<Rightarrow> unit io" where
  "ProducerId_looseMarshal w nest x =
    next_io (looseMarshalString (ProducerId_connectionId x)) (
    next_io (looseMarshalLong (ProducerId_value x)) (
    looseMarshalLong (ProducerId_sessionId x)))"

definition ProducerId_looseUnmarshal ::
  "wire_format \<Rightarrow> (data_structure option io) \<Rightarrow> ProducerId \<Rightarrow> ProducerId io" where
  "ProducerId_looseUnmarshal w nest x =
    bind_io looseUnmarshalString (\<lambda>v1.
    bind_io looseUnmarshalLong (\<lambda>v2.
    bind_io looseUnmarshalLong (\<lambda>v3.
    ret (x\<lparr>ProducerId_connectionId := v1, ProducerId_value := v2, ProducerId_sessionId :=
      v3\<rparr>))))"

definition MessageId_tightMarshal1 ::
  "wire_format \<Rightarrow> (data_structure option \<Rightarrow> 32 word io) \<Rightarrow> MessageId \<Rightarrow> 32 word io" where
  "MessageId_tightMarshal1 w nest x =
    bind_io (if version w \<ge> 10 then tightMarshalString1 (MessageId_textView x) else ret 0) (\<lambda>n1.
    bind_io (nest (map_option DProducerId (MessageId_producerId x))) (\<lambda>n2.
    bind_io (tightMarshalLong1 (MessageId_producerSequenceId x)) (\<lambda>n3.
    bind_io (tightMarshalLong1 (MessageId_brokerSequenceId x)) (\<lambda>n4.
    ret (n1 + n2 + n3 + n4 + 0)))))"

definition MessageId_tightMarshal2 ::
  "wire_format \<Rightarrow> (data_structure option \<Rightarrow> unit io) \<Rightarrow> MessageId \<Rightarrow> unit io" where
  "MessageId_tightMarshal2 w nest x =
    next_io (if version w \<ge> 10 then tightMarshalString2 (MessageId_textView x) else ret ()) (
    next_io (nest (map_option DProducerId (MessageId_producerId x))) (
    next_io (tightMarshalLong2 (MessageId_producerSequenceId x)) (
    tightMarshalLong2 (MessageId_brokerSequenceId x))))"

definition MessageId_tightUnmarshal ::
  "wire_format \<Rightarrow> (data_structure option io) \<Rightarrow> MessageId \<Rightarrow> MessageId io" where
  "MessageId_tightUnmarshal w nest x =
    bind_io (if version w \<ge> 10 then tightUnmarshalString else ret (MessageId_textView x)) (\<lambda>v1.
    bind_io nest (\<lambda>v2.
    bind_io tightUnmarshalLong (\<lambda>v3.
    bind_io tightUnmarshalLong (\<lambda>v4.
    ret (x\<lparr>MessageId_textView := v1, MessageId_producerId := as_ProducerId v2,
      MessageId_producerSequenceId := v3, MessageId_brokerSequenceId := v4\<rparr>)))))"

definition MessageId_looseMarshal ::
  "wire_format \<Rightarrow> (data_structure option \<Rightarrow> unit io) \<Rightarrow> MessageId \<Rightarrow> unit io" where
  "MessageId_looseMarshal w nest x =
    next_io (if version w \<ge> 10 then looseMarshalString (MessageId_textView x) else ret ()) (
    next_io (nest (map_option DProducerId (MessageId_producerId x))) (
    next_io (looseMarshalLong (MessageId_producerSequenceId x)) (
    looseMarshalLong (MessageId_brokerSequenceId x))))"

definition MessageId_looseUnmarshal ::
  "wire_format \<Rightarrow> (data_structure option io) \<Rightarrow> MessageId \<Rightarrow> MessageId io" where
  "MessageId_looseUnmarshal w nest x =
    bind_io (if version w \<ge> 10 then looseUnmarshalString else ret (MessageId_textView x)) (\<lambda>v1.
    bind_io nest (\<lambda>v2.
    bind_io looseUnmarshalLong (\<lambda>v3.
    bind_io looseUnmarshalLong (\<lambda>v4.
    ret (x\<lparr>MessageId_textView := v1, MessageId_producerId := as_ProducerId v2,
      MessageId_producerSequenceId := v3, MessageId_brokerSequenceId := v4\<rparr>)))))"

section \<open>Destinations and transactions\<close>

text \<open>
  The marshallers of the four kinds of destination call the one of \<open>ActiveMQDestination\<close>.
\<close>

definition ActiveMQDestination_tightMarshal1 :: "ActiveMQDestination \<Rightarrow> 32 word io" where
  "ActiveMQDestination_tightMarshal1 x = tightMarshalString1 (ActiveMQDestination_physicalName x)"

definition ActiveMQDestination_tightMarshal2 :: "ActiveMQDestination \<Rightarrow> unit io" where
  "ActiveMQDestination_tightMarshal2 x = tightMarshalString2 (ActiveMQDestination_physicalName x)"

definition ActiveMQDestination_tightUnmarshal :: "ActiveMQDestination \<Rightarrow> ActiveMQDestination io" where
  "ActiveMQDestination_tightUnmarshal x = bind_io tightUnmarshalString (\<lambda>name. ret (setPhysicalName name x))"

definition ActiveMQDestination_looseMarshal :: "ActiveMQDestination \<Rightarrow> unit io" where
  "ActiveMQDestination_looseMarshal x = looseMarshalString (ActiveMQDestination_physicalName x)"

definition ActiveMQDestination_looseUnmarshal :: "ActiveMQDestination \<Rightarrow> ActiveMQDestination io" where
  "ActiveMQDestination_looseUnmarshal x = bind_io looseUnmarshalString (\<lambda>name. ret (setPhysicalName name x))"

definition LocalTransactionId_tightMarshal1 ::
  "wire_format \<Rightarrow> (data_structure option \<Rightarrow> 32 word io) \<Rightarrow> LocalTransactionId \<Rightarrow> 32 word io" where
  "LocalTransactionId_tightMarshal1 w nest x =
    bind_io (tightMarshalLong1 (LocalTransactionId_value x)) (\<lambda>n1.
    bind_io (nest (map_option DConnectionId (LocalTransactionId_connectionId x))) (\<lambda>n2.
    ret (n1 + n2 + 0)))"

definition LocalTransactionId_tightMarshal2 ::
  "wire_format \<Rightarrow> (data_structure option \<Rightarrow> unit io) \<Rightarrow> LocalTransactionId \<Rightarrow> unit io" where
  "LocalTransactionId_tightMarshal2 w nest x =
    next_io (tightMarshalLong2 (LocalTransactionId_value x)) (
    nest (map_option DConnectionId (LocalTransactionId_connectionId x)))"

definition LocalTransactionId_tightUnmarshal ::
  "wire_format \<Rightarrow> (data_structure option io) \<Rightarrow> LocalTransactionId \<Rightarrow> LocalTransactionId io" where
  "LocalTransactionId_tightUnmarshal w nest x =
    bind_io tightUnmarshalLong (\<lambda>v1.
    bind_io nest (\<lambda>v2.
    ret (x\<lparr>LocalTransactionId_value := v1, LocalTransactionId_connectionId := as_ConnectionId
      v2\<rparr>)))"

definition LocalTransactionId_looseMarshal ::
  "wire_format \<Rightarrow> (data_structure option \<Rightarrow> unit io) \<Rightarrow> LocalTransactionId \<Rightarrow> unit io" where
  "LocalTransactionId_looseMarshal w nest x =
    next_io (looseMarshalLong (LocalTransactionId_value x)) (
    nest (map_option DConnectionId (LocalTransactionId_connectionId x)))"

definition LocalTransactionId_looseUnmarshal ::
  "wire_format \<Rightarrow> (data_structure option io) \<Rightarrow> LocalTransactionId \<Rightarrow> LocalTransactionId io" where
  "LocalTransactionId_looseUnmarshal w nest x =
    bind_io looseUnmarshalLong (\<lambda>v1.
    bind_io nest (\<lambda>v2.
    ret (x\<lparr>LocalTransactionId_value := v1, LocalTransactionId_connectionId := as_ConnectionId
      v2\<rparr>)))"

definition XATransactionId_tightMarshal1 ::
  "wire_format \<Rightarrow> (data_structure option \<Rightarrow> 32 word io) \<Rightarrow> XATransactionId \<Rightarrow> 32 word io" where
  "XATransactionId_tightMarshal1 w nest x =
    bind_io (tightMarshalByteArray1 (XATransactionId_globalTransactionId x)) (\<lambda>n1.
    bind_io (tightMarshalByteArray1 (XATransactionId_branchQualifier x)) (\<lambda>n2.
    ret (n1 + n2 + 4)))"

definition XATransactionId_tightMarshal2 ::
  "wire_format \<Rightarrow> (data_structure option \<Rightarrow> unit io) \<Rightarrow> XATransactionId \<Rightarrow> unit io" where
  "XATransactionId_tightMarshal2 w nest x =
    next_io (writeInt (XATransactionId_formatId x)) (
    next_io (tightMarshalByteArray2 (XATransactionId_globalTransactionId x)) (
    tightMarshalByteArray2 (XATransactionId_branchQualifier x)))"

definition XATransactionId_tightUnmarshal ::
  "wire_format \<Rightarrow> (data_structure option io) \<Rightarrow> XATransactionId \<Rightarrow> XATransactionId io" where
  "XATransactionId_tightUnmarshal w nest x =
    bind_io readInt (\<lambda>v1.
    bind_io tightUnmarshalByteArray (\<lambda>v2.
    bind_io tightUnmarshalByteArray (\<lambda>v3.
    ret (x\<lparr>XATransactionId_formatId := v1, XATransactionId_globalTransactionId := v2,
      XATransactionId_branchQualifier := v3\<rparr>))))"

definition XATransactionId_looseMarshal ::
  "wire_format \<Rightarrow> (data_structure option \<Rightarrow> unit io) \<Rightarrow> XATransactionId \<Rightarrow> unit io" where
  "XATransactionId_looseMarshal w nest x =
    next_io (writeInt (XATransactionId_formatId x)) (
    next_io (looseMarshalByteArray (XATransactionId_globalTransactionId x)) (
    looseMarshalByteArray (XATransactionId_branchQualifier x)))"

definition XATransactionId_looseUnmarshal ::
  "wire_format \<Rightarrow> (data_structure option io) \<Rightarrow> XATransactionId \<Rightarrow> XATransactionId io" where
  "XATransactionId_looseUnmarshal w nest x =
    bind_io readInt (\<lambda>v1.
    bind_io looseUnmarshalByteArray (\<lambda>v2.
    bind_io looseUnmarshalByteArray (\<lambda>v3.
    ret (x\<lparr>XATransactionId_formatId := v1, XATransactionId_globalTransactionId := v2,
      XATransactionId_branchQualifier := v3\<rparr>))))"

section \<open>Commands\<close>

definition BaseCommand_tightMarshal1 ::
  "wire_format \<Rightarrow> (data_structure option \<Rightarrow> 32 word io) \<Rightarrow> 'a BaseCommand_scheme \<Rightarrow> 32 word io" where
  "BaseCommand_tightMarshal1 w nest x =
    next_io (writeBoolean (BaseCommand_responseRequired x)) (
    ret (4))"

definition BaseCommand_tightMarshal2 ::
  "wire_format \<Rightarrow> (data_structure option \<Rightarrow> unit io) \<Rightarrow> 'a BaseCommand_scheme \<Rightarrow> unit io" where
  "BaseCommand_tightMarshal2 w nest x =
    next_io (writeInt (BaseCommand_commandId x)) (
    skip_boolean)"

definition BaseCommand_tightUnmarshal ::
  "wire_format \<Rightarrow> (data_structure option io) \<Rightarrow> 'a BaseCommand_scheme \<Rightarrow> 'a BaseCommand_scheme io" where
  "BaseCommand_tightUnmarshal w nest x =
    bind_io readInt (\<lambda>v1.
    bind_io readBoolean (\<lambda>v2.
    ret (x\<lparr>BaseCommand_commandId := v1, BaseCommand_responseRequired := v2\<rparr>)))"

definition BaseCommand_looseMarshal ::
  "wire_format \<Rightarrow> (data_structure option \<Rightarrow> unit io) \<Rightarrow> 'a BaseCommand_scheme \<Rightarrow> unit io" where
  "BaseCommand_looseMarshal w nest x =
    next_io (writeInt (BaseCommand_commandId x)) (
    out_writeBoolean (BaseCommand_responseRequired x))"

definition BaseCommand_looseUnmarshal ::
  "wire_format \<Rightarrow> (data_structure option io) \<Rightarrow> 'a BaseCommand_scheme \<Rightarrow> 'a BaseCommand_scheme io" where
  "BaseCommand_looseUnmarshal w nest x =
    bind_io readInt (\<lambda>v1.
    bind_io in_readBoolean (\<lambda>v2.
    ret (x\<lparr>BaseCommand_commandId := v1, BaseCommand_responseRequired := v2\<rparr>)))"

definition Response_tightMarshal1 ::
  "wire_format \<Rightarrow> (data_structure option \<Rightarrow> 32 word io) \<Rightarrow> 'a Response_scheme \<Rightarrow> 32 word io" where
  "Response_tightMarshal1 w nest x =
    bind_io (BaseCommand_tightMarshal1 w nest x) (\<lambda>rc.
    ret (rc + 4))"

definition Response_tightMarshal2 ::
  "wire_format \<Rightarrow> (data_structure option \<Rightarrow> unit io) \<Rightarrow> 'a Response_scheme \<Rightarrow> unit io" where
  "Response_tightMarshal2 w nest x =
    next_io (BaseCommand_tightMarshal2 w nest x) (
    writeInt (Response_correlationId x))"

definition Response_tightUnmarshal ::
  "wire_format \<Rightarrow> (data_structure option io) \<Rightarrow> 'a Response_scheme \<Rightarrow> 'a Response_scheme io" where
  "Response_tightUnmarshal w nest x =
    bind_io (BaseCommand_tightUnmarshal w nest x) (\<lambda>x.
    bind_io readInt (\<lambda>v1.
    ret (x\<lparr>Response_correlationId := v1\<rparr>)))"

definition Response_looseMarshal ::
  "wire_format \<Rightarrow> (data_structure option \<Rightarrow> unit io) \<Rightarrow> 'a Response_scheme \<Rightarrow> unit io" where
  "Response_looseMarshal w nest x =
    next_io (BaseCommand_looseMarshal w nest x) (
    writeInt (Response_correlationId x))"

definition Response_looseUnmarshal ::
  "wire_format \<Rightarrow> (data_structure option io) \<Rightarrow> 'a Response_scheme \<Rightarrow> 'a Response_scheme io" where
  "Response_looseUnmarshal w nest x =
    bind_io (BaseCommand_looseUnmarshal w nest x) (\<lambda>x.
    bind_io readInt (\<lambda>v1.
    ret (x\<lparr>Response_correlationId := v1\<rparr>)))"

definition ConnectionInfo_tightMarshal1 ::
  "wire_format \<Rightarrow> (data_structure option \<Rightarrow> 32 word io) \<Rightarrow> ConnectionInfo \<Rightarrow> 32 word io" where
  "ConnectionInfo_tightMarshal1 w nest x =
    bind_io (BaseCommand_tightMarshal1 w nest x) (\<lambda>rc.
    bind_io (nest (map_option DConnectionId (ConnectionInfo_connectionId x))) (\<lambda>n1.
    bind_io (tightMarshalString1 (ConnectionInfo_clientId x)) (\<lambda>n2.
    bind_io (tightMarshalString1 (ConnectionInfo_password x)) (\<lambda>n3.
    bind_io (tightMarshalString1 (ConnectionInfo_userName x)) (\<lambda>n4.
    bind_io (tightMarshalObjectArray1 (\<lambda>q. nest (map_option DBrokerId q)) (ConnectionInfo_brokerPath x)) (\<lambda>n5.
    next_io (writeBoolean (ConnectionInfo_brokerMasterConnector x)) (
    next_io (writeBoolean (ConnectionInfo_manageable x)) (
    next_io (if version w \<ge> 2 then writeBoolean (ConnectionInfo_clientMaster x) else ret ()) (
    next_io (if version w \<ge> 6 then writeBoolean (ConnectionInfo_faultTolerant x) else ret ()) (
    next_io (if version w \<ge> 6 then writeBoolean (ConnectionInfo_failoverReconnect x) else ret ()) (
    bind_io (if version w \<ge> 8 then tightMarshalString1 (ConnectionInfo_clientIp x) else ret 0) (\<lambda>n6.
    ret (rc + n1 + n2 + n3 + n4 + n5 + n6 + 0)))))))))))))"

definition ConnectionInfo_tightMarshal2 ::
  "wire_format \<Rightarrow> (data_structure option \<Rightarrow> unit io) \<Rightarrow> ConnectionInfo \<Rightarrow> unit io" where
  "ConnectionInfo_tightMarshal2 w nest x =
    next_io (BaseCommand_tightMarshal2 w nest x) (
    next_io (nest (map_option DConnectionId (ConnectionInfo_connectionId x))) (
    next_io (tightMarshalString2 (ConnectionInfo_clientId x)) (
    next_io (tightMarshalString2 (ConnectionInfo_password x)) (
    next_io (tightMarshalString2 (ConnectionInfo_userName x)) (
    next_io (tightMarshalObjectArray2 (\<lambda>q. nest (map_option DBrokerId q)) (ConnectionInfo_brokerPath x)) (
    next_io skip_boolean (
    next_io skip_boolean (
    next_io (if version w \<ge> 2 then skip_boolean else ret ()) (
    next_io (if version w \<ge> 6 then skip_boolean else ret ()) (
    next_io (if version w \<ge> 6 then skip_boolean else ret ()) (
    if version w \<ge> 8 then tightMarshalString2 (ConnectionInfo_clientIp x) else ret ())))))))))))"

definition ConnectionInfo_tightUnmarshal ::
  "wire_format \<Rightarrow> (data_structure option io) \<Rightarrow> ConnectionInfo \<Rightarrow> ConnectionInfo io" where
  "ConnectionInfo_tightUnmarshal w nest x =
    bind_io (BaseCommand_tightUnmarshal w nest x) (\<lambda>x.
    bind_io nest (\<lambda>v1.
    bind_io tightUnmarshalString (\<lambda>v2.
    bind_io tightUnmarshalString (\<lambda>v3.
    bind_io tightUnmarshalString (\<lambda>v4.
    bind_io (tightUnmarshalObjectArray nest as_BrokerId (ConnectionInfo_brokerPath x)) (\<lambda>v5.
    bind_io readBoolean (\<lambda>v6.
    bind_io readBoolean (\<lambda>v7.
    bind_io (if version w \<ge> 2 then readBoolean else ret (ConnectionInfo_clientMaster x)) (\<lambda>v8.
    bind_io (if version w \<ge> 6 then readBoolean else ret (ConnectionInfo_faultTolerant x)) (\<lambda>v9.
    bind_io (if version w \<ge> 6 then readBoolean else ret (ConnectionInfo_failoverReconnect x)) (\<lambda>v10.
    bind_io (if version w \<ge> 8 then tightUnmarshalString else ret (ConnectionInfo_clientIp x)) (\<lambda>v11.
    ret (x\<lparr>ConnectionInfo_connectionId := as_ConnectionId v1, ConnectionInfo_clientId := v2,
      ConnectionInfo_password := v3, ConnectionInfo_userName := v4, ConnectionInfo_brokerPath := v5,
      ConnectionInfo_brokerMasterConnector := v6, ConnectionInfo_manageable := v7,
      ConnectionInfo_clientMaster := v8, ConnectionInfo_faultTolerant := v9,
      ConnectionInfo_failoverReconnect := v10, ConnectionInfo_clientIp := v11\<rparr>)))))))))))))"

definition ConnectionInfo_looseMarshal ::
  "wire_format \<Rightarrow> (data_structure option \<Rightarrow> unit io) \<Rightarrow> ConnectionInfo \<Rightarrow> unit io" where
  "ConnectionInfo_looseMarshal w nest x =
    next_io (BaseCommand_looseMarshal w nest x) (
    next_io (nest (map_option DConnectionId (ConnectionInfo_connectionId x))) (
    next_io (looseMarshalString (ConnectionInfo_clientId x)) (
    next_io (looseMarshalString (ConnectionInfo_password x)) (
    next_io (looseMarshalString (ConnectionInfo_userName x)) (
    next_io (looseMarshalObjectArray (\<lambda>q. nest (map_option DBrokerId q)) (ConnectionInfo_brokerPath x)) (
    next_io (out_writeBoolean (ConnectionInfo_brokerMasterConnector x)) (
    next_io (out_writeBoolean (ConnectionInfo_manageable x)) (
    next_io (if version w \<ge> 2 then out_writeBoolean (ConnectionInfo_clientMaster x) else ret ()) (
    next_io (if version w \<ge> 6 then out_writeBoolean (ConnectionInfo_faultTolerant x) else ret ()) (
    next_io (if version w \<ge> 6 then out_writeBoolean (ConnectionInfo_failoverReconnect x) else ret ()) (
    if version w \<ge> 8 then looseMarshalString (ConnectionInfo_clientIp x) else ret ())))))))))))"

definition ConnectionInfo_looseUnmarshal ::
  "wire_format \<Rightarrow> (data_structure option io) \<Rightarrow> ConnectionInfo \<Rightarrow> ConnectionInfo io" where
  "ConnectionInfo_looseUnmarshal w nest x =
    bind_io (BaseCommand_looseUnmarshal w nest x) (\<lambda>x.
    bind_io nest (\<lambda>v1.
    bind_io looseUnmarshalString (\<lambda>v2.
    bind_io looseUnmarshalString (\<lambda>v3.
    bind_io looseUnmarshalString (\<lambda>v4.
    bind_io (looseUnmarshalObjectArray nest as_BrokerId (ConnectionInfo_brokerPath x)) (\<lambda>v5.
    bind_io in_readBoolean (\<lambda>v6.
    bind_io in_readBoolean (\<lambda>v7.
    bind_io (if version w \<ge> 2 then in_readBoolean else ret (ConnectionInfo_clientMaster x)) (\<lambda>v8.
    bind_io (if version w \<ge> 6 then in_readBoolean else ret (ConnectionInfo_faultTolerant x)) (\<lambda>v9.
    bind_io (if version w \<ge> 6 then in_readBoolean else ret (ConnectionInfo_failoverReconnect x)) (\<lambda>v10.
    bind_io (if version w \<ge> 8 then looseUnmarshalString else ret (ConnectionInfo_clientIp x)) (\<lambda>v11.
    ret (x\<lparr>ConnectionInfo_connectionId := as_ConnectionId v1, ConnectionInfo_clientId := v2,
      ConnectionInfo_password := v3, ConnectionInfo_userName := v4, ConnectionInfo_brokerPath := v5,
      ConnectionInfo_brokerMasterConnector := v6, ConnectionInfo_manageable := v7,
      ConnectionInfo_clientMaster := v8, ConnectionInfo_faultTolerant := v9,
      ConnectionInfo_failoverReconnect := v10, ConnectionInfo_clientIp := v11\<rparr>)))))))))))))"

definition SessionInfo_tightMarshal1 ::
  "wire_format \<Rightarrow> (data_structure option \<Rightarrow> 32 word io) \<Rightarrow> SessionInfo \<Rightarrow> 32 word io" where
  "SessionInfo_tightMarshal1 w nest x =
    bind_io (BaseCommand_tightMarshal1 w nest x) (\<lambda>rc.
    bind_io (nest (map_option DSessionId (SessionInfo_sessionId x))) (\<lambda>n1.
    ret (rc + n1 + 0)))"

definition SessionInfo_tightMarshal2 ::
  "wire_format \<Rightarrow> (data_structure option \<Rightarrow> unit io) \<Rightarrow> SessionInfo \<Rightarrow> unit io" where
  "SessionInfo_tightMarshal2 w nest x =
    next_io (BaseCommand_tightMarshal2 w nest x) (
    nest (map_option DSessionId (SessionInfo_sessionId x)))"

definition SessionInfo_tightUnmarshal ::
  "wire_format \<Rightarrow> (data_structure option io) \<Rightarrow> SessionInfo \<Rightarrow> SessionInfo io" where
  "SessionInfo_tightUnmarshal w nest x =
    bind_io (BaseCommand_tightUnmarshal w nest x) (\<lambda>x.
    bind_io nest (\<lambda>v1.
    ret (x\<lparr>SessionInfo_sessionId := as_SessionId v1\<rparr>)))"

definition SessionInfo_looseMarshal ::
  "wire_format \<Rightarrow> (data_structure option \<Rightarrow> unit io) \<Rightarrow> SessionInfo \<Rightarrow> unit io" where
  "SessionInfo_looseMarshal w nest x =
    next_io (BaseCommand_looseMarshal w nest x) (
    nest (map_option DSessionId (SessionInfo_sessionId x)))"

definition SessionInfo_looseUnmarshal ::
  "wire_format \<Rightarrow> (data_structure option io) \<Rightarrow> SessionInfo \<Rightarrow> SessionInfo io" where
  "SessionInfo_looseUnmarshal w nest x =
    bind_io (BaseCommand_looseUnmarshal w nest x) (\<lambda>x.
    bind_io nest (\<lambda>v1.
    ret (x\<lparr>SessionInfo_sessionId := as_SessionId v1\<rparr>)))"

definition ConsumerInfo_tightMarshal1 ::
  "wire_format \<Rightarrow> (data_structure option \<Rightarrow> 32 word io) \<Rightarrow> ConsumerInfo \<Rightarrow> 32 word io" where
  "ConsumerInfo_tightMarshal1 w nest x =
    bind_io (BaseCommand_tightMarshal1 w nest x) (\<lambda>rc.
    bind_io (nest (map_option DConsumerId (ConsumerInfo_consumerId x))) (\<lambda>n1.
    next_io (writeBoolean (ConsumerInfo_browser x)) (
    bind_io (nest (map_option DDestination (ConsumerInfo_destination x))) (\<lambda>n2.
    next_io (writeBoolean (ConsumerInfo_dispatchAsync x)) (
    bind_io (tightMarshalString1 (ConsumerInfo_selector x)) (\<lambda>n3.
    bind_io (if version w \<ge> 10 then tightMarshalString1 (ConsumerInfo_clientId x) else ret 0) (\<lambda>n4.
    bind_io (tightMarshalString1 (ConsumerInfo_subscriptionName x)) (\<lambda>n5.
    next_io (writeBoolean (ConsumerInfo_noLocal x)) (
    next_io (writeBoolean (ConsumerInfo_exclusive x)) (
    next_io (writeBoolean (ConsumerInfo_retroactive x)) (
    bind_io (tightMarshalObjectArray1 (\<lambda>q. nest (map_option DBrokerId q)) (ConsumerInfo_brokerPath x)) (\<lambda>n6.
    bind_io (nest None) (\<lambda>n7.
    next_io (writeBoolean (ConsumerInfo_networkSubscription x)) (
    next_io (writeBoolean (ConsumerInfo_optimizedAcknowledge x)) (
    next_io (writeBoolean (ConsumerInfo_noRangeAcks x)) (
    bind_io (if version w \<ge> 4 then tightMarshalObjectArray1 (\<lambda>q. nest (map_option DConsumerId q)) (ConsumerInfo_networkConsumerPath x) else ret 0) (\<lambda>n8.
    ret (rc + n1 + n2 + n3 + n4 + n5 + n6 + n7 + n8 + 9))))))))))))))))))"

definition ConsumerInfo_tightMarshal2 ::
  "wire_format \<Rightarrow> (data_structure option \<Rightarrow> unit io) \<Rightarrow> ConsumerInfo \<Rightarrow> unit io" where
  "ConsumerInfo_tightMarshal2 w nest x =
    next_io (BaseCommand_tightMarshal2 w nest x) (
    next_io (nest (map_option DConsumerId (ConsumerInfo_consumerId x))) (
    next_io skip_boolean (
    next_io (nest (map_option DDestination (ConsumerInfo_destination x))) (
    next_io (writeInt (ConsumerInfo_prefetchSize x)) (
    next_io (writeInt (ConsumerInfo_maximumPendingMessageLimit x)) (
    next_io skip_boolean (
    next_io (tightMarshalString2 (ConsumerInfo_selector x)) (
    next_io (if version w \<ge> 10 then tightMarshalString2 (ConsumerInfo_clientId x) else ret ()) (
    next_io (tightMarshalString2 (ConsumerInfo_subscriptionName x)) (
    next_io skip_boolean (
    next_io skip_boolean (
    next_io skip_boolean (
    next_io (writeByte (ConsumerInfo_priority x)) (
    next_io (tightMarshalObjectArray2 (\<lambda>q. nest (map_option DBrokerId q)) (ConsumerInfo_brokerPath x)) (
    next_io (nest None) (
    next_io skip_boolean (
    next_io skip_boolean (
    next_io skip_boolean (
    if version w \<ge> 4 then tightMarshalObjectArray2 (\<lambda>q. nest (map_option DConsumerId q))
      (ConsumerInfo_networkConsumerPath x) else ret ())))))))))))))))))))"

definition ConsumerInfo_tightUnmarshal ::
  "wire_format \<Rightarrow> (data_structure option io) \<Rightarrow> ConsumerInfo \<Rightarrow> ConsumerInfo io" where
  "ConsumerInfo_tightUnmarshal w nest x =
    bind_io (BaseCommand_tightUnmarshal w nest x) (\<lambda>x.
    bind_io nest (\<lambda>v1.
    bind_io readBoolean (\<lambda>v2.
    bind_io nest (\<lambda>v3.
    bind_io readInt (\<lambda>v4.
    bind_io readInt (\<lambda>v5.
    bind_io readBoolean (\<lambda>v6.
    bind_io tightUnmarshalString (\<lambda>v7.
    bind_io (if version w \<ge> 10 then tightUnmarshalString else ret (ConsumerInfo_clientId x)) (\<lambda>v8.
    bind_io tightUnmarshalString (\<lambda>v9.
    bind_io readBoolean (\<lambda>v10.
    bind_io readBoolean (\<lambda>v11.
    bind_io readBoolean (\<lambda>v12.
    bind_io readByte (\<lambda>v13.
    bind_io (tightUnmarshalObjectArray nest as_BrokerId (ConsumerInfo_brokerPath x)) (\<lambda>v14.
    next_io nest (
    bind_io readBoolean (\<lambda>v15.
    bind_io readBoolean (\<lambda>v16.
    bind_io readBoolean (\<lambda>v17.
    bind_io (if version w \<ge> 4 then tightUnmarshalObjectArray nest as_ConsumerId (ConsumerInfo_networkConsumerPath x) else ret (ConsumerInfo_networkConsumerPath x)) (\<lambda>v18.
    ret (x\<lparr>ConsumerInfo_consumerId := as_ConsumerId v1, ConsumerInfo_browser := v2,
      ConsumerInfo_destination := as_Destination v3, ConsumerInfo_prefetchSize := v4,
      ConsumerInfo_maximumPendingMessageLimit := v5, ConsumerInfo_dispatchAsync := v6,
      ConsumerInfo_selector := v7, ConsumerInfo_clientId := v8, ConsumerInfo_subscriptionName := v9,
      ConsumerInfo_noLocal := v10, ConsumerInfo_exclusive := v11, ConsumerInfo_retroactive := v12,
      ConsumerInfo_priority := v13, ConsumerInfo_brokerPath := v14, ConsumerInfo_networkSubscription :=
      v15, ConsumerInfo_optimizedAcknowledge := v16, ConsumerInfo_noRangeAcks := v17,
      ConsumerInfo_networkConsumerPath := v18\<rparr>)))))))))))))))))))))"

definition ConsumerInfo_looseMarshal ::
  "wire_format \<Rightarrow> (data_structure option \<Rightarrow> unit io) \<Rightarrow> ConsumerInfo \<Rightarrow> unit io" where
  "ConsumerInfo_looseMarshal w nest x =
    next_io (BaseCommand_looseMarshal w nest x) (
    next_io (nest (map_option DConsumerId (ConsumerInfo_consumerId x))) (
    next_io (out_writeBoolean (ConsumerInfo_browser x)) (
    next_io (nest (map_option DDestination (ConsumerInfo_destination x))) (
    next_io (writeInt (ConsumerInfo_prefetchSize x)) (
    next_io (writeInt (ConsumerInfo_maximumPendingMessageLimit x)) (
    next_io (out_writeBoolean (ConsumerInfo_dispatchAsync x)) (
    next_io (looseMarshalString (ConsumerInfo_selector x)) (
    next_io (if version w \<ge> 10 then looseMarshalString (ConsumerInfo_clientId x) else ret ()) (
    next_io (looseMarshalString (ConsumerInfo_subscriptionName x)) (
    next_io (out_writeBoolean (ConsumerInfo_noLocal x)) (
    next_io (out_writeBoolean (ConsumerInfo_exclusive x)) (
    next_io (out_writeBoolean (ConsumerInfo_retroactive x)) (
    next_io (writeByte (ConsumerInfo_priority x)) (
    next_io (looseMarshalObjectArray (\<lambda>q. nest (map_option DBrokerId q)) (ConsumerInfo_brokerPath x)) (
    next_io (nest None) (
    next_io (out_writeBoolean (ConsumerInfo_networkSubscription x)) (
    next_io (out_writeBoolean (ConsumerInfo_optimizedAcknowledge x)) (
    next_io (out_writeBoolean (ConsumerInfo_noRangeAcks x)) (
    if version w \<ge> 4 then looseMarshalObjectArray (\<lambda>q. nest (map_option DConsumerId q))
      (ConsumerInfo_networkConsumerPath x) else ret ())))))))))))))))))))"

definition ConsumerInfo_looseUnmarshal ::
  "wire_format \<Rightarrow> (data_structure option io) \<Rightarrow> ConsumerInfo \<Rightarrow> ConsumerInfo io" where
  "ConsumerInfo_looseUnmarshal w nest x =
    bind_io (BaseCommand_looseUnmarshal w nest x) (\<lambda>x.
    bind_io nest (\<lambda>v1.
    bind_io in_readBoolean (\<lambda>v2.
    bind_io nest (\<lambda>v3.
    bind_io readInt (\<lambda>v4.
    bind_io readInt (\<lambda>v5.
    bind_io in_readBoolean (\<lambda>v6.
    bind_io looseUnmarshalString (\<lambda>v7.
    bind_io (if version w \<ge> 10 then looseUnmarshalString else ret (ConsumerInfo_clientId x)) (\<lambda>v8.
    bind_io looseUnmarshalString (\<lambda>v9.
    bind_io in_readBoolean (\<lambda>v10.
    bind_io in_readBoolean (\<lambda>v11.
    bind_io in_readBoolean (\<lambda>v12.
    bind_io readByte (\<lambda>v13.
    bind_io (looseUnmarshalObjectArray nest as_BrokerId (ConsumerInfo_brokerPath x)) (\<lambda>v14.
    next_io nest (
    bind_io in_readBoolean (\<lambda>v15.
    bind_io in_readBoolean (\<lambda>v16.
    bind_io in_readBoolean (\<lambda>v17.
    bind_io (if version w \<ge> 4 then looseUnmarshalObjectArray nest as_ConsumerId (ConsumerInfo_networkConsumerPath x) else ret (ConsumerInfo_networkConsumerPath x)) (\<lambda>v18.
    ret (x\<lparr>ConsumerInfo_consumerId := as_ConsumerId v1, ConsumerInfo_browser := v2,
      ConsumerInfo_destination := as_Destination v3, ConsumerInfo_prefetchSize := v4,
      ConsumerInfo_maximumPendingMessageLimit := v5, ConsumerInfo_dispatchAsync := v6,
      ConsumerInfo_selector := v7, ConsumerInfo_clientId := v8, ConsumerInfo_subscriptionName := v9,
      ConsumerInfo_noLocal := v10, ConsumerInfo_exclusive := v11, ConsumerInfo_retroactive := v12,
      ConsumerInfo_priority := v13, ConsumerInfo_brokerPath := v14, ConsumerInfo_networkSubscription :=
      v15, ConsumerInfo_optimizedAcknowledge := v16, ConsumerInfo_noRangeAcks := v17,
      ConsumerInfo_networkConsumerPath := v18\<rparr>)))))))))))))))))))))"

definition ProducerInfo_tightMarshal1 ::
  "wire_format \<Rightarrow> (data_structure option \<Rightarrow> 32 word io) \<Rightarrow> ProducerInfo \<Rightarrow> 32 word io" where
  "ProducerInfo_tightMarshal1 w nest x =
    bind_io (BaseCommand_tightMarshal1 w nest x) (\<lambda>rc.
    bind_io (nest (map_option DProducerId (ProducerInfo_producerId x))) (\<lambda>n1.
    bind_io (nest (map_option DDestination (ProducerInfo_destination x))) (\<lambda>n2.
    bind_io (tightMarshalObjectArray1 (\<lambda>q. nest (map_option DBrokerId q)) (ProducerInfo_brokerPath x)) (\<lambda>n3.
    next_io (if version w \<ge> 2 then writeBoolean (ProducerInfo_dispatchAsync x) else ret ()) (
    ret (rc + n1 + n2 + n3 + 4))))))"

definition ProducerInfo_tightMarshal2 ::
  "wire_format \<Rightarrow> (data_structure option \<Rightarrow> unit io) \<Rightarrow> ProducerInfo \<Rightarrow> unit io" where
  "ProducerInfo_tightMarshal2 w nest x =
    next_io (BaseCommand_tightMarshal2 w nest x) (
    next_io (nest (map_option DProducerId (ProducerInfo_producerId x))) (
    next_io (nest (map_option DDestination (ProducerInfo_destination x))) (
    next_io (tightMarshalObjectArray2 (\<lambda>q. nest (map_option DBrokerId q)) (ProducerInfo_brokerPath x)) (
    next_io (if version w \<ge> 2 then skip_boolean else ret ()) (
    if version w \<ge> 3 then writeInt (ProducerInfo_windowSize x) else ret ())))))"

definition ProducerInfo_tightUnmarshal ::
  "wire_format \<Rightarrow> (data_structure option io) \<Rightarrow> ProducerInfo \<Rightarrow> ProducerInfo io" where
  "ProducerInfo_tightUnmarshal w nest x =
    bind_io (BaseCommand_tightUnmarshal w nest x) (\<lambda>x.
    bind_io nest (\<lambda>v1.
    bind_io nest (\<lambda>v2.
    bind_io (tightUnmarshalObjectArray nest as_BrokerId (ProducerInfo_brokerPath x)) (\<lambda>v3.
    bind_io (if version w \<ge> 2 then readBoolean else ret (ProducerInfo_dispatchAsync x)) (\<lambda>v4.
    bind_io (if version w \<ge> 3 then readInt else ret (ProducerInfo_windowSize x)) (\<lambda>v5.
    ret (x\<lparr>ProducerInfo_producerId := as_ProducerId v1, ProducerInfo_destination :=
      as_Destination v2, ProducerInfo_brokerPath := v3, ProducerInfo_dispatchAsync := v4,
      ProducerInfo_windowSize := v5\<rparr>)))))))"

definition ProducerInfo_looseMarshal ::
  "wire_format \<Rightarrow> (data_structure option \<Rightarrow> unit io) \<Rightarrow> ProducerInfo \<Rightarrow> unit io" where
  "ProducerInfo_looseMarshal w nest x =
    next_io (BaseCommand_looseMarshal w nest x) (
    next_io (nest (map_option DProducerId (ProducerInfo_producerId x))) (
    next_io (nest (map_option DDestination (ProducerInfo_destination x))) (
    next_io (looseMarshalObjectArray (\<lambda>q. nest (map_option DBrokerId q)) (ProducerInfo_brokerPath x)) (
    next_io (if version w \<ge> 2 then out_writeBoolean (ProducerInfo_dispatchAsync x) else ret ()) (
    if version w \<ge> 3 then writeInt (ProducerInfo_windowSize x) else ret ())))))"

definition ProducerInfo_looseUnmarshal ::
  "wire_format \<Rightarrow> (data_structure option io) \<Rightarrow> ProducerInfo \<Rightarrow> ProducerInfo io" where
  "ProducerInfo_looseUnmarshal w nest x =
    bind_io (BaseCommand_looseUnmarshal w nest x) (\<lambda>x.
    bind_io nest (\<lambda>v1.
    bind_io nest (\<lambda>v2.
    bind_io (looseUnmarshalObjectArray nest as_BrokerId (ProducerInfo_brokerPath x)) (\<lambda>v3.
    bind_io (if version w \<ge> 2 then in_readBoolean else ret (ProducerInfo_dispatchAsync x)) (\<lambda>v4.
    bind_io (if version w \<ge> 3 then readInt else ret (ProducerInfo_windowSize x)) (\<lambda>v5.
    ret (x\<lparr>ProducerInfo_producerId := as_ProducerId v1, ProducerInfo_destination :=
      as_Destination v2, ProducerInfo_brokerPath := v3, ProducerInfo_dispatchAsync := v4,
      ProducerInfo_windowSize := v5\<rparr>)))))))"

definition DestinationInfo_tightMarshal1 ::
  "wire_format \<Rightarrow> (data_structure option \<Rightarrow> 32 word io) \<Rightarrow> DestinationInfo \<Rightarrow> 32 word io" where
  "DestinationInfo_tightMarshal1 w nest x =
    bind_io (BaseCommand_tightMarshal1 w nest x) (\<lambda>rc.
    bind_io (nest (map_option DConnectionId (DestinationInfo_connectionId x))) (\<lambda>n1.
    bind_io (nest (map_option DDestination (DestinationInfo_destination x))) (\<lambda>n2.
    bind_io (tightMarshalLong1 (DestinationInfo_timeout x)) (\<lambda>n3.
    bind_io (tightMarshalObjectArray1 (\<lambda>q. nest (map_option DBrokerId q)) (DestinationInfo_brokerPath x)) (\<lambda>n4.
    ret (rc + n1 + n2 + n3 + n4 + 1))))))"

definition DestinationInfo_tightMarshal2 ::
  "wire_format \<Rightarrow> (data_structure option \<Rightarrow> unit io) \<Rightarrow> DestinationInfo \<Rightarrow> unit io" where
  "DestinationInfo_tightMarshal2 w nest x =
    next_io (BaseCommand_tightMarshal2 w nest x) (
    next_io (nest (map_option DConnectionId (DestinationInfo_connectionId x))) (
    next_io (nest (map_option DDestination (DestinationInfo_destination x))) (
    next_io (writeByte (DestinationInfo_operationType x)) (
    next_io (tightMarshalLong2 (DestinationInfo_timeout x)) (
    tightMarshalObjectArray2 (\<lambda>q. nest (map_option DBrokerId q)) (DestinationInfo_brokerPath x))))))"

definition DestinationInfo_tightUnmarshal ::
  "wire_format \<Rightarrow> (data_structure option io) \<Rightarrow> DestinationInfo \<Rightarrow> DestinationInfo io" where
  "DestinationInfo_tightUnmarshal w nest x =
    bind_io (BaseCommand_tightUnmarshal w nest x) (\<lambda>x.
    bind_io nest (\<lambda>v1.
    bind_io nest (\<lambda>v2.
    bind_io readByte (\<lambda>v3.
    bind_io tightUnmarshalLong (\<lambda>v4.
    bind_io (tightUnmarshalObjectArray nest as_BrokerId (DestinationInfo_brokerPath x)) (\<lambda>v5.
    ret (x\<lparr>DestinationInfo_connectionId := as_ConnectionId v1, DestinationInfo_destination :=
      as_Destination v2, DestinationInfo_operationType := v3, DestinationInfo_timeout := v4,
      DestinationInfo_brokerPath := v5\<rparr>)))))))"

definition DestinationInfo_looseMarshal ::
  "wire_format \<Rightarrow> (data_structure option \<Rightarrow> unit io) \<Rightarrow> DestinationInfo \<Rightarrow> unit io" where
  "DestinationInfo_looseMarshal w nest x =
    next_io (BaseCommand_looseMarshal w nest x) (
    next_io (nest (map_option DConnectionId (DestinationInfo_connectionId x))) (
    next_io (nest (map_option DDestination (DestinationInfo_destination x))) (
    next_io (writeByte (DestinationInfo_operationType x)) (
    next_io (looseMarshalLong (DestinationInfo_timeout x)) (
    looseMarshalObjectArray (\<lambda>q. nest (map_option DBrokerId q)) (DestinationInfo_brokerPath x))))))"

definition DestinationInfo_looseUnmarshal ::
  "wire_format \<Rightarrow> (data_structure option io) \<Rightarrow> DestinationInfo \<Rightarrow> DestinationInfo io" where
  "DestinationInfo_looseUnmarshal w nest x =
    bind_io (BaseCommand_looseUnmarshal w nest x) (\<lambda>x.
    bind_io nest (\<lambda>v1.
    bind_io nest (\<lambda>v2.
    bind_io readByte (\<lambda>v3.
    bind_io looseUnmarshalLong (\<lambda>v4.
    bind_io (looseUnmarshalObjectArray nest as_BrokerId (DestinationInfo_brokerPath x)) (\<lambda>v5.
    ret (x\<lparr>DestinationInfo_connectionId := as_ConnectionId v1, DestinationInfo_destination :=
      as_Destination v2, DestinationInfo_operationType := v3, DestinationInfo_timeout := v4,
      DestinationInfo_brokerPath := v5\<rparr>)))))))"

definition RemoveInfo_tightMarshal1 ::
  "wire_format \<Rightarrow> (data_structure option \<Rightarrow> 32 word io) \<Rightarrow> RemoveInfo \<Rightarrow> data_structure option \<Rightarrow> 32 word io" where
  "RemoveInfo_tightMarshal1 w nest x p =
    bind_io (BaseCommand_tightMarshal1 w nest x) (\<lambda>rc.
    bind_io (nest p) (\<lambda>n1.
    bind_io (if version w \<ge> 5 then tightMarshalLong1 (RemoveInfo_lastDeliveredSequenceId x) else ret 0) (\<lambda>n2.
    ret (rc + n1 + n2 + 0))))"

definition RemoveInfo_tightMarshal2 ::
  "wire_format \<Rightarrow> (data_structure option \<Rightarrow> unit io) \<Rightarrow> RemoveInfo \<Rightarrow> data_structure option \<Rightarrow> unit io" where
  "RemoveInfo_tightMarshal2 w nest x p =
    next_io (BaseCommand_tightMarshal2 w nest x) (
    next_io (nest p) (
    if version w \<ge> 5 then tightMarshalLong2 (RemoveInfo_lastDeliveredSequenceId x) else ret ()))"

definition RemoveInfo_tightUnmarshal ::
  "wire_format \<Rightarrow> (data_structure option io) \<Rightarrow> RemoveInfo \<Rightarrow> (RemoveInfo \<times> data_structure option) io" where
  "RemoveInfo_tightUnmarshal w nest x =
    bind_io (BaseCommand_tightUnmarshal w nest x) (\<lambda>x.
    bind_io nest (\<lambda>v1.
    bind_io (if version w \<ge> 5 then tightUnmarshalLong else ret (RemoveInfo_lastDeliveredSequenceId x)) (\<lambda>v2.
    ret (x\<lparr>RemoveInfo_lastDeliveredSequenceId := v2\<rparr>, v1))))"

definition RemoveInfo_looseMarshal ::
  "wire_format \<Rightarrow> (data_structure option \<Rightarrow> unit io) \<Rightarrow> RemoveInfo \<Rightarrow> data_structure option \<Rightarrow> unit io" where
  "RemoveInfo_looseMarshal w nest x p =
    next_io (BaseCommand_looseMarshal w nest x) (
    next_io (nest p) (
    if version w \<ge> 5 then looseMarshalLong (RemoveInfo_lastDeliveredSequenceId x) else ret ()))"

definition RemoveInfo_looseUnmarshal ::
  "wire_format \<Rightarrow> (data_structure option io) \<Rightarrow> RemoveInfo \<Rightarrow> (RemoveInfo \<times> data_structure option) io" where
  "RemoveInfo_looseUnmarshal w nest x =
    bind_io (BaseCommand_looseUnmarshal w nest x) (\<lambda>x.
    bind_io nest (\<lambda>v1.
    bind_io (if version w \<ge> 5 then looseUnmarshalLong else ret (RemoveInfo_lastDeliveredSequenceId x)) (\<lambda>v2.
    ret (x\<lparr>RemoveInfo_lastDeliveredSequenceId := v2\<rparr>, v1))))"

definition RemoveSubscriptionInfo_tightMarshal1 ::
  "wire_format \<Rightarrow> (data_structure option \<Rightarrow> 32 word io) \<Rightarrow> RemoveSubscriptionInfo \<Rightarrow> 32 word io" where
  "RemoveSubscriptionInfo_tightMarshal1 w nest x =
    bind_io (BaseCommand_tightMarshal1 w nest x) (\<lambda>rc.
    bind_io (nest (map_option DConnectionId (RemoveSubscriptionInfo_connectionId x))) (\<lambda>n1.
    bind_io (tightMarshalString1 (RemoveSubscriptionInfo_subcriptionName x)) (\<lambda>n2.
    bind_io (tightMarshalString1 (RemoveSubscriptionInfo_clientId x)) (\<lambda>n3.
    ret (rc + n1 + n2 + n3 + 0)))))"

definition RemoveSubscriptionInfo_tightMarshal2 ::
  "wire_format \<Rightarrow> (data_structure option \<Rightarrow> unit io) \<Rightarrow> RemoveSubscriptionInfo \<Rightarrow> unit io" where
  "RemoveSubscriptionInfo_tightMarshal2 w nest x =
    next_io (BaseCommand_tightMarshal2 w nest x) (
    next_io (nest (map_option DConnectionId (RemoveSubscriptionInfo_connectionId x))) (
    next_io (tightMarshalString2 (RemoveSubscriptionInfo_subcriptionName x)) (
    tightMarshalString2 (RemoveSubscriptionInfo_clientId x))))"

definition RemoveSubscriptionInfo_tightUnmarshal ::
  "wire_format \<Rightarrow> (data_structure option io) \<Rightarrow> RemoveSubscriptionInfo \<Rightarrow> RemoveSubscriptionInfo io" where
  "RemoveSubscriptionInfo_tightUnmarshal w nest x =
    bind_io (BaseCommand_tightUnmarshal w nest x) (\<lambda>x.
    bind_io nest (\<lambda>v1.
    bind_io tightUnmarshalString (\<lambda>v2.
    bind_io tightUnmarshalString (\<lambda>v3.
    ret (x\<lparr>RemoveSubscriptionInfo_connectionId := as_ConnectionId v1,
      RemoveSubscriptionInfo_subcriptionName := v2, RemoveSubscriptionInfo_clientId := v3\<rparr>)))))"

definition RemoveSubscriptionInfo_looseMarshal ::
  "wire_format \<Rightarrow> (data_structure option \<Rightarrow> unit io) \<Rightarrow> RemoveSubscriptionInfo \<Rightarrow> unit io" where
  "RemoveSubscriptionInfo_looseMarshal w nest x =
    next_io (BaseCommand_looseMarshal w nest x) (
    next_io (nest (map_option DConnectionId (RemoveSubscriptionInfo_connectionId x))) (
    next_io (looseMarshalString (RemoveSubscriptionInfo_subcriptionName x)) (
    looseMarshalString (RemoveSubscriptionInfo_clientId x))))"

definition RemoveSubscriptionInfo_looseUnmarshal ::
  "wire_format \<Rightarrow> (data_structure option io) \<Rightarrow> RemoveSubscriptionInfo \<Rightarrow> RemoveSubscriptionInfo io" where
  "RemoveSubscriptionInfo_looseUnmarshal w nest x =
    bind_io (BaseCommand_looseUnmarshal w nest x) (\<lambda>x.
    bind_io nest (\<lambda>v1.
    bind_io looseUnmarshalString (\<lambda>v2.
    bind_io looseUnmarshalString (\<lambda>v3.
    ret (x\<lparr>RemoveSubscriptionInfo_connectionId := as_ConnectionId v1,
      RemoveSubscriptionInfo_subcriptionName := v2, RemoveSubscriptionInfo_clientId := v3\<rparr>)))))"

definition TransactionInfo_tightMarshal1 ::
  "wire_format \<Rightarrow> (data_structure option \<Rightarrow> 32 word io) \<Rightarrow> TransactionInfo \<Rightarrow> 32 word io" where
  "TransactionInfo_tightMarshal1 w nest x =
    bind_io (BaseCommand_tightMarshal1 w nest x) (\<lambda>rc.
    bind_io (nest (map_option DConnectionId (TransactionInfo_connectionId x))) (\<lambda>n1.
    bind_io (nest (map_option DTransactionId (TransactionInfo_transactionId x))) (\<lambda>n2.
    ret (rc + n1 + n2 + 1))))"

definition TransactionInfo_tightMarshal2 ::
  "wire_format \<Rightarrow> (data_structure option \<Rightarrow> unit io) \<Rightarrow> TransactionInfo \<Rightarrow> unit io" where
  "TransactionInfo_tightMarshal2 w nest x =
    next_io (BaseCommand_tightMarshal2 w nest x) (
    next_io (nest (map_option DConnectionId (TransactionInfo_connectionId x))) (
    next_io (nest (map_option DTransactionId (TransactionInfo_transactionId x))) (
    writeByte (TransactionInfo_type x))))"

definition TransactionInfo_tightUnmarshal ::
  "wire_format \<Rightarrow> (data_structure option io) \<Rightarrow> TransactionInfo \<Rightarrow> TransactionInfo io" where
  "TransactionInfo_tightUnmarshal w nest x =
    bind_io (BaseCommand_tightUnmarshal w nest x) (\<lambda>x.
    bind_io nest (\<lambda>v1.
    bind_io nest (\<lambda>v2.
    bind_io readByte (\<lambda>v3.
    ret (x\<lparr>TransactionInfo_connectionId := as_ConnectionId v1, TransactionInfo_transactionId :=
      as_TransactionId v2, TransactionInfo_type := v3\<rparr>)))))"

definition TransactionInfo_looseMarshal ::
  "wire_format \<Rightarrow> (data_structure option \<Rightarrow> unit io) \<Rightarrow> TransactionInfo \<Rightarrow> unit io" where
  "TransactionInfo_looseMarshal w nest x =
    next_io (BaseCommand_looseMarshal w nest x) (
    next_io (nest (map_option DConnectionId (TransactionInfo_connectionId x))) (
    next_io (nest (map_option DTransactionId (TransactionInfo_transactionId x))) (
    writeByte (TransactionInfo_type x))))"

definition TransactionInfo_looseUnmarshal ::
  "wire_format \<Rightarrow> (data_structure option io) \<Rightarrow> TransactionInfo \<Rightarrow> TransactionInfo io" where
  "TransactionInfo_looseUnmarshal w nest x =
    bind_io (BaseCommand_looseUnmarshal w nest x) (\<lambda>x.
    bind_io nest (\<lambda>v1.
    bind_io nest (\<lambda>v2.
    bind_io readByte (\<lambda>v3.
    ret (x\<lparr>TransactionInfo_connectionId := as_ConnectionId v1, TransactionInfo_transactionId :=
      as_TransactionId v2, TransactionInfo_type := v3\<rparr>)))))"

definition MessageAck_tightMarshal1 ::
  "wire_format \<Rightarrow> (data_structure option \<Rightarrow> 32 word io) \<Rightarrow> MessageAck \<Rightarrow> 32 word io" where
  "MessageAck_tightMarshal1 w nest x =
    bind_io (BaseCommand_tightMarshal1 w nest x) (\<lambda>rc.
    bind_io (nest (map_option DDestination (MessageAck_destination x))) (\<lambda>n1.
    bind_io (nest (map_option DTransactionId (MessageAck_transactionId x))) (\<lambda>n2.
    bind_io (nest (map_option DConsumerId (MessageAck_consumerId x))) (\<lambda>n3.
    bind_io (nest (map_option DMessageId (MessageAck_firstMessageId x))) (\<lambda>n4.
    bind_io (nest (map_option DMessageId (MessageAck_lastMessageId x))) (\<lambda>n5.
    bind_io (if version w \<ge> 7 then tightMarshalBrokerError1 w (MessageAck_poisonCause x) else ret 0) (\<lambda>n6.
    ret (rc + n1 + n2 + n3 + n4 + n5 + n6 + 5))))))))"

definition MessageAck_tightMarshal2 ::
  "wire_format \<Rightarrow> (data_structure option \<Rightarrow> unit io) \<Rightarrow> MessageAck \<Rightarrow> unit io" where
  "MessageAck_tightMarshal2 w nest x =
    next_io (BaseCommand_tightMarshal2 w nest x) (
    next_io (nest (map_option DDestination (MessageAck_destination x))) (
    next_io (nest (map_option DTransactionId (MessageAck_transactionId x))) (
    next_io (nest (map_option DConsumerId (MessageAck_consumerId x))) (
    next_io (writeByte (MessageAck_ackType x)) (
    next_io (nest (map_option DMessageId (MessageAck_firstMessageId x))) (
    next_io (nest (map_option DMessageId (MessageAck_lastMessageId x))) (
    next_io (writeInt (MessageAck_messageCount x)) (
    if version w \<ge> 7 then tightMarshalBrokerError2 w (MessageAck_poisonCause x) else ret ()))))))))"

definition MessageAck_tightUnmarshal ::
  "wire_format \<Rightarrow> (data_structure option io) \<Rightarrow> MessageAck \<Rightarrow> MessageAck io" where
  "MessageAck_tightUnmarshal w nest x =
    bind_io (BaseCommand_tightUnmarshal w nest x) (\<lambda>x.
    bind_io nest (\<lambda>v1.
    bind_io nest (\<lambda>v2.
    bind_io nest (\<lambda>v3.
    bind_io readByte (\<lambda>v4.
    bind_io nest (\<lambda>v5.
    bind_io nest (\<lambda>v6.
    bind_io readInt (\<lambda>v7.
    bind_io (if version w \<ge> 7 then tightUnmarshalBrokerError w else ret (MessageAck_poisonCause x)) (\<lambda>v8.
    ret (x\<lparr>MessageAck_destination := as_Destination v1, MessageAck_transactionId :=
      as_TransactionId v2, MessageAck_consumerId := as_ConsumerId v3, MessageAck_ackType := v4,
      MessageAck_firstMessageId := as_MessageId v5, MessageAck_lastMessageId := as_MessageId v6,
      MessageAck_messageCount := v7, MessageAck_poisonCause := v8\<rparr>))))))))))"

definition MessageAck_looseMarshal ::
  "wire_format \<Rightarrow> (data_structure option \<Rightarrow> unit io) \<Rightarrow> MessageAck \<Rightarrow> unit io" where
  "MessageAck_looseMarshal w nest x =
    next_io (BaseCommand_looseMarshal w nest x) (
    next_io (nest (map_option DDestination (MessageAck_destination x))) (
    next_io (nest (map_option DTransactionId (MessageAck_transactionId x))) (
    next_io (nest (map_option DConsumerId (MessageAck_consumerId x))) (
    next_io (writeByte (MessageAck_ackType x)) (
    next_io (nest (map_option DMessageId (MessageAck_firstMessageId x))) (
    next_io (nest (map_option DMessageId (MessageAck_lastMessageId x))) (
    next_io (writeInt (MessageAck_messageCount x)) (
    if version w \<ge> 7 then looseMarshalBrokerError w (MessageAck_poisonCause x) else ret ()))))))))"

definition MessageAck_looseUnmarshal ::
  "wire_format \<Rightarrow> (data_structure option io) \<Rightarrow> MessageAck \<Rightarrow> MessageAck io" where
  "MessageAck_looseUnmarshal w nest x =
    bind_io (BaseCommand_looseUnmarshal w nest x) (\<lambda>x.
    bind_io nest (\<lambda>v1.
    bind_io nest (\<lambda>v2.
    bind_io nest (\<lambda>v3.
    bind_io readByte (\<lambda>v4.
    bind_io nest (\<lambda>v5.
    bind_io nest (\<lambda>v6.
    bind_io readInt (\<lambda>v7.
    bind_io (if version w \<ge> 7 then looseUnmarshalBrokerError w else ret (MessageAck_poisonCause x)) (\<lambda>v8.
    ret (x\<lparr>MessageAck_destination := as_Destination v1, MessageAck_transactionId :=
      as_TransactionId v2, MessageAck_consumerId := as_ConsumerId v3, MessageAck_ackType := v4,
      MessageAck_firstMessageId := as_MessageId v5, MessageAck_lastMessageId := as_MessageId v6,
      MessageAck_messageCount := v7, MessageAck_poisonCause := v8\<rparr>))))))))))"

definition MessagePull_tightMarshal1 ::
  "wire_format \<Rightarrow> (data_structure option \<Rightarrow> 32 word io) \<Rightarrow> MessagePull \<Rightarrow> 32 word io" where
  "MessagePull_tightMarshal1 w nest x =
    bind_io (BaseCommand_tightMarshal1 w nest x) (\<lambda>rc.
    bind_io (nest (map_option DConsumerId (MessagePull_consumerId x))) (\<lambda>n1.
    bind_io (nest (map_option DDestination (MessagePull_destination x))) (\<lambda>n2.
    bind_io (tightMarshalLong1 (MessagePull_timeout x)) (\<lambda>n3.
    bind_io (if version w \<ge> 3 then tightMarshalString1 (MessagePull_correlationId x) else ret 0) (\<lambda>n4.
    bind_io (if version w \<ge> 3 then nest (map_option DMessageId (MessagePull_messageId x)) else ret 0) (\<lambda>n5.
    ret (rc + n1 + n2 + n3 + n4 + n5 + 0)))))))"

definition MessagePull_tightMarshal2 ::
  "wire_format \<Rightarrow> (data_structure option \<Rightarrow> unit io) \<Rightarrow> MessagePull \<Rightarrow> unit io" where
  "MessagePull_tightMarshal2 w nest x =
    next_io (BaseCommand_tightMarshal2 w nest x) (
    next_io (nest (map_option DConsumerId (MessagePull_consumerId x))) (
    next_io (nest (map_option DDestination (MessagePull_destination x))) (
    next_io (tightMarshalLong2 (MessagePull_timeout x)) (
    next_io (if version w \<ge> 3 then tightMarshalString2 (MessagePull_correlationId x) else ret ()) (
    if version w \<ge> 3 then nest (map_option DMessageId (MessagePull_messageId x)) else ret ())))))"

definition MessagePull_tightUnmarshal ::
  "wire_format \<Rightarrow> (data_structure option io) \<Rightarrow> MessagePull \<Rightarrow> MessagePull io" where
  "MessagePull_tightUnmarshal w nest x =
    bind_io (BaseCommand_tightUnmarshal w nest x) (\<lambda>x.
    bind_io nest (\<lambda>v1.
    bind_io nest (\<lambda>v2.
    bind_io tightUnmarshalLong (\<lambda>v3.
    bind_io (if version w \<ge> 3 then tightUnmarshalString else ret (MessagePull_correlationId x)) (\<lambda>v4.
    bind_io (if version w \<ge> 3 then bind_io nest (\<lambda>d. ret (as_MessageId d)) else ret (MessagePull_messageId x)) (\<lambda>v5.
    ret (x\<lparr>MessagePull_consumerId := as_ConsumerId v1, MessagePull_destination := as_Destination
      v2, MessagePull_timeout := v3, MessagePull_correlationId := v4, MessagePull_messageId := v5\<rparr>)))))))"

definition MessagePull_looseMarshal ::
  "wire_format \<Rightarrow> (data_structure option \<Rightarrow> unit io) \<Rightarrow> MessagePull \<Rightarrow> unit io" where
  "MessagePull_looseMarshal w nest x =
    next_io (BaseCommand_looseMarshal w nest x) (
    next_io (nest (map_option DConsumerId (MessagePull_consumerId x))) (
    next_io (nest (map_option DDestination (MessagePull_destination x))) (
    next_io (looseMarshalLong (MessagePull_timeout x)) (
    next_io (if version w \<ge> 3 then looseMarshalString (MessagePull_correlationId x) else ret ()) (
    if version w \<ge> 3 then nest (map_option DMessageId (MessagePull_messageId x)) else ret ())))))"

definition MessagePull_looseUnmarshal ::
  "wire_format \<Rightarrow> (data_structure option io) \<Rightarrow> MessagePull \<Rightarrow> MessagePull io" where
  "MessagePull_looseUnmarshal w nest x =
    bind_io (BaseCommand_looseUnmarshal w nest x) (\<lambda>x.
    bind_io nest (\<lambda>v1.
    bind_io nest (\<lambda>v2.
    bind_io looseUnmarshalLong (\<lambda>v3.
    bind_io (if version w \<ge> 3 then looseUnmarshalString else ret (MessagePull_correlationId x)) (\<lambda>v4.
    bind_io (if version w \<ge> 3 then bind_io nest (\<lambda>d. ret (as_MessageId d)) else ret (MessagePull_messageId x)) (\<lambda>v5.
    ret (x\<lparr>MessagePull_consumerId := as_ConsumerId v1, MessagePull_destination := as_Destination
      v2, MessagePull_timeout := v3, MessagePull_correlationId := v4, MessagePull_messageId := v5\<rparr>)))))))"

definition KeepAliveInfo_tightMarshal1 ::
  "wire_format \<Rightarrow> (data_structure option \<Rightarrow> 32 word io) \<Rightarrow> KeepAliveInfo \<Rightarrow> 32 word io" where
  "KeepAliveInfo_tightMarshal1 w nest x =
    bind_io (BaseCommand_tightMarshal1 w nest x) (\<lambda>rc.
    ret (rc + 0))"

definition KeepAliveInfo_tightMarshal2 ::
  "wire_format \<Rightarrow> (data_structure option \<Rightarrow> unit io) \<Rightarrow> KeepAliveInfo \<Rightarrow> unit io" where
  "KeepAliveInfo_tightMarshal2 w nest x =
    BaseCommand_tightMarshal2 w nest x"

definition KeepAliveInfo_tightUnmarshal ::
  "wire_format \<Rightarrow> (data_structure option io) \<Rightarrow> KeepAliveInfo \<Rightarrow> KeepAliveInfo io" where
  "KeepAliveInfo_tightUnmarshal w nest x =
    bind_io (BaseCommand_tightUnmarshal w nest x) (\<lambda>x.
    ret (x))"

definition KeepAliveInfo_looseMarshal ::
  "wire_format \<Rightarrow> (data_structure option \<Rightarrow> unit io) \<Rightarrow> KeepAliveInfo \<Rightarrow> unit io" where
  "KeepAliveInfo_looseMarshal w nest x =
    BaseCommand_looseMarshal w nest x"

definition KeepAliveInfo_looseUnmarshal ::
  "wire_format \<Rightarrow> (data_structure option io) \<Rightarrow> KeepAliveInfo \<Rightarrow> KeepAliveInfo io" where
  "KeepAliveInfo_looseUnmarshal w nest x =
    bind_io (BaseCommand_looseUnmarshal w nest x) (\<lambda>x.
    ret (x))"

definition ShutdownInfo_tightMarshal1 ::
  "wire_format \<Rightarrow> (data_structure option \<Rightarrow> 32 word io) \<Rightarrow> ShutdownInfo \<Rightarrow> 32 word io" where
  "ShutdownInfo_tightMarshal1 w nest x =
    bind_io (BaseCommand_tightMarshal1 w nest x) (\<lambda>rc.
    ret (rc + 0))"

definition ShutdownInfo_tightMarshal2 ::
  "wire_format \<Rightarrow> (data_structure option \<Rightarrow> unit io) \<Rightarrow> ShutdownInfo \<Rightarrow> unit io" where
  "ShutdownInfo_tightMarshal2 w nest x =
    BaseCommand_tightMarshal2 w nest x"

definition ShutdownInfo_tightUnmarshal ::
  "wire_format \<Rightarrow> (data_structure option io) \<Rightarrow> ShutdownInfo \<Rightarrow> ShutdownInfo io" where
  "ShutdownInfo_tightUnmarshal w nest x =
    bind_io (BaseCommand_tightUnmarshal w nest x) (\<lambda>x.
    ret (x))"

definition ShutdownInfo_looseMarshal ::
  "wire_format \<Rightarrow> (data_structure option \<Rightarrow> unit io) \<Rightarrow> ShutdownInfo \<Rightarrow> unit io" where
  "ShutdownInfo_looseMarshal w nest x =
    BaseCommand_looseMarshal w nest x"

definition ShutdownInfo_looseUnmarshal ::
  "wire_format \<Rightarrow> (data_structure option io) \<Rightarrow> ShutdownInfo \<Rightarrow> ShutdownInfo io" where
  "ShutdownInfo_looseUnmarshal w nest x =
    bind_io (BaseCommand_looseUnmarshal w nest x) (\<lambda>x.
    ret (x))"

definition ExceptionResponse_tightMarshal1 ::
  "wire_format \<Rightarrow> (data_structure option \<Rightarrow> 32 word io) \<Rightarrow> ExceptionResponse \<Rightarrow> 32 word io" where
  "ExceptionResponse_tightMarshal1 w nest x =
    bind_io (Response_tightMarshal1 w nest x) (\<lambda>rc.
    bind_io (tightMarshalBrokerError1 w (ExceptionResponse_exception x)) (\<lambda>n1.
    ret (rc + n1 + 0)))"

definition ExceptionResponse_tightMarshal2 ::
  "wire_format \<Rightarrow> (data_structure option \<Rightarrow> unit io) \<Rightarrow> ExceptionResponse \<Rightarrow> unit io" where
  "ExceptionResponse_tightMarshal2 w nest x =
    next_io (Response_tightMarshal2 w nest x) (
    tightMarshalBrokerError2 w (ExceptionResponse_exception x))"

definition ExceptionResponse_tightUnmarshal ::
  "wire_format \<Rightarrow> (data_structure option io) \<Rightarrow> ExceptionResponse \<Rightarrow> ExceptionResponse io" where
  "ExceptionResponse_tightUnmarshal w nest x =
    bind_io (Response_tightUnmarshal w nest x) (\<lambda>x.
    bind_io (tightUnmarshalBrokerError w) (\<lambda>v1.
    ret (x\<lparr>ExceptionResponse_exception := v1\<rparr>)))"

definition ExceptionResponse_looseMarshal ::
  "wire_format \<Rightarrow> (data_structure option \<Rightarrow> unit io) \<Rightarrow> ExceptionResponse \<Rightarrow> unit io" where
  "ExceptionResponse_looseMarshal w nest x =
    next_io (Response_looseMarshal w nest x) (
    looseMarshalBrokerError w (ExceptionResponse_exception x))"

definition ExceptionResponse_looseUnmarshal ::
  "wire_format \<Rightarrow> (data_structure option io) \<Rightarrow> ExceptionResponse \<Rightarrow> ExceptionResponse io" where
  "ExceptionResponse_looseUnmarshal w nest x =
    bind_io (Response_looseUnmarshal w nest x) (\<lambda>x.
    bind_io (looseUnmarshalBrokerError w) (\<lambda>v1.
    ret (x\<lparr>ExceptionResponse_exception := v1\<rparr>)))"

definition IntegerResponse_tightMarshal1 ::
  "wire_format \<Rightarrow> (data_structure option \<Rightarrow> 32 word io) \<Rightarrow> IntegerResponse \<Rightarrow> 32 word io" where
  "IntegerResponse_tightMarshal1 w nest x =
    bind_io (Response_tightMarshal1 w nest x) (\<lambda>rc.
    ret (rc + 4))"

definition IntegerResponse_tightMarshal2 ::
  "wire_format \<Rightarrow> (data_structure option \<Rightarrow> unit io) \<Rightarrow> IntegerResponse \<Rightarrow> unit io" where
  "IntegerResponse_tightMarshal2 w nest x =
    next_io (Response_tightMarshal2 w nest x) (
    writeInt (IntegerResponse_result x))"

definition IntegerResponse_tightUnmarshal ::
  "wire_format \<Rightarrow> (data_structure option io) \<Rightarrow> IntegerResponse \<Rightarrow> IntegerResponse io" where
  "IntegerResponse_tightUnmarshal w nest x =
    bind_io (Response_tightUnmarshal w nest x) (\<lambda>x.
    bind_io readInt (\<lambda>v1.
    ret (x\<lparr>IntegerResponse_result := v1\<rparr>)))"

definition IntegerResponse_looseMarshal ::
  "wire_format \<Rightarrow> (data_structure option \<Rightarrow> unit io) \<Rightarrow> IntegerResponse \<Rightarrow> unit io" where
  "IntegerResponse_looseMarshal w nest x =
    next_io (Response_looseMarshal w nest x) (
    writeInt (IntegerResponse_result x))"

definition IntegerResponse_looseUnmarshal ::
  "wire_format \<Rightarrow> (data_structure option io) \<Rightarrow> IntegerResponse \<Rightarrow> IntegerResponse io" where
  "IntegerResponse_looseUnmarshal w nest x =
    bind_io (Response_looseUnmarshal w nest x) (\<lambda>x.
    bind_io readInt (\<lambda>v1.
    ret (x\<lparr>IntegerResponse_result := v1\<rparr>)))"

definition DataResponse_tightMarshal1 ::
  "wire_format \<Rightarrow> (data_structure option \<Rightarrow> 32 word io) \<Rightarrow> DataResponse \<Rightarrow> data_structure option \<Rightarrow> 32 word io" where
  "DataResponse_tightMarshal1 w nest x p =
    bind_io (Response_tightMarshal1 w nest x) (\<lambda>rc.
    bind_io (nest p) (\<lambda>n1.
    ret (rc + n1 + 0)))"

definition DataResponse_tightMarshal2 ::
  "wire_format \<Rightarrow> (data_structure option \<Rightarrow> unit io) \<Rightarrow> DataResponse \<Rightarrow> data_structure option \<Rightarrow> unit io" where
  "DataResponse_tightMarshal2 w nest x p =
    next_io (Response_tightMarshal2 w nest x) (
    nest p)"

definition DataResponse_tightUnmarshal ::
  "wire_format \<Rightarrow> (data_structure option io) \<Rightarrow> DataResponse \<Rightarrow> (DataResponse \<times> data_structure option) io" where
  "DataResponse_tightUnmarshal w nest x =
    bind_io (Response_tightUnmarshal w nest x) (\<lambda>x.
    bind_io nest (\<lambda>v1.
    ret (x, v1)))"

definition DataResponse_looseMarshal ::
  "wire_format \<Rightarrow> (data_structure option \<Rightarrow> unit io) \<Rightarrow> DataResponse \<Rightarrow> data_structure option \<Rightarrow> unit io" where
  "DataResponse_looseMarshal w nest x p =
    next_io (Response_looseMarshal w nest x) (
    nest p)"

definition DataResponse_looseUnmarshal ::
  "wire_format \<Rightarrow> (data_structure option io) \<Rightarrow> DataResponse \<Rightarrow> (DataResponse \<times> data_structure option) io" where
  "DataResponse_looseUnmarshal w nest x =
    bind_io (Response_looseUnmarshal w nest x) (\<lambda>x.
    bind_io nest (\<lambda>v1.
    ret (x, v1)))"

definition ProducerAck_tightMarshal1 ::
  "wire_format \<Rightarrow> (data_structure option \<Rightarrow> 32 word io) \<Rightarrow> ProducerAck \<Rightarrow> 32 word io" where
  "ProducerAck_tightMarshal1 w nest x =
    bind_io (BaseCommand_tightMarshal1 w nest x) (\<lambda>rc.
    bind_io (if version w \<ge> 3 then nest (map_option DProducerId (ProducerAck_producerId x)) else ret 0) (\<lambda>n1.
    ret (rc + n1 + 4)))"

definition ProducerAck_tightMarshal2 ::
  "wire_format \<Rightarrow> (data_structure option \<Rightarrow> unit io) \<Rightarrow> ProducerAck \<Rightarrow> unit io" where
  "ProducerAck_tightMarshal2 w nest x =
    next_io (BaseCommand_tightMarshal2 w nest x) (
    next_io (if version w \<ge> 3 then nest (map_option DProducerId (ProducerAck_producerId x)) else ret ()) (
    if version w \<ge> 3 then writeInt (ProducerAck_size x) else ret ()))"

definition ProducerAck_tightUnmarshal ::
  "wire_format \<Rightarrow> (data_structure option io) \<Rightarrow> ProducerAck \<Rightarrow> ProducerAck io" where
  "ProducerAck_tightUnmarshal w nest x =
    bind_io (BaseCommand_tightUnmarshal w nest x) (\<lambda>x.
    bind_io (if version w \<ge> 3 then bind_io nest (\<lambda>d. ret (as_ProducerId d)) else ret (ProducerAck_producerId x)) (\<lambda>v1.
    bind_io (if version w \<ge> 3 then readInt else ret (ProducerAck_size x)) (\<lambda>v2.
    ret (x\<lparr>ProducerAck_producerId := v1, ProducerAck_size := v2\<rparr>))))"

definition ProducerAck_looseMarshal ::
  "wire_format \<Rightarrow> (data_structure option \<Rightarrow> unit io) \<Rightarrow> ProducerAck \<Rightarrow> unit io" where
  "ProducerAck_looseMarshal w nest x =
    next_io (BaseCommand_looseMarshal w nest x) (
    next_io (if version w \<ge> 3 then nest (map_option DProducerId (ProducerAck_producerId x)) else ret ()) (
    if version w \<ge> 3 then writeInt (ProducerAck_size x) else ret ()))"

definition ProducerAck_looseUnmarshal ::
  "wire_format \<Rightarrow> (data_structure option io) \<Rightarrow> ProducerAck \<Rightarrow> ProducerAck io" where
  "ProducerAck_looseUnmarshal w nest x =
    bind_io (BaseCommand_looseUnmarshal w nest x) (\<lambda>x.
    bind_io (if version w \<ge> 3 then bind_io nest (\<lambda>d. ret (as_ProducerId d)) else ret (ProducerAck_producerId x)) (\<lambda>v1.
    bind_io (if version w \<ge> 3 then readInt else ret (ProducerAck_size x)) (\<lambda>v2.
    ret (x\<lparr>ProducerAck_producerId := v1, ProducerAck_size := v2\<rparr>))))"

definition ConnectionError_tightMarshal1 ::
  "wire_format \<Rightarrow> (data_structure option \<Rightarrow> 32 word io) \<Rightarrow> ConnectionError \<Rightarrow> 32 word io" where
  "ConnectionError_tightMarshal1 w nest x =
    bind_io (BaseCommand_tightMarshal1 w nest x) (\<lambda>rc.
    bind_io (tightMarshalBrokerError1 w (ConnectionError_exception x)) (\<lambda>n1.
    bind_io (nest (map_option DConnectionId (ConnectionError_connectionId x))) (\<lambda>n2.
    ret (rc + n1 + n2 + 0))))"

definition ConnectionError_tightMarshal2 ::
  "wire_format \<Rightarrow> (data_structure option \<Rightarrow> unit io) \<Rightarrow> ConnectionError \<Rightarrow> unit io" where
  "ConnectionError_tightMarshal2 w nest x =
    next_io (BaseCommand_tightMarshal2 w nest x) (
    next_io (tightMarshalBrokerError2 w (ConnectionError_exception x)) (
    nest (map_option DConnectionId (ConnectionError_connectionId x))))"

definition ConnectionError_tightUnmarshal ::
  "wire_format \<Rightarrow> (data_structure option io) \<Rightarrow> ConnectionError \<Rightarrow> ConnectionError io" where
  "ConnectionError_tightUnmarshal w nest x =
    bind_io (BaseCommand_tightUnmarshal w nest x) (\<lambda>x.
    bind_io (tightUnmarshalBrokerError w) (\<lambda>v1.
    bind_io nest (\<lambda>v2.
    ret (x\<lparr>ConnectionError_exception := v1, ConnectionError_connectionId := as_ConnectionId
      v2\<rparr>))))"

definition ConnectionError_looseMarshal ::
  "wire_format \<Rightarrow> (data_structure option \<Rightarrow> unit io) \<Rightarrow> ConnectionError \<Rightarrow> unit io" where
  "ConnectionError_looseMarshal w nest x =
    next_io (BaseCommand_looseMarshal w nest x) (
    next_io (looseMarshalBrokerError w (ConnectionError_exception x)) (
    nest (map_option DConnectionId (ConnectionError_connectionId x))))"

definition ConnectionError_looseUnmarshal ::
  "wire_format \<Rightarrow> (data_structure option io) \<Rightarrow> ConnectionError \<Rightarrow> ConnectionError io" where
  "ConnectionError_looseUnmarshal w nest x =
    bind_io (BaseCommand_looseUnmarshal w nest x) (\<lambda>x.
    bind_io (looseUnmarshalBrokerError w) (\<lambda>v1.
    bind_io nest (\<lambda>v2.
    ret (x\<lparr>ConnectionError_exception := v1, ConnectionError_connectionId := as_ConnectionId
      v2\<rparr>))))"

definition ConsumerControl_tightMarshal1 ::
  "wire_format \<Rightarrow> (data_structure option \<Rightarrow> 32 word io) \<Rightarrow> ConsumerControl \<Rightarrow> 32 word io" where
  "ConsumerControl_tightMarshal1 w nest x =
    bind_io (BaseCommand_tightMarshal1 w nest x) (\<lambda>rc.
    bind_io (if version w \<ge> 6 then nest (map_option DDestination (ConsumerControl_destination x)) else ret 0) (\<lambda>n1.
    next_io (writeBoolean (ConsumerControl_close x)) (
    bind_io (nest (map_option DConsumerId (ConsumerControl_consumerId x))) (\<lambda>n2.
    next_io (if version w \<ge> 2 then writeBoolean (ConsumerControl_flush x) else ret ()) (
    next_io (if version w \<ge> 2 then writeBoolean (ConsumerControl_start x) else ret ()) (
    next_io (if version w \<ge> 2 then writeBoolean (ConsumerControl_stop x) else ret ()) (
    ret (rc + n1 + n2 + 4))))))))"

definition ConsumerControl_tightMarshal2 ::
  "wire_format \<Rightarrow> (data_structure option \<Rightarrow> unit io) \<Rightarrow> ConsumerControl \<Rightarrow> unit io" where
  "ConsumerControl_tightMarshal2 w nest x =
    next_io (BaseCommand_tightMarshal2 w nest x) (
    next_io (if version w \<ge> 6 then nest (map_option DDestination (ConsumerControl_destination x)) else ret ()) (
    next_io skip_boolean (
    next_io (nest (map_option DConsumerId (ConsumerControl_consumerId x))) (
    next_io (writeInt (ConsumerControl_prefetch x)) (
    next_io (if version w \<ge> 2 then skip_boolean else ret ()) (
    next_io (if version w \<ge> 2 then skip_boolean else ret ()) (
    if version w \<ge> 2 then skip_boolean else ret ())))))))"

definition ConsumerControl_tightUnmarshal ::
  "wire_format \<Rightarrow> (data_structure option io) \<Rightarrow> ConsumerControl \<Rightarrow> ConsumerControl io" where
  "ConsumerControl_tightUnmarshal w nest x =
    bind_io (BaseCommand_tightUnmarshal w nest x) (\<lambda>x.
    bind_io (if version w \<ge> 6 then bind_io nest (\<lambda>d. ret (as_Destination d)) else ret (ConsumerControl_destination x)) (\<lambda>v1.
    bind_io readBoolean (\<lambda>v2.
    bind_io nest (\<lambda>v3.
    bind_io readInt (\<lambda>v4.
    bind_io (if version w \<ge> 2 then readBoolean else ret (ConsumerControl_flush x)) (\<lambda>v5.
    bind_io (if version w \<ge> 2 then readBoolean else ret (ConsumerControl_start x)) (\<lambda>v6.
    bind_io (if version w \<ge> 2 then readBoolean else ret (ConsumerControl_stop x)) (\<lambda>v7.
    ret (x\<lparr>ConsumerControl_destination := v1, ConsumerControl_close := v2,
      ConsumerControl_consumerId := as_ConsumerId v3, ConsumerControl_prefetch := v4,
      ConsumerControl_flush := v5, ConsumerControl_start := v6, ConsumerControl_stop := v7\<rparr>)))))))))"

definition ConsumerControl_looseMarshal ::
  "wire_format \<Rightarrow> (data_structure option \<Rightarrow> unit io) \<Rightarrow> ConsumerControl \<Rightarrow> unit io" where
  "ConsumerControl_looseMarshal w nest x =
    next_io (BaseCommand_looseMarshal w nest x) (
    next_io (if version w \<ge> 6 then nest (map_option DDestination (ConsumerControl_destination x)) else ret ()) (
    next_io (out_writeBoolean (ConsumerControl_close x)) (
    next_io (nest (map_option DConsumerId (ConsumerControl_consumerId x))) (
    next_io (writeInt (ConsumerControl_prefetch x)) (
    next_io (if version w \<ge> 2 then out_writeBoolean (ConsumerControl_flush x) else ret ()) (
    next_io (if version w \<ge> 2 then out_writeBoolean (ConsumerControl_start x) else ret ()) (
    if version w \<ge> 2 then out_writeBoolean (ConsumerControl_stop x) else ret ())))))))"

definition ConsumerControl_looseUnmarshal ::
  "wire_format \<Rightarrow> (data_structure option io) \<Rightarrow> ConsumerControl \<Rightarrow> ConsumerControl io" where
  "ConsumerControl_looseUnmarshal w nest x =
    bind_io (BaseCommand_looseUnmarshal w nest x) (\<lambda>x.
    bind_io (if version w \<ge> 6 then bind_io nest (\<lambda>d. ret (as_Destination d)) else ret (ConsumerControl_destination x)) (\<lambda>v1.
    bind_io in_readBoolean (\<lambda>v2.
    bind_io nest (\<lambda>v3.
    bind_io readInt (\<lambda>v4.
    bind_io (if version w \<ge> 2 then in_readBoolean else ret (ConsumerControl_flush x)) (\<lambda>v5.
    bind_io (if version w \<ge> 2 then in_readBoolean else ret (ConsumerControl_start x)) (\<lambda>v6.
    bind_io (if version w \<ge> 2 then in_readBoolean else ret (ConsumerControl_stop x)) (\<lambda>v7.
    ret (x\<lparr>ConsumerControl_destination := v1, ConsumerControl_close := v2,
      ConsumerControl_consumerId := as_ConsumerId v3, ConsumerControl_prefetch := v4,
      ConsumerControl_flush := v5, ConsumerControl_start := v6, ConsumerControl_stop := v7\<rparr>)))))))))"

definition ConnectionControl_tightMarshal1 ::
  "wire_format \<Rightarrow> (data_structure option \<Rightarrow> 32 word io) \<Rightarrow> ConnectionControl \<Rightarrow> 32 word io" where
  "ConnectionControl_tightMarshal1 w nest x =
    bind_io (BaseCommand_tightMarshal1 w nest x) (\<lambda>rc.
    next_io (writeBoolean (ConnectionControl_close x)) (
    next_io (writeBoolean (ConnectionControl_exit x)) (
    next_io (writeBoolean (ConnectionControl_faultTolerant x)) (
    next_io (writeBoolean (ConnectionControl_resume x)) (
    next_io (writeBoolean (ConnectionControl_suspend x)) (
    bind_io (if version w \<ge> 6 then tightMarshalString1 (ConnectionControl_connectedBrokers x) else ret 0) (\<lambda>n1.
    bind_io (if version w \<ge> 6 then tightMarshalString1 (ConnectionControl_reconnectTo x) else ret 0) (\<lambda>n2.
    next_io (if version w \<ge> 6 then writeBoolean (ConnectionControl_rebalanceConnection x) else ret ()) (
    bind_io (if version w \<ge> 8 then tightMarshalByteArray1 (ConnectionControl_token x) else ret 0) (\<lambda>n3.
    ret (rc + n1 + n2 + n3 + 0)))))))))))"

definition ConnectionControl_tightMarshal2 ::
  "wire_format \<Rightarrow> (data_structure option \<Rightarrow> unit io) \<Rightarrow> ConnectionControl \<Rightarrow> unit io" where
  "ConnectionControl_tightMarshal2 w nest x =
    next_io (BaseCommand_tightMarshal2 w nest x) (
    next_io skip_boolean (
    next_io skip_boolean (
    next_io skip_boolean (
    next_io skip_boolean (
    next_io skip_boolean (
    next_io (if version w \<ge> 6 then tightMarshalString2 (ConnectionControl_connectedBrokers x) else ret ()) (
    next_io (if version w \<ge> 6 then tightMarshalString2 (ConnectionControl_reconnectTo x) else ret ()) (
    next_io (if version w \<ge> 6 then skip_boolean else ret ()) (
    if version w \<ge> 8 then tightMarshalByteArray2 (ConnectionControl_token x) else ret ())))))))))"

definition ConnectionControl_tightUnmarshal ::
  "wire_format \<Rightarrow> (data_structure option io) \<Rightarrow> ConnectionControl \<Rightarrow> ConnectionControl io" where
  "ConnectionControl_tightUnmarshal w nest x =
    bind_io (BaseCommand_tightUnmarshal w nest x) (\<lambda>x.
    bind_io readBoolean (\<lambda>v1.
    bind_io readBoolean (\<lambda>v2.
    bind_io readBoolean (\<lambda>v3.
    bind_io readBoolean (\<lambda>v4.
    bind_io readBoolean (\<lambda>v5.
    bind_io (if version w \<ge> 6 then tightUnmarshalString else ret (ConnectionControl_connectedBrokers x)) (\<lambda>v6.
    bind_io (if version w \<ge> 6 then tightUnmarshalString else ret (ConnectionControl_reconnectTo x)) (\<lambda>v7.
    bind_io (if version w \<ge> 6 then readBoolean else ret (ConnectionControl_rebalanceConnection x)) (\<lambda>v8.
    bind_io (if version w \<ge> 8 then tightUnmarshalByteArray else ret (ConnectionControl_token x)) (\<lambda>v9.
    ret (x\<lparr>ConnectionControl_close := v1, ConnectionControl_exit := v2,
      ConnectionControl_faultTolerant := v3, ConnectionControl_resume := v4, ConnectionControl_suspend :=
      v5, ConnectionControl_connectedBrokers := v6, ConnectionControl_reconnectTo := v7,
      ConnectionControl_rebalanceConnection := v8, ConnectionControl_token := v9\<rparr>)))))))))))"

definition ConnectionControl_looseMarshal ::
  "wire_format \<Rightarrow> (data_structure option \<Rightarrow> unit io) \<Rightarrow> ConnectionControl \<Rightarrow> unit io" where
  "ConnectionControl_looseMarshal w nest x =
    next_io (BaseCommand_looseMarshal w nest x) (
    next_io (out_writeBoolean (ConnectionControl_close x)) (
    next_io (out_writeBoolean (ConnectionControl_exit x)) (
    next_io (out_writeBoolean (ConnectionControl_faultTolerant x)) (
    next_io (out_writeBoolean (ConnectionControl_resume x)) (
    next_io (out_writeBoolean (ConnectionControl_suspend x)) (
    next_io (if version w \<ge> 6 then looseMarshalString (ConnectionControl_connectedBrokers x) else ret ()) (
    next_io (if version w \<ge> 6 then looseMarshalString (ConnectionControl_reconnectTo x) else ret ()) (
    next_io (if version w \<ge> 6 then out_writeBoolean (ConnectionControl_rebalanceConnection x) else ret ()) (
    if version w \<ge> 8 then looseMarshalByteArray (ConnectionControl_token x) else ret ())))))))))"

definition ConnectionControl_looseUnmarshal ::
  "wire_format \<Rightarrow> (data_structure option io) \<Rightarrow> ConnectionControl \<Rightarrow> ConnectionControl io" where
  "ConnectionControl_looseUnmarshal w nest x =
    bind_io (BaseCommand_looseUnmarshal w nest x) (\<lambda>x.
    bind_io in_readBoolean (\<lambda>v1.
    bind_io in_readBoolean (\<lambda>v2.
    bind_io in_readBoolean (\<lambda>v3.
    bind_io in_readBoolean (\<lambda>v4.
    bind_io in_readBoolean (\<lambda>v5.
    bind_io (if version w \<ge> 6 then looseUnmarshalString else ret (ConnectionControl_connectedBrokers x)) (\<lambda>v6.
    bind_io (if version w \<ge> 6 then looseUnmarshalString else ret (ConnectionControl_reconnectTo x)) (\<lambda>v7.
    bind_io (if version w \<ge> 6 then in_readBoolean else ret (ConnectionControl_rebalanceConnection x)) (\<lambda>v8.
    bind_io (if version w \<ge> 8 then looseUnmarshalByteArray else ret (ConnectionControl_token x)) (\<lambda>v9.
    ret (x\<lparr>ConnectionControl_close := v1, ConnectionControl_exit := v2,
      ConnectionControl_faultTolerant := v3, ConnectionControl_resume := v4, ConnectionControl_suspend :=
      v5, ConnectionControl_connectedBrokers := v6, ConnectionControl_reconnectTo := v7,
      ConnectionControl_rebalanceConnection := v8, ConnectionControl_token := v9\<rparr>)))))))))))"

definition ControlCommand_tightMarshal1 ::
  "wire_format \<Rightarrow> (data_structure option \<Rightarrow> 32 word io) \<Rightarrow> ControlCommand \<Rightarrow> 32 word io" where
  "ControlCommand_tightMarshal1 w nest x =
    bind_io (BaseCommand_tightMarshal1 w nest x) (\<lambda>rc.
    bind_io (tightMarshalString1 (ControlCommand_command x)) (\<lambda>n1.
    ret (rc + n1 + 0)))"

definition ControlCommand_tightMarshal2 ::
  "wire_format \<Rightarrow> (data_structure option \<Rightarrow> unit io) \<Rightarrow> ControlCommand \<Rightarrow> unit io" where
  "ControlCommand_tightMarshal2 w nest x =
    next_io (BaseCommand_tightMarshal2 w nest x) (
    tightMarshalString2 (ControlCommand_command x))"

definition ControlCommand_tightUnmarshal ::
  "wire_format \<Rightarrow> (data_structure option io) \<Rightarrow> ControlCommand \<Rightarrow> ControlCommand io" where
  "ControlCommand_tightUnmarshal w nest x =
    bind_io (BaseCommand_tightUnmarshal w nest x) (\<lambda>x.
    bind_io tightUnmarshalString (\<lambda>v1.
    ret (x\<lparr>ControlCommand_command := v1\<rparr>)))"

definition ControlCommand_looseMarshal ::
  "wire_format \<Rightarrow> (data_structure option \<Rightarrow> unit io) \<Rightarrow> ControlCommand \<Rightarrow> unit io" where
  "ControlCommand_looseMarshal w nest x =
    next_io (BaseCommand_looseMarshal w nest x) (
    looseMarshalString (ControlCommand_command x))"

definition ControlCommand_looseUnmarshal ::
  "wire_format \<Rightarrow> (data_structure option io) \<Rightarrow> ControlCommand \<Rightarrow> ControlCommand io" where
  "ControlCommand_looseUnmarshal w nest x =
    bind_io (BaseCommand_looseUnmarshal w nest x) (\<lambda>x.
    bind_io looseUnmarshalString (\<lambda>v1.
    ret (x\<lparr>ControlCommand_command := v1\<rparr>)))"

definition MessageDispatchNotification_tightMarshal1 ::
  "wire_format \<Rightarrow> (data_structure option \<Rightarrow> 32 word io) \<Rightarrow> MessageDispatchNotification \<Rightarrow> 32 word io" where
  "MessageDispatchNotification_tightMarshal1 w nest x =
    bind_io (BaseCommand_tightMarshal1 w nest x) (\<lambda>rc.
    bind_io (nest (map_option DConsumerId (MessageDispatchNotification_consumerId x))) (\<lambda>n1.
    bind_io (nest (map_option DDestination (MessageDispatchNotification_destination x))) (\<lambda>n2.
    bind_io (tightMarshalLong1 (MessageDispatchNotification_deliverySequenceId x)) (\<lambda>n3.
    bind_io (nest (map_option DMessageId (MessageDispatchNotification_messageId x))) (\<lambda>n4.
    ret (rc + n1 + n2 + n3 + n4 + 0))))))"

definition MessageDispatchNotification_tightMarshal2 ::
  "wire_format \<Rightarrow> (data_structure option \<Rightarrow> unit io) \<Rightarrow> MessageDispatchNotification \<Rightarrow> unit io" where
  "MessageDispatchNotification_tightMarshal2 w nest x =
    next_io (BaseCommand_tightMarshal2 w nest x) (
    next_io (nest (map_option DConsumerId (MessageDispatchNotification_consumerId x))) (
    next_io (nest (map_option DDestination (MessageDispatchNotification_destination x))) (
    next_io (tightMarshalLong2 (MessageDispatchNotification_deliverySequenceId x)) (
    nest (map_option DMessageId (MessageDispatchNotification_messageId x))))))"

definition MessageDispatchNotification_tightUnmarshal ::
  "wire_format \<Rightarrow> (data_structure option io) \<Rightarrow> MessageDispatchNotification \<Rightarrow> MessageDispatchNotification io" where
  "MessageDispatchNotification_tightUnmarshal w nest x =
    bind_io (BaseCommand_tightUnmarshal w nest x) (\<lambda>x.
    bind_io nest (\<lambda>v1.
    bind_io nest (\<lambda>v2.
    bind_io tightUnmarshalLong (\<lambda>v3.
    bind_io nest (\<lambda>v4.
    ret (x\<lparr>MessageDispatchNotification_consumerId := as_ConsumerId v1,
      MessageDispatchNotification_destination := as_Destination v2,
      MessageDispatchNotification_deliverySequenceId := v3, MessageDispatchNotification_messageId :=
      as_MessageId v4\<rparr>))))))"

definition MessageDispatchNotification_looseMarshal ::
  "wire_format \<Rightarrow> (data_structure option \<Rightarrow> unit io) \<Rightarrow> MessageDispatchNotification \<Rightarrow> unit io" where
  "MessageDispatchNotification_looseMarshal w nest x =
    next_io (BaseCommand_looseMarshal w nest x) (
    next_io (nest (map_option DConsumerId (MessageDispatchNotification_consumerId x))) (
    next_io (nest (map_option DDestination (MessageDispatchNotification_destination x))) (
    next_io (looseMarshalLong (MessageDispatchNotification_deliverySequenceId x)) (
    nest (map_option DMessageId (MessageDispatchNotification_messageId x))))))"

definition MessageDispatchNotification_looseUnmarshal ::
  "wire_format \<Rightarrow> (data_structure option io) \<Rightarrow> MessageDispatchNotification \<Rightarrow> MessageDispatchNotification io" where
  "MessageDispatchNotification_looseUnmarshal w nest x =
    bind_io (BaseCommand_looseUnmarshal w nest x) (\<lambda>x.
    bind_io nest (\<lambda>v1.
    bind_io nest (\<lambda>v2.
    bind_io looseUnmarshalLong (\<lambda>v3.
    bind_io nest (\<lambda>v4.
    ret (x\<lparr>MessageDispatchNotification_consumerId := as_ConsumerId v1,
      MessageDispatchNotification_destination := as_Destination v2,
      MessageDispatchNotification_deliverySequenceId := v3, MessageDispatchNotification_messageId :=
      as_MessageId v4\<rparr>))))))"

definition SubscriptionInfo_tightMarshal1 ::
  "wire_format \<Rightarrow> (data_structure option \<Rightarrow> 32 word io) \<Rightarrow> SubscriptionInfo \<Rightarrow> 32 word io" where
  "SubscriptionInfo_tightMarshal1 w nest x =
    bind_io (tightMarshalString1 (SubscriptionInfo_clientId x)) (\<lambda>n1.
    bind_io (nest (map_option DDestination (SubscriptionInfo_destination x))) (\<lambda>n2.
    bind_io (tightMarshalString1 (SubscriptionInfo_selector x)) (\<lambda>n3.
    bind_io (tightMarshalString1 (SubscriptionInfo_subcriptionName x)) (\<lambda>n4.
    bind_io (if version w \<ge> 3 then nest (map_option DDestination (SubscriptionInfo_subscribedDestination x)) else ret 0) (\<lambda>n5.
    next_io (if version w \<ge> 11 then writeBoolean (SubscriptionInfo_noLocal x) else ret ()) (
    ret (n1 + n2 + n3 + n4 + n5 + 0)))))))"

definition SubscriptionInfo_tightMarshal2 ::
  "wire_format \<Rightarrow> (data_structure option \<Rightarrow> unit io) \<Rightarrow> SubscriptionInfo \<Rightarrow> unit io" where
  "SubscriptionInfo_tightMarshal2 w nest x =
    next_io (tightMarshalString2 (SubscriptionInfo_clientId x)) (
    next_io (nest (map_option DDestination (SubscriptionInfo_destination x))) (
    next_io (tightMarshalString2 (SubscriptionInfo_selector x)) (
    next_io (tightMarshalString2 (SubscriptionInfo_subcriptionName x)) (
    next_io (if version w \<ge> 3 then nest (map_option DDestination (SubscriptionInfo_subscribedDestination x)) else ret ()) (
    if version w \<ge> 11 then skip_boolean else ret ())))))"

definition SubscriptionInfo_tightUnmarshal ::
  "wire_format \<Rightarrow> (data_structure option io) \<Rightarrow> SubscriptionInfo \<Rightarrow> SubscriptionInfo io" where
  "SubscriptionInfo_tightUnmarshal w nest x =
    bind_io tightUnmarshalString (\<lambda>v1.
    bind_io nest (\<lambda>v2.
    bind_io tightUnmarshalString (\<lambda>v3.
    bind_io tightUnmarshalString (\<lambda>v4.
    bind_io (if version w \<ge> 3 then bind_io nest (\<lambda>d. ret (as_Destination d)) else ret (SubscriptionInfo_subscribedDestination x)) (\<lambda>v5.
    bind_io (if version w \<ge> 11 then readBoolean else ret (SubscriptionInfo_noLocal x)) (\<lambda>v6.
    ret (x\<lparr>SubscriptionInfo_clientId := v1, SubscriptionInfo_destination := as_Destination v2,
      SubscriptionInfo_selector := v3, SubscriptionInfo_subcriptionName := v4,
      SubscriptionInfo_subscribedDestination := v5, SubscriptionInfo_noLocal := v6\<rparr>)))))))"

definition SubscriptionInfo_looseMarshal ::
  "wire_format \<Rightarrow> (data_structure option \<Rightarrow> unit io) \<Rightarrow> SubscriptionInfo \<Rightarrow> unit io" where
  "SubscriptionInfo_looseMarshal w nest x =
    next_io (looseMarshalString (SubscriptionInfo_clientId x)) (
    next_io (nest (map_option DDestination (SubscriptionInfo_destination x))) (
    next_io (looseMarshalString (SubscriptionInfo_selector x)) (
    next_io (looseMarshalString (SubscriptionInfo_subcriptionName x)) (
    next_io (if version w \<ge> 3 then nest (map_option DDestination (SubscriptionInfo_subscribedDestination x)) else ret ()) (
    if version w \<ge> 11 then out_writeBoolean (SubscriptionInfo_noLocal x) else ret ())))))"

definition SubscriptionInfo_looseUnmarshal ::
  "wire_format \<Rightarrow> (data_structure option io) \<Rightarrow> SubscriptionInfo \<Rightarrow> SubscriptionInfo io" where
  "SubscriptionInfo_looseUnmarshal w nest x =
    bind_io looseUnmarshalString (\<lambda>v1.
    bind_io nest (\<lambda>v2.
    bind_io looseUnmarshalString (\<lambda>v3.
    bind_io looseUnmarshalString (\<lambda>v4.
    bind_io (if version w \<ge> 3 then bind_io nest (\<lambda>d. ret (as_Destination d)) else ret (SubscriptionInfo_subscribedDestination x)) (\<lambda>v5.
    bind_io (if version w \<ge> 11 then in_readBoolean else ret (SubscriptionInfo_noLocal x)) (\<lambda>v6.
    ret (x\<lparr>SubscriptionInfo_clientId := v1, SubscriptionInfo_destination := as_Destination v2,
      SubscriptionInfo_selector := v3, SubscriptionInfo_subcriptionName := v4,
      SubscriptionInfo_subscribedDestination := v5, SubscriptionInfo_noLocal := v6\<rparr>)))))))"

definition FlushCommand_tightMarshal1 ::
  "wire_format \<Rightarrow> (data_structure option \<Rightarrow> 32 word io) \<Rightarrow> FlushCommand \<Rightarrow> 32 word io" where
  "FlushCommand_tightMarshal1 w nest x =
    bind_io (BaseCommand_tightMarshal1 w nest x) (\<lambda>rc.
    ret (rc + 0))"

definition FlushCommand_tightMarshal2 ::
  "wire_format \<Rightarrow> (data_structure option \<Rightarrow> unit io) \<Rightarrow> FlushCommand \<Rightarrow> unit io" where
  "FlushCommand_tightMarshal2 w nest x =
    BaseCommand_tightMarshal2 w nest x"

definition FlushCommand_tightUnmarshal ::
  "wire_format \<Rightarrow> (data_structure option io) \<Rightarrow> FlushCommand \<Rightarrow> FlushCommand io" where
  "FlushCommand_tightUnmarshal w nest x =
    bind_io (BaseCommand_tightUnmarshal w nest x) (\<lambda>x.
    ret (x))"

definition FlushCommand_looseMarshal ::
  "wire_format \<Rightarrow> (data_structure option \<Rightarrow> unit io) \<Rightarrow> FlushCommand \<Rightarrow> unit io" where
  "FlushCommand_looseMarshal w nest x =
    BaseCommand_looseMarshal w nest x"

definition FlushCommand_looseUnmarshal ::
  "wire_format \<Rightarrow> (data_structure option io) \<Rightarrow> FlushCommand \<Rightarrow> FlushCommand io" where
  "FlushCommand_looseUnmarshal w nest x =
    bind_io (BaseCommand_looseUnmarshal w nest x) (\<lambda>x.
    ret (x))"

definition ReplayCommand_tightMarshal1 ::
  "wire_format \<Rightarrow> (data_structure option \<Rightarrow> 32 word io) \<Rightarrow> ReplayCommand \<Rightarrow> 32 word io" where
  "ReplayCommand_tightMarshal1 w nest x =
    bind_io (BaseCommand_tightMarshal1 w nest x) (\<lambda>rc.
    ret (rc + 8))"

definition ReplayCommand_tightMarshal2 ::
  "wire_format \<Rightarrow> (data_structure option \<Rightarrow> unit io) \<Rightarrow> ReplayCommand \<Rightarrow> unit io" where
  "ReplayCommand_tightMarshal2 w nest x =
    next_io (BaseCommand_tightMarshal2 w nest x) (
    next_io (writeInt (ReplayCommand_firstNakNumber x)) (
    writeInt (ReplayCommand_lastNakNumber x)))"

definition ReplayCommand_tightUnmarshal ::
  "wire_format \<Rightarrow> (data_structure option io) \<Rightarrow> ReplayCommand \<Rightarrow> ReplayCommand io" where
  "ReplayCommand_tightUnmarshal w nest x =
    bind_io (BaseCommand_tightUnmarshal w nest x) (\<lambda>x.
    bind_io readInt (\<lambda>v1.
    bind_io readInt (\<lambda>v2.
    ret (x\<lparr>ReplayCommand_firstNakNumber := v1, ReplayCommand_lastNakNumber := v2\<rparr>))))"

definition ReplayCommand_looseMarshal ::
  "wire_format \<Rightarrow> (data_structure option \<Rightarrow> unit io) \<Rightarrow> ReplayCommand \<Rightarrow> unit io" where
  "ReplayCommand_looseMarshal w nest x =
    next_io (BaseCommand_looseMarshal w nest x) (
    next_io (writeInt (ReplayCommand_firstNakNumber x)) (
    writeInt (ReplayCommand_lastNakNumber x)))"

definition ReplayCommand_looseUnmarshal ::
  "wire_format \<Rightarrow> (data_structure option io) \<Rightarrow> ReplayCommand \<Rightarrow> ReplayCommand io" where
  "ReplayCommand_looseUnmarshal w nest x =
    bind_io (BaseCommand_looseUnmarshal w nest x) (\<lambda>x.
    bind_io readInt (\<lambda>v1.
    bind_io readInt (\<lambda>v2.
    ret (x\<lparr>ReplayCommand_firstNakNumber := v1, ReplayCommand_lastNakNumber := v2\<rparr>))))"

definition PartialCommand_tightMarshal1 ::
  "wire_format \<Rightarrow> (data_structure option \<Rightarrow> 32 word io) \<Rightarrow> 'a PartialCommand_scheme \<Rightarrow> 32 word io" where
  "PartialCommand_tightMarshal1 w nest x =
    bind_io (tightMarshalByteArray1 (PartialCommand_data x)) (\<lambda>n1.
    ret (n1 + 4))"

definition PartialCommand_tightMarshal2 ::
  "wire_format \<Rightarrow> (data_structure option \<Rightarrow> unit io) \<Rightarrow> 'a PartialCommand_scheme \<Rightarrow> unit io" where
  "PartialCommand_tightMarshal2 w nest x =
    next_io (writeInt (PartialCommand_commandId x)) (
    tightMarshalByteArray2 (PartialCommand_data x))"

definition PartialCommand_tightUnmarshal ::
  "wire_format \<Rightarrow> (data_structure option io) \<Rightarrow> 'a PartialCommand_scheme \<Rightarrow> 'a PartialCommand_scheme io" where
  "PartialCommand_tightUnmarshal w nest x =
    bind_io readInt (\<lambda>v1.
    bind_io tightUnmarshalByteArray (\<lambda>v2.
    ret (x\<lparr>PartialCommand_commandId := v1, PartialCommand_data := v2\<rparr>)))"

definition PartialCommand_looseMarshal ::
  "wire_format \<Rightarrow> (data_structure option \<Rightarrow> unit io) \<Rightarrow> 'a PartialCommand_scheme \<Rightarrow> unit io" where
  "PartialCommand_looseMarshal w nest x =
    next_io (writeInt (PartialCommand_commandId x)) (
    looseMarshalByteArray (PartialCommand_data x))"

definition PartialCommand_looseUnmarshal ::
  "wire_format \<Rightarrow> (data_structure option io) \<Rightarrow> 'a PartialCommand_scheme \<Rightarrow> 'a PartialCommand_scheme io" where
  "PartialCommand_looseUnmarshal w nest x =
    bind_io readInt (\<lambda>v1.
    bind_io looseUnmarshalByteArray (\<lambda>v2.
    ret (x\<lparr>PartialCommand_commandId := v1, PartialCommand_data := v2\<rparr>)))"

definition LastPartialCommand_tightMarshal1 ::
  "wire_format \<Rightarrow> (data_structure option \<Rightarrow> 32 word io) \<Rightarrow> LastPartialCommand \<Rightarrow> 32 word io" where
  "LastPartialCommand_tightMarshal1 w nest x =
    bind_io (PartialCommand_tightMarshal1 w nest x) (\<lambda>rc.
    ret (rc + 0))"

definition LastPartialCommand_tightMarshal2 ::
  "wire_format \<Rightarrow> (data_structure option \<Rightarrow> unit io) \<Rightarrow> LastPartialCommand \<Rightarrow> unit io" where
  "LastPartialCommand_tightMarshal2 w nest x =
    PartialCommand_tightMarshal2 w nest x"

definition LastPartialCommand_tightUnmarshal ::
  "wire_format \<Rightarrow> (data_structure option io) \<Rightarrow> LastPartialCommand \<Rightarrow> LastPartialCommand io" where
  "LastPartialCommand_tightUnmarshal w nest x =
    bind_io (PartialCommand_tightUnmarshal w nest x) (\<lambda>x.
    ret (x))"

definition LastPartialCommand_looseMarshal ::
  "wire_format \<Rightarrow> (data_structure option \<Rightarrow> unit io) \<Rightarrow> LastPartialCommand \<Rightarrow> unit io" where
  "LastPartialCommand_looseMarshal w nest x =
    PartialCommand_looseMarshal w nest x"

definition LastPartialCommand_looseUnmarshal ::
  "wire_format \<Rightarrow> (data_structure option io) \<Rightarrow> LastPartialCommand \<Rightarrow> LastPartialCommand io" where
  "LastPartialCommand_looseUnmarshal w nest x =
    bind_io (PartialCommand_looseUnmarshal w nest x) (\<lambda>x.
    ret (x))"

definition DiscoveryEvent_tightMarshal1 ::
  "wire_format \<Rightarrow> (data_structure option \<Rightarrow> 32 word io) \<Rightarrow> DiscoveryEvent \<Rightarrow> 32 word io" where
  "DiscoveryEvent_tightMarshal1 w nest x =
    bind_io (tightMarshalString1 (DiscoveryEvent_serviceName x)) (\<lambda>n1.
    bind_io (tightMarshalString1 (DiscoveryEvent_brokerName x)) (\<lambda>n2.
    ret (n1 + n2 + 0)))"

definition DiscoveryEvent_tightMarshal2 ::
  "wire_format \<Rightarrow> (data_structure option \<Rightarrow> unit io) \<Rightarrow> DiscoveryEvent \<Rightarrow> unit io" where
  "DiscoveryEvent_tightMarshal2 w nest x =
    next_io (tightMarshalString2 (DiscoveryEvent_serviceName x)) (
    tightMarshalString2 (DiscoveryEvent_brokerName x))"

definition DiscoveryEvent_tightUnmarshal ::
  "wire_format \<Rightarrow> (data_structure option io) \<Rightarrow> DiscoveryEvent \<Rightarrow> DiscoveryEvent io" where
  "DiscoveryEvent_tightUnmarshal w nest x =
    bind_io tightUnmarshalString (\<lambda>v1.
    bind_io tightUnmarshalString (\<lambda>v2.
    ret (x\<lparr>DiscoveryEvent_serviceName := v1, DiscoveryEvent_brokerName := v2\<rparr>)))"

definition DiscoveryEvent_looseMarshal ::
  "wire_format \<Rightarrow> (data_structure option \<Rightarrow> unit io) \<Rightarrow> DiscoveryEvent \<Rightarrow> unit io" where
  "DiscoveryEvent_looseMarshal w nest x =
    next_io (looseMarshalString (DiscoveryEvent_serviceName x)) (
    looseMarshalString (DiscoveryEvent_brokerName x))"

definition DiscoveryEvent_looseUnmarshal ::
  "wire_format \<Rightarrow> (data_structure option io) \<Rightarrow> DiscoveryEvent \<Rightarrow> DiscoveryEvent io" where
  "DiscoveryEvent_looseUnmarshal w nest x =
    bind_io looseUnmarshalString (\<lambda>v1.
    bind_io looseUnmarshalString (\<lambda>v2.
    ret (x\<lparr>DiscoveryEvent_serviceName := v1, DiscoveryEvent_brokerName := v2\<rparr>)))"

definition NetworkBridgeFilter_tightMarshal1 ::
  "wire_format \<Rightarrow> (data_structure option \<Rightarrow> 32 word io) \<Rightarrow> NetworkBridgeFilter \<Rightarrow> 32 word io" where
  "NetworkBridgeFilter_tightMarshal1 w nest x =
    bind_io (nest (map_option DBrokerId (NetworkBridgeFilter_networkBrokerId x))) (\<lambda>n1.
    ret (n1 + 8))"

definition NetworkBridgeFilter_tightMarshal2 ::
  "wire_format \<Rightarrow> (data_structure option \<Rightarrow> unit io) \<Rightarrow> NetworkBridgeFilter \<Rightarrow> unit io" where
  "NetworkBridgeFilter_tightMarshal2 w nest x =
    next_io (nest (map_option DBrokerId (NetworkBridgeFilter_networkBrokerId x))) (
    next_io (if version w \<ge> 10 then writeInt (NetworkBridgeFilter_messageTTL x) else ret ()) (
    if version w \<ge> 10 then writeInt (NetworkBridgeFilter_consumerTTL x) else ret ()))"

definition NetworkBridgeFilter_tightUnmarshal ::
  "wire_format \<Rightarrow> (data_structure option io) \<Rightarrow> NetworkBridgeFilter \<Rightarrow> NetworkBridgeFilter io" where
  "NetworkBridgeFilter_tightUnmarshal w nest x =
    bind_io nest (\<lambda>v1.
    bind_io (if version w \<ge> 10 then readInt else ret (NetworkBridgeFilter_messageTTL x)) (\<lambda>v2.
    bind_io (if version w \<ge> 10 then readInt else ret (NetworkBridgeFilter_consumerTTL x)) (\<lambda>v3.
    ret (x\<lparr>NetworkBridgeFilter_networkBrokerId := as_BrokerId v1, NetworkBridgeFilter_messageTTL
      := v2, NetworkBridgeFilter_consumerTTL := v3\<rparr>))))"

definition NetworkBridgeFilter_looseMarshal ::
  "wire_format \<Rightarrow> (data_structure option \<Rightarrow> unit io) \<Rightarrow> NetworkBridgeFilter \<Rightarrow> unit io" where
  "NetworkBridgeFilter_looseMarshal w nest x =
    next_io (nest (map_option DBrokerId (NetworkBridgeFilter_networkBrokerId x))) (
    next_io (if version w \<ge> 10 then writeInt (NetworkBridgeFilter_messageTTL x) else ret ()) (
    if version w \<ge> 10 then writeInt (NetworkBridgeFilter_consumerTTL x) else ret ()))"

definition NetworkBridgeFilter_looseUnmarshal ::
  "wire_format \<Rightarrow> (data_structure option io) \<Rightarrow> NetworkBridgeFilter \<Rightarrow> NetworkBridgeFilter io" where
  "NetworkBridgeFilter_looseUnmarshal w nest x =
    bind_io nest (\<lambda>v1.
    bind_io (if version w \<ge> 10 then readInt else ret (NetworkBridgeFilter_messageTTL x)) (\<lambda>v2.
    bind_io (if version w \<ge> 10 then readInt else ret (NetworkBridgeFilter_consumerTTL x)) (\<lambda>v3.
    ret (x\<lparr>NetworkBridgeFilter_networkBrokerId := as_BrokerId v1, NetworkBridgeFilter_messageTTL
      := v2, NetworkBridgeFilter_consumerTTL := v3\<rparr>))))"

definition JournalQueueAck_tightMarshal1 ::
  "wire_format \<Rightarrow> (data_structure option \<Rightarrow> 32 word io) \<Rightarrow> JournalQueueAck \<Rightarrow> 32 word io" where
  "JournalQueueAck_tightMarshal1 w nest x =
    bind_io (nest (map_option DDestination (JournalQueueAck_destination x))) (\<lambda>n1.
    bind_io (nest (map_option DMessageAck (JournalQueueAck_messageAck x))) (\<lambda>n2.
    ret (n1 + n2 + 0)))"

definition JournalQueueAck_tightMarshal2 ::
  "wire_format \<Rightarrow> (data_structure option \<Rightarrow> unit io) \<Rightarrow> JournalQueueAck \<Rightarrow> unit io" where
  "JournalQueueAck_tightMarshal2 w nest x =
    next_io (nest (map_option DDestination (JournalQueueAck_destination x))) (
    nest (map_option DMessageAck (JournalQueueAck_messageAck x)))"

definition JournalQueueAck_tightUnmarshal ::
  "wire_format \<Rightarrow> (data_structure option io) \<Rightarrow> JournalQueueAck \<Rightarrow> JournalQueueAck io" where
  "JournalQueueAck_tightUnmarshal w nest x =
    bind_io nest (\<lambda>v1.
    bind_io nest (\<lambda>v2.
    ret (x\<lparr>JournalQueueAck_destination := as_Destination v1, JournalQueueAck_messageAck :=
      as_MessageAck v2\<rparr>)))"

definition JournalQueueAck_looseMarshal ::
  "wire_format \<Rightarrow> (data_structure option \<Rightarrow> unit io) \<Rightarrow> JournalQueueAck \<Rightarrow> unit io" where
  "JournalQueueAck_looseMarshal w nest x =
    next_io (nest (map_option DDestination (JournalQueueAck_destination x))) (
    nest (map_option DMessageAck (JournalQueueAck_messageAck x)))"

definition JournalQueueAck_looseUnmarshal ::
  "wire_format \<Rightarrow> (data_structure option io) \<Rightarrow> JournalQueueAck \<Rightarrow> JournalQueueAck io" where
  "JournalQueueAck_looseUnmarshal w nest x =
    bind_io nest (\<lambda>v1.
    bind_io nest (\<lambda>v2.
    ret (x\<lparr>JournalQueueAck_destination := as_Destination v1, JournalQueueAck_messageAck :=
      as_MessageAck v2\<rparr>)))"

definition JournalTopicAck_tightMarshal1 ::
  "wire_format \<Rightarrow> (data_structure option \<Rightarrow> 32 word io) \<Rightarrow> JournalTopicAck \<Rightarrow> 32 word io" where
  "JournalTopicAck_tightMarshal1 w nest x =
    bind_io (nest (map_option DDestination (JournalTopicAck_destination x))) (\<lambda>n1.
    bind_io (nest (map_option DMessageId (JournalTopicAck_messageId x))) (\<lambda>n2.
    bind_io (tightMarshalLong1 (JournalTopicAck_messageSequenceId x)) (\<lambda>n3.
    bind_io (tightMarshalString1 (JournalTopicAck_subscritionName x)) (\<lambda>n4.
    bind_io (tightMarshalString1 (JournalTopicAck_clientId x)) (\<lambda>n5.
    bind_io (nest (map_option DTransactionId (JournalTopicAck_transactionId x))) (\<lambda>n6.
    ret (n1 + n2 + n3 + n4 + n5 + n6 + 0)))))))"

definition JournalTopicAck_tightMarshal2 ::
  "wire_format \<Rightarrow> (data_structure option \<Rightarrow> unit io) \<Rightarrow> JournalTopicAck \<Rightarrow> unit io" where
  "JournalTopicAck_tightMarshal2 w nest x =
    next_io (nest (map_option DDestination (JournalTopicAck_destination x))) (
    next_io (nest (map_option DMessageId (JournalTopicAck_messageId x))) (
    next_io (tightMarshalLong2 (JournalTopicAck_messageSequenceId x)) (
    next_io (tightMarshalString2 (JournalTopicAck_subscritionName x)) (
    next_io (tightMarshalString2 (JournalTopicAck_clientId x)) (
    nest (map_option DTransactionId (JournalTopicAck_transactionId x)))))))"

definition JournalTopicAck_tightUnmarshal ::
  "wire_format \<Rightarrow> (data_structure option io) \<Rightarrow> JournalTopicAck \<Rightarrow> JournalTopicAck io" where
  "JournalTopicAck_tightUnmarshal w nest x =
    bind_io nest (\<lambda>v1.
    bind_io nest (\<lambda>v2.
    bind_io tightUnmarshalLong (\<lambda>v3.
    bind_io tightUnmarshalString (\<lambda>v4.
    bind_io tightUnmarshalString (\<lambda>v5.
    bind_io nest (\<lambda>v6.
    ret (x\<lparr>JournalTopicAck_destination := as_Destination v1, JournalTopicAck_messageId :=
      as_MessageId v2, JournalTopicAck_messageSequenceId := v3, JournalTopicAck_subscritionName := v4,
      JournalTopicAck_clientId := v5, JournalTopicAck_transactionId := as_TransactionId v6\<rparr>)))))))"

definition JournalTopicAck_looseMarshal ::
  "wire_format \<Rightarrow> (data_structure option \<Rightarrow> unit io) \<Rightarrow> JournalTopicAck \<Rightarrow> unit io" where
  "JournalTopicAck_looseMarshal w nest x =
    next_io (nest (map_option DDestination (JournalTopicAck_destination x))) (
    next_io (nest (map_option DMessageId (JournalTopicAck_messageId x))) (
    next_io (looseMarshalLong (JournalTopicAck_messageSequenceId x)) (
    next_io (looseMarshalString (JournalTopicAck_subscritionName x)) (
    next_io (looseMarshalString (JournalTopicAck_clientId x)) (
    nest (map_option DTransactionId (JournalTopicAck_transactionId x)))))))"

definition JournalTopicAck_looseUnmarshal ::
  "wire_format \<Rightarrow> (data_structure option io) \<Rightarrow> JournalTopicAck \<Rightarrow> JournalTopicAck io" where
  "JournalTopicAck_looseUnmarshal w nest x =
    bind_io nest (\<lambda>v1.
    bind_io nest (\<lambda>v2.
    bind_io looseUnmarshalLong (\<lambda>v3.
    bind_io looseUnmarshalString (\<lambda>v4.
    bind_io looseUnmarshalString (\<lambda>v5.
    bind_io nest (\<lambda>v6.
    ret (x\<lparr>JournalTopicAck_destination := as_Destination v1, JournalTopicAck_messageId :=
      as_MessageId v2, JournalTopicAck_messageSequenceId := v3, JournalTopicAck_subscritionName := v4,
      JournalTopicAck_clientId := v5, JournalTopicAck_transactionId := as_TransactionId v6\<rparr>)))))))"

definition JournalTrace_tightMarshal1 ::
  "wire_format \<Rightarrow> (data_structure option \<Rightarrow> 32 word io) \<Rightarrow> JournalTrace \<Rightarrow> 32 word io" where
  "JournalTrace_tightMarshal1 w nest x =
    bind_io (tightMarshalString1 (JournalTrace_message x)) (\<lambda>n1.
    ret (n1 + 0))"

definition JournalTrace_tightMarshal2 ::
  "wire_format \<Rightarrow> (data_structure option \<Rightarrow> unit io) \<Rightarrow> JournalTrace \<Rightarrow> unit io" where
  "JournalTrace_tightMarshal2 w nest x =
    tightMarshalString2 (JournalTrace_message x)"

definition JournalTrace_tightUnmarshal ::
  "wire_format \<Rightarrow> (data_structure option io) \<Rightarrow> JournalTrace \<Rightarrow> JournalTrace io" where
  "JournalTrace_tightUnmarshal w nest x =
    bind_io tightUnmarshalString (\<lambda>v1.
    ret (x\<lparr>JournalTrace_message := v1\<rparr>))"

definition JournalTrace_looseMarshal ::
  "wire_format \<Rightarrow> (data_structure option \<Rightarrow> unit io) \<Rightarrow> JournalTrace \<Rightarrow> unit io" where
  "JournalTrace_looseMarshal w nest x =
    looseMarshalString (JournalTrace_message x)"

definition JournalTrace_looseUnmarshal ::
  "wire_format \<Rightarrow> (data_structure option io) \<Rightarrow> JournalTrace \<Rightarrow> JournalTrace io" where
  "JournalTrace_looseUnmarshal w nest x =
    bind_io looseUnmarshalString (\<lambda>v1.
    ret (x\<lparr>JournalTrace_message := v1\<rparr>))"

definition JournalTransaction_tightMarshal1 ::
  "wire_format \<Rightarrow> (data_structure option \<Rightarrow> 32 word io) \<Rightarrow> JournalTransaction \<Rightarrow> 32 word io" where
  "JournalTransaction_tightMarshal1 w nest x =
    bind_io (nest (map_option DTransactionId (JournalTransaction_transactionId x))) (\<lambda>n1.
    next_io (writeBoolean (JournalTransaction_wasPrepared x)) (
    ret (n1 + 1)))"

definition JournalTransaction_tightMarshal2 ::
  "wire_format \<Rightarrow> (data_structure option \<Rightarrow> unit io) \<Rightarrow> JournalTransaction \<Rightarrow> unit io" where
  "JournalTransaction_tightMarshal2 w nest x =
    next_io (nest (map_option DTransactionId (JournalTransaction_transactionId x))) (
    next_io (writeByte (JournalTransaction_type x)) (
    skip_boolean))"

definition JournalTransaction_tightUnmarshal ::
  "wire_format \<Rightarrow> (data_structure option io) \<Rightarrow> JournalTransaction \<Rightarrow> JournalTransaction io" where
  "JournalTransaction_tightUnmarshal w nest x =
    bind_io nest (\<lambda>v1.
    bind_io readByte (\<lambda>v2.
    bind_io readBoolean (\<lambda>v3.
    ret (x\<lparr>JournalTransaction_transactionId := as_TransactionId v1, JournalTransaction_type :=
      v2, JournalTransaction_wasPrepared := v3\<rparr>))))"

definition JournalTransaction_looseMarshal ::
  "wire_format \<Rightarrow> (data_structure option \<Rightarrow> unit io) \<Rightarrow> JournalTransaction \<Rightarrow> unit io" where
  "JournalTransaction_looseMarshal w nest x =
    next_io (nest (map_option DTransactionId (JournalTransaction_transactionId x))) (
    next_io (writeByte (JournalTransaction_type x)) (
    out_writeBoolean (JournalTransaction_wasPrepared x)))"

definition JournalTransaction_looseUnmarshal ::
  "wire_format \<Rightarrow> (data_structure option io) \<Rightarrow> JournalTransaction \<Rightarrow> JournalTransaction io" where
  "JournalTransaction_looseUnmarshal w nest x =
    bind_io nest (\<lambda>v1.
    bind_io readByte (\<lambda>v2.
    bind_io in_readBoolean (\<lambda>v3.
    ret (x\<lparr>JournalTransaction_transactionId := as_TransactionId v1, JournalTransaction_type :=
      v2, JournalTransaction_wasPrepared := v3\<rparr>))))"

definition MessageDispatch_tightMarshal1 ::
  "wire_format \<Rightarrow> (data_structure option \<Rightarrow> 32 word io) \<Rightarrow> MessageDispatch \<Rightarrow> data_structure option \<Rightarrow> 32 word io" where
  "MessageDispatch_tightMarshal1 w nest x p =
    bind_io (BaseCommand_tightMarshal1 w nest x) (\<lambda>rc.
    bind_io (nest (map_option DConsumerId (MessageDispatch_consumerId x))) (\<lambda>n1.
    bind_io (nest (map_option DDestination (MessageDispatch_destination x))) (\<lambda>n2.
    bind_io (nest p) (\<lambda>n3.
    ret (rc + n1 + n2 + n3 + 4)))))"

definition MessageDispatch_tightMarshal2 ::
  "wire_format \<Rightarrow> (data_structure option \<Rightarrow> unit io) \<Rightarrow> MessageDispatch \<Rightarrow> data_structure option \<Rightarrow> unit io" where
  "MessageDispatch_tightMarshal2 w nest x p =
    next_io (BaseCommand_tightMarshal2 w nest x) (
    next_io (nest (map_option DConsumerId (MessageDispatch_consumerId x))) (
    next_io (nest (map_option DDestination (MessageDispatch_destination x))) (
    next_io (nest p) (
    writeInt (MessageDispatch_redeliveryCounter x)))))"

definition MessageDispatch_tightUnmarshal ::
  "wire_format \<Rightarrow> (data_structure option io) \<Rightarrow> MessageDispatch \<Rightarrow> (MessageDispatch \<times> data_structure option) io" where
  "MessageDispatch_tightUnmarshal w nest x =
    bind_io (BaseCommand_tightUnmarshal w nest x) (\<lambda>x.
    bind_io nest (\<lambda>v1.
    bind_io nest (\<lambda>v2.
    bind_io nest (\<lambda>v3.
    bind_io readInt (\<lambda>v4.
    ret (x\<lparr>MessageDispatch_consumerId := as_ConsumerId v1, MessageDispatch_destination :=
      as_Destination v2, MessageDispatch_redeliveryCounter := v4\<rparr>, as_Message v3))))))"

definition MessageDispatch_looseMarshal ::
  "wire_format \<Rightarrow> (data_structure option \<Rightarrow> unit io) \<Rightarrow> MessageDispatch \<Rightarrow> data_structure option \<Rightarrow> unit io" where
  "MessageDispatch_looseMarshal w nest x p =
    next_io (BaseCommand_looseMarshal w nest x) (
    next_io (nest (map_option DConsumerId (MessageDispatch_consumerId x))) (
    next_io (nest (map_option DDestination (MessageDispatch_destination x))) (
    next_io (nest p) (
    writeInt (MessageDispatch_redeliveryCounter x)))))"

definition MessageDispatch_looseUnmarshal ::
  "wire_format \<Rightarrow> (data_structure option io) \<Rightarrow> MessageDispatch \<Rightarrow> (MessageDispatch \<times> data_structure option) io" where
  "MessageDispatch_looseUnmarshal w nest x =
    bind_io (BaseCommand_looseUnmarshal w nest x) (\<lambda>x.
    bind_io nest (\<lambda>v1.
    bind_io nest (\<lambda>v2.
    bind_io nest (\<lambda>v3.
    bind_io readInt (\<lambda>v4.
    ret (x\<lparr>MessageDispatch_consumerId := as_ConsumerId v1, MessageDispatch_destination :=
      as_Destination v2, MessageDispatch_redeliveryCounter := v4\<rparr>, as_Message v3))))))"

definition BrokerInfo_tightMarshal1 ::
  "wire_format \<Rightarrow> (data_structure option \<Rightarrow> 32 word io) \<Rightarrow> BrokerInfo \<Rightarrow> data_structure option list \<Rightarrow> 32 word io" where
  "BrokerInfo_tightMarshal1 w nest x p =
    bind_io (BaseCommand_tightMarshal1 w nest x) (\<lambda>rc.
    bind_io (nest (map_option DBrokerId (BrokerInfo_brokerId x))) (\<lambda>n1.
    bind_io (tightMarshalString1 (BrokerInfo_brokerURL x)) (\<lambda>n2.
    bind_io (tightMarshalObjectArray1 nest p) (\<lambda>n3.
    bind_io (tightMarshalString1 (BrokerInfo_brokerName x)) (\<lambda>n4.
    next_io (writeBoolean (BrokerInfo_slaveBroker x)) (
    next_io (writeBoolean (BrokerInfo_masterBroker x)) (
    next_io (writeBoolean (BrokerInfo_faultTolerantConfiguration x)) (
    next_io (if version w \<ge> 2 then writeBoolean (BrokerInfo_duplexConnection x) else ret ()) (
    next_io (if version w \<ge> 2 then writeBoolean (BrokerInfo_networkConnection x) else ret ()) (
    bind_io (if version w \<ge> 2 then tightMarshalLong1 (BrokerInfo_connectionId x) else ret 0) (\<lambda>n5.
    bind_io (if version w \<ge> 3 then tightMarshalString1 (BrokerInfo_brokerUploadUrl x) else ret 0) (\<lambda>n6.
    bind_io (if version w \<ge> 3 then tightMarshalString1 (BrokerInfo_networkProperties x) else ret 0) (\<lambda>n7.
    ret (rc + n1 + n2 + n3 + n4 + n5 + n6 + n7 + 0))))))))))))))"

definition BrokerInfo_tightMarshal2 ::
  "wire_format \<Rightarrow> (data_structure option \<Rightarrow> unit io) \<Rightarrow> BrokerInfo \<Rightarrow> data_structure option list \<Rightarrow> unit io" where
  "BrokerInfo_tightMarshal2 w nest x p =
    next_io (BaseCommand_tightMarshal2 w nest x) (
    next_io (nest (map_option DBrokerId (BrokerInfo_brokerId x))) (
    next_io (tightMarshalString2 (BrokerInfo_brokerURL x)) (
    next_io (tightMarshalObjectArray2 nest p) (
    next_io (tightMarshalString2 (BrokerInfo_brokerName x)) (
    next_io skip_boolean (
    next_io skip_boolean (
    next_io skip_boolean (
    next_io (if version w \<ge> 2 then skip_boolean else ret ()) (
    next_io (if version w \<ge> 2 then skip_boolean else ret ()) (
    next_io (if version w \<ge> 2 then tightMarshalLong2 (BrokerInfo_connectionId x) else ret ()) (
    next_io (if version w \<ge> 3 then tightMarshalString2 (BrokerInfo_brokerUploadUrl x) else ret ()) (
    if version w \<ge> 3 then tightMarshalString2 (BrokerInfo_networkProperties x) else ret ()))))))))))))"

definition BrokerInfo_tightUnmarshal ::
  "wire_format \<Rightarrow> (data_structure option io) \<Rightarrow> BrokerInfo \<Rightarrow> (BrokerInfo \<times> data_structure option list) io" where
  "BrokerInfo_tightUnmarshal w nest x =
    bind_io (BaseCommand_tightUnmarshal w nest x) (\<lambda>x.
    bind_io nest (\<lambda>v1.
    bind_io tightUnmarshalString (\<lambda>v2.
    bind_io (tightUnmarshalObjectArray nest as_BrokerInfo []) (\<lambda>v3.
    bind_io tightUnmarshalString (\<lambda>v4.
    bind_io readBoolean (\<lambda>v5.
    bind_io readBoolean (\<lambda>v6.
    bind_io readBoolean (\<lambda>v7.
    bind_io (if version w \<ge> 2 then readBoolean else ret (BrokerInfo_duplexConnection x)) (\<lambda>v8.
    bind_io (if version w \<ge> 2 then readBoolean else ret (BrokerInfo_networkConnection x)) (\<lambda>v9.
    bind_io (if version w \<ge> 2 then tightUnmarshalLong else ret (BrokerInfo_connectionId x)) (\<lambda>v10.
    bind_io (if version w \<ge> 3 then tightUnmarshalString else ret (BrokerInfo_brokerUploadUrl x)) (\<lambda>v11.
    bind_io (if version w \<ge> 3 then tightUnmarshalString else ret (BrokerInfo_networkProperties x)) (\<lambda>v12.
    ret (x\<lparr>BrokerInfo_brokerId := as_BrokerId v1, BrokerInfo_brokerURL := v2,
      BrokerInfo_brokerName := v4, BrokerInfo_slaveBroker := v5, BrokerInfo_masterBroker := v6,
      BrokerInfo_faultTolerantConfiguration := v7, BrokerInfo_duplexConnection := v8,
      BrokerInfo_networkConnection := v9, BrokerInfo_connectionId := v10, BrokerInfo_brokerUploadUrl :=
      v11, BrokerInfo_networkProperties := v12\<rparr>, v3))))))))))))))"

definition BrokerInfo_looseMarshal ::
  "wire_format \<Rightarrow> (data_structure option \<Rightarrow> unit io) \<Rightarrow> BrokerInfo \<Rightarrow> data_structure option list \<Rightarrow> unit io" where
  "BrokerInfo_looseMarshal w nest x p =
    next_io (BaseCommand_looseMarshal w nest x) (
    next_io (nest (map_option DBrokerId (BrokerInfo_brokerId x))) (
    next_io (looseMarshalString (BrokerInfo_brokerURL x)) (
    next_io (looseMarshalObjectArray nest p) (
    next_io (looseMarshalString (BrokerInfo_brokerName x)) (
    next_io (out_writeBoolean (BrokerInfo_slaveBroker x)) (
    next_io (out_writeBoolean (BrokerInfo_masterBroker x)) (
    next_io (out_writeBoolean (BrokerInfo_faultTolerantConfiguration x)) (
    next_io (if version w \<ge> 2 then out_writeBoolean (BrokerInfo_duplexConnection x) else ret ()) (
    next_io (if version w \<ge> 2 then out_writeBoolean (BrokerInfo_networkConnection x) else ret ()) (
    next_io (if version w \<ge> 2 then looseMarshalLong (BrokerInfo_connectionId x) else ret ()) (
    next_io (if version w \<ge> 3 then looseMarshalString (BrokerInfo_brokerUploadUrl x) else ret ()) (
    if version w \<ge> 3 then looseMarshalString (BrokerInfo_networkProperties x) else ret ()))))))))))))"

definition BrokerInfo_looseUnmarshal ::
  "wire_format \<Rightarrow> (data_structure option io) \<Rightarrow> BrokerInfo \<Rightarrow> (BrokerInfo \<times> data_structure option list) io" where
  "BrokerInfo_looseUnmarshal w nest x =
    bind_io (BaseCommand_looseUnmarshal w nest x) (\<lambda>x.
    bind_io nest (\<lambda>v1.
    bind_io looseUnmarshalString (\<lambda>v2.
    bind_io (looseUnmarshalObjectArray nest as_BrokerInfo []) (\<lambda>v3.
    bind_io looseUnmarshalString (\<lambda>v4.
    bind_io in_readBoolean (\<lambda>v5.
    bind_io in_readBoolean (\<lambda>v6.
    bind_io in_readBoolean (\<lambda>v7.
    bind_io (if version w \<ge> 2 then in_readBoolean else ret (BrokerInfo_duplexConnection x)) (\<lambda>v8.
    bind_io (if version w \<ge> 2 then in_readBoolean else ret (BrokerInfo_networkConnection x)) (\<lambda>v9.
    bind_io (if version w \<ge> 2 then looseUnmarshalLong else ret (BrokerInfo_connectionId x)) (\<lambda>v10.
    bind_io (if version w \<ge> 3 then looseUnmarshalString else ret (BrokerInfo_brokerUploadUrl x)) (\<lambda>v11.
    bind_io (if version w \<ge> 3 then looseUnmarshalString else ret (BrokerInfo_networkProperties x)) (\<lambda>v12.
    ret (x\<lparr>BrokerInfo_brokerId := as_BrokerId v1, BrokerInfo_brokerURL := v2,
      BrokerInfo_brokerName := v4, BrokerInfo_slaveBroker := v5, BrokerInfo_masterBroker := v6,
      BrokerInfo_faultTolerantConfiguration := v7, BrokerInfo_duplexConnection := v8,
      BrokerInfo_networkConnection := v9, BrokerInfo_connectionId := v10, BrokerInfo_brokerUploadUrl :=
      v11, BrokerInfo_networkProperties := v12\<rparr>, v3))))))))))))))"

definition DataArrayResponse_tightMarshal1 ::
  "wire_format \<Rightarrow> (data_structure option \<Rightarrow> 32 word io) \<Rightarrow> DataArrayResponse \<Rightarrow> data_structure option list \<Rightarrow> 32 word io" where
  "DataArrayResponse_tightMarshal1 w nest x p =
    bind_io (Response_tightMarshal1 w nest x) (\<lambda>rc.
    bind_io (tightMarshalObjectArray1 nest p) (\<lambda>n1.
    ret (rc + n1 + 0)))"

definition DataArrayResponse_tightMarshal2 ::
  "wire_format \<Rightarrow> (data_structure option \<Rightarrow> unit io) \<Rightarrow> DataArrayResponse \<Rightarrow> data_structure option list \<Rightarrow> unit io" where
  "DataArrayResponse_tightMarshal2 w nest x p =
    next_io (Response_tightMarshal2 w nest x) (
    tightMarshalObjectArray2 nest p)"

definition DataArrayResponse_tightUnmarshal ::
  "wire_format \<Rightarrow> (data_structure option io) \<Rightarrow> DataArrayResponse \<Rightarrow> (DataArrayResponse \<times> data_structure option list) io" where
  "DataArrayResponse_tightUnmarshal w nest x =
    bind_io (Response_tightUnmarshal w nest x) (\<lambda>x.
    bind_io (tightUnmarshalObjectArray nest id []) (\<lambda>v1.
    ret (x, v1)))"

definition DataArrayResponse_looseMarshal ::
  "wire_format \<Rightarrow> (data_structure option \<Rightarrow> unit io) \<Rightarrow> DataArrayResponse \<Rightarrow> data_structure option list \<Rightarrow> unit io" where
  "DataArrayResponse_looseMarshal w nest x p =
    next_io (Response_looseMarshal w nest x) (
    looseMarshalObjectArray nest p)"

definition DataArrayResponse_looseUnmarshal ::
  "wire_format \<Rightarrow> (data_structure option io) \<Rightarrow> DataArrayResponse \<Rightarrow> (DataArrayResponse \<times> data_structure option list) io" where
  "DataArrayResponse_looseUnmarshal w nest x =
    bind_io (Response_looseUnmarshal w nest x) (\<lambda>x.
    bind_io (looseUnmarshalObjectArray nest id []) (\<lambda>v1.
    ret (x, v1)))"

section \<open>Messages and the settings of the wire format\<close>

text \<open>
  The marshallers of these classes call \<open>beforeMarshal\<close> before they write an object and \<open>afterUnmarshal\<close> after they have read it.
  The first turns the properties into bytes, and with them the text of a text message and the map of a map message.  A map message
  whose map is null or empty has its body cleared.  The other two hooks are empty.
\<close>

definition Message_beforeMarshal :: "'a Message_scheme \<Rightarrow> 'a Message_scheme io" where
  "Message_beforeMarshal x = bind_io (if Message_properties x \<noteq> [] then marshal_map (Message_properties x) [] else ret [])
     (\<lambda>buffer. ret (x\<lparr>Message_marshalledProperties := buffer\<rparr>))"

definition Message_afterUnmarshal :: "'a Message_scheme \<Rightarrow> 'a Message_scheme io" where
  "Message_afterUnmarshal x = bind_io (unmarshal_map (Message_properties x) (Message_marshalledProperties x))
     (\<lambda>m. ret (x\<lparr>Message_properties := m\<rparr>))"

definition writeString32 :: "bytes \<Rightarrow> unit io" where
  "writeString32 str = (let strSize = of_nat (length str) :: 32 word in
     next_io (writeInt strSize) (if sint strSize > 0 then write_array str 0 (sint strSize) else ret ()))"

definition body_array :: "(bytes \<Rightarrow> bytes) option \<Rightarrow> unit io \<Rightarrow> bytes io" where
  "body_array deflate m = bind_io (to_array m) (\<lambda>array. ret (case deflate of None \<Rightarrow> array | Some f \<Rightarrow> f array))"

definition ActiveMQTextMessage_beforeMarshal :: "ActiveMQTextMessage \<Rightarrow> ActiveMQTextMessage io" where
  "ActiveMQTextMessage_beforeMarshal x = bind_io (Message_beforeMarshal x) (\<lambda>x. case ActiveMQTextMessage_text x of
     None \<Rightarrow> ret x
   | Some text \<Rightarrow> bind_io (body_array (Message_connection x) (writeString32 text)) (\<lambda>array.
       ret (x\<lparr>Message_content := if array \<noteq> [] then array else Message_content x,
         Message_compressed := Message_compressed x \<or> Message_connection x \<noteq> None, ActiveMQTextMessage_text := None\<rparr>)))"

definition ActiveMQMapMessage_beforeMarshal :: "ActiveMQMapMessage \<Rightarrow> ActiveMQMapMessage io" where
  "ActiveMQMapMessage_beforeMarshal x = io_boundary (bind_io (Message_beforeMarshal x) (\<lambda>x.
     if ActiveMQMapMessage_map x \<noteq> None \<and> the (ActiveMQMapMessage_map x) \<noteq> [] then
       bind_io (body_array (Message_connection x) (marshalPrimitiveMap (the (ActiveMQMapMessage_map x)))) (\<lambda>array.
         ret (x\<lparr>Message_content := array, Message_compressed := Message_compressed x \<or> Message_connection x \<noteq> None\<rparr>))
     else ret (x\<lparr>Message_content := [], ActiveMQMapMessage_map := Some []\<rparr>)))"

definition WireFormatInfo_beforeMarshal :: "WireFormatInfo \<Rightarrow> WireFormatInfo io" where
  "WireFormatInfo_beforeMarshal x = bind_io (if WireFormatInfo_properties x \<noteq> [] then marshal_map (WireFormatInfo_properties x) [] else ret [])
     (\<lambda>buffer. ret (x\<lparr>WireFormatInfo_marshalledProperties := buffer\<rparr>))"

definition WireFormatInfo_afterUnmarshal :: "WireFormatInfo \<Rightarrow> WireFormatInfo io" where
  "WireFormatInfo_afterUnmarshal x = bind_io (unmarshal_map (WireFormatInfo_properties x) (WireFormatInfo_marshalledProperties x))
     (\<lambda>m. ret (x\<lparr>WireFormatInfo_properties := m\<rparr>))"

text \<open>An array of a constant size: \<open>write(&data[0], n, 0, n)\<close>.\<close>

definition write_constant :: "nat \<Rightarrow> bytes \<Rightarrow> unit io" where
  "write_constant n data = (if length data < n then fails UndefinedBehaviour else write_array (take n data) 0 (int n))"

definition WireFormatInfo_tightMarshal1 ::
  "wire_format \<Rightarrow> (data_structure option \<Rightarrow> 32 word io) \<Rightarrow> WireFormatInfo \<Rightarrow> 32 word io" where
  "WireFormatInfo_tightMarshal1 w nest x =
    bind_io (WireFormatInfo_beforeMarshal x) (\<lambda>x.
    bind_io (tightMarshalByteArray1 (WireFormatInfo_marshalledProperties x)) (\<lambda>n1.
    ret (n1 + 12)))"

definition WireFormatInfo_tightMarshal2 ::
  "wire_format \<Rightarrow> (data_structure option \<Rightarrow> unit io) \<Rightarrow> WireFormatInfo \<Rightarrow> unit io" where
  "WireFormatInfo_tightMarshal2 w nest x =
    next_io (write_constant 8 (WireFormatInfo_magic x)) (
    next_io (writeInt (WireFormatInfo_version x)) (
    tightMarshalByteArray2 (WireFormatInfo_marshalledProperties x)))"

definition WireFormatInfo_tightUnmarshal ::
  "wire_format \<Rightarrow> (data_structure option io) \<Rightarrow> WireFormatInfo \<Rightarrow> WireFormatInfo io" where
  "WireFormatInfo_tightUnmarshal w nest x =
    bind_io (readFully 8) (\<lambda>v1.
    bind_io readInt (\<lambda>v2.
    bind_io tightUnmarshalByteArray (\<lambda>v3.
    WireFormatInfo_afterUnmarshal (x\<lparr>WireFormatInfo_magic := v1, WireFormatInfo_version := v2,
      WireFormatInfo_marshalledProperties := v3\<rparr>))))"

definition WireFormatInfo_looseMarshal ::
  "wire_format \<Rightarrow> (data_structure option \<Rightarrow> unit io) \<Rightarrow> WireFormatInfo \<Rightarrow> unit io" where
  "WireFormatInfo_looseMarshal w nest x =
    bind_io (WireFormatInfo_beforeMarshal x) (\<lambda>x.
    next_io (write_constant 8 (WireFormatInfo_magic x)) (
    next_io (writeInt (WireFormatInfo_version x)) (
    looseMarshalByteArray (WireFormatInfo_marshalledProperties x))))"

definition WireFormatInfo_looseUnmarshal ::
  "wire_format \<Rightarrow> (data_structure option io) \<Rightarrow> WireFormatInfo \<Rightarrow> WireFormatInfo io" where
  "WireFormatInfo_looseUnmarshal w nest x =
    bind_io (readFully 8) (\<lambda>v1.
    bind_io readInt (\<lambda>v2.
    bind_io looseUnmarshalByteArray (\<lambda>v3.
    WireFormatInfo_afterUnmarshal (x\<lparr>WireFormatInfo_magic := v1, WireFormatInfo_version := v2,
      WireFormatInfo_marshalledProperties := v3\<rparr>))))"

definition Message_tightMarshal1 ::
  "wire_format \<Rightarrow> (data_structure option \<Rightarrow> 32 word io) \<Rightarrow> 'a Message_scheme \<Rightarrow> data_structure option \<Rightarrow> 32 word io" where
  "Message_tightMarshal1 w nest x p =
    bind_io (BaseCommand_tightMarshal1 w nest x) (\<lambda>rc.
    bind_io (nest (map_option DProducerId (Message_producerId x))) (\<lambda>n1.
    bind_io (nest (map_option DDestination (Message_destination x))) (\<lambda>n2.
    bind_io (nest (map_option DTransactionId (Message_transactionId x))) (\<lambda>n3.
    bind_io (nest (map_option DDestination (Message_originalDestination x))) (\<lambda>n4.
    bind_io (nest (map_option DMessageId (Message_messageId x))) (\<lambda>n5.
    bind_io (nest (map_option DTransactionId (Message_originalTransactionId x))) (\<lambda>n6.
    bind_io (tightMarshalString1 (Message_groupID x)) (\<lambda>n7.
    bind_io (tightMarshalString1 (Message_correlationId x)) (\<lambda>n8.
    next_io (writeBoolean (Message_persistent x)) (
    bind_io (tightMarshalLong1 (Message_expiration x)) (\<lambda>n9.
    bind_io (nest (map_option DDestination (Message_replyTo x))) (\<lambda>n10.
    bind_io (tightMarshalLong1 (Message_timestamp x)) (\<lambda>n11.
    bind_io (tightMarshalString1 (Message_type x)) (\<lambda>n12.
    bind_io (tightMarshalByteArray1 (Message_content x)) (\<lambda>n13.
    bind_io (tightMarshalByteArray1 (Message_marshalledProperties x)) (\<lambda>n14.
    bind_io (nest p) (\<lambda>n15.
    bind_io (nest (map_option DConsumerId (Message_targetConsumerId x))) (\<lambda>n16.
    next_io (writeBoolean (Message_compressed x)) (
    bind_io (tightMarshalObjectArray1 (\<lambda>q. nest (map_option DBrokerId q)) (Message_brokerPath x)) (\<lambda>n17.
    bind_io (tightMarshalLong1 (Message_arrival x)) (\<lambda>n18.
    bind_io (tightMarshalString1 (Message_userID x)) (\<lambda>n19.
    next_io (writeBoolean (Message_recievedByDFBridge x)) (
    next_io (if version w \<ge> 2 then writeBoolean (Message_droppable x) else ret ()) (
    bind_io (if version w \<ge> 3 then tightMarshalObjectArray1 (\<lambda>q. nest (map_option DBrokerId q)) (Message_cluster x) else ret 0) (\<lambda>n20.
    bind_io (if version w \<ge> 3 then tightMarshalLong1 (Message_brokerInTime x) else ret 0) (\<lambda>n21.
    bind_io (if version w \<ge> 3 then tightMarshalLong1 (Message_brokerOutTime x) else ret 0) (\<lambda>n22.
    next_io (if version w \<ge> 10 then writeBoolean (Message_jMSXGroupFirstForConsumer x) else ret ()) (
    ret (rc + n1 + n2 + n3 + n4 + n5 + n6 + n7 + n8 + n9 + n10 + n11 + n12 + n13 + n14 + n15 + n16 + n17
      + n18 + n19 + n20 + n21 + n22 + 9)))))))))))))))))))))))))))))"

definition Message_tightMarshal2 ::
  "wire_format \<Rightarrow> (data_structure option \<Rightarrow> unit io) \<Rightarrow> 'a Message_scheme \<Rightarrow> data_structure option \<Rightarrow> unit io" where
  "Message_tightMarshal2 w nest x p =
    next_io (BaseCommand_tightMarshal2 w nest x) (
    next_io (nest (map_option DProducerId (Message_producerId x))) (
    next_io (nest (map_option DDestination (Message_destination x))) (
    next_io (nest (map_option DTransactionId (Message_transactionId x))) (
    next_io (nest (map_option DDestination (Message_originalDestination x))) (
    next_io (nest (map_option DMessageId (Message_messageId x))) (
    next_io (nest (map_option DTransactionId (Message_originalTransactionId x))) (
    next_io (tightMarshalString2 (Message_groupID x)) (
    next_io (writeInt (Message_groupSequence x)) (
    next_io (tightMarshalString2 (Message_correlationId x)) (
    next_io skip_boolean (
    next_io (tightMarshalLong2 (Message_expiration x)) (
    next_io (writeByte (Message_priority x)) (
    next_io (nest (map_option DDestination (Message_replyTo x))) (
    next_io (tightMarshalLong2 (Message_timestamp x)) (
    next_io (tightMarshalString2 (Message_type x)) (
    next_io (tightMarshalByteArray2 (Message_content x)) (
    next_io (tightMarshalByteArray2 (Message_marshalledProperties x)) (
    next_io (nest p) (
    next_io (nest (map_option DConsumerId (Message_targetConsumerId x))) (
    next_io skip_boolean (
    next_io (writeInt (Message_redeliveryCounter x)) (
    next_io (tightMarshalObjectArray2 (\<lambda>q. nest (map_option DBrokerId q)) (Message_brokerPath x)) (
    next_io (tightMarshalLong2 (Message_arrival x)) (
    next_io (tightMarshalString2 (Message_userID x)) (
    next_io skip_boolean (
    next_io (if version w \<ge> 2 then skip_boolean else ret ()) (
    next_io (if version w \<ge> 3 then tightMarshalObjectArray2 (\<lambda>q. nest (map_option DBrokerId q)) (Message_cluster x) else ret ()) (
    next_io (if version w \<ge> 3 then tightMarshalLong2 (Message_brokerInTime x) else ret ()) (
    next_io (if version w \<ge> 3 then tightMarshalLong2 (Message_brokerOutTime x) else ret ()) (
    if version w \<ge> 10 then skip_boolean else ret ()))))))))))))))))))))))))))))))"

definition Message_tightUnmarshal ::
  "wire_format \<Rightarrow> (data_structure option io) \<Rightarrow> 'a Message_scheme \<Rightarrow> ('a Message_scheme \<times> data_structure option) io" where
  "Message_tightUnmarshal w nest x =
    bind_io (BaseCommand_tightUnmarshal w nest x) (\<lambda>x.
    bind_io nest (\<lambda>v1.
    bind_io nest (\<lambda>v2.
    bind_io nest (\<lambda>v3.
    bind_io nest (\<lambda>v4.
    bind_io nest (\<lambda>v5.
    bind_io nest (\<lambda>v6.
    bind_io tightUnmarshalString (\<lambda>v7.
    bind_io readInt (\<lambda>v8.
    bind_io tightUnmarshalString (\<lambda>v9.
    bind_io readBoolean (\<lambda>v10.
    bind_io tightUnmarshalLong (\<lambda>v11.
    bind_io readByte (\<lambda>v12.
    bind_io nest (\<lambda>v13.
    bind_io tightUnmarshalLong (\<lambda>v14.
    bind_io tightUnmarshalString (\<lambda>v15.
    bind_io tightUnmarshalByteArray (\<lambda>v16.
    bind_io tightUnmarshalByteArray (\<lambda>v17.
    bind_io nest (\<lambda>v18.
    bind_io nest (\<lambda>v19.
    bind_io readBoolean (\<lambda>v20.
    bind_io readInt (\<lambda>v21.
    bind_io (tightUnmarshalObjectArray nest as_BrokerId (Message_brokerPath x)) (\<lambda>v22.
    bind_io tightUnmarshalLong (\<lambda>v23.
    bind_io tightUnmarshalString (\<lambda>v24.
    bind_io readBoolean (\<lambda>v25.
    bind_io (if version w \<ge> 2 then readBoolean else ret (Message_droppable x)) (\<lambda>v26.
    bind_io (if version w \<ge> 3 then tightUnmarshalObjectArray nest as_BrokerId (Message_cluster x) else ret (Message_cluster x)) (\<lambda>v27.
    bind_io (if version w \<ge> 3 then tightUnmarshalLong else ret (Message_brokerInTime x)) (\<lambda>v28.
    bind_io (if version w \<ge> 3 then tightUnmarshalLong else ret (Message_brokerOutTime x)) (\<lambda>v29.
    bind_io (if version w \<ge> 10 then readBoolean else ret (Message_jMSXGroupFirstForConsumer x)) (\<lambda>v30.
    ret (x\<lparr>Message_producerId := as_ProducerId v1, Message_destination := as_Destination v2,
      Message_transactionId := as_TransactionId v3, Message_originalDestination := as_Destination v4,
      Message_messageId := as_MessageId v5, Message_originalTransactionId := as_TransactionId v6,
      Message_groupID := v7, Message_groupSequence := v8, Message_correlationId := v9, Message_persistent
      := v10, Message_expiration := v11, Message_priority := v12, Message_replyTo := as_Destination v13,
      Message_timestamp := v14, Message_type := v15, Message_content := v16, Message_marshalledProperties
      := v17, Message_targetConsumerId := as_ConsumerId v19, Message_compressed := v20,
      Message_redeliveryCounter := v21, Message_brokerPath := v22, Message_arrival := v23, Message_userID
      := v24, Message_recievedByDFBridge := v25, Message_droppable := v26, Message_cluster := v27,
      Message_brokerInTime := v28, Message_brokerOutTime := v29, Message_jMSXGroupFirstForConsumer :=
      v30\<rparr>, v18))))))))))))))))))))))))))))))))"

definition Message_looseMarshal ::
  "wire_format \<Rightarrow> (data_structure option \<Rightarrow> unit io) \<Rightarrow> 'a Message_scheme \<Rightarrow> data_structure option \<Rightarrow> unit io" where
  "Message_looseMarshal w nest x p =
    next_io (BaseCommand_looseMarshal w nest x) (
    next_io (nest (map_option DProducerId (Message_producerId x))) (
    next_io (nest (map_option DDestination (Message_destination x))) (
    next_io (nest (map_option DTransactionId (Message_transactionId x))) (
    next_io (nest (map_option DDestination (Message_originalDestination x))) (
    next_io (nest (map_option DMessageId (Message_messageId x))) (
    next_io (nest (map_option DTransactionId (Message_originalTransactionId x))) (
    next_io (looseMarshalString (Message_groupID x)) (
    next_io (writeInt (Message_groupSequence x)) (
    next_io (looseMarshalString (Message_correlationId x)) (
    next_io (out_writeBoolean (Message_persistent x)) (
    next_io (looseMarshalLong (Message_expiration x)) (
    next_io (writeByte (Message_priority x)) (
    next_io (nest (map_option DDestination (Message_replyTo x))) (
    next_io (looseMarshalLong (Message_timestamp x)) (
    next_io (looseMarshalString (Message_type x)) (
    next_io (looseMarshalByteArray (Message_content x)) (
    next_io (looseMarshalByteArray (Message_marshalledProperties x)) (
    next_io (nest p) (
    next_io (nest (map_option DConsumerId (Message_targetConsumerId x))) (
    next_io (out_writeBoolean (Message_compressed x)) (
    next_io (writeInt (Message_redeliveryCounter x)) (
    next_io (looseMarshalObjectArray (\<lambda>q. nest (map_option DBrokerId q)) (Message_brokerPath x)) (
    next_io (looseMarshalLong (Message_arrival x)) (
    next_io (looseMarshalString (Message_userID x)) (
    next_io (out_writeBoolean (Message_recievedByDFBridge x)) (
    next_io (if version w \<ge> 2 then out_writeBoolean (Message_droppable x) else ret ()) (
    next_io (if version w \<ge> 3 then looseMarshalObjectArray (\<lambda>q. nest (map_option DBrokerId q)) (Message_cluster x) else ret ()) (
    next_io (if version w \<ge> 3 then looseMarshalLong (Message_brokerInTime x) else ret ()) (
    next_io (if version w \<ge> 3 then looseMarshalLong (Message_brokerOutTime x) else ret ()) (
    if version w \<ge> 10 then out_writeBoolean (Message_jMSXGroupFirstForConsumer x) else ret ()))))))))))))))))))))))))))))))"

definition Message_looseUnmarshal ::
  "wire_format \<Rightarrow> (data_structure option io) \<Rightarrow> 'a Message_scheme \<Rightarrow> ('a Message_scheme \<times> data_structure option) io" where
  "Message_looseUnmarshal w nest x =
    bind_io (BaseCommand_looseUnmarshal w nest x) (\<lambda>x.
    bind_io nest (\<lambda>v1.
    bind_io nest (\<lambda>v2.
    bind_io nest (\<lambda>v3.
    bind_io nest (\<lambda>v4.
    bind_io nest (\<lambda>v5.
    bind_io nest (\<lambda>v6.
    bind_io looseUnmarshalString (\<lambda>v7.
    bind_io readInt (\<lambda>v8.
    bind_io looseUnmarshalString (\<lambda>v9.
    bind_io in_readBoolean (\<lambda>v10.
    bind_io looseUnmarshalLong (\<lambda>v11.
    bind_io readByte (\<lambda>v12.
    bind_io nest (\<lambda>v13.
    bind_io looseUnmarshalLong (\<lambda>v14.
    bind_io looseUnmarshalString (\<lambda>v15.
    bind_io looseUnmarshalByteArray (\<lambda>v16.
    bind_io looseUnmarshalByteArray (\<lambda>v17.
    bind_io nest (\<lambda>v18.
    bind_io nest (\<lambda>v19.
    bind_io in_readBoolean (\<lambda>v20.
    bind_io readInt (\<lambda>v21.
    bind_io (looseUnmarshalObjectArray nest as_BrokerId (Message_brokerPath x)) (\<lambda>v22.
    bind_io looseUnmarshalLong (\<lambda>v23.
    bind_io looseUnmarshalString (\<lambda>v24.
    bind_io in_readBoolean (\<lambda>v25.
    bind_io (if version w \<ge> 2 then in_readBoolean else ret (Message_droppable x)) (\<lambda>v26.
    bind_io (if version w \<ge> 3 then looseUnmarshalObjectArray nest as_BrokerId (Message_cluster x) else ret (Message_cluster x)) (\<lambda>v27.
    bind_io (if version w \<ge> 3 then looseUnmarshalLong else ret (Message_brokerInTime x)) (\<lambda>v28.
    bind_io (if version w \<ge> 3 then looseUnmarshalLong else ret (Message_brokerOutTime x)) (\<lambda>v29.
    bind_io (if version w \<ge> 10 then in_readBoolean else ret (Message_jMSXGroupFirstForConsumer x)) (\<lambda>v30.
    ret (x\<lparr>Message_producerId := as_ProducerId v1, Message_destination := as_Destination v2,
      Message_transactionId := as_TransactionId v3, Message_originalDestination := as_Destination v4,
      Message_messageId := as_MessageId v5, Message_originalTransactionId := as_TransactionId v6,
      Message_groupID := v7, Message_groupSequence := v8, Message_correlationId := v9, Message_persistent
      := v10, Message_expiration := v11, Message_priority := v12, Message_replyTo := as_Destination v13,
      Message_timestamp := v14, Message_type := v15, Message_content := v16, Message_marshalledProperties
      := v17, Message_targetConsumerId := as_ConsumerId v19, Message_compressed := v20,
      Message_redeliveryCounter := v21, Message_brokerPath := v22, Message_arrival := v23, Message_userID
      := v24, Message_recievedByDFBridge := v25, Message_droppable := v26, Message_cluster := v27,
      Message_brokerInTime := v28, Message_brokerOutTime := v29, Message_jMSXGroupFirstForConsumer :=
      v30\<rparr>, v18))))))))))))))))))))))))))))))))"

definition ActiveMQMessage_tightMarshal1 ::
  "wire_format \<Rightarrow> (data_structure option \<Rightarrow> 32 word io) \<Rightarrow> ActiveMQMessage \<Rightarrow> data_structure option \<Rightarrow> 32 word io" where
  "ActiveMQMessage_tightMarshal1 w nest x p =
    bind_io (Message_beforeMarshal x) (\<lambda>x.
    bind_io (Message_tightMarshal1 w nest x p) (\<lambda>rc.
    ret (rc + 0)))"

definition ActiveMQMessage_tightMarshal2 ::
  "wire_format \<Rightarrow> (data_structure option \<Rightarrow> unit io) \<Rightarrow> ActiveMQMessage \<Rightarrow> data_structure option \<Rightarrow> unit io" where
  "ActiveMQMessage_tightMarshal2 w nest x p =
    Message_tightMarshal2 w nest x p"

definition ActiveMQMessage_tightUnmarshal ::
  "wire_format \<Rightarrow> (data_structure option io) \<Rightarrow> ActiveMQMessage \<Rightarrow> (ActiveMQMessage \<times> data_structure option) io" where
  "ActiveMQMessage_tightUnmarshal w nest x =
    bind_io (Message_tightUnmarshal w nest x) (\<lambda>z.
    bind_io (Message_afterUnmarshal (fst z)) (\<lambda>x. ret (x, snd z)))"

definition ActiveMQMessage_looseMarshal ::
  "wire_format \<Rightarrow> (data_structure option \<Rightarrow> unit io) \<Rightarrow> ActiveMQMessage \<Rightarrow> data_structure option \<Rightarrow> unit io" where
  "ActiveMQMessage_looseMarshal w nest x p =
    bind_io (Message_beforeMarshal x) (\<lambda>x.
    Message_looseMarshal w nest x p)"

definition ActiveMQMessage_looseUnmarshal ::
  "wire_format \<Rightarrow> (data_structure option io) \<Rightarrow> ActiveMQMessage \<Rightarrow> (ActiveMQMessage \<times> data_structure option) io" where
  "ActiveMQMessage_looseUnmarshal w nest x =
    bind_io (Message_looseUnmarshal w nest x) (\<lambda>z.
    bind_io (Message_afterUnmarshal (fst z)) (\<lambda>x. ret (x, snd z)))"

definition ActiveMQBytesMessage_tightMarshal1 ::
  "wire_format \<Rightarrow> (data_structure option \<Rightarrow> 32 word io) \<Rightarrow> ActiveMQBytesMessage \<Rightarrow> data_structure option \<Rightarrow> 32 word io" where
  "ActiveMQBytesMessage_tightMarshal1 w nest x p =
    bind_io (Message_beforeMarshal x) (\<lambda>x.
    bind_io (Message_tightMarshal1 w nest x p) (\<lambda>rc.
    ret (rc + 0)))"

definition ActiveMQBytesMessage_tightMarshal2 ::
  "wire_format \<Rightarrow> (data_structure option \<Rightarrow> unit io) \<Rightarrow> ActiveMQBytesMessage \<Rightarrow> data_structure option \<Rightarrow> unit io" where
  "ActiveMQBytesMessage_tightMarshal2 w nest x p =
    Message_tightMarshal2 w nest x p"

definition ActiveMQBytesMessage_tightUnmarshal ::
  "wire_format \<Rightarrow> (data_structure option io) \<Rightarrow> ActiveMQBytesMessage \<Rightarrow> (ActiveMQBytesMessage \<times> data_structure option) io" where
  "ActiveMQBytesMessage_tightUnmarshal w nest x =
    bind_io (Message_tightUnmarshal w nest x) (\<lambda>z.
    bind_io (Message_afterUnmarshal (fst z)) (\<lambda>x. ret (x, snd z)))"

definition ActiveMQBytesMessage_looseMarshal ::
  "wire_format \<Rightarrow> (data_structure option \<Rightarrow> unit io) \<Rightarrow> ActiveMQBytesMessage \<Rightarrow> data_structure option \<Rightarrow> unit io" where
  "ActiveMQBytesMessage_looseMarshal w nest x p =
    bind_io (Message_beforeMarshal x) (\<lambda>x.
    Message_looseMarshal w nest x p)"

definition ActiveMQBytesMessage_looseUnmarshal ::
  "wire_format \<Rightarrow> (data_structure option io) \<Rightarrow> ActiveMQBytesMessage \<Rightarrow> (ActiveMQBytesMessage \<times> data_structure option) io" where
  "ActiveMQBytesMessage_looseUnmarshal w nest x =
    bind_io (Message_looseUnmarshal w nest x) (\<lambda>z.
    bind_io (Message_afterUnmarshal (fst z)) (\<lambda>x. ret (x, snd z)))"

definition ActiveMQMapMessage_tightMarshal1 ::
  "wire_format \<Rightarrow> (data_structure option \<Rightarrow> 32 word io) \<Rightarrow> ActiveMQMapMessage \<Rightarrow> data_structure option \<Rightarrow> 32 word io" where
  "ActiveMQMapMessage_tightMarshal1 w nest x p =
    bind_io (ActiveMQMapMessage_beforeMarshal x) (\<lambda>x.
    bind_io (Message_tightMarshal1 w nest x p) (\<lambda>rc.
    ret (rc + 0)))"

definition ActiveMQMapMessage_tightMarshal2 ::
  "wire_format \<Rightarrow> (data_structure option \<Rightarrow> unit io) \<Rightarrow> ActiveMQMapMessage \<Rightarrow> data_structure option \<Rightarrow> unit io" where
  "ActiveMQMapMessage_tightMarshal2 w nest x p =
    Message_tightMarshal2 w nest x p"

definition ActiveMQMapMessage_tightUnmarshal ::
  "wire_format \<Rightarrow> (data_structure option io) \<Rightarrow> ActiveMQMapMessage \<Rightarrow> (ActiveMQMapMessage \<times> data_structure option) io" where
  "ActiveMQMapMessage_tightUnmarshal w nest x =
    bind_io (Message_tightUnmarshal w nest x) (\<lambda>z.
    bind_io (Message_afterUnmarshal (fst z)) (\<lambda>x. ret (x, snd z)))"

definition ActiveMQMapMessage_looseMarshal ::
  "wire_format \<Rightarrow> (data_structure option \<Rightarrow> unit io) \<Rightarrow> ActiveMQMapMessage \<Rightarrow> data_structure option \<Rightarrow> unit io" where
  "ActiveMQMapMessage_looseMarshal w nest x p =
    bind_io (ActiveMQMapMessage_beforeMarshal x) (\<lambda>x.
    Message_looseMarshal w nest x p)"

definition ActiveMQMapMessage_looseUnmarshal ::
  "wire_format \<Rightarrow> (data_structure option io) \<Rightarrow> ActiveMQMapMessage \<Rightarrow> (ActiveMQMapMessage \<times> data_structure option) io" where
  "ActiveMQMapMessage_looseUnmarshal w nest x =
    bind_io (Message_looseUnmarshal w nest x) (\<lambda>z.
    bind_io (Message_afterUnmarshal (fst z)) (\<lambda>x. ret (x, snd z)))"

definition ActiveMQObjectMessage_tightMarshal1 ::
  "wire_format \<Rightarrow> (data_structure option \<Rightarrow> 32 word io) \<Rightarrow> ActiveMQObjectMessage \<Rightarrow> data_structure option \<Rightarrow> 32 word io" where
  "ActiveMQObjectMessage_tightMarshal1 w nest x p =
    bind_io (Message_beforeMarshal x) (\<lambda>x.
    bind_io (Message_tightMarshal1 w nest x p) (\<lambda>rc.
    ret (rc + 0)))"

definition ActiveMQObjectMessage_tightMarshal2 ::
  "wire_format \<Rightarrow> (data_structure option \<Rightarrow> unit io) \<Rightarrow> ActiveMQObjectMessage \<Rightarrow> data_structure option \<Rightarrow> unit io" where
  "ActiveMQObjectMessage_tightMarshal2 w nest x p =
    Message_tightMarshal2 w nest x p"

definition ActiveMQObjectMessage_tightUnmarshal ::
  "wire_format \<Rightarrow> (data_structure option io) \<Rightarrow> ActiveMQObjectMessage \<Rightarrow> (ActiveMQObjectMessage \<times> data_structure option) io" where
  "ActiveMQObjectMessage_tightUnmarshal w nest x =
    bind_io (Message_tightUnmarshal w nest x) (\<lambda>z.
    bind_io (Message_afterUnmarshal (fst z)) (\<lambda>x. ret (x, snd z)))"

definition ActiveMQObjectMessage_looseMarshal ::
  "wire_format \<Rightarrow> (data_structure option \<Rightarrow> unit io) \<Rightarrow> ActiveMQObjectMessage \<Rightarrow> data_structure option \<Rightarrow> unit io" where
  "ActiveMQObjectMessage_looseMarshal w nest x p =
    bind_io (Message_beforeMarshal x) (\<lambda>x.
    Message_looseMarshal w nest x p)"

definition ActiveMQObjectMessage_looseUnmarshal ::
  "wire_format \<Rightarrow> (data_structure option io) \<Rightarrow> ActiveMQObjectMessage \<Rightarrow> (ActiveMQObjectMessage \<times> data_structure option) io" where
  "ActiveMQObjectMessage_looseUnmarshal w nest x =
    bind_io (Message_looseUnmarshal w nest x) (\<lambda>z.
    bind_io (Message_afterUnmarshal (fst z)) (\<lambda>x. ret (x, snd z)))"

definition ActiveMQStreamMessage_tightMarshal1 ::
  "wire_format \<Rightarrow> (data_structure option \<Rightarrow> 32 word io) \<Rightarrow> ActiveMQStreamMessage \<Rightarrow> data_structure option \<Rightarrow> 32 word io" where
  "ActiveMQStreamMessage_tightMarshal1 w nest x p =
    bind_io (Message_beforeMarshal x) (\<lambda>x.
    bind_io (Message_tightMarshal1 w nest x p) (\<lambda>rc.
    ret (rc + 0)))"

definition ActiveMQStreamMessage_tightMarshal2 ::
  "wire_format \<Rightarrow> (data_structure option \<Rightarrow> unit io) \<Rightarrow> ActiveMQStreamMessage \<Rightarrow> data_structure option \<Rightarrow> unit io" where
  "ActiveMQStreamMessage_tightMarshal2 w nest x p =
    Message_tightMarshal2 w nest x p"

definition ActiveMQStreamMessage_tightUnmarshal ::
  "wire_format \<Rightarrow> (data_structure option io) \<Rightarrow> ActiveMQStreamMessage \<Rightarrow> (ActiveMQStreamMessage \<times> data_structure option) io" where
  "ActiveMQStreamMessage_tightUnmarshal w nest x =
    bind_io (Message_tightUnmarshal w nest x) (\<lambda>z.
    bind_io (Message_afterUnmarshal (fst z)) (\<lambda>x. ret (x, snd z)))"

definition ActiveMQStreamMessage_looseMarshal ::
  "wire_format \<Rightarrow> (data_structure option \<Rightarrow> unit io) \<Rightarrow> ActiveMQStreamMessage \<Rightarrow> data_structure option \<Rightarrow> unit io" where
  "ActiveMQStreamMessage_looseMarshal w nest x p =
    bind_io (Message_beforeMarshal x) (\<lambda>x.
    Message_looseMarshal w nest x p)"

definition ActiveMQStreamMessage_looseUnmarshal ::
  "wire_format \<Rightarrow> (data_structure option io) \<Rightarrow> ActiveMQStreamMessage \<Rightarrow> (ActiveMQStreamMessage \<times> data_structure option) io" where
  "ActiveMQStreamMessage_looseUnmarshal w nest x =
    bind_io (Message_looseUnmarshal w nest x) (\<lambda>z.
    bind_io (Message_afterUnmarshal (fst z)) (\<lambda>x. ret (x, snd z)))"

definition ActiveMQTextMessage_tightMarshal1 ::
  "wire_format \<Rightarrow> (data_structure option \<Rightarrow> 32 word io) \<Rightarrow> ActiveMQTextMessage \<Rightarrow> data_structure option \<Rightarrow> 32 word io" where
  "ActiveMQTextMessage_tightMarshal1 w nest x p =
    bind_io (ActiveMQTextMessage_beforeMarshal x) (\<lambda>x.
    bind_io (Message_tightMarshal1 w nest x p) (\<lambda>rc.
    ret (rc + 0)))"

definition ActiveMQTextMessage_tightMarshal2 ::
  "wire_format \<Rightarrow> (data_structure option \<Rightarrow> unit io) \<Rightarrow> ActiveMQTextMessage \<Rightarrow> data_structure option \<Rightarrow> unit io" where
  "ActiveMQTextMessage_tightMarshal2 w nest x p =
    Message_tightMarshal2 w nest x p"

definition ActiveMQTextMessage_tightUnmarshal ::
  "wire_format \<Rightarrow> (data_structure option io) \<Rightarrow> ActiveMQTextMessage \<Rightarrow> (ActiveMQTextMessage \<times> data_structure option) io" where
  "ActiveMQTextMessage_tightUnmarshal w nest x =
    bind_io (Message_tightUnmarshal w nest x) (\<lambda>z.
    bind_io (Message_afterUnmarshal (fst z)) (\<lambda>x. ret (x, snd z)))"

definition ActiveMQTextMessage_looseMarshal ::
  "wire_format \<Rightarrow> (data_structure option \<Rightarrow> unit io) \<Rightarrow> ActiveMQTextMessage \<Rightarrow> data_structure option \<Rightarrow> unit io" where
  "ActiveMQTextMessage_looseMarshal w nest x p =
    bind_io (ActiveMQTextMessage_beforeMarshal x) (\<lambda>x.
    Message_looseMarshal w nest x p)"

definition ActiveMQTextMessage_looseUnmarshal ::
  "wire_format \<Rightarrow> (data_structure option io) \<Rightarrow> ActiveMQTextMessage \<Rightarrow> (ActiveMQTextMessage \<times> data_structure option) io" where
  "ActiveMQTextMessage_looseUnmarshal w nest x =
    bind_io (Message_looseUnmarshal w nest x) (\<lambda>z.
    bind_io (Message_afterUnmarshal (fst z)) (\<lambda>x. ret (x, snd z)))"

definition ActiveMQBlobMessage_tightMarshal1 ::
  "wire_format \<Rightarrow> (data_structure option \<Rightarrow> 32 word io) \<Rightarrow> ActiveMQBlobMessage \<Rightarrow> data_structure option \<Rightarrow> 32 word io" where
  "ActiveMQBlobMessage_tightMarshal1 w nest x p =
    bind_io (Message_tightMarshal1 w nest x p) (\<lambda>rc.
    bind_io (if version w \<ge> 3 then tightMarshalString1 (ActiveMQBlobMessage_remoteBlobUrl x) else ret 0) (\<lambda>n1.
    bind_io (if version w \<ge> 3 then tightMarshalString1 (ActiveMQBlobMessage_mimeType x) else ret 0) (\<lambda>n2.
    next_io (if version w \<ge> 3 then writeBoolean (ActiveMQBlobMessage_deletedByBroker x) else ret ()) (
    ret (rc + n1 + n2 + 0)))))"

definition ActiveMQBlobMessage_tightMarshal2 ::
  "wire_format \<Rightarrow> (data_structure option \<Rightarrow> unit io) \<Rightarrow> ActiveMQBlobMessage \<Rightarrow> data_structure option \<Rightarrow> unit io" where
  "ActiveMQBlobMessage_tightMarshal2 w nest x p =
    next_io (Message_tightMarshal2 w nest x p) (
    next_io (if version w \<ge> 3 then tightMarshalString2 (ActiveMQBlobMessage_remoteBlobUrl x) else ret ()) (
    next_io (if version w \<ge> 3 then tightMarshalString2 (ActiveMQBlobMessage_mimeType x) else ret ()) (
    if version w \<ge> 3 then skip_boolean else ret ())))"

definition ActiveMQBlobMessage_tightUnmarshal ::
  "wire_format \<Rightarrow> (data_structure option io) \<Rightarrow> ActiveMQBlobMessage \<Rightarrow> (ActiveMQBlobMessage \<times> data_structure option) io" where
  "ActiveMQBlobMessage_tightUnmarshal w nest x =
    bind_io (Message_tightUnmarshal w nest x) (\<lambda>z.
    bind_io (if version w \<ge> 3 then tightUnmarshalString else ret (ActiveMQBlobMessage_remoteBlobUrl (fst z))) (\<lambda>v1.
    bind_io (if version w \<ge> 3 then tightUnmarshalString else ret (ActiveMQBlobMessage_mimeType (fst z))) (\<lambda>v2.
    bind_io (if version w \<ge> 3 then readBoolean else ret (ActiveMQBlobMessage_deletedByBroker (fst z))) (\<lambda>v3.
    ret ((fst z)\<lparr>ActiveMQBlobMessage_remoteBlobUrl := v1, ActiveMQBlobMessage_mimeType := v2,
      ActiveMQBlobMessage_deletedByBroker := v3\<rparr>, snd z)))))"

definition ActiveMQBlobMessage_looseMarshal ::
  "wire_format \<Rightarrow> (data_structure option \<Rightarrow> unit io) \<Rightarrow> ActiveMQBlobMessage \<Rightarrow> data_structure option \<Rightarrow> unit io" where
  "ActiveMQBlobMessage_looseMarshal w nest x p =
    next_io (Message_looseMarshal w nest x p) (
    next_io (if version w \<ge> 3 then looseMarshalString (ActiveMQBlobMessage_remoteBlobUrl x) else ret ()) (
    next_io (if version w \<ge> 3 then looseMarshalString (ActiveMQBlobMessage_mimeType x) else ret ()) (
    if version w \<ge> 3 then out_writeBoolean (ActiveMQBlobMessage_deletedByBroker x) else ret ())))"

definition ActiveMQBlobMessage_looseUnmarshal ::
  "wire_format \<Rightarrow> (data_structure option io) \<Rightarrow> ActiveMQBlobMessage \<Rightarrow> (ActiveMQBlobMessage \<times> data_structure option) io" where
  "ActiveMQBlobMessage_looseUnmarshal w nest x =
    bind_io (Message_looseUnmarshal w nest x) (\<lambda>z.
    bind_io (if version w \<ge> 3 then looseUnmarshalString else ret (ActiveMQBlobMessage_remoteBlobUrl (fst z))) (\<lambda>v1.
    bind_io (if version w \<ge> 3 then looseUnmarshalString else ret (ActiveMQBlobMessage_mimeType (fst z))) (\<lambda>v2.
    bind_io (if version w \<ge> 3 then in_readBoolean else ret (ActiveMQBlobMessage_deletedByBroker (fst z))) (\<lambda>v3.
    ret ((fst z)\<lparr>ActiveMQBlobMessage_remoteBlobUrl := v1, ActiveMQBlobMessage_mimeType := v2,
      ActiveMQBlobMessage_deletedByBroker := v3\<rparr>, snd z)))))"

text \<open>
  The first phase of the tight encoding changes the object, and the second writes the object as the first has left it.
  The hooks work on streams of their own.
\<close>

definition after_hook :: "('x \<Rightarrow> 'x io) \<Rightarrow> 'x \<Rightarrow> 'x" where
  "after_hook h x = (case fst (h x (idle [])) of Inr y \<Rightarrow> y | Inl _ \<Rightarrow> x)"

fun prepared :: "data_structure \<Rightarrow> data_structure" where
  "prepared (DWireFormatInfo x) = DWireFormatInfo (after_hook WireFormatInfo_beforeMarshal x)"
| "prepared (DActiveMQMessage x p) = DActiveMQMessage (after_hook Message_beforeMarshal x) p"
| "prepared (DActiveMQBytesMessage x p) = DActiveMQBytesMessage (after_hook Message_beforeMarshal x) p"
| "prepared (DActiveMQMapMessage x p) = DActiveMQMapMessage (after_hook ActiveMQMapMessage_beforeMarshal x) p"
| "prepared (DActiveMQObjectMessage x p) = DActiveMQObjectMessage (after_hook Message_beforeMarshal x) p"
| "prepared (DActiveMQStreamMessage x p) = DActiveMQStreamMessage (after_hook Message_beforeMarshal x) p"
| "prepared (DActiveMQTextMessage x p) = DActiveMQTextMessage (after_hook ActiveMQTextMessage_beforeMarshal x) p"
| "prepared d = d"

section \<open>Dispatch by class\<close>

text \<open>
  \<open>dataMarshallers[type]\<close> of the wire format, which \<open>MarshallerFactory::configure\<close> fills.  For an object to be
  sent the marshaller is the one of its class; for reading, the table gives for a type code the two methods that
  create and read the object.
\<close>

fun dsm_tightMarshal1 :: "wire_format \<Rightarrow> (data_structure option \<Rightarrow> 32 word io) \<Rightarrow> data_structure \<Rightarrow> 32 word io" where
  "dsm_tightMarshal1 w nest (DBrokerId x) = BrokerId_tightMarshal1 w nest x"
| "dsm_tightMarshal1 w nest (DConnectionId x) = ConnectionId_tightMarshal1 w nest x"
| "dsm_tightMarshal1 w nest (DSessionId x) = SessionId_tightMarshal1 w nest x"
| "dsm_tightMarshal1 w nest (DConsumerId x) = ConsumerId_tightMarshal1 w nest x"
| "dsm_tightMarshal1 w nest (DProducerId x) = ProducerId_tightMarshal1 w nest x"
| "dsm_tightMarshal1 w nest (DMessageId x) = MessageId_tightMarshal1 w nest x"
| "dsm_tightMarshal1 w nest (DDestination (ActiveMQQueue x)) = ActiveMQDestination_tightMarshal1 x"
| "dsm_tightMarshal1 w nest (DDestination (ActiveMQTopic x)) = ActiveMQDestination_tightMarshal1 x"
| "dsm_tightMarshal1 w nest (DDestination (ActiveMQTempQueue x)) = ActiveMQDestination_tightMarshal1 x"
| "dsm_tightMarshal1 w nest (DDestination (ActiveMQTempTopic x)) = ActiveMQDestination_tightMarshal1 x"
| "dsm_tightMarshal1 w nest (DTransactionId (Local x)) = LocalTransactionId_tightMarshal1 w nest x"
| "dsm_tightMarshal1 w nest (DTransactionId (XA x)) = XATransactionId_tightMarshal1 w nest x"
| "dsm_tightMarshal1 w nest (DConnectionInfo x) = ConnectionInfo_tightMarshal1 w nest x"
| "dsm_tightMarshal1 w nest (DSessionInfo x) = SessionInfo_tightMarshal1 w nest x"
| "dsm_tightMarshal1 w nest (DConsumerInfo x) = ConsumerInfo_tightMarshal1 w nest x"
| "dsm_tightMarshal1 w nest (DProducerInfo x) = ProducerInfo_tightMarshal1 w nest x"
| "dsm_tightMarshal1 w nest (DDestinationInfo x) = DestinationInfo_tightMarshal1 w nest x"
| "dsm_tightMarshal1 w nest (DRemoveInfo x p) = RemoveInfo_tightMarshal1 w nest x p"
| "dsm_tightMarshal1 w nest (DRemoveSubscriptionInfo x) = RemoveSubscriptionInfo_tightMarshal1 w nest x"
| "dsm_tightMarshal1 w nest (DTransactionInfo x) = TransactionInfo_tightMarshal1 w nest x"
| "dsm_tightMarshal1 w nest (DMessageAck x) = MessageAck_tightMarshal1 w nest x"
| "dsm_tightMarshal1 w nest (DMessagePull x) = MessagePull_tightMarshal1 w nest x"
| "dsm_tightMarshal1 w nest (DKeepAliveInfo x) = KeepAliveInfo_tightMarshal1 w nest x"
| "dsm_tightMarshal1 w nest (DShutdownInfo x) = ShutdownInfo_tightMarshal1 w nest x"
| "dsm_tightMarshal1 w nest (DResponse x) = Response_tightMarshal1 w nest x"
| "dsm_tightMarshal1 w nest (DExceptionResponse x) = ExceptionResponse_tightMarshal1 w nest x"
| "dsm_tightMarshal1 w nest (DIntegerResponse x) = IntegerResponse_tightMarshal1 w nest x"
| "dsm_tightMarshal1 w nest (DDataResponse x p) = DataResponse_tightMarshal1 w nest x p"
| "dsm_tightMarshal1 w nest (DProducerAck x) = ProducerAck_tightMarshal1 w nest x"
| "dsm_tightMarshal1 w nest (DConnectionError x) = ConnectionError_tightMarshal1 w nest x"
| "dsm_tightMarshal1 w nest (DConsumerControl x) = ConsumerControl_tightMarshal1 w nest x"
| "dsm_tightMarshal1 w nest (DConnectionControl x) = ConnectionControl_tightMarshal1 w nest x"
| "dsm_tightMarshal1 w nest (DControlCommand x) = ControlCommand_tightMarshal1 w nest x"
| "dsm_tightMarshal1 w nest (DMessageDispatchNotification x) = MessageDispatchNotification_tightMarshal1 w nest x"
| "dsm_tightMarshal1 w nest (DSubscriptionInfo x) = SubscriptionInfo_tightMarshal1 w nest x"
| "dsm_tightMarshal1 w nest (DFlushCommand x) = FlushCommand_tightMarshal1 w nest x"
| "dsm_tightMarshal1 w nest (DReplayCommand x) = ReplayCommand_tightMarshal1 w nest x"
| "dsm_tightMarshal1 w nest (DPartialCommand x) = PartialCommand_tightMarshal1 w nest x"
| "dsm_tightMarshal1 w nest (DLastPartialCommand x) = LastPartialCommand_tightMarshal1 w nest x"
| "dsm_tightMarshal1 w nest (DDiscoveryEvent x) = DiscoveryEvent_tightMarshal1 w nest x"
| "dsm_tightMarshal1 w nest (DNetworkBridgeFilter x) = NetworkBridgeFilter_tightMarshal1 w nest x"
| "dsm_tightMarshal1 w nest (DJournalQueueAck x) = JournalQueueAck_tightMarshal1 w nest x"
| "dsm_tightMarshal1 w nest (DJournalTopicAck x) = JournalTopicAck_tightMarshal1 w nest x"
| "dsm_tightMarshal1 w nest (DJournalTrace x) = JournalTrace_tightMarshal1 w nest x"
| "dsm_tightMarshal1 w nest (DJournalTransaction x) = JournalTransaction_tightMarshal1 w nest x"
| "dsm_tightMarshal1 w nest (DMessageDispatch x p) = MessageDispatch_tightMarshal1 w nest x p"
| "dsm_tightMarshal1 w nest (DBrokerInfo x p) = BrokerInfo_tightMarshal1 w nest x p"
| "dsm_tightMarshal1 w nest (DDataArrayResponse x p) = DataArrayResponse_tightMarshal1 w nest x p"
| "dsm_tightMarshal1 w nest (DWireFormatInfo x) = WireFormatInfo_tightMarshal1 w nest x"
| "dsm_tightMarshal1 w nest (DActiveMQMessage x p) = ActiveMQMessage_tightMarshal1 w nest x p"
| "dsm_tightMarshal1 w nest (DActiveMQBytesMessage x p) = ActiveMQBytesMessage_tightMarshal1 w nest x p"
| "dsm_tightMarshal1 w nest (DActiveMQMapMessage x p) = ActiveMQMapMessage_tightMarshal1 w nest x p"
| "dsm_tightMarshal1 w nest (DActiveMQObjectMessage x p) = ActiveMQObjectMessage_tightMarshal1 w nest x p"
| "dsm_tightMarshal1 w nest (DActiveMQStreamMessage x p) = ActiveMQStreamMessage_tightMarshal1 w nest x p"
| "dsm_tightMarshal1 w nest (DActiveMQTextMessage x p) = ActiveMQTextMessage_tightMarshal1 w nest x p"
| "dsm_tightMarshal1 w nest (DActiveMQBlobMessage x p) = ActiveMQBlobMessage_tightMarshal1 w nest x p"

fun dsm_tightMarshal2 :: "wire_format \<Rightarrow> (data_structure option \<Rightarrow> unit io) \<Rightarrow> data_structure \<Rightarrow> unit io" where
  "dsm_tightMarshal2 w nest (DBrokerId x) = BrokerId_tightMarshal2 w nest x"
| "dsm_tightMarshal2 w nest (DConnectionId x) = ConnectionId_tightMarshal2 w nest x"
| "dsm_tightMarshal2 w nest (DSessionId x) = SessionId_tightMarshal2 w nest x"
| "dsm_tightMarshal2 w nest (DConsumerId x) = ConsumerId_tightMarshal2 w nest x"
| "dsm_tightMarshal2 w nest (DProducerId x) = ProducerId_tightMarshal2 w nest x"
| "dsm_tightMarshal2 w nest (DMessageId x) = MessageId_tightMarshal2 w nest x"
| "dsm_tightMarshal2 w nest (DDestination (ActiveMQQueue x)) = ActiveMQDestination_tightMarshal2 x"
| "dsm_tightMarshal2 w nest (DDestination (ActiveMQTopic x)) = ActiveMQDestination_tightMarshal2 x"
| "dsm_tightMarshal2 w nest (DDestination (ActiveMQTempQueue x)) = ActiveMQDestination_tightMarshal2 x"
| "dsm_tightMarshal2 w nest (DDestination (ActiveMQTempTopic x)) = ActiveMQDestination_tightMarshal2 x"
| "dsm_tightMarshal2 w nest (DTransactionId (Local x)) = LocalTransactionId_tightMarshal2 w nest x"
| "dsm_tightMarshal2 w nest (DTransactionId (XA x)) = XATransactionId_tightMarshal2 w nest x"
| "dsm_tightMarshal2 w nest (DConnectionInfo x) = ConnectionInfo_tightMarshal2 w nest x"
| "dsm_tightMarshal2 w nest (DSessionInfo x) = SessionInfo_tightMarshal2 w nest x"
| "dsm_tightMarshal2 w nest (DConsumerInfo x) = ConsumerInfo_tightMarshal2 w nest x"
| "dsm_tightMarshal2 w nest (DProducerInfo x) = ProducerInfo_tightMarshal2 w nest x"
| "dsm_tightMarshal2 w nest (DDestinationInfo x) = DestinationInfo_tightMarshal2 w nest x"
| "dsm_tightMarshal2 w nest (DRemoveInfo x p) = RemoveInfo_tightMarshal2 w nest x p"
| "dsm_tightMarshal2 w nest (DRemoveSubscriptionInfo x) = RemoveSubscriptionInfo_tightMarshal2 w nest x"
| "dsm_tightMarshal2 w nest (DTransactionInfo x) = TransactionInfo_tightMarshal2 w nest x"
| "dsm_tightMarshal2 w nest (DMessageAck x) = MessageAck_tightMarshal2 w nest x"
| "dsm_tightMarshal2 w nest (DMessagePull x) = MessagePull_tightMarshal2 w nest x"
| "dsm_tightMarshal2 w nest (DKeepAliveInfo x) = KeepAliveInfo_tightMarshal2 w nest x"
| "dsm_tightMarshal2 w nest (DShutdownInfo x) = ShutdownInfo_tightMarshal2 w nest x"
| "dsm_tightMarshal2 w nest (DResponse x) = Response_tightMarshal2 w nest x"
| "dsm_tightMarshal2 w nest (DExceptionResponse x) = ExceptionResponse_tightMarshal2 w nest x"
| "dsm_tightMarshal2 w nest (DIntegerResponse x) = IntegerResponse_tightMarshal2 w nest x"
| "dsm_tightMarshal2 w nest (DDataResponse x p) = DataResponse_tightMarshal2 w nest x p"
| "dsm_tightMarshal2 w nest (DProducerAck x) = ProducerAck_tightMarshal2 w nest x"
| "dsm_tightMarshal2 w nest (DConnectionError x) = ConnectionError_tightMarshal2 w nest x"
| "dsm_tightMarshal2 w nest (DConsumerControl x) = ConsumerControl_tightMarshal2 w nest x"
| "dsm_tightMarshal2 w nest (DConnectionControl x) = ConnectionControl_tightMarshal2 w nest x"
| "dsm_tightMarshal2 w nest (DControlCommand x) = ControlCommand_tightMarshal2 w nest x"
| "dsm_tightMarshal2 w nest (DMessageDispatchNotification x) = MessageDispatchNotification_tightMarshal2 w nest x"
| "dsm_tightMarshal2 w nest (DSubscriptionInfo x) = SubscriptionInfo_tightMarshal2 w nest x"
| "dsm_tightMarshal2 w nest (DFlushCommand x) = FlushCommand_tightMarshal2 w nest x"
| "dsm_tightMarshal2 w nest (DReplayCommand x) = ReplayCommand_tightMarshal2 w nest x"
| "dsm_tightMarshal2 w nest (DPartialCommand x) = PartialCommand_tightMarshal2 w nest x"
| "dsm_tightMarshal2 w nest (DLastPartialCommand x) = LastPartialCommand_tightMarshal2 w nest x"
| "dsm_tightMarshal2 w nest (DDiscoveryEvent x) = DiscoveryEvent_tightMarshal2 w nest x"
| "dsm_tightMarshal2 w nest (DNetworkBridgeFilter x) = NetworkBridgeFilter_tightMarshal2 w nest x"
| "dsm_tightMarshal2 w nest (DJournalQueueAck x) = JournalQueueAck_tightMarshal2 w nest x"
| "dsm_tightMarshal2 w nest (DJournalTopicAck x) = JournalTopicAck_tightMarshal2 w nest x"
| "dsm_tightMarshal2 w nest (DJournalTrace x) = JournalTrace_tightMarshal2 w nest x"
| "dsm_tightMarshal2 w nest (DJournalTransaction x) = JournalTransaction_tightMarshal2 w nest x"
| "dsm_tightMarshal2 w nest (DMessageDispatch x p) = MessageDispatch_tightMarshal2 w nest x p"
| "dsm_tightMarshal2 w nest (DBrokerInfo x p) = BrokerInfo_tightMarshal2 w nest x p"
| "dsm_tightMarshal2 w nest (DDataArrayResponse x p) = DataArrayResponse_tightMarshal2 w nest x p"
| "dsm_tightMarshal2 w nest (DWireFormatInfo x) = WireFormatInfo_tightMarshal2 w nest x"
| "dsm_tightMarshal2 w nest (DActiveMQMessage x p) = ActiveMQMessage_tightMarshal2 w nest x p"
| "dsm_tightMarshal2 w nest (DActiveMQBytesMessage x p) = ActiveMQBytesMessage_tightMarshal2 w nest x p"
| "dsm_tightMarshal2 w nest (DActiveMQMapMessage x p) = ActiveMQMapMessage_tightMarshal2 w nest x p"
| "dsm_tightMarshal2 w nest (DActiveMQObjectMessage x p) = ActiveMQObjectMessage_tightMarshal2 w nest x p"
| "dsm_tightMarshal2 w nest (DActiveMQStreamMessage x p) = ActiveMQStreamMessage_tightMarshal2 w nest x p"
| "dsm_tightMarshal2 w nest (DActiveMQTextMessage x p) = ActiveMQTextMessage_tightMarshal2 w nest x p"
| "dsm_tightMarshal2 w nest (DActiveMQBlobMessage x p) = ActiveMQBlobMessage_tightMarshal2 w nest x p"

fun dsm_looseMarshal :: "wire_format \<Rightarrow> (data_structure option \<Rightarrow> unit io) \<Rightarrow> data_structure \<Rightarrow> unit io" where
  "dsm_looseMarshal w nest (DBrokerId x) = BrokerId_looseMarshal w nest x"
| "dsm_looseMarshal w nest (DConnectionId x) = ConnectionId_looseMarshal w nest x"
| "dsm_looseMarshal w nest (DSessionId x) = SessionId_looseMarshal w nest x"
| "dsm_looseMarshal w nest (DConsumerId x) = ConsumerId_looseMarshal w nest x"
| "dsm_looseMarshal w nest (DProducerId x) = ProducerId_looseMarshal w nest x"
| "dsm_looseMarshal w nest (DMessageId x) = MessageId_looseMarshal w nest x"
| "dsm_looseMarshal w nest (DDestination (ActiveMQQueue x)) = ActiveMQDestination_looseMarshal x"
| "dsm_looseMarshal w nest (DDestination (ActiveMQTopic x)) = ActiveMQDestination_looseMarshal x"
| "dsm_looseMarshal w nest (DDestination (ActiveMQTempQueue x)) = ActiveMQDestination_looseMarshal x"
| "dsm_looseMarshal w nest (DDestination (ActiveMQTempTopic x)) = ActiveMQDestination_looseMarshal x"
| "dsm_looseMarshal w nest (DTransactionId (Local x)) = LocalTransactionId_looseMarshal w nest x"
| "dsm_looseMarshal w nest (DTransactionId (XA x)) = XATransactionId_looseMarshal w nest x"
| "dsm_looseMarshal w nest (DConnectionInfo x) = ConnectionInfo_looseMarshal w nest x"
| "dsm_looseMarshal w nest (DSessionInfo x) = SessionInfo_looseMarshal w nest x"
| "dsm_looseMarshal w nest (DConsumerInfo x) = ConsumerInfo_looseMarshal w nest x"
| "dsm_looseMarshal w nest (DProducerInfo x) = ProducerInfo_looseMarshal w nest x"
| "dsm_looseMarshal w nest (DDestinationInfo x) = DestinationInfo_looseMarshal w nest x"
| "dsm_looseMarshal w nest (DRemoveInfo x p) = RemoveInfo_looseMarshal w nest x p"
| "dsm_looseMarshal w nest (DRemoveSubscriptionInfo x) = RemoveSubscriptionInfo_looseMarshal w nest x"
| "dsm_looseMarshal w nest (DTransactionInfo x) = TransactionInfo_looseMarshal w nest x"
| "dsm_looseMarshal w nest (DMessageAck x) = MessageAck_looseMarshal w nest x"
| "dsm_looseMarshal w nest (DMessagePull x) = MessagePull_looseMarshal w nest x"
| "dsm_looseMarshal w nest (DKeepAliveInfo x) = KeepAliveInfo_looseMarshal w nest x"
| "dsm_looseMarshal w nest (DShutdownInfo x) = ShutdownInfo_looseMarshal w nest x"
| "dsm_looseMarshal w nest (DResponse x) = Response_looseMarshal w nest x"
| "dsm_looseMarshal w nest (DExceptionResponse x) = ExceptionResponse_looseMarshal w nest x"
| "dsm_looseMarshal w nest (DIntegerResponse x) = IntegerResponse_looseMarshal w nest x"
| "dsm_looseMarshal w nest (DDataResponse x p) = DataResponse_looseMarshal w nest x p"
| "dsm_looseMarshal w nest (DProducerAck x) = ProducerAck_looseMarshal w nest x"
| "dsm_looseMarshal w nest (DConnectionError x) = ConnectionError_looseMarshal w nest x"
| "dsm_looseMarshal w nest (DConsumerControl x) = ConsumerControl_looseMarshal w nest x"
| "dsm_looseMarshal w nest (DConnectionControl x) = ConnectionControl_looseMarshal w nest x"
| "dsm_looseMarshal w nest (DControlCommand x) = ControlCommand_looseMarshal w nest x"
| "dsm_looseMarshal w nest (DMessageDispatchNotification x) = MessageDispatchNotification_looseMarshal w nest x"
| "dsm_looseMarshal w nest (DSubscriptionInfo x) = SubscriptionInfo_looseMarshal w nest x"
| "dsm_looseMarshal w nest (DFlushCommand x) = FlushCommand_looseMarshal w nest x"
| "dsm_looseMarshal w nest (DReplayCommand x) = ReplayCommand_looseMarshal w nest x"
| "dsm_looseMarshal w nest (DPartialCommand x) = PartialCommand_looseMarshal w nest x"
| "dsm_looseMarshal w nest (DLastPartialCommand x) = LastPartialCommand_looseMarshal w nest x"
| "dsm_looseMarshal w nest (DDiscoveryEvent x) = DiscoveryEvent_looseMarshal w nest x"
| "dsm_looseMarshal w nest (DNetworkBridgeFilter x) = NetworkBridgeFilter_looseMarshal w nest x"
| "dsm_looseMarshal w nest (DJournalQueueAck x) = JournalQueueAck_looseMarshal w nest x"
| "dsm_looseMarshal w nest (DJournalTopicAck x) = JournalTopicAck_looseMarshal w nest x"
| "dsm_looseMarshal w nest (DJournalTrace x) = JournalTrace_looseMarshal w nest x"
| "dsm_looseMarshal w nest (DJournalTransaction x) = JournalTransaction_looseMarshal w nest x"
| "dsm_looseMarshal w nest (DMessageDispatch x p) = MessageDispatch_looseMarshal w nest x p"
| "dsm_looseMarshal w nest (DBrokerInfo x p) = BrokerInfo_looseMarshal w nest x p"
| "dsm_looseMarshal w nest (DDataArrayResponse x p) = DataArrayResponse_looseMarshal w nest x p"
| "dsm_looseMarshal w nest (DWireFormatInfo x) = WireFormatInfo_looseMarshal w nest x"
| "dsm_looseMarshal w nest (DActiveMQMessage x p) = ActiveMQMessage_looseMarshal w nest x p"
| "dsm_looseMarshal w nest (DActiveMQBytesMessage x p) = ActiveMQBytesMessage_looseMarshal w nest x p"
| "dsm_looseMarshal w nest (DActiveMQMapMessage x p) = ActiveMQMapMessage_looseMarshal w nest x p"
| "dsm_looseMarshal w nest (DActiveMQObjectMessage x p) = ActiveMQObjectMessage_looseMarshal w nest x p"
| "dsm_looseMarshal w nest (DActiveMQStreamMessage x p) = ActiveMQStreamMessage_looseMarshal w nest x p"
| "dsm_looseMarshal w nest (DActiveMQTextMessage x p) = ActiveMQTextMessage_looseMarshal w nest x p"
| "dsm_looseMarshal w nest (DActiveMQBlobMessage x p) = ActiveMQBlobMessage_looseMarshal w nest x p"

definition tight_readers :: "(byte \<times> (wire_format \<Rightarrow> data_structure option io \<Rightarrow> data_structure io)) list" where
  "tight_readers =
    [(124, \<lambda>w nest. bind_io (BrokerId_tightUnmarshal w nest create_BrokerId) (\<lambda>x. ret (DBrokerId x))),
     (120, \<lambda>w nest. bind_io (ConnectionId_tightUnmarshal w nest create_ConnectionId) (\<lambda>x. ret (DConnectionId x))),
     (121, \<lambda>w nest. bind_io (SessionId_tightUnmarshal w nest create_SessionId) (\<lambda>x. ret (DSessionId x))),
     (122, \<lambda>w nest. bind_io (ConsumerId_tightUnmarshal w nest create_ConsumerId) (\<lambda>x. ret (DConsumerId x))),
     (123, \<lambda>w nest. bind_io (ProducerId_tightUnmarshal w nest create_ProducerId) (\<lambda>x. ret (DProducerId x))),
     (110, \<lambda>w nest. bind_io (MessageId_tightUnmarshal w nest create_MessageId) (\<lambda>x. ret (DMessageId x))),
     (100, \<lambda>w nest. bind_io (ActiveMQDestination_tightUnmarshal create_ActiveMQDestination) (\<lambda>x. ret (DDestination (ActiveMQQueue x)))),
     (101, \<lambda>w nest. bind_io (ActiveMQDestination_tightUnmarshal create_ActiveMQDestination) (\<lambda>x. ret (DDestination (ActiveMQTopic x)))),
     (102, \<lambda>w nest. bind_io (ActiveMQDestination_tightUnmarshal create_ActiveMQDestination) (\<lambda>x. ret (DDestination (ActiveMQTempQueue x)))),
     (103, \<lambda>w nest. bind_io (ActiveMQDestination_tightUnmarshal create_ActiveMQDestination) (\<lambda>x. ret (DDestination (ActiveMQTempTopic x)))),
     (111, \<lambda>w nest. bind_io (LocalTransactionId_tightUnmarshal w nest create_LocalTransactionId) (\<lambda>x. ret (DTransactionId (Local x)))),
     (112, \<lambda>w nest. bind_io (XATransactionId_tightUnmarshal w nest create_XATransactionId) (\<lambda>x. ret (DTransactionId (XA x)))),
     (3, \<lambda>w nest. bind_io (ConnectionInfo_tightUnmarshal w nest create_ConnectionInfo) (\<lambda>x. ret (DConnectionInfo x))),
     (4, \<lambda>w nest. bind_io (SessionInfo_tightUnmarshal w nest create_SessionInfo) (\<lambda>x. ret (DSessionInfo x))),
     (5, \<lambda>w nest. bind_io (ConsumerInfo_tightUnmarshal w nest create_ConsumerInfo) (\<lambda>x. ret (DConsumerInfo x))),
     (6, \<lambda>w nest. bind_io (ProducerInfo_tightUnmarshal w nest create_ProducerInfo) (\<lambda>x. ret (DProducerInfo x))),
     (8, \<lambda>w nest. bind_io (DestinationInfo_tightUnmarshal w nest create_DestinationInfo) (\<lambda>x. ret (DDestinationInfo x))),
     (12, \<lambda>w nest. bind_io (RemoveInfo_tightUnmarshal w nest create_RemoveInfo) (\<lambda>z. ret (DRemoveInfo (fst z) (snd z)))),
     (9, \<lambda>w nest. bind_io (RemoveSubscriptionInfo_tightUnmarshal w nest create_RemoveSubscriptionInfo) (\<lambda>x. ret (DRemoveSubscriptionInfo x))),
     (7, \<lambda>w nest. bind_io (TransactionInfo_tightUnmarshal w nest create_TransactionInfo) (\<lambda>x. ret (DTransactionInfo x))),
     (22, \<lambda>w nest. bind_io (MessageAck_tightUnmarshal w nest create_MessageAck) (\<lambda>x. ret (DMessageAck x))),
     (20, \<lambda>w nest. bind_io (MessagePull_tightUnmarshal w nest create_MessagePull) (\<lambda>x. ret (DMessagePull x))),
     (10, \<lambda>w nest. bind_io (KeepAliveInfo_tightUnmarshal w nest create_BaseCommand) (\<lambda>x. ret (DKeepAliveInfo x))),
     (11, \<lambda>w nest. bind_io (ShutdownInfo_tightUnmarshal w nest create_BaseCommand) (\<lambda>x. ret (DShutdownInfo x))),
     (30, \<lambda>w nest. bind_io (Response_tightUnmarshal w nest create_Response) (\<lambda>x. ret (DResponse x))),
     (31, \<lambda>w nest. bind_io (ExceptionResponse_tightUnmarshal w nest create_ExceptionResponse) (\<lambda>x. ret (DExceptionResponse x))),
     (34, \<lambda>w nest. bind_io (IntegerResponse_tightUnmarshal w nest create_IntegerResponse) (\<lambda>x. ret (DIntegerResponse x))),
     (32, \<lambda>w nest. bind_io (DataResponse_tightUnmarshal w nest create_Response) (\<lambda>z. ret (DDataResponse (fst z) (snd z)))),
     (19, \<lambda>w nest. bind_io (ProducerAck_tightUnmarshal w nest create_ProducerAck) (\<lambda>x. ret (DProducerAck x))),
     (16, \<lambda>w nest. bind_io (ConnectionError_tightUnmarshal w nest create_ConnectionError) (\<lambda>x. ret (DConnectionError x))),
     (17, \<lambda>w nest. bind_io (ConsumerControl_tightUnmarshal w nest create_ConsumerControl) (\<lambda>x. ret (DConsumerControl x))),
     (18, \<lambda>w nest. bind_io (ConnectionControl_tightUnmarshal w nest create_ConnectionControl) (\<lambda>x. ret (DConnectionControl x))),
     (14, \<lambda>w nest. bind_io (ControlCommand_tightUnmarshal w nest create_ControlCommand) (\<lambda>x. ret (DControlCommand x))),
     (90, \<lambda>w nest. bind_io (MessageDispatchNotification_tightUnmarshal w nest create_MessageDispatchNotification) (\<lambda>x. ret (DMessageDispatchNotification x))),
     (55, \<lambda>w nest. bind_io (SubscriptionInfo_tightUnmarshal w nest create_SubscriptionInfo) (\<lambda>x. ret (DSubscriptionInfo x))),
     (15, \<lambda>w nest. bind_io (FlushCommand_tightUnmarshal w nest create_BaseCommand) (\<lambda>x. ret (DFlushCommand x))),
     (65, \<lambda>w nest. bind_io (ReplayCommand_tightUnmarshal w nest create_ReplayCommand) (\<lambda>x. ret (DReplayCommand x))),
     (60, \<lambda>w nest. bind_io (PartialCommand_tightUnmarshal w nest create_PartialCommand) (\<lambda>x. ret (DPartialCommand x))),
     (61, \<lambda>w nest. bind_io (LastPartialCommand_tightUnmarshal w nest create_PartialCommand) (\<lambda>x. ret (DLastPartialCommand x))),
     (40, \<lambda>w nest. bind_io (DiscoveryEvent_tightUnmarshal w nest create_DiscoveryEvent) (\<lambda>x. ret (DDiscoveryEvent x))),
     (91, \<lambda>w nest. bind_io (NetworkBridgeFilter_tightUnmarshal w nest create_NetworkBridgeFilter) (\<lambda>x. ret (DNetworkBridgeFilter x))),
     (52, \<lambda>w nest. bind_io (JournalQueueAck_tightUnmarshal w nest create_JournalQueueAck) (\<lambda>x. ret (DJournalQueueAck x))),
     (50, \<lambda>w nest. bind_io (JournalTopicAck_tightUnmarshal w nest create_JournalTopicAck) (\<lambda>x. ret (DJournalTopicAck x))),
     (53, \<lambda>w nest. bind_io (JournalTrace_tightUnmarshal w nest create_JournalTrace) (\<lambda>x. ret (DJournalTrace x))),
     (54, \<lambda>w nest. bind_io (JournalTransaction_tightUnmarshal w nest create_JournalTransaction) (\<lambda>x. ret (DJournalTransaction x))),
     (21, \<lambda>w nest. bind_io (MessageDispatch_tightUnmarshal w nest create_MessageDispatch) (\<lambda>z. ret (DMessageDispatch (fst z) (snd z)))),
     (2, \<lambda>w nest. bind_io (BrokerInfo_tightUnmarshal w nest create_BrokerInfo) (\<lambda>z. ret (DBrokerInfo (fst z) (snd z)))),
     (33, \<lambda>w nest. bind_io (DataArrayResponse_tightUnmarshal w nest create_Response) (\<lambda>z. ret (DDataArrayResponse (fst z) (snd z)))),
     (1, \<lambda>w nest. bind_io (WireFormatInfo_tightUnmarshal w nest create_WireFormatInfo) (\<lambda>x. ret (DWireFormatInfo x))),
     (23, \<lambda>w nest. bind_io (ActiveMQMessage_tightUnmarshal w nest create_Message) (\<lambda>z. ret (DActiveMQMessage (fst z) (snd z)))),
     (24, \<lambda>w nest. bind_io (ActiveMQBytesMessage_tightUnmarshal w nest create_Message) (\<lambda>z. ret (DActiveMQBytesMessage (fst z) (snd z)))),
     (25, \<lambda>w nest. bind_io (ActiveMQMapMessage_tightUnmarshal w nest create_ActiveMQMapMessage) (\<lambda>z. ret (DActiveMQMapMessage (fst z) (snd z)))),
     (26, \<lambda>w nest. bind_io (ActiveMQObjectMessage_tightUnmarshal w nest create_Message) (\<lambda>z. ret (DActiveMQObjectMessage (fst z) (snd z)))),
     (27, \<lambda>w nest. bind_io (ActiveMQStreamMessage_tightUnmarshal w nest create_Message) (\<lambda>z. ret (DActiveMQStreamMessage (fst z) (snd z)))),
     (28, \<lambda>w nest. bind_io (ActiveMQTextMessage_tightUnmarshal w nest create_ActiveMQTextMessage) (\<lambda>z. ret (DActiveMQTextMessage (fst z) (snd z)))),
     (29, \<lambda>w nest. bind_io (ActiveMQBlobMessage_tightUnmarshal w nest create_ActiveMQBlobMessage) (\<lambda>z. ret (DActiveMQBlobMessage (fst z) (snd z))))]"

definition loose_readers :: "(byte \<times> (wire_format \<Rightarrow> data_structure option io \<Rightarrow> data_structure io)) list" where
  "loose_readers =
    [(124, \<lambda>w nest. bind_io (BrokerId_looseUnmarshal w nest create_BrokerId) (\<lambda>x. ret (DBrokerId x))),
     (120, \<lambda>w nest. bind_io (ConnectionId_looseUnmarshal w nest create_ConnectionId) (\<lambda>x. ret (DConnectionId x))),
     (121, \<lambda>w nest. bind_io (SessionId_looseUnmarshal w nest create_SessionId) (\<lambda>x. ret (DSessionId x))),
     (122, \<lambda>w nest. bind_io (ConsumerId_looseUnmarshal w nest create_ConsumerId) (\<lambda>x. ret (DConsumerId x))),
     (123, \<lambda>w nest. bind_io (ProducerId_looseUnmarshal w nest create_ProducerId) (\<lambda>x. ret (DProducerId x))),
     (110, \<lambda>w nest. bind_io (MessageId_looseUnmarshal w nest create_MessageId) (\<lambda>x. ret (DMessageId x))),
     (100, \<lambda>w nest. bind_io (ActiveMQDestination_looseUnmarshal create_ActiveMQDestination) (\<lambda>x. ret (DDestination (ActiveMQQueue x)))),
     (101, \<lambda>w nest. bind_io (ActiveMQDestination_looseUnmarshal create_ActiveMQDestination) (\<lambda>x. ret (DDestination (ActiveMQTopic x)))),
     (102, \<lambda>w nest. bind_io (ActiveMQDestination_looseUnmarshal create_ActiveMQDestination) (\<lambda>x. ret (DDestination (ActiveMQTempQueue x)))),
     (103, \<lambda>w nest. bind_io (ActiveMQDestination_looseUnmarshal create_ActiveMQDestination) (\<lambda>x. ret (DDestination (ActiveMQTempTopic x)))),
     (111, \<lambda>w nest. bind_io (LocalTransactionId_looseUnmarshal w nest create_LocalTransactionId) (\<lambda>x. ret (DTransactionId (Local x)))),
     (112, \<lambda>w nest. bind_io (XATransactionId_looseUnmarshal w nest create_XATransactionId) (\<lambda>x. ret (DTransactionId (XA x)))),
     (3, \<lambda>w nest. bind_io (ConnectionInfo_looseUnmarshal w nest create_ConnectionInfo) (\<lambda>x. ret (DConnectionInfo x))),
     (4, \<lambda>w nest. bind_io (SessionInfo_looseUnmarshal w nest create_SessionInfo) (\<lambda>x. ret (DSessionInfo x))),
     (5, \<lambda>w nest. bind_io (ConsumerInfo_looseUnmarshal w nest create_ConsumerInfo) (\<lambda>x. ret (DConsumerInfo x))),
     (6, \<lambda>w nest. bind_io (ProducerInfo_looseUnmarshal w nest create_ProducerInfo) (\<lambda>x. ret (DProducerInfo x))),
     (8, \<lambda>w nest. bind_io (DestinationInfo_looseUnmarshal w nest create_DestinationInfo) (\<lambda>x. ret (DDestinationInfo x))),
     (12, \<lambda>w nest. bind_io (RemoveInfo_looseUnmarshal w nest create_RemoveInfo) (\<lambda>z. ret (DRemoveInfo (fst z) (snd z)))),
     (9, \<lambda>w nest. bind_io (RemoveSubscriptionInfo_looseUnmarshal w nest create_RemoveSubscriptionInfo) (\<lambda>x. ret (DRemoveSubscriptionInfo x))),
     (7, \<lambda>w nest. bind_io (TransactionInfo_looseUnmarshal w nest create_TransactionInfo) (\<lambda>x. ret (DTransactionInfo x))),
     (22, \<lambda>w nest. bind_io (MessageAck_looseUnmarshal w nest create_MessageAck) (\<lambda>x. ret (DMessageAck x))),
     (20, \<lambda>w nest. bind_io (MessagePull_looseUnmarshal w nest create_MessagePull) (\<lambda>x. ret (DMessagePull x))),
     (10, \<lambda>w nest. bind_io (KeepAliveInfo_looseUnmarshal w nest create_BaseCommand) (\<lambda>x. ret (DKeepAliveInfo x))),
     (11, \<lambda>w nest. bind_io (ShutdownInfo_looseUnmarshal w nest create_BaseCommand) (\<lambda>x. ret (DShutdownInfo x))),
     (30, \<lambda>w nest. bind_io (Response_looseUnmarshal w nest create_Response) (\<lambda>x. ret (DResponse x))),
     (31, \<lambda>w nest. bind_io (ExceptionResponse_looseUnmarshal w nest create_ExceptionResponse) (\<lambda>x. ret (DExceptionResponse x))),
     (34, \<lambda>w nest. bind_io (IntegerResponse_looseUnmarshal w nest create_IntegerResponse) (\<lambda>x. ret (DIntegerResponse x))),
     (32, \<lambda>w nest. bind_io (DataResponse_looseUnmarshal w nest create_Response) (\<lambda>z. ret (DDataResponse (fst z) (snd z)))),
     (19, \<lambda>w nest. bind_io (ProducerAck_looseUnmarshal w nest create_ProducerAck) (\<lambda>x. ret (DProducerAck x))),
     (16, \<lambda>w nest. bind_io (ConnectionError_looseUnmarshal w nest create_ConnectionError) (\<lambda>x. ret (DConnectionError x))),
     (17, \<lambda>w nest. bind_io (ConsumerControl_looseUnmarshal w nest create_ConsumerControl) (\<lambda>x. ret (DConsumerControl x))),
     (18, \<lambda>w nest. bind_io (ConnectionControl_looseUnmarshal w nest create_ConnectionControl) (\<lambda>x. ret (DConnectionControl x))),
     (14, \<lambda>w nest. bind_io (ControlCommand_looseUnmarshal w nest create_ControlCommand) (\<lambda>x. ret (DControlCommand x))),
     (90, \<lambda>w nest. bind_io (MessageDispatchNotification_looseUnmarshal w nest create_MessageDispatchNotification) (\<lambda>x. ret (DMessageDispatchNotification x))),
     (55, \<lambda>w nest. bind_io (SubscriptionInfo_looseUnmarshal w nest create_SubscriptionInfo) (\<lambda>x. ret (DSubscriptionInfo x))),
     (15, \<lambda>w nest. bind_io (FlushCommand_looseUnmarshal w nest create_BaseCommand) (\<lambda>x. ret (DFlushCommand x))),
     (65, \<lambda>w nest. bind_io (ReplayCommand_looseUnmarshal w nest create_ReplayCommand) (\<lambda>x. ret (DReplayCommand x))),
     (60, \<lambda>w nest. bind_io (PartialCommand_looseUnmarshal w nest create_PartialCommand) (\<lambda>x. ret (DPartialCommand x))),
     (61, \<lambda>w nest. bind_io (LastPartialCommand_looseUnmarshal w nest create_PartialCommand) (\<lambda>x. ret (DLastPartialCommand x))),
     (40, \<lambda>w nest. bind_io (DiscoveryEvent_looseUnmarshal w nest create_DiscoveryEvent) (\<lambda>x. ret (DDiscoveryEvent x))),
     (91, \<lambda>w nest. bind_io (NetworkBridgeFilter_looseUnmarshal w nest create_NetworkBridgeFilter) (\<lambda>x. ret (DNetworkBridgeFilter x))),
     (52, \<lambda>w nest. bind_io (JournalQueueAck_looseUnmarshal w nest create_JournalQueueAck) (\<lambda>x. ret (DJournalQueueAck x))),
     (50, \<lambda>w nest. bind_io (JournalTopicAck_looseUnmarshal w nest create_JournalTopicAck) (\<lambda>x. ret (DJournalTopicAck x))),
     (53, \<lambda>w nest. bind_io (JournalTrace_looseUnmarshal w nest create_JournalTrace) (\<lambda>x. ret (DJournalTrace x))),
     (54, \<lambda>w nest. bind_io (JournalTransaction_looseUnmarshal w nest create_JournalTransaction) (\<lambda>x. ret (DJournalTransaction x))),
     (21, \<lambda>w nest. bind_io (MessageDispatch_looseUnmarshal w nest create_MessageDispatch) (\<lambda>z. ret (DMessageDispatch (fst z) (snd z)))),
     (2, \<lambda>w nest. bind_io (BrokerInfo_looseUnmarshal w nest create_BrokerInfo) (\<lambda>z. ret (DBrokerInfo (fst z) (snd z)))),
     (33, \<lambda>w nest. bind_io (DataArrayResponse_looseUnmarshal w nest create_Response) (\<lambda>z. ret (DDataArrayResponse (fst z) (snd z)))),
     (1, \<lambda>w nest. bind_io (WireFormatInfo_looseUnmarshal w nest create_WireFormatInfo) (\<lambda>x. ret (DWireFormatInfo x))),
     (23, \<lambda>w nest. bind_io (ActiveMQMessage_looseUnmarshal w nest create_Message) (\<lambda>z. ret (DActiveMQMessage (fst z) (snd z)))),
     (24, \<lambda>w nest. bind_io (ActiveMQBytesMessage_looseUnmarshal w nest create_Message) (\<lambda>z. ret (DActiveMQBytesMessage (fst z) (snd z)))),
     (25, \<lambda>w nest. bind_io (ActiveMQMapMessage_looseUnmarshal w nest create_ActiveMQMapMessage) (\<lambda>z. ret (DActiveMQMapMessage (fst z) (snd z)))),
     (26, \<lambda>w nest. bind_io (ActiveMQObjectMessage_looseUnmarshal w nest create_Message) (\<lambda>z. ret (DActiveMQObjectMessage (fst z) (snd z)))),
     (27, \<lambda>w nest. bind_io (ActiveMQStreamMessage_looseUnmarshal w nest create_Message) (\<lambda>z. ret (DActiveMQStreamMessage (fst z) (snd z)))),
     (28, \<lambda>w nest. bind_io (ActiveMQTextMessage_looseUnmarshal w nest create_ActiveMQTextMessage) (\<lambda>z. ret (DActiveMQTextMessage (fst z) (snd z)))),
     (29, \<lambda>w nest. bind_io (ActiveMQBlobMessage_looseUnmarshal w nest create_ActiveMQBlobMessage) (\<lambda>z. ret (DActiveMQBlobMessage (fst z) (snd z))))]"

end
