(* ===== verification/WireFields.thy ===== *)
theory WireFields
  imports Marshallers
begin

text \<open>
  What the commands look like on the wire: the list of fields of each class, which objects can be
  sent, and what the receiver gets.
\<close>

text \<open>
  Fields that the negotiated version does not have are not sent; the receiver has their initial
  values.
\<close>

section \<open>Pointers and arrays\<close>

definition pointer :: "('x \<Rightarrow> data_structure) \<Rightarrow> ('x \<Rightarrow> field list) \<Rightarrow> 'x option \<Rightarrow> field list" where
  "pointer D f q = (case q of None \<Rightarrow> [WBool False]
     | Some x \<Rightarrow> [WBool True] @ [WByte (getDataStructureType (D x))] @ f x)"

definition array_fields :: "('x \<Rightarrow> field list) \<Rightarrow> 'x list \<Rightarrow> field list" where
  "array_fields f xs = [WBool (xs \<noteq> [])] @ (if xs \<noteq> [] then [WShort (of_nat (length xs))] @ concat (map f xs) else [])"

lemma array_fields_cong [fundef_cong]:
  "xs = ys \<Longrightarrow> (\<And>y. y \<in> set ys \<Longrightarrow> f y = g y) \<Longrightarrow> array_fields f xs = array_fields g ys"
  by (auto simp: array_fields_def cong: map_cong)

section \<open>The form in which messages are sent\<close>

text \<open>What \<open>beforeMarshal\<close> makes of a message: its properties, text or map are bytes.\<close>

definition properties_bytes :: "primitive_map \<Rightarrow> bytes" where
  "properties_bytes m = (if m = [] then [] else map_bytes m)"

definition Message_form :: "'a Message_scheme \<Rightarrow> 'a Message_scheme" where
  "Message_form x = x\<lparr>Message_marshalledProperties := properties_bytes (Message_properties x)\<rparr>"

definition body_bytes :: "(bytes \<Rightarrow> bytes) option \<Rightarrow> bytes \<Rightarrow> bytes" where
  "body_bytes deflate xs = (case deflate of None \<Rightarrow> xs | Some f \<Rightarrow> f xs)"

definition ActiveMQTextMessage_form :: "ActiveMQTextMessage \<Rightarrow> ActiveMQTextMessage" where
  "ActiveMQTextMessage_form x = (case ActiveMQTextMessage_text x of
     None \<Rightarrow> Message_form x
   | Some text \<Rightarrow> (let array = body_bytes (Message_connection x) (sized_field text) in
       (Message_form x)\<lparr>Message_content := if array \<noteq> [] then array else Message_content x,
         Message_compressed := Message_compressed x \<or> Message_connection x \<noteq> None, ActiveMQTextMessage_text := None\<rparr>))"

definition ActiveMQMapMessage_form :: "ActiveMQMapMessage \<Rightarrow> ActiveMQMapMessage" where
  "ActiveMQMapMessage_form x =
     (if ActiveMQMapMessage_map x \<noteq> None \<and> the (ActiveMQMapMessage_map x) \<noteq> [] then
        (Message_form x)\<lparr>Message_content := body_bytes (Message_connection x) (map_bytes (the (ActiveMQMapMessage_map x))),
          Message_compressed := Message_compressed x \<or> Message_connection x \<noteq> None\<rparr>
      else (Message_form x)\<lparr>Message_content := [], ActiveMQMapMessage_map := Some []\<rparr>)"

definition WireFormatInfo_form :: "WireFormatInfo \<Rightarrow> WireFormatInfo" where
  "WireFormatInfo_form x = x\<lparr>WireFormatInfo_marshalledProperties := properties_bytes (WireFormatInfo_properties x)\<rparr>"

section \<open>The fields of each class\<close>

definition BrokerId_fields :: "wire_format \<Rightarrow> BrokerId \<Rightarrow> field list" where
  "BrokerId_fields w x =
     [WString (BrokerId_value x)]"

definition ConnectionId_fields :: "wire_format \<Rightarrow> ConnectionId \<Rightarrow> field list" where
  "ConnectionId_fields w x =
     [WString (ConnectionId_value x)]"

definition SessionId_fields :: "wire_format \<Rightarrow> SessionId \<Rightarrow> field list" where
  "SessionId_fields w x =
     [WString (SessionId_connectionId x)] @ [WLong (SessionId_value x)]"

definition ConsumerId_fields :: "wire_format \<Rightarrow> ConsumerId \<Rightarrow> field list" where
  "ConsumerId_fields w x =
     [WString (ConsumerId_connectionId x)] @ [WLong (ConsumerId_sessionId x)] @ [WLong (ConsumerId_value x)]"

definition ProducerId_fields :: "wire_format \<Rightarrow> ProducerId \<Rightarrow> field list" where
  "ProducerId_fields w x =
     [WString (ProducerId_connectionId x)] @ [WLong (ProducerId_value x)] @ [WLong (ProducerId_sessionId x)]"

definition MessageId_fields :: "wire_format \<Rightarrow> MessageId \<Rightarrow> field list" where
  "MessageId_fields w x =
     (if version w \<ge> 10 then [WString (MessageId_textView x)] else []) @
     pointer DProducerId (ProducerId_fields w) (MessageId_producerId x) @
     [WLong (MessageId_producerSequenceId x)] @ [WLong (MessageId_brokerSequenceId x)]"

fun destination_name :: "wire_destination \<Rightarrow> bytes" where
  "destination_name (ActiveMQQueue x) = ActiveMQDestination_physicalName x"
| "destination_name (ActiveMQTopic x) = ActiveMQDestination_physicalName x"
| "destination_name (ActiveMQTempQueue x) = ActiveMQDestination_physicalName x"
| "destination_name (ActiveMQTempTopic x) = ActiveMQDestination_physicalName x"

definition Destination_fields :: "wire_format \<Rightarrow> wire_destination \<Rightarrow> field list" where
  "Destination_fields w d = [WString (destination_name d)]"

definition LocalTransactionId_fields :: "wire_format \<Rightarrow> LocalTransactionId \<Rightarrow> field list" where
  "LocalTransactionId_fields w x =
     [WLong (LocalTransactionId_value x)] @
     pointer DConnectionId (ConnectionId_fields w) (LocalTransactionId_connectionId x)"

definition XATransactionId_fields :: "wire_format \<Rightarrow> XATransactionId \<Rightarrow> field list" where
  "XATransactionId_fields w x =
     [WInt (XATransactionId_formatId x)] @ [WBytes (XATransactionId_globalTransactionId x)] @
     [WBytes (XATransactionId_branchQualifier x)]"

fun TransactionId_fields :: "wire_format \<Rightarrow> TransactionId \<Rightarrow> field list" where
  "TransactionId_fields w (Local x) = LocalTransactionId_fields w x"
| "TransactionId_fields w (XA x) = XATransactionId_fields w x"

definition BaseCommand_fields :: "wire_format \<Rightarrow> 'a BaseCommand_scheme \<Rightarrow> field list" where
  "BaseCommand_fields w x =
     [WInt (BaseCommand_commandId x)] @ [WBool (BaseCommand_responseRequired x)]"

definition Response_fields :: "wire_format \<Rightarrow> 'a Response_scheme \<Rightarrow> field list" where
  "Response_fields w x =
     BaseCommand_fields w x @ [WInt (Response_correlationId x)]"

definition ConnectionInfo_fields :: "wire_format \<Rightarrow> ConnectionInfo \<Rightarrow> field list" where
  "ConnectionInfo_fields w x =
     BaseCommand_fields w x @ pointer DConnectionId (ConnectionId_fields w) (ConnectionInfo_connectionId x) @
     [WString (ConnectionInfo_clientId x)] @ [WString (ConnectionInfo_password x)] @
     [WString (ConnectionInfo_userName x)] @
     array_fields (pointer DBrokerId (BrokerId_fields w)) (ConnectionInfo_brokerPath x) @
     [WBool (ConnectionInfo_brokerMasterConnector x)] @ [WBool (ConnectionInfo_manageable x)] @
     (if version w \<ge> 2 then [WBool (ConnectionInfo_clientMaster x)] else []) @
     (if version w \<ge> 6 then [WBool (ConnectionInfo_faultTolerant x)] else []) @
     (if version w \<ge> 6 then [WBool (ConnectionInfo_failoverReconnect x)] else []) @
     (if version w \<ge> 8 then [WString (ConnectionInfo_clientIp x)] else [])"

definition SessionInfo_fields :: "wire_format \<Rightarrow> SessionInfo \<Rightarrow> field list" where
  "SessionInfo_fields w x =
     BaseCommand_fields w x @ pointer DSessionId (SessionId_fields w) (SessionInfo_sessionId x)"

definition ConsumerInfo_fields :: "wire_format \<Rightarrow> ConsumerInfo \<Rightarrow> field list" where
  "ConsumerInfo_fields w x =
     BaseCommand_fields w x @ pointer DConsumerId (ConsumerId_fields w) (ConsumerInfo_consumerId x) @
     [WBool (ConsumerInfo_browser x)] @
     pointer DDestination (Destination_fields w) (ConsumerInfo_destination x) @
     [WInt (ConsumerInfo_prefetchSize x)] @ [WInt (ConsumerInfo_maximumPendingMessageLimit x)] @
     [WBool (ConsumerInfo_dispatchAsync x)] @ [WString (ConsumerInfo_selector x)] @
     (if version w \<ge> 10 then [WString (ConsumerInfo_clientId x)] else []) @
     [WString (ConsumerInfo_subscriptionName x)] @ [WBool (ConsumerInfo_noLocal x)] @
     [WBool (ConsumerInfo_exclusive x)] @ [WBool (ConsumerInfo_retroactive x)] @
     [WByte (ConsumerInfo_priority x)] @
     array_fields (pointer DBrokerId (BrokerId_fields w)) (ConsumerInfo_brokerPath x) @ [WBool False] @
     [WBool (ConsumerInfo_networkSubscription x)] @ [WBool (ConsumerInfo_optimizedAcknowledge x)] @
     [WBool (ConsumerInfo_noRangeAcks x)] @
     (if version w \<ge> 4 then array_fields (pointer DConsumerId (ConsumerId_fields w)) (ConsumerInfo_networkConsumerPath x) else [])"

definition ProducerInfo_fields :: "wire_format \<Rightarrow> ProducerInfo \<Rightarrow> field list" where
  "ProducerInfo_fields w x =
     BaseCommand_fields w x @ pointer DProducerId (ProducerId_fields w) (ProducerInfo_producerId x) @
     pointer DDestination (Destination_fields w) (ProducerInfo_destination x) @
     array_fields (pointer DBrokerId (BrokerId_fields w)) (ProducerInfo_brokerPath x) @
     (if version w \<ge> 2 then [WBool (ProducerInfo_dispatchAsync x)] else []) @
     (if version w \<ge> 3 then [WInt (ProducerInfo_windowSize x)] else [])"

definition DestinationInfo_fields :: "wire_format \<Rightarrow> DestinationInfo \<Rightarrow> field list" where
  "DestinationInfo_fields w x =
     BaseCommand_fields w x @ pointer DConnectionId (ConnectionId_fields w) (DestinationInfo_connectionId x) @
     pointer DDestination (Destination_fields w) (DestinationInfo_destination x) @
     [WByte (DestinationInfo_operationType x)] @ [WLong (DestinationInfo_timeout x)] @
     array_fields (pointer DBrokerId (BrokerId_fields w)) (DestinationInfo_brokerPath x)"

definition RemoveInfo_fields :: "wire_format \<Rightarrow> RemoveInfo \<Rightarrow> field list \<Rightarrow> field list" where
  "RemoveInfo_fields w x p =
     BaseCommand_fields w x @ p @
     (if version w \<ge> 5 then [WLong (RemoveInfo_lastDeliveredSequenceId x)] else [])"

definition RemoveSubscriptionInfo_fields :: "wire_format \<Rightarrow> RemoveSubscriptionInfo \<Rightarrow> field list" where
  "RemoveSubscriptionInfo_fields w x =
     BaseCommand_fields w x @
     pointer DConnectionId (ConnectionId_fields w) (RemoveSubscriptionInfo_connectionId x) @
     [WString (RemoveSubscriptionInfo_subcriptionName x)] @ [WString (RemoveSubscriptionInfo_clientId x)]"

definition TransactionInfo_fields :: "wire_format \<Rightarrow> TransactionInfo \<Rightarrow> field list" where
  "TransactionInfo_fields w x =
     BaseCommand_fields w x @ pointer DConnectionId (ConnectionId_fields w) (TransactionInfo_connectionId x) @
     pointer DTransactionId (TransactionId_fields w) (TransactionInfo_transactionId x) @
     [WByte (TransactionInfo_type x)]"

definition MessageAck_fields :: "wire_format \<Rightarrow> MessageAck \<Rightarrow> field list" where
  "MessageAck_fields w x =
     BaseCommand_fields w x @ pointer DDestination (Destination_fields w) (MessageAck_destination x) @
     pointer DTransactionId (TransactionId_fields w) (MessageAck_transactionId x) @
     pointer DConsumerId (ConsumerId_fields w) (MessageAck_consumerId x) @ [WByte (MessageAck_ackType x)] @
     pointer DMessageId (MessageId_fields w) (MessageAck_firstMessageId x) @
     pointer DMessageId (MessageId_fields w) (MessageAck_lastMessageId x) @
     [WInt (MessageAck_messageCount x)] @
     (if version w \<ge> 7 then error_fields w (MessageAck_poisonCause x) else [])"

definition MessagePull_fields :: "wire_format \<Rightarrow> MessagePull \<Rightarrow> field list" where
  "MessagePull_fields w x =
     BaseCommand_fields w x @ pointer DConsumerId (ConsumerId_fields w) (MessagePull_consumerId x) @
     pointer DDestination (Destination_fields w) (MessagePull_destination x) @
     [WLong (MessagePull_timeout x)] @
     (if version w \<ge> 3 then [WString (MessagePull_correlationId x)] else []) @
     (if version w \<ge> 3 then pointer DMessageId (MessageId_fields w) (MessagePull_messageId x) else [])"

definition KeepAliveInfo_fields :: "wire_format \<Rightarrow> KeepAliveInfo \<Rightarrow> field list" where
  "KeepAliveInfo_fields w x =
     BaseCommand_fields w x"

definition ShutdownInfo_fields :: "wire_format \<Rightarrow> ShutdownInfo \<Rightarrow> field list" where
  "ShutdownInfo_fields w x =
     BaseCommand_fields w x"

definition ExceptionResponse_fields :: "wire_format \<Rightarrow> ExceptionResponse \<Rightarrow> field list" where
  "ExceptionResponse_fields w x =
     Response_fields w x @ error_fields w (ExceptionResponse_exception x)"

definition IntegerResponse_fields :: "wire_format \<Rightarrow> IntegerResponse \<Rightarrow> field list" where
  "IntegerResponse_fields w x =
     Response_fields w x @ [WInt (IntegerResponse_result x)]"

definition DataResponse_fields :: "wire_format \<Rightarrow> DataResponse \<Rightarrow> field list \<Rightarrow> field list" where
  "DataResponse_fields w x p =
     Response_fields w x @ p"

definition ProducerAck_fields :: "wire_format \<Rightarrow> ProducerAck \<Rightarrow> field list" where
  "ProducerAck_fields w x =
     BaseCommand_fields w x @
     (if version w \<ge> 3 then pointer DProducerId (ProducerId_fields w) (ProducerAck_producerId x) else []) @
     (if version w \<ge> 3 then [WInt (ProducerAck_size x)] else [])"

definition ConnectionError_fields :: "wire_format \<Rightarrow> ConnectionError \<Rightarrow> field list" where
  "ConnectionError_fields w x =
     BaseCommand_fields w x @ error_fields w (ConnectionError_exception x) @
     pointer DConnectionId (ConnectionId_fields w) (ConnectionError_connectionId x)"

definition ConsumerControl_fields :: "wire_format \<Rightarrow> ConsumerControl \<Rightarrow> field list" where
  "ConsumerControl_fields w x =
     BaseCommand_fields w x @
     (if version w \<ge> 6 then pointer DDestination (Destination_fields w) (ConsumerControl_destination x) else []) @
     [WBool (ConsumerControl_close x)] @
     pointer DConsumerId (ConsumerId_fields w) (ConsumerControl_consumerId x) @
     [WInt (ConsumerControl_prefetch x)] @
     (if version w \<ge> 2 then [WBool (ConsumerControl_flush x)] else []) @
     (if version w \<ge> 2 then [WBool (ConsumerControl_start x)] else []) @
     (if version w \<ge> 2 then [WBool (ConsumerControl_stop x)] else [])"

definition ConnectionControl_fields :: "wire_format \<Rightarrow> ConnectionControl \<Rightarrow> field list" where
  "ConnectionControl_fields w x =
     BaseCommand_fields w x @ [WBool (ConnectionControl_close x)] @ [WBool (ConnectionControl_exit x)] @
     [WBool (ConnectionControl_faultTolerant x)] @ [WBool (ConnectionControl_resume x)] @
     [WBool (ConnectionControl_suspend x)] @
     (if version w \<ge> 6 then [WString (ConnectionControl_connectedBrokers x)] else []) @
     (if version w \<ge> 6 then [WString (ConnectionControl_reconnectTo x)] else []) @
     (if version w \<ge> 6 then [WBool (ConnectionControl_rebalanceConnection x)] else []) @
     (if version w \<ge> 8 then [WBytes (ConnectionControl_token x)] else [])"

definition ControlCommand_fields :: "wire_format \<Rightarrow> ControlCommand \<Rightarrow> field list" where
  "ControlCommand_fields w x =
     BaseCommand_fields w x @ [WString (ControlCommand_command x)]"

definition MessageDispatchNotification_fields :: "wire_format \<Rightarrow> MessageDispatchNotification \<Rightarrow> field list" where
  "MessageDispatchNotification_fields w x =
     BaseCommand_fields w x @
     pointer DConsumerId (ConsumerId_fields w) (MessageDispatchNotification_consumerId x) @
     pointer DDestination (Destination_fields w) (MessageDispatchNotification_destination x) @
     [WLong (MessageDispatchNotification_deliverySequenceId x)] @
     pointer DMessageId (MessageId_fields w) (MessageDispatchNotification_messageId x)"

definition SubscriptionInfo_fields :: "wire_format \<Rightarrow> SubscriptionInfo \<Rightarrow> field list" where
  "SubscriptionInfo_fields w x =
     [WString (SubscriptionInfo_clientId x)] @
     pointer DDestination (Destination_fields w) (SubscriptionInfo_destination x) @
     [WString (SubscriptionInfo_selector x)] @ [WString (SubscriptionInfo_subcriptionName x)] @
     (if version w \<ge> 3 then pointer DDestination (Destination_fields w) (SubscriptionInfo_subscribedDestination x) else []) @
     (if version w \<ge> 11 then [WBool (SubscriptionInfo_noLocal x)] else [])"

definition FlushCommand_fields :: "wire_format \<Rightarrow> FlushCommand \<Rightarrow> field list" where
  "FlushCommand_fields w x =
     BaseCommand_fields w x"

definition ReplayCommand_fields :: "wire_format \<Rightarrow> ReplayCommand \<Rightarrow> field list" where
  "ReplayCommand_fields w x =
     BaseCommand_fields w x @ [WInt (ReplayCommand_firstNakNumber x)] @ [WInt (ReplayCommand_lastNakNumber x)]"

definition PartialCommand_fields :: "wire_format \<Rightarrow> 'a PartialCommand_scheme \<Rightarrow> field list" where
  "PartialCommand_fields w x =
     [WInt (PartialCommand_commandId x)] @ [WBytes (PartialCommand_data x)]"

definition LastPartialCommand_fields :: "wire_format \<Rightarrow> LastPartialCommand \<Rightarrow> field list" where
  "LastPartialCommand_fields w x =
     PartialCommand_fields w x"

definition DiscoveryEvent_fields :: "wire_format \<Rightarrow> DiscoveryEvent \<Rightarrow> field list" where
  "DiscoveryEvent_fields w x =
     [WString (DiscoveryEvent_serviceName x)] @ [WString (DiscoveryEvent_brokerName x)]"

definition NetworkBridgeFilter_fields :: "wire_format \<Rightarrow> NetworkBridgeFilter \<Rightarrow> field list" where
  "NetworkBridgeFilter_fields w x =
     pointer DBrokerId (BrokerId_fields w) (NetworkBridgeFilter_networkBrokerId x) @
     (if version w \<ge> 10 then [WInt (NetworkBridgeFilter_messageTTL x)] else []) @
     (if version w \<ge> 10 then [WInt (NetworkBridgeFilter_consumerTTL x)] else [])"

definition JournalQueueAck_fields :: "wire_format \<Rightarrow> JournalQueueAck \<Rightarrow> field list" where
  "JournalQueueAck_fields w x =
     pointer DDestination (Destination_fields w) (JournalQueueAck_destination x) @
     pointer DMessageAck (MessageAck_fields w) (JournalQueueAck_messageAck x)"

definition JournalTopicAck_fields :: "wire_format \<Rightarrow> JournalTopicAck \<Rightarrow> field list" where
  "JournalTopicAck_fields w x =
     pointer DDestination (Destination_fields w) (JournalTopicAck_destination x) @
     pointer DMessageId (MessageId_fields w) (JournalTopicAck_messageId x) @
     [WLong (JournalTopicAck_messageSequenceId x)] @ [WString (JournalTopicAck_subscritionName x)] @
     [WString (JournalTopicAck_clientId x)] @
     pointer DTransactionId (TransactionId_fields w) (JournalTopicAck_transactionId x)"

definition JournalTrace_fields :: "wire_format \<Rightarrow> JournalTrace \<Rightarrow> field list" where
  "JournalTrace_fields w x =
     [WString (JournalTrace_message x)]"

definition JournalTransaction_fields :: "wire_format \<Rightarrow> JournalTransaction \<Rightarrow> field list" where
  "JournalTransaction_fields w x =
     pointer DTransactionId (TransactionId_fields w) (JournalTransaction_transactionId x) @
     [WByte (JournalTransaction_type x)] @ [WBool (JournalTransaction_wasPrepared x)]"

definition MessageDispatch_fields :: "wire_format \<Rightarrow> MessageDispatch \<Rightarrow> field list \<Rightarrow> field list" where
  "MessageDispatch_fields w x p =
     BaseCommand_fields w x @ pointer DConsumerId (ConsumerId_fields w) (MessageDispatch_consumerId x) @
     pointer DDestination (Destination_fields w) (MessageDispatch_destination x) @ p @
     [WInt (MessageDispatch_redeliveryCounter x)]"

definition BrokerInfo_fields :: "wire_format \<Rightarrow> BrokerInfo \<Rightarrow> field list \<Rightarrow> field list" where
  "BrokerInfo_fields w x p =
     BaseCommand_fields w x @ pointer DBrokerId (BrokerId_fields w) (BrokerInfo_brokerId x) @
     [WString (BrokerInfo_brokerURL x)] @ p @ [WString (BrokerInfo_brokerName x)] @
     [WBool (BrokerInfo_slaveBroker x)] @ [WBool (BrokerInfo_masterBroker x)] @
     [WBool (BrokerInfo_faultTolerantConfiguration x)] @
     (if version w \<ge> 2 then [WBool (BrokerInfo_duplexConnection x)] else []) @
     (if version w \<ge> 2 then [WBool (BrokerInfo_networkConnection x)] else []) @
     (if version w \<ge> 2 then [WLong (BrokerInfo_connectionId x)] else []) @
     (if version w \<ge> 3 then [WString (BrokerInfo_brokerUploadUrl x)] else []) @
     (if version w \<ge> 3 then [WString (BrokerInfo_networkProperties x)] else [])"

definition DataArrayResponse_fields :: "wire_format \<Rightarrow> DataArrayResponse \<Rightarrow> field list \<Rightarrow> field list" where
  "DataArrayResponse_fields w x p =
     Response_fields w x @ p"

definition WireFormatInfo_fields :: "wire_format \<Rightarrow> WireFormatInfo \<Rightarrow> field list" where
  "WireFormatInfo_fields w x =
     map WByte (WireFormatInfo_magic x) @ [WInt (WireFormatInfo_version x)] @
     [WBytes (WireFormatInfo_marshalledProperties x)]"

definition Message_fields :: "wire_format \<Rightarrow> 'a Message_scheme \<Rightarrow> field list \<Rightarrow> field list" where
  "Message_fields w x p =
     BaseCommand_fields w x @ pointer DProducerId (ProducerId_fields w) (Message_producerId x) @
     pointer DDestination (Destination_fields w) (Message_destination x) @
     pointer DTransactionId (TransactionId_fields w) (Message_transactionId x) @
     pointer DDestination (Destination_fields w) (Message_originalDestination x) @
     pointer DMessageId (MessageId_fields w) (Message_messageId x) @
     pointer DTransactionId (TransactionId_fields w) (Message_originalTransactionId x) @
     [WString (Message_groupID x)] @ [WInt (Message_groupSequence x)] @ [WString (Message_correlationId x)] @
     [WBool (Message_persistent x)] @ [WLong (Message_expiration x)] @ [WByte (Message_priority x)] @
     pointer DDestination (Destination_fields w) (Message_replyTo x) @ [WLong (Message_timestamp x)] @
     [WString (Message_type x)] @ [WBytes (Message_content x)] @ [WBytes (Message_marshalledProperties x)] @
     p @ pointer DConsumerId (ConsumerId_fields w) (Message_targetConsumerId x) @
     [WBool (Message_compressed x)] @ [WInt (Message_redeliveryCounter x)] @
     array_fields (pointer DBrokerId (BrokerId_fields w)) (Message_brokerPath x) @
     [WLong (Message_arrival x)] @ [WString (Message_userID x)] @ [WBool (Message_recievedByDFBridge x)] @
     (if version w \<ge> 2 then [WBool (Message_droppable x)] else []) @
     (if version w \<ge> 3 then array_fields (pointer DBrokerId (BrokerId_fields w)) (Message_cluster x) else []) @
     (if version w \<ge> 3 then [WLong (Message_brokerInTime x)] else []) @
     (if version w \<ge> 3 then [WLong (Message_brokerOutTime x)] else []) @
     (if version w \<ge> 10 then [WBool (Message_jMSXGroupFirstForConsumer x)] else [])"

definition ActiveMQBlobMessage_fields :: "wire_format \<Rightarrow> ActiveMQBlobMessage \<Rightarrow> field list \<Rightarrow> field list" where
  "ActiveMQBlobMessage_fields w x p =
     Message_fields w x p @
     (if version w \<ge> 3 then [WString (ActiveMQBlobMessage_remoteBlobUrl x)] else []) @
     (if version w \<ge> 3 then [WString (ActiveMQBlobMessage_mimeType x)] else []) @
     (if version w \<ge> 3 then [WBool (ActiveMQBlobMessage_deletedByBroker x)] else [])"

fun fields :: "wire_format \<Rightarrow> data_structure \<Rightarrow> field list"
and nested_fields :: "wire_format \<Rightarrow> data_structure option \<Rightarrow> field list" where
  "fields w (DBrokerId x) = BrokerId_fields w x"
| "fields w (DConnectionId x) = ConnectionId_fields w x"
| "fields w (DSessionId x) = SessionId_fields w x"
| "fields w (DConsumerId x) = ConsumerId_fields w x"
| "fields w (DProducerId x) = ProducerId_fields w x"
| "fields w (DMessageId x) = MessageId_fields w x"
| "fields w (DDestination x) = Destination_fields w x"
| "fields w (DTransactionId x) = TransactionId_fields w x"
| "fields w (DConnectionInfo x) = ConnectionInfo_fields w x"
| "fields w (DSessionInfo x) = SessionInfo_fields w x"
| "fields w (DConsumerInfo x) = ConsumerInfo_fields w x"
| "fields w (DProducerInfo x) = ProducerInfo_fields w x"
| "fields w (DDestinationInfo x) = DestinationInfo_fields w x"
| "fields w (DRemoveInfo x p) = RemoveInfo_fields w x (nested_fields w p)"
| "fields w (DRemoveSubscriptionInfo x) = RemoveSubscriptionInfo_fields w x"
| "fields w (DTransactionInfo x) = TransactionInfo_fields w x"
| "fields w (DMessageAck x) = MessageAck_fields w x"
| "fields w (DMessagePull x) = MessagePull_fields w x"
| "fields w (DKeepAliveInfo x) = KeepAliveInfo_fields w x"
| "fields w (DShutdownInfo x) = ShutdownInfo_fields w x"
| "fields w (DResponse x) = Response_fields w x"
| "fields w (DExceptionResponse x) = ExceptionResponse_fields w x"
| "fields w (DIntegerResponse x) = IntegerResponse_fields w x"
| "fields w (DDataResponse x p) = DataResponse_fields w x (nested_fields w p)"
| "fields w (DProducerAck x) = ProducerAck_fields w x"
| "fields w (DConnectionError x) = ConnectionError_fields w x"
| "fields w (DConsumerControl x) = ConsumerControl_fields w x"
| "fields w (DConnectionControl x) = ConnectionControl_fields w x"
| "fields w (DControlCommand x) = ControlCommand_fields w x"
| "fields w (DMessageDispatchNotification x) = MessageDispatchNotification_fields w x"
| "fields w (DSubscriptionInfo x) = SubscriptionInfo_fields w x"
| "fields w (DFlushCommand x) = FlushCommand_fields w x"
| "fields w (DReplayCommand x) = ReplayCommand_fields w x"
| "fields w (DPartialCommand x) = PartialCommand_fields w x"
| "fields w (DLastPartialCommand x) = LastPartialCommand_fields w x"
| "fields w (DDiscoveryEvent x) = DiscoveryEvent_fields w x"
| "fields w (DNetworkBridgeFilter x) = NetworkBridgeFilter_fields w x"
| "fields w (DJournalQueueAck x) = JournalQueueAck_fields w x"
| "fields w (DJournalTopicAck x) = JournalTopicAck_fields w x"
| "fields w (DJournalTrace x) = JournalTrace_fields w x"
| "fields w (DJournalTransaction x) = JournalTransaction_fields w x"
| "fields w (DMessageDispatch x p) = MessageDispatch_fields w x (nested_fields w p)"
| "fields w (DBrokerInfo x p) = BrokerInfo_fields w x (array_fields (nested_fields w) p)"
| "fields w (DDataArrayResponse x p) = DataArrayResponse_fields w x (array_fields (nested_fields w) p)"
| "fields w (DWireFormatInfo x) = WireFormatInfo_fields w (WireFormatInfo_form x)"
| "fields w (DActiveMQMessage x p) = Message_fields w (Message_form x) (nested_fields w p)"
| "fields w (DActiveMQBytesMessage x p) = Message_fields w (Message_form x) (nested_fields w p)"
| "fields w (DActiveMQMapMessage x p) = Message_fields w (ActiveMQMapMessage_form x) (nested_fields w p)"
| "fields w (DActiveMQObjectMessage x p) = Message_fields w (Message_form x) (nested_fields w p)"
| "fields w (DActiveMQStreamMessage x p) = Message_fields w (Message_form x) (nested_fields w p)"
| "fields w (DActiveMQTextMessage x p) = Message_fields w (ActiveMQTextMessage_form x) (nested_fields w p)"
| "fields w (DActiveMQBlobMessage x p) = ActiveMQBlobMessage_fields w x (nested_fields w p)"
| "nested_fields w None = [WBool False]"
| "nested_fields w (Some d) = [WBool True] @ [WByte (getDataStructureType d)] @ (if isMarshalAware d then [WTight False] else []) @ fields w d"

section \<open>What can be sent\<close>

definition BrokerId_ok :: "wire_format \<Rightarrow> BrokerId \<Rightarrow> bool" where
  "BrokerId_ok w x \<longleftrightarrow> fits (WString (BrokerId_value x))"

definition ConnectionId_ok :: "wire_format \<Rightarrow> ConnectionId \<Rightarrow> bool" where
  "ConnectionId_ok w x \<longleftrightarrow> fits (WString (ConnectionId_value x))"

definition SessionId_ok :: "wire_format \<Rightarrow> SessionId \<Rightarrow> bool" where
  "SessionId_ok w x \<longleftrightarrow> fits (WString (SessionId_connectionId x))"

definition ConsumerId_ok :: "wire_format \<Rightarrow> ConsumerId \<Rightarrow> bool" where
  "ConsumerId_ok w x \<longleftrightarrow> fits (WString (ConsumerId_connectionId x))"

definition ProducerId_ok :: "wire_format \<Rightarrow> ProducerId \<Rightarrow> bool" where
  "ProducerId_ok w x \<longleftrightarrow> fits (WString (ProducerId_connectionId x))"

definition MessageId_ok :: "wire_format \<Rightarrow> MessageId \<Rightarrow> bool" where
  "MessageId_ok w x \<longleftrightarrow> (version w \<ge> 10 \<longrightarrow> fits (WString (MessageId_textView x))) \<and>
     pred_option (ProducerId_ok w) (MessageId_producerId x)"

definition Destination_ok :: "wire_format \<Rightarrow> wire_destination \<Rightarrow> bool" where
  "Destination_ok w d \<longleftrightarrow> fits (WString (destination_name d))"

definition LocalTransactionId_ok :: "wire_format \<Rightarrow> LocalTransactionId \<Rightarrow> bool" where
  "LocalTransactionId_ok w x \<longleftrightarrow> pred_option (ConnectionId_ok w) (LocalTransactionId_connectionId x)"

definition XATransactionId_ok :: "wire_format \<Rightarrow> XATransactionId \<Rightarrow> bool" where
  "XATransactionId_ok w x \<longleftrightarrow> fits (WBytes (XATransactionId_globalTransactionId x)) \<and>
     fits (WBytes (XATransactionId_branchQualifier x))"

fun TransactionId_ok :: "wire_format \<Rightarrow> TransactionId \<Rightarrow> bool" where
  "TransactionId_ok w (Local x) = LocalTransactionId_ok w x"
| "TransactionId_ok w (XA x) = XATransactionId_ok w x"

definition ConnectionInfo_ok :: "wire_format \<Rightarrow> ConnectionInfo \<Rightarrow> bool" where
  "ConnectionInfo_ok w x \<longleftrightarrow> pred_option (ConnectionId_ok w) (ConnectionInfo_connectionId x) \<and>
     fits (WString (ConnectionInfo_clientId x)) \<and>
     fits (WString (ConnectionInfo_password x)) \<and>
     fits (WString (ConnectionInfo_userName x)) \<and>
     length (ConnectionInfo_brokerPath x) \<le> 32767 \<and> list_all (pred_option (BrokerId_ok w)) (ConnectionInfo_brokerPath x) \<and>
     (version w \<ge> 8 \<longrightarrow> fits (WString (ConnectionInfo_clientIp x)))"

definition SessionInfo_ok :: "wire_format \<Rightarrow> SessionInfo \<Rightarrow> bool" where
  "SessionInfo_ok w x \<longleftrightarrow> pred_option (SessionId_ok w) (SessionInfo_sessionId x)"

definition ConsumerInfo_ok :: "wire_format \<Rightarrow> ConsumerInfo \<Rightarrow> bool" where
  "ConsumerInfo_ok w x \<longleftrightarrow> pred_option (ConsumerId_ok w) (ConsumerInfo_consumerId x) \<and>
     pred_option (Destination_ok w) (ConsumerInfo_destination x) \<and>
     fits (WString (ConsumerInfo_selector x)) \<and>
     (version w \<ge> 10 \<longrightarrow> fits (WString (ConsumerInfo_clientId x))) \<and>
     fits (WString (ConsumerInfo_subscriptionName x)) \<and>
     length (ConsumerInfo_brokerPath x) \<le> 32767 \<and> list_all (pred_option (BrokerId_ok w)) (ConsumerInfo_brokerPath x) \<and>
     (version w \<ge> 4 \<longrightarrow> length (ConsumerInfo_networkConsumerPath x) \<le> 32767 \<and> list_all (pred_option (ConsumerId_ok w)) (ConsumerInfo_networkConsumerPath x))"

definition ProducerInfo_ok :: "wire_format \<Rightarrow> ProducerInfo \<Rightarrow> bool" where
  "ProducerInfo_ok w x \<longleftrightarrow> pred_option (ProducerId_ok w) (ProducerInfo_producerId x) \<and>
     pred_option (Destination_ok w) (ProducerInfo_destination x) \<and>
     length (ProducerInfo_brokerPath x) \<le> 32767 \<and> list_all (pred_option (BrokerId_ok w)) (ProducerInfo_brokerPath x)"

definition DestinationInfo_ok :: "wire_format \<Rightarrow> DestinationInfo \<Rightarrow> bool" where
  "DestinationInfo_ok w x \<longleftrightarrow> pred_option (ConnectionId_ok w) (DestinationInfo_connectionId x) \<and>
     pred_option (Destination_ok w) (DestinationInfo_destination x) \<and>
     length (DestinationInfo_brokerPath x) \<le> 32767 \<and> list_all (pred_option (BrokerId_ok w)) (DestinationInfo_brokerPath x)"

definition RemoveSubscriptionInfo_ok :: "wire_format \<Rightarrow> RemoveSubscriptionInfo \<Rightarrow> bool" where
  "RemoveSubscriptionInfo_ok w x \<longleftrightarrow> pred_option (ConnectionId_ok w) (RemoveSubscriptionInfo_connectionId x) \<and>
     fits (WString (RemoveSubscriptionInfo_subcriptionName x)) \<and>
     fits (WString (RemoveSubscriptionInfo_clientId x))"

definition TransactionInfo_ok :: "wire_format \<Rightarrow> TransactionInfo \<Rightarrow> bool" where
  "TransactionInfo_ok w x \<longleftrightarrow> pred_option (ConnectionId_ok w) (TransactionInfo_connectionId x) \<and>
     pred_option (TransactionId_ok w) (TransactionInfo_transactionId x)"

definition MessageAck_ok :: "wire_format \<Rightarrow> MessageAck \<Rightarrow> bool" where
  "MessageAck_ok w x \<longleftrightarrow> pred_option (Destination_ok w) (MessageAck_destination x) \<and>
     pred_option (TransactionId_ok w) (MessageAck_transactionId x) \<and>
     pred_option (ConsumerId_ok w) (MessageAck_consumerId x) \<and>
     pred_option (MessageId_ok w) (MessageAck_firstMessageId x) \<and>
     pred_option (MessageId_ok w) (MessageAck_lastMessageId x) \<and>
     (version w \<ge> 7 \<longrightarrow> error_fits w (MessageAck_poisonCause x))"

definition MessagePull_ok :: "wire_format \<Rightarrow> MessagePull \<Rightarrow> bool" where
  "MessagePull_ok w x \<longleftrightarrow> pred_option (ConsumerId_ok w) (MessagePull_consumerId x) \<and>
     pred_option (Destination_ok w) (MessagePull_destination x) \<and>
     (version w \<ge> 3 \<longrightarrow> fits (WString (MessagePull_correlationId x))) \<and>
     (version w \<ge> 3 \<longrightarrow> pred_option (MessageId_ok w) (MessagePull_messageId x))"

definition ExceptionResponse_ok :: "wire_format \<Rightarrow> ExceptionResponse \<Rightarrow> bool" where
  "ExceptionResponse_ok w x \<longleftrightarrow> error_fits w (ExceptionResponse_exception x)"

definition ProducerAck_ok :: "wire_format \<Rightarrow> ProducerAck \<Rightarrow> bool" where
  "ProducerAck_ok w x \<longleftrightarrow> (version w \<ge> 3 \<longrightarrow> pred_option (ProducerId_ok w) (ProducerAck_producerId x))"

definition ConnectionError_ok :: "wire_format \<Rightarrow> ConnectionError \<Rightarrow> bool" where
  "ConnectionError_ok w x \<longleftrightarrow> error_fits w (ConnectionError_exception x) \<and>
     pred_option (ConnectionId_ok w) (ConnectionError_connectionId x)"

definition ConsumerControl_ok :: "wire_format \<Rightarrow> ConsumerControl \<Rightarrow> bool" where
  "ConsumerControl_ok w x \<longleftrightarrow> (version w \<ge> 6 \<longrightarrow> pred_option (Destination_ok w) (ConsumerControl_destination x)) \<and>
     pred_option (ConsumerId_ok w) (ConsumerControl_consumerId x)"

definition ConnectionControl_ok :: "wire_format \<Rightarrow> ConnectionControl \<Rightarrow> bool" where
  "ConnectionControl_ok w x \<longleftrightarrow> (version w \<ge> 6 \<longrightarrow> fits (WString (ConnectionControl_connectedBrokers x))) \<and>
     (version w \<ge> 6 \<longrightarrow> fits (WString (ConnectionControl_reconnectTo x))) \<and>
     (version w \<ge> 8 \<longrightarrow> fits (WBytes (ConnectionControl_token x)))"

definition ControlCommand_ok :: "wire_format \<Rightarrow> ControlCommand \<Rightarrow> bool" where
  "ControlCommand_ok w x \<longleftrightarrow> fits (WString (ControlCommand_command x))"

definition MessageDispatchNotification_ok :: "wire_format \<Rightarrow> MessageDispatchNotification \<Rightarrow> bool" where
  "MessageDispatchNotification_ok w x \<longleftrightarrow> pred_option (ConsumerId_ok w) (MessageDispatchNotification_consumerId x) \<and>
     pred_option (Destination_ok w) (MessageDispatchNotification_destination x) \<and>
     pred_option (MessageId_ok w) (MessageDispatchNotification_messageId x)"

definition SubscriptionInfo_ok :: "wire_format \<Rightarrow> SubscriptionInfo \<Rightarrow> bool" where
  "SubscriptionInfo_ok w x \<longleftrightarrow> fits (WString (SubscriptionInfo_clientId x)) \<and>
     pred_option (Destination_ok w) (SubscriptionInfo_destination x) \<and>
     fits (WString (SubscriptionInfo_selector x)) \<and>
     fits (WString (SubscriptionInfo_subcriptionName x)) \<and>
     (version w \<ge> 3 \<longrightarrow> pred_option (Destination_ok w) (SubscriptionInfo_subscribedDestination x))"

definition PartialCommand_ok :: "wire_format \<Rightarrow> 'a PartialCommand_scheme \<Rightarrow> bool" where
  "PartialCommand_ok w x \<longleftrightarrow> fits (WBytes (PartialCommand_data x))"

definition LastPartialCommand_ok :: "wire_format \<Rightarrow> LastPartialCommand \<Rightarrow> bool" where
  "LastPartialCommand_ok w x \<longleftrightarrow> PartialCommand_ok w x"

definition DiscoveryEvent_ok :: "wire_format \<Rightarrow> DiscoveryEvent \<Rightarrow> bool" where
  "DiscoveryEvent_ok w x \<longleftrightarrow> fits (WString (DiscoveryEvent_serviceName x)) \<and>
     fits (WString (DiscoveryEvent_brokerName x))"

definition NetworkBridgeFilter_ok :: "wire_format \<Rightarrow> NetworkBridgeFilter \<Rightarrow> bool" where
  "NetworkBridgeFilter_ok w x \<longleftrightarrow> pred_option (BrokerId_ok w) (NetworkBridgeFilter_networkBrokerId x)"

definition JournalQueueAck_ok :: "wire_format \<Rightarrow> JournalQueueAck \<Rightarrow> bool" where
  "JournalQueueAck_ok w x \<longleftrightarrow> pred_option (Destination_ok w) (JournalQueueAck_destination x) \<and>
     pred_option (MessageAck_ok w) (JournalQueueAck_messageAck x)"

definition JournalTopicAck_ok :: "wire_format \<Rightarrow> JournalTopicAck \<Rightarrow> bool" where
  "JournalTopicAck_ok w x \<longleftrightarrow> pred_option (Destination_ok w) (JournalTopicAck_destination x) \<and>
     pred_option (MessageId_ok w) (JournalTopicAck_messageId x) \<and>
     fits (WString (JournalTopicAck_subscritionName x)) \<and>
     fits (WString (JournalTopicAck_clientId x)) \<and>
     pred_option (TransactionId_ok w) (JournalTopicAck_transactionId x)"

definition JournalTrace_ok :: "wire_format \<Rightarrow> JournalTrace \<Rightarrow> bool" where
  "JournalTrace_ok w x \<longleftrightarrow> fits (WString (JournalTrace_message x))"

definition JournalTransaction_ok :: "wire_format \<Rightarrow> JournalTransaction \<Rightarrow> bool" where
  "JournalTransaction_ok w x \<longleftrightarrow> pred_option (TransactionId_ok w) (JournalTransaction_transactionId x)"

definition MessageDispatch_ok :: "wire_format \<Rightarrow> MessageDispatch \<Rightarrow> bool" where
  "MessageDispatch_ok w x \<longleftrightarrow> pred_option (ConsumerId_ok w) (MessageDispatch_consumerId x) \<and>
     pred_option (Destination_ok w) (MessageDispatch_destination x)"

definition BrokerInfo_ok :: "wire_format \<Rightarrow> BrokerInfo \<Rightarrow> bool" where
  "BrokerInfo_ok w x \<longleftrightarrow> pred_option (BrokerId_ok w) (BrokerInfo_brokerId x) \<and>
     fits (WString (BrokerInfo_brokerURL x)) \<and>
     fits (WString (BrokerInfo_brokerName x)) \<and>
     (version w \<ge> 3 \<longrightarrow> fits (WString (BrokerInfo_brokerUploadUrl x))) \<and>
     (version w \<ge> 3 \<longrightarrow> fits (WString (BrokerInfo_networkProperties x)))"

definition Message_ok :: "wire_format \<Rightarrow> 'a Message_scheme \<Rightarrow> bool" where
  "Message_ok w x \<longleftrightarrow> pred_option (ProducerId_ok w) (Message_producerId x) \<and>
     pred_option (Destination_ok w) (Message_destination x) \<and>
     pred_option (TransactionId_ok w) (Message_transactionId x) \<and>
     pred_option (Destination_ok w) (Message_originalDestination x) \<and>
     pred_option (MessageId_ok w) (Message_messageId x) \<and>
     pred_option (TransactionId_ok w) (Message_originalTransactionId x) \<and>
     fits (WString (Message_groupID x)) \<and>
     fits (WString (Message_correlationId x)) \<and>
     pred_option (Destination_ok w) (Message_replyTo x) \<and>
     fits (WString (Message_type x)) \<and>
     fits (WBytes (Message_content x)) \<and>
     fits (WBytes (Message_marshalledProperties x)) \<and>
     pred_option (ConsumerId_ok w) (Message_targetConsumerId x) \<and>
     length (Message_brokerPath x) \<le> 32767 \<and> list_all (pred_option (BrokerId_ok w)) (Message_brokerPath x) \<and>
     fits (WString (Message_userID x)) \<and>
     (version w \<ge> 3 \<longrightarrow> length (Message_cluster x) \<le> 32767 \<and> list_all (pred_option (BrokerId_ok w)) (Message_cluster x))"

definition ActiveMQBlobMessage_ok :: "wire_format \<Rightarrow> ActiveMQBlobMessage \<Rightarrow> bool" where
  "ActiveMQBlobMessage_ok w x \<longleftrightarrow> Message_ok w x \<and>
     (version w \<ge> 3 \<longrightarrow> fits (WString (ActiveMQBlobMessage_remoteBlobUrl x))) \<and>
     (version w \<ge> 3 \<longrightarrow> fits (WString (ActiveMQBlobMessage_mimeType x)))"

definition WireFormatInfo_ok :: "WireFormatInfo \<Rightarrow> bool" where
  "WireFormatInfo_ok x \<longleftrightarrow> length (WireFormatInfo_magic x) = 8 \<and> map_ok (WireFormatInfo_properties x) \<and>
     fits (WBytes (properties_bytes (WireFormatInfo_properties x)))"

definition message_ok :: "wire_format \<Rightarrow> ('a Message_scheme \<Rightarrow> 'a Message_scheme) \<Rightarrow> 'a Message_scheme \<Rightarrow> bool" where
  "message_ok w form x \<longleftrightarrow> map_ok (Message_properties x) \<and> Message_ok w (form x)"

definition ActiveMQTextMessage_ok :: "wire_format \<Rightarrow> ActiveMQTextMessage \<Rightarrow> bool" where
  "ActiveMQTextMessage_ok w x \<longleftrightarrow> message_ok w ActiveMQTextMessage_form x \<and>
     pred_option (\<lambda>text. length text < 2 ^ 31) (ActiveMQTextMessage_text x)"

definition ActiveMQMapMessage_ok :: "wire_format \<Rightarrow> ActiveMQMapMessage \<Rightarrow> bool" where
  "ActiveMQMapMessage_ok w x \<longleftrightarrow> message_ok w ActiveMQMapMessage_form x \<and> pred_option map_ok (ActiveMQMapMessage_map x)"

definition is_broker :: "data_structure \<Rightarrow> bool" where
  "is_broker d = (as_BrokerInfo (Some d) \<noteq> None)"

fun sendable :: "wire_format \<Rightarrow> data_structure \<Rightarrow> bool"
and nested_sendable :: "wire_format \<Rightarrow> data_structure option \<Rightarrow> bool" where
  "sendable w (DBrokerId x) = BrokerId_ok w x"
| "sendable w (DConnectionId x) = ConnectionId_ok w x"
| "sendable w (DSessionId x) = SessionId_ok w x"
| "sendable w (DConsumerId x) = ConsumerId_ok w x"
| "sendable w (DProducerId x) = ProducerId_ok w x"
| "sendable w (DMessageId x) = MessageId_ok w x"
| "sendable w (DDestination x) = Destination_ok w x"
| "sendable w (DTransactionId x) = TransactionId_ok w x"
| "sendable w (DConnectionInfo x) = ConnectionInfo_ok w x"
| "sendable w (DSessionInfo x) = SessionInfo_ok w x"
| "sendable w (DConsumerInfo x) = ConsumerInfo_ok w x"
| "sendable w (DProducerInfo x) = ProducerInfo_ok w x"
| "sendable w (DDestinationInfo x) = DestinationInfo_ok w x"
| "sendable w (DRemoveInfo x p) = nested_sendable w p"
| "sendable w (DRemoveSubscriptionInfo x) = RemoveSubscriptionInfo_ok w x"
| "sendable w (DTransactionInfo x) = TransactionInfo_ok w x"
| "sendable w (DMessageAck x) = MessageAck_ok w x"
| "sendable w (DMessagePull x) = MessagePull_ok w x"
| "sendable w (DExceptionResponse x) = ExceptionResponse_ok w x"
| "sendable w (DDataResponse x p) = nested_sendable w p"
| "sendable w (DProducerAck x) = ProducerAck_ok w x"
| "sendable w (DConnectionError x) = ConnectionError_ok w x"
| "sendable w (DConsumerControl x) = ConsumerControl_ok w x"
| "sendable w (DConnectionControl x) = ConnectionControl_ok w x"
| "sendable w (DControlCommand x) = ControlCommand_ok w x"
| "sendable w (DMessageDispatchNotification x) = MessageDispatchNotification_ok w x"
| "sendable w (DSubscriptionInfo x) = SubscriptionInfo_ok w x"
| "sendable w (DPartialCommand x) = PartialCommand_ok w x"
| "sendable w (DLastPartialCommand x) = LastPartialCommand_ok w x"
| "sendable w (DDiscoveryEvent x) = DiscoveryEvent_ok w x"
| "sendable w (DNetworkBridgeFilter x) = NetworkBridgeFilter_ok w x"
| "sendable w (DJournalQueueAck x) = JournalQueueAck_ok w x"
| "sendable w (DJournalTopicAck x) = JournalTopicAck_ok w x"
| "sendable w (DJournalTrace x) = JournalTrace_ok w x"
| "sendable w (DJournalTransaction x) = JournalTransaction_ok w x"
| "sendable w (DMessageDispatch x p) = (MessageDispatch_ok w x \<and> nested_sendable w p \<and> pred_option is_message p)"
| "sendable w (DBrokerInfo x p) = (BrokerInfo_ok w x \<and> length p \<le> 32767 \<and> list_all (nested_sendable w) p \<and> list_all (pred_option is_broker) p)"
| "sendable w (DDataArrayResponse x p) = (length p \<le> 32767 \<and> list_all (nested_sendable w) p)"
| "sendable w (DWireFormatInfo x) = WireFormatInfo_ok x"
| "sendable w (DActiveMQMessage x p) = (message_ok w Message_form x \<and> nested_sendable w p)"
| "sendable w (DActiveMQBytesMessage x p) = (message_ok w Message_form x \<and> nested_sendable w p)"
| "sendable w (DActiveMQMapMessage x p) = (ActiveMQMapMessage_ok w x \<and> nested_sendable w p)"
| "sendable w (DActiveMQObjectMessage x p) = (message_ok w Message_form x \<and> nested_sendable w p)"
| "sendable w (DActiveMQStreamMessage x p) = (message_ok w Message_form x \<and> nested_sendable w p)"
| "sendable w (DActiveMQTextMessage x p) = (ActiveMQTextMessage_ok w x \<and> nested_sendable w p)"
| "sendable w (DActiveMQBlobMessage x p) = (ActiveMQBlobMessage_ok w x \<and> nested_sendable w p)"
| "sendable w _ = True"
| "nested_sendable w None = True"
| "nested_sendable w (Some d) = sendable w d"

section \<open>What the receiver gets\<close>

definition MessageId_sent :: "wire_format \<Rightarrow> MessageId \<Rightarrow> MessageId" where
  "MessageId_sent w x = x\<lparr>MessageId_textView := if version w \<ge> 10 then MessageId_textView x else []\<rparr>"

definition sent_name :: "ActiveMQDestination \<Rightarrow> ActiveMQDestination" where
  "sent_name x = setPhysicalName (ActiveMQDestination_physicalName x) create_ActiveMQDestination"

fun Destination_sent :: "wire_format \<Rightarrow> wire_destination \<Rightarrow> wire_destination" where
  "Destination_sent w (ActiveMQQueue x) = ActiveMQQueue (sent_name x)"
| "Destination_sent w (ActiveMQTopic x) = ActiveMQTopic (sent_name x)"
| "Destination_sent w (ActiveMQTempQueue x) = ActiveMQTempQueue (sent_name x)"
| "Destination_sent w (ActiveMQTempTopic x) = ActiveMQTempTopic (sent_name x)"

definition ConnectionInfo_sent :: "wire_format \<Rightarrow> ConnectionInfo \<Rightarrow> ConnectionInfo" where
  "ConnectionInfo_sent w x = x\<lparr>ConnectionInfo_clientMaster := if version w \<ge> 2 then ConnectionInfo_clientMaster x else False,
     ConnectionInfo_faultTolerant := if version w \<ge> 6 then ConnectionInfo_faultTolerant x else False,
     ConnectionInfo_failoverReconnect := if version w \<ge> 6 then ConnectionInfo_failoverReconnect x else False,
     ConnectionInfo_clientIp := if version w \<ge> 8 then ConnectionInfo_clientIp x else []\<rparr>"

definition ConsumerInfo_sent :: "wire_format \<Rightarrow> ConsumerInfo \<Rightarrow> ConsumerInfo" where
  "ConsumerInfo_sent w x = x\<lparr>ConsumerInfo_destination := map_option (Destination_sent w) (ConsumerInfo_destination x),
     ConsumerInfo_clientId := if version w \<ge> 10 then ConsumerInfo_clientId x else [],
     ConsumerInfo_networkConsumerPath := if version w \<ge> 4 then ConsumerInfo_networkConsumerPath x else []\<rparr>"

definition ProducerInfo_sent :: "wire_format \<Rightarrow> ProducerInfo \<Rightarrow> ProducerInfo" where
  "ProducerInfo_sent w x = x\<lparr>ProducerInfo_destination := map_option (Destination_sent w) (ProducerInfo_destination x),
     ProducerInfo_dispatchAsync := if version w \<ge> 2 then ProducerInfo_dispatchAsync x else False,
     ProducerInfo_windowSize := if version w \<ge> 3 then ProducerInfo_windowSize x else 0\<rparr>"

definition DestinationInfo_sent :: "wire_format \<Rightarrow> DestinationInfo \<Rightarrow> DestinationInfo" where
  "DestinationInfo_sent w x = x\<lparr>DestinationInfo_destination := map_option (Destination_sent w) (DestinationInfo_destination x)\<rparr>"

definition RemoveInfo_sent :: "wire_format \<Rightarrow> RemoveInfo \<Rightarrow> RemoveInfo" where
  "RemoveInfo_sent w x = x\<lparr>RemoveInfo_lastDeliveredSequenceId := if version w \<ge> 5 then RemoveInfo_lastDeliveredSequenceId x else 0\<rparr>"

definition MessageAck_sent :: "wire_format \<Rightarrow> MessageAck \<Rightarrow> MessageAck" where
  "MessageAck_sent w x = x\<lparr>MessageAck_destination := map_option (Destination_sent w) (MessageAck_destination x),
     MessageAck_firstMessageId := map_option (MessageId_sent w) (MessageAck_firstMessageId x),
     MessageAck_lastMessageId := map_option (MessageId_sent w) (MessageAck_lastMessageId x),
     MessageAck_poisonCause := if version w \<ge> 7 then error_sent w (MessageAck_poisonCause x) else None\<rparr>"

definition MessagePull_sent :: "wire_format \<Rightarrow> MessagePull \<Rightarrow> MessagePull" where
  "MessagePull_sent w x = x\<lparr>MessagePull_destination := map_option (Destination_sent w) (MessagePull_destination x),
     MessagePull_correlationId := if version w \<ge> 3 then MessagePull_correlationId x else [],
     MessagePull_messageId := if version w \<ge> 3 then map_option (MessageId_sent w) (MessagePull_messageId x) else None\<rparr>"

definition ExceptionResponse_sent :: "wire_format \<Rightarrow> ExceptionResponse \<Rightarrow> ExceptionResponse" where
  "ExceptionResponse_sent w x = x\<lparr>ExceptionResponse_exception := error_sent w (ExceptionResponse_exception x)\<rparr>"

definition ProducerAck_sent :: "wire_format \<Rightarrow> ProducerAck \<Rightarrow> ProducerAck" where
  "ProducerAck_sent w x = x\<lparr>ProducerAck_producerId := if version w \<ge> 3 then ProducerAck_producerId x else None,
     ProducerAck_size := if version w \<ge> 3 then ProducerAck_size x else 0\<rparr>"

definition ConnectionError_sent :: "wire_format \<Rightarrow> ConnectionError \<Rightarrow> ConnectionError" where
  "ConnectionError_sent w x = x\<lparr>ConnectionError_exception := error_sent w (ConnectionError_exception x)\<rparr>"

definition ConsumerControl_sent :: "wire_format \<Rightarrow> ConsumerControl \<Rightarrow> ConsumerControl" where
  "ConsumerControl_sent w x = x\<lparr>ConsumerControl_destination := if version w \<ge> 6 then map_option (Destination_sent w) (ConsumerControl_destination x) else None,
     ConsumerControl_flush := if version w \<ge> 2 then ConsumerControl_flush x else False,
     ConsumerControl_start := if version w \<ge> 2 then ConsumerControl_start x else False,
     ConsumerControl_stop := if version w \<ge> 2 then ConsumerControl_stop x else False\<rparr>"

definition ConnectionControl_sent :: "wire_format \<Rightarrow> ConnectionControl \<Rightarrow> ConnectionControl" where
  "ConnectionControl_sent w x = x\<lparr>ConnectionControl_connectedBrokers := if version w \<ge> 6 then ConnectionControl_connectedBrokers x else [],
     ConnectionControl_reconnectTo := if version w \<ge> 6 then ConnectionControl_reconnectTo x else [],
     ConnectionControl_rebalanceConnection := if version w \<ge> 6 then ConnectionControl_rebalanceConnection x else False,
     ConnectionControl_token := if version w \<ge> 8 then ConnectionControl_token x else []\<rparr>"

definition MessageDispatchNotification_sent :: "wire_format \<Rightarrow> MessageDispatchNotification \<Rightarrow> MessageDispatchNotification" where
  "MessageDispatchNotification_sent w x = x\<lparr>MessageDispatchNotification_destination := map_option (Destination_sent w) (MessageDispatchNotification_destination x),
     MessageDispatchNotification_messageId := map_option (MessageId_sent w) (MessageDispatchNotification_messageId x)\<rparr>"

definition SubscriptionInfo_sent :: "wire_format \<Rightarrow> SubscriptionInfo \<Rightarrow> SubscriptionInfo" where
  "SubscriptionInfo_sent w x = x\<lparr>SubscriptionInfo_destination := map_option (Destination_sent w) (SubscriptionInfo_destination x),
     SubscriptionInfo_subscribedDestination := if version w \<ge> 3 then map_option (Destination_sent w) (SubscriptionInfo_subscribedDestination x) else None,
     SubscriptionInfo_noLocal := if version w \<ge> 11 then SubscriptionInfo_noLocal x else False\<rparr>"

definition NetworkBridgeFilter_sent :: "wire_format \<Rightarrow> NetworkBridgeFilter \<Rightarrow> NetworkBridgeFilter" where
  "NetworkBridgeFilter_sent w x = x\<lparr>NetworkBridgeFilter_messageTTL := if version w \<ge> 10 then NetworkBridgeFilter_messageTTL x else 0,
     NetworkBridgeFilter_consumerTTL := if version w \<ge> 10 then NetworkBridgeFilter_consumerTTL x else 0\<rparr>"

definition JournalQueueAck_sent :: "wire_format \<Rightarrow> JournalQueueAck \<Rightarrow> JournalQueueAck" where
  "JournalQueueAck_sent w x = x\<lparr>JournalQueueAck_destination := map_option (Destination_sent w) (JournalQueueAck_destination x),
     JournalQueueAck_messageAck := map_option (MessageAck_sent w) (JournalQueueAck_messageAck x)\<rparr>"

definition JournalTopicAck_sent :: "wire_format \<Rightarrow> JournalTopicAck \<Rightarrow> JournalTopicAck" where
  "JournalTopicAck_sent w x = x\<lparr>JournalTopicAck_destination := map_option (Destination_sent w) (JournalTopicAck_destination x),
     JournalTopicAck_messageId := map_option (MessageId_sent w) (JournalTopicAck_messageId x)\<rparr>"

definition MessageDispatch_sent :: "wire_format \<Rightarrow> MessageDispatch \<Rightarrow> MessageDispatch" where
  "MessageDispatch_sent w x = x\<lparr>MessageDispatch_destination := map_option (Destination_sent w) (MessageDispatch_destination x)\<rparr>"

definition BrokerInfo_sent :: "wire_format \<Rightarrow> BrokerInfo \<Rightarrow> BrokerInfo" where
  "BrokerInfo_sent w x = x\<lparr>BrokerInfo_duplexConnection := if version w \<ge> 2 then BrokerInfo_duplexConnection x else False,
     BrokerInfo_networkConnection := if version w \<ge> 2 then BrokerInfo_networkConnection x else False,
     BrokerInfo_connectionId := if version w \<ge> 2 then BrokerInfo_connectionId x else 0,
     BrokerInfo_brokerUploadUrl := if version w \<ge> 3 then BrokerInfo_brokerUploadUrl x else [],
     BrokerInfo_networkProperties := if version w \<ge> 3 then BrokerInfo_networkProperties x else []\<rparr>"

text \<open>
  A message is read into a new object of its class; then its properties are restored. A blob message
  has no hooks, so that its properties stay empty.
\<close>

definition Message_received :: "wire_format \<Rightarrow> 'a Message_scheme \<Rightarrow> 'b Message_scheme \<Rightarrow> 'b Message_scheme" where
  "Message_received w x y = y\<lparr>BaseCommand_commandId := BaseCommand_commandId x,
     BaseCommand_responseRequired := BaseCommand_responseRequired x, Message_producerId := Message_producerId x,
     Message_destination := map_option (Destination_sent w) (Message_destination x),
     Message_transactionId := Message_transactionId x,
     Message_originalDestination := map_option (Destination_sent w) (Message_originalDestination x),
     Message_messageId := map_option (MessageId_sent w) (Message_messageId x),
     Message_originalTransactionId := Message_originalTransactionId x, Message_groupID := Message_groupID x,
     Message_groupSequence := Message_groupSequence x, Message_correlationId := Message_correlationId x,
     Message_persistent := Message_persistent x, Message_expiration := Message_expiration x,
     Message_priority := Message_priority x,
     Message_replyTo := map_option (Destination_sent w) (Message_replyTo x),
     Message_timestamp := Message_timestamp x, Message_type := Message_type x,
     Message_content := Message_content x, Message_marshalledProperties := Message_marshalledProperties x,
     Message_targetConsumerId := Message_targetConsumerId x, Message_compressed := Message_compressed x,
     Message_redeliveryCounter := Message_redeliveryCounter x, Message_brokerPath := Message_brokerPath x,
     Message_arrival := Message_arrival x, Message_userID := Message_userID x,
     Message_recievedByDFBridge := Message_recievedByDFBridge x,
     Message_droppable := if version w \<ge> 2 then Message_droppable x else Message_droppable y,
     Message_cluster := if version w \<ge> 3 then Message_cluster x else Message_cluster y,
     Message_brokerInTime := if version w \<ge> 3 then Message_brokerInTime x else Message_brokerInTime y,
     Message_brokerOutTime := if version w \<ge> 3 then Message_brokerOutTime x else Message_brokerOutTime y,
     Message_jMSXGroupFirstForConsumer := if version w \<ge> 10 then Message_jMSXGroupFirstForConsumer x else Message_jMSXGroupFirstForConsumer y\<rparr>"

definition message_sent ::
  "wire_format \<Rightarrow> ('a Message_scheme \<Rightarrow> 'a Message_scheme) \<Rightarrow> 'a Message_scheme \<Rightarrow> 'a Message_scheme \<Rightarrow> 'a Message_scheme" where
  "message_sent w form y x = (Message_received w (form x) y)\<lparr>Message_properties := map_read (Message_properties x)\<rparr>"

definition ActiveMQBlobMessage_sent :: "wire_format \<Rightarrow> ActiveMQBlobMessage \<Rightarrow> ActiveMQBlobMessage" where
  "ActiveMQBlobMessage_sent w x = (Message_received w x create_ActiveMQBlobMessage)\<lparr>
     ActiveMQBlobMessage_remoteBlobUrl := if version w \<ge> 3 then ActiveMQBlobMessage_remoteBlobUrl x else [],
     ActiveMQBlobMessage_mimeType := if version w \<ge> 3 then ActiveMQBlobMessage_mimeType x else BINARY_MIME_TYPE,
     ActiveMQBlobMessage_deletedByBroker := if version w \<ge> 3 then ActiveMQBlobMessage_deletedByBroker x else False\<rparr>"

definition WireFormatInfo_sent :: "WireFormatInfo \<Rightarrow> WireFormatInfo" where
  "WireFormatInfo_sent x = create_WireFormatInfo\<lparr>WireFormatInfo_magic := WireFormatInfo_magic x,
     WireFormatInfo_version := WireFormatInfo_version x,
     WireFormatInfo_marshalledProperties := properties_bytes (WireFormatInfo_properties x),
     WireFormatInfo_properties := map_read (WireFormatInfo_properties x)\<rparr>"

fun sent :: "wire_format \<Rightarrow> data_structure \<Rightarrow> data_structure"
and nested_sent :: "wire_format \<Rightarrow> data_structure option \<Rightarrow> data_structure option" where
  "sent w (DMessageId x) = DMessageId (MessageId_sent w x)"
| "sent w (DDestination x) = DDestination (Destination_sent w x)"
| "sent w (DConnectionInfo x) = DConnectionInfo (ConnectionInfo_sent w x)"
| "sent w (DConsumerInfo x) = DConsumerInfo (ConsumerInfo_sent w x)"
| "sent w (DProducerInfo x) = DProducerInfo (ProducerInfo_sent w x)"
| "sent w (DDestinationInfo x) = DDestinationInfo (DestinationInfo_sent w x)"
| "sent w (DRemoveInfo x p) = DRemoveInfo (RemoveInfo_sent w x) (nested_sent w p)"
| "sent w (DMessageAck x) = DMessageAck (MessageAck_sent w x)"
| "sent w (DMessagePull x) = DMessagePull (MessagePull_sent w x)"
| "sent w (DExceptionResponse x) = DExceptionResponse (ExceptionResponse_sent w x)"
| "sent w (DDataResponse x p) = DDataResponse x (nested_sent w p)"
| "sent w (DProducerAck x) = DProducerAck (ProducerAck_sent w x)"
| "sent w (DConnectionError x) = DConnectionError (ConnectionError_sent w x)"
| "sent w (DConsumerControl x) = DConsumerControl (ConsumerControl_sent w x)"
| "sent w (DConnectionControl x) = DConnectionControl (ConnectionControl_sent w x)"
| "sent w (DMessageDispatchNotification x) = DMessageDispatchNotification (MessageDispatchNotification_sent w x)"
| "sent w (DSubscriptionInfo x) = DSubscriptionInfo (SubscriptionInfo_sent w x)"
| "sent w (DNetworkBridgeFilter x) = DNetworkBridgeFilter (NetworkBridgeFilter_sent w x)"
| "sent w (DJournalQueueAck x) = DJournalQueueAck (JournalQueueAck_sent w x)"
| "sent w (DJournalTopicAck x) = DJournalTopicAck (JournalTopicAck_sent w x)"
| "sent w (DMessageDispatch x p) = DMessageDispatch (MessageDispatch_sent w x) (nested_sent w p)"
| "sent w (DBrokerInfo x p) = DBrokerInfo (BrokerInfo_sent w x) (map (nested_sent w) p)"
| "sent w (DDataArrayResponse x p) = DDataArrayResponse x (map (nested_sent w) p)"
| "sent w (DWireFormatInfo x) = DWireFormatInfo (WireFormatInfo_sent x)"
| "sent w (DActiveMQMessage x p) = DActiveMQMessage (message_sent w Message_form create_Message x) (nested_sent w p)"
| "sent w (DActiveMQBytesMessage x p) = DActiveMQBytesMessage (message_sent w Message_form create_Message x) (nested_sent w p)"
| "sent w (DActiveMQMapMessage x p) = DActiveMQMapMessage (message_sent w ActiveMQMapMessage_form create_ActiveMQMapMessage x) (nested_sent w p)"
| "sent w (DActiveMQObjectMessage x p) = DActiveMQObjectMessage (message_sent w Message_form create_Message x) (nested_sent w p)"
| "sent w (DActiveMQStreamMessage x p) = DActiveMQStreamMessage (message_sent w Message_form create_Message x) (nested_sent w p)"
| "sent w (DActiveMQTextMessage x p) = DActiveMQTextMessage (message_sent w ActiveMQTextMessage_form create_ActiveMQTextMessage x) (nested_sent w p)"
| "sent w (DActiveMQBlobMessage x p) = DActiveMQBlobMessage (ActiveMQBlobMessage_sent w x) (nested_sent w p)"
| "sent w d = d"
| "nested_sent w None = None"
| "nested_sent w (Some d) = Some (sent w d)"

text \<open>
  The size that \<open>tightMarshal1\<close> returns is the number of bytes, except that the
  marshallers of \<open>ProducerInfo\<close>, \<open>ProducerAck\<close> and
  \<open>NetworkBridgeFilter\<close> count the bytes of integers that lower versions do not have.
\<close>

fun slack :: "wire_format \<Rightarrow> data_structure \<Rightarrow> 32 word"
and nested_slack :: "wire_format \<Rightarrow> data_structure option \<Rightarrow> 32 word" where
  "slack w (DProducerInfo x) = (if version w \<ge> 3 then 0 else 4)"
| "slack w (DProducerAck x) = (if version w \<ge> 3 then 0 else 4)"
| "slack w (DNetworkBridgeFilter x) = (if version w \<ge> 10 then 0 else 8)"
| "slack w (DRemoveInfo x p) = nested_slack w p"
| "slack w (DDataResponse x p) = nested_slack w p"
| "slack w (DMessageDispatch x p) = nested_slack w p"
| "slack w (DBrokerInfo x p) = sum_list (map (nested_slack w) p)"
| "slack w (DDataArrayResponse x p) = sum_list (map (nested_slack w) p)"
| "slack w (DActiveMQMessage x p) = nested_slack w p"
| "slack w (DActiveMQBytesMessage x p) = nested_slack w p"
| "slack w (DActiveMQMapMessage x p) = nested_slack w p"
| "slack w (DActiveMQObjectMessage x p) = nested_slack w p"
| "slack w (DActiveMQStreamMessage x p) = nested_slack w p"
| "slack w (DActiveMQTextMessage x p) = nested_slack w p"
| "slack w (DActiveMQBlobMessage x p) = nested_slack w p"
| "slack w _ = 0"
| "nested_slack w None = 0"
| "nested_slack w (Some d) = slack w d"

text \<open>
  How deep the calls for nested objects go.
\<close>

fun depth :: "data_structure \<Rightarrow> nat"
and nested_depth :: "data_structure option \<Rightarrow> nat" where
  "depth (DMessageId x) = 2"
| "depth (DTransactionId x) = 2"
| "depth (DConnectionInfo x) = 2"
| "depth (DSessionInfo x) = 2"
| "depth (DConsumerInfo x) = 2"
| "depth (DProducerInfo x) = 2"
| "depth (DDestinationInfo x) = 2"
| "depth (DRemoveInfo x p) = Suc (nested_depth p)"
| "depth (DRemoveSubscriptionInfo x) = 2"
| "depth (DTransactionInfo x) = 3"
| "depth (DMessageAck x) = 3"
| "depth (DMessagePull x) = 3"
| "depth (DDataResponse x p) = Suc (nested_depth p)"
| "depth (DProducerAck x) = 2"
| "depth (DConnectionError x) = 2"
| "depth (DConsumerControl x) = 2"
| "depth (DMessageDispatchNotification x) = 3"
| "depth (DSubscriptionInfo x) = 2"
| "depth (DNetworkBridgeFilter x) = 2"
| "depth (DJournalQueueAck x) = 4"
| "depth (DJournalTopicAck x) = 3"
| "depth (DJournalTransaction x) = 3"
| "depth (DMessageDispatch x p) = Suc (max 1 (nested_depth p))"
| "depth (DBrokerInfo x p) = Suc (max 1 (foldr max (map nested_depth p) 0))"
| "depth (DDataArrayResponse x p) = Suc (foldr max (map nested_depth p) 0)"
| "depth (DActiveMQMessage x p) = Suc (max 2 (nested_depth p))"
| "depth (DActiveMQBytesMessage x p) = Suc (max 2 (nested_depth p))"
| "depth (DActiveMQMapMessage x p) = Suc (max 2 (nested_depth p))"
| "depth (DActiveMQObjectMessage x p) = Suc (max 2 (nested_depth p))"
| "depth (DActiveMQStreamMessage x p) = Suc (max 2 (nested_depth p))"
| "depth (DActiveMQTextMessage x p) = Suc (max 2 (nested_depth p))"
| "depth (DActiveMQBlobMessage x p) = Suc (max 2 (nested_depth p))"
| "depth _ = 1"
| "nested_depth None = 0"
| "nested_depth (Some d) = depth d"

end
