(* ===== verification/WireCodecs.thy ===== *)
theory WireCodecs
  imports WireFields
begin

text \<open>
  The marshallers of the classes write and read the fields that theory \<open>WireFields\<close>
  lists, in both encodings. The lemmas of a class rest on the contract of the functions for nested
  objects, the locale \<open>nested_objects\<close>; \<open>lim\<close> is the nesting depth they are
  good for.
\<close>

section \<open>Rules for conditions and arrays\<close>

lemma tmark_if_bool: "tmark k n gs \<Longrightarrow> tmark (next_io (if P then writeBoolean v else ret ()) k) n ((if P then [WBool v] else []) @ gs)"
  using tmark_bool [of k n gs v] by (auto simp: bind_io_def ret_def tmark_def marks_def)

abbreviation size_of :: "field list \<Rightarrow> 32 word" where
  "size_of fs \<equiv> of_nat (length (all_tbytes fs))"

lemma array_slack:
  assumes "\<And>x. x \<in> set xs \<Longrightarrow> tmark (f1 x) (size_of (fs x) + k x) (fs x)"
  shows "tmark (tightMarshalObjectArray1 f1 xs) (size_of (array_fields fs xs) + sum_list (map k xs)) (array_fields fs xs)"
proof (cases "xs = []")
  case False
  have "tmark (tightMarshalObjectArray1 f1 xs) (2 + sum_list (map (\<lambda>x. size_of (fs x) + k x) xs))
      (WBool True # concat (map fs xs) @ [])"
    unfolding tightMarshalObjectArray1_def if_P [OF False] by (rule tmark_bool tmark_bind tmark_sum assms tmark_ret | assumption)+
  then show ?thesis
    by (rule tmark_cong) (use False in \<open>simp_all add: array_fields_def size_of_parts sum_list_addf\<close>)
qed (use tmark_bool [OF tmark_ret, of False 0] in \<open>simp add: tightMarshalObjectArray1_def array_fields_def\<close>)

lemma array_fields_codec:
  assumes "length xs \<le> 32767"
  shows "(\<And>x. x \<in> set xs \<Longrightarrow> tmark (f1 x) (size_of (fs x)) (fs x)) \<Longrightarrow>
      tmark (tightMarshalObjectArray1 f1 xs) (size_of (array_fields fs xs)) (array_fields fs xs)"
    and "(\<And>x. x \<in> set xs \<Longrightarrow> tput (f2 x) (fs x)) \<Longrightarrow> tput (tightMarshalObjectArray2 f2 xs) (array_fields fs xs)"
    and "(\<And>x. x \<in> set xs \<Longrightarrow> lput (f2 x) (fs x)) \<Longrightarrow> lput (looseMarshalObjectArray f2 xs) (array_fields fs xs)"
    and "(\<And>x. x \<in> set xs \<Longrightarrow> tget f3 (fs x) (g x)) \<Longrightarrow>
      tget (tightUnmarshalObjectArray f3 cast old) (array_fields fs xs) (if xs = [] then [] else old @ map (\<lambda>x. cast (g x)) xs)"
    and "(\<And>x. x \<in> set xs \<Longrightarrow> lget f3 (fs x) (g x)) \<Longrightarrow>
      lget (looseUnmarshalObjectArray f3 cast old) (array_fields fs xs) (if xs = [] then [] else old @ map (\<lambda>x. cast (g x)) xs)"
proof -
  have len: "nat (sint (of_nat (length xs) :: 16 word)) = length xs" "\<not> sint (of_nat (length xs) :: 16 word) < 0"
    using assms by (simp_all add: signed_of_nat signed_take_bit_int_eq_self)
  show "tmark (tightMarshalObjectArray1 f1 xs) (size_of (array_fields fs xs)) (array_fields fs xs)"
    if "\<And>x. x \<in> set xs \<Longrightarrow> tmark (f1 x) (size_of (fs x)) (fs x)"
    using array_slack [of xs f1 fs "\<lambda>_. 0"] that by simp
  show "tput (tightMarshalObjectArray2 f2 xs) (array_fields fs xs)" if "\<And>x. x \<in> set xs \<Longrightarrow> tput (f2 x) (fs x)"
    unfolding tightMarshalObjectArray2_def array_fields_def
    by (rule tput_if_read, (simp only: simp_thms if_True if_False, (rule tput_next plain_fields tput_each that ret_fields | assumption)+)+)
  show "lput (looseMarshalObjectArray f2 xs) (array_fields fs xs)" if "\<And>x. x \<in> set xs \<Longrightarrow> lput (f2 x) (fs x)"
    unfolding looseMarshalObjectArray_def array_fields_def
    by (rule lput_next plain_fields fields_if lput_each that ret_fields | assumption)+
  show "tget (tightUnmarshalObjectArray f3 cast old) (array_fields fs xs) (if xs = [] then [] else old @ map (\<lambda>x. cast (g x)) xs)"
    if "\<And>x. x \<in> set xs \<Longrightarrow> tget f3 (fs x) (g x)"
  proof -
    have "tget (read_objects f3 cast old) ([WShort (of_nat (length xs))] @ concat (map fs xs)) (old @ map cast (map g xs))"
      unfolding read_objects_def by (rule tget_bind plain_fields)+ (simp only: len if_False, (rule get_map tget_times that | assumption)+)
    then show ?thesis unfolding tightUnmarshalObjectArray_def array_fields_def
      by (intro tget_if_read) (simp_all add: ret_fields comp_def)
  qed
  show "lget (looseUnmarshalObjectArray f3 cast old) (array_fields fs xs) (if xs = [] then [] else old @ map (\<lambda>x. cast (g x)) xs)"
    if "\<And>x. x \<in> set xs \<Longrightarrow> lget f3 (fs x) (g x)"
  proof -
    have "lget (read_objects f3 cast old) ([WShort (of_nat (length xs))] @ concat (map fs xs)) (old @ map cast (map g xs))"
      unfolding read_objects_def by (rule lget_bind plain_fields)+ (simp only: len if_False, (rule get_map lget_times that | assumption)+)
    then show ?thesis unfolding looseUnmarshalObjectArray_def array_fields_def
      by (intro lget_if_read) (simp_all add: ret_fields comp_def)
  qed
qed


lemma ProducerId_views:
  "nested_fields w (map_option DProducerId q) = pointer DProducerId (ProducerId_fields w) q"
  "nested_sendable w (map_option DProducerId q) = pred_option (ProducerId_ok w) q"
  "nested_slack w (map_option DProducerId q) = 0"
  "as_ProducerId (nested_sent w (map_option DProducerId q)) = q"
  "nested_depth (map_option DProducerId q) \<le> 1"
  by (cases q; simp add: pointer_def)+

lemma ConnectionId_views:
  "nested_fields w (map_option DConnectionId q) = pointer DConnectionId (ConnectionId_fields w) q"
  "nested_sendable w (map_option DConnectionId q) = pred_option (ConnectionId_ok w) q"
  "nested_slack w (map_option DConnectionId q) = 0"
  "as_ConnectionId (nested_sent w (map_option DConnectionId q)) = q"
  "nested_depth (map_option DConnectionId q) \<le> 1"
  by (cases q; simp add: pointer_def)+

lemma BrokerId_views:
  "nested_fields w (map_option DBrokerId q) = pointer DBrokerId (BrokerId_fields w) q"
  "nested_sendable w (map_option DBrokerId q) = pred_option (BrokerId_ok w) q"
  "nested_slack w (map_option DBrokerId q) = 0"
  "as_BrokerId (nested_sent w (map_option DBrokerId q)) = q"
  "nested_depth (map_option DBrokerId q) \<le> 1"
  by (cases q; simp add: pointer_def)+

lemma SessionId_views:
  "nested_fields w (map_option DSessionId q) = pointer DSessionId (SessionId_fields w) q"
  "nested_sendable w (map_option DSessionId q) = pred_option (SessionId_ok w) q"
  "nested_slack w (map_option DSessionId q) = 0"
  "as_SessionId (nested_sent w (map_option DSessionId q)) = q"
  "nested_depth (map_option DSessionId q) \<le> 1"
  by (cases q; simp add: pointer_def)+

lemma ConsumerId_views:
  "nested_fields w (map_option DConsumerId q) = pointer DConsumerId (ConsumerId_fields w) q"
  "nested_sendable w (map_option DConsumerId q) = pred_option (ConsumerId_ok w) q"
  "nested_slack w (map_option DConsumerId q) = 0"
  "as_ConsumerId (nested_sent w (map_option DConsumerId q)) = q"
  "nested_depth (map_option DConsumerId q) \<le> 1"
  by (cases q; simp add: pointer_def)+

lemma Destination_views:
  "nested_fields w (map_option DDestination q) = pointer DDestination (Destination_fields w) q"
  "nested_sendable w (map_option DDestination q) = pred_option (Destination_ok w) q"
  "nested_slack w (map_option DDestination q) = 0"
  "as_Destination (nested_sent w (map_option DDestination q)) = map_option (Destination_sent w) q"
  "nested_depth (map_option DDestination q) \<le> 1"
  by (cases q; simp add: pointer_def)+

lemma TransactionId_views:
  "nested_fields w (map_option DTransactionId q) = pointer DTransactionId (TransactionId_fields w) q"
  "nested_sendable w (map_option DTransactionId q) = pred_option (TransactionId_ok w) q"
  "nested_slack w (map_option DTransactionId q) = 0"
  "as_TransactionId (nested_sent w (map_option DTransactionId q)) = q"
  "nested_depth (map_option DTransactionId q) \<le> 2"
  by (cases q; simp add: pointer_def)+

lemma MessageId_views:
  "nested_fields w (map_option DMessageId q) = pointer DMessageId (MessageId_fields w) q"
  "nested_sendable w (map_option DMessageId q) = pred_option (MessageId_ok w) q"
  "nested_slack w (map_option DMessageId q) = 0"
  "as_MessageId (nested_sent w (map_option DMessageId q)) = map_option (MessageId_sent w) q"
  "nested_depth (map_option DMessageId q) \<le> 2"
  by (cases q; simp add: pointer_def)+

lemma MessageAck_views:
  "nested_fields w (map_option DMessageAck q) = pointer DMessageAck (MessageAck_fields w) q"
  "nested_sendable w (map_option DMessageAck q) = pred_option (MessageAck_ok w) q"
  "nested_slack w (map_option DMessageAck q) = 0"
  "as_MessageAck (nested_sent w (map_option DMessageAck q)) = map_option (MessageAck_sent w) q"
  "nested_depth (map_option DMessageAck q) \<le> 3"
  by (cases q; simp add: pointer_def)+

lemmas sent_views [simp] = ProducerId_views(4) ConnectionId_views(4) BrokerId_views(4) SessionId_views(4) ConsumerId_views(4) Destination_views(4) TransactionId_views(4) MessageId_views(4) MessageAck_views(4)

lemma sent_kind: "is_message (sent w d) = is_message d"
  by (cases d rule: is_message.cases) simp_all

lemma sent_message: "pred_option is_message p \<Longrightarrow> as_Message (nested_sent w p) = nested_sent w p"
  by (cases p) (simp_all add: as_Message_def sent_kind)

lemma sent_broker: "is_broker d \<Longrightarrow> as_BrokerInfo (Some (sent w d)) = Some (sent w d)"
  by (cases d) (simp_all add: is_broker_def)

lemma sent_brokers: "list_all (pred_option is_broker) p \<Longrightarrow> map (\<lambda>q. as_BrokerInfo (nested_sent w q)) p = map (nested_sent w) p"
proof (induction p)
  case (Cons q p)
  then show ?case by (cases q) (simp_all add: sent_broker)
qed simp

section \<open>Hooks\<close>

lemma properties_written: "map_ok m \<Longrightarrow> (if m \<noteq> [] then marshal_map m [] else ret []) = ret (properties_bytes m)"
  by (simp add: properties_bytes_def primitive_map_write)

lemma properties_read: "map_ok m \<Longrightarrow> unmarshal_map [] (properties_bytes m) = ret (map_read m)"
  by (simp add: properties_bytes_def primitive_map_read) (simp add: unmarshal_map_def map_read_def)

lemma Message_before: "map_ok (Message_properties x) \<Longrightarrow> Message_beforeMarshal x = ret (Message_form x)"
  by (simp add: Message_beforeMarshal_def properties_written Message_form_def)

lemma Message_after:
  "Message_properties y = [] \<Longrightarrow> Message_marshalledProperties y = properties_bytes m \<Longrightarrow> map_ok m \<Longrightarrow>
   Message_afterUnmarshal y = ret (y\<lparr>Message_properties := map_read m\<rparr>)"
  by (simp add: Message_afterUnmarshal_def properties_read)

lemma puts_writeString32: "length str < 2 ^ 31 \<Longrightarrow> puts (writeString32 str) [] (sized_field str) ()"
  using puts_sized [of str] puts_next [OF puts_numbers(5) puts_ret [of "()"], of 0]
  by (cases "str = []") (simp_all add: writeString32_def signed_size sized_field_def)

lemma body_written: "puts m [] ys () \<Longrightarrow> body_array deflate m = ret (body_bytes deflate ys)"
  by (simp add: body_array_def to_array_puts body_bytes_def)

lemma text_before:
  "map_ok (Message_properties x) \<Longrightarrow> pred_option (\<lambda>text. length text < 2 ^ 31) (ActiveMQTextMessage_text x) \<Longrightarrow>
   ActiveMQTextMessage_beforeMarshal x = ret (ActiveMQTextMessage_form x)"
  by (cases "ActiveMQTextMessage_text x")
     (simp_all add: ActiveMQTextMessage_beforeMarshal_def Message_before ActiveMQTextMessage_form_def Message_form_def
       body_written [OF puts_writeString32] Let_def)

lemma map_before:
  "map_ok (Message_properties x) \<Longrightarrow> pred_option map_ok (ActiveMQMapMessage_map x) \<Longrightarrow>
   ActiveMQMapMessage_beforeMarshal x = ret (ActiveMQMapMessage_form x)"
  by (cases "ActiveMQMapMessage_map x")
     (simp_all add: ActiveMQMapMessage_beforeMarshal_def Message_before ActiveMQMapMessage_form_def Message_form_def
       body_written [OF map_puts])

lemma info_before: "map_ok (WireFormatInfo_properties x) \<Longrightarrow> WireFormatInfo_beforeMarshal x = ret (WireFormatInfo_form x)"
  by (simp add: WireFormatInfo_beforeMarshal_def properties_written WireFormatInfo_form_def)

lemma info_after:
  "WireFormatInfo_properties y = [] \<Longrightarrow> WireFormatInfo_marshalledProperties y = properties_bytes m \<Longrightarrow> map_ok m \<Longrightarrow>
   WireFormatInfo_afterUnmarshal y = ret (y\<lparr>WireFormatInfo_properties := map_read m\<rparr>)"
  by (simp add: WireFormatInfo_afterUnmarshal_def properties_read)

lemma after_hook_ret: "h x = ret y \<Longrightarrow> after_hook h x = y"
  by (simp add: after_hook_def ret_def)

lemma form_properties:
  "Message_marshalledProperties (Message_form x) = properties_bytes (Message_properties x)"
  "Message_marshalledProperties (ActiveMQTextMessage_form t) = properties_bytes (Message_properties t)"
  "Message_marshalledProperties (ActiveMQMapMessage_form m) = properties_bytes (Message_properties m)"
  by (simp_all add: Message_form_def ActiveMQTextMessage_form_def ActiveMQMapMessage_form_def Let_def split: option.split)

lemma constant_fields:
  assumes "length xs = n"
  shows "tput (write_constant n xs) (map WByte xs)" "tget (readFully n) (map WByte xs) xs"
    "lput (write_constant n xs) (map WByte xs)" "lget (readFully n) (map WByte xs) xs"
proof -
  have all: "all_bits (map WByte xs) = []" "all_tbytes (map WByte xs) = xs" "all_lbytes (map WByte xs) = xs"
    by (induction xs) simp_all
  show "tput (write_constant n xs) (map WByte xs)" "lput (write_constant n xs) (map WByte xs)"
    unfolding tput_def lput_def all using assms puts_array [of xs] by (auto simp: write_constant_def)
  show "tget (readFully n) (map WByte xs) xs" "lget (readFully n) (map WByte xs) xs"
    unfolding tget_def lget_def all using assms gets_readFully [of xs] by auto
qed

lemma create_rules: "Message_brokerPath create_ActiveMQBlobMessage = []" "Message_cluster create_ActiveMQBlobMessage = []"
  by (simp_all add: create_ActiveMQBlobMessage_def)

lemma deepest_le [simp]: "foldr max (map f xs) 0 \<le> (n :: nat) \<longleftrightarrow> list_all (\<lambda>x. f x \<le> n) xs"
  by (induction xs) simp_all


section \<open>The contract for nested objects\<close>

text \<open>The five methods of a marshaller agree on a list of fields: the size, what is written and what is read.\<close>

definition codec :: "32 word io \<Rightarrow> unit io \<Rightarrow> 'v io \<Rightarrow> unit io \<Rightarrow> 'v io \<Rightarrow> 32 word \<Rightarrow> field list \<Rightarrow> 'v \<Rightarrow> bool" where
  "codec m1 m2 g l lg n fs v \<longleftrightarrow> tmark m1 n fs \<and> tput m2 fs \<and> tget g fs v \<and> lput l fs \<and> lget lg fs v"

lemma codecI:
  assumes "tmark m1 n' fs'" "tput m2 fs" "tget g fs v1" "lput l fs" "lget lg fs v2"
    and "n' = n" "all_bits fs' = all_bits fs" "v1 = v" "v2 = v"
  shows "codec m1 m2 g l lg n fs v"
  unfolding codec_def using assms tmark_cong get_cong by metis

lemma codecD:
  assumes "codec m1 m2 g l lg n fs v"
  shows "tmark m1 n fs" "tput m2 fs" "tget g fs v" "lput l fs" "lget lg fs v"
  using assms by (simp_all add: codec_def)

locale nested_objects =
  fixes w :: wire_format
    and lim :: nat
    and nest1 :: "data_structure option \<Rightarrow> 32 word io"
    and nest2 :: "data_structure option \<Rightarrow> unit io"
    and nest_get :: "data_structure option io"
    and nest_loose :: "data_structure option \<Rightarrow> unit io"
    and nest_loose_get :: "data_structure option io"
  assumes nested: "nested_sendable w p \<Longrightarrow> nested_depth p \<le> lim \<Longrightarrow>
      codec (nest1 p) (nest2 p) nest_get (nest_loose p) nest_loose_get
        (size_of (nested_fields w p) + nested_slack w p) (nested_fields w p) (nested_sent w p)"
begin

lemmas nested_codec = nested [THEN codecD(1)] nested [THEN codecD(2)] nested [THEN codecD(3)]
  nested [THEN codecD(4)] nested [THEN codecD(5)]

lemma objects_codec:
  assumes "length p \<le> 32767" "list_all (nested_sendable w) p" "list_all (\<lambda>q. nested_depth q \<le> lim) p"
  shows "tmark (tightMarshalObjectArray1 nest1 p) (size_of (array_fields (nested_fields w) p) + sum_list (map (nested_slack w) p))
      (array_fields (nested_fields w) p)"
    and "tput (tightMarshalObjectArray2 nest2 p) (array_fields (nested_fields w) p)"
    and "tget (tightUnmarshalObjectArray nest_get cast []) (array_fields (nested_fields w) p) (map (\<lambda>q. cast (nested_sent w q)) p)"
    and "lput (looseMarshalObjectArray nest_loose p) (array_fields (nested_fields w) p)"
    and "lget (looseUnmarshalObjectArray nest_loose_get cast []) (array_fields (nested_fields w) p) (map (\<lambda>q. cast (nested_sent w q)) p)"
proof -
  have el: "nested_sendable w q" "nested_depth q \<le> lim" if "q \<in> set p" for q
    using that assms(2, 3) by (simp_all add: list_all_iff)
  have all: "map (\<lambda>q. cast (nested_sent w q)) p = (if p = [] then [] else [] @ map (\<lambda>q. cast (nested_sent w q)) p)" by simp
  show "tmark (tightMarshalObjectArray1 nest1 p) (size_of (array_fields (nested_fields w) p) + sum_list (map (nested_slack w) p))
      (array_fields (nested_fields w) p)"
    by (rule array_slack nested_codec el | assumption)+
  show "tput (tightMarshalObjectArray2 nest2 p) (array_fields (nested_fields w) p)"
    "lput (looseMarshalObjectArray nest_loose p) (array_fields (nested_fields w) p)"
    by (rule array_fields_codec nested_codec el assms(1) | assumption)+
  show "tget (tightUnmarshalObjectArray nest_get cast []) (array_fields (nested_fields w) p) (map (\<lambda>q. cast (nested_sent w q)) p)"
    "lget (looseUnmarshalObjectArray nest_loose_get cast []) (array_fields (nested_fields w) p) (map (\<lambda>q. cast (nested_sent w q)) p)"
    by (subst all, (rule array_fields_codec nested_codec el assms(1) | assumption)+)+
qed

lemma null_codec:
  "tmark (nest1 None) 0 [WBool False]" "tput (nest2 None) [WBool False]" "tget nest_get [WBool False] None"
  "lput (nest_loose None) [WBool False]" "lget nest_loose_get [WBool False] None"
  using nested_codec [of None] by simp_all

lemma ProducerId_pointer:
  assumes "pred_option (ProducerId_ok w) q" "1 \<le> lim"
  shows "tmark (nest1 (map_option DProducerId q)) (size_of (pointer DProducerId (ProducerId_fields w) q)) (pointer DProducerId (ProducerId_fields w) q)"
    and "tput (nest2 (map_option DProducerId q)) (pointer DProducerId (ProducerId_fields w) q)"
    and "tget nest_get (pointer DProducerId (ProducerId_fields w) q) (nested_sent w (map_option DProducerId q))"
    and "lput (nest_loose (map_option DProducerId q)) (pointer DProducerId (ProducerId_fields w) q)"
    and "lget nest_loose_get (pointer DProducerId (ProducerId_fields w) q) (nested_sent w (map_option DProducerId q))"
  using assms nested_codec [of "map_option DProducerId q"] ProducerId_views(5) [of q] by (simp_all add: ProducerId_views(1-3))

lemma ConnectionId_pointer:
  assumes "pred_option (ConnectionId_ok w) q" "1 \<le> lim"
  shows "tmark (nest1 (map_option DConnectionId q)) (size_of (pointer DConnectionId (ConnectionId_fields w) q)) (pointer DConnectionId (ConnectionId_fields w) q)"
    and "tput (nest2 (map_option DConnectionId q)) (pointer DConnectionId (ConnectionId_fields w) q)"
    and "tget nest_get (pointer DConnectionId (ConnectionId_fields w) q) (nested_sent w (map_option DConnectionId q))"
    and "lput (nest_loose (map_option DConnectionId q)) (pointer DConnectionId (ConnectionId_fields w) q)"
    and "lget nest_loose_get (pointer DConnectionId (ConnectionId_fields w) q) (nested_sent w (map_option DConnectionId q))"
  using assms nested_codec [of "map_option DConnectionId q"] ConnectionId_views(5) [of q] by (simp_all add: ConnectionId_views(1-3))

lemma BrokerId_pointer:
  assumes "pred_option (BrokerId_ok w) q" "1 \<le> lim"
  shows "tmark (nest1 (map_option DBrokerId q)) (size_of (pointer DBrokerId (BrokerId_fields w) q)) (pointer DBrokerId (BrokerId_fields w) q)"
    and "tput (nest2 (map_option DBrokerId q)) (pointer DBrokerId (BrokerId_fields w) q)"
    and "tget nest_get (pointer DBrokerId (BrokerId_fields w) q) (nested_sent w (map_option DBrokerId q))"
    and "lput (nest_loose (map_option DBrokerId q)) (pointer DBrokerId (BrokerId_fields w) q)"
    and "lget nest_loose_get (pointer DBrokerId (BrokerId_fields w) q) (nested_sent w (map_option DBrokerId q))"
  using assms nested_codec [of "map_option DBrokerId q"] BrokerId_views(5) [of q] by (simp_all add: BrokerId_views(1-3))

lemma SessionId_pointer:
  assumes "pred_option (SessionId_ok w) q" "1 \<le> lim"
  shows "tmark (nest1 (map_option DSessionId q)) (size_of (pointer DSessionId (SessionId_fields w) q)) (pointer DSessionId (SessionId_fields w) q)"
    and "tput (nest2 (map_option DSessionId q)) (pointer DSessionId (SessionId_fields w) q)"
    and "tget nest_get (pointer DSessionId (SessionId_fields w) q) (nested_sent w (map_option DSessionId q))"
    and "lput (nest_loose (map_option DSessionId q)) (pointer DSessionId (SessionId_fields w) q)"
    and "lget nest_loose_get (pointer DSessionId (SessionId_fields w) q) (nested_sent w (map_option DSessionId q))"
  using assms nested_codec [of "map_option DSessionId q"] SessionId_views(5) [of q] by (simp_all add: SessionId_views(1-3))

lemma ConsumerId_pointer:
  assumes "pred_option (ConsumerId_ok w) q" "1 \<le> lim"
  shows "tmark (nest1 (map_option DConsumerId q)) (size_of (pointer DConsumerId (ConsumerId_fields w) q)) (pointer DConsumerId (ConsumerId_fields w) q)"
    and "tput (nest2 (map_option DConsumerId q)) (pointer DConsumerId (ConsumerId_fields w) q)"
    and "tget nest_get (pointer DConsumerId (ConsumerId_fields w) q) (nested_sent w (map_option DConsumerId q))"
    and "lput (nest_loose (map_option DConsumerId q)) (pointer DConsumerId (ConsumerId_fields w) q)"
    and "lget nest_loose_get (pointer DConsumerId (ConsumerId_fields w) q) (nested_sent w (map_option DConsumerId q))"
  using assms nested_codec [of "map_option DConsumerId q"] ConsumerId_views(5) [of q] by (simp_all add: ConsumerId_views(1-3))

lemma Destination_pointer:
  assumes "pred_option (Destination_ok w) q" "1 \<le> lim"
  shows "tmark (nest1 (map_option DDestination q)) (size_of (pointer DDestination (Destination_fields w) q)) (pointer DDestination (Destination_fields w) q)"
    and "tput (nest2 (map_option DDestination q)) (pointer DDestination (Destination_fields w) q)"
    and "tget nest_get (pointer DDestination (Destination_fields w) q) (nested_sent w (map_option DDestination q))"
    and "lput (nest_loose (map_option DDestination q)) (pointer DDestination (Destination_fields w) q)"
    and "lget nest_loose_get (pointer DDestination (Destination_fields w) q) (nested_sent w (map_option DDestination q))"
  using assms nested_codec [of "map_option DDestination q"] Destination_views(5) [of q] by (simp_all add: Destination_views(1-3))

lemma TransactionId_pointer:
  assumes "pred_option (TransactionId_ok w) q" "2 \<le> lim"
  shows "tmark (nest1 (map_option DTransactionId q)) (size_of (pointer DTransactionId (TransactionId_fields w) q)) (pointer DTransactionId (TransactionId_fields w) q)"
    and "tput (nest2 (map_option DTransactionId q)) (pointer DTransactionId (TransactionId_fields w) q)"
    and "tget nest_get (pointer DTransactionId (TransactionId_fields w) q) (nested_sent w (map_option DTransactionId q))"
    and "lput (nest_loose (map_option DTransactionId q)) (pointer DTransactionId (TransactionId_fields w) q)"
    and "lget nest_loose_get (pointer DTransactionId (TransactionId_fields w) q) (nested_sent w (map_option DTransactionId q))"
  using assms nested_codec [of "map_option DTransactionId q"] TransactionId_views(5) [of q] by (simp_all add: TransactionId_views(1-3))

lemma MessageId_pointer:
  assumes "pred_option (MessageId_ok w) q" "2 \<le> lim"
  shows "tmark (nest1 (map_option DMessageId q)) (size_of (pointer DMessageId (MessageId_fields w) q)) (pointer DMessageId (MessageId_fields w) q)"
    and "tput (nest2 (map_option DMessageId q)) (pointer DMessageId (MessageId_fields w) q)"
    and "tget nest_get (pointer DMessageId (MessageId_fields w) q) (nested_sent w (map_option DMessageId q))"
    and "lput (nest_loose (map_option DMessageId q)) (pointer DMessageId (MessageId_fields w) q)"
    and "lget nest_loose_get (pointer DMessageId (MessageId_fields w) q) (nested_sent w (map_option DMessageId q))"
  using assms nested_codec [of "map_option DMessageId q"] MessageId_views(5) [of q] by (simp_all add: MessageId_views(1-3))

lemma MessageAck_pointer:
  assumes "pred_option (MessageAck_ok w) q" "3 \<le> lim"
  shows "tmark (nest1 (map_option DMessageAck q)) (size_of (pointer DMessageAck (MessageAck_fields w) q)) (pointer DMessageAck (MessageAck_fields w) q)"
    and "tput (nest2 (map_option DMessageAck q)) (pointer DMessageAck (MessageAck_fields w) q)"
    and "tget nest_get (pointer DMessageAck (MessageAck_fields w) q) (nested_sent w (map_option DMessageAck q))"
    and "lput (nest_loose (map_option DMessageAck q)) (pointer DMessageAck (MessageAck_fields w) q)"
    and "lget nest_loose_get (pointer DMessageAck (MessageAck_fields w) q) (nested_sent w (map_option DMessageAck q))"
  using assms nested_codec [of "map_option DMessageAck q"] MessageAck_views(5) [of q] by (simp_all add: MessageAck_views(1-3))

lemmas pointer_codec = null_codec ProducerId_pointer ConnectionId_pointer BrokerId_pointer SessionId_pointer ConsumerId_pointer Destination_pointer TransactionId_pointer MessageId_pointer MessageAck_pointer

lemmas wire_rules = tmark_bind tmark_bool tmark_if_bool tmark_string tmark_long tmark_bytes tmark_error tmark_ret
  tput_next tput_error lput_next lput_error tget_bind tget_error lget_bind lget_error get_map
  string_fields long_fields bytes_fields plain_fields ret_fields fields_if array_fields_codec pointer_codec

lemma BrokerId_codec:
  assumes ok: "BrokerId_ok w x"
  shows "codec (BrokerId_tightMarshal1 w nest1 x) (BrokerId_tightMarshal2 w nest2 x) (BrokerId_tightUnmarshal w nest_get create_BrokerId)
      (BrokerId_looseMarshal w nest_loose x) (BrokerId_looseUnmarshal w nest_loose_get create_BrokerId)
      (size_of (BrokerId_fields w x)) (BrokerId_fields w x)
      x"
proof -
  have parts:
    "fits (WString (BrokerId_value x))"
    using ok by (simp_all add: BrokerId_ok_def list_all_iff del: fits.simps)
  show ?thesis
    by (rule codecI, unfold BrokerId_tightMarshal1_def BrokerId_tightMarshal2_def BrokerId_tightUnmarshal_def BrokerId_looseMarshal_def
        BrokerId_looseUnmarshal_def BrokerId_fields_def, (rule wire_rules parts | assumption)+)
       (cases x; simp add: create_BrokerId_def comp_def del: tbytes.simps(5-7) tbits.simps(2-4))+
qed

lemma ConnectionId_codec:
  assumes ok: "ConnectionId_ok w x"
  shows "codec (ConnectionId_tightMarshal1 w nest1 x) (ConnectionId_tightMarshal2 w nest2 x) (ConnectionId_tightUnmarshal w nest_get create_ConnectionId)
      (ConnectionId_looseMarshal w nest_loose x) (ConnectionId_looseUnmarshal w nest_loose_get create_ConnectionId)
      (size_of (ConnectionId_fields w x)) (ConnectionId_fields w x)
      x"
proof -
  have parts:
    "fits (WString (ConnectionId_value x))"
    using ok by (simp_all add: ConnectionId_ok_def list_all_iff del: fits.simps)
  show ?thesis
    by (rule codecI, unfold ConnectionId_tightMarshal1_def ConnectionId_tightMarshal2_def ConnectionId_tightUnmarshal_def ConnectionId_looseMarshal_def
        ConnectionId_looseUnmarshal_def ConnectionId_fields_def, (rule wire_rules parts | assumption)+)
       (cases x; simp add: create_ConnectionId_def comp_def del: tbytes.simps(5-7) tbits.simps(2-4))+
qed

lemma SessionId_codec:
  assumes ok: "SessionId_ok w x"
  shows "codec (SessionId_tightMarshal1 w nest1 x) (SessionId_tightMarshal2 w nest2 x) (SessionId_tightUnmarshal w nest_get create_SessionId)
      (SessionId_looseMarshal w nest_loose x) (SessionId_looseUnmarshal w nest_loose_get create_SessionId)
      (size_of (SessionId_fields w x)) (SessionId_fields w x)
      x"
proof -
  have parts:
    "fits (WString (SessionId_connectionId x))"
    using ok by (simp_all add: SessionId_ok_def list_all_iff del: fits.simps)
  show ?thesis
    by (rule codecI, unfold SessionId_tightMarshal1_def SessionId_tightMarshal2_def SessionId_tightUnmarshal_def SessionId_looseMarshal_def
        SessionId_looseUnmarshal_def SessionId_fields_def, (rule wire_rules parts | assumption)+)
       (cases x; simp add: create_SessionId_def comp_def del: tbytes.simps(5-7) tbits.simps(2-4))+
qed

lemma ConsumerId_codec:
  assumes ok: "ConsumerId_ok w x"
  shows "codec (ConsumerId_tightMarshal1 w nest1 x) (ConsumerId_tightMarshal2 w nest2 x) (ConsumerId_tightUnmarshal w nest_get create_ConsumerId)
      (ConsumerId_looseMarshal w nest_loose x) (ConsumerId_looseUnmarshal w nest_loose_get create_ConsumerId)
      (size_of (ConsumerId_fields w x)) (ConsumerId_fields w x)
      x"
proof -
  have parts:
    "fits (WString (ConsumerId_connectionId x))"
    using ok by (simp_all add: ConsumerId_ok_def list_all_iff del: fits.simps)
  show ?thesis
    by (rule codecI, unfold ConsumerId_tightMarshal1_def ConsumerId_tightMarshal2_def ConsumerId_tightUnmarshal_def ConsumerId_looseMarshal_def
        ConsumerId_looseUnmarshal_def ConsumerId_fields_def, (rule wire_rules parts | assumption)+)
       (cases x; simp add: create_ConsumerId_def comp_def del: tbytes.simps(5-7) tbits.simps(2-4))+
qed

lemma ProducerId_codec:
  assumes ok: "ProducerId_ok w x"
  shows "codec (ProducerId_tightMarshal1 w nest1 x) (ProducerId_tightMarshal2 w nest2 x) (ProducerId_tightUnmarshal w nest_get create_ProducerId)
      (ProducerId_looseMarshal w nest_loose x) (ProducerId_looseUnmarshal w nest_loose_get create_ProducerId)
      (size_of (ProducerId_fields w x)) (ProducerId_fields w x)
      x"
proof -
  have parts:
    "fits (WString (ProducerId_connectionId x))"
    using ok by (simp_all add: ProducerId_ok_def list_all_iff del: fits.simps)
  show ?thesis
    by (rule codecI, unfold ProducerId_tightMarshal1_def ProducerId_tightMarshal2_def ProducerId_tightUnmarshal_def ProducerId_looseMarshal_def
        ProducerId_looseUnmarshal_def ProducerId_fields_def, (rule wire_rules parts | assumption)+)
       (cases x; simp add: create_ProducerId_def comp_def del: tbytes.simps(5-7) tbits.simps(2-4))+
qed

lemma MessageId_codec:
  assumes ok: "MessageId_ok w x" and lim: "1 \<le> lim"
  shows "codec (MessageId_tightMarshal1 w nest1 x) (MessageId_tightMarshal2 w nest2 x) (MessageId_tightUnmarshal w nest_get create_MessageId)
      (MessageId_looseMarshal w nest_loose x) (MessageId_looseUnmarshal w nest_loose_get create_MessageId)
      (size_of (MessageId_fields w x)) (MessageId_fields w x)
      (MessageId_sent w x)"
proof -
  have parts:
    "version w \<ge> 10 \<Longrightarrow> fits (WString (MessageId_textView x))"
    "pred_option (ProducerId_ok w) (MessageId_producerId x)"
    using ok by (simp_all add: MessageId_ok_def list_all_iff del: fits.simps)
  show ?thesis
    by (rule codecI, unfold MessageId_tightMarshal1_def MessageId_tightMarshal2_def MessageId_tightUnmarshal_def MessageId_looseMarshal_def
        MessageId_looseUnmarshal_def MessageId_fields_def, (rule wire_rules parts lim | assumption)+)
       (cases x; simp add: MessageId_sent_def create_MessageId_def comp_def del: tbytes.simps(5-7) tbits.simps(2-4))+
qed

lemma LocalTransactionId_codec:
  assumes ok: "LocalTransactionId_ok w x" and lim: "1 \<le> lim"
  shows "codec (LocalTransactionId_tightMarshal1 w nest1 x) (LocalTransactionId_tightMarshal2 w nest2 x) (LocalTransactionId_tightUnmarshal w nest_get create_LocalTransactionId)
      (LocalTransactionId_looseMarshal w nest_loose x) (LocalTransactionId_looseUnmarshal w nest_loose_get create_LocalTransactionId)
      (size_of (LocalTransactionId_fields w x)) (LocalTransactionId_fields w x)
      x"
proof -
  have parts:
    "pred_option (ConnectionId_ok w) (LocalTransactionId_connectionId x)"
    using ok by (simp_all add: LocalTransactionId_ok_def list_all_iff del: fits.simps)
  show ?thesis
    by (rule codecI, unfold LocalTransactionId_tightMarshal1_def LocalTransactionId_tightMarshal2_def LocalTransactionId_tightUnmarshal_def LocalTransactionId_looseMarshal_def
        LocalTransactionId_looseUnmarshal_def LocalTransactionId_fields_def, (rule wire_rules parts lim | assumption)+)
       (cases x; simp add: create_LocalTransactionId_def comp_def del: tbytes.simps(5-7) tbits.simps(2-4))+
qed

lemma XATransactionId_codec:
  assumes ok: "XATransactionId_ok w x"
  shows "codec (XATransactionId_tightMarshal1 w nest1 x) (XATransactionId_tightMarshal2 w nest2 x) (XATransactionId_tightUnmarshal w nest_get create_XATransactionId)
      (XATransactionId_looseMarshal w nest_loose x) (XATransactionId_looseUnmarshal w nest_loose_get create_XATransactionId)
      (size_of (XATransactionId_fields w x)) (XATransactionId_fields w x)
      x"
proof -
  have parts:
    "fits (WBytes (XATransactionId_globalTransactionId x))"
    "fits (WBytes (XATransactionId_branchQualifier x))"
    using ok by (simp_all add: XATransactionId_ok_def list_all_iff del: fits.simps)
  show ?thesis
    by (rule codecI, unfold XATransactionId_tightMarshal1_def XATransactionId_tightMarshal2_def XATransactionId_tightUnmarshal_def XATransactionId_looseMarshal_def
        XATransactionId_looseUnmarshal_def XATransactionId_fields_def, (rule wire_rules parts | assumption)+)
       (cases x; simp add: create_XATransactionId_def comp_def del: tbytes.simps(5-7) tbits.simps(2-4))+
qed

lemma BaseCommand_codec:
  shows "codec (BaseCommand_tightMarshal1 w nest1 x) (BaseCommand_tightMarshal2 w nest2 x) (BaseCommand_tightUnmarshal w nest_get y)
      (BaseCommand_looseMarshal w nest_loose x) (BaseCommand_looseUnmarshal w nest_loose_get y)
      (size_of (BaseCommand_fields w x)) (BaseCommand_fields w x)
      (y\<lparr>BaseCommand_commandId := BaseCommand_commandId x, BaseCommand_responseRequired := BaseCommand_responseRequired x\<rparr>)"
  by (rule codecI, unfold BaseCommand_tightMarshal1_def BaseCommand_tightMarshal2_def BaseCommand_tightUnmarshal_def BaseCommand_looseMarshal_def
        BaseCommand_looseUnmarshal_def BaseCommand_fields_def, (rule wire_rules | assumption)+)
       (cases x; simp add: comp_def del: tbytes.simps(5-7) tbits.simps(2-4))+

lemmas BaseCommand_rules = BaseCommand_codec [THEN codecD(1)] BaseCommand_codec [THEN codecD(2)] BaseCommand_codec [THEN codecD(3)]
  BaseCommand_codec [THEN codecD(4)] BaseCommand_codec [THEN codecD(5)]

lemma Response_codec:
  shows "codec (Response_tightMarshal1 w nest1 x) (Response_tightMarshal2 w nest2 x) (Response_tightUnmarshal w nest_get y)
      (Response_looseMarshal w nest_loose x) (Response_looseUnmarshal w nest_loose_get y)
      (size_of (Response_fields w x)) (Response_fields w x)
      (y\<lparr>BaseCommand_commandId := BaseCommand_commandId x, BaseCommand_responseRequired := BaseCommand_responseRequired x,
       Response_correlationId := Response_correlationId x\<rparr>)"
  by (rule codecI, unfold Response_tightMarshal1_def Response_tightMarshal2_def Response_tightUnmarshal_def Response_looseMarshal_def
        Response_looseUnmarshal_def Response_fields_def, (rule wire_rules BaseCommand_rules | assumption)+)
       (cases x; simp add: comp_def del: tbytes.simps(5-7) tbits.simps(2-4))+

lemmas Response_rules = Response_codec [THEN codecD(1)] Response_codec [THEN codecD(2)] Response_codec [THEN codecD(3)]
  Response_codec [THEN codecD(4)] Response_codec [THEN codecD(5)]

lemma ConnectionInfo_codec:
  assumes ok: "ConnectionInfo_ok w x" and lim: "1 \<le> lim"
  shows "codec (ConnectionInfo_tightMarshal1 w nest1 x) (ConnectionInfo_tightMarshal2 w nest2 x) (ConnectionInfo_tightUnmarshal w nest_get create_ConnectionInfo)
      (ConnectionInfo_looseMarshal w nest_loose x) (ConnectionInfo_looseUnmarshal w nest_loose_get create_ConnectionInfo)
      (size_of (ConnectionInfo_fields w x)) (ConnectionInfo_fields w x)
      (ConnectionInfo_sent w x)"
proof -
  have parts:
    "pred_option (ConnectionId_ok w) (ConnectionInfo_connectionId x)"
    "fits (WString (ConnectionInfo_clientId x))"
    "fits (WString (ConnectionInfo_password x))"
    "fits (WString (ConnectionInfo_userName x))"
    "length (ConnectionInfo_brokerPath x) \<le> 32767"
    "version w \<ge> 8 \<Longrightarrow> fits (WString (ConnectionInfo_clientIp x))"
    using ok by (simp_all add: ConnectionInfo_ok_def list_all_iff del: fits.simps)
  have members:
    "\<And>q. q \<in> set (ConnectionInfo_brokerPath x) \<Longrightarrow> pred_option (BrokerId_ok w) q"
    using ok by (simp_all add: ConnectionInfo_ok_def list_all_iff del: fits.simps)
  show ?thesis
    by (rule codecI, unfold ConnectionInfo_tightMarshal1_def ConnectionInfo_tightMarshal2_def ConnectionInfo_tightUnmarshal_def ConnectionInfo_looseMarshal_def
        ConnectionInfo_looseUnmarshal_def ConnectionInfo_fields_def, (rule wire_rules BaseCommand_rules parts lim | erule members | assumption)+)
       (cases x; simp add: ConnectionInfo_sent_def create_ConnectionInfo_def comp_def del: tbytes.simps(5-7) tbits.simps(2-4))+
qed

lemma SessionInfo_codec:
  assumes ok: "SessionInfo_ok w x" and lim: "1 \<le> lim"
  shows "codec (SessionInfo_tightMarshal1 w nest1 x) (SessionInfo_tightMarshal2 w nest2 x) (SessionInfo_tightUnmarshal w nest_get create_SessionInfo)
      (SessionInfo_looseMarshal w nest_loose x) (SessionInfo_looseUnmarshal w nest_loose_get create_SessionInfo)
      (size_of (SessionInfo_fields w x)) (SessionInfo_fields w x)
      x"
proof -
  have parts:
    "pred_option (SessionId_ok w) (SessionInfo_sessionId x)"
    using ok by (simp_all add: SessionInfo_ok_def list_all_iff del: fits.simps)
  show ?thesis
    by (rule codecI, unfold SessionInfo_tightMarshal1_def SessionInfo_tightMarshal2_def SessionInfo_tightUnmarshal_def SessionInfo_looseMarshal_def
        SessionInfo_looseUnmarshal_def SessionInfo_fields_def, (rule wire_rules BaseCommand_rules parts lim | assumption)+)
       (cases x; simp add: create_SessionInfo_def comp_def del: tbytes.simps(5-7) tbits.simps(2-4))+
qed

lemma ConsumerInfo_codec:
  assumes ok: "ConsumerInfo_ok w x" and lim: "1 \<le> lim"
  shows "codec (ConsumerInfo_tightMarshal1 w nest1 x) (ConsumerInfo_tightMarshal2 w nest2 x) (ConsumerInfo_tightUnmarshal w nest_get create_ConsumerInfo)
      (ConsumerInfo_looseMarshal w nest_loose x) (ConsumerInfo_looseUnmarshal w nest_loose_get create_ConsumerInfo)
      (size_of (ConsumerInfo_fields w x)) (ConsumerInfo_fields w x)
      (ConsumerInfo_sent w x)"
proof -
  have parts:
    "pred_option (ConsumerId_ok w) (ConsumerInfo_consumerId x)"
    "pred_option (Destination_ok w) (ConsumerInfo_destination x)"
    "fits (WString (ConsumerInfo_selector x))"
    "version w \<ge> 10 \<Longrightarrow> fits (WString (ConsumerInfo_clientId x))"
    "fits (WString (ConsumerInfo_subscriptionName x))"
    "length (ConsumerInfo_brokerPath x) \<le> 32767"
    "version w \<ge> 4 \<Longrightarrow> length (ConsumerInfo_networkConsumerPath x) \<le> 32767"
    using ok by (simp_all add: ConsumerInfo_ok_def list_all_iff del: fits.simps)
  have members:
    "\<And>q. q \<in> set (ConsumerInfo_brokerPath x) \<Longrightarrow> pred_option (BrokerId_ok w) q"
    "\<And>q. q \<in> set (ConsumerInfo_networkConsumerPath x) \<Longrightarrow> version w \<ge> 4 \<Longrightarrow> pred_option (ConsumerId_ok w) q"
    using ok by (simp_all add: ConsumerInfo_ok_def list_all_iff del: fits.simps)
  show ?thesis
    by (rule codecI, unfold ConsumerInfo_tightMarshal1_def ConsumerInfo_tightMarshal2_def ConsumerInfo_tightUnmarshal_def ConsumerInfo_looseMarshal_def
        ConsumerInfo_looseUnmarshal_def ConsumerInfo_fields_def, (rule wire_rules BaseCommand_rules parts lim | erule members | assumption)+)
       (cases x; simp add: ConsumerInfo_sent_def create_ConsumerInfo_def comp_def del: tbytes.simps(5-7) tbits.simps(2-4))+
qed

lemma ProducerInfo_codec:
  assumes ok: "ProducerInfo_ok w x" and lim: "1 \<le> lim"
  shows "codec (ProducerInfo_tightMarshal1 w nest1 x) (ProducerInfo_tightMarshal2 w nest2 x) (ProducerInfo_tightUnmarshal w nest_get create_ProducerInfo)
      (ProducerInfo_looseMarshal w nest_loose x) (ProducerInfo_looseUnmarshal w nest_loose_get create_ProducerInfo)
      (size_of (ProducerInfo_fields w x) + (if version w \<ge> 3 then 0 else 4)) (ProducerInfo_fields w x)
      (ProducerInfo_sent w x)"
proof -
  have parts:
    "pred_option (ProducerId_ok w) (ProducerInfo_producerId x)"
    "pred_option (Destination_ok w) (ProducerInfo_destination x)"
    "length (ProducerInfo_brokerPath x) \<le> 32767"
    using ok by (simp_all add: ProducerInfo_ok_def list_all_iff del: fits.simps)
  have members:
    "\<And>q. q \<in> set (ProducerInfo_brokerPath x) \<Longrightarrow> pred_option (BrokerId_ok w) q"
    using ok by (simp_all add: ProducerInfo_ok_def list_all_iff del: fits.simps)
  show ?thesis
    by (rule codecI, unfold ProducerInfo_tightMarshal1_def ProducerInfo_tightMarshal2_def ProducerInfo_tightUnmarshal_def ProducerInfo_looseMarshal_def
        ProducerInfo_looseUnmarshal_def ProducerInfo_fields_def, (rule wire_rules BaseCommand_rules parts lim | erule members | assumption)+)
       (cases x; simp add: ProducerInfo_sent_def create_ProducerInfo_def comp_def del: tbytes.simps(5-7) tbits.simps(2-4))+
qed

lemma DestinationInfo_codec:
  assumes ok: "DestinationInfo_ok w x" and lim: "1 \<le> lim"
  shows "codec (DestinationInfo_tightMarshal1 w nest1 x) (DestinationInfo_tightMarshal2 w nest2 x) (DestinationInfo_tightUnmarshal w nest_get create_DestinationInfo)
      (DestinationInfo_looseMarshal w nest_loose x) (DestinationInfo_looseUnmarshal w nest_loose_get create_DestinationInfo)
      (size_of (DestinationInfo_fields w x)) (DestinationInfo_fields w x)
      (DestinationInfo_sent w x)"
proof -
  have parts:
    "pred_option (ConnectionId_ok w) (DestinationInfo_connectionId x)"
    "pred_option (Destination_ok w) (DestinationInfo_destination x)"
    "length (DestinationInfo_brokerPath x) \<le> 32767"
    using ok by (simp_all add: DestinationInfo_ok_def list_all_iff del: fits.simps)
  have members:
    "\<And>q. q \<in> set (DestinationInfo_brokerPath x) \<Longrightarrow> pred_option (BrokerId_ok w) q"
    using ok by (simp_all add: DestinationInfo_ok_def list_all_iff del: fits.simps)
  show ?thesis
    by (rule codecI, unfold DestinationInfo_tightMarshal1_def DestinationInfo_tightMarshal2_def DestinationInfo_tightUnmarshal_def DestinationInfo_looseMarshal_def
        DestinationInfo_looseUnmarshal_def DestinationInfo_fields_def, (rule wire_rules BaseCommand_rules parts lim | erule members | assumption)+)
       (cases x; simp add: DestinationInfo_sent_def create_DestinationInfo_def comp_def del: tbytes.simps(5-7) tbits.simps(2-4))+
qed

lemma RemoveInfo_codec:
  assumes p: "nested_sendable w p" "nested_depth p \<le> lim"
  shows "codec (RemoveInfo_tightMarshal1 w nest1 x p) (RemoveInfo_tightMarshal2 w nest2 x p) (RemoveInfo_tightUnmarshal w nest_get create_RemoveInfo)
      (RemoveInfo_looseMarshal w nest_loose x p) (RemoveInfo_looseUnmarshal w nest_loose_get create_RemoveInfo)
      (size_of (RemoveInfo_fields w x (nested_fields w p)) + nested_slack w p) (RemoveInfo_fields w x (nested_fields w p))
      ((RemoveInfo_sent w x), nested_sent w p)"
  by (rule codecI, unfold RemoveInfo_tightMarshal1_def RemoveInfo_tightMarshal2_def RemoveInfo_tightUnmarshal_def RemoveInfo_looseMarshal_def
        RemoveInfo_looseUnmarshal_def RemoveInfo_fields_def, (rule wire_rules BaseCommand_rules p nested_codec | assumption)+)
       (cases x; simp add: RemoveInfo_sent_def create_RemoveInfo_def comp_def del: tbytes.simps(5-7) tbits.simps(2-4))+

lemma RemoveSubscriptionInfo_codec:
  assumes ok: "RemoveSubscriptionInfo_ok w x" and lim: "1 \<le> lim"
  shows "codec (RemoveSubscriptionInfo_tightMarshal1 w nest1 x) (RemoveSubscriptionInfo_tightMarshal2 w nest2 x) (RemoveSubscriptionInfo_tightUnmarshal w nest_get create_RemoveSubscriptionInfo)
      (RemoveSubscriptionInfo_looseMarshal w nest_loose x) (RemoveSubscriptionInfo_looseUnmarshal w nest_loose_get create_RemoveSubscriptionInfo)
      (size_of (RemoveSubscriptionInfo_fields w x)) (RemoveSubscriptionInfo_fields w x)
      x"
proof -
  have parts:
    "pred_option (ConnectionId_ok w) (RemoveSubscriptionInfo_connectionId x)"
    "fits (WString (RemoveSubscriptionInfo_subcriptionName x))"
    "fits (WString (RemoveSubscriptionInfo_clientId x))"
    using ok by (simp_all add: RemoveSubscriptionInfo_ok_def list_all_iff del: fits.simps)
  show ?thesis
    by (rule codecI, unfold RemoveSubscriptionInfo_tightMarshal1_def RemoveSubscriptionInfo_tightMarshal2_def RemoveSubscriptionInfo_tightUnmarshal_def RemoveSubscriptionInfo_looseMarshal_def
        RemoveSubscriptionInfo_looseUnmarshal_def RemoveSubscriptionInfo_fields_def, (rule wire_rules BaseCommand_rules parts lim | assumption)+)
       (cases x; simp add: create_RemoveSubscriptionInfo_def comp_def del: tbytes.simps(5-7) tbits.simps(2-4))+
qed

lemma TransactionInfo_codec:
  assumes ok: "TransactionInfo_ok w x" and lim: "2 \<le> lim"
  shows "codec (TransactionInfo_tightMarshal1 w nest1 x) (TransactionInfo_tightMarshal2 w nest2 x) (TransactionInfo_tightUnmarshal w nest_get create_TransactionInfo)
      (TransactionInfo_looseMarshal w nest_loose x) (TransactionInfo_looseUnmarshal w nest_loose_get create_TransactionInfo)
      (size_of (TransactionInfo_fields w x)) (TransactionInfo_fields w x)
      x"
proof -
  have parts:
    "pred_option (ConnectionId_ok w) (TransactionInfo_connectionId x)"
    "pred_option (TransactionId_ok w) (TransactionInfo_transactionId x)"
    using ok by (simp_all add: TransactionInfo_ok_def list_all_iff del: fits.simps)
  have lim1: "1 \<le> lim" using lim by simp
  show ?thesis
    by (rule codecI, unfold TransactionInfo_tightMarshal1_def TransactionInfo_tightMarshal2_def TransactionInfo_tightUnmarshal_def TransactionInfo_looseMarshal_def
        TransactionInfo_looseUnmarshal_def TransactionInfo_fields_def, (rule wire_rules BaseCommand_rules parts lim lim1 | assumption)+)
       (cases x; simp add: create_TransactionInfo_def comp_def del: tbytes.simps(5-7) tbits.simps(2-4))+
qed

lemma MessageAck_codec:
  assumes ok: "MessageAck_ok w x" and lim: "2 \<le> lim"
  shows "codec (MessageAck_tightMarshal1 w nest1 x) (MessageAck_tightMarshal2 w nest2 x) (MessageAck_tightUnmarshal w nest_get create_MessageAck)
      (MessageAck_looseMarshal w nest_loose x) (MessageAck_looseUnmarshal w nest_loose_get create_MessageAck)
      (size_of (MessageAck_fields w x)) (MessageAck_fields w x)
      (MessageAck_sent w x)"
proof -
  have parts:
    "pred_option (Destination_ok w) (MessageAck_destination x)"
    "pred_option (TransactionId_ok w) (MessageAck_transactionId x)"
    "pred_option (ConsumerId_ok w) (MessageAck_consumerId x)"
    "pred_option (MessageId_ok w) (MessageAck_firstMessageId x)"
    "pred_option (MessageId_ok w) (MessageAck_lastMessageId x)"
    "version w \<ge> 7 \<Longrightarrow> error_fits w (MessageAck_poisonCause x)"
    using ok by (simp_all add: MessageAck_ok_def list_all_iff del: fits.simps)
  have lim1: "1 \<le> lim" using lim by simp
  show ?thesis
    by (rule codecI, unfold MessageAck_tightMarshal1_def MessageAck_tightMarshal2_def MessageAck_tightUnmarshal_def MessageAck_looseMarshal_def
        MessageAck_looseUnmarshal_def MessageAck_fields_def, (rule wire_rules BaseCommand_rules parts lim lim1 | assumption)+)
       (cases x; simp add: MessageAck_sent_def create_MessageAck_def comp_def del: tbytes.simps(5-7) tbits.simps(2-4))+
qed

lemma MessagePull_codec:
  assumes ok: "MessagePull_ok w x" and lim: "2 \<le> lim"
  shows "codec (MessagePull_tightMarshal1 w nest1 x) (MessagePull_tightMarshal2 w nest2 x) (MessagePull_tightUnmarshal w nest_get create_MessagePull)
      (MessagePull_looseMarshal w nest_loose x) (MessagePull_looseUnmarshal w nest_loose_get create_MessagePull)
      (size_of (MessagePull_fields w x)) (MessagePull_fields w x)
      (MessagePull_sent w x)"
proof -
  have parts:
    "pred_option (ConsumerId_ok w) (MessagePull_consumerId x)"
    "pred_option (Destination_ok w) (MessagePull_destination x)"
    "version w \<ge> 3 \<Longrightarrow> fits (WString (MessagePull_correlationId x))"
    "version w \<ge> 3 \<Longrightarrow> pred_option (MessageId_ok w) (MessagePull_messageId x)"
    using ok by (simp_all add: MessagePull_ok_def list_all_iff del: fits.simps)
  have lim1: "1 \<le> lim" using lim by simp
  show ?thesis
    by (rule codecI, unfold MessagePull_tightMarshal1_def MessagePull_tightMarshal2_def MessagePull_tightUnmarshal_def MessagePull_looseMarshal_def
        MessagePull_looseUnmarshal_def MessagePull_fields_def, (rule wire_rules BaseCommand_rules parts lim lim1 | assumption)+)
       (cases x; simp add: MessagePull_sent_def create_MessagePull_def comp_def del: tbytes.simps(5-7) tbits.simps(2-4))+
qed

lemma KeepAliveInfo_codec:
  shows "codec (KeepAliveInfo_tightMarshal1 w nest1 x) (KeepAliveInfo_tightMarshal2 w nest2 x) (KeepAliveInfo_tightUnmarshal w nest_get create_BaseCommand)
      (KeepAliveInfo_looseMarshal w nest_loose x) (KeepAliveInfo_looseUnmarshal w nest_loose_get create_BaseCommand)
      (size_of (KeepAliveInfo_fields w x)) (KeepAliveInfo_fields w x)
      x"
  by (rule codecI, unfold KeepAliveInfo_tightMarshal1_def KeepAliveInfo_tightMarshal2_def KeepAliveInfo_tightUnmarshal_def KeepAliveInfo_looseMarshal_def
        KeepAliveInfo_looseUnmarshal_def KeepAliveInfo_fields_def, (rule wire_rules BaseCommand_rules | assumption)+)
       (cases x; simp add: create_BaseCommand_def comp_def del: tbytes.simps(5-7) tbits.simps(2-4))+

lemma ShutdownInfo_codec:
  shows "codec (ShutdownInfo_tightMarshal1 w nest1 x) (ShutdownInfo_tightMarshal2 w nest2 x) (ShutdownInfo_tightUnmarshal w nest_get create_BaseCommand)
      (ShutdownInfo_looseMarshal w nest_loose x) (ShutdownInfo_looseUnmarshal w nest_loose_get create_BaseCommand)
      (size_of (ShutdownInfo_fields w x)) (ShutdownInfo_fields w x)
      x"
  by (rule codecI, unfold ShutdownInfo_tightMarshal1_def ShutdownInfo_tightMarshal2_def ShutdownInfo_tightUnmarshal_def ShutdownInfo_looseMarshal_def
        ShutdownInfo_looseUnmarshal_def ShutdownInfo_fields_def, (rule wire_rules BaseCommand_rules | assumption)+)
       (cases x; simp add: create_BaseCommand_def comp_def del: tbytes.simps(5-7) tbits.simps(2-4))+

lemma ExceptionResponse_codec:
  assumes ok: "ExceptionResponse_ok w x"
  shows "codec (ExceptionResponse_tightMarshal1 w nest1 x) (ExceptionResponse_tightMarshal2 w nest2 x) (ExceptionResponse_tightUnmarshal w nest_get create_ExceptionResponse)
      (ExceptionResponse_looseMarshal w nest_loose x) (ExceptionResponse_looseUnmarshal w nest_loose_get create_ExceptionResponse)
      (size_of (ExceptionResponse_fields w x)) (ExceptionResponse_fields w x)
      (ExceptionResponse_sent w x)"
proof -
  have parts:
    "error_fits w (ExceptionResponse_exception x)"
    using ok by (simp_all add: ExceptionResponse_ok_def list_all_iff del: fits.simps)
  show ?thesis
    by (rule codecI, unfold ExceptionResponse_tightMarshal1_def ExceptionResponse_tightMarshal2_def ExceptionResponse_tightUnmarshal_def ExceptionResponse_looseMarshal_def
        ExceptionResponse_looseUnmarshal_def ExceptionResponse_fields_def, (rule wire_rules Response_rules parts | assumption)+)
       (cases x; simp add: ExceptionResponse_sent_def create_ExceptionResponse_def comp_def del: tbytes.simps(5-7) tbits.simps(2-4))+
qed

lemma IntegerResponse_codec:
  shows "codec (IntegerResponse_tightMarshal1 w nest1 x) (IntegerResponse_tightMarshal2 w nest2 x) (IntegerResponse_tightUnmarshal w nest_get create_IntegerResponse)
      (IntegerResponse_looseMarshal w nest_loose x) (IntegerResponse_looseUnmarshal w nest_loose_get create_IntegerResponse)
      (size_of (IntegerResponse_fields w x)) (IntegerResponse_fields w x)
      x"
  by (rule codecI, unfold IntegerResponse_tightMarshal1_def IntegerResponse_tightMarshal2_def IntegerResponse_tightUnmarshal_def IntegerResponse_looseMarshal_def
        IntegerResponse_looseUnmarshal_def IntegerResponse_fields_def, (rule wire_rules Response_rules | assumption)+)
       (cases x; simp add: create_IntegerResponse_def comp_def del: tbytes.simps(5-7) tbits.simps(2-4))+

lemma DataResponse_codec:
  assumes p: "nested_sendable w p" "nested_depth p \<le> lim"
  shows "codec (DataResponse_tightMarshal1 w nest1 x p) (DataResponse_tightMarshal2 w nest2 x p) (DataResponse_tightUnmarshal w nest_get create_Response)
      (DataResponse_looseMarshal w nest_loose x p) (DataResponse_looseUnmarshal w nest_loose_get create_Response)
      (size_of (DataResponse_fields w x (nested_fields w p)) + nested_slack w p) (DataResponse_fields w x (nested_fields w p))
      (x, nested_sent w p)"
  by (rule codecI, unfold DataResponse_tightMarshal1_def DataResponse_tightMarshal2_def DataResponse_tightUnmarshal_def DataResponse_looseMarshal_def
        DataResponse_looseUnmarshal_def DataResponse_fields_def, (rule wire_rules Response_rules p nested_codec | assumption)+)
       (cases x; simp add: create_Response_def comp_def del: tbytes.simps(5-7) tbits.simps(2-4))+

lemma ProducerAck_codec:
  assumes ok: "ProducerAck_ok w x" and lim: "1 \<le> lim"
  shows "codec (ProducerAck_tightMarshal1 w nest1 x) (ProducerAck_tightMarshal2 w nest2 x) (ProducerAck_tightUnmarshal w nest_get create_ProducerAck)
      (ProducerAck_looseMarshal w nest_loose x) (ProducerAck_looseUnmarshal w nest_loose_get create_ProducerAck)
      (size_of (ProducerAck_fields w x) + (if version w \<ge> 3 then 0 else 4)) (ProducerAck_fields w x)
      (ProducerAck_sent w x)"
proof -
  have parts:
    "version w \<ge> 3 \<Longrightarrow> pred_option (ProducerId_ok w) (ProducerAck_producerId x)"
    using ok by (simp_all add: ProducerAck_ok_def list_all_iff del: fits.simps)
  show ?thesis
    by (rule codecI, unfold ProducerAck_tightMarshal1_def ProducerAck_tightMarshal2_def ProducerAck_tightUnmarshal_def ProducerAck_looseMarshal_def
        ProducerAck_looseUnmarshal_def ProducerAck_fields_def, (rule wire_rules BaseCommand_rules parts lim | assumption)+)
       (cases x; simp add: ProducerAck_sent_def create_ProducerAck_def comp_def del: tbytes.simps(5-7) tbits.simps(2-4))+
qed

lemma ConnectionError_codec:
  assumes ok: "ConnectionError_ok w x" and lim: "1 \<le> lim"
  shows "codec (ConnectionError_tightMarshal1 w nest1 x) (ConnectionError_tightMarshal2 w nest2 x) (ConnectionError_tightUnmarshal w nest_get create_ConnectionError)
      (ConnectionError_looseMarshal w nest_loose x) (ConnectionError_looseUnmarshal w nest_loose_get create_ConnectionError)
      (size_of (ConnectionError_fields w x)) (ConnectionError_fields w x)
      (ConnectionError_sent w x)"
proof -
  have parts:
    "error_fits w (ConnectionError_exception x)"
    "pred_option (ConnectionId_ok w) (ConnectionError_connectionId x)"
    using ok by (simp_all add: ConnectionError_ok_def list_all_iff del: fits.simps)
  show ?thesis
    by (rule codecI, unfold ConnectionError_tightMarshal1_def ConnectionError_tightMarshal2_def ConnectionError_tightUnmarshal_def ConnectionError_looseMarshal_def
        ConnectionError_looseUnmarshal_def ConnectionError_fields_def, (rule wire_rules BaseCommand_rules parts lim | assumption)+)
       (cases x; simp add: ConnectionError_sent_def create_ConnectionError_def comp_def del: tbytes.simps(5-7) tbits.simps(2-4))+
qed

lemma ConsumerControl_codec:
  assumes ok: "ConsumerControl_ok w x" and lim: "1 \<le> lim"
  shows "codec (ConsumerControl_tightMarshal1 w nest1 x) (ConsumerControl_tightMarshal2 w nest2 x) (ConsumerControl_tightUnmarshal w nest_get create_ConsumerControl)
      (ConsumerControl_looseMarshal w nest_loose x) (ConsumerControl_looseUnmarshal w nest_loose_get create_ConsumerControl)
      (size_of (ConsumerControl_fields w x)) (ConsumerControl_fields w x)
      (ConsumerControl_sent w x)"
proof -
  have parts:
    "version w \<ge> 6 \<Longrightarrow> pred_option (Destination_ok w) (ConsumerControl_destination x)"
    "pred_option (ConsumerId_ok w) (ConsumerControl_consumerId x)"
    using ok by (simp_all add: ConsumerControl_ok_def list_all_iff del: fits.simps)
  show ?thesis
    by (rule codecI, unfold ConsumerControl_tightMarshal1_def ConsumerControl_tightMarshal2_def ConsumerControl_tightUnmarshal_def ConsumerControl_looseMarshal_def
        ConsumerControl_looseUnmarshal_def ConsumerControl_fields_def, (rule wire_rules BaseCommand_rules parts lim | assumption)+)
       (cases x; simp add: ConsumerControl_sent_def create_ConsumerControl_def comp_def del: tbytes.simps(5-7) tbits.simps(2-4))+
qed

lemma ConnectionControl_codec:
  assumes ok: "ConnectionControl_ok w x"
  shows "codec (ConnectionControl_tightMarshal1 w nest1 x) (ConnectionControl_tightMarshal2 w nest2 x) (ConnectionControl_tightUnmarshal w nest_get create_ConnectionControl)
      (ConnectionControl_looseMarshal w nest_loose x) (ConnectionControl_looseUnmarshal w nest_loose_get create_ConnectionControl)
      (size_of (ConnectionControl_fields w x)) (ConnectionControl_fields w x)
      (ConnectionControl_sent w x)"
proof -
  have parts:
    "version w \<ge> 6 \<Longrightarrow> fits (WString (ConnectionControl_connectedBrokers x))"
    "version w \<ge> 6 \<Longrightarrow> fits (WString (ConnectionControl_reconnectTo x))"
    "version w \<ge> 8 \<Longrightarrow> fits (WBytes (ConnectionControl_token x))"
    using ok by (simp_all add: ConnectionControl_ok_def list_all_iff del: fits.simps)
  show ?thesis
    by (rule codecI, unfold ConnectionControl_tightMarshal1_def ConnectionControl_tightMarshal2_def ConnectionControl_tightUnmarshal_def ConnectionControl_looseMarshal_def
        ConnectionControl_looseUnmarshal_def ConnectionControl_fields_def, (rule wire_rules BaseCommand_rules parts | assumption)+)
       (cases x; simp add: ConnectionControl_sent_def create_ConnectionControl_def comp_def del: tbytes.simps(5-7) tbits.simps(2-4))+
qed

lemma ControlCommand_codec:
  assumes ok: "ControlCommand_ok w x"
  shows "codec (ControlCommand_tightMarshal1 w nest1 x) (ControlCommand_tightMarshal2 w nest2 x) (ControlCommand_tightUnmarshal w nest_get create_ControlCommand)
      (ControlCommand_looseMarshal w nest_loose x) (ControlCommand_looseUnmarshal w nest_loose_get create_ControlCommand)
      (size_of (ControlCommand_fields w x)) (ControlCommand_fields w x)
      x"
proof -
  have parts:
    "fits (WString (ControlCommand_command x))"
    using ok by (simp_all add: ControlCommand_ok_def list_all_iff del: fits.simps)
  show ?thesis
    by (rule codecI, unfold ControlCommand_tightMarshal1_def ControlCommand_tightMarshal2_def ControlCommand_tightUnmarshal_def ControlCommand_looseMarshal_def
        ControlCommand_looseUnmarshal_def ControlCommand_fields_def, (rule wire_rules BaseCommand_rules parts | assumption)+)
       (cases x; simp add: create_ControlCommand_def comp_def del: tbytes.simps(5-7) tbits.simps(2-4))+
qed

lemma MessageDispatchNotification_codec:
  assumes ok: "MessageDispatchNotification_ok w x" and lim: "2 \<le> lim"
  shows "codec (MessageDispatchNotification_tightMarshal1 w nest1 x) (MessageDispatchNotification_tightMarshal2 w nest2 x) (MessageDispatchNotification_tightUnmarshal w nest_get create_MessageDispatchNotification)
      (MessageDispatchNotification_looseMarshal w nest_loose x) (MessageDispatchNotification_looseUnmarshal w nest_loose_get create_MessageDispatchNotification)
      (size_of (MessageDispatchNotification_fields w x)) (MessageDispatchNotification_fields w x)
      (MessageDispatchNotification_sent w x)"
proof -
  have parts:
    "pred_option (ConsumerId_ok w) (MessageDispatchNotification_consumerId x)"
    "pred_option (Destination_ok w) (MessageDispatchNotification_destination x)"
    "pred_option (MessageId_ok w) (MessageDispatchNotification_messageId x)"
    using ok by (simp_all add: MessageDispatchNotification_ok_def list_all_iff del: fits.simps)
  have lim1: "1 \<le> lim" using lim by simp
  show ?thesis
    by (rule codecI, unfold MessageDispatchNotification_tightMarshal1_def MessageDispatchNotification_tightMarshal2_def MessageDispatchNotification_tightUnmarshal_def MessageDispatchNotification_looseMarshal_def
        MessageDispatchNotification_looseUnmarshal_def MessageDispatchNotification_fields_def, (rule wire_rules BaseCommand_rules parts lim lim1 | assumption)+)
       (cases x; simp add: MessageDispatchNotification_sent_def create_MessageDispatchNotification_def comp_def del: tbytes.simps(5-7) tbits.simps(2-4))+
qed

lemma SubscriptionInfo_codec:
  assumes ok: "SubscriptionInfo_ok w x" and lim: "1 \<le> lim"
  shows "codec (SubscriptionInfo_tightMarshal1 w nest1 x) (SubscriptionInfo_tightMarshal2 w nest2 x) (SubscriptionInfo_tightUnmarshal w nest_get create_SubscriptionInfo)
      (SubscriptionInfo_looseMarshal w nest_loose x) (SubscriptionInfo_looseUnmarshal w nest_loose_get create_SubscriptionInfo)
      (size_of (SubscriptionInfo_fields w x)) (SubscriptionInfo_fields w x)
      (SubscriptionInfo_sent w x)"
proof -
  have parts:
    "fits (WString (SubscriptionInfo_clientId x))"
    "pred_option (Destination_ok w) (SubscriptionInfo_destination x)"
    "fits (WString (SubscriptionInfo_selector x))"
    "fits (WString (SubscriptionInfo_subcriptionName x))"
    "version w \<ge> 3 \<Longrightarrow> pred_option (Destination_ok w) (SubscriptionInfo_subscribedDestination x)"
    using ok by (simp_all add: SubscriptionInfo_ok_def list_all_iff del: fits.simps)
  show ?thesis
    by (rule codecI, unfold SubscriptionInfo_tightMarshal1_def SubscriptionInfo_tightMarshal2_def SubscriptionInfo_tightUnmarshal_def SubscriptionInfo_looseMarshal_def
        SubscriptionInfo_looseUnmarshal_def SubscriptionInfo_fields_def, (rule wire_rules parts lim | assumption)+)
       (cases x; simp add: SubscriptionInfo_sent_def create_SubscriptionInfo_def comp_def del: tbytes.simps(5-7) tbits.simps(2-4))+
qed

lemma FlushCommand_codec:
  shows "codec (FlushCommand_tightMarshal1 w nest1 x) (FlushCommand_tightMarshal2 w nest2 x) (FlushCommand_tightUnmarshal w nest_get create_BaseCommand)
      (FlushCommand_looseMarshal w nest_loose x) (FlushCommand_looseUnmarshal w nest_loose_get create_BaseCommand)
      (size_of (FlushCommand_fields w x)) (FlushCommand_fields w x)
      x"
  by (rule codecI, unfold FlushCommand_tightMarshal1_def FlushCommand_tightMarshal2_def FlushCommand_tightUnmarshal_def FlushCommand_looseMarshal_def
        FlushCommand_looseUnmarshal_def FlushCommand_fields_def, (rule wire_rules BaseCommand_rules | assumption)+)
       (cases x; simp add: create_BaseCommand_def comp_def del: tbytes.simps(5-7) tbits.simps(2-4))+

lemma ReplayCommand_codec:
  shows "codec (ReplayCommand_tightMarshal1 w nest1 x) (ReplayCommand_tightMarshal2 w nest2 x) (ReplayCommand_tightUnmarshal w nest_get create_ReplayCommand)
      (ReplayCommand_looseMarshal w nest_loose x) (ReplayCommand_looseUnmarshal w nest_loose_get create_ReplayCommand)
      (size_of (ReplayCommand_fields w x)) (ReplayCommand_fields w x)
      x"
  by (rule codecI, unfold ReplayCommand_tightMarshal1_def ReplayCommand_tightMarshal2_def ReplayCommand_tightUnmarshal_def ReplayCommand_looseMarshal_def
        ReplayCommand_looseUnmarshal_def ReplayCommand_fields_def, (rule wire_rules BaseCommand_rules | assumption)+)
       (cases x; simp add: create_ReplayCommand_def comp_def del: tbytes.simps(5-7) tbits.simps(2-4))+

lemma PartialCommand_codec:
  assumes ok: "PartialCommand_ok w x"
  shows "codec (PartialCommand_tightMarshal1 w nest1 x) (PartialCommand_tightMarshal2 w nest2 x) (PartialCommand_tightUnmarshal w nest_get y)
      (PartialCommand_looseMarshal w nest_loose x) (PartialCommand_looseUnmarshal w nest_loose_get y)
      (size_of (PartialCommand_fields w x)) (PartialCommand_fields w x)
      (y\<lparr>PartialCommand_commandId := PartialCommand_commandId x, PartialCommand_data := PartialCommand_data x\<rparr>)"
proof -
  have parts:
    "fits (WBytes (PartialCommand_data x))"
    using ok by (simp_all add: PartialCommand_ok_def list_all_iff del: fits.simps)
  show ?thesis
    by (rule codecI, unfold PartialCommand_tightMarshal1_def PartialCommand_tightMarshal2_def PartialCommand_tightUnmarshal_def PartialCommand_looseMarshal_def
        PartialCommand_looseUnmarshal_def PartialCommand_fields_def, (rule wire_rules parts | assumption)+)
       (cases x; simp add: comp_def del: tbytes.simps(5-7) tbits.simps(2-4))+
qed

lemmas PartialCommand_rules = PartialCommand_codec [THEN codecD(1)] PartialCommand_codec [THEN codecD(2)] PartialCommand_codec [THEN codecD(3)]
  PartialCommand_codec [THEN codecD(4)] PartialCommand_codec [THEN codecD(5)]

lemma LastPartialCommand_codec:
  assumes ok: "LastPartialCommand_ok w x"
  shows "codec (LastPartialCommand_tightMarshal1 w nest1 x) (LastPartialCommand_tightMarshal2 w nest2 x) (LastPartialCommand_tightUnmarshal w nest_get create_PartialCommand)
      (LastPartialCommand_looseMarshal w nest_loose x) (LastPartialCommand_looseUnmarshal w nest_loose_get create_PartialCommand)
      (size_of (LastPartialCommand_fields w x)) (LastPartialCommand_fields w x)
      x"
proof -
  have parts:
    "PartialCommand_ok w x"
    using ok by (simp_all add: LastPartialCommand_ok_def list_all_iff del: fits.simps)
  show ?thesis
    by (rule codecI, unfold LastPartialCommand_tightMarshal1_def LastPartialCommand_tightMarshal2_def LastPartialCommand_tightUnmarshal_def LastPartialCommand_looseMarshal_def
        LastPartialCommand_looseUnmarshal_def LastPartialCommand_fields_def, (rule wire_rules PartialCommand_rules parts | assumption)+)
       (cases x; simp add: create_PartialCommand_def comp_def del: tbytes.simps(5-7) tbits.simps(2-4))+
qed

lemma DiscoveryEvent_codec:
  assumes ok: "DiscoveryEvent_ok w x"
  shows "codec (DiscoveryEvent_tightMarshal1 w nest1 x) (DiscoveryEvent_tightMarshal2 w nest2 x) (DiscoveryEvent_tightUnmarshal w nest_get create_DiscoveryEvent)
      (DiscoveryEvent_looseMarshal w nest_loose x) (DiscoveryEvent_looseUnmarshal w nest_loose_get create_DiscoveryEvent)
      (size_of (DiscoveryEvent_fields w x)) (DiscoveryEvent_fields w x)
      x"
proof -
  have parts:
    "fits (WString (DiscoveryEvent_serviceName x))"
    "fits (WString (DiscoveryEvent_brokerName x))"
    using ok by (simp_all add: DiscoveryEvent_ok_def list_all_iff del: fits.simps)
  show ?thesis
    by (rule codecI, unfold DiscoveryEvent_tightMarshal1_def DiscoveryEvent_tightMarshal2_def DiscoveryEvent_tightUnmarshal_def DiscoveryEvent_looseMarshal_def
        DiscoveryEvent_looseUnmarshal_def DiscoveryEvent_fields_def, (rule wire_rules parts | assumption)+)
       (cases x; simp add: create_DiscoveryEvent_def comp_def del: tbytes.simps(5-7) tbits.simps(2-4))+
qed

lemma NetworkBridgeFilter_codec:
  assumes ok: "NetworkBridgeFilter_ok w x" and lim: "1 \<le> lim"
  shows "codec (NetworkBridgeFilter_tightMarshal1 w nest1 x) (NetworkBridgeFilter_tightMarshal2 w nest2 x) (NetworkBridgeFilter_tightUnmarshal w nest_get create_NetworkBridgeFilter)
      (NetworkBridgeFilter_looseMarshal w nest_loose x) (NetworkBridgeFilter_looseUnmarshal w nest_loose_get create_NetworkBridgeFilter)
      (size_of (NetworkBridgeFilter_fields w x) + (if version w \<ge> 10 then 0 else 8)) (NetworkBridgeFilter_fields w x)
      (NetworkBridgeFilter_sent w x)"
proof -
  have parts:
    "pred_option (BrokerId_ok w) (NetworkBridgeFilter_networkBrokerId x)"
    using ok by (simp_all add: NetworkBridgeFilter_ok_def list_all_iff del: fits.simps)
  show ?thesis
    by (rule codecI, unfold NetworkBridgeFilter_tightMarshal1_def NetworkBridgeFilter_tightMarshal2_def NetworkBridgeFilter_tightUnmarshal_def NetworkBridgeFilter_looseMarshal_def
        NetworkBridgeFilter_looseUnmarshal_def NetworkBridgeFilter_fields_def, (rule wire_rules parts lim | assumption)+)
       (cases x; simp add: NetworkBridgeFilter_sent_def create_NetworkBridgeFilter_def comp_def del: tbytes.simps(5-7) tbits.simps(2-4))+
qed

lemma JournalQueueAck_codec:
  assumes ok: "JournalQueueAck_ok w x" and lim: "3 \<le> lim"
  shows "codec (JournalQueueAck_tightMarshal1 w nest1 x) (JournalQueueAck_tightMarshal2 w nest2 x) (JournalQueueAck_tightUnmarshal w nest_get create_JournalQueueAck)
      (JournalQueueAck_looseMarshal w nest_loose x) (JournalQueueAck_looseUnmarshal w nest_loose_get create_JournalQueueAck)
      (size_of (JournalQueueAck_fields w x)) (JournalQueueAck_fields w x)
      (JournalQueueAck_sent w x)"
proof -
  have parts:
    "pred_option (Destination_ok w) (JournalQueueAck_destination x)"
    "pred_option (MessageAck_ok w) (JournalQueueAck_messageAck x)"
    using ok by (simp_all add: JournalQueueAck_ok_def list_all_iff del: fits.simps)
  have lim1: "1 \<le> lim" using lim by simp
  show ?thesis
    by (rule codecI, unfold JournalQueueAck_tightMarshal1_def JournalQueueAck_tightMarshal2_def JournalQueueAck_tightUnmarshal_def JournalQueueAck_looseMarshal_def
        JournalQueueAck_looseUnmarshal_def JournalQueueAck_fields_def, (rule wire_rules parts lim lim1 | assumption)+)
       (cases x; simp add: JournalQueueAck_sent_def create_JournalQueueAck_def comp_def del: tbytes.simps(5-7) tbits.simps(2-4))+
qed

lemma JournalTopicAck_codec:
  assumes ok: "JournalTopicAck_ok w x" and lim: "2 \<le> lim"
  shows "codec (JournalTopicAck_tightMarshal1 w nest1 x) (JournalTopicAck_tightMarshal2 w nest2 x) (JournalTopicAck_tightUnmarshal w nest_get create_JournalTopicAck)
      (JournalTopicAck_looseMarshal w nest_loose x) (JournalTopicAck_looseUnmarshal w nest_loose_get create_JournalTopicAck)
      (size_of (JournalTopicAck_fields w x)) (JournalTopicAck_fields w x)
      (JournalTopicAck_sent w x)"
proof -
  have parts:
    "pred_option (Destination_ok w) (JournalTopicAck_destination x)"
    "pred_option (MessageId_ok w) (JournalTopicAck_messageId x)"
    "fits (WString (JournalTopicAck_subscritionName x))"
    "fits (WString (JournalTopicAck_clientId x))"
    "pred_option (TransactionId_ok w) (JournalTopicAck_transactionId x)"
    using ok by (simp_all add: JournalTopicAck_ok_def list_all_iff del: fits.simps)
  have lim1: "1 \<le> lim" using lim by simp
  show ?thesis
    by (rule codecI, unfold JournalTopicAck_tightMarshal1_def JournalTopicAck_tightMarshal2_def JournalTopicAck_tightUnmarshal_def JournalTopicAck_looseMarshal_def
        JournalTopicAck_looseUnmarshal_def JournalTopicAck_fields_def, (rule wire_rules parts lim lim1 | assumption)+)
       (cases x; simp add: JournalTopicAck_sent_def create_JournalTopicAck_def comp_def del: tbytes.simps(5-7) tbits.simps(2-4))+
qed

lemma JournalTrace_codec:
  assumes ok: "JournalTrace_ok w x"
  shows "codec (JournalTrace_tightMarshal1 w nest1 x) (JournalTrace_tightMarshal2 w nest2 x) (JournalTrace_tightUnmarshal w nest_get create_JournalTrace)
      (JournalTrace_looseMarshal w nest_loose x) (JournalTrace_looseUnmarshal w nest_loose_get create_JournalTrace)
      (size_of (JournalTrace_fields w x)) (JournalTrace_fields w x)
      x"
proof -
  have parts:
    "fits (WString (JournalTrace_message x))"
    using ok by (simp_all add: JournalTrace_ok_def list_all_iff del: fits.simps)
  show ?thesis
    by (rule codecI, unfold JournalTrace_tightMarshal1_def JournalTrace_tightMarshal2_def JournalTrace_tightUnmarshal_def JournalTrace_looseMarshal_def
        JournalTrace_looseUnmarshal_def JournalTrace_fields_def, (rule wire_rules parts | assumption)+)
       (cases x; simp add: create_JournalTrace_def comp_def del: tbytes.simps(5-7) tbits.simps(2-4))+
qed

lemma JournalTransaction_codec:
  assumes ok: "JournalTransaction_ok w x" and lim: "2 \<le> lim"
  shows "codec (JournalTransaction_tightMarshal1 w nest1 x) (JournalTransaction_tightMarshal2 w nest2 x) (JournalTransaction_tightUnmarshal w nest_get create_JournalTransaction)
      (JournalTransaction_looseMarshal w nest_loose x) (JournalTransaction_looseUnmarshal w nest_loose_get create_JournalTransaction)
      (size_of (JournalTransaction_fields w x)) (JournalTransaction_fields w x)
      x"
proof -
  have parts:
    "pred_option (TransactionId_ok w) (JournalTransaction_transactionId x)"
    using ok by (simp_all add: JournalTransaction_ok_def list_all_iff del: fits.simps)
  have lim1: "1 \<le> lim" using lim by simp
  show ?thesis
    by (rule codecI, unfold JournalTransaction_tightMarshal1_def JournalTransaction_tightMarshal2_def JournalTransaction_tightUnmarshal_def JournalTransaction_looseMarshal_def
        JournalTransaction_looseUnmarshal_def JournalTransaction_fields_def, (rule wire_rules parts lim lim1 | assumption)+)
       (cases x; simp add: create_JournalTransaction_def comp_def del: tbytes.simps(5-7) tbits.simps(2-4))+
qed

lemma MessageDispatch_codec:
  assumes ok: "MessageDispatch_ok w x" and lim: "1 \<le> lim" and p: "nested_sendable w p" "nested_depth p \<le> lim" "pred_option is_message p"
  shows "codec (MessageDispatch_tightMarshal1 w nest1 x p) (MessageDispatch_tightMarshal2 w nest2 x p) (MessageDispatch_tightUnmarshal w nest_get create_MessageDispatch)
      (MessageDispatch_looseMarshal w nest_loose x p) (MessageDispatch_looseUnmarshal w nest_loose_get create_MessageDispatch)
      (size_of (MessageDispatch_fields w x (nested_fields w p)) + nested_slack w p) (MessageDispatch_fields w x (nested_fields w p))
      ((MessageDispatch_sent w x), nested_sent w p)"
proof -
  have parts:
    "pred_option (ConsumerId_ok w) (MessageDispatch_consumerId x)"
    "pred_option (Destination_ok w) (MessageDispatch_destination x)"
    using ok by (simp_all add: MessageDispatch_ok_def list_all_iff del: fits.simps)
  have same: "as_Message (nested_sent w p) = nested_sent w p" using p(3) by (rule sent_message)
  show ?thesis
    by (rule codecI, unfold MessageDispatch_tightMarshal1_def MessageDispatch_tightMarshal2_def MessageDispatch_tightUnmarshal_def MessageDispatch_looseMarshal_def
        MessageDispatch_looseUnmarshal_def MessageDispatch_fields_def, (rule wire_rules BaseCommand_rules p nested_codec parts lim | assumption)+)
       (cases x; simp add: MessageDispatch_sent_def same create_MessageDispatch_def comp_def del: tbytes.simps(5-7) tbits.simps(2-4))+
qed

lemma BrokerInfo_codec:
  assumes ok: "BrokerInfo_ok w x" and lim: "1 \<le> lim" and p: "length p \<le> 32767" "list_all (nested_sendable w) p" "list_all (\<lambda>q. nested_depth q \<le> lim) p" "list_all (pred_option is_broker) p"
  shows "codec (BrokerInfo_tightMarshal1 w nest1 x p) (BrokerInfo_tightMarshal2 w nest2 x p) (BrokerInfo_tightUnmarshal w nest_get create_BrokerInfo)
      (BrokerInfo_looseMarshal w nest_loose x p) (BrokerInfo_looseUnmarshal w nest_loose_get create_BrokerInfo)
      (size_of (BrokerInfo_fields w x (array_fields (nested_fields w) p)) + sum_list (map (nested_slack w) p)) (BrokerInfo_fields w x (array_fields (nested_fields w) p))
      ((BrokerInfo_sent w x), map (nested_sent w) p)"
proof -
  have parts:
    "pred_option (BrokerId_ok w) (BrokerInfo_brokerId x)"
    "fits (WString (BrokerInfo_brokerURL x))"
    "fits (WString (BrokerInfo_brokerName x))"
    "version w \<ge> 3 \<Longrightarrow> fits (WString (BrokerInfo_brokerUploadUrl x))"
    "version w \<ge> 3 \<Longrightarrow> fits (WString (BrokerInfo_networkProperties x))"
    using ok by (simp_all add: BrokerInfo_ok_def list_all_iff del: fits.simps)
  have same: "map (\<lambda>q. as_BrokerInfo (nested_sent w q)) p = map (nested_sent w) p" using p(4) by (rule sent_brokers)
  show ?thesis
    by (rule codecI, unfold BrokerInfo_tightMarshal1_def BrokerInfo_tightMarshal2_def BrokerInfo_tightUnmarshal_def BrokerInfo_looseMarshal_def
        BrokerInfo_looseUnmarshal_def BrokerInfo_fields_def, (rule objects_codec p wire_rules BaseCommand_rules parts lim | assumption)+)
       (cases x; simp add: BrokerInfo_sent_def same create_BrokerInfo_def comp_def del: tbytes.simps(5-7) tbits.simps(2-4))+
qed

lemma DataArrayResponse_codec:
  assumes p: "length p \<le> 32767" "list_all (nested_sendable w) p" "list_all (\<lambda>q. nested_depth q \<le> lim) p"
  shows "codec (DataArrayResponse_tightMarshal1 w nest1 x p) (DataArrayResponse_tightMarshal2 w nest2 x p) (DataArrayResponse_tightUnmarshal w nest_get create_Response)
      (DataArrayResponse_looseMarshal w nest_loose x p) (DataArrayResponse_looseUnmarshal w nest_loose_get create_Response)
      (size_of (DataArrayResponse_fields w x (array_fields (nested_fields w) p)) + sum_list (map (nested_slack w) p)) (DataArrayResponse_fields w x (array_fields (nested_fields w) p))
      (x, map (nested_sent w) p)"
  by (rule codecI, unfold DataArrayResponse_tightMarshal1_def DataArrayResponse_tightMarshal2_def DataArrayResponse_tightUnmarshal_def DataArrayResponse_looseMarshal_def
        DataArrayResponse_looseUnmarshal_def DataArrayResponse_fields_def, (rule objects_codec p wire_rules Response_rules | assumption)+)
       (cases x; simp add: create_Response_def comp_def del: tbytes.simps(5-7) tbits.simps(2-4))+

lemma Message_codec:
  assumes ok: "Message_ok w x" and lim: "2 \<le> lim" and p: "nested_sendable w p" "nested_depth p \<le> lim" and y: "Message_brokerPath y = []" "Message_cluster y = []"
  shows "codec (Message_tightMarshal1 w nest1 x p) (Message_tightMarshal2 w nest2 x p) (Message_tightUnmarshal w nest_get y)
      (Message_looseMarshal w nest_loose x p) (Message_looseUnmarshal w nest_loose_get y)
      (size_of (Message_fields w x (nested_fields w p)) + nested_slack w p) (Message_fields w x (nested_fields w p))
      (Message_received w x y, nested_sent w p)"
proof -
  have parts:
    "pred_option (ProducerId_ok w) (Message_producerId x)"
    "pred_option (Destination_ok w) (Message_destination x)"
    "pred_option (TransactionId_ok w) (Message_transactionId x)"
    "pred_option (Destination_ok w) (Message_originalDestination x)"
    "pred_option (MessageId_ok w) (Message_messageId x)"
    "pred_option (TransactionId_ok w) (Message_originalTransactionId x)"
    "fits (WString (Message_groupID x))"
    "fits (WString (Message_correlationId x))"
    "pred_option (Destination_ok w) (Message_replyTo x)"
    "fits (WString (Message_type x))"
    "fits (WBytes (Message_content x))"
    "fits (WBytes (Message_marshalledProperties x))"
    "pred_option (ConsumerId_ok w) (Message_targetConsumerId x)"
    "length (Message_brokerPath x) \<le> 32767"
    "fits (WString (Message_userID x))"
    "version w \<ge> 3 \<Longrightarrow> length (Message_cluster x) \<le> 32767"
    using ok by (simp_all add: Message_ok_def list_all_iff del: fits.simps)
  have members:
    "\<And>q. q \<in> set (Message_brokerPath x) \<Longrightarrow> pred_option (BrokerId_ok w) q"
    "\<And>q. q \<in> set (Message_cluster x) \<Longrightarrow> version w \<ge> 3 \<Longrightarrow> pred_option (BrokerId_ok w) q"
    using ok by (simp_all add: Message_ok_def list_all_iff del: fits.simps)
  have lim1: "1 \<le> lim" using lim by simp
  show ?thesis
    by (rule codecI, unfold Message_tightMarshal1_def Message_tightMarshal2_def Message_tightUnmarshal_def Message_looseMarshal_def
        Message_looseUnmarshal_def Message_fields_def, (rule wire_rules BaseCommand_rules p nested_codec parts lim lim1 | erule members | assumption)+)
       (cases x; simp add: Message_received_def y comp_def del: tbytes.simps(5-7) tbits.simps(2-4))+
qed

lemmas Message_rules = Message_codec [THEN codecD(1)] Message_codec [THEN codecD(2)] Message_codec [THEN codecD(3)]
  Message_codec [THEN codecD(4)] Message_codec [THEN codecD(5)]

lemma ActiveMQBlobMessage_codec:
  assumes ok: "ActiveMQBlobMessage_ok w x" and lim: "2 \<le> lim" and p: "nested_sendable w p" "nested_depth p \<le> lim"
  shows "codec (ActiveMQBlobMessage_tightMarshal1 w nest1 x p) (ActiveMQBlobMessage_tightMarshal2 w nest2 x p) (ActiveMQBlobMessage_tightUnmarshal w nest_get create_ActiveMQBlobMessage)
      (ActiveMQBlobMessage_looseMarshal w nest_loose x p) (ActiveMQBlobMessage_looseUnmarshal w nest_loose_get create_ActiveMQBlobMessage)
      (size_of (ActiveMQBlobMessage_fields w x (nested_fields w p)) + nested_slack w p) (ActiveMQBlobMessage_fields w x (nested_fields w p))
      ((ActiveMQBlobMessage_sent w x), nested_sent w p)"
proof -
  have parts:
    "Message_ok w x"
    "version w \<ge> 3 \<Longrightarrow> fits (WString (ActiveMQBlobMessage_remoteBlobUrl x))"
    "version w \<ge> 3 \<Longrightarrow> fits (WString (ActiveMQBlobMessage_mimeType x))"
    using ok by (simp_all add: ActiveMQBlobMessage_ok_def list_all_iff del: fits.simps)
  have lim1: "1 \<le> lim" using lim by simp
  show ?thesis
    by (rule codecI, unfold ActiveMQBlobMessage_tightMarshal1_def ActiveMQBlobMessage_tightMarshal2_def ActiveMQBlobMessage_tightUnmarshal_def ActiveMQBlobMessage_looseMarshal_def
        ActiveMQBlobMessage_looseUnmarshal_def ActiveMQBlobMessage_fields_def, (rule wire_rules Message_rules p nested_codec create_rules parts lim lim1 | assumption)+)
       (cases x; simp add: ActiveMQBlobMessage_sent_def Message_received_def create_ActiveMQBlobMessage_def comp_def del: tbytes.simps(5-7) tbits.simps(2-4))+
qed

text \<open>A message: \<open>before\<close> is its hook and \<open>form x\<close> is what the hook makes of it.\<close>

lemma message_codec:
  assumes ok: "message_ok w form x" and lim: "2 \<le> lim" and p: "nested_sendable w p" "nested_depth p \<le> lim"
    and before: "before x = ret (form x)" and form: "Message_marshalledProperties (form x) = properties_bytes (Message_properties x)"
    and y: "Message_brokerPath y = []" "Message_cluster y = []" "Message_properties y = []"
  shows "codec (bind_io (before x) (\<lambda>x. bind_io (Message_tightMarshal1 w nest1 x p) (\<lambda>rc. ret (rc + 0))))
      (Message_tightMarshal2 w nest2 (after_hook before x) p)
      (bind_io (Message_tightUnmarshal w nest_get y) (\<lambda>z. bind_io (Message_afterUnmarshal (fst z)) (\<lambda>x. ret (x, snd z))))
      (bind_io (before x) (\<lambda>x. Message_looseMarshal w nest_loose x p))
      (bind_io (Message_looseUnmarshal w nest_loose_get y) (\<lambda>z. bind_io (Message_afterUnmarshal (fst z)) (\<lambda>x. ret (x, snd z))))
      (size_of (Message_fields w (form x) (nested_fields w p)) + nested_slack w p) (Message_fields w (form x) (nested_fields w p))
      (message_sent w form y x, nested_sent w p)"
proof -
  note c = codecD [OF Message_codec [of "form x", OF _ lim p y(1, 2)]]
  have "Message_afterUnmarshal (Message_received w (form x) y) =
      ret ((Message_received w (form x) y)\<lparr>Message_properties := map_read (Message_properties x)\<rparr>)"
    using ok form y by (intro Message_after) (simp_all add: Message_received_def message_ok_def)
  then have after: "bind_io (Message_afterUnmarshal (fst (Message_received w (form x) y, nested_sent w p))) (\<lambda>x'. ret (x', snd (Message_received w (form x) y, nested_sent w p))) =
      ret (message_sent w form y x, nested_sent w p)"
    by (simp add: message_sent_def)
  have form_ok: "Message_ok w (form x)" using ok by (simp add: message_ok_def)
  have read: "tget (bind_io (Message_tightUnmarshal w nest_get y) (\<lambda>z. bind_io (Message_afterUnmarshal (fst z)) (\<lambda>x. ret (x, snd z))))
        (Message_fields w (form x) (nested_fields w p) @ []) (message_sent w form y x, nested_sent w p)"
    "lget (bind_io (Message_looseUnmarshal w nest_loose_get y) (\<lambda>z. bind_io (Message_afterUnmarshal (fst z)) (\<lambda>x. ret (x, snd z))))
        (Message_fields w (form x) (nested_fields w p) @ []) (message_sent w form y x, nested_sent w p)"
    by (rule tget_bind [OF c(3) [OF form_ok]], simp only: after ret_fields)
      (rule lget_bind [OF c(5) [OF form_ok]], simp only: after ret_fields)
  show ?thesis
    unfolding after_hook_ret [of before, OF before] before bind_ret
  proof (rule codecI)
    show "tmark (bind_io (Message_tightMarshal1 w nest1 (form x) p) (\<lambda>rc. ret (rc + 0)))
        (size_of (Message_fields w (form x) (nested_fields w p)) + nested_slack w p + 0) (Message_fields w (form x) (nested_fields w p) @ [])"
      by (rule tmark_bind c(1) form_ok tmark_ret)+
  qed (use c(2, 4) [OF form_ok] read in simp_all)
qed

lemma new_messages:
  "Message_brokerPath create_Message = []" "Message_cluster create_Message = []" "Message_properties create_Message = []"
  "Message_brokerPath create_ActiveMQTextMessage = []" "Message_cluster create_ActiveMQTextMessage = []" "Message_properties create_ActiveMQTextMessage = []"
  "Message_brokerPath create_ActiveMQMapMessage = []" "Message_cluster create_ActiveMQMapMessage = []" "Message_properties create_ActiveMQMapMessage = []"
  by (simp_all add: create_Message_def create_ActiveMQTextMessage_def create_ActiveMQMapMessage_def)

lemma WireFormatInfo_codec:
  assumes ok: "WireFormatInfo_ok x"
  shows "codec (WireFormatInfo_tightMarshal1 w nest1 x) (WireFormatInfo_tightMarshal2 w nest2 (after_hook WireFormatInfo_beforeMarshal x))
      (WireFormatInfo_tightUnmarshal w nest_get create_WireFormatInfo) (WireFormatInfo_looseMarshal w nest_loose x)
      (WireFormatInfo_looseUnmarshal w nest_loose_get create_WireFormatInfo)
      (size_of (WireFormatInfo_fields w (WireFormatInfo_form x))) (WireFormatInfo_fields w (WireFormatInfo_form x)) (WireFormatInfo_sent x)"
proof -
  have parts: "length (WireFormatInfo_magic (WireFormatInfo_form x)) = 8" "map_ok (WireFormatInfo_properties x)"
    "fits (WBytes (WireFormatInfo_marshalledProperties (WireFormatInfo_form x)))"
    using ok by (simp_all add: WireFormatInfo_ok_def WireFormatInfo_form_def)
  note before = info_before [OF parts(2)]
  have after: "WireFormatInfo_afterUnmarshal (create_WireFormatInfo\<lparr>WireFormatInfo_magic := WireFormatInfo_magic (WireFormatInfo_form x),
      WireFormatInfo_version := WireFormatInfo_version (WireFormatInfo_form x),
      WireFormatInfo_marshalledProperties := WireFormatInfo_marshalledProperties (WireFormatInfo_form x)\<rparr>) = ret (WireFormatInfo_sent x)"
    by (subst info_after [OF _ _ parts(2)]) (simp_all add: WireFormatInfo_form_def WireFormatInfo_sent_def create_WireFormatInfo_def)
  have finish: "tget (ret v) [] v" "lget (ret v) [] v" for v :: WireFormatInfo by (rule ret_fields)+
  have same: "concat (map (tbits \<circ> WByte) xs) = []" "concat (map (tbytes \<circ> WByte) xs) = xs" for xs by (induction xs) simp_all
  let ?F = "map WByte (WireFormatInfo_magic (WireFormatInfo_form x)) @ [WInt (WireFormatInfo_version (WireFormatInfo_form x))] @
    [WBytes (WireFormatInfo_marshalledProperties (WireFormatInfo_form x))] @ []"
  have read: "tget (WireFormatInfo_tightUnmarshal w nest_get create_WireFormatInfo) ?F (WireFormatInfo_sent x)"
    "lget (WireFormatInfo_looseUnmarshal w nest_loose_get create_WireFormatInfo) ?F (WireFormatInfo_sent x)"
    unfolding WireFormatInfo_tightUnmarshal_def WireFormatInfo_looseUnmarshal_def
    by (rule tget_bind lget_bind constant_fields parts plain_fields bytes_fields, (rule tget_bind lget_bind constant_fields parts plain_fields bytes_fields)+,
        simp only: after finish)+
  show ?thesis
    unfolding WireFormatInfo_tightMarshal1_def WireFormatInfo_tightMarshal2_def WireFormatInfo_looseMarshal_def
      WireFormatInfo_fields_def after_hook_ret [of WireFormatInfo_beforeMarshal, OF before] before bind_ret
    by (rule codecI, (rule wire_rules constant_fields parts read [unfolded append_Nil2])+)
       (simp_all add: same parts del: tbytes.simps(5-7) tbits.simps(2-4))
qed


definition served :: "data_structure \<Rightarrow> bool" where
  "served d \<longleftrightarrow> (\<exists>t l. map_of tight_readers (getDataStructureType d) = Some t \<and> map_of loose_readers (getDataStructureType d) = Some l \<and>
     codec (dsm_tightMarshal1 w nest1 d) (dsm_tightMarshal2 w nest2 (prepared d)) (t w nest_get) (dsm_looseMarshal w nest_loose d) (l w nest_loose_get)
       (size_of (fields w d) + slack w d) (fields w d) (sent w d))"

lemma codec_map:
  "codec m1 m2 g l lg n fs v \<Longrightarrow> codec m1 m2 (bind_io g (\<lambda>x. ret (f x))) l (bind_io lg (\<lambda>x. ret (f x))) n fs (f v)"
  by (auto simp: codec_def intro: get_map)

lemma BrokerId_served: "sendable w (DBrokerId x) \<Longrightarrow> depth (DBrokerId x) \<le> Suc lim \<Longrightarrow> served (DBrokerId x)"
  using codec_map [OF BrokerId_codec [of x], of DBrokerId] by (simp add: served_def tight_readers_def loose_readers_def)

lemma ConnectionId_served: "sendable w (DConnectionId x) \<Longrightarrow> depth (DConnectionId x) \<le> Suc lim \<Longrightarrow> served (DConnectionId x)"
  using codec_map [OF ConnectionId_codec [of x], of DConnectionId] by (simp add: served_def tight_readers_def loose_readers_def)

lemma SessionId_served: "sendable w (DSessionId x) \<Longrightarrow> depth (DSessionId x) \<le> Suc lim \<Longrightarrow> served (DSessionId x)"
  using codec_map [OF SessionId_codec [of x], of DSessionId] by (simp add: served_def tight_readers_def loose_readers_def)

lemma ConsumerId_served: "sendable w (DConsumerId x) \<Longrightarrow> depth (DConsumerId x) \<le> Suc lim \<Longrightarrow> served (DConsumerId x)"
  using codec_map [OF ConsumerId_codec [of x], of DConsumerId] by (simp add: served_def tight_readers_def loose_readers_def)

lemma ProducerId_served: "sendable w (DProducerId x) \<Longrightarrow> depth (DProducerId x) \<le> Suc lim \<Longrightarrow> served (DProducerId x)"
  using codec_map [OF ProducerId_codec [of x], of DProducerId] by (simp add: served_def tight_readers_def loose_readers_def)

lemma MessageId_served: "sendable w (DMessageId x) \<Longrightarrow> depth (DMessageId x) \<le> Suc lim \<Longrightarrow> served (DMessageId x)"
  using codec_map [OF MessageId_codec [of x], of DMessageId] by (simp add: served_def tight_readers_def loose_readers_def)

lemma ConnectionInfo_served: "sendable w (DConnectionInfo x) \<Longrightarrow> depth (DConnectionInfo x) \<le> Suc lim \<Longrightarrow> served (DConnectionInfo x)"
  using codec_map [OF ConnectionInfo_codec [of x], of DConnectionInfo] by (simp add: served_def tight_readers_def loose_readers_def)

lemma SessionInfo_served: "sendable w (DSessionInfo x) \<Longrightarrow> depth (DSessionInfo x) \<le> Suc lim \<Longrightarrow> served (DSessionInfo x)"
  using codec_map [OF SessionInfo_codec [of x], of DSessionInfo] by (simp add: served_def tight_readers_def loose_readers_def)

lemma ConsumerInfo_served: "sendable w (DConsumerInfo x) \<Longrightarrow> depth (DConsumerInfo x) \<le> Suc lim \<Longrightarrow> served (DConsumerInfo x)"
  using codec_map [OF ConsumerInfo_codec [of x], of DConsumerInfo] by (simp add: served_def tight_readers_def loose_readers_def)

lemma ProducerInfo_served: "sendable w (DProducerInfo x) \<Longrightarrow> depth (DProducerInfo x) \<le> Suc lim \<Longrightarrow> served (DProducerInfo x)"
  using codec_map [OF ProducerInfo_codec [of x], of DProducerInfo] by (simp add: served_def tight_readers_def loose_readers_def)

lemma DestinationInfo_served: "sendable w (DDestinationInfo x) \<Longrightarrow> depth (DDestinationInfo x) \<le> Suc lim \<Longrightarrow> served (DDestinationInfo x)"
  using codec_map [OF DestinationInfo_codec [of x], of DDestinationInfo] by (simp add: served_def tight_readers_def loose_readers_def)

lemma RemoveInfo_served: "sendable w (DRemoveInfo x p) \<Longrightarrow> depth (DRemoveInfo x p) \<le> Suc lim \<Longrightarrow> served (DRemoveInfo x p)"
  using codec_map [OF RemoveInfo_codec [where x = x and p = p], of "\<lambda>z. DRemoveInfo (fst z) (snd z)"] by (simp add: served_def tight_readers_def loose_readers_def)

lemma RemoveSubscriptionInfo_served: "sendable w (DRemoveSubscriptionInfo x) \<Longrightarrow> depth (DRemoveSubscriptionInfo x) \<le> Suc lim \<Longrightarrow> served (DRemoveSubscriptionInfo x)"
  using codec_map [OF RemoveSubscriptionInfo_codec [of x], of DRemoveSubscriptionInfo] by (simp add: served_def tight_readers_def loose_readers_def)

lemma TransactionInfo_served: "sendable w (DTransactionInfo x) \<Longrightarrow> depth (DTransactionInfo x) \<le> Suc lim \<Longrightarrow> served (DTransactionInfo x)"
  using codec_map [OF TransactionInfo_codec [of x], of DTransactionInfo] by (simp add: served_def tight_readers_def loose_readers_def)

lemma MessageAck_served: "sendable w (DMessageAck x) \<Longrightarrow> depth (DMessageAck x) \<le> Suc lim \<Longrightarrow> served (DMessageAck x)"
  using codec_map [OF MessageAck_codec [of x], of DMessageAck] by (simp add: served_def tight_readers_def loose_readers_def)

lemma MessagePull_served: "sendable w (DMessagePull x) \<Longrightarrow> depth (DMessagePull x) \<le> Suc lim \<Longrightarrow> served (DMessagePull x)"
  using codec_map [OF MessagePull_codec [of x], of DMessagePull] by (simp add: served_def tight_readers_def loose_readers_def)

lemma KeepAliveInfo_served: "sendable w (DKeepAliveInfo x) \<Longrightarrow> depth (DKeepAliveInfo x) \<le> Suc lim \<Longrightarrow> served (DKeepAliveInfo x)"
  using codec_map [OF KeepAliveInfo_codec [of x], of DKeepAliveInfo] by (simp add: served_def tight_readers_def loose_readers_def)

lemma ShutdownInfo_served: "sendable w (DShutdownInfo x) \<Longrightarrow> depth (DShutdownInfo x) \<le> Suc lim \<Longrightarrow> served (DShutdownInfo x)"
  using codec_map [OF ShutdownInfo_codec [of x], of DShutdownInfo] by (simp add: served_def tight_readers_def loose_readers_def)

lemma Response_served: "sendable w (DResponse x) \<Longrightarrow> depth (DResponse x) \<le> Suc lim \<Longrightarrow> served (DResponse x)"
  using codec_map [OF Response_codec [of x create_Response], of DResponse] by (cases x, simp add: served_def tight_readers_def loose_readers_def create_Response_def)

lemma ExceptionResponse_served: "sendable w (DExceptionResponse x) \<Longrightarrow> depth (DExceptionResponse x) \<le> Suc lim \<Longrightarrow> served (DExceptionResponse x)"
  using codec_map [OF ExceptionResponse_codec [of x], of DExceptionResponse] by (simp add: served_def tight_readers_def loose_readers_def)

lemma IntegerResponse_served: "sendable w (DIntegerResponse x) \<Longrightarrow> depth (DIntegerResponse x) \<le> Suc lim \<Longrightarrow> served (DIntegerResponse x)"
  using codec_map [OF IntegerResponse_codec [of x], of DIntegerResponse] by (simp add: served_def tight_readers_def loose_readers_def)

lemma DataResponse_served: "sendable w (DDataResponse x p) \<Longrightarrow> depth (DDataResponse x p) \<le> Suc lim \<Longrightarrow> served (DDataResponse x p)"
  using codec_map [OF DataResponse_codec [where x = x and p = p], of "\<lambda>z. DDataResponse (fst z) (snd z)"] by (simp add: served_def tight_readers_def loose_readers_def)

lemma ProducerAck_served: "sendable w (DProducerAck x) \<Longrightarrow> depth (DProducerAck x) \<le> Suc lim \<Longrightarrow> served (DProducerAck x)"
  using codec_map [OF ProducerAck_codec [of x], of DProducerAck] by (simp add: served_def tight_readers_def loose_readers_def)

lemma ConnectionError_served: "sendable w (DConnectionError x) \<Longrightarrow> depth (DConnectionError x) \<le> Suc lim \<Longrightarrow> served (DConnectionError x)"
  using codec_map [OF ConnectionError_codec [of x], of DConnectionError] by (simp add: served_def tight_readers_def loose_readers_def)

lemma ConsumerControl_served: "sendable w (DConsumerControl x) \<Longrightarrow> depth (DConsumerControl x) \<le> Suc lim \<Longrightarrow> served (DConsumerControl x)"
  using codec_map [OF ConsumerControl_codec [of x], of DConsumerControl] by (simp add: served_def tight_readers_def loose_readers_def)

lemma ConnectionControl_served: "sendable w (DConnectionControl x) \<Longrightarrow> depth (DConnectionControl x) \<le> Suc lim \<Longrightarrow> served (DConnectionControl x)"
  using codec_map [OF ConnectionControl_codec [of x], of DConnectionControl] by (simp add: served_def tight_readers_def loose_readers_def)

lemma ControlCommand_served: "sendable w (DControlCommand x) \<Longrightarrow> depth (DControlCommand x) \<le> Suc lim \<Longrightarrow> served (DControlCommand x)"
  using codec_map [OF ControlCommand_codec [of x], of DControlCommand] by (simp add: served_def tight_readers_def loose_readers_def)

lemma MessageDispatchNotification_served: "sendable w (DMessageDispatchNotification x) \<Longrightarrow> depth (DMessageDispatchNotification x) \<le> Suc lim \<Longrightarrow> served (DMessageDispatchNotification x)"
  using codec_map [OF MessageDispatchNotification_codec [of x], of DMessageDispatchNotification] by (simp add: served_def tight_readers_def loose_readers_def)

lemma SubscriptionInfo_served: "sendable w (DSubscriptionInfo x) \<Longrightarrow> depth (DSubscriptionInfo x) \<le> Suc lim \<Longrightarrow> served (DSubscriptionInfo x)"
  using codec_map [OF SubscriptionInfo_codec [of x], of DSubscriptionInfo] by (simp add: served_def tight_readers_def loose_readers_def)

lemma FlushCommand_served: "sendable w (DFlushCommand x) \<Longrightarrow> depth (DFlushCommand x) \<le> Suc lim \<Longrightarrow> served (DFlushCommand x)"
  using codec_map [OF FlushCommand_codec [of x], of DFlushCommand] by (simp add: served_def tight_readers_def loose_readers_def)

lemma ReplayCommand_served: "sendable w (DReplayCommand x) \<Longrightarrow> depth (DReplayCommand x) \<le> Suc lim \<Longrightarrow> served (DReplayCommand x)"
  using codec_map [OF ReplayCommand_codec [of x], of DReplayCommand] by (simp add: served_def tight_readers_def loose_readers_def)

lemma PartialCommand_served: "sendable w (DPartialCommand x) \<Longrightarrow> depth (DPartialCommand x) \<le> Suc lim \<Longrightarrow> served (DPartialCommand x)"
  using codec_map [OF PartialCommand_codec [of x create_PartialCommand], of DPartialCommand] by (cases x, simp add: served_def tight_readers_def loose_readers_def create_PartialCommand_def)

lemma LastPartialCommand_served: "sendable w (DLastPartialCommand x) \<Longrightarrow> depth (DLastPartialCommand x) \<le> Suc lim \<Longrightarrow> served (DLastPartialCommand x)"
  using codec_map [OF LastPartialCommand_codec [of x], of DLastPartialCommand] by (simp add: served_def tight_readers_def loose_readers_def)

lemma DiscoveryEvent_served: "sendable w (DDiscoveryEvent x) \<Longrightarrow> depth (DDiscoveryEvent x) \<le> Suc lim \<Longrightarrow> served (DDiscoveryEvent x)"
  using codec_map [OF DiscoveryEvent_codec [of x], of DDiscoveryEvent] by (simp add: served_def tight_readers_def loose_readers_def)

lemma NetworkBridgeFilter_served: "sendable w (DNetworkBridgeFilter x) \<Longrightarrow> depth (DNetworkBridgeFilter x) \<le> Suc lim \<Longrightarrow> served (DNetworkBridgeFilter x)"
  using codec_map [OF NetworkBridgeFilter_codec [of x], of DNetworkBridgeFilter] by (simp add: served_def tight_readers_def loose_readers_def)

lemma JournalQueueAck_served: "sendable w (DJournalQueueAck x) \<Longrightarrow> depth (DJournalQueueAck x) \<le> Suc lim \<Longrightarrow> served (DJournalQueueAck x)"
  using codec_map [OF JournalQueueAck_codec [of x], of DJournalQueueAck] by (simp add: served_def tight_readers_def loose_readers_def)

lemma JournalTopicAck_served: "sendable w (DJournalTopicAck x) \<Longrightarrow> depth (DJournalTopicAck x) \<le> Suc lim \<Longrightarrow> served (DJournalTopicAck x)"
  using codec_map [OF JournalTopicAck_codec [of x], of DJournalTopicAck] by (simp add: served_def tight_readers_def loose_readers_def)

lemma JournalTrace_served: "sendable w (DJournalTrace x) \<Longrightarrow> depth (DJournalTrace x) \<le> Suc lim \<Longrightarrow> served (DJournalTrace x)"
  using codec_map [OF JournalTrace_codec [of x], of DJournalTrace] by (simp add: served_def tight_readers_def loose_readers_def)

lemma JournalTransaction_served: "sendable w (DJournalTransaction x) \<Longrightarrow> depth (DJournalTransaction x) \<le> Suc lim \<Longrightarrow> served (DJournalTransaction x)"
  using codec_map [OF JournalTransaction_codec [of x], of DJournalTransaction] by (simp add: served_def tight_readers_def loose_readers_def)

lemma MessageDispatch_served: "sendable w (DMessageDispatch x p) \<Longrightarrow> depth (DMessageDispatch x p) \<le> Suc lim \<Longrightarrow> served (DMessageDispatch x p)"
  using codec_map [OF MessageDispatch_codec [where x = x and p = p], of "\<lambda>z. DMessageDispatch (fst z) (snd z)"] by (simp add: served_def tight_readers_def loose_readers_def)

lemma BrokerInfo_served: "sendable w (DBrokerInfo x p) \<Longrightarrow> depth (DBrokerInfo x p) \<le> Suc lim \<Longrightarrow> served (DBrokerInfo x p)"
  using codec_map [OF BrokerInfo_codec [where x = x and p = p], of "\<lambda>z. DBrokerInfo (fst z) (snd z)"] by (simp add: served_def tight_readers_def loose_readers_def)

lemma DataArrayResponse_served: "sendable w (DDataArrayResponse x p) \<Longrightarrow> depth (DDataArrayResponse x p) \<le> Suc lim \<Longrightarrow> served (DDataArrayResponse x p)"
  using codec_map [OF DataArrayResponse_codec [where x = x and p = p], of "\<lambda>z. DDataArrayResponse (fst z) (snd z)"] by (simp add: served_def tight_readers_def loose_readers_def)

lemma WireFormatInfo_served: "sendable w (DWireFormatInfo x) \<Longrightarrow> served (DWireFormatInfo x)"
  using codec_map [OF WireFormatInfo_codec [of x], of DWireFormatInfo] by (simp add: served_def tight_readers_def loose_readers_def)

lemma ActiveMQMessage_served:
  assumes "sendable w (DActiveMQMessage x p)" "depth (DActiveMQMessage x p) \<le> Suc lim"
  shows "served (DActiveMQMessage x p)"
proof -
  have "message_ok w Message_form x" "2 \<le> lim" "nested_sendable w p" "nested_depth p \<le> lim" "Message_beforeMarshal x = ret (Message_form x)"
    using assms by (simp_all add: message_ok_def Message_before)
  from message_codec [where before = Message_beforeMarshal and form = Message_form and y = create_Message, OF this form_properties(1) new_messages(1-3)]
  have "codec (ActiveMQMessage_tightMarshal1 w nest1 x p) (ActiveMQMessage_tightMarshal2 w nest2 (after_hook Message_beforeMarshal x) p)
      (ActiveMQMessage_tightUnmarshal w nest_get create_Message) (ActiveMQMessage_looseMarshal w nest_loose x p) (ActiveMQMessage_looseUnmarshal w nest_loose_get create_Message)
      (size_of (fields w (DActiveMQMessage x p)) + slack w (DActiveMQMessage x p)) (fields w (DActiveMQMessage x p)) (message_sent w Message_form create_Message x, nested_sent w p)"
    by (simp only: ActiveMQMessage_tightMarshal1_def ActiveMQMessage_tightMarshal2_def ActiveMQMessage_tightUnmarshal_def ActiveMQMessage_looseMarshal_def ActiveMQMessage_looseUnmarshal_def fields.simps slack.simps)
  from codec_map [OF this, of "\<lambda>z. DActiveMQMessage (fst z) (snd z)"] show ?thesis by (simp add: served_def tight_readers_def loose_readers_def)
qed

lemma ActiveMQBytesMessage_served:
  assumes "sendable w (DActiveMQBytesMessage x p)" "depth (DActiveMQBytesMessage x p) \<le> Suc lim"
  shows "served (DActiveMQBytesMessage x p)"
proof -
  have "message_ok w Message_form x" "2 \<le> lim" "nested_sendable w p" "nested_depth p \<le> lim" "Message_beforeMarshal x = ret (Message_form x)"
    using assms by (simp_all add: message_ok_def Message_before)
  from message_codec [where before = Message_beforeMarshal and form = Message_form and y = create_Message, OF this form_properties(1) new_messages(1-3)]
  have "codec (ActiveMQBytesMessage_tightMarshal1 w nest1 x p) (ActiveMQBytesMessage_tightMarshal2 w nest2 (after_hook Message_beforeMarshal x) p)
      (ActiveMQBytesMessage_tightUnmarshal w nest_get create_Message) (ActiveMQBytesMessage_looseMarshal w nest_loose x p) (ActiveMQBytesMessage_looseUnmarshal w nest_loose_get create_Message)
      (size_of (fields w (DActiveMQBytesMessage x p)) + slack w (DActiveMQBytesMessage x p)) (fields w (DActiveMQBytesMessage x p)) (message_sent w Message_form create_Message x, nested_sent w p)"
    by (simp only: ActiveMQBytesMessage_tightMarshal1_def ActiveMQBytesMessage_tightMarshal2_def ActiveMQBytesMessage_tightUnmarshal_def ActiveMQBytesMessage_looseMarshal_def ActiveMQBytesMessage_looseUnmarshal_def fields.simps slack.simps)
  from codec_map [OF this, of "\<lambda>z. DActiveMQBytesMessage (fst z) (snd z)"] show ?thesis by (simp add: served_def tight_readers_def loose_readers_def)
qed

lemma ActiveMQMapMessage_served:
  assumes "sendable w (DActiveMQMapMessage x p)" "depth (DActiveMQMapMessage x p) \<le> Suc lim"
  shows "served (DActiveMQMapMessage x p)"
proof -
  have "message_ok w ActiveMQMapMessage_form x" "2 \<le> lim" "nested_sendable w p" "nested_depth p \<le> lim" "ActiveMQMapMessage_beforeMarshal x = ret (ActiveMQMapMessage_form x)"
    using assms by (simp_all add: ActiveMQMapMessage_ok_def message_ok_def map_before)
  from message_codec [where before = ActiveMQMapMessage_beforeMarshal and form = ActiveMQMapMessage_form and y = create_ActiveMQMapMessage, OF this form_properties(3) new_messages(7-9)]
  have "codec (ActiveMQMapMessage_tightMarshal1 w nest1 x p) (ActiveMQMapMessage_tightMarshal2 w nest2 (after_hook ActiveMQMapMessage_beforeMarshal x) p)
      (ActiveMQMapMessage_tightUnmarshal w nest_get create_ActiveMQMapMessage) (ActiveMQMapMessage_looseMarshal w nest_loose x p) (ActiveMQMapMessage_looseUnmarshal w nest_loose_get create_ActiveMQMapMessage)
      (size_of (fields w (DActiveMQMapMessage x p)) + slack w (DActiveMQMapMessage x p)) (fields w (DActiveMQMapMessage x p)) (message_sent w ActiveMQMapMessage_form create_ActiveMQMapMessage x, nested_sent w p)"
    by (simp only: ActiveMQMapMessage_tightMarshal1_def ActiveMQMapMessage_tightMarshal2_def ActiveMQMapMessage_tightUnmarshal_def ActiveMQMapMessage_looseMarshal_def ActiveMQMapMessage_looseUnmarshal_def fields.simps slack.simps)
  from codec_map [OF this, of "\<lambda>z. DActiveMQMapMessage (fst z) (snd z)"] show ?thesis by (simp add: served_def tight_readers_def loose_readers_def)
qed

lemma ActiveMQObjectMessage_served:
  assumes "sendable w (DActiveMQObjectMessage x p)" "depth (DActiveMQObjectMessage x p) \<le> Suc lim"
  shows "served (DActiveMQObjectMessage x p)"
proof -
  have "message_ok w Message_form x" "2 \<le> lim" "nested_sendable w p" "nested_depth p \<le> lim" "Message_beforeMarshal x = ret (Message_form x)"
    using assms by (simp_all add: message_ok_def Message_before)
  from message_codec [where before = Message_beforeMarshal and form = Message_form and y = create_Message, OF this form_properties(1) new_messages(1-3)]
  have "codec (ActiveMQObjectMessage_tightMarshal1 w nest1 x p) (ActiveMQObjectMessage_tightMarshal2 w nest2 (after_hook Message_beforeMarshal x) p)
      (ActiveMQObjectMessage_tightUnmarshal w nest_get create_Message) (ActiveMQObjectMessage_looseMarshal w nest_loose x p) (ActiveMQObjectMessage_looseUnmarshal w nest_loose_get create_Message)
      (size_of (fields w (DActiveMQObjectMessage x p)) + slack w (DActiveMQObjectMessage x p)) (fields w (DActiveMQObjectMessage x p)) (message_sent w Message_form create_Message x, nested_sent w p)"
    by (simp only: ActiveMQObjectMessage_tightMarshal1_def ActiveMQObjectMessage_tightMarshal2_def ActiveMQObjectMessage_tightUnmarshal_def ActiveMQObjectMessage_looseMarshal_def ActiveMQObjectMessage_looseUnmarshal_def fields.simps slack.simps)
  from codec_map [OF this, of "\<lambda>z. DActiveMQObjectMessage (fst z) (snd z)"] show ?thesis by (simp add: served_def tight_readers_def loose_readers_def)
qed

lemma ActiveMQStreamMessage_served:
  assumes "sendable w (DActiveMQStreamMessage x p)" "depth (DActiveMQStreamMessage x p) \<le> Suc lim"
  shows "served (DActiveMQStreamMessage x p)"
proof -
  have "message_ok w Message_form x" "2 \<le> lim" "nested_sendable w p" "nested_depth p \<le> lim" "Message_beforeMarshal x = ret (Message_form x)"
    using assms by (simp_all add: message_ok_def Message_before)
  from message_codec [where before = Message_beforeMarshal and form = Message_form and y = create_Message, OF this form_properties(1) new_messages(1-3)]
  have "codec (ActiveMQStreamMessage_tightMarshal1 w nest1 x p) (ActiveMQStreamMessage_tightMarshal2 w nest2 (after_hook Message_beforeMarshal x) p)
      (ActiveMQStreamMessage_tightUnmarshal w nest_get create_Message) (ActiveMQStreamMessage_looseMarshal w nest_loose x p) (ActiveMQStreamMessage_looseUnmarshal w nest_loose_get create_Message)
      (size_of (fields w (DActiveMQStreamMessage x p)) + slack w (DActiveMQStreamMessage x p)) (fields w (DActiveMQStreamMessage x p)) (message_sent w Message_form create_Message x, nested_sent w p)"
    by (simp only: ActiveMQStreamMessage_tightMarshal1_def ActiveMQStreamMessage_tightMarshal2_def ActiveMQStreamMessage_tightUnmarshal_def ActiveMQStreamMessage_looseMarshal_def ActiveMQStreamMessage_looseUnmarshal_def fields.simps slack.simps)
  from codec_map [OF this, of "\<lambda>z. DActiveMQStreamMessage (fst z) (snd z)"] show ?thesis by (simp add: served_def tight_readers_def loose_readers_def)
qed

lemma ActiveMQTextMessage_served:
  assumes "sendable w (DActiveMQTextMessage x p)" "depth (DActiveMQTextMessage x p) \<le> Suc lim"
  shows "served (DActiveMQTextMessage x p)"
proof -
  have "message_ok w ActiveMQTextMessage_form x" "2 \<le> lim" "nested_sendable w p" "nested_depth p \<le> lim" "ActiveMQTextMessage_beforeMarshal x = ret (ActiveMQTextMessage_form x)"
    using assms by (simp_all add: ActiveMQTextMessage_ok_def message_ok_def text_before)
  from message_codec [where before = ActiveMQTextMessage_beforeMarshal and form = ActiveMQTextMessage_form and y = create_ActiveMQTextMessage, OF this form_properties(2) new_messages(4-6)]
  have "codec (ActiveMQTextMessage_tightMarshal1 w nest1 x p) (ActiveMQTextMessage_tightMarshal2 w nest2 (after_hook ActiveMQTextMessage_beforeMarshal x) p)
      (ActiveMQTextMessage_tightUnmarshal w nest_get create_ActiveMQTextMessage) (ActiveMQTextMessage_looseMarshal w nest_loose x p) (ActiveMQTextMessage_looseUnmarshal w nest_loose_get create_ActiveMQTextMessage)
      (size_of (fields w (DActiveMQTextMessage x p)) + slack w (DActiveMQTextMessage x p)) (fields w (DActiveMQTextMessage x p)) (message_sent w ActiveMQTextMessage_form create_ActiveMQTextMessage x, nested_sent w p)"
    by (simp only: ActiveMQTextMessage_tightMarshal1_def ActiveMQTextMessage_tightMarshal2_def ActiveMQTextMessage_tightUnmarshal_def ActiveMQTextMessage_looseMarshal_def ActiveMQTextMessage_looseUnmarshal_def fields.simps slack.simps)
  from codec_map [OF this, of "\<lambda>z. DActiveMQTextMessage (fst z) (snd z)"] show ?thesis by (simp add: served_def tight_readers_def loose_readers_def)
qed

lemma ActiveMQBlobMessage_served: "sendable w (DActiveMQBlobMessage x p) \<Longrightarrow> depth (DActiveMQBlobMessage x p) \<le> Suc lim \<Longrightarrow> served (DActiveMQBlobMessage x p)"
  using codec_map [OF ActiveMQBlobMessage_codec [where x = x and p = p], of "\<lambda>z. DActiveMQBlobMessage (fst z) (snd z)"] by (simp add: served_def tight_readers_def loose_readers_def)

lemma destination_codec:
  assumes "fits (WString (ActiveMQDestination_physicalName x))"
  shows "codec (ActiveMQDestination_tightMarshal1 x) (ActiveMQDestination_tightMarshal2 x)
      (ActiveMQDestination_tightUnmarshal create_ActiveMQDestination) (ActiveMQDestination_looseMarshal x)
      (ActiveMQDestination_looseUnmarshal create_ActiveMQDestination)
      (size_of [WString (ActiveMQDestination_physicalName x)]) [WString (ActiveMQDestination_physicalName x)] (sent_name x)"
  by (rule codecI, unfold ActiveMQDestination_tightMarshal1_def ActiveMQDestination_tightMarshal2_def ActiveMQDestination_tightUnmarshal_def
      ActiveMQDestination_looseMarshal_def ActiveMQDestination_looseUnmarshal_def, (rule wire_rules assms)+)
     (simp_all add: sent_name_def)

lemma Destination_served: "sendable w (DDestination d) \<Longrightarrow> served (DDestination d)"
proof (cases d)
  case (ActiveMQQueue x)
  then show "sendable w (DDestination d) \<Longrightarrow> served (DDestination d)"
    using codec_map [OF destination_codec [of x], of "DDestination \<circ> ActiveMQQueue"]
    by (simp add: served_def tight_readers_def loose_readers_def Destination_fields_def Destination_ok_def del: fits.simps tbytes.simps)
next
  case (ActiveMQTopic x)
  then show "sendable w (DDestination d) \<Longrightarrow> served (DDestination d)"
    using codec_map [OF destination_codec [of x], of "DDestination \<circ> ActiveMQTopic"]
    by (simp add: served_def tight_readers_def loose_readers_def Destination_fields_def Destination_ok_def del: fits.simps tbytes.simps)
next
  case (ActiveMQTempQueue x)
  then show "sendable w (DDestination d) \<Longrightarrow> served (DDestination d)"
    using codec_map [OF destination_codec [of x], of "DDestination \<circ> ActiveMQTempQueue"]
    by (simp add: served_def tight_readers_def loose_readers_def Destination_fields_def Destination_ok_def del: fits.simps tbytes.simps)
next
  case (ActiveMQTempTopic x)
  then show "sendable w (DDestination d) \<Longrightarrow> served (DDestination d)"
    using codec_map [OF destination_codec [of x], of "DDestination \<circ> ActiveMQTempTopic"]
    by (simp add: served_def tight_readers_def loose_readers_def Destination_fields_def Destination_ok_def del: fits.simps tbytes.simps)
qed

lemma TransactionId_served: "sendable w (DTransactionId d) \<Longrightarrow> depth (DTransactionId d) \<le> Suc lim \<Longrightarrow> served (DTransactionId d)"
proof (cases d)
  case (Local x)
  then show "sendable w (DTransactionId d) \<Longrightarrow> depth (DTransactionId d) \<le> Suc lim \<Longrightarrow> served (DTransactionId d)"
    using codec_map [OF LocalTransactionId_codec [of x], of "DTransactionId \<circ> Local"]
    by (simp add: served_def tight_readers_def loose_readers_def)
next
  case (XA x)
  then show "sendable w (DTransactionId d) \<Longrightarrow> depth (DTransactionId d) \<le> Suc lim \<Longrightarrow> served (DTransactionId d)"
    using codec_map [OF XATransactionId_codec [of x], of "DTransactionId \<circ> XA"]
    by (simp add: served_def tight_readers_def loose_readers_def)
qed

theorem object_served: "sendable w d \<Longrightarrow> depth d \<le> Suc lim \<Longrightarrow> served d"
  by (cases d)
     (simp_all only: BrokerId_served ConnectionId_served SessionId_served ConsumerId_served ProducerId_served
       MessageId_served ConnectionInfo_served SessionInfo_served ConsumerInfo_served ProducerInfo_served
       DestinationInfo_served RemoveInfo_served RemoveSubscriptionInfo_served TransactionInfo_served MessageAck_served
       MessagePull_served KeepAliveInfo_served ShutdownInfo_served Response_served ExceptionResponse_served
       IntegerResponse_served DataResponse_served ProducerAck_served ConnectionError_served ConsumerControl_served
       ConnectionControl_served ControlCommand_served MessageDispatchNotification_served SubscriptionInfo_served FlushCommand_served
       ReplayCommand_served PartialCommand_served LastPartialCommand_served DiscoveryEvent_served NetworkBridgeFilter_served
       JournalQueueAck_served JournalTopicAck_served JournalTrace_served JournalTransaction_served MessageDispatch_served
       BrokerInfo_served DataArrayResponse_served WireFormatInfo_served ActiveMQMessage_served ActiveMQBytesMessage_served
       ActiveMQMapMessage_served ActiveMQObjectMessage_served ActiveMQStreamMessage_served ActiveMQTextMessage_served ActiveMQBlobMessage_served
       Destination_served TransactionId_served)

end

end
