(* ===== verification/OpenWire.thy ===== *)
theory OpenWire
  imports WireCodecs
begin

text \<open>
  \<open>activemq/wireformat/openwire/OpenWireFormat.cpp\<close>: nested objects, frames and the negotiation of the
  settings.  The functions for nested objects call the marshallers of the classes, which call them
  again; \<open>n\<close> bounds the depth of these calls, and reaching it is the error \<open>StackOverflow\<close>.  An object to be sent has
  depth \<open>depth d\<close>, and each nested object that is read has used at least the byte of its type, so that
  \<open>marshal\<close> and \<open>unmarshal\<close> never reach their bounds.  The wire format, the transport and the streams
  are not null.
\<close>

section \<open>Nested objects\<close>

text \<open>A local boolean stream.\<close>

definition with_stream :: "'a io \<Rightarrow> 'a io" where
  "with_stream m s = (case m (s\<lparr>bools := new_BooleanStream\<rparr>) of (r, t) \<Rightarrow> (r, t\<lparr>bools := bools s\<rparr>))"

text \<open>
  In the tight encoding, an object that is \<open>MarshalAware\<close> has a boolean for a marshalled form of its own.  No class
  of the client has one, but another peer may send one: it is a frame of its own, with a size, a type and booleans.
\<close>

definition getMarshaledForm :: "data_structure \<Rightarrow> bytes" where
  "getMarshaledForm d = []"

definition marshal_form1 :: "data_structure \<Rightarrow> 32 word io \<Rightarrow> 32 word io" where
  "marshal_form1 d k = (if isMarshalAware d then
     (let sequence = getMarshaledForm d in next_io (writeBoolean (sequence \<noteq> []))
       (if sequence \<noteq> [] then ret (1 + of_nat (length sequence)) else k))
   else k)"

definition marshal_form2 :: "data_structure \<Rightarrow> unit io \<Rightarrow> unit io" where
  "marshal_form2 d k = (if isMarshalAware d then bind_io readBoolean (\<lambda>form.
     if form then write_array (getMarshaledForm d) 0 (int (length (getMarshaledForm d))) else k)
   else k)"

definition aware_type :: "byte \<Rightarrow> bool" where
  "aware_type dataType = (dataType \<in> {1, 23, 24, 25, 26, 27, 28, 29})"

definition unmarshal_form :: "byte \<Rightarrow> 'a io \<Rightarrow> 'a io" where
  "unmarshal_form dataType k = (if aware_type dataType then bind_io readBoolean (\<lambda>form.
     if form then next_io readInt (next_io readByte (with_stream (next_io bs_unmarshal k))) else k)
   else k)"

fun tightMarshalNestedObject1 :: "nat \<Rightarrow> wire_format \<Rightarrow> data_structure option \<Rightarrow> 32 word io" where
  "tightMarshalNestedObject1 n w None = next_io (writeBoolean False) (ret 0)"
| "tightMarshalNestedObject1 0 w (Some d) = fails StackOverflow"
| "tightMarshalNestedObject1 (Suc n) w (Some d) = io_boundary (next_io (writeBoolean True) (marshal_form1 d
     (if getDataStructureType d = 0 then fails IOException
      else bind_io (dsm_tightMarshal1 w (tightMarshalNestedObject1 n w) d) (\<lambda>rc. ret (1 + rc)))))"

text \<open>With a null pointer, the boolean that the second phase reads has to be false.\<close>

fun tightMarshalNestedObject2 :: "nat \<Rightarrow> wire_format \<Rightarrow> data_structure option \<Rightarrow> unit io" where
  "tightMarshalNestedObject2 n w None = bind_io readBoolean (\<lambda>present. if present then fails UndefinedBehaviour else ret ())"
| "tightMarshalNestedObject2 0 w (Some d) = fails StackOverflow"
| "tightMarshalNestedObject2 (Suc n) w (Some d) = io_boundary (bind_io readBoolean (\<lambda>present.
     if present then next_io (writeByte (getDataStructureType d))
       (marshal_form2 d (dsm_tightMarshal2 w (tightMarshalNestedObject2 n w) (prepared d)))
     else ret ()))"

fun looseMarshalNestedObject :: "nat \<Rightarrow> wire_format \<Rightarrow> data_structure option \<Rightarrow> unit io" where
  "looseMarshalNestedObject n w None = out_writeBoolean False"
| "looseMarshalNestedObject 0 w (Some d) = fails StackOverflow"
| "looseMarshalNestedObject (Suc n) w (Some d) = io_boundary (next_io (out_writeBoolean True)
     (next_io (writeByte (getDataStructureType d)) (dsm_looseMarshal w (looseMarshalNestedObject n w) d)))"

definition read_object ::
  "(byte \<times> (wire_format \<Rightarrow> data_structure option io \<Rightarrow> data_structure io)) list \<Rightarrow> wire_format \<Rightarrow>
   data_structure option io \<Rightarrow> byte \<Rightarrow> data_structure option io" where
  "read_object readers w nest dataType = (case map_of readers dataType of
     None \<Rightarrow> fails IOException
   | Some r \<Rightarrow> bind_io (r w nest) (\<lambda>d. ret (Some d)))"

fun tightUnmarshalNestedObject :: "nat \<Rightarrow> wire_format \<Rightarrow> data_structure option io" where
  "tightUnmarshalNestedObject 0 w = bind_io readBoolean (\<lambda>present. if present then fails StackOverflow else ret None)"
| "tightUnmarshalNestedObject (Suc n) w = io_boundary (bind_io readBoolean (\<lambda>present.
     if present then bind_io readByte (\<lambda>dataType.
       unmarshal_form dataType (read_object tight_readers w (tightUnmarshalNestedObject n w) dataType))
     else ret None))"

fun looseUnmarshalNestedObject :: "nat \<Rightarrow> wire_format \<Rightarrow> data_structure option io" where
  "looseUnmarshalNestedObject 0 w = bind_io in_readBoolean (\<lambda>present. if present then fails StackOverflow else ret None)"
| "looseUnmarshalNestedObject (Suc n) w = io_boundary (bind_io in_readBoolean (\<lambda>present.
     if present then bind_io readByte (read_object loose_readers w (looseUnmarshalNestedObject n w)) else ret None))"

section \<open>Frames\<close>

definition NULL_TYPE :: byte where
  "NULL_TYPE = 0"

definition tight_frame :: "wire_format \<Rightarrow> data_structure \<Rightarrow> unit io" where
  "tight_frame w d = with_stream
     (bind_io (dsm_tightMarshal1 w (tightMarshalNestedObject1 (depth d) w) d) (\<lambda>rc s.
        let size = 1 + rc + marshalledSize (bools s) in
        next_io (if \<not> sizePrefixDisabled w then writeInt size else ret ())
        (next_io (writeByte (getDataStructureType d))
        (next_io bs_marshal (dsm_tightMarshal2 w (tightMarshalNestedObject2 (depth d) w) (prepared d)))) s))"

definition loose_frame :: "wire_format \<Rightarrow> data_structure \<Rightarrow> unit io" where
  "loose_frame w d =
     (let body = next_io (writeByte (getDataStructureType d)) (dsm_looseMarshal w (looseMarshalNestedObject (depth d) w) d) in
      if sizePrefixDisabled w then body
      else bind_io (to_array body) (\<lambda>array. next_io (writeInt (of_nat (length array)))
        (if length array > 0 then write_array array 0 (int (length array)) else ret ())))"

definition OpenWireFormat_marshal :: "wire_format \<Rightarrow> data_structure option \<Rightarrow> unit io" where
  "OpenWireFormat_marshal w command = io_boundary (case command of
     Some d \<Rightarrow> if tightEncodingEnabled w then tight_frame w d else loose_frame w d
   | None \<Rightarrow> next_io (writeInt 1) (writeByte NULL_TYPE))"

definition read_depth :: "streams \<Rightarrow> nat" where
  "read_depth s = input_left s + 8"

definition doUnmarshal :: "wire_format \<Rightarrow> data_structure option io" where
  "doUnmarshal w = io_boundary (bind_io readByte (\<lambda>dataType.
     if dataType \<noteq> NULL_TYPE then
       (if tightEncodingEnabled w then
          (if map_of tight_readers dataType = None then fails IOException
           else with_stream (next_io bs_unmarshal (\<lambda>s.
             read_object tight_readers w (tightUnmarshalNestedObject (read_depth s) w) dataType s)))
        else (\<lambda>s. read_object loose_readers w (looseUnmarshalNestedObject (read_depth s) w) dataType s))
     else ret None))"

text \<open>The classes that are derived from \<open>Command\<close>; the cast of another object throws.\<close>

fun is_command :: "data_structure \<Rightarrow> bool" where
  "is_command (DBrokerId x) = False"
| "is_command (DConnectionId x) = False"
| "is_command (DSessionId x) = False"
| "is_command (DConsumerId x) = False"
| "is_command (DProducerId x) = False"
| "is_command (DMessageId x) = False"
| "is_command (DSubscriptionInfo x) = False"
| "is_command (DPartialCommand x) = False"
| "is_command (DLastPartialCommand x) = False"
| "is_command (DDiscoveryEvent x) = False"
| "is_command (DNetworkBridgeFilter x) = False"
| "is_command (DJournalQueueAck x) = False"
| "is_command (DJournalTopicAck x) = False"
| "is_command (DJournalTrace x) = False"
| "is_command (DJournalTransaction x) = False"
| "is_command (DDestination x) = False"
| "is_command (DTransactionId x) = False"
| "is_command _ = True"

definition OpenWireFormat_unmarshal :: "wire_format \<Rightarrow> data_structure io" where
  "OpenWireFormat_unmarshal w = io_boundary (next_io (if \<not> sizePrefixDisabled w then readInt else ret 0)
     (bind_io (doUnmarshal w) (\<lambda>r. case r of
        None \<Rightarrow> fails IOException
      | Some d \<Rightarrow> if is_command d then ret d else fails ClassCastException)))"

section \<open>Nested objects are sent and received\<close>

lemma boundary_success:
  "marks m v bits \<Longrightarrow> marks (io_boundary m) v bits" "puts m bits ys x \<Longrightarrow> puts (io_boundary m) bits ys x"
  "gets m' bits ys u \<Longrightarrow> gets (io_boundary m') bits ys u"
  unfolding marks_def puts_def gets_def io_boundary_def by fastforce+

lemma boundary_fields:
  "tmark m1 n fs \<Longrightarrow> tmark (io_boundary m1) n fs" "tput m2 fs \<Longrightarrow> tput (io_boundary m2) fs" "tget g fs v \<Longrightarrow> tget (io_boundary g) fs v"
  "lput l fs \<Longrightarrow> lput (io_boundary l) fs" "lget lg fs v \<Longrightarrow> lget (io_boundary lg) fs v"
  by (simp_all add: tmark_def tput_def tget_def lput_def lget_def boundary_success)

lemma null_fields:
  "tmark (next_io (writeBoolean False) (ret 0)) 0 [WBool False]"
  "tput (bind_io readBoolean (\<lambda>present. if present then fails UndefinedBehaviour else ret ())) [WBool False]"
  "lput (out_writeBoolean False) [WBool False]"
  using tmark_bool [OF tmark_ret] tput_if_read [of False _ "[]", OF _ ret_fields(1)] plain_fields by simp_all

lemma null_read:
  "tget (bind_io readBoolean (\<lambda>present. if present then a else ret None)) [WBool False] None"
  "lget (bind_io in_readBoolean (\<lambda>present. if present then a else ret None)) [WBool False] None"
  using tget_if_read [of False _ "[]" _ "ret None", OF _ ret_fields(2)] lget_if_read [of False _ "[]" _ "ret None", OF _ ret_fields(4)]
  by simp_all

lemma null_nested:
  "codec (tightMarshalNestedObject1 n w None) (tightMarshalNestedObject2 n w None) (tightUnmarshalNestedObject n w)
     (looseMarshalNestedObject n w None) (looseUnmarshalNestedObject n w) 0 [WBool False] None"
  unfolding codec_def by (cases n) (simp_all add: null_fields null_read boundary_fields)

lemma positive_type: "getDataStructureType d \<noteq> 0"
  by (cases d rule: getDataStructureType.cases) simp_all

lemma positive_depth: "0 < depth d"
  by (cases d rule: depth.cases) simp_all

abbreviation form_field :: "data_structure \<Rightarrow> field list" where
  "form_field d \<equiv> (if isMarshalAware d then [WTight False] else [])"

lemma aware_type: "aware_type (getDataStructureType d) = isMarshalAware d"
  by (cases d rule: getDataStructureType.cases) (simp_all add: aware_type_def)

lemma form_fields:
  "tmark k1 n fs \<Longrightarrow> tmark (marshal_form1 d k1) n (form_field d @ fs)"
  "tput k2 fs \<Longrightarrow> tput (marshal_form2 d k2) (form_field d @ fs)"
  "tget k3 fs v \<Longrightarrow> tget (unmarshal_form (getDataStructureType d) k3) (form_field d @ fs) v"
  "lput k4 fs \<Longrightarrow> lput k4 (form_field d @ fs)"
  "lget k5 fs v \<Longrightarrow> lget k5 (form_field d @ fs) v"
proof -
  show "tmark (marshal_form1 d k1) n (form_field d @ fs)" if "tmark k1 n fs"
    using that tmark_bool [OF that, of False] by (simp add: marshal_form1_def getMarshaledForm_def tmark_def)
  show "tput (marshal_form2 d k2) (form_field d @ fs)" if "tput k2 fs"
    using that tput_if_read [of False _ fs] by (simp add: marshal_form2_def tput_def)
  show "tget (unmarshal_form (getDataStructureType d) k3) (form_field d @ fs) v" if "tget k3 fs v"
    using that tget_if_read [of False _ fs _ k3] by (simp add: unmarshal_form_def aware_type tget_def)
qed (simp_all add: lput_def lget_def)

lemma object_nested:
  assumes t: "map_of tight_readers (getDataStructureType d) = Some t" and l: "map_of loose_readers (getDataStructureType d) = Some l"
    and "codec (dsm_tightMarshal1 w (tightMarshalNestedObject1 n w) d) (dsm_tightMarshal2 w (tightMarshalNestedObject2 n w) (prepared d))
      (t w (tightUnmarshalNestedObject n w)) (dsm_looseMarshal w (looseMarshalNestedObject n w) d)
      (l w (looseUnmarshalNestedObject n w)) k fs v"
  shows "codec (tightMarshalNestedObject1 (Suc n) w (Some d)) (tightMarshalNestedObject2 (Suc n) w (Some d)) (tightUnmarshalNestedObject (Suc n) w)
      (looseMarshalNestedObject (Suc n) w (Some d)) (looseUnmarshalNestedObject (Suc n) w)
      (1 + k) ([WBool True] @ [WByte (getDataStructureType d)] @ form_field d @ fs) (Some v)"
proof -
  note c = codecD [OF assms(3)]
  have read: "tget (read_object tight_readers w (tightUnmarshalNestedObject n w) (getDataStructureType d)) fs (Some v)"
    "lget (read_object loose_readers w (looseUnmarshalNestedObject n w) (getDataStructureType d)) fs (Some v)"
    unfolding read_object_def t l option.case by (rule get_map c)+
  show ?thesis
    unfolding tightMarshalNestedObject1.simps tightMarshalNestedObject2.simps tightUnmarshalNestedObject.simps
      looseMarshalNestedObject.simps looseUnmarshalNestedObject.simps if_not_P [OF positive_type]
    by (rule codecI, (rule boundary_fields tmark_bool tmark_bind c tmark_ret tput_if_read tput_next plain_fields
        tget_if_read tget_bind read lput_next lget_if_read lget_bind form_fields TrueI | simp only: simp_thms)+) simp_all
qed

lemma nested_at:
  "nested_objects w n (tightMarshalNestedObject1 n w) (tightMarshalNestedObject2 n w) (tightUnmarshalNestedObject n w)
     (looseMarshalNestedObject n w) (looseUnmarshalNestedObject n w)"
proof (induction n)
  case 0
  show ?case
  proof
    fix p
    assume "nested_depth p \<le> 0"
    then have "p = None" using positive_depth [of "the p"] by (cases p) simp_all
    then show "codec (tightMarshalNestedObject1 0 w p) (tightMarshalNestedObject2 0 w p) (tightUnmarshalNestedObject 0 w)
        (looseMarshalNestedObject 0 w p) (looseUnmarshalNestedObject 0 w)
        (size_of (nested_fields w p) + nested_slack w p) (nested_fields w p) (nested_sent w p)"
      using null_nested [of 0 w] by simp
  qed
next
  case (Suc n)
  show ?case
  proof
    fix p
    assume p: "nested_sendable w p" "nested_depth p \<le> Suc n"
    show "codec (tightMarshalNestedObject1 (Suc n) w p) (tightMarshalNestedObject2 (Suc n) w p) (tightUnmarshalNestedObject (Suc n) w)
        (looseMarshalNestedObject (Suc n) w p) (looseUnmarshalNestedObject (Suc n) w)
        (size_of (nested_fields w p) + nested_slack w p) (nested_fields w p) (nested_sent w p)"
    proof (cases p)
      case None
      then show ?thesis using null_nested [of "Suc n" w] by simp
    next
      case (Some d)
      from nested_objects.object_served [OF Suc, of d] p Some
      obtain t l where tl: "map_of tight_readers (getDataStructureType d) = Some t" "map_of loose_readers (getDataStructureType d) = Some l"
        and c: "codec (dsm_tightMarshal1 w (tightMarshalNestedObject1 n w) d) (dsm_tightMarshal2 w (tightMarshalNestedObject2 n w) (prepared d))
          (t w (tightUnmarshalNestedObject n w)) (dsm_looseMarshal w (looseMarshalNestedObject n w) d)
          (l w (looseUnmarshalNestedObject n w)) (size_of (fields w d) + slack w d) (fields w d) (sent w d)"
        by (auto simp: nested_objects.served_def [OF Suc])
      have "1 + (size_of (fields w d) + slack w d) = size_of (nested_fields w p) + nested_slack w p"
        using Some by simp
      with object_nested [OF tl c] show ?thesis by (simp only: Some nested_fields.simps nested_slack.simps nested_sent.simps)
    qed
  qed
qed

interpretation nested: nested_objects w n "tightMarshalNestedObject1 n w" "tightMarshalNestedObject2 n w"
  "tightUnmarshalNestedObject n w" "looseMarshalNestedObject n w" "looseUnmarshalNestedObject n w" for w n
  by (rule nested_at)

section \<open>Frames are sent and received\<close>

lemma within_fields:
  "length (all_tbytes p) \<le> length (all_tbytes (RemoveInfo_fields w x0 p)) \<and> length (all_lbytes p) \<le> length (all_lbytes (RemoveInfo_fields w x0 p))"
  "length (all_tbytes p) \<le> length (all_tbytes (DataResponse_fields w x1 p)) \<and> length (all_lbytes p) \<le> length (all_lbytes (DataResponse_fields w x1 p))"
  "length (all_tbytes p) \<le> length (all_tbytes (MessageDispatch_fields w x2 p)) \<and> length (all_lbytes p) \<le> length (all_lbytes (MessageDispatch_fields w x2 p))"
  "length (all_tbytes p) \<le> length (all_tbytes (BrokerInfo_fields w x3 p)) \<and> length (all_lbytes p) \<le> length (all_lbytes (BrokerInfo_fields w x3 p))"
  "length (all_tbytes p) \<le> length (all_tbytes (DataArrayResponse_fields w x4 p)) \<and> length (all_lbytes p) \<le> length (all_lbytes (DataArrayResponse_fields w x4 p))"
  "length (all_tbytes p) \<le> length (all_tbytes (Message_fields w x5 p)) \<and> length (all_lbytes p) \<le> length (all_lbytes (Message_fields w x5 p))"
  "length (all_tbytes p) \<le> length (all_tbytes (ActiveMQBlobMessage_fields w x6 p)) \<and> length (all_lbytes p) \<le> length (all_lbytes (ActiveMQBlobMessage_fields w x6 p))"
  by (simp_all only: RemoveInfo_fields_def DataResponse_fields_def MessageDispatch_fields_def BrokerInfo_fields_def DataArrayResponse_fields_def
      Message_fields_def ActiveMQBlobMessage_fields_def map_append concat_append length_append) simp_all

lemma within_array:
  "q \<in> set p \<Longrightarrow> length (all_tbytes (f q)) \<le> length (all_tbytes (array_fields f p)) \<and>
    length (all_lbytes (f q)) \<le> length (all_lbytes (array_fields f p))"
  by (auto simp: array_fields_def dest!: split_list)

lemma deep_pointer:
  "nested_depth p \<le> a + 3 \<and> nested_depth p \<le> b + 3 \<Longrightarrow> a \<le> a' \<and> b \<le> b' \<Longrightarrow> nested_depth p \<le> 3 + a' \<and> nested_depth p \<le> 3 + b'"
  by auto

lemma deep_array:
  assumes "\<And>q. q \<in> set p \<Longrightarrow> nested_depth q \<le> length (all_tbytes (nested_fields w q)) + 3 \<and> nested_depth q \<le> length (all_lbytes (nested_fields w q)) + 3"
    and "length (all_tbytes (array_fields (nested_fields w) p)) \<le> a \<and> length (all_lbytes (array_fields (nested_fields w) p)) \<le> b"
  shows "list_all (\<lambda>q. nested_depth q \<le> 3 + a) p \<and> list_all (\<lambda>q. nested_depth q \<le> 3 + b) p"
proof -
  have "nested_depth q \<le> 3 + a \<and> nested_depth q \<le> 3 + b" if "q \<in> set p" for q
    using assms(1) [OF that] assms(2) within_array [OF that, of "nested_fields w"] by linarith
  then show ?thesis by (simp add: list_all_iff)
qed

lemma depth_bytes:
  "depth d \<le> length (all_tbytes (fields w d)) + 4 \<and> depth d \<le> length (all_lbytes (fields w d)) + 4"
  "nested_depth p \<le> length (all_tbytes (nested_fields w p)) + 3 \<and> nested_depth p \<le> length (all_lbytes (nested_fields w p)) + 3"
  by (induction d and p rule: depth_nested_depth.induct)
     (simp_all, (erule deep_pointer, rule within_fields | rule deep_array, blast, rule within_fields)+)

lemma sent_command: "is_command (sent w d) = is_command d"
  by (cases d rule: is_command.cases) simp_all

lemma object_codec:
  assumes "sendable w d"
  obtains t l where "map_of tight_readers (getDataStructureType d) = Some t" "map_of loose_readers (getDataStructureType d) = Some l"
    "\<And>n. depth d \<le> Suc n \<Longrightarrow>
      codec (dsm_tightMarshal1 w (tightMarshalNestedObject1 n w) d) (dsm_tightMarshal2 w (tightMarshalNestedObject2 n w) (prepared d))
        (t w (tightUnmarshalNestedObject n w)) (dsm_looseMarshal w (looseMarshalNestedObject n w) d)
        (l w (looseUnmarshalNestedObject n w)) (size_of (fields w d) + slack w d) (fields w d) (sent w d)"
proof -
  from nested.object_served [OF assms, of "depth d"]
  obtain t l where tl: "map_of tight_readers (getDataStructureType d) = Some t" "map_of loose_readers (getDataStructureType d) = Some l"
    by (auto simp: nested.served_def)
  moreover have "codec (dsm_tightMarshal1 w (tightMarshalNestedObject1 n w) d) (dsm_tightMarshal2 w (tightMarshalNestedObject2 n w) (prepared d))
        (t w (tightUnmarshalNestedObject n w)) (dsm_looseMarshal w (looseMarshalNestedObject n w) d)
        (l w (looseUnmarshalNestedObject n w)) (size_of (fields w d) + slack w d) (fields w d) (sent w d)"
    if "depth d \<le> Suc n" for n
    using nested.object_served [OF assms that] tl by (auto simp: nested.served_def)
  ultimately show thesis by (rule that)
qed

text \<open>The frame of a command, as a function of its fields.\<close>

definition body :: "wire_format \<Rightarrow> data_structure \<Rightarrow> bytes" where
  "body w d = getDataStructureType d #
     (if tightEncodingEnabled w
      then limit_bytes (length (pack (all_bits (fields w d)))) @ pack (all_bits (fields w d)) @ all_tbytes (fields w d)
      else all_lbytes (fields w d))"

definition frame_size :: "wire_format \<Rightarrow> data_structure \<Rightarrow> 32 word" where
  "frame_size w d = of_nat (length (body w d)) + (if tightEncodingEnabled w then slack w d else 0)"

definition size_prefix :: "wire_format \<Rightarrow> 32 word \<Rightarrow> bytes" where
  "size_prefix w n = (if sizePrefixDisabled w then [] else int_bytes n)"

definition frame :: "wire_format \<Rightarrow> data_structure \<Rightarrow> bytes" where
  "frame w d = size_prefix w (frame_size w d) @ body w d"

definition transferable :: "wire_format \<Rightarrow> data_structure \<Rightarrow> bool" where
  "transferable w d \<longleftrightarrow> sendable w d \<and> (tightEncodingEnabled w \<longrightarrow> length (all_bits (fields w d)) \<le> MAX_BITS)"

lemma write_header:
  "next_io (if \<not> sizePrefixDisabled w then writeInt n else ret ()) (next_io (writeByte c) k) s =
   k (emit (size_prefix w n @ [c]) s)"
  by (simp add: size_prefix_def bind_io_def writeInt_def writeByte_def ret_def emit_append)

lemma any_upcoming: "upcoming b []"
  by (simp add: upcoming_def)

lemma puts_plain: "puts m [] ys () \<Longrightarrow> \<exists>b. m s = (Inr (), emit ys (s\<lparr>bools := b\<rparr>))"
  unfolding puts_def using any_upcoming by fastforce

lemma second_phase:
  assumes m: "puts m bits ys ()" and few: "length bits \<le> MAX_BITS" and b: "wrote (bools s) bits"
  shows "\<exists>b. next_io bs_marshal m s = (Inr (), emit (limit_bytes (length (pack bits)) @ pack bits @ ys) (s\<lparr>bools := b\<rparr>))"
proof -
  let ?t = "emit (limit_bytes (length (pack bits)) @ pack bits) (s\<lparr>bools := clear_positions (bools s)\<rparr>)"
  obtain b where "m ?t = (Inr (), emit ys (?t\<lparr>bools := b\<rparr>))"
    using m [unfolded puts_def, rule_format, of ?t "[]"] wrote_upcoming [OF b few] by auto
  moreover have "emit ys (?t\<lparr>bools := b\<rparr>) = emit (limit_bytes (length (pack bits)) @ pack bits @ ys) (s\<lparr>bools := b\<rparr>)"
    by (simp add: emit_def)
  ultimately show ?thesis by (auto simp: bind_io_def bs_marshal_pack [OF b few])
qed

lemma tight_frame_puts:
  assumes ok: "sendable w d" and few: "length (all_bits (fields w d)) \<le> MAX_BITS" and tight: "tightEncodingEnabled w"
  shows "puts (tight_frame w d) [] (frame w d) ()"
  unfolding puts_def
proof (intro allI impI)
  fix s :: streams and more
  assume more: "upcoming (bools s) ([] @ more)"
  obtain t l where "codec (dsm_tightMarshal1 w (tightMarshalNestedObject1 (depth d) w) d) (dsm_tightMarshal2 w (tightMarshalNestedObject2 (depth d) w) (prepared d))
        (t w (tightUnmarshalNestedObject (depth d) w)) (dsm_looseMarshal w (looseMarshalNestedObject (depth d) w) d)
        (l w (looseUnmarshalNestedObject (depth d) w)) (size_of (fields w d) + slack w d) (fields w d) (sent w d)"
    using object_codec [OF ok] by (metis le_Suc_eq order_refl)
  note c = codecD(1,2) [OF this, unfolded tmark_def tput_def]
  obtain b where b: "dsm_tightMarshal1 w (tightMarshalNestedObject1 (depth d) w) d (s\<lparr>bools := new_BooleanStream\<rparr>) =
      (Inr (size_of (fields w d) + slack w d), s\<lparr>bools := b\<rparr>)" "wrote b (all_bits (fields w d))"
    using c(1) [unfolded marks_def, rule_format, of "s\<lparr>bools := new_BooleanStream\<rparr>" "[]"] new_stream_wrote few by auto
  have size: "1 + (size_of (fields w d) + slack w d) + marshalledSize b = frame_size w d"
    using bs_marshal_pack(2) [of "s\<lparr>bools := b\<rparr>"] b(2) few tight by (simp add: frame_size_def body_def)
  let ?t = "emit (size_prefix w (frame_size w d) @ [getDataStructureType d]) (s\<lparr>bools := b\<rparr>)"
  obtain b' where "next_io bs_marshal (dsm_tightMarshal2 w (tightMarshalNestedObject2 (depth d) w) (prepared d)) ?t = (Inr (), emit (frame w d) (s\<lparr>bools := b'\<rparr>))"
    using second_phase [OF c(2) few, of ?t] b(2) tight by (auto simp: frame_def body_def emit_def add.assoc)
  then have "tight_frame w d s = (Inr (), (emit (frame w d) (s\<lparr>bools := b'\<rparr>))\<lparr>bools := bools s\<rparr>)"
    unfolding tight_frame_def with_stream_def bind_io_def [of "dsm_tightMarshal1 w _ d"] by (simp add: b(1) Let_def size write_header)
  moreover have "(emit (frame w d) (s\<lparr>bools := b'\<rparr>))\<lparr>bools := bools s\<rparr> = emit (frame w d) (s\<lparr>bools := bools s\<rparr>)"
    by (simp add: emit_def)
  ultimately show "\<exists>b. tight_frame w d s = (Inr (), emit (frame w d) (s\<lparr>bools := b\<rparr>)) \<and> upcoming b more"
    using more by auto
qed

lemma loose_frame_puts:
  assumes ok: "sendable w d" and loose: "\<not> tightEncodingEnabled w"
  shows "puts (loose_frame w d) [] (frame w d) ()"
proof -
  let ?m = "next_io (writeByte (getDataStructureType d)) (dsm_looseMarshal w (looseMarshalNestedObject (depth d) w) d)"
  obtain t l where "codec (dsm_tightMarshal1 w (tightMarshalNestedObject1 (depth d) w) d) (dsm_tightMarshal2 w (tightMarshalNestedObject2 (depth d) w) (prepared d))
        (t w (tightUnmarshalNestedObject (depth d) w)) (dsm_looseMarshal w (looseMarshalNestedObject (depth d) w) d)
        (l w (looseUnmarshalNestedObject (depth d) w)) (size_of (fields w d) + slack w d) (fields w d) (sent w d)"
    using object_codec [OF ok] by (metis le_Suc_eq order_refl)
  from puts_next [OF puts_numbers(1) codecD(4) [OF this, unfolded lput_def]]
  have m: "puts ?m [] (body w d) ()" using loose by (simp add: body_def)
  note array = to_array_puts [OF m]
  let ?k = "\<lambda>array. next_io (writeInt (of_nat (length array)))
        (if length array > 0 then write_array array 0 (int (length array)) else ret ())"
  have "length (body w d) > 0" by (simp add: body_def)
  then have "puts (?k (body w d)) [] (int_bytes (frame_size w d) @ body w d) ()"
    using puts_next [OF puts_numbers(5) puts_array, of "frame_size w d" "body w d"] loose by (simp add: frame_size_def)
  with m show ?thesis
    by (cases "sizePrefixDisabled w") (simp_all only: loose_frame_def frame_def size_prefix_def Let_def if_True if_False append_Nil array bind_ret)
qed

lemma readers_get:
  assumes ok: "sendable w d" and n: "depth d \<le> Suc n"
  shows "tget (read_object tight_readers w (tightUnmarshalNestedObject n w) (getDataStructureType d)) (fields w d) (Some (sent w d))"
    and "lget (read_object loose_readers w (looseUnmarshalNestedObject n w) (getDataStructureType d)) (fields w d) (Some (sent w d))"
proof -
  obtain t l where tl: "map_of tight_readers (getDataStructureType d) = Some t" "map_of loose_readers (getDataStructureType d) = Some l"
    and "codec (dsm_tightMarshal1 w (tightMarshalNestedObject1 n w) d) (dsm_tightMarshal2 w (tightMarshalNestedObject2 n w) (prepared d))
        (t w (tightUnmarshalNestedObject n w)) (dsm_looseMarshal w (looseMarshalNestedObject n w) d)
        (l w (looseUnmarshalNestedObject n w)) (size_of (fields w d) + slack w d) (fields w d) (sent w d)"
    using object_codec [OF ok] n by metis
  from codecD [OF this(3)]
  show "tget (read_object tight_readers w (tightUnmarshalNestedObject n w) (getDataStructureType d)) (fields w d) (Some (sent w d))"
    "lget (read_object loose_readers w (looseUnmarshalNestedObject n w) (getDataStructureType d)) (fields w d) (Some (sent w d))"
    by (simp_all add: read_object_def tl get_map)
qed

lemma tight_body_gets:
  assumes ok: "sendable w d" and few: "length (all_bits (fields w d)) \<le> MAX_BITS"
  shows "gets (with_stream (next_io bs_unmarshal (\<lambda>s.
      read_object tight_readers w (tightUnmarshalNestedObject (read_depth s) w) (getDataStructureType d) s))) []
    (limit_bytes (length (pack (all_bits (fields w d)))) @ pack (all_bits (fields w d)) @ all_tbytes (fields w d)) (Some (sent w d))"
  unfolding gets_def
proof (intro allI impI)
  fix s :: streams and more rest
  assume more: "upcoming (bools s) ([] @ more)"
    and src: "concat (dataIn s) = (limit_bytes (length (pack (all_bits (fields w d)))) @ pack (all_bits (fields w d)) @ all_tbytes (fields w d)) @ rest"
  obtain b src1 where one: "bs_unmarshal (s\<lparr>bools := new_BooleanStream\<rparr>) = (Inr (), s\<lparr>bools := b, dataIn := src1\<rparr>)"
      "upcoming b (all_bits (fields w d))" "concat src1 = all_tbytes (fields w d) @ rest"
    using bs_unmarshal_packs [OF packs_pack few, of "s\<lparr>bools := new_BooleanStream\<rparr>" "all_tbytes (fields w d) @ rest"] src by auto
  have "depth d \<le> Suc (read_depth (s\<lparr>bools := b, dataIn := src1\<rparr>))"
    using conjunct1 [OF depth_bytes(1) [of d w]] one(3) by (simp add: read_depth_def input_left_def)
  from readers_get(1) [OF ok this, unfolded tget_def gets_def, rule_format, of "s\<lparr>bools := b, dataIn := src1\<rparr>" "[]" rest] one
  obtain b2 src2 where "read_object tight_readers w (tightUnmarshalNestedObject (read_depth (s\<lparr>bools := b, dataIn := src1\<rparr>)) w)
      (getDataStructureType d) (s\<lparr>bools := b, dataIn := src1\<rparr>) = (Inr (Some (sent w d)), s\<lparr>bools := b2, dataIn := src2\<rparr>)" "concat src2 = rest"
    by auto
  with one(1) more show "\<exists>b src. with_stream (next_io bs_unmarshal (\<lambda>s.
      read_object tight_readers w (tightUnmarshalNestedObject (read_depth s) w) (getDataStructureType d) s)) s =
    (Inr (Some (sent w d)), s\<lparr>bools := b, dataIn := src\<rparr>) \<and> upcoming b more \<and> concat src = rest"
    by (intro exI [of _ "bools s"] exI [of _ src2]) (simp add: with_stream_def bind_io_def)
qed

lemma loose_body_gets:
  assumes ok: "sendable w d"
  shows "gets (\<lambda>s. read_object loose_readers w (looseUnmarshalNestedObject (read_depth s) w) (getDataStructureType d) s) []
    (all_lbytes (fields w d)) (Some (sent w d))"
  unfolding gets_def
proof (intro allI impI)
  fix s :: streams and more rest
  assume more: "upcoming (bools s) ([] @ more)" and src: "concat (dataIn s) = all_lbytes (fields w d) @ rest"
  have "depth d \<le> Suc (read_depth s)"
    using conjunct2 [OF depth_bytes(1) [of d w]] src by (simp add: read_depth_def input_left_def)
  from readers_get(2) [OF ok this, unfolded lget_def gets_def, rule_format, OF more src]
  show "\<exists>b src. read_object loose_readers w (looseUnmarshalNestedObject (read_depth s) w) (getDataStructureType d) s =
    (Inr (Some (sent w d)), s\<lparr>bools := b, dataIn := src\<rparr>) \<and> upcoming b more \<and> concat src = rest" .
qed

lemma marshal_puts: "transferable w d \<Longrightarrow> puts (OpenWireFormat_marshal w (Some d)) [] (frame w d) ()"
  using tight_frame_puts loose_frame_puts by (simp add: OpenWireFormat_marshal_def transferable_def boundary_success)

lemma doUnmarshal_gets: "transferable w d \<Longrightarrow> gets (doUnmarshal w) [] (body w d) (Some (sent w d))"
proof -
  assume ok: "transferable w d"
  then obtain t where reader: "map_of tight_readers (getDataStructureType d) = Some t"
    by (auto simp: transferable_def elim: object_codec)
  let ?k = "\<lambda>dataType. if dataType \<noteq> NULL_TYPE then
       (if tightEncodingEnabled w then
          (if map_of tight_readers dataType = None then fails IOException
           else with_stream (next_io bs_unmarshal (\<lambda>s.
             read_object tight_readers w (tightUnmarshalNestedObject (read_depth s) w) dataType s)))
        else (\<lambda>s. read_object loose_readers w (looseUnmarshalNestedObject (read_depth s) w) dataType s))
     else ret None"
  have "gets (?k (getDataStructureType d)) [] (tl (body w d)) (Some (sent w d))"
    using ok reader positive_type [of d] tight_body_gets [of w d] loose_body_gets [of w d]
    by (simp add: transferable_def NULL_TYPE_def body_def)
  from gets_bind [where k = ?k, OF gets_numbers(1) this] show ?thesis
    unfolding doUnmarshal_def by (intro boundary_success) (simp add: body_def)
qed

lemma unmarshal_gets:
  assumes "transferable w d" "is_command d"
  shows "gets (OpenWireFormat_unmarshal w) [] (frame w d) (sent w d)"
proof -
  let ?k = "\<lambda>r. case r of None \<Rightarrow> fails IOException | Some d \<Rightarrow> if is_command d then ret d else fails ClassCastException"
  have "gets (?k (Some (sent w d))) [] [] (sent w d)"
    using assms(2) gets_ret by (simp add: sent_command)
  from gets_bind [where k = ?k, OF doUnmarshal_gets [OF assms(1)] this]
  have read: "gets (bind_io (doUnmarshal w) ?k) [] (body w d) (sent w d)" by simp
  show ?thesis
  proof (cases "sizePrefixDisabled w")
    case True
    with gets_bind [OF gets_ret [of 0] read] show ?thesis
      unfolding OpenWireFormat_unmarshal_def by (intro boundary_success) (simp add: frame_def size_prefix_def)
  next
    case False
    with gets_bind [OF gets_numbers(5) read, of "frame_size w d"] show ?thesis
      unfolding OpenWireFormat_unmarshal_def by (intro boundary_success) (simp add: frame_def size_prefix_def)
  qed
qed

lemma commands_put:
  "\<forall>d \<in> set ds. transferable w d \<Longrightarrow>
   puts (each_io (\<lambda>d. OpenWireFormat_marshal w (Some d)) ds) [] (concat (map (frame w) ds)) ()"
proof (induction ds)
  case (Cons d ds)
  then show ?case using puts_next [OF marshal_puts [of w d]] by fastforce
qed (simp add: puts_ret)

lemma commands_get:
  "\<forall>d \<in> set ds. transferable w d \<and> is_command d \<Longrightarrow>
   gets (times_io (length ds) (OpenWireFormat_unmarshal w)) [] (concat (map (frame w) ds)) (map (sent w) ds)"
proof (induction ds)
  case (Cons d ds)
  then have "gets (bind_io (times_io (length ds) (OpenWireFormat_unmarshal w)) (\<lambda>xs. ret (sent w d # xs))) []
      (concat (map (frame w) ds)) (sent w d # map (sent w) ds)"
    by (intro gets_map [where f = "\<lambda>xs. sent w d # xs"]) simp_all
  from gets_bind [where k = "\<lambda>x. bind_io (times_io (length ds) (OpenWireFormat_unmarshal w)) (\<lambda>xs. ret (x # xs))",
      OF unmarshal_gets this] Cons.prems show ?case by simp
qed (simp add: gets_ret)

text \<open>
  C1. Commands survive the way over the wire. With any settings (version, encoding, size prefix, stack traces), sending
  commands within the limits of the format writes the prescribed frames, and reading as many from these
  bytes, however chunked and followed, gives in order what \<open>sent\<close> says and leaves the rest.
  Limits: ASCII strings up to 32767 bytes, others up to 65535 in UTF-8, arrays and traces up to 32767 elements,
  byte fields below 2^31, a magic of 8 bytes, no null property, MAX_BITS booleans if tight.
  \<open>sent\<close> keeps the command but for: fields the version lacks, which get their default; the trace and cause of an error without
  stack traces; the options and advisory flag of a destination, recomputed from the name; empty string properties, which turn
  null; the properties of a blob message, lost; text and map bodies, which arrive as content; in a \<open>WireFormatInfo\<close> all
  but magic, version, properties.
\<close>

theorem commands_roundtrip:
  assumes "\<forall>d \<in> set ds. is_command d \<and> transferable w d"
  shows "\<exists>t. each_io (\<lambda>d. OpenWireFormat_marshal w (Some d)) ds s = (Inr (), t) \<and>
    dataOut t = dataOut s @ concat (map (frame w) ds) \<and>
    (\<forall>r rest. concat (dataIn r) = concat (map (frame w) ds) @ rest \<longrightarrow>
      (\<exists>r'. times_io (length ds) (OpenWireFormat_unmarshal w) r = (Inr (map (sent w) ds), r') \<and> concat (dataIn r') = rest))"
proof -
  obtain b where "each_io (\<lambda>d. OpenWireFormat_marshal w (Some d)) ds s = (Inr (), emit (concat (map (frame w) ds)) (s\<lparr>bools := b\<rparr>))"
    using puts_plain [OF commands_put] assms by metis
  moreover have "\<exists>r'. times_io (length ds) (OpenWireFormat_unmarshal w) r = (Inr (map (sent w) ds), r') \<and> concat (dataIn r') = rest"
    if "concat (dataIn r) = concat (map (frame w) ds) @ rest" for r rest
    using commands_get [of ds w, unfolded gets_def, rule_format, of r "[]" rest] assms that by (auto simp: any_upcoming)
  ultimately show ?thesis by (auto simp: emit_def)
qed

definition sample_format :: wire_format where
  "sample_format = \<lparr>version = 11, stackTraceEnabled = True, tcpNoDelayEnabled = True, cacheEnabled = False,
     tightEncodingEnabled = True, sizePrefixDisabled = False, cacheSize = 1024,
     maxInactivityDuration = 30000, maxInactivityDurationInitialDelay = 10000\<rparr>"

definition sample_producer :: ProducerId where
  "sample_producer = \<lparr>ProducerId_connectionId = [0x49, 0x44], ProducerId_value = 1, ProducerId_sessionId = 1\<rparr>"

definition sample_ack :: MessageAck where
  "sample_ack = create_MessageAck\<lparr>BaseCommand_commandId := 7,
     MessageAck_destination := Some (ActiveMQQueue \<lparr>ActiveMQDestination_physicalName = [0x51, 0x31], ActiveMQDestination_advisory = False\<rparr>),
     MessageAck_ackType := 2, MessageAck_messageCount := 1,
     MessageAck_lastMessageId := Some (create_MessageId\<lparr>MessageId_producerId := Some sample_producer, MessageId_producerSequenceId := 70000\<rparr>)\<rparr>"

definition sample_message :: ActiveMQTextMessage where
  "sample_message = create_ActiveMQTextMessage\<lparr>BaseCommand_commandId := 8, Message_producerId := Some sample_producer,
     Message_properties := [([0x61], PInt 7)], ActiveMQTextMessage_text := Some [0x68, 0x69]\<rparr>"

definition sample_commands :: "data_structure list" where
  "sample_commands = [DMessageAck sample_ack, DKeepAliveInfo create_BaseCommand, DRemoveInfo create_RemoveInfo (Some (DProducerId sample_producer)),
     DMessageDispatch create_MessageDispatch (Some (DActiveMQTextMessage sample_message None))]"

lemma sample_transferable: "\<forall>d \<in> set sample_commands. is_command d \<and> transferable sample_format d"
  by (simp add: sample_commands_def sample_ack_def sample_producer_def sample_format_def transferable_def MAX_BITS_def
      create_MessageAck_def create_MessageId_def create_BaseCommand_def create_RemoveInfo_def
      MessageAck_ok_def MessageId_ok_def ProducerId_ok_def Destination_ok_def error_fits_def ascii_def
      MessageAck_fields_def MessageId_fields_def ProducerId_fields_def Destination_fields_def BaseCommand_fields_def RemoveInfo_fields_def
      KeepAliveInfo_fields_def pointer_def long_class_def sample_message_def create_MessageDispatch_def create_ActiveMQTextMessage_def
      MessageDispatch_ok_def ActiveMQTextMessage_ok_def message_ok_def Message_ok_def ActiveMQTextMessage_form_def Message_form_def
      map_ok_def properties_bytes_def map_bytes_def entry_bytes_def sized_field_def utf_field_def body_bytes_def
      MessageDispatch_fields_def Message_fields_def array_fields_def utf_char_def Let_def int_bytes_def short_bytes_def)

theorem commands_roundtrip_witness:
  "\<exists>t. each_io (\<lambda>d. OpenWireFormat_marshal sample_format (Some d)) sample_commands (idle []) = (Inr (), t) \<and>
    dataOut t = dataOut (idle []) @ concat (map (frame sample_format) sample_commands) \<and>
    (\<forall>r rest. concat (dataIn r) = concat (map (frame sample_format) sample_commands) @ rest \<longrightarrow>
      (\<exists>r'. times_io (length sample_commands) (OpenWireFormat_unmarshal sample_format) r =
        (Inr (map (sent sample_format) sample_commands), r') \<and> concat (dataIn r') = rest))"
  by (rule commands_roundtrip [OF sample_transferable])

end
