(* ===== verification/StateTracker.thy ===== *)
theory StateTracker
  imports StlMap StringUtils WireCommands LongText "HOL-Library.AList"
begin

text \<open>
  \<open>activemq/state\<close>: what the failover transport remembers of the commands it sends, to repeat
  it to the next broker. \<open>ConnectionStateTracker\<close> visits each command and keeps the open
  connections with their temporary destinations, sessions, producers, consumers and transactions, the last
  messages, and the last requests for messages; \<open>restore\<close> sends it all to a new transport.
\<close>

text \<open>
  The maps are ordered by the \<open>compareTo\<close> of the identities. A comparison that is undefined or
  would dereference null counts as not less here; the theorems have keys where neither occurs. The objects
  of a map are reached through it only and are values, except for the transactions: a producer points to
  the transaction it has sent a message in, which may have left its map. Transactions therefore live in
  \<open>transactionHeap\<close>, at the position that the pointers have. A copy made with
  \<open>cloneDataStructure\<close> is the same value. The sizes of the caches are signed 32-bit numbers.
\<close>

section \<open>Identities\<close>

definition long_order :: "64 word \<Rightarrow> 64 word \<Rightarrow> int" where
  "long_order a b = (if sint a > sint b then 1 else if sint a < sint b then - 1 else 0)"

definition compare_then :: "int option \<Rightarrow> int option \<Rightarrow> int option" where
  "compare_then r s = (case r of None \<Rightarrow> None | Some c \<Rightarrow> if c \<noteq> 0 then Some c else s)"

definition negative :: "int option \<Rightarrow> bool" where
  "negative r = (case r of Some c \<Rightarrow> c < 0 | None \<Rightarrow> False)"

definition ConnectionId_compareTo :: "ConnectionId \<Rightarrow> ConnectionId \<Rightarrow> int option" where
  "ConnectionId_compareTo a b = compare_then (compareIgnoreCase (ConnectionId_value a) (ConnectionId_value b)) (Some 0)"

definition SessionId_compareTo :: "SessionId \<Rightarrow> SessionId \<Rightarrow> int option" where
  "SessionId_compareTo a b = compare_then (compareIgnoreCase (SessionId_connectionId a) (SessionId_connectionId b))
     (Some (long_order (SessionId_value a) (SessionId_value b)))"

definition ConsumerId_compareTo :: "ConsumerId \<Rightarrow> ConsumerId \<Rightarrow> int option" where
  "ConsumerId_compareTo a b = compare_then (compareIgnoreCase (ConsumerId_connectionId a) (ConsumerId_connectionId b))
     (compare_then (Some (long_order (ConsumerId_sessionId a) (ConsumerId_sessionId b)))
       (Some (long_order (ConsumerId_value a) (ConsumerId_value b))))"

definition ProducerId_compareTo :: "ProducerId \<Rightarrow> ProducerId \<Rightarrow> int option" where
  "ProducerId_compareTo a b = compare_then (compareIgnoreCase (ProducerId_connectionId a) (ProducerId_connectionId b))
     (compare_then (Some (long_order (ProducerId_value a) (ProducerId_value b)))
       (Some (long_order (ProducerId_sessionId a) (ProducerId_sessionId b))))"

definition LocalTransactionId_compareTo :: "LocalTransactionId \<Rightarrow> LocalTransactionId \<Rightarrow> int option" where
  "LocalTransactionId_compareTo a b =
     compare_then (Some (long_order (LocalTransactionId_value a) (LocalTransactionId_value b)))
       (case (LocalTransactionId_connectionId a, LocalTransactionId_connectionId b) of
          (Some c, Some d) \<Rightarrow> compare_then (ConnectionId_compareTo c d) (Some 0)
        | _ \<Rightarrow> None)"

definition ConnectionId_lt :: "ConnectionId \<Rightarrow> ConnectionId \<Rightarrow> bool" where
  "ConnectionId_lt a b = negative (ConnectionId_compareTo a b)"

definition SessionId_lt :: "SessionId \<Rightarrow> SessionId \<Rightarrow> bool" where
  "SessionId_lt a b = negative (SessionId_compareTo a b)"

definition ConsumerId_lt :: "ConsumerId \<Rightarrow> ConsumerId \<Rightarrow> bool" where
  "ConsumerId_lt a b = negative (ConsumerId_compareTo a b)"

definition ProducerId_lt :: "ProducerId \<Rightarrow> ProducerId \<Rightarrow> bool" where
  "ProducerId_lt a b = negative (ProducerId_compareTo a b)"

definition LocalTransactionId_lt :: "LocalTransactionId \<Rightarrow> LocalTransactionId \<Rightarrow> bool" where
  "LocalTransactionId_lt a b = negative (LocalTransactionId_compareTo a b)"

definition SessionId_getParentId :: "SessionId \<Rightarrow> ConnectionId" where
  "SessionId_getParentId s = \<lparr>ConnectionId_value = SessionId_connectionId s\<rparr>"

definition ConsumerId_getParentId :: "ConsumerId \<Rightarrow> SessionId" where
  "ConsumerId_getParentId c =
     \<lparr>SessionId_connectionId = ConsumerId_connectionId c, SessionId_value = ConsumerId_sessionId c\<rparr>"

definition ProducerId_getParentId :: "ProducerId \<Rightarrow> SessionId" where
  "ProducerId_getParentId p =
     \<lparr>SessionId_connectionId = ProducerId_connectionId p, SessionId_value = ProducerId_sessionId p\<rparr>"

definition long_text :: "64 word \<Rightarrow> bytes" where
  "long_text x = bytes_of (Long_toString (sint x))"

definition ConsumerId_toString :: "ConsumerId \<Rightarrow> bytes" where
  "ConsumerId_toString c = ConsumerId_connectionId c @ bytes_of '':'' @ long_text (ConsumerId_sessionId c) @
     bytes_of '':'' @ long_text (ConsumerId_value c)"

fun destination_base :: "wire_destination \<Rightarrow> ActiveMQDestination" where
  "destination_base (ActiveMQQueue x) = x"
| "destination_base (ActiveMQTopic x) = x"
| "destination_base (ActiveMQTempQueue x) = x"
| "destination_base (ActiveMQTempTopic x) = x"

fun Destination_isTemporary :: "wire_destination \<Rightarrow> bool" where
  "Destination_isTemporary (ActiveMQTempQueue x) = True"
| "Destination_isTemporary (ActiveMQTempTopic x) = True"
| "Destination_isTemporary _ = False"

fun Destination_toString :: "wire_destination \<Rightarrow> bytes" where
  "Destination_toString (ActiveMQTopic x) = bytes_of ''topic://'' @ ActiveMQDestination_physicalName x"
| "Destination_toString (ActiveMQTempTopic x) = bytes_of ''temp-topic://'' @ ActiveMQDestination_physicalName x"
| "Destination_toString (ActiveMQTempQueue x) = bytes_of ''temp-queue://'' @ ActiveMQDestination_physicalName x"
| "Destination_toString (ActiveMQQueue x) = bytes_of ''queue://'' @ ActiveMQDestination_physicalName x"

definition Destination_equals :: "wire_destination \<Rightarrow> wire_destination \<Rightarrow> bool" where
  "Destination_equals a b = (ActiveMQDestination_physicalName (destination_base a) =
     ActiveMQDestination_physicalName (destination_base b))"

text \<open>The cast of a transaction's identity, which fails for a null pointer and for a distributed transaction.\<close>

fun as_LocalTransactionId :: "TransactionId option \<Rightarrow> LocalTransactionId result" where
  "as_LocalTransactionId (Some (Local x)) = Inr x"
| "as_LocalTransactionId _ = Inl ClassCastException"

definition dereference :: "'a option \<Rightarrow> 'a result" where
  "dereference p = of_option NullPointerException p"

section \<open>States\<close>

record ProducerState =
  ProducerState_info :: ProducerInfo
  ProducerState_transactionState :: "nat option"

record ConsumerState =
  ConsumerState_info :: ConsumerInfo

record SessionState =
  SessionState_info :: SessionInfo
  SessionState_producers :: "(ProducerId, ProducerState) stl_map"
  SessionState_consumers :: "(ConsumerId, ConsumerState) stl_map"
  SessionState_disposed :: bool

record TransactionState =
  TransactionState_commands :: "data_structure list"
  TransactionState_id :: "TransactionId option"
  TransactionState_disposed :: bool
  TransactionState_prepared :: bool
  TransactionState_preparedResult :: "32 word"
  TransactionState_producers :: "(ProducerId, ProducerState) stl_map"

record ConnectionState =
  ConnectionState_info :: ConnectionInfo
  ConnectionState_transactions :: "(LocalTransactionId, nat) stl_map"
  ConnectionState_sessions :: "(SessionId, SessionState) stl_map"
  ConnectionState_tempDestinations :: "DestinationInfo list"
  ConnectionState_disposed :: bool
  ConnectionState_connectionInterruptProcessingComplete :: bool
  ConnectionState_recoveringPullConsumers :: "(ConsumerId, ConsumerInfo) stl_map"

record StateTracker =
  trackTransactions :: bool
  restoreSessions :: bool
  restoreConsumers :: bool
  restoreProducers :: bool
  restoreTransaction :: bool
  trackMessages :: bool
  trackTransactionProducers :: bool
  maxMessageCacheSize :: int
  maxMessagePullCacheSize :: int
  connectionStates :: "(ConnectionId, ConnectionState) stl_map"
  transactionHeap :: "TransactionState list"
  messageCache :: "(nat \<times> data_structure) list"
  currentCacheSize :: "32 word"
  messagePullCache :: "(bytes \<times> data_structure) list"

definition new_ConnectionStateTracker :: StateTracker where
  "new_ConnectionStateTracker = \<lparr>trackTransactions = False, restoreSessions = True, restoreConsumers = True,
     restoreProducers = True, restoreTransaction = True, trackMessages = True, trackTransactionProducers = True,
     maxMessageCacheSize = 128 * 1024, maxMessagePullCacheSize = 10, connectionStates = [], transactionHeap = [],
     messageCache = [], currentCacheSize = 0, messagePullCache = []\<rparr>"

subsection \<open>Sessions\<close>

definition new_SessionState :: "SessionInfo \<Rightarrow> SessionState" where
  "new_SessionState info = \<lparr>SessionState_info = info, SessionState_producers = [], SessionState_consumers = [],
     SessionState_disposed = False\<rparr>"

definition SessionState_shutdown :: "SessionState \<Rightarrow> SessionState" where
  "SessionState_shutdown ss = ss\<lparr>SessionState_disposed := True, SessionState_producers := cm_clear (SessionState_producers ss),
     SessionState_consumers := cm_clear (SessionState_consumers ss)\<rparr>"

definition SessionState_checkShutdown :: "SessionState \<Rightarrow> unit result" where
  "SessionState_checkShutdown ss = guard_result (\<not> SessionState_disposed ss) IllegalStateException (Inr ())"

definition addProducer :: "ProducerInfo \<Rightarrow> SessionState \<Rightarrow> SessionState result" where
  "addProducer info ss = bind_result (SessionState_checkShutdown ss) (\<lambda>_.
     bind_result (dereference (ProducerInfo_producerId info)) (\<lambda>ident.
     Inr (ss\<lparr>SessionState_producers := snd (cm_put ProducerId_lt ident
       \<lparr>ProducerState_info = info, ProducerState_transactionState = None\<rparr> (SessionState_producers ss))\<rparr>)))"

definition addConsumer :: "ConsumerInfo \<Rightarrow> SessionState \<Rightarrow> SessionState result" where
  "addConsumer info ss = bind_result (SessionState_checkShutdown ss) (\<lambda>_.
     bind_result (dereference (ConsumerInfo_consumerId info)) (\<lambda>ident.
     Inr (ss\<lparr>SessionState_consumers := snd (cm_put ConsumerId_lt ident \<lparr>ConsumerState_info = info\<rparr>
       (SessionState_consumers ss))\<rparr>)))"

definition SessionState_removeConsumer :: "ConsumerId \<Rightarrow> SessionState \<Rightarrow> ConsumerState option \<times> SessionState" where
  "SessionState_removeConsumer ident ss = (case cm_remove ConsumerId_lt ident (SessionState_consumers ss) of
     (state, m) \<Rightarrow> (state, ss\<lparr>SessionState_consumers := m\<rparr>))"

subsection \<open>Transactions\<close>

definition new_TransactionState :: "TransactionId option \<Rightarrow> TransactionState" where
  "new_TransactionState ident = \<lparr>TransactionState_commands = [], TransactionState_id = ident, TransactionState_disposed = False,
     TransactionState_prepared = False, TransactionState_preparedResult = 0, TransactionState_producers = []\<rparr>"

definition TransactionState_clear :: "TransactionState \<Rightarrow> TransactionState" where
  "TransactionState_clear ts = ts\<lparr>TransactionState_commands := [],
     TransactionState_producers := cm_clear (TransactionState_producers ts)\<rparr>"

definition TransactionState_shutdown :: "TransactionState \<Rightarrow> TransactionState" where
  "TransactionState_shutdown ts = TransactionState_clear (ts\<lparr>TransactionState_disposed := True\<rparr>)"

definition TransactionState_checkShutdown :: "TransactionState \<Rightarrow> unit result" where
  "TransactionState_checkShutdown ts = guard_result (\<not> TransactionState_disposed ts) IllegalStateException (Inr ())"

definition addCommand :: "data_structure \<Rightarrow> TransactionState \<Rightarrow> TransactionState result" where
  "addCommand operation ts = bind_result (TransactionState_checkShutdown ts) (\<lambda>_.
     Inr (ts\<lparr>TransactionState_commands := TransactionState_commands ts @ [operation]\<rparr>))"

definition addProducerState :: "ProducerState \<Rightarrow> TransactionState \<Rightarrow> TransactionState result" where
  "addProducerState ps ts = bind_result (dereference (ProducerInfo_producerId (ProducerState_info ps))) (\<lambda>ident.
     Inr (ts\<lparr>TransactionState_producers := snd (cm_put ProducerId_lt ident
       ps (TransactionState_producers ts))\<rparr>))"

text \<open>The producer is handed to the transaction that it points to.\<close>

definition SessionState_removeProducer :: "ProducerId \<Rightarrow> SessionState \<Rightarrow> TransactionState list \<Rightarrow>
    (SessionState \<times> TransactionState list) result" where
  "SessionState_removeProducer ident ss heap = (case cm_remove ProducerId_lt ident (SessionState_producers ss) of
     (None, m) \<Rightarrow> Inr (ss\<lparr>SessionState_producers := m\<rparr>, heap)
   | (Some ps, m) \<Rightarrow>
       (case ProducerState_transactionState ps of
          None \<Rightarrow> Inr (ss\<lparr>SessionState_producers := m\<rparr>, heap)
        | Some a \<Rightarrow> bind_result (addProducerState (ps\<lparr>ProducerState_transactionState := None\<rparr>) (heap ! a)) (\<lambda>ts.
            Inr (ss\<lparr>SessionState_producers := m\<rparr>, heap[a := ts]))))"

subsection \<open>Connections\<close>

definition ConnectionState_checkShutdown :: "ConnectionState \<Rightarrow> unit result" where
  "ConnectionState_checkShutdown cs = guard_result (\<not> ConnectionState_disposed cs) IllegalStateException (Inr ())"

definition addSession :: "SessionInfo \<Rightarrow> ConnectionState \<Rightarrow> ConnectionState result" where
  "addSession info cs = bind_result (ConnectionState_checkShutdown cs) (\<lambda>_.
     bind_result (dereference (SessionInfo_sessionId info)) (\<lambda>ident.
     Inr (cs\<lparr>ConnectionState_sessions := snd (cm_put SessionId_lt ident (new_SessionState info) (ConnectionState_sessions cs))\<rparr>)))"

text \<open>The constructor adds the default session. The identity of the connection is read through a plain pointer.\<close>

definition new_ConnectionState :: "ConnectionInfo \<Rightarrow> ConnectionState result" where
  "new_ConnectionState info = bind_result (of_option UndefinedBehaviour (ConnectionInfo_connectionId info)) (\<lambda>ident.
     addSession (create_SessionInfo\<lparr>SessionInfo_sessionId :=
         Some \<lparr>SessionId_connectionId = ConnectionId_value ident, SessionId_value = - 1\<rparr>\<rparr>)
       \<lparr>ConnectionState_info = info, ConnectionState_transactions = [], ConnectionState_sessions = [],
        ConnectionState_tempDestinations = [], ConnectionState_disposed = False,
        ConnectionState_connectionInterruptProcessingComplete = True, ConnectionState_recoveringPullConsumers = []\<rparr>)"

definition ConnectionState_reset :: "ConnectionInfo \<Rightarrow> ConnectionState \<Rightarrow> ConnectionState" where
  "ConnectionState_reset info cs = cs\<lparr>ConnectionState_info := info,
     ConnectionState_transactions := cm_clear (ConnectionState_transactions cs),
     ConnectionState_sessions := cm_clear (ConnectionState_sessions cs), ConnectionState_tempDestinations := [],
     ConnectionState_disposed := False\<rparr>"

definition ConnectionState_shutdown :: "ConnectionState \<Rightarrow> ConnectionState" where
  "ConnectionState_shutdown cs = (if ConnectionState_disposed cs then cs
     else cs\<lparr>ConnectionState_disposed := True, ConnectionState_sessions :=
       map (\<lambda>e. (fst e, SessionState_shutdown (snd e))) (ConnectionState_sessions cs)\<rparr>)"

definition addTempDestination :: "DestinationInfo \<Rightarrow> ConnectionState \<Rightarrow> ConnectionState result" where
  "addTempDestination info cs = bind_result (ConnectionState_checkShutdown cs) (\<lambda>_.
     Inr (cs\<lparr>ConnectionState_tempDestinations := ConnectionState_tempDestinations cs @ [info]\<rparr>))"

text \<open>
  The loop of \<open>removeTempDestination\<close> over the temporary destinations. A null pointer is dereferenced
  after the removals in front of it.
\<close>

fun without_destination :: "wire_destination \<Rightarrow> DestinationInfo list \<Rightarrow> unit result \<times> DestinationInfo list" where
  "without_destination d [] = (Inr (), [])"
| "without_destination d (info # infos) = (case DestinationInfo_destination info of
     None \<Rightarrow> (Inl NullPointerException, info # infos)
   | Some d' \<Rightarrow> (case without_destination d infos of
       (r, rest) \<Rightarrow> (r, if Destination_equals d' d then rest else info # rest)))"

definition removeTempDestination :: "wire_destination \<Rightarrow> ConnectionState \<Rightarrow> unit result \<times> ConnectionState" where
  "removeTempDestination d cs = (case without_destination d (ConnectionState_tempDestinations cs) of
     (r, infos) \<Rightarrow> (r, cs\<lparr>ConnectionState_tempDestinations := infos\<rparr>))"

definition addTransactionState :: "TransactionId option \<Rightarrow> ConnectionState \<Rightarrow> TransactionState list \<Rightarrow>
    (ConnectionState \<times> TransactionState list) result" where
  "addTransactionState ident cs heap = bind_result (ConnectionState_checkShutdown cs) (\<lambda>_.
     bind_result (as_LocalTransactionId ident) (\<lambda>k.
     Inr (cs\<lparr>ConnectionState_transactions := snd (cm_put LocalTransactionId_lt k (length heap)
       (ConnectionState_transactions cs))\<rparr>, heap @ [new_TransactionState ident])))"

definition getTransactionState :: "TransactionId option \<Rightarrow> ConnectionState \<Rightarrow> nat result" where
  "getTransactionState ident cs = bind_result (as_LocalTransactionId ident) (\<lambda>k.
     cm_get LocalTransactionId_lt k (ConnectionState_transactions cs))"

definition removeTransactionState :: "TransactionId option \<Rightarrow> ConnectionState \<Rightarrow> (nat option \<times> ConnectionState) result" where
  "removeTransactionState ident cs = bind_result (as_LocalTransactionId ident) (\<lambda>k.
     case cm_remove LocalTransactionId_lt k (ConnectionState_transactions cs) of
       (a, m) \<Rightarrow> Inr (a, cs\<lparr>ConnectionState_transactions := m\<rparr>))"

definition removeSession :: "SessionId \<Rightarrow> ConnectionState \<Rightarrow> ConnectionState" where
  "removeSession ident cs = cs\<lparr>ConnectionState_sessions := snd (cm_remove SessionId_lt ident (ConnectionState_sessions cs))\<rparr>"

definition getSessionState :: "SessionId \<Rightarrow> ConnectionState \<Rightarrow> SessionState result" where
  "getSessionState ident cs = cm_get SessionId_lt ident (ConnectionState_sessions cs)"

section \<open>Tracking\<close>

text \<open>
  What a visit returns: null, the common marker, or an object whose action removes the transaction when
  the response to the command arrives. Each method of the tracker converts every exception to an
  \<open>ActiveMQException\<close>, and \<open>track\<close> converts it to an \<open>IOException\<close>.
\<close>

datatype tracked = TRACKED_RESPONSE_MARKER | RemoveTransactionAction TransactionInfo

definition catch_as :: "decaf_exception \<Rightarrow> 'a result \<times> 's \<Rightarrow> 'a result \<times> 's" where
  "catch_as target r = (case r of (Inl e, t) \<Rightarrow> (Inl (if e = UndefinedBehaviour then e else target), t) | _ \<Rightarrow> r)"

text \<open>A method that fails before it changes anything.\<close>

definition unless_failed :: "'s \<Rightarrow> ('a \<times> 's) result \<Rightarrow> 'a result \<times> 's" where
  "unless_failed t r = (case r of Inl e \<Rightarrow> (Inl e, t) | Inr (x, t') \<Rightarrow> (Inr x, t'))"

definition get_connection :: "ConnectionId \<Rightarrow> 'z StateTracker_scheme \<Rightarrow> ConnectionState result" where
  "get_connection k t = cm_get ConnectionId_lt k (connectionStates t)"

definition set_connection :: "ConnectionId \<Rightarrow> ConnectionState \<Rightarrow> 'z StateTracker_scheme \<Rightarrow> 'z StateTracker_scheme" where
  "set_connection k cs t = t\<lparr>connectionStates := map_assign ConnectionId_lt k cs (connectionStates t)\<rparr>"

definition set_session :: "SessionId \<Rightarrow> SessionState \<Rightarrow> ConnectionState \<Rightarrow> ConnectionState" where
  "set_session k ss cs = cs\<lparr>ConnectionState_sessions := map_assign SessionId_lt k ss (ConnectionState_sessions cs)\<rparr>"

definition processConnectionInfo ::
    "ConnectionInfo \<Rightarrow> 'z StateTracker_scheme \<Rightarrow> tracked option result \<times> 'z StateTracker_scheme" where
  "processConnectionInfo info t = catch_as ActiveMQException (unless_failed t
     (bind_result (new_ConnectionState info) (\<lambda>cs.
      bind_result (dereference (ConnectionInfo_connectionId info)) (\<lambda>k.
      Inr (Some TRACKED_RESPONSE_MARKER,
        t\<lparr>connectionStates := snd (cm_put ConnectionId_lt k cs (connectionStates t))\<rparr>)))))"

definition processRemoveConnection ::
    "ConnectionId \<Rightarrow> 'z StateTracker_scheme \<Rightarrow> tracked option result \<times> 'z StateTracker_scheme" where
  "processRemoveConnection k t = (Inr (Some TRACKED_RESPONSE_MARKER),
     t\<lparr>connectionStates := snd (cm_remove ConnectionId_lt k (connectionStates t))\<rparr>)"

definition processSessionInfo ::
    "SessionInfo \<Rightarrow> 'z StateTracker_scheme \<Rightarrow> tracked option result \<times> 'z StateTracker_scheme" where
  "processSessionInfo info t = catch_as ActiveMQException (unless_failed t
     (bind_result (dereference (SessionInfo_sessionId info)) (\<lambda>s.
      let k = SessionId_getParentId s in
      bind_result (get_connection k t) (\<lambda>cs.
      bind_result (addSession info cs) (\<lambda>cs'.
      Inr (Some TRACKED_RESPONSE_MARKER, set_connection k cs' t))))))"

definition processRemoveSession ::
    "SessionId \<Rightarrow> 'z StateTracker_scheme \<Rightarrow> tracked option result \<times> 'z StateTracker_scheme" where
  "processRemoveSession s t = catch_as ActiveMQException (unless_failed t
     (let k = SessionId_getParentId s in
      bind_result (get_connection k t) (\<lambda>cs.
      Inr (Some TRACKED_RESPONSE_MARKER, set_connection k (removeSession s cs) t))))"

definition processProducerInfo ::
    "ProducerInfo \<Rightarrow> 'z StateTracker_scheme \<Rightarrow> tracked option result \<times> 'z StateTracker_scheme" where
  "processProducerInfo info t = catch_as ActiveMQException (unless_failed t
     (case ProducerInfo_producerId info of None \<Rightarrow> Inr (Some TRACKED_RESPONSE_MARKER, t)
      | Some p \<Rightarrow>
          let s = ProducerId_getParentId p; k = SessionId_getParentId s in
          bind_result (get_connection k t) (\<lambda>cs.
          bind_result (getSessionState s cs) (\<lambda>ss.
          bind_result (addProducer info ss) (\<lambda>ss'.
          Inr (Some TRACKED_RESPONSE_MARKER, set_connection k (set_session s ss' cs) t))))))"

definition processRemoveProducer ::
    "ProducerId \<Rightarrow> 'z StateTracker_scheme \<Rightarrow> tracked option result \<times> 'z StateTracker_scheme" where
  "processRemoveProducer p t = catch_as ActiveMQException (unless_failed t
     (let s = ProducerId_getParentId p; k = SessionId_getParentId s in
      bind_result (get_connection k t) (\<lambda>cs.
      bind_result (getSessionState s cs) (\<lambda>ss.
      bind_result (SessionState_removeProducer p ss (transactionHeap t)) (\<lambda>(ss', heap).
      Inr (Some TRACKED_RESPONSE_MARKER, set_connection k (set_session s ss' cs) (t\<lparr>transactionHeap := heap\<rparr>)))))))"

definition processConsumerInfo ::
    "ConsumerInfo \<Rightarrow> 'z StateTracker_scheme \<Rightarrow> tracked option result \<times> 'z StateTracker_scheme" where
  "processConsumerInfo info t = catch_as ActiveMQException (unless_failed t
     (bind_result (dereference (ConsumerInfo_consumerId info)) (\<lambda>c.
      let s = ConsumerId_getParentId c; k = SessionId_getParentId s in
      bind_result (get_connection k t) (\<lambda>cs.
      bind_result (getSessionState s cs) (\<lambda>ss.
      bind_result (addConsumer info ss) (\<lambda>ss'.
      Inr (Some TRACKED_RESPONSE_MARKER, set_connection k (set_session s ss' cs) t)))))))"

definition processRemoveConsumer ::
    "ConsumerId \<Rightarrow> 'z StateTracker_scheme \<Rightarrow> tracked option result \<times> 'z StateTracker_scheme" where
  "processRemoveConsumer c t = catch_as ActiveMQException (unless_failed t
     (let s = ConsumerId_getParentId c; k = SessionId_getParentId s in
      bind_result (get_connection k t) (\<lambda>cs.
      bind_result (getSessionState s cs) (\<lambda>ss.
      let cs' = set_session s (snd (SessionState_removeConsumer c ss)) cs;
          cs'' = cs'\<lparr>ConnectionState_recoveringPullConsumers :=
            snd (sm_remove ConsumerId_lt c (ConnectionState_recoveringPullConsumers cs'))\<rparr>
      in Inr (Some TRACKED_RESPONSE_MARKER, set_connection k cs'' t)))))"

definition processDestinationInfo ::
    "DestinationInfo \<Rightarrow> 'z StateTracker_scheme \<Rightarrow> tracked option result \<times> 'z StateTracker_scheme" where
  "processDestinationInfo info t = catch_as ActiveMQException (unless_failed t
     (bind_result (dereference (DestinationInfo_connectionId info)) (\<lambda>k.
      bind_result (get_connection k t) (\<lambda>cs.
      bind_result (dereference (DestinationInfo_destination info)) (\<lambda>d.
      if Destination_isTemporary d
      then bind_result (addTempDestination info cs) (\<lambda>cs'.
        Inr (Some TRACKED_RESPONSE_MARKER, set_connection k cs' t))
      else Inr (Some TRACKED_RESPONSE_MARKER, t))))))"

definition processRemoveDestination ::
    "DestinationInfo \<Rightarrow> 'z StateTracker_scheme \<Rightarrow> tracked option result \<times> 'z StateTracker_scheme" where
  "processRemoveDestination info t = catch_as ActiveMQException
     (case bind_result (dereference (DestinationInfo_connectionId info)) (\<lambda>k.
        bind_result (get_connection k t) (\<lambda>cs.
        bind_result (dereference (DestinationInfo_destination info)) (\<lambda>d. Inr (k, cs, d)))) of
        Inl e \<Rightarrow> (Inl e, t)
      | Inr (k, cs, d) \<Rightarrow>
          if Destination_isTemporary d then
            (case removeTempDestination d cs of
               (Inl e, cs') \<Rightarrow> (Inl e, set_connection k cs' t)
             | (Inr _, cs') \<Rightarrow> (Inr (Some TRACKED_RESPONSE_MARKER), set_connection k cs' t))
          else (Inr (Some TRACKED_RESPONSE_MARKER), t))"

subsection \<open>Messages\<close>

fun message_base :: "data_structure \<Rightarrow> Message option" where
  "message_base (DActiveMQMessage m p) = Some m"
| "message_base (DActiveMQBytesMessage m p) = Some m"
| "message_base (DActiveMQMapMessage m p) = Some (Message.truncate m)"
| "message_base (DActiveMQObjectMessage m p) = Some m"
| "message_base (DActiveMQStreamMessage m p) = Some m"
| "message_base (DActiveMQTextMessage m p) = Some (Message.truncate m)"
| "message_base (DActiveMQBlobMessage m p) = Some (Message.truncate m)"
| "message_base _ = None"

definition DEFAULT_MESSAGE_SIZE :: "32 word" where
  "DEFAULT_MESSAGE_SIZE = 1024"

definition Message_getSize :: "Message \<Rightarrow> 32 word" where
  "Message_getSize m = DEFAULT_MESSAGE_SIZE + of_nat (length (Message_content m)) +
     of_nat (length (Message_marshalledProperties m))"

text \<open>
  The caches are linked hash maps in the order of insertion: lists of entries, a new entry at the end, the
  value of a known key replaced in its place. The keys of the message cache are pointers, which the hash map
  compares as such: the argument \<open>ref\<close> is the address of the message's identity.
\<close>

definition MessageCache_put :: "nat \<Rightarrow> data_structure \<Rightarrow> 'z StateTracker_scheme \<Rightarrow> 'z StateTracker_scheme" where
  "MessageCache_put ref d t =
     (let m = AList.update ref d (messageCache t) in
      if sint (currentCacheSize t) > maxMessageCacheSize t
      then (case message_base (snd (hd m)) of
         Some eldest \<Rightarrow> t\<lparr>messageCache := tl m, currentCacheSize := currentCacheSize t - Message_getSize eldest\<rparr>
       | None \<Rightarrow> t\<lparr>messageCache := m\<rparr>)
      else t\<lparr>messageCache := m\<rparr>)"

definition MessagePullCache_put :: "bytes \<Rightarrow> data_structure \<Rightarrow> 'z StateTracker_scheme \<Rightarrow> 'z StateTracker_scheme" where
  "MessagePullCache_put k d t =
     (let m = AList.update k d (messagePullCache t) in
      t\<lparr>messagePullCache := (if wrap32 (int (length m)) > maxMessagePullCacheSize t then tl m else m)\<rparr>)"

text \<open>
  A message of a transaction is added to the transaction's commands before its producer is looked up, so
  that a failing lookup leaves it there.
\<close>

definition track_producer :: "ProducerId \<Rightarrow> nat \<Rightarrow> ConnectionId \<Rightarrow> ConnectionState \<Rightarrow> 'z StateTracker_scheme \<Rightarrow>
    'z StateTracker_scheme result" where
  "track_producer p a k cs t =
     (let s = ProducerId_getParentId p in
      bind_result (getSessionState s cs) (\<lambda>ss.
      bind_result (cm_get ProducerId_lt p (SessionState_producers ss)) (\<lambda>ps.
      Inr (set_connection k (set_session s (ss\<lparr>SessionState_producers :=
        map_assign ProducerId_lt p (ps\<lparr>ProducerState_transactionState := Some a\<rparr>) (SessionState_producers ss)\<rparr>) cs) t))))"

definition processMessage ::
    "nat \<Rightarrow> Message \<Rightarrow> data_structure \<Rightarrow> 'z StateTracker_scheme \<Rightarrow> tracked option result \<times> 'z StateTracker_scheme" where
  "processMessage ref m message t = catch_as ActiveMQException
     (if trackTransactions t \<and> Message_transactionId m \<noteq> None
      then (case bind_result (dereference (Message_producerId m)) (\<lambda>p.
              let k = SessionId_getParentId (ProducerId_getParentId p) in
              bind_result (get_connection k t) (\<lambda>cs.
              bind_result (getTransactionState (Message_transactionId m) cs) (\<lambda>a.
              bind_result (addCommand message (transactionHeap t ! a)) (\<lambda>ts.
              Inr (p, k, cs, a, ts))))) of
              Inl e \<Rightarrow> (Inl e, t)
            | Inr (p, k, cs, a, ts) \<Rightarrow>
                let t' = t\<lparr>transactionHeap := (transactionHeap t)[a := ts]\<rparr> in
                if trackTransactionProducers t
                then (case track_producer p a k cs t' of
                        Inl e \<Rightarrow> (Inl e, t')
                      | Inr t'' \<Rightarrow> (Inr (Some TRACKED_RESPONSE_MARKER), t''))
                else (Inr (Some TRACKED_RESPONSE_MARKER), t'))
      else if trackMessages t then (Inr None, MessageCache_put ref message t)
      else (Inr None, t))"

definition trackBack :: "data_structure \<Rightarrow> 'z StateTracker_scheme \<Rightarrow> 'z StateTracker_scheme" where
  "trackBack command t = (case message_base command of
     Some m \<Rightarrow> if trackMessages t \<and> Message_transactionId m = None
       then t\<lparr>currentCacheSize := currentCacheSize t + Message_getSize m\<rparr> else t
   | None \<Rightarrow> t)"

definition processMessagePull ::
    "MessagePull \<Rightarrow> 'z StateTracker_scheme \<Rightarrow> tracked option result \<times> 'z StateTracker_scheme" where
  "processMessagePull pull t = (Inr None,
     (case (MessagePull_destination pull, MessagePull_consumerId pull) of
        (Some d, Some c) \<Rightarrow>
          MessagePullCache_put (Destination_toString d @ bytes_of ''::'' @ ConsumerId_toString c) (DMessagePull pull) t
      | _ \<Rightarrow> t))"

subsection \<open>Transactions\<close>

definition processBeginTransaction ::
    "TransactionInfo \<Rightarrow> 'z StateTracker_scheme \<Rightarrow> tracked option result \<times> 'z StateTracker_scheme" where
  "processBeginTransaction info t = catch_as ActiveMQException
     (if trackTransactions t
      then (case TransactionInfo_connectionId info of
         None \<Rightarrow> (Inr (Some TRACKED_RESPONSE_MARKER), t)
       | Some k \<Rightarrow> unless_failed t
           (bind_result (get_connection k t) (\<lambda>cs.
            bind_result (addTransactionState (TransactionInfo_transactionId info) cs (transactionHeap t)) (\<lambda>(cs', heap).
            bind_result (getTransactionState (TransactionInfo_transactionId info) cs') (\<lambda>a.
            bind_result (addCommand (DTransactionInfo info) (heap ! a)) (\<lambda>ts.
            Inr (Some TRACKED_RESPONSE_MARKER, set_connection k cs' (t\<lparr>transactionHeap := heap[a := ts]\<rparr>))))))))
      else (Inr None, t))"

text \<open>The common part of the other methods: the command is added to the transaction.\<close>

definition add_to_transaction ::
    "TransactionInfo \<Rightarrow> ConnectionId \<Rightarrow> tracked \<Rightarrow> 'z StateTracker_scheme \<Rightarrow> tracked option result \<times> 'z StateTracker_scheme" where
  "add_to_transaction info k reply t = unless_failed t
     (bind_result (get_connection k t) (\<lambda>cs.
      bind_result (getTransactionState (TransactionInfo_transactionId info) cs) (\<lambda>a.
      bind_result (addCommand (DTransactionInfo info) (transactionHeap t ! a)) (\<lambda>ts.
      Inr (Some reply, t\<lparr>transactionHeap := (transactionHeap t)[a := ts]\<rparr>)))))"

definition process_marked ::
    "TransactionInfo \<Rightarrow> 'z StateTracker_scheme \<Rightarrow> tracked option result \<times> 'z StateTracker_scheme" where
  "process_marked info t = catch_as ActiveMQException
     (if trackTransactions t
      then (case TransactionInfo_connectionId info of
         None \<Rightarrow> (Inr (Some TRACKED_RESPONSE_MARKER), t)
       | Some k \<Rightarrow> add_to_transaction info k TRACKED_RESPONSE_MARKER t)
      else (Inr None, t))"

definition process_completed ::
    "TransactionInfo \<Rightarrow> 'z StateTracker_scheme \<Rightarrow> tracked option result \<times> 'z StateTracker_scheme" where
  "process_completed info t = catch_as ActiveMQException
     (if trackTransactions t
      then (case TransactionInfo_connectionId info of
         None \<Rightarrow> (Inr None, t)
       | Some k \<Rightarrow> add_to_transaction info k (RemoveTransactionAction info) t)
      else (Inr None, t))"

definition processPrepareTransaction ::
    "TransactionInfo \<Rightarrow> 'z StateTracker_scheme \<Rightarrow> tracked option result \<times> 'z StateTracker_scheme" where
  "processPrepareTransaction = process_marked"

definition processEndTransaction ::
    "TransactionInfo \<Rightarrow> 'z StateTracker_scheme \<Rightarrow> tracked option result \<times> 'z StateTracker_scheme" where
  "processEndTransaction = process_marked"

definition processCommitTransactionOnePhase ::
    "TransactionInfo \<Rightarrow> 'z StateTracker_scheme \<Rightarrow> tracked option result \<times> 'z StateTracker_scheme" where
  "processCommitTransactionOnePhase = process_completed"

definition processCommitTransactionTwoPhase ::
    "TransactionInfo \<Rightarrow> 'z StateTracker_scheme \<Rightarrow> tracked option result \<times> 'z StateTracker_scheme" where
  "processCommitTransactionTwoPhase = process_completed"

definition processRollbackTransaction ::
    "TransactionInfo \<Rightarrow> 'z StateTracker_scheme \<Rightarrow> tracked option result \<times> 'z StateTracker_scheme" where
  "processRollbackTransaction = process_completed"

text \<open>\<open>CommandVisitorAdapter\<close>: the kinds of transaction commands and of removed objects.\<close>

definition TRANSACTION_STATE_COMMITONEPHASE :: byte where
  "TRANSACTION_STATE_COMMITONEPHASE = 2"

definition processTransactionInfo ::
    "TransactionInfo \<Rightarrow> 'z StateTracker_scheme \<Rightarrow> tracked option result \<times> 'z StateTracker_scheme" where
  "processTransactionInfo info t =
     (let kind = TransactionInfo_type info in
      if kind = 0 then processBeginTransaction info t
      else if kind = TRANSACTION_STATE_COMMITONEPHASE then processCommitTransactionOnePhase info t
      else if kind = 3 then processCommitTransactionTwoPhase info t
      else if kind = 7 then processEndTransaction info t
      else if kind = 6 then (Inr None, t)
      else if kind = 1 then processPrepareTransaction info t
      else if kind = 5 then (Inr None, t)
      else if kind = 4 then processRollbackTransaction info t
      else (Inl ActiveMQException, t))"

fun processRemoveInfo ::
    "data_structure option \<Rightarrow> 'z StateTracker_scheme \<Rightarrow> tracked option result \<times> 'z StateTracker_scheme" where
  "processRemoveInfo None t = (Inl NullPointerException, t)"
| "processRemoveInfo (Some (DConnectionId k)) t = processRemoveConnection k t"
| "processRemoveInfo (Some (DSessionId s)) t = processRemoveSession s t"
| "processRemoveInfo (Some (DConsumerId c)) t = processRemoveConsumer c t"
| "processRemoveInfo (Some (DProducerId p)) t = processRemoveProducer p t"
| "processRemoveInfo _ t = (Inl ActiveMQException, t)"

text \<open>
  The command's \<open>visit\<close>; the visitor answers null to all commands that the tracker does not
  override. A \<open>DestinationInfo\<close> is visited as an addition, whatever its operation is.
\<close>

definition visit :: "nat \<Rightarrow> data_structure \<Rightarrow> 'z StateTracker_scheme \<Rightarrow> tracked option result \<times> 'z StateTracker_scheme" where
  "visit ref command t = (case command of
     DConnectionInfo info \<Rightarrow> processConnectionInfo info t
   | DSessionInfo info \<Rightarrow> processSessionInfo info t
   | DConsumerInfo info \<Rightarrow> processConsumerInfo info t
   | DProducerInfo info \<Rightarrow> processProducerInfo info t
   | DDestinationInfo info \<Rightarrow> processDestinationInfo info t
   | DRemoveInfo info object \<Rightarrow> processRemoveInfo object t
   | DTransactionInfo info \<Rightarrow> processTransactionInfo info t
   | DMessagePull pull \<Rightarrow> processMessagePull pull t
   | _ \<Rightarrow> (case message_base command of Some m \<Rightarrow> processMessage ref m command t | None \<Rightarrow> (Inr None, t)))"

definition track :: "nat \<Rightarrow> data_structure \<Rightarrow> 'z StateTracker_scheme \<Rightarrow> tracked option result \<times> 'z StateTracker_scheme" where
  "track ref command t = catch_as IOException (visit ref command t)"

text \<open>\<open>Tracked::onResponse\<close> and the action that it runs.\<close>

definition removeTransaction :: "TransactionInfo \<Rightarrow> 'z StateTracker_scheme \<Rightarrow> unit result \<times> 'z StateTracker_scheme" where
  "removeTransaction info t = unless_failed t
     (bind_result (dereference (TransactionInfo_connectionId info)) (\<lambda>k.
      bind_result (get_connection k t) (\<lambda>cs.
      bind_result (removeTransactionState (TransactionInfo_transactionId info) cs) (\<lambda>(a, cs').
      Inr ((), set_connection k cs' (case a of
        Some a' \<Rightarrow> t\<lparr>transactionHeap := (transactionHeap t)[a' := TransactionState_clear (transactionHeap t ! a')]\<rparr>
      | None \<Rightarrow> t))))))"

fun onResponse :: "tracked \<Rightarrow> 'z StateTracker_scheme \<Rightarrow> unit result \<times> 'z StateTracker_scheme" where
  "onResponse TRACKED_RESPONSE_MARKER t = (Inr (), t)"
| "onResponse (RemoveTransactionAction info) t = catch_as ActiveMQException (removeTransaction info t)"

section \<open>Restoring\<close>

text \<open>
  The transport that the state is sent to: the version of its wire format, the number of commands it
  accepts before it fails, the commands sent, and the commands given to its listener. What the listener does
  to the tracker's state is the argument \<open>listener\<close>. The actions keep what they have done when
  they fail.
\<close>

record transport =
  transport_version :: int
  transport_accepts :: nat
  transport_sent :: "data_structure list"
  transport_delivered :: "data_structure list"

type_synonym ('t, 'a) transport_action = "'t \<times> transport \<Rightarrow> 'a result \<times> 't \<times> transport"

definition oneway :: "data_structure \<Rightarrow> ('t, unit) transport_action" where
  "oneway command = (\<lambda>(t, tr). if transport_accepts tr = 0 then (Inl IOException, t, tr)
     else (Inr (), t, tr\<lparr>transport_accepts := transport_accepts tr - 1, transport_sent := transport_sent tr @ [command]\<rparr>))"

definition andThen :: "('t, unit) transport_action \<Rightarrow> ('t, unit) transport_action \<Rightarrow> ('t, unit) transport_action" where
  "andThen f g x = (case f x of (Inl e, y) \<Rightarrow> (Inl e, y) | (Inr _, y) \<Rightarrow> g y)"

fun each :: "('x \<Rightarrow> ('t, unit) transport_action) \<Rightarrow> 'x list \<Rightarrow> ('t, unit) transport_action" where
  "each f [] s = (Inr (), s)"
| "each f (x # xs) s = andThen (f x) (each f xs) s"

definition finished :: "('t, unit) transport_action" where
  "finished s = (Inr (), s)"

definition ProducerInfo_createRemoveCommand :: "ProducerInfo \<Rightarrow> data_structure" where
  "ProducerInfo_createRemoveCommand info = DRemoveInfo
     (create_RemoveInfo\<lparr>BaseCommand_responseRequired := BaseCommand_responseRequired info\<rparr>)
     (map_option DProducerId (ProducerInfo_producerId info))"

definition doRestoreTempDestinations :: "ConnectionState \<Rightarrow> ('t, unit) transport_action" where
  "doRestoreTempDestinations cs = each (\<lambda>info. oneway (DDestinationInfo info)) (ConnectionState_tempDestinations cs)"

definition doRestoreProducers :: "SessionState \<Rightarrow> ('t, unit) transport_action" where
  "doRestoreProducers ss = each (\<lambda>ps. oneway (DProducerInfo (ProducerState_info ps))) (map_values (SessionState_producers ss))"

text \<open>
  While the interruption of the connection is being processed, a consumer is restored without prefetch, and
  its own settings are kept to be sent afterwards.
\<close>

definition restore_consumer :: "ConnectionId \<Rightarrow> bool \<Rightarrow> ConsumerInfo \<Rightarrow> ('z StateTracker_scheme, unit) transport_action" where
  "restore_consumer k complete info = (\<lambda>(t, tr).
     if \<not> complete \<and> 0 <s ConsumerInfo_prefetchSize info \<and> 5 < transport_version tr
     then (case (ConsumerInfo_consumerId info, get_connection k t) of
             (Some c, Inr cs) \<Rightarrow>
               oneway (DConsumerInfo (info\<lparr>ConsumerInfo_prefetchSize := 0\<rparr>))
                 (set_connection k (cs\<lparr>ConnectionState_recoveringPullConsumers :=
                    snd (sm_put ConsumerId_lt c info (ConnectionState_recoveringPullConsumers cs))\<rparr>) t, tr)
           | _ \<Rightarrow> (Inl NullPointerException, t, tr))
     else oneway (DConsumerInfo info) (t, tr))"

definition doRestoreConsumers :: "SessionState \<Rightarrow> ('z StateTracker_scheme, unit) transport_action" where
  "doRestoreConsumers ss = (\<lambda>(t, tr). catch_as IOException
     (case bind_result (dereference (SessionInfo_sessionId (SessionState_info ss))) (\<lambda>s.
        let k = SessionId_getParentId s in
        bind_result (get_connection k t) (\<lambda>cs. Inr (k, cs))) of
        Inl e \<Rightarrow> (Inl e, t, tr)
      | Inr (k, cs) \<Rightarrow>
          each (restore_consumer k (ConnectionState_connectionInterruptProcessingComplete cs))
            (map ConsumerState_info (map_values (SessionState_consumers ss))) (t, tr)))"

definition restore_session :: "SessionState \<Rightarrow> ('z StateTracker_scheme, unit) transport_action" where
  "restore_session ss = (\<lambda>(t, tr).
     andThen (oneway (DSessionInfo (SessionState_info ss)))
       (andThen (if restoreProducers t then doRestoreProducers ss else finished)
         (if restoreConsumers t then doRestoreConsumers ss else finished)) (t, tr))"

definition doRestoreSessions :: "ConnectionState \<Rightarrow> ('z StateTracker_scheme, unit) transport_action" where
  "doRestoreSessions cs = each restore_session (map_values (ConnectionState_sessions cs))"

definition in_doubt :: "TransactionState \<Rightarrow> TransactionInfo option" where
  "in_doubt ts = (case last (TransactionState_commands ts) of
     DTransactionInfo info \<Rightarrow> if TransactionInfo_type info = TRANSACTION_STATE_COMMITONEPHASE then Some info else None
   | _ \<Rightarrow> None)"

definition restore_transaction :: "TransactionState \<Rightarrow> ('t, unit) transport_action" where
  "restore_transaction ts =
     (if TransactionState_commands ts = [] then (\<lambda>s. (Inl NoSuchElementException, s))
      else if in_doubt ts \<noteq> None then finished
      else andThen (each (\<lambda>ps. oneway (DProducerInfo (ProducerState_info ps))) (map_values (TransactionState_producers ts)))
        (andThen (each oneway (TransactionState_commands ts))
          (each (\<lambda>ps. oneway (ProducerInfo_createRemoveCommand (ProducerState_info ps)))
            (map_values (TransactionState_producers ts)))))"

definition TransactionId_toString :: "TransactionId option \<Rightarrow> bytes result" where
  "TransactionId_toString ident = (case ident of
     Some (Local x) \<Rightarrow> (case LocalTransactionId_connectionId x of
       Some c \<Rightarrow> Inr (bytes_of ''TX:'' @ ConnectionId_value c @ bytes_of '':'' @ long_text (LocalTransactionId_value x))
     | None \<Rightarrow> Inl NullPointerException)
   | _ \<Rightarrow> Inl NullPointerException)"

definition in_doubt_response :: "TransactionInfo \<Rightarrow> bytes \<Rightarrow> ExceptionResponse" where
  "in_doubt_response info name = create_ExceptionResponse\<lparr>
     Response_correlationId := BaseCommand_commandId info,
     ExceptionResponse_exception := Some (BrokerError (bytes_of ''TransactionRolledBackException'')
       (bytes_of ''Transaction completion in doubt due to failover. Forcing rollback of '' @ name) [] None)\<rparr>"

definition fail_commit :: "(data_structure \<Rightarrow> 't \<Rightarrow> unit result \<times> 't) \<Rightarrow> TransactionInfo \<Rightarrow> ('t, unit) transport_action" where
  "fail_commit listener info = (\<lambda>(t, tr).
     case TransactionId_toString (TransactionInfo_transactionId info) of
       Inl e \<Rightarrow> (Inl e, t, tr)
     | Inr name \<Rightarrow>
         let response = DExceptionResponse (in_doubt_response info name) in
         (case listener response t of
            (r, t') \<Rightarrow> (r, t', tr\<lparr>transport_delivered := transport_delivered tr @ [response]\<rparr>)))"

definition doRestoreTransactions ::
    "(data_structure \<Rightarrow> 'z StateTracker_scheme \<Rightarrow> unit result \<times> 'z StateTracker_scheme) \<Rightarrow> ConnectionState \<Rightarrow>
     ('z StateTracker_scheme, unit) transport_action" where
  "doRestoreTransactions listener cs = (\<lambda>(t, tr). catch_as IOException
     (let txs = map (\<lambda>a. transactionHeap t ! a) (map_values (ConnectionState_transactions cs)) in
      andThen (each restore_transaction txs)
        (each (fail_commit listener) (List.map_filter in_doubt txs)) (t, tr)))"

definition restore_connection ::
    "(data_structure \<Rightarrow> 'z StateTracker_scheme \<Rightarrow> unit result \<times> 'z StateTracker_scheme) \<Rightarrow> ConnectionId \<Rightarrow>
     ('z StateTracker_scheme, unit) transport_action" where
  "restore_connection listener k = (\<lambda>(t, tr).
     case get_connection k t of
       Inl e \<Rightarrow> (Inl e, t, tr)
     | Inr cs \<Rightarrow>
         let cs' = cs\<lparr>ConnectionState_info := (ConnectionState_info cs)\<lparr>ConnectionInfo_failoverReconnect := True\<rparr>\<rparr>;
             t' = set_connection k cs' t
         in andThen (oneway (DConnectionInfo (ConnectionState_info cs')))
              (andThen (doRestoreTempDestinations cs')
                (andThen (if restoreSessions t' then doRestoreSessions cs' else finished)
                  (if restoreTransaction t' then doRestoreTransactions listener cs' else finished))) (t', tr))"

definition restore ::
    "(data_structure \<Rightarrow> 'z StateTracker_scheme \<Rightarrow> unit result \<times> 'z StateTracker_scheme) \<Rightarrow>
     ('z StateTracker_scheme, unit) transport_action" where
  "restore listener = (\<lambda>(t, tr). catch_as IOException
     (andThen (each (restore_connection listener) (map_keys (connectionStates t)))
       (\<lambda>(t', tr'). andThen (each oneway (map snd (messageCache t')))
         (each oneway (map snd (messagePullCache t'))) (t', tr')) (t, tr)))"

section \<open>Interruptions\<close>

definition transportInterrupted :: "'z StateTracker_scheme \<Rightarrow> 'z StateTracker_scheme" where
  "transportInterrupted t = t\<lparr>connectionStates := map (\<lambda>e. (fst e,
     (snd e)\<lparr>ConnectionState_connectionInterruptProcessingComplete := False\<rparr>)) (connectionStates t)\<rparr>"

definition consumer_control :: "ConsumerId \<Rightarrow> ConsumerInfo \<Rightarrow> data_structure" where
  "consumer_control c info = DConsumerControl (create_ConsumerControl\<lparr>
     ConsumerControl_consumerId := Some c, ConsumerControl_prefetch := ConsumerInfo_prefetchSize info,
     ConsumerControl_destination := ConsumerInfo_destination info\<rparr>)"

text \<open>
  The map of the recovering consumers is copied, and it is the copy that is cleared at the end. A failure
  to send is ignored.
\<close>

definition connectionInterruptProcessingComplete :: "ConnectionId \<Rightarrow> ('z StateTracker_scheme, unit) transport_action" where
  "connectionInterruptProcessingComplete k = (\<lambda>(t, tr).
     case get_connection k t of
       Inl e \<Rightarrow> (Inl e, t, tr)
     | Inr cs \<Rightarrow>
         let t' = set_connection k (cs\<lparr>ConnectionState_connectionInterruptProcessingComplete := True\<rparr>) t;
             stalledConsumers = ConnectionState_recoveringPullConsumers cs
         in each (\<lambda>e s. (Inr (), snd (oneway (consumer_control (fst e) (snd e)) s))) stalledConsumers (t', tr))"

end
