(* ===== verification/Restoring.thy ===== *)
theory Restoring
  imports StateTracker
begin

text \<open>
  What the state tracker is for: the commands that \<open>restore\<close> sends make the next broker know the
  connections, sessions, producers and consumers that the last one knew.
\<close>

section \<open>The keys of the maps\<close>

definition ConnectionId_key :: "ConnectionId \<Rightarrow> order_key" where
  "ConnectionId_key c = natural_key True (ConnectionId_value c)"

definition SessionId_key :: "SessionId \<Rightarrow> order_key \<times> int" where
  "SessionId_key s = (natural_key True (SessionId_connectionId s), sint (SessionId_value s))"

definition ConsumerId_key :: "ConsumerId \<Rightarrow> order_key \<times> int \<times> int" where
  "ConsumerId_key c = (natural_key True (ConsumerId_connectionId c), sint (ConsumerId_sessionId c), sint (ConsumerId_value c))"

definition ProducerId_key :: "ProducerId \<Rightarrow> order_key \<times> int \<times> int" where
  "ProducerId_key p = (natural_key True (ProducerId_connectionId p), sint (ProducerId_value p), sint (ProducerId_sessionId p))"

definition LocalTransactionId_key :: "LocalTransactionId \<Rightarrow> int \<times> order_key" where
  "LocalTransactionId_key x = (sint (LocalTransactionId_value x),
     case LocalTransactionId_connectionId x of Some c \<Rightarrow> ConnectionId_key c | None \<Rightarrow> [])"

abbreviation plain_connection :: "ConnectionId \<Rightarrow> bool" where
  "plain_connection c \<equiv> plain (ConnectionId_value c)"

abbreviation plain_session :: "SessionId \<Rightarrow> bool" where
  "plain_session s \<equiv> plain (SessionId_connectionId s)"

abbreviation plain_consumer :: "ConsumerId \<Rightarrow> bool" where
  "plain_consumer c \<equiv> plain (ConsumerId_connectionId c)"

abbreviation plain_producer :: "ProducerId \<Rightarrow> bool" where
  "plain_producer p \<equiv> plain (ProducerId_connectionId p)"

abbreviation plain_transaction :: "LocalTransactionId \<Rightarrow> bool" where
  "plain_transaction x \<equiv> \<exists>c. LocalTransactionId_connectionId x = Some c \<and> plain_connection c"

lemma negative_Some [simp]: "negative (Some r) \<longleftrightarrow> r < 0"
  by (simp add: negative_def)

lemma compare_then_Some [simp]: "compare_then (Some r) s = (if r \<noteq> 0 then Some r else s)"
  by (simp add: compare_then_def)

lemma compare_then_zero [simp]: "compare_then r (Some 0) = r"
  by (simp add: compare_then_def split: option.split)

lemma long_order_three_way: "long_order a b = three_way (sint a) (sint b)"
  by (simp add: long_order_def three_way_def)

lemmas comparisons = compare_natural long_order_three_way three_way_def

interpretation connection_keys: ordered_keys ConnectionId_lt ConnectionId_key plain_connection
  by unfold_locales (simp add: ConnectionId_lt_def ConnectionId_compareTo_def ConnectionId_key_def compare_natural)

interpretation session_keys: ordered_keys SessionId_lt SessionId_key plain_session
  by unfold_locales (auto simp: SessionId_lt_def SessionId_compareTo_def SessionId_key_def comparisons)

interpretation consumer_keys: ordered_keys ConsumerId_lt ConsumerId_key plain_consumer
  by unfold_locales (auto simp: ConsumerId_lt_def ConsumerId_compareTo_def ConsumerId_key_def comparisons)

interpretation producer_keys: ordered_keys ProducerId_lt ProducerId_key plain_producer
  by unfold_locales (auto simp: ProducerId_lt_def ProducerId_compareTo_def ProducerId_key_def comparisons)

interpretation transaction_keys: ordered_keys LocalTransactionId_lt LocalTransactionId_key plain_transaction
  by unfold_locales (auto simp: LocalTransactionId_lt_def LocalTransactionId_compareTo_def LocalTransactionId_key_def
      ConnectionId_compareTo_def ConnectionId_key_def comparisons split: if_splits)

section \<open>The well-formed states\<close>

abbreviation session_connection :: "order_key \<times> int \<Rightarrow> order_key" where
  "session_connection \<equiv> fst"

abbreviation consumer_session :: "order_key \<times> int \<times> int \<Rightarrow> order_key \<times> int" where
  "consumer_session x \<equiv> (fst x, fst (snd x))"

abbreviation producer_session :: "order_key \<times> int \<times> int \<Rightarrow> order_key \<times> int" where
  "producer_session x \<equiv> (fst x, snd (snd x))"

lemma parent_keys [simp]:
  "ConnectionId_key (SessionId_getParentId s) = session_connection (SessionId_key s)"
  "SessionId_key (ConsumerId_getParentId c) = consumer_session (ConsumerId_key c)"
  "SessionId_key (ProducerId_getParentId p) = producer_session (ProducerId_key p)"
  by (simp_all add: ConnectionId_key_def SessionId_key_def ConsumerId_key_def ProducerId_key_def
      SessionId_getParentId_def ConsumerId_getParentId_def ProducerId_getParentId_def)

lemma parent_plain [simp]:
  "plain_connection (SessionId_getParentId s) \<longleftrightarrow> plain_session s"
  "plain_session (ConsumerId_getParentId c) \<longleftrightarrow> plain_consumer c"
  "plain_session (ProducerId_getParentId p) \<longleftrightarrow> plain_producer p"
  by (simp_all add: SessionId_getParentId_def ConsumerId_getParentId_def ProducerId_getParentId_def)

definition producer_ok :: "nat \<Rightarrow> order_key \<times> int \<times> int \<Rightarrow> ProducerState \<Rightarrow> bool" where
  "producer_ok n x ps \<longleftrightarrow>
     (\<exists>p. ProducerInfo_producerId (ProducerState_info ps) = Some p \<and> plain_producer p \<and> ProducerId_key p = x) \<and>
     (\<forall>a. ProducerState_transactionState ps = Some a \<longrightarrow> a < n)"

definition consumer_ok :: "order_key \<times> int \<times> int \<Rightarrow> ConsumerInfo \<Rightarrow> bool" where
  "consumer_ok x info \<longleftrightarrow>
     (\<exists>c. ConsumerInfo_consumerId info = Some c \<and> plain_consumer c \<and> ConsumerId_key c = x)"

definition session_ok :: "nat \<Rightarrow> order_key \<times> int \<Rightarrow> SessionState \<Rightarrow> bool" where
  "session_ok n x ss \<longleftrightarrow> \<not> SessionState_disposed ss \<and>
     (\<exists>s. SessionInfo_sessionId (SessionState_info ss) = Some s \<and> plain_session s \<and> SessionId_key s = x) \<and>
     producer_keys.holds (\<lambda>y ps. producer_session y = x \<and> producer_ok n y ps) (SessionState_producers ss) \<and>
     consumer_keys.holds (\<lambda>y c. consumer_session y = x \<and> consumer_ok y (ConsumerState_info c)) (SessionState_consumers ss)"

definition temp_destination_ok :: "order_key \<Rightarrow> DestinationInfo \<Rightarrow> bool" where
  "temp_destination_ok x info \<longleftrightarrow>
     (\<exists>k d. DestinationInfo_connectionId info = Some k \<and> plain_connection k \<and> ConnectionId_key k = x \<and>
        DestinationInfo_destination info = Some d \<and> Destination_isTemporary d)"

definition connection_ok :: "nat \<Rightarrow> order_key \<Rightarrow> ConnectionState \<Rightarrow> bool" where
  "connection_ok n x cs \<longleftrightarrow> \<not> ConnectionState_disposed cs \<and>
     (\<exists>k. ConnectionInfo_connectionId (ConnectionState_info cs) = Some k \<and> plain_connection k \<and> ConnectionId_key k = x) \<and>
     session_keys.holds (\<lambda>y ss. session_connection y = x \<and> session_ok n y ss) (ConnectionState_sessions cs) \<and>
     transaction_keys.holds (\<lambda>y a. a < n) (ConnectionState_transactions cs) \<and>
     consumer_keys.holds consumer_ok (ConnectionState_recoveringPullConsumers cs) \<and>
     (\<forall>info\<in>set (ConnectionState_tempDestinations cs). temp_destination_ok x info)"

definition within_transaction :: "data_structure \<Rightarrow> bool" where
  "within_transaction d \<longleftrightarrow> (case d of DTransactionInfo info \<Rightarrow> True | _ \<Rightarrow> message_base d \<noteq> None)"

definition transaction_ok :: "nat \<Rightarrow> TransactionState \<Rightarrow> bool" where
  "transaction_ok n ts \<longleftrightarrow> \<not> TransactionState_disposed ts \<and> (\<forall>d\<in>set (TransactionState_commands ts). within_transaction d) \<and>
     producer_keys.holds (producer_ok n) (TransactionState_producers ts)"

fun is_pull :: "data_structure \<Rightarrow> bool" where
  "is_pull (DMessagePull pull) = True"
| "is_pull _ = False"

definition tracker_ok :: "'z StateTracker_scheme \<Rightarrow> bool" where
  "tracker_ok t \<longleftrightarrow>
     connection_keys.holds (connection_ok (length (transactionHeap t))) (connectionStates t) \<and>
     (\<forall>ts\<in>set (transactionHeap t). transaction_ok (length (transactionHeap t)) ts) \<and>
     (\<forall>e\<in>set (messageCache t). message_base (snd e) \<noteq> None) \<and>
     (\<forall>e\<in>set (messagePullCache t). is_pull (snd e))"

text \<open>The commands whose identities have neither white space nor zero bytes in their connection's name.\<close>

fun plain_object :: "data_structure option \<Rightarrow> bool" where
  "plain_object (Some (DConnectionId k)) = plain_connection k"
| "plain_object (Some (DSessionId s)) = plain_session s"
| "plain_object (Some (DConsumerId c)) = plain_consumer c"
| "plain_object (Some (DProducerId p)) = plain_producer p"
| "plain_object _ = True"

definition plain_local :: "TransactionId option \<Rightarrow> bool" where
  "plain_local x \<longleftrightarrow> (case x of Some (Local l) \<Rightarrow> plain_transaction l | _ \<Rightarrow> True)"

definition plain_command :: "data_structure \<Rightarrow> bool" where
  "plain_command command \<longleftrightarrow> (case command of
     DConnectionInfo info \<Rightarrow> pred_option plain_connection (ConnectionInfo_connectionId info)
   | DSessionInfo info \<Rightarrow> pred_option plain_session (SessionInfo_sessionId info)
   | DConsumerInfo info \<Rightarrow> pred_option plain_consumer (ConsumerInfo_consumerId info)
   | DProducerInfo info \<Rightarrow> pred_option plain_producer (ProducerInfo_producerId info)
   | DDestinationInfo info \<Rightarrow> pred_option plain_connection (DestinationInfo_connectionId info)
   | DRemoveInfo info object \<Rightarrow> plain_object object
   | DTransactionInfo info \<Rightarrow> pred_option plain_connection (TransactionInfo_connectionId info) \<and>
       plain_local (TransactionInfo_transactionId info)
   | _ \<Rightarrow> (case message_base command of
       Some m \<Rightarrow> pred_option plain_producer (Message_producerId m) \<and> plain_local (Message_transactionId m)
     | None \<Rightarrow> True))"

section \<open>Tracking keeps the states well-formed\<close>

lemma snd_catch_as [simp]: "snd (catch_as e r) = snd r"
  by (auto simp: catch_as_def split: prod.split sum.split)

lemma unless_failed_ok:
  "P t \<Longrightarrow> (\<And>x t'. r = Inr (x, t') \<Longrightarrow> P t') \<Longrightarrow> P (snd (unless_failed t r))"
  by (auto simp: unless_failed_def split: sum.split)

lemma dereference_Inr [simp]: "dereference p = Inr x \<longleftrightarrow> p = Some x"
  by (simp add: dereference_def)

lemma producer_ok_mono: "producer_ok n x ps \<Longrightarrow> n \<le> n' \<Longrightarrow> producer_ok n' x ps"
  by (auto simp: producer_ok_def)

lemma session_ok_mono:
  assumes "session_ok n x ss" "n \<le> n'"
  shows "session_ok n' x ss"
proof -
  have "producer_keys.holds (\<lambda>y ps. producer_session y = x \<and> producer_ok n' y ps) (SessionState_producers ss)"
    using assms producer_ok_mono [OF _ assms(2)] unfolding session_ok_def
    by (elim conjE) (rule producer_keys.holds_mono, assumption, simp)
  then show ?thesis
    using assms by (simp add: session_ok_def)
qed

lemma connection_ok_mono:
  assumes "connection_ok n x cs" "n \<le> n'"
  shows "connection_ok n' x cs"
proof -
  have "session_keys.holds (\<lambda>y ss. session_connection y = x \<and> session_ok n' y ss) (ConnectionState_sessions cs)"
    using assms session_ok_mono [OF _ assms(2)] unfolding connection_ok_def
    by (elim conjE) (rule session_keys.holds_mono, assumption, simp)
  moreover have "transaction_keys.holds (\<lambda>y a. a < n') (ConnectionState_transactions cs)"
    using assms unfolding connection_ok_def
    by (elim conjE) (rule transaction_keys.holds_mono, assumption, simp)
  ultimately show ?thesis
    using assms by (simp add: connection_ok_def)
qed

lemma transaction_ok_mono:
  assumes "transaction_ok n ts" "n \<le> n'"
  shows "transaction_ok n' ts"
proof -
  have "producer_keys.holds (producer_ok n') (TransactionState_producers ts)"
    using assms producer_ok_mono [OF _ assms(2)] unfolding transaction_ok_def
    by (elim conjE) (rule producer_keys.holds_mono, assumption, simp)
  then show ?thesis
    using assms by (simp add: transaction_ok_def)
qed

lemma get_connection_ok:
  assumes "tracker_ok t" "plain_connection k" "get_connection k t = Inr cs"
  shows "connection_ok (length (transactionHeap t)) (ConnectionId_key k) cs"
  using assms connection_keys.holds_find [of _ "connectionStates t" k cs]
  by (auto simp: tracker_ok_def get_connection_def)

lemma set_connection_ok:
  assumes "tracker_ok t" "plain_connection k" "connection_ok (length (transactionHeap t)) (ConnectionId_key k) cs"
  shows "tracker_ok (set_connection k cs t)"
  using assms by (auto simp: tracker_ok_def set_connection_def intro: connection_keys.holds_assign)

lemma getSessionState_ok:
  assumes "connection_ok n x cs" "plain_session s" "getSessionState s cs = Inr ss"
  shows "session_connection (SessionId_key s) = x \<and> session_ok n (SessionId_key s) ss"
  using assms session_keys.holds_find [of _ "ConnectionState_sessions cs" s ss]
  by (auto simp: connection_ok_def getSessionState_def)

lemma set_session_ok:
  assumes "connection_ok n x cs" "plain_session s" "session_connection (SessionId_key s) = x" "session_ok n (SessionId_key s) ss"
  shows "connection_ok n x (set_session s ss cs)"
  using assms by (auto simp: connection_ok_def set_session_def intro: session_keys.holds_assign)

lemma new_SessionState_ok:
  "SessionInfo_sessionId info = Some s \<Longrightarrow> plain_session s \<Longrightarrow> session_ok n (SessionId_key s) (new_SessionState info)"
  by (simp add: session_ok_def new_SessionState_def)

lemma addSession_ok:
  assumes "connection_ok n x cs" "addSession info cs = Inr cs'"
    "SessionInfo_sessionId info = Some s" "plain_session s" "session_connection (SessionId_key s) = x"
  shows "connection_ok n x cs'"
proof -
  have "cs' = set_session s (new_SessionState info) cs"
    using assms(2,3) by (auto simp: addSession_def set_session_def bind_result_Inr_iff)
  then show ?thesis
    using assms new_SessionState_ok by (auto intro: set_session_ok)
qed

lemma new_ConnectionState_ok:
  assumes "new_ConnectionState info = Inr cs" "ConnectionInfo_connectionId info = Some k" "plain_connection k"
  shows "connection_ok n (ConnectionId_key k) cs"
proof -
  have blank: "connection_ok n (ConnectionId_key k)
      \<lparr>ConnectionState_info = info, ConnectionState_transactions = [], ConnectionState_sessions = [],
       ConnectionState_tempDestinations = [], ConnectionState_disposed = False,
       ConnectionState_connectionInterruptProcessingComplete = True, ConnectionState_recoveringPullConsumers = []\<rparr>"
    using assms(2,3) by (simp add: connection_ok_def)
  show ?thesis
    using assms addSession_ok [OF blank] unfolding new_ConnectionState_def
    by (auto simp: SessionId_key_def ConnectionId_key_def)
qed

lemma processConnectionInfo_ok:
  assumes "tracker_ok t" "pred_option plain_connection (ConnectionInfo_connectionId info)"
  shows "tracker_ok (snd (processConnectionInfo info t))"
  unfolding processConnectionInfo_def snd_catch_as
proof (rule unless_failed_ok [where P = tracker_ok])
  fix x t'
  assume "bind_result (new_ConnectionState info) (\<lambda>cs. bind_result (dereference (ConnectionInfo_connectionId info)) (\<lambda>k.
      Inr (Some TRACKED_RESPONSE_MARKER,
        t\<lparr>connectionStates := snd (cm_put ConnectionId_lt k cs (connectionStates t))\<rparr>))) = Inr (x, t')"
  then obtain cs k where k: "new_ConnectionState info = Inr cs" "ConnectionInfo_connectionId info = Some k"
      "t' = set_connection k cs t"
    by (auto simp: bind_result_Inr_iff set_connection_def)
  then have "connection_ok (length (transactionHeap t)) (ConnectionId_key k) cs"
    using assms(2) new_ConnectionState_ok by simp
  then show "tracker_ok t'"
    using k assms set_connection_ok by simp
qed (rule assms(1))

lemma processRemoveConnection_ok:
  assumes "tracker_ok t"
  shows "tracker_ok (snd (processRemoveConnection k t))"
  using assms by (auto simp: processRemoveConnection_def tracker_ok_def intro: connection_keys.holds_erase)

lemma processSessionInfo_ok:
  assumes "tracker_ok t" "pred_option plain_session (SessionInfo_sessionId info)"
  shows "tracker_ok (snd (processSessionInfo info t))"
  unfolding processSessionInfo_def snd_catch_as
proof (rule unless_failed_ok [where P = tracker_ok, OF assms(1)])
  fix x t'
  assume "bind_result (dereference (SessionInfo_sessionId info)) (\<lambda>s. let k = SessionId_getParentId s in
      bind_result (get_connection k t) (\<lambda>cs. bind_result (addSession info cs) (\<lambda>cs'.
      Inr (Some TRACKED_RESPONSE_MARKER, set_connection k cs' t)))) = Inr (x, t')"
  then obtain s cs cs' where s: "SessionInfo_sessionId info = Some s" "get_connection (SessionId_getParentId s) t = Inr cs"
      "addSession info cs = Inr cs'" "t' = set_connection (SessionId_getParentId s) cs' t"
    by (auto simp: bind_result_Inr_iff Let_def)
  moreover have "plain_session s"
    using s(1) assms(2) by simp
  ultimately show "tracker_ok t'"
    using assms(1) get_connection_ok [OF assms(1) _ s(2)] addSession_ok [OF _ s(3,1)] by (auto intro: set_connection_ok)
qed

lemma removeSession_ok: "connection_ok n x cs \<Longrightarrow> connection_ok n x (removeSession s cs)"
  by (auto simp: connection_ok_def removeSession_def intro: session_keys.holds_erase)

lemma processRemoveSession_ok:
  assumes "tracker_ok t" "plain_session s"
  shows "tracker_ok (snd (processRemoveSession s t))"
  unfolding processRemoveSession_def snd_catch_as using assms get_connection_ok [OF assms(1), of "SessionId_getParentId s"]
  by (intro unless_failed_ok [where P = tracker_ok, OF assms(1)])
    (auto simp: bind_result_Inr_iff Let_def intro!: set_connection_ok removeSession_ok)

lemma addProducer_ok:
  assumes "session_ok n x ss" "ProducerInfo_producerId info = Some p" "plain_producer p"
    "producer_session (ProducerId_key p) = x" "addProducer info ss = Inr ss'"
  shows "session_ok n x ss'"
  using assms by (auto simp: session_ok_def addProducer_def bind_result_Inr_iff producer_ok_def
      intro!: producer_keys.holds_assign)

lemma addConsumer_ok:
  assumes "session_ok n x ss" "ConsumerInfo_consumerId info = Some c" "plain_consumer c"
    "consumer_session (ConsumerId_key c) = x" "addConsumer info ss = Inr ss'"
  shows "session_ok n x ss'"
  using assms by (auto simp: session_ok_def addConsumer_def bind_result_Inr_iff consumer_ok_def
      intro!: consumer_keys.holds_assign)

text \<open>The change of one session of a connection.\<close>

lemma session_change_ok:
  assumes "tracker_ok t" "plain_session s" "get_connection (SessionId_getParentId s) t = Inr cs" "getSessionState s cs = Inr ss"
    "session_ok (length (transactionHeap t)) (SessionId_key s) ss \<Longrightarrow> session_ok (length (transactionHeap t)) (SessionId_key s) ss'"
  shows "connection_ok (length (transactionHeap t)) (ConnectionId_key (SessionId_getParentId s)) (set_session s ss' cs)"
proof -
  have cs: "connection_ok (length (transactionHeap t)) (ConnectionId_key (SessionId_getParentId s)) cs"
    using get_connection_ok [OF assms(1) _ assms(3)] assms(2) by simp
  from getSessionState_ok [OF this assms(2,4)] assms(5) show ?thesis
    by (intro set_session_ok [OF cs assms(2)]) simp_all
qed

lemma processProducerInfo_ok:
  assumes "tracker_ok t" "pred_option plain_producer (ProducerInfo_producerId info)"
  shows "tracker_ok (snd (processProducerInfo info t))"
  unfolding processProducerInfo_def snd_catch_as using assms
  by (intro unless_failed_ok [where P = tracker_ok, OF assms(1)])
    (auto simp: bind_result_Inr_iff Let_def split: option.splits intro!: set_connection_ok session_change_ok elim: addProducer_ok)

lemma processConsumerInfo_ok:
  assumes "tracker_ok t" "pred_option plain_consumer (ConsumerInfo_consumerId info)"
  shows "tracker_ok (snd (processConsumerInfo info t))"
  unfolding processConsumerInfo_def snd_catch_as using assms
  by (intro unless_failed_ok [where P = tracker_ok, OF assms(1)])
    (auto simp: bind_result_Inr_iff Let_def intro!: set_connection_ok session_change_ok elim: addConsumer_ok)

lemma processRemoveConsumer_ok:
  assumes "tracker_ok t" "plain_consumer c"
  shows "tracker_ok (snd (processRemoveConsumer c t))"
  unfolding processRemoveConsumer_def snd_catch_as
proof (rule unless_failed_ok [where P = tracker_ok, OF assms(1)], goal_cases)
  case (1 x t')
  define s where "s = ConsumerId_getParentId c"
  from 1 obtain cs ss where ss: "get_connection (SessionId_getParentId s) t = Inr cs" "getSessionState s cs = Inr ss"
    and t': "t' = set_connection (SessionId_getParentId s) (let cs' = set_session s (snd (SessionState_removeConsumer c ss)) cs in
        cs'\<lparr>ConnectionState_recoveringPullConsumers := map_erase ConsumerId_lt c (ConnectionState_recoveringPullConsumers cs')\<rparr>) t"
    by (auto simp: bind_result_Inr_iff Let_def s_def)
  have plain: "plain_session s"
    using assms(2) by (simp add: s_def)
  have "session_ok n x' ss \<Longrightarrow> session_ok n x' (snd (SessionState_removeConsumer c ss))" for n x'
    by (auto simp: session_ok_def SessionState_removeConsumer_def intro: consumer_keys.holds_erase)
  then have "connection_ok (length (transactionHeap t)) (ConnectionId_key (SessionId_getParentId s))
      (set_session s (snd (SessionState_removeConsumer c ss)) cs)"
    using session_change_ok [OF assms(1) plain ss] by blast
  then show ?case
    using assms(1) plain unfolding t' Let_def
    by (intro set_connection_ok) (auto simp: connection_ok_def intro: consumer_keys.holds_erase)
qed

lemma addTempDestination_ok:
  assumes "addTempDestination info cs = Inr cs'" "DestinationInfo_connectionId info = Some k" "plain_connection k"
    "DestinationInfo_destination info = Some d" "Destination_isTemporary d" "connection_ok n (ConnectionId_key k) cs"
  shows "connection_ok n (ConnectionId_key k) cs'"
  using assms by (auto simp: connection_ok_def addTempDestination_def bind_result_Inr_iff temp_destination_ok_def)

lemma processDestinationInfo_ok:
  assumes "tracker_ok t" "pred_option plain_connection (DestinationInfo_connectionId info)"
  shows "tracker_ok (snd (processDestinationInfo info t))"
  unfolding processDestinationInfo_def snd_catch_as using assms get_connection_ok [OF assms(1)]
  by (intro unless_failed_ok [where P = tracker_ok, OF assms(1)])
    (auto simp: bind_result_Inr_iff split: if_splits intro!: set_connection_ok elim: addTempDestination_ok)

lemma heap_update_ok:
  assumes "tracker_ok t" "transaction_ok (length (transactionHeap t)) ts"
  shows "tracker_ok (t\<lparr>transactionHeap := (transactionHeap t)[a := ts]\<rparr>)"
  using assms set_update_subset_insert [of "transactionHeap t" a ts] by (auto simp: tracker_ok_def)

lemma heap_transaction_ok:
  "tracker_ok t \<Longrightarrow> a < length (transactionHeap t) \<Longrightarrow> transaction_ok (length (transactionHeap t)) (transactionHeap t ! a)"
  by (simp add: tracker_ok_def)

lemma addCommand_ok:
  "transaction_ok n ts \<Longrightarrow> addCommand d ts = Inr ts' \<Longrightarrow> within_transaction d \<Longrightarrow> transaction_ok n ts'"
  by (auto simp: transaction_ok_def addCommand_def bind_result_Inr_iff)

lemma addProducerState_ok:
  assumes "transaction_ok n ts" "producer_ok n x ps" "addProducerState (ps\<lparr>ProducerState_transactionState := None\<rparr>) ts = Inr ts'"
  shows "transaction_ok n ts'"
  using assms by (auto simp: transaction_ok_def addProducerState_def bind_result_Inr_iff producer_ok_def
      intro!: producer_keys.holds_assign)

lemma removeProducer_ok:
  assumes "tracker_ok t" "session_ok (length (transactionHeap t)) x ss" "plain_producer p"
    "SessionState_removeProducer p ss (transactionHeap t) = Inr (ss', heap)"
  shows "session_ok (length (transactionHeap t)) x ss' \<and> tracker_ok (t\<lparr>transactionHeap := heap\<rparr>) \<and>
    length heap = length (transactionHeap t)"
proof -
  have ss': "session_ok (length (transactionHeap t)) x
      (ss\<lparr>SessionState_producers := map_erase ProducerId_lt p (SessionState_producers ss)\<rparr>)"
    using assms(2) by (auto simp: session_ok_def intro: producer_keys.holds_erase)
  show ?thesis
  proof (cases "\<exists>ps a. map_find ProducerId_lt p (SessionState_producers ss) = Some ps \<and> ProducerState_transactionState ps = Some a")
    case True
    then obtain ps a ts where ps: "map_find ProducerId_lt p (SessionState_producers ss) = Some ps"
        "ProducerState_transactionState ps = Some a"
        "addProducerState (ps\<lparr>ProducerState_transactionState := None\<rparr>) (transactionHeap t ! a) = Inr ts"
        "heap = (transactionHeap t)[a := ts]" "ss' = ss\<lparr>SessionState_producers := map_erase ProducerId_lt p (SessionState_producers ss)\<rparr>"
      using assms(4) by (auto simp: SessionState_removeProducer_def bind_result_Inr_iff)
    have ok: "producer_ok (length (transactionHeap t)) (ProducerId_key p) ps"
      using assms(2,3) ps(1) producer_keys.holds_find [of _ "SessionState_producers ss" p ps] by (auto simp: session_ok_def)
    then have "a < length (transactionHeap t)"
      using ps(2) by (simp add: producer_ok_def)
    then have "transaction_ok (length (transactionHeap t)) ts"
      using addProducerState_ok [OF heap_transaction_ok [OF assms(1)] ok ps(3)] by simp
    then show ?thesis
      using ss' ps(4,5) heap_update_ok [OF assms(1)] by simp
  next
    case False
    then have "ss' = ss\<lparr>SessionState_producers := map_erase ProducerId_lt p (SessionState_producers ss)\<rparr> \<and> heap = transactionHeap t"
      using assms(4) by (auto simp: SessionState_removeProducer_def split: option.splits)
    then show ?thesis
      using ss' assms(1) by simp
  qed
qed

lemma processRemoveProducer_ok:
  assumes "tracker_ok t" "plain_producer p"
  shows "tracker_ok (snd (processRemoveProducer p t))"
  unfolding processRemoveProducer_def snd_catch_as
proof (rule unless_failed_ok [where P = tracker_ok, OF assms(1)], goal_cases)
  case (1 x t')
  define s where "s = ProducerId_getParentId p"
  from 1 obtain cs ss ss' heap where ss: "get_connection (SessionId_getParentId s) t = Inr cs" "getSessionState s cs = Inr ss"
    "SessionState_removeProducer p ss (transactionHeap t) = Inr (ss', heap)"
    and t': "t' = set_connection (SessionId_getParentId s) (set_session s ss' cs) (t\<lparr>transactionHeap := heap\<rparr>)"
    by (auto simp: bind_result_Inr_iff Let_def s_def)
  have plain: "plain_session s"
    using assms(2) by (simp add: s_def)
  have cs: "connection_ok (length (transactionHeap t)) (ConnectionId_key (SessionId_getParentId s)) cs"
    using get_connection_ok [OF assms(1) _ ss(1)] plain by simp
  note removed = removeProducer_ok [OF assms(1) conjunct2 [OF getSessionState_ok [OF cs plain ss(2)]] assms(2) ss(3)]
  then have "connection_ok (length (transactionHeap t)) (ConnectionId_key (SessionId_getParentId s)) (set_session s ss' cs)"
    using session_change_ok [OF assms(1) plain ss(1,2)] by blast
  then show ?case
    unfolding t' using removed plain by (intro set_connection_ok) simp_all
qed

lemma getTransactionState_ok:
  assumes "connection_ok n x cs" "plain_local i" "getTransactionState i cs = Inr a"
  shows "a < n"
proof -
  obtain l where "i = Some (Local l)" "map_find LocalTransactionId_lt l (ConnectionState_transactions cs) = Some a"
    using assms(3) by (cases i rule: as_LocalTransactionId.cases) (auto simp: getTransactionState_def)
  then show ?thesis
    using assms(1,2) transaction_keys.holds_find [of _ "ConnectionState_transactions cs" l a]
    by (auto simp: connection_ok_def plain_local_def)
qed

lemma in_transaction_info: "within_transaction (DTransactionInfo info)"
  by (simp add: within_transaction_def)

lemma in_transaction_message: "message_base d = Some m \<Longrightarrow> within_transaction d"
  by (cases d) (simp_all add: within_transaction_def)

lemma add_to_transaction_ok:
  assumes "tracker_ok t" "plain_connection k" "plain_local (TransactionInfo_transactionId info)"
  shows "tracker_ok (snd (add_to_transaction info k reply t))"
  unfolding add_to_transaction_def
proof (rule unless_failed_ok [where P = tracker_ok, OF assms(1)], goal_cases)
  case (1 x t')
  then obtain cs a ts where a: "get_connection k t = Inr cs" "getTransactionState (TransactionInfo_transactionId info) cs = Inr a"
      "addCommand (DTransactionInfo info) (transactionHeap t ! a) = Inr ts" "t' = t\<lparr>transactionHeap := (transactionHeap t)[a := ts]\<rparr>"
    by (auto simp: bind_result_Inr_iff)
  then have "a < length (transactionHeap t)"
    using getTransactionState_ok get_connection_ok assms by blast
  then show ?case
    using a(3,4) assms(1) addCommand_ok heap_transaction_ok heap_update_ok in_transaction_info by blast
qed

lemma process_marked_ok:
  assumes "tracker_ok t" "plain_command (DTransactionInfo info)"
  shows "tracker_ok (snd (process_marked info t))" "tracker_ok (snd (process_completed info t))"
  using assms add_to_transaction_ok
  by (auto simp: process_marked_def process_completed_def plain_command_def split: option.split)

lemma addTransactionState_ok:
  assumes "tracker_ok t" "connection_ok (length (transactionHeap t)) x cs" "plain_local i"
    "addTransactionState i cs (transactionHeap t) = Inr (cs', heap)"
  shows "length (transactionHeap t) \<le> length heap" "connection_ok (length heap) x cs'" "tracker_ok (t\<lparr>transactionHeap := heap\<rparr>)"
proof -
  obtain l where l: "i = Some (Local l)" "heap = transactionHeap t @ [new_TransactionState i]"
      "cs' = cs\<lparr>ConnectionState_transactions := map_assign LocalTransactionId_lt l (length (transactionHeap t)) (ConnectionState_transactions cs)\<rparr>"
    using assms(4) by (cases i rule: as_LocalTransactionId.cases) (auto simp: addTransactionState_def bind_result_Inr_iff)
  show grown: "length (transactionHeap t) \<le> length heap"
    using l(2) by simp
  show "connection_ok (length heap) x cs'"
    using connection_ok_mono [OF assms(2) grown] assms(3) l
    by (auto simp: connection_ok_def plain_local_def intro!: transaction_keys.holds_assign)
  have "transaction_ok (length heap) (new_TransactionState i)"
    by (simp add: transaction_ok_def new_TransactionState_def)
  moreover have "connection_keys.holds (connection_ok (length heap)) (connectionStates t)"
    using assms(1) connection_ok_mono [OF _ grown] unfolding tracker_ok_def
    by (elim conjE) (rule connection_keys.holds_mono, assumption, simp)
  ultimately show "tracker_ok (t\<lparr>transactionHeap := heap\<rparr>)"
    using assms(1) transaction_ok_mono [OF _ grown] l(2) by (auto simp: tracker_ok_def)
qed

lemma processBeginTransaction_ok:
  assumes "tracker_ok t" "plain_command (DTransactionInfo info)"
  shows "tracker_ok (snd (processBeginTransaction info t))"
proof (cases "trackTransactions t \<and> TransactionInfo_connectionId info \<noteq> None")
  case False
  then show ?thesis
    using assms(1) by (auto simp: processBeginTransaction_def)
next
  case True
  then obtain k where k: "TransactionInfo_connectionId info = Some k"
    by blast
  have plain: "plain_connection k" "plain_local (TransactionInfo_transactionId info)"
    using assms(2) k by (simp_all add: plain_command_def)
  have "tracker_ok t'" if begun: "bind_result (get_connection k t) (\<lambda>cs.
      bind_result (addTransactionState (TransactionInfo_transactionId info) cs (transactionHeap t)) (\<lambda>(cs', heap).
      bind_result (getTransactionState (TransactionInfo_transactionId info) cs') (\<lambda>a.
      bind_result (addCommand (DTransactionInfo info) (heap ! a)) (\<lambda>ts.
      Inr (Some TRACKED_RESPONSE_MARKER, set_connection k cs' (t\<lparr>transactionHeap := heap[a := ts]\<rparr>)))))) = Inr (x, t')" for x t'
  proof -
    obtain cs cs' heap a ts where r: "get_connection k t = Inr cs"
        "addTransactionState (TransactionInfo_transactionId info) cs (transactionHeap t) = Inr (cs', heap)"
        "getTransactionState (TransactionInfo_transactionId info) cs' = Inr a"
        "addCommand (DTransactionInfo info) (heap ! a) = Inr ts"
      and t': "t' = set_connection k cs' ((t\<lparr>transactionHeap := heap\<rparr>)\<lparr>transactionHeap := heap[a := ts]\<rparr>)"
      using begun by (auto simp: bind_result_Inr_iff)
    note added = addTransactionState_ok [OF assms(1) get_connection_ok [OF assms(1) plain(1) r(1)] plain(2) r(2)]
    have "a < length heap"
      using getTransactionState_ok [OF added(2) plain(2) r(3)] .
    then have "transaction_ok (length heap) ts"
      using addCommand_ok [OF _ r(4) in_transaction_info] heap_transaction_ok [OF added(3), of a] by simp
    then show ?thesis
      unfolding t' using heap_update_ok [OF added(3), of ts a] added(2) plain(1)
      by (intro set_connection_ok) simp_all
  qed
  then show ?thesis
    unfolding processBeginTransaction_def snd_catch_as using True k assms(1)
    by (auto intro!: unless_failed_ok [where P = tracker_ok])
qed

lemma track_producer_ok:
  assumes "tracker_ok t" "plain_producer p" "get_connection (SessionId_getParentId (ProducerId_getParentId p)) t = Inr cs"
    "a < length (transactionHeap t)"
    "track_producer p a (SessionId_getParentId (ProducerId_getParentId p)) cs t = Inr t'"
  shows "tracker_ok t'"
proof -
  define s where "s = ProducerId_getParentId p"
  obtain ss ps where r: "getSessionState s cs = Inr ss" "map_find ProducerId_lt p (SessionState_producers ss) = Some ps"
    and t': "t' = set_connection (SessionId_getParentId s) (set_session s (ss\<lparr>SessionState_producers :=
        map_assign ProducerId_lt p (ps\<lparr>ProducerState_transactionState := Some a\<rparr>) (SessionState_producers ss)\<rparr>) cs) t"
    using assms(5) by (auto simp: track_producer_def bind_result_Inr_iff Let_def s_def)
  have plain: "plain_session s"
    using assms(2) by (simp add: s_def)
  have "session_ok n x (ss\<lparr>SessionState_producers :=
      map_assign ProducerId_lt p (ps\<lparr>ProducerState_transactionState := Some a\<rparr>) (SessionState_producers ss)\<rparr>)"
    if ok: "session_ok n x ss" and n: "a < n" for n x
  proof -
    have "producer_session (ProducerId_key p) = x \<and> producer_ok n (ProducerId_key p) ps"
      using producer_keys.holds_find [of "\<lambda>y ps. producer_session y = x \<and> producer_ok n y ps" "SessionState_producers ss" p ps]
        ok r(2) assms(2) by (simp add: session_ok_def)
    then show ?thesis
      using ok n assms(2) by (auto simp: session_ok_def producer_ok_def intro!: producer_keys.holds_assign)
  qed
  then have "connection_ok (length (transactionHeap t)) (ConnectionId_key (SessionId_getParentId s)) (set_session s (ss\<lparr>SessionState_producers :=
        map_assign ProducerId_lt p (ps\<lparr>ProducerState_transactionState := Some a\<rparr>) (SessionState_producers ss)\<rparr>) cs)"
    using session_change_ok [OF assms(1) plain _ r(1)] assms(3,4) by (simp add: s_def)
  then show ?thesis
    unfolding t' using plain assms(1) by (intro set_connection_ok) simp_all
qed

lemma set_tl: "x \<in> set (tl xs) \<Longrightarrow> x \<in> set xs"
  by (cases xs) auto

lemma set_AList_update: "e \<in> set (AList.update k v m) \<Longrightarrow> e = (k, v) \<or> e \<in> set m"
  by (induction m) (auto split: if_splits)

lemma MessageCache_put_ok:
  assumes "tracker_ok t" "message_base d \<noteq> None"
  shows "tracker_ok (MessageCache_put ref d t)"
proof -
  have put: "\<forall>e\<in>set (AList.update ref d (messageCache t)). message_base (snd e) \<noteq> None"
    using assms unfolding tracker_ok_def by (metis set_AList_update snd_conv)
  then have "\<forall>e\<in>set (tl (AList.update ref d (messageCache t))). message_base (snd e) \<noteq> None"
    using set_tl by fast
  then show ?thesis
    using assms(1) put by (auto simp: MessageCache_put_def tracker_ok_def Let_def split: option.split)
qed

lemma MessagePullCache_put_ok:
  assumes "tracker_ok t"
  shows "tracker_ok (MessagePullCache_put b (DMessagePull pull) t)"
proof -
  have put: "\<forall>e\<in>set (AList.update b (DMessagePull pull) (messagePullCache t)). is_pull (snd e)"
    using assms unfolding tracker_ok_def by (metis set_AList_update snd_conv is_pull.simps(1))
  then have "\<forall>e\<in>set (tl (AList.update b (DMessagePull pull) (messagePullCache t))). is_pull (snd e)"
    using set_tl by fast
  then show ?thesis
    using assms put by (auto simp: MessagePullCache_put_def tracker_ok_def Let_def)
qed

lemma processMessage_ok:
  assumes "message_base d = Some m" "tracker_ok t" "pred_option plain_producer (Message_producerId m)" "plain_local (Message_transactionId m)"
  shows "tracker_ok (snd (processMessage ref m d t))"
proof (cases "trackTransactions t \<and> Message_transactionId m \<noteq> None")
  case False
  then show ?thesis
    unfolding processMessage_def snd_catch_as if_not_P [OF False] using assms(1,2) by (simp add: MessageCache_put_ok)
next
  case True
  define r where "r = bind_result (dereference (Message_producerId m)) (\<lambda>p.
      let k = SessionId_getParentId (ProducerId_getParentId p) in
      bind_result (get_connection k t) (\<lambda>cs.
      bind_result (getTransactionState (Message_transactionId m) cs) (\<lambda>a.
      bind_result (addCommand d (transactionHeap t ! a)) (\<lambda>ts.
      Inr (p, k, cs, a, ts)))))"
  show ?thesis
  proof (cases r)
    case (Inl e)
    then show ?thesis
      using True assms(2) by (simp add: processMessage_def r_def [symmetric])
  next
    case (Inr x)
    then obtain p k cs a ts where x: "x = (p, k, cs, a, ts)" "Message_producerId m = Some p" "get_connection k t = Inr cs"
        "getTransactionState (Message_transactionId m) cs = Inr a" "addCommand d (transactionHeap t ! a) = Inr ts"
        "k = SessionId_getParentId (ProducerId_getParentId p)"
      by (auto simp: r_def bind_result_Inr_iff Let_def)
    have plain: "plain_producer p" "plain_connection k"
      using assms(3) x(2,6) by simp_all
    have a: "a < length (transactionHeap t)"
      using getTransactionState_ok [OF get_connection_ok [OF assms(2) plain(2) x(3)] assms(4) x(4)] .
    then have t': "tracker_ok (t\<lparr>transactionHeap := (transactionHeap t)[a := ts]\<rparr>)" (is "tracker_ok ?t")
      using assms(2) x(5) addCommand_ok heap_transaction_ok heap_update_ok in_transaction_message [OF assms(1)] by blast
    moreover have "get_connection k ?t = Inr cs"
      using x(3) by (simp add: get_connection_def)
    ultimately have "tracker_ok t''" if "track_producer p a k cs ?t = Inr t''" for t''
      using track_producer_ok [OF t' plain(1), of cs a t''] that a x(6) by simp
    then show ?thesis
      using True t' unfolding processMessage_def snd_catch_as r_def [symmetric] Inr x(1)
      by (auto simp: Let_def split: sum.split)
  qed
qed

lemma processRemoveInfo_ok:
  assumes "tracker_ok t" "plain_object object"
  shows "tracker_ok (snd (processRemoveInfo object t))"
  using assms processRemoveConnection_ok processRemoveSession_ok processRemoveConsumer_ok processRemoveProducer_ok
  by (cases "(object, t)" rule: processRemoveInfo.cases) auto

lemma processTransactionInfo_ok:
  assumes "tracker_ok t" "plain_command (DTransactionInfo info)"
  shows "tracker_ok (snd (processTransactionInfo info t))"
  using assms process_marked_ok processBeginTransaction_ok
  by (auto simp: processTransactionInfo_def Let_def processPrepareTransaction_def processEndTransaction_def
      processCommitTransactionOnePhase_def processCommitTransactionTwoPhase_def processRollbackTransaction_def)

lemma visit_message:
  assumes "message_base d = Some m"
  shows "visit ref d t = processMessage ref m d t"
    "plain_command d \<longleftrightarrow> pred_option plain_producer (Message_producerId m) \<and> plain_local (Message_transactionId m)"
  using assms by (cases d; simp add: visit_def plain_command_def)+

lemma track_ok:
  assumes "tracker_ok t" "plain_command command"
  shows "tracker_ok (snd (track ref command t))"
proof (cases "message_base command")
  case (Some m)
  then show ?thesis
    using assms by (simp add: track_def visit_message [OF Some] processMessage_ok [OF Some])
next
  case None
  have "tracker_ok (snd (processTransactionInfo info t))" if "command = DTransactionInfo info" for info
    using that assms processTransactionInfo_ok by blast
  then show ?thesis
    using None assms processConnectionInfo_ok processSessionInfo_ok processConsumerInfo_ok processProducerInfo_ok
      processDestinationInfo_ok processRemoveInfo_ok
    by (cases command) (auto simp: track_def visit_def plain_command_def processMessagePull_def MessagePullCache_put_ok split: option.split)
qed

end
