(* ===== verification/Registry.thy ===== *)
theory Registry
  imports Restoring
begin

text \<open>
  The promise of the state tracker, as a specification: the registry of the objects that the commands so far
  have opened and not closed. The tracker follows it, and what it sends on \<open>restore\<close> builds the
  same registry from nothing.
\<close>

section \<open>The registry\<close>

record session_entry =
  entry_session :: SessionInfo
  entry_producers :: "order_key \<times> int \<times> int \<rightharpoonup> ProducerInfo"
  entry_consumers :: "order_key \<times> int \<times> int \<rightharpoonup> ConsumerInfo"

record connection_entry =
  entry_connection :: ConnectionInfo
  entry_tempDestinations :: "DestinationInfo list"
  entry_sessions :: "order_key \<times> int \<rightharpoonup> session_entry"

type_synonym registry = "order_key \<rightharpoonup> connection_entry"

definition open_session :: "SessionInfo \<Rightarrow> session_entry" where
  "open_session info = \<lparr>entry_session = info, entry_producers = Map.empty, entry_consumers = Map.empty\<rparr>"

text \<open>A connection opens with the session of its advisory consumers, which has the number -1.\<close>

definition open_connection :: "ConnectionInfo \<Rightarrow> ConnectionId \<Rightarrow> connection_entry" where
  "open_connection info k = \<lparr>entry_connection = info, entry_tempDestinations = [],
     entry_sessions = [(ConnectionId_key k, - 1) \<mapsto> open_session (create_SessionInfo\<lparr>SessionInfo_sessionId :=
       Some \<lparr>SessionId_connectionId = ConnectionId_value k, SessionId_value = - 1\<rparr>\<rparr>)]\<rparr>"

definition change_session :: "order_key \<times> int \<Rightarrow> (session_entry \<Rightarrow> session_entry) \<Rightarrow> registry \<Rightarrow> registry option" where
  "change_session x f R = Option.bind (R (session_connection x)) (\<lambda>c.
     Option.bind (entry_sessions c x) (\<lambda>s.
     Some (R(session_connection x \<mapsto> c\<lparr>entry_sessions := (entry_sessions c)(x \<mapsto> f s)\<rparr>))))"

text \<open>
  What a command does to the registry; \<open>None\<close> if an identity is missing or if the connection or
  session it belongs to is not open.
\<close>

fun closes :: "data_structure option \<Rightarrow> registry \<Rightarrow> registry option" where
  "closes (Some (DConnectionId k)) R = Some (R(ConnectionId_key k := None))"
| "closes (Some (DSessionId s)) R = Option.bind (R (session_connection (SessionId_key s))) (\<lambda>c.
     Some (R(session_connection (SessionId_key s) \<mapsto> c\<lparr>entry_sessions := (entry_sessions c)(SessionId_key s := None)\<rparr>)))"
| "closes (Some (DConsumerId c)) R = change_session (consumer_session (ConsumerId_key c))
     (\<lambda>s. s\<lparr>entry_consumers := (entry_consumers s)(ConsumerId_key c := None)\<rparr>) R"
| "closes (Some (DProducerId p)) R = change_session (producer_session (ProducerId_key p))
     (\<lambda>s. s\<lparr>entry_producers := (entry_producers s)(ProducerId_key p := None)\<rparr>) R"
| "closes _ R = None"

fun registers :: "data_structure \<Rightarrow> registry \<Rightarrow> registry option" where
  "registers (DConnectionInfo info) R = Option.bind (ConnectionInfo_connectionId info) (\<lambda>k.
     Some (R(ConnectionId_key k \<mapsto> open_connection info k)))"
| "registers (DSessionInfo info) R = Option.bind (SessionInfo_sessionId info) (\<lambda>s.
     Option.bind (R (session_connection (SessionId_key s))) (\<lambda>c.
     Some (R(session_connection (SessionId_key s) \<mapsto>
       c\<lparr>entry_sessions := (entry_sessions c)(SessionId_key s \<mapsto> open_session info)\<rparr>))))"
| "registers (DProducerInfo info) R = (case ProducerInfo_producerId info of None \<Rightarrow> Some R
     | Some p \<Rightarrow> change_session (producer_session (ProducerId_key p))
         (\<lambda>s. s\<lparr>entry_producers := (entry_producers s)(ProducerId_key p \<mapsto> info)\<rparr>) R)"
| "registers (DConsumerInfo info) R = Option.bind (ConsumerInfo_consumerId info) (\<lambda>c.
     change_session (consumer_session (ConsumerId_key c))
       (\<lambda>s. s\<lparr>entry_consumers := (entry_consumers s)(ConsumerId_key c \<mapsto> info)\<rparr>) R)"
| "registers (DDestinationInfo info) R = Option.bind (DestinationInfo_connectionId info) (\<lambda>k.
     Option.bind (R (ConnectionId_key k)) (\<lambda>c.
     Option.bind (DestinationInfo_destination info) (\<lambda>d.
     Some (if Destination_isTemporary d
       then R(ConnectionId_key k \<mapsto> c\<lparr>entry_tempDestinations := entry_tempDestinations c @ [info]\<rparr>) else R))))"
| "registers (DRemoveInfo info object) R = closes object R"
| "registers _ R = Some R"

fun register_all :: "data_structure list \<Rightarrow> registry \<Rightarrow> registry option" where
  "register_all [] R = Some R"
| "register_all (d # ds) R = Option.bind (registers d R) (register_all ds)"

lemma register_all_append: "register_all (ds @ es) R = Option.bind (register_all ds R) (register_all es)"
  by (induction ds arbitrary: R) (auto split: Option.bind_split)

section \<open>The registry of a tracker\<close>

definition session_view :: "SessionState \<Rightarrow> session_entry" where
  "session_view ss = \<lparr>entry_session = SessionState_info ss,
     entry_producers = (\<lambda>x. map_option ProducerState_info (producer_keys.lookup (SessionState_producers ss) x)),
     entry_consumers = (\<lambda>x. map_option ConsumerState_info (consumer_keys.lookup (SessionState_consumers ss) x))\<rparr>"

definition connection_view :: "ConnectionState \<Rightarrow> connection_entry" where
  "connection_view cs = \<lparr>entry_connection = ConnectionState_info cs,
     entry_tempDestinations = ConnectionState_tempDestinations cs,
     entry_sessions = (\<lambda>x. map_option session_view (session_keys.lookup (ConnectionState_sessions cs) x))\<rparr>"

definition tracker_view :: "'z StateTracker_scheme \<Rightarrow> registry" where
  "tracker_view t = (\<lambda>x. map_option connection_view (connection_keys.lookup (connectionStates t) x))"

lemma ok_keyed:
  "tracker_ok t \<Longrightarrow> connection_keys.keyed (connectionStates t)"
  "connection_ok n x cs \<Longrightarrow> session_keys.keyed (ConnectionState_sessions cs)"
  "session_ok n y ss \<Longrightarrow> producer_keys.keyed (SessionState_producers ss)"
  "session_ok n y ss \<Longrightarrow> consumer_keys.keyed (SessionState_consumers ss)"
  by (simp_all add: tracker_ok_def connection_ok_def session_ok_def connection_keys.holds_def session_keys.holds_def
      producer_keys.holds_def consumer_keys.holds_def)

lemma get_connection_view:
  assumes "tracker_ok t" "plain_connection k"
  shows "get_connection k t = of_option NoSuchElementException (connection_keys.lookup (connectionStates t) (ConnectionId_key k))"
  using assms by (simp add: get_connection_def ok_keyed connection_keys.find_lookup)

lemma set_connection_view:
  assumes "tracker_ok t" "plain_connection k"
  shows "tracker_view (set_connection k cs t) = (tracker_view t)(ConnectionId_key k \<mapsto> connection_view cs)"
  using assms by (auto simp: set_connection_def tracker_view_def ok_keyed connection_keys.lookup_assign)

lemma get_session_view:
  assumes "connection_ok n x cs" "plain_session s"
  shows "getSessionState s cs = of_option NoSuchElementException (session_keys.lookup (ConnectionState_sessions cs) (SessionId_key s))"
  using assms by (simp add: getSessionState_def ok_keyed session_keys.find_lookup)

lemma set_session_view:
  assumes "connection_ok n x cs" "plain_session s"
  shows "connection_view (set_session s ss cs) =
    (connection_view cs)\<lparr>entry_sessions := (entry_sessions (connection_view cs))(SessionId_key s \<mapsto> session_view ss)\<rparr>"
  using assms by (auto simp: set_session_def connection_view_def ok_keyed session_keys.lookup_assign)

text \<open>The result of a method that follows the registry: it fails if the registry refuses the command.\<close>

definition follows :: "registry option \<Rightarrow> 'z StateTracker_scheme \<Rightarrow> tracked option result \<times> 'z StateTracker_scheme \<Rightarrow> bool" where
  "follows R t r \<longleftrightarrow> (case R of
     Some R' \<Rightarrow> fst r = Inr (Some TRACKED_RESPONSE_MARKER) \<and> tracker_view (snd r) = R'
   | None \<Rightarrow> fst r = Inl ActiveMQException \<and> snd r = t)"

lemma follows_failed:
  "follows None t (catch_as ActiveMQException (unless_failed t (Inl e))) \<longleftrightarrow> e \<noteq> UndefinedBehaviour"
  by (auto simp: follows_def catch_as_def unless_failed_def)

lemma follows_done [simp]:
  "follows (Some R) t (catch_as ActiveMQException (unless_failed t (Inr (Some TRACKED_RESPONSE_MARKER, t')))) \<longleftrightarrow> tracker_view t' = R"
  by (auto simp: follows_def catch_as_def unless_failed_def)

lemma new_SessionState_view: "session_view (new_SessionState info) = open_session info"
  by (simp add: session_view_def new_SessionState_def open_session_def)

lemma addSession_result:
  "connection_ok n x cs \<Longrightarrow> SessionInfo_sessionId info = Some s \<Longrightarrow> addSession info cs = Inr (set_session s (new_SessionState info) cs)"
  by (simp add: addSession_def ConnectionState_checkShutdown_def connection_ok_def guard_result_def set_session_def dereference_def)

lemma connection_cases:
  assumes "tracker_ok t" "plain_connection k"
  obtains (closed) "tracker_view t (ConnectionId_key k) = None" "get_connection k t = Inl NoSuchElementException"
    | (opened) cs where "tracker_view t (ConnectionId_key k) = Some (connection_view cs)" "get_connection k t = Inr cs"
        "connection_ok (length (transactionHeap t)) (ConnectionId_key k) cs"
proof (cases "connection_keys.lookup (connectionStates t) (ConnectionId_key k)")
  case None
  then show ?thesis
    using closed get_connection_view [OF assms] by (simp add: tracker_view_def)
next
  case (Some cs)
  then have "get_connection k t = Inr cs"
    using get_connection_view [OF assms] by simp
  then show ?thesis
    using opened [of cs] Some get_connection_ok [OF assms] by (simp add: tracker_view_def)
qed

lemma session_cases:
  assumes "connection_ok n x cs" "plain_session s"
  obtains (closed) "entry_sessions (connection_view cs) (SessionId_key s) = None" "getSessionState s cs = Inl NoSuchElementException"
    | (opened) ss where "entry_sessions (connection_view cs) (SessionId_key s) = Some (session_view ss)" "getSessionState s cs = Inr ss"
        "session_ok n (SessionId_key s) ss"
proof (cases "session_keys.lookup (ConnectionState_sessions cs) (SessionId_key s)")
  case None
  then show ?thesis
    using closed get_session_view [OF assms] by (simp add: connection_view_def)
next
  case (Some ss)
  then have "getSessionState s cs = Inr ss"
    using get_session_view [OF assms] by simp
  then show ?thesis
    using opened [of ss] Some getSessionState_ok [OF assms] by (simp add: connection_view_def)
qed

lemma dereference_simps [simp]: "dereference None = Inl NullPointerException" "dereference (Some x) = Inr x"
  by (simp_all add: dereference_def)

lemma processConnectionInfo_follows:
  assumes "tracker_ok t" "ConnectionInfo_connectionId info = Some k" "plain_connection k"
  shows "follows (registers (DConnectionInfo info) (tracker_view t)) t (processConnectionInfo info t)"
proof -
  obtain cs where cs: "new_ConnectionState info = Inr cs" "connection_view cs = open_connection info k"
    using assms(2) by (simp add: new_ConnectionState_def addSession_def ConnectionState_checkShutdown_def guard_result_def
        connection_view_def open_connection_def session_keys.lookup_Cons new_SessionState_view SessionId_key_def
        ConnectionId_key_def fun_eq_iff)
  show ?thesis
    using assms cs set_connection_view [OF assms(1,3), of cs]
    by (simp add: processConnectionInfo_def set_connection_def)
qed

lemma processRemoveConnection_follows:
  assumes "tracker_ok t" "plain_connection k"
  shows "follows (closes (Some (DConnectionId k)) (tracker_view t)) t (processRemoveConnection k t)"
  using assms by (auto simp: follows_def processRemoveConnection_def tracker_view_def ok_keyed connection_keys.lookup_erase)

lemma processSessionInfo_follows:
  assumes "tracker_ok t" "pred_option plain_session (SessionInfo_sessionId info)"
  shows "follows (registers (DSessionInfo info) (tracker_view t)) t (processSessionInfo info t)"
proof (cases "SessionInfo_sessionId info")
  case None
  then show ?thesis
    by (simp add: processSessionInfo_def follows_failed)
next
  case (Some s)
  then have plain: "plain_session s" "plain_connection (SessionId_getParentId s)"
    using assms(2) by simp_all
  show ?thesis
    using assms(1) plain(2)
  proof (cases rule: connection_cases)
    case closed
    then show ?thesis
      using Some by (simp add: processSessionInfo_def follows_failed)
  next
    case (opened cs)
    then show ?thesis
      using Some plain assms(1) addSession_result [OF opened(3)] set_session_view [OF opened(3) plain(1)]
      by (simp add: processSessionInfo_def Let_def set_connection_view new_SessionState_view)
  qed
qed

lemma processRemoveSession_follows:
  assumes "tracker_ok t" "plain_session s"
  shows "follows (closes (Some (DSessionId s)) (tracker_view t)) t (processRemoveSession s t)"
proof -
  have plain: "plain_connection (SessionId_getParentId s)"
    using assms(2) by simp
  show ?thesis
    using assms(1) plain
  proof (cases rule: connection_cases)
    case closed
    then show ?thesis
      by (simp add: processRemoveSession_def follows_failed)
  next
    case (opened cs)
    have "connection_view (removeSession s cs) =
        (connection_view cs)\<lparr>entry_sessions := (entry_sessions (connection_view cs))(SessionId_key s := None)\<rparr>"
      using opened(3) assms(2) by (auto simp: connection_view_def removeSession_def ok_keyed session_keys.lookup_erase)
    then show ?thesis
      using opened plain assms(1) by (simp add: processRemoveSession_def Let_def set_connection_view)
  qed
qed

text \<open>The methods that change one session.\<close>

lemma change_session_follows:
  assumes "tracker_ok t" "plain_session s"
    and "\<And>cs ss. get_connection (SessionId_getParentId s) t = Inr cs \<Longrightarrow> getSessionState s cs = Inr ss \<Longrightarrow>
      session_ok (length (transactionHeap t)) (SessionId_key s) ss \<Longrightarrow>
      \<exists>ss' t'. r = Inr (Some TRACKED_RESPONSE_MARKER, t') \<and> session_view ss' = f (session_view ss) \<and>
        tracker_view t' = tracker_view (set_connection (SessionId_getParentId s) (set_session s ss' cs) t)"
    and "\<And>e. get_connection (SessionId_getParentId s) t = Inl e \<Longrightarrow> r = Inl e"
    and "\<And>cs e. get_connection (SessionId_getParentId s) t = Inr cs \<Longrightarrow> getSessionState s cs = Inl e \<Longrightarrow> r = Inl e"
  shows "follows (change_session (SessionId_key s) f (tracker_view t)) t (catch_as ActiveMQException (unless_failed t r))"
proof -
  have plain: "plain_connection (SessionId_getParentId s)"
    using assms(2) by simp
  show ?thesis
    using assms(1) plain
  proof (cases rule: connection_cases)
    case closed
    then show ?thesis
      using assms(4) by (simp add: change_session_def follows_failed)
  next
    case (opened cs)
    note connection = opened
    show ?thesis
      using opened(3) assms(2)
    proof (cases rule: session_cases)
      case closed
      then show ?thesis
        using assms(5) [OF connection(2)] connection(1) by (simp add: change_session_def follows_failed)
    next
      case (opened ss)
      then obtain ss' t' where "r = Inr (Some TRACKED_RESPONSE_MARKER, t')" "session_view ss' = f (session_view ss)"
          "tracker_view t' = tracker_view (set_connection (SessionId_getParentId s) (set_session s ss' cs) t)"
        using assms(3) [OF connection(2)] by blast
      then show ?thesis
        using opened connection assms(1,2) plain set_session_view [OF connection(3) assms(2), of ss']
        by (simp add: change_session_def set_connection_view)
    qed
  qed
qed

lemma addProducer_result:
  assumes "session_ok n x ss" "ProducerInfo_producerId info = Some p" "plain_producer p"
  shows "\<exists>ss'. addProducer info ss = Inr ss' \<and>
    session_view ss' = (session_view ss)\<lparr>entry_producers := (entry_producers (session_view ss))(ProducerId_key p \<mapsto> info)\<rparr>"
  using assms by (auto simp: addProducer_def SessionState_checkShutdown_def session_ok_def guard_result_def session_view_def
      producer_keys.holds_def producer_keys.lookup_assign)

lemma addConsumer_result:
  assumes "session_ok n x ss" "ConsumerInfo_consumerId info = Some c" "plain_consumer c"
  shows "\<exists>ss'. addConsumer info ss = Inr ss' \<and>
    session_view ss' = (session_view ss)\<lparr>entry_consumers := (entry_consumers (session_view ss))(ConsumerId_key c \<mapsto> info)\<rparr>"
  using assms by (auto simp: addConsumer_def SessionState_checkShutdown_def session_ok_def guard_result_def session_view_def
      consumer_keys.holds_def consumer_keys.lookup_assign)

lemma processProducerInfo_follows:
  assumes "tracker_ok t" "pred_option plain_producer (ProducerInfo_producerId info)"
  shows "follows (registers (DProducerInfo info) (tracker_view t)) t (processProducerInfo info t)"
proof (cases "ProducerInfo_producerId info")
  case None
  then show ?thesis
    by (simp add: processProducerInfo_def)
next
  case (Some p)
  then have p: "plain_session (ProducerId_getParentId p)" "plain_producer p"
    using assms(2) by simp_all
  show ?thesis
    using Some unfolding processProducerInfo_def
    by (auto simp: Let_def bind_result_Inr_iff simp flip: parent_keys(3)
        intro!: change_session_follows [OF assms(1) p(1)] dest!: addProducer_result [OF _ Some p(2)])
qed

lemma processConsumerInfo_follows:
  assumes "tracker_ok t" "pred_option plain_consumer (ConsumerInfo_consumerId info)"
  shows "follows (registers (DConsumerInfo info) (tracker_view t)) t (processConsumerInfo info t)"
proof (cases "ConsumerInfo_consumerId info")
  case None
  then show ?thesis
    by (simp add: processConsumerInfo_def follows_failed)
next
  case (Some c)
  then have c: "plain_session (ConsumerId_getParentId c)" "plain_consumer c"
    using assms(2) by simp_all
  show ?thesis
    using Some unfolding processConsumerInfo_def
    by (auto simp: Let_def bind_result_Inr_iff simp flip: parent_keys(2)
        intro!: change_session_follows [OF assms(1) c(1)] dest!: addConsumer_result [OF _ Some c(2)])
qed

text \<open>What the registry does not show: recovering consumers and transactions.\<close>

lemma recovering_view [simp]:
  "connection_view (cs\<lparr>ConnectionState_recoveringPullConsumers := m\<rparr>) = connection_view cs"
  "connection_view (cs\<lparr>ConnectionState_transactions := txs\<rparr>) = connection_view cs"
  "connection_view (cs\<lparr>ConnectionState_connectionInterruptProcessingComplete := b\<rparr>) = connection_view cs"
  by (simp_all add: connection_view_def)

lemma heap_view [simp]:
  "tracker_view (t\<lparr>transactionHeap := heap\<rparr>) = tracker_view t"
  "tracker_view (t\<lparr>messageCache := mc\<rparr>) = tracker_view t"
  "tracker_view (t\<lparr>currentCacheSize := n\<rparr>) = tracker_view t"
  "tracker_view (t\<lparr>messagePullCache := pc\<rparr>) = tracker_view t"
  by (simp_all add: tracker_view_def)

lemma processRemoveConsumer_follows:
  assumes "tracker_ok t" "plain_consumer c"
  shows "follows (closes (Some (DConsumerId c)) (tracker_view t)) t (processRemoveConsumer c t)"
proof -
  have s: "plain_session (ConsumerId_getParentId c)" "plain_connection (SessionId_getParentId (ConsumerId_getParentId c))"
    using assms(2) by simp_all
  have view: "session_view (snd (SessionState_removeConsumer c ss)) =
      (session_view ss)\<lparr>entry_consumers := (entry_consumers (session_view ss))(ConsumerId_key c := None)\<rparr>"
    if "session_ok n x ss" for n x ss
    using that assms(2) by (auto simp: session_view_def SessionState_removeConsumer_def ok_keyed consumer_keys.lookup_erase)
  show ?thesis
    unfolding processRemoveConsumer_def closes.simps parent_keys(2) [symmetric]
    by (rule change_session_follows [OF assms(1) s(1)])
      (auto simp: Let_def set_connection_view [OF assms(1) s(2)] dest!: view)
qed

lemma SessionState_removeProducer_result:
  assumes "tracker_ok t" "session_ok (length (transactionHeap t)) x ss" "plain_producer p"
  shows "\<exists>heap. SessionState_removeProducer p ss (transactionHeap t) =
    Inr (ss\<lparr>SessionState_producers := map_erase ProducerId_lt p (SessionState_producers ss)\<rparr>, heap)"
proof (cases "map_find ProducerId_lt p (SessionState_producers ss)")
  case None
  then show ?thesis
    by (simp add: SessionState_removeProducer_def)
next
  case (Some ps)
  then have "producer_ok (length (transactionHeap t)) (ProducerId_key p) ps"
    using assms(2,3) producer_keys.holds_find [of _ "SessionState_producers ss" p ps] by (auto simp: session_ok_def)
  then show ?thesis
    using Some by (auto simp: SessionState_removeProducer_def addProducerState_def producer_ok_def split: option.split)
qed

lemma processRemoveProducer_follows:
  assumes "tracker_ok t" "plain_producer p"
  shows "follows (closes (Some (DProducerId p)) (tracker_view t)) t (processRemoveProducer p t)"
proof -
  have s: "plain_session (ProducerId_getParentId p)" "plain_connection (SessionId_getParentId (ProducerId_getParentId p))"
    using assms(2) by simp_all
  have view: "session_view (ss\<lparr>SessionState_producers := map_erase ProducerId_lt p (SessionState_producers ss)\<rparr>) =
      (session_view ss)\<lparr>entry_producers := (entry_producers (session_view ss))(ProducerId_key p := None)\<rparr>"
    if "session_ok n x ss" for n x ss
    using that assms(2) by (auto simp: session_view_def ok_keyed producer_keys.lookup_erase)
  have heap: "tracker_view (set_connection k cs (t\<lparr>transactionHeap := h\<rparr>)) = tracker_view (set_connection k cs t)" for k cs h
    by (simp add: set_connection_def tracker_view_def)
  show ?thesis
    unfolding processRemoveProducer_def closes.simps parent_keys(3) [symmetric]
  proof (rule change_session_follows [OF assms(1) s(1)], goal_cases)
    case (1 cs ss)
    then obtain h where "SessionState_removeProducer p ss (transactionHeap t) =
        Inr (ss\<lparr>SessionState_producers := map_erase ProducerId_lt p (SessionState_producers ss)\<rparr>, h)"
      using SessionState_removeProducer_result [OF assms(1) _ assms(2)] by blast
    then show ?case
      using 1 view [OF 1(3)] heap by (fastforce simp: Let_def)
  qed (auto simp: Let_def)
qed

lemma processDestinationInfo_follows:
  assumes "tracker_ok t" "pred_option plain_connection (DestinationInfo_connectionId info)"
  shows "follows (registers (DDestinationInfo info) (tracker_view t)) t (processDestinationInfo info t)"
proof (cases "DestinationInfo_connectionId info")
  case None
  then show ?thesis
    by (simp add: processDestinationInfo_def follows_failed)
next
  case (Some k)
  then have plain: "plain_connection k"
    using assms(2) by simp
  show ?thesis
    using assms(1) plain
  proof (cases rule: connection_cases)
    case closed
    then show ?thesis
      using Some by (simp add: processDestinationInfo_def follows_failed)
  next
    case (opened cs)
    then show ?thesis
      using Some plain assms(1)
      by (cases "DestinationInfo_destination info")
        (auto simp: processDestinationInfo_def follows_failed addTempDestination_def ConnectionState_checkShutdown_def
          guard_result_def connection_ok_def set_connection_view, auto simp: connection_view_def)
  qed
qed

lemma set_connection_same:
  assumes "tracker_ok t" "plain_connection k" "get_connection k t = Inr cs" "connection_view cs' = connection_view cs"
  shows "tracker_view (set_connection k cs' t) = tracker_view t"
  using assms set_connection_view [OF assms(1,2), of cs'] get_connection_view [OF assms(1,2)]
  by (auto simp: tracker_view_def)

lemma set_connection_heap: "set_connection k cs (t\<lparr>transactionHeap := h\<rparr>) = (set_connection k cs t)\<lparr>transactionHeap := h\<rparr>"
  by (simp add: set_connection_def)

lemma unless_failed_view:
  "(\<And>x t'. r = Inr (x, t') \<Longrightarrow> tracker_view t' = R) \<Longrightarrow> tracker_view t = R \<Longrightarrow> tracker_view (snd (unless_failed t r)) = R"
  by (auto simp: unless_failed_def split: sum.split)

lemma track_producer_view:
  assumes "tracker_ok t" "plain_producer p" "get_connection (SessionId_getParentId (ProducerId_getParentId p)) t = Inr cs"
    "track_producer p a (SessionId_getParentId (ProducerId_getParentId p)) cs t = Inr t'"
  shows "tracker_view t' = tracker_view t"
proof -
  define s where "s = ProducerId_getParentId p"
  obtain ss ps where r: "getSessionState s cs = Inr ss" "map_find ProducerId_lt p (SessionState_producers ss) = Some ps"
    and t': "t' = set_connection (SessionId_getParentId s) (set_session s (ss\<lparr>SessionState_producers :=
        map_assign ProducerId_lt p (ps\<lparr>ProducerState_transactionState := Some a\<rparr>) (SessionState_producers ss)\<rparr>) cs) t"
    using assms(4) by (auto simp: track_producer_def bind_result_Inr_iff Let_def s_def)
  have plain: "plain_session s"
    using assms(2) by (simp add: s_def)
  have cs: "connection_ok (length (transactionHeap t)) (ConnectionId_key (SessionId_getParentId s)) cs"
    using get_connection_ok [OF assms(1) _ assms(3)] plain by (simp add: s_def)
  have ss: "session_ok (length (transactionHeap t)) (SessionId_key s) ss"
    using getSessionState_ok [OF cs plain r(1)] by simp
  have "session_view (ss\<lparr>SessionState_producers :=
      map_assign ProducerId_lt p (ps\<lparr>ProducerState_transactionState := Some a\<rparr>) (SessionState_producers ss)\<rparr>) = session_view ss"
    using ss assms(2) r(2) by (auto simp: session_view_def ok_keyed producer_keys.lookup_assign producer_keys.find_lookup)
  moreover have "entry_sessions (connection_view cs) (SessionId_key s) = Some (session_view ss)"
    using r(1) get_session_view [OF cs plain] by (simp add: connection_view_def)
  ultimately have "connection_view (set_session s (ss\<lparr>SessionState_producers :=
      map_assign ProducerId_lt p (ps\<lparr>ProducerState_transactionState := Some a\<rparr>) (SessionState_producers ss)\<rparr>) cs) = connection_view cs"
    using set_session_view [OF cs plain] by (simp add: fun_upd_idem)
  then show ?thesis
    unfolding t' using set_connection_same [OF assms(1) _ assms(3)] plain by (simp add: s_def)
qed

lemma processMessage_view:
  assumes "tracker_ok t" "pred_option plain_producer (Message_producerId m)"
  shows "tracker_view (snd (processMessage ref m d t)) = tracker_view t"
proof (cases "trackTransactions t \<and> Message_transactionId m \<noteq> None")
  case False
  then show ?thesis
    unfolding processMessage_def snd_catch_as if_not_P [OF False]
    by (auto simp: MessageCache_put_def Let_def split: option.split)
next
  case True
  have track: "tracker_view t'' = tracker_view t"
    if m: "Message_producerId m = Some p" and cs: "get_connection (SessionId_getParentId (ProducerId_getParentId p)) t = Inr cs"
      and tp: "track_producer p a (SessionId_getParentId (ProducerId_getParentId p)) cs (t\<lparr>transactionHeap := h\<rparr>) = Inr t''" for p cs a h t''
  proof -
    obtain t3 where t3: "track_producer p a (SessionId_getParentId (ProducerId_getParentId p)) cs t = Inr t3"
        "t'' = t3\<lparr>transactionHeap := h\<rparr>"
      using tp by (auto simp: track_producer_def bind_result_Inr_iff Let_def set_connection_heap)
    then show ?thesis
      using track_producer_view [OF assms(1) _ cs t3(1)] assms(2) m by simp
  qed
  show ?thesis
    unfolding processMessage_def snd_catch_as if_P [OF True] using track
    by (auto simp: bind_result_Inr_iff Let_def split: sum.split)
qed

lemma addTransactionState_view: "addTransactionState i cs h = Inr (cs', h') \<Longrightarrow> connection_view cs' = connection_view cs"
  by (auto simp: addTransactionState_def bind_result_Inr_iff)

lemma processTransactionInfo_view:
  assumes "tracker_ok t" "plain_command (DTransactionInfo info)"
  shows "tracker_view (snd (processTransactionInfo info t)) = tracker_view t"
proof -
  have add: "tracker_view (snd (add_to_transaction info k reply t)) = tracker_view t" for k reply
    unfolding add_to_transaction_def by (rule unless_failed_view) (auto simp: bind_result_Inr_iff)
  then have marked: "tracker_view (snd (process_marked info t)) = tracker_view t"
      "tracker_view (snd (process_completed info t)) = tracker_view t"
    by (auto simp: process_marked_def process_completed_def split: option.split)
  have begun: "tracker_view (snd (processBeginTransaction info t)) = tracker_view t"
    using assms unfolding processBeginTransaction_def snd_catch_as
    by (auto simp: plain_command_def bind_result_Inr_iff set_connection_heap split: option.split
        intro!: unless_failed_view dest!: addTransactionState_view elim!: set_connection_same [OF assms(1)])
  show ?thesis
    using marked begun by (simp add: processTransactionInfo_def Let_def processPrepareTransaction_def processEndTransaction_def
        processCommitTransactionOnePhase_def processCommitTransactionTwoPhase_def processRollbackTransaction_def)
qed

text \<open>The commands that the registry is about.\<close>

fun is_registration :: "data_structure \<Rightarrow> bool" where
  "is_registration (DConnectionInfo info) = (ConnectionInfo_connectionId info \<noteq> None)"
| "is_registration (DSessionInfo info) = True"
| "is_registration (DProducerInfo info) = True"
| "is_registration (DConsumerInfo info) = True"
| "is_registration (DDestinationInfo info) = True"
| "is_registration (DRemoveInfo info object) = True"
| "is_registration _ = False"

lemma follows_track:
  assumes "follows R t r"
  shows "catch_as IOException r = (case R of Some R' \<Rightarrow> (Inr (Some TRACKED_RESPONSE_MARKER), snd r) | None \<Rightarrow> (Inl IOException, t))"
    "tracker_view (snd r) = (case R of Some R' \<Rightarrow> R' | None \<Rightarrow> tracker_view t)"
  using assms by (cases r; auto simp: follows_def catch_as_def split: option.splits)+

lemma registration_follows:
  assumes "tracker_ok t" "plain_command d" "is_registration d"
  shows "follows (registers d (tracker_view t)) t (visit ref d t) \<or>
    (registers d (tracker_view t) = None \<and> visit ref d t = (Inl NullPointerException, t))"
  using assms
proof (cases d)
  case (DRemoveInfo info object)
  then show ?thesis
    using assms processRemoveConnection_follows [OF assms(1)] processRemoveSession_follows [OF assms(1)]
      processRemoveConsumer_follows [OF assms(1)] processRemoveProducer_follows [OF assms(1)]
    by (cases "(object, t)" rule: processRemoveInfo.cases) (auto simp: visit_def plain_command_def follows_def)
qed (auto simp: visit_def plain_command_def simp del: registers.simps
    intro: processConnectionInfo_follows processSessionInfo_follows processProducerInfo_follows
      processConsumerInfo_follows processDestinationInfo_follows)

lemma track_follows:
  assumes "tracker_ok t" "plain_command d"
  shows "tracker_view (snd (track ref d t)) = (case registers d (tracker_view t) of Some R \<Rightarrow> R | None \<Rightarrow> tracker_view t)"
    "is_registration d \<Longrightarrow> fst (track ref d t) =
       (case registers d (tracker_view t) of Some R \<Rightarrow> Inr (Some TRACKED_RESPONSE_MARKER) | None \<Rightarrow> Inl IOException)"
proof -
  have registration: "tracker_view (snd (track ref d t)) = (case registers d (tracker_view t) of Some R \<Rightarrow> R | None \<Rightarrow> tracker_view t) \<and>
      fst (track ref d t) = (case registers d (tracker_view t) of Some R \<Rightarrow> Inr (Some TRACKED_RESPONSE_MARKER) | None \<Rightarrow> Inl IOException)"
    if "is_registration d"
    using registration_follows [OF assms that, of ref]
  proof
    assume f: "follows (registers d (tracker_view t)) t (visit ref d t)"
    show ?thesis
      using follows_track [OF f] by (simp add: track_def split: option.split)
  qed (simp add: track_def catch_as_def)
  then show "is_registration d \<Longrightarrow> fst (track ref d t) =
      (case registers d (tracker_view t) of Some R \<Rightarrow> Inr (Some TRACKED_RESPONSE_MARKER) | None \<Rightarrow> Inl IOException)"
    by simp
  show "tracker_view (snd (track ref d t)) = (case registers d (tracker_view t) of Some R \<Rightarrow> R | None \<Rightarrow> tracker_view t)"
  proof (cases "message_base d")
    case (Some m)
    moreover from this have "registers d (tracker_view t) = Some (tracker_view t)"
      by (cases d) simp_all
    ultimately show ?thesis
      using assms by (simp add: track_def visit_message [OF Some] processMessage_view)
  next
    case None
    show ?thesis
    proof (cases "is_registration d")
      case False
      have "snd (processConnectionInfo info t) = t" if "ConnectionInfo_connectionId info = None" for info
        using that by (simp add: processConnectionInfo_def new_ConnectionState_def unless_failed_def)
      then show ?thesis
        using False None assms by (cases d) (auto simp: track_def visit_def processMessagePull_def MessagePullCache_put_def Let_def
            processTransactionInfo_view split: option.split)
    qed (simp add: registration)
  qed
qed

end
