(* ===== verification/Failover.thy ===== *)
theory Failover
  imports Registry
begin

text \<open>
  Restoring the state of a tracker: the commands that are sent, in their order, and what a broker that has
  nothing registered makes of them.
\<close>

section \<open>Actions that send\<close>

text \<open>On a transport of the version that accepts the commands, the action succeeds and sends them.\<close>

definition sends :: "int \<Rightarrow> ('t, unit) transport_action \<Rightarrow> 't \<Rightarrow> 't \<Rightarrow> data_structure list \<Rightarrow> bool" where
  "sends v f t t' ds \<longleftrightarrow> (\<forall>tr. transport_version tr = v \<longrightarrow> length ds \<le> transport_accepts tr \<longrightarrow>
     f (t, tr) = (Inr (), t', tr\<lparr>transport_accepts := transport_accepts tr - length ds,
       transport_sent := transport_sent tr @ ds\<rparr>))"

lemma sends_oneway: "sends v (oneway d) t t [d]"
  by (auto simp: sends_def oneway_def)

lemma sends_finished: "sends v finished t t []"
  by (simp add: sends_def finished_def)

lemma sends_andThen:
  assumes "sends v f t t' ds" "sends v g t' t'' es"
  shows "sends v (andThen f g) t t'' (ds @ es)"
  unfolding sends_def
proof (intro allI impI)
  fix tr :: transport
  assume "transport_version tr = v" "length (ds @ es) \<le> transport_accepts tr"
  then show "andThen f g (t, tr) = (Inr (), t'', tr\<lparr>transport_accepts := transport_accepts tr - length (ds @ es),
      transport_sent := transport_sent tr @ ds @ es\<rparr>)"
    using assms(1) [unfolded sends_def, rule_format, of tr]
      assms(2) [unfolded sends_def, rule_format, of "tr\<lparr>transport_accepts := transport_accepts tr - length ds,
        transport_sent := transport_sent tr @ ds\<rparr>"]
    by (simp add: andThen_def)
qed

lemma sends_each_Nil: "sends v (each f []) t t []"
  by (simp add: sends_def)

lemma sends_each_Cons:
  assumes "sends v (f x) t t' ds" "sends v (each f xs) t' t'' es"
  shows "sends v (each f (x # xs)) t t'' (ds @ es)"
  using sends_andThen [OF assms] by (simp add: sends_def)

lemma sends_each:
  assumes "\<And>x. x \<in> set xs \<Longrightarrow> sends v (f x) t t (g x)"
  shows "sends v (each f xs) t t (concat (map g xs))"
  using assms by (induction xs) (auto intro: sends_each_Nil sends_each_Cons)

lemma sends_each_oneway: "sends v (each (\<lambda>x. oneway (g x)) xs) t t (map g xs)"
  using sends_each [of xs v "\<lambda>x. oneway (g x)" t "\<lambda>x. [g x]"] by (simp add: sends_oneway)

lemma sends_catch: "sends v f t t' ds \<Longrightarrow> sends v (\<lambda>s. catch_as e (f s)) t t' ds"
  by (simp add: sends_def catch_as_def)

section \<open>The commands of a connection\<close>

text \<open>A consumer of an interrupted connection is sent without prefetch from version 6 on.\<close>

definition stalled :: "int \<Rightarrow> bool \<Rightarrow> ConsumerInfo \<Rightarrow> bool" where
  "stalled v complete info \<longleftrightarrow> \<not> complete \<and> 0 <s ConsumerInfo_prefetchSize info \<and> 5 < v"

definition sent_consumer :: "int \<Rightarrow> bool \<Rightarrow> ConsumerInfo \<Rightarrow> ConsumerInfo" where
  "sent_consumer v complete info = (if stalled v complete info then info\<lparr>ConsumerInfo_prefetchSize := 0\<rparr> else info)"

definition recover :: "int \<Rightarrow> bool \<Rightarrow> (ConsumerId, ConsumerInfo) stl_map \<Rightarrow> ConsumerInfo \<Rightarrow> (ConsumerId, ConsumerInfo) stl_map" where
  "recover v complete m info = (if stalled v complete info
     then (case ConsumerInfo_consumerId info of Some c \<Rightarrow> map_assign ConsumerId_lt c info m | None \<Rightarrow> m) else m)"

definition consumer_infos :: "SessionState \<Rightarrow> ConsumerInfo list" where
  "consumer_infos ss = map ConsumerState_info (map_values (SessionState_consumers ss))"

definition session_commands :: "int \<Rightarrow> bool \<Rightarrow> SessionState \<Rightarrow> data_structure list" where
  "session_commands v complete ss = DSessionInfo (SessionState_info ss) #
     map (\<lambda>ps. DProducerInfo (ProducerState_info ps)) (map_values (SessionState_producers ss)) @
     map (\<lambda>info. DConsumerInfo (sent_consumer v complete info)) (consumer_infos ss)"

definition transaction_commands :: "TransactionState \<Rightarrow> data_structure list" where
  "transaction_commands ts = map (\<lambda>ps. DProducerInfo (ProducerState_info ps)) (map_values (TransactionState_producers ts)) @
     TransactionState_commands ts @
     map (\<lambda>ps. ProducerInfo_createRemoveCommand (ProducerState_info ps)) (map_values (TransactionState_producers ts))"

text \<open>The tracker with one connection's state in its place.\<close>

definition with_connection :: "'z StateTracker_scheme \<Rightarrow> (ConnectionId, ConnectionState) stl_map \<Rightarrow> ConnectionId \<Rightarrow>
    (ConnectionId, ConnectionState) stl_map \<Rightarrow> ConnectionState \<Rightarrow> 'z StateTracker_scheme" where
  "with_connection t pre k post cs = t\<lparr>connectionStates := pre @ (k, cs) # post\<rparr>"

lemma with_connection_settings [simp]:
  "restoreSessions (with_connection t pre k post cs) = restoreSessions t"
  "restoreProducers (with_connection t pre k post cs) = restoreProducers t"
  "restoreConsumers (with_connection t pre k post cs) = restoreConsumers t"
  "restoreTransaction (with_connection t pre k post cs) = restoreTransaction t"
  "transactionHeap (with_connection t pre k post cs) = transactionHeap t"
  by (simp_all add: with_connection_def)

lemma with_connection_access:
  assumes "connection_keys.keyed (pre @ (k, cs) # post)" "plain_connection k'" "ConnectionId_key k' = ConnectionId_key k"
  shows "get_connection k' (with_connection t pre k post cs) = Inr cs"
    "set_connection k' cs' (with_connection t pre k post cs) = with_connection t pre k post cs'"
  using assms connection_keys.find_here [OF assms] connection_keys.assign_here [OF assms]
  by (simp_all add: get_connection_def set_connection_def with_connection_def)

definition recovering :: "int \<Rightarrow> ConsumerInfo list \<Rightarrow> ConnectionState \<Rightarrow> ConnectionState" where
  "recovering v infos cs = cs\<lparr>ConnectionState_recoveringPullConsumers :=
     foldl (recover v (ConnectionState_connectionInterruptProcessingComplete cs)) (ConnectionState_recoveringPullConsumers cs) infos\<rparr>"

lemma recovering_simps [simp]:
  "recovering v [] cs = cs"
  "recovering v infos (recovering v infos' cs) = recovering v (infos' @ infos) cs"
  "ConnectionState_connectionInterruptProcessingComplete (recovering v infos cs) = ConnectionState_connectionInterruptProcessingComplete cs"
  by (simp_all add: recovering_def)

lemma restore_consumer_sends:
  assumes "connection_keys.keyed (pre @ (k, cs) # post)" "plain_connection k'" "ConnectionId_key k' = ConnectionId_key k"
    "consumer_ok x info"
  shows "sends v (restore_consumer k' (ConnectionState_connectionInterruptProcessingComplete cs) info)
    (with_connection t pre k post cs) (with_connection t pre k post (recovering v [info] cs))
    [DConsumerInfo (sent_consumer v (ConnectionState_connectionInterruptProcessingComplete cs) info)]"
proof -
  obtain c where "ConsumerInfo_consumerId info = Some c"
    using assms(4) by (auto simp: consumer_ok_def)
  then show ?thesis
    by (auto simp: with_connection_access [OF assms(1-3)] sends_def restore_consumer_def sent_consumer_def recover_def recovering_def stalled_def oneway_def)
qed

lemma restore_consumers_sends:
  assumes "connection_keys.keyed (pre @ (k, cs) # post)" "plain_connection k'" "ConnectionId_key k' = ConnectionId_key k"
    "\<forall>info\<in>set infos. \<exists>x. consumer_ok x info" "complete = ConnectionState_connectionInterruptProcessingComplete cs"
  shows "sends v (each (restore_consumer k' complete) infos)
    (with_connection t pre k post cs) (with_connection t pre k post (recovering v infos cs))
    (map (\<lambda>info. DConsumerInfo (sent_consumer v complete info)) infos)"
  using assms(1,4,5)
proof (induction infos arbitrary: cs)
  case Nil
  show ?case
    unfolding recovering_simps(1) list.map(1) by (rule sends_each_Nil)
next
  case (Cons info infos)
  have "connection_keys.keyed (pre @ (k, recovering v [info] cs) # post)"
    by (rule connection_keys.keyed_change [THEN iffD1, OF Cons.prems(1)])
  then have rest: "sends v (each (restore_consumer k' complete) infos) (with_connection t pre k post (recovering v [info] cs))
      (with_connection t pre k post (recovering v (info # infos) cs)) (map (\<lambda>info. DConsumerInfo (sent_consumer v complete info)) infos)"
    using Cons.IH [of "recovering v [info] cs"] Cons.prems(2,3) by simp
  obtain x where "consumer_ok x info"
    using Cons.prems(2) by auto
  then have "sends v (restore_consumer k' complete info) (with_connection t pre k post cs)
      (with_connection t pre k post (recovering v [info] cs)) [DConsumerInfo (sent_consumer v complete info)]"
    unfolding Cons.prems(3) by (rule restore_consumer_sends [OF Cons.prems(1) assms(2,3)])
  from sends_each_Cons [where f = "restore_consumer k' complete", OF this rest] show ?case
    by (simp only: list.map append.simps)
qed

lemma doRestoreConsumers_sends:
  assumes "connection_keys.keyed (pre @ (k, cs) # post)" "session_ok n y ss" "session_connection y = ConnectionId_key k"
  shows "sends v (doRestoreConsumers ss) (with_connection t pre k post cs)
    (with_connection t pre k post (recovering v (consumer_infos ss) cs))
    (map (\<lambda>info. DConsumerInfo (sent_consumer v (ConnectionState_connectionInterruptProcessingComplete cs) info)) (consumer_infos ss))"
proof -
  obtain s where s: "SessionInfo_sessionId (SessionState_info ss) = Some s" "plain_connection (SessionId_getParentId s)"
      "ConnectionId_key (SessionId_getParentId s) = ConnectionId_key k"
    using assms(2,3) by (auto simp: session_ok_def)
  have "\<forall>info\<in>set (consumer_infos ss). \<exists>x. consumer_ok x info"
    using assms(2) consumer_keys.holds_values [of "\<lambda>x c. consumer_session x = y \<and> consumer_ok x (ConsumerState_info c)"]
    by (fastforce simp: session_ok_def consumer_infos_def)
  from sends_catch [OF restore_consumers_sends [OF assms(1) s(2,3) this refl, of v t], of IOException] show ?thesis
    unfolding doRestoreConsumers_def sends_def consumer_infos_def [symmetric]
    by (simp add: s(1) with_connection_access [OF assms(1) s(2,3)] Let_def)
qed

lemma restore_session_sends:
  assumes "connection_keys.keyed (pre @ (k, cs) # post)" "session_ok n y ss" "session_connection y = ConnectionId_key k"
    "restoreProducers t" "restoreConsumers t"
  shows "sends v (restore_session ss) (with_connection t pre k post cs)
    (with_connection t pre k post (recovering v (consumer_infos ss) cs))
    (session_commands v (ConnectionState_connectionInterruptProcessingComplete cs) ss)"
proof -
  have "sends v (andThen (oneway (DSessionInfo (SessionState_info ss))) (andThen (doRestoreProducers ss) (doRestoreConsumers ss)))
      (with_connection t pre k post cs) (with_connection t pre k post (recovering v (consumer_infos ss) cs))
      (session_commands v (ConnectionState_connectionInterruptProcessingComplete cs) ss)"
    using sends_andThen [OF sends_oneway [of v "DSessionInfo (SessionState_info ss)" "with_connection t pre k post cs"]
        sends_andThen [OF sends_each_oneway doRestoreConsumers_sends [OF assms(1-3)]]]
    unfolding doRestoreProducers_def session_commands_def by simp
  then show ?thesis
    using assms(4,5) by (simp add: restore_session_def sends_def with_connection_def)
qed

lemma restore_sessions_sends:
  assumes "connection_keys.keyed (pre @ (k, cs) # post)"
    "\<forall>ss\<in>set sss. \<exists>n y. session_connection y = ConnectionId_key k \<and> session_ok n y ss"
    "restoreProducers t" "restoreConsumers t" "complete = ConnectionState_connectionInterruptProcessingComplete cs"
  shows "sends v (each restore_session sss) (with_connection t pre k post cs)
    (with_connection t pre k post (recovering v (concat (map consumer_infos sss)) cs))
    (concat (map (session_commands v complete) sss))"
  using assms(1,2,5)
proof (induction sss arbitrary: cs)
  case Nil
  show ?case
    unfolding list.map(1) concat.simps(1) recovering_simps(1) by (rule sends_each_Nil)
next
  case (Cons ss sss)
  have "connection_keys.keyed (pre @ (k, recovering v (consumer_infos ss) cs) # post)"
    by (rule connection_keys.keyed_change [THEN iffD1, OF Cons.prems(1)])
  then have rest: "sends v (each restore_session sss) (with_connection t pre k post (recovering v (consumer_infos ss) cs))
      (with_connection t pre k post (recovering v (concat (map consumer_infos (ss # sss))) cs))
      (concat (map (session_commands v complete) sss))"
    using Cons.IH [of "recovering v (consumer_infos ss) cs"] Cons.prems(2,3) by simp
  obtain n y where y: "session_ok n y ss" "session_connection y = ConnectionId_key k"
    using Cons.prems(2) by auto
  have "sends v (restore_session ss) (with_connection t pre k post cs)
      (with_connection t pre k post (recovering v (consumer_infos ss) cs)) (session_commands v complete ss)"
    unfolding Cons.prems(3) by (rule restore_session_sends [OF Cons.prems(1) y assms(3,4)])
  from sends_each_Cons [where f = restore_session, OF this rest] show ?case
    by (simp only: list.map concat.simps)
qed

text \<open>
  The commit in one phase (type 2 of the protocol) that a transaction is waiting for: it is its last command. A
  transaction that waits for none is repeated.
\<close>

definition pending_commit :: "TransactionState \<Rightarrow> TransactionInfo option" where
  "pending_commit ts = (case rev (TransactionState_commands ts) of
     DTransactionInfo info # _ \<Rightarrow> (if TransactionInfo_type info = 2 then Some info else None) | _ \<Rightarrow> None)"

lemma in_doubt_pending: "TransactionState_commands ts \<noteq> [] \<Longrightarrow> in_doubt ts = pending_commit ts"
  by (cases "TransactionState_commands ts" rule: rev_cases)
    (auto simp: in_doubt_def pending_commit_def TRANSACTION_STATE_COMMITONEPHASE_def split: data_structure.split)

definition repeatable :: "TransactionState \<Rightarrow> bool" where
  "repeatable ts \<longleftrightarrow> TransactionState_commands ts \<noteq> [] \<and> pending_commit ts = None"

lemma restore_transaction_sends:
  assumes "repeatable ts"
  shows "sends v (restore_transaction ts) t t (transaction_commands ts)"
  using assms sends_andThen [OF sends_each_oneway [of v "\<lambda>ps. DProducerInfo (ProducerState_info ps)"]
      sends_andThen [OF sends_each_oneway [of v "\<lambda>x. x"] sends_each_oneway]]
  by (simp add: restore_transaction_def repeatable_def transaction_commands_def in_doubt_pending)

definition connection_transactions :: "'z StateTracker_scheme \<Rightarrow> ConnectionState \<Rightarrow> TransactionState list" where
  "connection_transactions t cs = map (\<lambda>a. transactionHeap t ! a) (map_values (ConnectionState_transactions cs))"

lemma doRestoreTransactions_sends:
  assumes "\<forall>ts\<in>set (connection_transactions t cs). repeatable ts"
  shows "sends v (doRestoreTransactions listener cs) t t (concat (map transaction_commands (connection_transactions t cs)))"
proof -
  have none: "List.map_filter in_doubt (connection_transactions t cs) = []"
    using assms by (auto simp: map_filter_def repeatable_def filter_empty_conv in_doubt_pending)
  have "sends v (each restore_transaction (connection_transactions t cs)) t t
      (concat (map transaction_commands (connection_transactions t cs)))"
    using assms by (intro sends_each restore_transaction_sends) simp
  from sends_andThen [OF this sends_each_Nil [of v "fail_commit listener"]] show ?thesis
    unfolding doRestoreTransactions_def sends_def connection_transactions_def [symmetric] Let_def
    by (simp add: catch_as_def none)
qed

definition connection_commands :: "int \<Rightarrow> 'z StateTracker_scheme \<Rightarrow> ConnectionState \<Rightarrow> data_structure list" where
  "connection_commands v t cs =
     DConnectionInfo ((ConnectionState_info cs)\<lparr>ConnectionInfo_failoverReconnect := True\<rparr>) #
     map DDestinationInfo (ConnectionState_tempDestinations cs) @
     concat (map (session_commands v (ConnectionState_connectionInterruptProcessingComplete cs)) (map_values (ConnectionState_sessions cs))) @
     concat (map transaction_commands (connection_transactions t cs))"

definition restored_state :: "int \<Rightarrow> ConnectionState \<Rightarrow> ConnectionState" where
  "restored_state v cs = recovering v (concat (map consumer_infos (map_values (ConnectionState_sessions cs))))
     (cs\<lparr>ConnectionState_info := (ConnectionState_info cs)\<lparr>ConnectionInfo_failoverReconnect := True\<rparr>\<rparr>)"

definition restores_all :: "'z StateTracker_scheme \<Rightarrow> bool" where
  "restores_all t \<longleftrightarrow> restoreSessions t \<and> restoreProducers t \<and> restoreConsumers t \<and> restoreTransaction t"

lemma restore_connection_sends:
  assumes "connection_keys.keyed (pre @ (k, cs) # post)" "plain_connection k" "connection_ok n (ConnectionId_key k) cs" "restores_all t"
    "\<forall>ts\<in>set (connection_transactions t cs). repeatable ts"
  shows "sends v (restore_connection listener k) (with_connection t pre k post cs)
    (with_connection t pre k post (restored_state v cs)) (connection_commands v t cs)"
proof -
  define cs' where "cs' = cs\<lparr>ConnectionState_info := (ConnectionState_info cs)\<lparr>ConnectionInfo_failoverReconnect := True\<rparr>\<rparr>"
  have keyed: "connection_keys.keyed (pre @ (k, cs') # post)"
    by (rule connection_keys.keyed_change [THEN iffD1, OF assms(1)])
  have sessions: "\<forall>ss\<in>set (map_values (ConnectionState_sessions cs')). \<exists>n y. session_connection y = ConnectionId_key k \<and> session_ok n y ss"
    using assms(3) session_keys.holds_values [of "\<lambda>y ss. session_connection y = ConnectionId_key k \<and> session_ok n y ss"]
    by (fastforce simp: connection_ok_def cs'_def)
  have transactions: "\<forall>ts\<in>set (connection_transactions (with_connection t pre k post (restored_state v cs)) cs'). repeatable ts"
    using assms(5) by (simp add: connection_transactions_def with_connection_def cs'_def)
  have all: "restoreProducers t" "restoreConsumers t"
    using assms(4) by (simp_all add: restores_all_def)
  have "sends v (andThen (oneway (DConnectionInfo (ConnectionState_info cs'))) (andThen (doRestoreTempDestinations cs')
      (andThen (doRestoreSessions cs') (doRestoreTransactions listener cs'))))
      (with_connection t pre k post cs') (with_connection t pre k post (restored_state v cs)) (connection_commands v t cs)"
    using sends_andThen [OF sends_oneway [of v "DConnectionInfo (ConnectionState_info cs')"] sends_andThen [OF sends_each_oneway [of v DDestinationInfo "ConnectionState_tempDestinations cs'"]
        sends_andThen [OF restore_sessions_sends [OF keyed sessions all refl]]]]
      doRestoreTransactions_sends [OF transactions, of v listener]
    unfolding doRestoreTempDestinations_def doRestoreSessions_def connection_commands_def
    by (simp add: cs'_def restored_state_def connection_transactions_def with_connection_def)
  then show ?thesis
    using assms(4) unfolding restore_connection_def sends_def
    by (simp add: with_connection_access [OF assms(1,2) refl] Let_def cs'_def [symmetric] restores_all_def)
qed

definition restored_connections :: "int \<Rightarrow> (ConnectionId, ConnectionState) stl_map \<Rightarrow> (ConnectionId, ConnectionState) stl_map" where
  "restored_connections v m = map (\<lambda>e. (fst e, restored_state v (snd e))) m"

definition all_repeatable :: "'z StateTracker_scheme \<Rightarrow> bool" where
  "all_repeatable t \<longleftrightarrow> (\<forall>cs\<in>set (map_values (connectionStates t)). \<forall>ts\<in>set (connection_transactions t cs). repeatable ts)"

lemma restore_connections_sends:
  assumes "restores_all t" "connection_keys.keyed (pre @ post)" "\<forall>e\<in>set post. connection_ok n (ConnectionId_key (fst e)) (snd e)"
    "\<forall>e\<in>set post. \<forall>ts\<in>set (connection_transactions t (snd e)). repeatable ts"
  shows "sends v (each (restore_connection listener) (map fst post)) (t\<lparr>connectionStates := pre @ post\<rparr>)
    (t\<lparr>connectionStates := pre @ restored_connections v post\<rparr>) (concat (map (\<lambda>e. connection_commands v t (snd e)) post))"
  using assms(2-4)
proof (induction post arbitrary: pre)
  case Nil
  show ?case
    unfolding list.map concat.simps restored_connections_def by (rule sends_each_Nil)
next
  case (Cons e post)
  obtain k cs where e: "e = (k, cs)"
    by fastforce
  have "plain_connection k"
    using Cons.prems(1) e connection_keys.keyed_middle [of pre k cs post] by simp
  then have first: "sends v (restore_connection listener k) (t\<lparr>connectionStates := pre @ e # post\<rparr>)
      (t\<lparr>connectionStates := (pre @ [(k, restored_state v cs)]) @ post\<rparr>) (connection_commands v t cs)"
    using restore_connection_sends [of pre k cs post n t v listener] Cons.prems assms(1) e
    by (simp add: with_connection_def)
  have "connection_keys.keyed ((pre @ [(k, restored_state v cs)]) @ post)"
    using connection_keys.keyed_change [of pre k cs post "restored_state v cs"] Cons.prems(1) e by simp
  then have rest: "sends v (each (restore_connection listener) (map fst post)) (t\<lparr>connectionStates := (pre @ [(k, restored_state v cs)]) @ post\<rparr>)
      (t\<lparr>connectionStates := (pre @ [(k, restored_state v cs)]) @ restored_connections v post\<rparr>)
      (concat (map (\<lambda>e. connection_commands v t (snd e)) post))"
    using Cons.prems(2,3) by (intro Cons.IH) simp_all
  show ?case
    using sends_each_Cons [where f = "restore_connection listener", OF first rest]
    by (simp add: e restored_connections_def del: each.simps)
qed

definition restore_commands :: "int \<Rightarrow> 'z StateTracker_scheme \<Rightarrow> data_structure list" where
  "restore_commands v t = concat (map (connection_commands v t) (map_values (connectionStates t))) @
     map snd (messageCache t) @ map snd (messagePullCache t)"

lemma restore_sends:
  assumes "tracker_ok t" "restores_all t" "all_repeatable t"
  shows "sends v (restore listener) t (t\<lparr>connectionStates := restored_connections v (connectionStates t)\<rparr>) (restore_commands v t)"
proof -
  have "sends v (each (restore_connection listener) (map fst (connectionStates t))) (t\<lparr>connectionStates := [] @ connectionStates t\<rparr>)
      (t\<lparr>connectionStates := [] @ restored_connections v (connectionStates t)\<rparr>)
      (concat (map (\<lambda>e. connection_commands v t (snd e)) (connectionStates t)))"
    using assms by (intro restore_connections_sends [where n = "length (transactionHeap t)"])
      (auto simp: tracker_ok_def connection_keys.holds_def all_repeatable_def map_values_def)
  then have first: "sends v (each (restore_connection listener) (map_keys (connectionStates t))) t
      (t\<lparr>connectionStates := restored_connections v (connectionStates t)\<rparr>)
      (concat (map (connection_commands v t) (map_values (connectionStates t))))"
    by (simp add: map_keys_def map_values_def comp_def)
  have rest: "sends v (\<lambda>(t', tr'). andThen (each oneway (map snd (messageCache t'))) (each oneway (map snd (messagePullCache t'))) (t', tr'))
      t' t' (map snd (messageCache t') @ map snd (messagePullCache t'))" for t' :: "'z StateTracker_scheme"
    using sends_andThen [OF sends_each_oneway [of v "\<lambda>x. x" "map snd (messageCache t')" t'] sends_each_oneway [of v "\<lambda>x. x" "map snd (messagePullCache t')" t']]
    by (simp add: sends_def)
  from sends_catch [OF sends_andThen [OF first rest], of IOException] show ?thesis
    unfolding restore_def sends_def restore_commands_def by simp
qed

section \<open>What a new broker registers\<close>

definition put_producer :: "order_key \<times> int \<times> int \<Rightarrow> ProducerInfo option \<Rightarrow> connection_entry \<Rightarrow> connection_entry" where
  "put_producer y i c = c\<lparr>entry_sessions := (entry_sessions c)(producer_session y :=
     map_option (\<lambda>s. s\<lparr>entry_producers := (entry_producers s)(y := i)\<rparr>) (entry_sessions c (producer_session y)))\<rparr>"

definition put_consumer :: "order_key \<times> int \<times> int \<Rightarrow> ConsumerInfo \<Rightarrow> connection_entry \<Rightarrow> connection_entry" where
  "put_consumer y i c = c\<lparr>entry_sessions := (entry_sessions c)(consumer_session y :=
     map_option (\<lambda>s. s\<lparr>entry_consumers := (entry_consumers s)(y \<mapsto> i)\<rparr>) (entry_sessions c (consumer_session y)))\<rparr>"

lemma put_same [simp]:
  "entry_connection (put_producer y i c) = entry_connection c" "entry_tempDestinations (put_producer y i c) = entry_tempDestinations c"
  "entry_sessions (put_producer y i c) z = None \<longleftrightarrow> entry_sessions c z = None"
  "entry_sessions (put_consumer y j c) z = None \<longleftrightarrow> entry_sessions c z = None"
  by (simp_all add: put_producer_def put_consumer_def)

lemma register_producer:
  assumes "producer_ok n y ps" "fst y = x" "entry_sessions c (producer_session y) \<noteq> None"
  shows "registers (DProducerInfo (ProducerState_info ps)) (R(x \<mapsto> c)) = Some (R(x \<mapsto> put_producer y (Some (ProducerState_info ps)) c))"
    "registers (ProducerInfo_createRemoveCommand (ProducerState_info ps)) (R(x \<mapsto> c)) = Some (R(x \<mapsto> put_producer y None c))"
  using assms by (auto simp: producer_ok_def change_session_def put_producer_def ProducerInfo_createRemoveCommand_def)

lemma register_each:
  assumes "P c" "\<And>e c. e \<in> set es \<Longrightarrow> P c \<Longrightarrow> registers (d e) (R(x \<mapsto> c)) = Some (R(x \<mapsto> f e c)) \<and> P (f e c)"
  shows "register_all (map d es) (R(x \<mapsto> c)) = Some (R(x \<mapsto> foldl (\<lambda>c e. f e c) c es))"
  using assms
proof (induction es arbitrary: c)
  case (Cons e es)
  have step: "registers (d e) (R(x \<mapsto> c)) = Some (R(x \<mapsto> f e c)) \<and> P (f e c)"
    by (rule Cons.prems(2) [OF _ Cons.prems(1)]) simp
  have "register_all (map d es) (R(x \<mapsto> f e c)) = Some (R(x \<mapsto> foldl (\<lambda>c e. f e c) (f e c) es))"
    by (rule Cons.IH [OF conjunct2 [OF step]]) (rule Cons.prems(2), simp_all)
  then show ?case
    by (simp only: list.map register_all.simps conjunct1 [OF step] bind.bind_lunit foldl_Cons)
qed simp

lemma register_producers:
  assumes "\<forall>e\<in>set es. producer_ok n (ProducerId_key (fst e)) (snd e) \<and> fst (ProducerId_key (fst e)) = x \<and>
    entry_sessions c (producer_session (ProducerId_key (fst e))) \<noteq> None"
  shows "register_all (map (\<lambda>ps. DProducerInfo (ProducerState_info ps)) (map snd es)) (R(x \<mapsto> c)) =
      Some (R(x \<mapsto> foldl (\<lambda>c e. put_producer (ProducerId_key (fst e)) (Some (ProducerState_info (snd e))) c) c es))"
    "register_all (map (\<lambda>ps. ProducerInfo_createRemoveCommand (ProducerState_info ps)) (map snd es)) (R(x \<mapsto> c)) =
      Some (R(x \<mapsto> foldl (\<lambda>c e. put_producer (ProducerId_key (fst e)) None c) c es))"
proof -
  define P where "P c \<longleftrightarrow> (\<forall>e\<in>set es. entry_sessions c (producer_session (ProducerId_key (fst e))) \<noteq> None)" for c :: connection_entry
  have start: "P c"
    using assms unfolding P_def by blast
  have step: "(registers (DProducerInfo (ProducerState_info (snd e))) (R(x \<mapsto> c)) =
        Some (R(x \<mapsto> put_producer (ProducerId_key (fst e)) (Some (ProducerState_info (snd e))) c)) \<and>
      P (put_producer (ProducerId_key (fst e)) (Some (ProducerState_info (snd e))) c)) \<and>
      (registers (ProducerInfo_createRemoveCommand (ProducerState_info (snd e))) (R(x \<mapsto> c)) =
        Some (R(x \<mapsto> put_producer (ProducerId_key (fst e)) None c)) \<and> P (put_producer (ProducerId_key (fst e)) None c))"
    if e: "e \<in> set es" and c: "P c" for e c
  proof -
    have ok: "producer_ok n (ProducerId_key (fst e)) (snd e)" "fst (ProducerId_key (fst e)) = x"
        "entry_sessions c (producer_session (ProducerId_key (fst e))) \<noteq> None"
      using e c assms unfolding P_def by blast+
    show ?thesis
      using c register_producer [OF ok, of R] by (simp only: P_def put_same)
  qed
  show "register_all (map (\<lambda>ps. DProducerInfo (ProducerState_info ps)) (map snd es)) (R(x \<mapsto> c)) =
      Some (R(x \<mapsto> foldl (\<lambda>c e. put_producer (ProducerId_key (fst e)) (Some (ProducerState_info (snd e))) c) c es))"
    unfolding map_map comp_def by (rule register_each [where P = P, OF start]) (rule conjunct1 [OF step])
  show "register_all (map (\<lambda>ps. ProducerInfo_createRemoveCommand (ProducerState_info ps)) (map snd es)) (R(x \<mapsto> c)) =
      Some (R(x \<mapsto> foldl (\<lambda>c e. put_producer (ProducerId_key (fst e)) None c) c es))"
    unfolding map_map comp_def by (rule register_each [where P = P, OF start]) (rule conjunct2 [OF step])
qed

lemma register_consumer:
  assumes "consumer_ok y info" "fst y = x" "entry_sessions c (consumer_session y) \<noteq> None"
  shows "registers (DConsumerInfo (sent_consumer v complete info)) (R(x \<mapsto> c)) = Some (R(x \<mapsto> put_consumer y (sent_consumer v complete info) c))"
  using assms by (auto simp: consumer_ok_def change_session_def put_consumer_def sent_consumer_def)

lemma register_consumers:
  assumes "\<forall>e\<in>set es. consumer_ok (ConsumerId_key (fst e)) (ConsumerState_info (snd e)) \<and> fst (ConsumerId_key (fst e)) = x \<and>
    entry_sessions c (consumer_session (ConsumerId_key (fst e))) \<noteq> None"
  shows "register_all (map (\<lambda>info. DConsumerInfo (sent_consumer v complete info)) (map (\<lambda>e. ConsumerState_info (snd e)) es)) (R(x \<mapsto> c)) =
    Some (R(x \<mapsto> foldl (\<lambda>c e. put_consumer (ConsumerId_key (fst e)) (sent_consumer v complete (ConsumerState_info (snd e))) c) c es))"
proof -
  define P where "P c \<longleftrightarrow> (\<forall>e\<in>set es. entry_sessions c (consumer_session (ConsumerId_key (fst e))) \<noteq> None)" for c :: connection_entry
  have start: "P c"
    using assms unfolding P_def by blast
  have step: "registers (DConsumerInfo (sent_consumer v complete (ConsumerState_info (snd e)))) (R(x \<mapsto> c)) =
        Some (R(x \<mapsto> put_consumer (ConsumerId_key (fst e)) (sent_consumer v complete (ConsumerState_info (snd e))) c)) \<and>
      P (put_consumer (ConsumerId_key (fst e)) (sent_consumer v complete (ConsumerState_info (snd e))) c)"
    if e: "e \<in> set es" and c: "P c" for e c
  proof -
    have ok: "consumer_ok (ConsumerId_key (fst e)) (ConsumerState_info (snd e))" "fst (ConsumerId_key (fst e)) = x"
        "entry_sessions c (consumer_session (ConsumerId_key (fst e))) \<noteq> None"
      using e c assms unfolding P_def by blast+
    show ?thesis
      using c register_consumer [OF ok, of v complete R] by (simp only: P_def put_same)
  qed
  show ?thesis
    unfolding map_map comp_def by (rule register_each [where P = P, OF start]) (rule step)
qed

lemma register_temps:
  assumes "\<forall>info\<in>set infos. temp_destination_ok x info"
  shows "register_all (map DDestinationInfo infos) (R(x \<mapsto> c)) =
    Some (R(x \<mapsto> c\<lparr>entry_tempDestinations := entry_tempDestinations c @ infos\<rparr>))"
  using assms by (induction infos arbitrary: c) (auto simp: temp_destination_ok_def)

text \<open>Several producers or consumers of one session.\<close>

lemma put_producers_session:
  assumes "entry_sessions c z = Some s" "\<forall>e\<in>set es. producer_session (f e) = z"
  shows "foldl (\<lambda>c e. put_producer (f e) (g e) c) c es = c\<lparr>entry_sessions := (entry_sessions c)(z \<mapsto>
    s\<lparr>entry_producers := foldl (\<lambda>h e. h(f e := g e)) (entry_producers s) es\<rparr>)\<rparr>"
  using assms by (induction es arbitrary: c s) (auto simp: put_producer_def fun_upd_idem)

lemma put_consumers_session:
  assumes "entry_sessions c z = Some s" "\<forall>e\<in>set es. consumer_session (f e) = z"
  shows "foldl (\<lambda>c e. put_consumer (f e) (g e) c) c es = c\<lparr>entry_sessions := (entry_sessions c)(z \<mapsto>
    s\<lparr>entry_consumers := foldl (\<lambda>h e. h(f e \<mapsto> g e)) (entry_consumers s) es\<rparr>)\<rparr>"
  using assms by (induction es arbitrary: c s) (auto simp: put_consumer_def fun_upd_idem)

text \<open>The state as the new broker gets it: the consumers as they are sent.\<close>

definition resent_session :: "int \<Rightarrow> bool \<Rightarrow> SessionState \<Rightarrow> SessionState" where
  "resent_session v complete ss = ss\<lparr>SessionState_consumers := map (\<lambda>e. (fst e,
     \<lparr>ConsumerState_info = sent_consumer v complete (ConsumerState_info (snd e))\<rparr>)) (SessionState_consumers ss)\<rparr>"

definition resent :: "int \<Rightarrow> ConnectionState \<Rightarrow> ConnectionState" where
  "resent v cs = cs\<lparr>ConnectionState_info := (ConnectionState_info cs)\<lparr>ConnectionInfo_failoverReconnect := True\<rparr>,
     ConnectionState_sessions := map (\<lambda>e. (fst e,
       resent_session v (ConnectionState_connectionInterruptProcessingComplete cs) (snd e))) (ConnectionState_sessions cs)\<rparr>"

lemma sessions_register:
  assumes "session_ok n y ss" "fst y = x"
  shows "register_all (session_commands v complete ss) (R(x \<mapsto> c)) =
    Some (R(x \<mapsto> c\<lparr>entry_sessions := (entry_sessions c)(y \<mapsto> session_view (resent_session v complete ss))\<rparr>))"
proof -
  obtain s where s: "SessionInfo_sessionId (SessionState_info ss) = Some s" "SessionId_key s = y"
    using assms(1) by (auto simp: session_ok_def)
  define c1 where "c1 = c\<lparr>entry_sessions := (entry_sessions c)(y \<mapsto> open_session (SessionState_info ss))\<rparr>"
  have open1: "entry_sessions c1 y = Some (open_session (SessionState_info ss))"
    by (simp add: c1_def)
  have r1: "registers (DSessionInfo (SessionState_info ss)) (R(x \<mapsto> c)) = Some (R(x \<mapsto> c1))"
    using s assms(2) by (simp add: c1_def)
  have ps: "\<forall>e\<in>set (SessionState_producers ss). producer_session (ProducerId_key (fst e)) = y \<and> producer_ok n (ProducerId_key (fst e)) (snd e)"
    using assms(1) by (simp add: session_ok_def producer_keys.holds_def)
  define p where "p = (\<lambda>x. map_option ProducerState_info (producer_keys.lookup (SessionState_producers ss) x))"
  define c2 where "c2 = c1\<lparr>entry_sessions := (entry_sessions c1)(y \<mapsto> (open_session (SessionState_info ss))\<lparr>entry_producers := p\<rparr>)\<rparr>"
  have "foldl (\<lambda>h e. h(ProducerId_key (fst e) \<mapsto> ProducerState_info (snd e))) Map.empty (SessionState_producers ss) = p"
    using producer_keys.fold_lookup [OF ok_keyed(3) [OF assms(1)], of ProducerState_info Map.empty]
    by (auto simp: p_def fun_eq_iff split: option.split)
  then have "foldl (\<lambda>c e. put_producer (ProducerId_key (fst e)) (Some (ProducerState_info (snd e))) c) c1 (SessionState_producers ss) = c2"
    using put_producers_session [OF open1, of "SessionState_producers ss" "\<lambda>e. ProducerId_key (fst e)" "\<lambda>e. Some (ProducerState_info (snd e))"] ps
    by (simp add: c2_def open_session_def)
  then have r2: "register_all (map (\<lambda>ps. DProducerInfo (ProducerState_info ps)) (map_values (SessionState_producers ss))) (R(x \<mapsto> c1)) = Some (R(x \<mapsto> c2))"
    using register_producers(1) [of "SessionState_producers ss" n x c1 R] ps open1 assms(2) unfolding map_values_def
    by (auto simp: prod_eq_iff)
  have cons: "\<forall>e\<in>set (SessionState_consumers ss). consumer_session (ConsumerId_key (fst e)) = y \<and>
      consumer_ok (ConsumerId_key (fst e)) (ConsumerState_info (snd e))"
    using assms(1) by (simp add: session_ok_def consumer_keys.holds_def)
  define q where "q = (\<lambda>x. map_option (\<lambda>c. sent_consumer v complete (ConsumerState_info c)) (consumer_keys.lookup (SessionState_consumers ss) x))"
  have "foldl (\<lambda>h e. h(ConsumerId_key (fst e) \<mapsto> sent_consumer v complete (ConsumerState_info (snd e)))) Map.empty (SessionState_consumers ss) = q"
    using consumer_keys.fold_lookup [OF ok_keyed(4) [OF assms(1)], of "\<lambda>c. sent_consumer v complete (ConsumerState_info c)" Map.empty]
    by (auto simp: q_def fun_eq_iff split: option.split)
  moreover have open2: "entry_sessions c2 y = Some ((open_session (SessionState_info ss))\<lparr>entry_producers := p\<rparr>)"
    by (simp add: c2_def)
  ultimately have "foldl (\<lambda>c e. put_consumer (ConsumerId_key (fst e)) (sent_consumer v complete (ConsumerState_info (snd e))) c) c2 (SessionState_consumers ss) =
      c2\<lparr>entry_sessions := (entry_sessions c2)(y \<mapsto> (open_session (SessionState_info ss))\<lparr>entry_producers := p, entry_consumers := q\<rparr>)\<rparr>"
    using put_consumers_session [OF open2, of "SessionState_consumers ss" "\<lambda>e. ConsumerId_key (fst e)"
        "\<lambda>e. sent_consumer v complete (ConsumerState_info (snd e))"] cons
    by (simp add: open_session_def)
  moreover have "(open_session (SessionState_info ss))\<lparr>entry_producers := p, entry_consumers := q\<rparr> = session_view (resent_session v complete ss)"
    by (simp add: session_view_def resent_session_def open_session_def p_def q_def option.map_comp comp_def fun_eq_iff
        consumer_keys.lookup_map [of "\<lambda>c. \<lparr>ConsumerState_info = sent_consumer v complete (ConsumerState_info c)\<rparr>"])
  ultimately have r3: "register_all (map (\<lambda>info. DConsumerInfo (sent_consumer v complete info)) (consumer_infos ss)) (R(x \<mapsto> c2)) =
      Some (R(x \<mapsto> c\<lparr>entry_sessions := (entry_sessions c)(y \<mapsto> session_view (resent_session v complete ss))\<rparr>))"
    using register_consumers [of "SessionState_consumers ss" x c2 v complete R] cons open2 assms(2)
    unfolding consumer_infos_def map_values_def map_map comp_def
    by (auto simp: prod_eq_iff c2_def c1_def)
  show ?thesis
    unfolding session_commands_def using r1 r2 r3 by (simp add: register_all_append del: registers.simps)
qed

lemma all_sessions_register:
  assumes "session_keys.keyed es" "\<forall>e\<in>set es. session_ok n (SessionId_key (fst e)) (snd e) \<and> fst (SessionId_key (fst e)) = x"
  shows "register_all (concat (map (session_commands v complete) (map_values es))) (R(x \<mapsto> c)) =
    Some (R(x \<mapsto> c\<lparr>entry_sessions := (\<lambda>y. case session_keys.lookup es y of
      Some ss \<Rightarrow> Some (session_view (resent_session v complete ss)) | None \<Rightarrow> entry_sessions c y)\<rparr>))"
proof -
  have "register_all (concat (map (session_commands v complete) (map_values es))) (R(x \<mapsto> c)) =
    Some (R(x \<mapsto> c\<lparr>entry_sessions := foldl (\<lambda>f e. f(SessionId_key (fst e) \<mapsto> session_view (resent_session v complete (snd e))))
      (entry_sessions c) es\<rparr>))"
    using assms(2)
  proof (induction es arbitrary: c)
    case Nil
    show ?case
      by (simp add: map_values_def)
  next
    case (Cons e es)
    define c' where "c' = c\<lparr>entry_sessions := (entry_sessions c)(SessionId_key (fst e) \<mapsto> session_view (resent_session v complete (snd e)))\<rparr>"
    have first: "register_all (session_commands v complete (snd e)) (R(x \<mapsto> c)) = Some (R(x \<mapsto> c'))"
      unfolding c'_def using Cons.prems by (intro sessions_register [where n = n]) simp_all
    have rest: "register_all (concat (map (session_commands v complete) (map_values es))) (R(x \<mapsto> c')) =
        Some (R(x \<mapsto> c'\<lparr>entry_sessions := foldl (\<lambda>f e. f(SessionId_key (fst e) \<mapsto> session_view (resent_session v complete (snd e))))
          (entry_sessions c') es\<rparr>))"
      using Cons.prems by (intro Cons.IH) simp
    have "c'\<lparr>entry_sessions := foldl (\<lambda>f e. f(SessionId_key (fst e) \<mapsto> session_view (resent_session v complete (snd e))))
          (entry_sessions c') es\<rparr> = c\<lparr>entry_sessions := foldl (\<lambda>f e. f(SessionId_key (fst e) \<mapsto> session_view (resent_session v complete (snd e))))
          (entry_sessions c) (e # es)\<rparr>"
      by (simp add: c'_def)
    then show ?case
      using first rest by (simp only: map_values_def list.map concat.simps register_all_append bind.bind_lunit)
  qed
  then show ?thesis
    using session_keys.fold_lookup [OF assms(1), of "\<lambda>ss. session_view (resent_session v complete ss)" "entry_sessions c"] by simp
qed

text \<open>Opening and closing producers again leaves no trace.\<close>

lemma put_producers_entry:
  "foldl (\<lambda>c e. put_producer (f e) (g e) c) c es = c\<lparr>entry_sessions := (\<lambda>z. map_option (\<lambda>s. s\<lparr>entry_producers :=
     foldl (\<lambda>h e. if producer_session (f e) = z then h(f e := g e) else h) (entry_producers s) es\<rparr>) (entry_sessions c z))\<rparr>"
proof (induction es arbitrary: c)
  case Nil
  show ?case
    by (simp add: option.map_ident)
next
  case (Cons e es)
  have "(\<lambda>z. map_option (\<lambda>s. s\<lparr>entry_producers := foldl (\<lambda>h e. if producer_session (f e) = z then h(f e := g e) else h)
      (entry_producers s) es\<rparr>) (entry_sessions (put_producer (f e) (g e) c) z)) =
    (\<lambda>z. map_option (\<lambda>s. s\<lparr>entry_producers := foldl (\<lambda>h e. if producer_session (f e) = z then h(f e := g e) else h)
      (entry_producers s) (e # es)\<rparr>) (entry_sessions c z))"
    by (rule ext) (simp add: put_producer_def option.map_comp comp_def)
  then show ?case
    unfolding foldl_Cons Cons.IH by (simp add: put_producer_def)
qed

lemma foldl_upd_outside: "(\<forall>e\<in>set es. Q e \<longrightarrow> f e \<noteq> y) \<Longrightarrow> foldl (\<lambda>h e. if Q e then h(f e := g e) else h) h es y = h y"
  by (induction es arbitrary: h) auto

lemma foldl_upd_None:
  "foldl (\<lambda>h e. if Q e then h(f e := None) else h) h es y = (if \<exists>e\<in>set es. Q e \<and> f e = y then None else h y)"
  by (induction es arbitrary: h) auto

lemma open_close_producers:
  assumes "\<forall>e\<in>set es. \<forall>s. entry_sessions c (producer_session (f e)) = Some s \<longrightarrow> entry_producers s (f e) = None"
  shows "foldl (\<lambda>c e. put_producer (f e) None c) (foldl (\<lambda>c e. put_producer (f e) (Some (g e)) c) c es) es = c"
proof -
  have "foldl (\<lambda>h e. if producer_session (f e) = z then h(f e := None) else h)
      (foldl (\<lambda>h e. if producer_session (f e) = z then h(f e := Some (g e)) else h) (entry_producers s) es) es = entry_producers s"
    if "entry_sessions c z = Some s" for z s
    using that assms by (auto simp: foldl_upd_None foldl_upd_outside fun_eq_iff)
  then have "map_option (\<lambda>s. s\<lparr>entry_producers := foldl (\<lambda>h e. if producer_session (f e) = z then h(f e := None) else h)
      (foldl (\<lambda>h e. if producer_session (f e) = z then h(f e := Some (g e)) else h) (entry_producers s) es) es\<rparr>) (entry_sessions c z) =
      entry_sessions c z" for z
    by (cases "entry_sessions c z") simp_all
  then show ?thesis
    unfolding put_producers_entry by (simp add: option.map_comp comp_def)
qed

text \<open>The producers that a transaction has taken over: closed, with their session still open.\<close>

definition taken_over :: "order_key \<Rightarrow> connection_entry \<Rightarrow> TransactionState \<Rightarrow> bool" where
  "taken_over x c ts \<longleftrightarrow> (\<forall>e\<in>set (TransactionState_producers ts). fst (ProducerId_key (fst e)) = x \<and>
     (\<exists>s. entry_sessions c (producer_session (ProducerId_key (fst e))) = Some s \<and> entry_producers s (ProducerId_key (fst e)) = None))"

lemma within_transaction_registers: "within_transaction d \<Longrightarrow> registers d R = Some R"
  by (cases d) (simp_all add: within_transaction_def)

lemma register_transaction:
  assumes "transaction_ok n ts" "taken_over x c ts"
  shows "register_all (transaction_commands ts) (R(x \<mapsto> c)) = Some (R(x \<mapsto> c))"
proof -
  let ?es = "TransactionState_producers ts"
  let ?c = "foldl (\<lambda>c e. put_producer (ProducerId_key (fst e)) (Some (ProducerState_info (snd e))) c) c ?es"
  have ok: "\<forall>e\<in>set ?es. producer_ok n (ProducerId_key (fst e)) (snd e)"
    using assms(1) by (simp add: transaction_ok_def producer_keys.holds_def)
  then have es: "\<forall>e\<in>set ?es. producer_ok n (ProducerId_key (fst e)) (snd e) \<and> fst (ProducerId_key (fst e)) = x \<and>
      entry_sessions c (producer_session (ProducerId_key (fst e))) \<noteq> None"
    using assms(2) unfolding taken_over_def by (metis option.distinct(1))
  have none: "entry_sessions ?c z = None \<longleftrightarrow> entry_sessions c z = None" for z
    unfolding put_producers_entry by simp
  have es': "\<forall>e\<in>set ?es. producer_ok n (ProducerId_key (fst e)) (snd e) \<and> fst (ProducerId_key (fst e)) = x \<and>
      entry_sessions ?c (producer_session (ProducerId_key (fst e))) \<noteq> None"
    using es unfolding none .
  have "register_all ds R' = Some R'" if "\<forall>d\<in>set ds. within_transaction d" for ds R'
    using that by (induction ds) (simp_all add: within_transaction_registers del: registers.simps)
  then have commands: "register_all (TransactionState_commands ts) R' = Some R'" for R'
    using assms(1) by (simp add: transaction_ok_def)
  have "foldl (\<lambda>c e. put_producer (ProducerId_key (fst e)) None c) ?c ?es = c"
    using assms(2) by (intro open_close_producers) (auto simp: taken_over_def)
  then show ?thesis
    unfolding transaction_commands_def map_values_def register_all_append
      register_producers(1) [OF es] bind.bind_lunit commands register_producers(2) [OF es'] by simp
qed

lemma register_transactions:
  assumes "\<forall>ts\<in>set txs. transaction_ok n ts \<and> taken_over x c ts"
  shows "register_all (concat (map transaction_commands txs)) (R(x \<mapsto> c)) = Some (R(x \<mapsto> c))"
  using assms
proof (induction txs)
  case (Cons ts txs)
  then have "register_all (transaction_commands ts) (R(x \<mapsto> c)) = Some (R(x \<mapsto> c))"
    by (intro register_transaction [where n = n]) simp_all
  moreover have "register_all (concat (map transaction_commands txs)) (R(x \<mapsto> c)) = Some (R(x \<mapsto> c))"
    using Cons.prems by (intro Cons.IH) simp
  ultimately show ?case
    by (simp only: list.map concat.simps register_all_append bind.bind_lunit)
qed simp

lemma resent_producers:
  "map_option entry_producers (entry_sessions (connection_view (resent v cs)) y) = map_option entry_producers (entry_sessions (connection_view cs) y)"
proof -
  have "session_keys.lookup (ConnectionState_sessions (resent v cs)) y =
      map_option (resent_session v (ConnectionState_connectionInterruptProcessingComplete cs)) (session_keys.lookup (ConnectionState_sessions cs) y)"
    by (simp add: resent_def session_keys.lookup_map)
  then show ?thesis
    by (simp add: connection_view_def option.map_comp comp_def) (simp add: session_view_def resent_session_def)
qed

lemma taken_over_resent: "taken_over x (connection_view (resent v cs)) ts \<longleftrightarrow> taken_over x (connection_view cs) ts"
proof -
  have "(\<exists>s. entry_sessions (connection_view (resent v cs)) y = Some s \<and> entry_producers s z = None) \<longleftrightarrow>
      (\<exists>s. entry_sessions (connection_view cs) y = Some s \<and> entry_producers s z = None)" for y z
    using resent_producers [of v cs y]
    by (cases "entry_sessions (connection_view (resent v cs)) y"; cases "entry_sessions (connection_view cs) y") auto
  then show ?thesis
    by (simp add: taken_over_def)
qed

lemma connection_registers:
  assumes "connection_ok n x cs" "session_keys.lookup (ConnectionState_sessions cs) (x, - 1) \<noteq> None"
    "\<forall>ts\<in>set (connection_transactions t cs). transaction_ok n ts \<and> taken_over x (connection_view cs) ts"
  shows "register_all (connection_commands v t cs) R = Some (R(x \<mapsto> connection_view (resent v cs)))"
proof -
  define info where "info = (ConnectionState_info cs)\<lparr>ConnectionInfo_failoverReconnect := True\<rparr>"
  obtain k where k: "ConnectionInfo_connectionId (ConnectionState_info cs) = Some k" "ConnectionId_key k = x"
    using assms(1) by (auto simp: connection_ok_def)
  define c where "c = (open_connection info k)\<lparr>entry_tempDestinations := ConnectionState_tempDestinations cs\<rparr>"
  have r1: "registers (DConnectionInfo info) R = Some (R(x \<mapsto> open_connection info k))"
    using k by (simp add: info_def)
  have r2: "register_all (map DDestinationInfo (ConnectionState_tempDestinations cs)) (R(x \<mapsto> open_connection info k)) = Some (R(x \<mapsto> c))"
    using register_temps [of "ConnectionState_tempDestinations cs" x R "open_connection info k"] assms(1)
    by (simp add: connection_ok_def c_def open_connection_def)
  let ?complete = "ConnectionState_connectionInterruptProcessingComplete cs"
  have "(\<lambda>y. case session_keys.lookup (ConnectionState_sessions cs) y of
      Some ss \<Rightarrow> Some (session_view (resent_session v ?complete ss)) | None \<Rightarrow> entry_sessions c y) =
    entry_sessions (connection_view (resent v cs))"
    using assms(2) k(2) by (auto simp: fun_eq_iff c_def open_connection_def connection_view_def resent_def
        session_keys.lookup_map split: option.split)
  then have "c\<lparr>entry_sessions := (\<lambda>y. case session_keys.lookup (ConnectionState_sessions cs) y of
      Some ss \<Rightarrow> Some (session_view (resent_session v ?complete ss)) | None \<Rightarrow> entry_sessions c y)\<rparr> = connection_view (resent v cs)"
    by (simp add: c_def open_connection_def connection_view_def resent_def info_def)
  then have r3: "register_all (concat (map (session_commands v ?complete) (map_values (ConnectionState_sessions cs)))) (R(x \<mapsto> c)) =
      Some (R(x \<mapsto> connection_view (resent v cs)))"
    using all_sessions_register [OF ok_keyed(2) [OF assms(1)], of n x v ?complete R c] assms(1)
    by (simp add: connection_ok_def session_keys.holds_def)
  have r4: "register_all (concat (map transaction_commands (connection_transactions t cs))) (R(x \<mapsto> connection_view (resent v cs))) =
      Some (R(x \<mapsto> connection_view (resent v cs)))"
    using assms(3) by (intro register_transactions [where n = n]) (simp add: taken_over_resent)
  show ?thesis
    unfolding connection_commands_def info_def [symmetric]
    by (simp only: register_all.simps register_all_append r1 r2 r3 r4 bind.bind_lunit)
qed

text \<open>
  The conditions under which everything is repeated: the default session of each connection is open, no
  transaction is in doubt, and the producers that a transaction has taken over are closed but have an open
  session.
\<close>

definition replayable :: "'z StateTracker_scheme \<Rightarrow> bool" where
  "replayable t \<longleftrightarrow> (\<forall>e\<in>set (connectionStates t).
     session_keys.lookup (ConnectionState_sessions (snd e)) (ConnectionId_key (fst e), - 1) \<noteq> None \<and>
     (\<forall>ts\<in>set (connection_transactions t (snd e)). repeatable ts \<and>
        taken_over (ConnectionId_key (fst e)) (connection_view (snd e)) ts))"

definition reconnected :: "int \<Rightarrow> 'z StateTracker_scheme \<Rightarrow> registry" where
  "reconnected v t = (\<lambda>x. map_option (\<lambda>cs. connection_view (resent v cs)) (connection_keys.lookup (connectionStates t) x))"

lemma connections_register:
  assumes "connection_keys.keyed m" "\<And>e R. e \<in> set m \<Longrightarrow>
    register_all (connection_commands v t (snd e)) R = Some (R(ConnectionId_key (fst e) \<mapsto> connection_view (resent v (snd e))))"
  shows "register_all (concat (map (connection_commands v t) (map_values m))) Map.empty =
    Some (\<lambda>x. map_option (\<lambda>cs. connection_view (resent v cs)) (connection_keys.lookup m x))"
proof -
  have "register_all (concat (map (connection_commands v t) (map_values m))) R =
      Some (foldl (\<lambda>R e. R(ConnectionId_key (fst e) \<mapsto> connection_view (resent v (snd e)))) R m)" for R
    using assms(2)
  proof (induction m arbitrary: R)
    case (Cons e m)
    have "register_all (connection_commands v t (snd e)) R = Some (R(ConnectionId_key (fst e) \<mapsto> connection_view (resent v (snd e))))"
      by (rule Cons.prems) simp
    moreover have "register_all (concat (map (connection_commands v t) (map_values m))) R' =
      Some (foldl (\<lambda>R e. R(ConnectionId_key (fst e) \<mapsto> connection_view (resent v (snd e)))) R' m)" for R'
      by (rule Cons.IH) (rule Cons.prems, simp)
    ultimately show ?case
      by (simp only: map_values_def list.map concat.simps register_all_append bind.bind_lunit foldl_Cons)
  qed (simp add: map_values_def)
  then show ?thesis
    using connection_keys.fold_lookup [OF assms(1), of "\<lambda>cs. connection_view (resent v cs)" Map.empty]
    by (auto simp: fun_eq_iff split: option.split)
qed

lemma register_messages:
  assumes "\<forall>d\<in>set ds. message_base d \<noteq> None \<or> is_pull d"
  shows "register_all ds R = Some R"
proof -
  have "registers d R = Some R" if "message_base d \<noteq> None \<or> is_pull d" for d
    using that by (cases d) simp_all
  then show ?thesis
    using assms by (induction ds) (simp_all del: registers.simps)
qed

lemma restore_registers:
  assumes "tracker_ok t" "replayable t"
  shows "register_all (restore_commands v t) Map.empty = Some (reconnected v t)"
proof -
  have heap: "transaction_ok (length (transactionHeap t)) ts"
    if e: "e \<in> set (connectionStates t)" and ts: "ts \<in> set (connection_transactions t (snd e))" for e ts
  proof -
    have "transaction_keys.holds (\<lambda>y a. a < length (transactionHeap t)) (ConnectionState_transactions (snd e))"
      using assms(1) e by (simp add: tracker_ok_def connection_keys.holds_def connection_ok_def)
    then obtain a where "ts = transactionHeap t ! a" "a < length (transactionHeap t)"
      using ts transaction_keys.holds_values [of "\<lambda>y a. a < length (transactionHeap t)"]
      by (fastforce simp: connection_transactions_def)
    then show ?thesis
      using heap_transaction_ok [OF assms(1)] by simp
  qed
  have "register_all (concat (map (connection_commands v t) (map_values (connectionStates t)))) Map.empty = Some (reconnected v t)"
    unfolding reconnected_def
  proof (rule connections_register)
    show "connection_keys.keyed (connectionStates t)"
      using assms(1) by (rule ok_keyed)
    fix e R
    assume e: "e \<in> set (connectionStates t)"
    then have "connection_ok (length (transactionHeap t)) (ConnectionId_key (fst e)) (snd e)"
      using assms(1) by (simp add: tracker_ok_def connection_keys.holds_def)
    then show "register_all (connection_commands v t (snd e)) R = Some (R(ConnectionId_key (fst e) \<mapsto> connection_view (resent v (snd e))))"
      using assms(2) e heap [OF e] by (intro connection_registers) (auto simp: replayable_def)
  qed
  moreover have "\<forall>d\<in>set (map snd (messageCache t) @ map snd (messagePullCache t)). message_base d \<noteq> None \<or> is_pull d"
    using assms(1) unfolding tracker_ok_def set_append list.set_map by blast
  then have "register_all (map snd (messageCache t) @ map snd (messagePullCache t)) R = Some R" for R
    by (rule register_messages)
  ultimately show ?thesis
    unfolding restore_commands_def register_all_append [of "concat _"] by simp
qed

section \<open>Consumers of an interrupted connection\<close>

definition controls :: "(ConsumerId, ConsumerInfo) stl_map \<Rightarrow> data_structure list" where
  "controls m = map (\<lambda>e. consumer_control (fst e) (snd e)) m"

lemma sends_quiet: "sends v (\<lambda>s. (Inr (), snd (oneway d s))) t t [d]"
  by (auto simp: sends_def oneway_def)

lemma complete_sends:
  assumes "connection_keys.keyed (pre @ (k, cs) # post)" "plain_connection k'" "ConnectionId_key k' = ConnectionId_key k"
  shows "sends v (connectionInterruptProcessingComplete k') (with_connection t pre k post cs)
    (with_connection t pre k post (cs\<lparr>ConnectionState_connectionInterruptProcessingComplete := True\<rparr>))
    (controls (ConnectionState_recoveringPullConsumers cs))"
proof -
  have "sends v (each (\<lambda>e s. (Inr (), snd (oneway (consumer_control (fst e) (snd e)) s))) m) t' t' (controls m)" for m and t' :: "'a StateTracker_scheme"
    using sends_each [of m v "\<lambda>e s. (Inr (), snd (oneway (consumer_control (fst e) (snd e)) s))" t' "\<lambda>e. [consumer_control (fst e) (snd e)]"]
    by (simp add: sends_quiet controls_def)
  then show ?thesis
    unfolding connectionInterruptProcessingComplete_def sends_def
    by (simp add: with_connection_access [OF assms] Let_def)
qed

text \<open>The map of the recovering consumers after the connection has been restored.\<close>

lemma recover_lookup:
  assumes "consumer_keys.keyed m" "\<forall>info\<in>set infos. \<exists>x. consumer_ok x info" "distinct (map (\<lambda>info. ConsumerId_key (the (ConsumerInfo_consumerId info))) infos)"
  shows "consumer_keys.keyed (foldl (recover v complete) m infos) \<and>
    consumer_keys.lookup (foldl (recover v complete) m infos) x =
      (case find (\<lambda>info. stalled v complete info \<and> ConsumerId_key (the (ConsumerInfo_consumerId info)) = x) infos of
         Some info \<Rightarrow> Some info | None \<Rightarrow> consumer_keys.lookup m x)"
  using assms
proof (induction infos arbitrary: m)
  case (Cons info infos)
  obtain c where c: "ConsumerInfo_consumerId info = Some c" "plain_consumer c"
    using Cons.prems(2) by (auto simp: consumer_ok_def)
  define m' where "m' = recover v complete m info"
  have m': "m' = (if stalled v complete info then map_assign ConsumerId_lt c info m else m)"
    using c(1) by (simp add: m'_def recover_def)
  have "consumer_keys.keyed m'" "consumer_keys.lookup m' x =
      (if stalled v complete info \<and> ConsumerId_key c = x then Some info else consumer_keys.lookup m x)"
    using Cons.prems(1) c(2) by (auto simp: m' consumer_keys.keyed_assign consumer_keys.lookup_assign)
  moreover have "find (\<lambda>info. stalled v complete info \<and> ConsumerId_key (the (ConsumerInfo_consumerId info)) = ConsumerId_key c) infos = None"
    using Cons.prems(3) c(1) by (force simp: find_None_iff)
  ultimately show ?case
    using Cons.IH [of m'] Cons.prems(2,3) c(1) by (auto simp: m'_def [symmetric] split: option.split)
qed simp

definition connection_consumers :: "ConnectionState \<Rightarrow> ConsumerInfo list" where
  "connection_consumers cs = concat (map consumer_infos (map_values (ConnectionState_sessions cs)))"

lemma ball_Un_first:
  "\<forall>x\<in>A. P x \<and> f x = g e \<Longrightarrow> \<forall>x\<in>B. P x \<and> (\<exists>e\<in>E. f x = g e) \<Longrightarrow> \<forall>x\<in>A \<union> B. P x \<and> (\<exists>e'\<in>insert e E. f x = g e')"
  by blast

lemma connection_consumers_distinct:
  assumes "connection_ok n x cs"
  shows "distinct (map (\<lambda>info. ConsumerId_key (the (ConsumerInfo_consumerId info))) (connection_consumers cs))"
    "\<forall>info\<in>set (connection_consumers cs). \<exists>y. consumer_ok y info"
proof -
  have infos: "map (\<lambda>info. ConsumerId_key (the (ConsumerInfo_consumerId info))) (consumer_infos ss) =
      map (\<lambda>e. ConsumerId_key (fst e)) (SessionState_consumers ss)" if "session_ok n y ss" for y ss
    using that by (auto simp: session_ok_def consumer_keys.holds_def consumer_ok_def consumer_infos_def map_values_def)
  have sessions: "session_keys.keyed es \<Longrightarrow> \<forall>e\<in>set es. session_ok n (SessionId_key (fst e)) (snd e) \<Longrightarrow>
      distinct (map (\<lambda>info. ConsumerId_key (the (ConsumerInfo_consumerId info))) (concat (map consumer_infos (map_values es)))) \<and>
      (\<forall>info\<in>set (concat (map consumer_infos (map_values es))). (\<exists>y. consumer_ok y info) \<and>
        (\<exists>e\<in>set es. consumer_session (ConsumerId_key (the (ConsumerInfo_consumerId info))) = SessionId_key (fst e)))" for es
  proof (induction es)
    case (Cons e es)
    obtain s ss where e: "e = (s, ss)"
      by fastforce
    have ok: "session_ok n (SessionId_key s) ss"
      using Cons.prems(2) e by simp
    have here: "distinct (map (\<lambda>e. ConsumerId_key (fst e)) (SessionState_consumers ss))"
      using ok_keyed(4) [OF ok] by (simp add: consumer_keys.keyed_def strict_sorted_iff)
    have mine: "\<forall>info\<in>set (consumer_infos ss). (\<exists>y. consumer_ok y info) \<and>
        consumer_session (ConsumerId_key (the (ConsumerInfo_consumerId info))) = SessionId_key s"
    proof
      fix info
      assume "info \<in> set (consumer_infos ss)"
      then obtain c ci where "(c, ci) \<in> set (SessionState_consumers ss)" "info = ConsumerState_info ci"
        by (auto simp: consumer_infos_def map_values_def)
      then have "consumer_session (ConsumerId_key c) = SessionId_key s" "consumer_ok (ConsumerId_key c) info"
        using ok unfolding session_ok_def consumer_keys.holds_def by fastforce+
      then show "(\<exists>y. consumer_ok y info) \<and>
          consumer_session (ConsumerId_key (the (ConsumerInfo_consumerId info))) = SessionId_key s"
        unfolding consumer_ok_def by (metis option.sel)
    qed
    have keyed: "session_keys.keyed es" "\<forall>e\<in>set es. SessionId_key s < SessionId_key (fst e)"
      using Cons.prems(1) e by (simp_all add: session_keys.keyed_Cons)
    note rest = Cons.IH [OF keyed(1)]
    have apart: "ConsumerId_key (the (ConsumerInfo_consumerId i)) \<noteq> ConsumerId_key (the (ConsumerInfo_consumerId j))"
      if i: "i \<in> set (consumer_infos ss)" and j: "j \<in> set (concat (map consumer_infos (map_values es)))" for i j
    proof -
      obtain e' where "e' \<in> set es" "consumer_session (ConsumerId_key (the (ConsumerInfo_consumerId j))) = SessionId_key (fst e')"
        using rest Cons.prems(2) j by force
      then have "consumer_session (ConsumerId_key (the (ConsumerInfo_consumerId i))) \<noteq>
          consumer_session (ConsumerId_key (the (ConsumerInfo_consumerId j)))"
        using mine i keyed(2) by (metis less_irrefl)
      then show ?thesis
        by metis
    qed
    have first: "map_values (e # es) = ss # map_values es"
      by (simp add: e map_values_def)
    have "distinct (map (\<lambda>info. ConsumerId_key (the (ConsumerInfo_consumerId info))) (consumer_infos ss))"
      unfolding infos [OF ok] by (rule here)
    moreover have "distinct (map (\<lambda>info. ConsumerId_key (the (ConsumerInfo_consumerId info))) (concat (map consumer_infos (map_values es))))"
      using rest Cons.prems(2) by simp
    ultimately have "distinct (map (\<lambda>info. ConsumerId_key (the (ConsumerInfo_consumerId info)))
        (consumer_infos ss @ concat (map consumer_infos (map_values es))))"
      unfolding map_append distinct_append set_map using apart by (intro conjI) (assumption, assumption, blast)
    moreover have "\<forall>info\<in>set (consumer_infos ss) \<union> set (concat (map consumer_infos (map_values es))). (\<exists>y. consumer_ok y info) \<and>
        (\<exists>e'\<in>insert e (set es). consumer_session (ConsumerId_key (the (ConsumerInfo_consumerId info))) = SessionId_key (fst e'))"
    proof -
      have "\<forall>info\<in>set (consumer_infos ss). (\<exists>y. consumer_ok y info) \<and>
          consumer_session (ConsumerId_key (the (ConsumerInfo_consumerId info))) = SessionId_key (fst e)"
        using mine unfolding e fst_conv .
      moreover have "\<forall>info\<in>set (concat (map consumer_infos (map_values es))). (\<exists>y. consumer_ok y info) \<and>
          (\<exists>e\<in>set es. consumer_session (ConsumerId_key (the (ConsumerInfo_consumerId info))) = SessionId_key (fst e))"
        using rest Cons.prems(2) by simp
      ultimately show ?thesis
        by (rule ball_Un_first)
    qed
    ultimately show ?case
      unfolding first list.map(2) concat.simps(2) set_append list.set(2) by (rule conjI)
  qed (simp add: map_values_def)
  show "distinct (map (\<lambda>info. ConsumerId_key (the (ConsumerInfo_consumerId info))) (connection_consumers cs))"
    "\<forall>info\<in>set (connection_consumers cs). \<exists>y. consumer_ok y info"
    using sessions [OF ok_keyed(2) [OF assms]] assms by (auto simp: connection_consumers_def connection_ok_def session_keys.holds_def)
qed

lemma restored_recovering:
  assumes "connection_ok n x cs"
  shows "consumer_keys.keyed (ConnectionState_recoveringPullConsumers (restored_state v cs))"
    and "info \<in> set (connection_consumers cs) \<Longrightarrow> stalled v (ConnectionState_connectionInterruptProcessingComplete cs) info \<Longrightarrow>
      \<exists>c. (c, info) \<in> set (ConnectionState_recoveringPullConsumers (restored_state v cs)) \<and>
        ConsumerId_key c = ConsumerId_key (the (ConsumerInfo_consumerId info))"
    and "(c, info) \<in> set (ConnectionState_recoveringPullConsumers (restored_state v cs)) \<Longrightarrow>
      info \<in> set (connection_consumers cs) \<and> stalled v (ConnectionState_connectionInterruptProcessingComplete cs) info \<or>
      info \<in> snd ` set (ConnectionState_recoveringPullConsumers cs)"
proof -
  let ?complete = "ConnectionState_connectionInterruptProcessingComplete cs" and ?old = "ConnectionState_recoveringPullConsumers cs"
  let ?key = "\<lambda>info. ConsumerId_key (the (ConsumerInfo_consumerId info))"
  define m where "m = ConnectionState_recoveringPullConsumers (restored_state v cs)"
  have m: "m = foldl (recover v ?complete) ?old (connection_consumers cs)"
    by (simp add: m_def restored_state_def recovering_def connection_consumers_def)
  have old: "consumer_keys.keyed ?old"
    using assms by (simp add: connection_ok_def consumer_keys.holds_def)
  note infos = connection_consumers_distinct [OF assms]
  note lookup = recover_lookup [OF old infos(2,1), of v ?complete, folded m]
  show "consumer_keys.keyed m"
    using lookup by blast
  then have keyed: "consumer_keys.keyed m" .
  have found: "find (\<lambda>i. stalled v ?complete i \<and> ?key i = ?key info) (connection_consumers cs) = Some info"
    if "info \<in> set (connection_consumers cs)" "stalled v ?complete info" for info
  proof (cases "find (\<lambda>i. stalled v ?complete i \<and> ?key i = ?key info) (connection_consumers cs)")
    case None
    then show ?thesis using that by (auto simp: find_None_iff)
  next
    case (Some i)
    then have "i \<in> set (connection_consumers cs)" "?key i = ?key info"
      by (auto simp: find_Some_iff)
    then have "i = info"
      using that(1) infos(1) by (meson distinct_map inj_on_def)
    then show ?thesis using Some by simp
  qed
  show "\<exists>c. (c, info) \<in> set m \<and> ConsumerId_key c = ?key info"
    if "info \<in> set (connection_consumers cs)" "stalled v ?complete info"
  proof -
    have "consumer_keys.lookup m (?key info) = Some info"
      using lookup [of "?key info"] unfolding found [OF that] by simp
    then show ?thesis by (simp only: consumer_keys.lookup_Some [OF keyed])
  qed
  show "info \<in> set (connection_consumers cs) \<and> stalled v ?complete info \<or> info \<in> snd ` set ?old" if "(c, info) \<in> set m"
  proof -
    have some: "consumer_keys.lookup m (ConsumerId_key c) = Some info"
      using consumer_keys.lookup_Some [OF keyed] that by auto
    show ?thesis
    proof (cases "find (\<lambda>i. stalled v ?complete i \<and> ?key i = ConsumerId_key c) (connection_consumers cs)")
      case None
      then have "consumer_keys.lookup ?old (ConsumerId_key c) = Some info"
        using lookup [of "ConsumerId_key c"] some by simp
      then obtain k where "(k, info) \<in> set ?old"
        unfolding consumer_keys.lookup_Some [OF old] by blast
      then show ?thesis by force
    next
      case (Some i)
      then have "i = info"
        using lookup [of "ConsumerId_key c"] some by simp
      moreover have "i \<in> set (connection_consumers cs)" "stalled v ?complete i"
        using Some by (auto simp: find_Some_iff)
      ultimately show ?thesis by simp
    qed
  qed
qed

lemma restored_split:
  assumes "tracker_ok t" "plain_connection k" "get_connection k t = Inr cs"
  obtains pre k' post where "connectionStates t = pre @ (k', cs) # post" "ConnectionId_key k = ConnectionId_key k'"
    "t\<lparr>connectionStates := restored_connections v (connectionStates t)\<rparr> =
      with_connection t (restored_connections v pre) k' (restored_connections v post) (restored_state v cs)"
    "connection_keys.keyed (restored_connections v pre @ (k', restored_state v cs) # restored_connections v post)"
proof -
  have keyed: "connection_keys.keyed (connectionStates t)"
    using assms(1) by (rule ok_keyed)
  have "connection_keys.lookup (connectionStates t) (ConnectionId_key k) = Some cs"
    using assms by (cases "connection_keys.lookup (connectionStates t) (ConnectionId_key k)") (simp_all add: get_connection_view)
  then obtain k' where "(k', cs) \<in> set (connectionStates t)" "ConnectionId_key k = ConnectionId_key k'"
    by (auto simp: connection_keys.lookup_def dest!: map_of_SomeD)
  moreover from this obtain pre post where "connectionStates t = pre @ (k', cs) # post"
    by (meson split_list)
  moreover have "connection_keys.keyed (restored_connections v m) \<longleftrightarrow> connection_keys.keyed m" for m
    by (auto simp: connection_keys.keyed_def restored_connections_def comp_def)
  then have "connection_keys.keyed (restored_connections v (connectionStates t))"
    using keyed by simp
  ultimately show thesis
    using that [of pre k' post] by (simp add: with_connection_def restored_connections_def)
qed

end
