(* ===== verification/Tracking.thy ===== *)
theory Tracking
  imports Failover
begin

text \<open>
  The life of a state tracker, as a transition system: commands are tracked, their responses arrive, the
  transport is interrupted, the state is restored on a new transport, which may fail at any command, and
  the interruption is processed. Every state in it is well-formed, and follows the registry.
\<close>

section \<open>Actions that keep the states well-formed\<close>

definition keeps_ok :: "('z StateTracker_scheme, unit) transport_action \<Rightarrow> bool" where
  "keeps_ok f \<longleftrightarrow> (\<forall>t tr. tracker_ok t \<longrightarrow> tracker_ok (fst (snd (f (t, tr)))))"

lemma keeps_okI: "(\<And>t tr. tracker_ok t \<Longrightarrow> tracker_ok (fst (snd (f (t, tr))))) \<Longrightarrow> keeps_ok f"
  by (simp add: keeps_ok_def)

lemma keeps_okD: "keeps_ok f \<Longrightarrow> tracker_ok t \<Longrightarrow> tracker_ok (fst (snd (f (t, tr))))"
  by (simp add: keeps_ok_def)

lemma keeps_oneway: "keeps_ok (oneway d)"
  by (simp add: keeps_ok_def oneway_def)

lemma keeps_finished: "keeps_ok finished"
  by (simp add: keeps_ok_def finished_def)

lemma keeps_andThen:
  assumes "keeps_ok f" "keeps_ok g"
  shows "keeps_ok (andThen f g)"
proof (rule keeps_okI)
  fix t :: "'a StateTracker_scheme" and tr
  assume "tracker_ok t"
  then have "tracker_ok (fst (snd (f (t, tr))))"
    by (rule keeps_okD [OF assms(1)])
  then show "tracker_ok (fst (snd (andThen f g (t, tr))))"
    using keeps_okD [OF assms(2), of "fst (snd (f (t, tr)))" "snd (snd (f (t, tr)))"]
    by (auto simp: andThen_def split: prod.split sum.split)
qed

lemma keeps_each: "(\<And>x. x \<in> set xs \<Longrightarrow> keeps_ok (f x)) \<Longrightarrow> keeps_ok (each f xs)"
proof (induction xs)
  case Nil
  show ?case
    by (simp add: keeps_ok_def)
next
  case (Cons x xs)
  then have "keeps_ok (andThen (f x) (each f xs))"
    by (intro keeps_andThen) simp_all
  then show ?case
    by (simp add: keeps_ok_def)
qed

lemma keeps_quiet: "keeps_ok f \<Longrightarrow> keeps_ok (\<lambda>s. (Inr (), snd (f s)))"
  by (simp add: keeps_ok_def)

lemmas keeps = keeps_oneway keeps_finished keeps_andThen keeps_each keeps_quiet

lemma restore_consumer_keeps:
  assumes "plain_connection k" "consumer_ok x info"
  shows "keeps_ok (restore_consumer k complete info)"
proof (rule keeps_okI)
  fix t :: "'a StateTracker_scheme" and tr
  assume t: "tracker_ok t"
  obtain c where c: "ConsumerInfo_consumerId info = Some c" "plain_consumer c" "consumer_ok (ConsumerId_key c) info"
    using assms(2) by (auto simp: consumer_ok_def)
  have "tracker_ok (set_connection k (cs\<lparr>ConnectionState_recoveringPullConsumers :=
      map_assign ConsumerId_lt c info (ConnectionState_recoveringPullConsumers cs)\<rparr>) t)" if "get_connection k t = Inr cs" for cs
    using get_connection_ok [OF t assms(1) that] c(2,3)
    by (intro set_connection_ok [OF t assms(1)]) (simp add: connection_ok_def consumer_keys.holds_assign)
  then show "tracker_ok (fst (snd (restore_consumer k complete info (t, tr))))"
    using t c(1) by (auto simp: restore_consumer_def oneway_def split: sum.split)
qed

lemma doRestoreConsumers_keeps:
  assumes "session_ok n y ss"
  shows "keeps_ok (doRestoreConsumers ss)"
proof (rule keeps_okI)
  fix t :: "'a StateTracker_scheme" and tr
  assume t: "tracker_ok t"
  obtain s where s: "SessionInfo_sessionId (SessionState_info ss) = Some s" "plain_connection (SessionId_getParentId s)"
    using assms by (auto simp: session_ok_def)
  have "\<exists>x. consumer_ok x info" if "info \<in> set (consumer_infos ss)" for info
    using assms that consumer_keys.holds_values [of "\<lambda>x c. consumer_session x = y \<and> consumer_ok x (ConsumerState_info c)"]
    by (fastforce simp: session_ok_def consumer_infos_def)
  then have "keeps_ok (each (restore_consumer (SessionId_getParentId s) complete) (consumer_infos ss))" for complete
    by (intro keeps_each) (metis restore_consumer_keeps s(2))
  from keeps_okD [OF this t] show "tracker_ok (fst (snd (doRestoreConsumers ss (t, tr))))"
    using t by (cases "get_connection (SessionId_getParentId s) t") (simp_all add: doRestoreConsumers_def s(1) Let_def consumer_infos_def)
qed

lemma restore_session_keeps:
  assumes "session_ok n y ss"
  shows "keeps_ok (restore_session ss)"
  unfolding restore_session_def doRestoreProducers_def
  by (rule keeps_okI) (auto intro!: keeps_okD keeps doRestoreConsumers_keeps [OF assms])

lemma restore_transaction_keeps: "keeps_ok (restore_transaction ts)"
proof -
  have "keeps_ok (\<lambda>s. (Inl e, s))" for e
    by (simp add: keeps_ok_def)
  then show ?thesis
    by (auto simp: restore_transaction_def intro!: keeps)
qed

lemma fail_commit_keeps:
  assumes "\<And>d t. tracker_ok t \<Longrightarrow> tracker_ok (snd (listener d t))"
  shows "keeps_ok (fail_commit listener info)"
proof (rule keeps_okI)
  fix t :: "'a StateTracker_scheme" and tr
  assume "tracker_ok t"
  then show "tracker_ok (fst (snd (fail_commit listener info (t, tr))))"
    using assms by (cases "TransactionId_toString (TransactionInfo_transactionId info)") (simp_all add: fail_commit_def Let_def split_beta)
qed

lemma doRestoreTransactions_keeps:
  assumes "\<And>d t. tracker_ok t \<Longrightarrow> tracker_ok (snd (listener d t))"
  shows "keeps_ok (doRestoreTransactions listener cs)"
  unfolding doRestoreTransactions_def Let_def
  by (rule keeps_okI) (auto intro!: keeps_okD keeps restore_transaction_keeps fail_commit_keeps assms)

lemma restore_connection_keeps:
  assumes "\<And>d t. tracker_ok t \<Longrightarrow> tracker_ok (snd (listener d t))" "plain_connection k"
  shows "keeps_ok (restore_connection listener k)"
proof (rule keeps_okI)
  fix t :: "'a StateTracker_scheme" and tr
  assume t: "tracker_ok t"
  show "tracker_ok (fst (snd (restore_connection listener k (t, tr))))"
  proof (cases "get_connection k t")
    case (Inr cs)
    define cs' where "cs' = cs\<lparr>ConnectionState_info := (ConnectionState_info cs)\<lparr>ConnectionInfo_failoverReconnect := True\<rparr>\<rparr>"
    have ok: "connection_ok (length (transactionHeap t)) (ConnectionId_key k) cs'"
      using get_connection_ok [OF t assms(2) Inr] by (simp add: connection_ok_def cs'_def)
    then have t': "tracker_ok (set_connection k cs' t)"
      by (rule set_connection_ok [OF t assms(2)])
    have "\<exists>n y. session_ok n y ss" if "ss \<in> set (map_values (ConnectionState_sessions cs'))" for ss
      using ok that session_keys.holds_values [of "\<lambda>y ss. session_connection y = ConnectionId_key k \<and> session_ok (length (transactionHeap t)) y ss"]
      by (fastforce simp: connection_ok_def)
    then have "keeps_ok (doRestoreSessions cs')"
      unfolding doRestoreSessions_def by (intro keeps_each) (metis restore_session_keeps)
    then show ?thesis
      using t' by (auto simp: restore_connection_def Inr Let_def cs'_def [symmetric] doRestoreTempDestinations_def
          intro!: keeps_okD keeps doRestoreTransactions_keeps [OF assms(1)])
  qed (simp add: restore_connection_def t)
qed

lemma restore_ok:
  assumes "\<And>d t. tracker_ok t \<Longrightarrow> tracker_ok (snd (listener d t))" "tracker_ok t"
  shows "tracker_ok (fst (snd (restore listener (t, tr))))"
proof -
  have "plain_connection k" if "k \<in> set (map_keys (connectionStates t))" for k
    using that ok_keyed(1) [OF assms(2)] by (auto simp: connection_keys.keyed_def map_keys_def)
  then have "keeps_ok (each (restore_connection listener) (map_keys (connectionStates t)))"
    by (intro keeps_each restore_connection_keeps [OF assms(1)])
  moreover have "keeps_ok (\<lambda>(t', tr'). andThen (each oneway (map snd (messageCache t'))) (each oneway (map snd (messagePullCache t'))) (t', tr'))"
    by (rule keeps_okI) (auto intro!: keeps_okD keeps)
  ultimately show ?thesis
    using keeps_okD [OF keeps_andThen assms(2)] by (simp add: restore_def)
qed

lemma complete_ok:
  assumes "plain_connection k"
  shows "keeps_ok (connectionInterruptProcessingComplete k)"
proof (rule keeps_okI)
  fix t :: "'a StateTracker_scheme" and tr
  assume t: "tracker_ok t"
  show "tracker_ok (fst (snd (connectionInterruptProcessingComplete k (t, tr))))"
  proof (cases "get_connection k t")
    case (Inr cs)
    have "tracker_ok (set_connection k (cs\<lparr>ConnectionState_connectionInterruptProcessingComplete := True\<rparr>) t)"
      using get_connection_ok [OF t assms Inr] by (intro set_connection_ok [OF t assms]) (simp add: connection_ok_def)
    then show ?thesis
      by (auto simp: connectionInterruptProcessingComplete_def Inr Let_def intro!: keeps_okD keeps)
  qed (simp add: connectionInterruptProcessingComplete_def t)
qed

lemma transportInterrupted_ok:
  assumes "tracker_ok t"
  shows "tracker_ok (transportInterrupted t)" "tracker_view (transportInterrupted t) = tracker_view t"
proof -
  let ?f = "\<lambda>cs. cs\<lparr>ConnectionState_connectionInterruptProcessingComplete := False\<rparr>"
  have "connection_ok n x (?f cs) \<longleftrightarrow> connection_ok n x cs" for n x cs
    by (simp add: connection_ok_def)
  then show "tracker_ok (transportInterrupted t)"
    using assms by (auto simp: tracker_ok_def transportInterrupted_def connection_keys.holds_def connection_keys.keyed_def comp_def)
  show "tracker_view (transportInterrupted t) = tracker_view t"
    by (simp add: tracker_view_def transportInterrupted_def connection_keys.lookup_map option.map_comp comp_def)
qed

lemma TransactionState_clear_ok: "transaction_ok n ts \<Longrightarrow> transaction_ok n (TransactionState_clear ts)"
  by (simp add: transaction_ok_def TransactionState_clear_def cm_clear_def)

lemma clear_transaction_ok:
  assumes "tracker_ok t" "a < length (transactionHeap t)"
  shows "tracker_ok (t\<lparr>transactionHeap := (transactionHeap t)[a := TransactionState_clear (transactionHeap t ! a)]\<rparr>)"
proof -
  have "transaction_ok (length (transactionHeap t)) (TransactionState_clear (transactionHeap t ! a))"
    using heap_transaction_ok [OF assms] by (rule TransactionState_clear_ok)
  then have "\<forall>ts\<in>set ((transactionHeap t)[a := TransactionState_clear (transactionHeap t ! a)]).
      transaction_ok (length (transactionHeap t)) ts"
    using assms(1) set_update_subset_insert [of "transactionHeap t" a "TransactionState_clear (transactionHeap t ! a)"]
    unfolding tracker_ok_def by blast
  then show ?thesis
    using assms(1) by (simp add: tracker_ok_def)
qed

text \<open>An action whose command had identities that are compared by their names.\<close>

fun plain_tracked :: "tracked \<Rightarrow> bool" where
  "plain_tracked TRACKED_RESPONSE_MARKER = True"
| "plain_tracked (RemoveTransactionAction info) = plain_command (DTransactionInfo info)"

lemma onResponse_ok:
  assumes "tracker_ok t" "plain_tracked a"
  shows "tracker_ok (snd (onResponse a t))" "tracker_view (snd (onResponse a t)) = tracker_view t"
proof -
  have "tracker_ok (snd (removeTransaction info t)) \<and> tracker_view (snd (removeTransaction info t)) = tracker_view t"
    if info: "plain_command (DTransactionInfo info)" for info
    unfolding removeTransaction_def
  proof (rule unless_failed_ok)
    show "tracker_ok t \<and> tracker_view t = tracker_view t"
      using assms(1) by simp
    fix x t'
    assume "bind_result (dereference (TransactionInfo_connectionId info)) (\<lambda>k.
      bind_result (get_connection k t) (\<lambda>cs.
      bind_result (removeTransactionState (TransactionInfo_transactionId info) cs) (\<lambda>(a, cs').
      Inr ((), set_connection k cs' (case a of
        Some a' \<Rightarrow> t\<lparr>transactionHeap := (transactionHeap t)[a' := TransactionState_clear (transactionHeap t ! a')]\<rparr>
      | None \<Rightarrow> t))))) = Inr (x, t')"
    then obtain k cs l where k: "TransactionInfo_connectionId info = Some k" "get_connection k t = Inr cs"
        "as_LocalTransactionId (TransactionInfo_transactionId info) = Inr l"
      and t': "t' = set_connection k (cs\<lparr>ConnectionState_transactions := map_erase LocalTransactionId_lt l (ConnectionState_transactions cs)\<rparr>)
        (case map_find LocalTransactionId_lt l (ConnectionState_transactions cs) of
          Some a' \<Rightarrow> t\<lparr>transactionHeap := (transactionHeap t)[a' := TransactionState_clear (transactionHeap t ! a')]\<rparr> | None \<Rightarrow> t)"
      by (auto simp: bind_result_Inr_iff removeTransactionState_def cm_remove_def split: option.splits)
    have plain: "plain_connection k" "plain_transaction l"
      using info k(1,3) by (cases "TransactionInfo_transactionId info" rule: as_LocalTransactionId.cases; auto simp: plain_command_def plain_local_def)+
    note ok = get_connection_ok [OF assms(1) plain(1) k(2)]
    define cs' where "cs' = cs\<lparr>ConnectionState_transactions := map_erase LocalTransactionId_lt l (ConnectionState_transactions cs)\<rparr>"
    have cs': "connection_ok (length (transactionHeap t)) (ConnectionId_key k) cs'"
      using ok plain(2) by (simp add: cs'_def connection_ok_def transaction_keys.holds_erase)
    have "tracker_ok (set_connection k cs' t)" "tracker_view (set_connection k cs' t) = tracker_view t"
      using cs' by (auto intro!: set_connection_ok [OF assms(1) plain(1)] set_connection_same [OF assms(1) plain(1) k(2)] simp: cs'_def)
    moreover have "a < length (transactionHeap t)" if "map_find LocalTransactionId_lt l (ConnectionState_transactions cs) = Some a" for a
      using ok plain(2) that transaction_keys.holds_find [of _ "ConnectionState_transactions cs" l a] by (auto simp: connection_ok_def)
    moreover have "transactionHeap (set_connection k cs' t) = transactionHeap t"
      by (simp add: set_connection_def)
    ultimately show "tracker_ok t' \<and> tracker_view t' = tracker_view t"
      unfolding t' cs'_def [symmetric]
      using clear_transaction_ok [of "set_connection k cs' t"] by (auto simp: set_connection_heap split: option.split)
  qed
  then show "tracker_ok (snd (onResponse a t))" "tracker_view (snd (onResponse a t)) = tracker_view t"
    using assms by (cases a; simp)+
qed

section \<open>The life of a tracker\<close>

text \<open>
  A tracker starts with its settings and without connections. A restoration hands responses to the
  transport's listener, which may run the action of a tracked command.
\<close>

definition empty_tracker :: "StateTracker \<Rightarrow> bool" where
  "empty_tracker t \<longleftrightarrow> connectionStates t = [] \<and> transactionHeap t = [] \<and> messageCache t = [] \<and> messagePullCache t = []"

definition tracking_listener :: "(data_structure \<Rightarrow> StateTracker \<Rightarrow> unit result \<times> StateTracker) \<Rightarrow> bool" where
  "tracking_listener listener \<longleftrightarrow> (\<forall>d t. snd (listener d t) = t \<or> (\<exists>a. plain_tracked a \<and> snd (listener d t) = snd (onResponse a t)))"

inductive tracker_step :: "StateTracker \<Rightarrow> StateTracker \<Rightarrow> bool" where
  step_track: "plain_command d \<Longrightarrow> tracker_step t (snd (track ref d t))"
| step_response: "plain_tracked a \<Longrightarrow> tracker_step t (snd (onResponse a t))"
| step_interrupted: "tracker_step t (transportInterrupted t)"
| step_restore: "tracking_listener listener \<Longrightarrow> tracker_step t (fst (snd (restore listener (t, tr))))"
| step_complete: "plain_connection k \<Longrightarrow> tracker_step t (fst (snd (connectionInterruptProcessingComplete k (t, tr))))"

inductive tracker_reachable :: "StateTracker \<Rightarrow> bool" where
  reachable_start: "empty_tracker t \<Longrightarrow> tracker_reachable t"
| reachable_step: "tracker_reachable t \<Longrightarrow> tracker_step t t' \<Longrightarrow> tracker_reachable t'"

lemma tracking_listener_ok:
  assumes "tracking_listener listener" "tracker_ok t"
  shows "tracker_ok (snd (listener d t))"
proof -
  consider "snd (listener d t) = t" | a where "plain_tracked a" "snd (listener d t) = snd (onResponse a t)"
    using assms(1) unfolding tracking_listener_def by blast
  then show ?thesis
    using assms(2) onResponse_ok(1) by cases simp_all
qed

lemma tracker_step_ok:
  assumes "tracker_step t t'" "tracker_ok t"
  shows "tracker_ok t'"
  using assms
proof cases
  case (step_restore listener tr)
  then show ?thesis
    using restore_ok [OF tracking_listener_ok assms(2)] by simp
qed (simp_all add: track_ok onResponse_ok transportInterrupted_ok keeps_okD [OF complete_ok])

text \<open>
  C8. Every state in the life of a tracker is well-formed: each map is sorted without repetitions, each
  entry is kept under the identity of its own command, in the session and connection that the identity names,
  no state in a map is disposed, each transaction that a connection or a producer points to exists, the caches
  hold messages and pulls only. It holds wherever a transport fails.
\<close>

theorem tracker_reachable_ok:
  assumes "tracker_reachable t"
  shows "tracker_ok t"
  using assms
proof induction
  case (reachable_start t)
  then show ?case
    by (simp add: tracker_ok_def empty_tracker_def)
next
  case (reachable_step t t')
  then show ?case
    using tracker_step_ok by simp
qed

theorem tracker_reachable_ok_witness:
  "tracker_ok (snd (track 0 (DConnectionInfo (create_ConnectionInfo\<lparr>ConnectionInfo_connectionId :=
     Some \<lparr>ConnectionId_value = [99]\<rparr>\<rparr>)) (transportInterrupted new_ConnectionStateTracker)))"
proof (rule tracker_reachable_ok)
  have "tracker_reachable new_ConnectionStateTracker"
    by (rule reachable_start) (simp add: empty_tracker_def new_ConnectionStateTracker_def)
  then have "tracker_reachable (transportInterrupted new_ConnectionStateTracker)"
    by (rule reachable_step) (rule step_interrupted)
  then show "tracker_reachable (snd (track 0 (DConnectionInfo (create_ConnectionInfo\<lparr>ConnectionInfo_connectionId :=
      Some \<lparr>ConnectionId_value = [99]\<rparr>\<rparr>)) (transportInterrupted new_ConnectionStateTracker)))"
    by (rule reachable_step) (rule step_track, simp add: plain_command_def isWhitespace_def)
qed

text \<open>
  C7. The tracker follows the registry: a plain command changes what the tracker shows as the registry
  prescribes. A command that opens or closes something returns the common marker; if the registry refuses it,
  because an identity is missing or its connection or session is not open, the tracker throws an
  \<open>IOException\<close> and shows what it did before.
\<close>

theorem tracker_follows_registry:
  assumes "tracker_ok t" "plain_command d"
  shows "tracker_view (snd (track ref d t)) = (case registers d (tracker_view t) of Some R \<Rightarrow> R | None \<Rightarrow> tracker_view t) \<and>
    (is_registration d \<longrightarrow> fst (track ref d t) =
      (case registers d (tracker_view t) of Some R \<Rightarrow> Inr (Some TRACKED_RESPONSE_MARKER) | None \<Rightarrow> Inl IOException))"
  using track_follows [OF assms] by blast

text \<open>
  C5. Restoring is a round trip: if nothing stands in the way of repeating the state and the transport accepts
  the commands, \<open>restore\<close> succeeds, and a broker that starts with nothing and registers the commands
  that were sent, in their order, refuses none of them and ends with the connections, temporary destinations,
  sessions, producers and consumers of the tracker, marked as reconnected and, during an interruption, without
  prefetch.
\<close>

theorem restore_rebuilds_registry:
  assumes "tracker_ok t" "restores_all t" "replayable t" "length (restore_commands (transport_version tr) t) \<le> transport_accepts tr"
  shows "\<exists>t' tr' ds. restore listener (t, tr) = (Inr (), t', tr') \<and> transport_sent tr' = transport_sent tr @ ds \<and>
    register_all ds Map.empty = Some (reconnected (transport_version tr) t)"
proof -
  have "all_repeatable t"
    using assms(3) by (auto simp: replayable_def all_repeatable_def map_values_def)
  then show ?thesis
    using restore_sends [OF assms(1,2), of "transport_version tr" listener] restore_registers [OF assms(1,3)] assms(4)
    by (auto simp: sends_def)
qed

text \<open>A tracker with a connection, its default session and a consumer, during an interruption.\<close>

definition sample_id :: ConnectionId where
  "sample_id = \<lparr>ConnectionId_value = [99]\<rparr>"

definition sample_ConsumerInfo :: ConsumerInfo where
  "sample_ConsumerInfo = create_ConsumerInfo\<lparr>ConsumerInfo_consumerId :=
     Some \<lparr>ConsumerId_connectionId = [99], ConsumerId_sessionId = - 1, ConsumerId_value = 7\<rparr>, ConsumerInfo_prefetchSize := 10\<rparr>"

definition sample_session :: SessionState where
  "sample_session = \<lparr>SessionState_info = create_SessionInfo\<lparr>SessionInfo_sessionId :=
       Some \<lparr>SessionId_connectionId = [99], SessionId_value = - 1\<rparr>\<rparr>,
     SessionState_producers = [],
     SessionState_consumers = [(\<lparr>ConsumerId_connectionId = [99], ConsumerId_sessionId = - 1, ConsumerId_value = 7\<rparr>,
       \<lparr>ConsumerState_info = sample_ConsumerInfo\<rparr>)],
     SessionState_disposed = False\<rparr>"

definition sample_connection :: ConnectionState where
  "sample_connection = \<lparr>ConnectionState_info = create_ConnectionInfo\<lparr>ConnectionInfo_connectionId := Some sample_id\<rparr>,
     ConnectionState_transactions = [],
     ConnectionState_sessions = [(\<lparr>SessionId_connectionId = [99], SessionId_value = - 1\<rparr>, sample_session)],
     ConnectionState_tempDestinations = [], ConnectionState_disposed = False,
     ConnectionState_connectionInterruptProcessingComplete = False, ConnectionState_recoveringPullConsumers = []\<rparr>"

definition sample_tracker :: StateTracker where
  "sample_tracker = new_ConnectionStateTracker\<lparr>connectionStates := [(sample_id, sample_connection)]\<rparr>"

lemma sample_session_ok: "session_ok 0 (natural_key True [99], - 1) sample_session"
  by (simp add: session_ok_def sample_session_def consumer_ok_def sample_ConsumerInfo_def consumer_keys.holds_def
      consumer_keys.keyed_def SessionId_key_def ConsumerId_key_def isWhitespace_def)

lemma sample_connection_ok: "connection_ok 0 (ConnectionId_key sample_id) sample_connection"
  using sample_session_ok
  by (simp add: connection_ok_def sample_connection_def sample_id_def session_keys.holds_def session_keys.keyed_def
      SessionId_key_def ConnectionId_key_def isWhitespace_def)

lemma sample_tracker_ok: "tracker_ok sample_tracker" "restores_all sample_tracker" "replayable sample_tracker"
proof -
  show "tracker_ok sample_tracker"
    using sample_connection_ok
    by (simp add: tracker_ok_def sample_tracker_def new_ConnectionStateTracker_def connection_keys.holds_def
        connection_keys.keyed_def sample_id_def isWhitespace_def)
  show "restores_all sample_tracker"
    by (simp add: restores_all_def sample_tracker_def new_ConnectionStateTracker_def)
  show "replayable sample_tracker"
    by (simp add: replayable_def sample_tracker_def new_ConnectionStateTracker_def sample_connection_def sample_id_def
        session_keys.lookup_def SessionId_key_def ConnectionId_key_def connection_transactions_def map_values_def)
qed

lemma sample_commands: "length (restore_commands 9 sample_tracker) = 3"
  by (simp add: restore_commands_def sample_tracker_def new_ConnectionStateTracker_def sample_connection_def sample_session_def
      connection_commands_def session_commands_def consumer_infos_def connection_transactions_def map_values_def)

theorem restore_rebuilds_registry_witness:
  "\<exists>t' tr' ds. restore (\<lambda>d t. (Inr (), t)) (sample_tracker,
      \<lparr>transport_version = 9, transport_accepts = 3, transport_sent = [], transport_delivered = []\<rparr>) = (Inr (), t', tr') \<and>
    transport_sent tr' = ds \<and> register_all ds Map.empty = Some (reconnected 9 sample_tracker)"
  using restore_rebuilds_registry [OF sample_tracker_ok,
      of "\<lparr>transport_version = 9, transport_accepts = 3, transport_sent = [], transport_delivered = []\<rparr>" "\<lambda>d t. (Inr (), t)"]
  by (simp add: sample_commands)

theorem tracker_follows_registry_witness:
  "fst (track 0 (DSessionInfo create_SessionInfo) sample_tracker) = Inl IOException \<and>
   tracker_view (snd (track 0 (DSessionInfo create_SessionInfo) sample_tracker)) = tracker_view sample_tracker"
  using tracker_follows_registry [OF sample_tracker_ok(1), of "DSessionInfo create_SessionInfo" 0]
  by (simp add: plain_command_def create_SessionInfo_def)

section \<open>Transactions in doubt\<close>

definition doubt_response :: "TransactionInfo \<Rightarrow> data_structure" where
  "doubt_response info = DExceptionResponse (in_doubt_response info
     (case TransactionId_toString (TransactionInfo_transactionId info) of Inr name \<Rightarrow> name | Inl e \<Rightarrow> []))"

text \<open>The transaction has commands, and the one that it may wait for names a local transaction with a connection.\<close>

definition resolvable :: "TransactionState \<Rightarrow> bool" where
  "resolvable ts \<longleftrightarrow> TransactionState_commands ts \<noteq> [] \<and>
     (\<forall>info. pending_commit ts = Some info \<longrightarrow> (\<exists>name. TransactionId_toString (TransactionInfo_transactionId info) = Inr name))"

text \<open>The answer that makes a commit fail.\<close>

definition fails_commit :: "TransactionInfo \<Rightarrow> data_structure \<Rightarrow> bool" where
  "fails_commit info d \<longleftrightarrow> (\<exists>r text. d = DExceptionResponse r \<and> Response_correlationId r = BaseCommand_commandId info \<and>
     ExceptionResponse_exception r = Some (BrokerError (bytes_of ''TransactionRolledBackException'') text [] None))"

lemma doubt_response_fails: "fails_commit info (doubt_response info)"
  by (simp add: fails_commit_def doubt_response_def in_doubt_response_def)

lemma restore_transactions_sends:
  assumes "\<forall>ts\<in>set txs. resolvable ts"
  shows "sends v (each restore_transaction txs) t t (concat (map transaction_commands [ts\<leftarrow>txs. pending_commit ts = None]))"
proof -
  have "sends v (restore_transaction ts) t t (if pending_commit ts = None then transaction_commands ts else [])" if "resolvable ts" for ts
    using that restore_transaction_sends [of ts v t] sends_finished [of v t]
    by (auto simp: resolvable_def repeatable_def restore_transaction_def in_doubt_pending)
  then have "sends v (each restore_transaction txs) t t
      (concat (map (\<lambda>ts. if pending_commit ts = None then transaction_commands ts else []) txs))"
    using assms by (intro sends_each) simp
  moreover have "concat (map (\<lambda>ts. if pending_commit ts = None then transaction_commands ts else []) txs) =
      concat (map transaction_commands [ts\<leftarrow>txs. pending_commit ts = None])"
    by (induction txs) simp_all
  ultimately show ?thesis
    by simp
qed

lemma fail_commits_deliver:
  assumes "\<And>d t. fst (listener d t) = Inr ()"
    "\<forall>info\<in>set infos. \<exists>name. TransactionId_toString (TransactionInfo_transactionId info) = Inr name"
  shows "each (fail_commit listener) infos (t, tr) = (Inr (), foldl (\<lambda>t info. snd (listener (doubt_response info) t)) t infos,
    tr\<lparr>transport_delivered := transport_delivered tr @ map doubt_response infos\<rparr>)"
  using assms(2)
proof (induction infos arbitrary: t tr)
  case (Cons info infos)
  have "fail_commit listener info (t, tr) = (Inr (), snd (listener (doubt_response info) t),
      tr\<lparr>transport_delivered := transport_delivered tr @ [doubt_response info]\<rparr>)" for t tr
    using Cons.prems assms(1) by (auto simp: fail_commit_def doubt_response_def Let_def split_beta)
  then show ?case
    using Cons by (simp add: andThen_def)
qed simp

lemma in_doubt_pending_all:
  "\<forall>ts\<in>set txs. resolvable ts \<Longrightarrow> List.map_filter in_doubt txs = List.map_filter pending_commit txs"
  by (induction txs) (simp_all add: List.map_filter_def resolvable_def in_doubt_pending)

text \<open>
  C9. Restoring the transactions of a connection on a transport that takes all that is sent: a transaction whose last
  command is a commit in one phase, which was sent and not answered, is not repeated; nothing of it is sent, and the
  listener is given an \<open>ExceptionResponse\<close> with the command identity of the commit and the exception class
  \<open>TransactionRolledBackException\<close>, one for each such commit in the order of the transactions. All other
  transactions, those that wait for a prepare, a commit in two phases or a rollback included, are repeated
  with their producers. Each transaction has at least one command, its commit names a local transaction, and the listener does
  not throw.
\<close>

theorem in_doubt_not_repeated:
  assumes "\<And>d t. fst (listener d t) = Inr ()" "\<forall>ts\<in>set (connection_transactions t cs). resolvable ts"
    "length (concat (map transaction_commands [ts\<leftarrow>connection_transactions t cs. pending_commit ts = None])) \<le> transport_accepts tr"
  shows "\<exists>t' tr' ds. doRestoreTransactions listener cs (t, tr) = (Inr (), t', tr') \<and>
    transport_sent tr' = transport_sent tr @
      concat (map transaction_commands [ts\<leftarrow>connection_transactions t cs. pending_commit ts = None]) \<and>
    transport_delivered tr' = transport_delivered tr @ ds \<and>
    list_all2 fails_commit (List.map_filter pending_commit (connection_transactions t cs)) ds"
proof -
  let ?infos = "List.map_filter pending_commit (connection_transactions t cs)"
  have names: "\<forall>info\<in>set ?infos. \<exists>name. TransactionId_toString (TransactionInfo_transactionId info) = Inr name"
    using assms(2) by (auto simp: map_filter_def resolvable_def)
  note sent = restore_transactions_sends [OF assms(2), unfolded sends_def, rule_format, OF refl assms(3), of t]
  have "list_all2 fails_commit ?infos (map doubt_response ?infos)"
    by (simp add: list_all2_map2 doubt_response_fails list_all2_refl)
  then show ?thesis
    unfolding doRestoreTransactions_def connection_transactions_def [symmetric]
    using fail_commits_deliver [of listener, OF assms(1) names] in_doubt_pending_all [OF assms(2)]
    by (auto simp: Let_def andThen_def sent catch_as_def)
qed

theorem in_doubt_not_repeated_witness:
  "\<exists>t' tr'. doRestoreTransactions (\<lambda>d t. (Inr (), t)) (sample_connection\<lparr>ConnectionState_transactions :=
      [(\<lparr>LocalTransactionId_value = 1, LocalTransactionId_connectionId = Some sample_id\<rparr>, 0)]\<rparr>)
    (sample_tracker\<lparr>transactionHeap := [(new_TransactionState None)\<lparr>TransactionState_commands := [DTransactionInfo
      (create_TransactionInfo\<lparr>BaseCommand_commandId := 5, TransactionInfo_type := TRANSACTION_STATE_COMMITONEPHASE,
        TransactionInfo_transactionId := Some (Local \<lparr>LocalTransactionId_value = 1, LocalTransactionId_connectionId = Some sample_id\<rparr>)\<rparr>)]\<rparr>]\<rparr>,
     \<lparr>transport_version = 9, transport_accepts = 0, transport_sent = [], transport_delivered = []\<rparr>) = (Inr (), t', tr') \<and>
    transport_sent tr' = [] \<and> length (transport_delivered tr') = 1"
proof -
  let ?info = "create_TransactionInfo\<lparr>BaseCommand_commandId := 5, TransactionInfo_type := TRANSACTION_STATE_COMMITONEPHASE,
    TransactionInfo_transactionId := Some (Local \<lparr>LocalTransactionId_value = 1, LocalTransactionId_connectionId = Some sample_id\<rparr>)\<rparr>"
  let ?ts = "(new_TransactionState None)\<lparr>TransactionState_commands := [DTransactionInfo ?info]\<rparr>"
  let ?t = "sample_tracker\<lparr>transactionHeap := [?ts]\<rparr>"
  let ?cs = "sample_connection\<lparr>ConnectionState_transactions := [(\<lparr>LocalTransactionId_value = 1, LocalTransactionId_connectionId = Some sample_id\<rparr>, 0)]\<rparr>"
  have txs: "connection_transactions ?t ?cs = [?ts]"
    by (simp add: connection_transactions_def map_values_def)
  have doubt: "pending_commit ?ts = Some ?info"
    by (simp add: pending_commit_def TRANSACTION_STATE_COMMITONEPHASE_def)
  then have "resolvable ?ts"
    by (simp add: resolvable_def TransactionId_toString_def)
  then show ?thesis
    using in_doubt_not_repeated [of "\<lambda>d t. (Inr (), t)" ?t ?cs
        "\<lparr>transport_version = 9, transport_accepts = 0, transport_sent = [], transport_delivered = []\<rparr>"]
    by (auto simp: txs doubt map_filter_def dest!: list_all2_lengthD)
qed

section \<open>Consumers of interrupted connections\<close>

lemma interrupted_consumer_command:
  assumes "cs \<in> set (map_values (connectionStates t))" "info \<in> set (connection_consumers cs)"
  shows "DConsumerInfo (sent_consumer v (ConnectionState_connectionInterruptProcessingComplete cs) info) \<in> set (restore_commands v t)"
  using assms by (fastforce simp: restore_commands_def connection_commands_def session_commands_def connection_consumers_def)

text \<open>
  C12. Resuming the consumers of an interrupted connection. The tracker restores everything, no transaction has
  a commit pending, the identity of the connection has no white space, and the wire format is of version 6 or newer.
  Then every consumer of the connection with a positive prefetch is restored with prefetch 0, and when the
  interruption has been processed, it is sent exactly one \<open>ConsumerControl\<close> with its own prefetch and destination. No two
  controls are for the same consumer, and the only others are for consumers that an earlier interruption
  has left in \<open>recoveringPullConsumers\<close>.
\<close>

theorem interrupted_consumers_resume:
  assumes "tracker_ok t" "restores_all t" "all_repeatable t" "plain_connection k" "get_connection k t = Inr cs"
    "\<not> ConnectionState_connectionInterruptProcessingComplete cs" "5 < v"
  shows "\<exists>t' m. sends v (andThen (restore listener) (connectionInterruptProcessingComplete k)) t t'
      (restore_commands v t @ map (\<lambda>(c, info). DConsumerControl (create_ConsumerControl\<lparr>ConsumerControl_consumerId := Some c,
        ConsumerControl_prefetch := ConsumerInfo_prefetchSize info, ConsumerControl_destination := ConsumerInfo_destination info\<rparr>)) m) \<and>
    distinct (map (\<lambda>(c, info). ConsumerId_key c) m) \<and>
    (\<forall>info \<in> set (connection_consumers cs). 0 <s ConsumerInfo_prefetchSize info \<longrightarrow>
       DConsumerInfo (info\<lparr>ConsumerInfo_prefetchSize := 0\<rparr>) \<in> set (restore_commands v t) \<and>
       (\<exists>c. (c, info) \<in> set m \<and> ConsumerId_key c = ConsumerId_key (the (ConsumerInfo_consumerId info)))) \<and>
    (\<forall>(c, info) \<in> set m. info \<in> set (connection_consumers cs) \<and> 0 <s ConsumerInfo_prefetchSize info \<or>
       info \<in> snd ` set (ConnectionState_recoveringPullConsumers cs))"
proof -
  obtain pre k' post where split: "connectionStates t = pre @ (k', cs) # post" "ConnectionId_key k = ConnectionId_key k'"
    "t\<lparr>connectionStates := restored_connections v (connectionStates t)\<rparr> =
      with_connection t (restored_connections v pre) k' (restored_connections v post) (restored_state v cs)"
    "connection_keys.keyed (restored_connections v pre @ (k', restored_state v cs) # restored_connections v post)"
    by (rule restored_split [OF assms(1,4,5), of v]) blast
  have ok: "connection_ok (length (transactionHeap t)) (ConnectionId_key k) cs"
    by (rule get_connection_ok [OF assms(1,4,5)])
  define m where "m = ConnectionState_recoveringPullConsumers (restored_state v cs)"
  have first: "sends v (restore listener) t (with_connection t (restored_connections v pre) k' (restored_connections v post)
      (restored_state v cs)) (restore_commands v t)"
    using restore_sends [OF assms(1-3), of v listener] split(3) by simp
  have controls: "controls m = map (\<lambda>(c, info). DConsumerControl (create_ConsumerControl\<lparr>ConsumerControl_consumerId := Some c,
      ConsumerControl_prefetch := ConsumerInfo_prefetchSize info, ConsumerControl_destination := ConsumerInfo_destination info\<rparr>)) m"
    by (simp add: controls_def consumer_control_def split_beta)
  have stalled: "stalled v (ConnectionState_connectionInterruptProcessingComplete cs) info \<longleftrightarrow> 0 <s ConsumerInfo_prefetchSize info" for info
    using assms(6,7) by (simp add: stalled_def)
  have "distinct (map (\<lambda>(c, info). ConsumerId_key c) m)"
    using restored_recovering(1) [OF ok, of v, folded m_def] by (simp add: consumer_keys.keyed_def strict_sorted_iff case_prod_unfold)
  moreover have "DConsumerInfo (info\<lparr>ConsumerInfo_prefetchSize := 0\<rparr>) \<in> set (restore_commands v t)"
    if "info \<in> set (connection_consumers cs)" "0 <s ConsumerInfo_prefetchSize info" for info
    using interrupted_consumer_command [of cs t info v] that split(1) by (simp add: sent_consumer_def stalled map_values_def)
  moreover note restored_recovering(2,3) [OF ok, where v = v, folded m_def, unfolded stalled]
  ultimately show ?thesis
    using sends_andThen [OF first complete_sends [OF split(4) assms(4) split(2), of v t], folded m_def] unfolding controls by blast
qed

theorem interrupted_consumers_resume_witness:
  "\<exists>t' m. sends 9 (andThen (restore (\<lambda>d t. (Inr (), t))) (connectionInterruptProcessingComplete sample_id)) sample_tracker t'
    (restore_commands 9 sample_tracker @ map (\<lambda>(c, info). DConsumerControl (create_ConsumerControl\<lparr>ConsumerControl_consumerId := Some c,
        ConsumerControl_prefetch := ConsumerInfo_prefetchSize info, ConsumerControl_destination := ConsumerInfo_destination info\<rparr>)) m) \<and>
    distinct (map (\<lambda>(c, info). ConsumerId_key c) m) \<and> (\<exists>c. (c, sample_ConsumerInfo) \<in> set m) \<and>
    DConsumerInfo (sample_ConsumerInfo\<lparr>ConsumerInfo_prefetchSize := 0\<rparr>) \<in> set (restore_commands 9 sample_tracker)"
proof -
  have "all_repeatable sample_tracker"
    using sample_tracker_ok(3) by (auto simp: replayable_def all_repeatable_def map_values_def)
  moreover have "get_connection sample_id sample_tracker = Inr sample_connection" "plain_connection sample_id"
    using get_connection_view [OF sample_tracker_ok(1), of sample_id]
    by (simp_all add: sample_id_def isWhitespace_def) (simp add: sample_tracker_def sample_id_def connection_keys.lookup_def)
  moreover have "\<not> ConnectionState_connectionInterruptProcessingComplete sample_connection"
    by (simp add: sample_connection_def)
  moreover have "sample_ConsumerInfo \<in> set (connection_consumers sample_connection)" "0 <s ConsumerInfo_prefetchSize sample_ConsumerInfo"
    by (simp_all add: connection_consumers_def sample_connection_def sample_session_def consumer_infos_def map_values_def
        sample_ConsumerInfo_def word_sless_alt)
  ultimately show ?thesis
    using interrupted_consumers_resume [OF sample_tracker_ok(1,2), of sample_id sample_connection 9 "\<lambda>d t. (Inr (), t)"] by fastforce
qed

text \<open>
  C39. The map of the recovering consumers outlives the interruption, because it is a copy of it that
  is cleared: processing the end of an interruption once more, with no restore in between, sends the controls of the first one again.
\<close>

theorem stalled_consumers_resent:
  assumes "tracker_ok t" "plain_connection k" "get_connection k t = Inr cs"
  shows "\<exists>t'. sends v (andThen (connectionInterruptProcessingComplete k) (connectionInterruptProcessingComplete k)) t t'
    (controls (ConnectionState_recoveringPullConsumers cs) @ controls (ConnectionState_recoveringPullConsumers cs))"
proof -
  obtain pre k' post where "connectionStates t = pre @ (k', cs) # post" and k': "ConnectionId_key k = ConnectionId_key k'"
    by (rule restored_split [OF assms, of v]) blast
  then have t: "t = with_connection t pre k' post cs" and keyed: "connection_keys.keyed (pre @ (k', cs) # post)"
    using ok_keyed(1) [OF assms(1)] by (simp_all add: with_connection_def)
  let ?cs = "cs\<lparr>ConnectionState_connectionInterruptProcessingComplete := True\<rparr>"
  have "connection_keys.keyed (pre @ (k', ?cs) # post)"
    by (rule connection_keys.keyed_change [THEN iffD1, OF keyed])
  from sends_andThen [OF complete_sends [OF keyed assms(2) k'] complete_sends [OF this assms(2) k'], of v t] show ?thesis
    using t by auto
qed

theorem stalled_consumers_resent_witness:
  "\<exists>t'. sends 9 (andThen (connectionInterruptProcessingComplete sample_id) (connectionInterruptProcessingComplete sample_id))
    (sample_tracker\<lparr>connectionStates := [(sample_id, sample_connection\<lparr>ConnectionState_recoveringPullConsumers :=
       [(the (ConsumerInfo_consumerId sample_ConsumerInfo), sample_ConsumerInfo)]\<rparr>)]\<rparr>) t'
    [consumer_control (the (ConsumerInfo_consumerId sample_ConsumerInfo)) sample_ConsumerInfo,
     consumer_control (the (ConsumerInfo_consumerId sample_ConsumerInfo)) sample_ConsumerInfo]"
proof -
  let ?cs = "sample_connection\<lparr>ConnectionState_recoveringPullConsumers :=
    [(the (ConsumerInfo_consumerId sample_ConsumerInfo), sample_ConsumerInfo)]\<rparr>"
  let ?t = "sample_tracker\<lparr>connectionStates := [(sample_id, ?cs)]\<rparr>"
  have "connection_ok 0 (ConnectionId_key sample_id) ?cs"
    using sample_connection_ok by (simp add: connection_ok_def consumer_keys.holds_def consumer_keys.keyed_def
        consumer_ok_def sample_ConsumerInfo_def isWhitespace_def)
  then have ok: "tracker_ok ?t"
    by (simp add: tracker_ok_def sample_tracker_def new_ConnectionStateTracker_def connection_keys.holds_def
        connection_keys.keyed_def sample_id_def isWhitespace_def)
  have "get_connection sample_id ?t = Inr ?cs" "plain_connection sample_id"
    using get_connection_view [OF ok, of sample_id]
    by (simp_all add: sample_id_def isWhitespace_def) (simp add: connection_keys.lookup_def)
  then show ?thesis
    using stalled_consumers_resent [OF ok, of sample_id ?cs 9] by (simp add: controls_def)
qed

end
