(* ===== verification/FailoverTransport.thy ===== *)
theory FailoverTransport
  imports Tracking
begin

text \<open>
  \<open>activemq/transport/failover\<close>: the transport that hides broken connections. It tracks the commands it
  sends, keeps the requests that are not answered, chooses the next URI of its pools when a connection breaks,
  and repeats tracked state and requests on the new connection. The transport is a record that extends the one
  of its state tracker.

  All methods run under \<open>reconnectMutex\<close>, so that they are atomic; \<open>oneway\<close> gives the mutex
  up while it waits for a connection, and what the other threads do then is an argument. What creates and
  starts a transport, the random numbers and the parser of URIs are arguments too, collected in a record. The
  backup transports are disabled, as they are by default, and no priority backup is configured. A transport that
  is handed to the close task keeps its log in \<open>closeTask\<close>. Time is not modelled, except for the time
  that \<open>oneway\<close> has waited and for the delays of the reconnection task: \<open>sleeps\<close> is the log of the times
  for which it has waited on \<open>sleepMutex\<close>.
\<close>

section \<open>URI pools\<close>

text \<open>
  URIs are numbers in the order of \<open>URI::compareTo\<close>, equal exactly if the URIs are. The URI with the
  empty text, which is the default one, is 0.
\<close>

type_synonym uri = nat

record URIPool =
  uriPool :: "uri list"
  priorityURI :: uri
  randomize :: bool

definition new_URIPool :: URIPool where
  "new_URIPool = \<lparr>uriPool = [], priorityURI = 0, randomize = False\<rparr>"

definition copy_URIPool :: "URIPool \<Rightarrow> URIPool" where
  "copy_URIPool p = \<lparr>uriPool = uriPool p, priorityURI = (if uriPool p = [] then 0 else hd (uriPool p)), randomize = False\<rparr>"

text \<open>\<open>Random::nextInt\<close> of a number stays below the number.\<close>

definition URIPool_getURI :: "(nat \<Rightarrow> nat) \<Rightarrow> URIPool \<Rightarrow> uri result \<times> URIPool" where
  "URIPool_getURI random p = (if uriPool p = [] then (Inl NoSuchElementException, p)
     else let index = (if randomize p then random (length (uriPool p)) mod length (uriPool p) else 0)
       in (Inr (uriPool p ! index), p\<lparr>uriPool := take index (uriPool p) @ drop (Suc index) (uriPool p)\<rparr>))"

definition URIPool_addURI :: "uri \<Rightarrow> URIPool \<Rightarrow> bool \<times> URIPool" where
  "URIPool_addURI u p =
     (let p' = (if priorityURI p = 0 \<and> u \<noteq> 0 then p\<lparr>priorityURI := u\<rparr> else p) in
      if u \<in> set (uriPool p) then (False, p') else (True, p'\<lparr>uriPool := uriPool p @ [u]\<rparr>))"

fun URIPool_addURIs :: "uri list \<Rightarrow> URIPool \<Rightarrow> bool \<times> URIPool" where
  "URIPool_addURIs [] p = (False, p)"
| "URIPool_addURIs (u # us) p = (case URIPool_addURI u p of
     (added, p') \<Rightarrow> (case URIPool_addURIs us p' of (added', p'') \<Rightarrow> (added \<or> added', p'')))"

definition URIPool_removeURI :: "uri \<Rightarrow> URIPool \<Rightarrow> bool \<times> URIPool" where
  "URIPool_removeURI u p = (u \<in> set (uriPool p), p\<lparr>uriPool := remove1 u (uriPool p)\<rparr>)"

definition URIPool_isPriority :: "uri \<Rightarrow> URIPool \<Rightarrow> bool" where
  "URIPool_isPriority u p = (priorityURI p = u)"

definition URIPool_clear :: "URIPool \<Rightarrow> URIPool" where
  "URIPool_clear p = p\<lparr>uriPool := []\<rparr>"

section \<open>The transport\<close>

text \<open>A request that waits for its answer: the command itself, or the object that the state tracker returned for it.\<close>

datatype pending_request = Request data_structure | TrackedRequest tracked

text \<open>What the listener of the transport is told.\<close>

datatype notification = Received data_structure | Failed decaf_exception | Interrupted | Resumed

record FailoverTransport = StateTracker +
  closed :: bool
  connected :: bool
  started :: bool
  initialized :: bool
  shutdown :: bool
  firstConnection :: bool
  doRebalance :: bool
  useExponentialBackOff :: bool
  updateURIsSupported :: bool
  reconnectSupported :: bool
  failover_timeout :: int
  initialReconnectDelay :: int
  maxReconnectDelay :: int
  backOffMultiplier :: int
  reconnectDelay :: int
  maxReconnectAttempts :: int
  startupMaxReconnectAttempts :: int
  connectFailures :: int
  configured_trackMessages :: bool
  configured_trackTransactionProducers :: bool
  maxCacheSize :: int
  maxPullCacheSize :: int
  requestMap :: "(32 word, pending_request) stl_map"
  uris :: URIPool
  updated :: URIPool
  connectedTransportURI :: "uri option"
  connectedTransport :: "transport option"
  connectionFailure :: "decaf_exception option"
  closeTask :: "transport list"
  transportListener :: bool
  notifications :: "notification list"
  sleeps :: "int list"

record network =
  createTransport :: "uri \<Rightarrow> transport result"
  startTransport :: "transport \<Rightarrow> unit result"
  random_index :: "nat \<Rightarrow> nat"
  parse_URI :: "bytes \<Rightarrow> uri option"

definition DEFAULT_INITIAL_RECONNECT_DELAY :: int where
  "DEFAULT_INITIAL_RECONNECT_DELAY = 10"

definition INFINITE_WAIT :: int where
  "INFINITE_WAIT = - 1"

definition new_FailoverTransport :: FailoverTransport where
  "new_FailoverTransport = \<lparr>trackTransactions = True, restoreSessions = True, restoreConsumers = True,
     restoreProducers = True, restoreTransaction = True, trackMessages = True, trackTransactionProducers = True,
     maxMessageCacheSize = 128 * 1024, maxMessagePullCacheSize = 10, connectionStates = [], transactionHeap = [],
     messageCache = [], currentCacheSize = 0, messagePullCache = [],
     closed = False, connected = False, started = False, initialized = False, shutdown = False, firstConnection = True,
     doRebalance = False, useExponentialBackOff = True, updateURIsSupported = True, reconnectSupported = True,
     failover_timeout = INFINITE_WAIT, initialReconnectDelay = DEFAULT_INITIAL_RECONNECT_DELAY,
     maxReconnectDelay = 1000 * 30, backOffMultiplier = 2, reconnectDelay = DEFAULT_INITIAL_RECONNECT_DELAY,
     maxReconnectAttempts = INFINITE_WAIT, startupMaxReconnectAttempts = INFINITE_WAIT, connectFailures = 0,
     configured_trackMessages = False, configured_trackTransactionProducers = True, maxCacheSize = 128 * 1024,
     maxPullCacheSize = 10, requestMap = [], uris = new_URIPool, updated = new_URIPool,
     connectedTransportURI = None, connectedTransport = None, connectionFailure = None, closeTask = [],
     transportListener = False, notifications = [], sleeps = []\<rparr>"

definition calculateReconnectAttemptLimit :: "FailoverTransport \<Rightarrow> int" where
  "calculateReconnectAttemptLimit ft =
     (if firstConnection ft \<and> startupMaxReconnectAttempts ft \<noteq> INFINITE_WAIT
      then startupMaxReconnectAttempts ft else maxReconnectAttempts ft)"

definition canReconnect :: "FailoverTransport \<Rightarrow> bool" where
  "canReconnect ft = (started ft \<and> calculateReconnectAttemptLimit ft \<noteq> 0)"

definition willReconnect :: "FailoverTransport \<Rightarrow> bool" where
  "willReconnect ft = (firstConnection ft \<or> calculateReconnectAttemptLimit ft \<noteq> 0)"

definition isClosedOrFailed :: "FailoverTransport \<Rightarrow> bool" where
  "isClosedOrFailed ft = (closed ft \<or> connectionFailure ft \<noteq> None)"

definition isConnectionStateValid :: "FailoverTransport \<Rightarrow> bool" where
  "isConnectionStateValid ft = (connectedTransport ft \<noteq> None \<and> \<not> doRebalance ft)"

definition resetReconnectDelay :: "FailoverTransport \<Rightarrow> FailoverTransport" where
  "resetReconnectDelay ft =
     (if \<not> useExponentialBackOff ft \<or> reconnectDelay ft = DEFAULT_INITIAL_RECONNECT_DELAY
      then ft\<lparr>reconnectDelay := initialReconnectDelay ft\<rparr> else ft)"

text \<open>The wait on \<open>sleepMutex\<close>.\<close>

definition wait_delay :: "FailoverTransport \<Rightarrow> FailoverTransport" where
  "wait_delay ft = (if reconnectDelay ft > 0 then ft\<lparr>sleeps := sleeps ft @ [reconnectDelay ft]\<rparr> else ft)"

definition doDelay :: "FailoverTransport \<Rightarrow> FailoverTransport" where
  "doDelay ft = (let ft1 = wait_delay ft in if useExponentialBackOff ft1
     then let d = wrap64 (reconnectDelay ft1 * backOffMultiplier ft1)
       in ft1\<lparr>reconnectDelay := (if d > maxReconnectDelay ft1 then maxReconnectDelay ft1 else d)\<rparr>
     else ft1)"

definition notify :: "notification \<Rightarrow> FailoverTransport \<Rightarrow> FailoverTransport" where
  "notify n ft = (if transportListener ft then ft\<lparr>notifications := notifications ft @ [n]\<rparr> else ft)"

definition propagateFailureToExceptionListener :: "FailoverTransport \<Rightarrow> FailoverTransport" where
  "propagateFailureToExceptionListener ft = notify (Failed IOException) ft"

definition reconnect :: "bool \<Rightarrow> FailoverTransport \<Rightarrow> FailoverTransport" where
  "reconnect rebalance ft = (if started ft \<and> rebalance then ft\<lparr>doRebalance := True\<rparr> else ft)"

definition addURI :: "bool \<Rightarrow> uri list \<Rightarrow> FailoverTransport \<Rightarrow> FailoverTransport" where
  "addURI rebalance us ft = (case URIPool_addURIs us (uris ft) of
     (newUri, p) \<Rightarrow> (if newUri then reconnect rebalance else (\<lambda>x. x)) (ft\<lparr>uris := p\<rparr>))"

fun URIPool_removeURIs :: "uri list \<Rightarrow> URIPool \<Rightarrow> bool \<times> URIPool" where
  "URIPool_removeURIs [] p = (False, p)"
| "URIPool_removeURIs (u # us) p = (case URIPool_removeURI u p of
     (removed, p') \<Rightarrow> (case URIPool_removeURIs us p' of (removed', p'') \<Rightarrow> (removed \<or> removed', p'')))"

definition removeURI :: "bool \<Rightarrow> uri list \<Rightarrow> FailoverTransport \<Rightarrow> FailoverTransport" where
  "removeURI rebalance us ft = (case URIPool_removeURIs us (uris ft) of
     (changed, p) \<Rightarrow> (if changed then reconnect rebalance else (\<lambda>x. x)) (ft\<lparr>uris := p\<rparr>))"

definition reconnect_to :: "uri \<Rightarrow> FailoverTransport \<Rightarrow> FailoverTransport" where
  "reconnect_to u ft = (case URIPool_addURI u (uris ft) of
     (added, p) \<Rightarrow> (if added then reconnect True else (\<lambda>x. x)) (ft\<lparr>uris := p\<rparr>))"

definition disconnect :: "FailoverTransport \<Rightarrow> FailoverTransport" where
  "disconnect ft = (case connectedTransport ft of
     None \<Rightarrow> ft
   | Some tr \<Rightarrow> notify Interrupted (ft\<lparr>connectedTransport := None, closeTask := closeTask ft @ [tr],
       uris := (case connectedTransportURI ft of Some u \<Rightarrow> snd (URIPool_addURI u (uris ft)) | None \<Rightarrow> uris ft),
       connectedTransportURI := None\<rparr>))"

section \<open>Broken connections\<close>

text \<open>The URI of the broken connection is read through its pointer, which throws if it is null.\<close>

definition handleTransportFailure :: "decaf_exception \<Rightarrow> FailoverTransport \<Rightarrow> unit result \<times> FailoverTransport" where
  "handleTransportFailure e ft =
     (if shutdown ft then (Inr (), ft)
      else case connectedTransport ft of
        None \<Rightarrow> (Inr (), ft)
      | Some tr \<Rightarrow>
          let ft1 = ft\<lparr>connectedTransport := None, closeTask := closeTask ft @ [tr]\<rparr> in
          (case connectedTransportURI ft1 of
             None \<Rightarrow> (Inl NullPointerException, ft1)
           | Some u \<Rightarrow>
               let ft2 = transportInterrupted (ft1\<lparr>initialized := False, uris := snd (URIPool_addURI u (uris ft1)),
                     connectedTransportURI := None, connected := False\<rparr>)
               in (Inr (), if canReconnect ft2
                   then (notify Interrupted ft2)\<lparr>updated := snd (URIPool_removeURI u (updated ft2))\<rparr>
                   else if \<not> closed ft2
                   then propagateFailureToExceptionListener (ft2\<lparr>connectionFailure := Some e\<rparr>)
                   else ft2)))"

section \<open>Commands from the broker\<close>

text \<open>\<open>int\<close> keys are compared as signed numbers.\<close>

definition int_less :: "32 word \<Rightarrow> 32 word \<Rightarrow> bool" where
  "int_less a b = (a <s b)"

definition processResponse :: "32 word \<Rightarrow> FailoverTransport \<Rightarrow> unit result \<times> FailoverTransport" where
  "processResponse correlationId ft = (case sm_remove int_less correlationId (requestMap ft) of
     (Inl _, m) \<Rightarrow> (Inr (), ft)
   | (Inr (Request d), m) \<Rightarrow> (Inr (), ft\<lparr>requestMap := m\<rparr>)
   | (Inr (TrackedRequest a), m) \<Rightarrow> onResponse a (ft\<lparr>requestMap := m\<rparr>))"

text \<open>
  \<open>std::remove\<close> moves the characters that are kept to the front and leaves the text at its length,
  with the old characters at its end.
\<close>

definition std_remove :: "byte \<Rightarrow> bytes \<Rightarrow> bytes" where
  "std_remove c s = (let kept = filter (\<lambda>x. x \<noteq> c) s in kept @ drop (length kept) s)"

text \<open>\<open>StringTokenizer\<close> with one delimiter: empty tokens are skipped.\<close>

fun tokens :: "byte \<Rightarrow> bytes \<Rightarrow> bytes \<Rightarrow> bytes list" where
  "tokens c token [] = (if token = [] then [] else [token])"
| "tokens c token (x # s) = (if x = c then (if token = [] then [] else [token]) @ tokens c [] s
     else tokens c (token @ [x]) s)"

definition updateURIs :: "bool \<Rightarrow> uri list \<Rightarrow> FailoverTransport \<Rightarrow> FailoverTransport" where
  "updateURIs rebalance us ft =
     (if updateURIsSupported ft
      then let old = copy_URIPool (updated ft);
               ft1 = ft\<lparr>updated := URIPool_clear (updated ft)\<rparr>
        in if us = [] then ft1
           else let ft2 = ft1\<lparr>updated := snd (URIPool_addURIs (sort (remdups us)) (updated ft1))\<rparr>
             in if \<not> (uriPool old = [] \<and> uriPool (updated ft2) = []) \<and> uriPool old \<noteq> uriPool (updated ft2)
                then reconnect rebalance ft2 else ft2
      else ft)"

definition processNewTransports :: "network \<Rightarrow> bool \<Rightarrow> bytes \<Rightarrow> FailoverTransport \<Rightarrow> FailoverTransport" where
  "processNewTransports net rebalance newTransports ft =
     (if newTransports \<noteq> [] \<and> updateURIsSupported ft
      then let us = List.map_filter (parse_URI net) (tokens 44 [] (std_remove 32 newTransports))
        in if us \<noteq> [] then updateURIs rebalance us ft else ft
      else ft)"

definition handleConnectionControl :: "network \<Rightarrow> ConnectionControl \<Rightarrow> FailoverTransport \<Rightarrow> FailoverTransport" where
  "handleConnectionControl net control ft =
     (let ft1 = (if ConnectionControl_reconnectTo control \<noteq> [] \<and> reconnectSupported ft
            then (case parse_URI net (std_remove 32 (ConnectionControl_reconnectTo control)) of
                Some u \<Rightarrow> reconnect_to u ft | None \<Rightarrow> ft)
            else ft)
      in processNewTransports net (ConnectionControl_rebalanceConnection control) (ConnectionControl_connectedBrokers control) ft1)"

fun response_base :: "data_structure \<Rightarrow> Response option" where
  "response_base (DResponse r) = Some r"
| "response_base (DExceptionResponse r) = Some (Response.truncate r)"
| "response_base (DIntegerResponse r) = Some (Response.truncate r)"
| "response_base (DDataResponse r p) = Some r"
| "response_base (DDataArrayResponse r ps) = Some r"
| "response_base _ = None"

text \<open>\<open>FailoverTransportListener\<close>, which listens to the transports in use.\<close>

definition onCommand :: "network \<Rightarrow> data_structure \<Rightarrow> FailoverTransport \<Rightarrow> unit result \<times> FailoverTransport" where
  "onCommand net d ft =
     (case (case response_base d of Some r \<Rightarrow> processResponse (Response_correlationId r) ft | None \<Rightarrow> (Inr (), ft)) of
        (Inl e, ft1) \<Rightarrow> (Inl e, ft1)
      | (Inr _, ft1) \<Rightarrow>
          let ft2 = ft1\<lparr>initialized := True\<rparr>;
              ft3 = (case d of DConnectionControl control \<Rightarrow> handleConnectionControl net control ft2 | _ \<Rightarrow> ft2)
          in (Inr (), notify (Received d) ft3))"

definition onException :: "decaf_exception \<Rightarrow> FailoverTransport \<Rightarrow> FailoverTransport" where
  "onException e ft = (case handleTransportFailure e ft of
     (Inr _, ft') \<Rightarrow> ft'
   | (Inl e', ft') \<Rightarrow> notify (Failed e') ft')"

section \<open>Reconnecting\<close>

text \<open>
  What a pending request sends: an object of the state tracker is a \<open>Response\<close>, and it is sent
  as such.
\<close>

fun request_command :: "pending_request \<Rightarrow> data_structure" where
  "request_command (Request d) = d"
| "request_command (TrackedRequest a) = DResponse create_Response"

definition fault_tolerant :: data_structure where
  "fault_tolerant = DConnectionControl (create_ConnectionControl\<lparr>ConnectionControl_faultTolerant := True\<rparr>)"

definition restoreTransport :: "network \<Rightarrow> (FailoverTransport, unit) transport_action" where
  "restoreTransport net = (\<lambda>(ft, tr). catch_as IOException
     (case startTransport net tr of
        Inl e \<Rightarrow> (Inl e, ft, tr)
      | Inr _ \<Rightarrow> andThen (oneway fault_tolerant) (andThen (restore (onCommand net))
          (\<lambda>(ft', tr'). each (\<lambda>r. oneway (request_command r)) (map_values (requestMap ft')) (ft', tr'))) (ft, tr)))"

text \<open>A property of the transport that neither the tracker nor the answers to commits in doubt change is kept.\<close>

definition keeps :: "('t \<Rightarrow> bool) \<Rightarrow> ('t, unit) transport_action \<Rightarrow> bool" where
  "keeps P f \<longleftrightarrow> (\<forall>t tr. P t \<longrightarrow> P (fst (snd (f (t, tr)))))"

lemma keepsI: "(\<And>t tr. P t \<Longrightarrow> P (fst (snd (f (t, tr))))) \<Longrightarrow> keeps P f"
  by (simp add: keeps_def)

lemma keepsD: "keeps P f \<Longrightarrow> P t \<Longrightarrow> P (fst (snd (f (t, tr))))"
  by (simp add: keeps_def)

lemma keeps_property_andThen:
  assumes "keeps P f" "keeps P g"
  shows "keeps P (andThen f g)"
proof (rule keepsI)
  fix t tr
  assume "P t"
  then have "P (fst (snd (f (t, tr))))"
    by (rule keepsD [OF assms(1)])
  then show "P (fst (snd (andThen f g (t, tr))))"
    using keepsD [OF assms(2), of "fst (snd (f (t, tr)))" "snd (snd (f (t, tr)))"]
    by (auto simp: andThen_def split: prod.split sum.split)
qed

lemma keeps_property_oneway: "keeps P (oneway d)" "keeps P finished"
  by (simp_all add: keeps_def oneway_def finished_def)

lemma keeps_property_each: "(\<And>x. x \<in> set xs \<Longrightarrow> keeps P (f x)) \<Longrightarrow> keeps P (each f xs)"
proof (induction xs)
  case (Cons x xs)
  then have "keeps P (andThen (f x) (each f xs))"
    by (intro keeps_property_andThen) simp_all
  then show ?case
    by (simp add: keeps_def)
qed (simp add: keeps_def)

lemmas keeps_rules = keeps_property_oneway keeps_property_andThen keeps_property_each

lemma restore_keeps:
  assumes "\<And>k cs t. P t \<Longrightarrow> P (set_connection k cs t)" "\<And>r t. P t \<Longrightarrow> P (snd (listener (DExceptionResponse r) t))"
  shows "keeps P (restore listener)"
proof -
  have consumer: "keeps P (restore_consumer k complete info)" for k complete info
    using assms(1) by (intro keepsI) (auto simp: restore_consumer_def oneway_def split: option.split sum.split)
  have consumers: "keeps P (doRestoreConsumers ss)" for ss
    by (rule keepsI) (auto simp: doRestoreConsumers_def split: sum.split intro!: keepsD [of P] keeps_rules consumer)
  have sessions: "keeps P (doRestoreSessions cs)" for cs
    unfolding doRestoreSessions_def
    by (rule keeps_property_each, rule keepsI) (auto simp: restore_session_def doRestoreProducers_def intro!: keepsD [of P] keeps_rules consumers)
  have transaction: "keeps P (restore_transaction ts)" for ts
  proof -
    have "keeps P (\<lambda>s. (Inl e, s))" for e
      by (simp add: keeps_def)
    then show ?thesis
      by (auto simp: restore_transaction_def intro!: keeps_rules)
  qed
  have fails: "keeps P (fail_commit listener info)" for info
    using assms(2) by (intro keepsI) (simp add: fail_commit_def Let_def split_beta split: sum.split)
  have transactions: "keeps P (doRestoreTransactions listener cs)" for cs
    by (rule keepsI) (auto simp: doRestoreTransactions_def Let_def intro!: keepsD [of P] keeps_rules transaction fails)
  have connection: "keeps P (restore_connection listener k)" for k
    using assms(1) by (intro keepsI) (auto simp: restore_connection_def Let_def doRestoreTempDestinations_def split: sum.split
        intro!: keepsD [of P] keeps_rules sessions transactions)
  have rest: "keeps P (\<lambda>(t', tr'). andThen (each oneway (map snd (messageCache t'))) (each oneway (map snd (messagePullCache t'))) (t', tr'))"
    by (rule keepsI) (auto intro!: keepsD [of P] keeps_rules)
  show ?thesis
    by (rule keepsI) (auto simp: restore_def intro!: keepsD [of P] keeps_rules connection rest)
qed

lemma removeTransaction_keeps:
  assumes "\<And>k cs t. P t \<Longrightarrow> P (set_connection k cs t)" "\<And>h t. P t \<Longrightarrow> P (t\<lparr>transactionHeap := h\<rparr>)" "P t"
  shows "P (snd (onResponse a t))"
proof (cases a)
  case (RemoveTransactionAction info)
  have "P (snd (removeTransaction info t))"
    unfolding removeTransaction_def
    by (rule unless_failed_ok [of P], rule assms(3))
      (auto simp: bind_result_Inr_iff assms(3) intro!: assms(1,2) split: option.split)
  then show ?thesis
    using RemoveTransactionAction by simp
qed (simp add: assms(3))

lemma exception_response_keeps:
  assumes "\<And>k cs t. P t \<Longrightarrow> P (set_connection k cs t)" "\<And>h t. P t \<Longrightarrow> P (t\<lparr>transactionHeap := h\<rparr>)"
    "\<And>m t. P t \<Longrightarrow> P (t\<lparr>requestMap := m\<rparr>)" "\<And>b t. P t \<Longrightarrow> P (t\<lparr>initialized := b\<rparr>)"
    "\<And>n t. P t \<Longrightarrow> P (t\<lparr>notifications := n\<rparr>)" "P ft"
  shows "P (snd (onCommand net (DExceptionResponse r) ft))"
proof -
  have "P (snd (processResponse c ft))" for c
    using assms(3,6) removeTransaction_keeps [of P, OF assms(1,2)]
    by (auto simp: processResponse_def split: sum.split prod.split pending_request.split)
  then show ?thesis
    using assms(4,5) by (cases "processResponse (Response_correlationId r) ft")
      (auto simp: onCommand_def notify_def Let_def Response.defs split: sum.split dest!: arg_cong [where f = "\<lambda>x. P (snd x)"])
qed

lemma restoreTransport_keeps:
  assumes "\<And>k cs t. P t \<Longrightarrow> P (set_connection k cs t)" "\<And>h t. P t \<Longrightarrow> P (t\<lparr>transactionHeap := h\<rparr>)"
    "\<And>m t. P t \<Longrightarrow> P (t\<lparr>requestMap := m\<rparr>)" "\<And>b t. P t \<Longrightarrow> P (t\<lparr>initialized := b\<rparr>)"
    "\<And>n t. P t \<Longrightarrow> P (t\<lparr>notifications := n\<rparr>)"
  shows "keeps P (restoreTransport net)"
proof -
  have "keeps P (restore (onCommand net))"
  proof (rule restore_keeps)
    show "P (set_connection k cs t)" if "P t" for k cs t
      using that by (rule assms(1))
    show "P (snd (onCommand net (DExceptionResponse r) t))" if "P t" for r t
      by (rule exception_response_keeps [of P]) (simp_all add: assms that)
  qed
  moreover have "keeps P (\<lambda>(ft', tr'). each (\<lambda>r. oneway (request_command r)) (map_values (requestMap ft')) (ft', tr'))"
    by (rule keepsI) (auto intro!: keepsD [of P] keeps_rules)
  ultimately have "keeps P (andThen (oneway fault_tolerant) (andThen (restore (onCommand net))
      (\<lambda>(ft', tr'). each (\<lambda>r. oneway (request_command r)) (map_values (requestMap ft')) (ft', tr'))))"
    by (intro keeps_rules)
  then show ?thesis
    by (intro keepsI) (auto simp: restoreTransport_def split: sum.split dest: keepsD)
qed

lemma restoreTransport_same [simp]:
  "uris (fst (snd (restoreTransport net (ft, tr)))) = uris ft" "updated (fst (snd (restoreTransport net (ft, tr)))) = updated ft"
  "connectedTransport (fst (snd (restoreTransport net (ft, tr)))) = connectedTransport ft"
  using restoreTransport_keeps [THEN keepsD, of "\<lambda>t. uris t = uris ft" ft net tr]
    restoreTransport_keeps [THEN keepsD, of "\<lambda>t. updated t = updated ft" ft net tr]
    restoreTransport_keeps [THEN keepsD, of "\<lambda>t. connectedTransport t = connectedTransport ft" ft net tr]
  by (simp_all add: set_connection_def)

text \<open>\<open>getConnectList\<close>: the updated URIs are preferred.\<close>

definition use_updated :: "FailoverTransport \<Rightarrow> bool" where
  "use_updated ft = (updateURIsSupported ft \<and> uriPool (updated ft) \<noteq> [])"

definition pool :: "bool \<Rightarrow> FailoverTransport \<Rightarrow> URIPool" where
  "pool b ft = (if b then updated ft else uris ft)"

definition set_pool :: "bool \<Rightarrow> URIPool \<Rightarrow> FailoverTransport \<Rightarrow> FailoverTransport" where
  "set_pool b p ft = (if b then ft\<lparr>updated := p\<rparr> else ft\<lparr>uris := p\<rparr>)"

lemma pool_simps [simp]:
  "pool b (set_pool b p ft) = p" "pool (\<not> b) (set_pool b p ft) = pool (\<not> b) ft"
  "connectedTransport (set_pool b p ft) = connectedTransport ft" "connectedTransportURI (set_pool b p ft) = connectedTransportURI ft"
  "pool c (ft\<lparr>connected := x\<rparr>) = pool c ft" "pool c (ft\<lparr>closeTask := y\<rparr>) = pool c ft"
  "pool c (fst (snd (restoreTransport net (ft, tr)))) = pool c ft"
  by (simp_all add: pool_def set_pool_def)

text \<open>
  The outcome of an attempt to connect to a URI: the transport with the state restored on it, or the failure.
  A transport that was created and has failed goes to the close task.
\<close>

definition attempt :: "network \<Rightarrow> uri \<Rightarrow> FailoverTransport \<Rightarrow> transport result \<times> FailoverTransport" where
  "attempt net u ft = (case createTransport net u of
     Inl e \<Rightarrow> (Inl e, ft)
   | Inr tr \<Rightarrow>
       (case (case startTransport net tr of
          Inl e \<Rightarrow> (Inl e, ft, tr)
        | Inr _ \<Rightarrow> if started ft \<and> \<not> firstConnection ft then restoreTransport net (ft, tr) else (Inr (), ft, tr)) of
          (Inl e, ft', tr') \<Rightarrow> (Inl e, ft'\<lparr>connected := False, closeTask := closeTask ft' @ [tr']\<rparr>)
        | (Inr _, ft', tr') \<Rightarrow> (Inr tr', ft')))"

lemma attempt_same [simp]:
  "pool b (snd (attempt net u ft)) = pool b ft" "connectedTransport (snd (attempt net u ft)) = connectedTransport ft"
proof -
  have "pool b (snd (attempt net u ft)) = pool b ft \<and> connectedTransport (snd (attempt net u ft)) = connectedTransport ft"
  proof (cases "createTransport net u")
    case (Inr tr)
    obtain r ft' tr' where r: "restoreTransport net (ft, tr) = (r, ft', tr')"
      by (metis prod.exhaust)
    then have "pool b ft' = pool b ft" "connectedTransport ft' = connectedTransport ft"
      using restoreTransport_same [of net ft tr] by (simp_all add: pool_def)
    then show ?thesis
      using Inr r by (simp add: attempt_def split: sum.split)
  qed (simp add: attempt_def)
  then show "pool b (snd (attempt net u ft)) = pool b ft" "connectedTransport (snd (attempt net u ft)) = connectedTransport ft"
    by blast+
qed

text \<open>What has been set up when an attempt succeeds.\<close>

definition established :: "bool \<Rightarrow> uri \<Rightarrow> transport \<Rightarrow> uri list \<Rightarrow> FailoverTransport \<Rightarrow> FailoverTransport" where
  "established b u tr failures ft =
     (let ft1 = notify Resumed (ft\<lparr>reconnectDelay := initialReconnectDelay ft, connectedTransportURI := Some u,
            connectedTransport := Some tr, connectFailures := 0, connected := True\<rparr>);
          ft2 = ft1\<lparr>firstConnection := False\<rparr>
      in set_pool b (snd (URIPool_addURIs failures (pool b ft2))) ft2)"

text \<open>
  The loop over the URIs of the pool. It stops when the pool is empty or a connection is established; what it
  returns are the failure to report, if no connection was established, and the transport.
\<close>

lemma getURI_cases:
  assumes "URIPool_getURI random p = (Inr u, p')"
  obtains i where "i < length (uriPool p)" "u = uriPool p ! i" "p' = p\<lparr>uriPool := take i (uriPool p) @ drop (Suc i) (uriPool p)\<rparr>"
proof (rule that)
  let ?i = "if randomize p then random (length (uriPool p)) mod length (uriPool p) else 0"
  have "uriPool p \<noteq> []"
    using assms by (auto simp: URIPool_getURI_def split: if_splits)
  then show "?i < length (uriPool p)" "u = uriPool p ! ?i" "p' = p\<lparr>uriPool := take ?i (uriPool p) @ drop (Suc ?i) (uriPool p)\<rparr>"
    using assms by (simp_all add: URIPool_getURI_def Let_def split: if_splits)
qed

lemma getURI_shorter: "URIPool_getURI random p = (Inr u, p') \<Longrightarrow> length (uriPool p') < length (uriPool p)"
  by (erule getURI_cases) simp

function connect_loop :: "network \<Rightarrow> bool \<Rightarrow> uri list \<Rightarrow> decaf_exception option \<Rightarrow> FailoverTransport \<Rightarrow>
    decaf_exception option \<times> FailoverTransport" where
  "connect_loop net b failures failure ft =
     (if uriPool (pool b ft) \<noteq> [] \<and> connectedTransport ft = None \<and> \<not> closed ft
      then (case URIPool_getURI (random_index net) (pool b ft) of
         (Inl e, p) \<Rightarrow> (failure, set_pool b (snd (URIPool_addURIs failures (pool b ft))) ft)
       | (Inr u, p) \<Rightarrow>
           (case attempt net u (set_pool b p ft) of
              (Inr tr, ft') \<Rightarrow> (None, established b u tr failures ft')
            | (Inl e, ft') \<Rightarrow> connect_loop net b (failures @ [u]) (Some e) ft'))
      else (failure, set_pool b (snd (URIPool_addURIs failures (pool b ft))) ft))"
  by pat_completeness auto
termination
proof (relation "measure (\<lambda>(net, b, failures, failure, ft). length (uriPool (pool b ft)))", goal_cases)
  case (2 net b failures failure ft r p u r' ft' e)
  then show ?case
    using getURI_shorter [of "random_index net" "pool b ft" u p] attempt_same(1) [of b net u "set_pool b p ft"]
    by (simp del: attempt_same) (metis snd_conv)
qed simp

declare connect_loop.simps [simp del]

text \<open>
  \<open>iterate\<close>, which the task runner calls until it returns false. The URI of the current connection is
  read through its pointer when the connections are rebalanced.
\<close>

definition rebalance_now :: "FailoverTransport \<Rightarrow> bool result \<times> FailoverTransport" where
  "rebalance_now ft = (case connectedTransportURI ft of
     None \<Rightarrow> (Inl NullPointerException, ft)
   | Some u \<Rightarrow> if priorityURI (pool (use_updated ft) ft) = u then (Inr True, ft\<lparr>doRebalance := False\<rparr>)
       else (Inr False, (disconnect ft)\<lparr>doRebalance := False\<rparr>))"

definition give_up :: "decaf_exception option \<Rightarrow> FailoverTransport \<Rightarrow> bool \<times> FailoverTransport" where
  "give_up failure ft =
     (let limit = calculateReconnectAttemptLimit ft;
          ft1 = (if limit \<ge> 0 then ft\<lparr>connectFailures := wrap32 (connectFailures ft + 1)\<rparr> else ft)
      in if limit \<ge> 0 \<and> connectFailures ft1 \<ge> limit
         then (False, propagateFailureToExceptionListener (ft1\<lparr>connectionFailure := failure\<rparr>))
         else (\<not> closed ft1, if closed ft1 then ft1 else doDelay ft1))"

text \<open>Except for the first connection, the task also waits before it tries.\<close>

definition prepare_round :: "FailoverTransport \<Rightarrow> FailoverTransport" where
  "prepare_round ft = (let ft1 = resetReconnectDelay ft in
     if \<not> firstConnection ft1 \<and> \<not> closed ft1 then wait_delay ft1 else ft1)"

definition connect_round :: "network \<Rightarrow> bool \<Rightarrow> FailoverTransport \<Rightarrow> bool result \<times> FailoverTransport" where
  "connect_round net b ft = (case connect_loop net b [] None (prepare_round ft) of
     (failure, ft1) \<Rightarrow>
       if connectedTransport ft1 \<noteq> None then (Inr False, ft1)
       else (case give_up failure ft1 of (r, ft2) \<Rightarrow> (Inr r, ft2)))"

definition failover_iterate :: "network \<Rightarrow> FailoverTransport \<Rightarrow> bool result \<times> FailoverTransport" where
  "failover_iterate net ft =
     (if isConnectionStateValid ft \<or> isClosedOrFailed ft then (Inr False, ft)
      else let b = use_updated ft in
        if uriPool (pool b ft) = [] then (case give_up (Some IOException) ft of (r, ft') \<Rightarrow> (Inr r, ft'))
        else case (if doRebalance ft then rebalance_now ft else (Inr False, ft)) of
          (Inl e, ft1) \<Rightarrow> (Inl e, ft1)
        | (Inr True, ft1) \<Rightarrow> (Inr False, ft1)
        | (Inr False, ft1) \<Rightarrow> connect_round net b ft1)"

section \<open>Sending\<close>

fun command_base :: "data_structure \<Rightarrow> BaseCommand option" where
  "command_base (DConnectionInfo c) = Some (BaseCommand.truncate c)"
| "command_base (DSessionInfo c) = Some (BaseCommand.truncate c)"
| "command_base (DConsumerInfo c) = Some (BaseCommand.truncate c)"
| "command_base (DProducerInfo c) = Some (BaseCommand.truncate c)"
| "command_base (DDestinationInfo c) = Some (BaseCommand.truncate c)"
| "command_base (DRemoveInfo c p) = Some (BaseCommand.truncate c)"
| "command_base (DRemoveSubscriptionInfo c) = Some (BaseCommand.truncate c)"
| "command_base (DTransactionInfo c) = Some (BaseCommand.truncate c)"
| "command_base (DMessageAck c) = Some (BaseCommand.truncate c)"
| "command_base (DMessagePull c) = Some (BaseCommand.truncate c)"
| "command_base (DKeepAliveInfo c) = Some c"
| "command_base (DShutdownInfo c) = Some c"
| "command_base (DResponse c) = Some (BaseCommand.truncate c)"
| "command_base (DExceptionResponse c) = Some (BaseCommand.truncate c)"
| "command_base (DIntegerResponse c) = Some (BaseCommand.truncate c)"
| "command_base (DDataResponse c p) = Some (BaseCommand.truncate c)"
| "command_base (DProducerAck c) = Some (BaseCommand.truncate c)"
| "command_base (DConnectionError c) = Some (BaseCommand.truncate c)"
| "command_base (DConsumerControl c) = Some (BaseCommand.truncate c)"
| "command_base (DConnectionControl c) = Some (BaseCommand.truncate c)"
| "command_base (DControlCommand c) = Some (BaseCommand.truncate c)"
| "command_base (DMessageDispatchNotification c) = Some (BaseCommand.truncate c)"
| "command_base (DFlushCommand c) = Some c"
| "command_base (DReplayCommand c) = Some (BaseCommand.truncate c)"
| "command_base (DMessageDispatch c p) = Some (BaseCommand.truncate c)"
| "command_base (DBrokerInfo c ps) = Some (BaseCommand.truncate c)"
| "command_base (DDataArrayResponse c ps) = Some (BaseCommand.truncate c)"
| "command_base (DWireFormatInfo c) = Some (BaseCommand.truncate c)"
| "command_base d = map_option BaseCommand.truncate (message_base d)"

definition getCommandId :: "data_structure \<Rightarrow> 32 word" where
  "getCommandId d = (case command_base d of Some c \<Rightarrow> BaseCommand_commandId c | None \<Rightarrow> 0)"

definition isResponseRequired :: "data_structure \<Rightarrow> bool" where
  "isResponseRequired d = (case command_base d of Some c \<Rightarrow> BaseCommand_responseRequired c | None \<Rightarrow> False)"

text \<open>
  What is done with a command while there is no connection, if it is not kept waiting. Exceptions are dropped.
\<close>

definition simulate_response :: "network \<Rightarrow> nat \<Rightarrow> data_structure \<Rightarrow> FailoverTransport \<Rightarrow> FailoverTransport" where
  "simulate_response net ref d ft = (case track ref d ft of
     (Inl e, ft1) \<Rightarrow> ft1
   | (Inr _, ft1) \<Rightarrow> if isResponseRequired d
       then snd (onCommand net (DResponse (create_Response\<lparr>Response_correlationId := getCommandId d\<rparr>)) ft1) else ft1)"

definition without_connection :: "network \<Rightarrow> nat \<Rightarrow> data_structure \<Rightarrow> FailoverTransport \<Rightarrow> FailoverTransport option" where
  "without_connection net ref d ft = (case (connectedTransport ft, d) of
     (None, DShutdownInfo c) \<Rightarrow> Some ft
   | (None, DRemoveInfo info object) \<Rightarrow> Some (simulate_response net ref d ft)
   | (None, DMessageAck ack) \<Rightarrow> Some (simulate_response net ref d ft)
   | (None, DMessagePull pull) \<Rightarrow> Some (if MessagePull_timeout pull \<noteq> 0
       then snd (onCommand net (DMessageDispatch (create_MessageDispatch\<lparr>MessageDispatch_consumerId := MessagePull_consumerId pull,
         MessageDispatch_destination := MessagePull_destination pull\<rparr>) None) ft) else ft)
   | _ \<Rightarrow> None)"

text \<open>
  Waiting for a connection. The schedule has an entry for each round of the loop: the time that has passed
  when the round begins, and what the other threads do until the waiting thread is woken up again. \<open>None\<close>
  if it is still waiting at the end of the schedule; otherwise whether the time is up, the rest of the
  schedule, and the transport.
\<close>

fun await_connection :: "bool \<Rightarrow> (int \<times> (FailoverTransport \<Rightarrow> FailoverTransport)) list \<Rightarrow> FailoverTransport \<Rightarrow>
    (bool \<times> (int \<times> (FailoverTransport \<Rightarrow> FailoverTransport)) list \<times> FailoverTransport) option" where
  "await_connection message schedule ft =
     (if connectedTransport ft = None \<and> \<not> closed ft \<and> connectionFailure ft = None \<and> willReconnect ft
      then (case schedule of
         [] \<Rightarrow> None
       | (elapsed, others) # rest \<Rightarrow>
           if message \<and> failover_timeout ft > 0 \<and> elapsed > failover_timeout ft then Some (True, rest, ft)
           else await_connection message rest (others ft))
      else Some (False, schedule, ft))"

declare await_connection.simps [simp del]

definition remember_request :: "data_structure \<Rightarrow> tracked option \<Rightarrow> FailoverTransport \<Rightarrow> FailoverTransport" where
  "remember_request d tracked ft = (case tracked of
     Some (RemoveTransactionAction info) \<Rightarrow> ft\<lparr>requestMap := snd (sm_put int_less (getCommandId d)
       (TrackedRequest (RemoveTransactionAction info)) (requestMap ft))\<rparr>
   | Some TRACKED_RESPONSE_MARKER \<Rightarrow> ft
   | None \<Rightarrow> if isResponseRequired d
       then ft\<lparr>requestMap := snd (sm_put int_less (getCommandId d) (Request d) (requestMap ft))\<rparr> else ft)"

text \<open>
  The loop that keeps trying. Its first argument bounds the number of attempts to send. An error that has been
  found is thrown only if the transport is not closed. The exceptions that are not handled are dropped.
\<close>

definition failed_send :: "FailoverTransport \<Rightarrow> unit result \<times> FailoverTransport" where
  "failed_send ft = (if closed ft then Inr () else Inl IOException, ft)"

fun send_loop :: "nat \<Rightarrow> nat \<Rightarrow> (int \<times> (FailoverTransport \<Rightarrow> FailoverTransport)) list \<Rightarrow> data_structure \<Rightarrow>
    FailoverTransport \<Rightarrow> (unit result \<times> FailoverTransport) option" where
  "send_loop 0 ref schedule d ft = None"
| "send_loop (Suc n) ref schedule d ft =
     (if closed ft then Some (Inr (), ft)
      else case await_connection (message_base d \<noteq> None) schedule ft of
        None \<Rightarrow> None
      | Some (timedout, rest, ft1) \<Rightarrow>
          (case connectedTransport ft1 of
             None \<Rightarrow> Some (failed_send ft1)
           | Some tr \<Rightarrow>
               (case track ref d ft1 of
                  (Inl UndefinedBehaviour, ft2) \<Rightarrow> Some (Inl UndefinedBehaviour, ft2)
                | (Inl e, ft2) \<Rightarrow> Some (failed_send ft2)
                | (Inr tracked, ft2) \<Rightarrow>
                    let ft3 = remember_request d tracked ft2 in
                    (case oneway d (ft3, tr) of
                       (Inr _, ft4, tr') \<Rightarrow>
                         let ft5 = trackBack d (ft4\<lparr>connectedTransport := Some tr'\<rparr>) in
                         Some (Inr (), case d of DShutdownInfo c \<Rightarrow> ft5\<lparr>shutdown := True\<rparr> | _ \<Rightarrow> ft5)
                     | (Inl e, ft4, tr') \<Rightarrow>
                         if tracked = None \<and> canReconnect ft4
                         then (case (if isResponseRequired d then sm_remove int_less (getCommandId d) (requestMap ft4)
                                 else (Inr (Request d), requestMap ft4)) of
                               (Inl e', m) \<Rightarrow> Some (Inr (), ft4)
                             | (Inr _, m) \<Rightarrow>
                                 (case handleTransportFailure e (ft4\<lparr>requestMap := m\<rparr>) of
                                    (Inl e', ft5) \<Rightarrow> Some (Inr (), ft5)
                                  | (Inr _, ft5) \<Rightarrow> send_loop n ref rest d ft5))
                         else Some (Inr (), snd (handleTransportFailure e ft4))))))"

definition failover_oneway :: "nat \<Rightarrow> network \<Rightarrow> nat \<Rightarrow> (int \<times> (FailoverTransport \<Rightarrow> FailoverTransport)) list \<Rightarrow>
    data_structure \<Rightarrow> FailoverTransport \<Rightarrow> (unit result \<times> FailoverTransport) option" where
  "failover_oneway n net ref schedule d ft = (case without_connection net ref d ft of
     Some ft' \<Rightarrow> Some (Inr (), ft')
   | None \<Rightarrow> send_loop n ref schedule d ft)"

section \<open>Starting and closing\<close>

definition failover_start :: "network \<Rightarrow> FailoverTransport \<Rightarrow> unit result \<times> FailoverTransport" where
  "failover_start net ft =
     (if started ft then (Inr (), ft)
      else let ft1 = ft\<lparr>started := True, maxMessageCacheSize := maxCacheSize ft, maxMessagePullCacheSize := maxPullCacheSize ft,
                 trackMessages := configured_trackMessages ft, trackTransactionProducers := configured_trackTransactionProducers ft\<rparr>
        in case connectedTransport ft1 of
          Some tr \<Rightarrow> (case catch_as IOException (restore (onCommand net) (ft1, tr)) of
              (r, ft2, tr') \<Rightarrow> (r, ft2\<lparr>connectedTransport := Some tr'\<rparr>))
        | None \<Rightarrow> (Inr (), reconnect False ft1))"

definition failover_stop :: "FailoverTransport \<Rightarrow> FailoverTransport" where
  "failover_stop ft = ft\<lparr>started := False\<rparr>"

text \<open>A transport that is closed directly joins the log of the closed ones here.\<close>

definition failover_close :: "FailoverTransport \<Rightarrow> FailoverTransport" where
  "failover_close ft = (if closed ft then ft
     else ft\<lparr>started := False, closed := True, connected := False, requestMap := sm_clear (requestMap ft),
       connectedTransport := None, closeTask := closeTask ft @ (case connectedTransport ft of Some tr \<Rightarrow> [tr] | None \<Rightarrow> [])\<rparr>)"

definition isPending :: "FailoverTransport \<Rightarrow> bool" where
  "isPending ft = (\<not> isConnectionStateValid ft \<and> started ft \<and> \<not> isClosedOrFailed ft \<and>
     (firstConnection ft \<and> connectFailures ft = 0 \<or>
      \<not> (calculateReconnectAttemptLimit ft \<noteq> - 1 \<and> connectFailures ft > calculateReconnectAttemptLimit ft)))"

end
