(* ===== verification/Reconnecting.thy ===== *)
theory Reconnecting
  imports FailoverTransport
begin

text \<open>
  What the failover transport promises: the state and the requests that wait for an answer reach the next
  broker, a request whose sending has failed reaches it once, no URI is lost, and the delays are bounded.
\<close>

section \<open>Requests\<close>

context ordered_keys
begin

lemma erase_assign_new: "keyed m \<Longrightarrow> valid k \<Longrightarrow> lookup m (key k) = None \<Longrightarrow> map_erase lt k (map_assign lt k v m) = m"
proof (induction m)
  case Nil
  then show ?case
    by (simp add: less_key)
next
  case (Cons e m)
  obtain k' v' where e: "e = (k', v')"
    by fastforce
  have "key k' \<noteq> key k"
    using Cons.prems(3) e by (auto simp: lookup_Cons split: if_splits)
  then show ?case
    using Cons e by (auto simp: keyed_Cons lookup_Cons less_key)
qed

end

interpretation request_keys: ordered_keys int_less sint "\<lambda>_. True"
  by unfold_locales (simp add: int_less_def word_sless_alt)

lemma sent_requests:
  "sends v (\<lambda>(ft, tr). each (\<lambda>r. oneway (request_command r)) (map_values (requestMap ft)) (ft, tr)) ft ft
     (map request_command (map_values (requestMap ft)))"
  using sends_each_oneway [of v request_command "map_values (requestMap ft)" ft] by (simp add: sends_def)

text \<open>
  What the new broker is to be sent: that the client is fault tolerant, the tracked state, and the requests that wait.
  A request that waits with the action of the state tracker, which is a commit or a rollback, appears
  as an empty response.
\<close>

definition recovery_commands :: "int \<Rightarrow> FailoverTransport \<Rightarrow> data_structure list" where
  "recovery_commands v ft =
     DConnectionControl (create_ConnectionControl\<lparr>ConnectionControl_faultTolerant := True\<rparr>) # restore_commands v ft @
     map (\<lambda>r. case r of Request d \<Rightarrow> d | TrackedRequest a \<Rightarrow> DResponse create_Response) (map_values (requestMap ft))"

lemma request_command_cases: "request_command = (\<lambda>r. case r of Request d \<Rightarrow> d | TrackedRequest a \<Rightarrow> DResponse create_Response)"
  by (auto simp: fun_eq_iff split: pending_request.split)

lemma restoreTransport_sends:
  assumes "tracker_ok ft" "restores_all ft" "all_repeatable ft" "startTransport net tr = Inr ()"
    "length (recovery_commands (transport_version tr) ft) \<le> transport_accepts tr"
  shows "restoreTransport net (ft, tr) =
    (Inr (), ft\<lparr>connectionStates := restored_connections (transport_version tr) (connectionStates ft)\<rparr>,
     tr\<lparr>transport_accepts := transport_accepts tr - length (recovery_commands (transport_version tr) ft),
        transport_sent := transport_sent tr @ recovery_commands (transport_version tr) ft\<rparr>)"
proof -
  let ?v = "transport_version tr"
  let ?ft = "ft\<lparr>connectionStates := restored_connections ?v (connectionStates ft)\<rparr>"
  have "sends ?v (andThen (oneway fault_tolerant) (andThen (restore (onCommand net))
      (\<lambda>(ft', tr'). each (\<lambda>r. oneway (request_command r)) (map_values (requestMap ft')) (ft', tr')))) ft ?ft
      ([fault_tolerant] @ restore_commands ?v ft @ map request_command (map_values (requestMap ?ft)))"
    by (intro sends_andThen [OF sends_oneway] sends_andThen [OF restore_sends [OF assms(1-3)]] sent_requests)
  from sends_catch [OF this, of IOException] show ?thesis
    using assms(4,5) by (simp add: sends_def restoreTransport_def recovery_commands_def request_command_cases fault_tolerant_def)
qed

section \<open>Connecting\<close>

text \<open>A URI whose transport is created and started, with nothing sent, and accepts what is sent to restore the state.\<close>

definition reachable_uri :: "network \<Rightarrow> nat \<Rightarrow> FailoverTransport \<Rightarrow> uri \<Rightarrow> bool" where
  "reachable_uri net n ft u \<longleftrightarrow> (\<exists>tr. createTransport net u = Inr tr \<and> startTransport net tr = Inr () \<and>
     length (recovery_commands (transport_version tr) ft) + n \<le> transport_accepts tr \<and> transport_sent tr = [])"

definition refused_uri :: "network \<Rightarrow> uri \<Rightarrow> bool" where
  "refused_uri net u \<longleftrightarrow> (\<exists>e. createTransport net u = Inl e)"

definition restorable :: "FailoverTransport \<Rightarrow> bool" where
  "restorable ft \<longleftrightarrow> tracker_ok ft \<and> restores_all ft \<and> all_repeatable ft \<and> started ft \<and> \<not> firstConnection ft \<and> \<not> closed ft"

lemma set_pool_simps [simp]:
  "set_pool b p (set_pool b q ft) = set_pool b p ft"
  "closed (set_pool b p ft) = closed ft" "requestMap (set_pool b p ft) = requestMap ft"
  "connectionStates (set_pool b p ft) = connectionStates ft" "connectionFailure (set_pool b p ft) = connectionFailure ft"
  by (simp_all add: set_pool_def)

lemma set_pool_restorable [simp]:
  "restorable (set_pool b p ft) \<longleftrightarrow> restorable ft" "recovery_commands v (set_pool b p ft) = recovery_commands v ft"
  "reachable_uri net n (set_pool b p ft) u \<longleftrightarrow> reachable_uri net n ft u"
proof -
  show commands: "recovery_commands v (set_pool b p ft) = recovery_commands v ft" for v
    by (simp add: set_pool_def recovery_commands_def restore_commands_def connection_commands_def [abs_def] connection_transactions_def)
  show "restorable (set_pool b p ft) \<longleftrightarrow> restorable ft"
    by (simp add: set_pool_def restorable_def tracker_ok_def restores_all_def all_repeatable_def connection_transactions_def)
  show "reachable_uri net n (set_pool b p ft) u \<longleftrightarrow> reachable_uri net n ft u"
    by (simp add: reachable_uri_def commands)
qed

definition restored_on :: "transport \<Rightarrow> FailoverTransport \<Rightarrow> FailoverTransport" where
  "restored_on tr ft = ft\<lparr>connectionStates := restored_connections (transport_version tr) (connectionStates ft)\<rparr>"

lemma attempt_reachable:
  assumes "restorable ft" "reachable_uri net n ft u"
  obtains tr where "attempt net u ft = (Inr tr, restored_on tr ft)" "n \<le> transport_accepts tr"
    "transport_sent tr = recovery_commands (transport_version tr) ft"
proof -
  obtain tr where tr: "createTransport net u = Inr tr" "startTransport net tr = Inr ()" "transport_sent tr = []"
      "length (recovery_commands (transport_version tr) ft) + n \<le> transport_accepts tr"
    using assms(2) by (auto simp: reachable_uri_def)
  show thesis
    using that [of "tr\<lparr>transport_accepts := transport_accepts tr - length (recovery_commands (transport_version tr) ft),
        transport_sent := recovery_commands (transport_version tr) ft\<rparr>"]
      restoreTransport_sends [of ft net tr] assms(1) tr
    by (simp add: attempt_def restorable_def restored_on_def)
qed

lemma getURI_nonempty: "uriPool p \<noteq> [] \<Longrightarrow> \<exists>u p'. URIPool_getURI random p = (Inr u, p')"
  by (simp add: URIPool_getURI_def Let_def)

lemma removed_URI: "i < length us \<Longrightarrow> set us = insert (us ! i) (set (take i us @ drop (Suc i) us))"
  using id_take_nth_drop [of i us] by (metis Un_insert_right list.simps(15) set_append)

lemma connect_loop_establishes:
  assumes "restorable ft" "connectedTransport ft = None"
    "\<forall>u\<in>set (uriPool (pool b ft)). refused_uri net u \<or> reachable_uri net n ft u"
    "\<exists>u\<in>set (uriPool (pool b ft)). reachable_uri net n ft u"
  shows "\<exists>u tr fs p. connect_loop net b failures failure ft = (None, established b u tr fs (restored_on tr (set_pool b p ft))) \<and>
    transport_sent tr = recovery_commands (transport_version tr) ft \<and> n \<le> transport_accepts tr \<and>
    insert u (set fs \<union> set (uriPool p)) = set failures \<union> set (uriPool (pool b ft)) \<and> reachable_uri net n ft u"
  using assms
proof (induction "length (uriPool (pool b ft))" arbitrary: failures failure ft rule: less_induct)
  case less
  obtain u p where u: "URIPool_getURI (random_index net) (pool b ft) = (Inr u, p)"
    using less.prems(4) getURI_nonempty [of "pool b ft"] by fastforce
  have set_p: "insert u (set (uriPool p)) = set (uriPool (pool b ft))"
    using u by (auto elim!: getURI_cases dest: removed_URI)
  have loop: "connect_loop net b failures failure ft = (case attempt net u (set_pool b p ft) of
      (Inr tr, ft') \<Rightarrow> (None, established b u tr failures ft')
    | (Inl e, ft') \<Rightarrow> connect_loop net b (failures @ [u]) (Some e) ft')"
    using less.prems(1,2,4) u by (subst connect_loop.simps) (auto simp: restorable_def)
  show ?case
  proof (cases "reachable_uri net n ft u")
    case True
    then obtain tr where "attempt net u (set_pool b p ft) = (Inr tr, restored_on tr (set_pool b p ft))" "n \<le> transport_accepts tr"
        "transport_sent tr = recovery_commands (transport_version tr) ft"
      using attempt_reachable [of "set_pool b p ft" net n u] less.prems(1) by auto
    then show ?thesis
      using loop True set_p by (intro exI [of _ u] exI [of _ tr] exI [of _ failures] exI [of _ p]) auto
  next
    case False
    then obtain e where "createTransport net u = Inl e"
      using less.prems(3) set_p by (auto simp: refused_uri_def)
    then have next_loop: "connect_loop net b failures failure ft = connect_loop net b (failures @ [u]) (Some e) (set_pool b p ft)"
      using loop by (simp add: attempt_def)
    have "\<exists>u' tr fs q. connect_loop net b (failures @ [u]) (Some e) (set_pool b p ft) =
        (None, established b u' tr fs (restored_on tr (set_pool b q (set_pool b p ft)))) \<and>
      transport_sent tr = recovery_commands (transport_version tr) (set_pool b p ft) \<and> n \<le> transport_accepts tr \<and>
      insert u' (set fs \<union> set (uriPool q)) = set (failures @ [u]) \<union> set (uriPool (pool b (set_pool b p ft))) \<and>
      reachable_uri net n (set_pool b p ft) u'"
      using less.prems set_p False by (intro less.hyps) (auto simp: getURI_shorter [OF u])
    then obtain u' tr fs q where "connect_loop net b (failures @ [u]) (Some e) (set_pool b p ft) =
        (None, established b u' tr fs (restored_on tr (set_pool b q ft)))"
        "transport_sent tr = recovery_commands (transport_version tr) ft" "n \<le> transport_accepts tr"
        "insert u' (set fs \<union> set (uriPool q)) = insert u (set failures \<union> set (uriPool p))" "reachable_uri net n ft u'"
      by auto
    then show ?thesis
      unfolding next_loop using set_p by (intro exI [of _ u'] exI [of _ tr] exI [of _ fs] exI [of _ q]) auto
  qed
qed

lemma addURI_set: "set (uriPool (snd (URIPool_addURI u p))) = insert u (set (uriPool p))"
  by (auto simp: URIPool_addURI_def Let_def)

lemma addURIs_set: "set (uriPool (snd (URIPool_addURIs us p))) = set us \<union> set (uriPool p)"
  by (induction us arbitrary: p) (simp_all add: split_beta addURI_set)

lemma established_simps [simp]:
  "connectedTransport (established b u tr fs ft) = Some tr" "connectedTransportURI (established b u tr fs ft) = Some u"
  "requestMap (established b u tr fs ft) = requestMap ft" "closed (established b u tr fs ft) = closed ft"
  "connectionFailure (established b u tr fs ft) = connectionFailure ft"
  "connectionStates (established b u tr fs ft) = connectionStates ft"
  "tracker_view (established b u tr fs ft) = tracker_view ft"
  by (simp_all add: established_def Let_def notify_def set_pool_def tracker_view_def)

lemma established_pool: "set (uriPool (pool b (established b u tr fs ft))) = set fs \<union> set (uriPool (pool b ft))"
proof -
  have "uriPool (pool b (established b u tr fs ft)) = uriPool (snd (URIPool_addURIs fs (pool b ft)))"
    by (simp add: established_def Let_def notify_def set_pool_def pool_def)
  then show ?thesis
    by (simp add: addURIs_set)
qed

lemma prepare_round_simps [simp]:
  "restorable (prepare_round ft) \<longleftrightarrow> restorable ft" "pool b (prepare_round ft) = pool b ft"
  "connectedTransport (prepare_round ft) = connectedTransport ft"
  "recovery_commands v (prepare_round ft) = recovery_commands v ft" "requestMap (prepare_round ft) = requestMap ft"
  "closed (prepare_round ft) = closed ft" "connectionFailure (prepare_round ft) = connectionFailure ft"
  "connectionStates (prepare_round ft) = connectionStates ft"
  by (simp_all add: prepare_round_def wait_delay_def Let_def resetReconnectDelay_def restorable_def tracker_ok_def restores_all_def
      all_repeatable_def pool_def connection_transactions_def recovery_commands_def restore_commands_def connection_commands_def [abs_def])

lemma prepare_round_reachable [simp]: "reachable_uri net n (prepare_round ft) u \<longleftrightarrow> reachable_uri net n ft u"
  by (simp add: reachable_uri_def)

lemma iterate_connects:
  assumes "restorable ft" "connectedTransport ft = None" "connectionFailure ft = None" "\<not> doRebalance ft"
    "\<forall>u\<in>set (uriPool (pool (use_updated ft) ft)). refused_uri net u \<or> reachable_uri net n ft u"
    "\<exists>u\<in>set (uriPool (pool (use_updated ft) ft)). reachable_uri net n ft u"
  shows "\<exists>u tr ft'. failover_iterate net ft = (Inr False, ft') \<and> connectedTransport ft' = Some tr \<and>
    connectedTransportURI ft' = Some u \<and> reachable_uri net n ft u \<and>
    transport_sent tr = recovery_commands (transport_version tr) ft \<and> n \<le> transport_accepts tr \<and>
    insert u (set (uriPool (pool (use_updated ft) ft'))) = set (uriPool (pool (use_updated ft) ft)) \<and>
    requestMap ft' = requestMap ft \<and> closed ft' = closed ft \<and> connectionFailure ft' = None"
proof -
  let ?b = "use_updated ft"
  obtain u tr fs p where loop: "connect_loop net ?b [] None (prepare_round ft) =
        (None, established ?b u tr fs (restored_on tr (set_pool ?b p (prepare_round ft))))"
      "transport_sent tr = recovery_commands (transport_version tr) ft" "n \<le> transport_accepts tr"
      "insert u (set fs \<union> set (uriPool p)) = set (uriPool (pool ?b ft))" "reachable_uri net n ft u"
    using connect_loop_establishes [of "prepare_round ft" ?b net n "[]" None] assms by auto
  have pool: "pool ?b (restored_on tr (set_pool ?b p (prepare_round ft))) = p"
    by (simp add: restored_on_def pool_def set_pool_def)
  have "failover_iterate net ft = (Inr False, established ?b u tr fs (restored_on tr (set_pool ?b p (prepare_round ft))))"
    using assms(1-4,6) loop(1) by (auto simp: failover_iterate_def connect_round_def Let_def isConnectionStateValid_def isClosedOrFailed_def restorable_def)
  then show ?thesis
    using loop(2-5) assms(3) established_pool [of ?b u tr fs] by (auto simp: pool) (simp_all add: restored_on_def)
qed

text \<open>
  C10. A round of the reconnection task after a connection was lost. The transport is started and not closed, the
  tracker restores everything, no transaction has a commit pending, no rebalance is requested, and backups are disabled. If
  each URI of the pool in use either refuses the connection or is reachable, that is, accepts all that is
  sent, and one is reachable, then the round connects to a reachable URI, whatever order they are
  tried in. The new broker has been sent, in this order, that the client is fault tolerant, the tracked state, from which
  it rebuilds the registry of the tracker, and for each entry of the request map the command that waits, or an empty
  \<open>Response\<close> where a commit or rollback waits with the action of the tracker. The refused URIs are
  back in the pool, and the request map is unchanged.
\<close>

theorem iterate_reconnects:
  assumes "restorable ft" "connectedTransport ft = None" "connectionFailure ft = None" "\<not> doRebalance ft"
    "\<forall>u\<in>set (uriPool (pool (use_updated ft) ft)). refused_uri net u \<or> reachable_uri net n ft u"
    "\<exists>u\<in>set (uriPool (pool (use_updated ft) ft)). reachable_uri net n ft u"
  shows "\<exists>u tr ft' cs. failover_iterate net ft = (Inr False, ft') \<and> connectedTransport ft' = Some tr \<and>
    connectedTransportURI ft' = Some u \<and> reachable_uri net n ft u \<and>
    transport_sent tr = DConnectionControl (create_ConnectionControl\<lparr>ConnectionControl_faultTolerant := True\<rparr>) # cs @
      map (\<lambda>r. case r of Request d \<Rightarrow> d | TrackedRequest a \<Rightarrow> DResponse create_Response) (map_values (requestMap ft)) \<and>
    (replayable ft \<longrightarrow> register_all cs Map.empty = Some (reconnected (transport_version tr) ft)) \<and>
    insert u (set (uriPool (pool (use_updated ft) ft'))) = set (uriPool (pool (use_updated ft) ft)) \<and>
    requestMap ft' = requestMap ft \<and> closed ft' = closed ft \<and> connectionFailure ft' = None"
proof -
  have "tracker_ok ft"
    using assms(1) by (simp add: restorable_def)
  then have "replayable ft \<longrightarrow> register_all (restore_commands v ft) Map.empty = Some (reconnected v ft)" for v
    using restore_registers by blast
  with iterate_connects [OF assms] show ?thesis
    unfolding recovery_commands_def by blast
qed

section \<open>Sending\<close>

definition untracked :: "data_structure \<Rightarrow> bool" where
  "untracked d \<longleftrightarrow> \<not> is_registration d \<and> \<not> is_pull d \<and> message_base d = None \<and>
     (case d of DTransactionInfo info \<Rightarrow> False | DConnectionInfo info \<Rightarrow> False | _ \<Rightarrow> True)"

lemma track_untracked: "untracked d \<Longrightarrow> track ref d t = (Inr None, t)"
  by (cases d) (simp_all add: untracked_def track_def visit_def catch_as_def)

lemma trackBack_other: "message_base d = None \<Longrightarrow> trackBack d t = t"
  by (simp add: trackBack_def)

lemma transportInterrupted_simps [simp]:
  "restorable (transportInterrupted ft) \<longleftrightarrow> restorable ft"
  "requestMap (transportInterrupted ft) = requestMap ft" "closed (transportInterrupted ft) = closed ft"
  "connectedTransport (transportInterrupted ft) = connectedTransport ft" "firstConnection (transportInterrupted ft) = firstConnection ft"
  "connectionFailure (transportInterrupted ft) = connectionFailure ft" "doRebalance (transportInterrupted ft) = doRebalance ft"
  "started (transportInterrupted ft) = started ft" "maxReconnectAttempts (transportInterrupted ft) = maxReconnectAttempts ft"
  "startupMaxReconnectAttempts (transportInterrupted ft) = startupMaxReconnectAttempts ft"
  by (simp_all add: transportInterrupted_def)
    (auto simp: restorable_def tracker_ok_def restores_all_def all_repeatable_def connection_transactions_def map_values_def
      connection_ok_def connection_keys.holds_def connection_keys.keyed_def comp_def)

lemma restorable_simps [simp]:
  "restorable (ft\<lparr>uris := p\<rparr>) \<longleftrightarrow> restorable ft" "restorable (ft\<lparr>updated := p\<rparr>) \<longleftrightarrow> restorable ft"
  "restorable (ft\<lparr>notifications := ns\<rparr>) \<longleftrightarrow> restorable ft" "restorable (ft\<lparr>connectedTransport := c\<rparr>) \<longleftrightarrow> restorable ft"
  "restorable (ft\<lparr>closeTask := cs\<rparr>) \<longleftrightarrow> restorable ft" "restorable (ft\<lparr>initialized := b\<rparr>) \<longleftrightarrow> restorable ft"
  "restorable (ft\<lparr>connectedTransportURI := u\<rparr>) \<longleftrightarrow> restorable ft" "restorable (ft\<lparr>connected := b\<rparr>) \<longleftrightarrow> restorable ft"
  "restorable (ft\<lparr>requestMap := m\<rparr>) \<longleftrightarrow> restorable ft"
  by (simp_all add: restorable_def tracker_ok_def restores_all_def all_repeatable_def connection_transactions_def)

lemma notify_simps [simp]:
  "restorable (notify n ft) \<longleftrightarrow> restorable ft" "connectedTransport (notify n ft) = connectedTransport ft"
  "requestMap (notify n ft) = requestMap ft" "connectionFailure (notify n ft) = connectionFailure ft"
  "doRebalance (notify n ft) = doRebalance ft" "firstConnection (notify n ft) = firstConnection ft"
  "startupMaxReconnectAttempts (notify n ft) = startupMaxReconnectAttempts ft" "maxReconnectAttempts (notify n ft) = maxReconnectAttempts ft"
  "uris (notify n ft) = uris ft" "updated (notify n ft) = updated ft" "connectedTransportURI (notify n ft) = connectedTransportURI ft"
  by (simp_all add: notify_def)

lemma failure_disconnects:
  fixes e :: decaf_exception
  assumes "restorable ft" "connectedTransport ft = Some tr" "connectedTransportURI ft = Some u" "\<not> shutdown ft"
    "maxReconnectAttempts ft \<noteq> 0" "connectionFailure ft = None" "\<not> doRebalance ft"
    "handleTransportFailure e ft = (r, ft1)"
  shows "r = Inr ()" "restorable ft1" "connectedTransport ft1 = None" "requestMap ft1 = requestMap ft"
    "connectionFailure ft1 = None" "\<not> doRebalance ft1" "willReconnect ft1"
proof -
  have "started ft" "\<not> firstConnection ft"
    using assms(1) by (simp_all add: restorable_def)
  then show "r = Inr ()" "restorable ft1" "connectedTransport ft1 = None" "requestMap ft1 = requestMap ft"
      "connectionFailure ft1 = None" "\<not> doRebalance ft1" "willReconnect ft1"
    using assms by (auto simp: handleTransportFailure_def Let_def canReconnect_def willReconnect_def
        calculateReconnectAttemptLimit_def)
qed

text \<open>A refused command is taken out of the request map again and tried once more.\<close>

lemma send_loop_refused:
  assumes "untracked d" "\<not> closed ft" "connectedTransport ft = Some tr" "transport_accepts tr = 0" "canReconnect ft"
    "request_keys.keyed (requestMap ft)" "request_keys.lookup (requestMap ft) (sint (getCommandId d)) = None"
    "handleTransportFailure IOException ft = (Inr (), ft1)"
  shows "send_loop (Suc n) ref schedule d ft = send_loop n ref schedule d ft1"
proof -
  define ft3 where "ft3 = remember_request d None ft"
  have "canReconnect ft3"
    using assms(5) by (auto simp: ft3_def remember_request_def canReconnect_def calculateReconnectAttemptLimit_def)
  moreover have "(if isResponseRequired d then sm_remove int_less (getCommandId d) (requestMap ft3)
      else (Inr (Request d), requestMap ft3)) = (Inr (Request d), requestMap ft)"
    using assms(6,7) request_keys.erase_assign_new [of "requestMap ft" "getCommandId d" "Request d"]
    by (simp add: ft3_def remember_request_def sm_put_def sm_remove_def request_keys.find_lookup request_keys.keyed_assign
        request_keys.lookup_assign)
  moreover have "ft3\<lparr>requestMap := requestMap ft\<rparr> = ft"
    by (simp add: ft3_def remember_request_def)
  moreover have "await_connection (message_base d \<noteq> None) schedule ft = Some (False, schedule, ft)"
    using assms(3) by (simp add: await_connection.simps)
  ultimately show ?thesis
    using assms(2-4,8) by (simp add: track_untracked [OF assms(1)] oneway_def ft3_def [symmetric])
qed

lemma send_loop_accepted:
  assumes "untracked d" "connectedTransport ft = Some tr" "0 < transport_accepts tr" "\<not> closed ft"
  shows "\<exists>ft' tr'. send_loop (Suc n) ref schedule d ft = Some (Inr (), ft') \<and> connectedTransport ft' = Some tr' \<and>
    transport_sent tr' = transport_sent tr @ [d] \<and> transport_version tr' = transport_version tr \<and>
    requestMap ft' = requestMap (remember_request d None ft)"
proof -
  have "message_base d = None"
    using assms(1) by (simp add: untracked_def)
  moreover have "await_connection (message_base d \<noteq> None) schedule ft = Some (False, schedule, ft)"
    using assms(2) by (simp add: await_connection.simps)
  ultimately show ?thesis
    using assms(2-4) by (simp add: track_untracked [OF assms(1)] oneway_def trackBack_other Let_def split: data_structure.split)
qed

text \<open>
  C6. A command that the state tracker does not follow is neither lost nor sent twice when its sending fails: it
  waits until the reconnection task has connected again, and the new broker is sent the tracked state and the
  other waiting requests, and then the command, once. If it needs a response it waits for it in the request map.
\<close>

theorem failed_request_sent_once:
  assumes "untracked d" "restorable ft" "connectedTransport ft = Some tr" "transport_accepts tr = 0" "connectedTransportURI ft = Some u"
    "\<not> shutdown ft" "maxReconnectAttempts ft \<noteq> 0" "connectionFailure ft = None" "\<not> doRebalance ft"
    "request_keys.keyed (requestMap ft)" "request_keys.lookup (requestMap ft) (sint (getCommandId d)) = None"
    "ft1 = snd (handleTransportFailure IOException ft)"
    "\<forall>u\<in>set (uriPool (pool (use_updated ft1) ft1)). refused_uri net u \<or> reachable_uri net 1 ft1 u"
    "\<exists>u\<in>set (uriPool (pool (use_updated ft1) ft1)). reachable_uri net 1 ft1 u"
  shows "\<exists>ft' tr'. failover_oneway 2 net ref ((elapsed, \<lambda>ft. snd (failover_iterate net ft)) # rest) d ft = Some (Inr (), ft') \<and>
    connectedTransport ft' = Some tr' \<and> transport_sent tr' = recovery_commands (transport_version tr') ft1 @ [d] \<and>
    requestMap ft1 = requestMap ft \<and> requestMap ft' = requestMap (remember_request d None ft)"
proof -
  have failed: "handleTransportFailure IOException ft = (fst (handleTransportFailure IOException ft), ft1)"
    using assms(12) by simp
  note ft1 = failure_disconnects [OF assms(2,3,5-9) failed]
  have can: "canReconnect ft" "\<not> closed ft"
    using assms(2,7) by (simp_all add: restorable_def canReconnect_def calculateReconnectAttemptLimit_def)
  obtain tr2 ft2 where iterate: "failover_iterate net ft1 = (Inr False, ft2)" "connectedTransport ft2 = Some tr2"
      "transport_sent tr2 = recovery_commands (transport_version tr2) ft1" "1 \<le> transport_accepts tr2"
      "requestMap ft2 = requestMap ft1" "closed ft2 = closed ft1"
    using iterate_connects [OF ft1(2,3,5,6) assms(13,14)] by blast
  have open_ft1: "\<not> closed ft1"
    using ft1(2) by (simp add: restorable_def)
  have message: "message_base d = None"
    using assms(1) by (simp add: untracked_def)
  have "await_connection (message_base d \<noteq> None) ((elapsed, \<lambda>ft. snd (failover_iterate net ft)) # rest) ft1 =
      Some (False, rest, ft2)"
    using ft1(3,5,7) open_ft1 iterate(1,2) message by (simp add: await_connection.simps)
  moreover have "await_connection (message_base d \<noteq> None) rest ft2 = Some (False, rest, ft2)"
    using iterate(2) by (simp add: await_connection.simps)
  ultimately have "send_loop (Suc 0) ref ((elapsed, \<lambda>ft. snd (failover_iterate net ft)) # rest) d ft1 = send_loop (Suc 0) ref rest d ft2"
    using open_ft1 iterate(6) by simp
  then have "failover_oneway 2 net ref ((elapsed, \<lambda>ft. snd (failover_iterate net ft)) # rest) d ft = send_loop (Suc 0) ref rest d ft2"
    using send_loop_refused [OF assms(1) can(2) assms(3,4) can(1) assms(10,11), of ft1 1] failed ft1(1) assms(3)
    by (simp add: failover_oneway_def without_connection_def numeral_2_eq_2 del: send_loop.simps)
  moreover have "requestMap (remember_request d None ft2) = requestMap (remember_request d None ft)"
    using iterate(5) ft1(4) by (simp add: remember_request_def)
  ultimately show ?thesis
    using send_loop_accepted [OF assms(1) iterate(2), of 0 ref rest] iterate(3,4,6) open_ft1 ft1(4) by auto
qed

section \<open>Responses\<close>

lemma onResponse_requests [simp]: "requestMap (snd (onResponse a ft)) = requestMap ft"
  by (rule removeTransaction_keeps [of "\<lambda>t. requestMap t = requestMap ft"]) (simp_all add: set_connection_def)

text \<open>
  A response settles the request with its correlation identity and no other, and a second response with
  the same identity changes nothing.
\<close>

theorem response_settles_request:
  assumes "request_keys.keyed (requestMap ft)" "processResponse c ft = (r, ft')"
  shows "request_keys.keyed (requestMap ft') \<and>
    request_keys.lookup (requestMap ft') = (request_keys.lookup (requestMap ft))(sint c := None) \<and>
    processResponse c ft' = (Inr (), ft')"
proof -
  have after: "requestMap ft' = map_erase int_less c (requestMap ft)"
  proof (cases "map_find int_less c (requestMap ft)")
    case None
    then show ?thesis
      using assms(2) by (simp add: processResponse_def sm_remove_def erase_missing)
  next
    case (Some q)
    then show ?thesis
      using assms(2) onResponse_requests [of _ "ft\<lparr>requestMap := map_erase int_less c (requestMap ft)\<rparr>"]
      by (cases q) (auto simp: processResponse_def sm_remove_def dest: arg_cong [of _ _ "\<lambda>x. requestMap (snd x)"])
  qed
  have keyed: "request_keys.keyed (requestMap ft')"
    using assms(1) by (simp add: after request_keys.keyed_erase)
  have lookup: "request_keys.lookup (requestMap ft') = (request_keys.lookup (requestMap ft))(sint c := None)"
    using assms(1) by (simp add: after request_keys.lookup_erase)
  then have "map_find int_less c (requestMap ft') = None"
    using keyed by (simp add: request_keys.find_lookup)
  then show ?thesis
    using keyed lookup by (simp add: processResponse_def sm_remove_def)
qed

lemma track_commit:
  assumes "tracker_ok t" "TransactionInfo_type info = TRANSACTION_STATE_COMMITONEPHASE" "TransactionInfo_connectionId info = Some k"
    "plain_connection k" "TransactionInfo_transactionId info = Some (Local x)" "plain_transaction x" "trackTransactions t"
    "get_connection k t = Inr cs" "map_find LocalTransactionId_lt x (ConnectionState_transactions cs) = Some a"
  shows "\<exists>heap. track ref (DTransactionInfo info) t = (Inr (Some (RemoveTransactionAction info)), t\<lparr>transactionHeap := heap\<rparr>)"
proof -
  have "connection_ok (length (transactionHeap t)) (ConnectionId_key k) cs"
    by (rule get_connection_ok [OF assms(1,4,8)])
  then have "a < length (transactionHeap t)"
    using assms(6,9) transaction_keys.holds_find [of _ "ConnectionState_transactions cs" x a] by (auto simp: connection_ok_def)
  then have "\<not> TransactionState_disposed (transactionHeap t ! a)"
    using heap_transaction_ok [OF assms(1)] by (auto simp: transaction_ok_def)
  then show ?thesis
    using assms(2,3,5,7-9) by (auto simp: track_def visit_def processTransactionInfo_def processCommitTransactionOnePhase_def
        process_completed_def add_to_transaction_def getTransactionState_def cm_get_def addCommand_def TransactionState_checkShutdown_def
        guard_result_def unless_failed_def catch_as_def TRANSACTION_STATE_COMMITONEPHASE_def)
qed

lemma removal_runs:
  assumes "get_connection k t = Inr cs" "TransactionInfo_connectionId info = Some k" "TransactionInfo_transactionId info = Some (Local x)"
    "map_find LocalTransactionId_lt x (ConnectionState_transactions cs) = Some a"
  shows "\<exists>h. onResponse (RemoveTransactionAction info) t = (Inr (), set_connection k (cs\<lparr>ConnectionState_transactions :=
    map_erase LocalTransactionId_lt x (ConnectionState_transactions cs)\<rparr>) (t\<lparr>transactionHeap := h\<rparr>))"
  using assms by (auto simp: removeTransaction_def dereference_def removeTransactionState_def cm_remove_def unless_failed_def catch_as_def)

lemma forgotten_transaction:
  assumes "tracker_ok t" "plain_connection k" "plain_transaction x" "get_connection k t = Inr cs" "connectionStates t' = connectionStates t"
  defines "cs' \<equiv> cs\<lparr>ConnectionState_transactions := map_erase LocalTransactionId_lt x (ConnectionState_transactions cs)\<rparr>"
  shows "get_connection k (set_connection k cs' t') = Inr cs'" "map_find LocalTransactionId_lt x (ConnectionState_transactions cs') = None"
proof -
  have "connection_keys.keyed (connectionStates t')"
    using ok_keyed(1) [OF assms(1)] assms(5) by simp
  then show "get_connection k (set_connection k cs' t') = Inr cs'"
    using assms(2) by (simp add: get_connection_def set_connection_def cm_get_def connection_keys.find_lookup
        connection_keys.keyed_assign connection_keys.lookup_assign)
  have "transaction_keys.keyed (ConnectionState_transactions cs)"
    using get_connection_ok [OF assms(1,2,4)] by (simp add: connection_ok_def transaction_keys.holds_def)
  then show "map_find LocalTransactionId_lt x (ConnectionState_transactions cs') = None"
    using assms(3) by (simp add: cs'_def transaction_keys.find_lookup transaction_keys.keyed_erase transaction_keys.lookup_erase)
qed

text \<open>
  C11. A commit whose response has arrived is over: sending the commit of an open transaction keeps the action
  of the state tracker under the identity of the command, and the response with that identity runs it, so that
  the transaction is gone from its connection and nothing of it is repeated on later connections.
\<close>

theorem answered_commit_is_forgotten:
  assumes "tracker_ok ft" "TransactionInfo_type info = TRANSACTION_STATE_COMMITONEPHASE" "TransactionInfo_connectionId info = Some k"
    "plain_connection k" "TransactionInfo_transactionId info = Some (Local x)" "plain_transaction x" "trackTransactions ft"
    "get_connection k ft = Inr cs" "map_find LocalTransactionId_lt x (ConnectionState_transactions cs) = Some a"
    "connectedTransport ft = Some tr" "0 < transport_accepts tr" "\<not> closed ft" "request_keys.keyed (requestMap ft)"
    "Response_correlationId r = BaseCommand_commandId info"
  shows "\<exists>ft1 ft2 cs2. failover_oneway (Suc n) net ref schedule (DTransactionInfo info) ft = Some (Inr (), ft1) \<and>
    onCommand net (DResponse r) ft1 = (Inr (), ft2) \<and> get_connection k ft2 = Inr cs2 \<and>
    map_find LocalTransactionId_lt x (ConnectionState_transactions cs2) = None"
proof -
  obtain heap where track: "track ref (DTransactionInfo info) ft = (Inr (Some (RemoveTransactionAction info)), ft\<lparr>transactionHeap := heap\<rparr>)"
    using track_commit [OF assms(1-9)] by blast
  define tr' where "tr' = tr\<lparr>transport_accepts := transport_accepts tr - 1, transport_sent := transport_sent tr @ [DTransactionInfo info]\<rparr>"
  define m where "m = map_assign int_less (BaseCommand_commandId info) (TrackedRequest (RemoveTransactionAction info)) (requestMap ft)"
  define ft1 where "ft1 = ft\<lparr>transactionHeap := heap, requestMap := m, connectedTransport := Some tr'\<rparr>"
  have id: "getCommandId (DTransactionInfo info) = BaseCommand_commandId info"
    by (simp add: getCommandId_def BaseCommand.defs)
  have "await_connection (message_base (DTransactionInfo info) \<noteq> None) schedule ft = Some (False, schedule, ft)"
    using assms(10) by (simp add: await_connection.simps)
  then have sent: "failover_oneway (Suc n) net ref schedule (DTransactionInfo info) ft = Some (Inr (), ft1)"
    using assms(10-12) track id by (simp add: failover_oneway_def without_connection_def remember_request_def sm_put_def oneway_def
        trackBack_def ft1_def m_def tr'_def)
  define ft1' where "ft1' = ft1\<lparr>requestMap := map_erase int_less (BaseCommand_commandId info) m\<rparr>"
  have "map_find int_less (BaseCommand_commandId info) m = Some (TrackedRequest (RemoveTransactionAction info))"
    using assms(13) by (simp add: m_def request_keys.find_lookup request_keys.keyed_assign request_keys.lookup_assign)
  then have response: "processResponse (BaseCommand_commandId info) ft1 = onResponse (RemoveTransactionAction info) ft1'"
    by (simp add: processResponse_def sm_remove_def ft1_def ft1'_def)
  define cs' where "cs' = cs\<lparr>ConnectionState_transactions := map_erase LocalTransactionId_lt x (ConnectionState_transactions cs)\<rparr>"
  have "get_connection k ft1' = Inr cs"
    using assms(8) by (simp add: ft1'_def ft1_def get_connection_def)
  from removal_runs [OF this assms(3,5,9)] obtain h where
    removed: "onResponse (RemoveTransactionAction info) ft1' = (Inr (), set_connection k cs' (ft1'\<lparr>transactionHeap := h\<rparr>))"
    unfolding cs'_def by blast
  have "connectionStates (ft1'\<lparr>transactionHeap := h\<rparr>) = connectionStates ft"
    by (simp add: ft1'_def ft1_def)
  note forgotten = forgotten_transaction [OF assms(1,4,6,8) this, folded cs'_def]
  have "onCommand net (DResponse r) ft1 = (Inr (), notify (Received (DResponse r))
      ((set_connection k cs' (ft1'\<lparr>transactionHeap := h\<rparr>))\<lparr>initialized := True\<rparr>))"
    using assms(14) response removed by (simp add: onCommand_def Let_def)
  moreover have "get_connection k (notify c (ft2\<lparr>initialized := b\<rparr>)) = get_connection k ft2" for c ft2 b
    by (simp add: get_connection_def notify_def)
  ultimately show ?thesis
    using sent forgotten by auto
qed

section \<open>Closing and shutting down\<close>

text \<open>
  Sending on a closed transport returns as if the command had been sent; the error that is prepared for
  this case is never thrown.
\<close>

theorem closed_transport_accepts_silently:
  assumes "closed ft" "without_connection net ref d ft = None"
  shows "failover_oneway (Suc n) net ref schedule d ft = Some (Inr (), ft)"
  using assms by (simp add: failover_oneway_def)

text \<open>
  C38. After a \<open>ShutdownInfo\<close> has been sent, a command that the state tracker does not follow and
  whose sending fails is tried again and again on the same broken transport: no number of attempts is enough,
  and the loop never gives up the mutex that closing needs.
\<close>

theorem shutdown_spins:
  assumes "untracked d" "shutdown ft" "\<not> closed ft" "connectedTransport ft = Some tr" "transport_accepts tr = 0" "canReconnect ft"
    "request_keys.keyed (requestMap ft)" "request_keys.lookup (requestMap ft) (sint (getCommandId d)) = None"
  shows "failover_oneway n net ref schedule d ft = None"
proof -
  have "handleTransportFailure IOException ft = (Inr (), ft)"
    using assms(2) by (simp add: handleTransportFailure_def)
  from send_loop_refused [OF assms(1,3,4,5,6,7,8) this] have "send_loop (Suc m) ref schedule d ft = send_loop m ref schedule d ft" for m .
  then have "send_loop n ref schedule d ft = None"
    by (induction n) (simp_all del: send_loop.simps(2))
  then show ?thesis
    using assms(4) by (simp add: failover_oneway_def without_connection_def)
qed

text \<open>
  A rebalance that is requested while there is no connection makes the reconnection task fail with a
  \<open>NullPointerException\<close>, instead of connecting.
\<close>

theorem rebalance_without_connection_fails:
  assumes "doRebalance ft" "connectedTransport ft = None" "connectedTransportURI ft = None" "\<not> isClosedOrFailed ft"
    "uriPool (pool (use_updated ft) ft) \<noteq> []"
  shows "failover_iterate net ft = (Inl NullPointerException, ft)"
  using assms by (simp add: failover_iterate_def isConnectionStateValid_def Let_def rebalance_now_def)

section \<open>Delays\<close>









text \<open>
  An initial delay of 5 milliseconds never grows beyond 10: when it has been doubled, it is taken for the default
  of 10, and the next round starts with 5 again.
\<close>

lemma short_delay_never_grows:
  assumes "useExponentialBackOff ft" "backOffMultiplier ft = 2" "10 \<le> maxReconnectDelay ft" "initialReconnectDelay ft = 5"
    "reconnectDelay (resetReconnectDelay ft) = 5"
  shows "reconnectDelay (doDelay (resetReconnectDelay ft)) = 10"
    "reconnectDelay (resetReconnectDelay (doDelay (resetReconnectDelay ft))) = 5"
  using assms by (simp_all add: doDelay_def wait_delay_def resetReconnectDelay_def Let_def wrap64_id DEFAULT_INITIAL_RECONNECT_DELAY_def)

section \<open>URIs\<close>

definition known_uris :: "FailoverTransport \<Rightarrow> uri set" where
  "known_uris ft = set (uriPool (uris ft)) \<union> set (uriPool (updated ft)) \<union> set_option (connectedTransportURI ft)"

lemma known_uris_pools:
  "known_uris ft = set (uriPool (pool b ft)) \<union> set (uriPool (pool (\<not> b) ft)) \<union> set_option (connectedTransportURI ft)"
  by (auto simp: known_uris_def pool_def)

lemma attempt_uri: "connectedTransportURI (snd (attempt net u ft)) = connectedTransportURI ft"
proof -
  have keeps: "connectedTransportURI (fst (snd (restoreTransport net (ft, tr)))) = connectedTransportURI ft" for tr
    using restoreTransport_keeps [THEN keepsD, of "\<lambda>t. connectedTransportURI t = connectedTransportURI ft" ft net tr]
    by (simp add: set_connection_def)
  show ?thesis
    by (cases "createTransport net u") (auto simp: attempt_def split_beta keeps split: sum.split)
qed

lemma established_other_pool [simp]: "pool (\<not> b) (established b u tr fs ft) = pool (\<not> b) ft"
  by (simp add: established_def Let_def notify_def set_pool_def pool_def)

lemma connect_loop_known:
  assumes "connectedTransportURI ft = None" "connect_loop net b failures failure ft = (r, ft')"
  shows "known_uris ft' = set failures \<union> known_uris ft"
  using assms
proof (induction "length (uriPool (pool b ft))" arbitrary: failures failure ft rule: less_induct)
  case less
  show ?case
  proof (cases "uriPool (pool b ft) \<noteq> [] \<and> connectedTransport ft = None \<and> \<not> closed ft")
    case False
    then have "ft' = set_pool b (snd (URIPool_addURIs failures (pool b ft))) ft"
      using less.prems(2) by (subst (asm) connect_loop.simps) auto
    then show ?thesis
      by (auto simp: known_uris_pools [of _ b] addURIs_set)
  next
    case True
    obtain u p where u: "URIPool_getURI (random_index net) (pool b ft) = (Inr u, p)"
      using True getURI_nonempty [of "pool b ft"] by fastforce
    have set_p: "insert u (set (uriPool p)) = set (uriPool (pool b ft))"
      using u by (auto elim!: getURI_cases dest: removed_URI)
    obtain r' ft2 where attempt: "attempt net u (set_pool b p ft) = (r', ft2)"
      by fastforce
    then have ft2: "pool b ft2 = p" "pool (\<not> b) ft2 = pool (\<not> b) ft" "connectedTransportURI ft2 = None"
      using attempt_same(1) [of b net u "set_pool b p ft"] attempt_same(1) [of "\<not> b" net u "set_pool b p ft"]
        attempt_uri [of net u "set_pool b p ft"] less.prems(1) by simp_all
    show ?thesis
    proof (cases r')
      case (Inr tr)
      then have "ft' = established b u tr failures ft2"
        using less.prems(2) True u attempt by (subst (asm) connect_loop.simps) auto
      then show ?thesis
        using ft2 set_p less.prems(1) established_pool [of b u tr failures ft2] by (auto simp: known_uris_pools [of _ b])
    next
      case (Inl e)
      then have "connect_loop net b (failures @ [u]) (Some e) ft2 = (r, ft')"
        using less.prems(2) True u attempt by (subst (asm) connect_loop.simps) auto
      then have "known_uris ft' = set (failures @ [u]) \<union> known_uris ft2"
        using ft2 getURI_shorter [OF u] by (intro less.hyps) auto
      then show ?thesis
        using ft2 set_p less.prems(1) by (auto simp: known_uris_pools [of _ b])
    qed
  qed
qed

lemma known_uris_same:
  "known_uris (snd (give_up failure ft)) = known_uris ft" "known_uris (prepare_round ft) = known_uris ft"
  "known_uris (disconnect ft) = known_uris ft"
  by (auto simp: known_uris_def give_up_def propagateFailureToExceptionListener_def notify_def doDelay_def wait_delay_def Let_def
      prepare_round_def resetReconnectDelay_def disconnect_def addURI_set split: option.split)

text \<open>
  C30. No URI is lost: whatever the outcome of the attempts to connect, and whatever breaks, the URIs in the two
  pools and the one in use are the same before and after.
\<close>

theorem no_uri_lost:
  assumes "connectedTransport ft = None \<longrightarrow> connectedTransportURI ft = None"
  shows "known_uris (snd (failover_iterate net ft)) = known_uris ft \<and> known_uris (snd (handleTransportFailure e ft)) = known_uris ft"
proof
  have loop: "known_uris (snd (connect_loop net b [] None ft2)) = known_uris ft2" if "connectedTransportURI ft2 = None" for b ft2
    using connect_loop_known [OF that, of net b "[]" None] by (metis prod.exhaust_sel set_empty Un_empty_left)
  have settled: "known_uris (snd (connect_round net b ft1)) = known_uris ft1" if "connectedTransportURI ft1 = None" for b ft1
  proof -
    have "connectedTransportURI (prepare_round ft1) = None"
      using that by (simp add: prepare_round_def wait_delay_def Let_def resetReconnectDelay_def)
    then show ?thesis
      using loop [of "prepare_round ft1" b] by (simp add: connect_round_def split_beta known_uris_same)
  qed
  have gone: "connectedTransportURI ((disconnect ft)\<lparr>doRebalance := False\<rparr>) = None" if "connectedTransport ft \<noteq> None"
    using that by (auto simp: disconnect_def)
  have same: "known_uris (ft1\<lparr>doRebalance := b\<rparr>) = known_uris ft1" for ft1 b
    by (simp add: known_uris_def)
  show "known_uris (snd (failover_iterate net ft)) = known_uris ft"
  proof (cases "connectedTransport ft")
    case None
    then show ?thesis
      using assms settled [of ft] by (auto simp: failover_iterate_def Let_def rebalance_now_def split_beta known_uris_same)
  next
    case (Some tr)
    then show ?thesis
      using settled [OF gone] by (auto simp: failover_iterate_def Let_def rebalance_now_def split_beta known_uris_same same
          isConnectionStateValid_def split: option.split)
  qed
  have "insert u (set (remove1 u us)) = insert u (set us)" for u :: uri and us
    by (induction us) auto
  then show "known_uris (snd (handleTransportFailure e ft)) = known_uris ft"
    by (cases "connectedTransportURI ft") (auto simp: handleTransportFailure_def Let_def known_uris_def notify_def
        propagateFailureToExceptionListener_def transportInterrupted_def addURI_set URIPool_removeURI_def split: option.split)
qed

section \<open>Examples\<close>

definition sample_transport :: "nat \<Rightarrow> transport" where
  "sample_transport n = \<lparr>transport_version = 9, transport_accepts = n, transport_sent = [], transport_delivered = []\<rparr>"

definition sample_network :: network where
  "sample_network = \<lparr>createTransport = (\<lambda>u. if u = 2 then Inr (sample_transport 10) else Inl IOException),
     startTransport = (\<lambda>tr. Inr ()), random_index = (\<lambda>n. 0), parse_URI = (\<lambda>s. None)\<rparr>"

definition sample_request :: "32 word \<Rightarrow> data_structure" where
  "sample_request i = DFlushCommand \<lparr>BaseCommand_commandId = i, BaseCommand_responseRequired = True\<rparr>"

text \<open>Connected to a transport that has broken, with a second URI and a request that waits.\<close>

definition sample_broken :: FailoverTransport where
  "sample_broken = new_FailoverTransport\<lparr>started := True, firstConnection := False,
     uris := \<lparr>uriPool = [2], priorityURI = 1, randomize = False\<rparr>, connectedTransportURI := Some 1,
     connectedTransport := Some (sample_transport 0), requestMap := [(1, Request (sample_request 1))]\<rparr>"

definition sample_interrupted :: FailoverTransport where
  "sample_interrupted = sample_broken\<lparr>connectedTransport := None, closeTask := [sample_transport 0],
     uris := \<lparr>uriPool = [2, 1], priorityURI = 1, randomize = False\<rparr>, connectedTransportURI := None\<rparr>"

lemmas sample_defs = sample_broken_def new_FailoverTransport_def sample_transport_def sample_network_def
  new_URIPool_def INFINITE_WAIT_def

lemma sample_broken_restorable: "restorable sample_broken" "restorable sample_interrupted"
  by (simp_all add: sample_interrupted_def sample_defs restorable_def tracker_ok_def restores_all_def all_repeatable_def map_values_def)

lemma sample_failure: "handleTransportFailure IOException sample_broken = (Inr (), sample_interrupted)"
  by (simp add: handleTransportFailure_def sample_interrupted_def sample_defs Let_def canReconnect_def calculateReconnectAttemptLimit_def
      URIPool_addURI_def URIPool_removeURI_def notify_def transportInterrupted_def)

lemma sample_recovery: "recovery_commands v sample_interrupted = [fault_tolerant, sample_request 1]"
  by (simp add: recovery_commands_def restore_commands_def sample_interrupted_def sample_defs map_values_def fault_tolerant_def)

lemma sample_uris:
  "uriPool (pool (use_updated sample_interrupted) sample_interrupted) = [2, 1]" "refused_uri sample_network 1"
  "reachable_uri sample_network 1 sample_interrupted 2" "\<not> closed sample_interrupted" "connectedTransport sample_interrupted = None"
  "connectionFailure sample_interrupted = None" "\<not> doRebalance sample_interrupted"
  by (simp_all add: pool_def use_updated_def reachable_uri_def refused_uri_def sample_recovery) (simp_all add: sample_interrupted_def sample_defs)

lemma sample_replayable: "replayable sample_interrupted"
  by (simp add: replayable_def sample_interrupted_def sample_defs map_values_def)

theorem iterate_reconnects_witness:
  "\<exists>u tr ft' cs. failover_iterate sample_network sample_interrupted = (Inr False, ft') \<and> connectedTransport ft' = Some tr \<and>
    connectedTransportURI ft' = Some u \<and> transport_sent tr = fault_tolerant # cs @ [sample_request 1] \<and>
    register_all cs Map.empty = Some (reconnected (transport_version tr) sample_interrupted)"
  using iterate_reconnects [of sample_interrupted sample_network 1] sample_uris sample_broken_restorable(2) sample_replayable
  by (simp add: fault_tolerant_def) (auto simp: sample_interrupted_def sample_broken_def map_values_def)

theorem failed_request_sent_once_witness:
  "\<exists>ft' tr'. failover_oneway 2 sample_network 0 [(0, \<lambda>ft. snd (failover_iterate sample_network ft))] (sample_request 2) sample_broken =
      Some (Inr (), ft') \<and> connectedTransport ft' = Some tr' \<and>
    transport_sent tr' = [fault_tolerant, sample_request 1, sample_request 2]"
proof -
  have "untracked (sample_request 2)" "getCommandId (sample_request 2) = 2"
    by (simp_all add: untracked_def sample_request_def getCommandId_def)
  moreover have "connectedTransport sample_broken = Some (sample_transport 0)" "transport_accepts (sample_transport 0) = 0"
      "connectedTransportURI sample_broken = Some 1" "\<not> shutdown sample_broken" "maxReconnectAttempts sample_broken \<noteq> 0"
      "connectionFailure sample_broken = None" "\<not> doRebalance sample_broken" "request_keys.keyed (requestMap sample_broken)"
      "request_keys.lookup (requestMap sample_broken) 2 = None"
    by (simp_all add: sample_defs request_keys.keyed_def request_keys.lookup_def)
  ultimately show ?thesis
    using failed_request_sent_once [of "sample_request 2" sample_broken "sample_transport 0" 1 sample_interrupted sample_network 0 0 "[]"]
      sample_broken_restorable(1) sample_failure sample_uris
    by (auto simp: sample_recovery)
qed

theorem shutdown_spins_witness:
  "\<forall>n. failover_oneway n sample_network 0 [] (sample_request 2) (sample_broken\<lparr>shutdown := True\<rparr>) = None"
proof -
  have "untracked (sample_request 2)" "getCommandId (sample_request 2) = 2"
    by (simp_all add: untracked_def sample_request_def getCommandId_def)
  then show ?thesis
    by (intro allI shutdown_spins [of _ _ "sample_transport 0"])
      (simp_all add: sample_defs request_keys.keyed_def request_keys.lookup_def canReconnect_def calculateReconnectAttemptLimit_def)
qed



theorem no_uri_lost_witness:
  "known_uris (snd (failover_iterate sample_network sample_interrupted)) = {1, 2}"
  using no_uri_lost [of sample_interrupted sample_network IOException]
  by (simp add: known_uris_def) (auto simp: sample_interrupted_def sample_defs)

text \<open>A connection with an open transaction.\<close>

definition sample_LocalTransaction :: LocalTransactionId where
  "sample_LocalTransaction = \<lparr>LocalTransactionId_value = 1, LocalTransactionId_connectionId = Some sample_id\<rparr>"

definition sample_commit :: TransactionInfo where
  "sample_commit = create_TransactionInfo\<lparr>BaseCommand_commandId := 5, TransactionInfo_connectionId := Some sample_id,
     TransactionInfo_transactionId := Some (Local sample_LocalTransaction), TransactionInfo_type := TRANSACTION_STATE_COMMITONEPHASE\<rparr>"

definition sample_transacted :: ConnectionState where
  "sample_transacted = sample_connection\<lparr>ConnectionState_transactions := [(sample_LocalTransaction, 0)]\<rparr>"

definition sample_working :: FailoverTransport where
  "sample_working = sample_broken\<lparr>connectedTransport := Some (sample_transport 4),
     connectionStates := [(sample_id, sample_transacted)],
     transactionHeap := [new_TransactionState (Some (Local sample_LocalTransaction))]\<rparr>"

lemma sample_working_ok: "tracker_ok sample_working"
proof -
  have "connection_ok 1 (ConnectionId_key sample_id) sample_transacted"
    using connection_ok_mono [OF sample_connection_ok, of 1] by (simp add: connection_ok_def sample_transacted_def
        transaction_keys.holds_def transaction_keys.keyed_def sample_LocalTransaction_def sample_id_def isWhitespace_def)
  moreover have "transaction_ok 1 (new_TransactionState (Some (Local sample_LocalTransaction)))"
    by (simp add: transaction_ok_def new_TransactionState_def)
  ultimately show ?thesis
    by (simp add: tracker_ok_def sample_working_def sample_defs connection_keys.holds_def connection_keys.keyed_def
        sample_id_def isWhitespace_def)
qed

theorem answered_commit_is_forgotten_witness:
  "\<exists>ft1 ft2 cs2. failover_oneway 1 sample_network 0 [] (DTransactionInfo sample_commit) sample_working = Some (Inr (), ft1) \<and>
    onCommand sample_network (DResponse (create_Response\<lparr>Response_correlationId := 5\<rparr>)) ft1 = (Inr (), ft2) \<and>
    get_connection sample_id ft2 = Inr cs2 \<and> map_find LocalTransactionId_lt sample_LocalTransaction (ConnectionState_transactions cs2) = None"
proof -
  have "get_connection sample_id sample_working = Inr sample_transacted" "plain_connection sample_id"
    using get_connection_view [OF sample_working_ok, of sample_id]
    by (simp_all add: sample_id_def isWhitespace_def) (simp add: sample_working_def sample_id_def connection_keys.lookup_def)
  moreover have "plain_transaction sample_LocalTransaction"
    using calculation(2) by (simp add: sample_LocalTransaction_def)
  moreover from this have "map_find LocalTransactionId_lt sample_LocalTransaction (ConnectionState_transactions sample_transacted) = Some 0"
    using transaction_keys.find_lookup [of "ConnectionState_transactions sample_transacted" sample_LocalTransaction]
    by (simp add: sample_transacted_def transaction_keys.keyed_def transaction_keys.lookup_def)
  moreover have "trackTransactions sample_working" "connectedTransport sample_working = Some (sample_transport 4)"
      "\<not> closed sample_working" "request_keys.keyed (requestMap sample_working)" "0 < transport_accepts (sample_transport 4)"
    by (simp_all add: sample_working_def sample_defs request_keys.keyed_def)
  ultimately show ?thesis
    using answered_commit_is_forgotten [OF sample_working_ok, of sample_commit sample_id sample_LocalTransaction sample_transacted 0
        "sample_transport 4" "create_Response\<lparr>Response_correlationId := 5\<rparr>" 0 sample_network 0 "[]"]
    by (simp add: sample_commit_def)
qed

end
