(* ===== verification/Spec2Isabelle.thy ===== *)
theory Spec2Isabelle
  imports Transactions Receiving Filtering OpenWire Reconnecting
begin

text \<open>
  A verification library for the client core of ActiveMQ-CPP (sources under
  \<open>src/activemq-cpp/src/main\<close>).

  \<^bold>\<open>The program.\<close>  An \<open>ActiveMQConnection\<close> reads commands from its transport.  A \<open>MessageDispatch\<close> is
  given to the \<open>ActiveMQConsumerKernel\<close> it is addressed to.  The consumer asks the connection's
  \<open>ConnectionAudit\<close> whether the message was seen before; the audit keeps one \<open>ActiveMQMessageAudit\<close> per
  queue or per consumer, which keeps one \<open>BitSet\<close> of sequence numbers per producer in an \<open>LRUCache\<close> (a
  \<open>LinkedHashMap\<close>, a \<open>HashMap\<close>).  A new message is put on the consumer's \<open>MessageDispatchChannel\<close>, which
  keeps it in a \<open>LinkedList\<close>, or it is given to the application's listener.  The application receives
  messages from the channel; the consumer remembers what was delivered and sends \<open>MessageAck\<close> commands
  as the acknowledgement mode demands.  In a transacted session the \<open>ActiveMQTransactionContext\<close> opens a
  transaction at the first message and calls the consumer back before the end of the transaction, after
  its commit and after its rollback.

  Every command goes through an \<open>OpenWireFormat\<close>, which turns commands into frames of bytes and back with
  one marshaller per class of command.  Above it the \<open>FailoverTransport\<close> hides broken connections: its
  \<open>ConnectionStateTracker\<close> remembers what the commands have opened, its request map keeps the
  requests without an answer, and when a connection breaks the reconnection task takes the next URI of its pools
  and repeats both to the next broker.

  \<^bold>\<open>The theories and the code.\<close>
  \<^item> \<open>Prelude\<close>: exceptions as values, the result type \<open>'a result\<close>, C++ \<open>int\<close> arithmetic, shared facts.
  \<^item> \<open>Deque_Spec\<close>, \<open>LinkedList\<close>: \<open>decaf/util/LinkedList.h\<close>.  A list object carries its nodes in a store
    indexed by references, so that every pointer assignment of the code is an update of the model.  The
    locale \<open>deque\<close> states what its clients rely on; \<open>ll\<close> interprets it.
  \<^item> \<open>Commands\<close>: the fields of \<open>activemq/commands\<close> that the modelled code reads or writes.
  \<^item> \<open>Channel_Spec\<close>, \<open>DispatchChannel\<close>: \<open>activemq/core/MessageDispatchChannel.h\<close>,
    \<open>FifoMessageDispatchChannel.cpp\<close>, \<open>SimplePriorityMessageDispatchChannel.cpp\<close>.  The locale
    \<open>message_channel\<close> is the interface; \<open>fifo\<close> and \<open>prio\<close> interpret it.  Both are shown to be
    interchangeable with a channel over a plain list, on which the consumer is then modelled.
  \<^item> \<open>LongText\<close>, \<open>Ids\<close>: \<open>decaf/lang/Long.cpp\<close>, \<open>Character.cpp\<close>, \<open>activemq/commands/ProducerId.cpp\<close>,
    \<open>MessageId.cpp\<close>, \<open>activemq/util/IdGenerator.cpp\<close>.
  \<^item> \<open>BitSet\<close>: \<open>decaf/util/BitSet.cpp\<close>, 64-bit words with the cached count of words in use.  The count of
    members, the copy of a range and the text of a set are left out.
  \<^item> \<open>Map_Spec\<close>, \<open>HashMap\<close>, \<open>LRUCache\<close>: \<open>decaf/util/HashMap.h\<close>, \<open>LinkedHashMap.h\<close>, \<open>LRUCache.h\<close>.  The
    locale \<open>map_store\<close> is the contract of a map; \<open>hm\<close> interprets it for every hash function.  The doubly
    linked chain through the entries of a \<open>LinkedHashMap\<close> is the list of their keys.
  \<^item> \<open>MessageAudit\<close>, \<open>ConnectionAudit\<close>: \<open>activemq/core/ActiveMQMessageAudit.cpp\<close>, \<open>ConnectionAudit.cpp\<close>.
    The audits of queues are in a map ordered by \<open>ActiveMQDestination::compareTo\<close>, which skips white space in
    names: two queues whose names differ in nothing else share an audit, and the refinement is about names without it.
  \<^item> \<open>ConsumerKernel\<close>: \<open>activemq/core/kernels/ActiveMQConsumerKernel.cpp\<close>.  The record \<open>consumer\<close> holds
    the fields of the class and of its configuration object and, after them, what the methods reach beyond
    it: the session, its transaction context, the connection with its audit, the commands sent so far and
    the outcomes of the requests still to be made.  A method is a function from this state to its result
    and the state after it, with an early return or an exception as a branch.
  \<^item> \<open>TransactionContext\<close>: \<open>activemq/core/ActiveMQTransactionContext.cpp\<close> for local transactions, and
    \<open>commit\<close>, \<open>rollback\<close>, \<open>recover\<close> and \<open>acknowledge\<close> of \<open>kernels/ActiveMQSessionKernel.cpp\<close>.
  \<^item> \<open>ConsumerAcks\<close>, \<open>Delivery\<close>, \<open>Transactions\<close>, \<open>Receiving\<close>, \<open>Filtering\<close>: theorems on the consumer with
    the components it uses.
  \<^item> \<open>DataStreams\<close>, \<open>Marshalling\<close>: \<open>decaf/io/DataOutputStream.cpp\<close>, \<open>DataInputStream.cpp\<close>,
    \<open>openwire/utils/BooleanStream.cpp\<close> and \<open>openwire/marshal/BaseDataStreamMarshaller.cpp\<close>, over an input
    that arrives in chunks of any size.
  \<^item> \<open>PrimitiveTypes\<close>: \<open>PrimitiveTypesMarshaller.cpp\<close>, the typed values of message properties and map bodies.
  \<^item> \<open>WireCommands\<close>: the fields and constructors of the classes of \<open>activemq/commands\<close>; a class that
    extends another is a record that extends it, and \<open>data_structure\<close> is their union.
  \<^item> \<open>Marshallers\<close>: the five methods of each of the marshallers under
    \<open>openwire/marshal/generated\<close>, and the hooks of the messages that run before and after them.
  \<^item> \<open>WireFields\<close>, \<open>WireCodecs\<close>, \<open>OpenWire\<close>: \<open>OpenWireFormat.cpp\<close> and the proofs that each marshaller
    reads back what it has written, field by field, class by class, frame by frame.
  \<^item> \<open>StringUtils\<close>: \<open>decaf/internal/util/StringUtils.cpp\<close>, the comparison of the names in identities.
  \<^item> \<open>StlMap\<close>: \<open>decaf/util/concurrent/ConcurrentStlMap.h\<close> and \<open>StlMap.h\<close>, as lists in the order of a
    comparator.  The locale \<open>ordered_keys\<close> says when the comparator is an order; it is
    interpreted for the five kinds of identities (\<open>Restoring\<close>), for command numbers (\<open>Reconnecting\<close>) and for the names
    of queues (\<open>ConnectionAudit\<close>).
  \<^item> \<open>StateTracker\<close>: \<open>activemq/state\<close>, every method of the tracker and of the states it keeps.
    \<open>Restoring\<close> has the well-formed states, \<open>Registry\<close> the specification, \<open>Failover\<close> what
    \<open>restore\<close> sends, \<open>Tracking\<close> the life of a tracker as a step relation.
  \<^item> \<open>FailoverTransport\<close>, \<open>Reconnecting\<close>: \<open>activemq/transport/failover\<close>, a record that extends the
    one of the tracker.  Its field \<open>sleeps\<close> logs the times for which the reconnection task waits.

  \<^bold>\<open>What is shown.\<close>
  \<^item> End to end: among the dispatches of a queue each message is queued once and each repetition is
    answered by an acknowledgement of its own (\<open>Filtering\<close>); the messages of a transaction that
    is rolled back are again first in the channel, in their order and with their redelivery counted
    (\<open>Transactions\<close>); a receive without waiting returns in every state, with
    the first message that is neither expired nor over the redelivery limit (\<open>Receiving\<close>).
  \<^item> Acknowledgement: which messages each acknowledgement covers in the automatic, the batched and the
    client mode and at commit, what rollback sends below and at the redelivery limit (\<open>ConsumerAcks\<close>,
    \<open>Delivery\<close>).
  \<^item> Refinement: linked list, channels, hash map, cache, bit set, message audit and connection audit give,
    for every sequence of calls, the replies of a specification on lists, maps and sets.
  \<^item> The wire: every command that is sent in a frame, in the tight or the loose encoding and under any
    division of the bytes into chunks, is received, if it is within the limits of the format (\<open>transferable\<close>);
    the function \<open>sent\<close> says what becomes of it, field by field (\<open>OpenWire\<close>).
  \<^item> Failover: the tracker follows a registry of what is open, its states stay well-formed wherever a
    transport fails, what it sends to an empty broker rebuilds the registry, one-phase commits in doubt are not repeated
    (\<open>Tracking\<close>); a request whose sending fails reaches the next broker once, after the tracked
    state, no URI is lost, the waits of rounds that fail are multiplied up to the maximum (\<open>Reconnecting\<close>).  The
    specifications of what is in doubt (\<open>pending_commit\<close>) and of what a new connection is sent
    (\<open>recovery_commands\<close>) do not use the definitions of the code.
  \<^item> Behaviour under failure: where an operation throws and what is left of its state; the theorems of
    kind error state what the code does where it departs from what its names and comments say.

  \<^bold>\<open>Bounds and fuel.\<close>
  \<^item> Runs on hash maps and audits have at most \<open>2 ^ 26\<close> calls: the table then stays within the
    capacities that the code computes without overflow.  A cache of an audit holds 10000 producers, and
    sequence numbers below 2147483584 keep bit positions inside a C++ \<open>int\<close>.
  \<^item> A loop that follows pointers is a \<open>partial_function\<close> into \<open>option\<close>; that it ends is proved for every
    well-formed object.  \<open>dispatch\<close>, which calls itself, is one too.
  \<^item> The loop of the consumer's \<open>dequeue\<close> takes the number of rounds that are looked at.  Each round
    removes a message or ends the call, so one more round than there are messages is enough, as
    \<open>Receiving\<close> proves.  The loop of \<open>rollback\<close> over unacknowledged messages has the length of the list as
    fuel, and each round removes one.
  \<^item> A blocking wait reads the list of states of the channel that the waiting thread sees when it wakes
    up; a call that still sleeps at the end of that list has the result \<open>StillWaiting\<close>.
  \<^item> Marshalling an object takes the depth of the object, so that it always reaches the leaves; reading takes
    the length of the input and eight levels more, which no object in the input can exceed, and reading a
    primitive value takes one more than the length of the input.
  \<^item> \<open>FailoverTransport::oneway\<close> takes the number of attempts to send that are looked at and a schedule of
    what other threads do while it waits; \<open>None\<close> means that it has not returned.  Two attempts are
    enough if the next connection holds, and after a shutdown no number is.

  \<^bold>\<open>Assumptions of the consumer's model.\<close>  The session has this one consumer, which is registered once
  with its transaction; the application sets no message transformer and no message-available listener, and
  no options in the destination's name.  Counters of messages, and the counters of the collections (sizes and
  modification counts), are unbounded.  Threads are not interleaved
  inside a method that holds its lock.  The outcome of each request to the broker is a parameter of the
  run, as are the clock and the application's listener.

  \<^bold>\<open>Assumptions of the failover model.\<close>  A transport is the number of commands it still accepts with the
  log of what it was given.  Methods that hold \<open>reconnectMutex\<close> are atomic.  Backup transports are
  disabled, which is the default.  The order of identities is proved for names without white space and zero
  bytes, which the client's own names are; the comparison of others is not symmetric.

  \<^bold>\<open>Not modelled.\<close>  Sockets, SSL, files, logging and platform threads (wrappers over the operating
  system); zlib (third-party); the Stomp wire format and the negotiation of the OpenWire version; the response
  correlator, the inactivity monitor and the backup transports; session and connection management, timers and
  the task runners that drive the methods above; XA transactions; the producer; the accessors that the
  application uses on message bodies.
\<close>

end
